(* ===== verification/Prelude.thy ===== *)
theory Prelude
  imports Main "HOL-Library.Word"
begin

text \<open>
  Names, types and generic facts that every component of the model shares: the machine
  integers of the Rust code, results that carry a response code, state passing that keeps
  the state on an error (a Rust method that returns early through the question mark operator
  keeps the mutations it has already made), big endian octet strings, and arithmetic with
  saturation or a check.
\<close>

unbundle bit_operations_syntax

type_synonym u8 = "8 word"
type_synonym u16 = "16 word"
type_synonym u32 = "32 word"
type_synonym u64 = "64 word"
type_synonym bytes = "8 word list"

type_synonym tpm_rc = u32
type_synonym 'a tpm_result = "tpm_rc + 'a"

named_theorems model_simps \<open>unfolding of the small accessors of the model\<close>
named_theorems codec_simps \<open>round trips of the marshalling layer\<close>
named_theorems inv_intros \<open>preservation of component invariants\<close>

section \<open>Results\<close>

definition res_bind :: "'e + 'a \<Rightarrow> ('a \<Rightarrow> 'e + 'b) \<Rightarrow> 'e + 'b" where
  "res_bind m f = (case m of Inl e \<Rightarrow> Inl e | Inr x \<Rightarrow> f x)"

lemma res_bind_simps [simp]:
  "res_bind (Inl e) f = Inl e"
  "res_bind (Inr x) f = f x"
  by (simp_all add: res_bind_def)

lemma res_bind_eq_Inr:
  "res_bind m f = Inr y \<longleftrightarrow> (\<exists>x. m = Inr x \<and> f x = Inr y)"
  by (cases m) auto

lemma res_bind_assoc: "res_bind (res_bind m f) g = res_bind m (\<lambda>x. res_bind (f x) g)"
  by (cases m) auto

definition ok_or :: "'a option \<Rightarrow> 'e \<Rightarrow> 'e + 'a" where
  "ok_or x e = (case x of None \<Rightarrow> Inl e | Some v \<Rightarrow> Inr v)"

lemma ok_or_simps [simp]:
  "ok_or None e = Inl e"
  "ok_or (Some v) e = Inr v"
  by (simp_all add: ok_or_def)

lemma ok_or_eq_Inr [simp]: "ok_or x e = Inr v \<longleftrightarrow> x = Some v"
  by (cases x) auto

definition map_err :: "('e \<Rightarrow> 'f) \<Rightarrow> 'e + 'a \<Rightarrow> 'f + 'a" where
  "map_err g m = (case m of Inl e \<Rightarrow> Inl (g e) | Inr x \<Rightarrow> Inr x)"

lemma map_err_simps [simp]:
  "map_err g (Inl e) = Inl (g e)"
  "map_err g (Inr x) = Inr x"
  by (simp_all add: map_err_def)

lemma map_err_eq_Inr [simp]: "map_err g m = Inr x \<longleftrightarrow> m = Inr x"
  by (cases m) auto

definition is_ok :: "'e + 'a \<Rightarrow> bool" where
  "is_ok m = (case m of Inl _ \<Rightarrow> False | Inr _ \<Rightarrow> True)"

lemma is_ok_simps [simp]: "\<not> is_ok (Inl e)" "is_ok (Inr x)"
  by (simp_all add: is_ok_def)

lemma is_ok_iff: "is_ok m \<longleftrightarrow> (\<exists>x. m = Inr x)"
  by (cases m) auto

text \<open>
  Methods on \<open>&mut self\<close> that can fail are functions to a result and the new state. The
  combinator \<open>st_bind\<close> is the question mark operator: on an error the state reached so far
  is what the caller is left with.
\<close>

type_synonym ('s, 'a) st_op = "'s \<Rightarrow> 'a tpm_result \<times> 's"

definition st_bind :: "('s, 'a) st_op \<Rightarrow> ('a \<Rightarrow> ('s, 'b) st_op) \<Rightarrow> ('s, 'b) st_op" where
  "st_bind m f = (\<lambda>s. case m s of (Inl e, s') \<Rightarrow> (Inl e, s') | (Inr x, s') \<Rightarrow> f x s')"

definition st_return :: "'a \<Rightarrow> ('s, 'a) st_op" where
  "st_return x = (\<lambda>s. (Inr x, s))"

definition st_fail :: "tpm_rc \<Rightarrow> ('s, 'a) st_op" where
  "st_fail e = (\<lambda>s. (Inl e, s))"

definition st_lift :: "'a tpm_result \<Rightarrow> ('s, 'a) st_op" where
  "st_lift m = (\<lambda>s. (m, s))"

definition st_modify :: "('s \<Rightarrow> 's) \<Rightarrow> ('s, unit) st_op" where
  "st_modify f = (\<lambda>s. (Inr (), f s))"

lemma st_bind_apply:
  "st_bind m f s = (case fst (m s) of Inl e \<Rightarrow> (Inl e, snd (m s)) | Inr x \<Rightarrow> f x (snd (m s)))"
  by (simp add: st_bind_def split: prod.splits sum.splits)

lemma st_simps [simp]:
  "st_return x s = (Inr x, s)"
  "st_fail e s = (Inl e, s)"
  "st_lift m s = (m, s)"
  "st_modify f s = (Inr (), f s)"
  by (simp_all add: st_return_def st_fail_def st_lift_def st_modify_def)

section \<open>Arithmetic at a width\<close>

definition checked_sub :: "'a::len word \<Rightarrow> 'a word \<Rightarrow> 'a word option" where
  "checked_sub a b = (if b \<le> a then Some (a - b) else None)"

definition saturating_add :: "'a::len word \<Rightarrow> 'a word \<Rightarrow> 'a word" where
  "saturating_add a b = (if unat a + unat b < 2 ^ LENGTH('a) then a + b else - 1)"

definition saturating_sub :: "'a::len word \<Rightarrow> 'a word \<Rightarrow> 'a word" where
  "saturating_sub a b = (if b \<le> a then a - b else 0)"

lemma unat_max_word: "unat (- 1 :: 'a::len word) = 2 ^ LENGTH('a) - 1"
  by (simp add: unsigned_minus_1_eq_mask mask_eq_exp_minus_1)

lemma unat_saturating_add:
  "unat (saturating_add a (b :: 'a::len word)) = min (unat a + unat b) (2 ^ LENGTH('a) - 1)"
proof (cases "unat a + unat b < 2 ^ LENGTH('a)")
  case True
  then show ?thesis
    by (simp add: saturating_add_def unat_add_lem [THEN iffD1])
next
  case False
  then show ?thesis
    by (simp add: saturating_add_def unat_max_word)
qed

lemma unat_saturating_sub: "unat (saturating_sub a b) = unat a - unat b"
  by (auto simp: saturating_sub_def word_le_nat_alt unat_sub_if')

lemma checked_sub_Some: "checked_sub a b = Some c \<longleftrightarrow> b \<le> a \<and> c = a - b"
  by (auto simp: checked_sub_def)

lemma saturating_add_ge: "a \<le> saturating_add a (b :: 'a::len word)"
proof -
  have "unat a < 2 ^ LENGTH('a)" by (rule unsigned_less)
  then have "unat a \<le> 2 ^ LENGTH('a) - Suc 0" by linarith
  then show ?thesis
    by (simp add: word_le_nat_alt unat_saturating_add)
qed

text \<open>Dividing in two steps loses nothing when the remainder of the first is carried over.\<close>

lemma div_carry:
  fixes f s m :: "'a::euclidean_semiring_cancel"
  assumes "m \<noteq> 0"
  shows "(f + s) div m = f div m + (f mod m + s) div m"
proof -
  have "f + s = (f mod m + s) + m * (f div m)"
    by (metis add.assoc add.commute mod_mult_div_eq)
  then have "(f + s) div m = ((f mod m + s) + m * (f div m)) div m" by simp
  also have "\<dots> = f div m + (f mod m + s) div m" using assms by (rule div_mult_self2)
  finally show ?thesis .
qed

section \<open>Big endian octets\<close>

text \<open>
  The conversions \<open>to_be_bytes\<close> and \<open>from_be_bytes\<close> of the Rust integers: \<open>to_be n w\<close> is
  the low \<open>n\<close> octets of \<open>w\<close>, most significant first.
\<close>

fun to_be :: "nat \<Rightarrow> 'a::len word \<Rightarrow> bytes" where
  "to_be 0 w = []"
| "to_be (Suc n) w = ucast (drop_bit (8 * n) w) # to_be n w"

definition from_be :: "bytes \<Rightarrow> 'a::len word" where
  "from_be bs = foldl (\<lambda>acc b. push_bit 8 acc OR ucast b) 0 bs"

lemma length_to_be [simp]: "length (to_be n w) = n"
  by (induction n) auto

lemma foldl_to_be:
  "foldl (\<lambda>acc b. push_bit 8 acc OR ucast b) acc (to_be n w)
     = push_bit (8 * n) acc OR take_bit (8 * n) (w :: 'a::len word)"
proof (induction n arbitrary: acc)
  case 0
  then show ?case by simp
next
  case (Suc n)
  have "push_bit (8 * n) (push_bit 8 acc OR ucast (ucast (drop_bit (8 * n) w) :: u8))
          OR take_bit (8 * n) w
        = push_bit (8 * Suc n) acc OR take_bit (8 * Suc n) w"
    by (rule bit_word_eqI) (auto simp: bit_simps ac_simps less_diff_conv2)
  then show ?case
    by (simp add: Suc.IH)
qed

lemma from_be_to_be: "from_be (to_be n w) = take_bit (8 * n) (w :: 'a::len word)"
  by (simp add: from_be_def foldl_to_be)

lemma from_be_to_be_full [simp]:
  "from_be (to_be 1 (b :: u8)) = b"
  "from_be (to_be 2 (h :: u16)) = h"
  "from_be (to_be 4 (w :: u32)) = w"
  "from_be (to_be 8 (d :: u64)) = d"
  by (simp_all only: from_be_to_be) (simp_all add: take_bit_word_eq_self)

lemma to_be_inject:
  "to_be 2 (a :: u16) = to_be 2 b \<longleftrightarrow> a = b"
  "to_be 4 (c :: u32) = to_be 4 d \<longleftrightarrow> c = d"
  "to_be 8 (e :: u64) = to_be 8 f \<longleftrightarrow> e = f"
  by (metis from_be_to_be_full)+

section \<open>Lists\<close>

lemma nth_replicate_eq [simp]: "list_all (\<lambda>x. x = a) (replicate n a)"
  by (simp add: list_all_iff)

definition upd_slice :: "'a list \<Rightarrow> nat \<Rightarrow> 'a list \<Rightarrow> 'a list" where
  "upd_slice xs at ys = take at xs @ ys @ drop (at + length ys) xs"

definition slice :: "'a list \<Rightarrow> nat \<Rightarrow> nat \<Rightarrow> 'a list" where
  "slice xs from to = take (to - from) (drop from xs)"

lemma length_upd_slice [simp]:
  "at + length ys \<le> length xs \<Longrightarrow> length (upd_slice xs at ys) = length xs"
  by (simp add: upd_slice_def)

lemma length_slice: "to \<le> length xs \<Longrightarrow> length (slice xs from to) = to - from"
  by (simp add: slice_def)

lemma slice_upd_slice_same [simp]:
  "at + length ys \<le> length xs \<Longrightarrow> slice (upd_slice xs at ys) at (at + length ys) = ys"
  by (simp add: slice_def upd_slice_def)

lemma nth_upd_slice:
  assumes "at + length ys \<le> length xs" and "i < length xs"
  shows "upd_slice xs at ys ! i = (if at \<le> i \<and> i < at + length ys then ys ! (i - at) else xs ! i)"
  using assms by (auto simp: upd_slice_def nth_append min_def less_diff_conv2)

section \<open>Text\<close>

text \<open>The octets of a Rust string literal (all literals of the code are ASCII).\<close>

definition ascii :: "string \<Rightarrow> bytes" where
  "ascii s = map (\<lambda>c. of_char c) s"

lemma length_ascii [simp]: "length (ascii s) = length s"
  by (simp add: ascii_def)

section \<open>Components as step functions\<close>

text \<open>
  The contract a component's operations share: each keeps the invariant, so every run does, and
  so every state in a run of operations from a good state is good. A component interprets this
  locale on its own operations.
\<close>

definition run_steps :: "('op \<Rightarrow> 's \<Rightarrow> 's) \<Rightarrow> 'op list \<Rightarrow> 's \<Rightarrow> 's" where
  "run_steps step ops s = foldl (\<lambda>s op. step op s) s ops"

lemma run_steps_simps [simp]:
  "run_steps step [] s = s"
  "run_steps step (op # ops) s = run_steps step ops (step op s)"
  by (simp_all add: run_steps_def)

lemma run_steps_append: "run_steps step (a @ b) s = run_steps step b (run_steps step a s)"
  by (simp add: run_steps_def)

locale invariant_steps =
  fixes step :: "'op \<Rightarrow> 's \<Rightarrow> 's"
    and inv :: "'s \<Rightarrow> bool"
  assumes step_inv: "inv s \<Longrightarrow> inv (step op s)"
begin

lemma run_inv: "inv s \<Longrightarrow> inv (run_steps step ops s)"
  by (induction ops arbitrary: s) (simp_all add: step_inv)

lemma run_prefix_inv: "inv s \<Longrightarrow> ops = a @ b \<Longrightarrow> inv (run_steps step a s)"
  by (simp add: run_inv)

end

text \<open>An operation that also never decreases a measure of progress.\<close>

locale monotone_steps = invariant_steps step inv
  for step :: "'op \<Rightarrow> 's \<Rightarrow> 's" and inv :: "'s \<Rightarrow> bool" +
  fixes level :: "'s \<Rightarrow> nat"
  assumes step_mono: "inv s \<Longrightarrow> level s \<le> level (step op s)"
begin

lemma run_mono: "inv s \<Longrightarrow> level s \<le> level (run_steps step ops s)"
proof (induction ops arbitrary: s)
  case (Cons op ops)
  then show ?case
    using step_mono [of s op] step_inv [of s op] Cons.IH [of "step op s"] by (simp add: order_trans)
qed simp

lemma run_prefix_mono:
  assumes "inv s"
  shows "level (run_steps step a s) \<le> level (run_steps step (a @ b) s)"
  using assms by (simp add: run_steps_append run_mono run_inv)

end

end
