(* ===== verification/BTreeMap.thy ===== *)
theory BTreeMap
  imports Prelude
begin

text \<open>
  The ordered maps of the code (\<open>std::collections::BTreeMap\<close>): association lists in
  increasing key order, so that iteration is the code's iteration and equal maps are equal
  values. The interface the components rely on is the locale \<open>ordered_map\<close>, interpreted on
  these lists at the end.
\<close>

type_synonym ('k, 'v) btree = "('k \<times> 'v) list"

fun bt_insert :: "'k::linorder \<Rightarrow> 'v \<Rightarrow> ('k, 'v) btree \<Rightarrow> ('k, 'v) btree" where
  "bt_insert k v [] = [(k, v)]"
| "bt_insert k v ((k', v') # m) =
     (if k < k' then (k, v) # (k', v') # m
      else if k = k' then (k, v) # m
      else (k', v') # bt_insert k v m)"

definition bt_get :: "('k, 'v) btree \<Rightarrow> 'k \<Rightarrow> 'v option" where
  "bt_get m k = map_of m k"

definition bt_remove :: "'k \<Rightarrow> ('k, 'v) btree \<Rightarrow> ('k, 'v) btree" where
  "bt_remove k m = filter (\<lambda>(k', _). k' \<noteq> k) m"

definition bt_contains :: "('k, 'v) btree \<Rightarrow> 'k \<Rightarrow> bool" where
  "bt_contains m k = (bt_get m k \<noteq> None)"

definition bt_keys :: "('k, 'v) btree \<Rightarrow> 'k list" where
  "bt_keys m = map fst m"

definition bt_map :: "('k \<Rightarrow> 'v \<Rightarrow> 'w) \<Rightarrow> ('k, 'v) btree \<Rightarrow> ('k, 'w) btree" where
  "bt_map f m = map (\<lambda>(k, v). (k, f k v)) m"

definition bt_retain :: "('k \<Rightarrow> 'v \<Rightarrow> bool) \<Rightarrow> ('k, 'v) btree \<Rightarrow> ('k, 'v) btree" where
  "bt_retain P m = filter (\<lambda>(k, v). P k v) m"

text \<open>Replace the value at a key that is present, as \<open>get_mut\<close> lets the code do.\<close>

definition bt_update :: "'k \<Rightarrow> 'v \<Rightarrow> ('k, 'v) btree \<Rightarrow> ('k, 'v) btree" where
  "bt_update k v m = map (\<lambda>(k', v'). if k' = k then (k', v) else (k', v')) m"

definition bt_wf :: "('k::linorder, 'v) btree \<Rightarrow> bool" where
  "bt_wf m = sorted_wrt (<) (map fst m)"

lemma bt_get_Nil [simp]: "bt_get [] k = None"
  by (simp add: bt_get_def)

lemma bt_get_Cons [simp]: "bt_get ((k', v) # m) k = (if k = k' then Some v else bt_get m k)"
  by (auto simp: bt_get_def)

lemma bt_get_insert [simp]: "bt_get (bt_insert k v m) k' = (if k' = k then Some v else bt_get m k')"
  by (induction k v m rule: bt_insert.induct) auto

lemma bt_get_remove [simp]: "bt_get (bt_remove k m) k' = (if k' = k then None else bt_get m k')"
  by (induction m) (auto simp: bt_remove_def)

lemma bt_get_map [simp]: "bt_get (bt_map f m) k = map_option (f k) (bt_get m k)"
  by (induction m) (auto simp: bt_map_def)

lemma bt_get_update [simp]:
  "bt_get (bt_update k v m) k' = (if k' = k \<and> bt_get m k \<noteq> None then Some v else bt_get m k')"
  by (induction m) (auto simp: bt_update_def split: if_splits)

lemma bt_get_SomeD: "bt_get m k = Some v \<Longrightarrow> (k, v) \<in> set m"
  by (simp add: bt_get_def map_of_SomeD)

lemma bt_get_None_iff: "bt_get m k = None \<longleftrightarrow> k \<notin> fst ` set m"
  by (simp add: bt_get_def map_of_eq_None_iff)

lemma set_bt_keys [simp]: "set (bt_keys m) = {k. bt_get m k \<noteq> None}"
  by (auto simp: bt_keys_def bt_get_None_iff)

lemma bt_contains_iff: "bt_contains m k \<longleftrightarrow> k \<in> set (bt_keys m)"
  by (simp add: bt_contains_def)

lemma keys_bt_map [simp]: "map fst (bt_map f m) = map fst m"
  by (induction m) (auto simp: bt_map_def)

lemma keys_bt_update [simp]: "map fst (bt_update k v m) = map fst m"
  by (induction m) (auto simp: bt_update_def)

lemma bt_keys_map [simp]: "bt_keys (bt_map f m) = bt_keys m"
  by (simp add: bt_keys_def)

lemma bt_keys_update [simp]: "bt_keys (bt_update k v m) = bt_keys m"
  by (simp add: bt_keys_def)

lemma length_bt_map [simp]: "length (bt_map f m) = length m"
  by (simp add: bt_map_def)

lemma length_bt_update [simp]: "length (bt_update k v m) = length m"
  by (simp add: bt_update_def)

lemma fst_set_bt_insert [simp]: "fst ` set (bt_insert k v m) = insert k (fst ` set m)"
  by (induction k v m rule: bt_insert.induct) auto

lemma set_bt_insert_subset: "set (bt_insert k v m) \<subseteq> insert (k, v) (set m)"
  by (induction k v m rule: bt_insert.induct) auto

lemma bt_wf_Nil [simp]: "bt_wf []"
  by (simp add: bt_wf_def)

lemma bt_wf_Cons: "bt_wf ((k, v) # m) \<longleftrightarrow> (\<forall>k' \<in> fst ` set m. k < k') \<and> bt_wf m"
  by (auto simp: bt_wf_def)

lemma bt_wf_distinct: "bt_wf m \<Longrightarrow> distinct (map fst m)"
  by (simp add: bt_wf_def strict_sorted_iff)

lemma bt_wf_insert [simp]: "bt_wf m \<Longrightarrow> bt_wf (bt_insert k v m)"
  by (induction k v m rule: bt_insert.induct) (force simp: bt_wf_Cons)+

lemma bt_wf_filter: "bt_wf m \<Longrightarrow> bt_wf (filter P m)"
  by (induction m) (auto simp: bt_wf_Cons)

lemma bt_wf_remove [simp]: "bt_wf m \<Longrightarrow> bt_wf (bt_remove k m)"
  by (simp add: bt_remove_def bt_wf_filter)

lemma bt_wf_retain [simp]: "bt_wf m \<Longrightarrow> bt_wf (bt_retain P m)"
  by (simp add: bt_retain_def bt_wf_filter)

lemma bt_wf_map [simp]: "bt_wf (bt_map f m) = bt_wf m"
  by (simp add: bt_wf_def)

lemma bt_wf_update [simp]: "bt_wf (bt_update k v m) = bt_wf m"
  by (simp add: bt_wf_def)

lemma bt_wf_get: "bt_wf m \<Longrightarrow> (k, v) \<in> set m \<Longrightarrow> bt_get m k = Some v"
  by (simp add: bt_get_def bt_wf_distinct)

lemma bt_get_iff: "bt_wf m \<Longrightarrow> bt_get m k = Some v \<longleftrightarrow> (k, v) \<in> set m"
  by (auto dest: bt_get_SomeD bt_wf_get)

lemma bt_get_retain:
  assumes "bt_wf m"
  shows "bt_get (bt_retain P m) k
     = (case bt_get m k of None \<Rightarrow> None | Some v \<Rightarrow> if P k v then Some v else None)"
proof -
  have iff: "bt_get (bt_retain P m) k = Some v \<longleftrightarrow> bt_get m k = Some v \<and> P k v" for v
    using assms by (simp add: bt_get_iff) (auto simp: bt_retain_def)
  show ?thesis
  proof (cases "bt_get m k")
    case None
    with iff have "bt_get (bt_retain P m) k = None" by (metis not_None_eq option.distinct(1))
    with None show ?thesis by simp
  next
    case (Some v)
    show ?thesis
    proof (cases "P k v")
      case True
      with Some iff have "bt_get (bt_retain P m) k = Some v" by blast
      with Some True show ?thesis by simp
    next
      case False
      with Some iff have "bt_get (bt_retain P m) k = None" by (metis not_None_eq option.inject)
      with Some False show ?thesis by simp
    qed
  qed
qed

lemma length_bt_insert:
  "bt_wf m \<Longrightarrow> length (bt_insert k v m) = (if bt_contains m k then length m else Suc (length m))"
  by (induction k v m rule: bt_insert.induct)
     (auto simp: bt_contains_def bt_wf_Cons bt_get_None_iff dest!: bt_get_SomeD)

lemma length_bt_remove:
  "bt_wf m \<Longrightarrow> length (bt_remove k m) = (if bt_contains m k then length m - 1 else length m)"
proof (induction m)
  case Nil
  then show ?case by (simp add: bt_remove_def)
next
  case (Cons kv m)
  obtain k' v' where kv: "kv = (k', v')" by (cases kv)
  show ?case
  proof (cases "k' = k")
    case True
    with Cons.prems kv have "k \<notin> fst ` set m" by (auto simp: bt_wf_Cons)
    then have "filter (\<lambda>(k', _). k' \<noteq> k) m = m" by (force simp: filter_id_conv)
    with True kv show ?thesis by (simp add: bt_remove_def bt_contains_def)
  next
    case False
    moreover have "bt_contains m k \<Longrightarrow> 0 < length m" by (auto simp: bt_contains_def bt_get_def)
    ultimately show ?thesis
      using Cons kv by (auto simp: bt_remove_def bt_wf_Cons bt_contains_def)
  qed
qed

text \<open>Two ordered maps with the same lookups are the same map.\<close>

lemma bt_ext: "bt_wf m \<Longrightarrow> bt_wf n \<Longrightarrow> (\<And>k. bt_get m k = bt_get n k) \<Longrightarrow> m = n"
  by (rule map_sorted_distinct_set_unique [where f = fst])
     (auto simp: bt_wf_def strict_sorted_iff bt_get_iff [symmetric, unfolded bt_wf_def strict_sorted_iff]
       inj_on_def dest: bt_wf_get [unfolded bt_wf_def strict_sorted_iff, rotated])

section \<open>The interface\<close>

locale ordered_map =
  fixes get :: "'m \<Rightarrow> 'k \<Rightarrow> 'v option"
    and insert_at :: "'k \<Rightarrow> 'v \<Rightarrow> 'm \<Rightarrow> 'm"
    and remove_at :: "'k \<Rightarrow> 'm \<Rightarrow> 'm"
    and keys :: "'m \<Rightarrow> 'k list"
    and invar :: "'m \<Rightarrow> bool"
  assumes get_insert: "get (insert_at k v m) k' = (if k' = k then Some v else get m k')"
    and get_remove: "get (remove_at k m) k' = (if k' = k then None else get m k')"
    and keys_get: "set (keys m) = {k. get m k \<noteq> None}"
    and keys_distinct: "invar m \<Longrightarrow> distinct (keys m)"
    and invar_insert: "invar m \<Longrightarrow> invar (insert_at k v m)"
    and invar_remove: "invar m \<Longrightarrow> invar (remove_at k m)"
    and ext: "invar m \<Longrightarrow> invar n \<Longrightarrow> (\<And>k. get m k = get n k) \<Longrightarrow> m = n"
begin

lemma insert_fresh_count:
  assumes "invar m" and "get m k = None"
  shows "length (keys (insert_at k v m)) = Suc (length (keys m))"
proof -
  have "set (keys (insert_at k v m)) = insert k (set (keys m))"
    by (auto simp: keys_get get_insert)
  moreover have "k \<notin> set (keys m)" using assms(2) by (simp add: keys_get)
  ultimately show ?thesis
    using assms(1) by (metis card_insert_disjoint distinct_card invar_insert keys_distinct List.finite_set)
qed

lemma remove_present_count:
  assumes "invar m" and "get m k \<noteq> None"
  shows "Suc (length (keys (remove_at k m))) = length (keys m)"
proof -
  have "set (keys (remove_at k m)) = set (keys m) - {k}"
    by (auto simp: keys_get get_remove split: if_splits)
  moreover have "k \<in> set (keys m)" using assms(2) by (simp add: keys_get)
  ultimately show ?thesis
    using assms(1)
    by (metis List.finite_set card_Suc_Diff1 distinct_card invar_remove keys_distinct)
qed

lemma insert_remove:
  assumes "invar m" and "get m k = None"
  shows "remove_at k (insert_at k v m) = m"
  by (rule ext) (use assms in \<open>auto simp: invar_insert invar_remove get_insert get_remove\<close>)

lemma insert_commute:
  assumes "invar m" and "k \<noteq> l"
  shows "insert_at k v (insert_at l u m) = insert_at l u (insert_at k v m)"
  by (rule ext) (use assms in \<open>auto simp: invar_insert get_insert\<close>)

end

interpretation bt: ordered_map bt_get bt_insert bt_remove bt_keys
    "bt_wf :: ('k::linorder, 'v) btree \<Rightarrow> bool"
proof unfold_locales
  show "distinct (bt_keys m)" if "bt_wf m" for m :: "('k, 'v) btree"
    using that by (simp add: bt_keys_def bt_wf_distinct)
qed (simp_all, blast intro: bt_ext)

text \<open>A map is rebuilt from its entries by inserting them in order.\<close>

lemma bt_insert_last: "\<forall>k' \<in> set (bt_keys m). k' < k \<Longrightarrow> bt_insert k v m = m @ [(k, v)]"
proof (induction m)
  case (Cons kv m)
  then show ?case by (cases kv) (auto simp: bt_keys_def)
qed simp

lemma bt_wf_append_Cons:
  assumes "bt_wf (as @ (k, v) # bs)"
  shows "\<forall>k' \<in> set (bt_keys as). k' < k" and "bt_wf ((as @ [(k, v)]) @ bs)"
  using assms by (auto simp: bt_wf_def bt_keys_def sorted_wrt_append)

lemma insert_all: "bt_wf (n @ m) \<Longrightarrow> foldl (\<lambda>m (h, i). bt_insert h i m) n m = n @ m"
proof (induction m arbitrary: n)
  case (Cons hi m)
  then show ?case
    using bt_wf_append_Cons [of n "fst hi" "snd hi" m] by (simp add: bt_insert_last split_def)
qed simp

end
