(* ===== verification/ResponseCode.thy ===== *)
theory ResponseCode
  imports Prelude
begin

text \<open>
  The constant tables the model reads (\<open>src/tpm/constants.rs\<close>) and the response codes of
  \<open>src/tpm/error.rs\<close>: a code is its 32-bit value, and the qualifiers that name a handle, a
  parameter or a session are written into its bits exactly as the code writes them.
\<close>

section \<open>Constants\<close>

abbreviation (input) rc_SUCCESS :: u32 where "rc_SUCCESS \<equiv> 0x000"
abbreviation (input) rc_INITIALIZE :: u32 where "rc_INITIALIZE \<equiv> 0x100"
abbreviation (input) rc_FAILURE :: u32 where "rc_FAILURE \<equiv> 0x101"
abbreviation (input) rc_AUTH_TYPE :: u32 where "rc_AUTH_TYPE \<equiv> 0x124"
abbreviation (input) rc_AUTH_MISSING :: u32 where "rc_AUTH_MISSING \<equiv> 0x125"
abbreviation (input) rc_AUTH_UNAVAILABLE :: u32 where "rc_AUTH_UNAVAILABLE \<equiv> 0x12F"
abbreviation (input) rc_COMMAND_CODE :: u32 where "rc_COMMAND_CODE \<equiv> 0x143"
abbreviation (input) rc_COMMAND_SIZE :: u32 where "rc_COMMAND_SIZE \<equiv> 0x142"
abbreviation (input) rc_AUTHSIZE :: u32 where "rc_AUTHSIZE \<equiv> 0x144"
abbreviation (input) rc_AUTH_CONTEXT :: u32 where "rc_AUTH_CONTEXT \<equiv> 0x145"
abbreviation (input) rc_NV_RANGE :: u32 where "rc_NV_RANGE \<equiv> 0x146"
abbreviation (input) rc_NV_LOCKED :: u32 where "rc_NV_LOCKED \<equiv> 0x148"
abbreviation (input) rc_NV_AUTHORIZATION :: u32 where "rc_NV_AUTHORIZATION \<equiv> 0x149"
abbreviation (input) rc_NV_UNINITIALIZED :: u32 where "rc_NV_UNINITIALIZED \<equiv> 0x14A"
abbreviation (input) rc_NV_SPACE :: u32 where "rc_NV_SPACE \<equiv> 0x14B"
abbreviation (input) rc_NV_DEFINED :: u32 where "rc_NV_DEFINED \<equiv> 0x14C"
abbreviation (input) rc_BAD_CONTEXT :: u32 where "rc_BAD_CONTEXT \<equiv> 0x150"
abbreviation (input) rc_BAD_TAG :: u32 where "rc_BAD_TAG \<equiv> 0x01E"
abbreviation (input) rc_NO_RESULT :: u32 where "rc_NO_RESULT \<equiv> 0x154"
abbreviation (input) rc_READ_ONLY :: u32 where "rc_READ_ONLY \<equiv> 0x156"
abbreviation (input) rc_RC_FMT1 :: u32 where "rc_RC_FMT1 \<equiv> 0x080"
abbreviation (input) rc_ATTRIBUTES :: u32 where "rc_ATTRIBUTES \<equiv> 0x082"
abbreviation (input) rc_HASH :: u32 where "rc_HASH \<equiv> 0x083"
abbreviation (input) rc_VALUE :: u32 where "rc_VALUE \<equiv> 0x084"
abbreviation (input) rc_HIERARCHY :: u32 where "rc_HIERARCHY \<equiv> 0x085"
abbreviation (input) rc_TYPE :: u32 where "rc_TYPE \<equiv> 0x08A"
abbreviation (input) rc_HANDLE :: u32 where "rc_HANDLE \<equiv> 0x08B"
abbreviation (input) rc_RANGE :: u32 where "rc_RANGE \<equiv> 0x08D"
abbreviation (input) rc_AUTH_FAIL :: u32 where "rc_AUTH_FAIL \<equiv> 0x08E"
abbreviation (input) rc_PP :: u32 where "rc_PP \<equiv> 0x090"
abbreviation (input) rc_SIZE :: u32 where "rc_SIZE \<equiv> 0x095"
abbreviation (input) rc_SYMMETRIC :: u32 where "rc_SYMMETRIC \<equiv> 0x096"
abbreviation (input) rc_SELECTOR :: u32 where "rc_SELECTOR \<equiv> 0x098"
abbreviation (input) rc_INSUFFICIENT :: u32 where "rc_INSUFFICIENT \<equiv> 0x09A"
abbreviation (input) rc_POLICY_FAIL :: u32 where "rc_POLICY_FAIL \<equiv> 0x09D"
abbreviation (input) rc_POLICY_CC :: u32 where "rc_POLICY_CC \<equiv> 0x0A4"
abbreviation (input) rc_INTEGRITY :: u32 where "rc_INTEGRITY \<equiv> 0x09F"
abbreviation (input) rc_RESERVED_BITS :: u32 where "rc_RESERVED_BITS \<equiv> 0x0A1"
abbreviation (input) rc_BAD_AUTH :: u32 where "rc_BAD_AUTH \<equiv> 0x0A2"
abbreviation (input) rc_EXPIRED :: u32 where "rc_EXPIRED \<equiv> 0x0A3"
abbreviation (input) rc_SVN_LIMITED :: u32 where "rc_SVN_LIMITED \<equiv> 0x0A9"
abbreviation (input) rc_TOO_MANY_CONTEXTS :: u32 where "rc_TOO_MANY_CONTEXTS \<equiv> 0x12E"
abbreviation (input) rc_CONTEXT_GAP :: u32 where "rc_CONTEXT_GAP \<equiv> 0x901"
abbreviation (input) rc_OBJECT_MEMORY :: u32 where "rc_OBJECT_MEMORY \<equiv> 0x902"
abbreviation (input) rc_SESSION_MEMORY :: u32 where "rc_SESSION_MEMORY \<equiv> 0x903"
abbreviation (input) rc_SESSION_HANDLES :: u32 where "rc_SESSION_HANDLES \<equiv> 0x905"
abbreviation (input) rc_LOCALITY :: u32 where "rc_LOCALITY \<equiv> 0x907"
abbreviation (input) rc_REFERENCE_H0 :: u32 where "rc_REFERENCE_H0 \<equiv> 0x910"
abbreviation (input) rc_REFERENCE_S0 :: u32 where "rc_REFERENCE_S0 \<equiv> 0x918"
abbreviation (input) rc_LOCKOUT :: u32 where "rc_LOCKOUT \<equiv> 0x921"
abbreviation (input) rc_NV_UNAVAILABLE :: u32 where "rc_NV_UNAVAILABLE \<equiv> 0x923"
abbreviation (input) rc_PCR_CHANGED :: u32 where "rc_PCR_CHANGED \<equiv> 0x128"
abbreviation (input) rc_EXCLUSIVE :: u32 where "rc_EXCLUSIVE \<equiv> 0x121"
abbreviation (input) rc_MODE :: u32 where "rc_MODE \<equiv> 0x089"
abbreviation (input) rc_KEY_SIZE :: u32 where "rc_KEY_SIZE \<equiv> 0x087"
abbreviation (input) rc_KEY :: u32 where "rc_KEY \<equiv> 0x09C"
abbreviation (input) rc_CHANNEL :: u32 where "rc_CHANNEL \<equiv> 0x0B0"
abbreviation (input) rc_CPHASH :: u32 where "rc_CPHASH \<equiv> 0x151"
abbreviation (input) rc_POLICY :: u32 where "rc_POLICY \<equiv> 0x126"
abbreviation (input) rc_CURVE :: u32 where "rc_CURVE \<equiv> 0x0A6"
abbreviation (input) rc_TAG :: u32 where "rc_TAG \<equiv> 0x097"
abbreviation (input) rc_SCHEME :: u32 where "rc_SCHEME \<equiv> 0x092"
abbreviation (input) rc_DISABLED :: u32 where "rc_DISABLED \<equiv> 0x120"
abbreviation (input) rc_TICKET :: u32 where "rc_TICKET \<equiv> 0x0A0"
abbreviation (input) rc_NONCE :: u32 where "rc_NONCE \<equiv> 0x08F"
abbreviation (input) rc_H :: u32 where "rc_H \<equiv> 0x000"
abbreviation (input) rc_P :: u32 where "rc_P \<equiv> 0x040"
abbreviation (input) rc_S :: u32 where "rc_S \<equiv> 0x800"

abbreviation (input) alg_RSA :: u16 where "alg_RSA \<equiv> 0x0001"
abbreviation (input) alg_SHA1 :: u16 where "alg_SHA1 \<equiv> 0x0004"
abbreviation (input) alg_HMAC :: u16 where "alg_HMAC \<equiv> 0x0005"
abbreviation (input) alg_AES :: u16 where "alg_AES \<equiv> 0x0006"
abbreviation (input) alg_KEYEDHASH :: u16 where "alg_KEYEDHASH \<equiv> 0x0008"
abbreviation (input) alg_XOR :: u16 where "alg_XOR \<equiv> 0x000A"
abbreviation (input) alg_SHA256 :: u16 where "alg_SHA256 \<equiv> 0x000B"
abbreviation (input) alg_SHA384 :: u16 where "alg_SHA384 \<equiv> 0x000C"
abbreviation (input) alg_SHA512 :: u16 where "alg_SHA512 \<equiv> 0x000D"
abbreviation (input) alg_NULL :: u16 where "alg_NULL \<equiv> 0x0010"
abbreviation (input) alg_SM3_256 :: u16 where "alg_SM3_256 \<equiv> 0x0012"
abbreviation (input) alg_ECC :: u16 where "alg_ECC \<equiv> 0x0023"
abbreviation (input) alg_SYMCIPHER :: u16 where "alg_SYMCIPHER \<equiv> 0x0025"
abbreviation (input) alg_SHA3_256 :: u16 where "alg_SHA3_256 \<equiv> 0x0027"
abbreviation (input) alg_SHA3_384 :: u16 where "alg_SHA3_384 \<equiv> 0x0028"
abbreviation (input) alg_SHA3_512 :: u16 where "alg_SHA3_512 \<equiv> 0x0029"
abbreviation (input) alg_CTR :: u16 where "alg_CTR \<equiv> 0x0040"
abbreviation (input) alg_OFB :: u16 where "alg_OFB \<equiv> 0x0041"
abbreviation (input) alg_CBC :: u16 where "alg_CBC \<equiv> 0x0042"
abbreviation (input) alg_CFB :: u16 where "alg_CFB \<equiv> 0x0043"
abbreviation (input) alg_ECB :: u16 where "alg_ECB \<equiv> 0x0044"
abbreviation (input) st_NO_SESSIONS :: u16 where "st_NO_SESSIONS \<equiv> 0x8001"
abbreviation (input) st_SESSIONS :: u16 where "st_SESSIONS \<equiv> 0x8002"

abbreviation (input) su_CLEAR :: u16 where "su_CLEAR \<equiv> 0x0000"
abbreviation (input) su_STATE :: u16 where "su_STATE \<equiv> 0x0001"
abbreviation (input) su_NONE :: u16 where "su_NONE \<equiv> 0xFFFF"

abbreviation (input) se_HMAC :: u8 where "se_HMAC \<equiv> 0x00"
abbreviation (input) se_POLICY :: u8 where "se_POLICY \<equiv> 0x01"
abbreviation (input) se_TRIAL :: u8 where "se_TRIAL \<equiv> 0x03"

abbreviation (input) rh_OWNER :: u32 where "rh_OWNER \<equiv> 0x40000001"
abbreviation (input) rh_NULL :: u32 where "rh_NULL \<equiv> 0x40000007"
abbreviation (input) rh_UNASSIGNED :: u32 where "rh_UNASSIGNED \<equiv> 0x40000008"
abbreviation (input) rh_RS_PW :: u32 where "rh_RS_PW \<equiv> 0x40000009"
abbreviation (input) rh_LOCKOUT :: u32 where "rh_LOCKOUT \<equiv> 0x4000000A"
abbreviation (input) rh_ENDORSEMENT :: u32 where "rh_ENDORSEMENT \<equiv> 0x4000000B"
abbreviation (input) rh_PLATFORM :: u32 where "rh_PLATFORM \<equiv> 0x4000000C"
abbreviation (input) rh_PLATFORM_NV :: u32 where "rh_PLATFORM_NV \<equiv> 0x4000000D"
abbreviation (input) rh_ACT_0 :: u32 where "rh_ACT_0 \<equiv> 0x40000110"
abbreviation (input) rh_ACT_F :: u32 where "rh_ACT_F \<equiv> 0x4000011F"
abbreviation (input) rh_FW_OWNER :: u32 where "rh_FW_OWNER \<equiv> 0x40000140"
abbreviation (input) rh_FW_ENDORSEMENT :: u32 where "rh_FW_ENDORSEMENT \<equiv> 0x40000141"
abbreviation (input) rh_FW_PLATFORM :: u32 where "rh_FW_PLATFORM \<equiv> 0x40000142"
abbreviation (input) rh_FW_NULL :: u32 where "rh_FW_NULL \<equiv> 0x40000143"

abbreviation (input) hc_HMAC_SESSION_FIRST :: u32 where "hc_HMAC_SESSION_FIRST \<equiv> 0x02000000"
abbreviation (input) hc_HMAC_SESSION_LAST :: u32 where "hc_HMAC_SESSION_LAST \<equiv> 0x0200003F"
abbreviation (input) hc_POLICY_SESSION_FIRST :: u32 where "hc_POLICY_SESSION_FIRST \<equiv> 0x03000000"
abbreviation (input) hc_POLICY_SESSION_LAST :: u32 where "hc_POLICY_SESSION_LAST \<equiv> 0x0300003F"
abbreviation (input) hc_PCR_FIRST :: u32 where "hc_PCR_FIRST \<equiv> 0"
abbreviation (input) hc_PCR_LAST :: u32 where "hc_PCR_LAST \<equiv> 23"
abbreviation (input) hc_TRANSIENT_FIRST :: u32 where "hc_TRANSIENT_FIRST \<equiv> 0x80000000"
abbreviation (input) hc_TRANSIENT_LAST :: u32 where "hc_TRANSIENT_LAST \<equiv> 0x8000001F"
abbreviation (input) hc_PERSISTENT_FIRST :: u32 where "hc_PERSISTENT_FIRST \<equiv> 0x81000000"
abbreviation (input) hc_PERSISTENT_LAST :: u32 where "hc_PERSISTENT_LAST \<equiv> 0x81FFFFFF"
abbreviation (input) hc_PLATFORM_PERSISTENT :: u32 where "hc_PLATFORM_PERSISTENT \<equiv> 0x81800000"
abbreviation (input) hc_NV_INDEX_FIRST :: u32 where "hc_NV_INDEX_FIRST \<equiv> 0x01000000"
abbreviation (input) hc_NV_INDEX_LAST :: u32 where "hc_NV_INDEX_LAST \<equiv> 0x01FFFFFF"
abbreviation (input) hc_SVN_OWNER_FIRST :: u32 where "hc_SVN_OWNER_FIRST \<equiv> 0x40010000"
abbreviation (input) hc_SVN_OWNER_LAST :: u32 where "hc_SVN_OWNER_LAST \<equiv> 0x4001FFFF"
abbreviation (input) hc_SVN_ENDORSEMENT_FIRST :: u32 where "hc_SVN_ENDORSEMENT_FIRST \<equiv> 0x40020000"
abbreviation (input) hc_SVN_ENDORSEMENT_LAST :: u32 where "hc_SVN_ENDORSEMENT_LAST \<equiv> 0x4002FFFF"
abbreviation (input) hc_SVN_PLATFORM_FIRST :: u32 where "hc_SVN_PLATFORM_FIRST \<equiv> 0x40030000"
abbreviation (input) hc_SVN_PLATFORM_LAST :: u32 where "hc_SVN_PLATFORM_LAST \<equiv> 0x4003FFFF"
abbreviation (input) hc_SVN_NULL_FIRST :: u32 where "hc_SVN_NULL_FIRST \<equiv> 0x40040000"
abbreviation (input) hc_SVN_NULL_LAST :: u32 where "hc_SVN_NULL_LAST \<equiv> 0x4004FFFF"

section \<open>Response codes\<close>

definition is_format_one :: "tpm_rc \<Rightarrow> bool" where
  "is_format_one c = (c AND 0x080 \<noteq> 0)"

text \<open>Format-one codes occupy 0x080 through 0x0BF before qualification.\<close>

definition is_base_format_one :: "tpm_rc \<Rightarrow> bool" where
  "is_base_format_one c = (0x080 \<le> c \<and> c \<le> 0x0BF)"

definition qualify :: "tpm_rc \<Rightarrow> u32 \<Rightarrow> nat \<Rightarrow> nat \<Rightarrow> tpm_rc" where
  "qualify c kind index limit =
     (if \<not> is_base_format_one c then c
      else if index = 0 \<or> limit < index then c
      else (let base = c AND 0x03F
            in rc_RC_FMT1 OR base OR kind OR push_bit 8 (of_nat index)))"

definition with_handle :: "nat \<Rightarrow> tpm_rc \<Rightarrow> tpm_rc" where
  "with_handle index c = qualify c rc_H index 7"

definition with_parameter :: "nat \<Rightarrow> tpm_rc \<Rightarrow> tpm_rc" where
  "with_parameter index c = qualify c rc_P index 15"

definition with_session :: "nat \<Rightarrow> tpm_rc \<Rightarrow> tpm_rc" where
  "with_session index c = qualify c rc_S index 7"

definition at_parameter :: "nat \<Rightarrow> tpm_rc \<Rightarrow> tpm_rc" where
  "at_parameter index c =
     (if \<not> is_format_one c then c
      else with_parameter index (rc_RC_FMT1 OR (c AND 0x03F)))"

definition is_warning :: "tpm_rc \<Rightarrow> bool" where
  "is_warning c = (\<not> is_format_one c \<and> c AND 0x800 \<noteq> 0)"

definition is_success :: "tpm_rc \<Rightarrow> bool" where
  "is_success c = (c = rc_SUCCESS)"

lemma parameter_numbers:
  assumes "1 \<le> (i::nat)" and "i \<le> 15"
  shows "i \<in> {1, 2, 3, 4, 5, 6, 7, 8, 9, 10, 11, 12, 13, 14, 15}"
  using assms by (simp, arith)

text \<open>The base codes, one by one: 64 values, small enough to check each.\<close>

lemma base_format_one_cases:
  assumes "is_base_format_one c"
  obtains k where "k < 64" and "c = of_nat (0x80 + k)"
proof -
  have "0x80 \<le> unat c" and "unat c \<le> 0xBF"
    using assms by (simp_all add: is_base_format_one_def word_le_nat_alt)
  then have "unat c - 0x80 < 64" and "c = of_nat (0x80 + (unat c - 0x80))"
    by (simp_all del: of_nat_add)
  then show thesis by (rule that)
qed

lemma base_low_bits:
  assumes "is_base_format_one c"
  shows "rc_RC_FMT1 OR (c AND 0x03F) = c"
proof -
  obtain k where k: "k < 64" and c: "c = of_nat (0x80 + k)"
    using assms by (rule base_format_one_cases)
  have "k \<in> set [0..<64]" using k by simp
  then show ?thesis unfolding c by (simp add: upt_rec) (elim disjE; simp)
qed

lemma base_number_field:
  assumes "is_base_format_one c"
  shows "drop_bit 8 c = 0"
proof -
  obtain k where k: "k < 64" and c: "c = of_nat (0x80 + k)"
    using assms by (rule base_format_one_cases)
  have "k \<in> set [0..<64]" using k by simp
  then show ?thesis unfolding c by (simp add: upt_rec) (elim disjE; simp)
qed

lemma with_parameter_base:
  "is_base_format_one c \<Longrightarrow> 1 \<le> i \<Longrightarrow> i \<le> 15 \<Longrightarrow>
     with_parameter i c = rc_RC_FMT1 OR (c AND 0x03F) OR rc_P OR push_bit 8 (of_nat i)"
  by (simp add: with_parameter_def qualify_def)

lemma parameter_qualifier:
  assumes base: "is_base_format_one c" and lo: "1 \<le> i" and hi: "i \<le> 15"
  shows "with_parameter i c AND 0x03F = c AND 0x03F"
    and "drop_bit 8 (with_parameter i c) = of_nat i"
    and "is_format_one (with_parameter i c)"
    and "with_parameter j (with_parameter i c) = with_parameter i c"
    and "at_parameter j (with_parameter i c) = with_parameter j c"
proof -
  let ?q = "with_parameter i c"
  show low: "?q AND 0x03F = c AND 0x03F"
    using parameter_numbers [OF lo hi]
    by (elim insertE emptyE) (simp_all add: with_parameter_base [OF base] bit.conj_disj_distrib2 and.assoc)
  show num: "drop_bit 8 ?q = of_nat i"
    using parameter_numbers [OF lo hi]
    by (elim insertE emptyE) (simp_all add: with_parameter_base [OF base])
  show fmt: "is_format_one ?q"
    using parameter_numbers [OF lo hi]
    by (elim insertE emptyE) (simp_all add: with_parameter_base [OF base] is_format_one_def
      bit.conj_disj_distrib2 and.assoc)
  have "\<not> is_base_format_one ?q"
  proof
    assume "is_base_format_one ?q"
    then have "drop_bit 8 ?q = 0" by (rule base_number_field)
    with num have "(of_nat i :: u32) = 0" by simp
    then show False using parameter_numbers [OF lo hi] by (elim insertE emptyE) simp_all
  qed
  then show "with_parameter j ?q = ?q"
    by (simp add: with_parameter_def qualify_def)
  show "at_parameter j ?q = with_parameter j c"
    using fmt low base_low_bits [OF base] by (simp add: at_parameter_def)
qed

text \<open>A base format-one code qualified with a parameter number is still format one, keeps
  its low six bits, carries the number in the bits from eight up, is not qualified a second time,
  and can be moved to another parameter as if it had been qualified there at first.\<close>

theorem parameter_qualifier_reads_back:
  assumes "is_base_format_one c" and "1 \<le> i" and "i \<le> 15"
  shows "is_format_one (with_parameter i c)
    \<and> with_parameter i c AND 0x03F = c AND 0x03F
    \<and> drop_bit 8 (with_parameter i c) = of_nat i
    \<and> with_parameter j (with_parameter i c) = with_parameter i c
    \<and> at_parameter j (with_parameter i c) = with_parameter j c"
  using parameter_qualifier [OF assms] by blast

theorem parameter_qualifier_reads_back_witness:
  "is_base_format_one 0x084
    \<and> is_format_one (with_parameter 3 0x084)
    \<and> with_parameter 3 0x084 AND 0x03F = 0x084 AND 0x03F
    \<and> drop_bit 8 (with_parameter 3 0x084) = of_nat 3
    \<and> with_parameter 2 (with_parameter 3 0x084) = with_parameter 3 0x084
    \<and> at_parameter 2 (with_parameter 3 0x084) = with_parameter 2 0x084"
  using parameter_qualifier_reads_back [of "0x084" 3 2]
  by (simp add: is_base_format_one_def)

end
