(* ===== verification/Marshal.thy ===== *)
theory Marshal
  imports ResponseCode
begin

text \<open>
  Canonical marshalling (\<open>src/tpm/marshal.rs\<close>). A \<open>reader\<close> is the buffer and the position in
  it, a \<open>writer\<close> is the octets written so far and the overflow flag. The contract between a
  type's \<open>Marshal\<close> and \<open>Unmarshal\<close> implementations is the locale \<open>codec\<close>; what every
  unmarshalling keeps of the reader is the locale \<open>decoder\<close>, which \<open>codec\<close> extends.
\<close>

section \<open>Reader\<close>

record reader =
  rbuf :: bytes
  rpos :: nat

definition reader_new :: "bytes \<Rightarrow> reader" where
  "reader_new b = \<lparr>rbuf = b, rpos = 0\<rparr>"

definition remaining :: "reader \<Rightarrow> nat" where
  "remaining r = length (rbuf r) - rpos r"

definition expect_end :: "reader \<Rightarrow> unit tpm_result" where
  "expect_end r = (if remaining r = 0 then Inr () else Inl rc_SIZE)"

definition r_is_empty :: "reader \<Rightarrow> bool" where
  "r_is_empty r = (remaining r = 0)"

definition rest :: "reader \<Rightarrow> bytes" where
  "rest r = drop (rpos r) (rbuf r)"

definition r_take :: "nat \<Rightarrow> reader \<Rightarrow> (bytes \<times> reader) tpm_result" where
  "r_take n r =
     (if remaining r < n then Inl rc_INSUFFICIENT
      else Inr (slice (rbuf r) (rpos r) (rpos r + n), r\<lparr>rpos := rpos r + n\<rparr>))"

definition take_rest :: "reader \<Rightarrow> bytes \<times> reader" where
  "take_rest r = (drop (rpos r) (rbuf r), r\<lparr>rpos := length (rbuf r)\<rparr>)"

text \<open>A reader over a sub range, used to unmarshal sized buffers.\<close>

definition r_sub :: "nat \<Rightarrow> reader \<Rightarrow> (reader \<times> reader) tpm_result" where
  "r_sub n r = res_bind (r_take n r) (\<lambda>(b, r). Inr (reader_new b, r))"

definition r_u8 :: "reader \<Rightarrow> (u8 \<times> reader) tpm_result" where
  "r_u8 r = res_bind (r_take 1 r) (\<lambda>(b, r). Inr (b ! 0, r))"

definition r_u16 :: "reader \<Rightarrow> (u16 \<times> reader) tpm_result" where
  "r_u16 r = res_bind (r_take 2 r) (\<lambda>(b, r). Inr (from_be b, r))"

definition r_u32 :: "reader \<Rightarrow> (u32 \<times> reader) tpm_result" where
  "r_u32 r = res_bind (r_take 4 r) (\<lambda>(b, r). Inr (from_be b, r))"

definition r_u64 :: "reader \<Rightarrow> (u64 \<times> reader) tpm_result" where
  "r_u64 r = res_bind (r_take 8 r) (\<lambda>(b, r). Inr (from_be b, r))"

section \<open>Writer\<close>

record writer =
  wbuf :: bytes
  overflow :: bool

definition writer_new :: writer where
  "writer_new = \<lparr>wbuf = [], overflow = False\<rparr>"

definition w_finish :: "writer \<Rightarrow> bytes tpm_result" where
  "w_finish w = (if overflow w then Inl rc_SIZE else Inr (wbuf w))"

definition w_bytes :: "bytes \<Rightarrow> writer \<Rightarrow> writer" where
  "w_bytes b w = w\<lparr>wbuf := wbuf w @ b\<rparr>"

definition w_u8 :: "u8 \<Rightarrow> writer \<Rightarrow> writer" where
  "w_u8 v w = w\<lparr>wbuf := wbuf w @ [v]\<rparr>"

definition w_u16 :: "u16 \<Rightarrow> writer \<Rightarrow> writer" where
  "w_u16 v w = w\<lparr>wbuf := wbuf w @ to_be 2 v\<rparr>"

definition w_u32 :: "u32 \<Rightarrow> writer \<Rightarrow> writer" where
  "w_u32 v w = w\<lparr>wbuf := wbuf w @ to_be 4 v\<rparr>"

definition w_u64 :: "u64 \<Rightarrow> writer \<Rightarrow> writer" where
  "w_u64 v w = w\<lparr>wbuf := wbuf w @ to_be 8 v\<rparr>"

text \<open>A UINT16 length and the body, as a TPM2B is written.\<close>

definition sized16 :: "bytes \<Rightarrow> writer \<Rightarrow> writer" where
  "sized16 body w =
     w_bytes body
       (if length body < 2 ^ 16 then w_u16 (of_nat (length body)) w
        else w_u16 0 (w\<lparr>overflow := True\<rparr>))"

text \<open>The length field is reserved, the body written, and the length filled in.\<close>

definition sized16_with :: "(writer \<Rightarrow> writer) \<Rightarrow> writer \<Rightarrow> writer" where
  "sized16_with f w =
     (let at = length (wbuf w);
          w1 = w_u16 0 w;
          start = length (wbuf w1);
          w2 = f w1;
          n = length (wbuf w2) - start
      in if n < 2 ^ 16 then w2\<lparr>wbuf := upd_slice (wbuf w2) at (to_be 2 (of_nat n :: u16))\<rparr>
         else w2\<lparr>overflow := True\<rparr>)"

section \<open>The Marshal and Unmarshal traits\<close>

definition to_bytes :: "('a \<Rightarrow> writer \<Rightarrow> writer) \<Rightarrow> 'a \<Rightarrow> bytes" where
  "to_bytes put v = wbuf (put v writer_new)"

definition from_bytes :: "(reader \<Rightarrow> ('a \<times> reader) tpm_result) \<Rightarrow> bytes \<Rightarrow> 'a tpm_result" where
  "from_bytes get b =
     res_bind (get (reader_new b)) (\<lambda>(v, r). if \<not> r_is_empty r then Inl rc_SIZE else Inr v)"

fun unmarshal_items ::
  "(reader \<Rightarrow> ('a \<times> reader) tpm_result) \<Rightarrow> nat \<Rightarrow> reader \<Rightarrow> ('a list \<times> reader) tpm_result" where
  "unmarshal_items get 0 r = Inr ([], r)"
| "unmarshal_items get (Suc n) r =
     res_bind (get r) (\<lambda>(x, r). res_bind (unmarshal_items get n r) (\<lambda>(xs, r). Inr (x # xs, r)))"

definition unmarshal_list ::
  "(reader \<Rightarrow> ('a \<times> reader) tpm_result) \<Rightarrow> nat \<Rightarrow> reader \<Rightarrow> ('a list \<times> reader) tpm_result" where
  "unmarshal_list get limit r =
     res_bind (r_u32 r) (\<lambda>(count, r).
       if limit < unat count then Inl rc_SIZE else unmarshal_items get (unat count) r)"

definition marshal_list :: "('a \<Rightarrow> writer \<Rightarrow> writer) \<Rightarrow> 'a list \<Rightarrow> writer \<Rightarrow> writer" where
  "marshal_list put items w = foldl (\<lambda>w x. put x w) (w_u32 (of_nat (length items)) w) items"

text \<open>
  The shape of a TPM2B that holds a structure (\<open>TPM2B_NV_PUBLIC\<close> and its like): a sized
  reader over the body, which has to be consumed whole.
\<close>

definition unmarshal_sized :: "(reader \<Rightarrow> ('a \<times> reader) tpm_result) \<Rightarrow> reader \<Rightarrow> ('a \<times> reader) tpm_result" where
  "unmarshal_sized get r =
     res_bind (r_u16 r) (\<lambda>(size, r).
       res_bind (r_sub (unat size) r) (\<lambda>(inner, r).
         res_bind (get inner) (\<lambda>(v, inner).
           if \<not> r_is_empty inner then Inl rc_SIZE else Inr (v, r))))"

section \<open>What reading does to the reader\<close>

definition advance :: "nat \<Rightarrow> reader \<Rightarrow> reader" where
  "advance n r = r\<lparr>rpos := rpos r + n\<rparr>"

lemma advance_simps [simp]:
  "advance 0 r = r"
  "advance m (advance n r) = advance (n + m) r"
  "rbuf (advance n r) = rbuf r"
  "rpos (advance n r) = rpos r + n"
  by (simp_all add: advance_def ac_simps)

lemma rest_advance [simp]: "rest (advance n r) = drop n (rest r)"
  by (simp add: rest_def ac_simps)

lemma rest_reader_new [simp]: "rest (reader_new b) = b"
  by (simp add: rest_def reader_new_def)

lemma length_rest: "length (rest r) = remaining r"
  by (simp add: rest_def remaining_def)

lemma r_is_empty_iff [simp]: "r_is_empty r \<longleftrightarrow> rest r = []"
  by (simp add: r_is_empty_def flip: length_rest)

lemma remaining_advance [simp]: "remaining (advance n r) = remaining r - n"
  by (simp add: remaining_def)

lemma r_take_eq:
  "r_take n r = (if length (rest r) < n then Inl rc_INSUFFICIENT
                 else Inr (take n (rest r), advance n r))"
  by (simp add: r_take_def remaining_def advance_def slice_def rest_def)

lemma r_take_append [codec_simps]:
  "rest r = bs @ t \<Longrightarrow> length bs = n \<Longrightarrow> r_take n r = Inr (bs, advance n r)"
  by (auto simp: r_take_eq)

lemma r_take_Inr:
  "r_take n r = Inr (b, r') \<longleftrightarrow> n \<le> remaining r \<and> b = take n (rest r) \<and> r' = advance n r"
  by (auto simp: r_take_eq length_rest split: if_splits)

lemma r_u8_append [codec_simps]: "rest r = v # t \<Longrightarrow> r_u8 r = Inr (v, advance 1 r)"
  by (simp add: r_u8_def r_take_append [where bs = "[v]" and t = t])

lemma r_u16_append [codec_simps]:
  "rest r = to_be 2 v @ t \<Longrightarrow> r_u16 r = Inr (v, advance 2 r)"
  by (simp add: r_u16_def r_take_append [where bs = "to_be 2 v" and t = t])

lemma r_u32_append [codec_simps]:
  "rest r = to_be 4 v @ t \<Longrightarrow> r_u32 r = Inr (v, advance 4 r)"
  by (simp add: r_u32_def r_take_append [where bs = "to_be 4 v" and t = t])

lemma r_u64_append [codec_simps]:
  "rest r = to_be 8 v @ t \<Longrightarrow> r_u64 r = Inr (v, advance 8 r)"
  by (simp add: r_u64_def r_take_append [where bs = "to_be 8 v" and t = t])

lemma wbuf_writes [simp]:
  "wbuf (w_bytes b w) = wbuf w @ b"
  "wbuf (w_u8 o8 w) = wbuf w @ [o8]"
  "wbuf (w_u16 o16 w) = wbuf w @ to_be 2 o16"
  "wbuf (w_u32 o32 w) = wbuf w @ to_be 4 o32"
  "wbuf (w_u64 o64 w) = wbuf w @ to_be 8 o64"
  by (simp_all add: w_bytes_def w_u8_def w_u16_def w_u32_def w_u64_def)

definition emit :: "bytes \<Rightarrow> writer \<Rightarrow> writer" where
  "emit b w = w\<lparr>wbuf := wbuf w @ b\<rparr>"

lemma emit_simps [simp]:
  "emit [] w = w"
  "emit c (emit b w) = emit (b @ c) w"
  "wbuf (emit b w) = wbuf w @ b"
  "overflow (emit b w) = overflow w"
  by (simp_all add: emit_def)

lemma writes_emit:
  "w_bytes b = emit b"
  "w_u8 o8 = emit [o8]"
  "w_u16 o16 = emit (to_be 2 o16)"
  "w_u32 o32 = emit (to_be 4 o32)"
  "w_u64 o64 = emit (to_be 8 o64)"
  by (simp_all add: fun_eq_iff emit_def w_bytes_def w_u8_def w_u16_def w_u32_def w_u64_def)

definition enc_sized16 :: "bytes \<Rightarrow> bytes" where
  "enc_sized16 b = to_be 2 (of_nat (length b) :: u16) @ b"

lemma sized16_emit: "length b < 2 ^ 16 \<Longrightarrow> sized16 b = emit (enc_sized16 b)"
  by (simp add: fun_eq_iff sized16_def writes_emit enc_sized16_def)

lemma sized16_with_emit:
  assumes "\<And>w. f w = emit b w" and "length b < 2 ^ 16"
  shows "sized16_with f w = emit (enc_sized16 b) w"
  using assms(2)
  by (simp add: sized16_with_def assms(1) writes_emit Let_def upd_slice_def enc_sized16_def emit_def)

text \<open>A successful read leaves the buffer alone and moves forward within it.\<close>

definition consumes :: "reader \<Rightarrow> reader \<Rightarrow> bool" where
  "consumes r r' \<longleftrightarrow> (\<exists>n \<le> remaining r. r' = advance n r)"

lemma consumes_refl [simp]: "consumes r r"
  by (auto simp: consumes_def intro!: exI [of _ 0])

lemma consumes_trans: "consumes r r' \<Longrightarrow> consumes r' r'' \<Longrightarrow> consumes r r''"
proof -
  assume "consumes r r'" and "consumes r' r''"
  then obtain n m where "n \<le> remaining r" "r' = advance n r" "m \<le> remaining r'" "r'' = advance m r'"
    by (auto simp: consumes_def)
  then show "consumes r r''"
    unfolding consumes_def by (intro exI [of _ "n + m"]) simp
qed

lemma r_take_consumes: "r_take n r = Inr (b, r') \<Longrightarrow> consumes r r'"
  by (auto simp: r_take_Inr consumes_def)

lemma r_int_consumes:
  "r_u8 r = Inr (a, r') \<Longrightarrow> consumes r r'"
  "r_u16 r = Inr (b, r') \<Longrightarrow> consumes r r'"
  "r_u32 r = Inr (c, r') \<Longrightarrow> consumes r r'"
  "r_u64 r = Inr (d, r') \<Longrightarrow> consumes r r'"
  by (auto simp: r_u8_def r_u16_def r_u32_def r_u64_def res_bind_eq_Inr intro: r_take_consumes)

lemma r_sub_consumes: "r_sub n r = Inr (i, r') \<Longrightarrow> consumes r r'"
  by (auto simp: r_sub_def res_bind_eq_Inr intro: r_take_consumes)

lemmas reads_consume = r_take_consumes r_int_consumes r_sub_consumes

lemma unat_of_nat_u16: "n < 2 ^ 16 \<Longrightarrow> unat (of_nat n :: u16) = n"
  by (simp add: unat_of_nat)

lemma unat_of_nat_u64: "n < 2 ^ 64 \<Longrightarrow> unat (of_nat n :: u64) = n"
  by (simp add: unat_of_nat)

lemma unat_of_nat_u32: "n < 2 ^ 32 \<Longrightarrow> unat (of_nat n :: u32) = n"
  by (simp add: unat_of_nat)

section \<open>The contracts\<close>

locale decoder =
  fixes get :: "reader \<Rightarrow> ('a \<times> reader) tpm_result"
  assumes get_consumes: "get r = Inr (x, r') \<Longrightarrow> consumes r r'"
begin

lemma items_consume: "unmarshal_items get n r = Inr (xs, r') \<Longrightarrow> consumes r r'"
  by (induction n arbitrary: r xs)
     (auto simp: res_bind_eq_Inr, blast intro: consumes_trans get_consumes)

lemma items_length: "unmarshal_items get n r = Inr (xs, r') \<Longrightarrow> length xs = n"
  by (induction n arbitrary: r xs) (auto simp: res_bind_eq_Inr)

lemma list_consumes: "unmarshal_list get limit r = Inr (xs, r') \<Longrightarrow> consumes r r'"
  by (auto simp: unmarshal_list_def res_bind_eq_Inr split: if_splits
      intro: consumes_trans items_consume reads_consume)

lemma list_bounded: "unmarshal_list get limit r = Inr (xs, r') \<Longrightarrow> length xs \<le> limit"
  by (auto simp: unmarshal_list_def res_bind_eq_Inr split: if_splits dest: items_length)

lemma sized_consumes: "unmarshal_sized get r = Inr (x, r') \<Longrightarrow> consumes r r'"
  by (auto simp: unmarshal_sized_def res_bind_eq_Inr split: if_splits
      intro: consumes_trans reads_consume)

end

locale codec = decoder get
  for get :: "reader \<Rightarrow> ('a \<times> reader) tpm_result" +
  fixes put :: "'a \<Rightarrow> writer \<Rightarrow> writer"
    and enc :: "'a \<Rightarrow> bytes"
    and ok :: "'a \<Rightarrow> bool"
  assumes put_enc: "ok x \<Longrightarrow> put x w = emit (enc x) w"
    and get_enc: "ok x \<Longrightarrow> rest r = enc x @ t \<Longrightarrow> get r = Inr (x, advance (length (enc x)) r)"
begin

lemma to_bytes_enc: "ok x \<Longrightarrow> to_bytes put x = enc x"
  by (simp add: to_bytes_def put_enc writer_new_def)

lemma from_to_bytes: "ok x \<Longrightarrow> from_bytes get (to_bytes put x) = Inr x"
  by (simp add: from_bytes_def to_bytes_enc get_enc [where t = "[]"])

lemma from_bytes_surplus:
  "ok x \<Longrightarrow> t \<noteq> [] \<Longrightarrow> from_bytes get (to_bytes put x @ t) = Inl rc_SIZE"
  by (simp add: from_bytes_def to_bytes_enc get_enc [where t = t])

lemma enc_prefix_free:
  assumes "ok x" and "ok y" and "enc x @ s = enc y @ t"
  shows "x = y \<and> s = t"
proof -
  have "get (reader_new (enc x @ s)) = Inr (x, advance (length (enc x)) (reader_new (enc x @ s)))"
    by (rule get_enc [where t = s]) (use assms in simp_all)
  moreover have "get (reader_new (enc x @ s)) = Inr (y, advance (length (enc y)) (reader_new (enc x @ s)))"
    by (rule get_enc [where t = t]) (use assms in simp_all)
  ultimately show ?thesis using assms(3) by simp
qed

lemma items_enc:
  assumes "list_all ok xs" and "rest r = concat (map enc xs) @ t"
  shows "unmarshal_items get (length xs) r = Inr (xs, advance (length (concat (map enc xs))) r)"
  using assms
proof (induction xs arbitrary: r)
  case Nil
  then show ?case by simp
next
  case (Cons x xs)
  then have "get r = Inr (x, advance (length (enc x)) r)"
    by (intro get_enc) simp_all
  moreover have "unmarshal_items get (length xs) (advance (length (enc x)) r)
      = Inr (xs, advance (length (concat (map enc xs))) (advance (length (enc x)) r))"
    by (rule Cons.IH) (use Cons.prems in simp_all)
  ultimately show ?case by simp
qed

lemma list_put_enc:
  assumes "list_all ok xs"
  shows "foldl (\<lambda>w x. put x w) w xs = emit (concat (map enc xs)) w"
  using assms by (induction xs arbitrary: w) (simp_all add: put_enc)

lemma list_codec:
  assumes "limit < 2 ^ 32"
  shows "codec (unmarshal_list get limit) (marshal_list put)
    (\<lambda>xs. to_be 4 (of_nat (length xs) :: u32) @ concat (map enc xs))
    (\<lambda>xs. length xs \<le> limit \<and> list_all ok xs)"
proof
  show "consumes r r'" if "unmarshal_list get limit r = Inr (xs, r')" for r xs r'
    using that by (rule list_consumes)
next
  fix xs w assume "length xs \<le> limit \<and> list_all ok xs"
  then show "marshal_list put xs w
      = emit (to_be 4 (of_nat (length xs) :: u32) @ concat (map enc xs)) w"
    by (simp add: marshal_list_def list_put_enc writes_emit)
next
  fix xs r t
  assume ok: "length xs \<le> limit \<and> list_all ok xs"
    and r: "rest r = (to_be 4 (of_nat (length xs) :: u32) @ concat (map enc xs)) @ t"
  have "unat (of_nat (length xs) :: u32) = length xs"
    using ok assms by (intro unat_of_nat_u32) simp
  moreover have "unmarshal_items get (length xs) (advance 4 r)
      = Inr (xs, advance (length (concat (map enc xs))) (advance 4 r))"
    by (rule items_enc) (use ok r in simp_all)
  ultimately show "unmarshal_list get limit r
      = Inr (xs, advance (length (to_be 4 (of_nat (length xs) :: u32) @ concat (map enc xs))) r)"
    using ok r by (simp add: unmarshal_list_def r_u32_append)
qed

lemma sized_codec:
  "codec (unmarshal_sized get) (\<lambda>x. sized16_with (put x)) (\<lambda>x. enc_sized16 (enc x))
     (\<lambda>x. ok x \<and> length (enc x) < 2 ^ 16)"
proof
  show "consumes r r'" if "unmarshal_sized get r = Inr (x, r')" for r x r'
    using that by (rule sized_consumes)
next
  fix x w assume "ok x \<and> length (enc x) < 2 ^ 16"
  then show "sized16_with (put x) w = emit (enc_sized16 (enc x)) w"
    by (intro sized16_with_emit) (simp_all add: put_enc)
next
  fix x r t assume ok: "ok x \<and> length (enc x) < 2 ^ 16" and r: "rest r = enc_sized16 (enc x) @ t"
  have "get (reader_new (enc x)) = Inr (x, advance (length (enc x)) (reader_new (enc x)))"
    by (rule get_enc [where t = "[]"]) (use ok in simp_all)
  then show "unmarshal_sized get r = Inr (x, advance (length (enc_sized16 (enc x))) r)"
    using ok r
    by (simp add: unmarshal_sized_def r_sub_def enc_sized16_def r_u16_append unat_of_nat_u16
        r_take_append [where bs = "enc x" and t = t])
qed

end

interpretation u8: codec r_u8 w_u8 "\<lambda>v. [v]" "\<lambda>_. True"
  by unfold_locales (auto simp: writes_emit r_u8_append dest: reads_consume)

interpretation u16: codec r_u16 w_u16 "to_be 2" "\<lambda>_. True"
  by unfold_locales (auto simp: writes_emit r_u16_append dest: reads_consume)

interpretation u32: codec r_u32 w_u32 "to_be 4" "\<lambda>_. True"
  by unfold_locales (auto simp: writes_emit r_u32_append dest: reads_consume)

interpretation u64: codec r_u64 w_u64 "to_be 8" "\<lambda>_. True"
  by unfold_locales (auto simp: writes_emit r_u64_append dest: reads_consume)

text \<open>A structure of two fields in sequence: its constructor \<open>C\<close> and its fields \<open>f\<close> and \<open>g\<close>.\<close>

lemma codec_pair:
  assumes a: "codec get1 put1 enc1 ok1" and b: "codec get2 put2 enc2 ok2"
    and C: "\<And>x. C (f x) (g x) = x"
  shows "codec (\<lambda>r. res_bind (get1 r) (\<lambda>(u, r). res_bind (get2 r) (\<lambda>(v, r). Inr (C u v, r))))
    (\<lambda>x w. put2 (g x) (put1 (f x) w)) (\<lambda>x. enc1 (f x) @ enc2 (g x)) (\<lambda>x. ok1 (f x) \<and> ok2 (g x))"
proof
  note c = decoder.get_consumes [OF codec.axioms(1) [OF a]] decoder.get_consumes [OF codec.axioms(1) [OF b]]
  show "consumes r r'"
    if "res_bind (get1 r) (\<lambda>(u, r). res_bind (get2 r) (\<lambda>(v, r). Inr (C u v, r))) = Inr (x, r')" for r x r'
    using that by (auto simp: res_bind_eq_Inr intro: consumes_trans c)
  show "put2 (g x) (put1 (f x) w) = emit (enc1 (f x) @ enc2 (g x)) w"
    if "ok1 (f x) \<and> ok2 (g x)" for x w
    using that by (simp add: codec.put_enc [OF a] codec.put_enc [OF b])
  show "res_bind (get1 r) (\<lambda>(u, r). res_bind (get2 r) (\<lambda>(v, r). Inr (C u v, r)))
      = Inr (x, advance (length (enc1 (f x) @ enc2 (g x))) r)"
    if ok: "ok1 (f x) \<and> ok2 (g x)" and r: "rest r = (enc1 (f x) @ enc2 (g x)) @ t" for x r t
  proof -
    have "get1 r = Inr (f x, advance (length (enc1 (f x))) r)"
      by (rule codec.get_enc [OF a, where t = "enc2 (g x) @ t"]) (use ok r in simp_all)
    moreover have "get2 (advance (length (enc1 (f x))) r)
        = Inr (g x, advance (length (enc2 (g x))) (advance (length (enc1 (f x))) r))"
      by (rule codec.get_enc [OF b, where t = t]) (use ok r in simp_all)
    ultimately show ?thesis by (simp add: C)
  qed
qed

section \<open>Canonical decoders\<close>

text \<open>
  A decoder that accepts nothing but what the encoder writes: together with the round trip,
  decoding and encoding are then inverse to each other, and an octet string has one meaning.
\<close>

locale canonical_codec = codec get put enc ok
  for get :: "reader \<Rightarrow> ('a \<times> reader) tpm_result" and put enc ok +
  assumes get_canonical: "get r = Inr (x, r') \<Longrightarrow> ok x \<and> rest r = enc x @ rest r'"
begin

lemma from_bytes_iff: "from_bytes get b = Inr x \<longleftrightarrow> ok x \<and> b = to_bytes put x"
proof
  assume "from_bytes get b = Inr x"
  then obtain r' where "get (reader_new b) = Inr (x, r')" and "rest r' = []"
    by (auto simp: from_bytes_def res_bind_eq_Inr split: if_splits)
  then show "ok x \<and> b = to_bytes put x"
    using get_canonical [of "reader_new b" x r'] by (auto simp: to_bytes_enc)
next
  assume "ok x \<and> b = to_bytes put x"
  then show "from_bytes get b = Inr x" using from_to_bytes by simp
qed

lemma items_canonical:
  "unmarshal_items get n r = Inr (xs, r')
     \<Longrightarrow> length xs = n \<and> list_all ok xs \<and> rest r = concat (map enc xs) @ rest r'"
  by (induction n arbitrary: r xs) (fastforce simp: res_bind_eq_Inr dest!: get_canonical)+

end

lemma bit_foldl_be:
  "bit (foldl (\<lambda>acc b. push_bit 8 acc OR ucast b) a (bs :: bytes) :: 'a::len word) i \<longleftrightarrow> i < LENGTH('a) \<and>
     (if i < 8 * length bs then bit (bs ! (length bs - 1 - i div 8)) (i mod 8) else bit a (i - 8 * length bs))"
proof (induction bs arbitrary: i rule: rev_induct)
  case Nil
  then show ?case by (auto dest: bit_imp_le_length)
next
  case (snoc y bs)
  let ?w = "foldl (\<lambda>acc b. push_bit 8 acc OR ucast b) a bs :: 'a word"
  have step: "bit (foldl (\<lambda>acc b. push_bit 8 acc OR ucast b) a (bs @ [y]) :: 'a word) i
      \<longleftrightarrow> i < LENGTH('a) \<and> (if i < 8 then bit y i else bit ?w (i - 8))"
    using bit_imp_le_length [of y i] by (auto simp: bit_simps dest: bit_imp_le_length)
  show ?case
  proof (cases "i < 8")
    case True
    then show ?thesis unfolding step by simp
  next
    case False
    then obtain j where i: "i = j + 8" by (metis add.commute le_Suc_ex not_less)
    have "j div 8 < length bs" if "j < 8 * length bs" using that by linarith
    moreover have "(j + 8) div 8 = Suc (j div 8)" by simp
    moreover have "bit ?w j \<Longrightarrow> j + 8 < LENGTH('a) \<Longrightarrow> j < LENGTH('a)" by simp
    ultimately show ?thesis
      by (simp only: step) (auto simp: i snoc.IH nth_append)
  qed
qed

lemma nth_to_be: "k < n \<Longrightarrow> to_be n w ! k = ucast (drop_bit (8 * (n - 1 - k)) w)"
  by (induction n w arbitrary: k rule: to_be.induct) (auto simp: nth_Cons split: nat.splits)

lemma to_be_from_be:
  assumes "length b = n" and "8 * n \<le> LENGTH('a)"
  shows "to_be n (from_be b :: 'a::len word) = b"
proof (rule nth_equalityI)
  fix k assume "k < length (to_be n (from_be b :: 'a word))"
  then have k: "k < n" by simp
  show "to_be n (from_be b :: 'a word) ! k = b ! k"
  proof (rule bit_word_eqI)
    fix i assume i: "i < LENGTH(8)"
    have "8 * (n - 1 - k) + i < 8 * n" and "(8 * (n - 1 - k) + i) div 8 = n - 1 - k"
      and "n - 1 - (n - 1 - k) = k" and "(8 * (n - 1 - k) + i) mod 8 = i" using k i by auto
    then show "bit (to_be n (from_be b :: 'a word) ! k) i = bit (b ! k) i"
      using k i assms by (simp add: nth_to_be from_be_def bit_simps bit_foldl_be add.commute)
  qed
qed (use assms in simp)

lemma r_u8_canonical: "r_u8 r = Inr (v, r') \<Longrightarrow> rest r = v # rest r'"
  by (cases "rest r") (auto simp: r_u8_def r_take_eq)

lemma r_int_canonical:
  "r_u16 r = Inr (h, r') \<Longrightarrow> rest r = to_be 2 h @ rest r'"
  "r_u32 r = Inr (w, r') \<Longrightarrow> rest r = to_be 4 w @ rest r'"
  "r_u64 r = Inr (d, r') \<Longrightarrow> rest r = to_be 8 d @ rest r'"
  by (auto simp: r_u16_def r_u32_def r_u64_def r_take_eq to_be_from_be split: if_splits)

lemma r_take_canonical: "r_take n r = Inr (b, r') \<Longrightarrow> length b = n \<and> rest r = b @ rest r'"
  by (auto simp: r_take_eq split: if_splits)

interpretation u8: canonical_codec r_u8 w_u8 "\<lambda>v. [v]" "\<lambda>_. True"
  by unfold_locales (simp add: r_u8_canonical)

interpretation u16: canonical_codec r_u16 w_u16 "to_be 2" "\<lambda>_. True"
  by unfold_locales (simp add: r_int_canonical)

interpretation u32: canonical_codec r_u32 w_u32 "to_be 4" "\<lambda>_. True"
  by unfold_locales (simp add: r_int_canonical)

interpretation u64: canonical_codec r_u64 w_u64 "to_be 8" "\<lambda>_. True"
  by unfold_locales (simp add: r_int_canonical)

lemmas reads_canonical = r_u8_canonical r_int_canonical r_take_canonical

section \<open>Codecs of several fields\<close>

text \<open>
  The contract of the locale field by field: a reader in a known position gives the value, and a
  sequence of readers, written with the question mark operator, gives a sequence of values.
\<close>

definition reads :: "(reader \<Rightarrow> ('a \<times> reader) tpm_result) \<Rightarrow> 'a \<Rightarrow> bytes \<Rightarrow> bool" where
  "reads get x e \<longleftrightarrow> (\<forall>r t. rest r = e @ t \<longrightarrow> get r = Inr (x, advance (length e) r))"

lemma readsI: "(\<And>r t. rest r = e @ t \<Longrightarrow> get r = Inr (x, advance (length e) r)) \<Longrightarrow> reads get x e"
  by (simp add: reads_def)

lemma readsD: "reads get x e \<Longrightarrow> rest r = e @ t \<Longrightarrow> get r = Inr (x, advance (length e) r)"
  by (simp add: reads_def)

lemma reads_return: "reads (\<lambda>r. Inr (x, r)) x []"
  by (simp add: reads_def)

lemma reads_bind:
  assumes "reads g x e" and "reads (f x) y e'"
  shows "reads (\<lambda>r. res_bind (g r) (\<lambda>(x, r). f x r)) y (e @ e')"
proof (rule readsI)
  fix r t assume r: "rest r = (e @ e') @ t"
  have "g r = Inr (x, advance (length e) r)"
    by (rule readsD [OF assms(1), where t = "e' @ t"]) (use r in simp)
  moreover have "f x (advance (length e) r) = Inr (y, advance (length e') (advance (length e) r))"
    by (rule readsD [OF assms(2), where t = t]) (use r in simp)
  ultimately show "res_bind (g r) (\<lambda>(x, r). f x r) = Inr (y, advance (length (e @ e')) r)"
    by simp
qed

lemma reads_guard: "\<not> b \<Longrightarrow> reads g x e \<Longrightarrow> reads (\<lambda>r. if b then Inl c else g r) x e"
  by simp

lemma reads_int:
  "reads r_u8 o8 [o8]" "reads r_u16 o16 (to_be 2 o16)" "reads r_u32 o32 (to_be 4 o32)"
  "reads r_u64 o64 (to_be 8 o64)"
  by (auto intro!: readsI simp: r_u8_append r_u16_append r_u32_append r_u64_append)

lemma reads_take: "length b = n \<Longrightarrow> reads (r_take n) b b"
  by (auto intro!: readsI simp: r_take_append)

context codec
begin

lemma reads_get: "ok x \<Longrightarrow> reads get x (enc x)"
  by (rule readsI) (rule get_enc)

end

lemma decoder_return: "decoder (\<lambda>r. Inr (x, r))"
  by unfold_locales simp

lemma decoder_fail: "decoder (\<lambda>r. Inl c)"
  by unfold_locales simp

lemma decoder_if: "decoder g \<Longrightarrow> decoder h \<Longrightarrow> decoder (\<lambda>r. if b then g r else h r)"
  by (cases b) simp_all

lemma decoder_bind:
  assumes "decoder g" and "\<And>x. decoder (f x)"
  shows "decoder (\<lambda>r. res_bind (g r) (\<lambda>(x, r). f x r))"
  by unfold_locales
     (auto simp: res_bind_eq_Inr intro: consumes_trans decoder.get_consumes [OF assms(1)]
       decoder.get_consumes [OF assms(2)])

lemma decoder_take: "decoder (r_take n)"
  by unfold_locales (rule r_take_consumes)

lemmas decoder_int = u8.decoder_axioms u16.decoder_axioms u32.decoder_axioms u64.decoder_axioms
lemmas decoder_intros = decoder_bind decoder_return decoder_fail decoder_if decoder_int decoder_take

text \<open>A codec from its three parts.\<close>

lemma codecI:
  assumes "decoder get" and "\<And>x w. ok x \<Longrightarrow> put x w = emit (enc x) w"
    and "\<And>x. ok x \<Longrightarrow> reads get x (enc x)"
  shows "codec get put enc ok"
  using assms by (simp add: codec_def codec_axioms_def reads_def)

end
