(* ===== verification/Attributes.thy ===== *)
theory Attributes
  imports Marshal
begin

text \<open>
  The attribute words of \<open>src/tpm/structures/attributes.rs\<close>. The macro \<open>attribute!\<close> gives each type the
  same methods over its integer, so they are generic here; each type contributes its reserved
  mask and its flags. A flag is \<open>1 << n\<close>, and the simplification rules reduce every method at a
  flag to the bit of that number.
\<close>

definition flag :: "nat \<Rightarrow> 'a::len word" where
  "flag n = push_bit n 1"

definition attr_has :: "'a::len word \<Rightarrow> 'a word \<Rightarrow> bool" where
  "attr_has v m = (v AND m = m)"

definition attr_any :: "'a::len word \<Rightarrow> 'a word \<Rightarrow> bool" where
  "attr_any v m = (v AND m \<noteq> 0)"

definition attr_with :: "'a::len word \<Rightarrow> 'a word \<Rightarrow> 'a word" where
  "attr_with v m = v OR m"

definition attr_without :: "'a::len word \<Rightarrow> 'a word \<Rightarrow> 'a word" where
  "attr_without v m = v AND NOT m"

definition attr_set :: "'a::len word \<Rightarrow> bool \<Rightarrow> 'a word \<Rightarrow> 'a word" where
  "attr_set m on v = (if on then v OR m else v AND NOT m)"

definition check_reserved :: "'a::len word \<Rightarrow> 'a word \<Rightarrow> unit tpm_result" where
  "check_reserved reserved v = (if v AND reserved \<noteq> 0 then Inl rc_RESERVED_BITS else Inr ())"

definition unmarshal_attr ::
  "'a::len word \<Rightarrow> (reader \<Rightarrow> ('a word \<times> reader) tpm_result) \<Rightarrow> reader \<Rightarrow> ('a word \<times> reader) tpm_result" where
  "unmarshal_attr reserved get r =
     res_bind (get r) (\<lambda>(v, r). res_bind (check_reserved reserved v) (\<lambda>_. Inr (v, r)))"

section \<open>The attribute types\<close>

definition oa_reserved :: u32 where "oa_reserved = 0xfff0f009"
abbreviation (input) oa_FIXED_TPM :: u32 where "oa_FIXED_TPM \<equiv> flag 1"
abbreviation (input) oa_ST_CLEAR :: u32 where "oa_ST_CLEAR \<equiv> flag 2"
abbreviation (input) oa_FIXED_PARENT :: u32 where "oa_FIXED_PARENT \<equiv> flag 4"
abbreviation (input) oa_SENSITIVE_DATA_ORIGIN :: u32 where "oa_SENSITIVE_DATA_ORIGIN \<equiv> flag 5"
abbreviation (input) oa_USER_WITH_AUTH :: u32 where "oa_USER_WITH_AUTH \<equiv> flag 6"
abbreviation (input) oa_ADMIN_WITH_POLICY :: u32 where "oa_ADMIN_WITH_POLICY \<equiv> flag 7"
abbreviation (input) oa_FIRMWARE_LIMITED :: u32 where "oa_FIRMWARE_LIMITED \<equiv> flag 8"
abbreviation (input) oa_SVN_LIMITED :: u32 where "oa_SVN_LIMITED \<equiv> flag 9"
abbreviation (input) oa_NO_DA :: u32 where "oa_NO_DA \<equiv> flag 10"
abbreviation (input) oa_ENCRYPTED_DUPLICATION :: u32 where "oa_ENCRYPTED_DUPLICATION \<equiv> flag 11"
abbreviation (input) oa_RESTRICTED :: u32 where "oa_RESTRICTED \<equiv> flag 16"
abbreviation (input) oa_DECRYPT :: u32 where "oa_DECRYPT \<equiv> flag 17"
abbreviation (input) oa_SIGN_ENCRYPT :: u32 where "oa_SIGN_ENCRYPT \<equiv> flag 18"
abbreviation (input) oa_X509_SIGN :: u32 where "oa_X509_SIGN \<equiv> flag 19"

definition sa_reserved :: u8 where "sa_reserved = 0x18"
abbreviation (input) sa_CONTINUE_SESSION :: u8 where "sa_CONTINUE_SESSION \<equiv> flag 0"
abbreviation (input) sa_AUDIT_EXCLUSIVE :: u8 where "sa_AUDIT_EXCLUSIVE \<equiv> flag 1"
abbreviation (input) sa_AUDIT_RESET :: u8 where "sa_AUDIT_RESET \<equiv> flag 2"
abbreviation (input) sa_DECRYPT :: u8 where "sa_DECRYPT \<equiv> flag 5"
abbreviation (input) sa_ENCRYPT :: u8 where "sa_ENCRYPT \<equiv> flag 6"
abbreviation (input) sa_AUDIT :: u8 where "sa_AUDIT \<equiv> flag 7"

definition loc_reserved :: u8 where "loc_reserved = 0x0"
abbreviation (input) loc_ZERO :: u8 where "loc_ZERO \<equiv> flag 0"
abbreviation (input) loc_ONE :: u8 where "loc_ONE \<equiv> flag 1"
abbreviation (input) loc_TWO :: u8 where "loc_TWO \<equiv> flag 2"
abbreviation (input) loc_THREE :: u8 where "loc_THREE \<equiv> flag 3"
abbreviation (input) loc_FOUR :: u8 where "loc_FOUR \<equiv> flag 4"

definition pa_reserved :: u32 where "pa_reserved = 0xfffff8f8"
abbreviation (input) pa_OWNER_AUTH_SET :: u32 where "pa_OWNER_AUTH_SET \<equiv> flag 0"
abbreviation (input) pa_ENDORSEMENT_AUTH_SET :: u32 where "pa_ENDORSEMENT_AUTH_SET \<equiv> flag 1"
abbreviation (input) pa_LOCKOUT_AUTH_SET :: u32 where "pa_LOCKOUT_AUTH_SET \<equiv> flag 2"
abbreviation (input) pa_DISABLE_CLEAR :: u32 where "pa_DISABLE_CLEAR \<equiv> flag 8"
abbreviation (input) pa_IN_LOCKOUT :: u32 where "pa_IN_LOCKOUT \<equiv> flag 9"
abbreviation (input) pa_TPM_GENERATED_EPS :: u32 where "pa_TPM_GENERATED_EPS \<equiv> flag 10"

definition sc_reserved :: u32 where "sc_reserved = 0x7fffffe0"
abbreviation (input) sc_PH_ENABLE :: u32 where "sc_PH_ENABLE \<equiv> flag 0"
abbreviation (input) sc_SH_ENABLE :: u32 where "sc_SH_ENABLE \<equiv> flag 1"
abbreviation (input) sc_EH_ENABLE :: u32 where "sc_EH_ENABLE \<equiv> flag 2"
abbreviation (input) sc_PH_ENABLE_NV :: u32 where "sc_PH_ENABLE_NV \<equiv> flag 3"
abbreviation (input) sc_READ_ONLY :: u32 where "sc_READ_ONLY \<equiv> flag 4"
abbreviation (input) sc_ORDERLY :: u32 where "sc_ORDERLY \<equiv> flag 31"

definition mem_reserved :: u32 where "mem_reserved = 0xfffffff8"
abbreviation (input) mem_SHARED_RAM :: u32 where "mem_SHARED_RAM \<equiv> flag 0"
abbreviation (input) mem_SHARED_NV :: u32 where "mem_SHARED_NV \<equiv> flag 1"
abbreviation (input) mem_OBJECT_COPIED_TO_RAM :: u32 where "mem_OBJECT_COPIED_TO_RAM \<equiv> flag 2"

definition modes_reserved :: u32 where "modes_reserved = 0xfffffff0"
abbreviation (input) modes_FIPS_140_2 :: u32 where "modes_FIPS_140_2 \<equiv> flag 0"
abbreviation (input) modes_FIPS_140_3 :: u32 where "modes_FIPS_140_3 \<equiv> flag 1"

definition ku_reserved :: u32 where "ku_reserved = 0x7fffff"
abbreviation (input) ku_DECIPHER_ONLY :: u32 where "ku_DECIPHER_ONLY \<equiv> flag 23"
abbreviation (input) ku_ENCIPHER_ONLY :: u32 where "ku_ENCIPHER_ONLY \<equiv> flag 24"
abbreviation (input) ku_CRL_SIGN :: u32 where "ku_CRL_SIGN \<equiv> flag 25"
abbreviation (input) ku_KEY_CERT_SIGN :: u32 where "ku_KEY_CERT_SIGN \<equiv> flag 26"
abbreviation (input) ku_KEY_AGREEMENT :: u32 where "ku_KEY_AGREEMENT \<equiv> flag 27"
abbreviation (input) ku_DATA_ENCIPHERMENT :: u32 where "ku_DATA_ENCIPHERMENT \<equiv> flag 28"
abbreviation (input) ku_KEY_ENCIPHERMENT :: u32 where "ku_KEY_ENCIPHERMENT \<equiv> flag 29"
abbreviation (input) ku_NON_REPUDIATION :: u32 where "ku_NON_REPUDIATION \<equiv> flag 30"
abbreviation (input) ku_DIGITAL_SIGNATURE :: u32 where "ku_DIGITAL_SIGNATURE \<equiv> flag 31"

definition act_reserved :: u32 where "act_reserved = 0xfffffffc"
abbreviation (input) act_SIGNALED :: u32 where "act_SIGNALED \<equiv> flag 0"
abbreviation (input) act_PRESERVE_SIGNALED :: u32 where "act_PRESERVE_SIGNALED \<equiv> flag 1"

definition nv_reserved :: u32 where "nv_reserved = 0x1f00300"
abbreviation (input) nv_PPWRITE :: u32 where "nv_PPWRITE \<equiv> flag 0"
abbreviation (input) nv_OWNERWRITE :: u32 where "nv_OWNERWRITE \<equiv> flag 1"
abbreviation (input) nv_AUTHWRITE :: u32 where "nv_AUTHWRITE \<equiv> flag 2"
abbreviation (input) nv_POLICYWRITE :: u32 where "nv_POLICYWRITE \<equiv> flag 3"
abbreviation (input) nv_POLICY_DELETE :: u32 where "nv_POLICY_DELETE \<equiv> flag 10"
abbreviation (input) nv_WRITELOCKED :: u32 where "nv_WRITELOCKED \<equiv> flag 11"
abbreviation (input) nv_WRITEALL :: u32 where "nv_WRITEALL \<equiv> flag 12"
abbreviation (input) nv_WRITEDEFINE :: u32 where "nv_WRITEDEFINE \<equiv> flag 13"
abbreviation (input) nv_WRITE_STCLEAR :: u32 where "nv_WRITE_STCLEAR \<equiv> flag 14"
abbreviation (input) nv_GLOBALLOCK :: u32 where "nv_GLOBALLOCK \<equiv> flag 15"
abbreviation (input) nv_PPREAD :: u32 where "nv_PPREAD \<equiv> flag 16"
abbreviation (input) nv_OWNERREAD :: u32 where "nv_OWNERREAD \<equiv> flag 17"
abbreviation (input) nv_AUTHREAD :: u32 where "nv_AUTHREAD \<equiv> flag 18"
abbreviation (input) nv_POLICYREAD :: u32 where "nv_POLICYREAD \<equiv> flag 19"
abbreviation (input) nv_NO_DA :: u32 where "nv_NO_DA \<equiv> flag 25"
abbreviation (input) nv_ORDERLY :: u32 where "nv_ORDERLY \<equiv> flag 26"
abbreviation (input) nv_CLEAR_STCLEAR :: u32 where "nv_CLEAR_STCLEAR \<equiv> flag 27"
abbreviation (input) nv_READLOCKED :: u32 where "nv_READLOCKED \<equiv> flag 28"
abbreviation (input) nv_WRITTEN :: u32 where "nv_WRITTEN \<equiv> flag 29"
abbreviation (input) nv_PLATFORMCREATE :: u32 where "nv_PLATFORMCREATE \<equiv> flag 30"
abbreviation (input) nv_READ_STCLEAR :: u32 where "nv_READ_STCLEAR \<equiv> flag 31"

definition cca_reserved :: u32 where "cca_reserved = 0xc03f0000"
abbreviation (input) cca_NV :: u32 where "cca_NV \<equiv> flag 22"
abbreviation (input) cca_EXTENSIVE :: u32 where "cca_EXTENSIVE \<equiv> flag 23"
abbreviation (input) cca_FLUSHED :: u32 where "cca_FLUSHED \<equiv> flag 24"
abbreviation (input) cca_R_HANDLE :: u32 where "cca_R_HANDLE \<equiv> flag 28"
abbreviation (input) cca_V :: u32 where "cca_V \<equiv> flag 29"
section \<open>Fields\<close>

definition fips_140_3_indicator :: "u32 \<Rightarrow> u8" where
  "fips_140_3_indicator v = ucast (drop_bit 2 (v AND 0x0000000C))"

definition NV_TYPE_MASK :: u32 where "NV_TYPE_MASK = 0x000000F0"

definition index_type :: "u32 \<Rightarrow> u8" where
  "index_type v = ucast (drop_bit 4 (v AND NV_TYPE_MASK))"

definition with_index_type :: "u8 \<Rightarrow> u32 \<Rightarrow> u32" where
  "with_index_type nt v = (v AND NOT NV_TYPE_MASK) OR (push_bit 4 (ucast nt) AND NV_TYPE_MASK)"

abbreviation (input) nt_ORDINARY :: u8 where "nt_ORDINARY \<equiv> 0x0"
abbreviation (input) nt_COUNTER :: u8 where "nt_COUNTER \<equiv> 0x1"
abbreviation (input) nt_BITS :: u8 where "nt_BITS \<equiv> 0x2"
abbreviation (input) nt_EXTEND :: u8 where "nt_EXTEND \<equiv> 0x4"
abbreviation (input) nt_PIN_FAIL :: u8 where "nt_PIN_FAIL \<equiv> 0x8"
abbreviation (input) nt_PIN_PASS :: u8 where "nt_PIN_PASS \<equiv> 0x9"

definition cca_build :: "u16 \<Rightarrow> u8 \<Rightarrow> u32 \<Rightarrow> u32" where
  "cca_build index handles flags =
     ucast index OR (push_bit 25 (ucast handles) AND 0x0E000000) OR flags"

definition cca_command_index :: "u32 \<Rightarrow> u16" where
  "cca_command_index v = ucast (v AND 0x0000FFFF)"

definition cca_handles :: "u32 \<Rightarrow> u8" where
  "cca_handles v = ucast (drop_bit 25 (v AND 0x0E000000))"

section \<open>Flags as bits\<close>

lemma bit_flag: "bit (flag n :: 'a::len word) m \<longleftrightarrow> m = n \<and> n < LENGTH('a)"
  by (auto simp: flag_def bit_simps)

lemma has_flag [simp]:
  "n < LENGTH('a) \<Longrightarrow> attr_has (v :: 'a::len word) (flag n) \<longleftrightarrow> bit v n"
  by (auto simp: attr_has_def bit_eq_iff [of "v AND flag n"] bit_and_iff bit_flag)

lemma any_flag [simp]:
  "n < LENGTH('a) \<Longrightarrow> attr_any (v :: 'a::len word) (flag n) \<longleftrightarrow> bit v n"
  by (auto simp: attr_any_def bit_eq_iff [of "v AND flag n"] bit_and_iff bit_flag)

lemma bit_with_flag [simp]:
  "n < LENGTH('a) \<Longrightarrow> bit (attr_with v (flag n :: 'a::len word)) m \<longleftrightarrow> m = n \<or> bit v m"
  by (auto simp: attr_with_def bit_or_iff bit_flag)

lemma bit_without_flag [simp]:
  "bit (attr_without v (flag n :: 'a::len word)) m \<longleftrightarrow> m \<noteq> n \<and> bit v m"
  by (auto simp: attr_without_def bit_and_iff bit_not_iff bit_flag dest: bit_imp_le_length)

lemma bit_set_flag [simp]:
  "n < LENGTH('a) \<Longrightarrow> bit (attr_set (flag n :: 'a::len word) on v) m \<longleftrightarrow> (if m = n then on else bit v m)"
  by (auto simp: attr_set_def bit_or_iff bit_and_iff bit_not_iff bit_flag dest: bit_imp_le_length)

lemma unmarshal_attr_codec:
  assumes "codec get put enc (\<lambda>_. True)"
  shows "codec (unmarshal_attr reserved get) put enc (\<lambda>v. v AND reserved = 0)"
proof
  note c = assms [THEN codec.axioms(1), THEN decoder.get_consumes]
  show "consumes r r'" if "unmarshal_attr reserved get r = Inr (x, r')" for r x r'
    using that by (auto simp: unmarshal_attr_def res_bind_eq_Inr dest: c)
  show "put x w = emit (enc x) w" for x w
    by (rule codec.put_enc [OF assms]) simp
  show "unmarshal_attr reserved get r = Inr (x, advance (length (enc x)) r)"
    if "x AND reserved = 0" "rest r = enc x @ t" for x r t
    using codec.get_enc [OF assms TrueI that(2)] that(1)
    by (simp add: unmarshal_attr_def check_reserved_def)
qed

text \<open>A word with a reserved bit is refused, so what is read has none.\<close>

lemma unmarshal_attr_reserved:
  "unmarshal_attr reserved get r = Inr (v, r') \<Longrightarrow> v AND reserved = 0"
  by (auto simp: unmarshal_attr_def res_bind_eq_Inr check_reserved_def split: if_splits)

lemma bit_NV_TYPE_MASK: "bit NV_TYPE_MASK n \<longleftrightarrow> 4 \<le> n \<and> n < 8"
proof -
  have m: "NV_TYPE_MASK = push_bit 4 (mask 4)" by (simp add: NV_TYPE_MASK_def mask_eq_exp_minus_1)
  have "bit NV_TYPE_MASK n \<longleftrightarrow> 4 \<le> n \<and> n < 32 \<and> n - 4 < 4"
    unfolding m bit_push_bit_iff bit_mask_iff by auto
  then show ?thesis by linarith
qed

lemma bit_with_index_type:
  "bit (with_index_type nt v) n \<longleftrightarrow> (if 4 \<le> n \<and> n < 8 then bit nt (n - 4) else bit v n)"
  by (auto simp: with_index_type_def bit_or_iff bit_and_iff bit_not_iff bit_push_bit_iff
      bit_unsigned_iff bit_NV_TYPE_MASK dest: bit_imp_le_length)

lemma bit_index_type: "bit (index_type v) n \<longleftrightarrow> n < 4 \<and> bit v (n + 4)"
  by (auto simp: index_type_def bit_unsigned_iff bit_drop_bit_eq bit_and_iff bit_NV_TYPE_MASK ac_simps)

lemma index_type_with: "nt < 16 \<Longrightarrow> index_type (with_index_type nt v) = nt"
proof (rule bit_eqI)
  fix n assume nt: "nt < 16"
  have "take_bit 4 nt = nt" 
    using nt by (simp add: take_bit_eq_mod mod_word_less)
  then have "bit nt n \<Longrightarrow> n < 4" by (metis bit_take_bit_iff)
  then show "bit (index_type (with_index_type nt v)) n = bit nt n"
    by (auto simp: bit_index_type bit_with_index_type)
qed

end
