(* ===== verification/Hash.thy ===== *)
theory Hash
  imports Marshal
begin

text \<open>
  Hashing, HMAC and the key derivation functions (\<open>src/tpm/crypto/hash.rs\<close>,
  \<open>src/tpm/crypto/hmac.rs\<close>, and the profile of \<open>src/tpm/profile.rs\<close>). The compression
  itself belongs to aws-lc-rs: it is a parameter, carried with the profile in the record
  \<open>env\<close>. Everything the repository builds on top of it (algorithm selection, HMAC, KDFa,
  KDFe, MGF1) is modelled as written. What the code relies on of the library is \<open>env_ok\<close>.
\<close>

record env =
  strict :: bool
  raw_digest :: "u16 \<Rightarrow> bytes \<Rightarrow> bytes"
  output_len :: "u16 \<Rightarrow> nat"

section \<open>Algorithm selection\<close>

definition hash_algorithm :: "env \<Rightarrow> u16 \<Rightarrow> u16 tpm_result" where
  "hash_algorithm E a =
     (if a = alg_SHA1 \<and> strict E then Inl rc_HASH
      else if a = alg_SHA1 \<or> a = alg_SHA256 \<or> a = alg_SHA384 \<or> a = alg_SHA512
           \<or> a = alg_SHA3_256 \<or> a = alg_SHA3_384 \<or> a = alg_SHA3_512 then Inr a
      else Inl rc_HASH)"

definition hash_size :: "env \<Rightarrow> u16 \<Rightarrow> nat tpm_result" where
  "hash_size E a = res_bind (hash_algorithm E a) (\<lambda>a. Inr (output_len E a))"

definition hash_block_size :: "env \<Rightarrow> u16 \<Rightarrow> nat tpm_result" where
  "hash_block_size E a =
     (if a = alg_SHA1 \<and> strict E then Inl rc_HASH
      else if a = alg_SHA1 \<or> a = alg_SHA256 then Inr 64
      else if a = alg_SHA384 \<or> a = alg_SHA512 then Inr 128
      else if a = alg_SHA3_256 then Inr 136
      else if a = alg_SHA3_384 then Inr 104
      else if a = alg_SHA3_512 then Inr 72
      else Inl rc_HASH)"

definition is_supported :: "env \<Rightarrow> u16 \<Rightarrow> bool" where
  "is_supported E a = is_ok (hash_algorithm E a)"

definition digest :: "env \<Rightarrow> u16 \<Rightarrow> bytes \<Rightarrow> bytes tpm_result" where
  "digest E a data = res_bind (hash_algorithm E a) (\<lambda>a. Inr (raw_digest E a data))"

record hasher =
  h_alg :: u16
  h_data :: bytes

definition hasher_new :: "env \<Rightarrow> u16 \<Rightarrow> hasher tpm_result" where
  "hasher_new E a = res_bind (hash_algorithm E a) (\<lambda>a. Inr \<lparr>h_alg = a, h_data = []\<rparr>)"

definition hasher_update :: "bytes \<Rightarrow> hasher \<Rightarrow> hasher" where
  "hasher_update d h = h\<lparr>h_data := h_data h @ d\<rparr>"

definition hasher_finish :: "env \<Rightarrow> hasher \<Rightarrow> bytes" where
  "hasher_finish E h = raw_digest E (h_alg h) (h_data h)"

definition digest_parts :: "env \<Rightarrow> u16 \<Rightarrow> bytes list \<Rightarrow> bytes tpm_result" where
  "digest_parts E a parts =
     res_bind (hasher_new E a) (\<lambda>h. Inr (hasher_finish E (foldl (\<lambda>h p. hasher_update p h) h parts)))"

text \<open>The documented behaviour of the library: each algorithm has a fixed output size.\<close>

definition env_ok :: "env \<Rightarrow> bool" where
  "env_ok E \<longleftrightarrow> (\<forall>a d. length (raw_digest E a d) = output_len E a)
     \<and> output_len E alg_SHA1 = 20 \<and> output_len E alg_SHA256 = 32 \<and> output_len E alg_SHA384 = 48
     \<and> output_len E alg_SHA512 = 64 \<and> output_len E alg_SHA3_256 = 32
     \<and> output_len E alg_SHA3_384 = 48 \<and> output_len E alg_SHA3_512 = 64"

text \<open>A concrete library for evaluation: outputs of the right size that depend on the data.\<close>

definition demo_len :: "u16 \<Rightarrow> nat" where
  "demo_len a = (if a = alg_SHA1 then 20 else if a = alg_SHA256 \<or> a = alg_SHA3_256 then 32
     else if a = alg_SHA384 \<or> a = alg_SHA3_384 then 48 else 64)"

definition demo_env :: "bool \<Rightarrow> env" where
  "demo_env s = \<lparr>strict = s,
     raw_digest = (\<lambda>a d. replicate (demo_len a) (foldl (\<lambda>x y. 31 * x + y) 7 d)),
     output_len = demo_len\<rparr>"

lemma env_ok_demo [simp]: "env_ok (demo_env s)"
  by (simp add: env_ok_def demo_env_def demo_len_def)

lemma env_ok_length: "env_ok E \<Longrightarrow> length (raw_digest E a d) = output_len E a"
  by (simp add: env_ok_def)

lemma hash_algorithm_Inr: "hash_algorithm E a = Inr b \<Longrightarrow> b = a"
  by (simp add: hash_algorithm_def split: if_splits)

lemma hash_algorithm_Inl: "hash_algorithm E a = Inl e \<Longrightarrow> e = rc_HASH"
  by (simp add: hash_algorithm_def split: if_splits)

lemma supported_algorithm: "is_supported E a \<Longrightarrow> hash_algorithm E a = Inr a"
  by (auto simp: is_supported_def is_ok_iff dest: hash_algorithm_Inr)

lemma unsupported_algorithm: "\<not> is_supported E a \<Longrightarrow> hash_algorithm E a = Inl rc_HASH"
  by (cases "hash_algorithm E a") (auto simp: is_supported_def dest: hash_algorithm_Inl)

lemma hasher_feed:
  "foldl (\<lambda>h p. hasher_update p h) h parts = h\<lparr>h_data := h_data h @ concat parts\<rparr>"
  by (induction parts arbitrary: h) (simp_all add: hasher_update_def)

lemma digest_parts_concat: "digest_parts E a parts = digest E a (concat parts)"
  by (cases "hash_algorithm E a")
     (simp_all add: digest_parts_def digest_def hasher_new_def hasher_finish_def hasher_feed)

lemma digest_supported: "is_supported E a \<Longrightarrow> digest E a d = Inr (raw_digest E a d)"
  by (simp add: digest_def supported_algorithm)

lemma digest_length: "env_ok E \<Longrightarrow> digest E a d = Inr v \<Longrightarrow> length v = output_len E a"
  by (auto simp: digest_def res_bind_eq_Inr env_ok_length dest: hash_algorithm_Inr)

lemma supported_block_size: "is_supported E a \<Longrightarrow> \<exists>b. hash_block_size E a = Inr b \<and> 64 \<le> b"
  by (auto simp: is_supported_def is_ok_iff hash_algorithm_def hash_block_size_def split: if_splits)

lemma supported_output_len:
  "env_ok E \<Longrightarrow> is_supported E a \<Longrightarrow> output_len E a \<in> {20, 32, 48, 64}"
  by (auto simp: is_supported_def is_ok_iff hash_algorithm_def env_ok_def split: if_splits)

section \<open>HMAC\<close>

definition IPAD :: u8 where "IPAD = 0x36"
definition OPAD :: u8 where "OPAD = 0x5c"

record hmac_state =
  mac_alg :: u16
  mac_inner :: hasher
  mac_outer_key :: bytes

definition hmac_new :: "env \<Rightarrow> u16 \<Rightarrow> bytes \<Rightarrow> hmac_state tpm_result" where
  "hmac_new E a key =
     res_bind (hash_block_size E a) (\<lambda>block.
     res_bind (if block < length key
               then res_bind (digest E a key) (\<lambda>d. Inr (upd_slice (replicate block 0) 0 d))
               else Inr (upd_slice (replicate block 0) 0 key)) (\<lambda>padded.
     res_bind (hasher_new E a) (\<lambda>inner.
       Inr \<lparr>mac_alg = a,
            mac_inner = hasher_update (map (\<lambda>b. b XOR IPAD) padded) inner,
            mac_outer_key = map (\<lambda>b. b XOR OPAD) padded\<rparr>)))"

definition hmac_update :: "bytes \<Rightarrow> hmac_state \<Rightarrow> hmac_state" where
  "hmac_update d m = m\<lparr>mac_inner := hasher_update d (mac_inner m)\<rparr>"

definition hmac_finish :: "env \<Rightarrow> hmac_state \<Rightarrow> bytes" where
  "hmac_finish E m =
     raw_digest E (mac_alg m) (mac_outer_key m @ hasher_finish E (mac_inner m))"

definition hmac_parts :: "env \<Rightarrow> u16 \<Rightarrow> bytes \<Rightarrow> bytes list \<Rightarrow> bytes tpm_result" where
  "hmac_parts E a key parts =
     res_bind (hmac_new E a key) (\<lambda>m.
       Inr (hmac_finish E (foldl (\<lambda>m p. hmac_update p m) m parts)))"

text \<open>The definition of FIPS 198, as the specification the streaming code implements.\<close>

definition hmac_key_block :: "env \<Rightarrow> u16 \<Rightarrow> nat \<Rightarrow> bytes \<Rightarrow> bytes" where
  "hmac_key_block E a block key =
     (let k = (if block < length key then raw_digest E a key else key)
      in k @ replicate (block - length k) 0)"

definition hmac_spec :: "env \<Rightarrow> u16 \<Rightarrow> nat \<Rightarrow> bytes \<Rightarrow> bytes \<Rightarrow> bytes" where
  "hmac_spec E a block key msg =
     (let k = hmac_key_block E a block key
      in raw_digest E a (map (\<lambda>b. b XOR OPAD) k
           @ raw_digest E a (map (\<lambda>b. b XOR IPAD) k @ msg)))"

lemma hmac_feed:
  "foldl (\<lambda>m p. hmac_update p m) m parts
     = m\<lparr>mac_inner := (mac_inner m)\<lparr>h_data := h_data (mac_inner m) @ concat parts\<rparr>\<rparr>"
  by (induction parts arbitrary: m) (simp_all add: hmac_update_def hasher_update_def)

lemma hmac_parts_spec:
  assumes "is_supported E a" and "hash_block_size E a = Inr block"
  shows "hmac_parts E a key parts = Inr (hmac_spec E a block key (concat parts))"
  using assms
  by (simp add: hmac_parts_def hmac_new_def hasher_new_def supported_algorithm digest_supported
      hmac_feed hmac_finish_def hasher_finish_def hasher_update_def hmac_spec_def
      hmac_key_block_def upd_slice_def Let_def)

section \<open>Key derivation\<close>

definition MAX_KDF_BYTES :: nat where "MAX_KDF_BYTES = 8192 div 8"

definition kdf_output_len :: "u32 \<Rightarrow> nat tpm_result" where
  "kdf_output_len bits =
     (if unat bits + 7 \<ge> 2 ^ 32 then Inl rc_VALUE
      else if MAX_KDF_BYTES < (unat bits + 7) div 8 then Inl rc_VALUE
      else Inr ((unat bits + 7) div 8))"

text \<open>
  The loop the three functions share: blocks are appended until there are enough octets. The
  loop stops because a block is never empty, which is what \<open>env_ok\<close> says of the library; an
  empty block, on which the code would not return, ends the recursion here
  (\<open>kdf_loop_step\<close> below is the loop without that test).
\<close>

function kdf_loop :: "(u32 \<Rightarrow> bytes tpm_result) \<Rightarrow> nat \<Rightarrow> u32 \<Rightarrow> bytes \<Rightarrow> bytes tpm_result" where
  "kdf_loop block n counter acc =
     (if length acc < n then
        (case block counter of
           Inl e \<Rightarrow> Inl e
         | Inr b \<Rightarrow> if b = [] then Inr acc else kdf_loop block n (counter + 1) (acc @ b))
      else Inr acc)"
  by pat_completeness auto
termination
  by (relation "measure (\<lambda>(block, n, counter, acc). n - length acc)")
     (auto intro!: diff_less_mono2 simp: length_greater_0_conv)

declare kdf_loop.simps [simp del]

text \<open>Mask the unused bits of the most significant octet.\<close>

definition mask_first :: "u32 \<Rightarrow> bytes \<Rightarrow> bytes" where
  "mask_first bits out =
     (if bits mod 8 \<noteq> 0 then
        (case out of [] \<Rightarrow> [] | b # bs \<Rightarrow> (b AND (push_bit (unat (bits mod 8)) 1 - 1)) # bs)
      else out)"

definition kdfa_bytes ::
  "env \<Rightarrow> u16 \<Rightarrow> bytes \<Rightarrow> bytes \<Rightarrow> bytes \<Rightarrow> bytes \<Rightarrow> u32 \<Rightarrow> bytes tpm_result" where
  "kdfa_bytes E a key label context_u context_v bits =
     res_bind (kdf_output_len bits) (\<lambda>out_len.
     res_bind (hash_size E a) (\<lambda>digest_len.
     let terminator = (if label \<noteq> [] \<and> last label = 0 then [] else [0]);
         block = (\<lambda>counter. res_bind (hmac_new E a key) (\<lambda>mac.
           Inr (hmac_finish E
             (hmac_update (to_be 4 bits) (hmac_update context_v (hmac_update context_u
               (hmac_update terminator (hmac_update label
                 (hmac_update (to_be 4 (counter :: u32)) mac)))))))))
     in res_bind (kdf_loop block out_len 1 []) (\<lambda>out.
          Inr (mask_first bits (take out_len out)))))"

definition kdfe ::
  "env \<Rightarrow> u16 \<Rightarrow> bytes \<Rightarrow> bytes \<Rightarrow> bytes \<Rightarrow> bytes \<Rightarrow> u32 \<Rightarrow> bytes tpm_result" where
  "kdfe E a z label party_u party_v bits =
     res_bind (kdf_output_len bits) (\<lambda>out_len.
     res_bind (hash_size E a) (\<lambda>digest_len.
     let block = (\<lambda>counter. res_bind (hasher_new E a) (\<lambda>h.
           Inr (hasher_finish E
             (hasher_update party_v (hasher_update party_u (hasher_update [0]
               (hasher_update label (hasher_update z
                 (hasher_update (to_be 4 (counter :: u32)) h)))))))))
     in res_bind (kdf_loop block out_len 1 []) (\<lambda>out.
          Inr (mask_first bits (take out_len out)))))"

definition mgf1 :: "env \<Rightarrow> u16 \<Rightarrow> bytes \<Rightarrow> nat \<Rightarrow> bytes tpm_result" where
  "mgf1 E a seed out_len =
     (if MAX_KDF_BYTES < out_len then Inl rc_VALUE
      else res_bind (hash_size E a) (\<lambda>digest_len.
        let block = (\<lambda>counter. res_bind (hasher_new E a) (\<lambda>h.
              Inr (hasher_finish E (hasher_update (to_be 4 (counter :: u32)) (hasher_update seed h)))))
        in res_bind (kdf_loop block out_len 0 []) (\<lambda>out. Inr (take out_len out))))"

text \<open>Under nonempty blocks the loop is the code's loop, with no test.\<close>

lemma kdf_loop_step:
  assumes "\<And>c b. block c = Inr b \<Longrightarrow> b \<noteq> []"
  shows "kdf_loop block n counter acc =
     (if length acc < n then res_bind (block counter) (\<lambda>b. kdf_loop block n (counter + 1) (acc @ b))
      else Inr acc)"
  using assms by (subst kdf_loop.simps) (auto split: sum.splits)

text \<open>Counter mode in closed form: \<open>k\<close> consecutive blocks of a fixed size.\<close>

lemma kdf_loop_blocks:
  assumes len: "\<And>c. length (f c) = d" and "0 < d"
  shows "kdf_loop (\<lambda>c. Inr (f c)) n counter acc
     = Inr (acc @ concat (map (\<lambda>i. f (counter + of_nat i)) [0..<(n - length acc + d - 1) div d]))"
proof (induction "n - length acc" arbitrary: counter acc rule: less_induct)
  case less
  show ?case
  proof (cases "length acc < n")
    case False
    with \<open>0 < d\<close> show ?thesis by (simp add: kdf_loop.simps)
  next
    case True
    have ne: "f counter \<noteq> []" using len [of counter] \<open>0 < d\<close> by auto
    let ?k = "\<lambda>acc. (n - length acc + d - 1) div d"
    have "n - length acc + d - 1 = (n - length acc - 1) + d" using True by simp
    then have k: "?k acc = Suc ((n - length acc - 1) div d)"
      using \<open>0 < d\<close> by (simp only: div_add_self2)
    have k': "?k (acc @ f counter) = (n - length acc - 1) div d"
    proof (cases "d \<le> n - length acc")
      case True
      then have "n - length acc - d + d - 1 = n - length acc - 1" by simp
      then show ?thesis by (simp add: len)
    next
      case False
      then show ?thesis using \<open>0 < d\<close> True by (simp add: len)
    qed
    have "kdf_loop (\<lambda>c. Inr (f c)) n counter acc = kdf_loop (\<lambda>c. Inr (f c)) n (counter + 1) (acc @ f counter)"
      using True ne by (subst kdf_loop.simps) simp
    also have "\<dots> = Inr ((acc @ f counter)
        @ concat (map (\<lambda>i. f (counter + 1 + of_nat i)) [0..<?k (acc @ f counter)]))"
      using True ne by (intro less) (auto intro!: diff_less_mono2)
    also have "\<dots> = Inr (acc @ concat (map (\<lambda>i. f (counter + of_nat i)) [0..<?k acc]))"
      unfolding k k' by (simp add: upt_conv_Cons map_Suc_upt [symmetric] ac_simps comp_def del: upt_Suc)
    finally show ?thesis .
  qed
qed


lemma kdf_output_len_Inr: "kdf_output_len bits = Inr n \<longleftrightarrow> unat bits \<le> 8192 \<and> n = (unat bits + 7) div 8"
  by (auto simp: kdf_output_len_def MAX_KDF_BYTES_def split: if_splits)

lemma kdf_output_len_Inl: "kdf_output_len bits = Inl e \<longleftrightarrow> 8192 < unat bits \<and> e = rc_VALUE"
  by (auto simp: kdf_output_len_def MAX_KDF_BYTES_def split: if_splits)

lemma length_mask_first [simp]: "length (mask_first bits out) = length out"
  by (simp add: mask_first_def split: list.split)

definition kdfa_terminator :: "bytes \<Rightarrow> bytes" where
  "kdfa_terminator label = (if label \<noteq> [] \<and> last label = 0 then [] else [0])"

definition kdfa_block ::
  "env \<Rightarrow> u16 \<Rightarrow> nat \<Rightarrow> bytes \<Rightarrow> bytes \<Rightarrow> bytes \<Rightarrow> bytes \<Rightarrow> u32 \<Rightarrow> u32 \<Rightarrow> bytes" where
  "kdfa_block E a block key label u v bits counter =
     hmac_spec E a block key
       (to_be 4 counter @ label @ kdfa_terminator label @ u @ v @ to_be 4 bits)"

lemma length_kdfa_block: "env_ok E \<Longrightarrow> length (kdfa_block E a block key label u v bits c) = output_len E a"
  by (simp add: kdfa_block_def hmac_spec_def Let_def env_ok_length)

lemma length_concat_blocks:
  "(\<And>c. length (f c) = d) \<Longrightarrow> length (concat (map f xs)) = length xs * d"
  by (induction xs) auto

lemma ceil_mult_ge: "0 < (d::nat) \<Longrightarrow> n \<le> (n + d - 1) div d * d"
  using div_mod_decomp [of "n + d - 1" d] mod_less_divisor [of d "n + d - 1"] by linarith

lemma kdfa_closed_form:
  assumes "env_ok E" and "is_supported E a" and "hash_block_size E a = Inr block"
    and "unat bits \<le> 8192"
  shows "kdfa_bytes E a key label u v bits =
     Inr (mask_first bits (take ((unat bits + 7) div 8) (concat (map
       (\<lambda>i. kdfa_block E a block key label u v bits (1 + of_nat i))
       [0..<((unat bits + 7) div 8 + output_len E a - 1) div output_len E a]))))"
proof -
  let ?d = "output_len E a"
  have d: "0 < ?d" using supported_output_len [OF assms(1,2)] by auto
  have mac: "(\<lambda>counter. res_bind (hmac_new E a key) (\<lambda>mac.
           Inr (hmac_finish E (hmac_update (to_be 4 bits) (hmac_update v (hmac_update u
               (hmac_update (kdfa_terminator label) (hmac_update label
                 (hmac_update (to_be 4 (counter :: u32)) mac)))))))))
      = (\<lambda>c. Inr (kdfa_block E a block key label u v bits c))" (is "?L = _")
  proof
    fix c
    show "?L c = Inr (kdfa_block E a block key label u v bits c)"
      using hmac_parts_spec [OF assms(2,3), of key "[to_be 4 c, label, kdfa_terminator label, u, v, to_be 4 bits]"]
      by (simp add: hmac_parts_def kdfa_block_def)
  qed
  show ?thesis
    using assms d mac
    by (simp add: kdfa_bytes_def kdfa_terminator_def kdf_output_len_Inr [THEN iffD2] hash_size_def
        supported_algorithm Let_def kdf_loop_blocks [where d = ?d] length_kdfa_block)
qed

lemma unsupported_hash:
  assumes "\<not> is_supported E a"
  shows "hash_algorithm E a = Inl rc_HASH" "hash_size E a = Inl rc_HASH" "digest E a d = Inl rc_HASH"
  using unsupported_algorithm [OF assms] by (simp_all add: hash_size_def digest_def)

text \<open>The mask leaves a value of the requested number of bits.\<close>

lemma mask_first_bound:
  assumes "bits mod 8 \<noteq> 0" and "out \<noteq> []"
  shows "unat (hd (mask_first bits out)) < 2 ^ unat (bits mod 8)"
proof -
  obtain b bs where out: "out = b # bs" using assms(2) by (cases out) auto
  let ?r = "unat (bits mod 8)"
  have r: "?r < 8" by (simp add: unat_mod)
  have "(push_bit ?r 1 - 1 :: u8) = mask ?r" by (simp add: mask_eq_decr_exp push_bit_eq_mult)
  then have "b AND (push_bit ?r 1 - 1) = take_bit ?r b"
    by (simp only: take_bit_eq_mask)
  then have "unat (b AND (push_bit ?r 1 - 1)) = take_bit ?r (unat b)"
    by (simp only: unsigned_take_bit_eq)
  then show ?thesis
    using out assms(1) by (simp add: mask_first_def)
qed

lemma kdfa_cases:
  assumes "env_ok E"
  shows "case kdfa_bytes E a key label u v bits of
      Inl e \<Rightarrow> (8192 < unat bits \<and> e = rc_VALUE)
             \<or> (unat bits \<le> 8192 \<and> \<not> is_supported E a \<and> e = rc_HASH)
    | Inr out \<Rightarrow> unat bits \<le> 8192 \<and> is_supported E a \<and> length out = (unat bits + 7) div 8
             \<and> (bits mod 8 \<noteq> 0 \<longrightarrow> unat (hd out) < 2 ^ unat (bits mod 8))"
proof (cases "unat bits \<le> 8192")
  case False
  then have "kdf_output_len bits = Inl rc_VALUE" by (simp add: kdf_output_len_Inl)
  with False show ?thesis by (simp add: kdfa_bytes_def)
next
  case bits: True
  show ?thesis
  proof (cases "is_supported E a")
    case False
    with bits show ?thesis
      by (simp add: kdfa_bytes_def kdf_output_len_Inr [THEN iffD2] unsupported_hash)
  next
    case sup: True
    then obtain block where block: "hash_block_size E a = Inr block"
      using supported_block_size by blast
    let ?n = "(unat bits + 7) div 8" and ?d = "output_len E a"
    let ?blocks = "concat (map (\<lambda>i. kdfa_block E a block key label u v bits (1 + of_nat i))
       [0..<(?n + ?d - 1) div ?d])"
    have d: "0 < ?d" using supported_output_len [OF assms sup] by auto
    have len: "?n \<le> length ?blocks"
      using ceil_mult_ge [OF d, of ?n]
      by (simp only: length_concat_blocks [where d = ?d] length_kdfa_block [OF assms] length_upt) simp
    obtain out where out: "take ?n ?blocks = out" by simp
    with len have n: "length out = ?n" by auto
    have eq: "kdfa_bytes E a key label u v bits = Inr (mask_first bits out)"
      unfolding out [symmetric] by (rule kdfa_closed_form [OF assms sup block bits])
    have "out \<noteq> []" if "bits mod 8 \<noteq> 0"
    proof -
      from that have "0 < unat bits" by (metis unat_gt_0 mod_0)
      then have "0 < ?n" by simp
      with n show ?thesis by auto
    qed
    then show ?thesis
      unfolding eq using mask_first_bound [of bits out] n sup bits by simp
  qed
qed

lemma mgf1_closed_form:
  assumes "env_ok E" and "is_supported E a" and "n \<le> MAX_KDF_BYTES"
  shows "mgf1 E a seed n = Inr (take n (concat (map
      (\<lambda>i. raw_digest E a (seed @ to_be 4 (of_nat i :: u32)))
      [0..<(n + output_len E a - 1) div output_len E a])))"
proof -
  let ?d = "output_len E a"
  have d: "0 < ?d" using supported_output_len [OF assms(1,2)] by auto
  show ?thesis
    using assms d
    by (simp add: mgf1_def hash_size_def supported_algorithm hasher_new_def hasher_finish_def
        hasher_update_def Let_def
        kdf_loop_blocks [where d = ?d and f = "\<lambda>c. raw_digest E a (seed @ to_be 4 c)"] env_ok_length)
qed

text \<open>C25: HMAC as the code computes it, with a streaming inner hash and a padded or hashed key, is
  the FIPS 198 construction over the concatenation of the parts.\<close>

theorem hmac_is_fips198:
  assumes "is_supported E a" and "hash_block_size E a = Inr block"
  shows "hmac_parts E a key parts = Inr (hmac_spec E a block key (concat parts))"
  using assms by (rule hmac_parts_spec)

theorem hmac_is_fips198_witness:
  "is_supported (demo_env False) alg_SHA256
   \<and> hash_block_size (demo_env False) alg_SHA256 = Inr 64
   \<and> hmac_parts (demo_env False) alg_SHA256 [1, 2] [[3], [4, 5]]
       = Inr (hmac_spec (demo_env False) alg_SHA256 64 [1, 2] [3, 4, 5])"
  using hmac_is_fips198 [of "demo_env False" alg_SHA256 64 "[1, 2]" "[[3], [4, 5]]"]
  by (simp add: is_supported_def hash_algorithm_def hash_block_size_def)

text \<open>KDFa always returns. It fails with \<open>TPM_RC_VALUE\<close> exactly above 8192 bits and otherwise
  with \<open>TPM_RC_HASH\<close> exactly for an unsupported hash; its output has the octets the bits need,
  with the unused high bits clear.\<close>

theorem kdfa_result:
  assumes "env_ok E"
  shows "case kdfa_bytes E a key label u v bits of
      Inl e \<Rightarrow> (8192 < unat bits \<and> e = rc_VALUE)
             \<or> (unat bits \<le> 8192 \<and> \<not> is_supported E a \<and> e = rc_HASH)
    | Inr out \<Rightarrow> unat bits \<le> 8192 \<and> is_supported E a \<and> length out = (unat bits + 7) div 8
             \<and> (bits mod 8 \<noteq> 0 \<longrightarrow> unat (hd out) < 2 ^ unat (bits mod 8))"
  using assms by (rule kdfa_cases)

theorem kdfa_result_witness:
  "\<exists>out. kdfa_bytes (demo_env True) alg_SHA384 [1] [65] [] [2] 521 = Inr out
     \<and> length out = 66 \<and> unat (hd out) < 2"
  using kdfa_result [OF env_ok_demo [of True], where a = alg_SHA384 and key = "[1]" and label = "[65]"
    and u = "[]" and v = "[2]" and bits = 521]
  by (simp add: is_supported_def hash_algorithm_def split: sum.splits)

end
