(* ===== verification/Rand.thy ===== *)
theory Rand
  imports Hash
begin

text \<open>
  The two generators of \<open>src/tpm/crypto/rand.rs\<close>: the HMAC_DRBG behind every nonce, and the
  seeded generator that regenerates primary objects. A generator is its state; \<open>fill\<close> and
  \<open>bytes\<close> of the trait \<open>Rng\<close> are functions from a state to the octets, or an error, and the new
  state. Commands that draw octets take such a function as an argument.
\<close>

type_synonym 'g rng_bytes = "nat \<Rightarrow> 'g \<Rightarrow> bytes tpm_result \<times> 'g"

section \<open>HMAC_DRBG\<close>

definition DRBG_HASH :: u16 where "DRBG_HASH = alg_SHA256"
definition MIN_ENTROPY_BYTES :: nat where "MIN_ENTROPY_BYTES = 256 * 3 div 2 div 8"
definition MAX_BYTES_PER_REQUEST :: nat where "MAX_BYTES_PER_REQUEST = 2 ^ 19 div 8"
definition RESEED_INTERVAL :: u64 where "RESEED_INTERVAL = push_bit 48 1"

record drbg =
  d_key :: bytes
  d_value :: bytes
  reseed_counter :: u64

definition set_key :: "env \<Rightarrow> bytes list \<Rightarrow> (drbg, unit) st_op" where
  "set_key E parts = (\<lambda>d.
     case hmac_parts E DRBG_HASH (d_key d) parts of
       Inl e \<Rightarrow> (Inl e, d)
     | Inr k \<Rightarrow> (Inr (), d\<lparr>d_key := k\<rparr>))"

definition set_value :: "env \<Rightarrow> (drbg, unit) st_op" where
  "set_value E = (\<lambda>d.
     case hmac_parts E DRBG_HASH (d_key d) [d_value d] of
       Inl e \<Rightarrow> (Inl e, d)
     | Inr v \<Rightarrow> (Inr (), d\<lparr>d_value := v\<rparr>))"

definition drbg_update :: "env \<Rightarrow> bytes list \<Rightarrow> (drbg, unit) st_op" where
  "drbg_update E provided = (\<lambda>d.
     st_bind (set_key E ([d_value d, [0]] @ provided)) (\<lambda>_.
     st_bind (set_value E) (\<lambda>_.
       if \<not> list_ex (\<lambda>p. p \<noteq> []) provided then st_return ()
       else (\<lambda>d'. st_bind (set_key E ([d_value d', [1]] @ provided)) (\<lambda>_. set_value E) d'))) d)"

definition drbg_instantiate :: "env \<Rightarrow> bytes \<Rightarrow> bytes \<Rightarrow> bytes \<Rightarrow> drbg tpm_result" where
  "drbg_instantiate E entropy nonce personalization =
     (if length entropy + length nonce < MIN_ENTROPY_BYTES then Inl rc_FAILURE
      else res_bind (hash_size E DRBG_HASH) (\<lambda>len.
        let d = \<lparr>d_key = replicate len 0, d_value = replicate len 1, reseed_counter = 1\<rparr>
        in case drbg_update E [entropy, nonce, personalization] d of
             (Inl e, _) \<Rightarrow> Inl e
           | (Inr _, d') \<Rightarrow> Inr d'))"

definition drbg_new :: "env \<Rightarrow> bytes \<Rightarrow> bytes \<Rightarrow> drbg tpm_result" where
  "drbg_new E entropy personalization = drbg_instantiate E entropy [] personalization"

definition drbg_reseed :: "env \<Rightarrow> bytes \<Rightarrow> (drbg, unit) st_op" where
  "drbg_reseed E entropy =
     (if length entropy < MIN_ENTROPY_BYTES then st_fail rc_FAILURE
      else st_bind (drbg_update E [entropy]) (\<lambda>_. st_modify (\<lambda>d. d\<lparr>reseed_counter := 1\<rparr>)))"

definition drbg_stir :: "env \<Rightarrow> bytes \<Rightarrow> (drbg, unit) st_op" where
  "drbg_stir E data = drbg_update E [data]"

definition needs_reseed :: "drbg \<Rightarrow> bool" where
  "needs_reseed d = (RESEED_INTERVAL \<le> reseed_counter d)"

text \<open>
  The loop of \<open>fill\<close>, with the octets still to write as its measure. As with \<open>kdf_loop\<close>, an
  empty block ends it here and cannot occur (\<open>drbg_loop_blocks\<close>).
\<close>

function drbg_loop :: "env \<Rightarrow> nat \<Rightarrow> bytes \<Rightarrow> drbg \<Rightarrow> bytes tpm_result \<times> drbg" where
  "drbg_loop E need acc d =
     (if need = 0 then (Inr acc, d)
      else case set_value E d of
          (Inl e, d') \<Rightarrow> (Inl e, d')
        | (Inr _, d') \<Rightarrow>
            let n = min need (length (d_value d'))
            in if n = 0 then (Inr acc, d')
               else drbg_loop E (need - n) (acc @ take n (d_value d')) d')"
  by pat_completeness auto
termination
  by (relation "measure (\<lambda>(E, need, acc, d). need)") auto

declare drbg_loop.simps [simp del]

definition drbg_fill :: "env \<Rightarrow> drbg rng_bytes" where
  "drbg_fill E n d =
     (if MAX_BYTES_PER_REQUEST < n then (Inl rc_VALUE, d)
      else if needs_reseed d then (Inl rc_FAILURE, d)
      else case drbg_loop E n [] d of
          (Inl e, d') \<Rightarrow> (Inl e, d')
        | (Inr out, d') \<Rightarrow>
            case drbg_update E [] d' of
              (Inl e, d'') \<Rightarrow> (Inl e, d'')
            | (Inr _, d'') \<Rightarrow>
                (Inr out, d''\<lparr>reseed_counter := saturating_add (reseed_counter d'') 1\<rparr>))"

section \<open>The seeded generator\<close>

record seeded =
  s_alg :: u16
  s_seed :: bytes
  s_label :: bytes
  s_context :: bytes
  s_block :: u64
  s_buffer :: bytes
  s_offset :: nat

definition seeded_new :: "u16 \<Rightarrow> bytes \<Rightarrow> bytes \<Rightarrow> bytes \<Rightarrow> seeded" where
  "seeded_new a seed label ctx =
     \<lparr>s_alg = a, s_seed = seed, s_label = (if 0 \<in> set label then [] else label),
      s_context = ctx, s_block = 0, s_buffer = [], s_offset = 0\<rparr>"

definition seeded_reset :: "seeded \<Rightarrow> seeded" where
  "seeded_reset s = s\<lparr>s_block := 0, s_buffer := [], s_offset := 0\<rparr>"

definition seeded_refill :: "env \<Rightarrow> (seeded, unit) st_op" where
  "seeded_refill E s =
     (case hash_size E (s_alg s) of Inl e \<Rightarrow> (Inl e, s) | Inr block_size \<Rightarrow>
      case kdfa_bytes E (s_alg s) (s_seed s) (s_label s) [] (s_context s @ to_be 8 (s_block s))
             (of_nat (block_size * 8)) of
        Inl e \<Rightarrow> (Inl e, s)
      | Inr b \<Rightarrow>
          let s' = s\<lparr>s_buffer := b, s_offset := 0\<rparr>
          in if s_block s' = - 1 then (Inl rc_FAILURE, s')
             else (Inr (), s'\<lparr>s_block := s_block s' + 1\<rparr>))"

definition seeded_ready :: "env \<Rightarrow> (seeded, unit) st_op" where
  "seeded_ready E s = (if length (s_buffer s) \<le> s_offset s then seeded_refill E s else (Inr (), s))"

function seeded_loop :: "env \<Rightarrow> nat \<Rightarrow> bytes \<Rightarrow> seeded \<Rightarrow> bytes tpm_result \<times> seeded" where
  "seeded_loop E need acc s =
     (if need = 0 then (Inr acc, s)
      else case seeded_ready E s of
          (Inl e, s') \<Rightarrow> (Inl e, s')
        | (Inr _, s') \<Rightarrow>
            let n = min need (length (s_buffer s') - s_offset s')
            in if n = 0 then (Inr acc, s')
               else seeded_loop E (need - n)
                      (acc @ slice (s_buffer s') (s_offset s') (s_offset s' + n))
                      (s'\<lparr>s_offset := s_offset s' + n\<rparr>))"
  by pat_completeness auto
termination
  by (relation "measure (\<lambda>(E, need, acc, s). need)") auto

declare seeded_loop.simps [simp del]

definition seeded_fill :: "env \<Rightarrow> seeded rng_bytes" where
  "seeded_fill E n s = seeded_loop E n [] s"

section \<open>What the DRBG generates\<close>

definition drbg_mac :: "env \<Rightarrow> bytes \<Rightarrow> bytes \<Rightarrow> bytes" where
  "drbg_mac E k m = hmac_spec E DRBG_HASH 64 k m"

lemma drbg_hash_supported:
  "is_supported E DRBG_HASH" "hash_block_size E DRBG_HASH = Inr 64"
  by (simp_all add: is_supported_def hash_algorithm_def hash_block_size_def DRBG_HASH_def)

lemma drbg_hmac: "hmac_parts E DRBG_HASH k parts = Inr (drbg_mac E k (concat parts))"
  by (simp add: hmac_parts_spec drbg_hash_supported drbg_mac_def)

lemma length_drbg_mac: "env_ok E \<Longrightarrow> length (drbg_mac E k m) = 32"
  by (simp add: drbg_mac_def hmac_spec_def Let_def env_ok_length) (simp add: env_ok_def DRBG_HASH_def)

lemma set_key_eq: "set_key E parts d = (Inr (), d\<lparr>d_key := drbg_mac E (d_key d) (concat parts)\<rparr>)"
  by (simp add: set_key_def drbg_hmac)

lemma set_value_eq: "set_value E d = (Inr (), d\<lparr>d_value := drbg_mac E (d_key d) (d_value d)\<rparr>)"
  by (simp add: set_value_def drbg_hmac)

lemma drbg_update_empty:
  "drbg_update E [] d = (Inr (),
     d\<lparr>d_key := drbg_mac E (d_key d) (d_value d @ [0]),
       d_value := drbg_mac E (drbg_mac E (d_key d) (d_value d @ [0])) (d_value d)\<rparr>)"
  by (simp add: drbg_update_def st_bind_apply set_key_eq set_value_eq)

lemma drbg_update_total: "\<exists>d'. drbg_update E provided d = (Inr (), d') \<and> reseed_counter d' = reseed_counter d"
  by (simp add: drbg_update_def st_bind_apply set_key_eq set_value_eq)

lemma min_eq_0: "min a b = (0::nat) \<longleftrightarrow> a = 0 \<or> b = 0"
  by (auto simp: min_def)

lemma drbg_loop_blocks:
  assumes "env_ok E"
  shows "drbg_loop E need acc d =
    (let f = drbg_mac E (d_key d); k = (need + 31) div 32
     in (Inr (acc @ take need (concat (map (\<lambda>i. (f ^^ Suc i) (d_value d)) [0..<k]))),
         d\<lparr>d_value := (f ^^ k) (d_value d)\<rparr>))"
proof (induction need arbitrary: acc d rule: less_induct)
  case (less need)
  let ?f = "drbg_mac E (d_key d)"
  have len: "length (?f x) = 32" for x using assms by (rule length_drbg_mac)
  show ?case
  proof (cases "need = 0")
    case True
    then show ?thesis by (subst drbg_loop.simps) (simp add: Let_def)
  next
    case False
    let ?v = "?f (d_value d)" and ?n = "min need 32" and ?d = "d\<lparr>d_value := ?f (d_value d)\<rparr>"
    have k: "(need + 31) div 32 = Suc ((need - ?n + 31) div 32)"
      using False by (cases "need \<le> 32") (auto simp: min_def le_div_geq)
    have step: "drbg_loop E need acc d = drbg_loop E (need - ?n) (acc @ take ?n ?v) ?d"
      using False len [of "d_value d"]
      by (subst drbg_loop.simps) (auto simp: set_value_eq Let_def min_eq_0)
    let ?j = "(need - ?n + 31) div 32"
    have shift: "concat (map (\<lambda>i. (?f ^^ Suc i) (d_value d)) [0..<Suc ?j])
        = ?v @ concat (map (\<lambda>i. (?f ^^ Suc i) ?v) [0..<?j])"
      by (simp add: upt_conv_Cons map_Suc_upt [symmetric] comp_def funpow_swap1 del: upt_Suc)
    have take: "take ?n ?v @ take (need - ?n) xs = take need (?v @ xs)" for xs
      using len [of "d_value d"] by (cases "need \<le> 32") (simp_all add: min_def)
    have "need - ?n < need" using False by simp
    note less [OF this, of "acc @ take ?n ?v" ?d]
    then have "drbg_loop E need acc d
        = (Inr (acc @ take need (?v @ concat (map (\<lambda>i. (?f ^^ Suc i) ?v) [0..<?j]))),
           d\<lparr>d_value := (?f ^^ ?j) ?v\<rparr>)"
      unfolding step using take [of "concat (map (\<lambda>i. (?f ^^ Suc i) ?v) [0..<?j])"]
      by (simp add: Let_def len del: funpow.simps)
    then show ?thesis
      unfolding Let_def k shift by (simp add: funpow_swap1)
  qed
qed

text \<open>C26: the generate function of HMAC_DRBG. A request within the limits succeeds with the leftmost
  octets of the chain of MACs of V, runs the update without data, and counts the call; a request
  over the limit or past the reseed interval fails and leaves the state as it was.\<close>

theorem drbg_generate:
  assumes "env_ok E"
  shows "drbg_fill E n d =
    (if MAX_BYTES_PER_REQUEST < n then (Inl rc_VALUE, d)
     else if RESEED_INTERVAL \<le> reseed_counter d then (Inl rc_FAILURE, d)
     else (let f = drbg_mac E (d_key d);
               k = (n + 31) div 32;
               v = (f ^^ k) (d_value d);
               key' = f (v @ [0])
           in (Inr (take n (concat (map (\<lambda>i. (f ^^ Suc i) (d_value d)) [0..<k]))),
               \<lparr>d_key = key', d_value = drbg_mac E key' v, reseed_counter = reseed_counter d + 1\<rparr>)))"
proof -
  have "saturating_add (reseed_counter d) 1 = reseed_counter d + 1"
    if "\<not> RESEED_INTERVAL \<le> reseed_counter d"
    using that by (simp add: saturating_add_def RESEED_INTERVAL_def word_le_nat_alt)
  then show ?thesis
    by (simp add: drbg_fill_def needs_reseed_def drbg_loop_blocks [OF assms] Let_def drbg_update_empty)
qed

theorem drbg_generate_witness:
  "env_ok (demo_env True) \<and>
   drbg_fill (demo_env True) 70000 \<lparr>d_key = [], d_value = [], reseed_counter = 1\<rparr>
     = (Inl rc_VALUE, \<lparr>d_key = [], d_value = [], reseed_counter = 1\<rparr>)"
  using drbg_generate [OF env_ok_demo [of True], of 70000 "\<lparr>d_key = [], d_value = [], reseed_counter = 1\<rparr>"]
  by (simp add: MAX_BYTES_PER_REQUEST_def)

section \<open>What the seeded generator generates\<close>

lemma seeded_refill_nonempty:
  assumes "env_ok E" and "seeded_refill E s = (Inr u, s')"
  shows "s_offset s' < length (s_buffer s')"
proof -
  obtain len b where len: "hash_size E (s_alg s) = Inr len"
    and b: "kdfa_bytes E (s_alg s) (s_seed s) (s_label s) [] (s_context s @ to_be 8 (s_block s))
             (of_nat (len * 8)) = Inr b"
    and s': "s_buffer s' = b" "s_offset s' = 0"
    using assms(2) by (auto simp: seeded_refill_def Let_def split: sum.splits if_splits)
  have "is_supported E (s_alg s)" and "len = output_len E (s_alg s)"
    using len by (auto simp: hash_size_def is_supported_def is_ok_iff res_bind_eq_Inr dest: hash_algorithm_Inr)
  then have "len \<in> {20, 32, 48, 64}" using supported_output_len [OF assms(1)] by simp
  moreover have "length b = (unat (of_nat (len * 8) :: u32) + 7) div 8"
    using kdfa_cases [OF assms(1), of "of_nat (len * 8)" "s_alg s" "s_seed s" "s_label s" "[]"
        "s_context s @ to_be 8 (s_block s)"] b by simp
  ultimately have "0 < length b" by auto
  with s' show ?thesis by simp
qed

lemma seeded_ready_nonempty:
  "env_ok E \<Longrightarrow> seeded_ready E s = (Inr u, s') \<Longrightarrow> s_offset s' < length (s_buffer s')"
  by (auto simp: seeded_ready_def split: if_splits dest: seeded_refill_nonempty)

lemma seeded_loop_0 [simp]: "seeded_loop E 0 acc s = (Inr acc, s)"
  by (simp add: seeded_loop.simps)

text \<open>The loop as the code has it: under \<open>env_ok\<close> every pass writes at least one octet.\<close>

lemma seeded_loop_step:
  assumes "env_ok E" and "0 < need"
  shows "seeded_loop E need acc s =
     (case seeded_ready E s of (Inl e, s') \<Rightarrow> (Inl e, s')
      | (Inr _, s') \<Rightarrow>
          let n = min need (length (s_buffer s') - s_offset s')
          in seeded_loop E (need - n) (acc @ slice (s_buffer s') (s_offset s') (s_offset s' + n))
               (s'\<lparr>s_offset := s_offset s' + n\<rparr>))"
  using assms(2) seeded_ready_nonempty [OF assms(1)]
  by (subst seeded_loop.simps) (fastforce simp: Let_def min_eq_0 split: prod.splits sum.splits)

lemma slice_append: "a \<le> b \<Longrightarrow> b \<le> c \<Longrightarrow> slice xs a b @ slice xs b c = slice xs a c"
  using take_add [of "b - a" "c - b" "drop a xs"] by (simp add: slice_def)

lemma seeded_loop_split:
  assumes "env_ok E" and "seeded_loop E n acc s = (Inr a, s1)"
  shows "seeded_loop E (n + m) acc s = seeded_loop E m a s1"
  using assms(2)
proof (induction n arbitrary: acc s rule: less_induct)
  case (less n)
  show ?case
  proof (cases "n = 0")
    case True
    with less.prems show ?thesis by simp
  next
    case False
    note step = seeded_loop_step [OF assms(1)]
    obtain u s' where ready: "seeded_ready E s = (Inr u, s')"
      using less.prems False by (auto simp: step split: prod.splits sum.splits)
    let ?o = "s_offset s'" and ?b = "s_buffer s'"
    have av: "?o < length ?b" using seeded_ready_nonempty [OF assms(1) ready] .
    let ?n = "min n (length ?b - ?o)"
    have loop: "seeded_loop E (n - ?n) (acc @ slice ?b ?o (?o + ?n)) (s'\<lparr>s_offset := ?o + ?n\<rparr>) = (Inr a, s1)"
      using less.prems False ready by (simp add: step Let_def)
    show ?thesis
    proof (cases "length ?b - ?o \<le> n")
      case True
      then have "min (n + m) (length ?b - ?o) = ?n" and "n + m - ?n = (n - ?n) + m" by simp_all
      then have "seeded_loop E (n + m) acc s
          = seeded_loop E ((n - ?n) + m) (acc @ slice ?b ?o (?o + ?n)) (s'\<lparr>s_offset := ?o + ?n\<rparr>)"
        using False ready by (simp add: step Let_def)
      also have "\<dots> = seeded_loop E m a s1"
        by (rule less.IH [OF _ loop]) (use False av in auto)
      finally show ?thesis .
    next
      case part: False
      then have s1: "s1 = s'\<lparr>s_offset := ?o + n\<rparr>" and a: "a = acc @ slice ?b ?o (?o + n)"
        using loop by simp_all
      show ?thesis
      proof (cases "m = 0")
        case True
        with less.prems show ?thesis by simp
      next
        case m: False
        let ?m = "min m (length ?b - (?o + n))"
        have "?o + n < length ?b" using part by linarith
        then have "seeded_ready E s1 = (Inr (), s1)" by (simp add: seeded_ready_def s1)
        then have "seeded_loop E m a s1 = seeded_loop E (m - ?m)
            (acc @ slice ?b ?o (?o + n) @ slice ?b (?o + n) (?o + n + ?m)) (s'\<lparr>s_offset := ?o + n + ?m\<rparr>)"
          using m by (simp add: step Let_def s1 a)
        moreover have "min (n + m) (length ?b - ?o) = n + ?m" using part by simp
        ultimately show ?thesis
          using False ready by (simp add: step Let_def slice_append add.assoc)
      qed
    qed
  qed
qed

lemma seeded_loop_length:
  "env_ok E \<Longrightarrow> seeded_loop E n acc s = (Inr a, s') \<Longrightarrow> length a = length acc + n"
proof (induction n arbitrary: acc s rule: less_induct)
  case (less n)
  show ?case
  proof (cases "n = 0")
    case True
    with less.prems show ?thesis by simp
  next
    case False
    obtain u t where ready: "seeded_ready E s = (Inr u, t)"
      using less.prems False by (auto simp: seeded_loop_step split: prod.splits sum.splits)
    have av: "s_offset t < length (s_buffer t)" using seeded_ready_nonempty [OF less.prems(1) ready] .
    let ?n = "min n (length (s_buffer t) - s_offset t)"
    have "seeded_loop E (n - ?n) (acc @ slice (s_buffer t) (s_offset t) (s_offset t + ?n))
        (t\<lparr>s_offset := s_offset t + ?n\<rparr>) = (Inr a, s')"
      using less.prems False ready by (simp add: seeded_loop_step Let_def)
    from less.IH [OF _ less.prems(1) this] show ?thesis
      using av False by (simp add: length_slice)
  qed
qed

text \<open>The octets of the seeded generator are one stream: drawing \<open>n\<close> octets and then \<open>m\<close> gives
  the octets, and leaves the state, that drawing \<open>n + m\<close> at once gives. So a key derived
  from a seed does not depend on how its requests are split.\<close>

theorem seeded_stream:
  assumes "env_ok E" and "seeded_fill E n s = (Inr a, s1)" and "seeded_fill E m s1 = (Inr b, s2)"
  shows "length a = n \<and> seeded_fill E (n + m) s = (Inr (a @ b), s2)"
proof
  show "length a = n" using seeded_loop_length [OF assms(1)] assms(2) by (fastforce simp: seeded_fill_def)
  have acc: "seeded_loop E k (c @ acc) t = (case seeded_loop E k acc t of
      (Inl e, t') \<Rightarrow> (Inl e, t') | (Inr x, t') \<Rightarrow> (Inr (c @ x), t'))" for k c acc t
  proof (induction k arbitrary: acc t rule: less_induct)
    case (less k)
    show ?case
    proof (cases "k = 0")
      case False
      then have "0 < k" by simp
      show ?thesis
      proof (cases "seeded_ready E t")
        case (Pair r t')
        show ?thesis
        proof (cases r)
          case (Inr u)
          then have "s_offset t' < length (s_buffer t')"
            using Pair seeded_ready_nonempty [OF assms(1)] by blast
          with less False Pair Inr \<open>0 < k\<close> show ?thesis
            by (simp add: seeded_loop_step [OF assms(1)] Let_def)
        qed (use Pair False in \<open>simp add: seeded_loop_step [OF assms(1)]\<close>)
      qed
    qed simp
  qed
  show "seeded_fill E (n + m) s = (Inr (a @ b), s2)"
    using seeded_loop_split [OF assms(1), of n "[]" s a s1 m] assms(2,3) acc [of m a "[]" s1]
    by (simp add: seeded_fill_def)
qed

theorem seeded_stream_witness:
  "seeded_fill (demo_env False) (1 + 1) \<lparr>s_alg = alg_SHA256, s_seed = [], s_label = [], s_context = [],
       s_block = 1, s_buffer = [7, 8, 9], s_offset = 0\<rparr>
     = (Inr ([7] @ [8]), \<lparr>s_alg = alg_SHA256, s_seed = [], s_label = [], s_context = [],
       s_block = 1, s_buffer = [7, 8, 9], s_offset = 2\<rparr>)"
proof -
  let ?s = "\<lambda>n. \<lparr>s_alg = alg_SHA256, s_seed = [], s_label = [], s_context = [],
       s_block = 1, s_buffer = [7, 8, 9], s_offset = n\<rparr> :: seeded"
  have "seeded_fill (demo_env False) 1 (?s 0) = (Inr [7], ?s 1)"
    and "seeded_fill (demo_env False) 1 (?s 1) = (Inr [8], ?s 2)"
    by (simp_all add: seeded_fill_def seeded_loop_step seeded_ready_def slice_def)
  then show ?thesis using seeded_stream [OF env_ok_demo] by blast
qed

end
