(* ===== verification/Commit.thy ===== *)
theory Commit
  imports Rand
begin

text \<open>
  Commit values for split ECC operations (\<open>src/tpm/core/commit.rs\<close>): a nonce, a 64-bit counter
  and a ring of 128 bits, one for each counter handed out and not yet used. The contract is the
  abstract state \<open>outstanding\<close>: the set of full-width counters that can still be spent. The
  code never stores that set; the lemmas show that every operation acts on it as it should.
\<close>

definition COMMIT_NONCE_BYTES :: nat where "COMMIT_NONCE_BYTES = 64"
definition MAX_COMMIT_SEQUENCES :: u16 where "MAX_COMMIT_SEQUENCES = 128"
definition COMMIT_LABEL :: bytes where "COMMIT_LABEL = ascii ''ECDAA Commit''"

record commits =
  c_random :: bytes
  c_count :: u64
  c_used :: bytes

definition commits_new :: commits where
  "commits_new = \<lparr>c_random = [], c_count = 0, c_used = []\<rparr>"

definition commits_reset :: "'g rng_bytes \<Rightarrow> 'g \<Rightarrow> commits \<Rightarrow> unit tpm_result \<times> 'g \<times> commits" where
  "commits_reset rng g c =
     (case rng COMMIT_NONCE_BYTES g of
        (Inl e, g') \<Rightarrow> (Inl e, g', c)
      | (Inr random, g') \<Rightarrow>
          (Inr (), g', c\<lparr>c_random := random, c_count := 0,
             c_used := replicate (unat MAX_COMMIT_SEQUENCES div 8) 0\<rparr>))"

definition capacity :: "commits \<Rightarrow> u16" where
  "capacity c = MAX_COMMIT_SEQUENCES"

definition is_ready :: "commits \<Rightarrow> bool" where
  "is_ready c = (c_random c \<noteq> [] \<and> c_used c \<noteq> [])"

definition commit_index :: "u64 \<Rightarrow> nat" where
  "commit_index counter = unat (counter AND (ucast MAX_COMMIT_SEQUENCES - 1))"

definition is_set :: "u64 \<Rightarrow> commits \<Rightarrow> bool" where
  "is_set counter c =
     (let i = commit_index counter in
      if i div 8 < length (c_used c) then c_used c ! (i div 8) AND push_bit (i mod 8) 1 \<noteq> 0
      else False)"

definition commit_set :: "u64 \<Rightarrow> bool \<Rightarrow> commits \<Rightarrow> commits" where
  "commit_set counter on c =
     (let i = commit_index counter in
      if i div 8 < length (c_used c) then
        (let b = c_used c ! (i div 8)
         in c\<lparr>c_used := (c_used c)[i div 8 :=
              (if on then b OR push_bit (i mod 8) 1 else b AND NOT (push_bit (i mod 8) 1))]\<rparr>)
      else c)"

definition derive :: "env \<Rightarrow> u16 \<Rightarrow> bytes \<Rightarrow> u64 \<Rightarrow> u32 \<Rightarrow> commits \<Rightarrow> bytes tpm_result" where
  "derive E name_alg name counter bits c =
     (if \<not> is_ready c then Inl rc_NO_RESULT
      else kdfa_bytes E name_alg (c_random c) COMMIT_LABEL name (to_be 8 counter) bits)"

definition commit_next :: "env \<Rightarrow> u16 \<Rightarrow> bytes \<Rightarrow> u32 \<Rightarrow> commits \<Rightarrow> (bytes \<times> u16) tpm_result" where
  "commit_next E name_alg name bits c =
     (if \<not> is_ready c then Inl rc_NO_RESULT
      else res_bind (derive E name_alg name (c_count c) bits c) (\<lambda>r. Inr (r, ucast (c_count c))))"

definition commit_take :: "u16 \<Rightarrow> commits \<Rightarrow> commits" where
  "commit_take counter c =
     (let c' = commit_set (c_count c) True c in c'\<lparr>c_count := c_count c' + 1\<rparr>)"

definition full_counter :: "u16 \<Rightarrow> commits \<Rightarrow> u64 tpm_result" where
  "full_counter counter c =
     (let t = ucast (c_count c) :: u16; age = t - counter in
      if age = 0 \<or> MAX_COMMIT_SEQUENCES \<le> age then Inl rc_RANGE
      else if \<not> is_set (ucast counter) c then Inl rc_VALUE
      else ok_or (checked_sub (c_count c) (ucast age)) rc_VALUE)"

definition use_counter ::
  "env \<Rightarrow> u16 \<Rightarrow> bytes \<Rightarrow> u16 \<Rightarrow> u32 \<Rightarrow> commits \<Rightarrow> bytes tpm_result \<times> commits" where
  "use_counter E name_alg name counter bits c =
     (case full_counter counter c of Inl e \<Rightarrow> (Inl e, c) | Inr full \<Rightarrow>
      case derive E name_alg name full bits c of Inl e \<Rightarrow> (Inl e, c) | Inr r \<Rightarrow>
        (Inr r, commit_set full False c))"

definition commit_peek :: "env \<Rightarrow> u16 \<Rightarrow> bytes \<Rightarrow> u16 \<Rightarrow> u32 \<Rightarrow> commits \<Rightarrow> bytes tpm_result" where
  "commit_peek E name_alg name counter bits c =
     res_bind (full_counter counter c) (\<lambda>full. derive E name_alg name full bits c)"

definition outstanding_count :: "commits \<Rightarrow> nat" where
  "outstanding_count c = sum_list (map (\<lambda>b. length (filter (bit b) [0..<8])) (c_used c))"

definition commit_restore :: "bytes \<Rightarrow> u64 \<Rightarrow> bytes \<Rightarrow> commits \<Rightarrow> commits" where
  "commit_restore random count used c = c\<lparr>c_random := random, c_count := count, c_used := used\<rparr>"

section \<open>The ring\<close>

definition ring_wf :: "commits \<Rightarrow> bool" where
  "ring_wf c \<longleftrightarrow> length (c_used c) = 16"

definition slot :: "commits \<Rightarrow> nat \<Rightarrow> bool" where
  "slot c n = bit (c_used c ! (n mod 128 div 8)) (n mod 8)"

lemma commit_index_eq: "commit_index counter = unat counter mod 128"
proof -
  have "(ucast MAX_COMMIT_SEQUENCES - 1 :: u64) = mask 7"
    by (simp add: MAX_COMMIT_SEQUENCES_def mask_eq_exp_minus_1)
  then have "counter AND (ucast MAX_COMMIT_SEQUENCES - 1) = take_bit 7 counter"
    by (simp only: take_bit_eq_mask)
  then have "commit_index counter = take_bit 7 (unat counter)"
    by (simp only: commit_index_def unsigned_take_bit_eq)
  then show ?thesis
    by (simp add: take_bit_eq_mod)
qed

lemma and_single_bit: "(b AND 2 ^ k \<noteq> (0 :: u8)) \<longleftrightarrow> bit b k"
proof -
  have "bit (b AND 2 ^ k) n \<longleftrightarrow> n = k \<and> bit b k" for n
    by (auto simp: bit_simps dest: bit_imp_le_length)
  moreover have "b AND 2 ^ k = 0 \<longleftrightarrow> (\<forall>n. \<not> bit (b AND 2 ^ k) n)"
    by (metis bit_eqI bit_0_eq bot_apply bot_bool_def)
  ultimately show ?thesis by blast
qed

lemma index_split: "n mod 128 mod 8 = (n :: nat) mod 8" "n mod 128 div 8 < (16 :: nat)"
  by (simp_all add: mod_mod_cancel less_mult_imp_div_less)

lemma is_set_slot: "ring_wf c \<Longrightarrow> is_set counter c \<longleftrightarrow> slot c (unat counter)"
  by (simp add: is_set_def commit_index_eq ring_wf_def slot_def Let_def index_split and_single_bit)

lemma commit_set_fields [simp]:
  "c_count (commit_set n on c) = c_count c"
  "c_random (commit_set n on c) = c_random c"
  "length (c_used (commit_set n on c)) = length (c_used c)"
  by (simp_all add: commit_set_def Let_def)

lemma ring_wf_set [simp]: "ring_wf (commit_set n on c) = ring_wf c"
  by (simp add: ring_wf_def)

lemma is_ready_set [simp]: "is_ready (commit_set n on c) = is_ready c"
proof -
  have "c_used (commit_set n on c) \<noteq> [] \<longleftrightarrow> c_used c \<noteq> []"
    by (metis commit_set_fields(3) length_0_conv)
  then show ?thesis by (simp add: is_ready_def)
qed

lemma bit_set_clear:
  assumes "k < 8"
  shows "bit (b OR 2 ^ k :: u8) j \<longleftrightarrow> j = k \<or> bit b j"
    and "bit (b AND NOT (2 ^ k) :: u8) j \<longleftrightarrow> j \<noteq> k \<and> bit b j"
  using assms by (auto simp: bit_simps dest: bit_imp_le_length)

lemma slot_set:
  assumes "ring_wf c"
  shows "slot (commit_set counter on c) n
    \<longleftrightarrow> (if n mod 128 = unat counter mod 128 then on else slot c n)"
proof -
  let ?m = "unat counter"
  let ?b = "c_used c ! (?m mod 128 div 8)"
  have idx: "?m mod 128 div 8 < length (c_used c)" using assms by (simp add: ring_wf_def index_split)
  have used: "c_used (commit_set counter on c) = (c_used c)[?m mod 128 div 8 :=
      (if on then ?b OR push_bit (?m mod 8) 1 else ?b AND NOT (push_bit (?m mod 8) 1))]"
    using idx by (simp add: commit_set_def Let_def commit_index_eq index_split)
  have "?m mod 8 < 8" by simp
  note bits = bit_set_clear [OF this]
  have same: "n mod 128 = ?m mod 128 \<longleftrightarrow> n mod 128 div 8 = ?m mod 128 div 8 \<and> n mod 8 = ?m mod 8"
    by (metis index_split(1) mult_div_mod_eq)
  show ?thesis
  proof (cases "n mod 128 div 8 = ?m mod 128 div 8")
    case True
    then show ?thesis using idx used by (cases on) (simp_all add: slot_def same bits)
  next
    case False
    then show ?thesis using used by (simp add: slot_def same)
  qed
qed

section \<open>The abstract state\<close>

text \<open>
  A counter is outstanding when it lies in the window of 127 below the current count and its bit
  is set. Two counters of one window never share a slot, so the ring is an exact
  representation of the set.
\<close>

definition outstanding :: "commits \<Rightarrow> nat set" where
  "outstanding c = {n. n < unat (c_count c) \<and> unat (c_count c) - n < 128 \<and> slot c n}"

lemma window_slots_distinct:
  fixes m n k :: nat
  assumes "m < k" and "k - m < 128" and "n < k" and "k - n < 128" and "m mod 128 = n mod 128"
  shows "m = n"
proof -
  have aux: "a = b" if "a \<le> b" "b - a < 128" "b mod 128 = a mod 128" for a b :: nat
  proof -
    have "128 dvd b - a" using that(3) mod_eq_dvd_iff_nat [OF that(1)] by blast
    with \<open>b - a < 128\<close> have "b - a = 0" by (metis nat_dvd_not_less neq0_conv)
    with \<open>a \<le> b\<close> show ?thesis by simp
  qed
  show ?thesis
  proof (cases "m \<le> n")
    case True
    show ?thesis by (rule aux) (use True assms in simp_all)
  next
    case False
    show ?thesis by (rule aux [symmetric]) (use False assms in simp_all)
  qed
qed

lemma outstanding_take:
  assumes "ring_wf c" and "unat (c_count c) + 1 < 2 ^ 64"
  shows "outstanding (commit_take k c)
    = insert (unat (c_count c)) {n \<in> outstanding c. unat (c_count c) - n < 127}"
proof -
  let ?k = "unat (c_count c)"
  have count: "unat (c_count c + 1) = ?k + 1"
    using assms(2) by (simp add: unat_word_ariths)
  have slots: "slot (commit_take k c) n \<longleftrightarrow> n mod 128 = ?k mod 128 \<or> slot c n" for n
    using slot_set [OF assms(1), of "c_count c" True n]
    by (auto simp: commit_take_def Let_def slot_def)
  have take_count: "unat (c_count (commit_take k c)) = ?k + 1"
    using count by (simp add: commit_take_def Let_def)
  have fresh: "n = ?k" if "n < ?k + 1" "?k + 1 - n < 128" "n mod 128 = ?k mod 128" for n
    by (rule window_slots_distinct [of _ "?k + 1"]) (use that in auto)
  show ?thesis
    using fresh by (auto simp: outstanding_def slots take_count less_Suc_eq)
qed

lemma outstanding_clear:
  assumes "ring_wf c" and "unat full \<in> outstanding c"
  shows "outstanding (commit_set full False c) = outstanding c - {unat full}"
  using assms slot_set [OF assms(1), of full False] window_slots_distinct [of _ "unat (c_count c)" "unat full"]
  by (auto simp: outstanding_def)

lemma outstanding_window: "n \<in> outstanding c \<Longrightarrow> n < unat (c_count c) \<and> unat (c_count c) - n < 128"
  by (simp add: outstanding_def)

text \<open>The counter a 16-bit name stands for is the outstanding counter with those low bits.\<close>

lemma full_counter_age:
  assumes "ring_wf c"
  shows "full_counter counter c =
    (let k = unat (c_count c); age = (k + 2 ^ 16 - unat counter) mod 2 ^ 16 in
     if age = 0 \<or> 128 \<le> age then Inl rc_RANGE
     else if \<not> slot c (unat counter) then Inl rc_VALUE
     else if k < age then Inl rc_VALUE else Inr (of_nat (k - age)))"
proof -
  let ?t = "ucast (c_count c) :: u16"
  let ?k = "unat (c_count c)"
  let ?age = "(?k + 2 ^ 16 - unat counter) mod 2 ^ 16"
  have t: "unat ?t = ?k mod 2 ^ 16" by (simp add: unsigned_ucast_eq take_bit_eq_mod)
  have small: "unat counter < 2 ^ 16" using unsigned_less [of counter] by simp
  have age: "unat (?t - counter) = ?age"
  proof -
    have "unat (?t - counter) = (?k mod 2 ^ 16 + (2 ^ 16 - unat counter)) mod 2 ^ 16"
    proof (cases "unat counter \<le> unat ?t")
      case True
      have "?k mod 2 ^ 16 + (2 ^ 16 - unat counter) = (unat ?t - unat counter) + 2 ^ 16"
        using True t small by linarith
      moreover have "unat ?t - unat counter < 2 ^ 16" using t by simp
      moreover have "unat (?t - counter) = unat ?t - unat counter"
        using True by (simp only: unat_sub_if' if_True)
      ultimately show ?thesis by (metis mod_add_self2 mod_less)
    next
      case False
      then have "?k mod 2 ^ 16 + (2 ^ 16 - unat counter) = unat ?t + 2 ^ 16 - unat counter"
        using t small by linarith
      moreover have "unat ?t + 2 ^ 16 - unat counter < 2 ^ 16" using False small by linarith
      ultimately show ?thesis using False by (simp add: unat_sub_if')
    qed
    also have "\<dots> = (?k + (2 ^ 16 - unat counter)) mod 2 ^ 16" by (rule mod_add_left_eq)
    also have "\<dots> = ?age" using small by simp
    finally show ?thesis .
  qed
  have zero: "?t - counter = 0 \<longleftrightarrow> ?age = 0" by (metis age unat_eq_0)
  have wide: "MAX_COMMIT_SEQUENCES \<le> ?t - counter \<longleftrightarrow> 128 \<le> ?age"
    unfolding word_le_nat_alt age by (simp add: MAX_COMMIT_SEQUENCES_def)
  have uage: "unat (ucast (?t - counter) :: u64) = ?age"
    by (simp add: unsigned_ucast_eq take_bit_eq_mod age)
  have ge: "ucast (?t - counter) \<le> c_count c \<longleftrightarrow> ?age \<le> ?k"
    unfolding word_le_nat_alt uage ..
  have sub: "c_count c - ucast (?t - counter) = of_nat (?k - ?age)" if "?age \<le> ?k"
    using that uage ge by (metis unat_sub of_nat_unat ucast_id)
  have "unat (ucast counter :: u64) = unat counter"
    using small by (simp add: unsigned_ucast_eq take_bit_eq_mod)
  then have set: "is_set (ucast counter) c = slot c (unat counter)"
    using assms by (simp add: is_set_slot)
  show ?thesis
    unfolding full_counter_def Let_def zero wide set checked_sub_def ge
    using sub by (simp add: not_le)
qed

lemma slot_cong: "m mod 128 = n mod 128 \<Longrightarrow> slot c m = slot c n"
  by (metis index_split(1) slot_def)

lemma mod_16_128: "(n mod 2 ^ 16) mod 128 = (n :: nat) mod 128"
  by (simp add: mod_mod_cancel)

lemma age_of_low_bits:
  fixes n k :: nat
  assumes "n < k" and "k - n < 128"
  shows "(k + 2 ^ 16 - n mod 2 ^ 16) mod 2 ^ 16 = k - n"
proof -
  have "k + 2 ^ 16 - n mod 2 ^ 16 = (k - n) + (n - n mod 2 ^ 16) + 2 ^ 16"
    using assms mod_less_eq_dividend [of n "2 ^ 16"] by linarith
  also have "n - n mod 2 ^ 16 = n div 2 ^ 16 * 2 ^ 16" by (rule minus_mod_eq_div_mult)
  finally have "(k + 2 ^ 16 - n mod 2 ^ 16) mod 2 ^ 16
      = ((k - n) + n div 2 ^ 16 * 2 ^ 16 + 2 ^ 16) mod 2 ^ 16" by (rule arg_cong)
  also have "\<dots> = (k - n) mod 2 ^ 16" by (metis mod_add_self2 mod_mult_self1)
  also have "\<dots> = k - n" using assms(2) by simp
  finally show ?thesis .
qed

lemma low_bits_of_age:
  fixes c k :: nat
  assumes "c < 2 ^ 16" and "(k + 2 ^ 16 - c) mod 2 ^ 16 = age" and "age \<le> k"
  shows "(k - age) mod 2 ^ 16 = c"
proof -
  obtain q where "k + 2 ^ 16 - c = age + 2 ^ 16 * q"
    using assms(2) by (metis mod_eqE nat_mod_eq_iff mult_div_mod_eq add.commute)
  then have "(k - age) + 2 ^ 16 = c + 2 ^ 16 * q" using assms(1,3) by linarith
  then have "((k - age) + 2 ^ 16) mod 2 ^ 16 = c mod 2 ^ 16" by (metis mod_mult_self2)
  with assms(1) show ?thesis by simp
qed

lemma unat_ucast_16: "unat (ucast (f :: u64) :: u16) = unat f mod 2 ^ 16"
  by (simp add: unsigned_ucast_eq take_bit_eq_mod)

lemma full_counter_iff:
  assumes "ring_wf c"
  shows "full_counter counter c = Inr full
    \<longleftrightarrow> unat full \<in> outstanding c \<and> ucast full = counter"
proof -
  let ?k = "unat (c_count c)"
  let ?age = "(?k + 2 ^ 16 - unat counter) mod 2 ^ 16"
  have small: "unat counter < 2 ^ 16" using unsigned_less [of counter] by simp
  have k64: "?k < 2 ^ 64" using unsigned_less [of "c_count c"] by simp
  show ?thesis
  proof
    assume "full_counter counter c = Inr full"
    then have age: "?age \<noteq> 0" "?age < 128" "?age \<le> ?k" and set: "slot c (unat counter)"
      and full: "full = of_nat (?k - ?age)"
      by (simp_all add: full_counter_age [OF assms] Let_def split: if_splits)
    have u: "unat full = ?k - ?age" using k64 by (simp add: full unat_of_nat take_bit_eq_mod)
    have low: "unat full mod 2 ^ 16 = unat counter"
      unfolding u by (rule low_bits_of_age [OF small refl age(3)])
    then have "slot c (unat full)" using set slot_cong mod_16_128 by metis
    with age u have "unat full \<in> outstanding c" by (simp add: outstanding_def)
    moreover have "ucast full = counter" using low unat_ucast_16 by (metis word_eq_iff_unsigned)
    ultimately show "unat full \<in> outstanding c \<and> ucast full = counter" by blast
  next
    assume *: "unat full \<in> outstanding c \<and> ucast full = counter"
    then have n: "unat full < ?k" "?k - unat full < 128" and set: "slot c (unat full)"
      and counter: "unat counter = unat full mod 2 ^ 16"
      using unat_ucast_16 [of full] by (auto simp: outstanding_def)
    have age: "?age = ?k - unat full" unfolding counter by (rule age_of_low_bits [OF n])
    have "slot c (unat counter)" using set slot_cong counter mod_16_128 by metis
    moreover have "of_nat (?k - (?k - unat full)) = full" using n by simp
    ultimately show "full_counter counter c = Inr full"
      using n unfolding full_counter_age [OF assms] Let_def age by simp
  qed
qed

section \<open>Runs of split operations\<close>

text \<open>
  The commands use this component in three ways: issue a commit (derive with \<open>commit_next\<close>,
  then \<open>commit_take\<close> once the command has succeeded), spend one, and look at one without
  spending it. \<open>spent\<close> collects the full counters whose values a run has given out for use.
\<close>

datatype commit_op =
    Issue u16 bytes u32
  | Spend u16 bytes u16 u32
  | Peek u16 bytes u16 u32

fun commit_step :: "env \<Rightarrow> commit_op \<Rightarrow> commits \<Rightarrow> commits" where
  "commit_step E (Issue a name bits) c =
     (case commit_next E a name bits c of Inl e \<Rightarrow> c | Inr (r, k) \<Rightarrow> commit_take k c)"
| "commit_step E (Spend a name k bits) c = snd (use_counter E a name k bits c)"
| "commit_step E (Peek a name k bits) c = c"

fun commit_spends :: "env \<Rightarrow> commit_op \<Rightarrow> commits \<Rightarrow> nat list" where
  "commit_spends E (Spend a name k bits) c =
     (case use_counter E a name k bits c of
        (Inl e, _) \<Rightarrow> []
      | (Inr r, _) \<Rightarrow> (case full_counter k c of Inl e \<Rightarrow> [] | Inr n \<Rightarrow> [unat n]))"
| "commit_spends E _ c = []"

fun spent :: "env \<Rightarrow> commit_op list \<Rightarrow> commits \<Rightarrow> nat list" where
  "spent E [] c = []"
| "spent E (op # ops) c = commit_spends E op c @ spent E ops (commit_step E op c)"

lemma ring_wf_take [simp]: "ring_wf (commit_take k c) = ring_wf c"
  by (simp add: ring_wf_def commit_take_def Let_def)

lemma ring_wf_use: "ring_wf c \<Longrightarrow> ring_wf (snd (use_counter E a name k bits c))"
  by (simp add: use_counter_def split: sum.splits)

interpretation commit_run: invariant_steps "commit_step E" ring_wf
proof
  fix c op assume "ring_wf c"
  then show "ring_wf (commit_step E op c)"
    by (cases op) (auto intro: ring_wf_use split: sum.splits)
qed

lemma use_counter_outstanding:
  assumes "ring_wf c" and "use_counter E a name k bits c = (Inr r, c')"
  obtains n where "full_counter k c = Inr n" and "unat n \<in> outstanding c" and "ucast n = k"
    and "derive E a name n bits c = Inr r" and "c' = commit_set n False c"
    and "outstanding c' = outstanding c - {unat n}"
proof -
  obtain n where n: "full_counter k c = Inr n" "derive E a name n bits c = Inr r" "c' = commit_set n False c"
    using assms(2) by (auto simp: use_counter_def split: sum.splits)
  with assms(1) have "unat n \<in> outstanding c \<and> ucast n = k" by (simp add: full_counter_iff)
  with n outstanding_clear [OF assms(1)] show thesis by (intro that) auto
qed

lemma commit_take_count: "c_count (commit_take k c) = c_count c + 1"
  by (simp add: commit_take_def Let_def)

lemma use_counter_count: "c_count (snd (use_counter E a name k bits c)) = c_count c"
  by (simp add: use_counter_def split: sum.splits)

lemma outstanding_step:
  assumes "ring_wf c" and "unat (c_count c) + 1 < 2 ^ 64"
  shows "outstanding (commit_step E op c) \<subseteq> outstanding c \<union> {unat (c_count c)} - set (commit_spends E op c)
    \<and> unat (c_count c) \<le> unat (c_count (commit_step E op c))
    \<and> unat (c_count (commit_step E op c)) \<le> unat (c_count c) + 1
    \<and> set (commit_spends E op c) \<subseteq> outstanding c \<and> distinct (commit_spends E op c)
    \<and> (unat (c_count c) \<in> outstanding (commit_step E op c)
         \<longrightarrow> unat (c_count (commit_step E op c)) = unat (c_count c) + 1)"
proof (cases op)
  case (Issue a name bits)
  have "unat (c_count c + 1) = unat (c_count c) + 1" using assms(2) by (simp add: unat_word_ariths)
  then show ?thesis
    using Issue outstanding_take [OF assms]
    by (auto simp: commit_take_count outstanding_def split: sum.splits)
next
  case (Spend a name k bits)
  show ?thesis
  proof (cases "use_counter E a name k bits c")
    case (Pair res c')
    show ?thesis
    proof (cases res)
      case (Inl e)
      then have "c' = c" using Pair by (auto simp: use_counter_def split: sum.splits)
      with Spend Pair Inl show ?thesis by (auto simp: outstanding_def)
    next
      case (Inr r)
      from use_counter_outstanding [OF assms(1) Pair [unfolded Inr]] obtain n
        where "full_counter k c = Inr n" "unat n \<in> outstanding c" "outstanding c' = outstanding c - {unat n}" .
      moreover have "c_count c' = c_count c" using use_counter_count [of E a name k bits c] Pair by simp
      ultimately show ?thesis using Spend Pair Inr outstanding_window by force
    qed
  qed
qed (auto simp: outstanding_def)

lemma spent_bounds:
  assumes "ring_wf c" and "unat (c_count c) + length ops < 2 ^ 64"
  shows "distinct (spent E ops c)
    \<and> set (spent E ops c) \<subseteq> outstanding c \<union> {unat (c_count c)..<unat (c_count c) + length ops}"
  using assms
proof (induction ops arbitrary: c)
  case (Cons op ops)
  let ?c = "commit_step E op c"
  have step: "unat (c_count c) + 1 < 2 ^ 64 \<or> ops = [] \<and> unat (c_count c) + 1 < 2 ^ 64"
    using Cons.prems by (cases ops) auto
  note s = outstanding_step [OF Cons.prems(1), of E op]
  have IH: "distinct (spent E ops ?c)
      \<and> set (spent E ops ?c) \<subseteq> outstanding ?c \<union> {unat (c_count ?c)..<unat (c_count ?c) + length ops}"
    using step s Cons.prems by (intro Cons.IH commit_run.step_inv) auto
  have disjoint: "set (commit_spends E op c) \<inter> set (spent E ops ?c) = {}"
  proof (rule ccontr)
    assume "set (commit_spends E op c) \<inter> set (spent E ops ?c) \<noteq> {}"
    then obtain n where n: "n \<in> set (commit_spends E op c)" "n \<in> set (spent E ops ?c)" by blast
    then have "n < unat (c_count c)" using s step outstanding_window by blast
    with n IH s step show False by fastforce
  qed
  have "set (spent E ops ?c) \<subseteq> outstanding c \<union> {unat (c_count c)..<unat (c_count c) + length (op # ops)}"
    using IH s step by fastforce
  with IH disjoint s step show ?case by auto
qed simp

text \<open>C20: the ring implements the set of outstanding counters. A spend succeeds exactly for the
  16-bit name of an outstanding counter whose value derives, gives that value, and removes that
  counter alone; every other attempt is refused and changes nothing. Issuing adds the current
  counter and drops only what leaves the window.\<close>

theorem commits_refine_outstanding_set:
  assumes "ring_wf c" and "unat (c_count c) + 1 < 2 ^ 64"
  shows "outstanding (commit_take k c)
      = insert (unat (c_count c)) {n \<in> outstanding c. unat (c_count c) - n < 127}
    \<and> (case use_counter E a name k bits c of
         (Inl e, c') \<Rightarrow> c' = c \<and> ((\<forall>n :: u64. unat n \<in> outstanding c \<longrightarrow> ucast n \<noteq> k)
             \<or> (\<exists>n. unat n \<in> outstanding c \<and> ucast n = k \<and> derive E a name n bits c = Inl e))
       | (Inr r, c') \<Rightarrow> (\<exists>n. unat n \<in> outstanding c \<and> ucast n = k \<and> derive E a name n bits c = Inr r
             \<and> outstanding c' = outstanding c - {unat n}))"
proof
  show "outstanding (commit_take k c)
      = insert (unat (c_count c)) {n \<in> outstanding c. unat (c_count c) - n < 127}"
    by (rule outstanding_take [OF assms])
  show "case use_counter E a name k bits c of
         (Inl e, c') \<Rightarrow> c' = c \<and> ((\<forall>n :: u64. unat n \<in> outstanding c \<longrightarrow> ucast n \<noteq> k)
             \<or> (\<exists>n. unat n \<in> outstanding c \<and> ucast n = k \<and> derive E a name n bits c = Inl e))
       | (Inr r, c') \<Rightarrow> (\<exists>n. unat n \<in> outstanding c \<and> ucast n = k \<and> derive E a name n bits c = Inr r
             \<and> outstanding c' = outstanding c - {unat n})"
  proof (cases "full_counter k c")
    case (Inl e)
    then have "unat n \<in> outstanding c \<longrightarrow> ucast n \<noteq> k" for n :: u64
      using full_counter_iff [OF assms(1), of k n] by auto
    with Inl show ?thesis by (simp add: use_counter_def)
  next
    case (Inr n)
    then have n: "unat n \<in> outstanding c \<and> ucast n = k" by (simp add: full_counter_iff [OF assms(1)])
    with Inr show ?thesis
      using outstanding_clear [OF assms(1), of n]
      by (auto simp: use_counter_def split: sum.splits)
  qed
qed

definition demo_commits :: commits where
  "demo_commits = \<lparr>c_random = [1], c_count = 0x10001, c_used = 1 # replicate 15 0\<rparr>"

theorem commits_refine_outstanding_set_witness:
  "outstanding (commit_take 1 demo_commits)
     = insert 0x10001 {n \<in> outstanding demo_commits. 0x10001 - n < 127}"
  using commits_refine_outstanding_set [of demo_commits, where k = 1]
  by (simp add: demo_commits_def ring_wf_def)

text \<open>C19: a commit value is used at most once. Over any sequence of issues, spends and peeks, the
  full counters whose values are given out for use are pairwise distinct, and each was
  outstanding at the start or issued in the run.\<close>

theorem commit_single_use:
  assumes "ring_wf c" and "unat (c_count c) + length ops < 2 ^ 64"
  shows "distinct (spent E ops c)
    \<and> set (spent E ops c) \<subseteq> outstanding c \<union> {unat (c_count c)..<unat (c_count c) + length ops}"
  using assms by (rule spent_bounds)

theorem commit_single_use_witness:
  "distinct (spent (demo_env False) (replicate 1000 (Spend alg_SHA256 [] 0 256)) demo_commits)"
  using commit_single_use [of demo_commits "replicate 1000 (Spend alg_SHA256 [] 0 256)" "demo_env False"]
  by (simp add: demo_commits_def ring_wf_def)

text \<open>what is issued can be recovered, once: the name \<open>commit_next\<close> reports gives back the value
  it derived, peeking first changes nothing, and a second spend under any key is refused with
  \<open>TPM_RC_VALUE\<close>.\<close>

theorem commit_recovers_once:
  assumes "ring_wf c" and "unat (c_count c) + 1 < 2 ^ 64"
    and "commit_next E a name bits c = Inr (r, k)"
  shows "commit_peek E a name k bits (commit_take k c) = Inr r
    \<and> fst (use_counter E a name k bits (commit_take k c)) = Inr r
    \<and> fst (use_counter E a' name' k bits' (snd (use_counter E a name k bits (commit_take k c)))) = Inl rc_VALUE"
proof -
  let ?c = "commit_take k c" and ?n = "c_count c"
  have wf: "ring_wf ?c" using assms(1) by simp
  have r: "derive E a name ?n bits c = Inr r" and k: "k = ucast ?n"
    using assms(3) by (auto simp: commit_next_def res_bind_eq_Inr split: if_splits)
  have count: "unat (c_count ?c) = unat ?n + 1"
    using assms(2) by (simp add: commit_take_count unat_word_ariths)
  have out: "unat ?n \<in> outstanding ?c" using outstanding_take [OF assms(1,2)] by simp
  then have full: "full_counter k ?c = Inr ?n" using full_counter_iff [OF wf] k by simp
  have "c_random ?c = c_random c" and "is_ready ?c = is_ready c"
    using is_ready_set [of "c_count c" True c] by (simp_all add: commit_take_def Let_def is_ready_def)
  then have d: "derive E a name ?n bits ?c = Inr r" using r by (simp add: derive_def split: if_splits)
  let ?c' = "commit_set ?n False ?c"
  have use: "use_counter E a name k bits ?c = (Inr r, ?c')" using full d by (simp add: use_counter_def)
  have wf': "ring_wf ?c'" using wf by simp
  have "\<not> slot ?c' (unat ?n)" using slot_set [OF wf, of ?n False "unat ?n"] by simp
  moreover have "unat k = unat ?n mod 2 ^ 16" unfolding k by (rule unat_ucast_16)
  ultimately have noslot: "\<not> slot ?c' (unat k)" by (metis mod_16_128 slot_cong)
  have "(unat (c_count ?c') + 2 ^ 16 - unat k) mod 2 ^ 16 = unat (c_count ?c') - unat ?n"
    unfolding \<open>unat k = _\<close> using count by (intro age_of_low_bits) simp_all
  then have "full_counter k ?c' = Inl rc_VALUE"
    unfolding full_counter_age [OF wf'] Let_def using count noslot by simp
  then have "fst (use_counter E a' name' k bits' ?c') = Inl rc_VALUE" by (simp add: use_counter_def)
  with use full d show ?thesis by (simp add: commit_peek_def)
qed

lemma demo_next:
  obtains r where "commit_next (demo_env False) alg_SHA256 [] 256 demo_commits = Inr (r, 1)"
proof -
  have "is_supported (demo_env False) alg_SHA256" by (simp add: is_supported_def hash_algorithm_def)
  then obtain r where "kdfa_bytes (demo_env False) alg_SHA256 [1] COMMIT_LABEL [] (to_be 8 (0x10001 :: u64)) 256 = Inr r"
    using kdfa_cases [OF env_ok_demo [of False], where a = alg_SHA256 and key = "[1]" and bits = 256
      and label = COMMIT_LABEL and u = "[]" and v = "to_be 8 (0x10001 :: u64)"]
    by (simp split: sum.splits)
  then have "commit_next (demo_env False) alg_SHA256 [] 256 demo_commits = Inr (r, 1)"
    by (simp add: commit_next_def derive_def demo_commits_def is_ready_def del: to_be.simps)
  then show thesis by (rule that)
qed

theorem commit_recovers_once_witness:
  "\<exists>r. commit_next (demo_env False) alg_SHA256 [] 256 demo_commits = Inr (r, 1)
     \<and> fst (use_counter (demo_env False) alg_SHA256 [] 1 256 (commit_take 1 demo_commits)) = Inr r"
proof -
  obtain r where next': "commit_next (demo_env False) alg_SHA256 [] 256 demo_commits = Inr (r, 1)"
    by (rule demo_next)
  have "ring_wf demo_commits" and "unat (c_count demo_commits) + 1 < 2 ^ 64"
    by (simp_all add: demo_commits_def ring_wf_def)
  from commit_recovers_once [OF this next', of alg_SHA256 "[]" 256] next' show ?thesis by blast
qed

end
