(* ===== verification/Base.thy ===== *)
theory Base
  imports Attributes Hash
begin

text \<open>
  Sized buffers, \<open>TPMT_HA\<close> and PCR selections (\<open>src/tpm/structures/base.rs\<close>). The macro
  \<open>tpm2b!\<close> makes one type per bound; here the bound is an argument. Each structure has a writer,
  a reader and, for the contract of \<open>codec\<close>, the octets it stands for and the values it is
  for.
\<close>

definition PCR_SELECT_MIN :: nat where "PCR_SELECT_MIN = 3"
definition PCR_SELECT_MAX :: nat where "PCR_SELECT_MAX = 3"
definition MAX_DIGEST_SIZE :: nat where "MAX_DIGEST_SIZE = 64"
definition SIZEOF_TPMT_HA :: nat where "SIZEOF_TPMT_HA = 2 + MAX_DIGEST_SIZE"

definition digest_size :: "env \<Rightarrow> u16 \<Rightarrow> nat option" where
  "digest_size E a =
     (if a = alg_SHA1 \<and> strict E then None
      else if a = alg_SHA1 then Some 20
      else if a = alg_SHA256 \<or> a = alg_SHA3_256 then Some 32
      else if a = alg_SHA384 \<or> a = alg_SHA3_384 then Some 48
      else if a = alg_SHA512 \<or> a = alg_SHA3_512 then Some 64
      else if a = alg_SM3_256 then Some 32
      else None)"

section \<open>TPM2B\<close>

definition tpm2b_new :: "nat \<Rightarrow> bytes \<Rightarrow> bytes tpm_result" where
  "tpm2b_new limit buffer = (if limit < length buffer then Inl rc_SIZE else Inr buffer)"

definition tpm2b_put :: "bytes \<Rightarrow> writer \<Rightarrow> writer" where
  "tpm2b_put buffer = sized16 buffer"

definition tpm2b_get :: "nat \<Rightarrow> reader \<Rightarrow> (bytes \<times> reader) tpm_result" where
  "tpm2b_get limit r =
     res_bind (r_u16 r) (\<lambda>(size, r).
       if limit < unat size then Inl rc_SIZE else r_take (unat size) r)"

section \<open>TPMT_HA\<close>

record tpmt_ha =
  ha_alg :: u16
  ha_digest :: bytes

definition tpmt_ha_null :: tpmt_ha where
  "tpmt_ha_null = \<lparr>ha_alg = alg_NULL, ha_digest = []\<rparr>"

definition tpmt_ha_new :: "env \<Rightarrow> u16 \<Rightarrow> bytes \<Rightarrow> tpmt_ha tpm_result" where
  "tpmt_ha_new E a d =
     (if a = alg_NULL then (if d \<noteq> [] then Inl rc_SIZE else Inr \<lparr>ha_alg = a, ha_digest = d\<rparr>)
      else case digest_size E a of
          Some n \<Rightarrow> if n = length d then Inr \<lparr>ha_alg = a, ha_digest = d\<rparr> else Inl rc_SIZE
        | None \<Rightarrow> Inl rc_HASH)"

definition tpmt_ha_put :: "tpmt_ha \<Rightarrow> writer \<Rightarrow> writer" where
  "tpmt_ha_put h w = w_bytes (ha_digest h) (w_u16 (ha_alg h) w)"

definition tpmt_ha_get :: "env \<Rightarrow> reader \<Rightarrow> (tpmt_ha \<times> reader) tpm_result" where
  "tpmt_ha_get E r =
     res_bind (r_u16 r) (\<lambda>(a, r).
       if a = alg_NULL then Inr (\<lparr>ha_alg = a, ha_digest = []\<rparr>, r)
       else res_bind (ok_or (digest_size E a) rc_HASH) (\<lambda>size.
         res_bind (r_take size r) (\<lambda>(d, r). Inr (\<lparr>ha_alg = a, ha_digest = d\<rparr>, r))))"

section \<open>PCR selections\<close>

type_synonym pcr_select = bytes

definition pcr_select_none :: pcr_select where
  "pcr_select_none = replicate PCR_SELECT_MIN 0"

definition is_selected :: "nat \<Rightarrow> pcr_select \<Rightarrow> bool" where
  "is_selected index bits =
     (if index div 8 < length bits then bits ! (index div 8) AND push_bit (index mod 8) 1 \<noteq> 0
      else False)"

definition select :: "nat \<Rightarrow> pcr_select \<Rightarrow> pcr_select" where
  "select index bits =
     (let byte = index div 8;
          bits = (if length bits \<le> byte then bits @ replicate (byte + 1 - length bits) 0 else bits)
      in bits[byte := bits ! byte OR push_bit (index mod 8) 1])"

definition deselect :: "nat \<Rightarrow> pcr_select \<Rightarrow> pcr_select" where
  "deselect index bits =
     (let byte = index div 8 in
      if byte < length bits then bits[byte := bits ! byte AND NOT (push_bit (index mod 8) 1)]
      else bits)"

definition selected :: "pcr_select \<Rightarrow> nat list" where
  "selected bits = concat (map (\<lambda>(i, byte).
     map (\<lambda>bit. i * 8 + bit) (filter (\<lambda>bit. byte AND push_bit bit 1 \<noteq> 0) [0..<8]))
     (enumerate 0 bits))"

definition is_empty_selection :: "pcr_select \<Rightarrow> bool" where
  "is_empty_selection bits = list_all (\<lambda>b. b = 0) bits"

definition pcr_select_put :: "pcr_select \<Rightarrow> writer \<Rightarrow> writer" where
  "pcr_select_put bits w = w_bytes bits (w_u8 (of_nat (length bits)) w)"

definition pcr_select_get :: "reader \<Rightarrow> (pcr_select \<times> reader) tpm_result" where
  "pcr_select_get r =
     res_bind (r_u8 r) (\<lambda>(size, r).
       if \<not> (PCR_SELECT_MIN \<le> unat size \<and> unat size \<le> PCR_SELECT_MAX) then Inl rc_VALUE
       else r_take (unat size) r)"

record pcr_selection =
  sel_alg :: u16
  sel_bits :: pcr_select

definition pcr_selection_put :: "pcr_selection \<Rightarrow> writer \<Rightarrow> writer" where
  "pcr_selection_put s w = pcr_select_put (sel_bits s) (w_u16 (sel_alg s) w)"

definition pcr_selection_get :: "env \<Rightarrow> reader \<Rightarrow> (pcr_selection \<times> reader) tpm_result" where
  "pcr_selection_get E r =
     res_bind (r_u16 r) (\<lambda>(a, r).
       if digest_size E a = None then Inl rc_HASH
       else res_bind (pcr_select_get r) (\<lambda>(bits, r). Inr (\<lparr>sel_alg = a, sel_bits = bits\<rparr>, r)))"

section \<open>The contracts\<close>

lemma digest_size_bounds: "digest_size E a = Some n \<Longrightarrow> n \<in> {20, 32, 48, 64}"
  by (simp add: digest_size_def split: if_splits)

lemma digest_size_raw:
  "env_ok E \<Longrightarrow> digest_size E a = Some n \<Longrightarrow> is_supported E a \<Longrightarrow> length (raw_digest E a d) = n"
  by (auto simp: digest_size_def env_ok_length is_supported_def is_ok_iff hash_algorithm_def
      env_ok_def split: if_splits)

lemma digest_size_supported: "is_supported E a \<Longrightarrow> digest_size E a = Some n \<Longrightarrow> env_ok E \<Longrightarrow> output_len E a = n"
  by (auto simp: digest_size_def is_supported_def is_ok_iff hash_algorithm_def env_ok_def split: if_splits)

lemma supported_digest_size: "is_supported E a \<Longrightarrow> \<exists>n. digest_size E a = Some n"
  by (auto simp: digest_size_def is_supported_def is_ok_iff hash_algorithm_def split: if_splits)

lemma tpm2b_codec:
  assumes "limit < 2 ^ 16"
  shows "codec (tpm2b_get limit) tpm2b_put enc_sized16 (\<lambda>b. length b \<le> limit)"
proof
  show "consumes r r'" if "tpm2b_get limit r = Inr (b, r')" for r b r'
    using that
    by (auto simp: tpm2b_get_def res_bind_eq_Inr split: if_splits intro: consumes_trans reads_consume)
  show "tpm2b_put b w = emit (enc_sized16 b) w" if "length b \<le> limit" for b w
    using that assms by (simp add: tpm2b_put_def sized16_emit)
  show "tpm2b_get limit r = Inr (b, advance (length (enc_sized16 b)) r)"
    if "length b \<le> limit" and "rest r = enc_sized16 b @ t" for b r t
    using that assms
    by (simp add: tpm2b_get_def enc_sized16_def r_u16_append unat_of_nat_u16
        r_take_append [where bs = b and t = t])
qed

definition tpmt_ha_enc :: "tpmt_ha \<Rightarrow> bytes" where
  "tpmt_ha_enc h = to_be 2 (ha_alg h) @ ha_digest h"

definition tpmt_ha_ok :: "env \<Rightarrow> tpmt_ha \<Rightarrow> bool" where
  "tpmt_ha_ok E h = (if ha_alg h = alg_NULL then ha_digest h = []
                     else digest_size E (ha_alg h) = Some (length (ha_digest h)))"

interpretation tpmt_ha: codec "tpmt_ha_get E" tpmt_ha_put tpmt_ha_enc "tpmt_ha_ok E"
proof
  show "consumes r r'" if "tpmt_ha_get E r = Inr (h, r')" for r h r'
    using that
    by (auto simp: tpmt_ha_get_def res_bind_eq_Inr split: if_splits intro: consumes_trans reads_consume)
  show "tpmt_ha_put h w = emit (tpmt_ha_enc h) w" for h w
    by (simp add: tpmt_ha_put_def tpmt_ha_enc_def writes_emit)
  show "tpmt_ha_get E r = Inr (h, advance (length (tpmt_ha_enc h)) r)"
    if "tpmt_ha_ok E h" "rest r = tpmt_ha_enc h @ t" for h r t
    using that
    by (cases h) (auto simp: tpmt_ha_get_def tpmt_ha_enc_def tpmt_ha_ok_def r_u16_append
        r_take_append [where bs = "ha_digest h" and t = t] split: if_splits)
qed

definition pcr_select_enc :: "pcr_select \<Rightarrow> bytes" where
  "pcr_select_enc bits = of_nat (length bits) # bits"

definition pcr_select_ok :: "pcr_select \<Rightarrow> bool" where
  "pcr_select_ok bits = (PCR_SELECT_MIN \<le> length bits \<and> length bits \<le> PCR_SELECT_MAX)"

interpretation pcr_select: codec pcr_select_get pcr_select_put pcr_select_enc pcr_select_ok
proof
  show "consumes r r'" if "pcr_select_get r = Inr (h, r')" for r h r'
    using that
    by (auto simp: pcr_select_get_def res_bind_eq_Inr split: if_splits intro: consumes_trans reads_consume)
  show "pcr_select_put h w = emit (pcr_select_enc h) w" for h w
    by (simp add: pcr_select_put_def pcr_select_enc_def writes_emit)
  show "pcr_select_get r = Inr (h, advance (length (pcr_select_enc h)) r)"
    if "pcr_select_ok h" "rest r = pcr_select_enc h @ t" for h r t
    using that
    by (simp add: pcr_select_get_def pcr_select_enc_def pcr_select_ok_def PCR_SELECT_MIN_def PCR_SELECT_MAX_def
        r_u8_append r_take_append [where bs = h and t = t] unat_of_nat)
qed

definition pcr_selection_enc :: "pcr_selection \<Rightarrow> bytes" where
  "pcr_selection_enc s = to_be 2 (sel_alg s) @ pcr_select_enc (sel_bits s)"

definition pcr_selection_ok :: "env \<Rightarrow> pcr_selection \<Rightarrow> bool" where
  "pcr_selection_ok E s = (digest_size E (sel_alg s) \<noteq> None \<and> pcr_select_ok (sel_bits s))"

interpretation pcr_selection: codec "pcr_selection_get E" pcr_selection_put pcr_selection_enc "pcr_selection_ok E"
proof
  show "consumes r r'" if "pcr_selection_get E r = Inr (h, r')" for r h r'
    using that
    by (auto simp: pcr_selection_get_def res_bind_eq_Inr split: if_splits
        intro: consumes_trans reads_consume pcr_select.get_consumes)
  show "pcr_selection_put s w = emit (pcr_selection_enc s) w" if "pcr_selection_ok E s" for s w
    using that
    by (simp add: pcr_selection_put_def pcr_selection_enc_def pcr_selection_ok_def pcr_select.put_enc writes_emit)
  show "pcr_selection_get E r = Inr (s, advance (length (pcr_selection_enc s)) r)"
    if "pcr_selection_ok E s" "rest r = pcr_selection_enc s @ t" for s r t
    using that
    by (auto simp: pcr_selection_get_def pcr_selection_enc_def pcr_selection_ok_def r_u16_append
        pcr_select.get_enc [where t = t])
qed

section \<open>Selections as sets of registers\<close>

lemma is_selected_bit: "is_selected i bits \<longleftrightarrow> i div 8 < length bits \<and> bit (bits ! (i div 8)) (i mod 8)"
  using any_flag [of "i mod 8" "bits ! (i div 8)"]
  by (auto simp: is_selected_def attr_any_def flag_def)

lemma selected_snoc:
  "selected (bits @ [b]) = selected bits @ map (\<lambda>k. length bits * 8 + k) (filter (bit b) [0..<8])"
proof -
  have "b AND push_bit k 1 \<noteq> 0 \<longleftrightarrow> bit b k" if "k < 8" for k
    using any_flag [of k b] that by (simp add: attr_any_def flag_def)
  then have "filter (\<lambda>k. b AND push_bit k 1 \<noteq> 0) [0..<8] = filter (bit b) [0..<8]"
    by (intro filter_cong) auto
  then show ?thesis by (simp add: selected_def enumerate_append_eq)
qed

lemma selected_eq: "selected bits = filter (\<lambda>i. is_selected i bits) [0..<8 * length bits]"
proof (induction bits rule: rev_induct)
  case Nil
  then show ?case by (simp add: selected_def)
next
  case (snoc b bits)
  let ?n = "8 * length bits"
  have old: "filter (\<lambda>i. is_selected i (bits @ [b])) [0..<?n] = filter (\<lambda>i. is_selected i bits) [0..<?n]"
    by (intro filter_cong) (auto simp: is_selected_bit nth_append)
  have "is_selected (k + ?n) (bits @ [b]) = bit b k" if "k < 8" for k
    using that by (simp add: is_selected_bit nth_append)
  then have "filter (\<lambda>k. is_selected (k + ?n) (bits @ [b])) [0..<8] = filter (bit b) [0..<8]"
    by (intro filter_cong) auto
  then have "filter (\<lambda>i. is_selected i (bits @ [b])) (map (\<lambda>k. k + ?n) [0..<8])
      = map (\<lambda>k. k + ?n) (filter (bit b) [0..<8])"
    by (simp only: filter_map comp_def)
  moreover have "map (\<lambda>k. k + ?n) [0..<8] = [?n..<?n + 8]"
    using map_add_upt [of ?n 8] by (simp add: add.commute)
  moreover have "map (\<lambda>k. k + ?n) ks = map (\<lambda>k. length bits * 8 + k) ks" for ks by simp
  ultimately have new: "filter (\<lambda>i. is_selected i (bits @ [b])) [?n..<?n + 8]
      = map (\<lambda>k. length bits * 8 + k) (filter (bit b) [0..<8])"
    by metis
  have "8 * length (bits @ [b]) = ?n + 8" by simp
  then have "[0..<8 * length (bits @ [b])] = [0..<?n] @ [?n..<?n + 8]"
    by (simp only: upt_add_eq_append [OF le0])
  then show ?case
    by (simp only: selected_snoc snoc.IH filter_append old new)
qed

lemma is_selected_range: "is_selected i bits \<Longrightarrow> i < 8 * length bits"
  by (auto simp: is_selected_bit)

lemma set_selected [simp]: "i \<in> set (selected bits) \<longleftrightarrow> is_selected i bits"
  by (auto simp: selected_eq is_selected_range)

lemma sorted_selected: "sorted_wrt (<) (selected bits)"
  by (simp add: selected_eq sorted_wrt_filter)

lemma length_select: "i div 8 < length bits \<Longrightarrow> length (select i bits) = length bits"
  by (simp add: select_def Let_def)

lemma is_selected_select [simp]: "is_selected j (select i bits) \<longleftrightarrow> j = i \<or> is_selected j bits"
proof -
  have same: "j div 8 = i div 8 \<and> j mod 8 = i mod 8 \<longleftrightarrow> j = i"
    by (metis div_mult_mod_eq)
  have bits: "bit (b OR push_bit (i mod 8) 1 :: u8) k \<longleftrightarrow> k = i mod 8 \<or> bit b k" for b k
    using bit_with_flag [of "i mod 8" b k] by (simp add: attr_with_def flag_def)
  show ?thesis
    using same
    by (auto simp: is_selected_bit select_def Let_def bits nth_list_update nth_append
          diff_less_mono not_less
        simp del: push_bit_of_1 split: if_splits)
qed

lemma is_selected_deselect [simp]: "is_selected j (deselect i bits) \<longleftrightarrow> j \<noteq> i \<and> is_selected j bits"
proof -
  have same: "j div 8 = i div 8 \<and> j mod 8 = i mod 8 \<longleftrightarrow> j = i"
    by (metis div_mult_mod_eq)
  have bits: "bit (b AND NOT (push_bit (i mod 8) 1) :: u8) k \<longleftrightarrow> k \<noteq> i mod 8 \<and> bit b k" for b k
    using bit_without_flag [of b "i mod 8" k] by (simp add: attr_without_def flag_def)
  show ?thesis
    using same
    by (auto simp: is_selected_bit deselect_def Let_def bits nth_list_update
        simp del: push_bit_of_1 split: if_splits)
qed

lemma not_selected_zeros [simp]: "\<not> is_selected i (replicate n 0)"
  by (simp add: is_selected_bit)

lemma selected_empty: "is_empty_selection bits \<Longrightarrow> selected bits = []"
  by (auto simp: is_empty_selection_def list_all_length selected_eq filter_empty_conv is_selected_bit)

end
