(* ===== verification/Lists.thy ===== *)
theory Lists
  imports Base
begin

text \<open>
  Counted lists and the tagged structures they hold (\<open>src/tpm/structures/lists.rs\<close>). The macro
  \<open>tpml!\<close> is a bound around \<open>unmarshal_list\<close>, so a list type is its element's codec and its
  bound, and the contract of every list is \<open>list_codec\<close> of the element.
\<close>

definition MAX_CAP_DATA :: nat where "MAX_CAP_DATA = 1024 - 4 - 4"

definition cap_list_max :: "nat \<Rightarrow> nat" where
  "cap_list_max element_size = MAX_CAP_DATA div element_size"

definition HASH_COUNT :: nat where "HASH_COUNT = 8"

record alg_property =
  ap_alg :: u16
  ap_properties :: u32

definition alg_property_put :: "alg_property \<Rightarrow> writer \<Rightarrow> writer" where
  "alg_property_put p w = w_u32 (ap_properties p) (w_u16 (ap_alg p) w)"

definition alg_property_get :: "reader \<Rightarrow> (alg_property \<times> reader) tpm_result" where
  "alg_property_get r =
     res_bind (r_u16 r) (\<lambda>(a, r). res_bind (r_u32 r) (\<lambda>(p, r).
       Inr (\<lparr>ap_alg = a, ap_properties = p\<rparr>, r)))"

record tagged_property =
  tp_property :: u32
  tp_value :: u32

definition tagged_property_put :: "tagged_property \<Rightarrow> writer \<Rightarrow> writer" where
  "tagged_property_put p w = w_u32 (tp_value p) (w_u32 (tp_property p) w)"

definition tagged_property_get :: "reader \<Rightarrow> (tagged_property \<times> reader) tpm_result" where
  "tagged_property_get r =
     res_bind (r_u32 r) (\<lambda>(a, r). res_bind (r_u32 r) (\<lambda>(p, r).
       Inr (\<lparr>tp_property = a, tp_value = p\<rparr>, r)))"

record tagged_pcr_select =
  tps_tag :: u32
  tps_select :: pcr_select

definition tagged_pcr_select_put :: "tagged_pcr_select \<Rightarrow> writer \<Rightarrow> writer" where
  "tagged_pcr_select_put p w = pcr_select_put (tps_select p) (w_u32 (tps_tag p) w)"

definition tagged_pcr_select_get :: "reader \<Rightarrow> (tagged_pcr_select \<times> reader) tpm_result" where
  "tagged_pcr_select_get r =
     res_bind (r_u32 r) (\<lambda>(a, r). res_bind (pcr_select_get r) (\<lambda>(p, r).
       Inr (\<lparr>tps_tag = a, tps_select = p\<rparr>, r)))"

record tagged_policy =
  tpo_handle :: u32
  tpo_hash :: tpmt_ha

definition tagged_policy_put :: "tagged_policy \<Rightarrow> writer \<Rightarrow> writer" where
  "tagged_policy_put p w = tpmt_ha_put (tpo_hash p) (w_u32 (tpo_handle p) w)"

definition tagged_policy_get :: "env \<Rightarrow> reader \<Rightarrow> (tagged_policy \<times> reader) tpm_result" where
  "tagged_policy_get E r =
     res_bind (r_u32 r) (\<lambda>(a, r). res_bind (tpmt_ha_get E r) (\<lambda>(p, r).
       Inr (\<lparr>tpo_handle = a, tpo_hash = p\<rparr>, r)))"

record act_data =
  ad_handle :: u32
  ad_timeout :: u32
  ad_attributes :: u32

definition act_data_put :: "act_data \<Rightarrow> writer \<Rightarrow> writer" where
  "act_data_put p w = w_u32 (ad_attributes p) (w_u32 (ad_timeout p) (w_u32 (ad_handle p) w))"

definition act_data_get :: "reader \<Rightarrow> (act_data \<times> reader) tpm_result" where
  "act_data_get r =
     res_bind (r_u32 r) (\<lambda>(h, r). res_bind (r_u32 r) (\<lambda>(t, r).
     res_bind (unmarshal_attr act_reserved r_u32 r) (\<lambda>(a, r).
       Inr (\<lparr>ad_handle = h, ad_timeout = t, ad_attributes = a\<rparr>, r))))"

record spdm_session_info =
  si_id :: u32
  si_index :: u8

definition spdm_put :: "spdm_session_info \<Rightarrow> writer \<Rightarrow> writer" where
  "spdm_put p w = w_u8 (si_index p) (w_u32 (si_id p) w)"

definition spdm_get :: "reader \<Rightarrow> (spdm_session_info \<times> reader) tpm_result" where
  "spdm_get r =
     res_bind (r_u32 r) (\<lambda>(a, r). res_bind (r_u8 r) (\<lambda>(p, r).
       Inr (\<lparr>si_id = a, si_index = p\<rparr>, r)))"

record vendor_property =
  vp_property :: u32
  vp_value :: bytes

definition MAX_VENDOR_BUFFER_SIZE :: nat where "MAX_VENDOR_BUFFER_SIZE = 1024"

definition vendor_property_put :: "vendor_property \<Rightarrow> writer \<Rightarrow> writer" where
  "vendor_property_put p w = tpm2b_put (vp_value p) (w_u32 (vp_property p) w)"

definition vendor_property_get :: "reader \<Rightarrow> (vendor_property \<times> reader) tpm_result" where
  "vendor_property_get r =
     res_bind (r_u32 r) (\<lambda>(a, r). res_bind (tpm2b_get MAX_VENDOR_BUFFER_SIZE r) (\<lambda>(p, r).
       Inr (\<lparr>vp_property = a, vp_value = p\<rparr>, r)))"

section \<open>The list types\<close>

definition tpml_new :: "nat \<Rightarrow> 'a list \<Rightarrow> 'a list tpm_result" where
  "tpml_new limit items = (if limit < length items then Inl rc_SIZE else Inr items)"

text \<open>\<open>TPML_DIGEST\<close> alone has a least count too.\<close>

definition tpml_digest_new :: "bytes list \<Rightarrow> bytes list tpm_result" where
  "tpml_digest_new ds = (if \<not> (2 \<le> length ds \<and> length ds \<le> 8) then Inl rc_SIZE else Inr ds)"

definition tpml_digest_put :: "bytes list \<Rightarrow> writer \<Rightarrow> writer" where
  "tpml_digest_put ds w = marshal_list tpm2b_put ds w"

definition tpml_digest_get :: "reader \<Rightarrow> (bytes list \<times> reader) tpm_result" where
  "tpml_digest_get r =
     res_bind (r_u32 r) (\<lambda>(count, r).
       if \<not> (2 \<le> unat count \<and> unat count \<le> 8) then Inl rc_SIZE
       else unmarshal_items (tpm2b_get MAX_DIGEST_SIZE) (unat count) r)"

definition pcr_selections_put :: "pcr_selection list \<Rightarrow> writer \<Rightarrow> writer" where
  "pcr_selections_put items w = marshal_list pcr_selection_put items w"

definition pcr_selections_get :: "env \<Rightarrow> reader \<Rightarrow> (pcr_selection list \<times> reader) tpm_result" where
  "pcr_selections_get E r = unmarshal_list (pcr_selection_get E) HASH_COUNT r"

definition digest_values_put :: "tpmt_ha list \<Rightarrow> writer \<Rightarrow> writer" where
  "digest_values_put items w = marshal_list tpmt_ha_put items w"

definition digest_values_get :: "env \<Rightarrow> reader \<Rightarrow> (tpmt_ha list \<times> reader) tpm_result" where
  "digest_values_get E r = unmarshal_list (tpmt_ha_get E) HASH_COUNT r"

section \<open>The contracts\<close>

lemmas int_codecs = u8.codec_axioms u16.codec_axioms u32.codec_axioms u64.codec_axioms

interpretation alg_property: codec alg_property_get alg_property_put
    "\<lambda>p. to_be 2 (ap_alg p) @ to_be 4 (ap_properties p)" "\<lambda>_. True \<and> True"
  unfolding alg_property_get_def [abs_def] alg_property_put_def [abs_def]
  by (rule codec_pair [OF u16.codec_axioms u32.codec_axioms]) simp

interpretation tagged_property: codec tagged_property_get tagged_property_put
    "\<lambda>p. to_be 4 (tp_property p) @ to_be 4 (tp_value p)" "\<lambda>_. True \<and> True"
  unfolding tagged_property_get_def [abs_def] tagged_property_put_def [abs_def]
  by (rule codec_pair [OF u32.codec_axioms u32.codec_axioms]) simp

interpretation tagged_pcr_select: codec tagged_pcr_select_get tagged_pcr_select_put
    "\<lambda>p. to_be 4 (tps_tag p) @ pcr_select_enc (tps_select p)" "\<lambda>p. True \<and> pcr_select_ok (tps_select p)"
  unfolding tagged_pcr_select_get_def [abs_def] tagged_pcr_select_put_def [abs_def]
  by (rule codec_pair [OF u32.codec_axioms pcr_select.codec_axioms]) simp

interpretation tagged_policy: codec "tagged_policy_get E" tagged_policy_put
    "\<lambda>p. to_be 4 (tpo_handle p) @ tpmt_ha_enc (tpo_hash p)" "\<lambda>p. True \<and> tpmt_ha_ok E (tpo_hash p)"
  unfolding tagged_policy_get_def [abs_def] tagged_policy_put_def [abs_def]
  by (rule codec_pair [OF u32.codec_axioms tpmt_ha.codec_axioms]) simp

interpretation spdm: codec spdm_get spdm_put
    "\<lambda>p. to_be 4 (si_id p) @ [si_index p]" "\<lambda>_. True \<and> True"
  unfolding spdm_get_def [abs_def] spdm_put_def [abs_def]
  by (rule codec_pair [OF u32.codec_axioms u8.codec_axioms]) simp

interpretation vendor_property: codec vendor_property_get vendor_property_put
    "\<lambda>p. to_be 4 (vp_property p) @ enc_sized16 (vp_value p)"
    "\<lambda>p. True \<and> length (vp_value p) \<le> MAX_VENDOR_BUFFER_SIZE"
  unfolding vendor_property_get_def [abs_def] vendor_property_put_def [abs_def]
  by (rule codec_pair [OF u32.codec_axioms tpm2b_codec]) (simp_all add: MAX_VENDOR_BUFFER_SIZE_def)

interpretation act_attr: codec "unmarshal_attr act_reserved r_u32" w_u32 "to_be 4" "\<lambda>v. v AND act_reserved = 0"
  by (rule unmarshal_attr_codec [OF u32.codec_axioms])

definition act_data_enc :: "act_data \<Rightarrow> bytes" where
  "act_data_enc p = to_be 4 (ad_handle p) @ to_be 4 (ad_timeout p) @ to_be 4 (ad_attributes p)"

interpretation act_data: codec act_data_get act_data_put act_data_enc
    "\<lambda>p. ad_attributes p AND act_reserved = 0"
proof
  show "consumes r r'" if "act_data_get r = Inr (h, r')" for r h r'
    using that
    by (auto simp: act_data_get_def res_bind_eq_Inr dest!: reads_consume act_attr.get_consumes)
       (blast intro: consumes_trans)
  show "act_data_put p w = emit (act_data_enc p) w" for p w
    by (simp add: act_data_put_def act_data_enc_def writes_emit)
  show "act_data_get r = Inr (p, advance (length (act_data_enc p)) r)"
    if "ad_attributes p AND act_reserved = 0" "rest r = act_data_enc p @ t" for p r t
    using that by (simp add: act_data_get_def act_data_enc_def r_u32_append act_attr.get_enc [where t = t])
qed

definition list_enc :: "('a \<Rightarrow> bytes) \<Rightarrow> 'a list \<Rightarrow> bytes" where
  "list_enc enc xs = to_be 4 (of_nat (length xs) :: u32) @ concat (map enc xs)"

interpretation pcr_selections: codec "pcr_selections_get E" pcr_selections_put "list_enc pcr_selection_enc"
    "\<lambda>xs. length xs \<le> HASH_COUNT \<and> list_all (pcr_selection_ok E) xs"
  unfolding pcr_selections_get_def [abs_def] pcr_selections_put_def [abs_def] list_enc_def [abs_def]
  by (rule pcr_selection.list_codec) (simp add: HASH_COUNT_def)

interpretation digest_values: codec "digest_values_get E" digest_values_put "list_enc tpmt_ha_enc"
    "\<lambda>xs. length xs \<le> HASH_COUNT \<and> list_all (tpmt_ha_ok E) xs"
  unfolding digest_values_get_def [abs_def] digest_values_put_def [abs_def] list_enc_def [abs_def]
  by (rule tpmt_ha.list_codec) (simp add: HASH_COUNT_def)

interpretation digest_buf: codec "tpm2b_get MAX_DIGEST_SIZE" tpm2b_put enc_sized16
    "\<lambda>b. length b \<le> MAX_DIGEST_SIZE"
  by (rule tpm2b_codec) (simp add: MAX_DIGEST_SIZE_def)

interpretation tpml_digest: codec tpml_digest_get tpml_digest_put "list_enc enc_sized16"
    "\<lambda>ds. 2 \<le> length ds \<and> length ds \<le> 8 \<and> list_all (\<lambda>b. length b \<le> MAX_DIGEST_SIZE) ds"
proof
  show "consumes r r'" if "tpml_digest_get r = Inr (h, r')" for r h r'
    using that
    by (auto simp: tpml_digest_get_def res_bind_eq_Inr split: if_splits
        intro: consumes_trans reads_consume digest_buf.items_consume)
  show "tpml_digest_put p w = emit (list_enc enc_sized16 p) w"
    if "2 \<le> length p \<and> length p \<le> 8 \<and> list_all (\<lambda>b. length b \<le> MAX_DIGEST_SIZE) p" for p w
    using that by (simp add: tpml_digest_put_def marshal_list_def digest_buf.list_put_enc writes_emit list_enc_def)
  show "tpml_digest_get r = Inr (p, advance (length (list_enc enc_sized16 p)) r)"
    if ok: "2 \<le> length p \<and> length p \<le> 8 \<and> list_all (\<lambda>b. length b \<le> MAX_DIGEST_SIZE) p"
      and r: "rest r = list_enc enc_sized16 p @ t" for p r t
  proof -
    have "unat (of_nat (length p) :: u32) = length p" using ok by (intro unat_of_nat_u32) simp
    moreover have "unmarshal_items (tpm2b_get MAX_DIGEST_SIZE) (length p) (advance 4 r)
        = Inr (p, advance (length (concat (map enc_sized16 p))) (advance 4 r))"
      by (rule digest_buf.items_enc [where t = t]) (use ok r in \<open>simp_all add: list_enc_def\<close>)
    ultimately show ?thesis using ok r by (simp add: tpml_digest_get_def list_enc_def r_u32_append)
  qed
qed

text \<open>A list of PCR selections, or of digests by algorithm, that a command may carry survives
  being marshalled and read back, and with surplus octets behind it the reading fails with
  \<open>TPM_RC_SIZE\<close>.\<close>

theorem pcr_lists_roundtrip:
  assumes "length sels \<le> HASH_COUNT" and "list_all (pcr_selection_ok E) sels"
    and "length ds \<le> HASH_COUNT" and "list_all (tpmt_ha_ok E) ds" and "t \<noteq> []"
  shows "from_bytes (pcr_selections_get E) (to_bytes pcr_selections_put sels) = Inr sels
    \<and> from_bytes (pcr_selections_get E) (to_bytes pcr_selections_put sels @ t) = Inl rc_SIZE
    \<and> from_bytes (digest_values_get E) (to_bytes digest_values_put ds) = Inr ds
    \<and> from_bytes (digest_values_get E) (to_bytes digest_values_put ds @ t) = Inl rc_SIZE"
  using assms
    pcr_selections.from_to_bytes [of sels E] pcr_selections.from_bytes_surplus [of sels E t]
    digest_values.from_to_bytes [of ds E] digest_values.from_bytes_surplus [of ds E t]
  by blast

theorem pcr_lists_roundtrip_witness:
  "from_bytes (pcr_selections_get (demo_env True))
     (to_bytes pcr_selections_put [\<lparr>sel_alg = alg_SHA256, sel_bits = [1, 0, 128]\<rparr>])
   = Inr [\<lparr>sel_alg = alg_SHA256, sel_bits = [1, 0, 128]\<rparr>]"
  using pcr_lists_roundtrip [of "[\<lparr>sel_alg = alg_SHA256, sel_bits = [1, 0, 128]\<rparr>]" "demo_env True"
      "[\<lparr>ha_alg = alg_SHA256, ha_digest = replicate 32 0\<rparr>]" "[0]"]
  by (simp add: HASH_COUNT_def pcr_selection_ok_def pcr_select_ok_def PCR_SELECT_MIN_def PCR_SELECT_MAX_def
      digest_size_def tpmt_ha_ok_def)

end
