(* ===== verification/Pcr.thy ===== *)
theory Pcr
  imports Lists BTreeMap
begin

text \<open>
  The PCR banks of \<open>src/tpm/core/pcr.rs\<close>: registers by hash algorithm, which registers each
  bank has allocated, and the update counter that invalidates PCR policies. Methods that can
  fail return the result and the banks they leave behind.
\<close>

definition IMPLEMENTATION_PCR :: nat where "IMPLEMENTATION_PCR = 24"

definition HCRTM_PCR :: nat where "HCRTM_PCR = 0"

section \<open>The platform profile\<close>

record pcr_attributes =
  reset_locality :: u8
  extend_locality :: u8
  starts_at_ones :: bool

definition ALL_LOCALITIES :: u8 where "ALL_LOCALITIES = 0b00011111"

definition LOCALITY_FOUR :: u8 where "LOCALITY_FOUR = 0b00010000"

definition LOCALITY_TWO_TO_FOUR :: u8 where "LOCALITY_TWO_TO_FOUR = 0b00011100"

definition LOCALITY_ZERO_TO_THREE :: u8 where "LOCALITY_ZERO_TO_THREE = 0b00001111"

definition LOCALITY_ONE_TO_THREE :: u8 where "LOCALITY_ONE_TO_THREE = 0b00001110"

definition LOCALITY_TWO_AND_THREE :: u8 where "LOCALITY_TWO_AND_THREE = 0b00001100"

definition LOCALITY_TWO :: u8 where "LOCALITY_TWO = 0b00000100"

definition attributes :: "nat \<Rightarrow> pcr_attributes" where
  "attributes index =
     (if index \<le> 15 then \<lparr>reset_locality = 0, extend_locality = ALL_LOCALITIES, starts_at_ones = False\<rparr>
      else if index = 16 \<or> index = 23 then
        \<lparr>reset_locality = LOCALITY_ZERO_TO_THREE, extend_locality = ALL_LOCALITIES, starts_at_ones = False\<rparr>
      else if index = 17 \<or> index = 18 then
        \<lparr>reset_locality = 0, extend_locality = LOCALITY_TWO_TO_FOUR, starts_at_ones = True\<rparr>
      else if index = 19 then
        \<lparr>reset_locality = 0, extend_locality = LOCALITY_TWO_AND_THREE, starts_at_ones = True\<rparr>
      else if index = 20 then
        \<lparr>reset_locality = LOCALITY_TWO_AND_THREE, extend_locality = LOCALITY_ONE_TO_THREE, starts_at_ones = True\<rparr>
      else if index = 21 \<or> index = 22 then
        \<lparr>reset_locality = LOCALITY_TWO_AND_THREE, extend_locality = LOCALITY_TWO, starts_at_ones = True\<rparr>
      else \<lparr>reset_locality = 0, extend_locality = 0, starts_at_ones = False\<rparr>)"

definition is_saved :: "nat \<Rightarrow> bool" where
  "is_saved index = (index \<le> 15)"

definition reset_capability_locality :: "nat \<Rightarrow> u8" where
  "reset_capability_locality index =
     (if starts_at_ones (attributes index) then reset_locality (attributes index) OR LOCALITY_FOUR
      else reset_locality (attributes index))"

definition is_implemented :: "nat \<Rightarrow> bool" where
  "is_implemented index = (index < IMPLEMENTATION_PCR)"

definition no_increment :: "nat \<Rightarrow> bool" where
  "no_increment index = (index = 16 \<or> index = 21 \<or> index = 22 \<or> index = 23)"

section \<open>The banks\<close>

record pcr_banks =
  banks :: "(u16, bytes list) btree"
  allocated :: "(u16, bool list) btree"
  update_counter :: u32

definition pcr_empty :: pcr_banks where
  "pcr_empty = \<lparr>banks = [], allocated = [], update_counter = 0\<rparr>"

definition whole_banks :: "u16 list \<Rightarrow> (u16 \<times> bool list) list" where
  "whole_banks algorithms = map (\<lambda>a. (a, replicate IMPLEMENTATION_PCR True)) algorithms"

text \<open>The value a register has after a reset, and the register an H-CRTM event measures into.\<close>

definition reset_value :: "nat \<Rightarrow> nat \<Rightarrow> u8 \<Rightarrow> bytes" where
  "reset_value sz index startup_locality =
     (let value = replicate sz (if starts_at_ones (attributes index) then 0xff else 0)
      in if index = HCRTM_PCR then
           (if value = [] then value else butlast value @ [startup_locality])
         else value)"

definition reset_all_but :: "env \<Rightarrow> nat option \<Rightarrow> u8 \<Rightarrow> pcr_banks \<Rightarrow> pcr_banks" where
  "reset_all_but E keep startup_locality p =
     p\<lparr>banks := bt_map (\<lambda>a bank.
         let sz = (case digest_size E a of None \<Rightarrow> 0 | Some n \<Rightarrow> n)
         in map (\<lambda>(index, reg).
              if keep = Some index then reg else reset_value sz index startup_locality)
            (enumerate 0 bank)) (banks p)\<rparr>"

definition reset_all :: "env \<Rightarrow> pcr_banks \<Rightarrow> pcr_banks" where
  "reset_all E p = reset_all_but E None 0 p"

text \<open>The loop of \<open>allocate\<close>: the banks and flags built so far, or the first error.\<close>

fun allocate_loop ::
  "env \<Rightarrow> (u16 \<times> bool list) list \<Rightarrow> (u16, bytes list) btree \<Rightarrow> (u16, bool list) btree
     \<Rightarrow> ((u16, bytes list) btree \<times> (u16, bool list) btree) tpm_result" where
  "allocate_loop E [] bs fs = Inr (bs, fs)"
| "allocate_loop E ((a, bits) # al) bs fs =
     (if \<not> list_ex (\<lambda>b. b) bits then allocate_loop E al bs fs
      else case digest_size E a of
          None \<Rightarrow> Inl rc_HASH
        | Some sz \<Rightarrow>
            let flags = take IMPLEMENTATION_PCR bits
                  @ replicate (IMPLEMENTATION_PCR - length (take IMPLEMENTATION_PCR bits)) False
            in allocate_loop E al
                 (bt_insert a (replicate IMPLEMENTATION_PCR (replicate sz 0)) bs)
                 (bt_insert a flags fs))"

definition allocate :: "env \<Rightarrow> (u16 \<times> bool list) list \<Rightarrow> (pcr_banks, unit) st_op" where
  "allocate E allocation p =
     (case allocate_loop E allocation [] [] of
        Inl e \<Rightarrow> (Inl e, p)
      | Inr (bs, fs) \<Rightarrow> (Inr (), reset_all E (p\<lparr>banks := bs, allocated := fs\<rparr>)))"

definition pcr_new :: "env \<Rightarrow> (u16 \<times> bool list) list \<Rightarrow> pcr_banks tpm_result" where
  "pcr_new E allocation =
     (case allocate E allocation pcr_empty of (Inl e, _) \<Rightarrow> Inl e | (Inr _, p) \<Rightarrow> Inr p)"

definition has_pcr :: "u16 \<Rightarrow> nat \<Rightarrow> pcr_banks \<Rightarrow> bool" where
  "has_pcr a index p =
     (case bt_get (allocated p) a of
        None \<Rightarrow> False
      | Some bits \<Rightarrow> if index < length bits then bits ! index else False)"

definition allocation :: "pcr_banks \<Rightarrow> (u16 \<times> bool list) list" where
  "allocation p = allocated p"

definition algorithms :: "pcr_banks \<Rightarrow> u16 list" where
  "algorithms p = bt_keys (banks p)"

definition has_bank :: "u16 \<Rightarrow> pcr_banks \<Rightarrow> bool" where
  "has_bank a p = bt_contains (banks p) a"

definition reset_update_counter :: "pcr_banks \<Rightarrow> pcr_banks" where
  "reset_update_counter p = p\<lparr>update_counter := 0\<rparr>"

definition bump_update_counter :: "pcr_banks \<Rightarrow> pcr_banks" where
  "bump_update_counter p = p\<lparr>update_counter := update_counter p + 1\<rparr>"

definition set_update_counter :: "u32 \<Rightarrow> pcr_banks \<Rightarrow> pcr_banks" where
  "set_update_counter v p = p\<lparr>update_counter := v\<rparr>"

definition on_resume :: "env \<Rightarrow> pcr_banks \<Rightarrow> pcr_banks" where
  "on_resume E p =
     p\<lparr>banks := bt_map (\<lambda>a bank.
         case digest_size E a of
           None \<Rightarrow> bank
         | Some sz \<Rightarrow> map (\<lambda>(index, value).
             if is_saved index then value
             else replicate sz (if starts_at_ones (attributes index) then 0xff else 0))
             (enumerate 0 bank)) (banks p)\<rparr>"

section \<open>State file\<close>

definition put_bank :: "u16 \<times> bytes list \<Rightarrow> writer \<Rightarrow> writer" where
  "put_bank ab w =
     (case ab of (a, bank) \<Rightarrow>
        foldl (\<lambda>w v. sized16 v w) (w_u32 (of_nat (length bank)) (w_u16 a w)) bank)"

definition marshal_values :: "pcr_banks \<Rightarrow> writer \<Rightarrow> writer" where
  "marshal_values p w =
     foldl (\<lambda>w ab. put_bank ab w) (w_u32 (of_nat (length (banks p))) w) (banks p)"

definition restore_register :: "u16 \<Rightarrow> nat \<Rightarrow> bytes \<Rightarrow> pcr_banks \<Rightarrow> pcr_banks" where
  "restore_register a index value p =
     (case bt_get (banks p) a of
        None \<Rightarrow> p
      | Some bank \<Rightarrow>
          if index < length bank \<and> length (bank ! index) = length value
          then p\<lparr>banks := bt_update a (bank[index := value]) (banks p)\<rparr>
          else p)"

text \<open>The inner loop reads \<open>n\<close> registers from \<open>index\<close> on, the outer loop the banks.\<close>

fun unmarshal_registers ::
  "u16 \<Rightarrow> nat \<Rightarrow> nat \<Rightarrow> reader \<Rightarrow> pcr_banks \<Rightarrow> reader tpm_result \<times> pcr_banks" where
  "unmarshal_registers a index 0 r p = (Inr r, p)"
| "unmarshal_registers a index (Suc n) r p =
     (case res_bind (r_u16 r) (\<lambda>(sz, r). r_take (unat sz) r) of
        Inl e \<Rightarrow> (Inl e, p)
      | Inr (value, r) \<Rightarrow> unmarshal_registers a (Suc index) n r (restore_register a index value p))"

fun unmarshal_banks :: "nat \<Rightarrow> reader \<Rightarrow> pcr_banks \<Rightarrow> reader tpm_result \<times> pcr_banks" where
  "unmarshal_banks 0 r p = (Inr r, p)"
| "unmarshal_banks (Suc n) r p =
     (case res_bind (r_u16 r) (\<lambda>(a, r). res_bind (r_u32 r) (\<lambda>(count, r). Inr (a, count, r))) of
        Inl e \<Rightarrow> (Inl e, p)
      | Inr (a, count, r) \<Rightarrow>
          (case unmarshal_registers a 0 (unat count) r p of
             (Inl e, p) \<Rightarrow> (Inl e, p)
           | (Inr r, p) \<Rightarrow> unmarshal_banks n r p))"

definition unmarshal_values :: "reader \<Rightarrow> pcr_banks \<Rightarrow> reader tpm_result \<times> pcr_banks" where
  "unmarshal_values r p =
     (case r_u32 r of Inl e \<Rightarrow> (Inl e, p) | Inr (n, r) \<Rightarrow> unmarshal_banks (unat n) r p)"

section \<open>Reading, extending and resetting\<close>

definition pcr_read :: "u16 \<Rightarrow> nat \<Rightarrow> pcr_banks \<Rightarrow> bytes tpm_result" where
  "pcr_read a index p =
     res_bind (ok_or (bt_get (banks p) a) rc_VALUE) (\<lambda>bank.
       if index < length bank then Inr (bank ! index) else Inl rc_VALUE)"

definition put_register :: "u16 \<Rightarrow> nat \<Rightarrow> bytes \<Rightarrow> pcr_banks \<Rightarrow> pcr_banks" where
  "put_register a index value p =
     (case bt_get (banks p) a of
        None \<Rightarrow> p
      | Some bank \<Rightarrow> p\<lparr>banks := bt_update a (bank[index := value]) (banks p)\<rparr>)"

definition count_change :: "nat \<Rightarrow> u32 \<Rightarrow> pcr_banks \<Rightarrow> pcr_banks" where
  "count_change index n p =
     (if \<not> no_increment index then p\<lparr>update_counter := update_counter p + n\<rparr> else p)"

definition extend_digest :: "env \<Rightarrow> u16 \<Rightarrow> nat \<Rightarrow> bytes \<Rightarrow> (pcr_banks, unit) st_op" where
  "extend_digest E a index d p =
     (if \<not> has_pcr a index p then (Inr (), p)
      else if \<not> is_implemented index then (Inl rc_VALUE, p)
      else case digest_size E a of None \<Rightarrow> (Inl rc_HASH, p) | Some sz \<Rightarrow>
        if length d \<noteq> sz then (Inl rc_SIZE, p)
        else case bt_get (banks p) a of None \<Rightarrow> (Inl rc_VALUE, p) | Some bank \<Rightarrow>
          (case digest_parts E a [bank ! index, d] of
             Inl e \<Rightarrow> (Inl e, p)
           | Inr v \<Rightarrow> (Inr (), put_register a index v p)))"

definition extend_one :: "env \<Rightarrow> u16 \<Rightarrow> nat \<Rightarrow> bytes \<Rightarrow> (pcr_banks, unit) st_op" where
  "extend_one E a index d =
     st_bind (extend_digest E a index d) (\<lambda>_. st_modify (count_change index 1))"

definition pcr_set :: "env \<Rightarrow> u16 \<Rightarrow> nat \<Rightarrow> bytes \<Rightarrow> (pcr_banks, unit) st_op" where
  "pcr_set E a index d p =
     (if \<not> is_implemented index then (Inl rc_VALUE, p)
      else case digest_size E a of None \<Rightarrow> (Inl rc_HASH, p) | Some sz \<Rightarrow>
        if length d \<noteq> sz then (Inl rc_SIZE, p)
        else case bt_get (banks p) a of None \<Rightarrow> (Inl rc_VALUE, p) | Some bank \<Rightarrow>
          (Inr (), count_change index 1 (put_register a index d p)))"

definition drtm_register :: "nat \<Rightarrow> nat \<times> bytes \<Rightarrow> bytes \<times> bool" where
  "drtm_register sz = (\<lambda>(index, reg).
     if \<not> starts_at_ones (attributes index) then (reg, False)
     else if reg \<noteq> replicate sz 0 then (replicate sz 0, \<not> no_increment index)
     else (reg, False))"

definition drtm_bank :: "env \<Rightarrow> u16 \<Rightarrow> bytes list \<Rightarrow> (bytes \<times> bool) list" where
  "drtm_bank E a bank =
     (let sz = (case digest_size E a of None \<Rightarrow> 0 | Some n \<Rightarrow> n)
      in map (drtm_register sz) (enumerate 0 bank))"

definition drtm_reset :: "env \<Rightarrow> pcr_banks \<Rightarrow> pcr_banks" where
  "drtm_reset E p =
     (let changed = list_ex (\<lambda>(a, bank). list_ex snd (drtm_bank E a bank)) (banks p);
          p = p\<lparr>banks := bt_map (\<lambda>a bank. map fst (drtm_bank E a bank)) (banks p)\<rparr>
      in if changed then p\<lparr>update_counter := update_counter p + 1\<rparr> else p)"

definition locality_allows :: "u8 \<Rightarrow> u8 \<Rightarrow> bool" where
  "locality_allows m locality = (\<not> (4 < locality \<or> m AND push_bit (unat locality) 1 = 0))"

definition pcr_reset :: "env \<Rightarrow> nat \<Rightarrow> u8 \<Rightarrow> (pcr_banks, unit) st_op" where
  "pcr_reset E index locality p =
     (if \<not> list_ex (\<lambda>a. has_pcr a index p) (algorithms p) then (Inr (), p)
      else if \<not> is_implemented index then (Inl rc_VALUE, p)
      else if \<not> locality_allows (reset_locality (attributes index)) locality then (Inl rc_LOCALITY, p)
      else (Inr (), count_change index 1
        (p\<lparr>banks := bt_map (\<lambda>a bank.
            bank[index := replicate (case digest_size E a of None \<Rightarrow> 0 | Some n \<Rightarrow> n) 0]) (banks p)\<rparr>)))"

text \<open>The check that comes before any change, and the loop that makes the changes.\<close>

fun check_digests :: "env \<Rightarrow> pcr_banks \<Rightarrow> (u16 \<times> bytes) list \<Rightarrow> unit tpm_result" where
  "check_digests E p [] = Inr ()"
| "check_digests E p ((a, d) # ds) =
     (if \<not> has_bank a p then check_digests E p ds
      else case digest_size E a of None \<Rightarrow> Inl rc_HASH | Some sz \<Rightarrow>
        if length d \<noteq> sz then Inl rc_SIZE else check_digests E p ds)"

fun extend_loop ::
  "env \<Rightarrow> nat \<Rightarrow> (u16 \<times> bytes) list \<Rightarrow> u16 list \<Rightarrow> pcr_banks \<Rightarrow> u16 list tpm_result \<times> pcr_banks" where
  "extend_loop E index [] counted p = (Inr counted, p)"
| "extend_loop E index ((a, d) # ds) counted p =
     (if \<not> has_bank a p then extend_loop E index ds counted p
      else case extend_digest E a index d p of
          (Inl e, p) \<Rightarrow> (Inl e, p)
        | (Inr _, p) \<Rightarrow>
            extend_loop E index ds (if a \<notin> set counted then counted @ [a] else counted) p)"

definition pcr_extend :: "env \<Rightarrow> nat \<Rightarrow> u8 \<Rightarrow> (u16 \<times> bytes) list \<Rightarrow> (pcr_banks, unit) st_op" where
  "pcr_extend E index locality digests p =
     (if \<not> is_implemented index then (Inl rc_VALUE, p)
      else if \<not> locality_allows (extend_locality (attributes index)) locality then (Inl rc_LOCALITY, p)
      else case check_digests E p digests of Inl e \<Rightarrow> (Inl e, p) | Inr _ \<Rightarrow>
        (case extend_loop E index digests [] p of
           (Inl e, p) \<Rightarrow> (Inl e, p)
         | (Inr counted, p) \<Rightarrow> (Inr (), count_change index (of_nat (length counted)) p)))"

fun event_digests :: "env \<Rightarrow> bytes \<Rightarrow> u16 list \<Rightarrow> (u16 \<times> bytes) list tpm_result" where
  "event_digests E data [] = Inr []"
| "event_digests E data (a # as) =
     res_bind (digest E a data) (\<lambda>d. res_bind (event_digests E data as) (\<lambda>ds. Inr ((a, d) # ds)))"

definition pcr_event :: "env \<Rightarrow> nat \<Rightarrow> u8 \<Rightarrow> bytes \<Rightarrow> (pcr_banks, (u16 \<times> bytes) list) st_op" where
  "pcr_event E index locality data p =
     (case event_digests E data (algorithms p) of
        Inl e \<Rightarrow> (Inl e, p)
      | Inr digests \<Rightarrow>
          (case pcr_extend E index locality digests p of
             (Inl e, p) \<Rightarrow> (Inl e, p)
           | (Inr _, p) \<Rightarrow> (Inr digests, p)))"

section \<open>Selections\<close>

definition read_selection :: "pcr_selection list \<Rightarrow> pcr_banks \<Rightarrow> bytes list" where
  "read_selection sels p = concat (map (\<lambda>sel.
     case bt_get (banks p) (sel_alg sel) of
       None \<Rightarrow> []
     | Some bank \<Rightarrow> map (\<lambda>i. bank ! i) (filter (\<lambda>i. i < IMPLEMENTATION_PCR) (selected (sel_bits sel)))) sels)"

definition selection_digest :: "env \<Rightarrow> u16 \<Rightarrow> pcr_selection list \<Rightarrow> pcr_banks \<Rightarrow> bytes tpm_result" where
  "selection_digest E a sels p =
     res_bind (hasher_new E a) (\<lambda>h.
       Inr (hasher_finish E (foldl (\<lambda>h sel.
         case bt_get (banks p) (sel_alg sel) of
           None \<Rightarrow> h
         | Some bank \<Rightarrow>
             foldl (\<lambda>h index.
               if IMPLEMENTATION_PCR \<le> index then h else hasher_update (bank ! index) h)
               h (selected (sel_bits sel))) h sels)))"

definition filter_item :: "pcr_banks \<Rightarrow> pcr_selection \<Rightarrow> pcr_selection" where
  "filter_item p sel =
     (let zeros = replicate (max (length (sel_bits sel)) PCR_SELECT_MIN) 0
      in \<lparr>sel_alg = sel_alg sel,
          sel_bits =
            (if bt_contains (banks p) (sel_alg sel)
             then foldl (\<lambda>bits index.
                    if index < IMPLEMENTATION_PCR \<and> has_pcr (sel_alg sel) index p
                    then select index bits else bits) zeros (selected (sel_bits sel))
             else zeros)\<rparr>)"

definition filter_selection :: "pcr_selection list \<Rightarrow> pcr_banks \<Rightarrow> pcr_selection list" where
  "filter_selection sels p = map (filter_item p) sels"

section \<open>The invariant\<close>

definition bank_wf :: "env \<Rightarrow> u16 \<Rightarrow> bytes list \<Rightarrow> bool" where
  "bank_wf E a bank \<longleftrightarrow> is_supported E a \<and> length bank = IMPLEMENTATION_PCR
     \<and> list_all (\<lambda>r. digest_size E a = Some (length r)) bank"

definition pcr_wf :: "env \<Rightarrow> pcr_banks \<Rightarrow> bool" where
  "pcr_wf E p \<longleftrightarrow> bt_wf (banks p) \<and> bt_wf (allocated p)
     \<and> (\<forall>a. bt_contains (allocated p) a = bt_contains (banks p) a)
     \<and> (\<forall>a bank. bt_get (banks p) a = Some bank \<longrightarrow> bank_wf E a bank)
     \<and> (\<forall>a flags. bt_get (allocated p) a = Some flags \<longrightarrow> length flags = IMPLEMENTATION_PCR)"

lemma pcr_wf_bank: "pcr_wf E p \<Longrightarrow> bt_get (banks p) a = Some bank \<Longrightarrow> bank_wf E a bank"
  by (simp add: pcr_wf_def)

lemma pcr_wf_counter [simp]: "pcr_wf E (p\<lparr>update_counter := n\<rparr>) = pcr_wf E p"
  by (simp add: pcr_wf_def)

lemma pcr_wf_count_change [simp]: "pcr_wf E (count_change i n p) = pcr_wf E p"
  by (simp add: count_change_def)

lemma pcr_wf_map [inv_intros]:
  assumes "pcr_wf E p" and "\<And>a bank. bank_wf E a bank \<Longrightarrow> bank_wf E a (f a bank)"
  shows "pcr_wf E (p\<lparr>banks := bt_map f (banks p)\<rparr>)"
  using assms by (auto simp: pcr_wf_def bt_contains_def)

lemma bank_wf_update:
  "bank_wf E a bank \<Longrightarrow> digest_size E a = Some (length v) \<Longrightarrow> bank_wf E a (bank[i := v])"
  using set_update_subset_insert [of bank i v] by (auto simp: bank_wf_def list_all_iff)

lemma bank_wf_size: "bank_wf E a bank \<Longrightarrow> \<exists>n. digest_size E a = Some n"
  by (simp add: bank_wf_def supported_digest_size)

lemma has_pcr_bank:
  assumes "pcr_wf E p" and "has_pcr a i p"
  obtains bank where "bt_get (banks p) a = Some bank" and "bank_wf E a bank" and "is_supported E a"
    and "i < IMPLEMENTATION_PCR"
proof -
  obtain flags where flags: "bt_get (allocated p) a = Some flags" "i < length flags"
    using assms(2) by (auto simp: has_pcr_def split: option.splits if_splits)
  then have i: "i < IMPLEMENTATION_PCR" using assms(1) by (auto simp: pcr_wf_def)
  have "bt_contains (allocated p) a = bt_contains (banks p) a" using assms(1) by (simp add: pcr_wf_def)
  then obtain bank where bank: "bt_get (banks p) a = Some bank"
    using flags(1) by (auto simp: bt_contains_def)
  have "bank_wf E a bank" by (rule pcr_wf_bank [OF assms(1) bank])
  moreover then have "is_supported E a" by (simp add: bank_wf_def)
  ultimately show thesis using bank i by (intro that)
qed

lemma bank_wf_map_enumerate:
  assumes "bank_wf E a bank"
    and "\<And>i r. digest_size E a = Some (length r) \<Longrightarrow> digest_size E a = Some (length (f (i, r)))"
  shows "bank_wf E a (map f (enumerate 0 bank))"
  using assms by (auto simp: bank_wf_def list_all_length nth_enumerate_eq)

lemma pcr_wf_put_register [inv_intros]:
  assumes "pcr_wf E p" and "digest_size E a = Some (length v)"
  shows "pcr_wf E (put_register a i v p)"
proof (cases "bt_get (banks p) a")
  case None
  with assms show ?thesis by (simp add: put_register_def)
next
  case (Some bank)
  then have "bank_wf E a (bank[i := v])"
    using assms by (intro bank_wf_update pcr_wf_bank)
  with Some assms(1) show ?thesis
    by (auto simp: put_register_def pcr_wf_def bt_contains_def)
qed

lemma length_reset_value [simp]: "length (reset_value n i l) = n"
  by (auto simp: reset_value_def Let_def)

lemma pcr_wf_reset_all_but [inv_intros]: "pcr_wf E p \<Longrightarrow> pcr_wf E (reset_all_but E keep l p)"
  unfolding reset_all_but_def Let_def
  by (rule pcr_wf_map) (auto intro!: bank_wf_map_enumerate)

lemma pcr_wf_on_resume [inv_intros]: "pcr_wf E p \<Longrightarrow> pcr_wf E (on_resume E p)"
  unfolding on_resume_def
  by (rule pcr_wf_map) (auto intro!: bank_wf_map_enumerate split: option.splits)

lemma pcr_wf_drtm_reset [inv_intros]: "pcr_wf E p \<Longrightarrow> pcr_wf E (drtm_reset E p)"
  unfolding drtm_reset_def drtm_bank_def Let_def map_map
  by (auto intro!: pcr_wf_map bank_wf_map_enumerate simp: drtm_register_def)

lemma digest_two: "is_supported E a \<Longrightarrow> digest_parts E a [x, y] = Inr (raw_digest E a (x @ y))"
  by (simp add: digest_parts_concat digest_supported)

lemma extend_digest_cases:
  assumes "pcr_wf E p"
  shows "extend_digest E a i d p =
    (if \<not> has_pcr a i p then (Inr (), p)
     else if digest_size E a \<noteq> Some (length d) then (Inl rc_SIZE, p)
     else (Inr (), put_register a i (raw_digest E a (the (bt_get (banks p) a) ! i @ d)) p))"
proof (cases "has_pcr a i p")
  case False
  then show ?thesis by (simp add: extend_digest_def)
next
  case True
  then obtain bank where "bt_get (banks p) a = Some bank" "bank_wf E a bank" "is_supported E a"
    "i < IMPLEMENTATION_PCR"
    by (rule has_pcr_bank [OF assms])
  moreover then obtain n where "digest_size E a = Some n" using supported_digest_size by blast
  ultimately show ?thesis
    using True by (auto simp: extend_digest_def is_implemented_def digest_two)
qed

lemma has_pcr_digest_size:
  assumes "env_ok E" and "pcr_wf E p" and "has_pcr a i p"
  shows "digest_size E a = Some (length (raw_digest E a x))"
proof -
  have "is_supported E a" using has_pcr_bank [OF assms(2,3)] by blast
  then show ?thesis
    using supported_digest_size [of E a] digest_size_raw [OF assms(1), of a] by auto
qed

lemma pcr_wf_extend_digest [inv_intros]:
  assumes "env_ok E" and "pcr_wf E p"
  shows "pcr_wf E (snd (extend_digest E a i d p))"
  using assms has_pcr_digest_size [OF assms, of a i]
  by (simp add: extend_digest_cases pcr_wf_put_register)

lemma pcr_wf_extend_loop [inv_intros]:
  "env_ok E \<Longrightarrow> pcr_wf E p \<Longrightarrow> pcr_wf E (snd (extend_loop E i ds counted p))"
proof (induction E i ds counted p rule: extend_loop.induct)
  case (2 E i a d ds counted p)
  then show ?case
    using pcr_wf_extend_digest [OF 2(3,4), of a i d]
    by (auto split: prod.splits sum.splits)
qed simp

lemma pcr_wf_extend [inv_intros]:
  assumes "env_ok E" and "pcr_wf E p"
  shows "pcr_wf E (snd (pcr_extend E i l ds p))"
  using pcr_wf_extend_loop [OF assms, of i ds "[]"] assms(2)
  by (auto simp: pcr_extend_def split: sum.splits prod.splits)

lemma pcr_wf_event [inv_intros]:
  assumes "env_ok E" and "pcr_wf E p"
  shows "pcr_wf E (snd (pcr_event E i l data p))"
proof (cases "event_digests E data (algorithms p)")
  case (Inr ds)
  then show ?thesis using pcr_wf_extend [OF assms, of i l ds]
    by (auto simp: pcr_event_def split: sum.splits prod.splits)
qed (simp add: pcr_event_def assms)

lemma pcr_wf_reset [inv_intros]:
  assumes "pcr_wf E p"
  shows "pcr_wf E (snd (pcr_reset E i l p))"
proof -
  have "bank_wf E a (bank[i := replicate (case digest_size E a of None \<Rightarrow> 0 | Some n \<Rightarrow> n) 0])"
    if "bank_wf E a bank" for a bank
  proof -
    have "\<exists>n. digest_size E a = Some n" using that by (rule bank_wf_size)
    then obtain n where "digest_size E a = Some n" ..
    then show ?thesis by (intro bank_wf_update that) simp
  qed
  with assms show ?thesis
    by (auto simp: pcr_reset_def intro!: pcr_wf_map)
qed

lemma pcr_wf_set [inv_intros]: "pcr_wf E p \<Longrightarrow> pcr_wf E (snd (pcr_set E a i d p))"
  by (auto simp: pcr_set_def intro: pcr_wf_put_register split: option.splits)

lemma pcr_wf_extend_one [inv_intros]:
  "env_ok E \<Longrightarrow> pcr_wf E p \<Longrightarrow> pcr_wf E (snd (extend_one E a i d p))"
  using pcr_wf_extend_digest [of E p a i d]
  by (auto simp: extend_one_def st_bind_apply split: sum.splits)

lemma pcr_wf_restore [inv_intros]: "pcr_wf E p \<Longrightarrow> pcr_wf E (restore_register a i v p)"
proof (cases "bt_get (banks p) a")
  case (Some bank)
  assume wf: "pcr_wf E p"
  then have "digest_size E a = Some (length v)" if "i < length bank" "length (bank ! i) = length v"
    using pcr_wf_bank [OF wf Some] that by (auto simp: bank_wf_def list_all_length)
  with pcr_wf_put_register [OF wf, of a v i] Some wf show ?thesis
    by (auto simp: restore_register_def put_register_def)
qed (simp add: restore_register_def)

lemma pcr_wf_unmarshal_registers [inv_intros]:
  "pcr_wf E p \<Longrightarrow> pcr_wf E (snd (unmarshal_registers a i n r p))"
  by (induction n arbitrary: i r p) (auto intro: pcr_wf_restore split: sum.splits)

lemma pcr_wf_unmarshal_banks [inv_intros]: "pcr_wf E p \<Longrightarrow> pcr_wf E (snd (unmarshal_banks n r p))"
proof (induction n arbitrary: r p)
  case (Suc n)
  have "pcr_wf E q" if "unmarshal_registers a i k s p = (res, q)" for a i k s res q
    using pcr_wf_unmarshal_registers [OF Suc.prems, of a i k s] that by simp
  with Suc show ?case by (auto split: sum.splits prod.splits)
qed simp

lemma pcr_wf_unmarshal_values [inv_intros]: "pcr_wf E p \<Longrightarrow> pcr_wf E (snd (unmarshal_values r p))"
  using pcr_wf_unmarshal_banks by (simp add: unmarshal_values_def split: sum.splits)

lemma allocate_loop_wf:
  assumes "pcr_wf E \<lparr>banks = bs, allocated = fs, update_counter = c\<rparr>"
    and "list_all (\<lambda>(a, _). is_supported E a) al"
    and "allocate_loop E al bs fs = Inr (bs', fs')"
  shows "pcr_wf E \<lparr>banks = bs', allocated = fs', update_counter = c\<rparr>"
  using assms
proof (induction al arbitrary: bs fs)
  case (Cons ab al)
  obtain a bits where ab: "ab = (a, bits)" by (cases ab)
  show ?case
  proof (cases "list_ex (\<lambda>b. b) bits")
    case False
    with Cons ab show ?thesis by simp
  next
    case True
    have sup: "is_supported E a" using Cons.prems(2) ab by simp
    then obtain n where n: "digest_size E a = Some n" using supported_digest_size by blast
    define flags where "flags = take IMPLEMENTATION_PCR bits
        @ replicate (IMPLEMENTATION_PCR - length (take IMPLEMENTATION_PCR bits)) False"
    let ?bank = "replicate IMPLEMENTATION_PCR (replicate n (0 :: u8))"
    have "bank_wf E a ?bank" using sup n by (simp add: bank_wf_def list_all_iff)
    moreover have "length flags = IMPLEMENTATION_PCR" by (simp add: flags_def)
    ultimately have "pcr_wf E \<lparr>banks = bt_insert a ?bank bs, allocated = bt_insert a flags fs, update_counter = c\<rparr>"
      using Cons.prems(1) by (auto simp: pcr_wf_def bt_contains_def)
    moreover have "allocate_loop E al (bt_insert a ?bank bs) (bt_insert a flags fs) = Inr (bs', fs')"
      using Cons.prems(3) ab True n by (simp add: Let_def flags_def)
    ultimately show ?thesis using Cons.prems(2) by (intro Cons.IH) simp_all
  qed
qed simp

lemma pcr_wf_allocate:
  assumes "pcr_wf E p" and "list_all (\<lambda>(a, _). is_supported E a) al"
  shows "pcr_wf E (snd (allocate E al p))"
proof (cases "allocate_loop E al [] []")
  case (Inr r)
  obtain bs fs where r: "r = (bs, fs)" by (cases r)
  have "pcr_wf E \<lparr>banks = [], allocated = [], update_counter = update_counter p\<rparr>" by (simp add: pcr_wf_def bt_contains_def)
  from allocate_loop_wf [OF this assms(2) Inr [unfolded r]]
  have "pcr_wf E (p\<lparr>banks := bs, allocated := fs\<rparr>)" by (simp add: pcr_wf_def)
  then show ?thesis by (simp add: allocate_def Inr r reset_all_def pcr_wf_reset_all_but)
qed (simp add: allocate_def assms)

lemma pcr_wf_empty [simp]: "pcr_wf E pcr_empty"
  by (simp add: pcr_wf_def pcr_empty_def bt_contains_def)

lemma pcr_wf_new:
  "list_all (\<lambda>(a, _). is_supported E a) al \<Longrightarrow> pcr_new E al = Inr p \<Longrightarrow> pcr_wf E p"
  using pcr_wf_allocate [of E pcr_empty al] by (auto simp: pcr_new_def split: prod.splits sum.splits)

datatype pcr_op =
    Extend nat u8 "(u16 \<times> bytes) list"
  | Event nat u8 bytes
  | Reset nat u8
  | Extend_one u16 nat bytes
  | Set u16 nat bytes
  | Drtm
  | Startup "nat option" u8
  | Resume
  | Load reader

fun pcr_step :: "env \<Rightarrow> pcr_op \<Rightarrow> pcr_banks \<Rightarrow> pcr_banks" where
  "pcr_step E (Extend i l ds) p = snd (pcr_extend E i l ds p)"
| "pcr_step E (Event i l d) p = snd (pcr_event E i l d p)"
| "pcr_step E (Reset i l) p = snd (pcr_reset E i l p)"
| "pcr_step E (Extend_one a i d) p = snd (extend_one E a i d p)"
| "pcr_step E (Set a i d) p = snd (pcr_set E a i d p)"
| "pcr_step E Drtm p = drtm_reset E p"
| "pcr_step E (Startup keep l) p = reset_all_but E keep l p"
| "pcr_step E Resume p = on_resume E p"
| "pcr_step E (Load r) p = snd (unmarshal_values r p)"

interpretation pcr_run: invariant_steps "pcr_step E" "\<lambda>p. env_ok E \<and> pcr_wf E p"
proof
  fix p op assume "env_ok E \<and> pcr_wf E p"
  then show "env_ok E \<and> pcr_wf E (pcr_step E op p)"
    by (cases op) (simp_all add: inv_intros)
qed

text \<open>However a TPM is used after its banks are allocated over supported hashes, by commands,
  the hardware, the console or the state file, every bank keeps 24 registers, each of the
  size of its hash.\<close>

theorem pcr_banks_keep_shape:
  assumes "env_ok E" and "list_all (\<lambda>(a, _). is_supported E a) al" and "pcr_new E al = Inr p"
  shows "pcr_wf E (run_steps (pcr_step E) ops p)"
  using pcr_run.run_inv [of E p ops] pcr_wf_new [OF assms(2,3)] assms(1) by blast

theorem pcr_banks_keep_shape_witness:
  "\<exists>p. pcr_new (demo_env False) (whole_banks [alg_SHA256]) = Inr p
     \<and> pcr_wf (demo_env False) (run_steps (pcr_step (demo_env False)) [Drtm, Reset 16 0, Resume] p)"
proof -
  let ?E = "demo_env False"
  have ok: "allocate_loop ?E (whole_banks [alg_SHA256]) [] [] \<noteq> Inl e" for e
    by (simp add: whole_banks_def IMPLEMENTATION_PCR_def digest_size_def)
  then obtain p where p: "pcr_new ?E (whole_banks [alg_SHA256]) = Inr p"
    by (cases "allocate_loop ?E (whole_banks [alg_SHA256]) [] []")
       (auto simp: pcr_new_def allocate_def split: prod.splits)
  have "list_all (\<lambda>(a, _). is_supported ?E a) (whole_banks [alg_SHA256])"
    by (simp add: whole_banks_def is_supported_def hash_algorithm_def)
  from pcr_banks_keep_shape [OF env_ok_demo this p] p show ?thesis by blast
qed

section \<open>Extending\<close>

definition reg :: "pcr_banks \<Rightarrow> u16 \<Rightarrow> nat \<Rightarrow> bytes option" where
  "reg p a i = (case bt_get (banks p) a of None \<Rightarrow> None
     | Some bank \<Rightarrow> if i < length bank then Some (bank ! i) else None)"

text \<open>The digests of a list that are for bank \<open>a\<close>, hashed into a register one after another.\<close>

definition extended :: "env \<Rightarrow> u16 \<Rightarrow> (u16 \<times> bytes) list \<Rightarrow> bytes \<Rightarrow> bytes" where
  "extended E a ds v = foldl (\<lambda>v d. raw_digest E a (v @ d)) v (map snd (filter (\<lambda>(b, _). b = a) ds))"

lemma extended_Cons:
  "extended E b ((a, d) # ds) = (if b = a then extended E b ds \<circ> (\<lambda>v. raw_digest E a (v @ d)) else extended E b ds)"
  by (auto simp: fun_eq_iff extended_def)

lemma put_register_fields [simp]:
  "allocated (put_register a i v p) = allocated p"
  "update_counter (put_register a i v p) = update_counter p"
  "has_pcr b j (put_register a i v p) = has_pcr b j p"
  "has_bank b (put_register a i v p) = has_bank b p"
  by (auto simp: put_register_def has_pcr_def has_bank_def bt_contains_def split: option.splits)

lemma reg_put_register:
  assumes "reg p a i = Some u"
  shows "reg (put_register a i v p) b j = (if b = a \<and> j = i then Some v else reg p b j)"
  using assms by (auto simp: reg_def put_register_def split: option.splits if_splits)

lemma reg_of_has_pcr: "pcr_wf E p \<Longrightarrow> has_pcr a i p \<Longrightarrow> reg p a i = Some (the (bt_get (banks p) a) ! i)"
  by (auto elim!: has_pcr_bank simp: reg_def bank_wf_def)

lemma extend_digest_reg:
  assumes "pcr_wf E p" and "extend_digest E a i d p = (Inr u, q)"
  shows "allocated q = allocated p \<and> update_counter q = update_counter p \<and> (\<forall>b. has_bank b q = has_bank b p)
    \<and> (\<forall>b j. has_pcr b j q = has_pcr b j p)
    \<and> (\<forall>b j. reg q b j = (if b = a \<and> j = i \<and> has_pcr a i p
         then map_option (\<lambda>v. raw_digest E a (v @ d)) (reg p b j) else reg p b j))"
  using assms reg_of_has_pcr [OF assms(1), of a i]
  by (auto simp: extend_digest_cases reg_put_register split: if_splits)

lemma check_digests_cong:
  "(\<And>a. has_bank a p = has_bank a q) \<Longrightarrow> check_digests E p ds = check_digests E q ds"
  by (induction E p ds rule: check_digests.induct) (auto split: option.splits)

lemma extend_loop_effect:
  assumes "env_ok E" and "pcr_wf E p" and "check_digests E p ds = Inr ()"
  obtains q counted' where "extend_loop E i ds counted p = (Inr counted', q)"
    and "set counted' = set counted \<union> {a \<in> fst ` set ds. has_bank a p}"
    and "distinct counted \<Longrightarrow> distinct counted'"
    and "allocated q = allocated p" and "update_counter q = update_counter p"
    and "\<And>a j. reg q a j = (if j = i \<and> has_pcr a i p then map_option (extended E a ds) (reg p a j) else reg p a j)"
  using assms
proof (induction ds arbitrary: counted p thesis)
  case Nil
  show ?case by (rule Nil.prems(1)) (auto simp: extended_def map_option_case split: option.splits)
next
  case (Cons x ds)
  obtain a d where x: "x = (a, d)" by (cases x)
  show ?case
  proof (cases "has_bank a p")
    case False
    then have none: "reg p a j = None" for j by (simp add: has_bank_def bt_contains_def reg_def)
    from False Cons.prems(4) x have "check_digests E p ds = Inr ()" by simp
    from Cons.IH [OF _ Cons.prems(2,3) this, of counted] obtain q c' where
      q: "extend_loop E i ds counted p = (Inr c', q)"
        "set c' = set counted \<union> {a \<in> fst ` set ds. has_bank a p}"
        "distinct counted \<Longrightarrow> distinct c'" "allocated q = allocated p" "update_counter q = update_counter p"
        "\<And>a j. reg q a j = (if j = i \<and> has_pcr a i p then map_option (extended E a ds) (reg p a j) else reg p a j)"
      by blast
    show ?thesis
    proof (rule Cons.prems(1))
      show "extend_loop E i (x # ds) counted p = (Inr c', q)" using x False q(1) by simp
      show "set c' = set counted \<union> {b \<in> fst ` set (x # ds). has_bank b p}"
        using q(2) x False by auto
      show "reg q b j = (if j = i \<and> has_pcr b i p then map_option (extended E b (x # ds)) (reg p b j) else reg p b j)"
        for b j
        using q(6) [of b j] none x by (cases "b = a") (simp_all add: extended_Cons)
    qed (use q in auto)
  next
    case True
    have sz: "digest_size E a = Some (length d)" and chk: "check_digests E p ds = Inr ()"
      using True Cons.prems(4) x by (auto split: option.splits if_splits)
    obtain p1 where p1: "extend_digest E a i d p = (Inr (), p1)"
    proof -
      have "fst (extend_digest E a i d p) = Inr ()"
        using sz by (simp add: extend_digest_cases [OF Cons.prems(3)])
      then show thesis by (metis prod.collapse that)
    qed
    note eff = extend_digest_reg [OF Cons.prems(3) p1]
    have wf1: "pcr_wf E p1" using pcr_wf_extend_digest [OF Cons.prems(2,3), of a i d] p1 by simp
    have chk1: "check_digests E p1 ds = Inr ()" using chk check_digests_cong [of p1 p] eff by metis
    let ?c = "if a \<notin> set counted then counted @ [a] else counted"
    from Cons.IH [OF _ Cons.prems(2) wf1 chk1, of ?c] obtain q c' where
      q: "extend_loop E i ds ?c p1 = (Inr c', q)"
        "set c' = set ?c \<union> {a \<in> fst ` set ds. has_bank a p1}"
        "distinct ?c \<Longrightarrow> distinct c'" "allocated q = allocated p1" "update_counter q = update_counter p1"
        "\<And>a j. reg q a j = (if j = i \<and> has_pcr a i p1 then map_option (extended E a ds) (reg p1 a j) else reg p1 a j)"
      by blast
    show ?thesis
    proof (rule Cons.prems(1))
      show "extend_loop E i (x # ds) counted p = (Inr c', q)" using x True p1 q(1) by simp
      show "set c' = set counted \<union> {b \<in> fst ` set (x # ds). has_bank b p}"
        using q(2) x True eff by (auto split: if_splits)
      show "distinct c'" if "distinct counted" using q(3) that by simp
      show "allocated q = allocated p" "update_counter q = update_counter p" using q eff by simp_all
      show "reg q b j = (if j = i \<and> has_pcr b i p then map_option (extended E b (x # ds)) (reg p b j) else reg p b j)"
        for b j
        using q(6) [of b j] eff x by (cases "reg p b j") (auto simp: extended_Cons)
    qed
  qed
qed

lemma distinct_length_card: "distinct xs \<Longrightarrow> length xs = card (set xs)"
  by (simp add: distinct_card)

lemma pcr_in_bank: "pcr_wf E p \<Longrightarrow> has_pcr a i p \<Longrightarrow> has_bank a p"
  by (auto simp: has_pcr_def has_bank_def pcr_wf_def bt_contains_def split: option.splits)

lemma banks_with_and_without:
  assumes "pcr_wf E p"
  shows "card {a \<in> fst ` set ds. has_bank a p}
    = card {a \<in> fst ` set ds. has_pcr a i p} + card {a \<in> fst ` set ds. has_bank a p \<and> \<not> has_pcr a i p}"
proof -
  have "{a \<in> fst ` set ds. has_bank a p}
      = {a \<in> fst ` set ds. has_pcr a i p} \<union> {a \<in> fst ` set ds. has_bank a p \<and> \<not> has_pcr a i p}"
    using pcr_in_bank [OF assms] by blast
  then show ?thesis by (simp only:) (rule card_Un_disjoint, auto)
qed

text \<open>C32: \<open>TPM2_PCR_Extend\<close> is atomic and exact. A refused extend changes nothing. A successful one
  was allowed at its locality; in each bank that has the register allocated it hashes the digests
  given for that bank into it in order, and leaves every other register alone. The update counter stays
  for the registers 16 and 21 to 23; for the others it advances by one for each named bank whose
  register was extended, and, other than the comment in the code says, also by one for each named bank
  that exists without the register, in which nothing changes. Other named banks are passed over.\<close>

theorem pcr_extend_effect:
  assumes "env_ok E" and "pcr_wf E p"
  shows "case pcr_extend E i l ds p of
      (Inl e, q) \<Rightarrow> q = p
    | (Inr _, q) \<Rightarrow> is_implemented i \<and> locality_allows (extend_locality (attributes i)) l
        \<and> allocated q = allocated p
        \<and> (\<forall>a j. reg q a j = (if j = i \<and> has_pcr a i p then map_option (extended E a ds) (reg p a j)
                             else reg p a j))
        \<and> update_counter q = update_counter p
            + (if i \<in> {16, 21, 22, 23} then 0
               else of_nat (card {a \<in> fst ` set ds. has_pcr a i p}
                          + card {a \<in> fst ` set ds. has_bank a p \<and> \<not> has_pcr a i p}))"
proof (cases "is_implemented i \<and> locality_allows (extend_locality (attributes i)) l
    \<and> check_digests E p ds = Inr ()")
  case False
  then show ?thesis
    by (cases "check_digests E p ds") (auto simp: pcr_extend_def)
next
  case True
  then have "check_digests E p ds = Inr ()" by blast
  obtain q c' where
    q: "extend_loop E i ds [] p = (Inr c', q)" "set c' = {a \<in> fst ` set ds. has_bank a p}"
      "distinct c'" "allocated q = allocated p" "update_counter q = update_counter p"
      "\<And>a j. reg q a j = (if j = i \<and> has_pcr a i p then map_option (extended E a ds) (reg p a j) else reg p a j)"
    by (rule extend_loop_effect [OF assms \<open>check_digests E p ds = Inr ()\<close>, of i "[]"])
       (rule that, assumption, simp_all)
  have "length c' = card {a \<in> fst ` set ds. has_pcr a i p} + card {a \<in> fst ` set ds. has_bank a p \<and> \<not> has_pcr a i p}"
    using distinct_length_card [OF q(3)] q(2) banks_with_and_without [OF assms(2), of ds i] by simp
  moreover have "reg (count_change i n q) a j = reg q a j" for n a j
    by (simp add: count_change_def reg_def)
  ultimately show ?thesis
    using True q by (auto simp: pcr_extend_def count_change_def no_increment_def)
qed

definition demo_banks :: pcr_banks where
  "demo_banks = \<lparr>banks = [(alg_SHA256, replicate 24 (replicate 32 0))],
     allocated = [(alg_SHA256, replicate 24 True)], update_counter = 7\<rparr>"

lemma demo_banks_wf: "pcr_wf (demo_env s) demo_banks"
  by (auto simp: pcr_wf_def demo_banks_def bt_contains_def bt_wf_Cons bank_wf_def is_supported_def
      hash_algorithm_def IMPLEMENTATION_PCR_def list_all_iff digest_size_def)

definition uneven_banks :: pcr_banks where
  "uneven_banks = \<lparr>banks = [(alg_SHA256, replicate 24 (replicate 32 0)), (alg_SHA384, replicate 24 (replicate 48 0))],
     allocated = [(alg_SHA256, replicate 24 True), (alg_SHA384, replicate 24 False)], update_counter = 7\<rparr>"

lemma uneven_banks_wf: "pcr_wf (demo_env s) uneven_banks"
  by (auto simp: pcr_wf_def uneven_banks_def bt_contains_def bt_wf_Cons bank_wf_def is_supported_def
      hash_algorithm_def IMPLEMENTATION_PCR_def list_all_iff digest_size_def)

theorem pcr_extend_effect_witness:
  "\<exists>q. pcr_extend (demo_env True) 10 0 [(alg_SHA256, replicate 32 1), (alg_SHA384, replicate 48 2), (alg_SHA1, [])] uneven_banks = (Inr (), q)
     \<and> update_counter q = 9
     \<and> reg q alg_SHA384 10 = Some (replicate 48 0)
     \<and> reg q alg_SHA256 10 = Some (raw_digest (demo_env True) alg_SHA256 (replicate 32 0 @ replicate 32 1))"
proof -
  let ?E = "demo_env True" and ?ds = "[(alg_SHA256, replicate 32 (1 :: u8)), (alg_SHA384, replicate 48 2), (alg_SHA1, [])]"
  have chk: "check_digests ?E uneven_banks ?ds = Inr ()"
    by (simp add: has_bank_def bt_contains_def uneven_banks_def digest_size_def)
  obtain c q where "extend_loop ?E 10 ?ds [] uneven_banks = (Inr c, q)"
    by (rule extend_loop_effect [OF env_ok_demo uneven_banks_wf chk]) blast
  then have ok: "fst (pcr_extend ?E 10 0 ?ds uneven_banks) = Inr ()"
    using chk by (simp add: pcr_extend_def is_implemented_def IMPLEMENTATION_PCR_def locality_allows_def
        attributes_def ALL_LOCALITIES_def)
  then obtain q where q: "pcr_extend ?E 10 0 ?ds uneven_banks = (Inr (), q)"
    by (metis prod.collapse)
  have banks: "{a \<in> fst ` set ?ds. has_pcr a 10 uneven_banks} = {alg_SHA256}"
    "{a \<in> fst ` set ?ds. has_bank a uneven_banks \<and> \<not> has_pcr a 10 uneven_banks} = {alg_SHA384}"
    by (auto simp: has_bank_def has_pcr_def bt_contains_def uneven_banks_def)
  have "has_pcr alg_SHA256 10 uneven_banks" "\<not> has_pcr alg_SHA384 10 uneven_banks"
    "reg uneven_banks alg_SHA256 10 = Some (replicate 32 0)" "reg uneven_banks alg_SHA384 10 = Some (replicate 48 0)"
    by (simp_all add: has_pcr_def uneven_banks_def reg_def)
  with pcr_extend_effect [OF env_ok_demo uneven_banks_wf [of True], where i = 10 and l = 0 and ds = ?ds] q banks show ?thesis
    by (simp add: extended_def uneven_banks_def)
qed

section \<open>Selections\<close>

lemma hash_registers:
  "foldl (\<lambda>h i. if IMPLEMENTATION_PCR \<le> i then h else hasher_update (bank ! i) h) h xs
    = h\<lparr>h_data := h_data h @ concat (map (\<lambda>i. bank ! i) (filter (\<lambda>i. i < IMPLEMENTATION_PCR) xs))\<rparr>"
  by (induction xs arbitrary: h) (auto simp: hasher_update_def)

text \<open>The digest that quotes and PCR policies use is the hash of exactly the values
  \<open>TPM2_PCR_Read\<close> would give for the same selection, concatenated in the same order.\<close>

theorem selection_digest_is_hash_of_values:
  "selection_digest E a sels p = digest E a (concat (read_selection sels p))"
proof -
  let ?step = "\<lambda>h sel. case bt_get (banks p) (sel_alg sel) of None \<Rightarrow> h
     | Some bank \<Rightarrow> foldl (\<lambda>h i. if IMPLEMENTATION_PCR \<le> i then h else hasher_update (bank ! i) h)
                      h (selected (sel_bits sel))"
  have "foldl ?step h sels = h\<lparr>h_data := h_data h @ concat (read_selection sels p)\<rparr>" for h
    by (induction sels arbitrary: h) (auto simp: read_selection_def hash_registers split: option.splits)
  then show ?thesis
    by (cases "hash_algorithm E a")
       (simp_all add: selection_digest_def hasher_new_def hasher_finish_def digest_def)
qed

lemma fold_select:
  "(\<forall>i \<in> set xs. i < 8 * length bits) \<Longrightarrow>
     length (foldl (\<lambda>bits i. if P i then select i bits else bits) bits xs) = length bits
     \<and> (\<forall>j. is_selected j (foldl (\<lambda>bits i. if P i then select i bits else bits) bits xs)
          \<longleftrightarrow> is_selected j bits \<or> (j \<in> set xs \<and> P j))"
proof (induction xs arbitrary: bits)
  case (Cons i xs)
  then have "length (if P i then select i bits else bits) = length bits" by (auto intro: length_select)
  with Cons.IH [of "if P i then select i bits else bits"] Cons.prems show ?case by auto
qed simp

lemma selection_ext:
  assumes "length a = length b" and "\<And>i. is_selected i a = is_selected i b"
  shows "a = b"
proof (rule nth_equalityI)
  fix n assume n: "n < length a"
  show "a ! n = b ! n"
  proof (rule bit_eqI)
    fix k assume "possible_bit TYPE(8 word) k"
    then have k: "k < 8" by simp
    have "(8 * n + k) div 8 = n" "(8 * n + k) mod 8 = k" using k by simp_all
    with assms(2) [of "8 * n + k"] n assms(1) show "bit (a ! n) k = bit (b ! n) k"
      by (simp add: is_selected_bit)
  qed
qed (rule assms(1))

text \<open>What the filter leaves of one item.\<close>

definition filtered_item :: "pcr_banks \<Rightarrow> pcr_selection \<Rightarrow> pcr_selection \<Rightarrow> bool" where
  "filtered_item p sel f \<longleftrightarrow> sel_alg f = sel_alg sel
     \<and> length (sel_bits f) = max (length (sel_bits sel)) PCR_SELECT_MIN
     \<and> (\<forall>i. is_selected i (sel_bits f) \<longleftrightarrow> is_selected i (sel_bits sel)
          \<and> has_bank (sel_alg sel) p \<and> i < IMPLEMENTATION_PCR \<and> has_pcr (sel_alg sel) i p)"

lemma filter_item_exact: "filtered_item p sel (filter_item p sel)"
proof -
  let ?zeros = "replicate (max (length (sel_bits sel)) PCR_SELECT_MIN) (0 :: u8)"
  have "\<forall>i \<in> set (selected (sel_bits sel)). i < 8 * length ?zeros"
    using is_selected_range [of _ "sel_bits sel"] by fastforce
  note folded = fold_select [OF this, of "\<lambda>i. i < IMPLEMENTATION_PCR \<and> has_pcr (sel_alg sel) i p"]
  show ?thesis
  proof (cases "bt_contains (banks p) (sel_alg sel)")
    case True
    then show ?thesis
      using folded by (simp add: filter_item_def filtered_item_def Let_def has_bank_def)
  next
    case False
    then show ?thesis by (simp add: filter_item_def filtered_item_def Let_def has_bank_def)
  qed
qed

lemma filter_selection_items: "list_all2 (filtered_item p) sels (filter_selection sels p)"
  by (induction sels) (simp_all add: filter_selection_def filter_item_exact)

text \<open>\<open>TPM2_PCR_Read\<close> reports, item by item, exactly the selected registers that exist and
  are allocated, in bit maps of at least the smallest size; filtering twice is filtering once.\<close>

theorem filter_selection_exact:
  "list_all2 (filtered_item p) sels (filter_selection sels p)
   \<and> filter_selection (filter_selection sels p) p = filter_selection sels p"
proof
  show items: "list_all2 (filtered_item p) sels (filter_selection sels p)" for sels
    by (rule filter_selection_items)
  have same: "g = f" if "filtered_item p sel f" "filtered_item p f g" for sel f g
  proof -
    have "sel_bits g = sel_bits f"
      by (rule selection_ext) (use that in \<open>auto simp: filtered_item_def\<close>)
    with that show ?thesis by (simp add: filtered_item_def)
  qed
  have "gs = fs" if "list_all2 (filtered_item p) ss fs" "list_all2 (filtered_item p) fs gs" for ss fs gs
    using that
  proof (induction arbitrary: gs rule: list_all2_induct)
    case (Cons s ss f fs)
    then show ?case by (auto simp: list_all2_Cons1 intro: same)
  qed simp
  then show "filter_selection (filter_selection sels p) p = filter_selection sels p"
    using items by blast
qed

section \<open>The state file\<close>

lemma bt_update_same: "bt_wf m \<Longrightarrow> bt_get m k = Some v \<Longrightarrow> bt_update k v m = m"
  by (rule bt_ext) auto

lemma bt_update_twice: "bt_update k v (bt_update k u m) = bt_update k v m"
  by (simp add: bt_update_def comp_def case_prod_unfold)

definition bank_enc :: "u16 \<times> bytes list \<Rightarrow> bytes" where
  "bank_enc ab = to_be 2 (fst ab) @ to_be 4 (of_nat (length (snd ab)) :: u32)
     @ concat (map enc_sized16 (snd ab))"

definition values_enc :: "pcr_banks \<Rightarrow> bytes" where
  "values_enc p = to_be 4 (of_nat (length (banks p)) :: u32) @ concat (map bank_enc (banks p))"

lemma fold_sized16:
  "(\<forall>v \<in> set vs. length v < 2 ^ 16) \<Longrightarrow>
     foldl (\<lambda>w v. sized16 v w) w vs = emit (concat (map enc_sized16 vs)) w"
  by (induction vs arbitrary: w) (simp_all add: sized16_emit)

lemma bank_wf_lengths: "bank_wf E a bank \<Longrightarrow> v \<in> set bank \<Longrightarrow> length v < 2 ^ 16"
  by (fastforce simp: bank_wf_def list_all_iff dest: digest_size_bounds)

lemma put_bank_emit: "bank_wf E a bank \<Longrightarrow> put_bank (a, bank) w = emit (bank_enc (a, bank)) w"
  using bank_wf_lengths [of E a bank] by (simp add: put_bank_def bank_enc_def fold_sized16 writes_emit)

lemma marshal_values_emit:
  assumes "pcr_wf E p"
  shows "marshal_values p w = emit (values_enc p) w"
proof -
  have wf: "bank_wf E a bank" if "(a, bank) \<in> set (banks p)" for a bank
  proof -
    have "bt_get (banks p) a = Some bank"
      by (rule bt_wf_get) (use assms that in \<open>simp_all add: pcr_wf_def\<close>)
    then show ?thesis by (rule pcr_wf_bank [OF assms])
  qed
  have "foldl (\<lambda>w ab. put_bank ab w) w bs = emit (concat (map bank_enc bs)) w"
    if "set bs \<subseteq> set (banks p)" for bs w
    using that
  proof (induction bs arbitrary: w)
    case (Cons ab bs)
    then have "put_bank ab w = emit (bank_enc ab) w"
      using wf [of "fst ab" "snd ab"] by (cases ab) (auto intro: put_bank_emit)
    with Cons show ?case by simp
  qed simp
  then show ?thesis by (simp add: marshal_values_def values_enc_def writes_emit)
qed

lemma unmarshal_registers_eq:
  assumes "bt_wf (banks q)" and "bt_get (banks q) a = Some bank" and "length bank = k + length vs"
    and "\<forall>j < length vs. length (bank ! (k + j)) = length (vs ! j)"
    and "\<forall>v \<in> set vs. length v < 2 ^ 16" and "rest r = concat (map enc_sized16 vs) @ t"
  shows "unmarshal_registers a k (length vs) r q
    = (Inr (advance (length (concat (map enc_sized16 vs))) r),
       q\<lparr>banks := bt_update a (take k bank @ vs) (banks q)\<rparr>)"
  using assms
proof (induction vs arbitrary: k bank r q)
  case Nil
  then show ?case by (simp add: bt_update_same)
next
  case (Cons v vs)
  have r16: "r_u16 r = Inr (of_nat (length v), advance 2 r)"
    using Cons.prems(6) by (simp add: enc_sized16_def r_u16_append)
  have tk: "r_take (length v) (advance 2 r) = Inr (v, advance (length v) (advance 2 r))"
    by (rule r_take_append [where t = "concat (map enc_sized16 vs) @ t"])
       (use Cons.prems(6) in \<open>simp_all add: enc_sized16_def [of v]\<close>)
  have sz: "unat (of_nat (length v) :: u16) = length v"
    using Cons.prems(5) by (intro unat_of_nat_u16) simp
  have k: "k < length bank" and len: "length (bank ! k) = length v"
    using Cons.prems(3,4) by force+
  let ?bank = "bank[k := v]"
  let ?q = "q\<lparr>banks := bt_update a ?bank (banks q)\<rparr>"
  have restored: "restore_register a k v q = ?q"
    using Cons.prems(2) k len by (simp add: restore_register_def)
  have tail: "take (Suc k) ?bank = take k bank @ [v]"
    using k by (simp add: take_Suc_conv_app_nth)
  have "\<forall>j < length vs. length (?bank ! (Suc k + j)) = length (vs ! j)"
  proof (intro allI impI)
    fix j assume "j < length vs"
    then show "length (?bank ! (Suc k + j)) = length (vs ! j)"
      using Cons.prems(4) [rule_format, of "Suc j"] by simp
  qed
  then have "unmarshal_registers a (Suc k) (length vs) (advance (length v) (advance 2 r)) ?q
      = (Inr (advance (length (concat (map enc_sized16 vs))) (advance (length v) (advance 2 r))),
         ?q\<lparr>banks := bt_update a (take (Suc k) ?bank @ vs) (banks ?q)\<rparr>)"
    using Cons.prems by (intro Cons.IH) (simp_all add: enc_sized16_def)
  then show ?case
    by (simp add: r16 tk sz restored tail bt_update_twice) (simp add: enc_sized16_def ac_simps)
qed

text \<open>The two states hold banks for the same algorithms.\<close>

definition same_banks :: "pcr_banks \<Rightarrow> pcr_banks \<Rightarrow> bool" where
  "same_banks p q \<longleftrightarrow> bt_keys (banks p) = bt_keys (banks q)"

lemma unmarshal_banks_eq:
  assumes "pcr_wf E q" and "\<forall>(a, bank) \<in> set bs. bank_wf E a bank \<and> bt_contains (banks q) a"
    and "rest r = concat (map bank_enc bs) @ t"
  shows "unmarshal_banks (length bs) r q
    = (Inr (advance (length (concat (map bank_enc bs))) r),
       q\<lparr>banks := foldl (\<lambda>m (a, bank). bt_update a bank m) (banks q) bs\<rparr>)"
  using assms
proof (induction bs arbitrary: q r)
  case (Cons ab bs)
  obtain a vs where ab: "ab = (a, vs)" by (cases ab)
  have wf: "bank_wf E a vs" using Cons.prems(2) ab by simp
  obtain bank where bank: "bt_get (banks q) a = Some bank"
    using Cons.prems(2) ab by (auto simp: bt_contains_def)
  have bwf: "bank_wf E a bank" by (rule pcr_wf_bank [OF Cons.prems(1) bank])
  have n: "length vs = 24" using wf by (simp add: bank_wf_def IMPLEMENTATION_PCR_def)
  then have cnt: "unat (of_nat (length vs) :: u32) = length vs" by simp
  let ?r = "advance 4 (advance 2 r)"
  have regs: "unmarshal_registers a 0 (length vs) ?r q
      = (Inr (advance (length (concat (map enc_sized16 vs))) ?r),
         q\<lparr>banks := bt_update a (take 0 bank @ vs) (banks q)\<rparr>)"
  proof (rule unmarshal_registers_eq [where t = "concat (map bank_enc bs) @ t"])
    show "bt_wf (banks q)" using Cons.prems(1) by (simp add: pcr_wf_def)
    show "\<forall>j<length vs. length (bank ! (0 + j)) = length (vs ! j)"
      using wf bwf by (auto simp: bank_wf_def list_all_length)
  qed (use bank bwf wf bank_wf_lengths [OF wf] Cons.prems(3) ab in
        \<open>auto simp: bank_wf_def bank_enc_def [of "(a, vs)"]\<close>)
  let ?q = "q\<lparr>banks := bt_update a vs (banks q)\<rparr>"
  have "pcr_wf E ?q"
    using Cons.prems(1) wf by (auto simp: pcr_wf_def bt_contains_def)
  moreover have "\<forall>(b, bank) \<in> set bs. bank_wf E b bank \<and> bt_contains (banks ?q) b"
    using Cons.prems(2) by (auto simp: bt_contains_def)
  moreover have "rest (advance (length (concat (map enc_sized16 vs))) ?r) = concat (map bank_enc bs) @ t"
    using Cons.prems(3) ab by (simp add: bank_enc_def [of "(a, vs)"])
  ultimately have "unmarshal_banks (length bs) (advance (length (concat (map enc_sized16 vs))) ?r) ?q
      = (Inr (advance (length (concat (map bank_enc bs))) (advance (length (concat (map enc_sized16 vs))) ?r)),
         ?q\<lparr>banks := foldl (\<lambda>m (a, bank). bt_update a bank m) (banks ?q) bs\<rparr>)"
    by (rule Cons.IH)
  moreover have "r_u16 r = Inr (a, advance 2 r)" and "r_u32 (advance 2 r) = Inr (of_nat (length vs), ?r)"
    using Cons.prems(3) ab by (simp_all add: bank_enc_def [of "(a, vs)"] r_u16_append r_u32_append)
  ultimately show ?case
    using regs cnt ab by (simp add: bank_enc_def [of "(a, vs)"] ac_simps)
qed simp

lemma bt_get_fold_update:
  assumes "distinct (map fst bs)"
  shows "bt_get (foldl (\<lambda>m (a, bank). bt_update a bank m) m bs) k
    = (case bt_get m k of None \<Rightarrow> None
       | Some v \<Rightarrow> (case bt_get bs k of None \<Rightarrow> Some v | Some u \<Rightarrow> Some u))"
  using assms
proof (induction bs arbitrary: m)
  case (Cons ab bs)
  obtain a v where ab: "ab = (a, v)" by (cases ab)
  have "bt_get bs a = None" using Cons.prems ab by (auto simp: bt_get_None_iff)
  with Cons ab show ?case by (auto split: option.splits)
qed (simp split: option.splits)

lemma bt_wf_fold_update: "bt_wf (foldl (\<lambda>m (a, bank). bt_update a bank m) m bs) = bt_wf m"
  by (induction bs arbitrary: m) (auto split: prod.splits)

lemma supported_algorithms:
  "is_supported E a \<Longrightarrow>
     a \<in> {alg_SHA1, alg_SHA256, alg_SHA384, alg_SHA512, alg_SHA3_256, alg_SHA3_384, alg_SHA3_512}"
  by (auto simp: is_supported_def is_ok_iff hash_algorithm_def split: if_splits)

lemma pcr_wf_few_banks:
  assumes "pcr_wf E p"
  shows "length (banks p) < 8"
proof -
  let ?A = "{alg_SHA1, alg_SHA256, alg_SHA384, alg_SHA512, alg_SHA3_256, alg_SHA3_384, alg_SHA3_512}"
  have "set (bt_keys (banks p)) \<subseteq> ?A"
    using assms supported_algorithms by (fastforce simp: pcr_wf_def bank_wf_def)
  then have "card (set (bt_keys (banks p))) \<le> card ?A" by (intro card_mono) simp_all
  moreover have "distinct (bt_keys (banks p))" using assms by (simp add: bt.keys_distinct pcr_wf_def)
  ultimately have "length (bt_keys (banks p)) \<le> card ?A" by (simp only: distinct_card)
  then show ?thesis by (simp add: bt_keys_def)
qed

lemma unmarshal_values_exact:
  assumes "pcr_wf E p" and "pcr_wf E q" and "same_banks p q" and "rest r = values_enc p @ t"
  shows "unmarshal_values r q = (Inr (advance (length (values_enc p)) r), q\<lparr>banks := banks p\<rparr>)"
proof -
  have wfp: "bt_wf (banks p)" and wfq: "bt_wf (banks q)" using assms by (simp_all add: pcr_wf_def)
  have keys: "bt_get (banks p) k = None \<longleftrightarrow> bt_get (banks q) k = None" for k
  proof -
    have "bt_contains (banks p) k = bt_contains (banks q) k"
      using assms(3) by (simp only: same_banks_def bt_contains_iff)
    then show ?thesis by (auto simp: bt_contains_def)
  qed
  have good: "\<forall>(a, bank) \<in> set (banks p). bank_wf E a bank \<and> bt_contains (banks q) a"
  proof safe
    fix a bank assume "(a, bank) \<in> set (banks p)"
    then have get: "bt_get (banks p) a = Some bank" by (rule bt_wf_get [OF wfp])
    then show "bank_wf E a bank" by (rule pcr_wf_bank [OF assms(1)])
    show "bt_contains (banks q) a" using get keys [of a] by (simp add: bt_contains_def)
  qed
  have merged: "foldl (\<lambda>m (a, bank). bt_update a bank m) (banks q) (banks p) = banks p"
  proof (rule bt_ext)
    fix k
    show "bt_get (foldl (\<lambda>m (a, bank). bt_update a bank m) (banks q) (banks p)) k = bt_get (banks p) k"
      using keys [of k] by (auto simp: bt_get_fold_update [OF bt_wf_distinct [OF wfp]] split: option.splits)
  qed (simp_all only: bt_wf_fold_update wfp wfq)
  have r: "rest r = to_be 4 (of_nat (length (banks p)) :: u32) @ concat (map bank_enc (banks p)) @ t"
    using assms(4) by (simp add: values_enc_def)
  have "unat (of_nat (length (banks p)) :: u32) = length (banks p)"
    using pcr_wf_few_banks [OF assms(1)] by (intro unat_of_nat_u32) simp
  then show ?thesis
    using unmarshal_banks_eq [OF assms(2) good, of "advance 4 r" t] r merged
    by (simp add: unmarshal_values_def r_u32_append values_enc_def)
qed

text \<open>The registers written to the state file come back. Loading what \<open>marshal_values\<close> wrote,
  in banks allocated for the same algorithms, restores every register, touches nothing else,
  and leaves the reader behind the values.\<close>

theorem pcr_values_roundtrip:
  assumes "pcr_wf E p" and "pcr_wf E q" and "same_banks p q"
    and "rest r = to_bytes marshal_values p @ t"
  shows "\<exists>r'. unmarshal_values r q = (Inr r', q\<lparr>banks := banks p\<rparr>) \<and> rest r' = t"
proof -
  have r: "rest r = values_enc p @ t"
    using assms(4) by (simp add: to_bytes_def marshal_values_emit [OF assms(1)] writer_new_def)
  then show ?thesis by (simp add: unmarshal_values_exact [OF assms(1-3) r])
qed

theorem pcr_values_roundtrip_witness:
  "\<exists>r'. unmarshal_values (reader_new (to_bytes marshal_values demo_banks @ [9])) (demo_banks\<lparr>update_counter := 1\<rparr>)
     = (Inr r', demo_banks\<lparr>update_counter := 1\<rparr>) \<and> rest r' = [9]"
  using pcr_values_roundtrip [OF demo_banks_wf, of True "demo_banks\<lparr>update_counter := 1\<rparr>"
      "reader_new (to_bytes marshal_values demo_banks @ [9])" "[9]"] demo_banks_wf [of True]
  by (simp add: same_banks_def)

end
