(* ===== verification/NvStruct.thy ===== *)
theory NvStruct
  imports Base
begin

text \<open>
  The structures of NV indices (\<open>src/tpm/structures/nv.rs\<close>) and the Names built from public
  areas (\<open>src/tpm/core/names.rs\<close>; the Name of an object is left to the object layer).
\<close>

definition MAX_NV_INDEX_SIZE :: nat where "MAX_NV_INDEX_SIZE = 8500"

section \<open>TPMA_NV_EXP\<close>

definition EXTERNAL_NV_ENCRYPTION :: u64 where "EXTERNAL_NV_ENCRYPTION = push_bit 32 1"
definition EXTERNAL_NV_INTEGRITY :: u64 where "EXTERNAL_NV_INTEGRITY = push_bit 33 1"
definition EXTERNAL_NV_ANTIROLLBACK :: u64 where "EXTERNAL_NV_ANTIROLLBACK = push_bit 34 1"
definition NV_EXP_RESERVED :: u64 where "NV_EXP_RESERVED = 0xFFFFFFF800000000"

definition exp_base :: "u64 \<Rightarrow> u32" where
  "exp_base v = ucast v"

definition exp_check_reserved :: "u64 \<Rightarrow> unit tpm_result" where
  "exp_check_reserved v =
     (if v AND NV_EXP_RESERVED \<noteq> 0 then Inl rc_RESERVED_BITS
      else check_reserved nv_reserved (exp_base v))"

definition exp_attr_get :: "reader \<Rightarrow> (u64 \<times> reader) tpm_result" where
  "exp_attr_get r =
     res_bind (r_u64 r) (\<lambda>(v, r). res_bind (exp_check_reserved v) (\<lambda>_. Inr (v, r)))"

section \<open>Public areas\<close>

record nv_public =
  np_index :: u32
  np_name_alg :: u16
  np_attributes :: u32
  np_policy :: bytes
  np_size :: u16

definition nv_public_put :: "nv_public \<Rightarrow> writer \<Rightarrow> writer" where
  "nv_public_put p w =
     w_u16 (np_size p) (tpm2b_put (np_policy p) (w_u32 (np_attributes p)
       (w_u16 (np_name_alg p) (w_u32 (np_index p) w))))"

definition nv_public_get :: "env \<Rightarrow> reader \<Rightarrow> (nv_public \<times> reader) tpm_result" where
  "nv_public_get E r =
     res_bind (r_u32 r) (\<lambda>(i, r). res_bind (r_u16 r) (\<lambda>(a, r).
       if digest_size E a = None then Inl rc_HASH
       else res_bind (unmarshal_attr nv_reserved r_u32 r) (\<lambda>(attrs, r).
         res_bind (tpm2b_get MAX_DIGEST_SIZE r) (\<lambda>(policy, r).
         res_bind (r_u16 r) (\<lambda>(sz, r).
           if MAX_NV_INDEX_SIZE < unat sz then Inl rc_SIZE
           else Inr (\<lparr>np_index = i, np_name_alg = a, np_attributes = attrs, np_policy = policy,
                     np_size = sz\<rparr>, r))))))"

definition tpm2b_nv_public_put :: "nv_public \<Rightarrow> writer \<Rightarrow> writer" where
  "tpm2b_nv_public_put p = sized16_with (nv_public_put p)"

definition tpm2b_nv_public_get :: "env \<Rightarrow> reader \<Rightarrow> (nv_public \<times> reader) tpm_result" where
  "tpm2b_nv_public_get E = unmarshal_sized (nv_public_get E)"

record nv_public_exp =
  ne_index :: u32
  ne_name_alg :: u16
  ne_attributes :: u64
  ne_policy :: bytes
  ne_size :: u16

definition nv_public_exp_put :: "nv_public_exp \<Rightarrow> writer \<Rightarrow> writer" where
  "nv_public_exp_put p w =
     w_u16 (ne_size p) (tpm2b_put (ne_policy p) (w_u64 (ne_attributes p)
       (w_u16 (ne_name_alg p) (w_u32 (ne_index p) w))))"

definition nv_public_exp_get :: "env \<Rightarrow> reader \<Rightarrow> (nv_public_exp \<times> reader) tpm_result" where
  "nv_public_exp_get E r =
     res_bind (r_u32 r) (\<lambda>(i, r). res_bind (r_u16 r) (\<lambda>(a, r).
       if digest_size E a = None then Inl rc_HASH
       else res_bind (exp_attr_get r) (\<lambda>(attrs, r).
         res_bind (tpm2b_get MAX_DIGEST_SIZE r) (\<lambda>(policy, r).
         res_bind (r_u16 r) (\<lambda>(sz, r).
           if MAX_NV_INDEX_SIZE < unat sz then Inl rc_SIZE
           else Inr (\<lparr>ne_index = i, ne_name_alg = a, ne_attributes = attrs, ne_policy = policy,
                     ne_size = sz\<rparr>, r))))))"

datatype nv_public2 =
    NV_Index nv_public
  | NV_External nv_public_exp
  | NV_Permanent nv_public

definition ht_NV_INDEX :: u8 where "ht_NV_INDEX = 0x01"
definition ht_EXTERNAL_NV :: u8 where "ht_EXTERNAL_NV = 0x11"
definition ht_PERMANENT_NV :: u8 where "ht_PERMANENT_NV = 0x12"

definition nv2_handle_type :: "nv_public2 \<Rightarrow> u8" where
  "nv2_handle_type p =
     (case p of NV_Index _ \<Rightarrow> ht_NV_INDEX | NV_External _ \<Rightarrow> ht_EXTERNAL_NV
      | NV_Permanent _ \<Rightarrow> ht_PERMANENT_NV)"

definition nv_public2_put :: "nv_public2 \<Rightarrow> writer \<Rightarrow> writer" where
  "nv_public2_put p w =
     (let w = w_u8 (nv2_handle_type p) w
      in case p of NV_Index q \<Rightarrow> nv_public_put q w | NV_Permanent q \<Rightarrow> nv_public_put q w
         | NV_External q \<Rightarrow> nv_public_exp_put q w)"

definition nv2_inner_index :: "nv_public2 \<Rightarrow> u32" where
  "nv2_inner_index p =
     (case p of NV_Index q \<Rightarrow> np_index q | NV_Permanent q \<Rightarrow> np_index q | NV_External q \<Rightarrow> ne_index q)"

definition nv_public2_get :: "env \<Rightarrow> reader \<Rightarrow> (nv_public2 \<times> reader) tpm_result" where
  "nv_public2_get E r =
     res_bind (r_u8 r) (\<lambda>(handle_type, r).
     res_bind
       (if handle_type = ht_NV_INDEX then
          res_bind (nv_public_get E r) (\<lambda>(q, r). Inr (NV_Index q, r))
        else if handle_type = ht_EXTERNAL_NV then
          res_bind (nv_public_exp_get E r) (\<lambda>(q, r). Inr (NV_External q, r))
        else if handle_type = ht_PERMANENT_NV then
          res_bind (nv_public_get E r) (\<lambda>(q, r). Inr (NV_Permanent q, r))
        else Inl rc_SELECTOR) (\<lambda>(p, r).
       if ucast (drop_bit 24 (nv2_inner_index p)) \<noteq> handle_type then Inl rc_VALUE
       else Inr (p, r)))"

record pin_counters =
  pin_count :: u32
  pin_limit :: u32

definition pin_put :: "pin_counters \<Rightarrow> writer \<Rightarrow> writer" where
  "pin_put p w = w_u32 (pin_limit p) (w_u32 (pin_count p) w)"

definition pin_get :: "reader \<Rightarrow> (pin_counters \<times> reader) tpm_result" where
  "pin_get r =
     res_bind (r_u32 r) (\<lambda>(c, r). res_bind (r_u32 r) (\<lambda>(l, r).
       Inr (\<lparr>pin_count = c, pin_limit = l\<rparr>, r)))"

section \<open>Names\<close>

definition nv_name :: "env \<Rightarrow> nv_public \<Rightarrow> bytes tpm_result" where
  "nv_name E p =
     res_bind (digest E (np_name_alg p) (to_bytes nv_public_put p)) (\<lambda>d.
       Inr (to_be 2 (np_name_alg p) @ d))"

definition handle_name :: "u32 \<Rightarrow> bytes" where
  "handle_name h = to_be 4 h"

definition name_is_handle :: "u32 \<Rightarrow> bool" where
  "name_is_handle h = (let range = drop_bit 24 h
     in range = 0x00 \<or> range = 0x40 \<or> range = 0x02 \<or> range = 0x03)"

definition qualified_name :: "env \<Rightarrow> u16 \<Rightarrow> bytes \<Rightarrow> bytes \<Rightarrow> bytes tpm_result" where
  "qualified_name E a parent child =
     (if a = alg_NULL then Inr []
      else res_bind (digest_parts E a [parent, child]) (\<lambda>d. Inr (to_be 2 a @ d)))"

definition is_well_formed :: "env \<Rightarrow> bytes \<Rightarrow> bool" where
  "is_well_formed E name =
     (if name = [] \<or> length name = 4 then True
      else if length name < 2 then False
      else case digest_size E (from_be [name ! 0, name ! 1]) of
          Some n \<Rightarrow> length name = 2 + n
        | None \<Rightarrow> False)"

definition to_tpm2b :: "bytes \<Rightarrow> bytes tpm_result" where
  "to_tpm2b name = map_err (\<lambda>_. rc_SIZE) (tpm2b_new SIZEOF_TPMT_HA name)"

section \<open>The contracts\<close>

interpretation nv_attr: codec "unmarshal_attr nv_reserved r_u32" w_u32 "to_be 4" "\<lambda>v. v AND nv_reserved = 0"
  by (rule unmarshal_attr_codec [OF u32.codec_axioms])

interpretation exp_attr: codec exp_attr_get w_u64 "to_be 8" "\<lambda>v. exp_check_reserved v = Inr ()"
  by unfold_locales
     (auto simp: exp_attr_get_def res_bind_eq_Inr writes_emit r_u64_append dest: reads_consume)

interpretation policy_buf: codec "tpm2b_get MAX_DIGEST_SIZE" tpm2b_put enc_sized16 "\<lambda>b. length b \<le> MAX_DIGEST_SIZE"
  by (rule tpm2b_codec) (simp add: MAX_DIGEST_SIZE_def)

interpretation pin: codec pin_get pin_put "\<lambda>p. to_be 4 (pin_count p) @ to_be 4 (pin_limit p)" "\<lambda>_. True \<and> True"
  unfolding pin_get_def [abs_def] pin_put_def [abs_def]
  by (rule codec_pair [OF u32.codec_axioms u32.codec_axioms]) simp

definition nv_public_enc :: "nv_public \<Rightarrow> bytes" where
  "nv_public_enc p = to_be 4 (np_index p) @ to_be 2 (np_name_alg p) @ to_be 4 (np_attributes p)
     @ enc_sized16 (np_policy p) @ to_be 2 (np_size p)"

definition nv_public_ok :: "env \<Rightarrow> nv_public \<Rightarrow> bool" where
  "nv_public_ok E p \<longleftrightarrow> digest_size E (np_name_alg p) \<noteq> None \<and> np_attributes p AND nv_reserved = 0
     \<and> length (np_policy p) \<le> MAX_DIGEST_SIZE \<and> unat (np_size p) \<le> MAX_NV_INDEX_SIZE"

interpretation nv_public: codec "nv_public_get E" nv_public_put nv_public_enc "nv_public_ok E"
proof
  show "consumes r r'" if "nv_public_get E r = Inr (x, r')" for r x r'
    using that
    by (auto simp: nv_public_get_def res_bind_eq_Inr split: if_splits
        dest!: reads_consume nv_attr.get_consumes policy_buf.get_consumes) (blast intro: consumes_trans)
  show "nv_public_put p w = emit (nv_public_enc p) w" if "nv_public_ok E p" for p w
    using that by (simp add: nv_public_put_def nv_public_enc_def nv_public_ok_def policy_buf.put_enc writes_emit)
  show "nv_public_get E r = Inr (p, advance (length (nv_public_enc p)) r)"
    if "nv_public_ok E p" "rest r = nv_public_enc p @ t" for p r t
    using that
    by (simp add: nv_public_get_def nv_public_enc_def nv_public_ok_def r_u32_append r_u16_append
        nv_attr.get_enc [where x = "np_attributes p" and t = "enc_sized16 (np_policy p) @ to_be 2 (np_size p) @ t"]
        policy_buf.get_enc [where x = "np_policy p" and t = "to_be 2 (np_size p) @ t"] add.assoc add.commute add.left_commute)
qed

definition nv_public_exp_enc :: "nv_public_exp \<Rightarrow> bytes" where
  "nv_public_exp_enc p = to_be 4 (ne_index p) @ to_be 2 (ne_name_alg p) @ to_be 8 (ne_attributes p)
     @ enc_sized16 (ne_policy p) @ to_be 2 (ne_size p)"

definition nv_public_exp_ok :: "env \<Rightarrow> nv_public_exp \<Rightarrow> bool" where
  "nv_public_exp_ok E p \<longleftrightarrow> digest_size E (ne_name_alg p) \<noteq> None \<and> exp_check_reserved (ne_attributes p) = Inr ()
     \<and> length (ne_policy p) \<le> MAX_DIGEST_SIZE \<and> unat (ne_size p) \<le> MAX_NV_INDEX_SIZE"

interpretation nv_public_exp: codec "nv_public_exp_get E" nv_public_exp_put nv_public_exp_enc "nv_public_exp_ok E"
proof
  show "consumes r r'" if "nv_public_exp_get E r = Inr (x, r')" for r x r'
    using that
    by (auto simp: nv_public_exp_get_def res_bind_eq_Inr split: if_splits
        dest!: reads_consume exp_attr.get_consumes policy_buf.get_consumes) (blast intro: consumes_trans)
  show "nv_public_exp_put p w = emit (nv_public_exp_enc p) w" if "nv_public_exp_ok E p" for p w
    using that by (simp add: nv_public_exp_put_def nv_public_exp_enc_def nv_public_exp_ok_def policy_buf.put_enc writes_emit)
  show "nv_public_exp_get E r = Inr (p, advance (length (nv_public_exp_enc p)) r)"
    if "nv_public_exp_ok E p" "rest r = nv_public_exp_enc p @ t" for p r t
    using that
    by (simp add: nv_public_exp_get_def nv_public_exp_enc_def nv_public_exp_ok_def r_u32_append r_u16_append
        exp_attr.get_enc [where x = "ne_attributes p" and t = "enc_sized16 (ne_policy p) @ to_be 2 (ne_size p) @ t"]
        policy_buf.get_enc [where x = "ne_policy p" and t = "to_be 2 (ne_size p) @ t"] add.assoc add.commute add.left_commute)
qed

definition nv_public2_enc :: "nv_public2 \<Rightarrow> bytes" where
  "nv_public2_enc p = nv2_handle_type p #
     (case p of NV_Index q \<Rightarrow> nv_public_enc q | NV_Permanent q \<Rightarrow> nv_public_enc q
      | NV_External q \<Rightarrow> nv_public_exp_enc q)"

definition nv_public2_ok :: "env \<Rightarrow> nv_public2 \<Rightarrow> bool" where
  "nv_public2_ok E p \<longleftrightarrow> ucast (drop_bit 24 (nv2_inner_index p)) = nv2_handle_type p
     \<and> (case p of NV_Index q \<Rightarrow> nv_public_ok E q | NV_Permanent q \<Rightarrow> nv_public_ok E q
        | NV_External q \<Rightarrow> nv_public_exp_ok E q)"

lemmas handle_types = ht_NV_INDEX_def ht_EXTERNAL_NV_def ht_PERMANENT_NV_def

interpretation nv_public2: codec "nv_public2_get E" nv_public2_put nv_public2_enc "nv_public2_ok E"
proof
  show "consumes r r'" if "nv_public2_get E r = Inr (x, r')" for r x r'
    using that
    by (auto simp: nv_public2_get_def res_bind_eq_Inr split: if_splits
        dest!: reads_consume nv_public.get_consumes nv_public_exp.get_consumes) (blast intro: consumes_trans)+
  show "nv_public2_put p w = emit (nv_public2_enc p) w" if "nv_public2_ok E p" for p w
    using that
    by (cases p) (auto simp: nv_public2_put_def nv_public2_enc_def nv_public2_ok_def writes_emit
        nv_public.put_enc nv_public_exp.put_enc Let_def)
  show "nv_public2_get E r = Inr (p, advance (length (nv_public2_enc p)) r)"
    if ok: "nv_public2_ok E p" and r: "rest r = nv_public2_enc p @ t" for p r t
  proof -
    have ht: "r_u8 r = Inr (nv2_handle_type p, advance 1 r)"
      using r by (simp add: nv_public2_enc_def r_u8_append)
    show ?thesis
    proof (cases p)
      case (NV_Index q)
      then have "nv_public_get E (advance 1 r) = Inr (q, advance (length (nv_public_enc q)) (advance 1 r))"
        using ok r by (intro nv_public.get_enc [where t = t]) (simp_all add: nv_public2_ok_def nv_public2_enc_def)
      with NV_Index ht ok show ?thesis
        by (simp add: nv_public2_get_def nv2_handle_type_def nv_public2_ok_def nv_public2_enc_def)
    next
      case (NV_External q)
      then have "nv_public_exp_get E (advance 1 r) = Inr (q, advance (length (nv_public_exp_enc q)) (advance 1 r))"
        using ok r by (intro nv_public_exp.get_enc [where t = t]) (simp_all add: nv_public2_ok_def nv_public2_enc_def)
      with NV_External ht ok show ?thesis
        by (simp add: nv_public2_get_def nv2_handle_type_def nv_public2_ok_def nv_public2_enc_def handle_types)
    next
      case (NV_Permanent q)
      then have "nv_public_get E (advance 1 r) = Inr (q, advance (length (nv_public_enc q)) (advance 1 r))"
        using ok r by (intro nv_public.get_enc [where t = t]) (simp_all add: nv_public2_ok_def nv_public2_enc_def)
      with NV_Permanent ht ok show ?thesis
        by (simp add: nv_public2_get_def nv2_handle_type_def nv_public2_ok_def nv_public2_enc_def handle_types)
    qed
  qed
qed

interpretation tpm2b_nv_public: codec "tpm2b_nv_public_get E" tpm2b_nv_public_put
    "\<lambda>p. enc_sized16 (nv_public_enc p)" "\<lambda>p. nv_public_ok E p \<and> length (nv_public_enc p) < 2 ^ 16"
  unfolding tpm2b_nv_public_get_def tpm2b_nv_public_put_def [abs_def]
  by (rule nv_public.sized_codec)

lemma length_nv_public_enc: "nv_public_ok E p \<Longrightarrow> length (nv_public_enc p) \<le> 78"
  by (simp add: nv_public_ok_def nv_public_enc_def enc_sized16_def MAX_DIGEST_SIZE_def)

text \<open>The public area of an NV index, bare, in its TPM2B or in the tagged form with its three
  variants, survives marshalling and unmarshalling; a tagged form whose handle type disagrees
  with the index inside it is never accepted.\<close>

theorem nv_public_roundtrip:
  assumes "nv_public_ok E p" and "nv_public2_ok E q"
  shows "from_bytes (nv_public_get E) (to_bytes nv_public_put p) = Inr p
    \<and> from_bytes (tpm2b_nv_public_get E) (to_bytes tpm2b_nv_public_put p) = Inr p
    \<and> from_bytes (nv_public2_get E) (to_bytes nv_public2_put q) = Inr q
    \<and> (\<forall>b v. from_bytes (nv_public2_get E) b \<noteq> Inr v
          \<or> ucast (drop_bit 24 (nv2_inner_index v)) = b ! 0)"
proof -
  have "ucast (drop_bit 24 (nv2_inner_index v)) = b ! 0"
    if "from_bytes (nv_public2_get E) b = Inr v" for b v
    using that by (auto simp: from_bytes_def nv_public2_get_def res_bind_eq_Inr r_u8_def r_take_Inr
        remaining_def reader_new_def rest_def split: if_splits)
  moreover have "length (nv_public_enc p) < 2 ^ 16" using length_nv_public_enc [OF assms(1)] by simp
  ultimately show ?thesis
    using assms nv_public.from_to_bytes [of E p] nv_public2.from_to_bytes [of E q]
      tpm2b_nv_public.from_to_bytes [of E p] by blast
qed

definition demo_nv :: nv_public where
  "demo_nv = \<lparr>np_index = 0x01000001, np_name_alg = alg_SHA256, np_attributes = 0x00020002,
     np_policy = [], np_size = 8\<rparr>"

lemma demo_nv_ok: "nv_public_ok (demo_env s) demo_nv"
  by (simp add: nv_public_ok_def demo_nv_def digest_size_def nv_reserved_def MAX_NV_INDEX_SIZE_def)

theorem nv_public_roundtrip_witness:
  "from_bytes (nv_public_get (demo_env True)) (to_bytes nv_public_put demo_nv) = Inr demo_nv
   \<and> from_bytes (nv_public2_get (demo_env True)) (to_bytes nv_public2_put (NV_Index demo_nv)) = Inr (NV_Index demo_nv)"
  using nv_public_roundtrip [OF demo_nv_ok, of True "NV_Index demo_nv"] demo_nv_ok [of True]
  by (simp add: nv_public2_ok_def nv2_inner_index_def nv2_handle_type_def demo_nv_def ht_NV_INDEX_def)

end
