(* ===== verification/NvCore.thy ===== *)
theory NvCore
  imports NvStruct BTreeMap
begin

text \<open>
  NV indices and the store that holds them (\<open>src/tpm/core/nv.rs\<close>). An index is its public area,
  its authorization value, its data and the two lock flags that mirror public attributes. The
  store keeps, beside the indices, the largest value any counter has held.
\<close>

definition NV_MEMORY_SIZE :: nat where "NV_MEMORY_SIZE = 131072"
definition MAX_ORDERLY_COUNT :: u64 where "MAX_ORDERLY_COUNT = 255"

record nv_index =
  nv_public :: nv_public
  nv_auth :: bytes
  nv_data :: bytes
  read_locked :: bool
  write_locked :: bool

section \<open>One index\<close>

definition index_name :: "env \<Rightarrow> nv_index \<Rightarrow> bytes tpm_result" where
  "index_name E i = nv_name E (nv_public i)"

definition nt_of :: "nv_index \<Rightarrow> u8" where
  "nt_of i = index_type (np_attributes (nv_public i))"

definition written :: "nv_index \<Rightarrow> bool" where
  "written i = attr_has (np_attributes (nv_public i)) nv_WRITTEN"

definition set_attributes :: "u32 \<Rightarrow> nv_index \<Rightarrow> nv_index" where
  "set_attributes a i = i\<lparr>nv_public := (nv_public i)\<lparr>np_attributes := a\<rparr>\<rparr>"

definition set_written :: "nv_index \<Rightarrow> nv_index" where
  "set_written i = set_attributes (attr_with (np_attributes (nv_public i)) nv_WRITTEN) i"

definition set_read_lock :: "bool \<Rightarrow> nv_index \<Rightarrow> nv_index" where
  "set_read_lock locked i =
     set_attributes (attr_set nv_READLOCKED locked (np_attributes (nv_public i))) (i\<lparr>read_locked := locked\<rparr>)"

definition set_write_lock :: "bool \<Rightarrow> nv_index \<Rightarrow> nv_index" where
  "set_write_lock locked i =
     set_attributes (attr_set nv_WRITELOCKED locked (np_attributes (nv_public i))) (i\<lparr>write_locked := locked\<rparr>)"

definition counter_value :: "nv_index \<Rightarrow> u64 tpm_result" where
  "counter_value i = (if length (nv_data i) \<noteq> 8 then Inl rc_NV_UNINITIALIZED else Inr (from_be (nv_data i)))"

definition nv_write :: "u16 \<Rightarrow> bytes \<Rightarrow> (nv_index, unit) st_op" where
  "nv_write offset value i =
     (let sz = unat (np_size (nv_public i)); at = unat offset; end = at + length value in
      if sz < end then (Inl rc_NV_RANGE, i)
      else if attr_has (np_attributes (nv_public i)) nv_WRITEALL \<and> length value \<noteq> sz then (Inl rc_NV_RANGE, i)
      else (let data = (if length (nv_data i) \<noteq> sz then replicate sz 0 else nv_data i)
            in (Inr (), set_written (i\<lparr>nv_data := upd_slice data at value\<rparr>))))"

definition nv_read :: "u16 \<Rightarrow> u16 \<Rightarrow> nv_index \<Rightarrow> bytes tpm_result" where
  "nv_read offset n i =
     (if \<not> written i then Inl rc_NV_UNINITIALIZED
      else (let end = unat offset + unat n in
        if unat (np_size (nv_public i)) < end then Inl rc_NV_RANGE
        else if length (nv_data i) < end then Inl rc_NV_UNINITIALIZED
        else Inr (slice (nv_data i) (unat offset) end)))"

definition nv_increment :: "u64 \<Rightarrow> (nv_index, u64) st_op" where
  "nv_increment floor i =
     (if nt_of i \<noteq> nt_COUNTER then (Inl rc_ATTRIBUTES, i)
      else case (if written i then res_bind (counter_value i) (\<lambda>v. Inr (v + 1))
                 else Inr (saturating_add floor 1)) of
          Inl e \<Rightarrow> (Inl e, i)
        | Inr v \<Rightarrow> (Inr v, set_written (i\<lparr>nv_data := to_be 8 v\<rparr>)))"

definition nv_set_bits :: "u64 \<Rightarrow> (nv_index, u64) st_op" where
  "nv_set_bits bits i =
     (if nt_of i \<noteq> nt_BITS then (Inl rc_ATTRIBUTES, i)
      else case (if written i then counter_value i else Inr 0) of
          Inl e \<Rightarrow> (Inl e, i)
        | Inr current \<Rightarrow>
            (let v = current OR bits in (Inr v, set_written (i\<lparr>nv_data := to_be 8 v\<rparr>))))"

definition nv_extend :: "env \<Rightarrow> bytes \<Rightarrow> (nv_index, bytes) st_op" where
  "nv_extend E value i =
     (if nt_of i \<noteq> nt_EXTEND then (Inl rc_ATTRIBUTES, i)
      else case digest_size E (np_name_alg (nv_public i)) of
          None \<Rightarrow> (Inl rc_HASH, i)
        | Some sz \<Rightarrow>
            (let current = (if written i \<and> length (nv_data i) = sz then nv_data i else replicate sz 0) in
             case digest_parts E (np_name_alg (nv_public i)) [current, value] of
               Inl e \<Rightarrow> (Inl e, i)
             | Inr v \<Rightarrow> (Inr v, set_written (i\<lparr>nv_data := v\<rparr>))))"

definition is_pin :: "nv_index \<Rightarrow> bool" where
  "is_pin i = (nt_of i = nt_PIN_FAIL \<or> nt_of i = nt_PIN_PASS)"

definition nv_pin_counters :: "nv_index \<Rightarrow> pin_counters tpm_result" where
  "nv_pin_counters i =
     (if \<not> is_pin i then Inl rc_ATTRIBUTES
      else if \<not> written i then Inr \<lparr>pin_count = 0, pin_limit = 0\<rparr>
      else map_err (\<lambda>_. rc_NV_UNINITIALIZED) (from_bytes pin_get (nv_data i)))"

definition set_pin_counters :: "pin_counters \<Rightarrow> (nv_index, unit) st_op" where
  "set_pin_counters p i =
     (if \<not> is_pin i then (Inl rc_ATTRIBUTES, i)
      else (Inr (), set_written (i\<lparr>nv_data := to_bytes pin_put p\<rparr>)))"

definition footprint :: "nv_index \<Rightarrow> nat" where
  "footprint i = length (to_bytes nv_public_put (nv_public i)) + length (nv_auth i) + unat (np_size (nv_public i))"

section \<open>The store\<close>

record nv_store =
  indices :: "(u32, nv_index) btree"
  highest_counter :: u64

definition store_new :: nv_store where
  "store_new = \<lparr>indices = [], highest_counter = 0\<rparr>"

definition store_used :: "nv_store \<Rightarrow> nat" where
  "store_used s = sum_list (map (\<lambda>(_, i). footprint i) (indices s))"

definition store_available :: "nv_store \<Rightarrow> nat" where
  "store_available s = NV_MEMORY_SIZE - store_used s"

definition smallest_counter_footprint :: nat where
  "smallest_counter_footprint = length (to_bytes nv_public_put
     \<lparr>np_index = hc_NV_INDEX_FIRST, np_name_alg = alg_SHA256, np_attributes = 0, np_policy = [], np_size = 8\<rparr>) + 8"

definition counter_count :: "nv_store \<Rightarrow> nat" where
  "counter_count s = length (filter (\<lambda>(_, i). nt_of i = nt_COUNTER) (indices s))"

definition is_nv_handle :: "u32 \<Rightarrow> bool" where
  "is_nv_handle h = (hc_NV_INDEX_FIRST \<le> h \<and> h \<le> hc_NV_INDEX_LAST)"

text \<open>The mark moves up to the value of a written counter.\<close>

definition raise_mark :: "nv_index \<Rightarrow> nv_store \<Rightarrow> nv_store" where
  "raise_mark i s =
     (if nt_of i = nt_COUNTER \<and> written i then
        (case counter_value i of
           Inl _ \<Rightarrow> s
         | Inr v \<Rightarrow> s\<lparr>highest_counter := max (highest_counter s) v\<rparr>)
      else s)"

definition store_define :: "nv_index \<Rightarrow> (nv_store, unit) st_op" where
  "store_define i s =
     (let s = raise_mark i s; handle = np_index (nv_public i) in
      if \<not> is_nv_handle handle then (Inl rc_HANDLE, s)
      else if bt_contains (indices s) handle then (Inl rc_NV_DEFINED, s)
      else if store_available s < footprint i then (Inl rc_NV_SPACE, s)
      else (Inr (), s\<lparr>indices := bt_insert handle i (indices s)\<rparr>))"

definition set_counter_floor :: "u64 \<Rightarrow> nv_store \<Rightarrow> nv_store" where
  "set_counter_floor floor s = s\<lparr>highest_counter := max (highest_counter s) floor\<rparr>"

definition store_undefine :: "u32 \<Rightarrow> (nv_store, nv_index) st_op" where
  "store_undefine handle s =
     (case bt_get (indices s) handle of
        None \<Rightarrow> (Inl rc_HANDLE, s)
      | Some i \<Rightarrow> (Inr i, raise_mark i (s\<lparr>indices := bt_remove handle (indices s)\<rparr>)))"

definition store_get :: "u32 \<Rightarrow> nv_store \<Rightarrow> nv_index tpm_result" where
  "store_get handle s = ok_or (bt_get (indices s) handle) rc_HANDLE"

text \<open>\<open>get_mut\<close>: an operation on the index at a handle.\<close>

definition store_at :: "u32 \<Rightarrow> (nv_index, 'a) st_op \<Rightarrow> (nv_store, 'a) st_op" where
  "store_at handle f s =
     (case bt_get (indices s) handle of
        None \<Rightarrow> (Inl rc_HANDLE, s)
      | Some i \<Rightarrow> (case f i of (r, i') \<Rightarrow> (r, s\<lparr>indices := bt_update handle i' (indices s)\<rparr>)))"

definition store_increment :: "u32 \<Rightarrow> (nv_store, u64) st_op" where
  "store_increment handle s =
     (case store_at handle (nv_increment (highest_counter s)) s of
        (Inl e, s) \<Rightarrow> (Inl e, s)
      | (Inr v, s) \<Rightarrow> (Inr v, s\<lparr>highest_counter := max (highest_counter s) v\<rparr>))"

definition store_contains :: "u32 \<Rightarrow> nv_store \<Rightarrow> bool" where
  "store_contains handle s = bt_contains (indices s) handle"

definition store_handles :: "nv_store \<Rightarrow> u32 list" where
  "store_handles s = bt_keys (indices s)"

definition global_write_lock :: "nv_store \<Rightarrow> nv_store" where
  "global_write_lock s = s\<lparr>indices := bt_map (\<lambda>_ i.
     if attr_has (np_attributes (nv_public i)) nv_GLOBALLOCK then set_write_lock True i else i) (indices s)\<rparr>"

text \<open>What a Startup(CLEAR) does to one index, in the order the code does it.\<close>

definition clear_written :: "nv_index \<Rightarrow> nv_index" where
  "clear_written i =
     set_attributes (attr_without (np_attributes (nv_public i)) nv_WRITTEN) (i\<lparr>nv_data := []\<rparr>)"

definition startup_locks :: "bool \<Rightarrow> nv_index \<Rightarrow> nv_index" where
  "startup_locks restart i =
     (let i = (if attr_has (np_attributes (nv_public i)) nv_READ_STCLEAR then set_read_lock False i else i);
          permanent = (attr_has (np_attributes (nv_public i)) nv_WRITEDEFINE \<and> written i);
          i = (if \<not> permanent then set_write_lock False i else i);
          i = (if attr_has (np_attributes (nv_public i)) nv_ORDERLY \<and> nt_of i \<noteq> nt_COUNTER \<and> \<not> restart
               then clear_written i else i)
      in if attr_has (np_attributes (nv_public i)) nv_CLEAR_STCLEAR then clear_written i else i)"

definition startup_index :: "bool \<Rightarrow> bool \<Rightarrow> nv_index \<Rightarrow> nv_index" where
  "startup_index restart disorderly i =
     (let i = startup_locks restart i
      in if disorderly \<and> attr_has (np_attributes (nv_public i)) nv_ORDERLY \<and> nt_of i = nt_COUNTER \<and> written i
         then (case counter_value i of
                 Inl _ \<Rightarrow> i
               | Inr v \<Rightarrow> i\<lparr>nv_data := to_be 8 (v OR MAX_ORDERLY_COUNT)\<rparr>)
         else i)"

definition on_startup_clear_with :: "bool \<Rightarrow> bool \<Rightarrow> nv_store \<Rightarrow> nv_store" where
  "on_startup_clear_with restart disorderly s =
     s\<lparr>indices := bt_map (\<lambda>_ i. startup_index restart disorderly i) (indices s)\<rparr>"

definition on_startup_clear :: "nv_store \<Rightarrow> nv_store" where
  "on_startup_clear s = on_startup_clear_with False False s"

definition clear_owner_indices :: "nv_store \<Rightarrow> nv_store" where
  "clear_owner_indices s =
     s\<lparr>indices := bt_retain (\<lambda>_ i. attr_has (np_attributes (nv_public i)) nv_PLATFORMCREATE) (indices s)\<rparr>"

definition store_clear :: "nv_store \<Rightarrow> nv_store" where
  "store_clear s = s\<lparr>indices := []\<rparr>"

section \<open>What the operations do to one index\<close>

lemma set_attributes_fields [simp]:
  "nv_data (set_attributes a i) = nv_data i"
  "nv_auth (set_attributes a i) = nv_auth i"
  "read_locked (set_attributes a i) = read_locked i"
  "write_locked (set_attributes a i) = write_locked i"
  "np_attributes (nv_public (set_attributes a i)) = a"
  "np_size (nv_public (set_attributes a i)) = np_size (nv_public i)"
  "np_index (nv_public (set_attributes a i)) = np_index (nv_public i)"
  "np_name_alg (nv_public (set_attributes a i)) = np_name_alg (nv_public i)"
  "np_policy (nv_public (set_attributes a i)) = np_policy (nv_public i)"
  by (simp_all add: set_attributes_def)

text \<open>The attribute bits an operation can change leave the type of the index alone.\<close>

lemma index_type_flags:
  "8 \<le> n \<Longrightarrow> n < 32 \<Longrightarrow> index_type (attr_with a (flag n)) = index_type a"
  "8 \<le> n \<Longrightarrow> index_type (attr_without a (flag n)) = index_type a"
  "8 \<le> n \<Longrightarrow> n < 32 \<Longrightarrow> index_type (attr_set (flag n) on a) = index_type a"
  by (auto intro!: bit_eqI simp: bit_index_type)

lemma nt_of_changes [simp]:
  "nt_of (set_written i) = nt_of i"
  "nt_of (set_read_lock b i) = nt_of i"
  "nt_of (set_write_lock b i) = nt_of i"
  "nt_of (clear_written i) = nt_of i"
  "nt_of (i\<lparr>nv_data := d\<rparr>) = nt_of i"
  by (simp_all add: nt_of_def set_written_def set_read_lock_def set_write_lock_def clear_written_def
      index_type_flags)

lemma written_changes [simp]:
  "written (set_written i)"
  "written (set_read_lock b i) = written i"
  "written (set_write_lock b i) = written i"
  "\<not> written (clear_written i)"
  "written (i\<lparr>nv_data := d\<rparr>) = written i"
  by (simp_all add: written_def set_written_def set_read_lock_def set_write_lock_def clear_written_def)

lemma data_changes [simp]:
  "nv_data (set_written i) = nv_data i"
  "nv_data (set_read_lock b i) = nv_data i"
  "nv_data (set_write_lock b i) = nv_data i"
  "nv_data (clear_written i) = []"
  by (simp_all add: set_written_def set_read_lock_def set_write_lock_def clear_written_def)

lemma size_changes [simp]:
  "np_size (nv_public (set_written i)) = np_size (nv_public i)"
  by (simp add: set_written_def)

text \<open>Writing an ordinary index is exact. It fails, with \<open>TPM_RC_NV_RANGE\<close> and no change, just
  when the octets do not fit or a write-all index gets fewer than all; otherwise what was
  written reads back, and every other octet is what it was (or zero in fresh data).\<close>

theorem nv_write_exact:
  assumes "length v < 2 ^ 16"
  shows "case nv_write off v i of
      (Inl e, j) \<Rightarrow> j = i \<and> e = rc_NV_RANGE
        \<and> (unat (np_size (nv_public i)) < unat off + length v
           \<or> (bit (np_attributes (nv_public i)) 12 \<and> length v \<noteq> unat (np_size (nv_public i))))
    | (Inr _, j) \<Rightarrow> nv_read off (of_nat (length v)) j = Inr v
        \<and> length (nv_data j) = unat (np_size (nv_public i))
        \<and> (\<forall>k < unat (np_size (nv_public i)). nv_data j ! k =
             (if unat off \<le> k \<and> k < unat off + length v then v ! (k - unat off)
              else if length (nv_data i) = unat (np_size (nv_public i)) then nv_data i ! k else 0))"
proof (cases "fst (nv_write off v i)")
  case (Inl e)
  then show ?thesis by (auto simp: nv_write_def Let_def split: if_splits)
next
  case (Inr u)
  let ?n = "unat (np_size (nv_public i))"
  let ?d = "if length (nv_data i) \<noteq> ?n then replicate ?n 0 else nv_data i"
  have fits: "unat off + length v \<le> ?n"
    using Inr by (auto simp: nv_write_def Let_def split: if_splits)
  have eq: "nv_write off v i = (Inr (), set_written (i\<lparr>nv_data := upd_slice ?d (unat off) v\<rparr>))"
    using Inr by (auto simp: nv_write_def Let_def split: if_splits)
  have n: "unat (of_nat (length v) :: u16) = length v" using assms by (rule unat_of_nat_u16)
  have len: "length ?d = ?n" by simp
  have "nv_read off (of_nat (length v)) (set_written (i\<lparr>nv_data := upd_slice ?d (unat off) v\<rparr>)) = Inr v"
    using fits len n by (simp add: nv_read_def Let_def del: if_split)
  moreover have "upd_slice ?d (unat off) v ! k =
      (if unat off \<le> k \<and> k < unat off + length v then v ! (k - unat off)
       else if length (nv_data i) = ?n then nv_data i ! k else 0)" if "k < ?n" for k
    using nth_upd_slice [of "unat off" v ?d k] fits len that by simp
  moreover have "length (upd_slice ?d (unat off) v) = ?n" using fits len by simp
  ultimately show ?thesis unfolding eq by simp
qed

theorem nv_write_exact_witness:
  "\<exists>j. nv_write 2 [7, 8] \<lparr>nv_public = demo_nv, nv_auth = [], nv_data = [], read_locked = False,
        write_locked = False\<rparr> = (Inr (), j) \<and> nv_read 2 2 j = Inr [7, 8]"
proof -
  let ?i = "\<lparr>nv_public = demo_nv, nv_auth = [], nv_data = [], read_locked = False, write_locked = False\<rparr>"
  have "fst (nv_write 2 [7, 8] ?i) = Inr ()"
    by (simp add: nv_write_def Let_def demo_nv_def bit_numeral_rec)
  then obtain j where "nv_write 2 [7, 8] ?i = (Inr (), j)" by (metis prod.collapse)
  with nv_write_exact [where v = "[7, 8]" and off = 2 and i = ?i] show ?thesis by simp
qed

lemma attributes_changes [simp]:
  "np_attributes (nv_public (set_written i)) = attr_with (np_attributes (nv_public i)) nv_WRITTEN"
  "np_attributes (nv_public (set_read_lock b i)) = attr_set nv_READLOCKED b (np_attributes (nv_public i))"
  "np_attributes (nv_public (set_write_lock b i)) = attr_set nv_WRITELOCKED b (np_attributes (nv_public i))"
  "np_attributes (nv_public (clear_written i)) = attr_without (np_attributes (nv_public i)) nv_WRITTEN"
  "read_locked (set_read_lock b i) = b" "read_locked (set_write_lock b i) = read_locked i"
  "write_locked (set_write_lock b i) = b" "write_locked (set_read_lock b i) = write_locked i"
  "read_locked (clear_written i) = read_locked i" "write_locked (clear_written i) = write_locked i"
  by (simp_all add: set_written_def set_read_lock_def set_write_lock_def clear_written_def)

lemma fixed_fields [simp]:
  "np_size (nv_public (set_read_lock b i)) = np_size (nv_public i)"
  "np_size (nv_public (set_write_lock b i)) = np_size (nv_public i)"
  "np_size (nv_public (clear_written i)) = np_size (nv_public i)"
  "np_policy (nv_public (set_read_lock b i)) = np_policy (nv_public i)"
  "np_policy (nv_public (set_write_lock b i)) = np_policy (nv_public i)"
  "np_policy (nv_public (clear_written i)) = np_policy (nv_public i)"
  "np_index (nv_public (set_read_lock b i)) = np_index (nv_public i)"
  "np_index (nv_public (set_write_lock b i)) = np_index (nv_public i)"
  "np_index (nv_public (clear_written i)) = np_index (nv_public i)"
  "nv_auth (set_read_lock b i) = nv_auth i"
  "nv_auth (set_write_lock b i) = nv_auth i"
  "nv_auth (clear_written i) = nv_auth i"
  by (simp_all add: set_read_lock_def set_write_lock_def clear_written_def)

lemma startup_index_split:
  "\<exists>d. startup_index restart disorderly i = (startup_locks restart i)\<lparr>nv_data := d\<rparr>"
proof -
  have same: "\<exists>d. j = j\<lparr>nv_data := d\<rparr>" for j :: nv_index by (rule exI [of _ "nv_data j"]) simp
  then show ?thesis by (auto simp: startup_index_def Let_def split: sum.splits)
qed

lemma written_bit: "written i = bit (np_attributes (nv_public i)) 29"
  by (simp add: written_def)

text \<open>Each of the three kinds of step, as what it does to the parts the rules speak of.\<close>

definition same_but :: "nat set \<Rightarrow> nv_index \<Rightarrow> nv_index \<Rightarrow> bool" where
  "same_but ns i j \<longleftrightarrow> (\<forall>n. n \<notin> ns \<longrightarrow> bit (np_attributes (nv_public j)) n = bit (np_attributes (nv_public i)) n)
     \<and> np_size (nv_public j) = np_size (nv_public i) \<and> np_policy (nv_public j) = np_policy (nv_public i)
     \<and> np_index (nv_public j) = np_index (nv_public i) \<and> nv_auth j = nv_auth i \<and> nt_of j = nt_of i"

lemma startup_step1:
  assumes "j = (if c then set_read_lock False i else i)"
  shows "same_but {28} i j \<and> write_locked j = write_locked i \<and> read_locked j = (read_locked i \<and> \<not> c)
    \<and> bit (np_attributes (nv_public j)) 28 = (bit (np_attributes (nv_public i)) 28 \<and> \<not> c)"
  unfolding assms by (simp add: same_but_def)

lemma startup_step2:
  assumes "j = (if c then set_write_lock False i else i)"
  shows "same_but {11} i j \<and> write_locked j = (write_locked i \<and> \<not> c) \<and> read_locked j = read_locked i
    \<and> bit (np_attributes (nv_public j)) 11 = (bit (np_attributes (nv_public i)) 11 \<and> \<not> c)"
  unfolding assms by (simp add: same_but_def)

lemma startup_step3:
  assumes "j = (if c then clear_written i else i)"
  shows "same_but {29} i j \<and> write_locked j = write_locked i \<and> read_locked j = read_locked i
    \<and> bit (np_attributes (nv_public j)) 29 = (bit (np_attributes (nv_public i)) 29 \<and> \<not> c)"
  unfolding assms by (simp add: same_but_def)

text \<open>What a Startup(CLEAR) leaves of an index, as rules on its attributes: the read lock
  survives unless READ_STCLEAR; the write lock survives only on a written WRITEDEFINE index;
  the written state is lost by CLEAR_STCLEAR, and by ORDERLY on a reset unless the index
  counts. Nothing else of the public area changes.\<close>

theorem startup_index_rules:
  "let j = startup_index restart disorderly i; a = np_attributes (nv_public i);
       b = np_attributes (nv_public j)
   in (read_locked j = (read_locked i \<and> \<not> bit a 31))
    \<and> (write_locked j = (write_locked i \<and> bit a 13 \<and> bit a 29))
    \<and> (\<forall>n. bit b n = (
         if n = 28 then bit a 28 \<and> \<not> bit a 31
         else if n = 11 then bit a 11 \<and> bit a 13 \<and> bit a 29
         else if n = 29 then bit a 29 \<and> \<not> bit a 27 \<and> \<not> (bit a 26 \<and> nt_of i \<noteq> nt_COUNTER \<and> \<not> restart)
         else bit a n))
    \<and> np_size (nv_public j) = np_size (nv_public i) \<and> np_policy (nv_public j) = np_policy (nv_public i)
    \<and> np_index (nv_public j) = np_index (nv_public i) \<and> nv_auth j = nv_auth i"
proof -
  let ?at = "\<lambda>i. np_attributes (nv_public i)"
  define i1 where "i1 = (if attr_has (?at i) nv_READ_STCLEAR then set_read_lock False i else i)"
  define i2 where "i2 = (if \<not> (attr_has (?at i1) nv_WRITEDEFINE \<and> written i1) then set_write_lock False i1 else i1)"
  define i3 where "i3 = (if attr_has (?at i2) nv_ORDERLY \<and> nt_of i2 \<noteq> nt_COUNTER \<and> \<not> restart then clear_written i2 else i2)"
  define i4 where "i4 = (if attr_has (?at i3) nv_CLEAR_STCLEAR then clear_written i3 else i3)"
  obtain d where d: "startup_index restart disorderly i = (startup_locks restart i)\<lparr>nv_data := d\<rparr>"
    using startup_index_split by blast
  have i4: "startup_locks restart i = i4"
    by (simp only: startup_locks_def Let_def i1_def i2_def i3_def i4_def)
  note s1 = startup_step1 [OF i1_def] and s2 = startup_step2 [OF i2_def]
    and s3 = startup_step3 [OF i3_def] and s4 = startup_step3 [OF i4_def]
  show ?thesis
    unfolding d i4 Let_def
    using s1 s2 s3 s4 unfolding same_but_def by (simp add: written_bit) blast
qed

section \<open>Counters\<close>

text \<open>
  The level of a handle is the value a counter Index there has reached, or, where no written
  counter is defined, the mark every new counter has to start past.
\<close>

definition counter_reading :: "nv_index \<Rightarrow> nat option" where
  "counter_reading i =
     (if nt_of i = nt_COUNTER \<and> written i then
        (case counter_value i of Inl _ \<Rightarrow> None | Inr v \<Rightarrow> Some (unat v))
      else None)"

definition level :: "u32 \<Rightarrow> nv_store \<Rightarrow> nat" where
  "level h s = (case bt_get (indices s) h of
      None \<Rightarrow> unat (highest_counter s)
    | Some i \<Rightarrow> (case counter_reading i of None \<Rightarrow> unat (highest_counter s) | Some v \<Rightarrow> v))"

text \<open>What a definition must satisfy: the rule of the specification that a counter has no
  \<open>CLEAR_STCLEAR\<close>, which the command that defines indices checks.\<close>

definition index_wf :: "nv_index \<Rightarrow> bool" where
  "index_wf i \<longleftrightarrow> (nt_of i = nt_COUNTER \<longrightarrow>
     \<not> bit (np_attributes (nv_public i)) 27 \<and> (written i \<longrightarrow> length (nv_data i) = 8))"

definition store_wf :: "nv_store \<Rightarrow> bool" where
  "store_wf s \<longleftrightarrow> bt_wf (indices s) \<and> (\<forall>h i. bt_get (indices s) h = Some i \<longrightarrow> index_wf i)"

definition below :: "nat \<Rightarrow> nv_store \<Rightarrow> bool" where
  "below N s \<longleftrightarrow> unat (highest_counter s) \<le> N
     \<and> (\<forall>h i v. bt_get (indices s) h = Some i \<longrightarrow> counter_reading i = Some v \<longrightarrow> v \<le> N)"

text \<open>The mark covers every counter: true until a jump at a disorderly startup.\<close>

definition covered :: "nv_store \<Rightarrow> bool" where
  "covered s \<longleftrightarrow> (\<forall>h i v. bt_get (indices s) h = Some i \<longrightarrow> counter_reading i = Some v
     \<longrightarrow> v \<le> unat (highest_counter s))"

datatype nv_op =
    Define nv_index
  | Undefine u32
  | Increment u32
  | Set_bits u32 u64
  | Extend_index u32 bytes
  | Set_pin u32 pin_counters
  | Read_lock u32 bool
  | Write_lock u32 bool
  | Global_lock
  | Startup_clear bool bool
  | Clear_owner

fun nv_step :: "env \<Rightarrow> nv_op \<Rightarrow> nv_store \<Rightarrow> nv_store" where
  "nv_step E (Define i) s = snd (store_define i s)"
| "nv_step E (Undefine h) s = snd (store_undefine h s)"
| "nv_step E (Increment h) s = snd (store_increment h s)"
| "nv_step E (Set_bits h b) s = snd (store_at h (nv_set_bits b) s)"
| "nv_step E (Extend_index h d) s = snd (store_at h (nv_extend E d) s)"
| "nv_step E (Set_pin h p) s = snd (store_at h (set_pin_counters p) s)"
| "nv_step E (Read_lock h b) s = snd (store_at h (st_modify (set_read_lock b)) s)"
| "nv_step E (Write_lock h b) s = snd (store_at h (st_modify (set_write_lock b)) s)"
| "nv_step E Global_lock s = global_write_lock s"
| "nv_step E (Startup_clear restart disorderly) s = on_startup_clear_with restart disorderly s"
| "nv_step E Clear_owner s = clear_owner_indices s"

text \<open>Definitions are of unwritten indices, as the command makes them.\<close>

fun op_ok :: "nv_op \<Rightarrow> bool" where
  "op_ok (Define i) = (index_wf i \<and> \<not> written i)"
| "op_ok _ = True"

fun is_jump :: "nv_op \<Rightarrow> bool" where
  "is_jump (Startup_clear restart disorderly) = disorderly"
| "is_jump _ = False"

text \<open>How an operation on one index may change its reading.\<close>

definition reading_grows :: "nv_index \<Rightarrow> nv_index \<Rightarrow> nat \<Rightarrow> bool" where
  "reading_grows i j n \<longleftrightarrow> (case counter_reading i of
      None \<Rightarrow> counter_reading j = None
    | Some v \<Rightarrow> (\<exists>w. counter_reading j = Some w \<and> v \<le> w \<and> w \<le> v + n))"

lemma counter_reading_same:
  "nt_of j = nt_of i \<Longrightarrow> written j = written i \<Longrightarrow> nv_data j = nv_data i \<Longrightarrow>
     counter_reading j = counter_reading i"
  by (simp add: counter_reading_def counter_value_def)

lemma reading_grows_refl [simp]: "reading_grows i i n"
  by (simp add: reading_grows_def split: option.splits)

lemma not_counter_reading: "nt_of i \<noteq> nt_COUNTER \<Longrightarrow> counter_reading i = None"
  by (simp add: counter_reading_def)

lemma reading_grows_same:
  "nt_of j = nt_of i \<Longrightarrow> written j = written i \<Longrightarrow> nv_data j = nv_data i \<Longrightarrow> reading_grows i j n"
  using counter_reading_same [of j i] by (simp add: reading_grows_def split: option.splits)

lemma reading_grows_not_counter: "nt_of i \<noteq> nt_COUNTER \<Longrightarrow> nt_of j = nt_of i \<Longrightarrow> reading_grows i j n"
  by (simp add: reading_grows_def not_counter_reading)

lemma or_255_bounds: "unat v \<le> unat (v OR MAX_ORDERLY_COUNT) \<and> unat (v OR MAX_ORDERLY_COUNT) \<le> unat v + 255"
proof -
  let ?v = "uint v"
  have "uint MAX_ORDERLY_COUNT = 255" by (simp add: MAX_ORDERLY_COUNT_def)
  then have "uint (v OR MAX_ORDERLY_COUNT) = ?v OR 255" by (simp only: unsigned_or_eq)
  moreover have "(?v AND 255) + (?v OR 255) = ?v + 255" by (rule plus_and_or)
  moreover have "0 \<le> ?v AND 255 \<and> ?v AND 255 \<le> 255" by (rule conjI, rule AND_lower, simp, rule AND_upper2, simp)
  ultimately have "?v \<le> uint (v OR MAX_ORDERLY_COUNT) \<and> uint (v OR MAX_ORDERLY_COUNT) \<le> ?v + 255"
    by linarith
  then show ?thesis unfolding uint_nat by linarith
qed

lemma startup_locks_counter:
  assumes "index_wf i" and "nt_of i = nt_COUNTER"
  shows "nv_data (startup_locks restart i) = nv_data i \<and> nt_of (startup_locks restart i) = nt_COUNTER
    \<and> written (startup_locks restart i) = written i
    \<and> bit (np_attributes (nv_public (startup_locks restart i))) 27 = bit (np_attributes (nv_public i)) 27"
  using assms by (simp add: startup_locks_def Let_def index_wf_def)

lemma startup_index_nt: "nt_of (startup_index restart disorderly i) = nt_of i"
  by (auto simp: startup_index_def startup_locks_def Let_def split: sum.splits)

lemma startup_reading:
  assumes "index_wf i"
  shows "reading_grows i (startup_index restart disorderly i) 255
    \<and> index_wf (startup_index restart disorderly i)
    \<and> (\<not> disorderly \<longrightarrow> counter_reading (startup_index restart disorderly i) = counter_reading i)"
proof (cases "nt_of i = nt_COUNTER")
  case False
  then show ?thesis
    by (simp add: reading_grows_not_counter startup_index_nt not_counter_reading index_wf_def)
next
  case True
  let ?j = "startup_locks restart i"
  note j = startup_locks_counter [OF assms True, of restart]
  then have same: "counter_reading ?j = counter_reading i" by (intro counter_reading_same) (simp_all add: True)
  have wf: "index_wf ?j" using j assms True by (simp add: index_wf_def)
  show ?thesis
  proof (cases "disorderly \<and> bit (np_attributes (nv_public ?j)) 26 \<and> written ?j")
    case False
    then have "startup_index restart disorderly i = ?j" using j by (auto simp: startup_index_def Let_def)
    with same wf show ?thesis by (auto simp: reading_grows_def split: option.splits)
  next
    case jump: True
    then have len: "length (nv_data ?j) = 8" using wf j by (simp add: index_wf_def)
    define v :: u64 where "v = from_be (nv_data ?j)"
    have eq: "startup_index restart disorderly i = ?j\<lparr>nv_data := to_be 8 (v OR MAX_ORDERLY_COUNT)\<rparr>"
      using jump j len by (simp add: startup_index_def Let_def counter_value_def v_def)
    have "counter_reading ?j = Some (unat v)"
      using j jump len by (simp add: counter_reading_def counter_value_def v_def)
    moreover have "counter_reading (startup_index restart disorderly i) = Some (unat (v OR MAX_ORDERLY_COUNT))"
      unfolding eq using j jump by (simp add: counter_reading_def counter_value_def del: to_be.simps)
    moreover have "index_wf (startup_index restart disorderly i)"
      unfolding eq using wf j by (simp add: index_wf_def)
    ultimately show ?thesis using same or_255_bounds [of v] jump by (simp add: reading_grows_def)
  qed
qed

text \<open>The contract of one step: the shape stays, no level falls, none rises by more than 256, and
  without a jump the mark goes on covering every counter.\<close>

definition step_ok :: "nv_store \<Rightarrow> nv_store \<Rightarrow> bool \<Rightarrow> bool" where
  "step_ok s t jump \<longleftrightarrow> store_wf t \<and> (\<forall>N. below N s \<longrightarrow> below (N + 256) t)
     \<and> (\<forall>h. level h s \<le> level h t) \<and> (covered s \<and> \<not> jump \<longrightarrow> covered t)"

lemma below_mono: "below N s \<Longrightarrow> N \<le> M \<Longrightarrow> below M s"
  by (fastforce simp: below_def)

lemma bt_update_get: "bt_wf m \<Longrightarrow> bt_get m k = Some v \<Longrightarrow> bt_update k v m = m"
  by (rule bt_ext) auto

lemma step_ok_refl: "store_wf s \<Longrightarrow> step_ok s s jump"
  by (simp add: step_ok_def below_mono)

lemma level_def2: "level h s = (case bt_get (indices s) h of
    None \<Rightarrow> unat (highest_counter s)
  | Some i \<Rightarrow> (case counter_reading i of None \<Rightarrow> unat (highest_counter s) | Some v \<Rightarrow> v))"
  by (rule level_def)

lemma step_ok_pointwise:
  assumes "store_wf s" and "bt_wf (indices t)" and "highest_counter t = highest_counter s"
    and "\<And>h. bt_get (indices t) h = map_option (g h) (bt_get (indices s) h)"
    and "\<And>h i. bt_get (indices s) h = Some i \<Longrightarrow> reading_grows i (g h i) 255 \<and> index_wf (g h i)
           \<and> (\<not> jump \<longrightarrow> counter_reading (g h i) = counter_reading i)"
  shows "step_ok s t jump"
proof -
  have r: "reading_grows i (g h i) 255" "index_wf (g h i)"
    "\<not> jump \<Longrightarrow> counter_reading (g h i) = counter_reading i"
    if "bt_get (indices s) h = Some i" for h i
    using assms(5) [OF that] by simp_all
  have "store_wf t" using assms(2) r(2) by (auto simp: store_wf_def assms(4))
  moreover have "below (N + 256) t" if b: "below N s" for N
    unfolding below_def
  proof (intro conjI allI impI)
    show "unat (highest_counter t) \<le> N + 256" using b assms(3) by (simp add: below_def)
    fix h j v assume "bt_get (indices t) h = Some j" and v: "counter_reading j = Some v"
    then obtain i where i: "bt_get (indices s) h = Some i" "j = g h i" by (auto simp: assms(4))
    with r(1) [OF i(1)] v obtain u where "counter_reading i = Some u" "v \<le> u + 255"
      by (auto simp: reading_grows_def split: option.splits)
    with b i show "v \<le> N + 256" by (fastforce simp: below_def)
  qed
  moreover have "level h s \<le> level h t" for h
  proof (cases "bt_get (indices s) h")
    case (Some i)
    with r(1) [OF Some] assms(3,4) show ?thesis
      by (auto simp: level_def reading_grows_def split: option.splits)
  qed (simp add: level_def assms)
  moreover have "covered t" if "covered s" "\<not> jump"
    unfolding covered_def
  proof (intro allI impI)
    fix h j v assume "bt_get (indices t) h = Some j" and v: "counter_reading j = Some v"
    then obtain i where i: "bt_get (indices s) h = Some i" "j = g h i" by (auto simp: assms(4))
    then have "counter_reading i = Some v" using r(3) that(2) v by simp
    then show "v \<le> unat (highest_counter t)" using that(1) i(1) assms(3) by (simp add: covered_def)
  qed
  ultimately show ?thesis by (simp add: step_ok_def)
qed

lemma step_ok_at:
  assumes "store_wf s"
    and "\<And>i. index_wf i \<Longrightarrow> index_wf (snd (f i)) \<and> counter_reading (snd (f i)) = counter_reading i"
  shows "step_ok s (snd (store_at h f s)) jump"
proof (cases "bt_get (indices s) h")
  case None
  then show ?thesis using assms(1) by (simp add: store_at_def step_ok_refl)
next
  case (Some i)
  have wf: "index_wf j" if "bt_get (indices s) k = Some j" for k j
    using assms(1) that by (auto simp: store_wf_def)
  let ?t = "s\<lparr>indices := bt_update h (snd (f i)) (indices s)\<rparr>"
  have "step_ok s ?t jump"
  proof (rule step_ok_pointwise [where g = "\<lambda>k j. if k = h then snd (f i) else j"])
    show "bt_wf (indices ?t)" using assms(1) by (simp add: store_wf_def)
    show "bt_get (indices ?t) k = map_option (\<lambda>j. if k = h then snd (f i) else j) (bt_get (indices s) k)" for k
      using Some by (cases "bt_get (indices s) k") auto
    show "reading_grows j (if k = h then snd (f i) else j) 255 \<and> index_wf (if k = h then snd (f i) else j)
        \<and> (\<not> jump \<longrightarrow> counter_reading (if k = h then snd (f i) else j) = counter_reading j)"
      if "bt_get (indices s) k = Some j" for k j
      using that wf [OF that] assms(2) [of i] Some
      by (auto simp: reading_grows_def split: option.splits)
  qed (simp_all add: assms(1))
  then show ?thesis using Some by (cases "f i") (simp add: store_at_def)
qed

lemma locks_harmless:
  "index_wf i \<Longrightarrow> index_wf (set_read_lock b i) \<and> counter_reading (set_read_lock b i) = counter_reading i"
  "index_wf i \<Longrightarrow> index_wf (set_write_lock b i) \<and> counter_reading (set_write_lock b i) = counter_reading i"
  by (auto simp: index_wf_def intro!: counter_reading_same)

lemma other_types_harmless:
  "index_wf i \<Longrightarrow> index_wf (snd (nv_set_bits b i)) \<and> counter_reading (snd (nv_set_bits b i)) = counter_reading i"
  "index_wf i \<Longrightarrow> index_wf (snd (nv_extend E d i)) \<and> counter_reading (snd (nv_extend E d i)) = counter_reading i"
  "index_wf i \<Longrightarrow> index_wf (snd (set_pin_counters p i)) \<and> counter_reading (snd (set_pin_counters p i)) = counter_reading i"
proof -
  have nt: "nt_of (set_written (i\<lparr>nv_data := x\<rparr>)) = nt_of i" for x by simp
  show "index_wf i \<Longrightarrow> index_wf (snd (nv_set_bits b i)) \<and> counter_reading (snd (nv_set_bits b i)) = counter_reading i"
    by (auto simp: nv_set_bits_def Let_def index_wf_def not_counter_reading split: sum.splits)
  show "index_wf i \<Longrightarrow> index_wf (snd (nv_extend E d i)) \<and> counter_reading (snd (nv_extend E d i)) = counter_reading i"
    by (auto simp: nv_extend_def Let_def index_wf_def not_counter_reading split: sum.splits option.splits)
  show "index_wf i \<Longrightarrow> index_wf (snd (set_pin_counters p i)) \<and> counter_reading (snd (set_pin_counters p i)) = counter_reading i"
    by (auto simp: set_pin_counters_def is_pin_def index_wf_def not_counter_reading)
qed

lemma raise_mark_eq:
  "raise_mark i s = (case counter_reading i of None \<Rightarrow> s
     | Some v \<Rightarrow> s\<lparr>highest_counter := max (highest_counter s) (of_nat v)\<rparr>)"
  by (auto simp: raise_mark_def counter_reading_def split: sum.splits)

lemma counter_reading_bound: "counter_reading i = Some v \<Longrightarrow> v < 2 ^ 64"
proof -
  assume "counter_reading i = Some v"
  then obtain w :: u64 where "v = unat w" by (auto simp: counter_reading_def split: if_splits sum.splits)
  then show "v < 2 ^ 64" using unsigned_less [of w] by simp
qed

lemma unat_max: "unat (max a b) = max (unat a) (unat (b :: 'a::len word))"
  by (simp add: max_def word_le_nat_alt)

lemma store_increment_eq:
  assumes "store_wf s" and "bt_get (indices s) h = Some i" and "nt_of i = nt_COUNTER"
    and "level h s + 1 < 2 ^ 64"
  shows "store_increment h s = (Inr (of_nat (level h s + 1)),
     s\<lparr>indices := bt_update h (set_written (i\<lparr>nv_data := to_be 8 (of_nat (level h s + 1) :: u64)\<rparr>)) (indices s),
       highest_counter := max (highest_counter s) (of_nat (level h s + 1))\<rparr>)"
proof (cases "written i")
  case False
  then have l: "level h s = unat (highest_counter s)" using assms(2) by (simp add: level_def counter_reading_def)
  then have "saturating_add (highest_counter s) 1 = of_nat (level h s + 1)"
    using assms(4) by (simp add: saturating_add_def)
  then show ?thesis
    using assms(2,3) False
    by (simp add: store_increment_def store_at_def nv_increment_def del: to_be.simps of_nat_add of_nat_Suc)
next
  case True
  have "index_wf i" using assms(1,2) by (auto simp: store_wf_def)
  then have len: "length (nv_data i) = 8" using True assms(3) by (simp add: index_wf_def)
  then have l: "level h s = unat (from_be (nv_data i) :: u64)"
    using assms(2,3) True by (simp add: level_def counter_reading_def counter_value_def)
  then have "from_be (nv_data i) + (1 :: u64) = of_nat (level h s + 1)" by simp
  then show ?thesis
    using assms(2,3) True len
    by (simp add: store_increment_def store_at_def nv_increment_def counter_value_def
        del: to_be.simps of_nat_add of_nat_Suc)
qed

lemma store_wf_get: "store_wf s \<Longrightarrow> bt_get (indices s) h = Some i \<Longrightarrow> index_wf i"
  by (auto simp: store_wf_def)

lemma step_ok_define:
  assumes "store_wf s" and "index_wf i" and "\<not> written i"
  shows "step_ok s (snd (store_define i s)) jump"
proof -
  have none: "counter_reading i = None" using assms(3) by (simp add: counter_reading_def)
  then have mark: "raise_mark i s = s" by (simp add: raise_mark_eq)
  show ?thesis
  proof (cases "snd (store_define i s) = s")
    case True
    then show ?thesis using assms(1) by (simp add: step_ok_refl)
  next
    case False
    let ?h = "np_index (nv_public i)"
    let ?t = "s\<lparr>indices := bt_insert ?h i (indices s)\<rparr>"
    have t: "snd (store_define i s) = ?t" and fresh: "bt_get (indices s) ?h = None"
      using False by (auto simp: store_define_def Let_def mark bt_contains_def split: if_splits)
    have "store_wf ?t" using assms(1,2) by (auto simp: store_wf_def)
    moreover have "below (N + 256) ?t" if "below N s" for N
      using that none by (auto simp: below_def intro: trans_le_add1)
    moreover have "level h s \<le> level h ?t" for h
      using fresh none by (cases "h = ?h") (auto simp: level_def split: option.split)
    moreover have "covered ?t" if "covered s"
      using that none unfolding covered_def by auto
    ultimately show ?thesis unfolding t step_ok_def by blast
  qed
qed

lemma step_ok_undefine:
  assumes "store_wf s"
  shows "step_ok s (snd (store_undefine h s)) jump"
proof (cases "bt_get (indices s) h")
  case None
  then show ?thesis using assms by (simp add: store_undefine_def step_ok_refl)
next
  case (Some i)
  define m where "m = (case counter_reading i of None \<Rightarrow> unat (highest_counter s)
    | Some v \<Rightarrow> max (unat (highest_counter s)) v)"
  define t where "t = snd (store_undefine h s)"
  have inds: "indices t = bt_remove h (indices s)"
    by (simp add: t_def store_undefine_def Some raise_mark_eq split: option.split)
  have high: "unat (highest_counter t) = m"
    using counter_reading_bound [of i]
    by (auto simp: t_def store_undefine_def Some raise_mark_eq m_def unat_max unat_of_nat take_bit_eq_mod
        split: option.split)
  have m: "unat (highest_counter s) \<le> m" and mi: "counter_reading i = Some v \<Longrightarrow> v \<le> m" for v
    by (auto simp: m_def split: option.split)
  have "store_wf t" using assms by (auto simp: store_wf_def inds)
  moreover have "below (N + 256) t" if b: "below N s" for N
  proof -
    have "m \<le> N" using b Some by (auto simp: below_def m_def split: option.split)
    then show ?thesis using b by (auto simp: below_def inds high intro: trans_le_add1)
  qed
  moreover have "level k s \<le> level k t" for k
    using Some m mi by (auto simp: level_def inds high split: option.splits)
  moreover have "covered t" if "covered s"
    using that m unfolding covered_def inds high by (auto intro: order_trans split: if_splits)
  ultimately show ?thesis by (simp add: step_ok_def t_def)
qed

lemma step_ok_increment:
  assumes "store_wf s" and "below N s" and "N + 256 < 2 ^ 64"
  shows "step_ok s (snd (store_increment h s)) jump"
proof (cases "bt_get (indices s) h")
  case None
  then show ?thesis using assms(1) by (simp add: store_increment_def store_at_def step_ok_refl)
next
  case (Some i)
  show ?thesis
  proof (cases "nt_of i = nt_COUNTER")
    case False
    then have "snd (store_increment h s) = s\<lparr>indices := bt_update h i (indices s)\<rparr>"
      using Some by (simp add: store_increment_def store_at_def nv_increment_def)
    moreover have "bt_update h i (indices s) = indices s"
      using Some assms(1) by (intro bt_update_get) (simp_all add: store_wf_def)
    ultimately show ?thesis using assms(1) by (simp add: step_ok_refl)
  next
    case True
    define n where "n = level h s + 1"
    have lN: "level h s \<le> N" using assms(2) by (auto simp: level_def below_def split: option.split)
    have wfi: "index_wf i" by (rule store_wf_get [OF assms(1) Some])
    define j where "j = set_written (i\<lparr>nv_data := to_be 8 (of_nat n :: u64)\<rparr>)"
    define t where "t = snd (store_increment h s)"
    have t: "indices t = bt_update h j (indices s)"
      "highest_counter t = max (highest_counter s) (of_nat n)"
      using store_increment_eq [OF assms(1) Some True] lN assms(3)
      by (simp_all add: t_def n_def j_def del: of_nat_add of_nat_Suc to_be.simps)
    have un: "unat (of_nat n :: u64) = n" using lN assms(3) by (intro unat_of_nat_u64) (simp add: n_def)
    have rj: "counter_reading j = Some n"
      using True un by (simp add: j_def counter_reading_def counter_value_def del: to_be.simps)
    have high: "unat (highest_counter t) = max (unat (highest_counter s)) n"
      by (simp only: t unat_max un)
    have wfj: "index_wf j" using wfi by (simp add: j_def index_wf_def)
    have get: "bt_get (indices t) k = (if k = h then Some j else bt_get (indices s) k)" for k
      using Some by (simp add: t)
    have "store_wf t" using assms(1) wfj unfolding store_wf_def get by (auto simp: t)
    moreover have "below (M + 256) t" if b: "below M s" for M
    proof -
      have "n \<le> M + 1" using b by (auto simp: n_def level_def below_def split: option.split)
      then show ?thesis using b rj unfolding below_def high get by (auto intro: trans_le_add1)
    qed
    moreover have "level k s \<le> level k t" for k
      using rj by (auto simp: level_def get high n_def split: option.splits)
    moreover have "covered t" if "covered s"
      using that rj unfolding covered_def high get by (auto simp: le_max_iff_disj)
    ultimately show ?thesis by (simp add: step_ok_def t_def)
  qed
qed

lemma step_ok_clear_owner:
  assumes "store_wf s" and "covered s"
  shows "step_ok s (clear_owner_indices s) jump"
proof -
  let ?t = "clear_owner_indices s"
  have wf: "bt_wf (indices s)" using assms(1) by (simp add: store_wf_def)
  have sub: "bt_get (indices ?t) h = Some i \<Longrightarrow> bt_get (indices s) h = Some i" for h i
    using wf by (auto simp: clear_owner_indices_def bt_get_retain split: option.splits if_splits)
  have high: "highest_counter ?t = highest_counter s" by (simp add: clear_owner_indices_def)
  have "store_wf ?t" using assms(1) sub by (auto simp: store_wf_def clear_owner_indices_def)
  moreover have "below (N + 256) ?t" if "below N s" for N
    using that sub by (fastforce simp: below_def high)
  moreover have "level h s \<le> level h ?t" for h
  proof (cases "bt_get (indices ?t) h")
    case None
    then show ?thesis
      using assms(2) by (auto simp: level_def high covered_def split: option.split)
  next
    case (Some i)
    with sub have "bt_get (indices s) h = Some i" by blast
    with Some show ?thesis by (auto simp: level_def high split: option.split)
  qed
  moreover have "covered ?t" using assms(2) sub by (auto simp: covered_def high)
  ultimately show ?thesis by (simp add: step_ok_def)
qed

lemma step_ok_step:
  assumes "store_wf s" and "op_ok op" and "below N s" and "N + 256 < 2 ^ 64"
    and "op = Clear_owner \<Longrightarrow> covered s"
  shows "step_ok s (nv_step E op s) (is_jump op)"
proof (cases op)
  case (Startup_clear restart disorderly)
  have "step_ok s (on_startup_clear_with restart disorderly s) disorderly"
    by (rule step_ok_pointwise [where g = "\<lambda>_. startup_index restart disorderly"])
       (use assms(1) store_wf_get [OF assms(1)] startup_reading in
         \<open>auto simp: on_startup_clear_with_def store_wf_def\<close>)
  with Startup_clear show ?thesis by simp
next
  case Global_lock
  have "step_ok s (global_write_lock s) False"
    by (rule step_ok_pointwise [where g = "\<lambda>_ i. if attr_has (np_attributes (nv_public i)) nv_GLOBALLOCK
          then set_write_lock True i else i"])
       (use assms(1) store_wf_get [OF assms(1)] locks_harmless in
         \<open>auto simp: global_write_lock_def store_wf_def reading_grows_same\<close>)
  with Global_lock show ?thesis by simp
qed (use assms in \<open>auto intro!: step_ok_at step_ok_define step_ok_undefine step_ok_increment step_ok_clear_owner
       simp: other_types_harmless locks_harmless\<close>)

lemma run_levels:
  assumes "store_wf s" and "list_all op_ok ops" and "below N s" and "N + 256 * length ops < 2 ^ 64"
    and "Clear_owner \<notin> set ops \<or> (covered s \<and> \<not> list_ex is_jump ops)"
  shows "store_wf (run_steps (nv_step E) ops s) \<and> below (N + 256 * length ops) (run_steps (nv_step E) ops s)
    \<and> level h s \<le> level h (run_steps (nv_step E) ops s)"
  using assms
proof (induction ops arbitrary: s N)
  case (Cons op ops)
  let ?t = "nv_step E op s"
  have ok: "step_ok s ?t (is_jump op)"
    using Cons.prems by (intro step_ok_step [where N = N]) auto
  have "store_wf (run_steps (nv_step E) ops ?t)
      \<and> below (N + 256 + 256 * length ops) (run_steps (nv_step E) ops ?t)
      \<and> level h ?t \<le> level h (run_steps (nv_step E) ops ?t)"
    using Cons.prems ok by (intro Cons.IH) (auto simp: step_ok_def)
  moreover have "level h s \<le> level h ?t" using ok by (simp add: step_ok_def)
  ultimately show ?case by (auto simp: ac_simps intro: order_trans)
qed (auto simp: below_mono)

lemma increment_value:
  assumes "store_wf s" and "level h s + 1 < 2 ^ 64" and "store_increment h s = (Inr v, t)"
  shows "unat v = level h s + 1 \<and> level h t = unat v"
proof -
  obtain i where i: "bt_get (indices s) h = Some i" and c: "nt_of i = nt_COUNTER"
    using assms(3) by (auto simp: store_increment_def store_at_def nv_increment_def
        split: option.splits prod.splits sum.splits if_splits)
  note eq = store_increment_eq [OF assms(1) i c assms(2)]
  let ?n = "level h s + 1"
  have u: "unat (of_nat ?n :: u64) = ?n" using assms(2) by (intro unat_of_nat_u64)
  note pr = assms(3) [unfolded eq]
  have v: "v = of_nat ?n" using arg_cong [OF pr, of fst] by (simp only: fst_conv sum.inject)
  have t: "t = s\<lparr>indices := bt_update h (set_written (i\<lparr>nv_data := to_be 8 (of_nat ?n :: u64)\<rparr>)) (indices s),
       highest_counter := max (highest_counter s) (of_nat ?n)\<rparr>"
    using arg_cong [OF pr, of snd] by (simp only: snd_conv)
  have "counter_reading (set_written (i\<lparr>nv_data := to_be 8 (of_nat ?n :: u64)\<rparr>)) = Some (unat (of_nat ?n :: u64))"
    using c by (simp add: counter_reading_def counter_value_def del: to_be.simps of_nat_add of_nat_Suc)
  then have "level h t = unat (of_nat ?n :: u64)"
    using i unfolding t by (simp add: level_def del: to_be.simps of_nat_add of_nat_Suc)
  with u v show ?thesis by simp
qed

text \<open>C27: when a counter never goes back. Over any run of definitions of unwritten indices,
  removals, increments, writes of other types, locks and startups, the level of a handle never falls,
  and whatever an increment answers afterwards is above it, although the index was removed and defined
  again in between. The run is one without \<open>TPM2_Clear\<close>, or one that starts with a mark that covers
  every counter and has no startup after a disorderly shutdown (C36 is a run of the other kind, in which
  a counter goes back); and it is short enough for the counters to stay below \<open>2 ^ 64\<close>, with 256
  allowed for each step since that is how far an orderly counter jumps.\<close>

theorem nv_counters_never_fall:
  assumes "store_wf s" and "list_all op_ok ops" and "below N s" and "N + 256 * (length ops + 1) < 2 ^ 64"
    and "Clear_owner \<notin> set ops \<or> (covered s \<and> \<not> list_ex is_jump ops)"
  shows "level h s \<le> level h (run_steps (nv_step E) ops s)
    \<and> (case store_increment h (run_steps (nv_step E) ops s) of
         (Inl e, t) \<Rightarrow> True
       | (Inr v, t) \<Rightarrow> level h s < unat v \<and> level h t = unat v)"
proof -
  let ?s = "run_steps (nv_step E) ops s"
  have r: "store_wf ?s" "below (N + 256 * length ops) ?s" "level h s \<le> level h ?s"
    using run_levels [OF assms(1-3) _ assms(5), of E h] assms(4) by simp_all
  have "level h ?s \<le> N + 256 * length ops"
    using r(2) by (auto simp: level_def below_def split: option.split)
  then have "level h ?s + 1 < 2 ^ 64" using assms(4) by simp
  with increment_value [OF r(1) this] r(3) show ?thesis
    by (auto split: prod.splits sum.splits)
qed

definition demo_counter :: nv_index where
  "demo_counter = \<lparr>nv_public = \<lparr>np_index = 0x01000001, np_name_alg = alg_SHA256,
     np_attributes = 0x04020012, np_policy = [], np_size = 8\<rparr>,
     nv_auth = [], nv_data = [], read_locked = False, write_locked = False\<rparr>"

lemma demo_counter_facts:
  "index_wf demo_counter" "\<not> written demo_counter" "nt_of demo_counter = nt_COUNTER"
  by (simp_all add: index_wf_def nt_of_def index_type_def NV_TYPE_MASK_def demo_counter_def written_def
      bit_numeral_rec)

theorem nv_counters_never_fall_witness:
  "let ops = [Define demo_counter, Increment 0x01000001, Undefine 0x01000001, Define demo_counter]
   in level 0x01000001 store_new \<le> level 0x01000001 (run_steps (nv_step (demo_env True)) ops store_new)"
  using nv_counters_never_fall [of store_new
      "[Define demo_counter, Increment 0x01000001, Undefine 0x01000001, Define demo_counter]" 0
      "0x01000001" "demo_env True"]
  by (simp add: store_wf_def store_new_def below_def demo_counter_facts)

text \<open>
  The exception is real: after a disorderly shutdown the counter has jumped, and reads, at 255;
  \<open>TPM2_Clear\<close> drops it without raising the mark, and the same index defined again starts at 2.
\<close>

lemma demo_define:
  "highest_counter s = 1 \<or> highest_counter s = 0 \<Longrightarrow> indices s = [] \<Longrightarrow>
     snd (store_define demo_counter s) = s\<lparr>indices := [(0x01000001, demo_counter)]\<rparr>"
  by (simp add: store_define_def Let_def raise_mark_def demo_counter_facts(2) is_nv_handle_def
      bt_contains_def store_available_def store_used_def footprint_def NV_MEMORY_SIZE_def)
     (simp add: demo_counter_def to_bytes_def nv_public_put_def tpm2b_put_def writer_new_def writes_emit sized16_emit
        enc_sized16_def)

text \<open>C36: the counters are monotonic only while the owner's indices are not cleared. An orderly
  counter that has counted to one jumps to 255 at a disorderly startup; TPM2_Clear then removes it
  without raising the high-water mark, and the same index, defined anew, counts from two: an old
  reading can be reproduced.\<close>

theorem jumped_counter_lost_by_clear:
  "let ops = [Define demo_counter, Increment 0x01000001, Startup_clear False True];
       s = run_steps (nv_step (demo_env True)) ops store_new;
       t = run_steps (nv_step (demo_env True)) [Clear_owner, Define demo_counter] s
   in level 0x01000001 s = 255 \<and> fst (store_increment 0x01000001 t) = Inr 2"
proof -
  let ?h = "0x01000001 :: u32" and ?E = "demo_env True"
  let ?i = "set_written (demo_counter\<lparr>nv_data := to_be 8 (1 :: u64)\<rparr>)"
  let ?j = "startup_index False True ?i"
  have inc: "nv_increment m demo_counter = (Inr (m + 1), set_written (demo_counter\<lparr>nv_data := to_be 8 (m + 1)\<rparr>))"
    if "m = 0 \<or> m = 1" for m
    using that by (auto simp: nv_increment_def demo_counter_facts saturating_add_def simp del: to_be.simps)
  have s1: "snd (store_define demo_counter store_new) = \<lparr>indices = [(?h, demo_counter)], highest_counter = 0\<rparr>"
    by (subst demo_define) (simp_all add: store_new_def)
  have s2: "snd (store_increment ?h \<lparr>indices = [(?h, demo_counter)], highest_counter = 0\<rparr>)
      = \<lparr>indices = [(?h, ?i)], highest_counter = 1\<rparr>"
    by (simp add: store_increment_def store_at_def inc bt_update_def del: to_be.simps)
  have s3: "on_startup_clear_with False True \<lparr>indices = [(?h, ?i)], highest_counter = 1\<rparr>
      = \<lparr>indices = [(?h, ?j)], highest_counter = 1\<rparr>"
    by (simp add: on_startup_clear_with_def bt_map_def)
  have wfi: "index_wf ?i" using demo_counter_facts by (simp add: index_wf_def)
  let ?k = "startup_locks False ?i"
  note k = startup_locks_counter [OF wfi, of False]
  have k': "nt_of ?k = nt_COUNTER" "written ?k" "nv_data ?k = to_be 8 (1 :: u64)"
    using k demo_counter_facts by simp_all
  have orderly: "bit (np_attributes (nv_public ?k)) 26"
    by (simp add: startup_locks_def Let_def demo_counter_facts) (simp add: demo_counter_def bit_numeral_rec)
  have j: "?j = ?k\<lparr>nv_data := to_be 8 (255 :: u64)\<rparr>"
    using k' orderly by (simp add: startup_index_def Let_def counter_value_def MAX_ORDERLY_COUNT_def del: to_be.simps)
  have lev: "level ?h \<lparr>indices = [(?h, ?j)], highest_counter = 1\<rparr> = 255"
    using k' unfolding j by (simp add: level_def counter_reading_def counter_value_def del: to_be.simps)
  have "\<not> bit (np_attributes (nv_public ?k)) 30"
    by (simp add: startup_locks_def Let_def demo_counter_facts) (simp add: demo_counter_def bit_numeral_rec)
  then have s4: "clear_owner_indices \<lparr>indices = [(?h, ?j)], highest_counter = 1\<rparr> = \<lparr>indices = [], highest_counter = 1\<rparr>"
    unfolding j by (simp add: clear_owner_indices_def bt_retain_def)
  have s5: "snd (store_define demo_counter \<lparr>indices = [], highest_counter = 1\<rparr>)
      = \<lparr>indices = [(?h, demo_counter)], highest_counter = 1\<rparr>"
    by (subst demo_define) simp_all
  have s6: "fst (store_increment ?h \<lparr>indices = [(?h, demo_counter)], highest_counter = 1\<rparr>) = Inr 2"
    by (simp add: store_increment_def store_at_def inc del: to_be.simps)
  show ?thesis
    by (simp only: Let_def run_steps_simps nv_step.simps s1 s2 s3 s4 s5 s6 lev simp_thms)
qed

end
