(* ===== verification/Schemes.thy ===== *)
theory Schemes
  imports Base
begin

text \<open>
  Algorithm schemes and symmetric definitions (\<open>src/tpm/structures/schemes.rs\<close>): tagged unions
  whose selector decides which details follow. Each reading function is the code's, with the
  response code its interface type calls for; the contract of each is the codec locale.
\<close>

abbreviation (input) alg_MGF1 :: u16 where "alg_MGF1 \<equiv> 0x0007"
abbreviation (input) alg_RSASSA :: u16 where "alg_RSASSA \<equiv> 0x0014"
abbreviation (input) alg_RSAES :: u16 where "alg_RSAES \<equiv> 0x0015"
abbreviation (input) alg_RSAPSS :: u16 where "alg_RSAPSS \<equiv> 0x0016"
abbreviation (input) alg_OAEP :: u16 where "alg_OAEP \<equiv> 0x0017"
abbreviation (input) alg_ECDSA :: u16 where "alg_ECDSA \<equiv> 0x0018"
abbreviation (input) alg_ECDH :: u16 where "alg_ECDH \<equiv> 0x0019"
abbreviation (input) alg_ECDAA :: u16 where "alg_ECDAA \<equiv> 0x001A"
abbreviation (input) alg_SM2 :: u16 where "alg_SM2 \<equiv> 0x001B"
abbreviation (input) alg_ECSCHNORR :: u16 where "alg_ECSCHNORR \<equiv> 0x001C"
abbreviation (input) alg_ECMQV :: u16 where "alg_ECMQV \<equiv> 0x001D"
abbreviation (input) alg_HKDF :: u16 where "alg_HKDF \<equiv> 0x001F"
abbreviation (input) alg_KDF1_SP800_56A :: u16 where "alg_KDF1_SP800_56A \<equiv> 0x0020"
abbreviation (input) alg_KDF2 :: u16 where "alg_KDF2 \<equiv> 0x0021"
abbreviation (input) alg_KDF1_SP800_108 :: u16 where "alg_KDF1_SP800_108 \<equiv> 0x0022"
abbreviation (input) rc_KDF :: u32 where "rc_KDF \<equiv> 0x08C"

section \<open>Details\<close>

record scheme_ecdaa =
  ecdaa_hash :: u16
  ecdaa_count :: u16

record scheme_xor =
  xor_hash :: u16
  xor_kdf :: u16

definition is_anonymous :: "u16 \<Rightarrow> bool" where
  "is_anonymous s = (s = alg_ECDAA)"

definition is_kdf :: "u16 \<Rightarrow> bool" where
  "is_kdf i = (i = alg_MGF1 \<or> i = alg_KDF1_SP800_56A \<or> i = alg_KDF2 \<or> i = alg_KDF1_SP800_108 \<or> i = alg_HKDF)"

definition scheme_hash_put :: "u16 \<Rightarrow> writer \<Rightarrow> writer" where
  "scheme_hash_put h w = w_u16 h w"

definition scheme_hash_get :: "env \<Rightarrow> reader \<Rightarrow> (u16 \<times> reader) tpm_result" where
  "scheme_hash_get E r =
     res_bind (r_u16 r) (\<lambda>(h, r). if digest_size E h = None then Inl rc_HASH else Inr (h, r))"

definition scheme_ecdaa_put :: "scheme_ecdaa \<Rightarrow> writer \<Rightarrow> writer" where
  "scheme_ecdaa_put e w = w_u16 (ecdaa_count e) (w_u16 (ecdaa_hash e) w)"

definition scheme_ecdaa_get :: "env \<Rightarrow> reader \<Rightarrow> (scheme_ecdaa \<times> reader) tpm_result" where
  "scheme_ecdaa_get E r =
     res_bind (r_u16 r) (\<lambda>(h, r).
       if digest_size E h = None then Inl rc_HASH
       else res_bind (r_u16 r) (\<lambda>(c, r). Inr (\<lparr>ecdaa_hash = h, ecdaa_count = c\<rparr>, r)))"

definition scheme_xor_put :: "scheme_xor \<Rightarrow> writer \<Rightarrow> writer" where
  "scheme_xor_put x w = w_u16 (xor_kdf x) (w_u16 (xor_hash x) w)"

definition scheme_xor_get :: "env \<Rightarrow> reader \<Rightarrow> (scheme_xor \<times> reader) tpm_result" where
  "scheme_xor_get E r =
     res_bind (r_u16 r) (\<lambda>(h, r).
       if digest_size E h = None then Inl rc_HASH
       else res_bind (r_u16 r) (\<lambda>(k, r).
         if \<not> is_kdf k then Inl rc_KDF else Inr (\<lparr>xor_hash = h, xor_kdf = k\<rparr>, r)))"

datatype scheme_detail = No_detail | Hash_detail u16 | Ecdaa_detail scheme_ecdaa | Xor_detail scheme_xor

fun detail_hash_alg :: "scheme_detail \<Rightarrow> u16 option" where
  "detail_hash_alg No_detail = None"
| "detail_hash_alg (Hash_detail h) = Some h"
| "detail_hash_alg (Ecdaa_detail e) = Some (ecdaa_hash e)"
| "detail_hash_alg (Xor_detail x) = Some (xor_hash x)"

datatype detail_kind = Kind_empty | Kind_hash | Kind_ecdaa | Kind_xor

section \<open>Selectors\<close>

definition is_rsa_scheme :: "u16 \<Rightarrow> bool" where
  "is_rsa_scheme s =
     (s = alg_RSASSA \<or> s = alg_RSAPSS \<or> s = alg_RSAES \<or> s = alg_OAEP \<or> s = alg_NULL)"

definition is_rsa_decrypt_scheme :: "u16 \<Rightarrow> bool" where
  "is_rsa_decrypt_scheme s = (s = alg_RSAES \<or> s = alg_OAEP \<or> s = alg_NULL)"

definition is_ecc_scheme :: "u16 \<Rightarrow> bool" where
  "is_ecc_scheme s =
     (s = alg_ECDSA \<or> s = alg_ECDAA \<or> s = alg_SM2 \<or> s = alg_ECSCHNORR \<or> s = alg_ECDH
      \<or> s = alg_ECMQV \<or> s = alg_NULL)"

definition is_signature_scheme :: "u16 \<Rightarrow> bool" where
  "is_signature_scheme s =
     (s = alg_RSASSA \<or> s = alg_RSAPSS \<or> s = alg_ECDSA \<or> s = alg_ECDAA \<or> s = alg_SM2
      \<or> s = alg_ECSCHNORR \<or> s = alg_HMAC \<or> s = alg_NULL)"

definition asym_detail_kind :: "u16 \<Rightarrow> detail_kind option" where
  "asym_detail_kind s =
     (if s = alg_NULL then Some Kind_empty
      else if s = alg_RSAES then Some Kind_empty
      else if s = alg_RSASSA \<or> s = alg_RSAPSS \<or> s = alg_OAEP then Some Kind_hash
      else if s = alg_ECDSA \<or> s = alg_ECSCHNORR \<or> s = alg_SM2 then Some Kind_hash
      else if s = alg_ECDH \<or> s = alg_ECMQV then Some Kind_hash
      else if s = alg_ECDAA then Some Kind_ecdaa
      else if s = alg_HMAC then Some Kind_hash
      else None)"

definition read_detail :: "env \<Rightarrow> detail_kind \<Rightarrow> reader \<Rightarrow> (scheme_detail \<times> reader) tpm_result" where
  "read_detail E k r =
     (case k of
        Kind_empty \<Rightarrow> Inr (No_detail, r)
      | Kind_hash \<Rightarrow> res_bind (scheme_hash_get E r) (\<lambda>(h, r). Inr (Hash_detail h, r))
      | Kind_ecdaa \<Rightarrow> res_bind (scheme_ecdaa_get E r) (\<lambda>(e, r). Inr (Ecdaa_detail e, r))
      | Kind_xor \<Rightarrow> res_bind (scheme_xor_get E r) (\<lambda>(x, r). Inr (Xor_detail x, r)))"

fun write_detail :: "scheme_detail \<Rightarrow> writer \<Rightarrow> writer" where
  "write_detail No_detail w = w"
| "write_detail (Hash_detail h) w = scheme_hash_put h w"
| "write_detail (Ecdaa_detail e) w = scheme_ecdaa_put e w"
| "write_detail (Xor_detail x) w = scheme_xor_put x w"

record scheme =
  scheme_alg :: u16
  scheme_detail :: scheme_detail

definition scheme_null :: scheme where
  "scheme_null = \<lparr>scheme_alg = alg_NULL, scheme_detail = No_detail\<rparr>"

definition scheme_of_ecdaa :: "u16 \<Rightarrow> u16 \<Rightarrow> scheme" where
  "scheme_of_ecdaa h c =
     \<lparr>scheme_alg = alg_ECDAA, scheme_detail = Ecdaa_detail \<lparr>ecdaa_hash = h, ecdaa_count = c\<rparr>\<rparr>"

definition scheme_of_hash :: "u16 \<Rightarrow> u16 \<Rightarrow> scheme" where
  "scheme_of_hash s h = \<lparr>scheme_alg = s, scheme_detail = Hash_detail h\<rparr>"

definition scheme_is_null :: "scheme \<Rightarrow> bool" where
  "scheme_is_null s = (scheme_alg s = alg_NULL)"

definition scheme_hash_alg :: "scheme \<Rightarrow> u16 option" where
  "scheme_hash_alg s = detail_hash_alg (scheme_detail s)"

definition scheme_put :: "scheme \<Rightarrow> writer \<Rightarrow> writer" where
  "scheme_put s w = write_detail (scheme_detail s) (w_u16 (scheme_alg s) w)"

definition unmarshal_checked ::
  "env \<Rightarrow> (u16 \<Rightarrow> bool) \<Rightarrow> u32 \<Rightarrow> reader \<Rightarrow> (scheme \<times> reader) tpm_result" where
  "unmarshal_checked E accepts code r =
     res_bind (r_u16 r) (\<lambda>(s, r).
       if \<not> accepts s then Inl code
       else res_bind (ok_or (asym_detail_kind s) code) (\<lambda>kind.
         res_bind (read_detail E kind r) (\<lambda>(d, r).
           Inr (\<lparr>scheme_alg = s, scheme_detail = d\<rparr>, r))))"

definition unmarshal_rsa_scheme :: "env \<Rightarrow> reader \<Rightarrow> (scheme \<times> reader) tpm_result" where
  "unmarshal_rsa_scheme E = unmarshal_checked E is_rsa_scheme rc_VALUE"

definition unmarshal_rsa_decrypt :: "env \<Rightarrow> reader \<Rightarrow> (scheme \<times> reader) tpm_result" where
  "unmarshal_rsa_decrypt E = unmarshal_checked E is_rsa_decrypt_scheme rc_VALUE"

definition unmarshal_ecc_scheme :: "env \<Rightarrow> reader \<Rightarrow> (scheme \<times> reader) tpm_result" where
  "unmarshal_ecc_scheme E = unmarshal_checked E is_ecc_scheme rc_SCHEME"

definition unmarshal_sig_scheme :: "env \<Rightarrow> reader \<Rightarrow> (scheme \<times> reader) tpm_result" where
  "unmarshal_sig_scheme E = unmarshal_checked E is_signature_scheme rc_SCHEME"

definition unmarshal_asym :: "env \<Rightarrow> reader \<Rightarrow> (scheme \<times> reader) tpm_result" where
  "unmarshal_asym E = unmarshal_checked E (\<lambda>s. asym_detail_kind s \<noteq> None) rc_SCHEME"

definition keyedhash_kind :: "u16 \<Rightarrow> detail_kind option" where
  "keyedhash_kind s =
     (if s = alg_NULL then Some Kind_empty
      else if s = alg_HMAC then Some Kind_hash
      else if s = alg_XOR then Some Kind_xor
      else None)"

definition unmarshal_keyedhash :: "env \<Rightarrow> reader \<Rightarrow> (scheme \<times> reader) tpm_result" where
  "unmarshal_keyedhash E r =
     res_bind (r_u16 r) (\<lambda>(s, r).
       case keyedhash_kind s of None \<Rightarrow> Inl rc_SCHEME
       | Some kind \<Rightarrow> res_bind (read_detail E kind r) (\<lambda>(d, r).
           Inr (\<lparr>scheme_alg = s, scheme_detail = d\<rparr>, r)))"

definition kdf_kind :: "u16 \<Rightarrow> detail_kind option" where
  "kdf_kind s =
     (if s = alg_NULL then Some Kind_empty else if is_kdf s then Some Kind_hash else None)"

definition unmarshal_kdf :: "env \<Rightarrow> reader \<Rightarrow> (scheme \<times> reader) tpm_result" where
  "unmarshal_kdf E r =
     res_bind (r_u16 r) (\<lambda>(s, r).
       case kdf_kind s of None \<Rightarrow> Inl rc_KDF
       | Some kind \<Rightarrow> res_bind (read_detail E kind r) (\<lambda>(d, r).
           Inr (\<lparr>scheme_alg = s, scheme_detail = d\<rparr>, r)))"

section \<open>Symmetric definitions\<close>

record sym_def =
  sym_alg :: u16
  sym_key_bits :: u16
  sym_mode :: u16

definition sym_null :: sym_def where
  "sym_null = \<lparr>sym_alg = alg_NULL, sym_key_bits = 0, sym_mode = 0\<rparr>"

definition sym_new :: "u16 \<Rightarrow> u16 \<Rightarrow> u16 \<Rightarrow> sym_def" where
  "sym_new a k m = \<lparr>sym_alg = a, sym_key_bits = k, sym_mode = m\<rparr>"

definition sym_is_null :: "sym_def \<Rightarrow> bool" where
  "sym_is_null d = (sym_alg d = alg_NULL)"

definition is_block_cipher :: "u16 \<Rightarrow> bool" where
  "is_block_cipher i = (i = alg_AES)"

definition is_mode :: "u16 \<Rightarrow> bool" where
  "is_mode i = (i = alg_CTR \<or> i = alg_OFB \<or> i = alg_CBC \<or> i = alg_CFB \<or> i = alg_ECB)"

definition is_key_size :: "u16 \<Rightarrow> u16 \<Rightarrow> bool" where
  "is_key_size a k = (if a = alg_AES then k \<in> {128, 192, 256} else False)"

definition sym_def_get :: "env \<Rightarrow> reader \<Rightarrow> (sym_def \<times> reader) tpm_result" where
  "sym_def_get E r =
     res_bind (r_u16 r) (\<lambda>(a, r).
       if a = alg_NULL then Inr (sym_null, r)
       else if a = alg_XOR then
         res_bind (r_u16 r) (\<lambda>(k, r).
           if digest_size E k = None then Inl rc_HASH
           else Inr (\<lparr>sym_alg = a, sym_key_bits = k, sym_mode = alg_NULL\<rparr>, r))
       else if \<not> is_block_cipher a then Inl rc_SYMMETRIC
       else res_bind (r_u16 r) (\<lambda>(k, r).
         if \<not> is_key_size a k then Inl rc_VALUE
         else res_bind (r_u16 r) (\<lambda>(m, r).
           if \<not> is_mode m then Inl rc_MODE
           else Inr (\<lparr>sym_alg = a, sym_key_bits = k, sym_mode = m\<rparr>, r))))"

definition sym_def_object_get :: "env \<Rightarrow> reader \<Rightarrow> (sym_def \<times> reader) tpm_result" where
  "sym_def_object_get E r =
     res_bind (sym_def_get E r) (\<lambda>(d, r).
       if sym_alg d = alg_XOR then Inl rc_SYMMETRIC else Inr (d, r))"

definition sym_def_put :: "sym_def \<Rightarrow> writer \<Rightarrow> writer" where
  "sym_def_put d w =
     (let w = w_u16 (sym_alg d) w
      in if sym_alg d = alg_NULL then w
         else let w = w_u16 (sym_key_bits d) w
              in if sym_alg d \<noteq> alg_XOR then w_u16 (sym_mode d) w else w)"

section \<open>Points of a curve\<close>

record ecc_point =
  pt_x :: bytes
  pt_y :: bytes

definition ecc_point_empty :: ecc_point where
  "ecc_point_empty = \<lparr>pt_x = [], pt_y = []\<rparr>"

definition ecc_point_is_empty :: "ecc_point \<Rightarrow> bool" where
  "ecc_point_is_empty p = (pt_x p = [] \<and> pt_y p = [])"

definition MAX_ECC_KEY_BYTES :: nat where "MAX_ECC_KEY_BYTES = 66"

definition ecc_point_put :: "ecc_point \<Rightarrow> writer \<Rightarrow> writer" where
  "ecc_point_put p w = tpm2b_put (pt_y p) (tpm2b_put (pt_x p) w)"

definition ecc_point_get :: "reader \<Rightarrow> (ecc_point \<times> reader) tpm_result" where
  "ecc_point_get r =
     res_bind (tpm2b_get MAX_ECC_KEY_BYTES r) (\<lambda>(x, r).
     res_bind (tpm2b_get MAX_ECC_KEY_BYTES r) (\<lambda>(y, r).
       Inr (\<lparr>pt_x = x, pt_y = y\<rparr>, r)))"

definition tpm2b_ecc_point_put :: "ecc_point \<Rightarrow> writer \<Rightarrow> writer" where
  "tpm2b_ecc_point_put p = sized16_with (ecc_point_put p)"

definition tpm2b_ecc_point_get :: "reader \<Rightarrow> (ecc_point \<times> reader) tpm_result" where
  "tpm2b_ecc_point_get = unmarshal_sized ecc_point_get"

section \<open>The contracts\<close>

fun detail_fits :: "env \<Rightarrow> detail_kind \<Rightarrow> scheme_detail \<Rightarrow> bool" where
  "detail_fits E Kind_empty No_detail = True"
| "detail_fits E Kind_hash (Hash_detail h) = (digest_size E h \<noteq> None)"
| "detail_fits E Kind_ecdaa (Ecdaa_detail e) = (digest_size E (ecdaa_hash e) \<noteq> None)"
| "detail_fits E Kind_xor (Xor_detail x) = (digest_size E (xor_hash x) \<noteq> None \<and> is_kdf (xor_kdf x))"
| "detail_fits E _ _ = False"

fun detail_enc :: "scheme_detail \<Rightarrow> bytes" where
  "detail_enc No_detail = []"
| "detail_enc (Hash_detail h) = to_be 2 h"
| "detail_enc (Ecdaa_detail e) = to_be 2 (ecdaa_hash e) @ to_be 2 (ecdaa_count e)"
| "detail_enc (Xor_detail x) = to_be 2 (xor_hash x) @ to_be 2 (xor_kdf x)"

definition scheme_enc :: "scheme \<Rightarrow> bytes" where
  "scheme_enc s = to_be 2 (scheme_alg s) @ detail_enc (scheme_detail s)"

lemmas scheme_reads = scheme_hash_get_def scheme_ecdaa_get_def scheme_xor_get_def
lemmas scheme_writes = scheme_hash_put_def scheme_ecdaa_put_def scheme_xor_put_def

lemma detail_codec: "codec (read_detail E k) write_detail detail_enc (detail_fits E k)"
proof
  show "consumes r r'" if "read_detail E k r = Inr (d, r')" for r d r'
    using that
    by (cases k) (auto simp: read_detail_def scheme_reads res_bind_eq_Inr split: if_splits
        dest!: reads_consume intro: consumes_trans)
  show "write_detail d w = emit (detail_enc d) w" for d w
    by (cases d) (simp_all add: scheme_writes writes_emit)
  show "read_detail E k r = Inr (d, advance (length (detail_enc d)) r)"
    if "detail_fits E k d" and "rest r = detail_enc d @ t" for d r t
    using that
    by (induction E k d rule: detail_fits.induct)
       (auto simp: read_detail_def scheme_reads r_u16_append)
qed

text \<open>A selector and the detail of the kind it calls for.\<close>

definition tagged_get :: "env \<Rightarrow> (u16 \<Rightarrow> detail_kind option) \<Rightarrow> u32 \<Rightarrow> reader \<Rightarrow> (scheme \<times> reader) tpm_result" where
  "tagged_get E kind code r =
     res_bind (r_u16 r) (\<lambda>(s, r).
       case kind s of None \<Rightarrow> Inl code
       | Some k \<Rightarrow> res_bind (read_detail E k r) (\<lambda>(d, r).
           Inr (\<lparr>scheme_alg = s, scheme_detail = d\<rparr>, r)))"

definition scheme_fits :: "env \<Rightarrow> (u16 \<Rightarrow> detail_kind option) \<Rightarrow> scheme \<Rightarrow> bool" where
  "scheme_fits E kind s =
     (case kind (scheme_alg s) of None \<Rightarrow> False | Some k \<Rightarrow> detail_fits E k (scheme_detail s))"

definition accepted :: "(u16 \<Rightarrow> bool) \<Rightarrow> u16 \<Rightarrow> detail_kind option" where
  "accepted accepts s = (if accepts s then asym_detail_kind s else None)"

lemma unmarshal_checked_tagged: "unmarshal_checked E accepts code = tagged_get E (accepted accepts) code"
  by (auto simp: fun_eq_iff unmarshal_checked_def tagged_get_def accepted_def ok_or_def res_bind_def
      split: option.splits sum.splits)

lemma tagged_codec: "codec (tagged_get E kind code) scheme_put scheme_enc (scheme_fits E kind)"
proof
  fix r s r' assume "tagged_get E kind code r = Inr (s, r')"
  then show "consumes r r'"
    by (auto simp: tagged_get_def res_bind_eq_Inr split: option.splits
        dest!: reads_consume decoder.get_consumes [OF codec.axioms(1) [OF detail_codec]])
       (blast intro: consumes_trans)
next
  fix s w assume "scheme_fits E kind s"
  then show "scheme_put s w = emit (scheme_enc s) w"
    by (auto simp: scheme_put_def scheme_enc_def scheme_fits_def codec.put_enc [OF detail_codec] writes_emit
        split: option.splits)
next
  fix s r t assume ok: "scheme_fits E kind s" and r: "rest r = scheme_enc s @ t"
  obtain k where k: "kind (scheme_alg s) = Some k" "detail_fits E k (scheme_detail s)"
    using ok by (auto simp: scheme_fits_def split: option.splits)
  have "r_u16 r = Inr (scheme_alg s, advance 2 r)"
    using r by (simp add: scheme_enc_def r_u16_append)
  moreover have "read_detail E k (advance 2 r)
      = Inr (scheme_detail s, advance (length (detail_enc (scheme_detail s))) (advance 2 r))"
    by (rule codec.get_enc [OF detail_codec, where t = t]) (use k r in \<open>simp_all add: scheme_enc_def\<close>)
  ultimately show "tagged_get E kind code r = Inr (s, advance (length (scheme_enc s)) r)"
    using k by (simp add: tagged_get_def scheme_enc_def)
qed

lemma unmarshal_keyedhash_tagged: "unmarshal_keyedhash E = tagged_get E keyedhash_kind rc_SCHEME"
  by (simp add: fun_eq_iff unmarshal_keyedhash_def tagged_get_def)

lemma unmarshal_kdf_tagged: "unmarshal_kdf E = tagged_get E kdf_kind rc_KDF"
  by (simp add: fun_eq_iff unmarshal_kdf_def tagged_get_def)

interpretation rsa_scheme: codec "unmarshal_rsa_scheme E" scheme_put scheme_enc
    "scheme_fits E (accepted is_rsa_scheme)"
  by (simp add: unmarshal_rsa_scheme_def unmarshal_checked_tagged tagged_codec)

interpretation rsa_decrypt: codec "unmarshal_rsa_decrypt E" scheme_put scheme_enc
    "scheme_fits E (accepted is_rsa_decrypt_scheme)"
  by (simp add: unmarshal_rsa_decrypt_def unmarshal_checked_tagged tagged_codec)

interpretation ecc_scheme: codec "unmarshal_ecc_scheme E" scheme_put scheme_enc
    "scheme_fits E (accepted is_ecc_scheme)"
  by (simp add: unmarshal_ecc_scheme_def unmarshal_checked_tagged tagged_codec)

interpretation sig_scheme: codec "unmarshal_sig_scheme E" scheme_put scheme_enc
    "scheme_fits E (accepted is_signature_scheme)"
  by (simp add: unmarshal_sig_scheme_def unmarshal_checked_tagged tagged_codec)

interpretation asym_scheme: codec "unmarshal_asym E" scheme_put scheme_enc
    "scheme_fits E (accepted (\<lambda>s. asym_detail_kind s \<noteq> None))"
  by (simp add: unmarshal_asym_def unmarshal_checked_tagged tagged_codec)

interpretation keyedhash_scheme: codec "unmarshal_keyedhash E" scheme_put scheme_enc
    "scheme_fits E keyedhash_kind"
  by (simp add: unmarshal_keyedhash_tagged tagged_codec)

interpretation kdf_scheme: codec "unmarshal_kdf E" scheme_put scheme_enc "scheme_fits E kdf_kind"
  by (simp add: unmarshal_kdf_tagged tagged_codec)

definition sym_def_ok :: "env \<Rightarrow> sym_def \<Rightarrow> bool" where
  "sym_def_ok E d =
     (if sym_alg d = alg_NULL then d = sym_null
      else if sym_alg d = alg_XOR then digest_size E (sym_key_bits d) \<noteq> None \<and> sym_mode d = alg_NULL
      else is_block_cipher (sym_alg d) \<and> is_key_size (sym_alg d) (sym_key_bits d) \<and> is_mode (sym_mode d))"

definition sym_def_enc :: "sym_def \<Rightarrow> bytes" where
  "sym_def_enc d = to_be 2 (sym_alg d)
     @ (if sym_alg d = alg_NULL then [] else to_be 2 (sym_key_bits d)
        @ (if sym_alg d = alg_XOR then [] else to_be 2 (sym_mode d)))"

interpretation sym_def: codec "sym_def_get E" sym_def_put sym_def_enc "sym_def_ok E"
proof
  show "consumes r r'" if "sym_def_get E r = Inr (d, r')" for r d r'
    using that
    by (auto simp: sym_def_get_def res_bind_eq_Inr split: if_splits dest!: reads_consume)
       (blast intro: consumes_trans)+
  show "sym_def_put d w = emit (sym_def_enc d) w" for d w
    by (simp add: sym_def_put_def sym_def_enc_def writes_emit Let_def)
  show "sym_def_get E r = Inr (d, advance (length (sym_def_enc d)) r)"
    if "sym_def_ok E d" and "rest r = sym_def_enc d @ t" for d r t
    using that
    by (auto simp: sym_def_get_def sym_def_ok_def sym_def_enc_def r_u16_append sym_null_def split: if_splits)
qed

interpretation ecc_param: codec "tpm2b_get MAX_ECC_KEY_BYTES" tpm2b_put enc_sized16
    "\<lambda>b. length b \<le> MAX_ECC_KEY_BYTES"
  by (rule tpm2b_codec) (simp add: MAX_ECC_KEY_BYTES_def)

definition ecc_point_ok :: "ecc_point \<Rightarrow> bool" where
  "ecc_point_ok p = (length (pt_x p) \<le> MAX_ECC_KEY_BYTES \<and> length (pt_y p) \<le> MAX_ECC_KEY_BYTES)"

definition ecc_point_enc :: "ecc_point \<Rightarrow> bytes" where
  "ecc_point_enc p = enc_sized16 (pt_x p) @ enc_sized16 (pt_y p)"

interpretation ecc_point: codec ecc_point_get ecc_point_put ecc_point_enc ecc_point_ok
  unfolding ecc_point_get_def [abs_def] ecc_point_put_def [abs_def] ecc_point_enc_def [abs_def] ecc_point_ok_def [abs_def]
  by (rule codec_pair [OF ecc_param.codec_axioms ecc_param.codec_axioms]) simp

interpretation tpm2b_ecc_point: codec tpm2b_ecc_point_get tpm2b_ecc_point_put
    "\<lambda>p. enc_sized16 (ecc_point_enc p)" "\<lambda>p. ecc_point_ok p \<and> length (ecc_point_enc p) < 2 ^ 16"
  unfolding tpm2b_ecc_point_get_def [abs_def] tpm2b_ecc_point_put_def [abs_def]
  by (rule ecc_point.sized_codec)

section \<open>Only canonical encodings are accepted\<close>

lemma detail_canonical:
  "read_detail E k r = Inr (d, r') \<Longrightarrow> detail_fits E k d \<and> rest r = detail_enc d @ rest r'"
  by (cases k)
     (auto simp: read_detail_def scheme_reads res_bind_eq_Inr split: if_splits dest!: reads_canonical)

lemma tagged_canonical: "canonical_codec (tagged_get E kind code) scheme_put scheme_enc (scheme_fits E kind)"
proof (rule canonical_codec.intro [OF tagged_codec canonical_codec_axioms.intro])
  fix r s r' assume "tagged_get E kind code r = Inr (s, r')"
  then obtain a d k r1 where "r_u16 r = Inr (a, r1)" and "kind a = Some k"
    and "read_detail E k r1 = Inr (d, r')" and "s = \<lparr>scheme_alg = a, scheme_detail = d\<rparr>"
    by (auto simp: tagged_get_def res_bind_eq_Inr split: option.splits)
  then show "scheme_fits E kind s \<and> rest r = scheme_enc s @ rest r'"
    using detail_canonical [of E k r1 d r'] by (auto simp: scheme_fits_def scheme_enc_def dest!: r_int_canonical)
qed

interpretation rsa_scheme: canonical_codec "unmarshal_rsa_scheme E" scheme_put scheme_enc
    "scheme_fits E (accepted is_rsa_scheme)"
  by (simp add: unmarshal_rsa_scheme_def unmarshal_checked_tagged tagged_canonical)

interpretation ecc_scheme: canonical_codec "unmarshal_ecc_scheme E" scheme_put scheme_enc
    "scheme_fits E (accepted is_ecc_scheme)"
  by (simp add: unmarshal_ecc_scheme_def unmarshal_checked_tagged tagged_canonical)

interpretation sig_scheme: canonical_codec "unmarshal_sig_scheme E" scheme_put scheme_enc
    "scheme_fits E (accepted is_signature_scheme)"
  by (simp add: unmarshal_sig_scheme_def unmarshal_checked_tagged tagged_canonical)

interpretation keyedhash_scheme: canonical_codec "unmarshal_keyedhash E" scheme_put scheme_enc
    "scheme_fits E keyedhash_kind"
  by (simp add: unmarshal_keyedhash_tagged tagged_canonical)

interpretation kdf_scheme: canonical_codec "unmarshal_kdf E" scheme_put scheme_enc "scheme_fits E kdf_kind"
  by (simp add: unmarshal_kdf_tagged tagged_canonical)

interpretation sym_def: canonical_codec "sym_def_get E" sym_def_put sym_def_enc "sym_def_ok E"
proof
  show "sym_def_ok E d \<and> rest r = sym_def_enc d @ rest r'" if "sym_def_get E r = Inr (d, r')" for r d r'
    using that
    by (auto simp: sym_def_get_def res_bind_eq_Inr sym_def_ok_def sym_def_enc_def sym_null_def
        is_block_cipher_def split: if_splits)
       (drule r_int_canonical, simp)+
qed

text \<open>The parsers of algorithm schemes and symmetric definitions accept exactly the encodings
  of the values their interface types allow: a block of octets is read as \<open>s\<close> just when \<open>s\<close> has
  a permitted selector with the detail that selector calls for, naming hashes and key derivation
  functions the TPM has, and the octets are its marshalled form.\<close>

theorem scheme_parsers_exact:
  "(from_bytes (unmarshal_rsa_scheme E) b = Inr s
      \<longleftrightarrow> scheme_fits E (accepted is_rsa_scheme) s \<and> b = to_bytes scheme_put s)
   \<and> (from_bytes (unmarshal_ecc_scheme E) b = Inr s
      \<longleftrightarrow> scheme_fits E (accepted is_ecc_scheme) s \<and> b = to_bytes scheme_put s)
   \<and> (from_bytes (unmarshal_sig_scheme E) b = Inr s
      \<longleftrightarrow> scheme_fits E (accepted is_signature_scheme) s \<and> b = to_bytes scheme_put s)
   \<and> (from_bytes (unmarshal_keyedhash E) b = Inr s
      \<longleftrightarrow> scheme_fits E keyedhash_kind s \<and> b = to_bytes scheme_put s)
   \<and> (from_bytes (unmarshal_kdf E) b = Inr s
      \<longleftrightarrow> scheme_fits E kdf_kind s \<and> b = to_bytes scheme_put s)
   \<and> (from_bytes (sym_def_get E) b = Inr d \<longleftrightarrow> sym_def_ok E d \<and> b = to_bytes sym_def_put d)"
  by (intro conjI rsa_scheme.from_bytes_iff ecc_scheme.from_bytes_iff sig_scheme.from_bytes_iff
      keyedhash_scheme.from_bytes_iff kdf_scheme.from_bytes_iff sym_def.from_bytes_iff)

end
