(* ===== verification/Session.thy ===== *)
theory Session
  imports Schemes BTreeMap
begin

text \<open>
  Authorization sessions (\<open>src/tpm/core/session.rs\<close>, and \<open>constant_time_eq\<close> of
  \<open>src/tpm/core/protect.rs\<close>): the state a session carries, the keys and digests that authorize
  a command, and the slots that track loaded and saved sessions. Handles and identifiers are
  words of the code's width, the identifier counters saturate as the code's do.
\<close>

section \<open>Policy state\<close>

record policy_state =
  pol_digest :: bytes
  pol_command_code :: "u32 option"
  pol_cp_hash :: "bytes option"
  pol_name_hash :: "bytes option"
  pol_locality :: "u8 option"
  pol_pcr_counter :: "u32 option"
  auth_value_needed :: bool
  password_needed :: bool
  pol_nv_written :: "bool option"
  template_hash :: "bytes option"
  parameters_hash :: "bytes option"
  pp_required :: bool
  channel_required :: bool
  channel_key_hash :: "bytes option"
  expiration :: "u64 option"
  timeout_nonce :: bytes

definition policy_default :: policy_state where
  "policy_default = \<lparr>pol_digest = [], pol_command_code = None, pol_cp_hash = None, pol_name_hash = None,
     pol_locality = None, pol_pcr_counter = None, auth_value_needed = False, password_needed = False,
     pol_nv_written = None, template_hash = None, parameters_hash = None, pp_required = False,
     channel_required = False, channel_key_hash = None, expiration = None, timeout_nonce = []\<rparr>"

definition w_bool :: "bool \<Rightarrow> writer \<Rightarrow> writer" where
  "w_bool b = w_u8 (if b then 1 else 0)"

definition r_bool :: "reader \<Rightarrow> (bool \<times> reader) tpm_result" where
  "r_bool r = res_bind (r_u8 r) (\<lambda>(b, r). Inr (b \<noteq> 0, r))"

text \<open>The flag octet in front of an optional value.\<close>

definition w_option :: "('a \<Rightarrow> writer \<Rightarrow> writer) \<Rightarrow> 'a option \<Rightarrow> writer \<Rightarrow> writer" where
  "w_option put v w = (case v of Some x \<Rightarrow> put x (w_u8 1 w) | None \<Rightarrow> w_u8 0 w)"

definition r_option :: "(reader \<Rightarrow> ('a \<times> reader) tpm_result) \<Rightarrow> reader \<Rightarrow> ('a option \<times> reader) tpm_result" where
  "r_option get r =
     res_bind (r_u8 r) (\<lambda>(f, r).
       if f = 0 then Inr (None, r) else res_bind (get r) (\<lambda>(x, r). Inr (Some x, r)))"

definition r_sized :: "reader \<Rightarrow> (bytes \<times> reader) tpm_result" where
  "r_sized r = res_bind (r_u16 r) (\<lambda>(n, r). r_take (unat n) r)"

definition policy_put :: "policy_state \<Rightarrow> writer \<Rightarrow> writer" where
  "policy_put p w =
     (let w = sized16 (pol_digest p) w;
          w = w_option w_u32 (pol_command_code p) w;
          w = w_option sized16 (pol_cp_hash p) w;
          w = w_option sized16 (pol_name_hash p) w;
          w = w_option w_u8 (pol_locality p) w;
          w = w_option w_u32 (pol_pcr_counter p) w;
          w = w_bool (auth_value_needed p) w;
          w = w_bool (password_needed p) w;
          w = w_option w_bool (pol_nv_written p) w;
          w = w_option sized16 (template_hash p) w;
          w = w_option sized16 (parameters_hash p) w;
          w = w_bool (pp_required p) w;
          w = w_bool (channel_required p) w;
          w = w_option sized16 (channel_key_hash p) w;
          w = w_option w_u64 (expiration p) w
      in sized16 (timeout_nonce p) w)"

definition policy_get :: "reader \<Rightarrow> (policy_state \<times> reader) tpm_result" where
  "policy_get r =
     res_bind (r_sized r) (\<lambda>(digest, r).
     res_bind (r_option r_u32 r) (\<lambda>(command_code, r).
     res_bind (r_option r_sized r) (\<lambda>(cp_hash, r).
     res_bind (r_option r_sized r) (\<lambda>(name_hash, r).
     res_bind (r_option r_u8 r) (\<lambda>(locality, r).
     res_bind (r_option r_u32 r) (\<lambda>(pcr_update_counter, r).
     res_bind (r_bool r) (\<lambda>(auth_needed, r).
     res_bind (r_bool r) (\<lambda>(pw_needed, r).
     res_bind (r_option r_bool r) (\<lambda>(nv_written, r).
     res_bind (r_option r_sized r) (\<lambda>(template, r).
     res_bind (r_option r_sized r) (\<lambda>(parameters, r).
     res_bind (r_bool r) (\<lambda>(pp, r).
     res_bind (r_bool r) (\<lambda>(channel, r).
     res_bind (r_option r_sized r) (\<lambda>(channel_key, r).
     res_bind (r_option r_u64 r) (\<lambda>(expires, r).
     res_bind (r_sized r) (\<lambda>(nonce, r).
       Inr (\<lparr>pol_digest = digest, pol_command_code = command_code, pol_cp_hash = cp_hash,
             pol_name_hash = name_hash, pol_locality = locality, pol_pcr_counter = pcr_update_counter,
             auth_value_needed = auth_needed, password_needed = pw_needed, pol_nv_written = nv_written,
             template_hash = template, parameters_hash = parameters, pp_required = pp,
             channel_required = channel, channel_key_hash = channel_key, expiration = expires,
             timeout_nonce = nonce\<rparr>, r)))))))))))))))))"

section \<open>Sessions\<close>

record audit_state =
  is_audit :: bool
  audit_digest :: bytes

definition audit_default :: audit_state where
  "audit_default = \<lparr>is_audit = False, audit_digest = []\<rparr>"

definition extend_audit :: "env \<Rightarrow> u16 \<Rightarrow> bytes \<Rightarrow> bytes \<Rightarrow> bytes \<Rightarrow> bytes tpm_result" where
  "extend_audit E a d cp rp =
     res_bind (hash_size E a) (\<lambda>n.
       let zero = replicate n 0;
           old = (if length d = n then d else zero)
       in digest_parts E a [old, cp, rp])"

record session =
  ses_handle :: u32
  session_type :: u8
  auth_hash :: u16
  nonce_tpm :: bytes
  nonce_caller :: bytes
  session_key :: bytes
  ses_bind :: u32
  bind_name :: bytes
  bind_uses_lockout :: bool
  start_time :: u64
  time_epoch :: u64
  symmetric :: sym_def
  policy :: policy_state
  audit :: audit_state
  ses_attributes :: u8

definition session_new ::
  "env \<Rightarrow> u32 \<Rightarrow> u8 \<Rightarrow> u16 \<Rightarrow> bytes \<Rightarrow> bytes \<Rightarrow> bytes \<Rightarrow> u32 \<Rightarrow> bytes \<Rightarrow> sym_def \<Rightarrow> session tpm_result" where
  "session_new E h t a n_tpm n_caller key b name sd =
     res_bind (hash_size E a) (\<lambda>len.
       Inr \<lparr>ses_handle = h, session_type = t, auth_hash = a, nonce_tpm = n_tpm, nonce_caller = n_caller,
            session_key = key, ses_bind = b, bind_name = name, bind_uses_lockout = False, start_time = 0,
            time_epoch = 0, symmetric = sd, policy = policy_default\<lparr>pol_digest := replicate len 0\<rparr>,
            audit = audit_default, ses_attributes = 0\<rparr>)"

definition is_policy :: "session \<Rightarrow> bool" where
  "is_policy s = (session_type s = se_POLICY \<or> session_type s = se_TRIAL)"

definition is_trial :: "session \<Rightarrow> bool" where
  "is_trial s = (session_type s = se_TRIAL)"

definition is_hmac :: "session \<Rightarrow> bool" where
  "is_hmac s = (session_type s = se_HMAC)"

text \<open>The loop of \<open>trim_auth\<close>, on the number of octets kept.\<close>

fun trim_end :: "bytes \<Rightarrow> nat \<Rightarrow> nat" where
  "trim_end auth 0 = 0"
| "trim_end auth (Suc n) = (if auth ! n = 0 then trim_end auth n else Suc n)"

definition trim_auth :: "bytes \<Rightarrow> bytes" where
  "trim_auth auth = take (trim_end auth (length auth)) auth"

definition bind_id :: "bytes \<Rightarrow> bytes \<Rightarrow> bytes" where
  "bind_id name auth = name @ trim_auth auth"

definition is_bound_to :: "session \<Rightarrow> bytes \<Rightarrow> bytes \<Rightarrow> bool" where
  "is_bound_to s name auth = (ses_bind s \<noteq> rh_NULL \<and> bind_name s \<noteq> [] \<and> bind_name s = bind_id name auth)"

definition hmac_key :: "session \<Rightarrow> bytes \<Rightarrow> bytes \<Rightarrow> bytes" where
  "hmac_key s name auth =
     (let wants_auth = (if is_policy s then auth_value_needed (policy s) else \<not> is_bound_to s name auth)
      in if wants_auth then session_key s @ trim_auth auth else session_key s)"

definition session_value :: "session \<Rightarrow> bytes \<Rightarrow> bytes" where
  "session_value s auth = session_key s @ trim_auth auth"

definition restart_policy :: "env \<Rightarrow> (session, unit) st_op" where
  "restart_policy E s =
     (case hash_size E (auth_hash s) of
        Inl e \<Rightarrow> (Inl e, s)
      | Inr len \<Rightarrow> (Inr (), s\<lparr>policy := policy_default\<lparr>pol_digest := replicate len 0\<rparr>\<rparr>))"

definition extend_policy :: "env \<Rightarrow> u32 \<Rightarrow> bytes \<Rightarrow> (session, unit) st_op" where
  "extend_policy E cc data s =
     (case digest_parts E (auth_hash s) [pol_digest (policy s), to_be 4 cc, data] of
        Inl e \<Rightarrow> (Inl e, s)
      | Inr d \<Rightarrow> (Inr (), s\<lparr>policy := (policy s)\<lparr>pol_digest := d\<rparr>\<rparr>))"

definition set_policy_digest :: "bytes \<Rightarrow> session \<Rightarrow> session" where
  "set_policy_digest d s = s\<lparr>policy := (policy s)\<lparr>pol_digest := d\<rparr>\<rparr>"

section \<open>Proving knowledge of an authorization\<close>

definition constant_time_eq :: "bytes \<Rightarrow> bytes \<Rightarrow> bool" where
  "constant_time_eq a b =
     (if length a \<noteq> length b then False
      else foldl (\<lambda>diff (x, y). diff OR (x XOR y)) 0 (zip a b) = 0)"

definition auth_hmac_accepted :: "bytes \<Rightarrow> bytes \<Rightarrow> bytes \<Rightarrow> bool" where
  "auth_hmac_accepted key expected supplied =
     (if key = [] \<and> supplied = [] then True else constant_time_eq expected supplied)"

definition LABEL_SESSION_KEY :: bytes where "LABEL_SESSION_KEY = ascii ''ATH''"
definition LABEL_CFB :: bytes where "LABEL_CFB = ascii ''CFB''"

definition derive_session_key ::
  "env \<Rightarrow> u16 \<Rightarrow> bool \<Rightarrow> bytes \<Rightarrow> bytes \<Rightarrow> bytes \<Rightarrow> bytes \<Rightarrow> bytes tpm_result" where
  "derive_session_key E a plain bind_auth salt n_tpm n_caller =
     (if plain then Inr []
      else res_bind (hash_size E a) (\<lambda>n.
        kdfa_bytes E a (trim_auth bind_auth @ salt) LABEL_SESSION_KEY n_tpm n_caller (of_nat (n * 8))))"

definition cp_hash :: "env \<Rightarrow> u16 \<Rightarrow> u32 \<Rightarrow> bytes list \<Rightarrow> bytes \<Rightarrow> bytes tpm_result" where
  "cp_hash E a cc names parameters =
     res_bind (hasher_new E a) (\<lambda>h.
       let h = hasher_update (to_be 4 cc) h;
           h = foldl (\<lambda>h n. hasher_update n h) h names
       in Inr (hasher_finish E (hasher_update parameters h)))"

definition rp_hash :: "env \<Rightarrow> u16 \<Rightarrow> u32 \<Rightarrow> u32 \<Rightarrow> bytes \<Rightarrow> bytes tpm_result" where
  "rp_hash E a response cc parameters = digest_parts E a [to_be 4 response, to_be 4 cc, parameters]"

definition auth_hmac_with_nonces ::
  "env \<Rightarrow> u16 \<Rightarrow> bytes \<Rightarrow> bytes \<Rightarrow> bytes \<Rightarrow> bytes \<Rightarrow> bytes \<Rightarrow> bytes \<Rightarrow> u8 \<Rightarrow> bytes tpm_result" where
  "auth_hmac_with_nonces E a key p_hash newer older decrypt encrypt attrs =
     hmac_parts E a key [p_hash, newer, older, decrypt, encrypt, [attrs]]"

definition auth_hmac ::
  "env \<Rightarrow> u16 \<Rightarrow> bytes \<Rightarrow> bytes \<Rightarrow> bytes \<Rightarrow> bytes \<Rightarrow> u8 \<Rightarrow> bytes tpm_result" where
  "auth_hmac E a key p_hash newer older attrs =
     auth_hmac_with_nonces E a key p_hash newer older [] [] attrs"

text \<open>
  The length arguments of \<open>parameter_encryption_key\<close> are the code's: \<open>key_bits\<close> is a \<open>u16\<close>, the
  size of the IV is cast to 32 bits, and the slice at \<open>key_bits / 8\<close> panics when the derived
  material is shorter (which \<open>kdfa\<close> rules out).
\<close>

definition parameter_encryption_key ::
  "env \<Rightarrow> u16 \<Rightarrow> bytes \<Rightarrow> bytes \<Rightarrow> bytes \<Rightarrow> bytes \<Rightarrow> u16 \<Rightarrow> nat \<Rightarrow> (bytes \<times> bytes) tpm_result" where
  "parameter_encryption_key E a key extra newer older key_bits iv_bytes =
     (let material = key @ trim_auth extra;
          bits = ucast key_bits + of_nat (iv_bytes * 8)
      in res_bind (kdfa_bytes E a material LABEL_CFB newer older bits) (\<lambda>out.
           let key_bytes = unat key_bits div 8 in Inr (take key_bytes out, drop key_bytes out)))"

definition is_session_handle :: "u32 \<Rightarrow> bool" where
  "is_session_handle h =
     ((hc_HMAC_SESSION_FIRST \<le> h \<and> h \<le> hc_HMAC_SESSION_LAST)
      \<or> (hc_POLICY_SESSION_FIRST \<le> h \<and> h \<le> hc_POLICY_SESSION_LAST))"

definition MAX_ACTIVE_SESSIONS :: nat where "MAX_ACTIVE_SESSIONS = 64"
definition MAX_LOADED_SESSIONS :: nat where "MAX_LOADED_SESSIONS = 32"
definition CONTEXT_GAP_MAX :: nat where "CONTEXT_GAP_MAX = 65535"

definition is_transient :: "u32 \<Rightarrow> bool" where
  "is_transient h = (hc_TRANSIENT_FIRST \<le> h \<and> h \<le> hc_TRANSIENT_LAST)"

definition is_flushable_session :: "u32 \<Rightarrow> bool" where
  "is_flushable_session h =
     (if is_session_handle h then True
      else if is_transient h then False
      else unat (h AND 0x00FFFFFF) < MAX_ACTIVE_SESSIONS)"

definition is_session_type :: "u8 \<Rightarrow> bool" where
  "is_session_type t = (t = se_HMAC \<or> t = se_POLICY \<or> t = se_TRIAL)"

definition empty_policy :: "env \<Rightarrow> u16 \<Rightarrow> bytes tpm_result" where
  "empty_policy E a = res_bind (hash_size E a) (\<lambda>n. Inr (replicate n 0))"

definition is_valid_auth_hash :: "env \<Rightarrow> u16 \<Rightarrow> bool" where
  "is_valid_auth_hash E a = (a \<noteq> alg_NULL \<and> is_supported E a)"

section \<open>The policy state in a saved context\<close>

definition opt_enc :: "('a \<Rightarrow> bytes) \<Rightarrow> 'a option \<Rightarrow> bytes" where
  "opt_enc enc v = (case v of None \<Rightarrow> [0] | Some x \<Rightarrow> 1 # enc x)"

definition bool_enc :: "bool \<Rightarrow> bytes" where
  "bool_enc b = [if b then 1 else 0]"

interpretation flag: codec r_bool w_bool bool_enc "\<lambda>_. True"
proof (rule codecI)
  show "decoder r_bool"
    unfolding r_bool_def by (intro decoder_intros)
  show "reads r_bool b (bool_enc b)" for b
    by (rule readsI) (simp add: r_bool_def bool_enc_def r_u8_append)
qed (simp add: w_bool_def bool_enc_def writes_emit)

interpretation buf: codec r_sized sized16 enc_sized16 "\<lambda>b. length b < 2 ^ 16"
proof (rule codecI)
  show "decoder r_sized"
    unfolding r_sized_def by (intro decoder_intros)
  show "reads r_sized b (enc_sized16 b)" if "length b < 2 ^ 16" for b
    unfolding r_sized_def enc_sized16_def
    by (rule reads_bind, rule reads_int, rule reads_take) (use that in \<open>simp add: unat_of_nat_u16\<close>)
qed (simp add: sized16_emit)

lemma opt_codec:
  assumes "codec get put enc ok"
  shows "codec (r_option get) (w_option put) (opt_enc enc) (\<lambda>v. \<forall>x. v = Some x \<longrightarrow> ok x)"
proof (rule codecI)
  show "decoder (r_option get)"
    unfolding r_option_def using codec.axioms(1) [OF assms] by (intro decoder_intros)
  show "w_option put v w = emit (opt_enc enc v) w" if "\<forall>x. v = Some x \<longrightarrow> ok x" for v w
    using that
    by (auto simp: w_option_def opt_enc_def writes_emit codec.put_enc [OF assms] split: option.splits)
  show "reads (r_option get) v (opt_enc enc v)" if ok: "\<forall>x. v = Some x \<longrightarrow> ok x" for v
  proof (cases v)
    case None
    show ?thesis
      by (rule readsI) (simp add: None r_option_def opt_enc_def r_u8_append)
  next
    case (Some x)
    have "reads (\<lambda>r. if (1 :: u8) = 0 then Inr (None, r)
        else res_bind (get r) (\<lambda>(x, r). Inr (Some x, r))) (Some x) (enc x @ [])"
      by (simp only: one_neq_zero if_False, rule reads_bind, rule codec.reads_get [OF assms],
          rule ok [rule_format], rule Some, rule reads_return)
    then have "reads (r_option get) (Some x) ([1] @ enc x @ [])"
      unfolding r_option_def by (rule reads_bind [rotated], intro reads_int)
    then show ?thesis by (simp add: Some opt_enc_def)
  qed
qed

interpretation opt_u8: codec "r_option r_u8" "w_option w_u8" "opt_enc (\<lambda>v. [v])" "\<lambda>v. \<forall>x. v = Some x \<longrightarrow> True"
  by (rule opt_codec [OF u8.codec_axioms])

interpretation opt_u32: codec "r_option r_u32" "w_option w_u32" "opt_enc (to_be 4)" "\<lambda>v. \<forall>x. v = Some x \<longrightarrow> True"
  by (rule opt_codec [OF u32.codec_axioms])

interpretation opt_u64: codec "r_option r_u64" "w_option w_u64" "opt_enc (to_be 8)" "\<lambda>v. \<forall>x. v = Some x \<longrightarrow> True"
  by (rule opt_codec [OF u64.codec_axioms])

interpretation opt_flag: codec "r_option r_bool" "w_option w_bool" "opt_enc bool_enc" "\<lambda>v. \<forall>x. v = Some x \<longrightarrow> True"
  by (rule opt_codec [OF flag.codec_axioms])

interpretation opt_buf: codec "r_option r_sized" "w_option sized16" "opt_enc enc_sized16"
    "\<lambda>v. \<forall>x. v = Some x \<longrightarrow> length x < 2 ^ 16"
  by (rule opt_codec [OF buf.codec_axioms])

definition policy_ok :: "policy_state \<Rightarrow> bool" where
  "policy_ok p \<longleftrightarrow> length (pol_digest p) < 2 ^ 16 \<and> length (timeout_nonce p) < 2 ^ 16
     \<and> (\<forall>x \<in> set [pol_cp_hash p, pol_name_hash p, template_hash p, parameters_hash p, channel_key_hash p].
          \<forall>b. x = Some b \<longrightarrow> length b < 2 ^ 16)"

definition policy_enc :: "policy_state \<Rightarrow> bytes" where
  "policy_enc p =
     enc_sized16 (pol_digest p) @ opt_enc (to_be 4) (pol_command_code p)
     @ opt_enc enc_sized16 (pol_cp_hash p) @ opt_enc enc_sized16 (pol_name_hash p)
     @ opt_enc (\<lambda>v. [v]) (pol_locality p) @ opt_enc (to_be 4) (pol_pcr_counter p)
     @ bool_enc (auth_value_needed p) @ bool_enc (password_needed p)
     @ opt_enc bool_enc (pol_nv_written p)
     @ opt_enc enc_sized16 (template_hash p) @ opt_enc enc_sized16 (parameters_hash p)
     @ bool_enc (pp_required p) @ bool_enc (channel_required p)
     @ opt_enc enc_sized16 (channel_key_hash p) @ opt_enc (to_be 8) (expiration p)
     @ enc_sized16 (timeout_nonce p) @ []"

interpretation policy: codec policy_get policy_put policy_enc policy_ok
proof (rule codecI)
  show "decoder policy_get"
    unfolding policy_get_def
    by (intro decoder_bind decoder_return buf.decoder_axioms opt_u32.decoder_axioms opt_buf.decoder_axioms
        opt_u8.decoder_axioms flag.decoder_axioms opt_flag.decoder_axioms opt_u64.decoder_axioms)
  show "policy_put p w = emit (policy_enc p) w" if "policy_ok p" for p w
    using that
    by (simp add: policy_put_def policy_ok_def policy_enc_def Let_def buf.put_enc flag.put_enc opt_u32.put_enc
        opt_buf.put_enc opt_u8.put_enc opt_flag.put_enc opt_u64.put_enc)
  show "reads policy_get p (policy_enc p)" if ok: "policy_ok p" for p
  proof -
    have "reads policy_get \<lparr>pol_digest = pol_digest p, pol_command_code = pol_command_code p,
        pol_cp_hash = pol_cp_hash p, pol_name_hash = pol_name_hash p, pol_locality = pol_locality p,
        pol_pcr_counter = pol_pcr_counter p, auth_value_needed = auth_value_needed p,
        password_needed = password_needed p, pol_nv_written = pol_nv_written p,
        template_hash = template_hash p, parameters_hash = parameters_hash p, pp_required = pp_required p,
        channel_required = channel_required p, channel_key_hash = channel_key_hash p,
        expiration = expiration p, timeout_nonce = timeout_nonce p\<rparr> (policy_enc p)"
      unfolding policy_get_def policy_enc_def
      by (rule reads_return
          | (rule reads_bind, rule buf.reads_get opt_u32.reads_get opt_buf.reads_get opt_u8.reads_get
              flag.reads_get opt_flag.reads_get opt_u64.reads_get)
          | (use ok in \<open>simp add: policy_ok_def; fail\<close>))+
    then show ?thesis by (cases p) simp
  qed
qed

text \<open>Everything a policy session has asserted travels with its saved context: the policy state
  is read back as it was written, whatever assertions are set, and the reader is left behind
  it.\<close>

theorem policy_state_roundtrip:
  assumes "policy_ok p" and "rest r = to_bytes policy_put p @ t"
  shows "\<exists>r'. policy_get r = Inr (p, r') \<and> rest r' = t"
  using policy.get_enc [OF assms(1), of r t] assms by (simp add: policy.to_bytes_enc)

theorem policy_state_roundtrip_witness:
  "let p = policy_default\<lparr>pol_digest := replicate 32 1, pol_locality := Some 3,
       pol_nv_written := Some False, expiration := Some 77\<rparr>
   in \<exists>r'. policy_get (reader_new (to_bytes policy_put p @ [9])) = Inr (p, r') \<and> rest r' = [9]"
proof -
  let ?p = "policy_default\<lparr>pol_digest := replicate 32 1, pol_locality := Some 3,
       pol_nv_written := Some False, expiration := Some 77\<rparr>"
  have "policy_ok ?p" by (simp add: policy_ok_def policy_default_def)
  then show ?thesis
    unfolding Let_def by (rule policy_state_roundtrip) simp
qed

section \<open>Authorization values and comparison\<close>

lemma trim_end_le: "trim_end auth n \<le> n"
  by (induction auth n rule: trim_end.induct) auto

lemma trim_end_zeros: "trim_end auth n \<le> k \<Longrightarrow> k < n \<Longrightarrow> auth ! k = 0"
  by (induction auth n rule: trim_end.induct) (auto simp: less_Suc_eq split: if_splits)

lemma trim_end_last: "0 < trim_end auth n \<Longrightarrow> auth ! (trim_end auth n - 1) \<noteq> 0"
  by (induction auth n rule: trim_end.induct) auto

lemma trim_auth_split:
  "auth = trim_auth auth @ replicate (length auth - length (trim_auth auth)) 0"
proof -
  let ?k = "trim_end auth (length auth)"
  have "drop ?k auth = replicate (length auth - ?k) 0"
    by (rule nth_equalityI) (auto intro!: trim_end_zeros [where n = "length auth"])
  then have "auth = take ?k auth @ replicate (length auth - ?k) 0"
    by (metis append_take_drop_id)
  then show ?thesis using trim_end_le [of auth "length auth"] by (simp add: trim_auth_def min_def)
qed

lemma trim_auth_last: "trim_auth auth \<noteq> [] \<Longrightarrow> last (trim_auth auth) \<noteq> 0"
proof -
  let ?k = "trim_end auth (length auth)"
  assume "trim_auth auth \<noteq> []"
  then have "0 < ?k" and "?k \<le> length auth" by (auto simp: trim_auth_def trim_end_le)
  moreover from this have "last (take ?k auth) = auth ! (?k - 1)"
    by (subst last_conv_nth) (auto simp: min_def)
  ultimately show ?thesis
    using trim_end_last [of auth "length auth"] by (simp add: trim_auth_def)
qed

lemma trailing_zeros_unique:
  assumes "xs @ replicate m (0 :: u8) = ys @ replicate n 0"
    and "xs = [] \<or> last xs \<noteq> 0" and "ys = [] \<or> last ys \<noteq> 0"
  shows "xs = ys"
proof -
  have drop: "dropWhile (\<lambda>b. b = 0) (replicate k (0 :: u8) @ zs) = dropWhile (\<lambda>b. b = 0) zs" for k zs
    by (induction k) simp_all
  have strip: "rev (dropWhile (\<lambda>b. b = 0) (rev (zs @ replicate k 0))) = zs"
    if "zs = [] \<or> last zs \<noteq> 0" for zs :: bytes and k
    using that drop [of k "[]"] by (cases zs rule: rev_cases) (simp_all add: drop)
  show ?thesis using strip [OF assms(2), of m] strip [OF assms(3), of n] assms(1) by simp
qed

text \<open>Two values trim to the same octets just when they differ in trailing zeros only.\<close>

lemma trim_auth_eq_iff:
  "trim_auth a = trim_auth b \<longleftrightarrow> (\<exists>m n. a @ replicate m 0 = b @ replicate n 0)"
proof
  assume "trim_auth a = trim_auth b"
  then have "a @ replicate (length b - length (trim_auth b)) 0 = b @ replicate (length a - length (trim_auth a)) 0"
    by (subst trim_auth_split [of a], subst (3) trim_auth_split [of b])
       (simp add: replicate_add [symmetric] add.commute)
  then show "\<exists>m n. a @ replicate m 0 = b @ replicate n 0" by blast
next
  assume "\<exists>m n. a @ replicate m 0 = b @ replicate n 0"
  then obtain m n where eq: "a @ replicate m 0 = b @ replicate n 0" by blast
  then have "trim_auth a @ replicate (length a - length (trim_auth a) + m) 0
      = trim_auth b @ replicate (length b - length (trim_auth b) + n) 0"
    by (simp add: replicate_add trim_auth_split [symmetric] flip: append_assoc)
  then show "trim_auth a = trim_auth b"
    by (rule trailing_zeros_unique) (use trim_auth_last in blast)+
qed

lemma xor_eq_0: "(x :: u8) XOR y = 0 \<longleftrightarrow> x = y"
  by (auto simp: bit_eq_iff bit_simps)

lemma diff_fold_zero:
  "foldl (\<lambda>diff (x, y). diff OR (x XOR y)) d ps = (0 :: u8) \<longleftrightarrow> d = 0 \<and> (\<forall>(x, y) \<in> set ps. x = y)"
proof (induction ps arbitrary: d)
  case (Cons p ps)
  obtain x y where "p = (x, y)" by (cases p)
  then show ?case by (auto simp: Cons.IH or_eq_0_iff xor_eq_0)
qed simp

lemma constant_time_eq_iff: "constant_time_eq a b \<longleftrightarrow> a = b"
  by (auto simp: constant_time_eq_def diff_fold_zero set_zip list_eq_iff_nth_eq)

lemma auth_hmac_accepted_iff:
  "auth_hmac_accepted key expected supplied \<longleftrightarrow> (key = [] \<and> supplied = []) \<or> supplied = expected"
  by (auto simp: auth_hmac_accepted_def constant_time_eq_iff)

text \<open>How a session proves knowledge of an authorization value. With the TPM's own computation
  of the HMAC, which is the FIPS 198 HMAC of the parameter digest, the nonces and the attributes,
  a supplied HMAC is accepted just when it is equal to it, or is empty under an empty key. The key
  takes the value without its trailing zeros, so padding a value changes nothing; and where the
  session key does not already cover it, values that differ in more than padding give different
  keys.\<close>

theorem authorization_hmac_exact:
  assumes "is_supported E a" and "hash_block_size E a = Inr block"
  shows "\<exists>mac. auth_hmac_with_nonces E a key p newer older dec enc attrs = Inr mac
      \<and> mac = hmac_spec E a block key (p @ newer @ older @ dec @ enc @ [attrs])
      \<and> (auth_hmac_accepted key mac supplied \<longleftrightarrow> supplied = mac \<or> (key = [] \<and> supplied = []))
      \<and> hmac_key s name (auth @ replicate n 0) = hmac_key s name auth
      \<and> (hmac_key s name auth = hmac_key s name auth'
         \<longleftrightarrow> (\<exists>m n. auth @ replicate m 0 = auth' @ replicate n 0)
           \<or> (is_policy s \<and> \<not> auth_value_needed (policy s))
           \<or> (\<not> is_policy s \<and> is_bound_to s name auth \<and> trim_auth auth' = [])
           \<or> (\<not> is_policy s \<and> is_bound_to s name auth' \<and> trim_auth auth = []))"
proof -
  have pad: "trim_auth (auth @ replicate n 0) = trim_auth auth"
    unfolding trim_auth_eq_iff by (rule exI [of _ 0], rule exI [of _ n]) simp
  have both: "trim_auth auth = trim_auth auth'" if "is_bound_to s name auth" "is_bound_to s name auth'"
    using that by (simp add: is_bound_to_def bind_id_def)
  show ?thesis
    using both
    by (auto simp: auth_hmac_with_nonces_def hmac_parts_spec [OF assms] auth_hmac_accepted_iff
        hmac_key_def is_bound_to_def bind_id_def pad Let_def simp flip: trim_auth_eq_iff)
qed

theorem authorization_hmac_exact_witness:
  "is_supported (demo_env True) alg_SHA256 \<and>
   (\<exists>mac. auth_hmac_with_nonces (demo_env True) alg_SHA256 [1] [2] [3] [4] [] [] 1 = Inr mac
      \<and> \<not> auth_hmac_accepted [1] mac (mac @ [0]) \<and> auth_hmac_accepted [1] mac mac)"
proof -
  have a: "is_supported (demo_env True) alg_SHA256" "hash_block_size (demo_env True) alg_SHA256 = Inr 64"
    by (simp_all add: is_supported_def hash_algorithm_def hash_block_size_def)
  obtain mac where mac: "auth_hmac_with_nonces (demo_env True) alg_SHA256 [1] [2] [3] [4] [] [] 1 = Inr mac"
    using authorization_hmac_exact [OF a] by blast
  have "auth_hmac_accepted [1] mac x \<longleftrightarrow> x = mac" for x
  proof -
    obtain mac' where "auth_hmac_with_nonces (demo_env True) alg_SHA256 [1] [2] [3] [4] [] [] 1 = Inr mac'"
        and "auth_hmac_accepted [1] mac' x \<longleftrightarrow> x = mac' \<or> ([1 :: u8] = [] \<and> x = [])"
      using authorization_hmac_exact [OF a, of "[1]" "[2]" "[3]" "[4]" "[]" "[]" 1 x] by blast
    with mac show ?thesis by simp
  qed
  with mac a show ?thesis by auto
qed

text \<open>The keys a session derives have exactly the sizes their users need. The session key is as
  long as the session hash, and only a session with neither salt nor binding goes without one;
  the key and the initial vector of parameter encryption have the sizes asked for, and the
  code's split of the derived octets never runs past their end.\<close>

theorem session_keys_have_their_size:
  assumes "env_ok E" and "8 dvd unat key_bits" and "iv_bytes \<le> 16"
  shows "(case derive_session_key E a plain bind_auth salt n_tpm n_caller of
            Inl e \<Rightarrow> \<not> plain \<and> \<not> is_supported E a \<and> e = rc_HASH
          | Inr k \<Rightarrow> (if plain then k = [] else is_supported E a \<and> length k = output_len E a))
    \<and> (case parameter_encryption_key E a key extra newer older key_bits iv_bytes of
            Inl e \<Rightarrow> (8192 < unat key_bits + 8 * iv_bytes \<and> e = rc_VALUE) \<or> (\<not> is_supported E a \<and> e = rc_HASH)
          | Inr (k, iv) \<Rightarrow> 8 * length k = unat key_bits \<and> length iv = iv_bytes)"
proof
  show "case derive_session_key E a plain bind_auth salt n_tpm n_caller of
            Inl e \<Rightarrow> \<not> plain \<and> \<not> is_supported E a \<and> e = rc_HASH
          | Inr k \<Rightarrow> (if plain then k = [] else is_supported E a \<and> length k = output_len E a)"
  proof (cases "is_supported E a")
    case False
    then show ?thesis by (simp add: derive_session_key_def hash_size_def unsupported_algorithm)
  next
    case True
    let ?bits = "of_nat (output_len E a * 8) :: u32"
    have len: "output_len E a \<in> {20, 32, 48, 64}" using supported_output_len [OF assms(1) True] .
    then have bits: "unat ?bits = 8 * output_len E a" by auto
    have "(8 * output_len E a + 7) div 8 = output_len E a" by simp
    then show ?thesis
      using kdfa_cases [OF assms(1), of ?bits a "trim_auth bind_auth @ salt" LABEL_SESSION_KEY n_tpm n_caller]
        True len bits
      by (auto simp: derive_session_key_def hash_size_def supported_algorithm mult.commute split: sum.splits)
  qed
next
  let ?bits = "ucast key_bits + of_nat (iv_bytes * 8) :: u32"
  have "unat key_bits < 2 ^ 16" using unsigned_less [of key_bits] by simp
  then have bits: "unat ?bits = unat key_bits + 8 * iv_bytes"
    using assms(3) by (simp add: unat_word_ariths unat_of_nat unsigned_ucast_eq take_bit_nat_eq_self mult.commute)
  then have whole: "(unat ?bits + 7) div 8 = unat key_bits div 8 + iv_bytes"
    using assms(2) by auto
  show "case parameter_encryption_key E a key extra newer older key_bits iv_bytes of
            Inl e \<Rightarrow> (8192 < unat key_bits + 8 * iv_bytes \<and> e = rc_VALUE) \<or> (\<not> is_supported E a \<and> e = rc_HASH)
          | Inr (k, iv) \<Rightarrow> 8 * length k = unat key_bits \<and> length iv = iv_bytes"
    using kdfa_cases [OF assms(1), of ?bits a "key @ trim_auth extra" LABEL_CFB newer older] assms(2) bits whole
    by (auto simp: parameter_encryption_key_def Let_def split: sum.splits)
qed

theorem session_keys_have_their_size_witness:
  "\<exists>k iv. parameter_encryption_key (demo_env True) alg_SHA256 [1] [2, 0] [3] [4] 128 16 = Inr (k, iv)
     \<and> length k = 16 \<and> length iv = 16"
  using session_keys_have_their_size [OF env_ok_demo [of True], where key_bits = 128 and iv_bytes = 16
      and a = alg_SHA256 and key = "[1]" and extra = "[2, 0]" and newer = "[3]" and older = "[4]"
      and plain = True and bind_auth = "[]" and salt = "[]" and n_tpm = "[]" and n_caller = "[]"]
  by (auto simp: is_supported_def hash_algorithm_def split: sum.splits)

end
