(* ===== verification/SessionSlots.thy ===== *)
theory SessionSlots
  imports Session
begin

text \<open>
  The slots that track sessions (\<open>SessionSlots\<close> of \<open>src/tpm/core/session.rs\<close>): sessions in
  memory, the handles and identifiers of saved sessions, the counters that number them. The
  operations are the methods; TPM2_StartAuthSession's use of them (\<open>allocate_handle\<close>, then
  \<open>insert\<close> of a session with that handle) is \<open>start\<close>.
\<close>

record slots =
  sessions :: "(u32, session) btree"
  saved :: "(u32, u64) btree"
  version :: "(u32, u64) btree"
  context_counter :: u64
  object_counter :: u64

definition slots_new :: slots where
  "slots_new = \<lparr>sessions = [], saved = [], version = [], context_counter = 1, object_counter = 1\<rparr>"

definition loaded :: "slots \<Rightarrow> nat" where
  "loaded s = length (sessions s)"

definition active :: "slots \<Rightarrow> nat" where
  "active s = length (sessions s) + length (saved s)"

definition next_object_id :: "slots \<Rightarrow> u64 \<times> slots" where
  "next_object_id s = (object_counter s, s\<lparr>object_counter := saturating_add (object_counter s) 1\<rparr>)"

definition min_id :: "u64 list \<Rightarrow> u64 option" where
  "min_id ids = (case ids of [] \<Rightarrow> None | i # is \<Rightarrow> Some (foldl min i is))"

definition oldest_active :: "slots \<Rightarrow> u64 option" where
  "oldest_active s = min_id (map snd (saved s) @ map snd (version s))"

definition saved_version :: "u32 \<Rightarrow> slots \<Rightarrow> u64 option" where
  "saved_version h s = (case bt_get (version s) h of Some i \<Rightarrow> Some i | None \<Rightarrow> bt_get (saved s) h)"

definition oldest_saved :: "slots \<Rightarrow> u64 option" where
  "oldest_saved s = min_id (map snd (saved s))"

definition at_context_gap :: "slots \<Rightarrow> bool" where
  "at_context_gap s =
     (case oldest_active s of
        Some oldest \<Rightarrow> of_nat CONTEXT_GAP_MAX < saturating_sub (context_counter s) oldest
      | None \<Rightarrow> False)"

definition check_gap :: "slots \<Rightarrow> unit tpm_result" where
  "check_gap s = (if at_context_gap s then Inl rc_CONTEXT_GAP else Inr ())"

definition counters_exhausted :: "slots \<Rightarrow> bool" where
  "counters_exhausted s = (context_counter s = - 1 \<or> object_counter s = - 1)"

definition next_context_id :: "slots \<Rightarrow> u64 \<times> slots" where
  "next_context_id s = (context_counter s, s\<lparr>context_counter := saturating_add (context_counter s) 1\<rparr>)"

definition context_id_taken :: "u32 \<Rightarrow> slots \<Rightarrow> bool" where
  "context_id_taken index s =
     list_ex (\<lambda>h. h AND 0x00FFFFFF = index) (bt_keys (sessions s) @ bt_keys (saved s))"

definition allocate_handle :: "u8 \<Rightarrow> slots \<Rightarrow> u32 tpm_result" where
  "allocate_handle t s =
     (let base = (if t = se_HMAC then hc_HMAC_SESSION_FIRST else hc_POLICY_SESSION_FIRST)
      in case find (\<lambda>i. \<not> context_id_taken (of_nat i) s) [0..<MAX_ACTIVE_SESSIONS] of
           Some i \<Rightarrow> Inr (base + of_nat i)
         | None \<Rightarrow> Inl rc_SESSION_HANDLES)"

definition slots_insert :: "session \<Rightarrow> (slots, u32) st_op" where
  "slots_insert x s =
     (if MAX_LOADED_SESSIONS \<le> length (sessions s) then (Inl rc_SESSION_MEMORY, s)
      else if MAX_ACTIVE_SESSIONS \<le> active s then (Inl rc_SESSION_HANDLES, s)
      else case check_gap s of
          Inl e \<Rightarrow> (Inl e, s)
        | Inr _ \<Rightarrow>
            if counters_exhausted s then (Inl rc_TOO_MANY_CONTEXTS, s)
            else (let h = ses_handle x; (i, s) = next_context_id s
                  in (Inr h, s\<lparr>version := bt_insert h i (version s), sessions := bt_insert h x (sessions s)\<rparr>)))"

definition slots_get :: "u32 \<Rightarrow> slots \<Rightarrow> session tpm_result" where
  "slots_get h s = ok_or (bt_get (sessions s) h) rc_HANDLE"

text \<open>\<open>get_mut\<close>, with the change the caller makes to the session.\<close>

definition slots_modify :: "u32 \<Rightarrow> (session \<Rightarrow> session) \<Rightarrow> (slots, unit) st_op" where
  "slots_modify h f s =
     (case bt_get (sessions s) h of
        None \<Rightarrow> (Inl rc_HANDLE, s)
      | Some x \<Rightarrow> (Inr (), s\<lparr>sessions := bt_update h (f x) (sessions s)\<rparr>))"

definition slots_remove :: "u32 \<Rightarrow> (slots, session) st_op" where
  "slots_remove h s =
     (ok_or (bt_get (sessions s) h) rc_HANDLE,
      s\<lparr>saved := bt_remove h (saved s), version := bt_remove h (version s),
        sessions := bt_remove h (sessions s)\<rparr>)"

definition flush_candidates :: "u32 \<Rightarrow> slots \<Rightarrow> u32 list" where
  "flush_candidates h s =
     h # filter (\<lambda>aliased. aliased \<noteq> h \<and> (bt_contains (sessions s) aliased \<or> bt_contains (saved s) aliased))
           (map (\<lambda>base. (base AND 0xFF000000) OR (h AND 0x00FFFFFF))
              [hc_HMAC_SESSION_FIRST, hc_POLICY_SESSION_FIRST])"

fun flush_loop :: "u32 list \<Rightarrow> (slots, u32) st_op" where
  "flush_loop [] s = (Inl rc_HANDLE, s)"
| "flush_loop (c # cs) s =
     (let was_loaded = bt_contains (sessions s) c;
          was_saved = bt_contains (saved s) c;
          s = s\<lparr>sessions := bt_remove c (sessions s), saved := bt_remove c (saved s),
                version := bt_remove c (version s)\<rparr>
      in if was_loaded \<or> was_saved then (Inr c, s) else flush_loop cs s)"

definition slots_flush :: "u32 \<Rightarrow> (slots, u32) st_op" where
  "slots_flush h s = flush_loop (flush_candidates h s) s"

definition slots_save :: "u32 \<Rightarrow> (slots, session \<times> u64) st_op" where
  "slots_save h s =
     (case bt_get (sessions s) h of
        None \<Rightarrow> (Inl rc_HANDLE, s)
      | Some x \<Rightarrow>
          (let i = (case bt_get (version s) h of Some i \<Rightarrow> i | None \<Rightarrow> context_counter s)
           in (Inr (x, i),
               s\<lparr>sessions := bt_remove h (sessions s), version := bt_remove h (version s),
                 saved := bt_insert h i (saved s)\<rparr>)))"

definition slots_restore :: "session \<Rightarrow> u64 \<Rightarrow> (slots, unit) st_op" where
  "slots_restore x v s =
     (let h = ses_handle x in
      case bt_get (saved s) h of
        None \<Rightarrow> (Inl rc_HANDLE, s)
      | Some current \<Rightarrow>
          if current \<noteq> v then (Inl rc_VALUE, s)
          else if MAX_LOADED_SESSIONS \<le> length (sessions s) then (Inl rc_SESSION_MEMORY, s)
          else (let (i, s) = next_context_id s
                in (Inr (), s\<lparr>version := bt_insert h i (version s), saved := bt_remove h (saved s),
                              sessions := bt_insert h x (sessions s)\<rparr>)))"

definition slots_contains :: "u32 \<Rightarrow> slots \<Rightarrow> bool" where
  "slots_contains h s = (bt_contains (sessions s) h \<or> bt_contains (saved s) h)"

definition loaded_handles :: "slots \<Rightarrow> u32 list" where
  "loaded_handles s = bt_keys (sessions s)"

definition saved_handles :: "slots \<Rightarrow> u32 list" where
  "saved_handles s = bt_keys (saved s)"

definition active_handles :: "slots \<Rightarrow> u32 list" where
  "active_handles s = sort (bt_keys (sessions s) @ bt_keys (saved s))"

definition slots_clear :: "slots \<Rightarrow> slots" where
  "slots_clear s =
     s\<lparr>sessions := [], saved := [], version := [], context_counter := 1, object_counter := 1\<rparr>"

definition saved_contexts :: "slots \<Rightarrow> (u32 \<times> u64) list" where
  "saved_contexts s = saved s"

definition restore_saved_contexts :: "(u32 \<times> u64) list \<Rightarrow> u64 \<Rightarrow> u64 \<Rightarrow> slots \<Rightarrow> slots" where
  "restore_saved_contexts entries counter objects s =
     s\<lparr>saved := foldl (\<lambda>m (h, i). bt_insert h i m) [] entries, context_counter := counter,
       object_counter := objects\<rparr>"

definition flush_loaded :: "slots \<Rightarrow> slots" where
  "flush_loaded s = s\<lparr>sessions := [], version := []\<rparr>"

text \<open>TPM2_StartAuthSession's use of the slots: the session gets the handle that was allocated.\<close>

definition start :: "session \<Rightarrow> (slots, u32) st_op" where
  "start x s =
     (case allocate_handle (session_type x) s of
        Inl e \<Rightarrow> (Inl e, s)
      | Inr h \<Rightarrow> slots_insert (x\<lparr>ses_handle := h\<rparr>) s)"

section \<open>The invariant\<close>

definition low :: "u32 \<Rightarrow> u32" where
  "low h = h AND 0x00FFFFFF"

definition tracked :: "slots \<Rightarrow> u32 \<Rightarrow> bool" where
  "tracked s h = (bt_get (sessions s) h \<noteq> None \<or> bt_get (saved s) h \<noteq> None)"

text \<open>
  A handle is loaded or saved but not both, names its session, and no two agree in the low three
  octets; a loaded session has an identifier; the two limits hold.
\<close>

definition maps_wf :: "slots \<Rightarrow> bool" where
  "maps_wf s \<longleftrightarrow> bt_wf (sessions s) \<and> bt_wf (saved s) \<and> bt_wf (version s)
     \<and> (\<forall>h. bt_get (version s) h = None \<longleftrightarrow> bt_get (sessions s) h = None)
     \<and> (\<forall>h. bt_get (sessions s) h = None \<or> bt_get (saved s) h = None)
     \<and> (\<forall>h x. bt_get (sessions s) h = Some x \<longrightarrow> ses_handle x = h)"

definition names_wf :: "(u32 \<Rightarrow> bool) \<Rightarrow> bool" where
  "names_wf T \<longleftrightarrow> (\<forall>h. T h \<longrightarrow> is_session_handle h) \<and> (\<forall>h k. T h \<and> T k \<and> low h = low k \<longrightarrow> h = k)"

definition limits_ok :: "slots \<Rightarrow> bool" where
  "limits_ok s \<longleftrightarrow> length (sessions s) \<le> MAX_LOADED_SESSIONS \<and> active s \<le> MAX_ACTIVE_SESSIONS"

definition slots_wf :: "slots \<Rightarrow> bool" where
  "slots_wf s \<longleftrightarrow> maps_wf s \<and> names_wf (tracked s) \<and> limits_ok s"

text \<open>
  Identifiers: each belongs to one session and has been handed out already. The last value of the
  saturating counter is the exception, and no command saves a context once it is reached.
\<close>

definition holds_id :: "slots \<Rightarrow> u32 \<Rightarrow> u64 \<Rightarrow> bool" where
  "holds_id s h i = (bt_get (version s) h = Some i \<or> bt_get (saved s) h = Some i)"

definition ids_wf :: "slots \<Rightarrow> bool" where
  "ids_wf s \<longleftrightarrow> (\<forall>h k i. holds_id s h i \<and> holds_id s k i \<longrightarrow> h = k \<or> i = - 1)
     \<and> (\<forall>h i. holds_id s h i \<longrightarrow> 0 < i \<and> (i < context_counter s \<or> i = - 1)) \<and> 0 < context_counter s"

lemmas slots_defs = slots_wf_def maps_wf_def names_wf_def limits_ok_def tracked_def active_def

lemmas ids_defs = ids_wf_def holds_id_def

lemma slots_new_wf: "slots_wf slots_new" "ids_wf slots_new"
  by (simp_all add: slots_defs ids_defs slots_new_def MAX_LOADED_SESSIONS_def MAX_ACTIVE_SESSIONS_def)

lemma find_None_all: "find P xs = None \<longleftrightarrow> (\<forall>x \<in> set xs. \<not> P x)"
  by (induction xs) auto

lemma session_handle_cases:
  assumes "is_session_handle h"
  obtains i where "i < 64" and "h = 0x02000000 + of_nat i" | i where "i < 64" and "h = 0x03000000 + of_nat i"
proof -
  have range: "\<exists>i < 64. h = b + of_nat i" if "b \<le> h" "h \<le> b + 0x3F" "unat b + 0x3F < 2 ^ 32" for b :: u32
  proof (intro exI [of _ "unat h - unat b"] conjI)
    have "unat (b + 0x3F) = unat b + 0x3F" using that(3) by (simp add: unat_word_ariths)
    then show "unat h - unat b < 64" using that(2) by (simp add: word_le_nat_alt)
    show "h = b + of_nat (unat h - unat b)" using that(1) by (simp add: word_le_nat_alt of_nat_diff)
  qed
  from range [where b = "0x02000000"] range [where b = "0x03000000"] assms show thesis
    by (auto simp: is_session_handle_def intro: that)
qed

lemma handle_indices:
  assumes "i < 64" and "b = 0x02000000 \<or> b = (0x03000000 :: u32)"
  shows "low (b + of_nat i) = of_nat i" and "b + of_nat i = b OR of_nat i"
    and "is_session_handle (b + of_nat i)"
proof -
  have "i \<in> set [0..<64]" using assms(1) by simp
  then have *: "low (b + of_nat i) = of_nat i \<and> b + of_nat i = b OR of_nat i
      \<and> is_session_handle (b + of_nat i)"
    using assms(2) unfolding low_def is_session_handle_def by (simp add: upt_rec) (elim disjE; simp)
  then show "low (b + of_nat i) = of_nat i" and "b + of_nat i = b OR of_nat i"
    and "is_session_handle (b + of_nat i)" by blast+
qed

lemma session_handle_low:
  assumes "is_session_handle h"
  shows "unat (low h) < MAX_ACTIVE_SESSIONS"
    and "h = hc_HMAC_SESSION_FIRST OR low h \<or> h = hc_POLICY_SESSION_FIRST OR low h"
proof -
  obtain i b where i: "i < 64" and b: "b = 0x02000000 \<or> b = (0x03000000 :: u32)" and h: "h = b + of_nat i"
    using assms by (rule session_handle_cases) blast+
  then show "unat (low h) < MAX_ACTIVE_SESSIONS"
    by (simp add: handle_indices(1) [OF i b] MAX_ACTIVE_SESSIONS_def unat_of_nat)
  have "h = b OR low h" unfolding h handle_indices(1) [OF i b] by (rule handle_indices(2) [OF i b])
  with b show "h = hc_HMAC_SESSION_FIRST OR low h \<or> h = hc_POLICY_SESSION_FIRST OR low h" by blast
qed

lemma context_id_taken_iff: "context_id_taken i s \<longleftrightarrow> (\<exists>h. tracked s h \<and> low h = i)"
  by (auto simp: context_id_taken_def list_ex_iff tracked_def low_def)

lemma allocate_handle_Inr:
  assumes "allocate_handle t s = Inr h"
  shows "is_session_handle h" and "\<not> (\<exists>k. tracked s k \<and> low k = low h)"
proof -
  obtain i where i: "i < 64" "\<not> context_id_taken (of_nat i) s"
    and h: "h = (if t = se_HMAC then 0x02000000 else 0x03000000) + of_nat i"
    using assms by (auto simp: allocate_handle_def Let_def find_Some_iff MAX_ACTIVE_SESSIONS_def
        split: option.splits)
  show "is_session_handle h" using i by (simp add: h handle_indices(3))
  have "low h = of_nat i" using i by (simp add: h handle_indices(1))
  with i(2) show "\<not> (\<exists>k. tracked s k \<and> low k = low h)" by (simp add: context_id_taken_iff)
qed

lemma allocate_handle_range:
  assumes "allocate_handle t s = Inr h"
  shows "h < hc_POLICY_SESSION_FIRST \<longleftrightarrow> t = se_HMAC"
proof -
  obtain i where "i < 64" and h: "h = (if t = se_HMAC then 0x02000000 else 0x03000000) + of_nat i"
    using assms by (auto simp: allocate_handle_def Let_def find_Some_iff MAX_ACTIVE_SESSIONS_def
        split: option.splits)
  then show ?thesis by (simp add: word_less_nat_alt unat_word_ariths unat_of_nat)
qed

text \<open>Pigeonhole: fewer than 64 sessions leave one of the 64 indices.\<close>

lemma allocate_handle_Inl:
  assumes "slots_wf s"
  shows "allocate_handle t s = Inl e \<longleftrightarrow> active s = MAX_ACTIVE_SESSIONS \<and> e = rc_SESSION_HANDLES"
proof -
  let ?keys = "bt_keys (sessions s) @ bt_keys (saved s)"
  have keys: "set ?keys = {h. tracked s h}" by (auto simp: tracked_def)
  have dist: "distinct (map low ?keys)"
  proof -
    have "distinct ?keys"
      using assms unfolding slots_wf_def maps_wf_def
      by (simp add: bt.keys_distinct disjoint_iff) (metis option.distinct(1))
    moreover have "inj_on low (set ?keys)"
      unfolding keys inj_on_def using assms by (simp add: slots_wf_def names_wf_def)
    ultimately show ?thesis by (simp add: distinct_map del: map_append)
  qed
  have len: "length ?keys = active s" by (simp add: active_def bt_keys_def)
  have le: "active s \<le> MAX_ACTIVE_SESSIONS" using assms by (simp add: slots_wf_def limits_ok_def)
  let ?low = "\<lambda>h. unat (low h)"
  have small: "set (map ?low ?keys) \<subseteq> {..<MAX_ACTIVE_SESSIONS}"
    using session_handle_low(1) assms by (auto simp: slots_defs)
  have card: "card (set (map ?low ?keys)) = active s"
  proof -
    have "distinct (map unat (map low ?keys))" using dist by (subst distinct_map) (simp add: inj_on_def word_unat_eq_iff del: map_append)
    then have "distinct (map ?low ?keys)" by (simp add: comp_def)
    then show ?thesis using len distinct_card [of "map ?low ?keys"] by (simp del: map_append)
  qed
  have taken: "context_id_taken (of_nat i) s \<longleftrightarrow> i \<in> set (map ?low ?keys)" if "i < MAX_ACTIVE_SESSIONS" for i
  proof -
    have "unat (of_nat i :: u32) = i" using that by (simp add: MAX_ACTIVE_SESSIONS_def unat_of_nat)
    then have "low h = of_nat i \<longleftrightarrow> i = unat (low h)" for h
      by (metis word_unat_eq_iff)
    then show ?thesis unfolding context_id_taken_iff set_map keys by (simp add: image_iff)
  qed
  have all: "(\<forall>i < MAX_ACTIVE_SESSIONS. context_id_taken (of_nat i) s) \<longleftrightarrow> active s = MAX_ACTIVE_SESSIONS"
  proof
    assume "\<forall>i < MAX_ACTIVE_SESSIONS. context_id_taken (of_nat i) s"
    then have "{..<MAX_ACTIVE_SESSIONS} \<subseteq> set (map ?low ?keys)" using taken by blast
    with small card show "active s = MAX_ACTIVE_SESSIONS" by (metis card_lessThan subset_antisym)
  next
    assume "active s = MAX_ACTIVE_SESSIONS"
    with card small have "set (map ?low ?keys) = {..<MAX_ACTIVE_SESSIONS}"
      by (intro card_subset_eq) simp_all
    with taken show "\<forall>i < MAX_ACTIVE_SESSIONS. context_id_taken (of_nat i) s" by blast
  qed
  then have "find (\<lambda>i. \<not> context_id_taken (of_nat i) s) [0..<MAX_ACTIVE_SESSIONS] = None
      \<longleftrightarrow> active s = MAX_ACTIVE_SESSIONS"
    by (simp add: find_None_all Ball_def)
  then show ?thesis
    by (auto simp: allocate_handle_def Let_def split: option.splits)
qed

section \<open>The operations keep it\<close>

lemma names_wf_mono: "names_wf T \<Longrightarrow> (\<And>h. T' h \<Longrightarrow> T h) \<Longrightarrow> names_wf T'"
  unfolding names_wf_def by blast

lemma names_wf_insert:
  "names_wf T \<Longrightarrow> is_session_handle h \<Longrightarrow> \<not> (\<exists>k. T k \<and> low k = low h) \<Longrightarrow> names_wf (\<lambda>k. k = h \<or> T k)"
  unfolding names_wf_def by metis

lemma next_context_id_simps [simp]:
  "fst (next_context_id s) = context_counter s"
  "snd (next_context_id s) = s\<lparr>context_counter := saturating_add (context_counter s) 1\<rparr>"
  by (simp_all add: next_context_id_def)

text \<open>What a successful operation makes of the slots.\<close>

definition add_session :: "session \<Rightarrow> slots \<Rightarrow> slots" where
  "add_session x s = s\<lparr>context_counter := saturating_add (context_counter s) 1,
     version := bt_insert (ses_handle x) (context_counter s) (version s),
     saved := bt_remove (ses_handle x) (saved s), sessions := bt_insert (ses_handle x) x (sessions s)\<rparr>"

definition drop_session :: "u32 \<Rightarrow> slots \<Rightarrow> slots" where
  "drop_session c s = s\<lparr>sessions := bt_remove c (sessions s), saved := bt_remove c (saved s),
      version := bt_remove c (version s)\<rparr>"

definition put_away :: "u32 \<Rightarrow> u64 \<Rightarrow> slots \<Rightarrow> slots" where
  "put_away h i s = s\<lparr>sessions := bt_remove h (sessions s), version := bt_remove h (version s),
      saved := bt_insert h i (saved s)\<rparr>"

lemma bt_remove_absent: "bt_get m k = None \<Longrightarrow> bt_remove k m = m"
  by (induction m) (auto simp: bt_remove_def split: if_splits)

lemma slots_insert_cases:
  assumes "bt_get (saved s) (ses_handle x) = None"
  shows "slots_insert x s =
     (if MAX_LOADED_SESSIONS \<le> length (sessions s) then (Inl rc_SESSION_MEMORY, s)
      else if MAX_ACTIVE_SESSIONS \<le> active s then (Inl rc_SESSION_HANDLES, s)
      else if at_context_gap s then (Inl rc_CONTEXT_GAP, s)
      else if counters_exhausted s then (Inl rc_TOO_MANY_CONTEXTS, s)
      else (Inr (ses_handle x), add_session x s))"
  using assms by (simp add: slots_insert_def check_gap_def next_context_id_def add_session_def bt_remove_absent Let_def)

lemma slots_restore_cases:
  "slots_restore x v s =
     (case bt_get (saved s) (ses_handle x) of
        None \<Rightarrow> (Inl rc_HANDLE, s)
      | Some current \<Rightarrow>
          if current \<noteq> v then (Inl rc_VALUE, s)
          else if MAX_LOADED_SESSIONS \<le> length (sessions s) then (Inl rc_SESSION_MEMORY, s)
          else (Inr (), add_session x s))"
  by (simp add: slots_restore_def next_context_id_def add_session_def Let_def split: option.splits)

lemma slots_save_cases:
  "maps_wf s \<Longrightarrow> slots_save h s =
     (case (bt_get (sessions s) h, bt_get (version s) h) of
        (Some x, Some i) \<Rightarrow> (Inr (x, i), put_away h i s)
      | _ \<Rightarrow> (Inl rc_HANDLE, s))"
  by (auto simp: maps_wf_def slots_save_def put_away_def Let_def split: option.splits)

lemma slots_remove_cases:
  "slots_remove h s = (ok_or (bt_get (sessions s) h) rc_HANDLE, drop_session h s)"
  by (simp add: slots_remove_def drop_session_def)

lemma tracked_changes:
  "tracked (add_session x s) = (\<lambda>k. k = ses_handle x \<or> tracked s k)"
  "tracked (drop_session c s) = (\<lambda>k. k \<noteq> c \<and> tracked s k)"
  "tracked (put_away h i s) = (\<lambda>k. k = h \<or> tracked s k)"
  "tracked (flush_loaded s) = (\<lambda>k. bt_get (saved s) k \<noteq> None)"
  by (auto simp: fun_eq_iff tracked_def add_session_def drop_session_def put_away_def flush_loaded_def)

lemma get_added [simp]: "bt_get (sessions (add_session x s)) (ses_handle x) = Some x"
  by (simp add: add_session_def)

lemma maps_wf_add: "maps_wf s \<Longrightarrow> maps_wf (add_session x s)"
  by (simp add: maps_wf_def add_session_def)

lemma maps_wf_drop: "maps_wf s \<Longrightarrow> maps_wf (drop_session c s)"
  by (simp add: maps_wf_def drop_session_def)

lemma maps_wf_put_away: "maps_wf s \<Longrightarrow> maps_wf (put_away h i s)"
  by (simp add: maps_wf_def put_away_def)

lemma counts_add:
  assumes "maps_wf s" and "bt_get (sessions s) (ses_handle x) = None"
  shows "length (sessions (add_session x s)) = Suc (length (sessions s))"
    and "active (add_session x s) = (if bt_get (saved s) (ses_handle x) = None then Suc (active s) else active s)"
proof -
  show "length (sessions (add_session x s)) = Suc (length (sessions s))"
    using assms by (simp add: maps_wf_def add_session_def length_bt_insert bt_contains_def)
  have "saved s \<noteq> []" if "bt_get (saved s) (ses_handle x) \<noteq> None" using that by auto
  then show "active (add_session x s) = (if bt_get (saved s) (ses_handle x) = None then Suc (active s) else active s)"
    using assms
    by (auto simp: maps_wf_def active_def add_session_def length_bt_insert length_bt_remove bt_contains_def
        Suc_diff_le neq_Nil_conv)
qed

lemma counts_drop:
  assumes "maps_wf s"
  shows "length (sessions (drop_session c s)) \<le> length (sessions s)" and "active (drop_session c s) \<le> active s"
  using assms by (auto simp: maps_wf_def active_def drop_session_def length_bt_remove)

lemma counts_put_away:
  assumes "maps_wf s" and "bt_get (sessions s) h \<noteq> None"
  shows "length (sessions (put_away h i s)) < length (sessions s)" and "active (put_away h i s) = active s"
proof -
  have "sessions s \<noteq> []" using assms(2) by auto
  moreover have "bt_get (saved s) h = None" using assms unfolding maps_wf_def by metis
  ultimately show "length (sessions (put_away h i s)) < length (sessions s)"
    and "active (put_away h i s) = active s"
    using assms
    by (auto simp: maps_wf_def active_def put_away_def length_bt_insert length_bt_remove bt_contains_def neq_Nil_conv)
qed

lemma limits_put_away:
  "maps_wf s \<Longrightarrow> limits_ok s \<Longrightarrow> bt_get (sessions s) h = Some x \<Longrightarrow> limits_ok (put_away h i s)"
  using counts_put_away [of s h i] by (simp add: limits_ok_def)

lemma slots_wf_insert:
  assumes "slots_wf s" and "is_session_handle (ses_handle x)"
    and "\<not> (\<exists>k. tracked s k \<and> low k = low (ses_handle x))"
  shows "slots_wf (snd (slots_insert x s))"
proof -
  have new: "bt_get (sessions s) (ses_handle x) = None" "bt_get (saved s) (ses_handle x) = None"
    using assms(3) by (auto simp: tracked_def)
  note cases = slots_insert_cases [OF new(2)]
  show ?thesis
    using assms counts_add [OF _ new(1)] new
    by (auto simp: cases slots_wf_def limits_ok_def tracked_changes intro: names_wf_insert maps_wf_add)
qed

lemma slots_wf_start: "slots_wf s \<Longrightarrow> slots_wf (snd (start x s))"
  by (auto simp: start_def split: sum.splits intro!: slots_wf_insert dest: allocate_handle_Inr)

lemma slots_wf_modify:
  assumes "slots_wf s" and "\<And>x. ses_handle (f x) = ses_handle x"
  shows "slots_wf (snd (slots_modify h f s))"
proof -
  have "maps_wf (snd (slots_modify h f s))"
    using assms unfolding slots_wf_def maps_wf_def slots_modify_def
    by (auto split: option.splits) (metis option.distinct(1))
  moreover have "tracked (snd (slots_modify h f s)) = tracked s"
    by (auto simp: fun_eq_iff slots_modify_def tracked_def split: option.splits)
  moreover have "limits_ok (snd (slots_modify h f s)) = limits_ok s"
    by (auto simp: slots_modify_def limits_ok_def active_def split: option.splits)
  ultimately show ?thesis using assms(1) by (simp add: slots_wf_def)
qed

lemma slots_wf_drop: "slots_wf s \<Longrightarrow> slots_wf (drop_session c s)"
  using counts_drop [of s c]
  by (auto simp: slots_wf_def limits_ok_def tracked_changes intro: maps_wf_drop elim: names_wf_mono)

lemma slots_wf_save: "slots_wf s \<Longrightarrow> slots_wf (snd (slots_save h s))"
  by (auto simp: slots_save_cases slots_wf_def tracked_changes tracked_def [of s h]
      split: option.splits intro: maps_wf_put_away limits_put_away elim: names_wf_mono)

lemma slots_wf_restore: "slots_wf s \<Longrightarrow> slots_wf (snd (slots_restore x v s))"
proof -
  assume wf: "slots_wf s"
  have "bt_get (sessions s) (ses_handle x) = None" if "bt_get (saved s) (ses_handle x) \<noteq> None"
    using wf that unfolding slots_wf_def maps_wf_def by metis
  then show ?thesis
    using wf counts_add [of s x]
    by (auto simp: slots_restore_cases slots_wf_def limits_ok_def tracked_changes tracked_def [of s "ses_handle x"]
        split: option.splits intro: maps_wf_add elim: names_wf_mono)
qed

lemma flush_loop_cases:
  "\<forall>c \<in> set cs. tracked s c \<Longrightarrow> flush_loop cs s =
     (case cs of [] \<Rightarrow> (Inl rc_HANDLE, s) | c # _ \<Rightarrow> (Inr c, drop_session c s))"
  by (cases cs) (auto simp: Let_def drop_session_def tracked_def bt_contains_def)

lemma drop_untracked: "maps_wf s \<Longrightarrow> \<not> tracked s c \<Longrightarrow> drop_session c s = s"
  by (simp add: drop_session_def tracked_def maps_wf_def bt_remove_absent)

text \<open>TPM2_FlushContext names a session by its low three octets alone.\<close>

lemma slots_flush_cases:
  assumes "slots_wf s"
  shows "(\<exists>c. tracked s c \<and> low c = low h \<and> slots_flush h s = (Inr c, drop_session c s))
    \<or> (\<not> (\<exists>c. tracked s c \<and> low c = low h) \<and> slots_flush h s = (Inl rc_HANDLE, s))"
proof -
  have low_id: "low (b OR low h) = low h" if "b = 0x02000000 \<or> b = (0x03000000 :: u32)" for b
    using that unfolding low_def by (auto simp: bit.conj_disj_distrib2 and.assoc)
  let ?rest = "filter (\<lambda>a. a \<noteq> h \<and> tracked s a) [hc_HMAC_SESSION_FIRST OR low h, hc_POLICY_SESSION_FIRST OR low h]"
  have cands: "flush_candidates h s = h # ?rest"
    by (simp add: flush_candidates_def tracked_def bt_contains_def low_def)
  have uniq: "c = h \<or> c \<in> set ?rest" if "tracked s c" "low c = low h" for c
    using session_handle_low(2) [of c] that assms by (auto simp: slots_wf_def names_wf_def)
  show ?thesis
  proof (cases "tracked s h")
    case True
    then have "slots_flush h s = (Inr h, drop_session h s)"
      by (auto simp: slots_flush_def cands Let_def drop_session_def tracked_def bt_contains_def)
    with True show ?thesis by blast
  next
    case False
    then have "slots_flush h s = flush_loop ?rest s"
      using drop_untracked [of s h] assms
      by (simp add: slots_flush_def cands Let_def tracked_def bt_contains_def drop_session_def slots_wf_def)
    also have "\<dots> = (case ?rest of [] \<Rightarrow> (Inl rc_HANDLE, s) | c # _ \<Rightarrow> (Inr c, drop_session c s))"
      by (rule flush_loop_cases) simp
    finally have loop: "slots_flush h s = (case ?rest of [] \<Rightarrow> (Inl rc_HANDLE, s) | c # _ \<Rightarrow> (Inr c, drop_session c s))" .
    show ?thesis
    proof (cases ?rest)
      case Nil
      then show ?thesis using loop uniq False by (metis list.case(1) list.set(1) empty_iff)
    next
      case (Cons c cs)
      then have "c \<in> set ?rest" by simp
      then have "tracked s c" and "low c = low h" using low_id by (auto split: if_splits)
      with Cons loop show ?thesis by auto
    qed
  qed
qed

section \<open>Runs\<close>

datatype slot_op =
    Start session | Modify u32 "session \<Rightarrow> session" | Save u32 | Restore session u64
  | Flush u32 | Remove u32 | Take_object_id | Flush_loaded | Reset_slots

text \<open>A change to a loaded session never touches its handle.\<close>

fun slot_step :: "slot_op \<Rightarrow> slots \<Rightarrow> slots" where
  "slot_step (Start x) s = snd (start x s)"
| "slot_step (Modify h f) s = snd (slots_modify h (\<lambda>x. (f x)\<lparr>ses_handle := ses_handle x\<rparr>) s)"
| "slot_step (Save h) s = snd (slots_save h s)"
| "slot_step (Restore x v) s = snd (slots_restore x v s)"
| "slot_step (Flush h) s = snd (slots_flush h s)"
| "slot_step (Remove h) s = snd (slots_remove h s)"
| "slot_step Take_object_id s = snd (next_object_id s)"
| "slot_step Flush_loaded s = flush_loaded s"
| "slot_step Reset_slots s = slots_clear s"

lemma slots_wf_others:
  "slots_wf s \<Longrightarrow> slots_wf (snd (next_object_id s))"
  "slots_wf s \<Longrightarrow> slots_wf (flush_loaded s)"
  "slots_wf s \<Longrightarrow> slots_wf (slots_clear s)"
  by (auto simp: slots_wf_def maps_wf_def limits_ok_def active_def next_object_id_def flush_loaded_def
      slots_clear_def tracked_def [abs_def] names_wf_def)

lemma slots_wf_flush: "slots_wf s \<Longrightarrow> slots_wf (snd (slots_flush h s))"
  using slots_flush_cases [of s h] by (auto intro: slots_wf_drop)

lemma slot_step_wf: "slots_wf s \<Longrightarrow> slots_wf (slot_step op s)"
  by (cases op) (simp_all add: slots_wf_start slots_wf_modify slots_wf_save slots_wf_restore slots_wf_flush
      slots_remove_cases slots_wf_drop slots_wf_others)

interpretation slot_run: invariant_steps slot_step slots_wf
  by unfold_locales (rule slot_step_wf)

text \<open>What any operation makes of the slots, from the good states of the invariant.\<close>

lemma slot_step_cases:
  assumes "slots_wf s" and "op \<noteq> Reset_slots"
  obtains (same) "saved (slot_step op s) = saved s" and "version (slot_step op s) = version s"
      and "context_counter (slot_step op s) = context_counter s"
    | (add) x where "slot_step op s = add_session x s"
    | (drop) c where "slot_step op s = drop_session c s"
    | (away) h i where "bt_get (version s) h = Some i" and "slot_step op s = put_away h i s"
    | (flushed) "slot_step op s = flush_loaded s"
proof (cases op)
  case (Start x)
  show thesis
  proof (cases "allocate_handle (session_type x) s")
    case (Inr h)
    then have "bt_get (saved s) (ses_handle (x\<lparr>ses_handle := h\<rparr>)) = None"
      using allocate_handle_Inr(2) by (auto simp: tracked_def)
    from slots_insert_cases [OF this] show thesis
      using Start Inr same add by (simp add: start_def split: if_splits)
  qed (use Start same in \<open>simp add: start_def\<close>)
next
  case (Save h)
  then show thesis
    using assms same away [of h]
    by (cases "bt_get (sessions s) h"; cases "bt_get (version s) h") (simp_all add: slots_save_cases slots_wf_def)
next
  case (Restore x v)
  then show thesis
    using same add [of x]
    by (cases "bt_get (saved s) (ses_handle x)"; cases "bt_get (saved s) (ses_handle x) = Some v";
        cases "MAX_LOADED_SESSIONS \<le> length (sessions s)") (simp_all add: slots_restore_cases)
next
  case (Flush h)
  then show thesis
    using slots_flush_cases [OF assms(1), of h] same drop by auto
qed (use assms same drop flushed in \<open>auto simp: slots_modify_def slots_remove_cases next_object_id_def
    split: option.splits\<close>)

lemma holds_id_changes:
  "holds_id (add_session x s) h i =
     (if h = ses_handle x then i = context_counter s else holds_id s h i)"
  "holds_id (drop_session c s) h i = (h \<noteq> c \<and> holds_id s h i)"
  "holds_id (flush_loaded s) h i = (bt_get (saved s) h = Some i)"
  by (auto simp: holds_id_def add_session_def drop_session_def flush_loaded_def)

lemma holds_id_put_away:
  "bt_get (version s) k = Some j \<Longrightarrow> holds_id (put_away k j s) h i \<Longrightarrow> holds_id s h i"
  by (auto simp: holds_id_def put_away_def split: if_splits)

lemma counters_of_changes [simp]:
  "context_counter (add_session x s) = saturating_add (context_counter s) 1"
  "context_counter (drop_session c s) = context_counter s"
  "context_counter (put_away h i s) = context_counter s"
  "context_counter (flush_loaded s) = context_counter s"
  by (simp_all add: add_session_def drop_session_def put_away_def flush_loaded_def)

lemma next_counter: "c < saturating_add c 1 \<or> c = - 1" for c :: u64
proof (cases "c = - 1")
  case False
  then have "unat c \<noteq> 2 ^ 64 - 1" by (simp add: word_unat_eq_iff unat_max_word)
  moreover have "unat c < 2 ^ 64" using unsigned_less [of c] by simp
  ultimately show ?thesis
    by (simp add: word_less_nat_alt unat_saturating_add)
qed simp

lemma ids_wf_step:
  assumes "slots_wf s" and "ids_wf s"
  shows "ids_wf (slot_step op s)"
proof (cases "op = Reset_slots")
  case True
  then show ?thesis by (simp add: ids_defs slots_clear_def)
next
  case False
  with assms(1) show ?thesis
  proof (cases rule: slot_step_cases)
    case same
    then have "holds_id (slot_step op s) h i \<longleftrightarrow> holds_id s h i" for h i by (simp add: holds_id_def)
    then show ?thesis using assms(2) same by (simp add: ids_wf_def)
  next
    case (add x)
    let ?c = "context_counter s"
    have less: "i < saturating_add ?c 1 \<or> i = - 1" if "i < ?c \<or> i = - 1 \<or> i = ?c" for i
      using that next_counter [of ?c] saturating_add_ge [of ?c 1] by (auto elim: order_less_le_trans)
    have pos: "0 < ?c" using assms(2) by (simp add: ids_wf_def)
    have old: "0 < i \<and> (i < ?c \<or> i = - 1)" if "holds_id s h i" for h i
      using that assms(2) by (simp add: ids_wf_def)
    have uniq: "h = k \<or> i = - 1" if "holds_id s h i" "holds_id s k i" for h k i
      using that assms(2) unfolding ids_wf_def by blast
    have fresh: "i = - 1" if "holds_id s h i" "i = ?c" for h i
      using old [OF that(1)] that(2) by auto
    have "0 < saturating_add ?c 1" using pos saturating_add_ge [of ?c 1] by (rule order_less_le_trans)
    then show ?thesis
      unfolding ids_wf_def add holds_id_changes counters_of_changes
      using less old uniq fresh pos by (auto split: if_splits)
  next
    case (drop c)
    then show ?thesis using assms(2) unfolding ids_wf_def drop holds_id_changes counters_of_changes by blast
  next
    case (away h i)
    then show ?thesis
      using assms(2) holds_id_put_away [OF away(1)] unfolding ids_wf_def away(2) counters_of_changes by blast
  next
    case flushed
    then show ?thesis
      using assms(2) unfolding ids_wf_def flushed holds_id_changes counters_of_changes by (simp add: holds_id_def)
  qed
qed

interpretation slot_ids: invariant_steps slot_step "\<lambda>s. slots_wf s \<and> ids_wf s"
  by unfold_locales (simp add: slot_step_wf ids_wf_step)

text \<open>An identifier that has been given up never comes back.\<close>

definition retired :: "u64 \<Rightarrow> slots \<Rightarrow> bool" where
  "retired v s \<longleftrightarrow> v < context_counter s \<and> (\<forall>h. \<not> holds_id s h v)"

lemma retired_step:
  assumes "slots_wf s" and "retired v s" and "op \<noteq> Reset_slots"
  shows "retired v (slot_step op s)"
  using assms(1,3)
proof (cases rule: slot_step_cases)
  case same
  then show ?thesis using assms(2) by (simp add: retired_def holds_id_def)
next
  case (add x)
  then show ?thesis
    using assms(2) saturating_add_ge [of "context_counter s" 1]
    by (auto simp: retired_def holds_id_changes intro: order_less_le_trans)
next
  case (away h i)
  then show ?thesis
    using assms(2) holds_id_put_away [OF away(1)] by (auto simp: retired_def)
next
  case (drop c)
  then show ?thesis using assms(2) by (auto simp: retired_def holds_id_changes)
next
  case flushed
  then show ?thesis using assms(2) by (auto simp: retired_def holds_id_changes) (auto simp: holds_id_def)
qed

lemma retired_refused:
  "retired v s \<Longrightarrow> fst (slots_restore y v s) \<in> {Inl rc_HANDLE, Inl rc_VALUE}"
  by (auto simp: retired_def holds_id_def slots_restore_cases split: option.splits)

text \<open>C34: the session slots stay consistent through any use: every handle is loaded or saved but not
  both and is the one its session carries, no two share their low three octets, each loaded
  session has an identifier, and there are never more than 32 loaded nor 64 active sessions.\<close>

theorem session_slots_consistent:
  "slots_wf (run_steps slot_step ops slots_new)"
  by (rule slot_run.run_inv) (rule slots_new_wf)

section \<open>Power cycles\<close>

text \<open>
  What a reload of the state record makes of the slots: the record holds the saved contexts and the two
  counters of the moment it was written, the loaded sessions are gone.
\<close>

definition reloaded_slots :: "slots \<Rightarrow> slots" where
  "reloaded_slots f = restore_saved_contexts (saved_contexts f) (context_counter f) (object_counter f) slots_new"

lemma reloaded_is_flushed: "slots_wf f \<Longrightarrow> reloaded_slots f = flush_loaded f"
  using insert_all [of "[]" "saved f"]
  by (cases f) (simp add: reloaded_slots_def restore_saved_contexts_def saved_contexts_def flush_loaded_def slots_new_def
      slots_wf_def maps_wf_def)

text \<open>The slots together with the ones the state record was last written from.\<close>

datatype power_op = Use slot_op | Write_record | Reload_record

fun power_step :: "power_op \<Rightarrow> slots \<times> slots \<Rightarrow> slots \<times> slots" where
  "power_step (Use op) (s, f) = (slot_step op s, f)"
| "power_step Write_record (s, f) = (s, s)"
| "power_step Reload_record (s, f) = (reloaded_slots f, f)"

definition power_wf :: "slots \<times> slots \<Rightarrow> bool" where
  "power_wf = (\<lambda>(s, f). slots_wf s \<and> ids_wf s \<and> slots_wf f \<and> ids_wf f)"

interpretation power_run: invariant_steps power_step power_wf
proof unfold_locales
  fix p :: "slots \<times> slots" and op
  assume wf: "power_wf p"
  obtain s f where p: "p = (s, f)" by (cases p)
  have "slots_wf (flush_loaded f)" "ids_wf (flush_loaded f)"
    using slot_ids.step_inv [of f Flush_loaded] wf by (simp_all add: p power_wf_def)
  then show "power_wf (power_step op p)"
    using wf slot_ids.step_inv [of s] by (cases op) (auto simp: p power_wf_def reloaded_is_flushed)
qed

text \<open>
  Runs that keep to one series: no TPM Reset, and the record that is reloaded was written in the run
  (\<open>current\<close>: or is known to be no older than its start).
\<close>

fun same_series :: "bool \<Rightarrow> power_op list \<Rightarrow> bool" where
  "same_series current [] = True"
| "same_series current (Use op # ops) = (op \<noteq> Reset_slots \<and> same_series current ops)"
| "same_series current (Write_record # ops) = same_series True ops"
| "same_series current (Reload_record # ops) = (current \<and> same_series current ops)"

lemma retired_flushed: "retired v f \<Longrightarrow> retired v (flush_loaded f)"
  by (auto simp: retired_def holds_id_changes) (auto simp: holds_id_def)

lemma retired_power:
  assumes "power_wf (s, f)" and "retired v s" and "current \<Longrightarrow> retired v f" and "same_series current ops"
  shows "retired v (fst (run_steps power_step ops (s, f)))"
  using assms
proof (induction current ops arbitrary: s f rule: same_series.induct)
  case (2 current op ops)
  moreover have "power_wf (power_step (Use op) (s, f))" by (rule power_run.step_inv) (rule 2)
  moreover have "retired v (slot_step op s)" using 2 by (intro retired_step) (auto simp: power_wf_def)
  ultimately show ?case by simp
next
  case (3 current ops)
  moreover have "power_wf (s, s)" using 3 by (simp add: power_wf_def)
  ultimately show ?case by simp
next
  case (4 current ops)
  then have current by simp
  moreover have "power_wf (power_step Reload_record (s, f))" by (rule power_run.step_inv) (rule 4)
  moreover have "retired v (reloaded_slots f)" using 4 by (simp add: power_wf_def reloaded_is_flushed retired_flushed)
  ultimately show ?case using 4 \<open>current\<close> by simp
qed simp

lemma restored_id_retired:
  assumes "slots_wf s" and "ids_wf s" and "fst (slots_restore x v s) = Inr ()" and "v \<noteq> - 1"
  shows "retired v (snd (slots_restore x v s))"
proof -
  have saved: "bt_get (saved s) (ses_handle x) = Some v" and new: "snd (slots_restore x v s) = add_session x s"
    using assms(3) by (auto simp: slots_restore_cases split: option.splits if_splits)
  then have holds: "holds_id s (ses_handle x) v" by (simp add: holds_id_def)
  then have "v < context_counter s" using assms(2,4) unfolding ids_wf_def by blast
  moreover have "h = ses_handle x" if "holds_id s h v" for h
    using that holds assms(2,4) unfolding ids_wf_def by blast
  ultimately show ?thesis
    using saturating_add_ge [of "context_counter s" 1] unfolding new
    by (auto simp: retired_def holds_id_changes intro: order_less_le_trans)
qed

text \<open>C33: a saved session context can be loaded only once in a series of contexts. After a load of the
  context numbered \<open>v\<close> (not the exhausted counter's last number) no later load of that number
  succeeds, whatever session the blob is said to hold and whatever happens in between: sessions
  started, saved, loaded, changed, flushed or removed, the state record written, and power cycles that
  reload it; only no TPM Reset, and no reload of a record written before the load.\<close>

theorem saved_context_loads_once:
  assumes "fst (slots_restore x v (fst (run_steps power_step ops (slots_new, slots_new)))) = Inr ()" and "v \<noteq> - 1"
    and "same_series False later"
  shows "fst (slots_restore y v (fst (run_steps power_step (ops @ [Use (Restore x v)] @ later) (slots_new, slots_new))))
     \<in> {Inl rc_HANDLE, Inl rc_VALUE}"
proof -
  obtain s f where sf: "run_steps power_step ops (slots_new, slots_new) = (s, f)"
    by (cases "run_steps power_step ops (slots_new, slots_new)")
  have wf: "power_wf (s, f)"
    using power_run.run_inv [of "(slots_new, slots_new)" ops] slots_new_wf by (simp add: sf power_wf_def)
  then have "retired v (snd (slots_restore x v s))"
    using restored_id_retired [of s x v] assms(1,2) by (simp add: sf power_wf_def)
  moreover have "power_wf (snd (slots_restore x v s), f)"
    using power_run.step_inv [OF wf, of "Use (Restore x v)"] by simp
  ultimately have "retired v (fst (run_steps power_step later (snd (slots_restore x v s), f)))"
    using assms(3) by (intro retired_power) simp_all
  from retired_refused [OF this, of y] show ?thesis by (simp add: run_steps_append sf)
qed

definition demo_session :: session where
  "demo_session = \<lparr>ses_handle = 0x02000000, session_type = se_HMAC, auth_hash = alg_SHA256, nonce_tpm = [],
     nonce_caller = [], session_key = [], ses_bind = rh_NULL, bind_name = [], bind_uses_lockout = False,
     start_time = 0, time_epoch = 0, symmetric = sym_null, policy = policy_default, audit = audit_default,
     ses_attributes = 0\<rparr>"

lemma demo_start: "slot_step (Start demo_session) slots_new = add_session demo_session slots_new"
proof -
  have find: "find (\<lambda>i. \<not> context_id_taken (of_nat i) slots_new) [0..<MAX_ACTIVE_SESSIONS] = Some 0"
    by (simp add: MAX_ACTIVE_SESSIONS_def upt_conv_Cons context_id_taken_def slots_new_def bt_keys_def)
  have "allocate_handle se_HMAC slots_new = Inr 0x02000000"
    by (simp add: allocate_handle_def find)
  moreover have "demo_session\<lparr>ses_handle := 0x02000000\<rparr> = demo_session" "session_type demo_session = se_HMAC"
    by (simp_all add: demo_session_def)
  ultimately show ?thesis
    by (simp add: start_def slots_insert_def slots_new_def MAX_LOADED_SESSIONS_def MAX_ACTIVE_SESSIONS_def
        active_def check_gap_def at_context_gap_def oldest_active_def min_id_def counters_exhausted_def
        next_context_id_def add_session_def Let_def bt_remove_def)
qed

theorem saved_context_loads_once_witness:
  "fst (slots_restore demo_session 1 (fst (run_steps power_step [Use (Start demo_session), Use (Save 0x02000000), Write_record, Reload_record]
      (slots_new, slots_new)))) = Inr ()
   \<and> fst (slots_restore demo_session 1 (fst (run_steps power_step
        ([Use (Start demo_session), Use (Save 0x02000000), Write_record, Reload_record] @ [Use (Restore demo_session 1)]
          @ [Use (Save 0x02000000), Write_record, Reload_record]) (slots_new, slots_new))))
      \<in> {Inl rc_HANDLE, Inl rc_VALUE}"
proof -
  let ?ops = "[Use (Start demo_session), Use (Save 0x02000000), Write_record, Reload_record]"
  have h: "ses_handle demo_session = 0x02000000" by (simp add: demo_session_def)
  have first: "fst (slots_restore demo_session 1 (fst (run_steps power_step ?ops (slots_new, slots_new)))) = Inr ()"
    by (simp only: run_steps_simps demo_start power_step.simps)
       (simp add: add_session_def slots_save_def slots_restore_def slots_new_def h bt_remove_def Let_def
         MAX_LOADED_SESSIONS_def next_context_id_def reloaded_slots_def restore_saved_contexts_def saved_contexts_def)
  show ?thesis
    using first saved_context_loads_once [OF first, of "[Use (Save 0x02000000), Write_record, Reload_record]" demo_session]
    by simp
qed

text \<open>Starting a session ends in one of five ways. It succeeds with a handle of the session's
  range whose low three octets nobody holds, under which the session is then found, and adds
  only that handle; or it changes nothing and says why, truthfully: 32 sessions loaded, 64
  active, the window of identifiers full, or a counter at its end.\<close>

theorem start_outcome:
  "let s = run_steps slot_step ops slots_new in
   case start x s of
     (Inr h, t) \<Rightarrow> is_session_handle h \<and> (h < hc_POLICY_SESSION_FIRST \<longleftrightarrow> session_type x = se_HMAC)
       \<and> (\<nexists>k. tracked s k \<and> low k = low h) \<and> slots_get h t = Inr (x\<lparr>ses_handle := h\<rparr>)
       \<and> (\<forall>k. tracked t k = (k = h \<or> tracked s k))
   | (Inl e, t) \<Rightarrow> t = s \<and>
       (e, True) \<in> {(rc_SESSION_MEMORY, length (sessions s) = 32), (rc_SESSION_HANDLES, active s = 64),
         (rc_CONTEXT_GAP, at_context_gap s), (rc_TOO_MANY_CONTEXTS, counters_exhausted s)}"
proof -
  define s where "s = run_steps slot_step ops slots_new"
  have wf: "slots_wf s" unfolding s_def by (rule slot_run.run_inv) (rule slots_new_wf)
  have limits: "length (sessions s) \<le> 32" "active s \<le> 64"
    using wf by (simp_all add: slots_wf_def limits_ok_def MAX_LOADED_SESSIONS_def MAX_ACTIVE_SESSIONS_def)
  show ?thesis
  proof (cases "allocate_handle (session_type x) s")
    case (Inl e)
    then have "start x s = (Inl e, s)" and "active s = 64 \<and> e = rc_SESSION_HANDLES"
      using allocate_handle_Inl [OF wf, of "session_type x" e] by (simp_all add: start_def MAX_ACTIVE_SESSIONS_def)
    then show ?thesis unfolding Let_def s_def [symmetric] by simp
  next
    case (Inr h)
    note new = allocate_handle_Inr [OF Inr] allocate_handle_range [OF Inr]
    have free: "bt_get (saved s) (ses_handle (x\<lparr>ses_handle := h\<rparr>)) = None"
      using new(2) by (auto simp: tracked_def)
    show ?thesis
      using new limits slots_insert_cases [OF free] unfolding Let_def s_def [symmetric]
      by (auto simp: start_def Inr tracked_changes MAX_LOADED_SESSIONS_def MAX_ACTIVE_SESSIONS_def
          slots_get_def get_added [of "x\<lparr>ses_handle := h\<rparr>", simplified])
  qed
qed

text \<open>TPM2_FlushContext goes by the low three octets of the handle and is exact: it removes the one
  session, loaded or saved, that has them, under whatever upper octet it was named, and no other;
  without such a session it changes nothing and fails with \<open>TPM_RC_HANDLE\<close>.\<close>

theorem flush_exact:
  "let s = run_steps slot_step ops slots_new in
   case slots_flush h s of
     (Inr c, t) \<Rightarrow> tracked s c \<and> low c = low h \<and> (\<forall>k. tracked t k = (tracked s k \<and> low k \<noteq> low h))
       \<and> bt_get (sessions t) = (bt_get (sessions s))(c := bt_get (sessions t) c)
       \<and> (\<lambda>k. saved_version k t) = (\<lambda>k. saved_version k s)(c := saved_version c t)
   | (Inl e, t) \<Rightarrow> t = s \<and> e = rc_HANDLE \<and> (\<nexists>k. tracked s k \<and> low k = low h)"
proof -
  define s where "s = run_steps slot_step ops slots_new"
  have wf: "slots_wf s" unfolding s_def by (rule slot_run.run_inv) (rule slots_new_wf)
  then have "tracked s k \<Longrightarrow> tracked s c \<Longrightarrow> low k = low c \<Longrightarrow> k = c" for k c
    by (simp add: slots_wf_def names_wf_def)
  moreover have "bt_get (sessions (drop_session c s)) k = bt_get (sessions s) k"
    and "saved_version k (drop_session c s) = saved_version k s" if "k \<noteq> c" for k c
    using that by (simp_all add: drop_session_def saved_version_def split: option.split)
  ultimately show ?thesis
    using slots_flush_cases [OF wf, of h] unfolding Let_def s_def [symmetric]
    by (auto simp: tracked_changes(2) fun_eq_iff)
qed

end
