(* ===== verification/Lockout.thy ===== *)
theory Lockout
  imports Session
begin

text \<open>
  Dictionary attack protection (\<open>LockoutState\<close> of \<open>src/tpm/core/state.rs\<close>, and the recording of
  authorization failures of \<open>src/tpm/commands/dispatch.rs\<close>). Times are milliseconds of the TPM's
  own Time, 64 bits wide and saturating, intervals are seconds, 32 bits wide.
\<close>

record lockout =
  failed_tries :: u32
  max_tries :: u32
  recovery_time :: u32
  lockout_recovery :: u32
  in_lockout :: bool
  next_recovery :: u64
  lockout_until :: u64

definition lockout_default :: lockout where
  "lockout_default = \<lparr>failed_tries = 0, max_tries = 32, recovery_time = 1000, lockout_recovery = 1000,
     in_lockout = False, next_recovery = 0, lockout_until = 0\<rparr>"

definition locked_out :: "lockout \<Rightarrow> bool" where
  "locked_out l = (max_tries l = 0 \<or> max_tries l \<le> failed_tries l)"

definition protection_off :: "lockout \<Rightarrow> bool" where
  "protection_off l = (recovery_time l = 0)"

text \<open>An interval in seconds as milliseconds: \<open>self.recovery_time as u64 * 1000\<close> cannot overflow.\<close>

definition millis :: "u32 \<Rightarrow> u64" where
  "millis s = ucast s * 1000"

function recover_loop :: "u64 \<Rightarrow> u64 \<Rightarrow> lockout \<Rightarrow> lockout" where
  "recover_loop interval time l =
     (if 0 < failed_tries l \<and> next_recovery l \<le> time then
        recover_loop interval time
          (l\<lparr>failed_tries := failed_tries l - 1, next_recovery := saturating_add (next_recovery l) interval\<rparr>)
      else l)"
  by pat_completeness auto
termination
  by (relation "measure (\<lambda>(interval, time, l). unat (failed_tries l))")
     (auto intro!: measure_unat)

declare recover_loop.simps [simp del]

definition on_time :: "u64 \<Rightarrow> lockout \<Rightarrow> lockout" where
  "on_time time l =
     (let interval = millis (recovery_time l);
          l = (if \<not> protection_off l \<and> 0 < interval then
                 (let l = recover_loop interval time l
                  in if failed_tries l = 0 then l\<lparr>next_recovery := 0\<rparr> else l)
               else l)
      in if in_lockout l \<and> lockout_until l \<noteq> 0 \<and> lockout_until l \<le> time
         then l\<lparr>in_lockout := False, lockout_until := 0\<rparr> else l)"

definition count_pending_failure :: "lockout \<Rightarrow> lockout" where
  "count_pending_failure l =
     (if protection_off l then l
      else if failed_tries l < max_tries l then l\<lparr>failed_tries := failed_tries l + 1\<rparr> else l)"

definition lockout_on_startup :: "lockout \<Rightarrow> lockout" where
  "lockout_on_startup l =
     (let l = l\<lparr>next_recovery := (if 0 < failed_tries l then millis (recovery_time l) else 0)\<rparr>
      in if in_lockout l then
           (if lockout_recovery l = 0 then l\<lparr>in_lockout := False, lockout_until := 0\<rparr>
            else l\<lparr>lockout_until := millis (lockout_recovery l)\<rparr>)
         else l)"

definition lockout_put :: "lockout \<Rightarrow> writer \<Rightarrow> writer" where
  "lockout_put l w =
     w_u64 (next_recovery l) (w_bool (in_lockout l) (w_u32 (lockout_recovery l) (w_u32 (recovery_time l)
       (w_u32 (max_tries l) (w_u32 (failed_tries l) w)))))"

definition lockout_get :: "reader \<Rightarrow> (lockout \<times> reader) tpm_result" where
  "lockout_get r =
     res_bind (r_u32 r) (\<lambda>(failed, r).
     res_bind (r_u32 r) (\<lambda>(max_t, r).
     res_bind (r_u32 r) (\<lambda>(recovery, r).
     res_bind (r_u32 r) (\<lambda>(lock_recovery, r).
     res_bind (r_bool r) (\<lambda>(locked, r).
     res_bind (r_u64 r) (\<lambda>(nxt, r).
       Inr (\<lparr>failed_tries = failed, max_tries = max_t, recovery_time = recovery,
             lockout_recovery = lock_recovery, in_lockout = locked, next_recovery = nxt,
             lockout_until = 0\<rparr>, r)))))))"

section \<open>Recording failures\<close>

text \<open>
  \<open>record_failure\<close>, \<open>record_lockout_failure\<close> and \<open>clear_failures\<close> work on the lockout state of the
  TPM; the first two read Time from its clock, here an argument.
\<close>

definition record_failure :: "bool \<Rightarrow> u64 \<Rightarrow> lockout \<Rightarrow> lockout" where
  "record_failure uses_lockout time l =
     (if \<not> uses_lockout then l
      else if protection_off l then l
      else l\<lparr>failed_tries := saturating_add (failed_tries l) 1,
             next_recovery := saturating_add time (millis (recovery_time l))\<rparr>)"

definition record_lockout_failure :: "u64 \<Rightarrow> lockout \<Rightarrow> lockout" where
  "record_lockout_failure time l =
     l\<lparr>in_lockout := True,
       lockout_until := (if lockout_recovery l = 0 then 0
                         else saturating_add time (millis (lockout_recovery l)))\<rparr>"

definition clear_failures :: "lockout \<Rightarrow> lockout" where
  "clear_failures l = l\<lparr>failed_tries := 0, next_recovery := 0, in_lockout := False, lockout_until := 0\<rparr>"

definition dictionary_attack_parameters :: "u32 \<Rightarrow> u32 \<Rightarrow> u32 \<Rightarrow> lockout \<Rightarrow> lockout" where
  "dictionary_attack_parameters m r lr l = l\<lparr>max_tries := m, recovery_time := r, lockout_recovery := lr\<rparr>"

section \<open>Recovery in closed form\<close>

lemma unat_millis: "unat (millis s) = 1000 * unat s"
proof -
  have "unat s < 2 ^ 32" using unsigned_less [of s] by simp
  then show ?thesis
    by (simp add: millis_def unat_word_ariths unsigned_ucast_eq take_bit_nat_eq_self mult.commute)
qed

lemma unat_dec: "0 < x \<Longrightarrow> unat (x - 1 :: u32) = unat x - 1"
  by (simp add: unat_minus_one word_neq_0_conv)

text \<open>
  The number of tries recovered by \<open>time\<close>: one at the deadline and one for each whole interval
  after it, as far as there are failures.
\<close>

definition recovered :: "nat \<Rightarrow> nat \<Rightarrow> lockout \<Rightarrow> nat" where
  "recovered interval time l =
     (if time < unat (next_recovery l) then 0
      else min (unat (failed_tries l)) (Suc ((time - unat (next_recovery l)) div interval)))"

lemma recover_loop_closed:
  assumes "0 < interval" and "unat time < 2 ^ 64 - 1"
  defines "k \<equiv> recovered (unat interval) (unat time)"
  shows "unat (failed_tries (recover_loop interval time l)) = unat (failed_tries l) - k l
    \<and> unat (next_recovery (recover_loop interval time l))
        = min (unat (next_recovery l) + k l * unat interval) (2 ^ 64 - 1)
    \<and> recover_loop interval time l =
        l\<lparr>failed_tries := failed_tries (recover_loop interval time l),
          next_recovery := next_recovery (recover_loop interval time l)\<rparr>"
proof (induction "unat (failed_tries l)" arbitrary: l rule: less_induct)
  case less
  let ?i = "unat interval" and ?t = "unat time" and ?n = "unat (next_recovery l)"
  have i: "0 < ?i" using assms(1) by (simp add: word_less_nat_alt)
  have "?n < 2 ^ 64" using unsigned_less [of "next_recovery l"] by simp
  then have n: "?n \<le> 2 ^ 64 - 1" by simp
  show ?case
  proof (cases "0 < failed_tries l \<and> next_recovery l \<le> time")
    case False
    then have "k l = 0" by (auto simp: k_def recovered_def word_less_nat_alt word_le_nat_alt)
    moreover have "recover_loop interval time l = l" using False by (subst recover_loop.simps) (rule if_not_P)
    ultimately show ?thesis using n by simp
  next
    case True
    let ?l = "l\<lparr>failed_tries := failed_tries l - 1, next_recovery := saturating_add (next_recovery l) interval\<rparr>"
    have step: "recover_loop interval time l = recover_loop interval time ?l"
      using True by (subst recover_loop.simps) simp
    have f: "unat (failed_tries ?l) = unat (failed_tries l) - 1" "0 < unat (failed_tries l)"
      using True by (simp_all add: unat_dec word_less_nat_alt)
    have n': "unat (next_recovery ?l) = min (?n + ?i) (2 ^ 64 - 1)"
      by (simp add: unat_saturating_add)
    have le: "?n \<le> ?t" using True by (simp add: word_le_nat_alt)
    have k: "k l = Suc (k ?l)"
    proof (cases "?t < ?n + ?i")
      case True
      then have "?t - ?n < ?i" using le by simp
      then have "(?t - ?n) div ?i = 0" by simp
      moreover have "k ?l = 0" using True assms(2) by (simp add: k_def recovered_def unat_saturating_add)
      ultimately show ?thesis using le f by (simp add: k_def recovered_def)
    next
      case False
      then have "(?t - ?n) div ?i = Suc ((?t - (?n + ?i)) div ?i)"
        using i by (simp add: le_div_geq)
      moreover have "min (?n + ?i) (2 ^ 64 - 1) = ?n + ?i" using False assms(2) by simp
      ultimately show ?thesis using False le f by (simp add: k_def recovered_def unat_saturating_add)
    qed
    have IH: "unat (failed_tries (recover_loop interval time ?l)) = unat (failed_tries ?l) - k ?l
      \<and> unat (next_recovery (recover_loop interval time ?l))
        = min (unat (next_recovery ?l) + k ?l * ?i) (2 ^ 64 - 1)
      \<and> recover_loop interval time ?l =
        ?l\<lparr>failed_tries := failed_tries (recover_loop interval time ?l),
          next_recovery := next_recovery (recover_loop interval time ?l)\<rparr>"
      by (rule less) (use f in simp)
    show ?thesis
      unfolding step using IH f k n' by (auto simp: min_def)
  qed
qed

text \<open>What passing time does to the counter: the fields of \<open>on_time\<close> as numbers.\<close>

lemma on_time_fields:
  assumes "0 < recovery_time l" and "unat time < 2 ^ 64 - 1"
  defines "k \<equiv> recovered (1000 * unat (recovery_time l)) (unat time) l"
  shows "unat (failed_tries (on_time time l)) = unat (failed_tries l) - k"
    and "0 < failed_tries (on_time time l) \<Longrightarrow>
         unat (next_recovery (on_time time l)) = min (unat (next_recovery l) + k * (1000 * unat (recovery_time l))) (2 ^ 64 - 1)"
    and "max_tries (on_time time l) = max_tries l" and "recovery_time (on_time time l) = recovery_time l"
    and "lockout_recovery (on_time time l) = lockout_recovery l"
    and "in_lockout (on_time time l)
      \<longleftrightarrow> in_lockout l \<and> \<not> (lockout_until l \<noteq> 0 \<and> lockout_until l \<le> time)"
proof -
  let ?i = "millis (recovery_time l)"
  have i: "0 < ?i" "unat ?i = 1000 * unat (recovery_time l)" "recovery_time l \<noteq> 0"
    using assms(1) by (auto simp: word_less_nat_alt [of 0] unat_millis)
  define l' where "l' = recover_loop ?i time l"
  have loop: "unat (failed_tries l') = unat (failed_tries l) - k"
    "unat (next_recovery l') = min (unat (next_recovery l) + k * (1000 * unat (recovery_time l))) (2 ^ 64 - 1)"
    "l' = l\<lparr>failed_tries := failed_tries l', next_recovery := next_recovery l'\<rparr>"
    using recover_loop_closed [OF i(1) assms(2), of l] by (simp_all add: i(2) k_def l'_def)
  from loop(3) obtain f nx where l': "l' = l\<lparr>failed_tries := f, next_recovery := nx\<rparr>" by blast
  have rest: "max_tries l' = max_tries l" "recovery_time l' = recovery_time l"
    "lockout_recovery l' = lockout_recovery l" "in_lockout l' = in_lockout l" "lockout_until l' = lockout_until l"
    by (simp_all add: l')
  define m where "m = (if failed_tries l' = 0 then l'\<lparr>next_recovery := 0\<rparr> else l')"
  have m: "max_tries m = max_tries l" "recovery_time m = recovery_time l" "failed_tries m = failed_tries l'"
    "lockout_recovery m = lockout_recovery l" "in_lockout m = in_lockout l" "lockout_until m = lockout_until l"
    "failed_tries l' \<noteq> 0 \<Longrightarrow> next_recovery m = next_recovery l'"
    by (simp_all add: m_def rest)
  have ot: "on_time time l = (if in_lockout m \<and> lockout_until m \<noteq> 0 \<and> lockout_until m \<le> time
      then m\<lparr>in_lockout := False, lockout_until := 0\<rparr> else m)"
    using i by (simp add: on_time_def Let_def protection_off_def m_def l'_def)
  show "unat (failed_tries (on_time time l)) = unat (failed_tries l) - k"
    by (simp add: ot m loop(1))
  show "unat (next_recovery (on_time time l)) = min (unat (next_recovery l) + k * (1000 * unat (recovery_time l))) (2 ^ 64 - 1)"
    if "0 < failed_tries (on_time time l)"
  proof -
    have "failed_tries l' \<noteq> 0" using that by (auto simp: ot m split: if_splits)
    then show ?thesis by (simp add: ot m(7) loop(2))
  qed
  show "max_tries (on_time time l) = max_tries l" and "recovery_time (on_time time l) = recovery_time l"
    and "lockout_recovery (on_time time l) = lockout_recovery l"
    by (simp_all add: ot m)
  show "in_lockout (on_time time l) \<longleftrightarrow> in_lockout l \<and> \<not> (lockout_until l \<noteq> 0 \<and> lockout_until l \<le> time)"
    by (auto simp: ot m)
qed

text \<open>The tries recovered are paid for: each after the first took one interval from the deadline.\<close>

lemma recovered_bounds:
  assumes "0 < i"
  shows "recovered i t l \<le> unat (failed_tries l)"
    and "0 < recovered i t l \<Longrightarrow> unat (next_recovery l) + (recovered i t l - 1) * i \<le> t"
    and "recovered i t l < unat (failed_tries l) \<Longrightarrow> t < unat (next_recovery l) + recovered i t l * i"
proof -
  let ?n = "unat (next_recovery l)" and ?q = "(t - unat (next_recovery l)) div i"
  have q: "?q * i \<le> t - ?n" "t - ?n < Suc ?q * i"
    using assms by (simp_all add: div_times_less_eq_dividend dividend_less_div_times)
  show "recovered i t l \<le> unat (failed_tries l)" by (simp add: recovered_def)
  show "?n + (recovered i t l - 1) * i \<le> t" if "0 < recovered i t l"
  proof -
    have "?n \<le> t" and "recovered i t l - 1 \<le> ?q" using that by (auto simp: recovered_def split: if_splits)
    then show ?thesis using q(1) mult_le_mono1 [of "recovered i t l - 1" ?q i] by linarith
  qed
  show "t < ?n + recovered i t l * i" if "recovered i t l < unat (failed_tries l)"
    using that q(2) by (auto simp: recovered_def min_def split: if_splits)
qed

text \<open>The recovery loop in closed form. By \<open>time\<close> the counter has gone down by one at the deadline
  and by one for each whole interval after it, as far as it goes; and the special lockout has
  ended just when its deadline has come, if it has one.\<close>

theorem on_time_recovers:
  assumes "0 < recovery_time l" and "unat time < 2 ^ 64 - 1"
  shows "unat (failed_tries (on_time time l)) = unat (failed_tries l)
      - (if time < next_recovery l then 0
         else Suc ((unat time - unat (next_recovery l)) div (1000 * unat (recovery_time l))))
    \<and> (in_lockout (on_time time l) \<longleftrightarrow> in_lockout l \<and> (lockout_until l = 0 \<or> time < lockout_until l))"
  using on_time_fields(1,6) [OF assms]
  by (auto simp: recovered_def word_less_nat_alt word_le_nat_alt not_le [symmetric])

theorem on_time_recovers_witness:
  "let l = lockout_default\<lparr>failed_tries := 5, next_recovery := 1000000\<rparr> in
   unat (failed_tries (on_time 3500000 l)) = 2"
  using on_time_recovers [of "lockout_default\<lparr>failed_tries := 5, next_recovery := 1000000\<rparr>" 3500000]
  by (simp add: lockout_default_def Let_def)

definition lockout_enc :: "lockout \<Rightarrow> bytes" where
  "lockout_enc l = to_be 4 (failed_tries l) @ to_be 4 (max_tries l) @ to_be 4 (recovery_time l)
     @ to_be 4 (lockout_recovery l) @ bool_enc (in_lockout l) @ to_be 8 (next_recovery l) @ []"

text \<open>The deadline of the special lockout is not carried: it is measured in a Time that restarts.\<close>

interpretation lockout: codec lockout_get lockout_put lockout_enc "\<lambda>l. lockout_until l = 0"
proof (rule codecI)
  show "decoder lockout_get"
    unfolding lockout_get_def by (intro decoder_bind decoder_return decoder_int flag.decoder_axioms)
  show "lockout_put l w = emit (lockout_enc l) w" for l w
    by (simp add: lockout_put_def lockout_enc_def writes_emit flag.put_enc)
  show "reads lockout_get l (lockout_enc l)" if "lockout_until l = 0" for l
  proof -
    have "reads lockout_get \<lparr>failed_tries = failed_tries l, max_tries = max_tries l,
        recovery_time = recovery_time l, lockout_recovery = lockout_recovery l, in_lockout = in_lockout l,
        next_recovery = next_recovery l, lockout_until = 0\<rparr> (lockout_enc l)"
      unfolding lockout_get_def lockout_enc_def
      by (rule reads_return | (rule reads_bind, rule reads_int flag.reads_get TrueI) | rule TrueI)+
    then show ?thesis using that by (cases l) simp
  qed
qed

end
