(* ===== verification/Act.thy ===== *)
theory Act
  imports Base
begin

text \<open>
  The authenticated countdown timer (\<open>src/tpm/core/act.rs\<close>): a 32-bit count of seconds with a
  64-bit remainder in milliseconds, its signal, and what startups and shutdowns make of it.
\<close>

definition CLEAR_SIGNALED :: u32 where "CLEAR_SIGNALED = - 1"

record act =
  act_timeout :: u32
  signaled :: bool
  preserve_signaled :: bool
  fraction :: u64
  act_written :: bool
  act_policy :: tpmt_ha

definition act_default :: act where
  "act_default = \<lparr>act_timeout = 0, signaled = False, preserve_signaled = False, fraction = 0,
     act_written = False, act_policy = tpmt_ha_null\<rparr>"

definition act_attributes :: "act \<Rightarrow> u32" where
  "act_attributes a =
     (let bits = 0;
          bits = (if signaled a then bits OR act_SIGNALED else bits)
      in if preserve_signaled a then bits OR act_PRESERVE_SIGNALED else bits)"

text \<open>\<open>u32::try_from(seconds).unwrap_or(u32::MAX)\<close>.\<close>

definition u32_or_max :: "u64 \<Rightarrow> u32" where
  "u32_or_max s = (if s \<le> 0xFFFFFFFF then ucast s else - 1)"

definition act_advance :: "u64 \<Rightarrow> act \<Rightarrow> act" where
  "act_advance ms a =
     (if act_timeout a = 0 then a
      else (let a = a\<lparr>fraction := saturating_add (fraction a) ms\<rparr>;
                seconds = fraction a div 1000;
                a = a\<lparr>fraction := fraction a mod 1000\<rparr>
            in if seconds = 0 then a
               else (let seconds = u32_or_max seconds
                     in if act_timeout a \<le> seconds then a\<lparr>act_timeout := 0, signaled := True\<rparr>
                        else a\<lparr>act_timeout := act_timeout a - seconds\<rparr>)))"

definition set_timeout :: "u32 \<Rightarrow> act \<Rightarrow> act" where
  "set_timeout start a =
     (let a = a\<lparr>act_written := True, fraction := 0\<rparr>
      in if start = CLEAR_SIGNALED \<and> act_timeout a = 0 \<and> signaled a
         then a\<lparr>signaled := False, preserve_signaled := False\<rparr>
         else (let a = (case (act_timeout a = 0, start = 0) of
                   (_, False) \<Rightarrow> a\<lparr>signaled := False\<rparr>
                 | (True, True) \<Rightarrow> a
                 | (False, True) \<Rightarrow> a\<lparr>signaled := True\<rparr>)
               in a\<lparr>act_timeout := start, preserve_signaled := False\<rparr>))"

definition act_on_reset :: "act \<Rightarrow> act" where
  "act_on_reset a =
     a\<lparr>act_timeout := 0, signaled := False, preserve_signaled := False, fraction := 0, act_written := False,
       act_policy := tpmt_ha_null\<rparr>"

definition act_on_resume :: "act \<Rightarrow> act" where
  "act_on_resume a = a\<lparr>preserve_signaled := signaled a, act_written := False, fraction := 0\<rparr>"

definition saved_timeout :: "act \<Rightarrow> u32" where
  "saved_timeout a = (if act_written a then act_timeout a else act_timeout a div 2)"

definition on_shutdown_state :: "act \<Rightarrow> act" where
  "on_shutdown_state a = a\<lparr>act_timeout := saved_timeout a, act_written := False, fraction := 0\<rparr>"

definition act_restore :: "u32 \<Rightarrow> bool \<Rightarrow> act \<Rightarrow> act" where
  "act_restore t s a = a\<lparr>act_timeout := t, signaled := s, fraction := 0, act_written := False\<rparr>"

definition has_no_policy :: "act \<Rightarrow> bool" where
  "has_no_policy a = (ha_alg (act_policy a) = alg_NULL \<or> ha_digest (act_policy a) = [])"

section \<open>Counting down\<close>

text \<open>A timer between commands: less than a second is left over.\<close>

definition act_wf :: "act \<Rightarrow> bool" where
  "act_wf a \<longleftrightarrow> unat (fraction a) < 1000"

lemma unat_u32_or_max: "unat (u32_or_max s) = min (unat s) (2 ^ 32 - 1)"
  by (auto simp: u32_or_max_def word_le_nat_alt unsigned_ucast_eq take_bit_nat_eq_self unat_max_word min_def)

lemma act_advance_fields:
  assumes "act_wf a" and "unat ms + 1000 < 2 ^ 64"
  defines "m \<equiv> unat (fraction a) + unat ms"
  shows "unat (act_timeout (act_advance ms a)) = unat (act_timeout a) - m div 1000"
    and "signaled (act_advance ms a)
      \<longleftrightarrow> signaled a \<or> (act_timeout a \<noteq> 0 \<and> unat (act_timeout a) \<le> m div 1000)"
    and "act_timeout a \<noteq> 0 \<Longrightarrow> unat (fraction (act_advance ms a)) = m mod 1000"
    and "act_wf (act_advance ms a)"
proof -
  have sum: "unat (saturating_add (fraction a) ms) = m"
    using assms by (simp add: act_wf_def unat_saturating_add)
  have f: "unat (saturating_add (fraction a) ms div 1000) = m div 1000"
    "unat (saturating_add (fraction a) ms mod 1000) = m mod 1000"
    by (simp_all add: unat_div unat_mod sum)
  have z: "saturating_add (fraction a) ms div 1000 = 0 \<longleftrightarrow> m div 1000 = 0"
    unfolding f(1) [symmetric] by (simp add: unat_eq_0)
  have t: "unat (act_timeout a) < 2 ^ 32" using unsigned_less [of "act_timeout a"] by simp
  have pos: "act_timeout a \<noteq> 0 \<Longrightarrow> 0 < unat (act_timeout a)" by (simp add: unat_gt_0)
  have le: "act_timeout a \<le> u32_or_max (saturating_add (fraction a) ms div 1000)
      \<longleftrightarrow> unat (act_timeout a) \<le> m div 1000"
    using t by (simp add: word_le_nat_alt unat_u32_or_max f)
  have sub: "unat (act_timeout a - u32_or_max (saturating_add (fraction a) ms div 1000))
      = unat (act_timeout a) - m div 1000" if "\<not> unat (act_timeout a) \<le> m div 1000"
    using that t by (simp add: unat_sub_if' unat_u32_or_max f)
  show "unat (act_timeout (act_advance ms a)) = unat (act_timeout a) - m div 1000"
    using le z sub by (auto simp: act_advance_def Let_def)
  show "signaled (act_advance ms a)
      \<longleftrightarrow> signaled a \<or> (act_timeout a \<noteq> 0 \<and> unat (act_timeout a) \<le> m div 1000)"
    using le z pos by (auto simp: act_advance_def Let_def)
  show frac: "unat (fraction (act_advance ms a)) = m mod 1000" if "act_timeout a \<noteq> 0"
    using that f by (auto simp: act_advance_def Let_def)
  show "act_wf (act_advance ms a)"
    using frac assms(1) by (cases "act_timeout a = 0") (simp_all add: act_wf_def, simp add: act_advance_def)
qed

text \<open>The sum of the intervals is all that matters.\<close>

lemma act_advance_run:
  assumes "act_wf a" and "unat (fraction a) + sum_list (map unat mss) + 1000 < 2 ^ 64"
  shows "unat (act_timeout (run_steps act_advance mss a))
      = unat (act_timeout a) - (unat (fraction a) + sum_list (map unat mss)) div 1000
    \<and> (signaled (run_steps act_advance mss a) \<longleftrightarrow> signaled a \<or> (act_timeout a \<noteq> 0
         \<and> unat (act_timeout a) \<le> (unat (fraction a) + sum_list (map unat mss)) div 1000))"
  using assms
proof (induction mss arbitrary: a)
  case Nil
  then have "unat (fraction a) div 1000 = 0" by (simp add: act_wf_def)
  then show ?case by (simp add: unat_eq_0)
next
  case (Cons ms mss)
  let ?b = "act_advance ms a" and ?f = "unat (fraction a) + unat ms"
  have step: "unat (act_timeout ?b) = unat (act_timeout a) - ?f div 1000"
    "signaled ?b \<longleftrightarrow> signaled a \<or> (act_timeout a \<noteq> 0 \<and> unat (act_timeout a) \<le> ?f div 1000)"
    "act_timeout a \<noteq> 0 \<Longrightarrow> unat (fraction ?b) = ?f mod 1000" "act_wf ?b"
    using act_advance_fields [of a ms] Cons.prems(1,2) by simp_all
  show ?case
  proof (cases "act_timeout a = 0")
    case True
    then have "?b = a" by (simp add: act_advance_def)
    moreover have "unat (act_timeout a) = 0" using True by simp
    ultimately show ?thesis using Cons.IH [of a] Cons.prems True by simp
  next
    case False
    have "unat (fraction ?b) \<le> ?f" using step(3) [OF False] by simp
    then have IH: "unat (act_timeout (run_steps act_advance mss ?b))
        = unat (act_timeout ?b) - (unat (fraction ?b) + sum_list (map unat mss)) div 1000
      \<and> (signaled (run_steps act_advance mss ?b) \<longleftrightarrow> signaled ?b \<or> (act_timeout ?b \<noteq> 0
        \<and> unat (act_timeout ?b) \<le> (unat (fraction ?b) + sum_list (map unat mss)) div 1000))"
      using Cons.IH [OF step(4)] Cons.prems(2) by simp
    have split: "(?f + sum_list (map unat mss)) div 1000
        = ?f div 1000 + (unat (fraction ?b) + sum_list (map unat mss)) div 1000"
      unfolding step(3) [OF False] by (rule div_carry) simp
    have zero: "act_timeout ?b = 0 \<longleftrightarrow> unat (act_timeout a) \<le> ?f div 1000"
      using step(1) by (simp add: unat_eq_0 [symmetric])
    show ?thesis
      using IH step(1,2) False zero by (auto simp: split add.assoc [symmetric])
  qed
qed

text \<open>The countdown is exact however the time is cut into commands. After any sequence of
  intervals the timer has lost the whole seconds of their sum, stopping at zero, and it has
  signalled just when it was running and those seconds reached its timeout.\<close>

theorem countdown_exact:
  assumes "act_wf a" and "unat (fraction a) + sum_list (map unat mss) + 1000 < 2 ^ 64"
  shows "let b = run_steps act_advance mss a; s = (unat (fraction a) + sum_list (map unat mss)) div 1000
    in unat (act_timeout b) = unat (act_timeout a) - s
     \<and> (signaled b \<longleftrightarrow> signaled a \<or> (act_timeout a \<noteq> 0 \<and> unat (act_timeout a) \<le> s))"
  using act_advance_run [OF assms] by (simp add: Let_def)

theorem countdown_exact_witness:
  "let b = run_steps act_advance [1500, 700, 900] (set_timeout 3 act_default)
   in act_timeout b = 0 \<and> signaled b"
proof -
  let ?a = "set_timeout 3 act_default" and ?mss = "[1500, 700, 900] :: u64 list"
  have a: "act_timeout ?a = 3" "fraction ?a = 0" "\<not> signaled ?a" "act_wf ?a"
    by (simp_all add: set_timeout_def act_default_def act_wf_def CLEAR_SIGNALED_def Let_def)
  have "unat (fraction ?a) + sum_list (map unat ?mss) + 1000 < 2 ^ 64" by (simp add: a)
  from countdown_exact [OF a(4) this] show ?thesis by (simp add: Let_def a unat_eq_0)
qed

text \<open>TPM2_ACT_SetTimeout decides the signal by the old and the new timeout, exactly: starting or
  restarting a count clears it, stopping a running count raises it, stopping a stopped one keeps
  it, and all ones clears a signal that stands on a stopped timer and starts nothing.
  \<open>preserveSignaled\<close> is always cleared and the policy never touched.\<close>

theorem set_timeout_rules:
  "let b = set_timeout start a; stop = (start = - 1 \<and> act_timeout a = 0 \<and> signaled a)
   in act_timeout b = (if stop then 0 else start)
    \<and> signaled b = (start = 0 \<and> \<not> (act_timeout a = 0 \<and> \<not> signaled a))
    \<and> \<not> preserve_signaled b \<and> act_written b \<and> fraction b = 0 \<and> act_policy b = act_policy a"
  by (cases "act_timeout a = 0"; cases "start = 0") (simp_all add: set_timeout_def CLEAR_SIGNALED_def Let_def)

text \<open>
  Power cycles: an orderly shutdown that saves the timer and the resume that follows, with any time
  passing before and after.
\<close>

datatype act_event = Advance u64 | Shutdown_resume

fun act_step :: "act_event \<Rightarrow> act \<Rightarrow> act" where
  "act_step (Advance ms) a = act_advance ms a"
| "act_step Shutdown_resume a = act_on_resume (on_shutdown_state a)"

lemma act_advance_le:
  "act_timeout (act_advance ms a) \<le> act_timeout a" "act_written (act_advance ms a) = act_written a"
proof -
  have "x - y \<le> x" if "\<not> x \<le> y" for x y :: u32
    using that by (simp add: word_le_nat_alt unat_sub_if')
  then show "act_timeout (act_advance ms a) \<le> act_timeout a" "act_written (act_advance ms a) = act_written a"
    by (simp_all add: act_advance_def Let_def)
qed

lemma half_run:
  "\<not> act_written a \<Longrightarrow>
     unat (act_timeout (run_steps act_step es a)) * 2 ^ count_list es Shutdown_resume \<le> unat (act_timeout a)"
proof (induction es arbitrary: a)
  case (Cons e es)
  let ?b = "act_step e a" and ?c = "2 ^ count_list es Shutdown_resume :: nat"
  have w: "\<not> act_written ?b"
    using Cons.prems by (cases e) (simp_all add: act_advance_le act_on_resume_def)
  have IH: "unat (act_timeout (run_steps act_step es ?b)) * ?c \<le> unat (act_timeout ?b)" by (rule Cons.IH [OF w])
  show ?case
  proof (cases e)
    case (Advance ms)
    then have "unat (act_timeout ?b) \<le> unat (act_timeout a)"
      using act_advance_le(1) by (simp add: word_le_nat_alt)
    with IH Advance show ?thesis by (simp add: order_trans)
  next
    case Shutdown_resume
    then have "unat (act_timeout ?b) = unat (act_timeout a) div 2"
      using Cons.prems by (simp add: act_on_resume_def on_shutdown_state_def saved_timeout_def unat_div)
    then have "2 * unat (act_timeout ?b) \<le> unat (act_timeout a)" by simp
    with IH Shutdown_resume show ?thesis by (simp add: mult.left_commute)
  qed
qed simp

text \<open>nobody can keep the timer from expiring by shutting the TPM down: without a new
  TPM2_ACT_SetTimeout, the first shutdown keeps at most the timeout and each further one at most
  half, so after \<open>n\<close> of them at most a \<open>2 ^ (n - 1)\<close>th is left.\<close>

theorem shutdowns_halve_timeout:
  "unat (act_timeout (run_steps act_step es a)) * 2 ^ (count_list es Shutdown_resume - 1) \<le> unat (act_timeout a)"
proof (induction es arbitrary: a)
  case (Cons e es)
  show ?case
  proof (cases e)
    case (Advance ms)
    have "unat (act_timeout (act_advance ms a)) \<le> unat (act_timeout a)"
      using act_advance_le(1) by (simp add: word_le_nat_alt)
    with Cons.IH [of "act_advance ms a"] Advance show ?thesis by (simp add: order_trans)
  next
    case Shutdown_resume
    let ?b = "act_step Shutdown_resume a"
    have "\<not> act_written ?b" by (simp add: act_on_resume_def)
    note half_run [OF this, of es]
    moreover have "unat (act_timeout ?b) \<le> unat (act_timeout a)"
      by (simp add: act_on_resume_def on_shutdown_state_def saved_timeout_def unat_div)
    ultimately show ?thesis using Shutdown_resume by simp
  qed
qed simp

end
