(* ===== verification/Hierarchy.thy ===== *)
theory Hierarchy
  imports Rand Base
begin

text \<open>
  The hierarchies and their seeds (\<open>src/tpm/core/hierarchy.rs\<close>): the four base hierarchies, the
  firmware-limited and SVN-limited ones that are derived from them, and what a startup and
  TPM2_Clear make of them. The random number generator is a parameter, and a failing draw leaves
  what was already changed changed.
\<close>

definition PRIMARY_SEED_SIZE :: nat where "PRIMARY_SEED_SIZE = 32"

definition CONTEXT_INTEGRITY_HASH_ALG :: u16 where "CONTEXT_INTEGRITY_HASH_ALG = alg_SHA512"

definition FIRMWARE_SVN :: u32 where "FIRMWARE_SVN = 0"

definition FIRMWARE_MAX_SVN :: u32 where "FIRMWARE_MAX_SVN = 0"

record hierarchy =
  h_seed :: bytes
  h_proof :: bytes
  h_auth :: bytes
  h_policy :: tpmt_ha
  h_enabled :: bool

definition hierarchy_new :: "'g rng_bytes \<Rightarrow> 'g \<Rightarrow> hierarchy tpm_result \<times> 'g" where
  "hierarchy_new rb =
     st_bind (rb PRIMARY_SEED_SIZE) (\<lambda>s. st_bind (rb PRIMARY_SEED_SIZE) (\<lambda>p.
       st_return \<lparr>h_seed = s, h_proof = p, h_auth = [], h_policy = tpmt_ha_null, h_enabled = True\<rparr>))"

definition regenerate :: "'g rng_bytes \<Rightarrow> (hierarchy \<times> 'g, unit) st_op" where
  "regenerate rb = (\<lambda>(h, g).
     case rb PRIMARY_SEED_SIZE g of
       (Inl e, g) \<Rightarrow> (Inl e, (h, g))
     | (Inr s, g) \<Rightarrow>
         (case rb PRIMARY_SEED_SIZE g of
            (Inl e, g) \<Rightarrow> (Inl e, (h\<lparr>h_seed := s\<rparr>, g))
          | (Inr p, g) \<Rightarrow> (Inr (), (h\<lparr>h_seed := s, h_proof := p\<rparr>, g))))"

definition regenerate_proof :: "'g rng_bytes \<Rightarrow> (hierarchy \<times> 'g, unit) st_op" where
  "regenerate_proof rb = (\<lambda>(h, g).
     case rb PRIMARY_SEED_SIZE g of
       (Inl e, g) \<Rightarrow> (Inl e, (h, g))
     | (Inr p, g) \<Rightarrow> (Inr (), (h\<lparr>h_proof := p\<rparr>, g)))"

definition clear_authorization :: "hierarchy \<Rightarrow> hierarchy" where
  "clear_authorization h = h\<lparr>h_auth := [], h_policy := tpmt_ha_null\<rparr>"

definition has_auth :: "hierarchy \<Rightarrow> bool" where
  "has_auth h = (h_auth h \<noteq> [])"

definition has_policy :: "hierarchy \<Rightarrow> bool" where
  "has_policy h = (ha_alg (h_policy h) \<noteq> alg_NULL \<and> ha_digest (h_policy h) \<noteq> [])"

record hierarchies =
  platform :: hierarchy
  owner :: hierarchy
  endorsement :: hierarchy
  null :: hierarchy
  platform_nv_enabled :: bool
  bootloader_secret :: bytes
  firmware_code :: bytes

definition hierarchies_new :: "'g rng_bytes \<Rightarrow> 'g \<Rightarrow> hierarchies tpm_result \<times> 'g" where
  "hierarchies_new rb =
     st_bind (hierarchy_new rb) (\<lambda>p. st_bind (hierarchy_new rb) (\<lambda>ow. st_bind (hierarchy_new rb) (\<lambda>en.
     st_bind (hierarchy_new rb) (\<lambda>n. st_bind (rb PRIMARY_SEED_SIZE) (\<lambda>b.
       st_return \<lparr>platform = p, owner = ow, endorsement = en, null = n, platform_nv_enabled = True,
                  bootloader_secret = b, firmware_code = []\<rparr>)))))"

definition base_of :: "u32 \<Rightarrow> u32 option" where
  "base_of h =
     (if h = rh_FW_OWNER then Some rh_OWNER
      else if h = rh_FW_ENDORSEMENT then Some rh_ENDORSEMENT
      else if h = rh_FW_PLATFORM then Some rh_PLATFORM
      else if h = rh_FW_NULL then Some rh_NULL
      else if hc_SVN_OWNER_FIRST \<le> h \<and> h \<le> hc_SVN_OWNER_LAST then Some rh_OWNER
      else if hc_SVN_ENDORSEMENT_FIRST \<le> h \<and> h \<le> hc_SVN_ENDORSEMENT_LAST then Some rh_ENDORSEMENT
      else if hc_SVN_PLATFORM_FIRST \<le> h \<and> h \<le> hc_SVN_PLATFORM_LAST then Some rh_PLATFORM
      else if hc_SVN_NULL_FIRST \<le> h \<and> h \<le> hc_SVN_NULL_LAST then Some rh_NULL
      else None)"

fun first_svn :: "u32 list \<Rightarrow> u32 \<Rightarrow> u32 option" where
  "first_svn [] h = None"
| "first_svn (f # fs) h = (if f \<le> h \<and> h \<le> f + 0xFFFF then Some (h - f) else first_svn fs h)"

definition svn_of :: "u32 \<Rightarrow> u32 option" where
  "svn_of h = first_svn [hc_SVN_OWNER_FIRST, hc_SVN_ENDORSEMENT_FIRST, hc_SVN_PLATFORM_FIRST, hc_SVN_NULL_FIRST] h"

definition is_limited :: "u32 \<Rightarrow> bool" where
  "is_limited h = (base_of h \<noteq> None)"

definition limited_secret_available :: "u32 \<Rightarrow> bool" where
  "limited_secret_available h = (case svn_of h of Some svn \<Rightarrow> svn \<le> FIRMWARE_SVN | None \<Rightarrow> True)"

definition seed_bits :: u32 where "seed_bits = of_nat (PRIMARY_SEED_SIZE * 8)"

text \<open>\<open>for _ in svn..=config::FIRMWARE_MAX_SVN\<close> hashes the secret down once for each version.\<close>

fun hash_down :: "env \<Rightarrow> nat \<Rightarrow> bytes \<Rightarrow> bytes tpm_result" where
  "hash_down E 0 secret = Inr secret"
| "hash_down E (Suc n) secret = res_bind (digest E CONTEXT_INTEGRITY_HASH_ALG secret) (hash_down E n)"

definition additional_secret :: "env \<Rightarrow> hierarchies \<Rightarrow> u32 \<Rightarrow> (bytes \<times> bytes) tpm_result" where
  "additional_secret E hs handle =
     (case svn_of handle of
        Some svn \<Rightarrow>
          res_bind (kdfa_bytes E CONTEXT_INTEGRITY_HASH_ALG (bootloader_secret hs) (ascii ''SVN_SECRET'') [] []
            seed_bits) (\<lambda>secret.
          res_bind (hash_down E (Suc (unat FIRMWARE_MAX_SVN) - unat svn) secret) (\<lambda>secret.
            Inr (secret, ascii ''H_SVN_SECRET'')))
      | None \<Rightarrow>
          res_bind (kdfa_bytes E CONTEXT_INTEGRITY_HASH_ALG (bootloader_secret hs) (ascii ''FW_SECRET'')
            (firmware_code hs) [] seed_bits) (\<lambda>secret. Inr (secret, ascii ''H_FW_SECRET'')))"

definition hierarchy_get :: "hierarchies \<Rightarrow> u32 \<Rightarrow> hierarchy tpm_result" where
  "hierarchy_get hs handle =
     (if handle = rh_PLATFORM then Inr (platform hs)
      else if handle = rh_OWNER then Inr (owner hs)
      else if handle = rh_ENDORSEMENT then Inr (endorsement hs)
      else if handle = rh_NULL then Inr (null hs)
      else Inl rc_VALUE)"

text \<open>\<open>get_mut\<close>, as the update the caller makes through the reference.\<close>

definition hierarchy_modify :: "u32 \<Rightarrow> (hierarchy \<Rightarrow> hierarchy) \<Rightarrow> (hierarchies, unit) st_op" where
  "hierarchy_modify handle f hs =
     (if handle = rh_PLATFORM then (Inr (), hs\<lparr>platform := f (platform hs)\<rparr>)
      else if handle = rh_OWNER then (Inr (), hs\<lparr>owner := f (owner hs)\<rparr>)
      else if handle = rh_ENDORSEMENT then (Inr (), hs\<lparr>endorsement := f (endorsement hs)\<rparr>)
      else if handle = rh_NULL then (Inr (), hs\<lparr>null := f (null hs)\<rparr>)
      else (Inl rc_VALUE, hs))"

definition derive :: "env \<Rightarrow> bytes \<Rightarrow> (hierarchy \<Rightarrow> bytes) \<Rightarrow> u32 \<Rightarrow> hierarchies \<Rightarrow> bytes tpm_result" where
  "derive E base_label pick handle hs =
     (case hierarchy_get hs handle of
        Inr h \<Rightarrow> Inr (pick h)
      | Inl _ \<Rightarrow>
          res_bind (ok_or (base_of handle) rc_VALUE) (\<lambda>base.
          if \<not> limited_secret_available handle then Inl rc_SVN_LIMITED
          else res_bind (additional_secret E hs handle) (\<lambda>(additional, label).
               res_bind (hierarchy_get hs base) (\<lambda>h.
                 kdfa_bytes E CONTEXT_INTEGRITY_HASH_ALG (pick h) base_label additional (label @ [0]) seed_bits))))"

definition seed_of :: "env \<Rightarrow> u32 \<Rightarrow> hierarchies \<Rightarrow> bytes tpm_result" where
  "seed_of E = derive E (ascii ''H_SEED_SECRET'') h_seed"

definition proof_of :: "env \<Rightarrow> u32 \<Rightarrow> hierarchies \<Rightarrow> bytes tpm_result" where
  "proof_of E = derive E (ascii ''H_PROOF_SECRET'') h_proof"

definition is_hierarchy :: "u32 \<Rightarrow> bool" where
  "is_hierarchy h = (h = rh_PLATFORM \<or> h = rh_OWNER \<or> h = rh_ENDORSEMENT \<or> h = rh_NULL)"

lemma base_is_hierarchy: "base_of h = Some b \<Longrightarrow> is_hierarchy b \<and> \<not> is_hierarchy h"
  by (auto simp: base_of_def is_hierarchy_def split: if_splits)

function is_enabled :: "hierarchies \<Rightarrow> u32 \<Rightarrow> bool" where
  "is_enabled hs handle =
     (if handle = rh_NULL then True
      else if handle = rh_PLATFORM \<or> handle = rh_OWNER \<or> handle = rh_ENDORSEMENT
           then (case hierarchy_get hs handle of Inr h \<Rightarrow> h_enabled h | Inl _ \<Rightarrow> False)
      else case base_of handle of
          Some base \<Rightarrow> if is_limited handle then is_enabled hs base else False
        | None \<Rightarrow> False)"
  by pat_completeness auto

termination
  by (relation "measure (\<lambda>(hs, h). if is_hierarchy h then 0 else 1)")
     (auto dest: base_is_hierarchy simp: is_hierarchy_def)

declare is_enabled.simps [simp del]

definition on_part :: "(hierarchies \<Rightarrow> hierarchy) \<Rightarrow> (hierarchy \<Rightarrow> hierarchies \<Rightarrow> hierarchies)
    \<Rightarrow> (hierarchy \<times> 'g, unit) st_op \<Rightarrow> (hierarchies \<times> 'g, unit) st_op" where
  "on_part pick put m = (\<lambda>(hs, g). case m (pick hs, g) of (x, (h, g)) \<Rightarrow> (x, (put h hs, g)))"

abbreviation (input) on_null where "on_null \<equiv> on_part null (\<lambda>h hs. hs\<lparr>null := h\<rparr>)"

abbreviation (input) on_owner where "on_owner \<equiv> on_part owner (\<lambda>h hs. hs\<lparr>owner := h\<rparr>)"

abbreviation (input) on_endorsement where "on_endorsement \<equiv> on_part endorsement (\<lambda>h hs. hs\<lparr>endorsement := h\<rparr>)"

definition hierarchies_on_reset :: "'g rng_bytes \<Rightarrow> bool \<Rightarrow> (hierarchies \<times> 'g, unit) st_op" where
  "hierarchies_on_reset rb full_reset =
     st_bind (if full_reset
              then st_bind (on_null (regenerate rb)) (\<lambda>_.
                     st_modify (\<lambda>(hs, g). (hs\<lparr>null := clear_authorization (null hs)\<rparr>, g)))
              else st_return ()) (\<lambda>_.
     st_modify (\<lambda>(hs, g). (hs\<lparr>platform := clear_authorization (platform hs\<lparr>h_enabled := True\<rparr>),
       owner := owner hs\<lparr>h_enabled := True\<rparr>, endorsement := endorsement hs\<lparr>h_enabled := True\<rparr>,
       platform_nv_enabled := True\<rparr>, g)))"

definition hierarchies_on_clear :: "'g rng_bytes \<Rightarrow> (hierarchies \<times> 'g, unit) st_op" where
  "hierarchies_on_clear rb =
     st_bind (on_owner (regenerate rb)) (\<lambda>_.
     st_bind (st_modify (\<lambda>(hs, g). (hs\<lparr>owner := clear_authorization (owner hs)\<rparr>, g))) (\<lambda>_.
     st_bind (on_endorsement (regenerate_proof rb)) (\<lambda>_.
       st_modify (\<lambda>(hs, g).
         (hs\<lparr>owner := owner hs\<lparr>h_enabled := True\<rparr>,
             endorsement := clear_authorization (endorsement hs)\<lparr>h_enabled := True\<rparr>\<rparr>, g)))))"

definition is_hierarchy_selector :: "u32 \<Rightarrow> bool" where
  "is_hierarchy_selector h =
     (is_hierarchy h
      \<or> h = rh_FW_OWNER \<or> h = rh_FW_PLATFORM \<or> h = rh_FW_ENDORSEMENT \<or> h = rh_FW_NULL
      \<or> (hc_SVN_OWNER_FIRST \<le> h \<and> h \<le> hc_SVN_OWNER_LAST)
      \<or> (hc_SVN_PLATFORM_FIRST \<le> h \<and> h \<le> hc_SVN_PLATFORM_LAST)
      \<or> (hc_SVN_ENDORSEMENT_FIRST \<le> h \<and> h \<le> hc_SVN_ENDORSEMENT_LAST)
      \<or> (hc_SVN_NULL_FIRST \<le> h \<and> h \<le> hc_SVN_NULL_LAST))"

section \<open>Which handles there are\<close>

lemma selector_iff: "is_hierarchy_selector h \<longleftrightarrow> is_hierarchy h \<or> is_limited h"
  by (simp add: is_hierarchy_selector_def is_limited_def base_of_def) blast

lemma limited_not_hierarchy: "is_limited h \<Longrightarrow> \<not> is_hierarchy h"
  by (auto simp: is_limited_def dest: base_is_hierarchy)

lemma hierarchy_svn: "is_hierarchy h \<Longrightarrow> svn_of h = None"
  unfolding is_hierarchy_def by (elim disjE) (simp_all add: svn_of_def)

lemma hierarchy_get_cases:
  "is_hierarchy h \<Longrightarrow> \<exists>x. hierarchy_get hs h = Inr x"
  "\<not> is_hierarchy h \<Longrightarrow> hierarchy_get hs h = Inl rc_VALUE"
  by (auto simp: hierarchy_get_def is_hierarchy_def)

section \<open>Deriving the limited hierarchies\<close>

lemma protected_hash: "is_supported E CONTEXT_INTEGRITY_HASH_ALG"
  by (simp add: is_supported_def hash_algorithm_def CONTEXT_INTEGRITY_HASH_ALG_def)

lemma unat_seed_bits: "unat seed_bits = 256"
  by (simp add: seed_bits_def PRIMARY_SEED_SIZE_def)

lemma seed_kdfa:
  assumes "env_ok E"
  shows "\<exists>v. kdfa_bytes E CONTEXT_INTEGRITY_HASH_ALG key label u w seed_bits = Inr v \<and> length v = 32"
  using kdfa_cases [OF assms, where a = CONTEXT_INTEGRITY_HASH_ALG and key = key and label = label and u = u
      and v = w and bits = seed_bits]
  by (auto simp: unat_seed_bits protected_hash split: sum.splits)

lemma hash_down_total: "\<exists>v. hash_down E n s = Inr v"
  by (induction n arbitrary: s) (auto simp: digest_supported [OF protected_hash])

lemma additional_secret_total:
  assumes "env_ok E"
  obtains s l where "additional_secret E hs h = Inr (s, l)"
proof (cases "svn_of h")
  case None
  obtain x where "kdfa_bytes E CONTEXT_INTEGRITY_HASH_ALG (bootloader_secret hs) (ascii ''FW_SECRET'')
      (firmware_code hs) [] seed_bits = Inr x"
    using seed_kdfa [OF assms] by blast
  then show ?thesis using None that by (simp add: additional_secret_def)
next
  case (Some v)
  obtain x where "kdfa_bytes E CONTEXT_INTEGRITY_HASH_ALG (bootloader_secret hs) (ascii ''SVN_SECRET'') [] []
      seed_bits = Inr x"
    using seed_kdfa [OF assms] by blast
  moreover obtain y where "hash_down E (Suc (unat FIRMWARE_MAX_SVN) - unat v) x = Inr y"
    using hash_down_total by blast
  ultimately show ?thesis using Some that by (simp add: additional_secret_def)
qed

text \<open>
  The hierarchies by their handles: what holds the secret of each, and for the limited ones whether it is
  limited to the firmware or to the security version the handle ends in (0 is all the firmware has).
\<close>

definition base_hierarchies :: "(u32 \<times> (hierarchies \<Rightarrow> hierarchy)) list" where
  "base_hierarchies = [(0x40000001, owner), (0x40000007, null), (0x4000000B, endorsement), (0x4000000C, platform)]"

definition limited_hierarchies :: "(u32 \<times> (hierarchies \<Rightarrow> hierarchy) \<times> bool) list" where
  "limited_hierarchies =
     [(0x40000140, owner, False), (0x40000141, endorsement, False), (0x40000142, platform, False), (0x40000143, null, False),
      (0x40010000, owner, True), (0x40020000, endorsement, True), (0x40030000, platform, True), (0x40040000, null, True)]"

text \<open>The secret a limited hierarchy mixes in: bound to the firmware's code, or hashed once past the last version.\<close>

definition limiting_secret :: "env \<Rightarrow> hierarchies \<Rightarrow> bool \<Rightarrow> bytes tpm_result" where
  "limiting_secret E hs svn =
     (if svn then res_bind (kdfa_bytes E alg_SHA512 (bootloader_secret hs) (ascii ''SVN_SECRET'') [] [] 256) (digest E alg_SHA512)
      else kdfa_bytes E alg_SHA512 (bootloader_secret hs) (ascii ''FW_SECRET'') (firmware_code hs) [] 256)"

definition limited_value :: "env \<Rightarrow> bytes \<Rightarrow> bytes \<Rightarrow> hierarchies \<Rightarrow> bool \<Rightarrow> bytes tpm_result" where
  "limited_value E label key hs svn =
     res_bind (limiting_secret E hs svn) (\<lambda>s.
       kdfa_bytes E alg_SHA512 key label s (ascii (if svn then ''H_SVN_SECRET'' else ''H_FW_SECRET'') @ [0]) 256)"

lemma hash_once: "hash_down E 1 s = digest E CONTEXT_INTEGRITY_HASH_ALG s"
  by (cases "digest E CONTEXT_INTEGRITY_HASH_ALG s") simp_all

lemma additional_secret_cases:
  "svn_of h = None \<Longrightarrow> res_bind (additional_secret E hs h) f = res_bind (limiting_secret E hs False) (\<lambda>s. f (s, ascii ''H_FW_SECRET''))"
  "svn_of h = Some 0 \<Longrightarrow> res_bind (additional_secret E hs h) f = res_bind (limiting_secret E hs True) (\<lambda>s. f (s, ascii ''H_SVN_SECRET''))"
  by (simp_all add: additional_secret_def limiting_secret_def seed_bits_def PRIMARY_SEED_SIZE_def FIRMWARE_MAX_SVN_def
      CONTEXT_INTEGRITY_HASH_ALG_def [symmetric] res_bind_assoc hash_once [simplified])

lemma base_table:
  "is_hierarchy h \<Longrightarrow> \<exists>f. (h, f) \<in> set base_hierarchies \<and> hierarchy_get hs h = Inr (f hs)"
  by (auto simp: is_hierarchy_def base_hierarchies_def hierarchy_get_def)

lemma limited_table:
  assumes "base_of h = Some b" and "limited_secret_available h"
  shows "\<exists>f svn. (h, f, svn) \<in> set limited_hierarchies \<and> hierarchy_get hs b = Inr (f hs)
    \<and> svn_of h = (if svn then Some 0 else None)"
proof -
  have zero: "h = f" if "svn_of h = Some (h - f)" for f
    using assms(2) that by (simp add: limited_secret_available_def FIRMWARE_SVN_def)
  from assms(1) consider
    (fw) "(h, b) \<in> {(0x40000140, rh_OWNER), (0x40000141, rh_ENDORSEMENT), (0x40000142, rh_PLATFORM), (0x40000143, rh_NULL)}"
  | (own) "hc_SVN_OWNER_FIRST \<le> h" "h \<le> hc_SVN_OWNER_LAST" "b = rh_OWNER"
  | (en) "hc_SVN_ENDORSEMENT_FIRST \<le> h" "h \<le> hc_SVN_ENDORSEMENT_LAST" "b = rh_ENDORSEMENT"
  | (plat) "hc_SVN_PLATFORM_FIRST \<le> h" "h \<le> hc_SVN_PLATFORM_LAST" "b = rh_PLATFORM"
  | (nul) "hc_SVN_NULL_FIRST \<le> h" "h \<le> hc_SVN_NULL_LAST" "b = rh_NULL"
    unfolding base_of_def by (auto split: if_splits)
  then show ?thesis
  proof cases
    case fw
    then consider "h = 0x40000140 \<and> b = rh_OWNER" | "h = 0x40000141 \<and> b = rh_ENDORSEMENT"
      | "h = 0x40000142 \<and> b = rh_PLATFORM" | "h = 0x40000143 \<and> b = rh_NULL" by auto
    then show ?thesis
    proof cases
      case 1 then show ?thesis by (intro exI [of _ owner] exI [of _ False]) (simp add: limited_hierarchies_def hierarchy_get_def svn_of_def)
    next
      case 2 then show ?thesis by (intro exI [of _ endorsement] exI [of _ False]) (simp add: limited_hierarchies_def hierarchy_get_def svn_of_def)
    next
      case 3 then show ?thesis by (intro exI [of _ platform] exI [of _ False]) (simp add: limited_hierarchies_def hierarchy_get_def svn_of_def)
    next
      case 4 then show ?thesis by (intro exI [of _ null] exI [of _ False]) (simp add: limited_hierarchies_def hierarchy_get_def svn_of_def)
    qed
  next
    case own
    then have "svn_of h = Some (h - hc_SVN_OWNER_FIRST)" by (simp add: svn_of_def)
    from zero [OF this] own(3) this show ?thesis
      by (intro exI [of _ owner] exI [of _ True]) (simp add: limited_hierarchies_def hierarchy_get_def)
  next
    case en
    then have "svn_of h = Some (h - hc_SVN_ENDORSEMENT_FIRST)" by (simp add: svn_of_def word_le_nat_alt)
    from zero [OF this] en(3) this show ?thesis
      by (intro exI [of _ endorsement] exI [of _ True]) (simp add: limited_hierarchies_def hierarchy_get_def)
  next
    case plat
    then have "svn_of h = Some (h - hc_SVN_PLATFORM_FIRST)" by (simp add: svn_of_def word_le_nat_alt)
    from zero [OF this] plat(3) this show ?thesis
      by (intro exI [of _ platform] exI [of _ True]) (simp add: limited_hierarchies_def hierarchy_get_def)
  next
    case nul
    then have "svn_of h = Some (h - hc_SVN_NULL_FIRST)" by (simp add: svn_of_def word_le_nat_alt)
    from zero [OF this] nul(3) this show ?thesis
      by (intro exI [of _ null] exI [of _ True]) (simp add: limited_hierarchies_def hierarchy_get_def)
  qed
qed

lemma kdfa_length:
  assumes "env_ok E" and "kdfa_bytes E CONTEXT_INTEGRITY_HASH_ALG key label u w seed_bits = Inr v"
  shows "length v = 32"
  using seed_kdfa [OF assms(1), of key label u w] assms(2) by auto

text \<open>C37: the seed and the proof of every value of TPMI_RH_HIERARCHY. A base hierarchy answers what it
  holds. A limited one answers 32 octets derived by KDFa from the value of its own base hierarchy (the
  tables above: owner, endorsement, platform or null) under the label of the seed or proof, mixed with
  the secret of the firmware's code or of the security version; the latter answers only for version 0,
  and a version above the firmware's is \<open>TPM_RC_SVN_LIMITED\<close>; any other handle is
  \<open>TPM_RC_VALUE\<close>. Nothing else can fail.\<close>

theorem hierarchy_secrets_exact:
  assumes "env_ok E"
  shows "case derive E label pick h hs of
      Inr v \<Rightarrow> (\<exists>f. (h, f) \<in> set base_hierarchies \<and> v = pick (f hs))
        \<or> (\<exists>f svn. (h, f, svn) \<in> set limited_hierarchies \<and> limited_value E label (pick (f hs)) hs svn = Inr v
             \<and> length v = 32)
    | Inl e \<Rightarrow> e = (if is_hierarchy_selector h then rc_SVN_LIMITED else rc_VALUE)
        \<and> (is_hierarchy_selector h \<longrightarrow> (\<exists>v > FIRMWARE_SVN. svn_of h = Some v))"
proof (cases "is_hierarchy h")
  case True
  then obtain f where "(h, f) \<in> set base_hierarchies" "hierarchy_get hs h = Inr (f hs)" using base_table by blast
  then show ?thesis by (auto simp: derive_def)
next
  case False
  show ?thesis
  proof (cases "base_of h")
    case None
    then show ?thesis using False
      by (simp add: derive_def hierarchy_get_cases(2) selector_iff is_limited_def)
  next
    case (Some b)
    show ?thesis
    proof (cases "limited_secret_available h")
      case True
      then obtain f svn where f: "(h, f, svn) \<in> set limited_hierarchies" "hierarchy_get hs b = Inr (f hs)"
        "svn_of h = (if svn then Some 0 else None)"
        using limited_table [OF Some] by blast
      obtain s l where s: "additional_secret E hs h = Inr (s, l)" by (rule additional_secret_total [OF assms])
      obtain v where v: "kdfa_bytes E CONTEXT_INTEGRITY_HASH_ALG (pick (f hs)) label s (l @ [0]) seed_bits = Inr v"
        "length v = 32"
        using seed_kdfa [OF assms] by blast
      have d: "derive E label pick h hs = Inr v"
        using Some False True s v f(2) by (simp add: derive_def hierarchy_get_cases(2))
      have "res_bind (additional_secret E hs h) (\<lambda>(s, l). kdfa_bytes E CONTEXT_INTEGRITY_HASH_ALG (pick (f hs)) label s (l @ [0]) seed_bits) = Inr v"
        using s v(1) by simp
      then have "limited_value E label (pick (f hs)) hs svn = Inr v"
        using f(3) unfolding limited_value_def
        by (cases svn) (simp_all add: additional_secret_cases seed_bits_def PRIMARY_SEED_SIZE_def CONTEXT_INTEGRITY_HASH_ALG_def)
      then show ?thesis using f(1) v(2) d by auto
    next
      case unavailable: False
      then obtain v where "svn_of h = Some v" "FIRMWARE_SVN < v"
        by (auto simp: limited_secret_available_def not_le split: option.splits)
      with unavailable Some False show ?thesis
        by (simp add: derive_def hierarchy_get_cases(2) selector_iff is_limited_def)
    qed
  qed
qed

definition demo_hierarchies :: hierarchies where
  "demo_hierarchies =
     (let h = \<lparr>h_seed = replicate 32 1, h_proof = replicate 32 2, h_auth = [], h_policy = tpmt_ha_null, h_enabled = True\<rparr>
      in \<lparr>platform = h, owner = h, endorsement = h, null = h, platform_nv_enabled = True,
          bootloader_secret = replicate 32 3, firmware_code = [4]\<rparr>)"

theorem hierarchy_secrets_exact_witness:
  "derive (demo_env True) (ascii ''H_SEED_SECRET'') h_seed 0x40010001 demo_hierarchies = Inl rc_SVN_LIMITED
   \<and> (\<exists>v. derive (demo_env True) (ascii ''H_SEED_SECRET'') h_seed 0x40000140 demo_hierarchies = Inr v
        \<and> limited_value (demo_env True) (ascii ''H_SEED_SECRET'') (h_seed (owner demo_hierarchies)) demo_hierarchies False = Inr v)"
proof -
  note d = hierarchy_secrets_exact [OF env_ok_demo [of True], where label = "ascii ''H_SEED_SECRET''"
      and pick = h_seed and hs = demo_hierarchies]
  have "(0x40010001, x) \<notin> set base_hierarchies" "(0x40010001, y) \<notin> set limited_hierarchies" "is_hierarchy_selector 0x40010001" for x y
    by (simp_all add: base_hierarchies_def limited_hierarchies_def is_hierarchy_selector_def)
  then have one: "derive (demo_env True) (ascii ''H_SEED_SECRET'') h_seed 0x40010001 demo_hierarchies = Inl rc_SVN_LIMITED"
    using d [where h = "0x40010001"] by (auto split: sum.splits)
  have "(0x40000140, x) \<notin> set base_hierarchies" "(0x40000140, y, z) \<in> set limited_hierarchies \<longleftrightarrow> y = owner \<and> \<not> z"
    "is_hierarchy_selector 0x40000140" "svn_of 0x40000140 = None" for x y z
    by (auto simp: base_hierarchies_def limited_hierarchies_def is_hierarchy_selector_def svn_of_def)
  then have "\<exists>v. derive (demo_env True) (ascii ''H_SEED_SECRET'') h_seed 0x40000140 demo_hierarchies = Inr v
        \<and> limited_value (demo_env True) (ascii ''H_SEED_SECRET'') (h_seed (owner demo_hierarchies)) demo_hierarchies False = Inr v"
    using d [where h = "0x40000140"] by (auto split: sum.splits)
  with one show ?thesis by blast
qed

section \<open>Startups and TPM2_Clear\<close>

text \<open>
  The events that touch the hierarchies, for any generator: a startup (a TPM Reset or not),
  TPM2_Clear, TPM2_HierarchyControl and TPM2_HierarchyChangeAuth through \<open>get_mut\<close>.
\<close>

datatype hierarchy_event = Startup bool | Clear | Modify u32 bool bytes tpmt_ha

fun hierarchy_step :: "'g rng_bytes \<Rightarrow> hierarchy_event \<Rightarrow> hierarchies \<times> 'g \<Rightarrow> hierarchies \<times> 'g" where
  "hierarchy_step rb (Startup full) s = snd (hierarchies_on_reset rb full s)"
| "hierarchy_step rb Clear s = snd (hierarchies_on_clear rb s)"
| "hierarchy_step rb (Modify h en a p) (hs, g) =
     (snd (hierarchy_modify h (\<lambda>x. x\<lparr>h_enabled := en, h_auth := a, h_policy := p\<rparr>) hs), g)"

definition secrets :: "hierarchy \<Rightarrow> bytes \<times> bytes" where
  "secrets h = (h_seed h, h_proof h)"

lemma secrets_update [simp]:
  "secrets (h\<lparr>h_enabled := b\<rparr>) = secrets h" "secrets (h\<lparr>h_auth := a\<rparr>) = secrets h"
  "secrets (h\<lparr>h_policy := p\<rparr>) = secrets h" "secrets (clear_authorization h) = secrets h"
  by (simp_all add: secrets_def clear_authorization_def)

lemma step_secrets:
  "secrets (platform (fst (hierarchy_step rb e s))) = secrets (platform (fst s))"
  "h_seed (endorsement (fst (hierarchy_step rb e s))) = h_seed (endorsement (fst s))"
  "bootloader_secret (fst (hierarchy_step rb e s)) = bootloader_secret (fst s)"
  "e \<noteq> Clear \<Longrightarrow> secrets (owner (fst (hierarchy_step rb e s))) = secrets (owner (fst s))"
  "e \<noteq> Clear \<Longrightarrow> secrets (endorsement (fst (hierarchy_step rb e s))) = secrets (endorsement (fst s))"
  "e \<noteq> Startup True \<Longrightarrow> secrets (null (fst (hierarchy_step rb e s))) = secrets (null (fst s))"
  by (cases e; cases s; simp add: hierarchies_on_reset_def hierarchies_on_clear_def on_part_def st_bind_def
      regenerate_def regenerate_proof_def hierarchy_modify_def clear_authorization_def secrets_def
      split: prod.splits sum.splits)+

end
