(* ===== verification/Keys.thy ===== *)
theory Keys
  imports Schemes
begin

text \<open>
  Public and sensitive areas of objects (\<open>src/tpm/structures/keys.rs\<close>): the tagged unions of
  parameters, identifiers and private values, selected by the object type, and the structures
  around them. The readers are the code's; the codec locale is their contract, and for the public
  area the canonical one.
\<close>

abbreviation (input) curve_NIST_P224 :: u16 where "curve_NIST_P224 \<equiv> 0x0002"
abbreviation (input) curve_NIST_P256 :: u16 where "curve_NIST_P256 \<equiv> 0x0003"
abbreviation (input) curve_NIST_P384 :: u16 where "curve_NIST_P384 \<equiv> 0x0004"
abbreviation (input) curve_NIST_P521 :: u16 where "curve_NIST_P521 \<equiv> 0x0005"

definition LABEL_MAX_BUFFER :: nat where "LABEL_MAX_BUFFER = 32"
definition MAX_SYM_DATA :: nat where "MAX_SYM_DATA = 128"
definition MAX_SYM_KEY_BYTES :: nat where "MAX_SYM_KEY_BYTES = max (256 div 8) MAX_DIGEST_SIZE"
definition MAX_RSA_KEY_BYTES :: nat where "MAX_RSA_KEY_BYTES = 4096 div 8"
definition MAX_RSA_PRIVATE_BYTES :: nat where "MAX_RSA_PRIVATE_BYTES = (MAX_RSA_KEY_BYTES div 2) * 5"

definition IMPLEMENTED_RSA_KEY_BITS :: "u16 list" where "IMPLEMENTED_RSA_KEY_BITS = [2048, 3072, 4096]"
definition IMPLEMENTED_CURVES :: "u16 list" where
  "IMPLEMENTED_CURVES = [curve_NIST_P224, curve_NIST_P256, curve_NIST_P384, curve_NIST_P521]"

definition is_public_type :: "u16 \<Rightarrow> bool" where
  "is_public_type i = (i = alg_KEYEDHASH \<or> i = alg_SYMCIPHER \<or> i = alg_RSA \<or> i = alg_ECC)"

record derive_values =
  dv_label :: bytes
  dv_context :: bytes

definition derive_put :: "derive_values \<Rightarrow> writer \<Rightarrow> writer" where
  "derive_put d w = tpm2b_put (dv_context d) (tpm2b_put (dv_label d) w)"

definition derive_get :: "reader \<Rightarrow> (derive_values \<times> reader) tpm_result" where
  "derive_get r =
     res_bind (tpm2b_get LABEL_MAX_BUFFER r) (\<lambda>(l, r).
     res_bind (tpm2b_get LABEL_MAX_BUFFER r) (\<lambda>(c, r).
       Inr (\<lparr>dv_label = l, dv_context = c\<rparr>, r)))"

section \<open>Parameters\<close>

record rsa_parms =
  rsa_symmetric :: sym_def
  rsa_scheme :: scheme
  rsa_key_bits :: u16
  rsa_exponent :: u32

record ecc_parms =
  ecc_symmetric :: sym_def
  ecc_scheme :: scheme
  ecc_curve :: u16
  ecc_kdf :: scheme

datatype public_parms = Keyed_hash_parms scheme | Sym_cipher_parms sym_def | Rsa_parms rsa_parms | Ecc_parms ecc_parms

fun parms_selector :: "public_parms \<Rightarrow> u16" where
  "parms_selector (Keyed_hash_parms _) = alg_KEYEDHASH"
| "parms_selector (Sym_cipher_parms _) = alg_SYMCIPHER"
| "parms_selector (Rsa_parms _) = alg_RSA"
| "parms_selector (Ecc_parms _) = alg_ECC"

fun parms_scheme :: "public_parms \<Rightarrow> scheme option" where
  "parms_scheme (Keyed_hash_parms s) = Some s"
| "parms_scheme (Sym_cipher_parms _) = None"
| "parms_scheme (Rsa_parms p) = Some (rsa_scheme p)"
| "parms_scheme (Ecc_parms p) = Some (ecc_scheme p)"

fun parms_symmetric :: "public_parms \<Rightarrow> sym_def option" where
  "parms_symmetric (Keyed_hash_parms _) = None"
| "parms_symmetric (Sym_cipher_parms s) = Some s"
| "parms_symmetric (Rsa_parms p) = Some (rsa_symmetric p)"
| "parms_symmetric (Ecc_parms p) = Some (ecc_symmetric p)"

definition rsa_parms_get :: "env \<Rightarrow> reader \<Rightarrow> (rsa_parms \<times> reader) tpm_result" where
  "rsa_parms_get E r =
     res_bind (sym_def_object_get E r) (\<lambda>(y, r).
     res_bind (unmarshal_rsa_scheme E r) (\<lambda>(s, r).
     res_bind (r_u16 r) (\<lambda>(k, r).
       if k \<notin> set IMPLEMENTED_RSA_KEY_BITS then Inl rc_VALUE
       else res_bind (r_u32 r) (\<lambda>(e, r).
         if e \<noteq> 0 \<and> (e \<le> 2 \<or> e mod 2 = 0) then Inl rc_VALUE
         else Inr (\<lparr>rsa_symmetric = y, rsa_scheme = s, rsa_key_bits = k, rsa_exponent = e\<rparr>, r)))))"

definition ecc_parms_get :: "env \<Rightarrow> reader \<Rightarrow> (ecc_parms \<times> reader) tpm_result" where
  "ecc_parms_get E r =
     res_bind (sym_def_object_get E r) (\<lambda>(y, r).
     res_bind (unmarshal_ecc_scheme E r) (\<lambda>(s, r).
     res_bind (r_u16 r) (\<lambda>(c, r).
       if c \<notin> set IMPLEMENTED_CURVES then Inl rc_CURVE
       else res_bind (unmarshal_kdf E r) (\<lambda>(k, r).
         Inr (\<lparr>ecc_symmetric = y, ecc_scheme = s, ecc_curve = c, ecc_kdf = k\<rparr>, r)))))"

definition parms_get :: "env \<Rightarrow> u16 \<Rightarrow> reader \<Rightarrow> (public_parms \<times> reader) tpm_result" where
  "parms_get E selector r =
     (if selector = alg_KEYEDHASH then
        res_bind (unmarshal_keyedhash E r) (\<lambda>(s, r). Inr (Keyed_hash_parms s, r))
      else if selector = alg_SYMCIPHER then
        res_bind (sym_def_object_get E r) (\<lambda>(s, r). Inr (Sym_cipher_parms s, r))
      else if selector = alg_RSA then res_bind (rsa_parms_get E r) (\<lambda>(p, r). Inr (Rsa_parms p, r))
      else if selector = alg_ECC then res_bind (ecc_parms_get E r) (\<lambda>(p, r). Inr (Ecc_parms p, r))
      else Inl rc_TYPE)"

fun parms_put :: "public_parms \<Rightarrow> writer \<Rightarrow> writer" where
  "parms_put (Keyed_hash_parms s) w = scheme_put s w"
| "parms_put (Sym_cipher_parms s) w = sym_def_put s w"
| "parms_put (Rsa_parms p) w =
     w_u32 (rsa_exponent p) (w_u16 (rsa_key_bits p) (scheme_put (rsa_scheme p) (sym_def_put (rsa_symmetric p) w)))"
| "parms_put (Ecc_parms p) w =
     scheme_put (ecc_kdf p) (w_u16 (ecc_curve p) (scheme_put (ecc_scheme p) (sym_def_put (ecc_symmetric p) w)))"

text \<open>\<open>PublicParmsTagged\<close> has one field, which is taken for it.\<close>

definition parms_tagged_put :: "public_parms \<Rightarrow> writer \<Rightarrow> writer" where
  "parms_tagged_put p w = parms_put p (w_u16 (parms_selector p) w)"

definition parms_tagged_get :: "env \<Rightarrow> reader \<Rightarrow> (public_parms \<times> reader) tpm_result" where
  "parms_tagged_get E r = res_bind (r_u16 r) (\<lambda>(s, r). parms_get E s r)"

section \<open>Identifiers\<close>

datatype public_id = Keyed_hash_id bytes | Sym_id bytes | Rsa_id bytes | Ecc_id ecc_point | Derive_id derive_values

definition id_get :: "u16 \<Rightarrow> reader \<Rightarrow> (public_id \<times> reader) tpm_result" where
  "id_get selector r =
     (if selector = alg_KEYEDHASH then
        res_bind (tpm2b_get MAX_DIGEST_SIZE r) (\<lambda>(b, r). Inr (Keyed_hash_id b, r))
      else if selector = alg_SYMCIPHER then res_bind (tpm2b_get MAX_DIGEST_SIZE r) (\<lambda>(b, r). Inr (Sym_id b, r))
      else if selector = alg_RSA then res_bind (tpm2b_get MAX_RSA_KEY_BYTES r) (\<lambda>(b, r). Inr (Rsa_id b, r))
      else if selector = alg_ECC then res_bind (ecc_point_get r) (\<lambda>(p, r). Inr (Ecc_id p, r))
      else Inl rc_TYPE)"

definition id_empty_for :: "u16 \<Rightarrow> public_id tpm_result" where
  "id_empty_for selector =
     (if selector = alg_KEYEDHASH then Inr (Keyed_hash_id [])
      else if selector = alg_SYMCIPHER then Inr (Sym_id [])
      else if selector = alg_RSA then Inr (Rsa_id [])
      else if selector = alg_ECC then Inr (Ecc_id ecc_point_empty)
      else Inl rc_TYPE)"

fun id_is_empty :: "public_id \<Rightarrow> bool" where
  "id_is_empty (Keyed_hash_id d) = (d = [])"
| "id_is_empty (Sym_id d) = (d = [])"
| "id_is_empty (Rsa_id m) = (m = [])"
| "id_is_empty (Ecc_id p) = ecc_point_is_empty p"
| "id_is_empty (Derive_id _) = False"

fun id_put :: "public_id \<Rightarrow> writer \<Rightarrow> writer" where
  "id_put (Keyed_hash_id d) w = tpm2b_put d w"
| "id_put (Sym_id d) w = tpm2b_put d w"
| "id_put (Rsa_id m) w = tpm2b_put m w"
| "id_put (Ecc_id p) w = ecc_point_put p w"
| "id_put (Derive_id d) w = derive_put d w"

section \<open>The public area\<close>

record tpmt_public =
  object_type :: u16
  name_alg :: u16
  object_attributes :: u32
  auth_policy :: bytes
  parameters :: public_parms
  unique :: public_id

definition public_get_with :: "env \<Rightarrow> bool \<Rightarrow> reader \<Rightarrow> (tpmt_public \<times> reader) tpm_result" where
  "public_get_with E allow_derive r =
     res_bind (r_u16 r) (\<lambda>(ty, r).
     if \<not> is_public_type ty then Inl rc_TYPE
     else res_bind (r_u16 r) (\<lambda>(na, r).
     if na \<noteq> alg_NULL \<and> digest_size E na = None then Inl rc_HASH
     else res_bind (unmarshal_attr oa_reserved r_u32 r) (\<lambda>(at, r).
     res_bind (tpm2b_get MAX_DIGEST_SIZE r) (\<lambda>(pol, r).
     res_bind (parms_get E ty r) (\<lambda>(ps, r).
     res_bind (if allow_derive then res_bind (derive_get r) (\<lambda>(d, r). Inr (Derive_id d, r))
               else id_get ty r) (\<lambda>(u, r).
       Inr (\<lparr>object_type = ty, name_alg = na, object_attributes = at, auth_policy = pol, parameters = ps,
             unique = u\<rparr>, r)))))))"

definition public_scheme :: "tpmt_public \<Rightarrow> scheme option" where
  "public_scheme p = parms_scheme (parameters p)"

definition is_asymmetric :: "tpmt_public \<Rightarrow> bool" where
  "is_asymmetric p = (object_type p = alg_RSA \<or> object_type p = alg_ECC)"

definition is_parent :: "tpmt_public \<Rightarrow> bool" where
  "is_parent p = attr_has (object_attributes p) (oa_RESTRICTED OR oa_DECRYPT)"

definition public_put :: "tpmt_public \<Rightarrow> writer \<Rightarrow> writer" where
  "public_put p w =
     id_put (unique p) (parms_put (parameters p) (tpm2b_put (auth_policy p)
       (w_u32 (object_attributes p) (w_u16 (name_alg p) (w_u16 (object_type p) w)))))"

definition public_get :: "env \<Rightarrow> reader \<Rightarrow> (tpmt_public \<times> reader) tpm_result" where
  "public_get E = public_get_with E False"

definition tpm2b_public_put :: "tpmt_public \<Rightarrow> writer \<Rightarrow> writer" where
  "tpm2b_public_put p = sized16_with (public_put p)"

definition tpm2b_public_get :: "env \<Rightarrow> reader \<Rightarrow> (tpmt_public \<times> reader) tpm_result" where
  "tpm2b_public_get E = unmarshal_sized (public_get E)"

section \<open>The sensitive area\<close>

datatype sensitive_composite = Rsa_private bytes | Ecc_private bytes | Bits_private bytes | Sym_private bytes

fun composite_selector :: "sensitive_composite \<Rightarrow> u16" where
  "composite_selector (Rsa_private _) = alg_RSA"
| "composite_selector (Ecc_private _) = alg_ECC"
| "composite_selector (Bits_private _) = alg_KEYEDHASH"
| "composite_selector (Sym_private _) = alg_SYMCIPHER"

fun composite_bytes :: "sensitive_composite \<Rightarrow> bytes" where
  "composite_bytes (Rsa_private v) = v"
| "composite_bytes (Ecc_private v) = v"
| "composite_bytes (Bits_private v) = v"
| "composite_bytes (Sym_private v) = v"

definition composite_get :: "u16 \<Rightarrow> reader \<Rightarrow> (sensitive_composite \<times> reader) tpm_result" where
  "composite_get selector r =
     (if selector = alg_RSA then res_bind (tpm2b_get MAX_RSA_PRIVATE_BYTES r) (\<lambda>(b, r). Inr (Rsa_private b, r))
      else if selector = alg_ECC then res_bind (tpm2b_get MAX_ECC_KEY_BYTES r) (\<lambda>(b, r). Inr (Ecc_private b, r))
      else if selector = alg_KEYEDHASH then res_bind (tpm2b_get MAX_SYM_DATA r) (\<lambda>(b, r). Inr (Bits_private b, r))
      else if selector = alg_SYMCIPHER then res_bind (tpm2b_get MAX_SYM_KEY_BYTES r) (\<lambda>(b, r). Inr (Sym_private b, r))
      else Inl rc_TYPE)"

fun composite_put :: "sensitive_composite \<Rightarrow> writer \<Rightarrow> writer" where
  "composite_put (Rsa_private v) w = tpm2b_put v w"
| "composite_put (Ecc_private v) w = tpm2b_put v w"
| "composite_put (Bits_private v) w = tpm2b_put v w"
| "composite_put (Sym_private v) w = tpm2b_put v w"

record tpmt_sensitive =
  sensitive_type :: u16
  sens_auth :: bytes
  sens_seed :: bytes
  sens_value :: sensitive_composite

definition sensitive_put :: "tpmt_sensitive \<Rightarrow> writer \<Rightarrow> writer" where
  "sensitive_put s w =
     composite_put (sens_value s) (tpm2b_put (sens_seed s) (tpm2b_put (sens_auth s) (w_u16 (sensitive_type s) w)))"

definition sensitive_get :: "reader \<Rightarrow> (tpmt_sensitive \<times> reader) tpm_result" where
  "sensitive_get r =
     res_bind (r_u16 r) (\<lambda>(ty, r).
     if \<not> is_public_type ty then Inl rc_TYPE
     else res_bind (tpm2b_get MAX_DIGEST_SIZE r) (\<lambda>(a, r).
     res_bind (tpm2b_get MAX_DIGEST_SIZE r) (\<lambda>(s, r).
     res_bind (composite_get ty r) (\<lambda>(v, r).
       Inr (\<lparr>sensitive_type = ty, sens_auth = a, sens_seed = s, sens_value = v\<rparr>, r)))))"

definition tpm2b_sensitive_put :: "tpmt_sensitive \<Rightarrow> writer \<Rightarrow> writer" where
  "tpm2b_sensitive_put s = sized16_with (sensitive_put s)"

definition tpm2b_sensitive_get :: "reader \<Rightarrow> (tpmt_sensitive \<times> reader) tpm_result" where
  "tpm2b_sensitive_get = unmarshal_sized sensitive_get"

record sensitive_create =
  sc_auth :: bytes
  sc_data :: bytes

definition sensitive_create_put :: "sensitive_create \<Rightarrow> writer \<Rightarrow> writer" where
  "sensitive_create_put s w = tpm2b_put (sc_data s) (tpm2b_put (sc_auth s) w)"

definition sensitive_create_get :: "reader \<Rightarrow> (sensitive_create \<times> reader) tpm_result" where
  "sensitive_create_get r =
     res_bind (tpm2b_get MAX_DIGEST_SIZE r) (\<lambda>(a, r).
     res_bind (tpm2b_get MAX_SYM_DATA r) (\<lambda>(d, r).
       Inr (\<lparr>sc_auth = a, sc_data = d\<rparr>, r)))"

definition tpm2b_sensitive_create_put :: "sensitive_create \<Rightarrow> writer \<Rightarrow> writer" where
  "tpm2b_sensitive_create_put s = sized16_with (sensitive_create_put s)"

definition tpm2b_sensitive_create_get :: "reader \<Rightarrow> (sensitive_create \<times> reader) tpm_result" where
  "tpm2b_sensitive_create_get = unmarshal_sized sensitive_create_get"

section \<open>The contracts\<close>

lemmas key_limits = LABEL_MAX_BUFFER_def MAX_SYM_DATA_def MAX_SYM_KEY_BYTES_def MAX_RSA_KEY_BYTES_def
  MAX_RSA_PRIVATE_BYTES_def MAX_DIGEST_SIZE_def MAX_ECC_KEY_BYTES_def

text \<open>Every sized buffer read here is canonical.\<close>

lemma tpm2b_canonical: "tpm2b_get limit r = Inr (b, r') \<Longrightarrow> length b \<le> limit \<and> rest r = enc_sized16 b @ rest r'"
proof -
  assume "tpm2b_get limit r = Inr (b, r')"
  then obtain n r1 where n: "r_u16 r = Inr (n, r1)" "unat n \<le> limit" "r_take (unat n) r1 = Inr (b, r')"
    by (auto simp: tpm2b_get_def res_bind_eq_Inr split: if_splits)
  then have "length b = unat n" "rest r1 = b @ rest r'" by (auto dest: r_take_canonical)
  moreover have "rest r = to_be 2 n @ rest r1" using n(1) by (rule r_int_canonical)
  moreover have "of_nat (unat n) = n" by simp
  ultimately show ?thesis using n(2) by (simp add: enc_sized16_def del: to_be.simps)
qed

lemma tpm2b_reads: "length b \<le> limit \<Longrightarrow> limit < 2 ^ 16 \<Longrightarrow> reads (tpm2b_get limit) b (enc_sized16 b)"
  by (rule codec.reads_get [OF tpm2b_codec])

lemma tpm2b_decoder: "limit < 2 ^ 16 \<Longrightarrow> decoder (tpm2b_get limit)"
  using tpm2b_codec codec.axioms(1) by blast

lemma tpm2b_put_enc: "length b < 2 ^ 16 \<Longrightarrow> tpm2b_put b w = emit (enc_sized16 b) w"
  by (simp add: tpm2b_put_def sized16_emit)

lemma ecc_point_canonical: "ecc_point_get r = Inr (p, r') \<Longrightarrow> ecc_point_ok p \<and> rest r = ecc_point_enc p @ rest r'"
  by (auto simp: ecc_point_get_def res_bind_eq_Inr ecc_point_ok_def ecc_point_enc_def dest!: tpm2b_canonical)

lemma attr_canonical:
  "unmarshal_attr m r_u32 r = Inr (v, r') \<Longrightarrow> v AND m = 0 \<and> rest r = to_be 4 v @ rest r'"
  by (auto simp: unmarshal_attr_def res_bind_eq_Inr check_reserved_def split: if_splits dest!: r_int_canonical)

lemma sym_object_canonical:
  "sym_def_object_get E r = Inr (d, r') \<Longrightarrow> sym_def_ok E d \<and> sym_alg d \<noteq> alg_XOR \<and> rest r = sym_def_enc d @ rest r'"
  by (auto simp: sym_def_object_get_def res_bind_eq_Inr split: if_splits dest!: sym_def.get_canonical)

lemma sym_object_reads: "sym_def_ok E d \<Longrightarrow> sym_alg d \<noteq> alg_XOR \<Longrightarrow> reads (sym_def_object_get E) d (sym_def_enc d)"
  by (rule readsI) (simp add: sym_def_object_get_def sym_def.get_enc)

lemma sym_object_decoder: "decoder (sym_def_object_get E)"
  by unfold_locales
     (auto simp: sym_def_object_get_def res_bind_eq_Inr split: if_splits dest: sym_def.get_consumes)

fun parms_ok :: "env \<Rightarrow> public_parms \<Rightarrow> bool" where
  "parms_ok E (Keyed_hash_parms s) = scheme_fits E keyedhash_kind s"
| "parms_ok E (Sym_cipher_parms d) = (sym_def_ok E d \<and> sym_alg d \<noteq> alg_XOR)"
| "parms_ok E (Rsa_parms p) =
     (sym_def_ok E (rsa_symmetric p) \<and> sym_alg (rsa_symmetric p) \<noteq> alg_XOR
      \<and> scheme_fits E (accepted is_rsa_scheme) (rsa_scheme p) \<and> rsa_key_bits p \<in> set IMPLEMENTED_RSA_KEY_BITS
      \<and> (rsa_exponent p = 0 \<or> (2 < rsa_exponent p \<and> odd (rsa_exponent p))))"
| "parms_ok E (Ecc_parms p) =
     (sym_def_ok E (ecc_symmetric p) \<and> sym_alg (ecc_symmetric p) \<noteq> alg_XOR
      \<and> scheme_fits E (accepted is_ecc_scheme) (ecc_scheme p) \<and> ecc_curve p \<in> set IMPLEMENTED_CURVES
      \<and> scheme_fits E kdf_kind (ecc_kdf p))"

fun parms_enc :: "public_parms \<Rightarrow> bytes" where
  "parms_enc (Keyed_hash_parms s) = scheme_enc s"
| "parms_enc (Sym_cipher_parms d) = sym_def_enc d"
| "parms_enc (Rsa_parms p) = sym_def_enc (rsa_symmetric p) @ scheme_enc (rsa_scheme p)
     @ to_be 2 (rsa_key_bits p) @ to_be 4 (rsa_exponent p) @ []"
| "parms_enc (Ecc_parms p) = sym_def_enc (ecc_symmetric p) @ scheme_enc (ecc_scheme p)
     @ to_be 2 (ecc_curve p) @ scheme_enc (ecc_kdf p) @ []"

fun id_ok :: "u16 \<Rightarrow> public_id \<Rightarrow> bool" where
  "id_ok ty (Keyed_hash_id d) = (ty = alg_KEYEDHASH \<and> length d \<le> MAX_DIGEST_SIZE)"
| "id_ok ty (Sym_id d) = (ty = alg_SYMCIPHER \<and> length d \<le> MAX_DIGEST_SIZE)"
| "id_ok ty (Rsa_id m) = (ty = alg_RSA \<and> length m \<le> MAX_RSA_KEY_BYTES)"
| "id_ok ty (Ecc_id p) = (ty = alg_ECC \<and> ecc_point_ok p)"
| "id_ok ty (Derive_id d) = False"

fun id_enc :: "public_id \<Rightarrow> bytes" where
  "id_enc (Keyed_hash_id d) = enc_sized16 d"
| "id_enc (Sym_id d) = enc_sized16 d"
| "id_enc (Rsa_id m) = enc_sized16 m"
| "id_enc (Ecc_id p) = ecc_point_enc p"
| "id_enc (Derive_id d) = enc_sized16 (dv_label d) @ enc_sized16 (dv_context d)"

lemma parms_canonical:
  assumes "parms_get E ty r = Inr (p, r')"
  shows "parms_selector p = ty \<and> parms_ok E p \<and> rest r = parms_enc p @ rest r'"
proof -
  consider s where "ty = alg_KEYEDHASH" "unmarshal_keyedhash E r = Inr (s, r')" "p = Keyed_hash_parms s"
    | s where "ty = alg_SYMCIPHER" "sym_def_object_get E r = Inr (s, r')" "p = Sym_cipher_parms s"
    | q where "ty = alg_RSA" "rsa_parms_get E r = Inr (q, r')" "p = Rsa_parms q"
    | q where "ty = alg_ECC" "ecc_parms_get E r = Inr (q, r')" "p = Ecc_parms q"
    using assms by (auto simp: parms_get_def res_bind_eq_Inr split: if_splits)
  then show ?thesis
  proof cases
    case 1
    then show ?thesis using keyedhash_scheme.get_canonical by simp
  next
    case 2
    then show ?thesis using sym_object_canonical by simp
  next
    case 3
    then show ?thesis
      by (auto simp: rsa_parms_get_def res_bind_eq_Inr not_le even_iff_mod_2_eq_zero split: if_splits
          dest!: sym_object_canonical rsa_scheme.get_canonical r_int_canonical)
  next
    case 4
    then show ?thesis
      by (auto simp: ecc_parms_get_def res_bind_eq_Inr split: if_splits
          dest!: sym_object_canonical ecc_scheme.get_canonical kdf_scheme.get_canonical r_int_canonical)
  qed
qed

lemma id_canonical: "id_get ty r = Inr (u, r') \<Longrightarrow> id_ok ty u \<and> rest r = id_enc u @ rest r'"
  by (auto simp: id_get_def res_bind_eq_Inr split: if_splits dest!: tpm2b_canonical ecc_point_canonical)

lemma public_canonical_parts:
  assumes "public_get E r = Inr (p, r')"
  shows "is_public_type (object_type p) \<and> (name_alg p = alg_NULL \<or> digest_size E (name_alg p) \<noteq> None)
    \<and> object_attributes p AND oa_reserved = 0 \<and> length (auth_policy p) \<le> MAX_DIGEST_SIZE
    \<and> parms_selector (parameters p) = object_type p \<and> parms_ok E (parameters p) \<and> id_ok (object_type p) (unique p)
    \<and> rest r = to_be 2 (object_type p) @ to_be 2 (name_alg p) @ to_be 4 (object_attributes p)
        @ enc_sized16 (auth_policy p) @ parms_enc (parameters p) @ id_enc (unique p) @ rest r'"
proof -
  obtain ty na at pol ps u r1 r2 r3 r4 r5 where
    g: "r_u16 r = Inr (ty, r1)" "is_public_type ty" "r_u16 r1 = Inr (na, r2)"
      "na = alg_NULL \<or> digest_size E na \<noteq> None" "unmarshal_attr oa_reserved r_u32 r2 = Inr (at, r3)"
      "tpm2b_get MAX_DIGEST_SIZE r3 = Inr (pol, r4)" "parms_get E ty r4 = Inr (ps, r5)" "id_get ty r5 = Inr (u, r')"
    and p: "p = \<lparr>object_type = ty, name_alg = na, object_attributes = at, auth_policy = pol, parameters = ps, unique = u\<rparr>"
    using assms by (auto simp: public_get_def public_get_with_def res_bind_eq_Inr split: if_splits)
  show ?thesis
    using g(2,4) r_int_canonical(1) [OF g(1)] r_int_canonical(1) [OF g(3)] attr_canonical [OF g(5)]
      tpm2b_canonical [OF g(6)] parms_canonical [OF g(7)] id_canonical [OF g(8)]
    by (simp add: p)
qed

definition public_ok :: "env \<Rightarrow> tpmt_public \<Rightarrow> bool" where
  "public_ok E p \<longleftrightarrow> is_public_type (object_type p) \<and> (name_alg p = alg_NULL \<or> digest_size E (name_alg p) \<noteq> None)
     \<and> object_attributes p AND oa_reserved = 0 \<and> length (auth_policy p) \<le> MAX_DIGEST_SIZE
     \<and> parms_selector (parameters p) = object_type p \<and> parms_ok E (parameters p) \<and> id_ok (object_type p) (unique p)"

definition public_enc :: "tpmt_public \<Rightarrow> bytes" where
  "public_enc p = to_be 2 (object_type p) @ to_be 2 (name_alg p) @ to_be 4 (object_attributes p)
     @ enc_sized16 (auth_policy p) @ parms_enc (parameters p) @ id_enc (unique p) @ []"

lemma parms_put_enc: "parms_ok E p \<Longrightarrow> parms_put p w = emit (parms_enc p) w"
  by (cases p)
     (auto simp: writes_emit sym_def.put_enc keyedhash_scheme.put_enc rsa_scheme.put_enc ecc_scheme.put_enc
       kdf_scheme.put_enc)

lemma id_put_enc: "id_ok ty u \<Longrightarrow> id_put u w = emit (id_enc u) w"
  by (cases u) (simp_all add: tpm2b_put_enc key_limits ecc_point.put_enc)

lemma parms_reads:
  assumes "parms_ok E p"
  shows "reads (parms_get E (parms_selector p)) p (parms_enc p)"
proof (cases p)
  case (Keyed_hash_parms s)
  then show ?thesis using assms keyedhash_scheme.get_enc [of E s]
    by (auto intro!: readsI simp: parms_get_def)
next
  case (Sym_cipher_parms d)
  then show ?thesis using assms readsD [OF sym_object_reads [of E d]]
    by (auto intro!: readsI simp: parms_get_def)
next
  case (Rsa_parms q)
  have "reads (rsa_parms_get E) \<lparr>rsa_symmetric = rsa_symmetric q, rsa_scheme = rsa_scheme q,
      rsa_key_bits = rsa_key_bits q, rsa_exponent = rsa_exponent q\<rparr> (parms_enc p)"
    unfolding rsa_parms_get_def Rsa_parms parms_enc.simps
    by (rule reads_return | (rule reads_bind, rule sym_object_reads rsa_scheme.reads_get reads_int)
        | (rule reads_guard) | (use assms Rsa_parms in \<open>auto simp: even_iff_mod_2_eq_zero; fail\<close>))+
  then show ?thesis
    by (auto intro!: readsI simp: parms_get_def Rsa_parms dest: readsD)
next
  case (Ecc_parms q)
  have "reads (ecc_parms_get E) \<lparr>ecc_symmetric = ecc_symmetric q, ecc_scheme = ecc_scheme q,
      ecc_curve = ecc_curve q, ecc_kdf = ecc_kdf q\<rparr> (parms_enc p)"
    unfolding ecc_parms_get_def Ecc_parms parms_enc.simps
    by (rule reads_return | (rule reads_bind, rule sym_object_reads ecc_scheme.reads_get kdf_scheme.reads_get reads_int)
        | (rule reads_guard) | (use assms Ecc_parms in \<open>auto; fail\<close>))+
  then show ?thesis
    by (auto intro!: readsI simp: parms_get_def Ecc_parms dest: readsD)
qed

lemma id_reads: "id_ok ty u \<Longrightarrow> reads (id_get ty) u (id_enc u)"
  by (cases u)
     (auto intro!: readsI simp: id_get_def key_limits ecc_point.get_enc
       dest: readsD [OF tpm2b_reads])

lemma rsa_parms_decoder: "decoder (rsa_parms_get E)"
  unfolding rsa_parms_get_def
  by (intro decoder_bind decoder_if decoder_return decoder_fail sym_object_decoder rsa_scheme.decoder_axioms decoder_int)

lemma ecc_parms_decoder: "decoder (ecc_parms_get E)"
  unfolding ecc_parms_get_def
  by (intro decoder_bind decoder_if decoder_return decoder_fail sym_object_decoder ecc_scheme.decoder_axioms
      kdf_scheme.decoder_axioms decoder_int)

lemma parms_decoder: "decoder (parms_get E ty)"
  unfolding parms_get_def
  by (intro decoder_bind decoder_if decoder_return decoder_fail keyedhash_scheme.decoder_axioms sym_object_decoder
      rsa_parms_decoder ecc_parms_decoder)

lemma id_decoder: "decoder (id_get ty)"
  unfolding id_get_def
  by (intro decoder_bind decoder_if decoder_return decoder_fail tpm2b_decoder ecc_point.decoder_axioms)
     (simp_all add: key_limits)

lemma attr_decoder: "decoder (unmarshal_attr m r_u32)"
  using unmarshal_attr_codec [OF u32.codec_axioms] codec.axioms(1) by blast

lemma attr_reads: "v AND m = 0 \<Longrightarrow> reads (unmarshal_attr m r_u32) v (to_be 4 v)"
  by (rule codec.reads_get [OF unmarshal_attr_codec [OF u32.codec_axioms]])

lemma public_decoder: "decoder (public_get E)"
  unfolding public_get_def public_get_with_def if_False
  by (intro decoder_bind decoder_if decoder_return decoder_fail decoder_int attr_decoder tpm2b_decoder parms_decoder
      id_decoder) (simp add: key_limits)

lemma public_reads:
  assumes "public_ok E p"
  shows "reads (public_get E) p (public_enc p)"
proof -
  have ty: "parms_get E (object_type p) = parms_get E (parms_selector (parameters p))"
    using assms by (simp add: public_ok_def)
  have "reads (public_get E) \<lparr>object_type = object_type p, name_alg = name_alg p,
      object_attributes = object_attributes p, auth_policy = auth_policy p, parameters = parameters p,
      unique = unique p\<rparr> (public_enc p)"
    unfolding public_get_def public_get_with_def public_enc_def if_False
    by (rule reads_return
        | (rule reads_bind, rule reads_int attr_reads tpm2b_reads id_reads)
        | (rule reads_bind, subst ty, rule parms_reads)
        | (rule reads_guard) | (use assms in \<open>auto simp: public_ok_def key_limits; fail\<close>))+
  then show ?thesis by (cases p) simp
qed

interpretation public: codec "public_get E" public_put public_enc "public_ok E"
proof (rule codecI)
  show "decoder (public_get E)" by (rule public_decoder)
  show "public_put p w = emit (public_enc p) w" if "public_ok E p" for p w
    using that
    by (auto simp: public_put_def public_enc_def public_ok_def parms_put_enc id_put_enc tpm2b_put_enc writes_emit
        key_limits)
  show "reads (public_get E) p (public_enc p)" if "public_ok E p" for p
    using that by (rule public_reads)
qed

interpretation public: canonical_codec "public_get E" public_put public_enc "public_ok E"
  by unfold_locales (use public_canonical_parts in \<open>simp add: public_ok_def public_enc_def\<close>)

interpretation tpm2b_public: codec "tpm2b_public_get E" tpm2b_public_put "\<lambda>p. enc_sized16 (public_enc p)"
    "\<lambda>p. public_ok E p \<and> length (public_enc p) < 2 ^ 16"
  unfolding tpm2b_public_get_def [abs_def] tpm2b_public_put_def [abs_def]
  by (rule public.sized_codec)

section \<open>The sensitive area\<close>

fun composite_ok :: "u16 \<Rightarrow> sensitive_composite \<Rightarrow> bool" where
  "composite_ok ty (Rsa_private v) = (ty = alg_RSA \<and> length v \<le> MAX_RSA_PRIVATE_BYTES)"
| "composite_ok ty (Ecc_private v) = (ty = alg_ECC \<and> length v \<le> MAX_ECC_KEY_BYTES)"
| "composite_ok ty (Bits_private v) = (ty = alg_KEYEDHASH \<and> length v \<le> MAX_SYM_DATA)"
| "composite_ok ty (Sym_private v) = (ty = alg_SYMCIPHER \<and> length v \<le> MAX_SYM_KEY_BYTES)"

definition sensitive_ok :: "tpmt_sensitive \<Rightarrow> bool" where
  "sensitive_ok s \<longleftrightarrow> is_public_type (sensitive_type s) \<and> length (sens_auth s) \<le> MAX_DIGEST_SIZE
     \<and> length (sens_seed s) \<le> MAX_DIGEST_SIZE \<and> composite_ok (sensitive_type s) (sens_value s)"

definition sensitive_enc :: "tpmt_sensitive \<Rightarrow> bytes" where
  "sensitive_enc s = to_be 2 (sensitive_type s) @ enc_sized16 (sens_auth s) @ enc_sized16 (sens_seed s)
     @ enc_sized16 (composite_bytes (sens_value s)) @ []"

lemma composite_put_enc: "composite_ok ty v \<Longrightarrow> composite_put v w = emit (enc_sized16 (composite_bytes v)) w"
  by (cases v) (simp_all add: tpm2b_put_enc key_limits)

lemma composite_reads: "composite_ok ty v \<Longrightarrow> reads (composite_get ty) v (enc_sized16 (composite_bytes v))"
  by (cases v) (auto intro!: readsI simp: composite_get_def key_limits dest: readsD [OF tpm2b_reads])

lemma composite_decoder: "decoder (composite_get ty)"
  unfolding composite_get_def
  by (intro decoder_bind decoder_if decoder_return decoder_fail tpm2b_decoder) (simp_all add: key_limits)

lemma composite_canonical:
  "composite_get ty r = Inr (v, r') \<Longrightarrow> composite_ok ty v \<and> rest r = enc_sized16 (composite_bytes v) @ rest r'"
  by (auto simp: composite_get_def res_bind_eq_Inr split: if_splits dest!: tpm2b_canonical)

interpretation sensitive: codec sensitive_get sensitive_put sensitive_enc sensitive_ok
proof (rule codecI)
  show "decoder sensitive_get"
    unfolding sensitive_get_def
    by (intro decoder_bind decoder_if decoder_return decoder_fail decoder_int tpm2b_decoder composite_decoder)
       (simp_all add: key_limits)
  show "sensitive_put s w = emit (sensitive_enc s) w" if "sensitive_ok s" for s w
    using that by (auto simp: sensitive_put_def sensitive_enc_def sensitive_ok_def composite_put_enc tpm2b_put_enc
        writes_emit key_limits)
  show "reads sensitive_get s (sensitive_enc s)" if ok: "sensitive_ok s" for s
  proof -
    have "reads sensitive_get \<lparr>sensitive_type = sensitive_type s, sens_auth = sens_auth s, sens_seed = sens_seed s,
        sens_value = sens_value s\<rparr> (sensitive_enc s)"
      unfolding sensitive_get_def sensitive_enc_def
      by (rule reads_return | (rule reads_bind, rule reads_int tpm2b_reads composite_reads)
          | (rule reads_guard) | (use ok in \<open>auto simp: sensitive_ok_def key_limits; fail\<close>))+
    then show ?thesis by (cases s) simp
  qed
qed

interpretation sensitive: canonical_codec sensitive_get sensitive_put sensitive_enc sensitive_ok
proof
  show "sensitive_ok s \<and> rest r = sensitive_enc s @ rest r'" if "sensitive_get r = Inr (s, r')" for r s r'
    using that
    by (auto simp: sensitive_get_def res_bind_eq_Inr sensitive_ok_def sensitive_enc_def split: if_splits
        dest!: r_int_canonical tpm2b_canonical composite_canonical)
qed

interpretation tpm2b_sensitive: codec tpm2b_sensitive_get tpm2b_sensitive_put "\<lambda>s. enc_sized16 (sensitive_enc s)"
    "\<lambda>s. sensitive_ok s \<and> length (sensitive_enc s) < 2 ^ 16"
  unfolding tpm2b_sensitive_get_def [abs_def] tpm2b_sensitive_put_def [abs_def]
  by (rule sensitive.sized_codec)

text \<open>The parsers of public and sensitive areas accept exactly well typed values: an octet string
  is read as an area just when it is that area's marshalled form and the area is one the interface
  types allow. In particular the parameters, the identifier and the private value read are always
  those the object type selects, so no area ever mixes two kinds of key.\<close>

theorem object_areas_well_typed:
  "(from_bytes (public_get E) b = Inr p \<longleftrightarrow> public_ok E p \<and> b = to_bytes public_put p)
   \<and> (from_bytes sensitive_get b = Inr s \<longleftrightarrow> sensitive_ok s \<and> b = to_bytes sensitive_put s)"
  by (intro conjI public.from_bytes_iff sensitive.from_bytes_iff)

end
