(* ===== verification/Numbers.thy ===== *)
theory Numbers
  imports Prelude
begin

text \<open>
  The number theory behind RSA: Fermat's little theorem from the binomial theorem, and that raising to
  two exponents inverse modulo \<open>\<lambda>(pq)\<close> is the identity below \<open>pq\<close>; and octet strings as numbers.
\<close>

definition is_prime :: "nat \<Rightarrow> bool" where
  "is_prime p \<longleftrightarrow> 2 \<le> p \<and> (\<forall>m. m dvd p \<longrightarrow> m = 1 \<or> m = p)"

lemma is_prime_bounded: "is_prime p \<longleftrightarrow> 2 \<le> p \<and> list_all (\<lambda>m. \<not> m dvd p) [2..<p]"
proof -
  have "(\<forall>m. m dvd p \<longrightarrow> m = 1 \<or> m = p) = (\<forall>m \<in> {2..<p}. \<not> m dvd p)" if "2 \<le> p"
  proof
    assume all: "\<forall>m. m dvd p \<longrightarrow> m = 1 \<or> m = p"
    show "\<forall>m \<in> {2..<p}. \<not> m dvd p"
    proof
      fix m assume "m \<in> {2..<p}"
      then show "\<not> m dvd p" using all [rule_format, of m] by auto
    qed
  next
    assume none: "\<forall>m \<in> {2..<p}. \<not> m dvd p"
    show "\<forall>m. m dvd p \<longrightarrow> m = 1 \<or> m = p"
    proof (intro allI impI)
      fix m assume m: "m dvd p"
      then have "m \<le> p" "m \<noteq> 0" using that by (auto intro: dvd_imp_le intro!: Nat.gr0I)
      moreover have "\<not> (2 \<le> m \<and> m < p)" using none m by auto
      ultimately show "m = 1 \<or> m = p" by linarith
    qed
  qed
  then show ?thesis by (auto simp: is_prime_def list_all_iff)
qed

lemma prime_coprime:
  assumes "is_prime p" and "\<not> p dvd k" shows "coprime p k"
proof -
  have "gcd p k dvd p" by simp
  then have "gcd p k = 1 \<or> gcd p k = p" using assms(1) by (simp add: is_prime_def)
  moreover have "gcd p k \<noteq> p" using assms(2) by (metis gcd_dvd2)
  ultimately show ?thesis by (simp add: coprime_iff_gcd_eq_1)
qed

lemma prime_dvd_choose:
  assumes "is_prime p" and "0 < k" and "k < p"
  shows "p dvd (p choose k)"
proof -
  have "\<not> p dvd k" using assms(2,3) nat_dvd_not_less by blast
  then have "coprime p k" by (rule prime_coprime [OF assms(1)])
  moreover have "p dvd k * (p choose k)" using times_binomial_minus1_eq [OF assms(2), of p] by simp
  ultimately show ?thesis by (simp add: coprime_dvd_mult_right_iff)
qed

lemma fermat_step:
  assumes "is_prime p"
  shows "Suc a ^ p mod p = (a ^ p + 1) mod p"
proof -
  have p: "2 \<le> p" using assms by (simp add: is_prime_def)
  let ?f = "\<lambda>k. (p choose k) * a ^ k"
  have "Suc a ^ p = (\<Sum>k\<le>p. ?f k)" using binomial [of a 1 p] by simp
  also have "{..p} = insert 0 (insert p {0<..<p})" using p by auto
  also have "(\<Sum>k\<in>insert 0 (insert p {0<..<p}). ?f k) = 1 + (a ^ p + (\<Sum>k\<in>{0<..<p}. ?f k))" using p by simp
  finally have "Suc a ^ p = (a ^ p + 1) + (\<Sum>k\<in>{0<..<p}. ?f k)" by simp
  moreover obtain c where "(\<Sum>k\<in>{0<..<p}. ?f k) = p * c"
    using dvd_sum [of "{0<..<p}" p ?f] prime_dvd_choose [OF assms] by (auto elim: dvdE)
  ultimately show ?thesis by (simp only: mod_mult_self2)
qed

lemma fermat:
  assumes "is_prime p"
  shows "a ^ p mod p = a mod p"
proof (induction a)
  case 0
  show ?case using assms by (simp add: is_prime_def power_0_left)
next
  case (Suc a)
  have "Suc a ^ p mod p = (a ^ p mod p + 1) mod p" using fermat_step [OF assms] by (simp add: mod_Suc_eq)
  then show ?case by (simp add: Suc mod_Suc_eq)
qed

lemma fermat_unit:
  assumes "is_prime p" and "\<not> p dvd a"
  shows "int p dvd int a ^ (p - 1) - 1"
proof -
  have p: "p = Suc (p - 1)" using assms(1) by (simp add: is_prime_def)
  have "int (a ^ p mod p) = int (a mod p)" using fermat [OF assms(1), of a] by simp
  then have "int (a ^ p) mod int p = int a mod int p" by (simp only: zmod_int)
  then have "int p dvd int a ^ p - int a" by (simp add: mod_eq_dvd_iff)
  also have "int a ^ p - int a = int a * (int a ^ (p - 1) - 1)"
    by (subst p) (simp add: algebra_simps)
  finally have "int p dvd int a * (int a ^ (p - 1) - 1)" .
  moreover have "coprime (int p) (int a)" using prime_coprime [OF assms] by simp
  ultimately show ?thesis by (simp add: coprime_dvd_mult_right_iff)
qed

lemma power_one_modulo:
  assumes "n dvd (x :: int) - 1" shows "n dvd x ^ k - 1"
proof (induction k)
  case (Suc k)
  have e: "x ^ Suc k - 1 = x * (x ^ k - 1) + (x - 1)" by (simp add: algebra_simps)
  show ?case unfolding e using Suc assms by (intro dvd_add dvd_mult)
qed simp

lemma power_identity_prime:
  assumes "is_prime p" and "(p - 1) dvd n"
  shows "int p dvd int a ^ Suc n - int a"
proof (cases "p dvd a")
  case True
  then show ?thesis by (simp add: dvd_diff)
next
  case False
  from assms(2) obtain k where n: "n = (p - 1) * k" by (rule dvdE)
  have "int p dvd (int a ^ (p - 1)) ^ k - 1" by (rule power_one_modulo [OF fermat_unit [OF assms(1) False]])
  then have "int p dvd int a * (int a ^ n - 1)" by (simp add: n power_mult)
  then show ?thesis by (simp add: algebra_simps)
qed

text \<open>The identity behind RSA.\<close>

lemma rsa_identity:
  assumes "is_prime p" and "is_prime q" and "p \<noteq> q"
    and "(p - 1) dvd n" and "(q - 1) dvd n" and "a < p * q"
  shows "a ^ Suc n mod (p * q) = a"
proof -
  have "p \<noteq> 1" using assms(1) by (simp add: is_prime_def)
  then have "\<not> p dvd q" using assms(2,3) unfolding is_prime_def by blast
  then have "coprime p q" by (rule prime_coprime [OF assms(1)])
  then have "coprime (int p) (int q)" by simp
  then have "int p * int q dvd int a ^ Suc n - int a"
    by (rule divides_mult [OF power_identity_prime [OF assms(1,4)] power_identity_prime [OF assms(2,5)]])
  then have "int a ^ Suc n mod (int p * int q) = int a mod (int p * int q)" by (simp add: mod_eq_dvd_iff)
  then have "int (a ^ Suc n mod (p * q)) = int (a mod (p * q))" unfolding zmod_int of_nat_mult of_nat_power .
  then show ?thesis using assms(6) by simp
qed

section \<open>Octet strings as numbers\<close>

definition octets_value :: "bytes \<Rightarrow> nat" where
  "octets_value bs = foldl (\<lambda>v b. 256 * v + unat b) 0 bs"

lemma octets_value_bound: "octets_value bs < 256 ^ length bs"
proof (induction bs rule: rev_induct)
  case (snoc b bs)
  have "unat b < 256" using unsigned_less [of b] by simp
  with snoc show ?case by (simp add: octets_value_def)
qed (simp add: octets_value_def)

lemma octets_value_append: "octets_value (as @ bs) = octets_value as * 256 ^ length bs + octets_value bs"
proof (induction bs rule: rev_induct)
  case (snoc b bs)
  have "octets_value (xs @ [b]) = 256 * octets_value xs + unat b" for xs by (simp add: octets_value_def)
  from this [of "as @ bs"] this [of bs] snoc show ?case by (simp add: algebra_simps)
qed (simp add: octets_value_def)

lemma octets_value_zeros: "\<forall>x \<in> set bs. x = 0 \<Longrightarrow> octets_value bs = 0"
  by (induction bs rule: rev_induct) (simp_all add: octets_value_def)

text \<open>The big endian octets of a number, at a length that holds it.\<close>

definition octets_of :: "nat \<Rightarrow> nat \<Rightarrow> bytes" where
  "octets_of len n = map (\<lambda>i. of_nat (n div 256 ^ (len - 1 - i))) [0..<len]"

lemma length_octets_of [simp]: "length (octets_of len n) = len"
  by (simp add: octets_of_def)

lemma octets_of_Suc: "octets_of (Suc len) n = octets_of len (n div 256) @ [of_nat n]"
proof -
  have "map (\<lambda>i. of_nat (n div 256 ^ (len - i)) :: u8) [0..<len] = map (\<lambda>i. of_nat (n div 256 div 256 ^ (len - 1 - i))) [0..<len]"
    by (intro map_cong refl) (simp add: div_mult2_eq [symmetric] Suc_diff_Suc flip: power_Suc)
  then show ?thesis by (simp add: octets_of_def)
qed

lemma octets_value_snoc: "octets_value (bs @ [b]) = 256 * octets_value bs + unat b"
  by (simp add: octets_value_def)

lemma octets_value_octets_of: "n < 256 ^ len \<Longrightarrow> octets_value (octets_of len n) = n"
proof (induction len arbitrary: n)
  case (Suc len)
  have "n div 256 < 256 ^ len" using Suc.prems by (simp add: less_mult_imp_div_less mult.commute)
  then show ?case by (simp add: octets_of_Suc octets_value_snoc Suc.IH unat_of_nat)
qed (simp add: octets_of_def octets_value_def)

lemma octets_of_octets_value: "octets_of (length bs) (octets_value bs) = bs"
proof (induction bs rule: rev_induct)
  case (snoc b bs)
  have b: "unat b < 256" using unsigned_less [of b] by simp
  then have "(256 * octets_value bs + unat b) div 256 = octets_value bs" by simp
  moreover have "of_nat (256 * octets_value bs + unat b) = b"
  proof -
    have "(of_nat 256 :: u8) = 0" by simp
    then show ?thesis by (simp only: of_nat_add of_nat_mult) simp
  qed
  ultimately show ?case using snoc by (simp add: octets_of_Suc octets_value_snoc)
qed (simp add: octets_of_def)

lemma octets_value_inj: "length as = length bs \<Longrightarrow> octets_value as = octets_value bs \<Longrightarrow> as = bs"
  by (metis octets_of_octets_value)

end
