(* ===== verification/Objects.thy ===== *)
theory Objects
  imports Keys NvStruct Hierarchy Session Numbers
begin

text \<open>
  Loaded objects, sequences and the transient slots that hold them (\<open>src/tpm/core/object.rs\<close>), the
  names of objects (\<open>src/tpm/core/names.rs\<close>), and the consistency rules of public areas. What the
  rules ask of RSA and ECC keys is asked of a third-party library, here the record \<open>key_lib\<close>.
\<close>

abbreviation (input) rc_MEMORY :: u32 where "rc_MEMORY \<equiv> 0x904"
abbreviation (input) rc_BINDING :: u32 where "rc_BINDING \<equiv> 0x0A5"

definition MAX_LOADED_OBJECTS :: nat where "MAX_LOADED_OBJECTS = 32"
definition MAX_SEQUENCE_BYTES :: nat where "MAX_SEQUENCE_BYTES = 1024 * 1024"

text \<open>
  The library: whether a prime is one of a modulus with an exponent, whether coordinates are a point
  of a curve, and the public point of a scalar.
\<close>

record key_lib =
  rsa_prime_divides :: "bytes \<Rightarrow> u32 \<Rightarrow> bytes \<Rightarrow> bool"
  point_on_curve :: "u16 \<Rightarrow> bytes \<Rightarrow> bytes \<Rightarrow> unit tpm_result"
  scalar_point :: "u16 \<Rightarrow> bytes \<Rightarrow> (bytes \<times> bytes) option"

section \<open>Objects\<close>

definition object_name :: "env \<Rightarrow> tpmt_public \<Rightarrow> bytes tpm_result" where
  "object_name E p =
     (if name_alg p = alg_NULL then Inr []
      else res_bind (digest E (name_alg p) (to_bytes public_put p)) (\<lambda>d. Inr (to_be 2 (name_alg p) @ d)))"

record object =
  obj_public :: tpmt_public
  obj_sensitive :: "tpmt_sensitive option"
  obj_name :: bytes
  obj_qualified :: bytes
  obj_hierarchy :: u32
  tpm_generated :: bool
  state_clear :: bool

definition object_new ::
  "env \<Rightarrow> tpmt_public \<Rightarrow> tpmt_sensitive option \<Rightarrow> u32 \<Rightarrow> bytes \<Rightarrow> bool \<Rightarrow> object tpm_result" where
  "object_new E p s h parent generated =
     res_bind (object_name E p) (\<lambda>n.
     res_bind (qualified_name E (name_alg p) parent n) (\<lambda>q.
       Inr \<lparr>obj_public = p, obj_sensitive = s, obj_name = n, obj_qualified = q, obj_hierarchy = h,
            tpm_generated = generated, state_clear = attr_has (object_attributes p) oa_ST_CLEAR\<rparr>))"

definition is_public_only :: "object \<Rightarrow> bool" where
  "is_public_only x = (obj_sensitive x = None)"

definition is_storage_public :: "object \<Rightarrow> bool" where
  "is_storage_public x =
     (attr_has (object_attributes (obj_public x)) (oa_RESTRICTED OR oa_DECRYPT)
      \<and> object_type (obj_public x) \<noteq> alg_KEYEDHASH)"

definition is_storage_key :: "object \<Rightarrow> bool" where
  "is_storage_key x = (is_storage_public x \<and> \<not> is_public_only x)"

definition is_derivation_parent :: "object \<Rightarrow> bool" where
  "is_derivation_parent x =
     (attr_has (object_attributes (obj_public x)) (oa_RESTRICTED OR oa_DECRYPT)
      \<and> object_type (obj_public x) = alg_KEYEDHASH \<and> \<not> is_public_only x)"

definition obj_auth :: "object \<Rightarrow> bytes" where
  "obj_auth x = (case obj_sensitive x of Some s \<Rightarrow> sens_auth s | None \<Rightarrow> [])"

definition obj_seed :: "object \<Rightarrow> bytes" where
  "obj_seed x = (case obj_sensitive x of Some s \<Rightarrow> sens_seed s | None \<Rightarrow> [])"

section \<open>Sequences\<close>

datatype sequence_kind = Hash_sequence u16 | Hmac_sequence u16 bytes | Event_sequence

record sequence =
  seq_kind :: sequence_kind
  seq_auth :: bytes
  seq_buffer :: bytes
  short_first_buffer :: bool

definition sequence_update :: "bytes \<Rightarrow> (sequence, unit) st_op" where
  "sequence_update data q =
     (if MAX_SEQUENCE_BYTES < length (seq_buffer q) + length data then (Inl rc_MEMORY, q)
      else (let q = (if seq_buffer q = [] \<and> length data < 4 then q\<lparr>short_first_buffer := True\<rparr> else q)
            in (Inr (), q\<lparr>seq_buffer := seq_buffer q @ data\<rparr>)))"

definition may_be_safe_to_sign :: "sequence \<Rightarrow> bool" where
  "may_be_safe_to_sign q = (\<not> short_first_buffer q)"

definition seq_hash_alg :: "sequence \<Rightarrow> u16 option" where
  "seq_hash_alg q = (case seq_kind q of Hash_sequence h \<Rightarrow> Some h | Hmac_sequence h _ \<Rightarrow> Some h | Event_sequence \<Rightarrow> None)"

definition is_event :: "sequence \<Rightarrow> bool" where
  "is_event q = (seq_kind q = Event_sequence)"

section \<open>Slots\<close>

datatype slot = Object_slot object | Sequence_slot sequence

fun as_object :: "slot \<Rightarrow> object tpm_result" where
  "as_object (Object_slot x) = Inr x"
| "as_object (Sequence_slot _) = Inl rc_HANDLE"

fun as_sequence :: "slot \<Rightarrow> sequence tpm_result" where
  "as_sequence (Sequence_slot q) = Inr q"
| "as_sequence (Object_slot _) = Inl rc_MODE"

fun slot_auth :: "slot \<Rightarrow> bytes" where
  "slot_auth (Object_slot x) = obj_auth x"
| "slot_auth (Sequence_slot q) = seq_auth q"

fun slot_name :: "slot \<Rightarrow> bytes" where
  "slot_name (Object_slot x) = obj_name x"
| "slot_name (Sequence_slot _) = []"

type_synonym object_slots = "(u32, slot) btree"

definition objects_new :: object_slots where "objects_new = []"

definition objects_available :: "object_slots \<Rightarrow> nat" where
  "objects_available s = MAX_LOADED_OBJECTS - length s"

fun first_free :: "object_slots \<Rightarrow> u32 list \<Rightarrow> u32 option" where
  "first_free s [] = None"
| "first_free s (i # is) =
     (let h = hc_TRANSIENT_FIRST + i in if \<not> bt_contains s h then Some h else first_free s is)"

definition objects_insert :: "slot \<Rightarrow> (object_slots, u32) st_op" where
  "objects_insert x s =
     (if MAX_LOADED_OBJECTS \<le> length s then (Inl rc_OBJECT_MEMORY, s)
      else case first_free s (map of_nat [0..<MAX_LOADED_OBJECTS]) of
          Some h \<Rightarrow> (Inr h, bt_insert h x s)
        | None \<Rightarrow> (Inl rc_OBJECT_MEMORY, s))"

definition objects_insert_at :: "u32 \<Rightarrow> slot \<Rightarrow> (object_slots, unit) st_op" where
  "objects_insert_at h x s =
     (if \<not> is_transient h then (Inl rc_HANDLE, s)
      else if bt_contains s h then (Inl rc_HANDLE, s)
      else if MAX_LOADED_OBJECTS \<le> length s then (Inl rc_OBJECT_MEMORY, s)
      else (Inr (), bt_insert h x s))"

definition objects_get :: "u32 \<Rightarrow> object_slots \<Rightarrow> slot tpm_result" where
  "objects_get h s = ok_or (bt_get s h) rc_HANDLE"

text \<open>\<open>get_mut\<close>, as the update the caller makes through the reference.\<close>

definition objects_modify :: "u32 \<Rightarrow> (slot \<Rightarrow> slot) \<Rightarrow> (object_slots, unit) st_op" where
  "objects_modify h f s =
     (case bt_get s h of None \<Rightarrow> (Inl rc_HANDLE, s) | Some x \<Rightarrow> (Inr (), bt_update h (f x) s))"

definition objects_object :: "u32 \<Rightarrow> object_slots \<Rightarrow> object tpm_result" where
  "objects_object h s = res_bind (objects_get h s) as_object"

definition objects_remove :: "u32 \<Rightarrow> (object_slots, slot) st_op" where
  "objects_remove h s =
     (case bt_get s h of None \<Rightarrow> (Inl rc_HANDLE, s) | Some x \<Rightarrow> (Inr x, bt_remove h s))"

definition objects_handles :: "object_slots \<Rightarrow> u32 list" where
  "objects_handles s = bt_keys s"

definition flush_hierarchy :: "u32 \<Rightarrow> object_slots \<Rightarrow> object_slots" where
  "flush_hierarchy hierarchy s =
     (let belongs = (\<lambda>h. h = hierarchy \<or> base_of h = Some hierarchy)
      in bt_retain (\<lambda>_ x. case x of Object_slot y \<Rightarrow> \<not> belongs (obj_hierarchy y) | Sequence_slot _ \<Rightarrow> True) s)"

definition flush_st_clear :: "object_slots \<Rightarrow> object_slots" where
  "flush_st_clear s =
     bt_retain (\<lambda>_ x. case x of Object_slot y \<Rightarrow> \<not> attr_has (object_attributes (obj_public y)) oa_ST_CLEAR
                      | Sequence_slot _ \<Rightarrow> True) s"

definition objects_clear :: "object_slots \<Rightarrow> object_slots" where "objects_clear s = []"

section \<open>Consistency of public areas\<close>

text \<open>The KEM suites of \<open>src/tpm/crypto/dhkem.rs\<close>: a curve names one hash.\<close>

definition kem_suite :: "u16 \<Rightarrow> (u16 \<times> u16 \<times> nat) tpm_result" where
  "kem_suite c =
     (if c = curve_NIST_P256 then Inr (0x0010, alg_SHA256, 32)
      else if c = curve_NIST_P384 then Inr (0x0011, alg_SHA384, 48)
      else if c = curve_NIST_P521 then Inr (0x0012, alg_SHA512, 64)
      else Inl rc_KDF)"

definition kem_hash :: "scheme \<Rightarrow> u16 tpm_result" where
  "kem_hash kdf = (if scheme_alg kdf \<noteq> alg_HKDF then Inl rc_KDF else ok_or (scheme_hash_alg kdf) rc_KDF)"

definition is_kem_suite :: "u16 \<Rightarrow> scheme \<Rightarrow> bool" where
  "is_kem_suite c kdf =
     (case (kem_suite c, kem_hash kdf) of (Inr (_, h, _), Inr chosen) \<Rightarrow> h = chosen | _ \<Rightarrow> False)"

definition guard :: "bool \<Rightarrow> tpm_rc \<Rightarrow> unit tpm_result" where
  "guard b e = (if b then Inr () else Inl e)"

definition check_kdf :: "tpmt_public \<Rightarrow> unit tpm_result" where
  "check_kdf p =
     (let attrs = object_attributes p
      in case parameters p of
           Ecc_parms e \<Rightarrow>
             if \<not> scheme_is_null (ecc_kdf e) then
               res_bind (guard (\<not> (attr_has attrs oa_RESTRICTED \<or> \<not> attr_has attrs oa_DECRYPT
                   \<or> scheme_alg (ecc_scheme e) \<noteq> alg_ECDH)) rc_KDF) (\<lambda>_.
                 guard (is_kem_suite (ecc_curve e) (ecc_kdf e)) rc_KDF)
             else Inr ()
         | _ \<Rightarrow> Inr ())"

definition check_policy_size :: "env \<Rightarrow> tpmt_public \<Rightarrow> unit tpm_result" where
  "check_policy_size E p =
     (if auth_policy p \<noteq> [] then
        case hash_size E (name_alg p) of
          Inr want \<Rightarrow> guard (length (auth_policy p) = want) rc_SIZE
        | Inl _ \<Rightarrow> Inl rc_SIZE
      else Inr ())"

definition validate_public :: "env \<Rightarrow> tpmt_public \<Rightarrow> unit tpm_result" where
  "validate_public E p =
     (let attrs = object_attributes p;
          sign = attr_has attrs oa_SIGN_ENCRYPT;
          decrypt = attr_has attrs oa_DECRYPT
      in
      if attr_has attrs oa_RESTRICTED \<and> sign \<and> decrypt then Inl rc_ATTRIBUTES
      else if attr_has attrs oa_FIXED_TPM \<and> \<not> attr_has attrs oa_FIXED_PARENT then Inl rc_ATTRIBUTES
      else if attr_has attrs oa_ENCRYPTED_DUPLICATION \<and> attr_has attrs oa_FIXED_TPM then Inl rc_ATTRIBUTES
      else if sign \<and> attr_has attrs oa_RESTRICTED \<and> object_type p \<noteq> alg_SYMCIPHER
            \<and> (case public_scheme p of Some s \<Rightarrow> scheme_is_null s | None \<Rightarrow> True) then Inl rc_SCHEME
      else res_bind (check_kdf p) (\<lambda>_.
        if name_alg p = alg_NULL \<and> attr_has attrs (oa_RESTRICTED OR oa_DECRYPT) then Inl rc_HASH
        else check_policy_size E p))"

definition validate_restricted_has_an_action :: "tpmt_public \<Rightarrow> unit tpm_result" where
  "validate_restricted_has_an_action p =
     (let attrs = object_attributes p
      in if attr_has attrs oa_RESTRICTED \<and> \<not> attr_has attrs oa_SIGN_ENCRYPT \<and> \<not> attr_has attrs oa_DECRYPT
         then Inl rc_ATTRIBUTES else Inr ())"

definition validate_action_attributes :: "tpmt_public \<Rightarrow> unit tpm_result" where
  "validate_action_attributes p =
     (let attrs = object_attributes p
      in if object_type p \<noteq> alg_KEYEDHASH \<and> \<not> attr_has attrs oa_SIGN_ENCRYPT \<and> \<not> attr_has attrs oa_DECRYPT
         then Inl rc_ATTRIBUTES else validate_restricted_has_an_action p)"

definition validate_creation_template :: "env \<Rightarrow> tpmt_public \<Rightarrow> unit tpm_result" where
  "validate_creation_template E p = res_bind (validate_public E p) (\<lambda>_. validate_action_attributes p)"

fun check_limited :: "u32 \<Rightarrow> (u32 \<times> bool) list \<Rightarrow> unit tpm_result" where
  "check_limited attrs [] = Inr ()"
| "check_limited attrs ((b, parent) # bs) =
     (if attr_has attrs b \<and> (\<not> attr_has attrs oa_FIXED_TPM \<or> \<not> parent) then Inl rc_ATTRIBUTES
      else check_limited attrs bs)"

definition validate_limited_attributes :: "tpmt_public \<Rightarrow> bool \<Rightarrow> bool \<Rightarrow> unit tpm_result" where
  "validate_limited_attributes p parent_firmware parent_svn =
     check_limited (object_attributes p)
       [(oa_FIRMWARE_LIMITED, parent_firmware), (oa_SVN_LIMITED, parent_svn)]"

definition leading_zeros8 :: "u8 \<Rightarrow> nat" where
  "leading_zeros8 b = length (takeWhile (\<lambda>k. \<not> bit b k) [7, 6, 5, 4, 3, 2, 1, 0])"

fun skip_zeros :: "bytes \<Rightarrow> nat \<Rightarrow> nat" where
  "skip_zeros [] i = i"
| "skip_zeros (b # bs) i = (if b = 0 then skip_zeros bs (Suc i) else i)"

definition significant_bits :: "bytes \<Rightarrow> nat" where
  "significant_bits bs =
     (let i = skip_zeros bs 0
      in if i = length bs then 0 else (length bs - i - 1) * 8 + (8 - leading_zeros8 (bs ! i)))"

definition validate_loaded_public :: "env \<Rightarrow> key_lib \<Rightarrow> tpmt_public \<Rightarrow> unit tpm_result" where
  "validate_loaded_public E K p =
     res_bind (validate_public E p) (\<lambda>_.
     res_bind (case (unique p, parameters p) of
         (Rsa_id m, Rsa_parms q) \<Rightarrow>
           if m \<noteq> [] \<and> significant_bits m \<noteq> unat (rsa_key_bits q) then Inl rc_KEY_SIZE else Inr ()
       | _ \<Rightarrow> Inr ()) (\<lambda>_.
       case (unique p, parameters p) of
         (Ecc_id pt, Ecc_parms q) \<Rightarrow>
           if pt_x pt \<noteq> [] \<or> pt_y pt \<noteq> [] then point_on_curve K (ecc_curve q) (pt_x pt) (pt_y pt) else Inr ()
       | _ \<Rightarrow> Inr ()))"

definition check_obfuscated :: "env \<Rightarrow> u16 \<Rightarrow> bytes \<Rightarrow> bytes \<Rightarrow> bytes \<Rightarrow> unit tpm_result" where
  "check_obfuscated E a u seed secret =
     res_bind (digest_parts E a [seed, secret]) (\<lambda>expected. guard (u = expected) rc_BINDING)"

definition check_binding :: "env \<Rightarrow> key_lib \<Rightarrow> tpmt_public \<Rightarrow> tpmt_sensitive \<Rightarrow> unit tpm_result" where
  "check_binding E K p s =
     (if sensitive_type s \<noteq> object_type p then Inl rc_TYPE
      else case (unique p, sens_value s) of
          (Keyed_hash_id u, Bits_private b) \<Rightarrow> check_obfuscated E (name_alg p) u (sens_seed s) b
        | (Sym_id u, Sym_private k) \<Rightarrow> check_obfuscated E (name_alg p) u (sens_seed s) k
        | (Rsa_id m, Rsa_private prime) \<Rightarrow>
            (case parameters p of
               Rsa_parms q \<Rightarrow> guard (rsa_prime_divides K m (rsa_exponent q) prime) rc_BINDING
             | _ \<Rightarrow> Inl rc_TYPE)
        | (Ecc_id pt, Ecc_private d) \<Rightarrow>
            (case parameters p of
               Ecc_parms q \<Rightarrow>
                 (case scalar_point K (ecc_curve q) d of
                    None \<Rightarrow> Inl rc_BINDING
                  | Some (x, y) \<Rightarrow> guard (\<not> (x \<noteq> pt_x pt \<or> y \<noteq> pt_y pt)) rc_BINDING)
             | _ \<Rightarrow> Inl rc_TYPE)
        | _ \<Rightarrow> Inl rc_TYPE)"

definition validate_restored :: "env \<Rightarrow> key_lib \<Rightarrow> tpmt_public \<Rightarrow> tpmt_sensitive option \<Rightarrow> unit tpm_result" where
  "validate_restored E K p s =
     res_bind (validate_loaded_public E K p) (\<lambda>_.
       case s of Some x \<Rightarrow> check_binding E K p x | None \<Rightarrow> Inr ())"

section \<open>The bits of a modulus\<close>

lemma skip_zeros_eq: "skip_zeros bs i = i + length (takeWhile (\<lambda>b. b = 0) bs)"
  by (induction bs i rule: skip_zeros.induct) auto

lemma bit_le_unat: "bit (w :: 'a::len word) n \<Longrightarrow> 2 ^ n \<le> unat w"
proof -
  assume "bit w n"
  then have "bit (unat w) n" by (simp add: bit_unsigned_iff)
  then have "odd (unat w div 2 ^ n)" by (simp add: bit_iff_odd)
  then have "0 < unat w div 2 ^ n" by (cases "unat w div 2 ^ n") auto
  then show ?thesis by (simp add: div_greater_zero_iff)
qed

lemma unat_less_bits:
  assumes "\<And>m. n \<le> m \<Longrightarrow> \<not> bit (w :: 'a::len word) m"
  shows "unat w < 2 ^ n"
proof -
  have "bit (take_bit n w) m = bit w m" for m
    using assms [of m] by (cases "n \<le> m") (auto simp: bit_take_bit_iff)
  then have "take_bit n w = w" by (simp add: bit_eq_iff)
  then have "take_bit n (unat w) = unat w" by (metis unsigned_take_bit_eq)
  then show ?thesis by (metis take_bit_nat_less_exp)
qed

lemma octet_bits:
  assumes "b \<noteq> (0 :: u8)"
  obtains j where "leading_zeros8 b = 7 - j" "j < 8" "2 ^ j \<le> unat b" "unat b < 2 ^ Suc j"
proof -
  have fin: "finite {m. bit b m}" and ne: "{m. bit b m} \<noteq> {}"
    using assms bit_imp_le_length [of b]
    by (auto simp: bit_eq_iff intro: finite_subset [of _ "{..<8}"])
  define j where "j = Max {m. bit b m}"
  have j: "bit b j" "\<And>m. j < m \<Longrightarrow> \<not> bit b m"
    using Max_in [OF fin ne] Max_ge [OF fin] by (auto simp: j_def not_le [symmetric])
  have j8: "j < 8" using bit_imp_le_length [OF j(1)] by simp
  then have "j \<in> {0, 1, 2, 3, 4, 5, 6, 7}" by auto
  then have "leading_zeros8 b = 7 - j"
    using j(1) j(2) [of 1] j(2) [of 2] j(2) [of 3] j(2) [of 4] j(2) [of 5] j(2) [of 6] j(2) [of 7]
    by (elim insertE emptyE) (simp_all add: leading_zeros8_def)
  moreover have "2 ^ j \<le> unat b" using j(1) by (rule bit_le_unat)
  moreover have "unat b < 2 ^ Suc j" by (rule unat_less_bits) (simp add: j(2))
  ultimately show ?thesis using j8 that by blast
qed

lemma significant_bits_spec:
  "octets_value bs < 2 ^ significant_bits bs
   \<and> (significant_bits bs \<noteq> 0 \<longrightarrow> 2 ^ (significant_bits bs - 1) \<le> octets_value bs)"
proof -
  let ?z = "takeWhile (\<lambda>b. b = 0) bs" and ?i = "skip_zeros bs 0"
  have i: "?i = length ?z" by (simp add: skip_zeros_eq)
  have "\<forall>x \<in> set ?z. x = 0" by (auto dest: set_takeWhileD)
  then have zeros: "octets_value ?z = 0" by (rule octets_value_zeros)
  show ?thesis
  proof (cases "?i = length bs")
    case True
    then have z: "?z = bs" using i by (metis takeWhile_eq_take take_all order_refl)
    have "octets_value bs = 0" using zeros unfolding z .
    then show ?thesis using True by (simp add: significant_bits_def)
  next
    case False
    then have lt: "?i < length bs" using i length_takeWhile_le [of "\<lambda>b. b = 0" bs] by simp
    define t where "t = drop (Suc ?i) bs"
    have split: "bs = ?z @ bs ! ?i # t"
      using lt by (metis i t_def append_take_drop_id takeWhile_eq_take Cons_nth_drop_Suc)
    have nz: "bs ! ?i \<noteq> 0" using nth_length_takeWhile [of "\<lambda>b. b = 0" bs] lt i by simp
    obtain j where j: "leading_zeros8 (bs ! ?i) = 7 - j" "j < 8" "2 ^ j \<le> unat (bs ! ?i)" "unat (bs ! ?i) < 2 ^ Suc j"
      using octet_bits [OF nz] by blast
    have n: "length t = length bs - ?i - 1" by (simp add: t_def)
    have sb: "significant_bits bs = length t * 8 + Suc j"
      using False j(1,2) n by (simp add: significant_bits_def Let_def)
    have "octets_value bs = octets_value (?z @ [bs ! ?i] @ t)" using split by simp
    also have "\<dots> = unat (bs ! ?i) * 256 ^ length t + octets_value t"
      unfolding octets_value_append zeros by (simp add: octets_value_def)
    finally have v: "octets_value bs = unat (bs ! ?i) * 256 ^ length t + octets_value t" .
    have p: "(2 :: nat) ^ (length t * 8) = 256 ^ length t" by (simp add: power_mult mult.commute [of _ 8])
    have "octets_value bs < (unat (bs ! ?i) + 1) * 256 ^ length t"
      using octets_value_bound [of t] by (simp add: v algebra_simps)
    also have "\<dots> \<le> 2 ^ Suc j * 256 ^ length t" using j(4) by (intro mult_right_mono) simp_all
    finally have "octets_value bs < 2 ^ significant_bits bs"
      by (simp add: sb power_add p mult.commute)
    moreover have "2 ^ j * 256 ^ length t \<le> octets_value bs"
      unfolding v using j(3) by (intro order_trans [OF mult_right_mono le_add1]) simp_all
    then have "2 ^ (significant_bits bs - 1) \<le> octets_value bs"
      by (simp add: sb power_add p mult.commute)
    ultimately show ?thesis by blast
  qed
qed

section \<open>What a validated public area promises\<close>

definition attr :: "tpmt_public \<Rightarrow> nat \<Rightarrow> bool" where
  "attr p n = bit (object_attributes p) n"

lemma attrs_read:
  "attr_has (object_attributes p) oa_RESTRICTED = attr p 16" "attr_has (object_attributes p) oa_DECRYPT = attr p 17"
  "attr_has (object_attributes p) oa_SIGN_ENCRYPT = attr p 18" "attr_has (object_attributes p) oa_FIXED_TPM = attr p 1"
  "attr_has (object_attributes p) oa_FIXED_PARENT = attr p 4"
  "attr_has (object_attributes p) oa_ENCRYPTED_DUPLICATION = attr p 11"
  "attr_has (object_attributes p) (oa_RESTRICTED OR oa_DECRYPT) = (attr p 16 \<and> attr p 17)"
proof -
  have "(v AND (m OR n) = m OR n) = (v AND m = m \<and> v AND n = n)" for v m n :: u32
  proof
    assume "v AND (m OR n) = m OR n"
    then have "bit (v AND (m OR n)) k = bit (m OR n) k" for k by simp
    then show "v AND m = m \<and> v AND n = n"
      by (metis (no_types, lifting) bit_and_iff bit_eq_iff bit_or_iff)
  next
    assume "v AND m = m \<and> v AND n = n"
    then show "v AND (m OR n) = m OR n" by (metis bit.conj_disj_distrib)
  qed
  then have "attr_has (object_attributes p) (oa_RESTRICTED OR oa_DECRYPT)
      = (attr_has (object_attributes p) oa_RESTRICTED \<and> attr_has (object_attributes p) oa_DECRYPT)"
    by (simp add: attr_has_def)
  then show "attr_has (object_attributes p) (oa_RESTRICTED OR oa_DECRYPT) = (attr p 16 \<and> attr p 17)"
    by (simp add: attr_def)
qed (simp_all add: attr_def)

lemma guard_simps [simp]: "guard b e = Inr u \<longleftrightarrow> b" "guard b e = Inl e' \<longleftrightarrow> \<not> b \<and> e' = e"
  by (auto simp: guard_def)

lemma if_Inl: "(if c then Inl e else m) = Inr x \<longleftrightarrow> \<not> c \<and> m = Inr x"
  by simp

lemma bind_unit: "res_bind m (\<lambda>_ :: unit. n) = Inr x \<longleftrightarrow> m = Inr () \<and> n = Inr x"
  by (cases m) auto

definition needs_scheme :: "tpmt_public \<Rightarrow> bool" where
  "needs_scheme p = (attr p 16 \<and> attr p 18 \<and> object_type p \<noteq> alg_SYMCIPHER)"

definition has_scheme :: "tpmt_public \<Rightarrow> bool" where
  "has_scheme p = (case public_scheme p of Some s \<Rightarrow> \<not> scheme_is_null s | None \<Rightarrow> False)"

definition public_rules :: "env \<Rightarrow> tpmt_public \<Rightarrow> bool" where
  "public_rules E p \<longleftrightarrow>
     \<not> (attr p 16 \<and> attr p 17 \<and> attr p 18)
     \<and> (attr p 1 \<longrightarrow> attr p 4 \<and> \<not> attr p 11)
     \<and> (needs_scheme p \<longrightarrow> has_scheme p)
     \<and> (attr p 16 \<and> attr p 17 \<longrightarrow> name_alg p \<noteq> alg_NULL)
     \<and> (auth_policy p \<noteq> [] \<longrightarrow> hash_size E (name_alg p) = Inr (length (auth_policy p)))
     \<and> check_kdf p = Inr ()"

lemma validate_public_iff: "validate_public E p = Inr () \<longleftrightarrow> public_rules E p"
proof -
  have "check_policy_size E p = Inr () \<longleftrightarrow>
      (auth_policy p \<noteq> [] \<longrightarrow> hash_size E (name_alg p) = Inr (length (auth_policy p)))"
    by (auto simp: check_policy_size_def split: sum.splits)
  moreover have "(case public_scheme p of Some s \<Rightarrow> scheme_is_null s | None \<Rightarrow> True) \<longleftrightarrow> \<not> has_scheme p"
    by (simp add: has_scheme_def split: option.split)
  ultimately show ?thesis
    unfolding validate_public_def public_rules_def needs_scheme_def Let_def attrs_read if_Inl bind_unit
    by blast
qed

text \<open>C38: a key the TPM accepts is consistent. A public area that validates is never restricted for
  both signing and decryption, is fixed to its parent when it is fixed to the TPM and then cannot
  be duplicated, names a scheme when it is a restricted signing key and a name algorithm when it
  is a parent, has a policy of its digest's size or none; and an RSA modulus that is present is a
  number of exactly \<open>keyBits\<close> bits.\<close>

theorem validated_public_consistent:
  assumes "validate_loaded_public E K p = Inr ()"
  shows "public_rules E p
    \<and> (\<forall>m q. unique p = Rsa_id m \<and> parameters p = Rsa_parms q \<and> m \<noteq> [] \<longrightarrow>
         octets_value m < 2 ^ unat (rsa_key_bits q)
         \<and> (rsa_key_bits q \<noteq> 0 \<longrightarrow> 2 ^ (unat (rsa_key_bits q) - 1) \<le> octets_value m))"
proof -
  have "validate_public E p = Inr ()"
    using assms by (auto simp: validate_loaded_public_def res_bind_eq_Inr)
  moreover have "significant_bits m = unat (rsa_key_bits q)"
    if "unique p = Rsa_id m" "parameters p = Rsa_parms q" "m \<noteq> []" for m q
    using assms that by (auto simp: validate_loaded_public_def res_bind_eq_Inr split: if_splits)
  ultimately show ?thesis
    using significant_bits_spec by (metis validate_public_iff unat_eq_0)
qed

definition demo_lib :: key_lib where
  "demo_lib = \<lparr>rsa_prime_divides = \<lambda>_ _ _. True, point_on_curve = \<lambda>_ _ _. Inr (), scalar_point = \<lambda>_ _. None\<rparr>"

definition demo_rsa :: tpmt_public where
  "demo_rsa = \<lparr>object_type = alg_RSA, name_alg = alg_SHA256, object_attributes = 0x00040012, auth_policy = [],
     parameters = Rsa_parms \<lparr>rsa_symmetric = sym_null, rsa_scheme = scheme_null, rsa_key_bits = 16, rsa_exponent = 0\<rparr>,
     unique = Rsa_id [0, 0x80, 1]\<rparr>"

theorem validated_public_consistent_witness:
  "public_rules (demo_env True) demo_rsa \<and> octets_value [0, 0x80, 1] < 2 ^ 16 \<and> 2 ^ 15 \<le> octets_value [0, 0x80, 1]"
proof -
  have p: "unique demo_rsa = Rsa_id [0, 0x80, 1]" "object_type demo_rsa = alg_RSA" "name_alg demo_rsa = alg_SHA256"
    "auth_policy demo_rsa = []" "object_attributes demo_rsa = 0x00040012"
    "parameters demo_rsa = Rsa_parms \<lparr>rsa_symmetric = sym_null, rsa_scheme = scheme_null, rsa_key_bits = 16,
       rsa_exponent = 0\<rparr>"
    by (simp_all add: demo_rsa_def)
  have "validate_public (demo_env True) demo_rsa = Inr ()"
    by (simp add: validate_public_iff public_rules_def p attr_def needs_scheme_def check_kdf_def)
  then have "validate_loaded_public (demo_env True) demo_lib demo_rsa = Inr ()"
    by (simp add: validate_loaded_public_def p significant_bits_def leading_zeros8_def)
  from validated_public_consistent [OF this] show ?thesis by (simp add: p)
qed

section \<open>The transient slots\<close>

definition objects_wf :: "object_slots \<Rightarrow> bool" where
  "objects_wf s \<longleftrightarrow> bt_wf s \<and> length s \<le> MAX_LOADED_OBJECTS \<and> list_all is_transient (bt_keys s)"

datatype object_op = Insert_slot slot | Insert_at u32 slot | Modify_slot u32 "slot \<Rightarrow> slot" | Remove_slot u32
  | Flush_hierarchy u32 | Flush_st_clear | Clear_slots

fun object_step :: "object_op \<Rightarrow> object_slots \<Rightarrow> object_slots" where
  "object_step (Insert_slot x) s = snd (objects_insert x s)"
| "object_step (Insert_at h x) s = snd (objects_insert_at h x s)"
| "object_step (Modify_slot h f) s = snd (objects_modify h f s)"
| "object_step (Remove_slot h) s = snd (objects_remove h s)"
| "object_step (Flush_hierarchy h) s = flush_hierarchy h s"
| "object_step Flush_st_clear s = flush_st_clear s"
| "object_step Clear_slots s = objects_clear s"

lemma first_free_Some:
  "first_free s is = Some h \<Longrightarrow> \<exists>as i bs. is = as @ i # bs \<and> h = hc_TRANSIENT_FIRST + i \<and> bt_get s h = None
     \<and> list_all (\<lambda>j. bt_contains s (hc_TRANSIENT_FIRST + j)) as"
proof (induction s "is" rule: first_free.induct)
  case (2 s i "is")
  show ?case
  proof (cases "bt_contains s (hc_TRANSIENT_FIRST + i)")
    case True
    with 2 obtain as j bs where "is = as @ j # bs" "h = hc_TRANSIENT_FIRST + j" "bt_get s h = None"
      "list_all (\<lambda>j. bt_contains s (hc_TRANSIENT_FIRST + j)) as"
      by auto
    with True show ?thesis by (intro exI [of _ "i # as"] exI [of _ j] exI [of _ bs]) simp
  next
    case False
    with 2 show ?thesis by (intro exI [of _ "[]"] exI [of _ i] exI [of _ "is"]) (simp add: bt_contains_def)
  qed
qed simp

lemma first_free_None:
  "first_free s is = None \<longleftrightarrow> list_all (\<lambda>j. bt_contains s (hc_TRANSIENT_FIRST + j)) is"
  by (induction s "is" rule: first_free.induct) (auto simp: Let_def)

abbreviation (input) slot_indices :: "u32 list" where "slot_indices \<equiv> map of_nat [0..<MAX_LOADED_OBJECTS]"

lemma slot_index_inj: "inj_on (\<lambda>i. hc_TRANSIENT_FIRST + (of_nat i :: u32)) {0..<MAX_LOADED_OBJECTS}"
proof (rule inj_onI)
  fix i j assume ij: "i \<in> {0..<MAX_LOADED_OBJECTS}" "j \<in> {0..<MAX_LOADED_OBJECTS}"
    "hc_TRANSIENT_FIRST + (of_nat i :: u32) = hc_TRANSIENT_FIRST + of_nat j"
  then have "unat (of_nat i :: u32) = unat (of_nat j :: u32)" by simp
  moreover have "unat (of_nat k :: u32) = k" if "k < MAX_LOADED_OBJECTS" for k
    using that by (simp add: MAX_LOADED_OBJECTS_def unat_of_nat)
  ultimately show "i = j" using ij(1,2) by simp
qed

lemma insert_total:
  assumes "bt_wf s" and "length s < MAX_LOADED_OBJECTS"
  shows "first_free s slot_indices \<noteq> None"
proof
  let ?f = "\<lambda>i. hc_TRANSIENT_FIRST + (of_nat i :: u32)"
  assume "first_free s slot_indices = None"
  then have "?f ` {0..<MAX_LOADED_OBJECTS} \<subseteq> set (bt_keys s)"
    by (auto simp: first_free_None list_all_iff bt_contains_def)
  then have "card (?f ` {0..<MAX_LOADED_OBJECTS}) \<le> card (set (bt_keys s))" by (rule card_mono [rotated]) simp
  also have "\<dots> \<le> length s" using card_length [of "bt_keys s"] by (simp add: bt_keys_def)
  finally show False using assms(2) by (simp add: card_image [OF slot_index_inj])
qed

lemma slot_index_transient: "i < MAX_LOADED_OBJECTS \<Longrightarrow> is_transient (hc_TRANSIENT_FIRST + of_nat i)"
proof -
  assume i: "i < MAX_LOADED_OBJECTS"
  then have "unat (of_nat i :: u32) = i" by (simp add: MAX_LOADED_OBJECTS_def unat_of_nat)
  moreover have "unat (hc_TRANSIENT_FIRST + of_nat i :: u32) = unat (hc_TRANSIENT_FIRST :: u32) + unat (of_nat i :: u32)"
    using i calculation by (intro unat_add_lem [THEN iffD1]) (simp add: MAX_LOADED_OBJECTS_def)
  ultimately show ?thesis using i by (simp add: is_transient_def word_le_nat_alt MAX_LOADED_OBJECTS_def)
qed

lemma objects_insert_cases:
  assumes "objects_wf s"
  shows "case objects_insert x s of
      (Inr h, t) \<Rightarrow> length s < MAX_LOADED_OBJECTS \<and> is_transient h \<and> bt_get s h = None
        \<and> t = bt_insert h x s
        \<and> (\<exists>i < MAX_LOADED_OBJECTS. h = hc_TRANSIENT_FIRST + of_nat i
             \<and> (\<forall>j < i. bt_get s (hc_TRANSIENT_FIRST + of_nat j) \<noteq> None))
    | (Inl e, t) \<Rightarrow> t = s \<and> e = rc_OBJECT_MEMORY \<and> length s = MAX_LOADED_OBJECTS"
proof (cases "length s < MAX_LOADED_OBJECTS")
  case False
  then show ?thesis using assms by (simp add: objects_insert_def objects_wf_def)
next
  case True
  have wf: "bt_wf s" using assms by (simp add: objects_wf_def)
  then obtain h where h: "first_free s slot_indices = Some h" using insert_total [OF _ True] by blast
  from first_free_Some [OF h] obtain as i bs where
    split: "slot_indices = as @ i # bs" and i: "h = hc_TRANSIENT_FIRST + i" "bt_get s h = None"
    and as: "list_all (\<lambda>j. bt_contains s (hc_TRANSIENT_FIRST + j)) as"
    by blast
  let ?n = "length as"
  have n: "?n < MAX_LOADED_OBJECTS" using arg_cong [OF split, of length] by simp
  have nth: "slot_indices ! k = of_nat k" if "k < MAX_LOADED_OBJECTS" for k using that by simp
  have "i = of_nat ?n" using nth [OF n] by (simp add: split)
  moreover have "as ! j = of_nat j" if "j < ?n" for j
    using nth [of j] n that by (simp add: split nth_append)
  ultimately show ?thesis
    using True h i as n slot_index_transient [OF n]
    by (auto simp: objects_insert_def list_all_length bt_contains_def intro!: exI [of _ ?n])
qed

lemma object_step_wf: "objects_wf s \<Longrightarrow> objects_wf (object_step op s)"
proof -
  assume wf: "objects_wf s"
  have ins: "objects_wf (bt_insert h x s)" if "is_transient h" "bt_get s h = None" "length s < MAX_LOADED_OBJECTS" for h x
    using wf that by (auto simp: objects_wf_def length_bt_insert bt_contains_def list_all_iff)
  have ret: "objects_wf (bt_retain P s)" for P
    using wf le_trans [OF length_filter_le]
    by (auto simp: objects_wf_def list_all_iff bt_retain_def bt_wf_filter bt_keys_def)
  show ?thesis
  proof (cases op)
    case (Insert_slot x)
    then show ?thesis using objects_insert_cases [OF wf, of x] wf ins
      by (auto split: prod.splits sum.splits)
  next
    case (Insert_at h x)
    then show ?thesis using wf ins [of h x] by (simp add: objects_insert_at_def bt_contains_def)
  next
    case (Modify_slot h f)
    then show ?thesis using wf
      by (auto simp: objects_modify_def objects_wf_def split: option.splits)
  next
    case (Remove_slot h)
    then show ?thesis using wf le_trans [OF length_filter_le]
      by (auto simp: objects_remove_def objects_wf_def list_all_iff bt_remove_def bt_wf_filter bt_keys_def split: option.splits)
  next
    case (Flush_hierarchy h)
    then show ?thesis using ret by (simp add: flush_hierarchy_def Let_def)
  next
    case Flush_st_clear
    then show ?thesis using ret by (simp add: flush_st_clear_def)
  next
    case Clear_slots
    then show ?thesis by (simp add: objects_clear_def objects_wf_def bt_wf_def bt_keys_def)
  qed
qed

interpretation object_run: invariant_steps object_step objects_wf
  by unfold_locales (rule object_step_wf)

lemma objects_new_wf: "objects_wf objects_new"
  by (simp add: objects_wf_def objects_new_def bt_wf_def bt_keys_def)

text \<open>Loading an object never fails for want of a handle. After any sequence of operations on the
  slots every handle is transient and at most 32 are in use, so the count of free slots cannot go
  below zero; a new object gets the lowest handle that is free and changes no other, and is
  refused, with nothing changed, just when all 32 are taken.\<close>

theorem object_slots_exact:
  "let s = run_steps object_step ops objects_new in
   length s \<le> 32 \<and> list_all is_transient (bt_keys s)
   \<and> (case objects_insert x s of
        (Inr h, t) \<Rightarrow> length s < 32 \<and> bt_get s h = None \<and> bt_get t = (bt_get s)(h \<mapsto> x)
          \<and> (\<exists>i < 32. h = hc_TRANSIENT_FIRST + of_nat i
               \<and> (\<lambda>j. hc_TRANSIENT_FIRST + of_nat j) ` {..<i} \<subseteq> set (bt_keys s))
      | (Inl e, t) \<Rightarrow> t = s \<and> e = rc_OBJECT_MEMORY \<and> length s = 32)"
proof -
  define s where "s = run_steps object_step ops objects_new"
  have wf: "objects_wf s" unfolding s_def by (rule object_run.run_inv) (rule objects_new_wf)
  then show ?thesis
    using objects_insert_cases [OF wf, of x] unfolding Let_def s_def [symmetric]
    by (auto simp: objects_wf_def MAX_LOADED_OBJECTS_def fun_eq_iff split: prod.splits sum.splits)
qed

end
