(* ===== verification/Clock.thy ===== *)
theory Clock
  imports Session
begin

text \<open>
  Clock, Time and the reset counters (\<open>ClockState\<close> of \<open>src/tpm/core/state.rs\<close>), the crediting of
  host milliseconds at an adjusted rate, and the commands that set the clock and its rate
  (\<open>src/tpm/commands/management.rs\<close>). The signed fields \<open>rate_adjust\<close> (32 bits) and
  \<open>rate_remainder\<close> (64 bits) are integers, with the saturation of the code written out.
\<close>

definition NV_CLOCK_UPDATE_INTERVAL :: u32 where "NV_CLOCK_UPDATE_INTERVAL = push_bit 17 1"

record clock_state =
  clock :: u64
  time :: u64
  reset_count :: u32
  restart_count :: u32
  clear_count :: u32
  clk_reset_value :: bytes
  safe :: bool
  rate_adjust :: int
  rate_remainder :: int
  total_reset_count :: u32
  clk_epoch :: u64
  nv_elapsed :: u64

definition clock_default :: clock_state where
  "clock_default = \<lparr>clock = 0, time = 0, reset_count = 0, restart_count = 0, clear_count = 0, clk_reset_value = [],
     safe = False, rate_adjust = 0, rate_remainder = 0, total_reset_count = 0, clk_epoch = 0, nv_elapsed = 0\<rparr>"

definition clock_put :: "clock_state \<Rightarrow> writer \<Rightarrow> writer" where
  "clock_put c w =
     w_u64 (clk_epoch c) (w_u32 (total_reset_count c) (w_bool (safe c) (sized16 (clk_reset_value c)
       (w_u32 (clear_count c) (w_u32 (restart_count c) (w_u32 (reset_count c) (w_u64 (clock c) w)))))))"

definition clock_read :: "bool \<Rightarrow> bool \<Rightarrow> reader \<Rightarrow> (clock_state \<times> reader) tpm_result" where
  "clock_read has_clear_count has_reset_value r =
     res_bind (r_u64 r) (\<lambda>(clk, r).
     res_bind (r_u32 r) (\<lambda>(resets, r).
     res_bind (r_u32 r) (\<lambda>(restarts, r).
     res_bind (if has_clear_count then r_u32 r else Inr (0, r)) (\<lambda>(clears, r).
     res_bind (if has_reset_value then res_bind (r_u16 r) (\<lambda>(n, r). r_take (unat n) r) else Inr ([], r)) (\<lambda>(v, r).
     res_bind (r_u8 r) (\<lambda>(s, r).
     res_bind (r_u32 r) (\<lambda>(total, r).
     res_bind (r_u64 r) (\<lambda>(epoch, r).
       Inr (\<lparr>clock = clk, time = 0, reset_count = resets, restart_count = restarts, clear_count = clears,
             clk_reset_value = v, safe = (s \<noteq> 0), rate_adjust = 0, rate_remainder = 0, total_reset_count = total,
             clk_epoch = epoch, nv_elapsed = 0\<rparr>, r)))))))))"

definition clock_get :: "reader \<Rightarrow> (clock_state \<times> reader) tpm_result" where
  "clock_get = clock_read True True"

section \<open>Crediting host time\<close>

text \<open>Saturation at the bounds of a signed 64-bit integer.\<close>

definition sat64 :: "int \<Rightarrow> int" where
  "sat64 x = max (- (2 ^ 63)) (min (2 ^ 63 - 1) x)"

text \<open>
  The first half of \<open>advance_time\<close>: how many milliseconds of its own time the TPM credits for
  \<open>millis\<close> of the host's. \<open>millis as i64\<close> reads the 64 bits as a signed number.
\<close>

definition scaled_millis :: "u64 \<Rightarrow> clock_state \<Rightarrow> u64 \<times> clock_state" where
  "scaled_millis millis c =
     (let scaled = sat64 (sat64 (sint millis * (1000 + rate_adjust c)) + rate_remainder c)
      in (of_int (max 0 (scaled div 1000)), c\<lparr>rate_remainder := scaled mod 1000\<rparr>))"

text \<open>The clock's part of the second half, and whether the copy in NV is due.\<close>

definition credit :: "u64 \<Rightarrow> clock_state \<Rightarrow> clock_state" where
  "credit millis c = c\<lparr>clock := saturating_add (clock c) millis, time := saturating_add (time c) millis\<rparr>"

definition nv_due :: "u64 \<Rightarrow> clock_state \<Rightarrow> bool \<times> clock_state" where
  "nv_due millis c =
     (let c = c\<lparr>nv_elapsed := saturating_add (nv_elapsed c) millis\<rparr>
      in if ucast NV_CLOCK_UPDATE_INTERVAL \<le> nv_elapsed c then (True, c\<lparr>nv_elapsed := 0, safe := True\<rparr>)
         else (False, c))"

definition clock_step :: "u64 \<Rightarrow> clock_state \<Rightarrow> bool \<times> clock_state" where
  "clock_step millis c =
     (if millis = 0 then (False, c)
      else (let (millis, c) = scaled_millis millis c
            in if millis = 0 then (False, c) else nv_due millis (credit millis c)))"

section \<open>Setting the clock and its rate\<close>

definition MAX_CLOCK :: u64 where "MAX_CLOCK = 0xFFFF000000000000"

text \<open>A command reads its parameters and answers with the octets of its response.\<close>

definition read_all :: "(reader \<Rightarrow> ('a \<times> reader) tpm_result) \<Rightarrow> bytes \<Rightarrow> 'a tpm_result" where
  "read_all get parms =
     res_bind (map_err (\<lambda>e. with_parameter 1 e) (get (reader_new parms))) (\<lambda>(v, r).
     res_bind (expect_end r) (\<lambda>_. Inr v))"

definition clock_set :: "bytes \<Rightarrow> (clock_state, bytes) st_op" where
  "clock_set parms c =
     (case read_all r_u64 parms of
        Inl e \<Rightarrow> (Inl e, c)
      | Inr new_time \<Rightarrow>
          if new_time < clock c \<or> MAX_CLOCK < new_time then (Inl (with_parameter 1 rc_VALUE), c)
          else (let jump = new_time - clock c;
                    c = c\<lparr>clock := new_time\<rparr>
                in (Inr [], snd (nv_due jump c))))"

definition r_i8 :: "reader \<Rightarrow> (int \<times> reader) tpm_result" where
  "r_i8 r = res_bind (r_u8 r) (\<lambda>(v, r). Inr (sint v, r))"

definition rate_step :: "int \<Rightarrow> int option" where
  "rate_step a =
     (if a = -3 then Some (-10) else if a = -2 then Some (-5) else if a = -1 then Some (-1)
      else if a = 0 then Some 0 else if a = 1 then Some 1 else if a = 2 then Some 5
      else if a = 3 then Some 10 else None)"

definition clock_rate_adjust :: "bytes \<Rightarrow> (clock_state, bytes) st_op" where
  "clock_rate_adjust parms c =
     (case read_all r_i8 parms of
        Inl e \<Rightarrow> (Inl e, c)
      | Inr adjust \<Rightarrow>
          (case rate_step adjust of
             None \<Rightarrow> (Inl (with_parameter 1 rc_VALUE), c)
           | Some step \<Rightarrow>
               let adjusted = rate_adjust c + step
               in if \<not> (-100 \<le> adjusted \<and> adjusted \<le> 100) then (Inl (with_parameter 1 rc_VALUE), c)
                  else (Inr [], c\<lparr>rate_adjust := adjusted\<rparr>)))"

section \<open>What the clock keeps\<close>

definition clock_wf :: "clock_state \<Rightarrow> bool" where
  "clock_wf c \<longleftrightarrow> -100 \<le> rate_adjust c \<and> rate_adjust c \<le> 100 \<and> 0 \<le> rate_remainder c \<and> rate_remainder c < 1000"

lemma nv_due_fields [simp]:
  "clock (snd (nv_due m c)) = clock c" "time (snd (nv_due m c)) = time c"
  "rate_adjust (snd (nv_due m c)) = rate_adjust c" "rate_remainder (snd (nv_due m c)) = rate_remainder c"
  by (simp_all add: nv_due_def Let_def)

lemma scaled_fields [simp]:
  "clock (snd (scaled_millis m c)) = clock c" "time (snd (scaled_millis m c)) = time c"
  "rate_adjust (snd (scaled_millis m c)) = rate_adjust c"
  "0 \<le> rate_remainder (snd (scaled_millis m c))" "rate_remainder (snd (scaled_millis m c)) < 1000"
  by (simp_all add: scaled_millis_def Let_def)

lemma clock_step_fields:
  "rate_adjust (snd (clock_step m c)) = rate_adjust c"
  "clock_wf c \<Longrightarrow> clock_wf (snd (clock_step m c))"
  "clock c \<le> clock (snd (clock_step m c))"
  using scaled_fields [of m c]
  by (cases "scaled_millis m c"; auto simp: clock_step_def clock_wf_def credit_def saturating_add_ge)+

datatype clock_op = Pass u64 | Clock_set bytes | Rate_adjust bytes

fun clock_op_step :: "clock_op \<Rightarrow> clock_state \<Rightarrow> clock_state" where
  "clock_op_step (Pass m) c = snd (clock_step m c)"
| "clock_op_step (Clock_set b) c = snd (clock_set b c)"
| "clock_op_step (Rate_adjust b) c = snd (clock_rate_adjust b c)"

lemma clock_set_clock: "clock c \<le> clock (snd (clock_set b c))" "clock_wf c \<Longrightarrow> clock_wf (snd (clock_set b c))"
  by (auto simp: clock_set_def clock_wf_def Let_def split: sum.splits)

lemma clock_rate_adjust_keeps:
  "clock (snd (clock_rate_adjust b c)) = clock c" "clock_wf c \<Longrightarrow> clock_wf (snd (clock_rate_adjust b c))"
  by (auto simp: clock_rate_adjust_def clock_wf_def Let_def split: sum.splits option.splits)

interpretation clock_run: monotone_steps clock_op_step clock_wf "\<lambda>c. unat (clock c)"
proof
  show "clock_wf (clock_op_step op c)" if "clock_wf c" for op c
    using that by (cases op) (simp_all add: clock_step_fields clock_set_clock clock_rate_adjust_keeps)
  show "unat (clock c) \<le> unat (clock (clock_op_step op c))" for op c
    by (cases op) (simp_all add: clock_step_fields clock_set_clock clock_rate_adjust_keeps flip: word_le_nat_alt)
qed

text \<open>Clock never runs backwards and its rate stays within ten percent. Over any run of time passing,
  TPM2_ClockSet and TPM2_ClockRateAdjust with any parameters, a later Clock is not below an
  earlier one; TPM2_ClockSet to a time succeeds just when the time is not in the past and not
  above the maximum, and then Clock is that time.\<close>

theorem clock_only_forward:
  assumes "clock_wf c"
  shows "let d = run_steps clock_op_step ops c; e = run_steps clock_op_step (ops @ ops') c
    in clock d \<le> clock e \<and> \<bar>rate_adjust e\<bar> \<le> 100
     \<and> (case clock_set (to_be 8 t) e of
          (Inr _, f) \<Rightarrow> clock e \<le> t \<and> t \<le> MAX_CLOCK \<and> clock f = t
        | (Inl r, f) \<Rightarrow> f = e \<and> r = with_parameter 1 rc_VALUE \<and> (t < clock e \<or> MAX_CLOCK < t))"
proof -
  let ?e = "run_steps clock_op_step (ops @ ops') c"
  have "clock_wf ?e" using assms by (rule clock_run.run_inv)
  moreover have "clock (run_steps clock_op_step ops c) \<le> clock ?e"
    using clock_run.run_prefix_mono [OF assms] by (simp add: word_le_nat_alt)
  moreover have "read_all r_u64 (to_be 8 t) = Inr t"
  proof -
    have "rest (reader_new (to_be 8 t)) = to_be 8 t @ []" by (simp add: reader_new_def rest_def del: to_be.simps)
    then have "r_u64 (reader_new (to_be 8 t)) = Inr (t, advance 8 (reader_new (to_be 8 t)))" by (rule r_u64_append)
    then show ?thesis
      by (simp add: read_all_def expect_end_def remaining_def del: to_be.simps)
         (simp add: reader_new_def advance_def del: to_be.simps)
  qed
  ultimately show ?thesis
    by (auto simp: Let_def clock_wf_def clock_set_def split: if_splits)
qed

theorem clock_only_forward_witness:
  "clock (run_steps clock_op_step [Pass 1000, Clock_set (to_be 8 500)] clock_default) \<ge> clock (run_steps clock_op_step [Pass 1000] clock_default)"
proof -
  have "clock_wf clock_default" by (simp add: clock_wf_def clock_default_def)
  from clock_only_forward [OF this, of "[Pass 1000]" "[Clock_set (to_be 8 500)]" 0] show ?thesis
    unfolding Let_def append_Cons append_Nil by (rule conjunct1)
qed

section \<open>No drift\<close>

text \<open>Host time in units of a thousandth of a TPM millisecond, at a rate of \<open>1000 + r\<close> for each.\<close>

definition host_units :: "int \<Rightarrow> u64 list \<Rightarrow> int" where
  "host_units r mss = (1000 + r) * int (sum_list (map unat mss))"

lemma scaled_exact:
  assumes "clock_wf c" and "rate_remainder c + (1000 + rate_adjust c) * int (unat m) < 2 ^ 63"
  defines "u \<equiv> rate_remainder c + (1000 + rate_adjust c) * int (unat m)"
  shows "int (unat (fst (scaled_millis m c))) = u div 1000" and "rate_remainder (snd (scaled_millis m c)) = u mod 1000"
    and "0 \<le> u"
proof -
  have r: "900 \<le> 1000 + rate_adjust c" "0 \<le> rate_remainder c" using assms(1) by (simp_all add: clock_wf_def)
  then have "900 * int (unat m) \<le> (1000 + rate_adjust c) * int (unat m)" by (intro mult_right_mono) simp_all
  then have m: "int (unat m) < 2 ^ 63" and nn: "0 \<le> (1000 + rate_adjust c) * int (unat m)"
    using assms(2) r by linarith+
  then show u: "0 \<le> u" using r(2) by (simp add: u_def)
  have "sint m = int (unat m)"
  proof -
    have "- (2 ^ 63) \<le> uint m" by (rule order_trans [of _ 0]) simp_all
    with m show ?thesis by (simp add: sint_uint signed_take_bit_int_eq_self)
  qed
  then have "sat64 (sat64 (sint m * (1000 + rate_adjust c)) + rate_remainder c) = u"
    using assms(2) nn u r(2) by (simp add: sat64_def u_def algebra_simps)
  then show "rate_remainder (snd (scaled_millis m c)) = u mod 1000"
    and "int (unat (fst (scaled_millis m c))) = u div 1000"
  proof -
    assume *: "sat64 (sat64 (sint m * (1000 + rate_adjust c)) + rate_remainder c) = u"
    show "rate_remainder (snd (scaled_millis m c)) = u mod 1000" by (simp add: scaled_millis_def Let_def *)
    have "0 \<le> u div 1000" "u div 1000 < 2 ^ 64" using u assms(2) by (simp_all add: u_def)
    then show "int (unat (fst (scaled_millis m c))) = u div 1000"
      by (simp add: scaled_millis_def Let_def * unsigned_of_int take_bit_int_eq_self)
  qed
qed

lemma clock_step_exact:
  assumes "clock_wf c" and "rate_remainder c + (1000 + rate_adjust c) * int (unat m) < 2 ^ 63"
    and "unat (clock c) + nat ((rate_remainder c + (1000 + rate_adjust c) * int (unat m)) div 1000) < 2 ^ 64"
    and "unat (time c) + nat ((rate_remainder c + (1000 + rate_adjust c) * int (unat m)) div 1000) < 2 ^ 64"
  defines "u \<equiv> rate_remainder c + (1000 + rate_adjust c) * int (unat m)"
  shows "int (unat (clock (snd (clock_step m c)))) = int (unat (clock c)) + u div 1000
    \<and> int (unat (time (snd (clock_step m c)))) = int (unat (time c)) + u div 1000
    \<and> rate_remainder (snd (clock_step m c)) = u mod 1000"
proof (cases "m = 0")
  case True
  then show ?thesis using assms(1) by (simp add: clock_step_def u_def clock_wf_def)
next
  case False
  note e = scaled_exact [OF assms(1,2), folded u_def]
  have n: "unat (fst (scaled_millis m c)) = nat (u div 1000)" using e(1) by linarith
  show ?thesis
  proof (cases "fst (scaled_millis m c) = 0")
    case True
    then have "u div 1000 = 0" using e(1) by simp
    then show ?thesis using True False e(2) scaled_fields(1,2) [of m c]
      by (cases "scaled_millis m c") (simp add: clock_step_def)
  next
    case nz: False
    have "unat (saturating_add (clock c) (fst (scaled_millis m c))) = unat (clock c) + nat (u div 1000)"
      "unat (saturating_add (time c) (fst (scaled_millis m c))) = unat (time c) + nat (u div 1000)"
      using assms(3,4) by (simp_all add: unat_saturating_add n u_def)
    moreover have "0 \<le> u div 1000" using e(3) by (simp add: pos_imp_zdiv_nonneg_iff)
    ultimately show ?thesis using False nz e(2) scaled_fields(1,2) [of m c]
      by (cases "scaled_millis m c") (simp add: clock_step_def credit_def)
  qed
qed

text \<open>The TPM's time has no drift. However host time is cut into commands, the milliseconds
  credited to Clock and Time are the exact product of the whole host time and the rate, rounded
  down once, and what was rounded off is kept for the next command.\<close>

theorem clock_credits_exactly:
  assumes "clock_wf c" and "rate_remainder c + host_units (rate_adjust c) mss < 2 ^ 63"
    and "unat (clock c) + nat ((rate_remainder c + host_units (rate_adjust c) mss) div 1000) < 2 ^ 64"
    and "unat (time c) + nat ((rate_remainder c + host_units (rate_adjust c) mss) div 1000) < 2 ^ 64"
  shows "let d = run_steps clock_op_step (map Pass mss) c; u = rate_remainder c + host_units (rate_adjust c) mss
    in int (unat (clock d)) = int (unat (clock c)) + u div 1000
     \<and> int (unat (time d)) = int (unat (time c)) + u div 1000 \<and> rate_remainder d = u mod 1000"
  using assms
proof (induction mss arbitrary: c)
  case Nil
  then show ?case by (simp add: host_units_def clock_wf_def Let_def)
next
  case (Cons m mss)
  let ?r = "rate_adjust c" and ?d = "snd (clock_step m c)"
  let ?v = "rate_remainder c + (1000 + ?r) * int (unat m)" and ?h = "host_units ?r mss"
  have r: "0 \<le> 1000 + ?r" "0 \<le> rate_remainder c" using Cons.prems(1) by (simp_all add: clock_wf_def)
  then have h: "0 \<le> ?h" and v: "0 \<le> ?v" by (simp_all add: host_units_def)
  have u: "rate_remainder c + host_units ?r (m # mss) = ?v + ?h"
    by (simp add: host_units_def algebra_simps)
  have le: "?v div 1000 \<le> (?v + ?h) div 1000" using h by (intro zdiv_mono1) simp_all
  have step: "int (unat (clock ?d)) = int (unat (clock c)) + ?v div 1000"
    "int (unat (time ?d)) = int (unat (time c)) + ?v div 1000" "rate_remainder ?d = ?v mod 1000"
    using clock_step_exact [OF Cons.prems(1), of m] Cons.prems(2-4) u h le by simp_all
  have carry: "(?v + ?h) div 1000 = ?v div 1000 + (?v mod 1000 + ?h) div 1000"
    "(?v mod 1000 + ?h) mod 1000 = (?v + ?h) mod 1000"
    by (rule div_carry) (simp_all add: mod_add_left_eq)
  have d: "rate_adjust ?d = ?r" "clock_wf ?d" using Cons.prems(1) by (simp_all add: clock_step_fields)
  have "?v mod 1000 \<le> ?v" using v by (simp add: zmod_le_nonneg_dividend)
  then have "rate_remainder ?d + host_units (rate_adjust ?d) mss < 2 ^ 63"
    using Cons.prems(2) u step(3) d(1) by simp
  then have rem: "rate_remainder ?d + host_units (rate_adjust ?d) mss < 2 ^ 63" .
  have nn: "0 \<le> ?v div 1000" "0 \<le> (?v mod 1000 + ?h) div 1000"
    using v h by (simp_all add: pos_imp_zdiv_nonneg_iff)
  have sum: "nat ((rate_remainder c + host_units ?r (m # mss)) div 1000)
      = nat (?v div 1000) + nat ((?v mod 1000 + ?h) div 1000)"
    unfolding u carry(1) using nn by (rule nat_add_distrib)
  have now: "unat (clock ?d) = unat (clock c) + nat (?v div 1000)" "unat (time ?d) = unat (time c) + nat (?v div 1000)"
    using step(1,2) nn(1) by linarith+
  have bounds: "unat (clock ?d) + nat ((?v mod 1000 + ?h) div 1000) < 2 ^ 64"
    "unat (time ?d) + nat ((?v mod 1000 + ?h) div 1000) < 2 ^ 64"
    unfolding now using Cons.prems(3,4) unfolding sum by (simp_all only: add.assoc)
  note Cons.IH [OF d(2), unfolded d(1) step(3), OF rem [unfolded d(1) step(3)] bounds]
  moreover have "run_steps clock_op_step (map Pass (m # mss)) c = run_steps clock_op_step (map Pass mss) ?d" by simp
  ultimately show ?case unfolding Let_def u carry(1) step(1,2) carry(2) by (simp only: add.assoc)
qed

theorem clock_credits_exactly_witness:
  "let d = run_steps clock_op_step (map Pass [999, 999]) (clock_default\<lparr>rate_adjust := 1\<rparr>)
   in int (unat (clock d)) = 1999 \<and> rate_remainder d = 998"
proof -
  let ?c = "clock_default\<lparr>rate_adjust := 1\<rparr>"
  have c: "clock_wf ?c" "clock ?c = 0" "time ?c = 0" "rate_remainder ?c = 0" "rate_adjust ?c = 1"
    by (simp_all add: clock_wf_def clock_default_def)
  have h: "host_units 1 [999, 999] = 1999998" by (simp add: host_units_def)
  from clock_credits_exactly [OF c(1), of "[999, 999]"] show ?thesis
    unfolding c(2-5) h by (simp add: Let_def del: list.map)
qed

end
