(* ===== verification/Commands.thy ===== *)
theory Commands
  imports Session NvCore Hierarchy
begin

text \<open>
  The command tables: what the dispatcher knows of every command (\<open>src/tpm/commands/table.rs\<close>) and the
  interface type and role of every handle (\<open>src/tpm/commands/handles.rs\<close>). The tables are the code's, row by
  row and in its order; command codes are those of \<open>constants.rs\<close>.
\<close>

abbreviation (input) cc_NV_UndefineSpaceSpecial :: u32 where "cc_NV_UndefineSpaceSpecial \<equiv> 0x11F"
abbreviation (input) cc_EvictControl :: u32 where "cc_EvictControl \<equiv> 0x120"
abbreviation (input) cc_HierarchyControl :: u32 where "cc_HierarchyControl \<equiv> 0x121"
abbreviation (input) cc_NV_UndefineSpace :: u32 where "cc_NV_UndefineSpace \<equiv> 0x122"
abbreviation (input) cc_ChangeEPS :: u32 where "cc_ChangeEPS \<equiv> 0x124"
abbreviation (input) cc_ChangePPS :: u32 where "cc_ChangePPS \<equiv> 0x125"
abbreviation (input) cc_Clear :: u32 where "cc_Clear \<equiv> 0x126"
abbreviation (input) cc_ClearControl :: u32 where "cc_ClearControl \<equiv> 0x127"
abbreviation (input) cc_ClockSet :: u32 where "cc_ClockSet \<equiv> 0x128"
abbreviation (input) cc_HierarchyChangeAuth :: u32 where "cc_HierarchyChangeAuth \<equiv> 0x129"
abbreviation (input) cc_NV_DefineSpace :: u32 where "cc_NV_DefineSpace \<equiv> 0x12A"
abbreviation (input) cc_PCR_Allocate :: u32 where "cc_PCR_Allocate \<equiv> 0x12B"
abbreviation (input) cc_PCR_SetAuthPolicy :: u32 where "cc_PCR_SetAuthPolicy \<equiv> 0x12C"
abbreviation (input) cc_PP_Commands :: u32 where "cc_PP_Commands \<equiv> 0x12D"
abbreviation (input) cc_SetPrimaryPolicy :: u32 where "cc_SetPrimaryPolicy \<equiv> 0x12E"
abbreviation (input) cc_FieldUpgradeStart :: u32 where "cc_FieldUpgradeStart \<equiv> 0x12F"
abbreviation (input) cc_ClockRateAdjust :: u32 where "cc_ClockRateAdjust \<equiv> 0x130"
abbreviation (input) cc_CreatePrimary :: u32 where "cc_CreatePrimary \<equiv> 0x131"
abbreviation (input) cc_NV_GlobalWriteLock :: u32 where "cc_NV_GlobalWriteLock \<equiv> 0x132"
abbreviation (input) cc_GetCommandAuditDigest :: u32 where "cc_GetCommandAuditDigest \<equiv> 0x133"
abbreviation (input) cc_NV_Increment :: u32 where "cc_NV_Increment \<equiv> 0x134"
abbreviation (input) cc_NV_SetBits :: u32 where "cc_NV_SetBits \<equiv> 0x135"
abbreviation (input) cc_NV_Extend :: u32 where "cc_NV_Extend \<equiv> 0x136"
abbreviation (input) cc_NV_Write :: u32 where "cc_NV_Write \<equiv> 0x137"
abbreviation (input) cc_NV_WriteLock :: u32 where "cc_NV_WriteLock \<equiv> 0x138"
abbreviation (input) cc_DictionaryAttackLockReset :: u32 where "cc_DictionaryAttackLockReset \<equiv> 0x139"
abbreviation (input) cc_DictionaryAttackParameters :: u32 where "cc_DictionaryAttackParameters \<equiv> 0x13A"
abbreviation (input) cc_NV_ChangeAuth :: u32 where "cc_NV_ChangeAuth \<equiv> 0x13B"
abbreviation (input) cc_PCR_Event :: u32 where "cc_PCR_Event \<equiv> 0x13C"
abbreviation (input) cc_PCR_Reset :: u32 where "cc_PCR_Reset \<equiv> 0x13D"
abbreviation (input) cc_SequenceComplete :: u32 where "cc_SequenceComplete \<equiv> 0x13E"
abbreviation (input) cc_SetAlgorithmSet :: u32 where "cc_SetAlgorithmSet \<equiv> 0x13F"
abbreviation (input) cc_SetCommandCodeAuditStatus :: u32 where "cc_SetCommandCodeAuditStatus \<equiv> 0x140"
abbreviation (input) cc_FieldUpgradeData :: u32 where "cc_FieldUpgradeData \<equiv> 0x141"
abbreviation (input) cc_IncrementalSelfTest :: u32 where "cc_IncrementalSelfTest \<equiv> 0x142"
abbreviation (input) cc_SelfTest :: u32 where "cc_SelfTest \<equiv> 0x143"
abbreviation (input) cc_Startup :: u32 where "cc_Startup \<equiv> 0x144"
abbreviation (input) cc_Shutdown :: u32 where "cc_Shutdown \<equiv> 0x145"
abbreviation (input) cc_StirRandom :: u32 where "cc_StirRandom \<equiv> 0x146"
abbreviation (input) cc_ActivateCredential :: u32 where "cc_ActivateCredential \<equiv> 0x147"
abbreviation (input) cc_Certify :: u32 where "cc_Certify \<equiv> 0x148"
abbreviation (input) cc_PolicyNV :: u32 where "cc_PolicyNV \<equiv> 0x149"
abbreviation (input) cc_CertifyCreation :: u32 where "cc_CertifyCreation \<equiv> 0x14A"
abbreviation (input) cc_Duplicate :: u32 where "cc_Duplicate \<equiv> 0x14B"
abbreviation (input) cc_GetTime :: u32 where "cc_GetTime \<equiv> 0x14C"
abbreviation (input) cc_GetSessionAuditDigest :: u32 where "cc_GetSessionAuditDigest \<equiv> 0x14D"
abbreviation (input) cc_NV_Read :: u32 where "cc_NV_Read \<equiv> 0x14E"
abbreviation (input) cc_NV_ReadLock :: u32 where "cc_NV_ReadLock \<equiv> 0x14F"
abbreviation (input) cc_ObjectChangeAuth :: u32 where "cc_ObjectChangeAuth \<equiv> 0x150"
abbreviation (input) cc_PolicySecret :: u32 where "cc_PolicySecret \<equiv> 0x151"
abbreviation (input) cc_Rewrap :: u32 where "cc_Rewrap \<equiv> 0x152"
abbreviation (input) cc_Create :: u32 where "cc_Create \<equiv> 0x153"
abbreviation (input) cc_ECDH_ZGen :: u32 where "cc_ECDH_ZGen \<equiv> 0x154"
abbreviation (input) cc_HMAC :: u32 where "cc_HMAC \<equiv> 0x155"
abbreviation (input) cc_MAC :: u32 where "cc_MAC \<equiv> 0x155"
abbreviation (input) cc_Import :: u32 where "cc_Import \<equiv> 0x156"
abbreviation (input) cc_Load :: u32 where "cc_Load \<equiv> 0x157"
abbreviation (input) cc_Quote :: u32 where "cc_Quote \<equiv> 0x158"
abbreviation (input) cc_RSA_Decrypt :: u32 where "cc_RSA_Decrypt \<equiv> 0x159"
abbreviation (input) cc_HMAC_Start :: u32 where "cc_HMAC_Start \<equiv> 0x15B"
abbreviation (input) cc_MAC_Start :: u32 where "cc_MAC_Start \<equiv> 0x15B"
abbreviation (input) cc_SequenceUpdate :: u32 where "cc_SequenceUpdate \<equiv> 0x15C"
abbreviation (input) cc_Sign :: u32 where "cc_Sign \<equiv> 0x15D"
abbreviation (input) cc_Unseal :: u32 where "cc_Unseal \<equiv> 0x15E"
abbreviation (input) cc_PolicySigned :: u32 where "cc_PolicySigned \<equiv> 0x160"
abbreviation (input) cc_ContextLoad :: u32 where "cc_ContextLoad \<equiv> 0x161"
abbreviation (input) cc_ContextSave :: u32 where "cc_ContextSave \<equiv> 0x162"
abbreviation (input) cc_ECDH_KeyGen :: u32 where "cc_ECDH_KeyGen \<equiv> 0x163"
abbreviation (input) cc_EncryptDecrypt :: u32 where "cc_EncryptDecrypt \<equiv> 0x164"
abbreviation (input) cc_FlushContext :: u32 where "cc_FlushContext \<equiv> 0x165"
abbreviation (input) cc_LoadExternal :: u32 where "cc_LoadExternal \<equiv> 0x167"
abbreviation (input) cc_MakeCredential :: u32 where "cc_MakeCredential \<equiv> 0x168"
abbreviation (input) cc_NV_ReadPublic :: u32 where "cc_NV_ReadPublic \<equiv> 0x169"
abbreviation (input) cc_PolicyAuthorize :: u32 where "cc_PolicyAuthorize \<equiv> 0x16A"
abbreviation (input) cc_PolicyAuthValue :: u32 where "cc_PolicyAuthValue \<equiv> 0x16B"
abbreviation (input) cc_PolicyCommandCode :: u32 where "cc_PolicyCommandCode \<equiv> 0x16C"
abbreviation (input) cc_PolicyCounterTimer :: u32 where "cc_PolicyCounterTimer \<equiv> 0x16D"
abbreviation (input) cc_PolicyCpHash :: u32 where "cc_PolicyCpHash \<equiv> 0x16E"
abbreviation (input) cc_PolicyLocality :: u32 where "cc_PolicyLocality \<equiv> 0x16F"
abbreviation (input) cc_PolicyNameHash :: u32 where "cc_PolicyNameHash \<equiv> 0x170"
abbreviation (input) cc_PolicyOR :: u32 where "cc_PolicyOR \<equiv> 0x171"
abbreviation (input) cc_PolicyTicket :: u32 where "cc_PolicyTicket \<equiv> 0x172"
abbreviation (input) cc_ReadPublic :: u32 where "cc_ReadPublic \<equiv> 0x173"
abbreviation (input) cc_RSA_Encrypt :: u32 where "cc_RSA_Encrypt \<equiv> 0x174"
abbreviation (input) cc_StartAuthSession :: u32 where "cc_StartAuthSession \<equiv> 0x176"
abbreviation (input) cc_VerifySignature :: u32 where "cc_VerifySignature \<equiv> 0x177"
abbreviation (input) cc_ECC_Parameters :: u32 where "cc_ECC_Parameters \<equiv> 0x178"
abbreviation (input) cc_FirmwareRead :: u32 where "cc_FirmwareRead \<equiv> 0x179"
abbreviation (input) cc_GetCapability :: u32 where "cc_GetCapability \<equiv> 0x17A"
abbreviation (input) cc_GetRandom :: u32 where "cc_GetRandom \<equiv> 0x17B"
abbreviation (input) cc_GetTestResult :: u32 where "cc_GetTestResult \<equiv> 0x17C"
abbreviation (input) cc_Hash :: u32 where "cc_Hash \<equiv> 0x17D"
abbreviation (input) cc_PCR_Read :: u32 where "cc_PCR_Read \<equiv> 0x17E"
abbreviation (input) cc_PolicyPCR :: u32 where "cc_PolicyPCR \<equiv> 0x17F"
abbreviation (input) cc_PolicyRestart :: u32 where "cc_PolicyRestart \<equiv> 0x180"
abbreviation (input) cc_ReadClock :: u32 where "cc_ReadClock \<equiv> 0x181"
abbreviation (input) cc_PCR_Extend :: u32 where "cc_PCR_Extend \<equiv> 0x182"
abbreviation (input) cc_PCR_SetAuthValue :: u32 where "cc_PCR_SetAuthValue \<equiv> 0x183"
abbreviation (input) cc_NV_Certify :: u32 where "cc_NV_Certify \<equiv> 0x184"
abbreviation (input) cc_EventSequenceComplete :: u32 where "cc_EventSequenceComplete \<equiv> 0x185"
abbreviation (input) cc_HashSequenceStart :: u32 where "cc_HashSequenceStart \<equiv> 0x186"
abbreviation (input) cc_PolicyPhysicalPresence :: u32 where "cc_PolicyPhysicalPresence \<equiv> 0x187"
abbreviation (input) cc_PolicyDuplicationSelect :: u32 where "cc_PolicyDuplicationSelect \<equiv> 0x188"
abbreviation (input) cc_PolicyGetDigest :: u32 where "cc_PolicyGetDigest \<equiv> 0x189"
abbreviation (input) cc_TestParms :: u32 where "cc_TestParms \<equiv> 0x18A"
abbreviation (input) cc_Commit :: u32 where "cc_Commit \<equiv> 0x18B"
abbreviation (input) cc_PolicyPassword :: u32 where "cc_PolicyPassword \<equiv> 0x18C"
abbreviation (input) cc_ZGen_2Phase :: u32 where "cc_ZGen_2Phase \<equiv> 0x18D"
abbreviation (input) cc_EC_Ephemeral :: u32 where "cc_EC_Ephemeral \<equiv> 0x18E"
abbreviation (input) cc_PolicyNvWritten :: u32 where "cc_PolicyNvWritten \<equiv> 0x18F"
abbreviation (input) cc_PolicyTemplate :: u32 where "cc_PolicyTemplate \<equiv> 0x190"
abbreviation (input) cc_CreateLoaded :: u32 where "cc_CreateLoaded \<equiv> 0x191"
abbreviation (input) cc_PolicyAuthorizeNV :: u32 where "cc_PolicyAuthorizeNV \<equiv> 0x192"
abbreviation (input) cc_EncryptDecrypt2 :: u32 where "cc_EncryptDecrypt2 \<equiv> 0x193"
abbreviation (input) cc_AC_GetCapability :: u32 where "cc_AC_GetCapability \<equiv> 0x194"
abbreviation (input) cc_AC_Send :: u32 where "cc_AC_Send \<equiv> 0x195"
abbreviation (input) cc_Policy_AC_SendSelect :: u32 where "cc_Policy_AC_SendSelect \<equiv> 0x196"
abbreviation (input) cc_CertifyX509 :: u32 where "cc_CertifyX509 \<equiv> 0x197"
abbreviation (input) cc_ACT_SetTimeout :: u32 where "cc_ACT_SetTimeout \<equiv> 0x198"
abbreviation (input) cc_ECC_Encrypt :: u32 where "cc_ECC_Encrypt \<equiv> 0x199"
abbreviation (input) cc_ECC_Decrypt :: u32 where "cc_ECC_Decrypt \<equiv> 0x19A"
abbreviation (input) cc_PolicyCapability :: u32 where "cc_PolicyCapability \<equiv> 0x19B"
abbreviation (input) cc_PolicyParameters :: u32 where "cc_PolicyParameters \<equiv> 0x19C"
abbreviation (input) cc_NV_DefineSpace2 :: u32 where "cc_NV_DefineSpace2 \<equiv> 0x19D"
abbreviation (input) cc_NV_ReadPublic2 :: u32 where "cc_NV_ReadPublic2 \<equiv> 0x19E"
abbreviation (input) cc_SetCapability :: u32 where "cc_SetCapability \<equiv> 0x19F"
abbreviation (input) cc_ReadOnlyControl :: u32 where "cc_ReadOnlyControl \<equiv> 0x1A0"
abbreviation (input) cc_PolicyTransportSPDM :: u32 where "cc_PolicyTransportSPDM \<equiv> 0x1A1"
abbreviation (input) cc_VerifySequenceComplete :: u32 where "cc_VerifySequenceComplete \<equiv> 0x1A3"
abbreviation (input) cc_SignSequenceComplete :: u32 where "cc_SignSequenceComplete \<equiv> 0x1A4"
abbreviation (input) cc_VerifyDigestSignature :: u32 where "cc_VerifyDigestSignature \<equiv> 0x1A5"
abbreviation (input) cc_SignDigest :: u32 where "cc_SignDigest \<equiv> 0x1A6"
abbreviation (input) cc_Encapsulate :: u32 where "cc_Encapsulate \<equiv> 0x1A7"
abbreviation (input) cc_Decapsulate :: u32 where "cc_Decapsulate \<equiv> 0x1A8"
abbreviation (input) cc_VerifySequenceStart :: u32 where "cc_VerifySequenceStart \<equiv> 0x1A9"
abbreviation (input) cc_SignSequenceStart :: u32 where "cc_SignSequenceStart \<equiv> 0x1AA"
abbreviation (input) cc_CC_VEND :: u32 where "cc_CC_VEND \<equiv> 0x20000000"
abbreviation (input) cc_Vendor_TCG_Test :: u32 where "cc_Vendor_TCG_Test \<equiv> cc_CC_VEND"

section \<open>The command table\<close>

record command_info =
  ci_code :: u32
  ci_handles :: nat
  ci_auth_handles :: nat
  ci_response_handle :: bool
  ci_nv :: bool
  ci_extensive :: bool
  ci_flushed :: bool

definition command_info_new :: "u32 \<Rightarrow> nat \<Rightarrow> nat \<Rightarrow> bool \<Rightarrow> bool \<Rightarrow> bool \<Rightarrow> bool \<Rightarrow> command_info" where
  "command_info_new c h a r n e f = \<lparr>ci_code = c, ci_handles = h, ci_auth_handles = a, ci_response_handle = r,
     ci_nv = n, ci_extensive = e, ci_flushed = f\<rparr>"

definition plain_command :: "u32 \<Rightarrow> nat \<Rightarrow> nat \<Rightarrow> command_info" where
  "plain_command c h a = command_info_new c h a False False False False"

definition nv_command :: "u32 \<Rightarrow> nat \<Rightarrow> nat \<Rightarrow> command_info" where
  "nv_command c h a = command_info_new c h a False True False False"

definition rhandle_command :: "u32 \<Rightarrow> nat \<Rightarrow> nat \<Rightarrow> command_info" where
  "rhandle_command c h a = command_info_new c h a True False False False"

definition COMMANDS :: "command_info list" where
  "COMMANDS = [
     nv_command cc_NV_UndefineSpaceSpecial 2 2, nv_command cc_EvictControl 2 1,
     command_info_new cc_HierarchyControl 1 1 False True True False, nv_command cc_NV_UndefineSpace 2 1,
     command_info_new cc_ChangeEPS 1 1 False True True False,
     command_info_new cc_ChangePPS 1 1 False True True False, command_info_new cc_Clear 1 1 False True True False,
     nv_command cc_ClearControl 1 1, nv_command cc_ClockSet 1 1, nv_command cc_HierarchyChangeAuth 1 1,
     nv_command cc_NV_DefineSpace 1 1, nv_command cc_PCR_Allocate 1 1, nv_command cc_PCR_SetAuthPolicy 1 1,
     nv_command cc_PP_Commands 1 1, nv_command cc_SetPrimaryPolicy 1 1, plain_command cc_ClockRateAdjust 1 1,
     nv_command cc_SetCapability 1 1, rhandle_command cc_CreatePrimary 1 1, nv_command cc_NV_GlobalWriteLock 1 1,
     nv_command cc_GetCommandAuditDigest 2 2, nv_command cc_NV_Increment 2 1, nv_command cc_NV_SetBits 2 1,
     nv_command cc_NV_Extend 2 1, nv_command cc_NV_Write 2 1, nv_command cc_NV_WriteLock 2 1,
     nv_command cc_DictionaryAttackLockReset 1 1, nv_command cc_DictionaryAttackParameters 1 1,
     nv_command cc_NV_ChangeAuth 1 1, nv_command cc_PCR_Event 1 1, nv_command cc_PCR_Reset 1 1,
     command_info_new cc_SequenceComplete 1 1 False False False True, nv_command cc_SetAlgorithmSet 1 1,
     nv_command cc_SetCommandCodeAuditStatus 1 1, nv_command cc_IncrementalSelfTest 0 0,
     nv_command cc_SelfTest 0 0, nv_command cc_Startup 0 0, nv_command cc_Shutdown 0 0,
     nv_command cc_StirRandom 0 0, plain_command cc_ActivateCredential 2 2, plain_command cc_Certify 2 2,
     plain_command cc_CertifyX509 2 2, plain_command cc_PolicyNV 3 1, plain_command cc_CertifyCreation 2 1,
     plain_command cc_Duplicate 2 1, plain_command cc_GetTime 2 2, plain_command cc_GetSessionAuditDigest 3 2,
     plain_command cc_NV_Read 2 1, nv_command cc_NV_ReadLock 2 1, plain_command cc_ObjectChangeAuth 2 1,
     plain_command cc_PolicySecret 2 1, plain_command cc_Rewrap 2 1, plain_command cc_Create 1 1,
     plain_command cc_ECDH_ZGen 1 1, plain_command cc_HMAC 1 1, plain_command cc_Import 1 1,
     rhandle_command cc_Load 1 1, plain_command cc_Quote 1 1, plain_command cc_RSA_Decrypt 1 1,
     rhandle_command cc_HMAC_Start 1 1, plain_command cc_SequenceUpdate 1 1, plain_command cc_Sign 1 1,
     plain_command cc_Unseal 1 1, plain_command cc_PolicySigned 2 0, rhandle_command cc_ContextLoad 0 0,
     plain_command cc_ContextSave 1 0, plain_command cc_ECDH_KeyGen 1 0, plain_command cc_EncryptDecrypt 1 1,
     command_info_new cc_FlushContext 0 0 False False False False, rhandle_command cc_LoadExternal 0 0,
     plain_command cc_MakeCredential 1 0, plain_command cc_NV_ReadPublic 1 0, plain_command cc_PolicyAuthorize 1 0,
     plain_command cc_PolicyAuthValue 1 0, plain_command cc_PolicyCommandCode 1 0,
     plain_command cc_PolicyCounterTimer 1 0, plain_command cc_PolicyCpHash 1 0,
     plain_command cc_PolicyLocality 1 0, plain_command cc_PolicyNameHash 1 0, plain_command cc_PolicyOR 1 0,
     plain_command cc_PolicyTicket 1 0, plain_command cc_ReadPublic 1 0, plain_command cc_RSA_Encrypt 1 0,
     rhandle_command cc_StartAuthSession 2 0, plain_command cc_VerifySignature 1 0,
     plain_command cc_ECC_Parameters 0 0, plain_command cc_GetCapability 0 0, plain_command cc_GetRandom 0 0,
     plain_command cc_GetTestResult 0 0, plain_command cc_Hash 0 0, plain_command cc_PCR_Read 0 0,
     plain_command cc_PolicyPCR 1 0, plain_command cc_PolicyRestart 1 0, plain_command cc_ReadClock 0 0,
     nv_command cc_PCR_Extend 1 1, plain_command cc_PCR_SetAuthValue 1 1, plain_command cc_NV_Certify 3 2,
     command_info_new cc_EventSequenceComplete 2 2 False True False True, rhandle_command cc_HashSequenceStart 0 0,
     plain_command cc_PolicyPhysicalPresence 1 0, plain_command cc_PolicyDuplicationSelect 1 0,
     plain_command cc_PolicyGetDigest 1 0, plain_command cc_TestParms 0 0, plain_command cc_Commit 1 1,
     plain_command cc_PolicyPassword 1 0, plain_command cc_ZGen_2Phase 1 1, plain_command cc_EC_Ephemeral 0 0,
     plain_command cc_PolicyNvWritten 1 0, plain_command cc_PolicyTemplate 1 0,
     rhandle_command cc_CreateLoaded 1 1, plain_command cc_PolicyAuthorizeNV 3 1,
     plain_command cc_EncryptDecrypt2 1 1, plain_command cc_AC_GetCapability 1 0, plain_command cc_AC_Send 3 2,
     plain_command cc_Policy_AC_SendSelect 1 0, plain_command cc_ACT_SetTimeout 1 1,
     plain_command cc_ECC_Encrypt 1 0, plain_command cc_ECC_Decrypt 1 1, plain_command cc_PolicyCapability 1 0,
     plain_command cc_PolicyParameters 1 0, nv_command cc_NV_DefineSpace2 1 1, plain_command cc_NV_ReadPublic2 1 0,
     plain_command cc_ReadOnlyControl 1 1, plain_command cc_PolicyTransportSPDM 1 0,
     command_info_new cc_VerifySequenceComplete 2 1 False False False True,
     command_info_new cc_SignSequenceComplete 2 2 False False False True,
     plain_command cc_VerifyDigestSignature 1 0, plain_command cc_SignDigest 1 1, plain_command cc_Encapsulate 1 0,
     plain_command cc_Decapsulate 1 1, rhandle_command cc_VerifySequenceStart 1 0,
     rhandle_command cc_SignSequenceStart 1 0, plain_command cc_Vendor_TCG_Test 0 0]"

definition lookup_command :: "u32 \<Rightarrow> command_info option" where
  "lookup_command c = find (\<lambda>i. ci_code i = c) COMMANDS"

definition implemented_codes :: "u32 list" where
  "implemented_codes = sort (map ci_code COMMANDS)"

definition refused_when_read_only :: "u32 \<Rightarrow> bool" where
  "refused_when_read_only c = (c \<in> set [
      cc_Create, cc_CreateLoaded, cc_CreatePrimary, cc_ObjectChangeAuth, cc_SetCommandCodeAuditStatus,
      cc_PCR_Allocate, cc_PCR_SetAuthPolicy, cc_PCR_SetAuthValue, cc_HierarchyControl, cc_SetPrimaryPolicy,
      cc_ChangePPS, cc_ChangeEPS, cc_Clear, cc_ClearControl, cc_HierarchyChangeAuth, cc_DictionaryAttackParameters,
      cc_PP_Commands, cc_SetAlgorithmSet, cc_FieldUpgradeStart, cc_FieldUpgradeData, cc_EvictControl, cc_ClockSet,
      cc_ClockRateAdjust, cc_SetCapability, cc_NV_DefineSpace, cc_NV_UndefineSpace, cc_NV_UndefineSpaceSpecial,
      cc_NV_Increment, cc_NV_GlobalWriteLock, cc_NV_ChangeAuth])"

definition read_only_needs_a_volatile_index :: "u32 \<Rightarrow> bool" where
  "read_only_needs_a_volatile_index c =
     (c \<in> set [cc_NV_Write, cc_NV_Extend, cc_NV_SetBits, cc_NV_WriteLock, cc_NV_ReadLock])"

section \<open>Interface types and roles\<close>

datatype kind = K_Object | K_Parent | K_Entity | K_Pcr | K_Context | K_Persistent | K_PolicySession | K_HmacSession
  | K_AuthSession | K_NvIndex | K_NvAuth | K_Act | K_Platform | K_Owner | K_Endorsement | K_Provision | K_Clear
  | K_Lockout | K_Hierarchy | K_HierarchyAuth | K_HierarchyPolicy | K_BaseHierarchy

datatype role = R_None | R_User | R_Admin | R_Dup

record handle_spec =
  h_kind :: kind
  nullable :: bool

definition H :: "kind \<Rightarrow> bool \<Rightarrow> handle_spec" where
  "H k n = \<lparr>h_kind = k, nullable = n\<rparr>"

type_synonym row = "u32 \<times> handle_spec list \<times> role list"

definition ROWS :: "row list" where
  "ROWS = [
     (cc_ACT_SetTimeout, [H K_Act False], [R_User]),
     (cc_ActivateCredential, [H K_Object False, H K_Object False], [R_Admin, R_User]),
     (cc_Certify, [H K_Object False, H K_Object True], [R_Admin, R_User]),
     (cc_CertifyX509, [H K_Object False, H K_Object True], [R_Admin, R_User]),
     (cc_CertifyCreation, [H K_Object True, H K_Object False], [R_User, R_None]),
     (cc_ChangeEPS, [H K_Platform False], [R_User]), (cc_ChangePPS, [H K_Platform False], [R_User]),
     (cc_Clear, [H K_Clear False], [R_User]), (cc_ClearControl, [H K_Clear False], [R_User]),
     (cc_ClockRateAdjust, [H K_Provision False], [R_User]), (cc_SetCapability, [H K_HierarchyAuth True], [R_User]),
     (cc_ClockSet, [H K_Provision False], [R_User]), (cc_Commit, [H K_Object False], [R_User]),
     (cc_ContextSave, [H K_Context False], [R_None]), (cc_Create, [H K_Object False], [R_User]),
     (cc_CreateLoaded, [H K_Parent False], [R_User]), (cc_CreatePrimary, [H K_Hierarchy False], [R_User]),
     (cc_Decapsulate, [H K_Object False], [R_User]), (cc_DictionaryAttackLockReset, [H K_Lockout False], [R_User]),
     (cc_DictionaryAttackParameters, [H K_Lockout False], [R_User]),
     (cc_Duplicate, [H K_Object False, H K_Object True], [R_Dup, R_None]),
     (cc_ECC_Decrypt, [H K_Object False], [R_User]), (cc_ECC_Encrypt, [H K_Object False], [R_None]),
     (cc_ECDH_KeyGen, [H K_Object False], [R_None]), (cc_ECDH_ZGen, [H K_Object False], [R_User]),
     (cc_Encapsulate, [H K_Object False], [R_None]), (cc_EncryptDecrypt, [H K_Object False], [R_User]),
     (cc_EncryptDecrypt2, [H K_Object False], [R_User]),
     (cc_EventSequenceComplete, [H K_Pcr True, H K_Object False], [R_User, R_User]),
     (cc_EvictControl, [H K_Provision False, H K_Object False], [R_User, R_None]),
     (cc_GetCommandAuditDigest, [H K_Endorsement False, H K_Object True], [R_User, R_User]),
     (cc_GetSessionAuditDigest, [H K_Endorsement False, H K_Object True, H K_HmacSession False], [R_User, R_User, R_None]),
     (cc_GetTime, [H K_Endorsement False, H K_Object True], [R_User, R_User]),
     (cc_HMAC, [H K_Object False], [R_User]), (cc_HMAC_Start, [H K_Object False], [R_User]),
     (cc_HierarchyChangeAuth, [H K_HierarchyAuth False], [R_User]),
     (cc_HierarchyControl, [H K_BaseHierarchy False], [R_User]), (cc_Import, [H K_Object False], [R_User]),
     (cc_Load, [H K_Object False], [R_User]), (cc_MAC, [H K_Object False], [R_User]),
     (cc_MAC_Start, [H K_Object False], [R_User]), (cc_MakeCredential, [H K_Object False], [R_None]),
     (cc_NV_Certify, [H K_Object True, H K_NvAuth False, H K_NvIndex False], [R_User, R_User, R_None]),
     (cc_NV_ChangeAuth, [H K_NvIndex False], [R_Admin]), (cc_NV_DefineSpace, [H K_Provision False], [R_User]),
     (cc_NV_DefineSpace2, [H K_Provision False], [R_User]),
     (cc_NV_Extend, [H K_NvAuth False, H K_NvIndex False], [R_User, R_None]),
     (cc_NV_GlobalWriteLock, [H K_Provision False], [R_User]),
     (cc_NV_Increment, [H K_NvAuth False, H K_NvIndex False], [R_User, R_None]),
     (cc_NV_Read, [H K_NvAuth False, H K_NvIndex False], [R_User, R_None]),
     (cc_NV_ReadLock, [H K_NvAuth False, H K_NvIndex False], [R_User, R_None]),
     (cc_NV_ReadPublic, [H K_NvIndex False], [R_None]), (cc_NV_ReadPublic2, [H K_NvIndex False], [R_None]),
     (cc_NV_SetBits, [H K_NvAuth False, H K_NvIndex False], [R_User, R_None]),
     (cc_NV_UndefineSpace, [H K_Provision False, H K_NvIndex False], [R_User, R_None]),
     (cc_NV_UndefineSpaceSpecial, [H K_NvIndex False, H K_Platform False], [R_Admin, R_User]),
     (cc_NV_Write, [H K_NvAuth False, H K_NvIndex False], [R_User, R_None]),
     (cc_NV_WriteLock, [H K_NvAuth False, H K_NvIndex False], [R_User, R_None]),
     (cc_ObjectChangeAuth, [H K_Object False, H K_Object False], [R_Admin, R_None]),
     (cc_PCR_Allocate, [H K_Platform False], [R_User]), (cc_PCR_Event, [H K_Pcr True], [R_User]),
     (cc_PCR_Extend, [H K_Pcr True], [R_User]), (cc_PCR_Reset, [H K_Pcr False], [R_User]),
     (cc_PCR_SetAuthPolicy, [H K_Platform False], [R_User]), (cc_PCR_SetAuthValue, [H K_Pcr False], [R_User]),
     (cc_PP_Commands, [H K_Platform False], [R_User]), (cc_PolicyAuthValue, [H K_PolicySession False], [R_None]),
     (cc_PolicyAuthorize, [H K_PolicySession False], [R_None]),
     (cc_PolicyAuthorizeNV, [H K_NvAuth False, H K_NvIndex False, H K_PolicySession False], [R_User, R_None, R_None]),
     (cc_PolicyCapability, [H K_PolicySession False], [R_None]),
     (cc_PolicyCommandCode, [H K_PolicySession False], [R_None]),
     (cc_PolicyCounterTimer, [H K_PolicySession False], [R_None]),
     (cc_PolicyCpHash, [H K_PolicySession False], [R_None]),
     (cc_PolicyDuplicationSelect, [H K_PolicySession False], [R_None]),
     (cc_PolicyGetDigest, [H K_PolicySession False], [R_None]),
     (cc_PolicyLocality, [H K_PolicySession False], [R_None]),
     (cc_PolicyNV, [H K_NvAuth False, H K_NvIndex False, H K_PolicySession False], [R_User, R_None, R_None]),
     (cc_PolicyNameHash, [H K_PolicySession False], [R_None]),
     (cc_PolicyNvWritten, [H K_PolicySession False], [R_None]), (cc_PolicyOR, [H K_PolicySession False], [R_None]),
     (cc_PolicyPCR, [H K_PolicySession False], [R_None]),
     (cc_PolicyParameters, [H K_PolicySession False], [R_None]),
     (cc_PolicyPassword, [H K_PolicySession False], [R_None]),
     (cc_PolicyPhysicalPresence, [H K_PolicySession False], [R_None]),
     (cc_PolicyRestart, [H K_PolicySession False], [R_None]),
     (cc_PolicySecret, [H K_Entity False, H K_PolicySession False], [R_User, R_None]),
     (cc_PolicySigned, [H K_Object False, H K_PolicySession False], [R_None, R_None]),
     (cc_PolicyTemplate, [H K_PolicySession False], [R_None]),
     (cc_PolicyTicket, [H K_PolicySession False], [R_None]),
     (cc_PolicyTransportSPDM, [H K_PolicySession False], [R_None]),
     (cc_Policy_AC_SendSelect, [H K_PolicySession False], [R_None]), (cc_Quote, [H K_Object True], [R_User]),
     (cc_RSA_Decrypt, [H K_Object False], [R_User]), (cc_RSA_Encrypt, [H K_Object False], [R_None]),
     (cc_ReadOnlyControl, [H K_Platform False], [R_User]), (cc_ReadPublic, [H K_Object False], [R_None]),
     (cc_Rewrap, [H K_Object True, H K_Object True], [R_User, R_None]),
     (cc_SequenceComplete, [H K_Object False], [R_User]), (cc_SequenceUpdate, [H K_Object False], [R_User]),
     (cc_SetAlgorithmSet, [H K_Platform False], [R_User]),
     (cc_SetPrimaryPolicy, [H K_HierarchyPolicy False], [R_User]),
     (cc_SetCommandCodeAuditStatus, [H K_Provision False], [R_User]), (cc_Sign, [H K_Object False], [R_User]),
     (cc_SignDigest, [H K_Object False], [R_User]),
     (cc_SignSequenceComplete, [H K_Object False, H K_Object False], [R_User, R_User]),
     (cc_SignSequenceStart, [H K_Object False], [R_None]),
     (cc_StartAuthSession, [H K_Object True, H K_Entity True], [R_None, R_None]),
     (cc_Unseal, [H K_Object False], [R_User]), (cc_VerifyDigestSignature, [H K_Object False], [R_None]),
     (cc_VerifySequenceComplete, [H K_Object False, H K_Object False], [R_User, R_None]),
     (cc_VerifySequenceStart, [H K_Object False], [R_None]), (cc_VerifySignature, [H K_Object False], [R_None]),
     (cc_ZGen_2Phase, [H K_Object False], [R_User])]"

definition row_of :: "u32 \<Rightarrow> row option" where
  "row_of c = find (\<lambda>r. fst r = c) ROWS"

text \<open>\<open>get(index)\<close> of a slice.\<close>

definition get_at :: "'a list \<Rightarrow> nat \<Rightarrow> 'a option" where
  "get_at xs i = (if i < length xs then Some (xs ! i) else None)"

definition handle_kind :: "u32 \<Rightarrow> nat \<Rightarrow> handle_spec option" where
  "handle_kind c i = Option.bind (row_of c) (\<lambda>r. get_at (fst (snd r)) i)"

definition role_of :: "u32 \<Rightarrow> nat \<Rightarrow> role" where
  "role_of c i = (case Option.bind (row_of c) (\<lambda>r. get_at (snd (snd r)) i) of Some r \<Rightarrow> r | None \<Rightarrow> R_User)"

datatype nv_access = Nv_reads | Nv_writes

definition nv_access_of :: "u32 \<Rightarrow> nv_access option" where
  "nv_access_of c =
     (if c \<in> set [cc_NV_Write, cc_NV_Increment, cc_NV_Extend, cc_NV_SetBits, cc_NV_WriteLock] then Some Nv_writes
      else if c \<in> set [cc_NV_Read, cc_NV_ReadLock, cc_NV_Certify, cc_PolicyNV, cc_PolicyAuthorizeNV, cc_PolicySecret]
      then Some Nv_reads else None)"

definition nv_index_handle :: "u32 \<Rightarrow> nat option" where
  "nv_index_handle c = (if c = cc_NV_Certify then Some 2 else if c = cc_PolicySecret then None else Some 1)"

definition takes_no_parameters :: "u32 \<Rightarrow> bool" where
  "takes_no_parameters c = (c \<in> set [
      cc_ChangeEPS, cc_ChangePPS, cc_Clear, cc_ContextSave, cc_DictionaryAttackLockReset, cc_ECDH_KeyGen,
      cc_Encapsulate, cc_GetTestResult, cc_NV_GlobalWriteLock, cc_NV_Increment, cc_NV_ReadLock, cc_NV_ReadPublic,
      cc_NV_ReadPublic2, cc_NV_UndefineSpace, cc_NV_UndefineSpaceSpecial, cc_NV_WriteLock, cc_PCR_Reset,
      cc_PolicyAuthValue, cc_PolicyAuthorizeNV, cc_PolicyGetDigest, cc_PolicyPassword, cc_PolicyPhysicalPresence,
      cc_PolicyRestart, cc_ReadClock, cc_ReadPublic, cc_Unseal])"

definition in_hierarchy :: "u32 \<Rightarrow> bool" where
  "in_hierarchy h = (h = rh_OWNER \<or> h = rh_PLATFORM \<or> h = rh_ENDORSEMENT)"

definition is_persistent :: "u32 \<Rightarrow> bool" where
  "is_persistent h = (hc_PERSISTENT_FIRST \<le> h \<and> h \<le> hc_PERSISTENT_LAST)"

definition is_object_handle :: "u32 \<Rightarrow> bool" where
  "is_object_handle h = (is_transient h \<or> is_persistent h)"

definition is_pcr_handle :: "u32 \<Rightarrow> bool" where
  "is_pcr_handle h = (hc_PCR_FIRST \<le> h \<and> h \<le> hc_PCR_LAST)"

definition is_act_handle :: "u32 \<Rightarrow> bool" where
  "is_act_handle h = (rh_ACT_0 \<le> h \<and> h \<le> rh_ACT_F)"

fun kind_allows :: "kind \<Rightarrow> u32 \<Rightarrow> bool" where
  "kind_allows K_Object h = is_object_handle h"
| "kind_allows K_Persistent h = is_persistent h"
| "kind_allows K_Parent h = (is_object_handle h \<or> in_hierarchy h \<or> h = rh_NULL \<or> is_limited h)"
| "kind_allows K_Entity h = (is_object_handle h \<or> is_nv_handle h \<or> is_pcr_handle h \<or> in_hierarchy h \<or> h = rh_LOCKOUT)"
| "kind_allows K_Pcr h = is_pcr_handle h"
| "kind_allows K_Act h = is_act_handle h"
| "kind_allows K_Context h = (is_session_handle h \<or> is_transient h)"
| "kind_allows K_PolicySession h = (drop_bit 24 h = drop_bit 24 hc_POLICY_SESSION_FIRST)"
| "kind_allows K_HmacSession h = (drop_bit 24 h = drop_bit 24 hc_HMAC_SESSION_FIRST)"
| "kind_allows K_AuthSession h = (is_session_handle h \<or> h = rh_RS_PW)"
| "kind_allows K_NvIndex h = is_nv_handle h"
| "kind_allows K_NvAuth h = (h = rh_PLATFORM \<or> h = rh_OWNER \<or> is_nv_handle h)"
| "kind_allows K_Platform h = (h = rh_PLATFORM)"
| "kind_allows K_Owner h = (h = rh_OWNER)"
| "kind_allows K_Endorsement h = (h = rh_ENDORSEMENT)"
| "kind_allows K_Provision h = (h = rh_OWNER \<or> h = rh_PLATFORM)"
| "kind_allows K_Clear h = (h = rh_LOCKOUT \<or> h = rh_PLATFORM)"
| "kind_allows K_Lockout h = (h = rh_LOCKOUT)"
| "kind_allows K_Hierarchy h = (in_hierarchy h \<or> h = rh_NULL \<or> is_limited h)"
| "kind_allows K_HierarchyAuth h = (in_hierarchy h \<or> h = rh_LOCKOUT)"
| "kind_allows K_HierarchyPolicy h = (in_hierarchy h \<or> h = rh_LOCKOUT \<or> is_act_handle h)"
| "kind_allows K_BaseHierarchy h = in_hierarchy h"

definition handle_allows :: "handle_spec \<Rightarrow> u32 \<Rightarrow> bool" where
  "handle_allows s h = (if nullable s \<and> h = rh_NULL then True else kind_allows (h_kind s) h)"

section \<open>The tables agree\<close>

text \<open>Every row of the command table but the two of attached components, which have no interface row.\<close>

definition row_agrees :: "command_info \<Rightarrow> bool" where
  "row_agrees i = (case row_of (ci_code i) of
       None \<Rightarrow> ci_handles i = 0 \<or> ci_code i = cc_AC_GetCapability \<or> ci_code i = cc_AC_Send
     | Some (_, hs, rs) \<Rightarrow> length hs = ci_handles i \<and> length rs = ci_handles i
         \<and> takeWhile (\<lambda>r. r \<noteq> R_None) rs = take (ci_auth_handles i) rs
         \<and> list_all (\<lambda>r. r = R_None) (drop (ci_auth_handles i) rs))"

lemmas table_defs = COMMANDS_def plain_command_def nv_command_def rhandle_command_def command_info_new_def

lemma commands_distinct: "distinct (map ci_code COMMANDS)"
  by (simp add: table_defs)

lemma read_only_leaves:
  "map ci_code (filter (\<lambda>i. ci_nv i \<and> \<not> refused_when_read_only (ci_code i)
       \<and> \<not> read_only_needs_a_volatile_index (ci_code i)) COMMANDS)
   = [cc_GetCommandAuditDigest, cc_DictionaryAttackLockReset, cc_PCR_Event, cc_PCR_Reset, cc_IncrementalSelfTest,
      cc_SelfTest, cc_Startup, cc_Shutdown, cc_StirRandom, cc_PCR_Extend, cc_EventSequenceComplete,
      cc_NV_DefineSpace2]"
  by (simp add: table_defs refused_when_read_only_def read_only_needs_a_volatile_index_def)

lemma tables_agree_compute: "list_all row_agrees COMMANDS"
  by code_simp

lemma auth_within_handles: "list_all (\<lambda>i. ci_auth_handles i \<le> ci_handles i \<and> ci_handles i \<le> 3) COMMANDS"
  by (simp add: table_defs)

lemma lookup_command_iff: "lookup_command c = Some i \<longleftrightarrow> i \<in> set COMMANDS \<and> ci_code i = c"
proof
  show "i \<in> set COMMANDS \<and> ci_code i = c" if "lookup_command c = Some i"
    using that by (auto simp: lookup_command_def find_Some_iff)
next
  assume i: "i \<in> set COMMANDS \<and> ci_code i = c"
  then obtain j where j: "lookup_command c = Some j"
    by (metis (mono_tags, lifting) lookup_command_def find_None_iff not_None_eq)
  then have "j \<in> set COMMANDS" "ci_code j = c" by (auto simp: lookup_command_def find_Some_iff)
  with i j commands_distinct show "lookup_command c = Some i"
    by (metis distinct_map inj_onD)
qed

lemma takeWhile_eq_take:
  "takeWhile P xs = take n xs \<Longrightarrow> i < n \<Longrightarrow> i < length xs \<Longrightarrow> P (xs ! i)"
  by (metis length_take min_less_iff_conj nth_take set_takeWhileD nth_mem)

text \<open>The two command tables fit together. A command code names at most one command, and for every
  implemented command but the two of attached components each handle the parser reads has an
  interface type to be checked against, the handles that carry an authorization are the leading
  ones and have a role, and no other has.\<close>

theorem handle_tables_complete:
  assumes "lookup_command c = Some i" and "c \<noteq> cc_AC_GetCapability" and "c \<noteq> cc_AC_Send"
  shows "ci_auth_handles i \<le> ci_handles i \<and> ci_handles i \<le> 3
    \<and> (\<forall>n. (n < ci_handles i \<longleftrightarrow> handle_kind c n \<noteq> None)
         \<and> (n < ci_handles i \<longrightarrow> (n < ci_auth_handles i \<longleftrightarrow> role_of c n \<noteq> R_None)))
    \<and> (\<forall>j \<in> set COMMANDS. ci_code j = c \<longrightarrow> j = i)"
proof -
  have i: "i \<in> set COMMANDS" "ci_code i = c" using assms(1) by (auto simp: lookup_command_iff)
  then have le: "ci_auth_handles i \<le> ci_handles i" "ci_handles i \<le> 3" and agrees: "row_agrees i"
    using auth_within_handles tables_agree_compute by (auto simp: list_all_iff)
  have uniq: "\<forall>j \<in> set COMMANDS. ci_code j = c \<longrightarrow> j = i"
    using assms(1) lookup_command_iff by (metis option.inject)
  show ?thesis
  proof (cases "row_of c")
    case None
    then have "ci_handles i = 0" using agrees i assms(2,3) by (simp add: row_agrees_def)
    with None le(1) have "\<forall>n. (n < ci_handles i \<longleftrightarrow> handle_kind c n \<noteq> None)
        \<and> (n < ci_handles i \<longrightarrow> (n < ci_auth_handles i \<longleftrightarrow> role_of c n \<noteq> R_None))"
      by (simp add: handle_kind_def)
    with le uniq show ?thesis by blast
  next
    case (Some r)
    obtain k hs rs where r: "r = (k, hs, rs)" by (cases r)
    have l: "length hs = ci_handles i" "length rs = ci_handles i"
      and t: "takeWhile (\<lambda>r. r \<noteq> R_None) rs = take (ci_auth_handles i) rs"
      and d: "list_all (\<lambda>r. r = R_None) (drop (ci_auth_handles i) rs)"
      using agrees i Some r by (auto simp: row_agrees_def)
    have k: "handle_kind c n \<noteq> None \<longleftrightarrow> n < ci_handles i" for n
      using Some r l(1) by (simp add: handle_kind_def get_at_def)
    have ro: "role_of c n = rs ! n" if "n < ci_handles i" for n
      using Some r l(2) that by (simp add: role_of_def get_at_def)
    have a: "n < ci_auth_handles i \<longleftrightarrow> rs ! n \<noteq> R_None" if "n < ci_handles i" for n
    proof (cases "n < ci_auth_handles i")
      case True
      then show ?thesis using takeWhile_eq_take [OF t] that l by auto
    next
      case False
      then have n: "n - ci_auth_handles i < length rs - ci_auth_handles i" using that l by auto
      have "\<forall>m < length rs - ci_auth_handles i. rs ! (ci_auth_handles i + m) = R_None"
        using d by (simp add: list_all_length)
      from this [rule_format, OF n] False show ?thesis by simp
    qed
    have "(n < ci_handles i \<longleftrightarrow> handle_kind c n \<noteq> None)
        \<and> (n < ci_handles i \<longrightarrow> (n < ci_auth_handles i \<longleftrightarrow> role_of c n \<noteq> R_None))" for n
      using k [of n] ro [of n] a [of n] by (cases "n < ci_handles i") simp_all
    with le uniq show ?thesis by blast
  qed
qed

lemma handle_tables_complete_witness:
  "handle_kind cc_NV_Write 1 \<noteq> None \<and> role_of cc_NV_Write 0 \<noteq> R_None \<and> role_of cc_NV_Write 1 = R_None"
proof -
  have "lookup_command cc_NV_Write = Some (nv_command cc_NV_Write 2 1)"
    by (simp add: lookup_command_def table_defs)
  from handle_tables_complete [OF this, THEN conjunct2, THEN conjunct2, THEN conjunct1]
  have "\<forall>n. (n < 2 \<longleftrightarrow> handle_kind cc_NV_Write n \<noteq> None)
      \<and> (n < 2 \<longrightarrow> (n < 1 \<longleftrightarrow> role_of cc_NV_Write n \<noteq> R_None))"
    by (simp add: nv_command_def command_info_new_def)
  from this [THEN spec, of 0] this [THEN spec, of 1] show ?thesis by simp
qed

end
