(* ===== verification/TpmState.thy ===== *)
theory TpmState
  imports Pcr NvCore Commit SessionSlots Lockout Act Clock Objects Commands
begin

text \<open>
  Everything the TPM knows (\<open>TpmState\<close> of \<open>src/tpm/core/state.rs\<close>) and what manufacture, the passing of
  time, \<open>_TPM_Init\<close>, the startups and TPM2_Clear do to it. The deterministic generator is the state's
  own; the path of the integrity file, which only a file system gives meaning to, is left out.
\<close>

record command_audit =
  ca_alg :: u16
  ca_digest :: bytes
  ca_counter :: u64
  ca_commands :: "u32 list"
  exclusive_session :: u32

definition command_audit_default :: command_audit where
  "command_audit_default = \<lparr>ca_alg = CONTEXT_INTEGRITY_HASH_ALG, ca_digest = [], ca_counter = 0,
     ca_commands = [cc_SetCommandCodeAuditStatus], exclusive_session = rh_UNASSIGNED\<rparr>"

record tpm_state =
  hierarchies :: hierarchies
  lockout_state :: lockout
  permanent :: u32
  clock_of :: clock_state
  pcr_allocation :: "(u16 \<times> bool list) list"
  nv :: nv_store
  persistent :: "(u32, object) btree"
  pp_commands :: "u32 list"
  cmd_audit :: command_audit
  algorithm_set :: u32
  lockout_auth :: bytes
  lockout_policy :: tpmt_ha
  pcr_auth :: bytes
  pcr_policy :: tpmt_ha
  manufactured :: bool
  shutdown_type :: u16
  started :: bool
  startup_clear :: u32
  pcr_allocation_pending :: bool
  pcrs :: pcr_banks
  objects :: object_slots
  session_slots :: slots
  locality :: u8
  physical_presence :: bool
  nv_available :: bool
  nv_write_failed :: bool
  failure_mode :: bool
  self_test_done :: bool
  test_digest :: bytes
  test_failure :: "bytes option"
  rng :: drbg
  commits_of :: commits
  ever_started :: bool
  act_of :: act
  hcrtm_sequence :: "hasher list option"
  hcrtm_before_startup :: bool
  hcrtm_at_last_startup :: bool
  startup_method_unknown :: bool
  startup_locality :: u8
  command_audit_suppressed :: bool

definition DEFAULT_PCR_BANKS :: "u16 list" where "DEFAULT_PCR_BANKS = [alg_SHA256, alg_SHA384]"

text \<open>\<open>manufacture\<close> with the generator the operating system seeded.\<close>

definition manufacture :: "env \<Rightarrow> drbg \<Rightarrow> tpm_state tpm_result" where
  "manufacture E g =
     (case hierarchies_new (drbg_fill E) g of
        (Inl e, _) \<Rightarrow> Inl e
      | (Inr hs, g) \<Rightarrow>
          res_bind (pcr_new E (whole_banks DEFAULT_PCR_BANKS)) (\<lambda>p.
          Inr \<lparr>hierarchies = hs, lockout_state = lockout_default, permanent = pa_TPM_GENERATED_EPS,
               clock_of = clock_default\<lparr>safe := True\<rparr>, pcr_allocation = whole_banks DEFAULT_PCR_BANKS,
               nv = store_new, persistent = [], pp_commands = [], cmd_audit = command_audit_default, algorithm_set = 0,
               lockout_auth = [], lockout_policy = tpmt_ha_null, pcr_auth = [], pcr_policy = tpmt_ha_null,
               manufactured = True, shutdown_type = su_NONE, started = False, startup_clear = 0,
               pcr_allocation_pending = False, pcrs = p, objects = objects_new, session_slots = slots_new,
               locality = 0, physical_presence = False, nv_available = True, nv_write_failed = False,
               failure_mode = False, self_test_done = True, test_digest = [], test_failure = None, rng = g, commits_of = commits_new, ever_started = False,
               act_of = act_default, hcrtm_sequence = None, hcrtm_before_startup = False,
               hcrtm_at_last_startup = False, startup_method_unknown = False, startup_locality = 0,
               command_audit_suppressed = False\<rparr>))"

section \<open>Operations that draw from the generator\<close>

definition draw :: "env \<Rightarrow> nat \<Rightarrow> (tpm_state, bytes) st_op" where
  "draw E n s = (case drbg_fill E n (rng s) of (x, g) \<Rightarrow> (x, s\<lparr>rng := g\<rparr>))"

definition on_hierarchies :: "(hierarchies \<times> drbg, unit) st_op \<Rightarrow> (tpm_state, unit) st_op" where
  "on_hierarchies m s = (case m (hierarchies s, rng s) of (x, (h, g)) \<Rightarrow> (x, s\<lparr>hierarchies := h, rng := g\<rparr>))"

definition reset_commits :: "env \<Rightarrow> (tpm_state, unit) st_op" where
  "reset_commits E s =
     (case commits_reset (drbg_fill E) (rng s) (commits_of s) of (x, g, c) \<Rightarrow> (x, s\<lparr>commits_of := c, rng := g\<rparr>))"

section \<open>Startup\<close>

definition begin_operation :: "bool \<Rightarrow> bool \<Rightarrow> tpm_state \<Rightarrow> tpm_state" where
  "begin_operation orderly keep_read_only s =
     (let attributes = 0;
          attributes = (if orderly then attributes OR sc_ORDERLY else attributes);
          attributes = (if keep_read_only \<and> attr_has (startup_clear s) sc_READ_ONLY then attributes OR sc_READ_ONLY
                        else attributes)
      in s\<lparr>pcr_allocation_pending := False, startup_clear := attributes, started := True, ever_started := True,
           shutdown_type := su_NONE, clock_of := (clock_of s)\<lparr>clk_epoch := clk_epoch (clock_of s) + 1\<rparr>\<rparr>)"

text \<open>The part of TPM2_Startup(CLEAR) after the hierarchies have been reset, up to the draw of the reset value.\<close>

definition startup_volatile :: "env \<Rightarrow> bool \<Rightarrow> bool \<Rightarrow> u8 \<Rightarrow> tpm_state \<Rightarrow> tpm_state" where
  "startup_volatile E restart disorderly loc s =
     (let keep = (if hcrtm_before_startup s then Some HCRTM_PCR else None);
          s = s\<lparr>pcrs := reset_all_but E keep loc (pcrs s), hcrtm_at_last_startup := hcrtm_before_startup s,
                startup_locality := loc, startup_method_unknown := False, hcrtm_before_startup := False\<rparr>;
          s = (if \<not> restart then s\<lparr>pcrs := reset_update_counter (pcrs s)\<rparr> else s);
          s = s\<lparr>objects := objects_clear (objects s)\<rparr>;
          s = (if restart then s\<lparr>session_slots := flush_loaded (session_slots s)\<rparr>
               else s\<lparr>session_slots := slots_clear (session_slots s),
                      cmd_audit := (cmd_audit s)\<lparr>exclusive_session := rh_UNASSIGNED\<rparr>\<rparr>);
          s = s\<lparr>nv := on_startup_clear_with restart disorderly (nv s)\<rparr>
      in s\<lparr>clock_of := (clock_of s)\<lparr>clear_count := (if restart then clear_count (clock_of s) + 1 else 0)\<rparr>\<rparr>)"

definition draw_reset_value :: "env \<Rightarrow> (tpm_state, unit) st_op" where
  "draw_reset_value E =
     st_bind (st_lift (hash_size E CONTEXT_INTEGRITY_HASH_ALG)) (\<lambda>n.
     st_bind (draw E n) (\<lambda>v. st_modify (\<lambda>s. s\<lparr>clock_of := (clock_of s)\<lparr>clk_reset_value := v\<rparr>\<rparr>)))"

definition startup_counters :: "bool \<Rightarrow> bool \<Rightarrow> bool \<Rightarrow> tpm_state \<Rightarrow> tpm_state" where
  "startup_counters restart disorderly was_started s =
     (let c = clock_of s;
          c = (if restart then c\<lparr>restart_count := restart_count c + 1\<rparr>
               else c\<lparr>reset_count := reset_count c + 1, total_reset_count := total_reset_count c + 1,
                      restart_count := 0\<rparr>);
          c = c\<lparr>time := 0, nv_elapsed := 0\<rparr>;
          s = s\<lparr>clock_of := c\<rparr>;
          s = (if disorderly \<and> was_started
               then s\<lparr>clock_of := (clock_of s)\<lparr>safe := False\<rparr>,
                      lockout_state := count_pending_failure (lockout_state s)\<rparr>
               else s)
      in if \<not> restart then s\<lparr>cmd_audit := (cmd_audit s)\<lparr>ca_digest := []\<rparr>\<rparr> else s)"

definition on_startup_clear :: "env \<Rightarrow> u8 \<Rightarrow> (tpm_state, unit) st_op" where
  "on_startup_clear E loc s =
     (let restart = (shutdown_type s = su_STATE);
          disorderly = (shutdown_type s = su_NONE);
          was_started = (ever_started s \<or> 0 < reset_count (clock_of s) \<or> 0 < restart_count (clock_of s))
      in st_bind (on_hierarchies (hierarchies_on_reset (drbg_fill E) (\<not> restart))) (\<lambda>_.
         st_bind (st_modify (startup_volatile E restart disorderly loc)) (\<lambda>_.
         st_bind (if \<not> restart then draw_reset_value E else st_return ()) (\<lambda>_.
         st_bind (st_modify (startup_counters restart disorderly was_started)) (\<lambda>_.
         st_bind (if \<not> restart then reset_commits E else st_return ()) (\<lambda>_.
         st_modify (\<lambda>s. begin_operation (\<not> disorderly) False
           (s\<lparr>act_of := act_on_reset (act_of s), lockout_state := lockout_on_startup (lockout_state s)\<rparr>))))))) s)"

definition on_startup_state :: "env \<Rightarrow> u8 \<Rightarrow> (tpm_state, unit) st_op" where
  "on_startup_state E loc s =
     (if startup_method_unknown s then (Inl (with_parameter 1 rc_VALUE), s)
      else if hcrtm_before_startup s \<noteq> hcrtm_at_last_startup s then (Inl rc_LOCALITY, s)
      else if \<not> hcrtm_before_startup s \<and> loc \<noteq> startup_locality s then (Inl rc_LOCALITY, s)
      else (let s = s\<lparr>hcrtm_before_startup := False, objects := objects_clear (objects s),
                      session_slots := flush_loaded (session_slots s), pcrs := on_resume E (pcrs s),
                      clock_of := (clock_of s)\<lparr>restart_count := restart_count (clock_of s) + 1, time := 0\<rparr>\<rparr>
            in st_bind (if \<not> is_ready (commits_of s) then reset_commits E else st_return ()) (\<lambda>_.
               st_modify (\<lambda>s. begin_operation True True
                 (s\<lparr>act_of := act_on_resume (act_of s), lockout_state := lockout_on_startup (lockout_state s)\<rparr>))) s))"

definition startup_clear_word :: "tpm_state \<Rightarrow> u32" where
  "startup_clear_word s =
     (let word = startup_clear s AND (sc_ORDERLY OR sc_READ_ONLY);
          word = (if h_enabled (platform (hierarchies s)) then word OR sc_PH_ENABLE else word);
          word = (if h_enabled (owner (hierarchies s)) then word OR sc_SH_ENABLE else word);
          word = (if h_enabled (endorsement (hierarchies s)) then word OR sc_EH_ENABLE else word)
      in if platform_nv_enabled (hierarchies s) then word OR sc_PH_ENABLE_NV else word)"

definition nv_is_no_longer_orderly :: "tpm_state \<Rightarrow> tpm_state" where
  "nv_is_no_longer_orderly s = s\<lparr>startup_clear := attr_without (startup_clear s) sc_ORDERLY\<rparr>"

text \<open>\<open>_TPM_Init\<close>.\<close>

definition on_init :: "env \<Rightarrow> (tpm_state, unit) st_op" where
  "on_init E s =
     (case (if allocation (pcrs s) \<noteq> pcr_allocation s then allocate E (pcr_allocation s) (pcrs s)
            else (Inr (), pcrs s)) of
        (Inl e, p) \<Rightarrow> (Inl e, s\<lparr>pcrs := p\<rparr>)
      | (Inr _, p) \<Rightarrow>
          (Inr (), s\<lparr>pcrs := p, hcrtm_before_startup := False, hcrtm_sequence := None,
             pcr_allocation_pending := False,
             hierarchies := (hierarchies s)\<lparr>platform := platform (hierarchies s)\<lparr>h_enabled := True\<rparr>\<rparr>\<rparr>))"

section \<open>Time and TPM2_Clear\<close>

definition advance_time :: "u64 \<Rightarrow> tpm_state \<Rightarrow> bool \<times> tpm_state" where
  "advance_time ms s =
     (if ms = 0 then (False, s)
      else (let (ms, c) = scaled_millis ms (clock_of s); s = s\<lparr>clock_of := c\<rparr>
            in if ms = 0 then (False, s)
               else (let c = credit ms (clock_of s);
                         s = s\<lparr>clock_of := c, act_of := act_advance ms (act_of s),
                               lockout_state := on_time (time c) (lockout_state s)\<rparr>;
                         (due, c) = nv_due ms (clock_of s)
                     in (due, s\<lparr>clock_of := c\<rparr>))))"

definition on_clear :: "env \<Rightarrow> (tpm_state, unit) st_op" where
  "on_clear E =
     st_bind (on_hierarchies (hierarchies_on_clear (drbg_fill E))) (\<lambda>_.
       st_modify (\<lambda>s. s\<lparr>lockout_state := lockout_default,
         permanent := permanent s AND pa_TPM_GENERATED_EPS,
         nv := clear_owner_indices (nv s),
         persistent := bt_retain (\<lambda>h _. hc_PLATFORM_PERSISTENT \<le> h) (persistent s),
         objects := flush_hierarchy rh_ENDORSEMENT (flush_hierarchy rh_OWNER (objects s)),
         clock_of := (clock_of s)\<lparr>clock := 0, nv_elapsed := 0, reset_count := 0, restart_count := 0, safe := True\<rparr>,
         pcrs := bump_update_counter (pcrs s),
         cmd_audit := (cmd_audit s)\<lparr>ca_counter := 0\<rparr>\<rparr>))"

definition hierarchy_proof :: "env \<Rightarrow> u32 \<Rightarrow> tpm_state \<Rightarrow> bytes tpm_result" where
  "hierarchy_proof E h s = proof_of E h (hierarchies s)"

text \<open>A started TPM in its manufactured state, for the concrete instances of the properties.\<close>

definition demo_tpm :: tpm_state where
  "demo_tpm = \<lparr>hierarchies = demo_hierarchies, lockout_state = lockout_default, permanent = pa_TPM_GENERATED_EPS,
     clock_of = clock_default\<lparr>safe := True\<rparr>, pcr_allocation = whole_banks DEFAULT_PCR_BANKS,
     nv = store_new, persistent = [], pp_commands = [], cmd_audit = command_audit_default, algorithm_set = 0,
     lockout_auth = [7], lockout_policy = tpmt_ha_null, pcr_auth = [], pcr_policy = tpmt_ha_null,
     manufactured = True, shutdown_type = su_NONE, started = True, startup_clear = 0,
     pcr_allocation_pending = False, pcrs = demo_banks, objects = objects_new, session_slots = slots_new,
     locality = 0, physical_presence = False, nv_available = True, nv_write_failed = False,
     failure_mode = False, self_test_done = True, test_digest = [], test_failure = None,
     rng = \<lparr>d_key = [1], d_value = [2], reseed_counter = 1\<rparr>, commits_of = demo_commits, ever_started = True,
     act_of = act_default, hcrtm_sequence = None, hcrtm_before_startup = False, hcrtm_at_last_startup = False,
     startup_method_unknown = False, startup_locality = 0, command_audit_suppressed = False\<rparr>"

end
