(* ===== verification/Dispatch.thy ===== *)
theory Dispatch
  imports TpmState
begin

text \<open>
  The command buffer and the request it parses to (\<open>src/tpm/device.rs\<close>, \<open>src/tpm/commands/dispatch.rs\<close>),
  the entities handles name with their authorization values, and the checks of handles and sessions
  that come before any authorization. The octet counter a request shares with the readers of its
  commands is left out: every modelled command checks the end of its parameters itself.
\<close>

definition HEADER_SIZE :: nat where "HEADER_SIZE = 10"
definition MAX_COMMAND_SIZE :: u32 where "MAX_COMMAND_SIZE = 4096"
definition MAX_SESSION_NUM :: nat where "MAX_SESSION_NUM = 3"

section \<open>The header\<close>

record command_header =
  hd_tag :: u16
  hd_size :: u32
  hd_code :: u32

definition parse_header :: "bytes \<Rightarrow> command_header tpm_result" where
  "parse_header buf =
     (if length buf < 2 then Inl rc_COMMAND_SIZE
      else let tag = from_be (slice buf 0 2) in
        if tag \<noteq> st_NO_SESSIONS \<and> tag \<noteq> st_SESSIONS then Inl rc_TAG
        else if length buf < HEADER_SIZE then Inl rc_COMMAND_SIZE
        else let size = from_be (slice buf 2 6) in
          if unat (size :: u32) \<noteq> length buf then Inl rc_COMMAND_SIZE
          else if MAX_COMMAND_SIZE < size then Inl rc_COMMAND_SIZE
          else Inr \<lparr>hd_tag = tag, hd_size = size, hd_code = from_be (slice buf 6 10)\<rparr>)"

definition error_response :: "tpm_rc \<Rightarrow> bytes" where
  "error_response code = wbuf (w_u32 code (w_u32 (of_nat HEADER_SIZE) (w_u16 st_NO_SESSIONS writer_new)))"

section \<open>The request\<close>

record auth_command =
  in_handle :: u32
  in_nonce :: bytes
  in_attributes :: u8
  in_hmac :: bytes

definition auth_command_put :: "auth_command \<Rightarrow> writer \<Rightarrow> writer" where
  "auth_command_put a w =
     tpm2b_put (in_hmac a) (w_u8 (in_attributes a) (tpm2b_put (in_nonce a) (w_u32 (in_handle a) w)))"

definition auth_command_get :: "reader \<Rightarrow> (auth_command \<times> reader) tpm_result" where
  "auth_command_get r =
     res_bind (r_u32 r) (\<lambda>(h, r).
     res_bind (tpm2b_get MAX_DIGEST_SIZE r) (\<lambda>(n, r).
     res_bind (unmarshal_attr sa_reserved r_u8 r) (\<lambda>(a, r).
     res_bind (tpm2b_get MAX_DIGEST_SIZE r) (\<lambda>(m, r).
       Inr (\<lparr>in_handle = h, in_nonce = n, in_attributes = a, in_hmac = m\<rparr>, r)))))"

record request =
  rq_info :: command_info
  rq_tag :: u16
  rq_code :: u32
  rq_handles :: "u32 list"
  rq_sessions :: "auth_command list"
  rq_parameters :: bytes
  rq_locality :: u8

definition rq_handle :: "request \<Rightarrow> nat \<Rightarrow> u32 tpm_result" where
  "rq_handle q i = ok_or (get_at (rq_handles q) i) rc_VALUE"

definition requires_no_sessions :: "u32 \<Rightarrow> bool" where
  "requires_no_sessions c = (c \<in> set [cc_ContextSave, cc_ContextLoad, cc_FlushContext, cc_Startup])"

text \<open>The loop over the authorization area; the first argument is how many more sessions it takes.\<close>

fun parse_sessions :: "nat \<Rightarrow> reader \<Rightarrow> auth_command list tpm_result" where
  "parse_sessions 0 area = (if r_is_empty area then Inr [] else Inl rc_AUTHSIZE)"
| "parse_sessions (Suc n) area =
     (if r_is_empty area then Inr []
      else res_bind (auth_command_get area) (\<lambda>(a, area).
             res_bind (parse_sessions n area) (\<lambda>as. Inr (a # as))))"

definition parse_authorizations :: "u32 \<Rightarrow> reader \<Rightarrow> (auth_command list \<times> reader) tpm_result" where
  "parse_authorizations code r =
     (if requires_no_sessions code then Inl rc_AUTH_CONTEXT
      else res_bind (r_u32 r) (\<lambda>(size, r).
        if unat size < 9 \<or> remaining r < unat size then Inl rc_AUTHSIZE
        else res_bind (r_sub (unat size) r) (\<lambda>(area, r).
             res_bind (parse_sessions MAX_SESSION_NUM area) (\<lambda>as.
               if as = [] then Inl rc_AUTHSIZE else Inr (as, r)))))"

definition parse :: "bytes \<Rightarrow> u8 \<Rightarrow> request tpm_result" where
  "parse buf loc =
     res_bind (parse_header buf) (\<lambda>hd.
     res_bind (ok_or (lookup_command (hd_code hd)) rc_COMMAND_CODE) (\<lambda>info.
     res_bind (unmarshal_items r_u32 (ci_handles info) (reader_new (drop HEADER_SIZE buf))) (\<lambda>(hs, r).
     res_bind (if hd_tag hd = st_SESSIONS then parse_authorizations (hd_code hd) r
               else if 0 < ci_auth_handles info then Inl rc_AUTH_MISSING
               else Inr ([], r)) (\<lambda>(as, r).
       Inr \<lparr>rq_info = info, rq_tag = hd_tag hd, rq_code = hd_code hd, rq_handles = hs, rq_sessions = as,
            rq_parameters = fst (take_rest r), rq_locality = loc\<rparr>))))"

section \<open>What a handle names\<close>

definition name_of :: "env \<Rightarrow> tpm_state \<Rightarrow> u32 \<Rightarrow> bytes tpm_result" where
  "name_of E s h =
     (if name_is_handle h then Inr (handle_name h)
      else if is_transient h then res_bind (objects_get h (objects s)) (\<lambda>x. Inr (slot_name x))
      else if is_persistent h then res_bind (ok_or (bt_get (persistent s) h) rc_HANDLE) (\<lambda>x. Inr (obj_name x))
      else if is_nv_handle h then res_bind (store_get h (nv s)) (\<lambda>i. index_name E i)
      else Inr (handle_name h))"

definition handle_is_present :: "tpm_state \<Rightarrow> u32 \<Rightarrow> bool" where
  "handle_is_present s h =
     (if is_transient h then is_ok (objects_get h (objects s))
      else if is_session_handle h then is_ok (slots_get h (session_slots s))
      else True)"

definition index_reachable :: "tpm_state \<Rightarrow> nv_index \<Rightarrow> bool" where
  "index_reachable s i =
     (if attr_has (np_attributes (nv_public i)) nv_PLATFORMCREATE then platform_nv_enabled (hierarchies s)
      else h_enabled (owner (hierarchies s)))"

definition check_handle_available :: "tpm_state \<Rightarrow> u32 \<Rightarrow> unit tpm_result" where
  "check_handle_available s h =
     (if is_limited h then (if \<not> is_enabled (hierarchies s) h then Inl rc_HIERARCHY else Inr ())
      else if is_hierarchy h then (if \<not> is_enabled (hierarchies s) h then Inl rc_HIERARCHY else Inr ())
      else if is_persistent h then
        (case bt_get (persistent s) h of
           Some x \<Rightarrow> if \<not> is_enabled (hierarchies s) (obj_hierarchy x) then Inl rc_HIERARCHY else Inr ()
         | None \<Rightarrow> Inr ())
      else if is_transient h then
        (case objects_get h (objects s) of
           Inr (Object_slot x) \<Rightarrow> if \<not> is_enabled (hierarchies s) (obj_hierarchy x) then Inl rc_HIERARCHY else Inr ()
         | _ \<Rightarrow> Inr ())
      else if is_nv_handle h then
        (case store_get h (nv s) of
           Inr i \<Rightarrow> if \<not> index_reachable s i then Inl rc_HANDLE else Inr ()
         | Inl _ \<Rightarrow> Inr ())
      else Inr ())"

section \<open>Entities\<close>

record entity =
  en_name :: bytes
  en_auth :: bytes
  en_policy :: "(u16 \<times> bytes) option"
  uses_lockout :: bool
  user_with_auth :: bool
  admin_with_policy :: bool
  en_pin :: "u32 option"

definition policy_of :: "tpmt_ha \<Rightarrow> (u16 \<times> bytes) option" where
  "policy_of p = (if ha_alg p = alg_NULL \<or> ha_digest p = [] then None else Some (ha_alg p, ha_digest p))"

definition object_policy :: "tpmt_public \<Rightarrow> (u16 \<times> bytes) option" where
  "object_policy p = (if auth_policy p = [] then None else Some (name_alg p, auth_policy p))"

text \<open>The hierarchies and the other permanent entities.\<close>

definition permanent_entity :: "bytes \<Rightarrow> bytes \<Rightarrow> (u16 \<times> bytes) option \<Rightarrow> bool \<Rightarrow> bool \<Rightarrow> entity" where
  "permanent_entity name auth pol lockout user =
     \<lparr>en_name = name, en_auth = auth, en_policy = pol, uses_lockout = lockout, user_with_auth = user,
      admin_with_policy = True, en_pin = None\<rparr>"

definition object_entity :: "bytes \<Rightarrow> object \<Rightarrow> entity tpm_result" where
  "object_entity name x =
     (if is_public_only x then Inl rc_AUTH_UNAVAILABLE
      else let a = object_attributes (obj_public x) in
        Inr \<lparr>en_name = name, en_auth = obj_auth x, en_policy = object_policy (obj_public x),
             uses_lockout = (\<not> attr_has a oa_NO_DA), user_with_auth = attr_has a oa_USER_WITH_AUTH,
             admin_with_policy = attr_has a oa_ADMIN_WITH_POLICY, en_pin = None\<rparr>)"

definition sequence_entity :: "bytes \<Rightarrow> sequence \<Rightarrow> entity" where
  "sequence_entity name q =
     \<lparr>en_name = name, en_auth = seq_auth q, en_policy = None, uses_lockout = False, user_with_auth = True,
      admin_with_policy = False, en_pin = None\<rparr>"

definition index_entity :: "bytes \<Rightarrow> nv_index \<Rightarrow> entity" where
  "index_entity name i =
     (let p = nv_public i in
      \<lparr>en_name = name, en_auth = nv_auth i,
       en_policy = (if np_policy p = [] then None else Some (np_name_alg p, np_policy p)),
       uses_lockout = (\<not> attr_has (np_attributes p) nv_NO_DA), user_with_auth = True, admin_with_policy = True,
       en_pin = (if nt_of i = nt_PIN_FAIL \<or> nt_of i = nt_PIN_PASS then Some (np_index p) else None)\<rparr>)"

text \<open>The base of a limited hierarchy authorizes in its place.\<close>

definition authorizing_handle :: "u32 \<Rightarrow> u32" where
  "authorizing_handle h = (if is_limited h then (case base_of h of Some b \<Rightarrow> b | None \<Rightarrow> h) else h)"

definition entity_of :: "env \<Rightarrow> tpm_state \<Rightarrow> u32 \<Rightarrow> entity tpm_result" where
  "entity_of E s h =
     res_bind (name_of E s h) (\<lambda>name.
       if is_hierarchy (authorizing_handle h) then
         res_bind (hierarchy_get (hierarchies s) (authorizing_handle h)) (\<lambda>x.
           Inr (permanent_entity name (h_auth x) (policy_of (h_policy x)) False True))
       else if h = rh_LOCKOUT then
         Inr (permanent_entity name (lockout_auth s) (policy_of (lockout_policy s)) True True)
       else if is_act_handle h then
         res_bind (hierarchy_get (hierarchies s) rh_PLATFORM) (\<lambda>x.
           let on = h_enabled (platform (hierarchies s)) in
           Inr (permanent_entity name (if on then h_auth x else []) (policy_of (act_policy (act_of s))) False on))
       else if h = rh_PLATFORM_NV then
         res_bind (hierarchy_get (hierarchies s) rh_PLATFORM) (\<lambda>x.
           Inr (permanent_entity name (h_auth x) (policy_of (h_policy x)) False True))
       else if is_pcr_handle h then
         Inr (permanent_entity name (pcr_auth s) (policy_of (pcr_policy s)) False True)
       else if is_transient h then
         res_bind (objects_get h (objects s)) (\<lambda>x.
           case x of Object_slot x \<Rightarrow> object_entity name x | Sequence_slot q \<Rightarrow> Inr (sequence_entity name q))
       else if is_persistent h then
         res_bind (ok_or (bt_get (persistent s) h) rc_HANDLE) (\<lambda>x.
           if \<not> is_enabled (hierarchies s) (obj_hierarchy x) then Inl rc_HIERARCHY else object_entity name x)
       else if is_nv_handle h then
         res_bind (store_get h (nv s)) (\<lambda>i.
           if \<not> index_reachable s i then Inl rc_HANDLE else Inr (index_entity name i))
       else Inl rc_HANDLE)"

section \<open>The session area\<close>

fun check_session_handles_from :: "nat \<Rightarrow> tpm_state \<Rightarrow> auth_command list \<Rightarrow> unit tpm_result" where
  "check_session_handles_from i s [] = Inr ()"
| "check_session_handles_from i s (a # as) =
     (if in_handle a = rh_RS_PW then check_session_handles_from (i + 1) s as
      else if \<not> is_session_handle (in_handle a) then Inl (with_session (i + 1) rc_HANDLE)
      else if \<not> is_ok (slots_get (in_handle a) (session_slots s)) then Inl (rc_REFERENCE_S0 + of_nat i)
      else check_session_handles_from (i + 1) s as)"

definition check_session_handles :: "tpm_state \<Rightarrow> request \<Rightarrow> unit tpm_result" where
  "check_session_handles s q = check_session_handles_from 0 s (rq_sessions q)"

abbreviation (input) sa_uses :: u8 where "sa_uses \<equiv> sa_DECRYPT OR sa_ENCRYPT OR sa_AUDIT"

text \<open>
  The loop of \<open>check_session_attributes\<close>; the three flags say whether a session seen so far audits, decrypts
  and encrypts.
\<close>

fun check_attributes_from :: "nat \<Rightarrow> nat \<Rightarrow> bool \<times> bool \<times> bool \<Rightarrow> auth_command list \<Rightarrow> unit tpm_result" where
  "check_attributes_from auth_handles i seen [] = Inr ()"
| "check_attributes_from auth_handles i (aud, dec, enc) (a # as) =
     (let at = in_attributes a; err = Inl (with_session (i + 1) rc_ATTRIBUTES) in
      if in_handle a = rh_RS_PW \<and> attr_any at sa_uses then err
      else if \<not> attr_has at sa_AUDIT \<and> attr_any at (sa_AUDIT_EXCLUSIVE OR sa_AUDIT_RESET) then err
      else if attr_has at sa_AUDIT \<and> (aud \<or> i < auth_handles) then err
      else if attr_has at sa_DECRYPT \<and> dec then err
      else if attr_has at sa_ENCRYPT \<and> enc then err
      else if auth_handles \<le> i \<and> \<not> attr_any at sa_uses then err
      else check_attributes_from auth_handles (i + 1)
             (aud \<or> attr_has at sa_AUDIT, dec \<or> attr_has at sa_DECRYPT, enc \<or> attr_has at sa_ENCRYPT) as)"

definition check_session_attributes :: "request \<Rightarrow> unit tpm_result" where
  "check_session_attributes q =
     check_attributes_from (ci_auth_handles (rq_info q)) 0 (False, False, False) (rq_sessions q)"

definition position :: "('a \<Rightarrow> bool) \<Rightarrow> 'a list \<Rightarrow> nat option" where
  "position P xs = (let i = length (takeWhile (\<lambda>x. \<not> P x) xs) in if i < length xs then Some i else None)"

definition audit_session_index :: "request \<Rightarrow> nat option" where
  "audit_session_index q = position (\<lambda>a. attr_has (in_attributes a) sa_AUDIT) (rq_sessions q)"

definition check_audit_session :: "tpm_state \<Rightarrow> request \<Rightarrow> unit tpm_result" where
  "check_audit_session s q =
     (case audit_session_index q of
        None \<Rightarrow> Inr ()
      | Some i \<Rightarrow>
          (let a = rq_sessions q ! i in
           res_bind (slots_get (in_handle a) (session_slots s)) (\<lambda>x.
             if \<not> is_hmac x then Inl (with_session (i + 1) rc_ATTRIBUTES)
             else if attr_has (in_attributes a) sa_AUDIT_EXCLUSIVE
                  \<and> exclusive_session (cmd_audit s) \<noteq> in_handle a then Inl rc_EXCLUSIVE
             else Inr ())))"

definition auxiliary_nonces :: "tpm_state \<Rightarrow> request \<Rightarrow> nat \<Rightarrow> bytes \<times> bytes" where
  "auxiliary_nonces s q for_index =
     (if for_index \<noteq> 0 then ([], [])
      else let at = (\<lambda>bit. position (\<lambda>a. attr_has (in_attributes a) bit) (rq_sessions q));
               nonce_at = (\<lambda>i. case i of
                   None \<Rightarrow> []
                 | Some i \<Rightarrow> (case slots_get (in_handle (rq_sessions q ! i)) (session_slots s) of
                     Inr x \<Rightarrow> nonce_tpm x | Inl _ \<Rightarrow> []));
               d = at sa_DECRYPT;
               e = at sa_ENCRYPT
           in (nonce_at d, if e \<noteq> None \<and> e \<noteq> d then nonce_at e else []))"

definition allowed_before_startup :: "u32 \<Rightarrow> bool" where
  "allowed_before_startup c = (c = cc_Startup)"

definition allowed_in_failure_mode :: "u32 \<Rightarrow> bool" where
  "allowed_in_failure_mode c = (c = cc_GetTestResult \<or> c = cc_GetCapability)"

end
