(* ===== verification/Authz.thy ===== *)
theory Authz
  imports Dispatch
begin

text \<open>
  Checking one authorization (\<open>src/tpm/commands/dispatch.rs\<close>): which sessions may stand for which role,
  Lockout mode, the PIN counters of NV indices, the password and HMAC comparisons, and the policy
  of a policy session. The functions on \<open>&mut TpmState\<close> return the state also on an error, since
  a failed attempt is counted.
\<close>

section \<open>Lockout mode\<close>

definition auth_is_policy :: "tpm_state \<Rightarrow> request \<Rightarrow> nat \<Rightarrow> bool" where
  "auth_is_policy s q i =
     (case get_at (rq_sessions q) i of
        None \<Rightarrow> False
      | Some a \<Rightarrow>
          if in_handle a = rh_RS_PW then False
          else (case slots_get (in_handle a) (session_slots s) of Inr x \<Rightarrow> is_policy x | Inl _ \<Rightarrow> False))"

definition da_protected :: "tpm_state \<Rightarrow> request \<Rightarrow> nat \<Rightarrow> entity \<Rightarrow> bool" where
  "da_protected s q i e =
     (if uses_lockout e then True
      else let a = rq_sessions q ! i in
        if in_handle a = rh_RS_PW then False
        else (case slots_get (in_handle a) (session_slots s) of Inr x \<Rightarrow> bind_uses_lockout x | Inl _ \<Rightarrow> False))"

definition names_lockout :: "request \<Rightarrow> nat \<Rightarrow> bool" where
  "names_lockout q i = (get_at (rq_handles q) i = Some rh_LOCKOUT)"

definition session_uses_auth_value :: "tpm_state \<Rightarrow> auth_command \<Rightarrow> bool" where
  "session_uses_auth_value s a =
     (if in_handle a = rh_RS_PW then True
      else case slots_get (in_handle a) (session_slots s) of
          Inr x \<Rightarrow> bind_uses_lockout x \<or> \<not> is_policy x \<or> auth_value_needed (policy x) \<or> password_needed (policy x)
        | Inl _ \<Rightarrow> True)"

definition check_lockout :: "tpm_state \<Rightarrow> request \<Rightarrow> nat \<Rightarrow> bool \<Rightarrow> unit tpm_result" where
  "check_lockout s q i protected =
     (let l = lockout_state s;
          barred = (if protected then locked_out l else False) \<or> (in_lockout l \<and> names_lockout q i)
      in if \<not> barred then Inr ()
         else if rq_code q = cc_DictionaryAttackLockReset then Inr ()
         else if session_uses_auth_value s (rq_sessions q ! i) then Inl rc_LOCKOUT
         else Inr ())"

section \<open>What the role and the index allow\<close>

definition nv_access_bit :: "nv_access \<Rightarrow> bool \<Rightarrow> u32" where
  "nv_access_bit access is_pol =
     (case (access, is_pol) of
        (Nv_writes, True) \<Rightarrow> nv_POLICYWRITE | (Nv_writes, False) \<Rightarrow> nv_AUTHWRITE
      | (Nv_reads, True) \<Rightarrow> nv_POLICYREAD | (Nv_reads, False) \<Rightarrow> nv_AUTHREAD)"

definition check_nv_authorization_available :: "tpm_state \<Rightarrow> request \<Rightarrow> nat \<Rightarrow> role \<Rightarrow> unit tpm_result" where
  "check_nv_authorization_available s q i r =
     (if r \<noteq> R_User then Inr ()
      else case nv_access_of (rq_code q) of
          None \<Rightarrow> Inr ()
        | Some access \<Rightarrow>
            res_bind (rq_handle q i) (\<lambda>h.
              if \<not> is_nv_handle h then Inr ()
              else if (case nv_index_handle (rq_code q) of
                         Some p \<Rightarrow> get_at (rq_handles q) p \<noteq> Some h | None \<Rightarrow> False) then Inr ()
              else res_bind (store_get h (nv s)) (\<lambda>x.
                if attr_has (np_attributes (nv_public x)) (nv_access_bit access (auth_is_policy s q i)) then Inr ()
                else Inl (with_session (i + 1) rc_AUTH_UNAVAILABLE))))"

definition check_role_allows_auth_value :: "role \<Rightarrow> entity \<Rightarrow> nat \<Rightarrow> unit tpm_result" where
  "check_role_allows_auth_value r e pos =
     (case r of
        R_Dup \<Rightarrow> Inl (with_session pos rc_AUTH_TYPE)
      | R_Admin \<Rightarrow> if admin_with_policy e then Inl (with_session pos rc_AUTH_TYPE) else Inr ()
      | _ \<Rightarrow> Inr ())"

section \<open>The counters\<close>

definition check_pin_available :: "tpm_state \<Rightarrow> entity \<Rightarrow> unit tpm_result" where
  "check_pin_available s e =
     (case en_pin e of
        None \<Rightarrow> Inr ()
      | Some h \<Rightarrow>
          res_bind (store_get h (nv s)) (\<lambda>x.
            if \<not> written x then Inl rc_AUTH_UNAVAILABLE
            else res_bind (nv_pin_counters x) (\<lambda>c.
              if pin_limit c \<le> pin_count c then Inl rc_AUTH_FAIL else Inr ())))"

definition next_pin_count :: "bool \<Rightarrow> bool \<Rightarrow> u32 \<Rightarrow> u32" where
  "next_pin_count fail_index succeeded n =
     (case (fail_index, succeeded) of
        (True, True) \<Rightarrow> 0 | (True, False) \<Rightarrow> saturating_add n 1
      | (False, True) \<Rightarrow> saturating_add n 1 | (False, False) \<Rightarrow> n)"

definition move_pin :: "bool \<Rightarrow> (nv_index, unit) st_op" where
  "move_pin succeeded x =
     (case nv_pin_counters x of
        Inl e \<Rightarrow> (Inl e, x)
      | Inr c \<Rightarrow> set_pin_counters (c\<lparr>pin_count := next_pin_count (nt_of x = nt_PIN_FAIL) succeeded (pin_count c)\<rparr>) x)"

definition record_pin_attempt :: "entity \<Rightarrow> bool \<Rightarrow> (tpm_state, unit) st_op" where
  "record_pin_attempt e succeeded s =
     (case en_pin e of
        None \<Rightarrow> (Inr (), s)
      | Some h \<Rightarrow> (case store_at h (move_pin succeeded) (nv s) of (r, n) \<Rightarrow> (r, s\<lparr>nv := n\<rparr>)))"

text \<open>The failures the lockout state counts, which read Time from the clock.\<close>

definition note_failure :: "bool \<Rightarrow> tpm_state \<Rightarrow> tpm_state" where
  "note_failure uses s = s\<lparr>lockout_state := record_failure uses (time (clock_of s)) (lockout_state s)\<rparr>"

definition note_lockout_failure :: "tpm_state \<Rightarrow> tpm_state" where
  "note_lockout_failure s = s\<lparr>lockout_state := record_lockout_failure (time (clock_of s)) (lockout_state s)\<rparr>"

section \<open>Passwords and HMACs\<close>

definition failure_code :: "bool \<Rightarrow> tpm_rc" where
  "failure_code protected = (if protected then rc_AUTH_FAIL else rc_BAD_AUTH)"

definition compare_auth :: "bytes \<Rightarrow> bytes \<Rightarrow> bool \<Rightarrow> bool \<Rightarrow> (tpm_state, unit) st_op" where
  "compare_auth given expected protected is_lockout_auth s =
     (if constant_time_eq (trim_auth given) (trim_auth expected) then (Inr (), s)
      else let s = (if is_lockout_auth then note_lockout_failure s else s)
           in (Inl (failure_code protected), note_failure protected s))"

text \<open>A password, with the PIN counters around it.\<close>

definition password_check :: "request \<Rightarrow> nat \<Rightarrow> entity \<Rightarrow> bool \<Rightarrow> (tpm_state, unit) st_op" where
  "password_check q i e protected s =
     (case map_err (with_session (i + 1)) (check_pin_available s e) of
        Inl c \<Rightarrow> (Inl c, s)
      | Inr _ \<Rightarrow>
          (case compare_auth (in_hmac (rq_sessions q ! i)) (en_auth e) protected (names_lockout q i) s of
             (outcome, s) \<Rightarrow>
               st_bind (record_pin_attempt e (is_ok outcome))
                 (\<lambda>_. st_lift (map_err (with_session (i + 1)) outcome)) s))"

definition expected_hmac :: "env \<Rightarrow> tpm_state \<Rightarrow> request \<Rightarrow> nat \<Rightarrow> session \<Rightarrow> bytes \<Rightarrow> bytes \<Rightarrow> bytes tpm_result" where
  "expected_hmac E s q i x key cp =
     (let a = rq_sessions q ! i; (d, e) = auxiliary_nonces s q i
      in auth_hmac_with_nonces E (auth_hash x) key cp (in_nonce a) (nonce_tpm x) d e (in_attributes a))"

definition hmac_check :: "env \<Rightarrow> request \<Rightarrow> nat \<Rightarrow> entity \<Rightarrow> bytes \<Rightarrow> session \<Rightarrow> bool \<Rightarrow> (tpm_state, unit) st_op" where
  "hmac_check E q i e cp x protected s =
     (let key = hmac_key x (en_name e) (en_auth e) in
      case expected_hmac E s q i x key cp of
        Inl c \<Rightarrow> (Inl c, s)
      | Inr expected \<Rightarrow>
          (case map_err (with_session (i + 1)) (check_pin_available s e) of
             Inl c \<Rightarrow> (Inl c, s)
           | Inr _ \<Rightarrow>
               (let accepted = auth_hmac_accepted key expected (in_hmac (rq_sessions q ! i)) in
                st_bind (record_pin_attempt e accepted) (\<lambda>_ s.
                  if \<not> accepted then
                    (let s = (if names_lockout q i then note_lockout_failure s else s)
                     in (Inl (with_session (i + 1) (failure_code protected)), note_failure protected s))
                  else (Inr (), s)) s)))"

section \<open>Policy sessions\<close>

fun first_sized_parameter_at :: "bytes \<Rightarrow> nat \<Rightarrow> bytes option" where
  "first_sized_parameter_at b 0 =
     (if length b < 2 then None
      else let size = unat (from_be (slice b 0 2) :: u16)
           in if length b < 2 + size then None else Some (slice b 2 (2 + size)))"
| "first_sized_parameter_at b (Suc n) =
     (if length b < 2 then None
      else let size = unat (from_be (slice b 0 2) :: u16)
           in if length b < 2 + size then None else first_sized_parameter_at (drop (2 + size) b) n)"

definition deny :: "bool \<Rightarrow> tpm_rc \<Rightarrow> unit tpm_result" where
  "deny bad c = (if bad then Inl c else Inr ())"

definition locality_bit :: "u8 \<Rightarrow> u8" where
  "locality_bit l = (if l < 5 then push_bit (unat l) 1 else 0)"

text \<open>The name of every handle of the request, hashed; the first handle that has none is the answer.\<close>

fun names_hashed :: "env \<Rightarrow> tpm_state \<Rightarrow> u32 list \<Rightarrow> hasher \<Rightarrow> hasher tpm_result" where
  "names_hashed E s [] h = Inr h"
| "names_hashed E s (x # xs) h = res_bind (name_of E s x) (\<lambda>n. names_hashed E s xs (hasher_update n h))"

text \<open>The assertions the policy recorded that must still hold, in the code's order.\<close>

definition policy_assertions ::
  "env \<Rightarrow> tpm_state \<Rightarrow> request \<Rightarrow> nat \<Rightarrow> bytes \<Rightarrow> session \<Rightarrow> unit tpm_result" where
  "policy_assertions E s q i cp x =
     (let p = policy x; fail = with_session (i + 1) rc_POLICY_FAIL in
      res_bind (case pol_command_code p of
          Some c \<Rightarrow> deny (c \<noteq> rq_code q) (with_session (i + 1) rc_POLICY_CC) | None \<Rightarrow> Inr ()) (\<lambda>_.
      res_bind (case pol_cp_hash p of
          Some h \<Rightarrow> deny (\<not> constant_time_eq h cp) fail | None \<Rightarrow> Inr ()) (\<lambda>_.
      res_bind (case pol_locality p of
          Some m \<Rightarrow> deny (m AND locality_bit (rq_locality q) = 0) rc_LOCALITY | None \<Rightarrow> Inr ()) (\<lambda>_.
      res_bind (case pol_pcr_counter p of
          Some n \<Rightarrow> deny (n \<noteq> update_counter (pcrs s)) (with_session (i + 1) rc_PCR_CHANGED) | None \<Rightarrow> Inr ()) (\<lambda>_.
      res_bind (case expiration p of
          Some t \<Rightarrow> deny (time_epoch x \<noteq> clk_epoch (clock_of s) \<or> t < time (clock_of s))
                         (with_session (i + 1) rc_EXPIRED)
        | None \<Rightarrow> Inr ()) (\<lambda>_.
      res_bind (deny (channel_required p) rc_CHANNEL) (\<lambda>_.
      res_bind (deny (pp_required p \<and> \<not> physical_presence s) rc_PP) (\<lambda>_.
      res_bind (case pol_nv_written p of
          Some w \<Rightarrow> (case store_get (case rq_handles q of h # _ \<Rightarrow> h | [] \<Rightarrow> 0) (nv s) of
                      Inr n \<Rightarrow> deny (written n \<noteq> w) fail | Inl _ \<Rightarrow> Inl fail)
        | None \<Rightarrow> Inr ()) (\<lambda>_.
      res_bind (case pol_name_hash p of
          Some h \<Rightarrow> res_bind (hasher_new E (auth_hash x)) (\<lambda>z.
                     res_bind (names_hashed E s (rq_handles q) z) (\<lambda>z.
                       deny (\<not> constant_time_eq h (hasher_finish E z)) fail))
        | None \<Rightarrow> Inr ()) (\<lambda>_.
      res_bind (case template_hash p of
          Some h \<Rightarrow> res_bind (ok_or (first_sized_parameter_at (rq_parameters q) 1) fail) (\<lambda>t.
                     res_bind (digest E (auth_hash x) t) (\<lambda>g. deny (\<not> constant_time_eq h g) fail))
        | None \<Rightarrow> Inr ()) (\<lambda>_.
      (case parameters_hash p of
          Some h \<Rightarrow> res_bind (digest_parts E (auth_hash x) [to_be 4 (rq_code q), rq_parameters q]) (\<lambda>g.
                     deny (\<not> constant_time_eq h g) fail)
        | None \<Rightarrow> Inr ()))))))))))))"

definition policy_matches :: "nat \<Rightarrow> entity \<Rightarrow> session \<Rightarrow> unit tpm_result" where
  "policy_matches i e x =
     (case en_policy e of
        None \<Rightarrow> Inl (with_session (i + 1) rc_AUTH_UNAVAILABLE)
      | Some (a, d) \<Rightarrow>
          if a \<noteq> auth_hash x then Inl (with_session (i + 1) rc_POLICY_FAIL)
          else deny (\<not> constant_time_eq (pol_digest (policy x)) d) (with_session (i + 1) rc_POLICY_FAIL))"

text \<open>The HMAC of a policy session, keyed with the entity's value where the policy calls for it.\<close>

definition policy_hmac_check ::
  "env \<Rightarrow> request \<Rightarrow> nat \<Rightarrow> entity \<Rightarrow> bytes \<Rightarrow> session \<Rightarrow> bool \<Rightarrow> (tpm_state, unit) st_op" where
  "policy_hmac_check E q i e cp x protected s =
     (let key = hmac_key x (en_name e) (en_auth e); uses = auth_value_needed (policy x) in
      case expected_hmac E s q i x key cp of
        Inl c \<Rightarrow> (Inl c, s)
      | Inr expected \<Rightarrow>
          (case (if uses then map_err (with_session (i + 1)) (check_pin_available s e) else Inr ()) of
             Inl c \<Rightarrow> (Inl c, s)
           | Inr _ \<Rightarrow>
               (let accepted = auth_hmac_accepted key expected (in_hmac (rq_sessions q ! i)) in
                st_bind (if uses then record_pin_attempt e accepted else st_return ()) (\<lambda>_ s.
                  if \<not> accepted then
                    (Inl (with_session (i + 1) (failure_code protected)), note_failure protected s)
                  else (Inr (), s)) s)))"

definition check_policy ::
  "env \<Rightarrow> request \<Rightarrow> nat \<Rightarrow> entity \<Rightarrow> bytes \<Rightarrow> session \<Rightarrow> bool \<Rightarrow> (tpm_state, unit) st_op" where
  "check_policy E q i e cp x protected s =
     (case res_bind (policy_matches i e x) (\<lambda>_. policy_assertions E s q i cp x) of
        Inl c \<Rightarrow> (Inl c, s)
      | Inr _ \<Rightarrow>
          if password_needed (policy x) then password_check q i e protected s
          else policy_hmac_check E q i e cp x protected s)"

section \<open>One authorization\<close>

definition check_authorization :: "env \<Rightarrow> request \<Rightarrow> nat \<Rightarrow> entity \<Rightarrow> bytes \<Rightarrow> (tpm_state, unit) st_op" where
  "check_authorization E q i e cp s =
     (let a = rq_sessions q ! i; pos = i + 1; protected = da_protected s q i e; r = role_of (rq_code q) i in
      case res_bind (check_lockout s q i protected) (\<lambda>_. check_nv_authorization_available s q i r) of
        Inl c \<Rightarrow> (Inl c, s)
      | Inr _ \<Rightarrow>
        if in_handle a = rh_RS_PW then
          (case check_role_allows_auth_value r e pos of
             Inl c \<Rightarrow> (Inl c, s)
           | Inr _ \<Rightarrow> if \<not> user_with_auth e then (Inl (with_session pos rc_POLICY_FAIL), s)
                      else password_check q i e protected s)
        else case slots_get (in_handle a) (session_slots s) of
            Inl c \<Rightarrow> (Inl c, s)
          | Inr x \<Rightarrow>
              if is_trial x then (Inl (with_session pos rc_AUTH_TYPE), s)
              else if is_policy x then
                (if (r = R_Admin \<or> r = R_Dup) \<and> pol_command_code (policy x) \<noteq> Some (rq_code q)
                 then (Inl (with_session pos rc_POLICY_FAIL), s)
                 else check_policy E q i e cp x protected s)
              else (case check_role_allows_auth_value r e pos of
                  Inl c \<Rightarrow> (Inl c, s)
                | Inr _ \<Rightarrow> if \<not> user_with_auth e then (Inl (with_session pos rc_POLICY_FAIL), s)
                           else hmac_check E q i e cp x protected s))"

text \<open>A session that authorizes no handle but encrypts, decrypts or audits.\<close>

definition check_unauthorized_session :: "env \<Rightarrow> tpm_state \<Rightarrow> request \<Rightarrow> nat \<Rightarrow> bytes list \<Rightarrow> unit tpm_result" where
  "check_unauthorized_session E s q i names =
     (let a = rq_sessions q ! i in
      res_bind (slots_get (in_handle a) (session_slots s)) (\<lambda>x.
        if session_key x = [] \<and> in_hmac a = [] then Inr ()
        else res_bind (cp_hash E (auth_hash x) (rq_code q) names (rq_parameters q)) (\<lambda>cp.
             res_bind (expected_hmac E s q i x (session_key x) cp) (\<lambda>m.
               deny (\<not> constant_time_eq m (in_hmac a)) (with_session (i + 1) rc_AUTH_FAIL)))))"

section \<open>How an attempt is judged\<close>

text \<open>
  The abstract account of an attempt at an authorization value, whatever carries it: a PIN index that
  has run out refuses it unseen; otherwise its counter moves, and a wrong value is counted against
  the lockout, and enters the special lockout where \<open>special\<close> says so.
\<close>

definition judged :: "bool \<Rightarrow> bool \<Rightarrow> nat \<Rightarrow> bool \<Rightarrow> bool \<Rightarrow> entity \<Rightarrow> (tpm_state, unit) st_op" where
  "judged special protected pos uses_pin good e s =
     (case (if uses_pin then map_err (with_session pos) (check_pin_available s e) else Inr ()) of
        Inl c \<Rightarrow> (Inl c, s)
      | Inr _ \<Rightarrow>
          (let s = (if uses_pin then snd (record_pin_attempt e good s) else s) in
           if good then (Inr (), s)
           else (Inl (with_session pos (failure_code protected)),
                 note_failure protected (if special then note_lockout_failure s else s))))"

lemma pin_attempt_ok:
  assumes "check_pin_available s e = Inr ()"
  shows "fst (record_pin_attempt e b s) = Inr ()"
proof (cases "en_pin e")
  case (Some h)
  with assms obtain x c where x: "bt_get (indices (nv s)) h = Some x" "nv_pin_counters x = Inr c"
    by (auto simp: check_pin_available_def store_get_def res_bind_eq_Inr split: if_splits)
  then have "is_pin x" by (auto simp: nv_pin_counters_def split: if_splits)
  then show ?thesis
    using Some x by (simp add: record_pin_attempt_def store_at_def move_pin_def set_pin_counters_def)
qed (simp add: record_pin_attempt_def)

lemma pin_attempt_succeeds:
  assumes "check_pin_available s e = Inr ()"
  obtains t where "record_pin_attempt e b s = (Inr (), t)"
  using pin_attempt_ok [OF assms, of b] by (metis prod.collapse)

lemma note_failure_pin:
  "record_pin_attempt e b (note_failure p s) = apsnd (note_failure p) (record_pin_attempt e b s)"
  "record_pin_attempt e b (note_lockout_failure s) = apsnd note_lockout_failure (record_pin_attempt e b s)"
  by (simp_all add: record_pin_attempt_def note_failure_def note_lockout_failure_def split: option.split prod.split)

lemma password_judged:
  "password_check q i e protected s =
     judged (names_lockout q i) protected (i + 1) True
       (constant_time_eq (trim_auth (in_hmac (rq_sessions q ! i))) (trim_auth (en_auth e))) e s"
proof (cases "check_pin_available s e")
  case (Inr u)
  then have "check_pin_available s e = Inr ()" by simp
  then obtain t f where "record_pin_attempt e True s = (Inr (), t)" "record_pin_attempt e False s = (Inr (), f)"
    by (metis pin_attempt_succeeds)
  then show ?thesis using Inr
    by (simp add: password_check_def judged_def compare_auth_def st_bind_def note_failure_pin)
qed (simp add: password_check_def judged_def)

lemma hmac_judged:
  "hmac_check E q i e cp x protected s =
     (case expected_hmac E s q i x (hmac_key x (en_name e) (en_auth e)) cp of
        Inl c \<Rightarrow> (Inl c, s)
      | Inr m \<Rightarrow> judged (names_lockout q i) protected (i + 1) True
          (auth_hmac_accepted (hmac_key x (en_name e) (en_auth e)) m (in_hmac (rq_sessions q ! i))) e s)"
proof (cases "check_pin_available s e")
  case (Inr u)
  then have "check_pin_available s e = Inr ()" by simp
  then obtain t f where "record_pin_attempt e True s = (Inr (), t)" "record_pin_attempt e False s = (Inr (), f)"
    by (metis pin_attempt_succeeds)
  then show ?thesis using Inr
    by (simp add: hmac_check_def judged_def st_bind_def Let_def split: sum.split)
qed (simp add: hmac_check_def judged_def Let_def split: sum.split)

lemma policy_hmac_judged:
  "policy_hmac_check E q i e cp x protected s =
     (case expected_hmac E s q i x (hmac_key x (en_name e) (en_auth e)) cp of
        Inl c \<Rightarrow> (Inl c, s)
      | Inr m \<Rightarrow> judged False protected (i + 1) (auth_value_needed (policy x))
          (auth_hmac_accepted (hmac_key x (en_name e) (en_auth e)) m (in_hmac (rq_sessions q ! i))) e s)"
proof (cases "auth_value_needed (policy x)")
  case True
  show ?thesis
  proof (cases "check_pin_available s e")
    case (Inr u)
    then have "check_pin_available s e = Inr ()" by simp
    then obtain t f where "record_pin_attempt e True s = (Inr (), t)" "record_pin_attempt e False s = (Inr (), f)"
      by (metis pin_attempt_succeeds)
    then show ?thesis using True Inr
      by (simp add: policy_hmac_check_def judged_def st_bind_def Let_def split: sum.split)
  qed (simp add: True policy_hmac_check_def judged_def Let_def split: sum.split)
qed (simp add: policy_hmac_check_def judged_def st_bind_def Let_def split: sum.split)

section \<open>What an authorization rests on\<close>

text \<open>What a caller has to show: the value of the entity, or an HMAC made with the key of the session.\<close>

definition shows_hmac :: "env \<Rightarrow> tpm_state \<Rightarrow> request \<Rightarrow> nat \<Rightarrow> entity \<Rightarrow> bytes \<Rightarrow> session \<Rightarrow> bool" where
  "shows_hmac E s q i e cp x =
     (let key = hmac_key x (en_name e) (en_auth e); given = in_hmac (rq_sessions q ! i)
      in case expected_hmac E s q i x key cp of
           Inl _ \<Rightarrow> False | Inr m \<Rightarrow> given = m \<or> key = [] \<and> given = [])"

definition shows_value :: "request \<Rightarrow> nat \<Rightarrow> entity \<Rightarrow> bool" where
  "shows_value q i e = (trim_auth (in_hmac (rq_sessions q ! i)) = trim_auth (en_auth e))"

definition shows_proof :: "env \<Rightarrow> tpm_state \<Rightarrow> request \<Rightarrow> nat \<Rightarrow> entity \<Rightarrow> bytes \<Rightarrow> bool" where
  "shows_proof E s q i e cp =
     (let a = rq_sessions q ! i in
      if in_handle a = rh_RS_PW then shows_value q i e
      else case slots_get (in_handle a) (session_slots s) of
          Inl _ \<Rightarrow> False
        | Inr x \<Rightarrow> if is_policy x \<and> password_needed (policy x) then shows_value q i e
                   else shows_hmac E s q i e cp x)"

text \<open>
  What is settled without looking at the entity's authorization value: whether the role, the entity and
  the policy allow this kind of session at all.
\<close>

definition value_allowed :: "request \<Rightarrow> nat \<Rightarrow> entity \<Rightarrow> unit tpm_result" where
  "value_allowed q i e =
     res_bind (check_role_allows_auth_value (role_of (rq_code q) i) e (i + 1)) (\<lambda>_.
       deny (\<not> user_with_auth e) (with_session (i + 1) rc_POLICY_FAIL))"

definition policy_allows :: "env \<Rightarrow> tpm_state \<Rightarrow> request \<Rightarrow> nat \<Rightarrow> entity \<Rightarrow> bytes \<Rightarrow> session \<Rightarrow> unit tpm_result" where
  "policy_allows E s q i e cp x =
     res_bind (deny (role_of (rq_code q) i \<in> {R_Admin, R_Dup} \<and> pol_command_code (policy x) \<noteq> Some (rq_code q))
                    (with_session (i + 1) rc_POLICY_FAIL)) (\<lambda>_.
     res_bind (policy_matches i e x) (\<lambda>_. policy_assertions E s q i cp x))"

definition hash_allowed :: "env \<Rightarrow> session \<Rightarrow> unit tpm_result" where
  "hash_allowed E x = res_bind (hash_algorithm E (auth_hash x)) (\<lambda>_. Inr ())"

definition screened :: "env \<Rightarrow> tpm_state \<Rightarrow> request \<Rightarrow> nat \<Rightarrow> entity \<Rightarrow> bytes \<Rightarrow> unit tpm_result" where
  "screened E s q i e cp =
     res_bind (check_lockout s q i (da_protected s q i e)) (\<lambda>_.
     res_bind (check_nv_authorization_available s q i (role_of (rq_code q) i)) (\<lambda>_.
       let a = rq_sessions q ! i in
       if in_handle a = rh_RS_PW then value_allowed q i e
       else res_bind (slots_get (in_handle a) (session_slots s)) (\<lambda>x.
         if is_trial x then Inl (with_session (i + 1) rc_AUTH_TYPE)
         else if is_policy x then res_bind (policy_allows E s q i e cp x) (\<lambda>_.
           if password_needed (policy x) then Inr () else hash_allowed E x)
         else res_bind (value_allowed q i e) (\<lambda>_. hash_allowed E x))))"

text \<open>Whether the attempt is at the entity's value, which is what moves a PIN counter.\<close>

definition uses_value :: "tpm_state \<Rightarrow> request \<Rightarrow> nat \<Rightarrow> bool" where
  "uses_value s q i =
     (let a = rq_sessions q ! i in
      if in_handle a = rh_RS_PW then True
      else case slots_get (in_handle a) (session_slots s) of
          Inl _ \<Rightarrow> False
        | Inr x \<Rightarrow> if is_policy x then password_needed (policy x) \<or> auth_value_needed (policy x) else True)"

text \<open>Whether a wrong value enters the special lockout: not when a policy session carries it as an HMAC.\<close>

definition special_guess :: "tpm_state \<Rightarrow> request \<Rightarrow> nat \<Rightarrow> bool" where
  "special_guess s q i =
     (names_lockout q i
      \<and> (let a = rq_sessions q ! i in
         if in_handle a = rh_RS_PW then True
         else case slots_get (in_handle a) (session_slots s) of
             Inl _ \<Rightarrow> False
           | Inr x \<Rightarrow> if is_policy x then password_needed (policy x) else True))"

lemma deny_simps [simp]: "deny False c = Inr ()" "deny True c = Inl c"
  by (simp_all add: deny_def)

lemma deny_Inr [simp]: "deny b c = Inr u \<longleftrightarrow> \<not> b"
  by (simp add: deny_def)

lemma hmac_parts_total:
  "hmac_parts E a key ps = (case hash_algorithm E a of Inl c \<Rightarrow> Inl c | Inr _ \<Rightarrow> Inr (projr (hmac_parts E a key ps)))"
  by (auto simp: hmac_parts_def hmac_new_def hash_block_size_def hash_algorithm_def digest_def hasher_new_def)

lemma expected_hmac_total:
  "expected_hmac E s q i x key cp =
     (case hash_algorithm E (auth_hash x) of Inl c \<Rightarrow> Inl c | Inr _ \<Rightarrow> Inr (projr (expected_hmac E s q i x key cp)))"
proof -
  obtain d g where "auxiliary_nonces s q i = (d, g)" by (cases "auxiliary_nonces s q i")
  then have "\<exists>ps. expected_hmac E s q i x key cp = hmac_parts E (auth_hash x) key ps"
    by (auto simp: expected_hmac_def Let_def auth_hmac_with_nonces_def)
  then show ?thesis using hmac_parts_total by metis
qed

lemma hmac_shown:
  assumes "expected_hmac E s q i x (hmac_key x (en_name e) (en_auth e)) cp = Inr m"
  shows "auth_hmac_accepted (hmac_key x (en_name e) (en_auth e)) m (in_hmac (rq_sessions q ! i))
    \<longleftrightarrow> shows_hmac E s q i e cp x"
  using assms by (simp add: auth_hmac_accepted_def constant_time_eq_iff shows_hmac_def Let_def) blast

text \<open>Screening first, and then one judged attempt: the whole of \<open>check_authorization\<close>.\<close>

lemma hmac_screened:
  "(case expected_hmac E s q i x (hmac_key x (en_name e) (en_auth e)) cp of
      Inl c \<Rightarrow> (Inl c, s)
    | Inr m \<Rightarrow> judged special p (i + 1) uses
        (auth_hmac_accepted (hmac_key x (en_name e) (en_auth e)) m (in_hmac (rq_sessions q ! i))) e s)
   = (case hash_allowed E x of Inl c \<Rightarrow> (Inl c, s)
      | Inr _ \<Rightarrow> judged special p (i + 1) uses (shows_hmac E s q i e cp x) e s)"
proof (cases "hash_algorithm E (auth_hash x)")
  case (Inl c)
  then show ?thesis
    using expected_hmac_total [of E s q i x "hmac_key x (en_name e) (en_auth e)" cp] by (simp add: hash_allowed_def)
next
  case (Inr a)
  then obtain m where m: "expected_hmac E s q i x (hmac_key x (en_name e) (en_auth e)) cp = Inr m"
    using expected_hmac_total [of E s q i x "hmac_key x (en_name e) (en_auth e)" cp] by simp
  then show ?thesis using Inr by (simp add: hash_allowed_def hmac_shown [OF m])
qed

lemma value_branch:
  "(case check_role_allows_auth_value (role_of (rq_code q) i) e (i + 1) of
      Inl c \<Rightarrow> (Inl c, s)
    | Inr _ \<Rightarrow> if \<not> user_with_auth e then (Inl (with_session (i + 1) rc_POLICY_FAIL), s) else P)
   = (case value_allowed q i e of Inl c \<Rightarrow> (Inl c, s) | Inr _ \<Rightarrow> P)"
  by (simp add: value_allowed_def deny_def res_bind_def split: sum.split)

lemma authorization_screened:
  "check_authorization E q i e cp s =
     (case screened E s q i e cp of
        Inl c \<Rightarrow> (Inl c, s)
      | Inr _ \<Rightarrow> judged (special_guess s q i) (da_protected s q i e) (i + 1) (uses_value s q i)
                   (shows_proof E s q i e cp) e s)"
proof -
  let ?a = "rq_sessions q ! i" and ?p = "da_protected s q i e" and ?r = "role_of (rq_code q) i"
  let ?pre = "res_bind (check_lockout s q i ?p) (\<lambda>_. check_nv_authorization_available s q i ?r)"
  show ?thesis
  proof (cases ?pre)
    case (Inl c)
    then have "screened E s q i e cp = Inl c"
      by (auto simp: screened_def res_bind_def split: sum.splits)
    then show ?thesis using Inl by (simp add: check_authorization_def Let_def)
  next
    case (Inr u)
    then have pre: "check_lockout s q i ?p = Inr ()" "check_nv_authorization_available s q i ?r = Inr ()"
      by (auto simp: res_bind_eq_Inr)
    show ?thesis
    proof (cases "in_handle ?a = rh_RS_PW")
      case True
      then have "password_check q i e ?p s = judged (special_guess s q i) ?p (i + 1) (uses_value s q i)
          (shows_proof E s q i e cp) e s"
        by (simp add: password_judged shows_proof_def special_guess_def uses_value_def shows_value_def
            constant_time_eq_iff)
      moreover have "screened E s q i e cp = value_allowed q i e" using True pre by (simp add: screened_def)
      ultimately show ?thesis using pre True
        by (simp add: check_authorization_def Let_def value_branch [unfolded Suc_eq_plus1 [symmetric]] split: sum.split)
    next
      case False
      show ?thesis
      proof (cases "slots_get (in_handle ?a) (session_slots s)")
        case (Inl c)
        then show ?thesis using pre False by (simp add: check_authorization_def screened_def Let_def)
      next
        case (Inr x)
        consider "is_trial x" | "\<not> is_trial x" "is_policy x" | "\<not> is_trial x" "\<not> is_policy x" by blast
        then show ?thesis
        proof cases
          case 1
          then show ?thesis using pre False Inr by (simp add: check_authorization_def screened_def Let_def)
        next
          case 2
          have branch: "check_policy E q i e cp x ?p s =
             (case policy_matches i e x of Inl c \<Rightarrow> (Inl c, s) | Inr _ \<Rightarrow>
              case policy_assertions E s q i cp x of Inl c \<Rightarrow> (Inl c, s) | Inr _ \<Rightarrow>
              if password_needed (policy x) then password_check q i e ?p s
              else case hash_allowed E x of Inl c \<Rightarrow> (Inl c, s) | Inr _ \<Rightarrow>
                judged False ?p (i + 1) (auth_value_needed (policy x)) (shows_hmac E s q i e cp x) e s)"
            by (simp only: check_policy_def policy_hmac_judged hmac_screened res_bind_def)
               (simp split: sum.split)
          show ?thesis using 2 pre False Inr
            by (simp add: check_authorization_def screened_def Let_def branch policy_allows_def password_judged
                shows_proof_def special_guess_def uses_value_def shows_value_def constant_time_eq_iff
                res_bind_def deny_def split: sum.split)
        next
          case 3
          have branch: "hmac_check E q i e cp x ?p s =
             (case hash_allowed E x of Inl c \<Rightarrow> (Inl c, s) | Inr _ \<Rightarrow>
                judged (names_lockout q i) ?p (i + 1) True (shows_hmac E s q i e cp x) e s)"
            by (simp only: hmac_judged hmac_screened)
          show ?thesis using 3 pre False Inr
            by (simp add: check_authorization_def screened_def Let_def branch value_allowed_def
                shows_proof_def special_guess_def uses_value_def res_bind_def deny_def split: sum.split)
        qed
      qed
    qed
  qed
qed

lemma judged_result:
  "fst (judged special protected pos uses good e s) = Inr () \<longleftrightarrow>
     good \<and> \<not> (uses \<and> check_pin_available s e \<noteq> Inr ())"
  by (auto simp: judged_def Let_def split: sum.split)

text \<open>The PIN counters' say before and after.\<close>

definition pin_allows :: "tpm_state \<Rightarrow> request \<Rightarrow> nat \<Rightarrow> entity \<Rightarrow> unit tpm_result" where
  "pin_allows s q i e = (if uses_value s q i then map_err (with_session (i + 1)) (check_pin_available s e) else Inr ())"

definition pin_counted :: "request \<Rightarrow> nat \<Rightarrow> entity \<Rightarrow> bool \<Rightarrow> tpm_state \<Rightarrow> tpm_state" where
  "pin_counted q i e good s = (if uses_value s q i then snd (record_pin_attempt e good s) else s)"

definition guess_counted :: "request \<Rightarrow> nat \<Rightarrow> entity \<Rightarrow> tpm_state \<Rightarrow> tpm_state" where
  "guess_counted q i e s =
     note_failure (da_protected s q i e)
       (if special_guess s q i then note_lockout_failure (pin_counted q i e False s) else pin_counted q i e False s)"

lemma authorization_outcome:
  "check_authorization E q i e cp s =
     (case screened E s q i e cp of
        Inl c \<Rightarrow> (Inl c, s)
      | Inr _ \<Rightarrow> (case pin_allows s q i e of
          Inl c \<Rightarrow> (Inl c, s)
        | Inr _ \<Rightarrow> if shows_proof E s q i e cp then (Inr (), pin_counted q i e True s)
                   else (Inl (with_session (i + 1) (failure_code (da_protected s q i e))), guess_counted q i e s)))"
  unfolding authorization_screened judged_def Let_def pin_allows_def pin_counted_def guess_counted_def
  by (auto split: sum.splits)

lemma nv_self [simp]: "s\<lparr>nv := nv s\<rparr> = s"
  by (cases s) simp

lemma pin_counted_nv: obtains n where "pin_counted q i e good s = s\<lparr>nv := n\<rparr>"
proof (cases "uses_value s q i \<and> en_pin e \<noteq> None")
  case True
  then obtain h where h: "uses_value s q i" "en_pin e = Some h" by auto
  obtain r n where "store_at h (move_pin good) (nv s) = (r, n)" by (cases "store_at h (move_pin good) (nv s)")
  then have "pin_counted q i e good s = s\<lparr>nv := n\<rparr>" using h by (simp add: pin_counted_def record_pin_attempt_def)
  then show ?thesis by (rule that)
next
  case False
  then have "pin_counted q i e good s = s\<lparr>nv := nv s\<rparr>" by (auto simp: pin_counted_def record_pin_attempt_def)
  then show ?thesis by (rule that)
qed

text \<open>
  What an attempt does to the index whose PIN guards the value: a PIN_FAIL index counts wrong values and starts
  anew at a right one, a PIN_PASS index counts right values; no other index changes, nor anything else of
  this one. An attempt is judged only while the count is below the limit, so adding one never wraps.
\<close>

definition pin_moves :: "bool \<Rightarrow> u32 \<Rightarrow> nv_store \<Rightarrow> nv_store \<Rightarrow> bool" where
  "pin_moves good h n n' \<longleftrightarrow> (\<exists>x y c. store_get h n = Inr x \<and> nv_pin_counters x = Inr c \<and> pin_count c < pin_limit c
     \<and> store_get h n' = Inr y \<and> y = x\<lparr>nv_data := nv_data y\<rparr>
     \<and> nv_pin_counters y = Inr \<lparr>pin_count =
          (if nt_of x = nt_PIN_FAIL then (if good then 0 else pin_count c + 1)
           else (if good then pin_count c + 1 else pin_count c)), pin_limit = pin_limit c\<rparr>
     \<and> (\<forall>k. k \<noteq> h \<longrightarrow> store_get k n' = store_get k n) \<and> highest_counter n' = highest_counter n)"

definition pins_counted :: "tpm_state \<Rightarrow> request \<Rightarrow> nat \<Rightarrow> entity \<Rightarrow> bool \<Rightarrow> nv_store \<Rightarrow> bool" where
  "pins_counted s q i e good n' =
     (case en_pin e of
        None \<Rightarrow> n' = nv s
      | Some h \<Rightarrow> if uses_value s q i then pin_moves good h (nv s) n' else n' = nv s)"

lemma or_of_and: "v AND m = m \<Longrightarrow> v OR m = (v :: 'a::len word)"
  by (metis or.commute word_ao_absorbs(8))

lemma set_written_again: "written i \<Longrightarrow> set_written i = i"
  by (simp add: written_def set_written_def set_attributes_def attr_with_def attr_has_def or_of_and)

lemma move_pin_moves:
  assumes "store_get h n = Inr x" and "written x" and "nv_pin_counters x = Inr c" and "pin_count c < pin_limit c"
  shows "pin_moves good h n (snd (store_at h (move_pin good) n))"
proof -
  let ?c = "c\<lparr>pin_count := next_pin_count (nt_of x = nt_PIN_FAIL) good (pin_count c)\<rparr>"
  let ?y = "x\<lparr>nv_data := to_bytes pin_put ?c\<rparr>"
  have x: "bt_get (indices n) h = Some x" using assms(1) by (auto simp: store_get_def ok_or_def split: option.splits)
  have p: "is_pin x" using assms(3) by (auto simp: nv_pin_counters_def split: if_splits)
  have nt: "nt_of ?y = nt_of x" "written ?y = written x" by (simp_all add: written_def)
  have "snd (store_at h (move_pin good) n) = n\<lparr>indices := bt_update h ?y (indices n)\<rparr>"
    using x assms(2,3) p nt by (simp add: store_at_def move_pin_def set_pin_counters_def set_written_again)
  moreover have "nv_pin_counters ?y = Inr ?c"
    using p assms(2) nt by (simp add: nv_pin_counters_def is_pin_def pin.from_to_bytes)
  moreover have "unat (pin_count c) + 1 < 2 ^ 32"
    using assms(4) unsigned_less [of "pin_limit c", where 'a = nat] by (simp add: word_less_nat_alt)
  then have "saturating_add (pin_count c) 1 = pin_count c + 1"
    by (simp add: word_unat_eq_iff unat_saturating_add unat_word_ariths)
  ultimately show ?thesis
    unfolding pin_moves_def using assms x
    by (intro exI [of _ x] exI [of _ ?y] exI [of _ c]) (auto simp: store_get_def next_pin_count_def)
qed

lemma pin_counted_exact:
  assumes "pin_allows s q i e = Inr ()"
  shows "pins_counted s q i e good (nv (pin_counted q i e good s))"
proof (cases "en_pin e")
  case (Some h)
  show ?thesis
  proof (cases "uses_value s q i")
    case True
    with assms have "check_pin_available s e = Inr ()" by (auto simp: pin_allows_def)
    then obtain x c where x: "store_get h (nv s) = Inr x" "written x" "nv_pin_counters x = Inr c" "pin_count c < pin_limit c"
      using Some by (auto simp: check_pin_available_def res_bind_eq_Inr not_le split: if_splits)
    then show ?thesis
      using move_pin_moves [OF x] True Some
      by (simp add: pins_counted_def pin_counted_def record_pin_attempt_def split: prod.split)
         (metis snd_conv)
  qed (simp add: Some pins_counted_def pin_counted_def)
qed (simp add: pins_counted_def pin_counted_def record_pin_attempt_def)

text \<open>C6: what an authorization rests on, and what each attempt costs. It is granted exactly when the
  role, the entity and the policy allow the session, a PIN index that guards the value has not run out,
  and the caller shows the entity's value or an HMAC under the session's key; then only the PIN counter
  has moved, as a right value moves it. Otherwise either the screening or the exhausted PIN has refused
  and nothing has changed, or what was shown is wrong: the PIN counter has moved as a wrong value moves it,
  the lockout state has recorded the failure of a protected value, entering the special lockout when
  lockoutAuth was tried as a password or in an HMAC session, and nothing else has changed.\<close>

theorem authorization_exact:
  "let (r, t) = check_authorization E q i e cp s; p = da_protected s q i e; now = time (clock_of s)
   in (r = Inr () \<longleftrightarrow> screened E s q i e cp = Inr () \<and> pin_allows s q i e = Inr () \<and> shows_proof E s q i e cp)
    \<and> (case r of
         Inr _ \<Rightarrow> t = s\<lparr>nv := nv t\<rparr> \<and> pins_counted s q i e True (nv t)
       | Inl c \<Rightarrow> t = s \<and> (screened E s q i e cp = Inl c \<or> screened E s q i e cp = Inr () \<and> pin_allows s q i e = Inl c)
           \<or> screened E s q i e cp = Inr () \<and> pin_allows s q i e = Inr () \<and> \<not> shows_proof E s q i e cp
             \<and> c = with_session (i + 1) (failure_code p) \<and> pins_counted s q i e False (nv t)
             \<and> t = s\<lparr>nv := nv t, lockout_state := record_failure p now
                   (if special_guess s q i then record_lockout_failure now (lockout_state s) else lockout_state s)\<rparr>)"
proof -
  have good: "pin_counted q i e b s = s\<lparr>nv := nv (pin_counted q i e b s)\<rparr>" for b
  proof -
    obtain n where "pin_counted q i e b s = s\<lparr>nv := n\<rparr>" by (rule pin_counted_nv)
    then show ?thesis by simp
  qed
  obtain n where n: "pin_counted q i e False s = s\<lparr>nv := n\<rparr>" by (rule pin_counted_nv)
  have bad: "guess_counted q i e s = s\<lparr>nv := nv (guess_counted q i e s), lockout_state :=
      record_failure (da_protected s q i e) (time (clock_of s))
        (if special_guess s q i then record_lockout_failure (time (clock_of s)) (lockout_state s) else lockout_state s)\<rparr>"
    "nv (guess_counted q i e s) = nv (pin_counted q i e False s)"
    by (simp_all add: n guess_counted_def note_failure_def note_lockout_failure_def)
  consider (screened) c where "screened E s q i e cp = Inl c" | (pin) c where "screened E s q i e cp = Inr ()" "pin_allows s q i e = Inl c"
    | (judged) "screened E s q i e cp = Inr ()" "pin_allows s q i e = Inr ()"
    by (cases "screened E s q i e cp"; cases "pin_allows s q i e") auto
  then show ?thesis
  proof cases
    case judged
    show ?thesis
    proof (cases "shows_proof E s q i e cp")
      case True
      then have out: "check_authorization E q i e cp s = (Inr (), pin_counted q i e True s)"
        using judged by (simp add: authorization_outcome)
      show ?thesis unfolding out Let_def prod.case sum.case
        using judged True good [of True] pin_counted_exact [OF judged(2), of True] by blast
    next
      case False
      then have out: "check_authorization E q i e cp s
          = (Inl (with_session (i + 1) (failure_code (da_protected s q i e))), guess_counted q i e s)"
        using judged by (simp add: authorization_outcome)
      show ?thesis unfolding out Let_def prod.case sum.case
        using judged False bad pin_counted_exact [OF judged(2), of False] by (metis sum.distinct(1))
    qed
  qed (simp_all add: authorization_outcome)
qed

lemma guards_ignore_value:
  "da_protected s q i (e\<lparr>en_auth := v\<rparr>) = da_protected s q i e"
  "pin_allows s q i (e\<lparr>en_auth := v\<rparr>) = pin_allows s q i e"
  "value_allowed q i (e\<lparr>en_auth := v\<rparr>) = value_allowed q i e"
  "policy_allows E s q i (e\<lparr>en_auth := v\<rparr>) cp x = policy_allows E s q i e cp x"
  by (simp_all add: da_protected_def pin_allows_def check_pin_available_def value_allowed_def
      check_role_allows_auth_value_def policy_allows_def policy_matches_def cong: role.case_cong)

lemma screened_ignores_value: "screened E s q i (e\<lparr>en_auth := v\<rparr>) cp = screened E s q i e cp"
  unfolding screened_def guards_ignore_value ..

lemma lockout_of_pin_attempt [simp]:
  "lockout_state (snd (record_pin_attempt e b s)) = lockout_state s"
  "clock_of (snd (record_pin_attempt e b s)) = clock_of s"
  by (simp_all add: record_pin_attempt_def split: option.split prod.split)

lemma failure_raises_tries:
  assumes "\<not> protection_off l" and "failed_tries l < 0xFFFFFFFF"
  shows "failed_tries l < failed_tries (record_failure True now l)"
proof -
  have "unat (failed_tries l) < 2 ^ 32 - 1" using assms(2) by (simp add: word_less_nat_alt)
  then show ?thesis using assms(1)
    by (simp add: record_failure_def word_less_nat_alt unat_saturating_add)
qed

lemma lockout_failure_keeps [simp]:
  "failed_tries (record_lockout_failure now l) = failed_tries l"
  "recovery_time (record_lockout_failure now l) = recovery_time l"
  "protection_off (record_lockout_failure now l) = protection_off l"
  by (simp_all add: record_lockout_failure_def protection_off_def)

text \<open>C7: no free guess at a protected value. While dictionary attack protection is on, a refusal
  that leaves the TPM as it was is the refusal every other authorization value of the entity would
  have met: whoever learns anything of the value from a refusal has been counted.\<close>

theorem no_free_guess:
  assumes "da_protected s q i e" and "\<not> protection_off (lockout_state s)"
    and "failed_tries (lockout_state s) < 0xFFFFFFFF"
    and "check_authorization E q i e cp s = (Inl c, s)"
  shows "check_authorization E q i (e\<lparr>en_auth := v\<rparr>) cp s = (Inl c, s)"
proof -
  have "shows_proof E s q i e cp \<or> guess_counted q i e s \<noteq> s"
  proof -
    let ?l = "lockout_state s" and ?now = "time (clock_of s)"
    obtain n where "pin_counted q i e False s = s\<lparr>nv := n\<rparr>" by (rule pin_counted_nv)
    then have "lockout_state (guess_counted q i e s)
        = record_failure True ?now (if special_guess s q i then record_lockout_failure ?now ?l else ?l)"
      using assms(1) by (simp add: guess_counted_def note_failure_def note_lockout_failure_def)
    moreover have "failed_tries ?l
        < failed_tries (record_failure True ?now (if special_guess s q i then record_lockout_failure ?now ?l else ?l))"
      using assms(2,3) failure_raises_tries [of ?l] failure_raises_tries [of "record_lockout_failure ?now ?l"]
      by simp
    ultimately have "failed_tries (lockout_state (guess_counted q i e s)) \<noteq> failed_tries ?l" by simp
    then show ?thesis by metis
  qed
  then show ?thesis
    using assms(4) by (auto simp: authorization_outcome screened_ignores_value guards_ignore_value
        split: sum.splits if_splits)
qed

lemma lockout_code [simp]: "nv_access_of cc_DictionaryAttackLockReset = None" "role_of cc_DictionaryAttackLockReset 0 = R_User"
  by (simp_all add: nv_access_of_def role_of_def row_of_def ROWS_def get_at_def)

text \<open>C8: Lockout mode. While the TPM is locked out, an authorization of a protected entity is answered
  TPM_RC_LOCKOUT and nothing changes, whatever is shown, unless the command is
  TPM2_DictionaryAttackLockReset or the session is a policy that never calls for the value. The same
  holds of lockoutAuth alone in the special lockout.\<close>

theorem lockout_refuses:
  assumes "da_protected s q i e \<and> locked_out (lockout_state s) \<or> names_lockout q i \<and> in_lockout (lockout_state s)"
    and "session_uses_auth_value s (rq_sessions q ! i)"
  shows "(if rq_code q = cc_DictionaryAttackLockReset then check_lockout s q i (da_protected s q i e) = Inr ()
          else check_authorization E q i e cp s = (Inl rc_LOCKOUT, s))"
proof -
  have "check_lockout s q i (da_protected s q i e)
      = (if rq_code q = cc_DictionaryAttackLockReset then Inr () else Inl rc_LOCKOUT)"
    using assms by (auto simp: check_lockout_def Let_def)
  then show ?thesis by (simp add: authorization_outcome screened_def)
qed

definition demo_request :: "u32 \<Rightarrow> u32 \<Rightarrow> bytes \<Rightarrow> request" where
  "demo_request code h pw = \<lparr>rq_info = the (lookup_command code), rq_tag = st_SESSIONS, rq_code = code,
     rq_handles = [h], rq_sessions = [\<lparr>in_handle = rh_RS_PW, in_nonce = [], in_attributes = 0, in_hmac = pw\<rparr>],
     rq_parameters = [], rq_locality = 0\<rparr>"

lemma failure_codes: "with_session 1 (failure_code True) = 0x98E" "with_session 1 (failure_code False) = 0x9A2"
  by code_simp+

text \<open>C9: nothing bars the reset of the lockout. Whatever the lockout state, a guess at lockoutAuth
  with the password of TPM2_DictionaryAttackLockReset is compared: it is granted just when it is the
  value. The special lockout, which every wrong guess enters, does not stop the next one.\<close>

theorem lock_reset_guesses_unlimited:
  assumes "entity_of E s rh_LOCKOUT = Inr e" and "rq_code q = cc_DictionaryAttackLockReset"
    and "rq_handles q = [rh_LOCKOUT]" and "in_handle (rq_sessions q ! 0) = rh_RS_PW"
  shows "(fst (check_authorization E q 0 e cp s) = Inr ()
      \<longleftrightarrow> trim_auth (in_hmac (rq_sessions q ! 0)) = trim_auth (lockout_auth s))
    \<and> fst (check_authorization E q 0 e cp s) \<noteq> Inl rc_LOCKOUT"
proof -
  have n: "name_of E s rh_LOCKOUT = Inr (handle_name rh_LOCKOUT)"
    by (simp add: name_of_def name_is_handle_def)
  have e: "e = permanent_entity (handle_name rh_LOCKOUT) (lockout_auth s) (policy_of (lockout_policy s)) True True"
    using assms(1) n by (simp add: entity_of_def authorizing_handle_def is_hierarchy_def is_limited_def base_of_def svn_of_def)
  have "screened E s q 0 e cp = Inr ()"
    using assms(2-4) by (simp add: screened_def check_lockout_def check_nv_authorization_available_def value_allowed_def
        check_role_allows_auth_value_def e permanent_entity_def Let_def)
  moreover have "pin_allows s q 0 e = Inr ()"
    by (simp add: pin_allows_def check_pin_available_def e permanent_entity_def)
  moreover have "shows_proof E s q 0 e cp \<longleftrightarrow> trim_auth (in_hmac (rq_sessions q ! 0)) = trim_auth (lockout_auth s)"
    using assms(4) by (simp add: shows_proof_def shows_value_def e permanent_entity_def)
  ultimately show ?thesis
    using failure_codes by (cases "da_protected s q 0 e") (simp_all add: authorization_outcome)
qed

abbreviation (input) barred_tpm :: tpm_state where
  "barred_tpm \<equiv> demo_tpm\<lparr>lockout_state := lockout_default\<lparr>in_lockout := True\<rparr>\<rparr>"

abbreviation (input) lockout_entity :: "bytes \<Rightarrow> entity" where
  "lockout_entity v \<equiv> permanent_entity (handle_name rh_LOCKOUT) v None True True"

lemma barred_facts:
  "uses_lockout (lockout_entity v)" "da_protected s q i (lockout_entity v)"
  "names_lockout (demo_request c rh_LOCKOUT pw) 0" "in_lockout (lockout_state barred_tpm)"
  "session_uses_auth_value s (rq_sessions (demo_request c rh_LOCKOUT pw) ! 0)"
  "\<not> protection_off (lockout_state barred_tpm)" "failed_tries (lockout_state barred_tpm) < 0xFFFFFFFF"
  by (simp_all add: permanent_entity_def da_protected_def names_lockout_def demo_request_def demo_tpm_def
      session_uses_auth_value_def protection_off_def lockout_default_def get_at_def)

theorem lockout_refuses_witness:
  "check_authorization (demo_env False) (demo_request cc_Clear rh_LOCKOUT [7]) 0 (lockout_entity [7]) [] barred_tpm
     = (Inl rc_LOCKOUT, barred_tpm)"
  using lockout_refuses [of barred_tpm "demo_request cc_Clear rh_LOCKOUT [7]" 0 "lockout_entity [7]" "demo_env False" "[]"]
    barred_facts(3-5)
  by (simp add: demo_request_def)

lemma barred_refused:
  "check_authorization (demo_env False) (demo_request cc_Clear rh_LOCKOUT [7]) 0 (lockout_entity [7]) [] barred_tpm
     = (Inl rc_LOCKOUT, barred_tpm)"
proof -
  have "check_lockout barred_tpm (demo_request cc_Clear rh_LOCKOUT [7]) 0 True = Inl rc_LOCKOUT"
    using barred_facts(3-5) by (simp add: check_lockout_def demo_request_def)
  then show ?thesis using barred_facts(2) by (simp add: authorization_outcome screened_def)
qed

theorem no_free_guess_witness:
  "check_authorization (demo_env False) (demo_request cc_Clear rh_LOCKOUT [7]) 0 (lockout_entity [9]) [] barred_tpm
     = (Inl rc_LOCKOUT, barred_tpm)"
  using no_free_guess [OF barred_facts(2) barred_facts(6,7) barred_refused, of "[9]"]
  by (simp add: permanent_entity_def)

theorem lock_reset_guesses_unlimited_witness:
  "\<exists>e. entity_of (demo_env False) barred_tpm rh_LOCKOUT = Inr e
     \<and> fst (check_authorization (demo_env False) (demo_request cc_DictionaryAttackLockReset rh_LOCKOUT [8]) 0 e [] barred_tpm)
        \<notin> {Inr (), Inl rc_LOCKOUT}"
proof -
  have e: "entity_of (demo_env False) barred_tpm rh_LOCKOUT = Inr (lockout_entity [7])"
    by (simp add: entity_of_def name_of_def name_is_handle_def authorizing_handle_def is_hierarchy_def is_limited_def
        base_of_def demo_tpm_def policy_of_def tpmt_ha_null_def)
  from lock_reset_guesses_unlimited [OF e, of "demo_request cc_DictionaryAttackLockReset rh_LOCKOUT [8]" "[]"]
  show ?thesis using e by (simp add: demo_request_def demo_tpm_def trim_auth_def)
qed

definition pin_index :: "u32 \<Rightarrow> nv_index" where
  "pin_index n = \<lparr>nv_public = \<lparr>np_index = 0x01000002, np_name_alg = alg_SHA256, np_attributes = 0x20040080,
     np_policy = [], np_size = 8\<rparr>, nv_auth = [7], nv_data = to_be 4 n @ to_be 4 (3 :: u32), read_locked = False, write_locked = False\<rparr>"

definition pin_tpm :: "u32 \<Rightarrow> tpm_state" where
  "pin_tpm n = demo_tpm\<lparr>nv := store_new\<lparr>indices := [(0x01000002, pin_index n)]\<rparr>\<rparr>"

abbreviation (input) pin_entity :: entity where
  "pin_entity \<equiv> \<lparr>en_name = [], en_auth = [7], en_policy = None, uses_lockout = False, user_with_auth = True,
     admin_with_policy = True, en_pin = Some 0x01000002\<rparr>"

abbreviation (input) pin_request :: "u8 \<Rightarrow> request" where
  "pin_request pw \<equiv> demo_request cc_PolicySecret 0x01000002 [pw]"

lemma pin_facts:
  "store_get 0x01000002 (nv (pin_tpm n)) = Inr (pin_index n)"
  "nv_pin_counters (pin_index n) = Inr \<lparr>pin_count = n, pin_limit = 3\<rparr>"
  "nt_of (pin_index n) = nt_PIN_FAIL" "written (pin_index n)"
proof -
  show w: "written (pin_index n)" by (simp add: written_def pin_index_def bit_numeral_rec)
  show t: "nt_of (pin_index n) = nt_PIN_FAIL" by (simp add: nt_of_def index_type_def NV_TYPE_MASK_def pin_index_def)
  have "nv_data (pin_index n) = to_bytes pin_put \<lparr>pin_count = n, pin_limit = 3\<rparr>"
    by (simp add: pin_index_def pin.to_bytes_enc del: to_be.simps)
  then show "nv_pin_counters (pin_index n) = Inr \<lparr>pin_count = n, pin_limit = 3\<rparr>"
    using w t by (simp add: nv_pin_counters_def is_pin_def pin.from_to_bytes)
  show "store_get 0x01000002 (nv (pin_tpm n)) = Inr (pin_index n)" by (simp add: pin_tpm_def store_get_def)
qed

theorem authorization_exact_witness:
  "(case check_authorization (demo_env False) (pin_request 8) 0 pin_entity [] (pin_tpm 1) of
      (r, t) \<Rightarrow> r \<noteq> Inr () \<and> (\<exists>y. store_get 0x01000002 (nv t) = Inr y \<and> nv_pin_counters y = Inr \<lparr>pin_count = 2, pin_limit = 3\<rparr>))
   \<and> (case check_authorization (demo_env False) (pin_request 7) 0 pin_entity [] (pin_tpm 1) of
      (r, t) \<Rightarrow> r = Inr () \<and> (\<exists>y. store_get 0x01000002 (nv t) = Inr y \<and> nv_pin_counters y = Inr \<lparr>pin_count = 0, pin_limit = 3\<rparr>))"
proof -
  let ?E = "demo_env False" and ?s = "pin_tpm 1"
  have role: "role_of cc_PolicySecret 0 = R_User" "nv_access_of cc_PolicySecret = Some Nv_reads" "nv_index_handle cc_PolicySecret = None"
    by (simp_all add: nv_access_of_def nv_index_handle_def role_of_def row_of_def ROWS_def get_at_def)
  have h: "rq_handle (pin_request b) 0 = Inr 0x01000002" "is_nv_handle 0x01000002" for b
    by (simp_all add: demo_request_def rq_handle_def get_at_def is_nv_handle_def)
  have pol: "\<not> auth_is_policy ?s (pin_request b) 0" for b by (simp add: auth_is_policy_def demo_request_def get_at_def)
  have read: "bit (np_attributes (nv_public (pin_index 1))) 18" and left: "\<not> (3 :: u32) \<le> 1" by (simp_all add: pin_index_def bit_numeral_rec word_le_nat_alt)
  have code: "rq_code (pin_request b) = cc_PolicySecret" "in_handle (rq_sessions (pin_request b) ! 0) = rh_RS_PW"
    "in_hmac (rq_sessions (pin_request b) ! 0) = [b]" for b
    by (simp_all add: demo_request_def)
  have free: "check_lockout ?s (pin_request b) 0 (da_protected ?s (pin_request b) 0 pin_entity) = Inr ()" for b
    by (simp add: check_lockout_def da_protected_def code names_lockout_def pin_tpm_def demo_tpm_def lockout_default_def)
  have ok: "screened ?E ?s (pin_request b) 0 pin_entity [] = Inr ()" "pin_allows ?s (pin_request b) 0 pin_entity = Inr ()"
    "uses_value ?s (pin_request b) 0" for b
    using free [of b] by (simp_all add: screened_def check_nv_authorization_available_def role h pol pin_facts read left nv_access_bit_def
        value_allowed_def check_role_allows_auth_value_def code pin_allows_def uses_value_def check_pin_available_def Let_def)
  have shown: "shows_proof ?E ?s (pin_request b) 0 pin_entity [] \<longleftrightarrow> trim_auth [b] = [7]" for b
    by (simp add: shows_proof_def shows_value_def code trim_auth_def)
  have pins: "\<exists>y. store_get 0x01000002 n = Inr y \<and> nv_pin_counters y = Inr \<lparr>pin_count = (if good then 0 else 2), pin_limit = 3\<rparr>"
    if "pins_counted ?s (pin_request b) 0 pin_entity good n" for b good n
    using that ok(3) [of b] by (auto simp: pins_counted_def pin_moves_def pin_facts)
  obtain r t where wrong: "check_authorization ?E (pin_request 8) 0 pin_entity [] ?s = (r, t)" by fastforce
  obtain r' t' where right: "check_authorization ?E (pin_request 7) 0 pin_entity [] ?s = (r', t')" by fastforce
  have "\<not> shows_proof ?E ?s (pin_request 8) 0 pin_entity []" "shows_proof ?E ?s (pin_request 7) 0 pin_entity []"
    unfolding shown by (simp_all add: trim_auth_def)
  then have "r \<noteq> Inr ()" "pins_counted ?s (pin_request 8) 0 pin_entity False (nv t)"
    and "r' = Inr ()" "pins_counted ?s (pin_request 7) 0 pin_entity True (nv t')"
    using authorization_exact [of ?E "pin_request 8" 0 pin_entity "[]" ?s] wrong
      authorization_exact [of ?E "pin_request 7" 0 pin_entity "[]" ?s] right ok [of 8] ok [of 7]
    by (auto simp: Let_def split: sum.splits)
  then show ?thesis
    using pins [of 8 False "nv t"] pins [of 7 True "nv t'"] by (simp only: wrong right prod.case if_True if_False simp_thms)
qed

end
