(* ===== verification/Sym.thy ===== *)
theory Sym
  imports Session
begin

text \<open>
  Block ciphers and obfuscation (\<open>src/tpm/crypto/sym.rs\<close>). The AES of aws-lc-sys is the parameter
  \<open>aes_lib\<close>: its streaming modes and CBC take and give back the chaining value, its block function
  does not. What the code relies on is \<open>aes_ok\<close>: lengths are kept and decryption inverts encryption.
\<close>

abbreviation (input) alg_TDES :: u16 where "alg_TDES \<equiv> 0x0003"
abbreviation (input) alg_SM4 :: u16 where "alg_SM4 \<equiv> 0x0013"
abbreviation (input) alg_CAMELLIA :: u16 where "alg_CAMELLIA \<equiv> 0x0026"

definition AES_BLOCK_SIZE :: nat where "AES_BLOCK_SIZE = 16"

datatype direction = Encrypt | Decrypt

record aes_lib =
  aes_chain :: "u16 \<Rightarrow> direction \<Rightarrow> bytes \<Rightarrow> bytes \<Rightarrow> bytes \<Rightarrow> bytes \<times> bytes"
  aes_block :: "direction \<Rightarrow> bytes \<Rightarrow> bytes \<Rightarrow> bytes"

definition block_size :: "u16 \<Rightarrow> nat tpm_result" where
  "block_size a = (if a = alg_AES then Inr AES_BLOCK_SIZE else Inl rc_SYMMETRIC)"

definition is_supported_cipher :: "u16 \<Rightarrow> u16 \<Rightarrow> bool" where
  "is_supported_cipher a key_bits = (a = alg_AES \<and> key_bits \<in> set [128, 192, 256])"

definition is_supported_mode :: "u16 \<Rightarrow> bool" where
  "is_supported_mode m = (m \<in> set [alg_CTR, alg_OFB, alg_CBC, alg_CFB, alg_ECB])"

definition expanded_key :: "bytes \<Rightarrow> unit tpm_result" where
  "expanded_key key = (if length key \<in> set [16, 24, 32] then Inr () else Inl rc_KEY_SIZE)"

fun ecb_blocks :: "nat \<Rightarrow> (bytes \<Rightarrow> bytes) \<Rightarrow> bytes \<Rightarrow> bytes" where
  "ecb_blocks 0 f b = []"
| "ecb_blocks (Suc n) f b = f (take AES_BLOCK_SIZE b) @ ecb_blocks n f (drop AES_BLOCK_SIZE b)"

text \<open>The result and the chaining value, which the code updates in place.\<close>

definition crypt ::
  "aes_lib \<Rightarrow> u16 \<Rightarrow> u16 \<Rightarrow> bytes \<Rightarrow> bytes \<Rightarrow> direction \<Rightarrow> bytes \<Rightarrow> bytes tpm_result \<times> bytes" where
  "crypt L a mode key data dir iv =
     (if a \<noteq> alg_AES then (Inl rc_SYMMETRIC, iv)
      else if \<not> is_supported_mode mode then (Inl rc_MODE, iv)
      else if mode = alg_ECB \<and> iv \<noteq> [] then (Inl rc_SIZE, iv)
      else if mode \<noteq> alg_ECB \<and> length iv \<noteq> AES_BLOCK_SIZE then (Inl rc_SIZE, iv)
      else if mode \<in> set [alg_CBC, alg_ECB] \<and> length data mod AES_BLOCK_SIZE \<noteq> 0 then (Inl rc_SIZE, iv)
      else case expanded_key key of
          Inl e \<Rightarrow> (Inl e, iv)
        | Inr _ \<Rightarrow>
            if data = [] then (Inr [], iv)
            else if mode = alg_ECB then
              (Inr (ecb_blocks (length data div AES_BLOCK_SIZE) (aes_block L dir key) data), iv)
            else apfst Inr (aes_chain L mode dir key iv data))"

definition encrypt :: "aes_lib \<Rightarrow> u16 \<Rightarrow> u16 \<Rightarrow> bytes \<Rightarrow> bytes \<Rightarrow> bytes \<Rightarrow> bytes tpm_result \<times> bytes" where
  "encrypt L a mode key data iv = crypt L a mode key data Encrypt iv"

definition decrypt :: "aes_lib \<Rightarrow> u16 \<Rightarrow> u16 \<Rightarrow> bytes \<Rightarrow> bytes \<Rightarrow> bytes \<Rightarrow> bytes tpm_result \<times> bytes" where
  "decrypt L a mode key data iv = crypt L a mode key data Decrypt iv"

definition cfb_encrypt :: "aes_lib \<Rightarrow> bytes \<Rightarrow> bytes \<Rightarrow> bytes \<Rightarrow> bytes tpm_result" where
  "cfb_encrypt L key iv data = fst (encrypt L alg_AES alg_CFB key data iv)"

definition cfb_decrypt :: "aes_lib \<Rightarrow> bytes \<Rightarrow> bytes \<Rightarrow> bytes \<Rightarrow> bytes tpm_result" where
  "cfb_decrypt L key iv data = fst (decrypt L alg_AES alg_CFB key data iv)"

text \<open>Obfuscation; the zip of the data and the mask stops at the shorter, and the rest of the data stays.\<close>

definition LABEL_XOR :: bytes where "LABEL_XOR = ascii ''XOR''"

fun xor_with :: "bytes \<Rightarrow> bytes \<Rightarrow> bytes" where
  "xor_with (d # ds) (m # ms) = (d XOR m) # xor_with ds ms"
| "xor_with ds _ = ds"

definition xor_obfuscate :: "env \<Rightarrow> u16 \<Rightarrow> bytes \<Rightarrow> bytes \<Rightarrow> bytes \<Rightarrow> bytes \<Rightarrow> bytes tpm_result" where
  "xor_obfuscate E a key newer older data =
     res_bind (kdfa_bytes E a key LABEL_XOR newer older (of_nat (length data * 8))) (\<lambda>m. Inr (xor_with data m))"

section \<open>Weak keys\<close>

definition PC1 :: "nat list" where
  "PC1 = [57, 49, 41, 33, 25, 17, 9, 1, 58, 50, 42, 34, 26, 18, 10, 2, 59, 51, 43, 35, 27, 19, 11, 3,
     60, 52, 44, 36, 63, 55, 47, 39, 31, 23, 15, 7, 62, 54, 46, 38, 30, 22, 14, 6, 61, 53, 45,
     37, 29, 21, 13, 5, 28, 20, 12, 4]"

definition HALVES :: "u32 list" where
  "HALVES = [0x0000000, 0xfffffff, 0x5555555, 0xaaaaaaa]"

definition key_half :: "u64 \<Rightarrow> nat list \<Rightarrow> u32" where
  "key_half whole ps = foldl (\<lambda>c p. push_bit 1 c OR ucast (drop_bit (64 - p) whole AND 1)) 0 ps"

definition is_weak_des_key :: "bytes \<Rightarrow> bool" where
  "is_weak_des_key key =
     (if length key \<noteq> 8 then False
      else let whole = from_be key
           in key_half whole (take 28 PC1) \<in> set HALVES \<and> key_half whole (drop 28 PC1) \<in> set HALVES)"

fun chunks :: "nat \<Rightarrow> nat \<Rightarrow> 'a list \<Rightarrow> 'a list list" where
  "chunks 0 n xs = []"
| "chunks (Suc k) n xs = (if xs = [] then [] else take n xs # chunks k n (drop n xs))"

definition is_weak_key :: "u16 \<Rightarrow> bytes \<Rightarrow> bool" where
  "is_weak_key a key =
     (if a \<in> set [alg_AES, alg_SM4, alg_CAMELLIA] then list_all (\<lambda>b. b = 0) (take (length key div 2) key)
      else if a = alg_TDES then list_ex is_weak_des_key (chunks (length key) 8 key)
      else False)"

section \<open>Decryption inverts encryption\<close>

definition chains :: "u16 \<Rightarrow> bool" where
  "chains mode = (mode \<in> set [alg_CTR, alg_OFB, alg_CBC, alg_CFB])"

definition aes_ok :: "aes_lib \<Rightarrow> bool" where
  "aes_ok L \<longleftrightarrow>
     (\<forall>mode dir key iv d. chains mode \<longrightarrow> length (fst (aes_chain L mode dir key iv d)) = length d)
   \<and> (\<forall>mode key iv d. chains mode \<longrightarrow> aes_chain L mode Decrypt key iv (fst (aes_chain L mode Encrypt key iv d))
          = (d, snd (aes_chain L mode Encrypt key iv d)))
   \<and> (\<forall>dir key d. length d = AES_BLOCK_SIZE \<longrightarrow> length (aes_block L dir key d) = AES_BLOCK_SIZE)
   \<and> (\<forall>key d. length d = AES_BLOCK_SIZE \<longrightarrow> aes_block L Decrypt key (aes_block L Encrypt key d) = d)"

lemma aes_okD:
  assumes "aes_ok L"
  shows "chains mode \<Longrightarrow> length (fst (aes_chain L mode dir key iv d)) = length d"
    and "chains mode \<Longrightarrow> aes_chain L mode Decrypt key iv (fst (aes_chain L mode Encrypt key iv d))
          = (d, snd (aes_chain L mode Encrypt key iv d))"
    and "length d = AES_BLOCK_SIZE \<Longrightarrow> length (aes_block L dir key d) = AES_BLOCK_SIZE"
    and "length d = AES_BLOCK_SIZE \<Longrightarrow> aes_block L Decrypt key (aes_block L Encrypt key d) = d"
  using assms by (simp_all add: aes_ok_def)

lemma length_ecb_blocks:
  assumes "\<And>b. length b = AES_BLOCK_SIZE \<Longrightarrow> length (f b) = AES_BLOCK_SIZE"
  shows "length b = n * AES_BLOCK_SIZE \<Longrightarrow> length (ecb_blocks n f b) = n * AES_BLOCK_SIZE"
  by (induction n arbitrary: b) (simp_all add: assms)

lemma ecb_blocks_inverse:
  assumes "\<And>b. length b = AES_BLOCK_SIZE \<Longrightarrow> length (f b) = AES_BLOCK_SIZE"
    and "\<And>b. length b = AES_BLOCK_SIZE \<Longrightarrow> g (f b) = b"
  shows "length b = n * AES_BLOCK_SIZE \<Longrightarrow> ecb_blocks n g (ecb_blocks n f b) = b"
proof (induction n arbitrary: b)
  case (Suc n)
  then have "length (f (take AES_BLOCK_SIZE b)) = AES_BLOCK_SIZE" "g (f (take AES_BLOCK_SIZE b)) = take AES_BLOCK_SIZE b"
    by (simp_all add: assms)
  then show ?case using Suc by simp
qed simp

lemma crypt_inverts:
  assumes "aes_ok L"
  shows "let (r, iv') = crypt L a mode key data Encrypt iv in
    (case r of
       Inr c \<Rightarrow> length c = length data \<and> crypt L a mode key c Decrypt iv = (Inr data, iv')
     | Inl _ \<Rightarrow> iv' = iv)
    \<and> (is_ok r \<longleftrightarrow> a = alg_AES \<and> is_supported_mode mode \<and> length key \<in> {16, 24, 32}
        \<and> length iv = (if mode = alg_ECB then 0 else AES_BLOCK_SIZE)
        \<and> (if mode = alg_CBC \<or> mode = alg_ECB then length data mod AES_BLOCK_SIZE = 0 else True))"
proof (cases "fst (crypt L a mode key data Encrypt iv)")
  case (Inl e)
  then show ?thesis
    by (auto simp: crypt_def expanded_key_def apfst_def map_prod_def split: if_splits prod.splits)
next
  case (Inr c)
  then have ok: "a = alg_AES" "is_supported_mode mode" "length key \<in> {16, 24, 32}"
    "length iv = (if mode = alg_ECB then 0 else AES_BLOCK_SIZE)"
    "mode = alg_CBC \<or> mode = alg_ECB \<Longrightarrow> length data mod AES_BLOCK_SIZE = 0"
    by (auto simp: crypt_def expanded_key_def split: if_splits)
  have key: "expanded_key key = Inr ()" using ok(3) by (auto simp: expanded_key_def)
  show ?thesis
  proof (cases "mode = alg_ECB")
    case True
    then have n: "length data = length data div AES_BLOCK_SIZE * AES_BLOCK_SIZE" using ok(5) by auto
    let ?f = "\<lambda>dir. ecb_blocks (length data div AES_BLOCK_SIZE) (aes_block L dir key)"
    have len: "length (?f Encrypt data) = length data"
      using length_ecb_blocks [of "aes_block L Encrypt key", OF aes_okD(3) [OF assms] n] n by simp
    have inv: "?f Decrypt (?f Encrypt data) = data"
      by (rule ecb_blocks_inverse) (use aes_okD(3,4) [OF assms] n in simp_all)
    then have "data \<noteq> [] \<Longrightarrow> ?f Encrypt data \<noteq> []" using len by auto
    with len inv show ?thesis using ok key True n by (auto simp: crypt_def is_ok_def)
  next
    case False
    then have "chains mode" using ok(2) by (auto simp: is_supported_mode_def chains_def)
    note aes = aes_okD(1,2) [OF assms this]
    show ?thesis
    proof (cases "data = []")
      case True
      then show ?thesis using ok key False by (auto simp: crypt_def is_ok_def)
    next
      case nonempty: False
      obtain c' iv' where c: "aes_chain L mode Encrypt key iv data = (c', iv')" by fastforce
      then have "length c' = length data" "aes_chain L mode Decrypt key iv c' = (data, iv')"
        using aes(1) [of Encrypt key iv data] aes(2) [of key iv data] by simp_all
      then show ?thesis using ok key False nonempty c by (auto simp: crypt_def is_ok_def)
    qed
  qed
qed

text \<open>Decryption undoes encryption in every mode. When \<open>crypt\<close> encrypts, the result has the length
  of the data and \<open>crypt\<close> decrypts it to the data, leaving the chaining value where encryption left
  it; and it encrypts exactly with AES, a supported mode, a key of 16, 24 or 32 octets, a chaining
  value of one block (none for ECB) and, for CBC and ECB, whole blocks.\<close>

theorem crypt_roundtrip:
  assumes "aes_ok L"
  shows "let (r, iv') = crypt L a mode key data Encrypt iv in
    (case r of
       Inr c \<Rightarrow> length c = length data \<and> crypt L a mode key c Decrypt iv = (Inr data, iv')
     | Inl _ \<Rightarrow> iv' = iv)
    \<and> (is_ok r \<longleftrightarrow> a = alg_AES \<and> is_supported_mode mode \<and> length key \<in> {16, 24, 32}
        \<and> length iv = (if mode = alg_ECB then 0 else AES_BLOCK_SIZE)
        \<and> (if mode = alg_CBC \<or> mode = alg_ECB then length data mod AES_BLOCK_SIZE = 0 else True))"
  using assms by (rule crypt_inverts)

lemma xor_with_simps [simp]: "xor_with ds [] = ds" "length (xor_with ds ms) = length ds"
  by (cases ds; simp) (induction ds ms rule: xor_with.induct; simp)

lemma xor_with_twice [simp]: "xor_with (xor_with ds ms) ms = ds"
  by (induction ds ms rule: xor_with.induct) (simp_all add: xor.assoc)

lemma xor_obfuscate_twice:
  "xor_obfuscate E a key newer older data = Inr c \<Longrightarrow>
     length c = length data \<and> xor_obfuscate E a key newer older c = Inr data"
  by (auto simp: xor_obfuscate_def res_bind_eq_Inr)

lemma cfb_roundtrip:
  assumes "aes_ok L" and "cfb_encrypt L key iv data = Inr c"
  shows "length c = length data \<and> cfb_decrypt L key iv c = Inr data"
  using crypt_inverts [OF assms(1), of alg_AES alg_CFB key data iv] assms(2)
  by (auto simp: cfb_encrypt_def cfb_decrypt_def encrypt_def decrypt_def split: prod.splits)

text \<open>A library that adds an octet of the key, for the concrete instances.\<close>

definition demo_aes :: aes_lib where
  "demo_aes = \<lparr>aes_chain = (\<lambda>mode dir key iv d. (map (\<lambda>b. b XOR hd key) d, iv)),
     aes_block = (\<lambda>dir key d. map (\<lambda>b. b XOR hd key) d)\<rparr>"

lemma aes_ok_demo: "aes_ok demo_aes"
  by (simp add: aes_ok_def demo_aes_def xor.assoc comp_def)

theorem crypt_roundtrip_witness:
  "\<exists>c. crypt demo_aes alg_AES alg_CBC (replicate 16 5) (replicate 32 1) Encrypt (replicate 16 0)
      = (Inr c, replicate 16 0)
    \<and> crypt demo_aes alg_AES alg_CBC (replicate 16 5) c Decrypt (replicate 16 0) = (Inr (replicate 32 1), replicate 16 0)"
  using crypt_roundtrip [OF aes_ok_demo, of alg_AES alg_CBC "replicate 16 5" "replicate 32 1" "replicate 16 0"]
  by (simp add: is_supported_mode_def AES_BLOCK_SIZE_def crypt_def expanded_key_def demo_aes_def)

end
