(* ===== verification/Response.thy ===== *)
theory Response
  imports Authz Sym
begin

text \<open>
  The response side of a command (\<open>src/tpm/commands/dispatch.rs\<close>): parameter encryption, the rolling of the
  nonces, the audit digests, the response authorizations and the closing of sessions.
\<close>

section \<open>Parameter encryption\<close>

definition first_sized_parameter :: "bytes \<Rightarrow> bytes option" where
  "first_sized_parameter b =
     (if length b < 2 then None
      else let size = unat (from_be (slice b 0 2) :: u16)
           in if length b < 2 + size then None else Some (slice b 2 (2 + size)))"

definition splice_first_parameter :: "bytes \<Rightarrow> bytes \<Rightarrow> bytes" where
  "splice_first_parameter body parms = upd_slice parms 2 body"

definition transform_parameter ::
  "env \<Rightarrow> aes_lib \<Rightarrow> session \<Rightarrow> auth_command \<Rightarrow> bytes \<Rightarrow> bytes \<Rightarrow> bool \<Rightarrow> bytes tpm_result" where
  "transform_parameter E L x a auth_value body response =
     (let (newer, older) = (if response then (nonce_tpm x, in_nonce a) else (in_nonce a, nonce_tpm x));
          key = session_value x auth_value
      in if sym_alg (symmetric x) = alg_XOR then
           xor_obfuscate E (sym_key_bits (symmetric x)) key newer older body
         else if sym_alg (symmetric x) = alg_AES then
           res_bind (block_size alg_AES) (\<lambda>block.
           res_bind (parameter_encryption_key E (auth_hash x) key [] newer older (sym_key_bits (symmetric x)) block)
             (\<lambda>(k, iv). if response then cfb_encrypt L k iv body else cfb_decrypt L k iv body))
         else Inl rc_SYMMETRIC)"

definition session_with :: "u8 \<Rightarrow> request \<Rightarrow> nat option" where
  "session_with b q = position (\<lambda>a. attr_has (in_attributes a) b) (rq_sessions q)"

definition auth_value_at :: "nat \<Rightarrow> bytes list \<Rightarrow> bytes" where
  "auth_value_at i vs = (case get_at vs i of Some v \<Rightarrow> v | None \<Rightarrow> [])"

definition decrypt_parameters ::
  "env \<Rightarrow> aes_lib \<Rightarrow> tpm_state \<Rightarrow> bytes list \<Rightarrow> request \<Rightarrow> request tpm_result" where
  "decrypt_parameters E L s auth_values q =
     (case session_with sa_DECRYPT q of
        None \<Rightarrow> Inr q
      | Some i \<Rightarrow>
          (let a = rq_sessions q ! i in
           if in_handle a = rh_RS_PW then Inl (with_session (i + 1) rc_ATTRIBUTES)
           else res_bind (map_err (with_session (i + 1)) (slots_get (in_handle a) (session_slots s))) (\<lambda>x.
                res_bind (ok_or (first_sized_parameter (rq_parameters q)) (with_parameter 1 rc_SIZE)) (\<lambda>body.
                res_bind (transform_parameter E L x a (auth_value_at i auth_values) body False) (\<lambda>plain.
                  Inr (q\<lparr>rq_parameters := splice_first_parameter plain (rq_parameters q)\<rparr>))))))"

definition encrypt_parameters ::
  "env \<Rightarrow> aes_lib \<Rightarrow> tpm_state \<Rightarrow> request \<Rightarrow> bytes list \<Rightarrow> bytes \<Rightarrow> bytes tpm_result" where
  "encrypt_parameters E L s q auth_values parms =
     (case session_with sa_ENCRYPT q of
        None \<Rightarrow> Inr parms
      | Some i \<Rightarrow>
          (let a = rq_sessions q ! i in
           if in_handle a = rh_RS_PW then Inl (with_session (i + 1) rc_ATTRIBUTES)
           else res_bind (slots_get (in_handle a) (session_slots s)) (\<lambda>x.
             case first_sized_parameter parms of
               None \<Rightarrow> Inr parms
             | Some body \<Rightarrow>
                 res_bind (transform_parameter E L x a (auth_value_at i auth_values) body True) (\<lambda>c.
                   Inr (splice_first_parameter c parms)))))"

section \<open>Nonces\<close>

definition on_session :: "u32 \<Rightarrow> (session \<Rightarrow> session) \<Rightarrow> tpm_state \<Rightarrow> tpm_state" where
  "on_session h f s = s\<lparr>session_slots := snd (slots_modify h f (session_slots s))\<rparr>"

fun roll_response_nonces :: "env \<Rightarrow> auth_command list \<Rightarrow> (tpm_state, bytes list) st_op" where
  "roll_response_nonces E [] s = (Inr [], s)"
| "roll_response_nonces E (a # as) s =
     (if in_handle a = rh_RS_PW then
        st_bind (roll_response_nonces E as) (\<lambda>ns. st_return ([] # ns)) s
      else case slots_get (in_handle a) (session_slots s) of
          Inl _ \<Rightarrow> st_bind (roll_response_nonces E as) (\<lambda>ns. st_return ([] # ns)) s
        | Inr x \<Rightarrow>
            st_bind (draw E (length (nonce_tpm x))) (\<lambda>n.
            st_bind (st_modify (on_session (in_handle a) (\<lambda>x. x\<lparr>nonce_tpm := n, nonce_caller := in_nonce a\<rparr>))) (\<lambda>_.
            st_bind (roll_response_nonces E as) (\<lambda>ns. st_return (n # ns)))) s)"

section \<open>Audit\<close>

definition keeps_exclusive_audit :: "u32 \<Rightarrow> bool" where
  "keeps_exclusive_audit c = (requires_no_sessions c \<or> c = cc_ReadClock)"

definition command_audit_applies :: "tpm_state \<Rightarrow> u32 \<Rightarrow> bool" where
  "command_audit_applies s c =
     (if c = cc_Shutdown \<or> failure_mode s \<or> command_audit_suppressed s then False
      else if c = cc_SetCommandCodeAuditStatus then True
      else c \<in> set (ca_commands (cmd_audit s)))"

definition is_exclusive :: "tpm_state \<Rightarrow> u32 \<Rightarrow> bool" where
  "is_exclusive s h = (h \<noteq> rh_RS_PW \<and> exclusive_session (cmd_audit s) = h)"

definition audit_session ::
  "env \<Rightarrow> request \<Rightarrow> bytes list \<Rightarrow> bytes \<Rightarrow> bytes \<Rightarrow> nat \<Rightarrow> (tpm_state, unit) st_op" where
  "audit_session E q names cmd_parms resp_parms i s =
     (let a = rq_sessions q ! i in
      case slots_get (in_handle a) (session_slots s) of
        Inl _ \<Rightarrow> (Inr (), s)
      | Inr x \<Rightarrow>
          (let old = (if attr_has (in_attributes a) sa_AUDIT_RESET \<or> \<not> is_audit (audit x) then []
                      else audit_digest (audit x))
           in case res_bind (cp_hash E (auth_hash x) (rq_code q) names cmd_parms) (\<lambda>cp.
                   res_bind (rp_hash E (auth_hash x) rc_SUCCESS (rq_code q) resp_parms) (\<lambda>rp.
                     extend_audit E (auth_hash x) old cp rp)) of
                Inl e \<Rightarrow> (Inl e, s)
              | Inr d \<Rightarrow> (Inr (), on_session (in_handle a) (\<lambda>x. x\<lparr>audit := \<lparr>is_audit = True, audit_digest = d\<rparr>\<rparr>) s)))"

definition move_exclusive :: "request \<Rightarrow> tpm_state \<Rightarrow> tpm_state" where
  "move_exclusive q s =
     (case audit_session_index q of
        Some i \<Rightarrow> s\<lparr>cmd_audit := (cmd_audit s)\<lparr>exclusive_session := in_handle (rq_sessions q ! i)\<rparr>\<rparr>
      | None \<Rightarrow> if \<not> keeps_exclusive_audit (rq_code q)
                then s\<lparr>cmd_audit := (cmd_audit s)\<lparr>exclusive_session := rh_UNASSIGNED\<rparr>\<rparr> else s)"

definition audit_command :: "env \<Rightarrow> request \<Rightarrow> bytes list \<Rightarrow> bytes \<Rightarrow> bytes \<Rightarrow> (tpm_state, unit) st_op" where
  "audit_command E q names cmd_parms resp_parms s =
     (if \<not> command_audit_applies s (rq_code q) then (Inr (), s)
      else (let alg = ca_alg (cmd_audit s) in
        case res_bind (cp_hash E alg (rq_code q) names cmd_parms) (\<lambda>cp.
             res_bind (rp_hash E alg rc_SUCCESS (rq_code q) resp_parms) (\<lambda>rp.
             res_bind (hash_size E alg) (\<lambda>n. Inr (cp, rp, n)))) of
          Inl e \<Rightarrow> (Inl e, s)
        | Inr (cp, rp, n) \<Rightarrow>
            (let s = (if length (ca_digest (cmd_audit s)) \<noteq> n
                      then s\<lparr>cmd_audit := (cmd_audit s)\<lparr>ca_counter := ca_counter (cmd_audit s) + 1\<rparr>\<rparr> else s)
             in case extend_audit E alg (ca_digest (cmd_audit s)) cp rp of
                  Inl e \<Rightarrow> (Inl e, s)
                | Inr d \<Rightarrow> (Inr (), s\<lparr>cmd_audit := (cmd_audit s)\<lparr>ca_digest := d\<rparr>\<rparr>))))"

definition update_audit :: "env \<Rightarrow> request \<Rightarrow> bytes list \<Rightarrow> bytes \<Rightarrow> bytes \<Rightarrow> (tpm_state, unit) st_op" where
  "update_audit E q names cmd_parms resp_parms =
     st_bind (case audit_session_index q of
                Some i \<Rightarrow> audit_session E q names cmd_parms resp_parms i | None \<Rightarrow> st_return ()) (\<lambda>_.
     st_bind (st_modify (move_exclusive q)) (\<lambda>_.
       audit_command E q names cmd_parms resp_parms))"

section \<open>The response authorizations\<close>

record auth_context =
  ac_name :: bytes
  ac_auth :: bytes

record auth_response =
  out_nonce :: bytes
  out_attributes :: u8
  out_hmac :: bytes

definition auth_response_put :: "auth_response \<Rightarrow> writer \<Rightarrow> writer" where
  "auth_response_put a w = tpm2b_put (out_hmac a) (w_u8 (out_attributes a) (tpm2b_put (out_nonce a) w))"

definition auth_response_get :: "reader \<Rightarrow> (auth_response \<times> reader) tpm_result" where
  "auth_response_get r =
     res_bind (tpm2b_get MAX_DIGEST_SIZE r) (\<lambda>(n, r).
     res_bind (unmarshal_attr sa_reserved r_u8 r) (\<lambda>(a, r).
     res_bind (tpm2b_get MAX_DIGEST_SIZE r) (\<lambda>(m, r).
       Inr (\<lparr>out_nonce = n, out_attributes = a, out_hmac = m\<rparr>, r))))"

definition response_attributes :: "tpm_state \<Rightarrow> auth_command \<Rightarrow> u8" where
  "response_attributes s a =
     (if attr_has (in_attributes a) sa_AUDIT \<and> is_exclusive s (in_handle a)
      then attr_with (in_attributes a) sa_AUDIT_EXCLUSIVE else attr_without (in_attributes a) sa_AUDIT_EXCLUSIVE)"

text \<open>The response of the session at one position.\<close>

definition response_session ::
  "env \<Rightarrow> tpm_state \<Rightarrow> request \<Rightarrow> u32 \<Rightarrow> bytes \<Rightarrow> bytes list \<Rightarrow> auth_context list \<Rightarrow> nat \<Rightarrow> auth_response tpm_result" where
  "response_session E s q code parms nonces contexts i =
     (let a = rq_sessions q ! i in
      if in_handle a = rh_RS_PW then Inr \<lparr>out_nonce = [], out_attributes = sa_CONTINUE_SESSION, out_hmac = []\<rparr>
      else (let at = response_attributes s a; n = auth_value_at i nonces in
        case slots_get (in_handle a) (session_slots s) of
          Inl _ \<Rightarrow> res_bind (tpm2b_new MAX_DIGEST_SIZE n) (\<lambda>n.
                     Inr \<lparr>out_nonce = n, out_attributes = at, out_hmac = []\<rparr>)
        | Inr x \<Rightarrow>
            res_bind (rp_hash E (auth_hash x) code (rq_code q) parms) (\<lambda>rp.
            res_bind (if in_hmac a \<noteq> [] then
                        (let c = (case get_at contexts i of Some c \<Rightarrow> c | None \<Rightarrow> \<lparr>ac_name = [], ac_auth = []\<rparr>);
                             key = (if i < ci_auth_handles (rq_info q) then hmac_key x (ac_name c) (ac_auth c)
                                    else session_key x)
                         in auth_hmac E (auth_hash x) key rp n (in_nonce a) at)
                      else Inr []) (\<lambda>m.
            res_bind (tpm2b_new MAX_DIGEST_SIZE n) (\<lambda>n.
            res_bind (tpm2b_new MAX_DIGEST_SIZE m) (\<lambda>m.
              Inr \<lparr>out_nonce = n, out_attributes = at, out_hmac = m\<rparr>))))))"

fun response_area :: "(nat \<Rightarrow> auth_response tpm_result) \<Rightarrow> nat list \<Rightarrow> writer \<Rightarrow> writer tpm_result" where
  "response_area f [] w = Inr w"
| "response_area f (i # is) w = res_bind (f i) (\<lambda>a. response_area f is (auth_response_put a w))"

definition build_response_sessions ::
  "env \<Rightarrow> tpm_state \<Rightarrow> request \<Rightarrow> u32 \<Rightarrow> bytes \<Rightarrow> bytes list \<Rightarrow> auth_context list \<Rightarrow> bytes tpm_result" where
  "build_response_sessions E s q code parms nonces contexts =
     res_bind (response_area (response_session E s q code parms nonces contexts) [0..<length (rq_sessions q)] writer_new)
       w_finish"

section \<open>Closing sessions\<close>

definition close_session :: "env \<Rightarrow> nat \<Rightarrow> nat \<Rightarrow> auth_command \<Rightarrow> tpm_state \<Rightarrow> tpm_state" where
  "close_session E auth_handles i a s =
     (let h = in_handle a in
      if h = rh_RS_PW then s
      else if \<not> attr_has (in_attributes a) sa_CONTINUE_SESSION then
        (let s = s\<lparr>session_slots := snd (slots_remove h (session_slots s))\<rparr>
         in if exclusive_session (cmd_audit s) = h
            then s\<lparr>cmd_audit := (cmd_audit s)\<lparr>exclusive_session := rh_UNASSIGNED\<rparr>\<rparr> else s)
      else (let s = (if attr_has (in_attributes a) sa_AUDIT
                     then on_session h (\<lambda>x. x\<lparr>ses_bind := rh_NULL, bind_name := []\<rparr>) s else s)
            in if auth_handles \<le> i then s
               else on_session h (\<lambda>x. if is_policy x then snd (restart_policy E x) else x) s))"

fun close_sessions_from :: "env \<Rightarrow> nat \<Rightarrow> nat \<Rightarrow> auth_command list \<Rightarrow> tpm_state \<Rightarrow> tpm_state" where
  "close_sessions_from E n i [] s = s"
| "close_sessions_from E n i (a # as) s = close_sessions_from E n (i + 1) as (close_session E n i a s)"

definition close_sessions :: "env \<Rightarrow> request \<Rightarrow> tpm_state \<Rightarrow> tpm_state" where
  "close_sessions E q = close_sessions_from E (ci_auth_handles (rq_info q)) 0 (rq_sessions q)"

definition session_can_authorize :: "u8 \<Rightarrow> bool" where
  "session_can_authorize t = (t = se_HMAC \<or> t = se_POLICY)"

section \<open>The caller's side of parameter encryption\<close>

text \<open>
  What either side does to the octets of a parameter, given which nonce is the newer one: the caller
  encrypts a command parameter and decrypts a response parameter with the same key.
\<close>

definition protect_parameter ::
  "env \<Rightarrow> aes_lib \<Rightarrow> session \<Rightarrow> bytes \<Rightarrow> bytes \<Rightarrow> bytes \<Rightarrow> direction \<Rightarrow> bytes \<Rightarrow> bytes tpm_result" where
  "protect_parameter E L x v newer older dir body =
     (if sym_alg (symmetric x) = alg_XOR then
        xor_obfuscate E (sym_key_bits (symmetric x)) (session_value x v) newer older body
      else if sym_alg (symmetric x) = alg_AES then
        res_bind (parameter_encryption_key E (auth_hash x) (session_value x v) [] newer older
                    (sym_key_bits (symmetric x)) AES_BLOCK_SIZE)
          (\<lambda>(k, iv). case dir of Encrypt \<Rightarrow> cfb_encrypt L k iv body | Decrypt \<Rightarrow> cfb_decrypt L k iv body)
      else Inl rc_SYMMETRIC)"

lemma transform_protects:
  "transform_parameter E L x a v body response =
     (if response then protect_parameter E L x v (nonce_tpm x) (in_nonce a) Encrypt body
      else protect_parameter E L x v (in_nonce a) (nonce_tpm x) Decrypt body)"
  by (simp add: transform_parameter_def protect_parameter_def Let_def block_size_def)

lemma protect_inverts:
  assumes "aes_ok L" and "protect_parameter E L x v newer older Encrypt body = Inr c"
  shows "length c = length body \<and> protect_parameter E L x v newer older Decrypt c = Inr body"
proof (cases "sym_alg (symmetric x) = alg_XOR")
  case True
  with assms(2) have "xor_obfuscate E (sym_key_bits (symmetric x)) (session_value x v) newer older body = Inr c"
    by (simp add: protect_parameter_def)
  from xor_obfuscate_twice [OF this] True show ?thesis by (simp add: protect_parameter_def)
next
  case False
  let ?key = "parameter_encryption_key E (auth_hash x) (session_value x v) [] newer older
      (sym_key_bits (symmetric x)) AES_BLOCK_SIZE"
  from False assms(2) have aes: "sym_alg (symmetric x) = alg_AES"
    and *: "res_bind ?key (\<lambda>(k, iv). cfb_encrypt L k iv body) = Inr c"
    by (simp_all add: protect_parameter_def split: if_splits)
  from * obtain k iv where k: "?key = Inr (k, iv)" "cfb_encrypt L k iv body = Inr c"
    by (cases ?key) auto
  then show ?thesis using cfb_roundtrip [OF assms(1) k(2)] aes by (simp add: protect_parameter_def)
qed

definition sized :: "bytes \<Rightarrow> bytes" where
  "sized b = to_be 2 (of_nat (length b) :: u16) @ b"

lemma sized_first:
  assumes "length b < 2 ^ 16"
  shows "first_sized_parameter (sized b @ tail) = Some b"
    and "length c = length b \<Longrightarrow> splice_first_parameter c (sized b @ tail) = sized c @ tail"
proof -
  have n: "slice (to_be 2 (of_nat (length b) :: u16) @ b @ tail) 0 2 = to_be 2 (of_nat (length b) :: u16)"
    by (simp add: slice_def del: to_be.simps)
  have "unat (of_nat (length b) :: u16) = length b" using assms by (simp add: unat_of_nat)
  then show "first_sized_parameter (sized b @ tail) = Some b"
    by (simp add: first_sized_parameter_def sized_def Let_def n slice_def del: to_be.simps)
  show "splice_first_parameter c (sized b @ tail) = sized c @ tail" if "length c = length b"
    using that by (simp add: splice_first_parameter_def upd_slice_def sized_def del: to_be.simps)
qed


section \<open>What closing leaves of a session\<close>

definition closed :: "env \<Rightarrow> nat \<Rightarrow> nat \<Rightarrow> auth_command \<Rightarrow> session \<Rightarrow> session" where
  "closed E n i a x =
     (let x = (if attr_has (in_attributes a) sa_AUDIT then x\<lparr>ses_bind := rh_NULL, bind_name := []\<rparr> else x)
      in if i < n \<and> is_policy x then snd (restart_policy E x) else x)"

lemma slots_get_on_session:
  "slots_get h (session_slots (on_session k f s)) =
     (if h = k then (case slots_get h (session_slots s) of Inl e \<Rightarrow> Inl e | Inr x \<Rightarrow> Inr (f x))
      else slots_get h (session_slots s))"
  by (auto simp: on_session_def slots_get_def slots_modify_def ok_or_def split: option.split)

lemma slots_get_close:
  "slots_get h (session_slots (close_session E n i a s)) =
     (if h = in_handle a \<and> h \<noteq> rh_RS_PW then
        (if attr_has (in_attributes a) sa_CONTINUE_SESSION
         then (case slots_get h (session_slots s) of Inl e \<Rightarrow> Inl e | Inr x \<Rightarrow> Inr (closed E n i a x))
         else Inl rc_HANDLE)
      else slots_get h (session_slots s))"
proof (cases "attr_has (in_attributes a) sa_CONTINUE_SESSION")
  case True
  then show ?thesis
    by (auto simp: close_session_def Let_def slots_get_on_session closed_def split: sum.split)
next
  case False
  then show ?thesis
    by (auto simp: close_session_def Let_def slots_remove_def slots_get_def)
qed

definition spent :: "env \<Rightarrow> session \<Rightarrow> bool" where
  "spent E x = (case hash_size E (auth_hash x) of
     Inl _ \<Rightarrow> True | Inr n \<Rightarrow> policy x = policy_default\<lparr>pol_digest := replicate n 0\<rparr>)"

lemma spent_closed:
  "i < n \<Longrightarrow> is_policy (closed E n i a x) \<Longrightarrow> spent E (closed E n i a x)"
  "spent E x \<Longrightarrow> spent E (closed E n i a x)"
  "is_policy (closed E n i a x) = is_policy x"
  "auth_hash (closed E n i a x) = auth_hash x"
proof -
  let ?u = "if attr_has (in_attributes a) sa_AUDIT then x\<lparr>ses_bind := rh_NULL, bind_name := []\<rparr> else x"
  have u: "is_policy ?u = is_policy x" "auth_hash ?u = auth_hash x" "policy ?u = policy x"
    by (simp_all add: is_policy_def)
  have r: "is_policy (snd (restart_policy E y)) = is_policy y" "auth_hash (snd (restart_policy E y)) = auth_hash y"
    "spent E (snd (restart_policy E y))" for y
    by (auto simp: restart_policy_def is_policy_def spent_def split: sum.splits)
  have c: "closed E n i a x = (if i < n \<and> is_policy ?u then snd (restart_policy E ?u) else ?u)"
    by (simp add: closed_def Let_def)
  show "is_policy (closed E n i a x) = is_policy x" "auth_hash (closed E n i a x) = auth_hash x"
    unfolding c by (simp_all only: u r if_cancel split: if_split) simp_all
  show "spent E (closed E n i a x)" if "i < n" "is_policy (closed E n i a x)"
    using that unfolding c by (simp only: u r split: if_splits) simp_all
  have "spent E ?u = spent E x" by (simp add: spent_def split: sum.split)
  then show "spent E (closed E n i a x)" if "spent E x"
    using that unfolding c by (simp only: r split: if_splits) simp_all
qed

definition used_up :: "env \<Rightarrow> u32 \<Rightarrow> tpm_state \<Rightarrow> bool" where
  "used_up E h s = (case slots_get h (session_slots s) of Inl _ \<Rightarrow> True | Inr x \<Rightarrow> is_policy x \<longrightarrow> spent E x)"

definition gone :: "u32 \<Rightarrow> tpm_state \<Rightarrow> bool" where
  "gone h s = (\<not> is_ok (slots_get h (session_slots s)) \<and> exclusive_session (cmd_audit s) \<noteq> h)"

lemma close_keeps:
  "used_up E h s \<Longrightarrow> used_up E h (close_session E n i a s)"
  "gone h s \<Longrightarrow> h \<noteq> rh_UNASSIGNED \<Longrightarrow> gone h (close_session E n i a s)"
proof -
  show "used_up E h (close_session E n i a s)" if "used_up E h s"
    using that by (auto simp: used_up_def slots_get_close spent_closed split: sum.splits)
  show "gone h (close_session E n i a s)" if "gone h s" and "h \<noteq> rh_UNASSIGNED"
    using that by (auto simp: gone_def slots_get_close is_ok_def split: sum.splits)
      (auto simp: close_session_def on_session_def Let_def split: if_splits)
qed

lemma close_establishes:
  "i < n \<Longrightarrow> in_handle a \<noteq> rh_RS_PW \<Longrightarrow> used_up E (in_handle a) (close_session E n i a s)"
  "\<not> attr_has (in_attributes a) sa_CONTINUE_SESSION \<Longrightarrow> in_handle a \<noteq> rh_RS_PW \<Longrightarrow> in_handle a \<noteq> rh_UNASSIGNED
    \<Longrightarrow> gone (in_handle a) (close_session E n i a s)"
proof -
  show "used_up E (in_handle a) (close_session E n i a s)" if "i < n" "in_handle a \<noteq> rh_RS_PW"
    using that by (auto simp: used_up_def slots_get_close spent_closed split: sum.splits)
  show "gone (in_handle a) (close_session E n i a s)"
    if "\<not> attr_has (in_attributes a) sa_CONTINUE_SESSION" "in_handle a \<noteq> rh_RS_PW" "in_handle a \<noteq> rh_UNASSIGNED"
    using that by (auto simp: gone_def slots_get_close is_ok_def)
      (auto simp: close_session_def Let_def split: if_splits)
qed

text \<open>A session without what closing may change of it: its policy and its binding.\<close>

definition session_core :: "session \<Rightarrow> session" where
  "session_core x = x\<lparr>policy := policy_default, ses_bind := 0, bind_name := []\<rparr>"

definition unbound :: "u32 \<Rightarrow> tpm_state \<Rightarrow> bool" where
  "unbound h s = (case slots_get h (session_slots s) of Inl _ \<Rightarrow> True | Inr x \<Rightarrow> ses_bind x = rh_NULL \<and> bind_name x = [])"

definition from_session :: "session tpm_result \<Rightarrow> tpm_state \<Rightarrow> u32 \<Rightarrow> bool" where
  "from_session r s h = (case slots_get h (session_slots s) of
     Inl _ \<Rightarrow> True | Inr x \<Rightarrow> (\<exists>y. r = Inr y \<and> session_core x = session_core y))"

lemma closed_binding:
  "ses_bind (closed E n i a x) = (if attr_has (in_attributes a) sa_AUDIT then rh_NULL else ses_bind x)"
  "bind_name (closed E n i a x) = (if attr_has (in_attributes a) sa_AUDIT then [] else bind_name x)"
  "session_core (closed E n i a x) = session_core x"
  by (auto simp: closed_def Let_def restart_policy_def session_core_def split: sum.split)

lemma close_unbinds:
  "unbound h s \<Longrightarrow> unbound h (close_session E n i a s)"
  "attr_has (in_attributes a) sa_AUDIT \<Longrightarrow> in_handle a \<noteq> rh_RS_PW \<Longrightarrow> unbound (in_handle a) (close_session E n i a s)"
  "from_session r s h \<Longrightarrow> from_session r (close_session E n i a s) h"
  by (auto simp: unbound_def from_session_def slots_get_close closed_binding split: sum.splits)

lemma close_all_keeps:
  "used_up E h s \<Longrightarrow> used_up E h (close_sessions_from E n i as s)"
  "gone h s \<Longrightarrow> h \<noteq> rh_UNASSIGNED \<Longrightarrow> gone h (close_sessions_from E n i as s)"
  "unbound h s \<Longrightarrow> unbound h (close_sessions_from E n i as s)"
  "from_session r s h \<Longrightarrow> from_session r (close_sessions_from E n i as s) h"
  by (induction as arbitrary: i s) (simp_all add: close_keeps close_unbinds)

lemma close_all_effect:
  assumes "k < length as" and "in_handle (as ! k) \<noteq> rh_RS_PW"
  shows "i + k < n \<Longrightarrow> used_up E (in_handle (as ! k)) (close_sessions_from E n i as s)"
    and "\<not> attr_has (in_attributes (as ! k)) sa_CONTINUE_SESSION \<Longrightarrow> in_handle (as ! k) \<noteq> rh_UNASSIGNED
      \<Longrightarrow> gone (in_handle (as ! k)) (close_sessions_from E n i as s)"
    and "attr_has (in_attributes (as ! k)) sa_AUDIT \<Longrightarrow> unbound (in_handle (as ! k)) (close_sessions_from E n i as s)"
  using assms
proof (induction as arbitrary: i k s)
  case (Cons a as)
  {
    case 1
    then show ?case
    proof (cases k)
      case (Suc m)
      then show ?thesis using Cons.IH(1) [of "i + 1" m] 1 by simp
    qed (simp add: close_all_keeps close_establishes)
  next
    case 2
    then show ?case
    proof (cases k)
      case (Suc m)
      then show ?thesis using Cons.IH(2) [of m] 2 by simp
    qed (simp add: close_all_keeps close_establishes)
  next
    case 3
    then show ?case
    proof (cases k)
      case (Suc m)
      then show ?thesis using Cons.IH(3) [of m] 3 by simp
    qed (simp add: close_all_keeps close_unbinds)
  }
qed simp_all

lemma close_all_others:
  "h \<notin> in_handle ` set as \<Longrightarrow>
     slots_get h (session_slots (close_sessions_from E n i as s)) = slots_get h (session_slots s)"
  by (induction as arbitrary: i s) (simp_all add: slots_get_close)

text \<open>C2: sessions end as asked, and what they were given is spent. After the response, a session without
  continueSession is no longer loaded nor the exclusive audit session; a session that stays loaded is
  the one it was but for its policy and its binding; a policy session that authorized a handle has the
  policy of a new session, so one satisfied policy never authorizes a second command; a session used
  for audit is bound to no entity any more; and every session the command did not name is as it was.\<close>

theorem closed_sessions_are_spent:
  assumes "i < length (rq_sessions q)" and "is_session_handle (in_handle (rq_sessions q ! i))"
  shows "let t = close_sessions E q s; a = rq_sessions q ! i; h = in_handle a in
     (if attr_has (in_attributes a) sa_CONTINUE_SESSION then True
      else slots_get h (session_slots t) = Inl rc_HANDLE \<and> exclusive_session (cmd_audit t) \<noteq> h)
   \<and> (case slots_get h (session_slots t) of
        Inl _ \<Rightarrow> True
      | Inr x \<Rightarrow> (\<exists>y. slots_get h (session_slots s) = Inr y \<and> session_core x = session_core y)
            \<and> (if i < ci_auth_handles (rq_info q) \<and> is_policy x \<and> is_supported E (auth_hash x)
               then \<exists>n. hash_size E (auth_hash x) = Inr n \<and> policy x = policy_default\<lparr>pol_digest := replicate n 0\<rparr> else True)
            \<and> (if attr_has (in_attributes a) sa_AUDIT then ses_bind x = rh_NULL \<and> bind_name x = [] else True))
   \<and> (\<forall>k. k \<notin> in_handle ` set (rq_sessions q) \<longrightarrow> slots_get k (session_slots t) = slots_get k (session_slots s))"
proof -
  let ?a = "rq_sessions q ! i" and ?t = "close_sessions E q s"
  have h: "in_handle ?a \<noteq> rh_RS_PW" "in_handle ?a \<noteq> rh_UNASSIGNED"
    using assms(2) by (auto simp: is_session_handle_def)
  have err: "slots_get k u = Inl c \<Longrightarrow> c = rc_HANDLE" for k u c
    by (auto simp: slots_get_def ok_or_def split: option.splits)
  have "attr_has (in_attributes ?a) sa_CONTINUE_SESSION \<or> gone (in_handle ?a) ?t"
    using close_all_effect(2) [OF assms(1) h(1)] h(2) by (auto simp: close_sessions_def)
  moreover have "i < ci_auth_handles (rq_info q) \<Longrightarrow> used_up E (in_handle ?a) ?t"
    using close_all_effect(1) [OF assms(1) h(1), of 0] by (simp add: close_sessions_def)
  moreover have "attr_has (in_attributes ?a) sa_AUDIT \<Longrightarrow> unbound (in_handle ?a) ?t"
    using close_all_effect(3) [OF assms(1) h(1)] by (simp add: close_sessions_def)
  moreover have "from_session (slots_get (in_handle ?a) (session_slots s)) ?t (in_handle ?a)"
    unfolding close_sessions_def by (rule close_all_keeps(4)) (simp add: from_session_def split: sum.split)
  moreover have "k \<notin> in_handle ` set (rq_sessions q) \<Longrightarrow>
      slots_get k (session_slots ?t) = slots_get k (session_slots s)" for k
    using close_all_others by (simp add: close_sessions_def)
  moreover have "is_supported E (auth_hash x) \<Longrightarrow> spent E x \<Longrightarrow>
      \<exists>n. hash_size E (auth_hash x) = Inr n \<and> policy x = policy_default\<lparr>pol_digest := replicate n 0\<rparr>" for x
    by (auto simp: spent_def hash_size_def supported_algorithm)
  ultimately show ?thesis
    by (auto simp: Let_def gone_def used_up_def unbound_def from_session_def is_ok_def dest: err split: sum.splits)
qed

abbreviation (input) policy_session :: session where
  "policy_session \<equiv> demo_session\<lparr>ses_handle := 0x03000000, session_type := se_POLICY,
     policy := policy_default\<lparr>auth_value_needed := True\<rparr>\<rparr>"

definition with_demo_session :: "u32 \<Rightarrow> session \<Rightarrow> tpm_state" where
  "with_demo_session h x = demo_tpm\<lparr>session_slots := slots_new\<lparr>sessions := [(h, x)]\<rparr>\<rparr>"

definition session_request :: "u32 \<Rightarrow> u8 \<Rightarrow> request" where
  "session_request h at = \<lparr>rq_info = plain_command cc_Clear 1 1, rq_tag = st_SESSIONS, rq_code = cc_Clear,
     rq_handles = [rh_LOCKOUT], rq_sessions = [\<lparr>in_handle = h, in_nonce = [], in_attributes = at, in_hmac = []\<rparr>],
     rq_parameters = [], rq_locality = 0\<rparr>"

theorem closed_sessions_are_spent_witness:
  "\<exists>x. slots_get 0x03000000 (session_slots (close_sessions (demo_env False) (session_request 0x03000000 0x81)
        (with_demo_session 0x03000000 (policy_session\<lparr>ses_bind := rh_OWNER, bind_name := [1]\<rparr>)))) = Inr x
     \<and> policy x = policy_default\<lparr>pol_digest := replicate 32 0\<rparr> \<and> ses_bind x = rh_NULL \<and> bind_name x = []"
proof -
  let ?x = "policy_session\<lparr>ses_bind := rh_OWNER, bind_name := [1]\<rparr>"
  have get: "slots_get 0x03000000 (session_slots (with_demo_session 0x03000000 ?x)) = Inr ?x"
    by (simp add: slots_get_def with_demo_session_def)
  let ?t = "close_sessions (demo_env False) (session_request 0x03000000 0x81) (with_demo_session 0x03000000 ?x)"
  have "slots_get 0x03000000 (session_slots ?t) = Inr (closed (demo_env False) 1 0
      \<lparr>in_handle = 0x03000000, in_nonce = [], in_attributes = 0x81, in_hmac = []\<rparr> ?x)"
    by (simp add: close_sessions_def session_request_def plain_command_def command_info_new_def slots_get_close get)
  moreover have "is_policy ?x" "is_supported (demo_env False) alg_SHA256" "hash_size (demo_env False) alg_SHA256 = Inr 32"
    by (simp_all add: is_policy_def is_supported_def hash_algorithm_def hash_size_def demo_env_def demo_len_def)
  ultimately show ?thesis
    using closed_sessions_are_spent [of 0 "session_request 0x03000000 0x81" "demo_env False"
        "with_demo_session 0x03000000 ?x"]
    by (simp add: session_request_def plain_command_def command_info_new_def is_session_handle_def spent_closed demo_session_def)
qed

lemma xor_protects:
  assumes "env_ok E" and "sym_alg (symmetric x) = alg_XOR" and "is_supported E (sym_key_bits (symmetric x))"
    and "length body \<le> 1024"
  obtains c where "protect_parameter E L x v newer older dir body = Inr c"
proof -
  have n: "unat (of_nat (length body * 8) :: u32) = length body * 8" using assms(4) by (simp add: unat_of_nat del: of_nat_mult)
  then have "\<exists>m. kdfa_bytes E (sym_key_bits (symmetric x)) (session_value x v) LABEL_XOR newer older (of_nat (length body * 8)) = Inr m"
    using kdfa_cases [OF assms(1), where a = "sym_key_bits (symmetric x)" and key = "session_value x v" and label = LABEL_XOR
        and u = newer and v = older and bits = "of_nat (length body * 8)"]
      assms(3,4) n by (auto split: sum.splits)
  then show ?thesis using that assms(2) by (auto simp: protect_parameter_def xor_obfuscate_def)
qed


end
