(* ===== verification/Reply.thy ===== *)
theory Reply
  imports Response
begin

text \<open>
  What the command functions share (\<open>src/tpm/commands/execute.rs\<close>, \<open>dispatch.rs\<close>): how they read their
  parameters and what they answer. The counter a request shares with the readers of its command is
  an output of the command here: \<open>rs_read\<close> is how many octets of the parameters it had read.
\<close>

record response =
  rs_handle :: "u32 option"
  rs_parameters :: bytes
  rs_read :: nat

type_synonym command = "request \<Rightarrow> (tpm_state, response) st_op"

definition param :: "nat \<Rightarrow> (reader \<Rightarrow> ('a \<times> reader) tpm_result) \<Rightarrow> reader \<Rightarrow> ('a \<times> reader) tpm_result" where
  "param n get r = map_err (with_parameter n) (get r)"

text \<open>Reading the whole parameter area with a reader, ended by \<open>expect_end\<close>.\<close>

definition all_parameters :: "(reader \<Rightarrow> ('a \<times> reader) tpm_result) \<Rightarrow> request \<Rightarrow> 'a tpm_result" where
  "all_parameters get q = res_bind (get (reader_new (rq_parameters q))) (\<lambda>(v, r). res_bind (expect_end r) (\<lambda>_. Inr v))"

definition both ::
  "(reader \<Rightarrow> ('a \<times> reader) tpm_result) \<Rightarrow> (reader \<Rightarrow> ('b \<times> reader) tpm_result)
     \<Rightarrow> reader \<Rightarrow> (('a \<times> 'b) \<times> reader) tpm_result" where
  "both f g r = res_bind (f r) (\<lambda>(a, r). res_bind (g r) (\<lambda>(b, r). Inr ((a, b), r)))"

text \<open>A command that reads its parameters first, and changes nothing when that fails.\<close>

definition reading :: "(reader \<Rightarrow> ('a \<times> reader) tpm_result) \<Rightarrow> ('a \<Rightarrow> command) \<Rightarrow> command" where
  "reading get k q s = (case all_parameters get q of Inl e \<Rightarrow> (Inl e, s) | Inr v \<Rightarrow> k v q s)"

definition respond_try :: "request \<Rightarrow> (writer \<Rightarrow> writer tpm_result) \<Rightarrow> response tpm_result" where
  "respond_try q f =
     res_bind (res_bind (f writer_new) w_finish) (\<lambda>b. Inr \<lparr>rs_handle = None, rs_parameters = b, rs_read = length (rq_parameters q)\<rparr>)"

definition respond :: "request \<Rightarrow> (writer \<Rightarrow> writer) \<Rightarrow> response tpm_result" where
  "respond q f = respond_try q (\<lambda>w. Inr (f w))"

definition respond_with_handle :: "u32 \<Rightarrow> request \<Rightarrow> (writer \<Rightarrow> writer) \<Rightarrow> response tpm_result" where
  "respond_with_handle h q f = map_sum id (\<lambda>r. r\<lparr>rs_handle := Some h\<rparr>) (respond q f)"

definition respond_empty :: "request \<Rightarrow> response tpm_result" where
  "respond_empty q = respond q (\<lambda>w. w)"

text \<open>A command without parameters never makes a reader.\<close>

definition unread :: "response tpm_result \<Rightarrow> response tpm_result" where
  "unread r = map_sum id (\<lambda>r. r\<lparr>rs_read := 0\<rparr>) r"

definition end_of_parameters :: "request \<Rightarrow> response \<Rightarrow> unit tpm_result" where
  "end_of_parameters q r = (if length (rq_parameters q) \<le> rs_read r then Inr () else Inl rc_SIZE)"

text \<open>A check that ends the command, and the state it leaves.\<close>

definition st_check :: "bool \<Rightarrow> tpm_rc \<Rightarrow> ('s, unit) st_op" where
  "st_check bad c s = (if bad then Inl c else Inr (), s)"

lemma respond_empty_Inr [simp]:
  "respond_empty q = Inr \<lparr>rs_handle = None, rs_parameters = [], rs_read = length (rq_parameters q)\<rparr>"
  by (simp add: respond_empty_def respond_def respond_try_def w_finish_def writer_new_def)

lemma end_of_parameters_empty [simp]: "respond_empty q = Inr r \<Longrightarrow> end_of_parameters q r = Inr ()"
  by (simp add: end_of_parameters_def) auto

lemma reading_state: "all_parameters get q = Inl e \<Longrightarrow> reading get k q s = (Inl e, s)"
  "all_parameters get q = Inr v \<Longrightarrow> reading get k q s = k v q s"
  by (simp_all add: reading_def)

lemma st_check_simps [simp]: "st_check True c s = (Inl c, s)" "st_check False c s = (Inr (), s)"
  by (simp_all add: st_check_def)

end
