(* ===== verification/Management.thy ===== *)
theory Management
  imports Reply
begin

text \<open>
  Startup, shutdown, self test, randomness and the clock (\<open>src/tpm/commands/management.rs\<close>). The known
  answer tests and the integrity test of \<open>src/tpm/fips.rs\<close> compare the cryptographic library and the
  program file with recorded values; what they find is the parameter \<open>self_tests\<close>.
\<close>

section \<open>Startup and shutdown\<close>

definition startup :: "env \<Rightarrow> command" where
  "startup E = reading (param 1 r_u16) (\<lambda>t q.
     st_bind (st_check (rq_locality q \<noteq> 0 \<and> rq_locality q \<noteq> 3) rc_LOCALITY) (\<lambda>_.
     st_bind (if t = su_CLEAR then on_startup_clear E (rq_locality q)
              else if t = su_STATE then (\<lambda>s.
                if shutdown_type s \<noteq> su_STATE then (Inl (with_parameter 1 rc_VALUE), s)
                else on_startup_state E (rq_locality q) s)
              else st_fail (with_parameter 1 rc_VALUE)) (\<lambda>_.
       st_lift (respond_empty q))))"

definition shutdown :: command where
  "shutdown = reading (param 1 r_u16) (\<lambda>t q s.
     if t = su_STATE \<and> pcr_allocation_pending s then (Inl (with_parameter 1 rc_VALUE), s)
     else if t = su_CLEAR \<or> t = su_STATE then
       (let s = s\<lparr>shutdown_type := t\<rparr>;
            s = (if t = su_STATE then s\<lparr>act_of := on_shutdown_state (act_of s)\<rparr> else s);
            s = s\<lparr>startup_clear := attr_with (startup_clear s) sc_ORDERLY\<rparr>
        in (respond_empty q, s))
     else (Inl (with_parameter 1 rc_VALUE), s))"

text \<open>The union TPM2_SetCapability selects a member of has no member.\<close>

definition set_capability :: command where
  "set_capability q s =
     (res_bind (all_parameters (\<lambda>r. res_bind (param 1 r_u16 r) (\<lambda>(n, r). param 1 (r_take (unat n)) r)) q) (\<lambda>body.
      res_bind (map_err (with_parameter 1) (r_u32 (reader_new body))) (\<lambda>_. Inl (with_parameter 1 rc_VALUE))), s)"

section \<open>Self test\<close>

record self_tests =
  known_answers :: "bytes option"
  integrity :: "bytes + bytes"

definition note_test_failure :: "bytes \<Rightarrow> tpm_state \<Rightarrow> tpm_state" where
  "note_test_failure which s = s\<lparr>failure_mode := True, self_test_done := False, test_failure := Some which\<rparr>"

definition run_self_tests :: "self_tests \<Rightarrow> (tpm_state, unit) st_op" where
  "run_self_tests T s =
     (case known_answers T of
        Some which \<Rightarrow> (Inl rc_FAILURE, note_test_failure which s)
      | None \<Rightarrow> (case integrity T of
          Inl which \<Rightarrow> (Inl rc_FAILURE, note_test_failure which s)
        | Inr d \<Rightarrow> (Inr (), s\<lparr>test_digest := d, self_test_done := True, test_failure := None\<rparr>)))"

definition self_test :: "self_tests \<Rightarrow> command" where
  "self_test T = reading (param 1 r_u8) (\<lambda>full q s.
     if 1 < full then (Inl (with_parameter 1 rc_VALUE), s)
     else if full = 0 \<and> self_test_done s then (respond_empty q, s)
     else st_bind (run_self_tests T) (\<lambda>_. st_lift (respond_empty q)) s)"

definition ALGORITHMS_LEGACY :: "u16 list" where
  "ALGORITHMS_LEGACY = [alg_RSA, alg_SHA1, alg_HMAC, alg_AES, alg_MGF1, alg_KEYEDHASH, alg_XOR, alg_SHA256,
     alg_SHA384, alg_SHA512, alg_NULL, alg_RSASSA, alg_RSAES, alg_RSAPSS, alg_OAEP, alg_ECDSA, alg_ECDH, alg_ECDAA,
     alg_ECSCHNORR, alg_HKDF, alg_KDF1_SP800_56A, alg_KDF2, alg_KDF1_SP800_108, alg_ECC, alg_SYMCIPHER,
     alg_SHA3_256, alg_SHA3_384, alg_SHA3_512, alg_CTR, alg_OFB, alg_CBC, alg_CFB, alg_ECB]"

definition implemented_algorithms :: "env \<Rightarrow> u16 list" where
  "implemented_algorithms E =
     (if strict E then filter (\<lambda>a. a \<noteq> alg_SHA1) ALGORITHMS_LEGACY else ALGORITHMS_LEGACY)"

definition TESTED_LEGACY :: "u16 list" where
  "TESTED_LEGACY = [alg_SHA1, alg_SHA256, alg_SHA384, alg_SHA512, alg_SHA3_256, alg_SHA3_384, alg_SHA3_512,
     alg_HMAC, alg_AES, alg_CFB, alg_KDF1_SP800_108, alg_KDF1_SP800_56A, alg_RSA, alg_RSASSA, alg_ECC, alg_ECDSA,
     alg_ECDH]"

definition tested_algorithms :: "env \<Rightarrow> u16 list" where
  "tested_algorithms E = filter (\<lambda>a. a \<noteq> alg_SHA1 \<or> is_supported E alg_SHA1) TESTED_LEGACY"

definition MAX_ALG_LIST_SIZE :: nat where "MAX_ALG_LIST_SIZE = 128"

definition incremental_self_test :: "env \<Rightarrow> self_tests \<Rightarrow> command" where
  "incremental_self_test E T = reading (param 1 (unmarshal_list r_u16 MAX_ALG_LIST_SIZE)) (\<lambda>to_test q s.
     if list_ex (\<lambda>a. a \<notin> set (implemented_algorithms E)) to_test then (Inl (with_parameter 1 rc_VALUE), s)
     else st_bind (if \<not> self_test_done s then run_self_tests T else st_return ()) (\<lambda>_.
       let remain = filter (\<lambda>a. a \<notin> set (tested_algorithms E)) (implemented_algorithms E)
       in st_lift (respond_try q (\<lambda>w. res_bind (tpml_new MAX_ALG_LIST_SIZE remain) (\<lambda>l. Inr (marshal_list w_u16 l w))))) s)"

definition get_test_result :: command where
  "get_test_result q s =
     (unread (respond_try q (\<lambda>w.
        res_bind (tpm2b_new MAX_DIGEST_SIZE (case test_failure s of Some which \<Rightarrow> which | None \<Rightarrow> test_digest s)) (\<lambda>d.
          Inr (w_u32 (if failure_mode s then rc_FAILURE else rc_SUCCESS) (tpm2b_put d w))))), s)"

section \<open>Randomness\<close>

definition get_random :: "env \<Rightarrow> command" where
  "get_random E = reading (param 1 r_u16) (\<lambda>n q.
     st_bind (draw E (min (unat n) MAX_DIGEST_SIZE)) (\<lambda>b.
       st_lift (respond_try q (\<lambda>w. res_bind (tpm2b_new MAX_DIGEST_SIZE b) (\<lambda>d. Inr (tpm2b_put d w))))))"

definition MAX_RNG_ENTROPY_SIZE :: nat where "MAX_RNG_ENTROPY_SIZE = 128"

definition stir_random :: "env \<Rightarrow> command" where
  "stir_random E = reading (param 1 (tpm2b_get MAX_SYM_DATA)) (\<lambda>d q.
     st_bind (st_check (MAX_RNG_ENTROPY_SIZE < length d) (with_parameter 1 rc_SIZE)) (\<lambda>_.
     st_bind (\<lambda>s. case drbg_stir E d (rng s) of (x, g) \<Rightarrow> (x, s\<lparr>rng := g\<rparr>)) (\<lambda>_.
       st_lift (respond_empty q))))"

section \<open>The clock\<close>

record clock_info =
  cli_clock :: u64
  cli_reset_count :: u32
  cli_restart_count :: u32
  cli_safe :: bool

definition clock_info_put :: "clock_info \<Rightarrow> writer \<Rightarrow> writer" where
  "clock_info_put c w =
     w_u8 (if cli_safe c then 1 else 0) (w_u32 (cli_restart_count c) (w_u32 (cli_reset_count c) (w_u64 (cli_clock c) w)))"

definition clock_info :: "tpm_state \<Rightarrow> clock_info" where
  "clock_info s = \<lparr>cli_clock = clock (clock_of s), cli_reset_count = reset_count (clock_of s),
     cli_restart_count = restart_count (clock_of s), cli_safe = safe (clock_of s)\<rparr>"

definition read_clock :: command where
  "read_clock q s = (unread (respond q (\<lambda>w. clock_info_put (clock_info s) (w_u64 (time (clock_of s)) w))), s)"

definition on_clock :: "(bytes \<Rightarrow> (clock_state, bytes) st_op) \<Rightarrow> command" where
  "on_clock f q s =
     (case f (rq_parameters q) (clock_of s) of
        (r, c) \<Rightarrow> (res_bind r (\<lambda>b. respond q (w_bytes b)), s\<lparr>clock_of := c\<rparr>))"

section \<open>Parameter tests\<close>

definition test_parms :: "env \<Rightarrow> command" where
  "test_parms E = reading (param 1 (parms_tagged_get E)) (\<lambda>p q s.
     (case p of
        Ecc_parms e \<Rightarrow>
          if \<not> scheme_is_null (ecc_kdf e) \<and> \<not> is_kem_suite (ecc_curve e) (ecc_kdf e)
          then Inl (with_parameter 1 rc_KDF) else respond_empty q
      | _ \<Rightarrow> respond_empty q, s))"

end
