(* ===== verification/Execute.thy ===== *)
theory Execute
  imports Management
begin

text \<open>
  The pipeline of one command (\<open>src/tpm/commands/execute.rs\<close>): the checks in their order, the command
  itself, and the building of the response. The function that runs the parsed command is an argument,
  \<open>run_cmd\<close>: what is proved of the pipeline holds for every set of commands.
\<close>

section \<open>Before any entity is looked at\<close>

definition check_failure_mode :: "tpm_state \<Rightarrow> bytes \<Rightarrow> unit tpm_result" where
  "check_failure_mode s command =
     (if failure_mode s then
        res_bind (parse_header command) (\<lambda>h.
          if \<not> allowed_in_failure_mode (hd_code h) \<or> hd_tag h \<noteq> st_NO_SESSIONS then Inl rc_FAILURE else Inr ())
      else Inr ())"

definition may_write_nv :: "request \<Rightarrow> bool" where
  "may_write_nv q =
     ((case lookup_command (rq_code q) of Some i \<Rightarrow> ci_nv i | None \<Rightarrow> False) \<or> 0 < ci_auth_handles (rq_info q))"

definition check_ready :: "tpm_state \<Rightarrow> request \<Rightarrow> unit tpm_result" where
  "check_ready s q =
     (if \<not> started s \<and> \<not> allowed_before_startup (rq_code q) then Inl rc_INITIALIZE
      else if (\<not> nv_available s \<or> nv_write_failed s) \<and> may_write_nv q then Inl rc_NV_UNAVAILABLE
      else if started s \<and> rq_code q = cc_Startup then Inl rc_INITIALIZE
      else Inr ())"

definition nullify_shutdown :: "request \<Rightarrow> tpm_state \<Rightarrow> tpm_state" where
  "nullify_shutdown q s =
     (if started s \<and> rq_code q \<noteq> cc_Shutdown \<and> shutdown_type s \<noteq> su_NONE
      then s\<lparr>shutdown_type := su_NONE, startup_clear := attr_without (startup_clear s) sc_ORDERLY\<rparr> else s)"

definition check_presence :: "tpm_state \<Rightarrow> request \<Rightarrow> unit tpm_result" where
  "check_presence s q =
     (let listed = rq_code q \<in> set (pp_commands s)
            \<and> list_ex (\<lambda>h. h = rh_PLATFORM) (take (ci_auth_handles (rq_info q)) (rq_handles q))
      in if (rq_code q = cc_PP_Commands \<or> listed) \<and> \<not> physical_presence s then Inl rc_PP else Inr ())"

fun check_handle_values_from :: "u32 \<Rightarrow> nat \<Rightarrow> u32 list \<Rightarrow> unit tpm_result" where
  "check_handle_values_from code i [] = Inr ()"
| "check_handle_values_from code i (h # hs) =
     (if (case handle_kind code i of Some k \<Rightarrow> \<not> handle_allows k h | None \<Rightarrow> False)
      then Inl (with_handle (i + 1) rc_VALUE) else check_handle_values_from code (i + 1) hs)"

definition index_is_volatile :: "nv_index \<Rightarrow> bool" where
  "index_is_volatile x = (attr_has (np_attributes (nv_public x)) nv_ORDERLY
     \<and> attr_has (np_attributes (nv_public x)) nv_CLEAR_STCLEAR)"

definition check_read_only :: "tpm_state \<Rightarrow> request \<Rightarrow> unit tpm_result" where
  "check_read_only s q =
     (if \<not> attr_has (startup_clear s) sc_READ_ONLY then Inr ()
      else res_bind (deny (refused_when_read_only (rq_code q)) rc_READ_ONLY) (\<lambda>_.
           res_bind (if read_only_needs_a_volatile_index (rq_code q) then
                       res_bind (case rq_handle q 1 of Inr h \<Rightarrow> Inr h | Inl _ \<Rightarrow> rq_handle q 0) (\<lambda>h.
                       res_bind (map_err (with_handle 1) (store_get h (nv s))) (\<lambda>x.
                         deny (\<not> index_is_volatile x) rc_READ_ONLY))
                     else Inr ()) (\<lambda>_.
             if rq_code q = cc_PolicySecret then
               res_bind (rq_handle q 0) (\<lambda>h.
                 if is_nv_handle h then
                   (case store_get h (nv s) of
                      Inr x \<Rightarrow> deny (nt_of x = nt_PIN_FAIL \<or> nt_of x = nt_PIN_PASS) rc_READ_ONLY
                    | Inl _ \<Rightarrow> Inr ())
                 else Inr ())
             else Inr ())))"

fun resolve_handles :: "env \<Rightarrow> tpm_state \<Rightarrow> nat \<Rightarrow> u32 list \<Rightarrow> bytes list tpm_result" where
  "resolve_handles E s i [] = Inr []"
| "resolve_handles E s i (h # hs) =
     (if \<not> handle_is_present s h then Inl (rc_REFERENCE_H0 + of_nat i)
      else res_bind (map_err (with_handle (i + 1)) (check_handle_available s h)) (\<lambda>_.
           res_bind (map_err (with_handle (i + 1)) (name_of E s h)) (\<lambda>n.
           res_bind (resolve_handles E s (i + 1) hs) (\<lambda>ns. Inr (n # ns)))))"

text \<open>The checks between the parsing of the command and its authorizations; they change nothing.\<close>

definition screen_request :: "env \<Rightarrow> tpm_state \<Rightarrow> request \<Rightarrow> bytes list tpm_result" where
  "screen_request E s q =
     res_bind (check_presence s q) (\<lambda>_.
     res_bind (deny (takes_no_parameters (rq_code q) \<and> rq_parameters q \<noteq> []) rc_SIZE) (\<lambda>_.
     res_bind (check_handle_values_from (rq_code q) 0 (rq_handles q)) (\<lambda>_.
     res_bind (check_read_only s q) (\<lambda>_.
     res_bind (resolve_handles E s 0 (rq_handles q)) (\<lambda>names.
     res_bind (check_session_handles s q) (\<lambda>_.
     res_bind (check_session_attributes q) (\<lambda>_. Inr names)))))))"

section \<open>Authorizations\<close>

definition authorization_hash :: "tpm_state \<Rightarrow> auth_command \<Rightarrow> u16 tpm_result" where
  "authorization_hash s a =
     (if in_handle a = rh_RS_PW then Inr alg_SHA256
      else res_bind (slots_get (in_handle a) (session_slots s)) (\<lambda>x. Inr (auth_hash x)))"

definition authorize_one :: "env \<Rightarrow> request \<Rightarrow> bytes list \<Rightarrow> nat \<Rightarrow> (tpm_state, auth_context) st_op" where
  "authorize_one E q names i s =
     (case (if length (rq_sessions q) \<le> i then Inl (with_session (i + 1) rc_AUTH_MISSING)
            else res_bind (rq_handle q i) (\<lambda>h.
                 res_bind (map_err (with_handle (i + 1)) (entity_of E s h)) (\<lambda>e.
                 res_bind (authorization_hash s (rq_sessions q ! i)) (\<lambda>a.
                 res_bind (cp_hash E a (rq_code q) names (rq_parameters q)) (\<lambda>cp. Inr (e, cp)))))) of
        Inl c \<Rightarrow> (Inl c, s)
      | Inr (e, cp) \<Rightarrow>
          st_bind (check_authorization E q i e cp) (\<lambda>_. st_return \<lparr>ac_name = en_name e, ac_auth = en_auth e\<rparr>) s)"

fun authorize :: "env \<Rightarrow> request \<Rightarrow> bytes list \<Rightarrow> nat list \<Rightarrow> (tpm_state, auth_context list) st_op" where
  "authorize E q names [] = st_return []"
| "authorize E q names (i # is) =
     st_bind (authorize_one E q names i) (\<lambda>c.
     st_bind (authorize E q names is) (\<lambda>cs. st_return (c # cs)))"

fun check_unauthorized :: "env \<Rightarrow> tpm_state \<Rightarrow> request \<Rightarrow> bytes list \<Rightarrow> nat list \<Rightarrow> unit tpm_result" where
  "check_unauthorized E s q names [] = Inr ()"
| "check_unauthorized E s q names (i # is) =
     res_bind (check_unauthorized_session E s q i names) (\<lambda>_. check_unauthorized E s q names is)"

text \<open>Everything up to the command: the names, the authorizations and the request in the clear.\<close>

definition authorized_request ::
  "env \<Rightarrow> aes_lib \<Rightarrow> request \<Rightarrow> (tpm_state, bytes list \<times> auth_context list \<times> request) st_op" where
  "authorized_request E L q s =
     (case screen_request E s q of
        Inl c \<Rightarrow> (Inl c, s)
      | Inr names \<Rightarrow>
          st_bind (authorize E q names [0..<ci_auth_handles (rq_info q)]) (\<lambda>cs.
          st_bind (\<lambda>s. (res_bind (check_unauthorized E s q names [ci_auth_handles (rq_info q)..<length (rq_sessions q)]) (\<lambda>_.
                        res_bind (check_audit_session s q) (\<lambda>_.
                          decrypt_parameters E L s (map ac_auth cs) q)), s)) (\<lambda>q'.
            st_return (names, cs, q'))) s)"

section \<open>The response\<close>

definition note_conditional_failure :: "tpm_state \<Rightarrow> tpm_state" where
  "note_conditional_failure s =
     s\<lparr>failure_mode := True, self_test_done := False,
       test_failure := (case test_failure s of None \<Rightarrow> Some (ascii ''conditional self test'') | w \<Rightarrow> w)\<rparr>"

definition set_first_auth :: "bytes \<Rightarrow> auth_context list \<Rightarrow> auth_context list" where
  "set_first_auth v cs = (case cs of [] \<Rightarrow> [] | c # cs \<Rightarrow> c\<lparr>ac_auth := v\<rparr> # cs)"

text \<open>The values the response HMAC is keyed with, where the command changed them.\<close>

definition response_contexts :: "env \<Rightarrow> tpm_state \<Rightarrow> request \<Rightarrow> auth_context list \<Rightarrow> auth_context list" where
  "response_contexts E s q cs =
     (let cs = (if rq_code q = cc_Clear \<and> rq_handle q 0 = Inr rh_LOCKOUT then set_first_auth [] cs else cs)
      in if rq_code q = cc_HierarchyChangeAuth then
           (case res_bind (rq_handle q 0) (entity_of E s) of Inr e \<Rightarrow> set_first_auth (en_auth e) cs | Inl _ \<Rightarrow> cs)
         else cs)"

definition flush_if_needed :: "request \<Rightarrow> tpm_state \<Rightarrow> tpm_state" where
  "flush_if_needed q s =
     (if \<not> ci_flushed (rq_info q) then s
      else case get_at (rq_handles q) (if rq_code q = cc_EventSequenceComplete then 1 else 0) of
          Some h \<Rightarrow> s\<lparr>objects := snd (objects_remove h (objects s))\<rparr>
        | None \<Rightarrow> s)"

definition response_body :: "request \<Rightarrow> response \<Rightarrow> bytes \<Rightarrow> bytes \<Rightarrow> bytes tpm_result" where
  "response_body q r parms area =
     (let w = (case rs_handle r of Some h \<Rightarrow> w_u32 h writer_new | None \<Rightarrow> writer_new);
          w = (if rq_tag q = st_SESSIONS then w_u32 (of_nat (length parms)) w else w);
          w = w_bytes parms w;
          w = (if rq_tag q = st_SESSIONS then w_bytes area w else w)
      in w_finish w)"

definition response_buffer :: "request \<Rightarrow> bytes \<Rightarrow> bytes tpm_result" where
  "response_buffer q body =
     w_finish (w_bytes body (w_u32 rc_SUCCESS (w_u32 (of_nat (HEADER_SIZE + length body)) (w_u16 (rq_tag q) writer_new))))"

definition answer ::
  "env \<Rightarrow> aes_lib \<Rightarrow> request \<Rightarrow> bytes \<Rightarrow> bytes list \<Rightarrow> auth_context list \<Rightarrow> response \<Rightarrow> (tpm_state, bytes) st_op" where
  "answer E L q cmd_parms names cs r =
     st_bind (st_lift (end_of_parameters q r)) (\<lambda>_.
     st_bind (if rq_tag q = st_SESSIONS then roll_response_nonces E (rq_sessions q) else st_return []) (\<lambda>nonces.
     st_bind (\<lambda>s. (res_bind (encrypt_parameters E L s q (map ac_auth cs) (rs_parameters r)) (\<lambda>p.
                    Inr (p, response_contexts E s q cs)), s)) (\<lambda>(parms, cs).
     st_bind (update_audit E q names cmd_parms parms) (\<lambda>_.
     st_bind (\<lambda>s. (res_bind (if rq_tag q = st_SESSIONS
                             then build_response_sessions E s q rc_SUCCESS parms nonces cs else Inr []) (\<lambda>area.
                    response_body q r parms area), s)) (\<lambda>body.
     st_bind (st_modify (close_sessions E q)) (\<lambda>_.
     st_bind (st_modify (flush_if_needed q)) (\<lambda>_.
       st_lift (response_buffer q body))))))))"

section \<open>One command\<close>

definition run_parsed ::
  "env \<Rightarrow> aes_lib \<Rightarrow> command \<Rightarrow> request \<Rightarrow> (tpm_state, bytes) st_op" where
  "run_parsed E L run_cmd q =
     st_bind (authorized_request E L q) (\<lambda>(names, cs, q').
     st_bind (st_modify (\<lambda>s. s\<lparr>command_audit_suppressed := False\<rparr>)) (\<lambda>_.
     st_bind (\<lambda>s. case run_cmd q' s of
                (Inl c, s) \<Rightarrow> (Inl c, if c = rc_FAILURE then note_conditional_failure s else s)
              | (Inr r, s) \<Rightarrow> (Inr r, s)) (\<lambda>r. answer E L q' (rq_parameters q) names cs r)))"

definition execute :: "env \<Rightarrow> aes_lib \<Rightarrow> command \<Rightarrow> u8 \<Rightarrow> bytes \<Rightarrow> (tpm_state, bytes) st_op" where
  "execute E L run_cmd loc command s =
     (case res_bind (check_failure_mode s command) (\<lambda>_.
           res_bind (parse command loc) (\<lambda>q.
           res_bind (check_ready s q) (\<lambda>_. Inr q))) of
        Inl c \<Rightarrow> (Inl c, s)
      | Inr q \<Rightarrow> run_parsed E L run_cmd q (nullify_shutdown q s))"

definition run :: "env \<Rightarrow> aes_lib \<Rightarrow> command \<Rightarrow> u8 \<Rightarrow> bytes \<Rightarrow> tpm_state \<Rightarrow> bytes \<times> tpm_state" where
  "run E L run_cmd loc command s =
     (case execute E L run_cmd loc command s of (Inr b, s) \<Rightarrow> (b, s) | (Inl c, s) \<Rightarrow> (error_response c, s))"

section \<open>What a step leaves alone\<close>

text \<open>An operation keeps an observation of the state when no outcome of it changes it.\<close>

definition keeps :: "('s \<Rightarrow> 'v) \<Rightarrow> ('s, 'a) st_op \<Rightarrow> bool" where
  "keeps f m \<longleftrightarrow> (\<forall>s. f (snd (m s)) = f s)"

named_theorems keeps_intros

lemma keepsD: "keeps f m \<Longrightarrow> f (snd (m s)) = f s"
  by (simp add: keeps_def)

lemma keeps_bind [keeps_intros]: "keeps f m \<Longrightarrow> (\<And>x. keeps f (k x)) \<Longrightarrow> keeps f (st_bind m k)"
  by (auto simp: keeps_def st_bind_def split: prod.split sum.split) (metis snd_conv)+

lemma keeps_simple [keeps_intros]:
  "keeps f (st_return x)" "keeps f (st_fail e)" "keeps f (st_lift r)" "keeps f (\<lambda>s. (g s, s))"
  by (simp_all add: keeps_def)

lemma keeps_modify [keeps_intros]: "(\<And>s. f (g s) = f s) \<Longrightarrow> keeps f (st_modify g)"
  by (simp add: keeps_def)

lemma keeps_if [keeps_intros]: "keeps f m \<Longrightarrow> keeps f n \<Longrightarrow> keeps f (if b then m else n)"
  by simp

text \<open>What the pipeline around a command may touch: the observations below see none of it.\<close>

definition blind :: "(tpm_state \<Rightarrow> 'v) \<Rightarrow> bool" where
  "blind f \<longleftrightarrow> (\<forall>s n l g x a o' b.
     f (s\<lparr>nv := n\<rparr>) = f s \<and> f (s\<lparr>lockout_state := l\<rparr>) = f s \<and> f (s\<lparr>rng := g\<rparr>) = f s \<and> f (s\<lparr>session_slots := x\<rparr>) = f s
     \<and> f (s\<lparr>cmd_audit := a\<rparr>) = f s \<and> f (s\<lparr>objects := o'\<rparr>) = f s \<and> f (s\<lparr>command_audit_suppressed := b\<rparr>) = f s)"

lemma blindD:
  assumes "blind f"
  shows "f (s\<lparr>nv := n\<rparr>) = f s" "f (s\<lparr>lockout_state := l\<rparr>) = f s" "f (s\<lparr>rng := g\<rparr>) = f s"
    "f (s\<lparr>session_slots := x\<rparr>) = f s" "f (s\<lparr>cmd_audit := a\<rparr>) = f s" "f (s\<lparr>objects := o'\<rparr>) = f s"
    "f (s\<lparr>command_audit_suppressed := b\<rparr>) = f s"
  using assms unfolding blind_def by blast+

lemma keeps_authorization [keeps_intros]:
  assumes "blind f" shows "keeps f (check_authorization E q i e cp)"
proof -
  have pin: "f (pin_counted q i e b s) = f s" for b s
    using pin_counted_nv [of q i e b s] blindD(1) [OF assms] by metis
  have "f (guess_counted q i e s) = f s" for s
    by (simp add: guess_counted_def note_failure_def note_lockout_failure_def blindD [OF assms] pin)
  then show ?thesis by (simp add: keeps_def authorization_outcome pin split: sum.split)
qed

lemma keeps_authorize [keeps_intros]:
  assumes "blind f" shows "keeps f (authorize E q names is)"
proof (induction "is")
  case (Cons i "is")
  have "keeps f (authorize_one E q names i)"
    unfolding keeps_def authorize_one_def
    by (auto split: sum.split intro!: keepsD [of f "st_bind _ _"] keeps_intros assms)
  then show ?case using Cons by (auto intro!: keeps_intros)
qed (simp add: keeps_intros)

lemma keeps_authorized [keeps_intros]:
  assumes "blind f" shows "keeps f (authorized_request E L q)"
  unfolding keeps_def authorized_request_def
  by (auto split: sum.split intro!: keepsD [of f "st_bind _ _"] keeps_intros assms)

lemma blind_steps [simp]:
  assumes "blind f"
  shows "f (on_session h g s) = f s" "f (close_session E n i a s) = f s" "f (close_sessions_from E n i as s) = f s"
    "f (flush_if_needed q s) = f s" "f (move_exclusive q s) = f s"
proof -
  show on: "f (on_session h g s) = f s" for h g s by (simp add: on_session_def blindD [OF assms])
  show cl: "f (close_session E n i a s) = f s" for i a s
    by (simp add: close_session_def Let_def on blindD [OF assms])
  show "f (close_sessions_from E n i as s) = f s"
    by (induction as arbitrary: i s) (simp_all add: cl)
  show "f (flush_if_needed q s) = f s"
    by (simp add: flush_if_needed_def blindD [OF assms] split: option.split)
  show "f (move_exclusive q s) = f s"
    by (simp add: move_exclusive_def blindD [OF assms] split: option.split)
qed

lemma keeps_draw [keeps_intros]: "blind f \<Longrightarrow> keeps f (draw E n)"
  by (simp add: keeps_def draw_def blindD split: prod.split)

lemma keeps_roll [keeps_intros]:
  assumes "blind f" shows "keeps f (roll_response_nonces E as)"
proof (induction as)
  case (Cons a as)
  show ?case unfolding keeps_def
  proof
    fix s
    have *: "keeps f (st_bind (draw E n) (\<lambda>n. st_bind (st_modify (g n)) (\<lambda>_.
        st_bind (roll_response_nonces E as) (k n))))" if "\<And>n s. f (g n s) = f s" "\<And>n ns. keeps f (k n ns)" for n g k
      using that by (intro keeps_intros assms Cons) simp_all
    have **: "keeps f (st_bind (roll_response_nonces E as) (\<lambda>ns. st_return ([] # ns)))"
      by (intro keeps_intros Cons)
    show "f (snd (roll_response_nonces E (a # as) s)) = f s"
      using keepsD [OF **] keepsD [OF *] assms
      by (auto split: sum.split intro!: keepsD [OF *] keeps_intros)
  qed
qed (simp add: keeps_def)

lemma keeps_audit [keeps_intros]:
  assumes "blind f" shows "keeps f (update_audit E q names p r)"
proof -
  have "keeps f (audit_session E q names p r i)" for i
    by (auto simp: keeps_def audit_session_def Let_def assms split: sum.split)
  moreover have "keeps f (audit_command E q names p r)"
    by (auto simp: keeps_def audit_command_def Let_def blindD [OF assms] split: sum.split prod.split)
  ultimately show ?thesis
    unfolding update_audit_def by (auto intro!: keeps_intros simp: assms split: option.split)
qed

lemma keeps_answer [keeps_intros]:
  assumes "blind f" shows "keeps f (answer E L q p names cs r)"
  unfolding answer_def
  by (intro keeps_intros assms) (auto simp: assms close_sessions_def split: prod.split intro!: keeps_intros)

section \<open>Complete mediation\<close>

lemma st_bind_InrE:
  assumes "st_bind m k s = (Inr b, t)"
  obtains x u where "m s = (Inr x, u)" and "k x u = (Inr b, t)"
  using assms by (auto simp: st_bind_def split: prod.splits sum.splits)

text \<open>
  The authorization at a position was granted in a state and left another: the handle is that of an entity,
  the session is allowed for it, no PIN has run out, and the caller has shown the entity's value or an HMAC
  over this very command under the session's key; the PIN counter that guards the value moved.
\<close>

definition granted :: "env \<Rightarrow> request \<Rightarrow> bytes list \<Rightarrow> nat \<Rightarrow> tpm_state \<Rightarrow> tpm_state \<Rightarrow> bool" where
  "granted E q names i s t \<longleftrightarrow>
     i < length (rq_sessions q)
   \<and> (\<exists>h e a cp. rq_handle q i = Inr h \<and> entity_of E s h = Inr e
        \<and> authorization_hash s (rq_sessions q ! i) = Inr a \<and> cp_hash E a (rq_code q) names (rq_parameters q) = Inr cp
        \<and> screened E s q i e cp = Inr () \<and> pin_allows s q i e = Inr () \<and> shows_proof E s q i e cp
        \<and> t = s\<lparr>nv := nv t\<rparr> \<and> pins_counted s q i e True (nv t))"

text \<open>The authorizations one after another, each in the state the one before it left.\<close>

fun all_granted :: "env \<Rightarrow> request \<Rightarrow> bytes list \<Rightarrow> nat list \<Rightarrow> tpm_state \<Rightarrow> tpm_state \<Rightarrow> bool" where
  "all_granted E q names [] s t \<longleftrightarrow> t = s"
| "all_granted E q names (i # is) s t \<longleftrightarrow> (\<exists>u. granted E q names i s u \<and> all_granted E q names is u t)"

text \<open>
  A session that authorizes no handle showed that its holder knows the session key: it has none and
  shows none, or its HMAC over this command is the one made with that key.
\<close>

definition key_shown :: "env \<Rightarrow> tpm_state \<Rightarrow> request \<Rightarrow> bytes list \<Rightarrow> nat \<Rightarrow> bool" where
  "key_shown E s q names j \<longleftrightarrow> (\<exists>x. slots_get (in_handle (rq_sessions q ! j)) (session_slots s) = Inr x
     \<and> (session_key x = [] \<and> in_hmac (rq_sessions q ! j) = []
        \<or> (\<exists>cp. cp_hash E (auth_hash x) (rq_code q) names (rq_parameters q) = Inr cp
             \<and> expected_hmac E s q j x (session_key x) cp = Inr (in_hmac (rq_sessions q ! j)))))"

lemma authorize_one_granted:
  assumes "authorize_one E q names i s = (Inr c, t)"
  shows "granted E q names i s t"
proof -
  have len: "i < length (rq_sessions q)"
    using assms by (auto simp: authorize_one_def not_le[symmetric] split: if_splits)
  with assms obtain h e a cp where *: "rq_handle q i = Inr h" "entity_of E s h = Inr e"
    "authorization_hash s (rq_sessions q ! i) = Inr a" "cp_hash E a (rq_code q) names (rq_parameters q) = Inr cp"
    and "st_bind (check_authorization E q i e cp) (\<lambda>_. st_return \<lparr>ac_name = en_name e, ac_auth = en_auth e\<rparr>) s = (Inr c, t)"
    by (auto simp: authorize_one_def res_bind_eq_Inr split: sum.splits)
  then obtain u where "check_authorization E q i e cp s = (Inr u, t)"
    by (auto elim: st_bind_InrE)
  then have ok: "screened E s q i e cp = Inr ()" "pin_allows s q i e = Inr ()" "shows_proof E s q i e cp"
    "t = pin_counted q i e True s"
    by (auto simp: authorization_outcome split: sum.splits if_splits)
  moreover obtain n where "pin_counted q i e True s = s\<lparr>nv := n\<rparr>" by (rule pin_counted_nv)
  moreover have "pins_counted s q i e True (nv (pin_counted q i e True s))" by (rule pin_counted_exact [OF ok(2)])
  ultimately show ?thesis using len * unfolding granted_def by (intro conjI exI [of _ h] exI [of _ e] exI [of _ a] exI [of _ cp]) simp_all
qed

lemma authorize_granted:
  "authorize E q names is s = (Inr cs, t) \<Longrightarrow> all_granted E q names is s t"
proof (induction "is" arbitrary: s cs)
  case (Cons i "is")
  then obtain c u cs' where one: "authorize_one E q names i s = (Inr c, u)" and more: "authorize E q names is u = (Inr cs', t)"
    by (auto elim!: st_bind_InrE)
  show ?case using authorize_one_granted [OF one] Cons.IH [OF more] by auto
qed simp

lemma unauthorized_shown:
  "check_unauthorized E s q names js = Inr () \<Longrightarrow> j \<in> set js \<Longrightarrow> key_shown E s q names j"
proof (induction js)
  case (Cons i js)
  then have one: "check_unauthorized_session E s q i names = Inr ()" and more: "check_unauthorized E s q names js = Inr ()"
    by (auto simp: res_bind_eq_Inr)
  have "key_shown E s q names i"
    using one by (auto simp: check_unauthorized_session_def key_shown_def Let_def res_bind_eq_Inr constant_time_eq_iff split: if_splits)
  then show ?case using Cons more by auto
qed simp

text \<open>C1: complete mediation. Two sets of commands that differ can only be told apart, in the answer or
  in the state left behind, by a command buffer that parses, arrives while the TPM is started (or is
  TPM2_Startup) and able to write what the command may write, is not refused by Failure mode,
  and passes every check of its handles and sessions. Each of its handles that needs authorization
  was granted it, one after another, each in the state the one before left, with nothing but PIN counters
  moved in between; in the state reached, every other session showed its key and the audit session is
  a fit one. No command function runs on anything less.\<close>

theorem no_command_without_authorization:
  assumes "execute E L run_cmd loc command s \<noteq> execute E L run_cmd' loc command s"
  shows "\<exists>q names t. parse command loc = Inr q \<and> check_failure_mode s command = Inr ()
    \<and> (started s \<longleftrightarrow> rq_code q \<noteq> cc_Startup)
    \<and> (nv_available s \<and> \<not> nv_write_failed s \<or> \<not> may_write_nv q)
    \<and> screen_request E (nullify_shutdown q s) q = Inr names
    \<and> all_granted E q names [0..<ci_auth_handles (rq_info q)] (nullify_shutdown q s) t
    \<and> list_all (key_shown E t q names) [ci_auth_handles (rq_info q)..<length (rq_sessions q)]
    \<and> check_audit_session t q = Inr ()"
proof -
  let ?gate = "res_bind (check_failure_mode s command) (\<lambda>_. res_bind (parse command loc) (\<lambda>q.
      res_bind (check_ready s q) (\<lambda>_. Inr q)))"
  from assms obtain q where gate: "?gate = Inr q" by (cases ?gate) (auto simp: execute_def)
  let ?s = "nullify_shutdown q s" and ?n = "ci_auth_handles (rq_info q)"
  from assms gate have "run_parsed E L run_cmd q ?s \<noteq> run_parsed E L run_cmd' q ?s" by (simp add: execute_def)
  then obtain x t where "authorized_request E L q ?s = (Inr x, t)"
    by (cases "authorized_request E L q ?s"; cases "fst (authorized_request E L q ?s)")
       (auto simp: run_parsed_def st_bind_def)
  then obtain names cs u where screen: "screen_request E ?s q = Inr names"
    and auth: "authorize E q names [0..<?n] ?s = (Inr cs, u)"
    and others: "check_unauthorized E u q names [?n..<length (rq_sessions q)] = Inr ()" "check_audit_session u q = Inr ()"
    by (auto simp: authorized_request_def res_bind_eq_Inr elim!: st_bind_InrE split: sum.splits)
  have shown: "list_all (key_shown E u q names) [?n..<length (rq_sessions q)]"
    using unauthorized_shown [OF others(1)] by (auto simp: list_all_iff)
  from gate have "check_failure_mode s command = Inr ()" "parse command loc = Inr q" "check_ready s q = Inr ()"
    by (auto simp: res_bind_eq_Inr)
  moreover from this(3) have "started s \<longleftrightarrow> rq_code q \<noteq> cc_Startup"
    "nv_available s \<and> \<not> nv_write_failed s \<or> \<not> may_write_nv q"
    by (auto simp: check_ready_def allowed_before_startup_def split: if_splits)
  ultimately show ?thesis using screen authorize_granted [OF auth] others(2) shown by (intro exI conjI) auto
qed

section \<open>The format of the response\<close>

lemma buffer_fields:
  fixes tag :: u16 and n code :: u32
  shows "from_be (slice (to_be 2 tag @ to_be 4 n @ to_be 4 code @ b) 0 2) = tag"
    and "from_be (slice (to_be 2 tag @ to_be 4 n @ to_be 4 code @ b) 2 6) = n"
    and "from_be (slice (to_be 2 tag @ to_be 4 n @ to_be 4 code @ b) 6 10) = code"
  by (simp_all add: slice_def from_be_to_be take_bit_word_eq_self del: to_be.simps)

lemma response_buffer_form:
  "response_buffer q body = Inr out \<Longrightarrow>
     out = to_be 2 (rq_tag q) @ to_be 4 (of_nat (10 + length body) :: u32) @ to_be 4 (rc_SUCCESS :: u32) @ body"
  by (simp add: response_buffer_def w_finish_def w_bytes_def w_u32_def w_u16_def writer_new_def HEADER_SIZE_def
      split: if_splits del: to_be.simps)

lemma error_response_form:
  "error_response c = to_be 2 (st_NO_SESSIONS :: u16) @ to_be 4 (10 :: u32) @ to_be 4 c @ []"
  by (simp add: error_response_def w_u32_def w_u16_def writer_new_def HEADER_SIZE_def del: to_be.simps)

lemma answer_buffer:
  assumes "answer E L q p names cs r s = (Inr out, t)"
  obtains body where "response_buffer q body = Inr out"
  using assms unfolding answer_def by (auto elim!: st_bind_InrE simp del: st_simps(1,2,4) split: prod.splits)

lemma decrypt_keeps_tag: "decrypt_parameters E L s vs q = Inr q' \<Longrightarrow> rq_tag q' = rq_tag q"
  by (auto simp: decrypt_parameters_def Let_def res_bind_eq_Inr split: option.splits if_splits)

lemma parse_tag: "parse command loc = Inr q \<Longrightarrow> rq_tag q \<in> {st_NO_SESSIONS, st_SESSIONS}"
  by (auto simp: parse_def parse_header_def Let_def res_bind_eq_Inr split: if_splits)

lemma execute_buffer:
  assumes "execute E L run_cmd loc command s = (Inr out, t)"
  obtains q body where "rq_tag q \<in> {st_NO_SESSIONS, st_SESSIONS}" and "response_buffer q body = Inr out"
proof -
  from assms obtain q where q: "parse command loc = Inr q" and "run_parsed E L run_cmd q (nullify_shutdown q s) = (Inr out, t)"
    by (auto simp: execute_def res_bind_eq_Inr split: sum.splits)
  then obtain names cs q' u r v where "authorized_request E L q (nullify_shutdown q s) = (Inr (names, cs, q'), u)"
    and answer: "answer E L q' (rq_parameters q) names cs r v = (Inr out, t)"
    unfolding run_parsed_def by (auto elim!: st_bind_InrE)
  then obtain w where "decrypt_parameters E L w (map ac_auth cs) q = Inr q'"
    unfolding authorized_request_def by (auto elim!: st_bind_InrE simp: res_bind_eq_Inr split: sum.splits)
  then have "rq_tag q' \<in> {st_NO_SESSIONS, st_SESSIONS}" using decrypt_keeps_tag parse_tag [OF q] by metis
  with answer show ?thesis using that by (auto elim: answer_buffer)
qed

text \<open>C18: every answer is a well formed response. Whatever the command buffer, the TPM answers with a
  header whose size is the length of the whole buffer; an error is exactly ten octets with the
  tag TPM_ST_NO_SESSIONS and its response code, a success carries the code TPM_RC_SUCCESS.\<close>

theorem run_response_format:
  "let (out, t) = run E L run_cmd loc command s; r = execute E L run_cmd loc command s
   in t = snd r \<and> 10 \<le> length out \<and> from_be (slice out 2 6) = (of_nat (length out) :: u32)
    \<and> (case fst r of
         Inl c \<Rightarrow> length out = 10 \<and> from_be (slice out 0 2) = (st_NO_SESSIONS :: u16) \<and> from_be (slice out 6 10) = c
       | Inr b \<Rightarrow> b = out \<and> from_be (slice out 0 2) \<in> {st_NO_SESSIONS :: u16, st_SESSIONS}
                \<and> from_be (slice out 6 10) = (rc_SUCCESS :: u32))"
proof -
  obtain r t where e: "execute E L run_cmd loc command s = (r, t)" by (cases "execute E L run_cmd loc command s")
  show ?thesis
  proof (cases r)
    case (Inl c)
    then show ?thesis unfolding run_def e by (simp add: error_response_form buffer_fields [of _ _ _ "[]", unfolded append_Nil2] del: to_be.simps)
  next
    case (Inr out)
    obtain q body where q: "rq_tag q \<in> {st_NO_SESSIONS, st_SESSIONS}" "response_buffer q body = Inr out"
      by (rule execute_buffer [OF e [unfolded Inr]])
    have out: "out = to_be 2 (rq_tag q) @ to_be 4 (of_nat (10 + length body) :: u32) @ to_be 4 (rc_SUCCESS :: u32) @ body"
      by (rule response_buffer_form [OF q(2)])
    have len: "length out = 10 + length body" unfolding out by (simp del: to_be.simps)
    have f: "from_be (slice out 0 2) = rq_tag q" "from_be (slice out 2 6) = (of_nat (length out) :: u32)"
      "from_be (slice out 6 10) = (rc_SUCCESS :: u32)"
      unfolding len unfolding out by (rule buffer_fields)+
    then show ?thesis using q(1) len unfolding run_def e Inr by simp
  qed
qed

text \<open>TPM2_Clear with lockoutAuth as its password and an unkeyed session that audits it.\<close>

definition clear_buffer :: bytes where
  "clear_buffer = [0x80, 0x02, 0, 0, 0, 37, 0, 0, 0x01, 0x26, 0x40, 0, 0, 0x0A, 0, 0, 0, 19,
     0x40, 0, 0, 0x09, 0, 0, 0, 0, 1, 7, 0x02, 0, 0, 0, 0, 0, 0x81, 0, 0]"

definition clear_request :: request where
  "clear_request = \<lparr>rq_info = the (lookup_command cc_Clear), rq_tag = st_SESSIONS, rq_code = cc_Clear,
     rq_handles = [rh_LOCKOUT],
     rq_sessions = [\<lparr>in_handle = rh_RS_PW, in_nonce = [], in_attributes = 0, in_hmac = [7]\<rparr>,
                    \<lparr>in_handle = 0x02000000, in_nonce = [], in_attributes = 0x81, in_hmac = []\<rparr>],
     rq_parameters = [], rq_locality = 0\<rparr>"

lemma parse_clear: "parse clear_buffer 0 = Inr clear_request"
  by code_simp

lemma clear_info: "ci_auth_handles (rq_info clear_request) = 1" "length (rq_sessions clear_request) = 2"
  "role_of cc_Clear 0 = R_User" "nv_access_of cc_Clear = None"
  by code_simp+

abbreviation (input) session_tpm :: tpm_state where
  "session_tpm \<equiv> with_demo_session 0x02000000 demo_session"

lemma clear_screened:
  "check_failure_mode session_tpm clear_buffer = Inr ()" "check_ready session_tpm clear_request = Inr ()"
  "nullify_shutdown clear_request session_tpm = session_tpm"
  "screen_request E session_tpm clear_request = Inr [handle_name rh_LOCKOUT]"
proof -
  show "check_failure_mode session_tpm clear_buffer = Inr ()" "check_ready session_tpm clear_request = Inr ()"
    "nullify_shutdown clear_request session_tpm = session_tpm"
    by (simp_all add: check_failure_mode_def check_ready_def nullify_shutdown_def with_demo_session_def demo_tpm_def
        clear_request_def)
  have "check_presence session_tpm clear_request = Inr ()" "check_read_only session_tpm clear_request = Inr ()"
    by (simp_all add: check_presence_def check_read_only_def with_demo_session_def demo_tpm_def clear_request_def)
  moreover have "check_handle_values_from cc_Clear 0 [rh_LOCKOUT] = Inr ()" by code_simp
  moreover have "resolve_handles E session_tpm 0 [rh_LOCKOUT] = Inr [handle_name rh_LOCKOUT]"
    by (simp add: handle_is_present_def is_transient_def is_session_handle_def check_handle_available_def is_limited_def
        base_of_def is_hierarchy_def is_persistent_def is_nv_handle_def name_of_def name_is_handle_def)
  moreover have "check_session_handles session_tpm clear_request = Inr ()"
    by (simp add: check_session_handles_def clear_request_def with_demo_session_def slots_get_def is_session_handle_def)
  moreover have "check_session_attributes clear_request = Inr ()" by code_simp
  ultimately show "screen_request E session_tpm clear_request = Inr [handle_name rh_LOCKOUT]"
    by (simp add: screen_request_def) (simp add: clear_request_def)
qed

lemma clear_authorized:
  "\<exists>cs. authorized_request (demo_env True) L clear_request session_tpm = (Inr ([handle_name rh_LOCKOUT], cs, clear_request), session_tpm)"
proof -
  let ?E = "demo_env True" and ?q = clear_request and ?s = session_tpm and ?n = "[handle_name rh_LOCKOUT]"
  have q: "rq_code ?q = cc_Clear" "rq_handle ?q 0 = Inr rh_LOCKOUT" "in_handle (rq_sessions ?q ! 0) = rh_RS_PW"
    "in_hmac (rq_sessions ?q ! 0) = [7]" "names_lockout ?q 0"
    "rq_sessions ?q ! 1 = \<lparr>in_handle = 0x02000000, in_nonce = [], in_attributes = 0x81, in_hmac = []\<rparr>"
    by (simp_all add: clear_request_def rq_handle_def get_at_def names_lockout_def)
  have e: "entity_of ?E ?s rh_LOCKOUT = Inr (lockout_entity [7])"
    by (simp add: entity_of_def name_of_def name_is_handle_def authorizing_handle_def is_hierarchy_def is_limited_def
        base_of_def with_demo_session_def demo_tpm_def policy_of_def tpmt_ha_null_def)
  obtain cp where cp: "cp_hash ?E alg_SHA256 cc_Clear ?n (rq_parameters ?q) = Inr cp"
    by (simp add: cp_hash_def hasher_new_def hash_algorithm_def)
  have "screened ?E ?s ?q 0 (lockout_entity [7]) cp = Inr ()"
    by (simp add: screened_def check_lockout_def check_nv_authorization_available_def clear_info q value_allowed_def
        check_role_allows_auth_value_def permanent_entity_def da_protected_def with_demo_session_def demo_tpm_def
        lockout_default_def locked_out_def Let_def)
  moreover have "pin_allows ?s ?q 0 (lockout_entity [7]) = Inr ()" "pin_counted ?q 0 (lockout_entity [7]) True ?s = ?s"
    by (simp_all add: pin_allows_def check_pin_available_def permanent_entity_def pin_counted_def record_pin_attempt_def)
  moreover have "shows_proof ?E ?s ?q 0 (lockout_entity [7]) cp"
    by (simp add: shows_proof_def shows_value_def q permanent_entity_def)
  ultimately have "check_authorization ?E ?q 0 (lockout_entity [7]) cp ?s = (Inr (), ?s)" by (simp add: authorization_outcome)
  then have "authorize_one ?E ?q ?n 0 ?s = (Inr \<lparr>ac_name = handle_name rh_LOCKOUT, ac_auth = [7]\<rparr>, ?s)"
    using cp e by (simp add: authorize_one_def q clear_info authorization_hash_def st_bind_def permanent_entity_def)
  then have one: "authorize ?E ?q ?n [0..<ci_auth_handles (rq_info ?q)] ?s = (Inr [\<lparr>ac_name = handle_name rh_LOCKOUT, ac_auth = [7]\<rparr>], ?s)"
    by (simp add: clear_info st_bind_def)
  have x: "slots_get 0x02000000 (session_slots ?s) = Inr demo_session" by (simp add: with_demo_session_def slots_get_def)
  have "check_unauthorized ?E ?s ?q ?n [ci_auth_handles (rq_info ?q)..<length (rq_sessions ?q)] = Inr ()"
    using x q(6) by (simp add: clear_info check_unauthorized_session_def demo_session_def numeral_2_eq_2)
  moreover have "audit_session_index ?q = Some 1" "session_with sa_DECRYPT ?q = None" by code_simp+
  moreover have "is_hmac demo_session" by (simp add: is_hmac_def demo_session_def)
  ultimately show ?thesis
    unfolding authorized_request_def clear_screened(4)
    using one x q(6) by (simp add: st_bind_def check_audit_session_def decrypt_parameters_def bit_numeral_rec)
qed

theorem no_command_without_authorization_witness:
  "\<exists>q names t. parse clear_buffer 0 = Inr q \<and> ci_auth_handles (rq_info q) = 1
     \<and> screen_request (demo_env True) session_tpm q = Inr names \<and> granted (demo_env True) q names 0 session_tpm t
     \<and> key_shown (demo_env True) t q names 1 \<and> check_audit_session t q = Inr ()"
proof -
  let ?run = "\<lambda>c. execute (demo_env True) demo_aes (\<lambda>q s. (Inl c, s)) 0 clear_buffer session_tpm"
  obtain cs where "authorized_request (demo_env True) demo_aes clear_request session_tpm
      = (Inr ([handle_name rh_LOCKOUT], cs, clear_request), session_tpm)"
    using clear_authorized by blast
  then have "?run c = (Inl c, session_tpm\<lparr>command_audit_suppressed := False\<rparr>)" if "c \<noteq> rc_FAILURE" for c
    using that by (simp add: execute_def parse_clear clear_screened(1-3) run_parsed_def st_bind_def)
  then have "?run rc_VALUE \<noteq> ?run rc_SIZE" by simp
  from no_command_without_authorization [OF this] obtain names t where
    "screen_request (demo_env True) session_tpm clear_request = Inr names"
    "all_granted (demo_env True) clear_request names [0..<1] session_tpm t"
    "list_all (key_shown (demo_env True) t clear_request names) [1..<2]" "check_audit_session t clear_request = Inr ()"
    by (auto simp: parse_clear clear_info clear_screened(3))
  then show ?thesis using parse_clear clear_info(1) by (auto simp: numeral_2_eq_2)
qed

end
