(* ===== verification/StateRecord.thy ===== *)
theory StateRecord
  imports TpmState
begin

text \<open>
  The record of the whole state (\<open>save\<close> and \<open>load\<close> of \<open>src/tpm/core/state.rs\<close>): what a power cycle keeps.
  The record grew over eleven versions and \<open>load\<close> reads all of them. It is read in sections, each of
  which takes the state built so far and the reader to the next ones.
\<close>

section \<open>Versions\<close>

definition STATE_VERSION :: u32 where "STATE_VERSION = 11"
definition STATE_VERSION_WITHOUT_PROFILE :: u32 where "STATE_VERSION_WITHOUT_PROFILE = 1"
definition FIRST_WITH_CLEAR_COUNT :: u32 where "FIRST_WITH_CLEAR_COUNT = 3"
definition FIRST_WITH_SESSIONS :: u32 where "FIRST_WITH_SESSIONS = 4"
definition FIRST_WITH_PERSISTENT_STATE_CLEAR :: u32 where "FIRST_WITH_PERSISTENT_STATE_CLEAR = 4"
definition FIRST_WITH_RESET_VALUE :: u32 where "FIRST_WITH_RESET_VALUE = 5"
definition FIRST_WITH_OBJECT_COUNTER :: u32 where "FIRST_WITH_OBJECT_COUNTER = 6"
definition FIRST_WITH_COUNTER_FLOOR :: u32 where "FIRST_WITH_COUNTER_FLOOR = 7"
definition FIRST_WITH_STARTUP_CLEAR :: u32 where "FIRST_WITH_STARTUP_CLEAR = 8"
definition FIRST_WITH_PCR_BITS :: u32 where "FIRST_WITH_PCR_BITS = 9"
definition FIRST_WITH_HCRTM_METHOD :: u32 where "FIRST_WITH_HCRTM_METHOD = 10"
definition FIRST_WITH_FIRMWARE_SECRET :: u32 where "FIRST_WITH_FIRMWARE_SECRET = 11"

definition accepted_version :: "u32 \<Rightarrow> bool" where
  "accepted_version v = (v \<in> set [STATE_VERSION, 10, 9, 8, 7, 6, 5, 4, 3, 2, STATE_VERSION_WITHOUT_PROFILE])"

lemmas version_defs = STATE_VERSION_def STATE_VERSION_WITHOUT_PROFILE_def FIRST_WITH_CLEAR_COUNT_def
  FIRST_WITH_SESSIONS_def FIRST_WITH_PERSISTENT_STATE_CLEAR_def FIRST_WITH_RESET_VALUE_def
  FIRST_WITH_OBJECT_COUNTER_def FIRST_WITH_COUNTER_FLOOR_def FIRST_WITH_STARTUP_CLEAR_def
  FIRST_WITH_PCR_BITS_def FIRST_WITH_HCRTM_METHOD_def FIRST_WITH_FIRMWARE_SECRET_def accepted_version_def

definition MIN_EVICT_OBJECTS :: nat where "MIN_EVICT_OBJECTS = 32"

definition BANKS_LEGACY :: "u16 list" where
  "BANKS_LEGACY = [alg_SHA1, alg_SHA256, alg_SHA384, alg_SHA512, alg_SHA3_256, alg_SHA3_384, alg_SHA3_512]"

definition BANKS_STRICT :: "u16 list" where
  "BANKS_STRICT = [alg_SHA256, alg_SHA384, alg_SHA512, alg_SHA3_256, alg_SHA3_384, alg_SHA3_512]"

definition implemented_pcr_banks :: "env \<Rightarrow> u16 list" where
  "implemented_pcr_banks E = (if strict E then BANKS_STRICT else BANKS_LEGACY)"

section \<open>Writing\<close>

definition hierarchy_put :: "hierarchy \<Rightarrow> writer \<Rightarrow> writer" where
  "hierarchy_put h w =
     w_bool (h_enabled h) (tpmt_ha_put (h_policy h) (sized16 (h_auth h) (sized16 (h_proof h) (sized16 (h_seed h) w))))"

definition put_head :: "env \<Rightarrow> tpm_state \<Rightarrow> writer \<Rightarrow> writer" where
  "put_head E s w = w_bool (manufactured s) (w_bool (strict E) (w_u32 STATE_VERSION w))"

definition put_hierarchies :: "hierarchies \<Rightarrow> writer \<Rightarrow> writer" where
  "put_hierarchies hs w =
     sized16 (bootloader_secret hs) (w_bool (platform_nv_enabled hs)
       (foldl (\<lambda>w h. hierarchy_put h w) w [platform hs, owner hs, endorsement hs, null hs]))"

definition put_scalars :: "tpm_state \<Rightarrow> writer \<Rightarrow> writer" where
  "put_scalars s w =
     (let w = lockout_put (lockout_state s) w;
          w = w_u32 (permanent s) w;
          w = clock_put (clock_of s) w;
          w = w_u32 (algorithm_set s) w;
          w = sized16 (lockout_auth s) w;
          w = tpmt_ha_put (lockout_policy s) w;
          w = sized16 (pcr_auth s) w;
          w = tpmt_ha_put (pcr_policy s) w
      in w_u16 (shutdown_type s) w)"

text \<open>The registers of a bank as a bit array of three octets; a longer list would index past its end.\<close>

definition BANK_OCTETS :: nat where "BANK_OCTETS = (IMPLEMENTATION_PCR + 7) div 8"

definition bank_bits :: "bool list \<Rightarrow> bytes" where
  "bank_bits bits = foldl (\<lambda>raw (i, on). if on then raw[i div 8 := raw ! (i div 8) OR push_bit (i mod 8) 1] else raw)
     (replicate BANK_OCTETS 0) (enumerate 0 bits)"

definition put_allocated :: "u16 \<times> bool list \<Rightarrow> writer \<Rightarrow> writer" where
  "put_allocated ab w = w_bytes (bank_bits (snd ab)) (w_u8 (of_nat BANK_OCTETS) (w_u16 (fst ab) w))"

definition put_pcrs :: "tpm_state \<Rightarrow> writer \<Rightarrow> writer" where
  "put_pcrs s w =
     w_u32 (update_counter (pcrs s)) (marshal_values (pcrs s)
       (foldl (\<lambda>w ab. put_allocated ab w) (w_u32 (of_nat (length (pcr_allocation s))) w) (pcr_allocation s)))"

definition put_audit :: "tpm_state \<Rightarrow> writer \<Rightarrow> writer" where
  "put_audit s w =
     marshal_list w_u32 (ca_commands (cmd_audit s)) (w_u64 (ca_counter (cmd_audit s)) (sized16 (ca_digest (cmd_audit s))
       (w_u16 (ca_alg (cmd_audit s)) (marshal_list w_u32 (pp_commands s) w))))"

definition put_index :: "nv_index \<Rightarrow> writer \<Rightarrow> writer" where
  "put_index i w =
     w_bool (write_locked i) (w_bool (read_locked i) (sized16 (nv_data i) (sized16 (nv_auth i) (nv_public_put (nv_public i) w))))"

definition put_nv :: "nv_store \<Rightarrow> writer \<Rightarrow> writer" where
  "put_nv n w = foldl (\<lambda>w hi. put_index (snd hi) w) (w_u32 (of_nat (length (indices n))) (w_u64 (highest_counter n) w)) (indices n)"

definition put_persistent_object :: "u32 \<times> object \<Rightarrow> writer \<Rightarrow> writer" where
  "put_persistent_object ho w =
     (let (h, x) = ho;
          w = public_put (obj_public x) (w_bool (state_clear x) (w_bool (tpm_generated x) (w_u32 (obj_hierarchy x) (w_u32 h w))))
      in case obj_sensitive x of Some v \<Rightarrow> sensitive_put v (w_u8 1 w) | None \<Rightarrow> w_u8 0 w)"

definition put_persistent :: "(u32, object) btree \<Rightarrow> writer \<Rightarrow> writer" where
  "put_persistent m w = foldl (\<lambda>w ho. put_persistent_object ho w) (w_u32 (of_nat (length m)) w) m"

definition put_commits :: "commits \<Rightarrow> writer \<Rightarrow> writer" where
  "put_commits c w =
     (if is_ready c then sized16 (c_used c) (w_u64 (c_count c) (sized16 (c_random c) w))
      else sized16 [] (w_u64 0 (sized16 [] w)))"

definition put_act :: "tpm_state \<Rightarrow> writer \<Rightarrow> writer" where
  "put_act s w =
     w_bool (ever_started s) (sized16 (ha_digest (act_policy (act_of s))) (w_u16 (ha_alg (act_policy (act_of s)))
       (w_bool (signaled (act_of s)) (w_u32 (act_timeout (act_of s)) w))))"

definition put_startup :: "tpm_state \<Rightarrow> writer \<Rightarrow> writer" where
  "put_startup s w = w_u8 (startup_locality s) (w_bool (hcrtm_at_last_startup s) (w_u32 (startup_clear s) w))"

definition put_saved :: "slots \<Rightarrow> writer \<Rightarrow> writer" where
  "put_saved sl w =
     w_u64 (object_counter sl) (w_u64 (context_counter sl)
       (foldl (\<lambda>w (h, i). w_u64 i (w_u32 h w)) (w_u32 (of_nat (length (saved_contexts sl))) w) (saved_contexts sl)))"

definition save :: "env \<Rightarrow> tpm_state \<Rightarrow> bytes tpm_result" where
  "save E s =
     (let w = put_head E s writer_new;
          w = put_hierarchies (hierarchies s) w;
          w = put_scalars s w;
          w = put_pcrs s w;
          w = put_audit s w;
          w = put_nv (nv s) w;
          w = put_persistent (persistent s) w;
          w = put_commits (commits_of s) w;
          w = put_act s w;
          w = put_startup s w;
          w = put_saved (session_slots s) w
      in w_finish w)"

section \<open>Reading\<close>

definition bounded_count :: "nat \<Rightarrow> reader \<Rightarrow> (nat \<times> reader) tpm_result" where
  "bounded_count limit r = res_bind (r_u32 r) (\<lambda>(n, r). if limit < unat n then Inl rc_BAD_CONTEXT else Inr (unat n, r))"

definition bounded_items :: "nat \<Rightarrow> (reader \<Rightarrow> ('a \<times> reader) tpm_result) \<Rightarrow> reader \<Rightarrow> ('a list \<times> reader) tpm_result" where
  "bounded_items limit get r = res_bind (bounded_count limit r) (\<lambda>(n, r). unmarshal_items get n r)"

text \<open>An octet that may only be zero or one.\<close>

definition r_bit :: "reader \<Rightarrow> (bool \<times> reader) tpm_result" where
  "r_bit r = res_bind (r_u8 r) (\<lambda>(v, r). if v = 0 then Inr (False, r) else if v = 1 then Inr (True, r) else Inl rc_BAD_CONTEXT)"

definition get_head :: "env \<Rightarrow> reader \<Rightarrow> ((u32 \<times> bool) \<times> reader) tpm_result" where
  "get_head E r =
     res_bind (r_u32 r) (\<lambda>(v, r).
       if \<not> accepted_version v then Inl rc_BAD_CONTEXT
       else res_bind (if v \<noteq> STATE_VERSION_WITHOUT_PROFILE then r_bit r else Inr (False, r)) (\<lambda>(written_strict, r).
         if written_strict \<noteq> strict E then Inl rc_BAD_CONTEXT
         else res_bind (r_bool r) (\<lambda>(m, r). Inr ((v, m), r))))"

definition hierarchy_get_record :: "env \<Rightarrow> reader \<Rightarrow> (hierarchy \<times> reader) tpm_result" where
  "hierarchy_get_record E r =
     res_bind (r_sized r) (\<lambda>(seed, r). res_bind (r_sized r) (\<lambda>(prf, r). res_bind (r_sized r) (\<lambda>(au, r).
     res_bind (tpmt_ha_get E r) (\<lambda>(pol, r). res_bind (r_bool r) (\<lambda>(en, r).
       Inr (\<lparr>h_seed = seed, h_proof = prf, h_auth = au, h_policy = pol, h_enabled = en\<rparr>, r))))))"

definition load_hierarchies :: "env \<Rightarrow> u32 \<Rightarrow> tpm_state \<Rightarrow> reader \<Rightarrow> (tpm_state \<times> reader) tpm_result" where
  "load_hierarchies E v s r =
     res_bind (hierarchy_get_record E r) (\<lambda>(p, r). res_bind (hierarchy_get_record E r) (\<lambda>(ow, r).
     res_bind (hierarchy_get_record E r) (\<lambda>(en, r). res_bind (hierarchy_get_record E r) (\<lambda>(nu, r).
     res_bind (r_bool r) (\<lambda>(pn, r).
     res_bind (if FIRST_WITH_FIRMWARE_SECRET \<le> v then r_sized r else Inr (bootloader_secret (hierarchies s), r)) (\<lambda>(b, r).
       Inr (s\<lparr>hierarchies := \<lparr>platform = p, owner = ow, endorsement = en, null = nu, platform_nv_enabled = pn,
                bootloader_secret = b, firmware_code = firmware_code (hierarchies s)\<rparr>\<rparr>, r)))))))"

text \<open>A record from before the reset value was drawn gets one here.\<close>

definition fill_reset_value :: "env \<Rightarrow> tpm_state \<Rightarrow> tpm_state tpm_result" where
  "fill_reset_value E s =
     (if clk_reset_value (clock_of s) \<noteq> [] then Inr s
      else case draw_reset_value E s of (Inl e, _) \<Rightarrow> Inl e | (Inr _, s) \<Rightarrow> Inr s)"

definition load_scalars :: "env \<Rightarrow> u32 \<Rightarrow> tpm_state \<Rightarrow> reader \<Rightarrow> (tpm_state \<times> reader) tpm_result" where
  "load_scalars E v s r =
     res_bind (lockout_get r) (\<lambda>(l, r).
     res_bind (unmarshal_attr pa_reserved r_u32 r) (\<lambda>(p, r).
     res_bind (clock_read (FIRST_WITH_CLEAR_COUNT \<le> v) (FIRST_WITH_RESET_VALUE \<le> v) r) (\<lambda>(c, r).
     res_bind (fill_reset_value E (s\<lparr>lockout_state := l, permanent := p, clock_of := c\<rparr>)) (\<lambda>s.
     res_bind (r_u32 r) (\<lambda>(algs, r).
     res_bind (r_sized r) (\<lambda>(la, r). res_bind (tpmt_ha_get E r) (\<lambda>(lp, r).
     res_bind (r_sized r) (\<lambda>(pa, r). res_bind (tpmt_ha_get E r) (\<lambda>(pp, r).
     res_bind (r_u16 r) (\<lambda>(sh, r).
       Inr (s\<lparr>algorithm_set := algs, lockout_auth := la, lockout_policy := lp, pcr_auth := pa, pcr_policy := pp,
              shutdown_type := sh\<rparr>, r)))))))))))"

definition bits_of_bank :: "bytes \<Rightarrow> bool list" where
  "bits_of_bank raw = map (\<lambda>i. i div 8 < length raw \<and> bit (raw ! (i div 8)) (i mod 8)) [0..<IMPLEMENTATION_PCR]"

definition get_allocated :: "u32 \<Rightarrow> reader \<Rightarrow> ((u16 \<times> bool list) \<times> reader) tpm_result" where
  "get_allocated v r =
     res_bind (r_u16 r) (\<lambda>(a, r).
       if FIRST_WITH_PCR_BITS \<le> v then
         res_bind (r_u8 r) (\<lambda>(n, r). res_bind (r_take (unat n) r) (\<lambda>(raw, r). Inr ((a, bits_of_bank raw), r)))
       else Inr ((a, replicate IMPLEMENTATION_PCR True), r))"

definition load_pcrs :: "env \<Rightarrow> u32 \<Rightarrow> tpm_state \<Rightarrow> reader \<Rightarrow> ((tpm_state \<times> u32) \<times> reader) tpm_result" where
  "load_pcrs E v s r =
     res_bind (bounded_items HASH_COUNT (get_allocated v) r) (\<lambda>(al, r).
     let al = filter (\<lambda>(a, _). a \<in> set (implemented_pcr_banks E)) al;
         al = (if al = [] then whole_banks DEFAULT_PCR_BANKS else al)
     in res_bind (pcr_new E al) (\<lambda>p.
        case unmarshal_values r p of
          (Inl e, _) \<Rightarrow> Inl e
        | (Inr r, p) \<Rightarrow> res_bind (r_u32 r) (\<lambda>(n, r). Inr ((s\<lparr>pcr_allocation := al, pcrs := p\<rparr>, n), r))))"

definition load_audit :: "tpm_state \<Rightarrow> reader \<Rightarrow> (tpm_state \<times> reader) tpm_result" where
  "load_audit s r =
     res_bind (bounded_items 512 r_u32 r) (\<lambda>(pp, r).
     res_bind (r_u16 r) (\<lambda>(a, r). res_bind (r_sized r) (\<lambda>(d, r). res_bind (r_u64 r) (\<lambda>(n, r).
     res_bind (bounded_items 512 r_u32 r) (\<lambda>(cs, r).
       Inr (s\<lparr>pp_commands := pp, cmd_audit := (cmd_audit s)\<lparr>ca_alg := a, ca_digest := d, ca_counter := n,
              ca_commands := cs\<rparr>\<rparr>, r))))))"

definition get_index :: "env \<Rightarrow> reader \<Rightarrow> (nv_index \<times> reader) tpm_result" where
  "get_index E r =
     res_bind (nv_public_get E r) (\<lambda>(p, r). res_bind (r_sized r) (\<lambda>(au, r). res_bind (r_sized r) (\<lambda>(d, r).
     res_bind (r_bool r) (\<lambda>(rl, r). res_bind (r_bool r) (\<lambda>(wl, r).
       Inr (\<lparr>nv_public = p, nv_auth = au, nv_data = d, read_locked = rl, write_locked = wl\<rparr>, r))))))"

text \<open>Each index is defined as soon as it is read.\<close>

fun load_indices :: "env \<Rightarrow> nat \<Rightarrow> nv_store \<Rightarrow> reader \<Rightarrow> (nv_store \<times> reader) tpm_result" where
  "load_indices E 0 n r = Inr (n, r)"
| "load_indices E (Suc k) n r =
     res_bind (get_index E r) (\<lambda>(i, r).
       case store_define i n of (Inl e, _) \<Rightarrow> Inl e | (Inr _, n) \<Rightarrow> load_indices E k n r)"

definition load_nv :: "env \<Rightarrow> u32 \<Rightarrow> tpm_state \<Rightarrow> reader \<Rightarrow> (tpm_state \<times> reader) tpm_result" where
  "load_nv E v s r =
     res_bind (if FIRST_WITH_COUNTER_FLOOR \<le> v then r_u64 r else Inr (0, r)) (\<lambda>(mark, r).
     res_bind (bounded_count 4096 r) (\<lambda>(k, r).
     res_bind (load_indices E k store_new r) (\<lambda>(n, r).
       Inr (s\<lparr>nv := set_counter_floor mark n\<rparr>, r))))"

definition get_persistent_object :: "env \<Rightarrow> key_lib \<Rightarrow> u32 \<Rightarrow> reader \<Rightarrow> ((u32 \<times> object) \<times> reader) tpm_result" where
  "get_persistent_object E K v r =
     res_bind (r_u32 r) (\<lambda>(h, r). res_bind (r_u32 r) (\<lambda>(hier, r). res_bind (r_bool r) (\<lambda>(gen, r).
     res_bind (if FIRST_WITH_PERSISTENT_STATE_CLEAR \<le> v then res_bind (r_bool r) (\<lambda>(c, r). Inr (Some c, r))
               else Inr (None, r)) (\<lambda>(recorded, r).
     res_bind (public_get E r) (\<lambda>(p, r).
     res_bind (r_option sensitive_get r) (\<lambda>(sens, r).
     res_bind (validate_restored E K p sens) (\<lambda>_.
       if (case recorded of Some c \<Rightarrow> c | None \<Rightarrow> attr_has (object_attributes p) oa_ST_CLEAR) then Inl rc_BAD_CONTEXT
       else res_bind (object_new E p sens hier (handle_name hier) gen) (\<lambda>x. Inr ((h, x), r)))))))))"

fun load_objects :: "env \<Rightarrow> key_lib \<Rightarrow> u32 \<Rightarrow> nat \<Rightarrow> (u32, object) btree \<Rightarrow> reader
    \<Rightarrow> ((u32, object) btree \<times> reader) tpm_result" where
  "load_objects E K v 0 m r = Inr (m, r)"
| "load_objects E K v (Suc k) m r =
     res_bind (get_persistent_object E K v r) (\<lambda>((h, x), r). load_objects E K v k (bt_insert h x m) r)"

definition load_persistent :: "env \<Rightarrow> key_lib \<Rightarrow> u32 \<Rightarrow> tpm_state \<Rightarrow> reader \<Rightarrow> (tpm_state \<times> reader) tpm_result" where
  "load_persistent E K v s r =
     res_bind (bounded_count (MIN_EVICT_OBJECTS * 64) r) (\<lambda>(k, r).
     res_bind (load_objects E K v k (persistent s) r) (\<lambda>(m, r). Inr (s\<lparr>persistent := m\<rparr>, r)))"

text \<open>The blocks a shorter record ends before.\<close>

definition load_commits :: "tpm_state \<Rightarrow> reader \<Rightarrow> (tpm_state \<times> reader) tpm_result" where
  "load_commits s r =
     (if r_is_empty r then Inr (s, r)
      else res_bind (r_sized r) (\<lambda>(random, r). res_bind (r_u64 r) (\<lambda>(count, r). res_bind (r_sized r) (\<lambda>(used, r).
        if random = [] \<and> used = [] then (if count \<noteq> 0 then Inl rc_BAD_CONTEXT else Inr (s, r))
        else if length random \<noteq> COMMIT_NONCE_BYTES \<or> length used \<noteq> unat MAX_COMMIT_SEQUENCES div 8 then Inl rc_BAD_CONTEXT
        else Inr (s\<lparr>commits_of := commit_restore random count used (commits_of s)\<rparr>, r)))))"

definition load_act :: "env \<Rightarrow> tpm_state \<Rightarrow> reader \<Rightarrow> (tpm_state \<times> reader) tpm_result" where
  "load_act E s r =
     (if r_is_empty r then Inr (s, r)
      else res_bind (r_u32 r) (\<lambda>(t, r). res_bind (r_bit r) (\<lambda>(sg, r). res_bind (r_u16 r) (\<lambda>(a, r).
        res_bind (r_sized r) (\<lambda>(d, r).
        res_bind (tpmt_ha_new E a d) (\<lambda>pol.
        res_bind (if r_is_empty r then Inr (True, r) else r_bit r) (\<lambda>(ever, r).
          Inr (s\<lparr>act_of := (act_restore t sg (act_of s))\<lparr>act_policy := pol\<rparr>, ever_started := ever\<rparr>, r))))))))"

definition load_startup :: "u32 \<Rightarrow> tpm_state \<Rightarrow> reader \<Rightarrow> (tpm_state \<times> reader) tpm_result" where
  "load_startup v s r =
     (if FIRST_WITH_STARTUP_CLEAR \<le> v \<and> \<not> r_is_empty r then
        res_bind (r_u32 r) (\<lambda>(c, r).
        let s = s\<lparr>startup_clear := c\<rparr> in
        if FIRST_WITH_HCRTM_METHOD \<le> v then
          res_bind (r_bool r) (\<lambda>(m, r). res_bind (r_u8 r) (\<lambda>(l, r).
            Inr (s\<lparr>hcrtm_at_last_startup := m, startup_locality := l\<rparr>, r)))
        else Inr (s, r))
      else Inr (s, r))"

definition get_saved :: "reader \<Rightarrow> ((u32 \<times> u64) \<times> reader) tpm_result" where
  "get_saved r = res_bind (r_u32 r) (\<lambda>(h, r). res_bind (r_u64 r) (\<lambda>(i, r). Inr ((h, i), r)))"

definition load_sessions :: "u32 \<Rightarrow> tpm_state \<Rightarrow> reader \<Rightarrow> (tpm_state \<times> reader) tpm_result" where
  "load_sessions v s r =
     (if FIRST_WITH_SESSIONS \<le> v \<and> \<not> r_is_empty r then
        res_bind (bounded_items MAX_ACTIVE_SESSIONS get_saved r) (\<lambda>(sv, r).
        res_bind (r_u64 r) (\<lambda>(n, r).
        res_bind (if FIRST_WITH_OBJECT_COUNTER \<le> v then res_bind (r_u64 r) (\<lambda>(ob, r). Inr ((sv, n, ob), r))
                  else Inr (([], n, n), r)) (\<lambda>((sv, n, ob), r).
          Inr (s\<lparr>session_slots := restore_saved_contexts sv n ob (session_slots s)\<rparr>, r))))
      else Inr (s, r))"

text \<open>The sections in order; the update counter of the registers is put back last.\<close>

definition load_sections :: "env \<Rightarrow> key_lib \<Rightarrow> u32 \<Rightarrow> tpm_state \<Rightarrow> reader \<Rightarrow> ((tpm_state \<times> u32) \<times> reader) tpm_result" where
  "load_sections E K v s r =
     res_bind (load_hierarchies E v s r) (\<lambda>(s, r).
     res_bind (load_scalars E v s r) (\<lambda>(s, r).
     res_bind (load_pcrs E v s r) (\<lambda>((s, updates), r).
     res_bind (load_audit s r) (\<lambda>(s, r).
     res_bind (load_nv E v s r) (\<lambda>(s, r).
     res_bind (load_persistent E K v s r) (\<lambda>(s, r).
     res_bind (load_commits s r) (\<lambda>(s, r).
     res_bind (load_act E s r) (\<lambda>(s, r).
     res_bind (load_startup v s r) (\<lambda>(s, r).
     res_bind (load_sessions v s r) (\<lambda>(s, r). Inr ((s, updates), r)))))))))))"

definition load_state :: "env \<Rightarrow> key_lib \<Rightarrow> drbg \<Rightarrow> bytes \<Rightarrow> tpm_state tpm_result" where
  "load_state E K g data =
     res_bind (manufacture E g) (\<lambda>s.
     res_bind (get_head E (reader_new data)) (\<lambda>((v, m), r).
     res_bind (load_sections E K v (s\<lparr>manufactured := m, startup_method_unknown := v < FIRST_WITH_HCRTM_METHOD\<rparr>) r)
       (\<lambda>((s, updates), r). if \<not> r_is_empty r then Inl rc_BAD_CONTEXT
                             else Inr (s\<lparr>pcrs := set_update_counter updates (pcrs s)\<rparr>))))"

end
