(* ===== verification/StateRoundtrip.thy ===== *)
theory StateRoundtrip
  imports StateRecord
begin

text \<open>
  What a power cycle keeps: a state written by \<open>save\<close> and read by \<open>load\<close> (\<open>src/tpm/core/state.rs\<close>) comes
  back field by field, over the manufactured state where the record does not carry a field.
\<close>

section \<open>Sequences\<close>

lemma reads_items:
  "\<forall>x \<in> set xs. reads get x (enc x) \<Longrightarrow> reads (unmarshal_items get (length xs)) xs (concat (map enc xs))"
proof (induction xs)
  case (Cons x xs)
  have "reads (\<lambda>r. res_bind (get r) (\<lambda>(y, r). res_bind (unmarshal_items get (length xs) r) (\<lambda>(ys, r). Inr (y # ys, r))))
      (x # xs) (enc x @ concat (map enc xs) @ [])"
    by (rule reads_bind [where x = x], use Cons.prems in simp, rule reads_bind [where x = xs])
       (use Cons in \<open>simp_all add: reads_return\<close>)
  then show ?case by (simp add: reads_def)
qed (simp add: reads_def)

lemma reads_bounded_count:
  assumes "n \<le> limit" and "limit < 2 ^ 32"
  shows "reads (bounded_count limit) n (to_be 4 (of_nat n :: u32))"
proof -
  have n: "unat (of_nat n :: u32) = n" using assms by (intro unat_of_nat_u32) simp
  have "reads (\<lambda>r. res_bind (r_u32 r) (\<lambda>(n, r). if limit < unat n then Inl rc_BAD_CONTEXT else Inr (unat n, r)))
      n (to_be 4 (of_nat n :: u32) @ [])"
    by (rule reads_bind, rule reads_int) (use n assms in \<open>simp add: reads_def\<close>)
  then show ?thesis by (simp add: bounded_count_def [abs_def])
qed

lemma reads_bounded_items:
  assumes "\<forall>x \<in> set xs. reads get x (enc x)" and "length xs \<le> limit" and "limit < 2 ^ 32"
  shows "reads (bounded_items limit get) xs (to_be 4 (of_nat (length xs) :: u32) @ concat (map enc xs))"
  unfolding bounded_items_def [abs_def]
  by (rule reads_bind, rule reads_bounded_count) (use assms in \<open>simp_all add: reads_items\<close>)

lemma put_items:
  "\<forall>x \<in> set xs. \<forall>w. put x w = emit (enc x) w \<Longrightarrow> foldl (\<lambda>w x. put x w) w xs = emit (concat (map enc xs)) w"
  by (induction xs arbitrary: w) simp_all

lemma emit_items: "foldl (\<lambda>w x. emit (enc x) w) w xs = emit (concat (map enc xs)) w"
  by (rule put_items) simp

lemma enc_Nil [simp]: "to_be n x = [] \<longleftrightarrow> n = 0" "enc_sized16 b \<noteq> []"
  by (auto simp: enc_sized16_def simp flip: length_0_conv)

text \<open>The last field of a sequence.\<close>

lemma reads_bind_end:
  "reads g x e \<Longrightarrow> reads (f x) y [] \<Longrightarrow> reads (\<lambda>r. res_bind (g r) (\<lambda>(x, r). f x r)) y e"
  using reads_bind [of g x e f y "[]"] by simp

lemma reads_nonempty:
  assumes "reads g x e" and "e \<noteq> []"
  shows "reads (\<lambda>r. if r_is_empty r then d r else g r) x e"
    and "reads (\<lambda>r. if c \<and> \<not> r_is_empty r then g r else d r) x e \<longleftrightarrow> c \<or> reads (\<lambda>r. d r) x e"
  using assms by (auto simp: reads_def r_is_empty_def remaining_def)

lemma reads_bit: "reads r_bit b (bool_enc b)"
proof -
  have "reads (\<lambda>r. res_bind (r_u8 r) (\<lambda>(v, r). if v = 0 then Inr (False, r) else if v = 1 then Inr (True, r) else Inl rc_BAD_CONTEXT))
      b ([if b then 1 else 0] @ [])"
    by (rule reads_bind, rule reads_int) (simp add: reads_def)
  then show ?thesis by (simp add: r_bit_def [abs_def] bool_enc_def)
qed

lemmas reads_flag = flag.reads_get [OF TrueI]

lemma tpmt_ha_emit: "tpmt_ha_put h w = emit (tpmt_ha_enc h) w"
  by (simp add: tpmt_ha_put_def tpmt_ha_enc_def writes_emit)

lemmas record_puts = writes_emit flag.put_enc buf.put_enc tpmt_ha_emit sensitive.put_enc

lemmas reads_parts = reads_int reads_flag reads_bit buf.reads_get tpmt_ha.reads_get

lemma flag_octet [simp]: "((if x then 1 else 0 :: u8) = 0) = (\<not> x)"
  by simp

section \<open>The sections\<close>

definition hierarchy_ok :: "env \<Rightarrow> hierarchy \<Rightarrow> bool" where
  "hierarchy_ok E h \<longleftrightarrow> length (h_seed h) < 2 ^ 16 \<and> length (h_proof h) < 2 ^ 16 \<and> length (h_auth h) < 2 ^ 16
     \<and> tpmt_ha_ok E (h_policy h)"

definition hierarchy_enc :: "hierarchy \<Rightarrow> bytes" where
  "hierarchy_enc h = enc_sized16 (h_seed h) @ enc_sized16 (h_proof h) @ enc_sized16 (h_auth h)
     @ tpmt_ha_enc (h_policy h) @ bool_enc (h_enabled h) "

lemma hierarchy_put: "hierarchy_ok E h \<Longrightarrow> hierarchy_put h w = emit (hierarchy_enc h) w"
  by (simp add: hierarchy_put_def hierarchy_ok_def hierarchy_enc_def record_puts)

lemma hierarchy_reads:
  assumes "hierarchy_ok E h"
  shows "reads (hierarchy_get_record E) h (hierarchy_enc h)"
proof -
  have "reads (hierarchy_get_record E) \<lparr>h_seed = h_seed h, h_proof = h_proof h, h_auth = h_auth h,
      h_policy = h_policy h, h_enabled = h_enabled h\<rparr> (hierarchy_enc h)"
    unfolding hierarchy_get_record_def [abs_def] hierarchy_enc_def
    by (insert assms [unfolded hierarchy_ok_def]) (rule reads_return | (rule reads_bind reads_bind_end, rule reads_parts, (simp; fail)?))+
  then show ?thesis by (cases h) simp
qed

definition hierarchies_ok :: "env \<Rightarrow> hierarchies \<Rightarrow> bool" where
  "hierarchies_ok E hs \<longleftrightarrow> hierarchy_ok E (platform hs) \<and> hierarchy_ok E (owner hs) \<and> hierarchy_ok E (endorsement hs)
     \<and> hierarchy_ok E (null hs) \<and> length (bootloader_secret hs) < 2 ^ 16"

definition hierarchies_enc :: "hierarchies \<Rightarrow> bytes" where
  "hierarchies_enc hs = hierarchy_enc (platform hs) @ hierarchy_enc (owner hs) @ hierarchy_enc (endorsement hs)
     @ hierarchy_enc (null hs) @ bool_enc (platform_nv_enabled hs) @ enc_sized16 (bootloader_secret hs) "

lemma put_hierarchies_emit: "hierarchies_ok E hs \<Longrightarrow> put_hierarchies hs w = emit (hierarchies_enc hs) w"
  by (simp add: put_hierarchies_def hierarchies_ok_def hierarchies_enc_def hierarchy_put [of E] record_puts)

lemma load_hierarchies_reads:
  assumes "hierarchies_ok E hs"
  shows "reads (load_hierarchies E STATE_VERSION s)
    (s\<lparr>hierarchies := hs\<lparr>firmware_code := firmware_code (hierarchies s)\<rparr>\<rparr>) (hierarchies_enc hs)"
proof -
  have "reads (load_hierarchies E STATE_VERSION s)
      (s\<lparr>hierarchies := \<lparr>platform = platform hs, owner = owner hs, endorsement = endorsement hs, null = null hs,
         platform_nv_enabled = platform_nv_enabled hs, bootloader_secret = bootloader_secret hs,
         firmware_code = firmware_code (hierarchies s)\<rparr>\<rparr>) (hierarchies_enc hs)"
    unfolding load_hierarchies_def [abs_def] hierarchies_enc_def version_defs
    by (insert assms [unfolded hierarchies_ok_def], simp)
       (rule reads_return | (rule reads_bind reads_bind_end, rule hierarchy_reads reads_parts, (simp; fail)?))+
  then show ?thesis by (cases hs) simp
qed

definition scalars_ok :: "env \<Rightarrow> tpm_state \<Rightarrow> bool" where
  "scalars_ok E s \<longleftrightarrow> permanent s AND pa_reserved = 0 \<and> clk_reset_value (clock_of s) \<noteq> []
     \<and> length (clk_reset_value (clock_of s)) < 2 ^ 16 \<and> length (lockout_auth s) < 2 ^ 16 \<and> length (pcr_auth s) < 2 ^ 16
     \<and> tpmt_ha_ok E (lockout_policy s) \<and> tpmt_ha_ok E (pcr_policy s)"

text \<open>What the record does not carry of the clock and of the lockout.\<close>

definition kept_clock :: "clock_state \<Rightarrow> clock_state" where
  "kept_clock c = c\<lparr>time := 0, rate_adjust := 0, rate_remainder := 0, nv_elapsed := 0\<rparr>"

definition kept_lockout :: "lockout \<Rightarrow> lockout" where
  "kept_lockout l = l\<lparr>lockout_until := 0\<rparr>"

definition clock_enc :: "clock_state \<Rightarrow> bytes" where
  "clock_enc c = to_be 8 (clock c) @ to_be 4 (reset_count c) @ to_be 4 (restart_count c) @ to_be 4 (clear_count c)
     @ enc_sized16 (clk_reset_value c) @ [if safe c then 1 else 0] @ to_be 4 (total_reset_count c) @ to_be 8 (clk_epoch c) "

lemma clock_reads:
  assumes "length (clk_reset_value c) < 2 ^ 16"
  shows "reads (clock_read True True) (kept_clock c) (clock_enc c)"
proof -
  have "reads (clock_read True True) \<lparr>clock = clock c, time = 0, reset_count = reset_count c, restart_count = restart_count c,
      clear_count = clear_count c, clk_reset_value = clk_reset_value c, safe = ((if safe c then 1 else 0 :: u8) \<noteq> 0), rate_adjust = 0, rate_remainder = 0,
      total_reset_count = total_reset_count c, clk_epoch = clk_epoch c, nv_elapsed = 0\<rparr> (clock_enc c)"
    unfolding clock_read_def [abs_def] clock_enc_def
    by (insert assms, simp only: if_True flip: r_sized_def)
       (rule reads_return | (rule reads_bind reads_bind_end, rule reads_parts, (simp; fail)?))+
  then show ?thesis by (cases c) (simp add: kept_clock_def)
qed

definition scalars_enc :: "tpm_state \<Rightarrow> bytes" where
  "scalars_enc s = lockout_enc (kept_lockout (lockout_state s)) @ to_be 4 (permanent s) @ clock_enc (clock_of s)
     @ to_be 4 (algorithm_set s) @ enc_sized16 (lockout_auth s) @ tpmt_ha_enc (lockout_policy s)
     @ enc_sized16 (pcr_auth s) @ tpmt_ha_enc (pcr_policy s) @ to_be 2 (shutdown_type s)"

lemma put_scalars_emit: "scalars_ok E s \<Longrightarrow> put_scalars s w = emit (scalars_enc s) w"
proof -
  assume ok: "scalars_ok E s"
  have "lockout_put (lockout_state s) w = emit (lockout_enc (kept_lockout (lockout_state s))) w" for w
    using lockout.put_enc [of "kept_lockout (lockout_state s)" w] by (simp add: kept_lockout_def lockout_put_def)
  moreover have "clock_put (clock_of s) w = emit (clock_enc (clock_of s)) w" for w
    using ok by (simp add: clock_put_def clock_enc_def scalars_ok_def record_puts bool_enc_def)
  ultimately show ?thesis using ok by (simp add: put_scalars_def scalars_ok_def scalars_enc_def record_puts)
qed

lemma load_scalars_reads:
  assumes ok: "scalars_ok E s"
  shows "reads (load_scalars E STATE_VERSION t)
    (t\<lparr>lockout_state := kept_lockout (lockout_state s), permanent := permanent s, clock_of := kept_clock (clock_of s),
       algorithm_set := algorithm_set s, lockout_auth := lockout_auth s, lockout_policy := lockout_policy s,
       pcr_auth := pcr_auth s, pcr_policy := pcr_policy s, shutdown_type := shutdown_type s\<rparr>) (scalars_enc s)"
proof -
  have l: "reads lockout_get (kept_lockout (lockout_state s)) (lockout_enc (kept_lockout (lockout_state s)))"
    by (rule lockout.reads_get) (simp add: kept_lockout_def)
  have p: "reads (unmarshal_attr pa_reserved r_u32) (permanent s) (to_be 4 (permanent s))"
    by (rule codec.reads_get [OF unmarshal_attr_codec [OF u32.codec_axioms]]) (use ok in \<open>simp add: scalars_ok_def\<close>)
  have c: "reads (clock_read (FIRST_WITH_CLEAR_COUNT \<le> STATE_VERSION) (FIRST_WITH_RESET_VALUE \<le> STATE_VERSION))
      (kept_clock (clock_of s)) (clock_enc (clock_of s))"
    using ok by (simp add: version_defs clock_reads scalars_ok_def)
  let ?t = "t\<lparr>lockout_state := kept_lockout (lockout_state s), permanent := permanent s, clock_of := kept_clock (clock_of s)\<rparr>"
  have f: "fill_reset_value E ?t = Inr ?t" using ok by (simp add: fill_reset_value_def scalars_ok_def kept_clock_def)
  show ?thesis
    unfolding load_scalars_def [abs_def] scalars_enc_def
    by (insert ok [unfolded scalars_ok_def], rule reads_bind [OF l], rule reads_bind [OF p], rule reads_bind [OF c],
        subst f, unfold res_bind_simps)
       (rule reads_return | (rule reads_bind reads_bind_end, rule reads_parts, (simp; fail)?) | simp only:)+
qed

section \<open>Registers\<close>

lemma bank_bits_nth:
  assumes "length bits = IMPLEMENTATION_PCR"
  shows "length (bank_bits bits) = BANK_OCTETS"
    and "k < BANK_OCTETS \<Longrightarrow> bit (bank_bits bits ! k) j \<longleftrightarrow> j < 8 \<and> bits ! (8 * k + j)"
proof -
  let ?f = "\<lambda>raw (i, on). if on then raw[i div 8 := raw ! (i div 8) OR push_bit (i mod 8) (1 :: u8)] else raw"
  have step: "length (foldl ?f raw (enumerate n bs)) = length raw
      \<and> (k < length raw \<longrightarrow> n + length bs \<le> 8 * length raw \<longrightarrow>
          bit (foldl ?f raw (enumerate n bs) ! k) j
            = (bit (raw ! k) j \<or> j < 8 \<and> n \<le> 8 * k + j \<and> 8 * k + j < n + length bs \<and> bs ! (8 * k + j - n)))" for raw n bs k j
  proof (induction bs arbitrary: n raw)
    case (Cons b bs)
    let ?raw = "?f raw (n, b)"
    have len: "length ?raw = length raw" by simp
    have one: "k < length raw \<Longrightarrow> bit (?raw ! k) j = (bit (raw ! k) j \<or> b \<and> j < 8 \<and> 8 * k + j = n)"
    proof -
      assume k: "k < length raw"
      have *: "n div 8 = k \<and> n mod 8 = j \<longleftrightarrow> j < 8 \<and> 8 * k + j = n" by auto
      have "j < 8" if "n mod 8 = j" using that by auto
      then have "bit (push_bit (n mod 8) (1 :: u8)) j = (n mod 8 = j)" by (auto simp: bit_simps)
      then show ?thesis using k * by (cases "n div 8 = k"; cases b) (auto simp: bit_or_iff simp del: push_bit_of_1)
    qed
    have "8 * k + j - n = Suc (8 * k + j - Suc n)" if "Suc n \<le> 8 * k + j" using that by simp
    then have nth: "Suc n \<le> 8 * k + j \<Longrightarrow> (b # bs) ! (8 * k + j - n) = bs ! (8 * k + j - Suc n)" by simp
    show ?case
      using Cons.IH [of ?raw "Suc n"] len one nth by (cases rule: linorder_cases [of "8 * k + j" n]) auto
  qed auto
  show "length (bank_bits bits) = BANK_OCTETS" using step [of "replicate BANK_OCTETS 0" 0 bits] by (simp add: bank_bits_def)
  assume "k < BANK_OCTETS"
  then show "bit (bank_bits bits ! k) j \<longleftrightarrow> j < 8 \<and> bits ! (8 * k + j)"
    using step [of "replicate BANK_OCTETS 0" 0 bits k j] assms
    by (auto simp: bank_bits_def BANK_OCTETS_def IMPLEMENTATION_PCR_def)
qed

lemma bits_of_bank_bits: "length bits = IMPLEMENTATION_PCR \<Longrightarrow> bits_of_bank (bank_bits bits) = bits"
  by (rule nth_equalityI)
     (auto simp: bits_of_bank_def bank_bits_nth BANK_OCTETS_def IMPLEMENTATION_PCR_def)

lemma allocate_loop_exact:
  assumes "bt_wf (fs @ al)" and "map fst bs = map fst fs"
    and "\<forall>(a, bits) \<in> set al. is_supported E a \<and> length bits = IMPLEMENTATION_PCR \<and> list_ex (\<lambda>b. b) bits"
  shows "\<exists>bs'. allocate_loop E al bs fs = Inr (bs', fs @ al) \<and> map fst bs' = map fst (fs @ al)"
  using assms
proof (induction al arbitrary: bs fs)
  case (Cons ab al)
  obtain a bits where ab: "ab = (a, bits)" by (cases ab)
  have sup: "is_supported E a" "length bits = IMPLEMENTATION_PCR" "list_ex (\<lambda>b. b) bits" using Cons.prems(3) ab by auto
  then obtain n where n: "digest_size E a = Some n" using supported_digest_size by blast
  have fs: "\<forall>k' \<in> set (bt_keys fs). k' < a" and wf: "bt_wf ((fs @ [(a, bits)]) @ al)"
    using bt_wf_append_Cons [of fs a bits al] Cons.prems(1) ab by auto
  have bs: "\<forall>k' \<in> set (bt_keys bs). k' < a" using fs Cons.prems(2) by (simp add: bt_keys_def)
  let ?bank = "replicate IMPLEMENTATION_PCR (replicate n (0 :: u8))"
  have "\<exists>bs'. allocate_loop E al (bs @ [(a, ?bank)]) (fs @ [(a, bits)]) = Inr (bs', (fs @ [(a, bits)]) @ al)
      \<and> map fst bs' = map fst ((fs @ [(a, bits)]) @ al)"
    by (rule Cons.IH [OF wf]) (use Cons.prems in auto)
  then show ?case using ab sup n by (simp add: Let_def bt_insert_last [OF fs] bt_insert_last [OF bs])
qed simp

lemma allocated_member:
  assumes "pcr_wf E p" and "(a, bits) \<in> set (allocated p)"
  shows "is_supported E a \<and> length bits = IMPLEMENTATION_PCR"
proof -
  have get: "bt_get (allocated p) a = Some bits"
    by (rule bt_wf_get) (use assms in \<open>simp_all add: pcr_wf_def\<close>)
  have "bt_contains (allocated p) a = bt_contains (banks p) a" using assms(1) by (simp add: pcr_wf_def)
  then obtain bank where "bt_get (banks p) a = Some bank" using get by (auto simp: bt_contains_def)
  then have "bank_wf E a bank" by (rule pcr_wf_bank [OF assms(1)])
  then show ?thesis using get assms(1) by (simp add: bank_wf_def pcr_wf_def)
qed

lemma allocated_keys:
  assumes "pcr_wf E p"
  shows "bt_keys (banks p) = bt_keys (allocated p)"
proof (rule strict_sorted_equal)
  have "bt_contains (allocated p) a = bt_contains (banks p) a" for a using assms by (simp add: pcr_wf_def)
  then show "set (bt_keys (banks p)) = set (bt_keys (allocated p))" by (auto simp only: bt_contains_iff)
qed (use assms in \<open>simp_all add: pcr_wf_def bt_wf_def bt_keys_def\<close>)

lemma pcr_new_allocated:
  assumes wf: "pcr_wf E p" and some: "\<forall>(a, bits) \<in> set (allocated p). list_ex (\<lambda>b. b) bits"
  shows "\<exists>q. pcr_new E (allocated p) = Inr q \<and> pcr_wf E q \<and> same_banks p q \<and> allocated q = allocated p \<and> update_counter q = 0"
proof -
  have wfs: "bt_wf (allocated p)" using wf by (simp add: pcr_wf_def)
  note al = allocated_member [OF wf]
  have sup: "list_all (\<lambda>(a, _). is_supported E a) (allocated p)" using al by (auto simp: list_all_iff)
  have "bt_wf ([] @ allocated p)" using wfs by simp
  from allocate_loop_exact [OF this, of "[]" E] al some obtain bs where
    bs: "allocate_loop E (allocated p) [] [] = Inr (bs, allocated p)" "map fst bs = map fst (allocated p)"
    by fastforce
  let ?q = "reset_all E (pcr_empty\<lparr>banks := bs, allocated := allocated p\<rparr>)"
  have q: "pcr_new E (allocated p) = Inr ?q" using bs by (simp add: pcr_new_def allocate_def)
  have "bt_keys (banks p) = bt_keys (allocated p)" by (rule allocated_keys [OF wf])
  then have "same_banks p ?q" using bs by (simp add: same_banks_def reset_all_def reset_all_but_def bt_keys_def)
  moreover have "pcr_wf E ?q" by (rule pcr_wf_new [OF sup q])
  ultimately show ?thesis using q by (simp add: reset_all_def reset_all_but_def pcr_empty_def)
qed

definition pcrs_ok :: "env \<Rightarrow> tpm_state \<Rightarrow> bool" where
  "pcrs_ok E s \<longleftrightarrow> pcr_wf E (pcrs s) \<and> pcr_allocation s = allocated (pcrs s) \<and> allocated (pcrs s) \<noteq> []
     \<and> (\<forall>(a, bits) \<in> set (allocated (pcrs s)). list_ex (\<lambda>b. b) bits)"

definition allocated_enc :: "u16 \<times> bool list \<Rightarrow> bytes" where
  "allocated_enc ab = to_be 2 (fst ab) @ of_nat BANK_OCTETS # bank_bits (snd ab)"

definition pcrs_enc :: "tpm_state \<Rightarrow> bytes" where
  "pcrs_enc s = (to_be 4 (of_nat (length (pcr_allocation s)) :: u32) @ concat (map allocated_enc (pcr_allocation s)))
     @ values_enc (pcrs s) @ to_be 4 (update_counter (pcrs s))"

lemma put_pcrs_emit:
  assumes "pcrs_ok E s"
  shows "put_pcrs s w = emit (pcrs_enc s) w"
proof -
  have *: "foldl (\<lambda>w ab. put_allocated ab w) w al = emit (concat (map allocated_enc al)) w" for al w
    by (rule put_items) (simp add: put_allocated_def allocated_enc_def writes_emit)
  show ?thesis
    using assms by (simp add: put_pcrs_def * marshal_values_emit [of E] pcrs_ok_def pcrs_enc_def writes_emit)
qed

lemma get_allocated_reads:
  assumes "length (snd ab) = IMPLEMENTATION_PCR"
  shows "reads (get_allocated STATE_VERSION) ab (allocated_enc ab)"
proof -
  obtain a bits where ab: "ab = (a, bits)" by (cases ab)
  have n: "unat (of_nat BANK_OCTETS :: u8) = length (bank_bits bits)"
    using assms ab by (simp add: bank_bits_nth BANK_OCTETS_def IMPLEMENTATION_PCR_def)
  have "reads (\<lambda>r. res_bind (r_u16 r) (\<lambda>(a, r). res_bind (r_u8 r) (\<lambda>(n, r). res_bind (r_take (unat n) r) (\<lambda>(raw, r).
      Inr ((a, bits_of_bank raw), r))))) (a, bits_of_bank (bank_bits bits)) (to_be 2 a @ [of_nat BANK_OCTETS] @ bank_bits bits)"
    by (rule reads_return | (rule reads_bind reads_bind_end, rule reads_int reads_take, (simp add: n; fail)?))+
  then show ?thesis
    using assms ab by (simp add: get_allocated_def [abs_def] version_defs allocated_enc_def bits_of_bank_bits)
qed

lemma reads_values:
  assumes "pcr_wf E p" and "pcr_wf E q" and "same_banks p q" and "reads (k (q\<lparr>banks := banks p\<rparr>)) y e"
  shows "reads (\<lambda>r. case unmarshal_values r q of (Inl c, _) \<Rightarrow> Inl c | (Inr r, q) \<Rightarrow> k q r) y (values_enc p @ e)"
  by (rule readsI) (use assms(4) in \<open>simp add: unmarshal_values_exact [OF assms(1-3)] reads_def\<close>)

lemma supported_bank: "is_supported E a \<Longrightarrow> a \<in> set (implemented_pcr_banks E)"
  by (auto simp: is_supported_def hash_algorithm_def is_ok_def implemented_pcr_banks_def BANKS_LEGACY_def BANKS_STRICT_def
      split: if_splits)

lemma load_pcrs_reads:
  assumes ok: "pcrs_ok E s"
  shows "\<exists>p. set_update_counter (update_counter (pcrs s)) p = pcrs s \<and>
    reads (load_pcrs E STATE_VERSION t) (t\<lparr>pcr_allocation := pcr_allocation s, pcrs := p\<rparr>, update_counter (pcrs s)) (pcrs_enc s)"
proof -
  let ?al = "allocated (pcrs s)"
  have wf: "pcr_wf E (pcrs s)" and al: "pcr_allocation s = ?al" "?al \<noteq> []"
    and some: "\<forall>(a, bits) \<in> set ?al. list_ex (\<lambda>b. b) bits"
    using ok by (auto simp: pcrs_ok_def)
  from pcr_new_allocated [OF wf some] obtain q where
    q: "pcr_new E ?al = Inr q" "pcr_wf E q" "same_banks (pcrs s) q" "allocated q = ?al" by blast
  have "length (banks (pcrs s)) = length ?al"
    using allocated_keys [OF wf] by (auto simp: bt_keys_def dest: map_eq_imp_length_eq)
  then have few: "length ?al \<le> HASH_COUNT" using pcr_wf_few_banks [OF wf] by (simp add: HASH_COUNT_def)
  have items: "reads (bounded_items HASH_COUNT (get_allocated STATE_VERSION)) ?al
      (to_be 4 (of_nat (length ?al) :: u32) @ concat (map allocated_enc ?al))"
    by (rule reads_bounded_items)
       (use few allocated_member [OF wf] in \<open>auto simp: HASH_COUNT_def intro!: get_allocated_reads\<close>)
  have keep: "filter (\<lambda>(a, _). a \<in> set (implemented_pcr_banks E)) ?al = ?al"
    using allocated_member [OF wf] supported_bank by (auto simp: filter_id_conv)
  let ?p = "q\<lparr>banks := banks (pcrs s)\<rparr>"
  have "reads (\<lambda>r. case unmarshal_values r q of (Inl c, _) \<Rightarrow> Inl c
      | (Inr r, p) \<Rightarrow> res_bind (r_u32 r) (\<lambda>(n, r). Inr ((t\<lparr>pcr_allocation := ?al, pcrs := p\<rparr>, n), r)))
      (t\<lparr>pcr_allocation := ?al, pcrs := ?p\<rparr>, update_counter (pcrs s)) (values_enc (pcrs s) @ to_be 4 (update_counter (pcrs s)))"
    by (rule reads_values [OF wf q(2,3)]) (rule reads_bind_end, rule reads_int, rule reads_return)
  then have "reads (load_pcrs E STATE_VERSION t) (t\<lparr>pcr_allocation := ?al, pcrs := ?p\<rparr>, update_counter (pcrs s)) (pcrs_enc s)"
    unfolding load_pcrs_def [abs_def] pcrs_enc_def al(1)
    by (intro reads_bind [OF items]) (simp add: keep al(2) q(1))
  moreover have "set_update_counter (update_counter (pcrs s)) ?p = pcrs s"
    using q(4) by (simp add: set_update_counter_def)
  ultimately show ?thesis using al(1) by metis
qed

section \<open>Audit\<close>

definition audit_ok :: "tpm_state \<Rightarrow> bool" where
  "audit_ok s \<longleftrightarrow> length (pp_commands s) \<le> 512 \<and> length (ca_commands (cmd_audit s)) \<le> 512
     \<and> length (ca_digest (cmd_audit s)) < 2 ^ 16"

definition words_enc :: "u32 list \<Rightarrow> bytes" where
  "words_enc ws = to_be 4 (of_nat (length ws) :: u32) @ concat (map (to_be 4) ws)"

definition audit_enc :: "tpm_state \<Rightarrow> bytes" where
  "audit_enc s = words_enc (pp_commands s) @ to_be 2 (ca_alg (cmd_audit s)) @ enc_sized16 (ca_digest (cmd_audit s))
     @ to_be 8 (ca_counter (cmd_audit s)) @ words_enc (ca_commands (cmd_audit s))"

lemma words_emit: "marshal_list w_u32 ws w = emit (words_enc ws) w"
  by (simp add: marshal_list_def words_enc_def writes_emit emit_items)

lemma words_reads: "length ws \<le> 512 \<Longrightarrow> reads (bounded_items 512 r_u32) ws (words_enc ws)"
  unfolding words_enc_def by (rule reads_bounded_items) (simp_all add: reads_int)

lemma put_audit_emit: "audit_ok s \<Longrightarrow> put_audit s w = emit (audit_enc s) w"
  by (simp add: put_audit_def audit_ok_def audit_enc_def words_emit record_puts)

lemma load_audit_reads:
  assumes "audit_ok s"
  shows "reads (load_audit t) (t\<lparr>pp_commands := pp_commands s,
     cmd_audit := (cmd_audit s)\<lparr>exclusive_session := exclusive_session (cmd_audit t)\<rparr>\<rparr>) (audit_enc s)"
proof -
  have "reads (load_audit t) (t\<lparr>pp_commands := pp_commands s, cmd_audit := (cmd_audit t)\<lparr>ca_alg := ca_alg (cmd_audit s),
      ca_digest := ca_digest (cmd_audit s), ca_counter := ca_counter (cmd_audit s), ca_commands := ca_commands (cmd_audit s)\<rparr>\<rparr>)
      (audit_enc s)"
    unfolding load_audit_def [abs_def] audit_enc_def
    by (insert assms [unfolded audit_ok_def])
       (rule reads_return | (rule reads_bind reads_bind_end, rule words_reads reads_parts, (simp; fail)?))+
  then show ?thesis by (cases "cmd_audit s"; cases "cmd_audit t") simp
qed

section \<open>NV indices\<close>

definition index_ok :: "env \<Rightarrow> nv_index \<Rightarrow> bool" where
  "index_ok E i \<longleftrightarrow> nv_public_ok E (nv_public i) \<and> length (nv_auth i) < 2 ^ 16 \<and> length (nv_data i) < 2 ^ 16"

definition index_enc :: "nv_index \<Rightarrow> bytes" where
  "index_enc i = nv_public_enc (nv_public i) @ enc_sized16 (nv_auth i) @ enc_sized16 (nv_data i)
     @ bool_enc (read_locked i) @ bool_enc (write_locked i)"

lemma put_index_emit: "index_ok E i \<Longrightarrow> put_index i w = emit (index_enc i) w"
  by (simp add: put_index_def index_ok_def index_enc_def nv_public.put_enc [of E] record_puts)

lemma get_index_reads:
  assumes "index_ok E i"
  shows "reads (get_index E) i (index_enc i)"
proof -
  have "reads (get_index E) \<lparr>nv_public = nv_public i, nv_auth = nv_auth i, nv_data = nv_data i,
      read_locked = read_locked i, write_locked = write_locked i\<rparr> (index_enc i)"
    unfolding get_index_def [abs_def] index_enc_def
    by (insert assms [unfolded index_ok_def])
       (rule reads_return | (rule reads_bind reads_bind_end, rule nv_public.reads_get reads_parts, (simp; fail)?))+
  then show ?thesis by (cases i) simp
qed

text \<open>Defining the indices of a store one by one, in order, gives them back; the mark has risen to
  every counter among them.\<close>

definition raise_marks :: "nv_index list \<Rightarrow> nv_store \<Rightarrow> nv_store" where
  "raise_marks is n = fold raise_mark is n"

lemma raise_mark_indices [simp]: "indices (raise_mark i n) = indices n"
  by (simp add: raise_mark_def split: sum.split)

lemma store_define_last:
  assumes "is_nv_handle (np_index (nv_public i))" and "\<forall>k \<in> set (bt_keys (indices n)). k < np_index (nv_public i)"
    and "store_used n + footprint i \<le> NV_MEMORY_SIZE"
  shows "store_define i n = (Inr (), (raise_mark i n)\<lparr>indices := indices n @ [(np_index (nv_public i), i)]\<rparr>)"
proof -
  have "\<not> bt_contains (indices n) (np_index (nv_public i))" using assms(2) by (auto simp: bt_contains_iff)
  then show ?thesis
    using assms by (simp add: store_define_def Let_def bt_insert_last store_available_def store_used_def)
qed

lemma raise_mark_ext: "raise_mark i (n\<lparr>indices := m\<rparr>) = (raise_mark i n)\<lparr>indices := m\<rparr>"
  by (simp add: raise_mark_def split: sum.split)

lemma load_indices_reads:
  assumes "bt_wf (indices n @ m)" and "sum_list (map (\<lambda>(_, i). footprint i) (indices n @ m)) \<le> NV_MEMORY_SIZE"
    and "\<forall>(h, i) \<in> set m. index_ok E i \<and> is_nv_handle h \<and> h = np_index (nv_public i)"
  shows "reads (load_indices E (length m) n) ((raise_marks (map snd m) n)\<lparr>indices := indices n @ m\<rparr>)
    (concat (map (\<lambda>hi. index_enc (snd hi)) m))"
  using assms
proof (induction m arbitrary: n)
  case (Cons hi m)
  obtain h i where hi: "hi = (h, i)" by (cases hi)
  have i: "index_ok E i" "is_nv_handle h" "h = np_index (nv_public i)" using Cons.prems(3) hi by auto
  have wf: "\<forall>k \<in> set (bt_keys (indices n)). k < h" "bt_wf ((indices n @ [(h, i)]) @ m)"
    using bt_wf_append_Cons [of "indices n" h i m] Cons.prems(1) hi by auto
  have "store_used n + footprint i \<le> NV_MEMORY_SIZE" using Cons.prems(2) hi by (simp add: store_used_def)
  then have def: "store_define i n = (Inr (), (raise_mark i n)\<lparr>indices := indices n @ [(h, i)]\<rparr>)" (is "_ = (_, ?n)")
    using store_define_last [of i n] i wf by simp
  have "reads (load_indices E (length m) ?n) ((raise_marks (map snd m) ?n)\<lparr>indices := indices ?n @ m\<rparr>)
      (concat (map (\<lambda>hi. index_enc (snd hi)) m))"
    by (rule Cons.IH) (use Cons.prems wf hi in auto)
  moreover have "fold raise_mark is (k\<lparr>indices := x\<rparr>) = (fold raise_mark is k)\<lparr>indices := x\<rparr>" for "is" k x
    by (induction "is" arbitrary: k) (simp_all add: raise_mark_ext)
  ultimately have tail: "reads (load_indices E (length m) ?n) ((raise_marks (map snd (hi # m)) n)\<lparr>indices := indices n @ hi # m\<rparr>)
      (concat (map (\<lambda>hi. index_enc (snd hi)) m))"
    using hi by (simp add: raise_marks_def)
  have "reads (\<lambda>r. res_bind (get_index E r) (\<lambda>(i, r). case store_define i n of (Inl e, _) \<Rightarrow> Inl e
      | (Inr _, n) \<Rightarrow> load_indices E (length m) n r)) ((raise_marks (map snd (hi # m)) n)\<lparr>indices := indices n @ hi # m\<rparr>)
      (index_enc i @ concat (map (\<lambda>hi. index_enc (snd hi)) m))"
    by (rule reads_bind [OF get_index_reads [OF i(1)]]) (use tail in \<open>simp add: def\<close>)
  then show ?case using hi by simp
qed (simp add: reads_def raise_marks_def)

definition nv_ok :: "env \<Rightarrow> nv_store \<Rightarrow> bool" where
  "nv_ok E n \<longleftrightarrow> bt_wf (indices n) \<and> store_used n \<le> NV_MEMORY_SIZE \<and> length (indices n) \<le> 4096
     \<and> (\<forall>(h, i) \<in> set (indices n). index_ok E i \<and> is_nv_handle h \<and> h = np_index (nv_public i))"

definition nv_enc :: "nv_store \<Rightarrow> bytes" where
  "nv_enc n = to_be 8 (highest_counter n) @ to_be 4 (of_nat (length (indices n)) :: u32)
     @ concat (map (\<lambda>hi. index_enc (snd hi)) (indices n))"

text \<open>The mark of a loaded store covers its counters, also where a startup had made one jump past it.\<close>

definition kept_nv :: "nv_store \<Rightarrow> nv_store" where
  "kept_nv n = raise_marks (map snd (indices n)) n"

lemma put_nv_emit: "nv_ok E n \<Longrightarrow> put_nv n w = emit (nv_enc n) w"
  by (simp add: put_nv_def nv_enc_def nv_ok_def put_items [where enc = "\<lambda>hi. index_enc (snd hi)"] put_index_emit [of E]
      split_beta writes_emit)

lemma raise_marks_floor:
  "(set_counter_floor k (raise_marks is n))\<lparr>indices := m\<rparr> = raise_marks is (set_counter_floor k n\<lparr>indices := m\<rparr>)"
  unfolding raise_marks_def
proof (induction "is" arbitrary: n)
  case (Cons i "is")
  have "raise_mark i (set_counter_floor k n\<lparr>indices := m\<rparr>) = set_counter_floor k (raise_mark i n)\<lparr>indices := m\<rparr>"
    by (simp add: raise_mark_def set_counter_floor_def max.commute max.left_commute split: sum.split)
  then show ?case by (simp add: Cons.IH)
qed (simp add: set_counter_floor_def)

lemma load_nv_reads:
  assumes ok: "nv_ok E (nv s)"
  shows "reads (load_nv E STATE_VERSION t) (t\<lparr>nv := kept_nv (nv s)\<rparr>) (nv_enc (nv s))"
proof -
  let ?n = "nv s"
  have store: "reads (load_indices E (length (indices ?n)) store_new)
      ((raise_marks (map snd (indices ?n)) store_new)\<lparr>indices := indices ?n\<rparr>) (concat (map (\<lambda>hi. index_enc (snd hi)) (indices ?n)))"
    using load_indices_reads [of store_new "indices ?n" E] ok by (simp add: nv_ok_def store_new_def store_used_def)
  have count: "reads (bounded_count 4096) (length (indices ?n)) (to_be 4 (of_nat (length (indices ?n)) :: u32))"
    by (rule reads_bounded_count) (use ok in \<open>simp_all add: nv_ok_def\<close>)
  have kept: "set_counter_floor (highest_counter ?n) ((raise_marks (map snd (indices ?n)) store_new)\<lparr>indices := indices ?n\<rparr>) = kept_nv ?n"
  proof -
    have "set_counter_floor k (x\<lparr>indices := m\<rparr>) = (set_counter_floor k x)\<lparr>indices := m\<rparr>" for k x m
      by (simp add: set_counter_floor_def)
    moreover have "set_counter_floor (highest_counter ?n) store_new\<lparr>indices := indices ?n\<rparr> = ?n"
      by (cases ?n) (simp add: set_counter_floor_def store_new_def)
    ultimately show ?thesis by (simp add: raise_marks_floor kept_nv_def)
  qed
  show ?thesis
    unfolding load_nv_def [abs_def] nv_enc_def version_defs
    by (simp, rule reads_bind, rule reads_int, rule reads_bind [OF count], rule reads_bind_end [OF store])
       (simp add: kept reads_return)
qed

section \<open>Persistent objects\<close>

text \<open>The object a load makes of a recorded one: its names are computed anew.\<close>

definition kept_object :: "env \<Rightarrow> object \<Rightarrow> object" where
  "kept_object E x = (case object_new E (obj_public x) (obj_sensitive x) (obj_hierarchy x) (handle_name (obj_hierarchy x)) (tpm_generated x)
     of Inl _ \<Rightarrow> x | Inr y \<Rightarrow> y)"

definition object_ok :: "env \<Rightarrow> key_lib \<Rightarrow> object \<Rightarrow> bool" where
  "object_ok E K x \<longleftrightarrow> public_ok E (obj_public x) \<and> (\<forall>v. obj_sensitive x = Some v \<longrightarrow> sensitive_ok v)
     \<and> \<not> state_clear x \<and> validate_restored E K (obj_public x) (obj_sensitive x) = Inr ()
     \<and> is_ok (object_new E (obj_public x) (obj_sensitive x) (obj_hierarchy x) (handle_name (obj_hierarchy x)) (tpm_generated x))"

definition object_enc :: "u32 \<times> object \<Rightarrow> bytes" where
  "object_enc ho = (let (h, x) = ho in to_be 4 h @ to_be 4 (obj_hierarchy x) @ bool_enc (tpm_generated x)
     @ bool_enc (state_clear x) @ public_enc (obj_public x) @ opt_enc sensitive_enc (obj_sensitive x))"

lemma put_object_emit: "object_ok E K x \<Longrightarrow> put_persistent_object (h, x) w = emit (object_enc (h, x)) w"
  by (auto simp: put_persistent_object_def object_ok_def object_enc_def public.put_enc [of E] opt_enc_def record_puts
      split: option.split)

lemma get_object_reads:
  assumes ok: "object_ok E K x"
  shows "reads (get_persistent_object E K STATE_VERSION) (h, kept_object E x) (object_enc (h, x))"
proof -
  have new: "object_new E (obj_public x) (obj_sensitive x) (obj_hierarchy x) (handle_name (obj_hierarchy x)) (tpm_generated x)
      = Inr (kept_object E x)"
    using ok by (auto simp: object_ok_def kept_object_def is_ok_def split: sum.splits)
  have p: "reads (public_get E) (obj_public x) (public_enc (obj_public x))"
    by (rule public.reads_get) (use ok in \<open>simp add: object_ok_def\<close>)
  have v: "reads (r_option sensitive_get) (obj_sensitive x) (opt_enc sensitive_enc (obj_sensitive x))"
    by (rule codec.reads_get [OF opt_codec [OF sensitive.codec_axioms]]) (use ok in \<open>simp add: object_ok_def\<close>)
  have recorded: "reads (\<lambda>r. res_bind (r_bool r) (\<lambda>(c, r). Inr (Some c, r))) (Some (state_clear x)) (bool_enc (state_clear x))"
    by (rule reads_bind_end, rule reads_flag, rule reads_return)
  show ?thesis
    unfolding get_persistent_object_def [abs_def] object_enc_def version_defs
    by (simp, rule reads_bind, rule reads_int, rule reads_bind, rule reads_int, rule reads_bind, rule reads_flag,
        rule reads_bind [OF recorded], rule reads_bind [OF p], rule reads_bind_end [OF v])
       (use ok in \<open>simp add: object_ok_def new reads_return\<close>)
qed

definition persistent_ok :: "env \<Rightarrow> key_lib \<Rightarrow> (u32, object) btree \<Rightarrow> bool" where
  "persistent_ok E K m \<longleftrightarrow> bt_wf m \<and> length m \<le> MIN_EVICT_OBJECTS * 64 \<and> (\<forall>(h, x) \<in> set m. object_ok E K x)"

definition persistent_enc :: "(u32, object) btree \<Rightarrow> bytes" where
  "persistent_enc m = to_be 4 (of_nat (length m) :: u32) @ concat (map object_enc m)"

lemma put_persistent_emit:
  assumes "persistent_ok E K m"
  shows "put_persistent m w = emit (persistent_enc m) w"
proof -
  have "foldl (\<lambda>w ho. put_persistent_object ho w) w m = emit (concat (map object_enc m)) w" for w
    by (rule put_items) (use assms in \<open>auto simp: persistent_ok_def intro: put_object_emit\<close>)
  then show ?thesis by (simp add: put_persistent_def persistent_enc_def writes_emit)
qed

lemma load_objects_reads:
  assumes "bt_wf (n @ m)" and "\<forall>(h, x) \<in> set m. object_ok E K x"
  shows "reads (load_objects E K STATE_VERSION (length m) n) (n @ bt_map (\<lambda>_. kept_object E) m) (concat (map object_enc m))"
  using assms
proof (induction m arbitrary: n)
  case (Cons ho m)
  obtain h x where ho: "ho = (h, x)" by (cases ho)
  have x: "object_ok E K x" using Cons.prems(2) ho by auto
  have wf: "\<forall>k \<in> set (bt_keys n). k < h" "bt_wf ((n @ [(h, x)]) @ m)"
    using bt_wf_append_Cons [of n h x m] Cons.prems(1) ho by auto
  have "reads (load_objects E K STATE_VERSION (length m) (n @ [(h, kept_object E x)]))
      ((n @ [(h, kept_object E x)]) @ bt_map (\<lambda>_. kept_object E) m) (concat (map object_enc m))"
    by (rule Cons.IH) (use wf(2) Cons.prems(2) in \<open>simp_all add: bt_wf_def\<close>)
  then have tail: "reads (load_objects E K STATE_VERSION (length m) (bt_insert h (kept_object E x) n))
      (n @ bt_map (\<lambda>_. kept_object E) (ho # m)) (concat (map object_enc m))"
    using ho by (simp add: bt_insert_last [OF wf(1)] bt_map_def)
  have "reads (\<lambda>r. res_bind (get_persistent_object E K STATE_VERSION r)
      (\<lambda>(hx, r). case hx of (h, x) \<Rightarrow> load_objects E K STATE_VERSION (length m) (bt_insert h x n) r))
      (n @ bt_map (\<lambda>_. kept_object E) (ho # m)) (object_enc (h, x) @ concat (map object_enc m))"
    by (rule reads_bind [OF get_object_reads [OF x]]) (use tail in simp)
  then show ?case using ho by (simp add: split_def)
qed (simp add: reads_def bt_map_def)

lemma load_persistent_reads:
  assumes "persistent_ok E K (persistent s)" and "persistent t = []"
  shows "reads (load_persistent E K STATE_VERSION t) (t\<lparr>persistent := bt_map (\<lambda>_. kept_object E) (persistent s)\<rparr>)
    (persistent_enc (persistent s))"
proof -
  have count: "reads (bounded_count (MIN_EVICT_OBJECTS * 64)) (length (persistent s)) (to_be 4 (of_nat (length (persistent s)) :: u32))"
    by (rule reads_bounded_count) (use assms in \<open>simp_all add: persistent_ok_def MIN_EVICT_OBJECTS_def\<close>)
  have objs: "reads (load_objects E K STATE_VERSION (length (persistent s)) []) (bt_map (\<lambda>_. kept_object E) (persistent s))
      (concat (map object_enc (persistent s)))"
    using load_objects_reads [of "[]" "persistent s" E K] assms(1) by (simp add: persistent_ok_def)
  show ?thesis
    unfolding load_persistent_def [abs_def] persistent_enc_def assms(2)
    by (rule reads_bind [OF count], rule reads_bind_end [OF objs], rule reads_return)
qed

section \<open>The later blocks\<close>

definition commits_ok :: "commits \<Rightarrow> bool" where
  "commits_ok c \<longleftrightarrow> (if is_ready c then length (c_random c) = COMMIT_NONCE_BYTES
     \<and> length (c_used c) = unat MAX_COMMIT_SEQUENCES div 8 else True)"

definition commits_enc :: "commits \<Rightarrow> bytes" where
  "commits_enc c = (if is_ready c then enc_sized16 (c_random c) @ to_be 8 (c_count c) @ enc_sized16 (c_used c)
     else enc_sized16 [] @ to_be 8 (0 :: u64) @ enc_sized16 [])"

text \<open>Values that are not ready are written as none.\<close>

definition kept_commits :: "commits \<Rightarrow> commits" where
  "kept_commits c = (if is_ready c then c else commits_new)"

lemma commit_lengths: "commits_ok c \<Longrightarrow> is_ready c \<Longrightarrow> length (c_random c) < 2 ^ 16 \<and> length (c_used c) < 2 ^ 16"
  by (simp add: commits_ok_def COMMIT_NONCE_BYTES_def MAX_COMMIT_SEQUENCES_def)

lemma put_commits_emit: "commits_ok c \<Longrightarrow> put_commits c w = emit (commits_enc c) w"
  using commit_lengths [of c] by (auto simp: put_commits_def commits_enc_def record_puts)

lemma load_commits_reads:
  assumes ok: "commits_ok (commits_of s)" and new: "commits_of t = commits_new"
  shows "reads (load_commits t) (t\<lparr>commits_of := kept_commits (commits_of s)\<rparr>) (commits_enc (commits_of s))"
proof -
  let ?c = "commits_of s"
  let ?b = "\<lambda>c. enc_sized16 (c_random c) @ to_be 8 (c_count c) @ enc_sized16 (c_used c)"
  have *: "reads (load_commits t) (t\<lparr>commits_of := c\<rparr>) (?b c)"
    if "length (c_random c) < 2 ^ 16" "length (c_used c) < 2 ^ 16"
      and "c = commits_new \<or> is_ready c \<and> commits_ok c" for c
    unfolding load_commits_def [abs_def]
    by (rule reads_nonempty, insert that(1,2), rule reads_bind, rule buf.reads_get, assumption, rule reads_bind, rule reads_int,
        rule reads_bind_end, rule buf.reads_get, assumption)
       (use that(3) new in \<open>cases c; cases t; auto simp: reads_return is_ready_def commits_ok_def commit_restore_def commits_new_def\<close>, simp)
  show ?thesis
    using * [of ?c] * [of commits_new] commit_lengths [OF ok] ok
    by (auto simp: commits_enc_def kept_commits_def commits_new_def)
qed

definition act_enc :: "tpm_state \<Rightarrow> bytes" where
  "act_enc s = to_be 4 (act_timeout (act_of s)) @ bool_enc (signaled (act_of s)) @ to_be 2 (ha_alg (act_policy (act_of s)))
     @ enc_sized16 (ha_digest (act_policy (act_of s))) @ bool_enc (ever_started s)"

definition kept_act :: "act \<Rightarrow> act" where
  "kept_act a = a\<lparr>preserve_signaled := False, fraction := 0, act_written := False\<rparr>"

lemma tpmt_ha_short: "tpmt_ha_ok E h \<Longrightarrow> length (ha_digest h) < 2 ^ 16"
  by (auto simp: tpmt_ha_ok_def digest_size_def split: if_splits)

lemma put_act_emit: "tpmt_ha_ok E (act_policy (act_of s)) \<Longrightarrow> put_act s w = emit (act_enc s) w"
  using tpmt_ha_short by (simp add: put_act_def act_enc_def record_puts)

lemma load_act_reads:
  assumes ok: "tpmt_ha_ok E (act_policy (act_of s))" and new: "act_of t = act_default"
  shows "reads (load_act E t) (t\<lparr>act_of := kept_act (act_of s), ever_started := ever_started s\<rparr>) (act_enc s)"
proof -
  let ?p = "act_policy (act_of s)"
  have d: "length (ha_digest ?p) < 2 ^ 16" by (rule tpmt_ha_short [OF ok])
  have pol: "tpmt_ha_new E (ha_alg ?p) (ha_digest ?p) = Inr ?p"
    using ok by (cases ?p) (auto simp: tpmt_ha_new_def tpmt_ha_ok_def split: if_splits)
  have last: "reads (\<lambda>r. if r_is_empty r then Inr (True, r) else r_bit r) (ever_started s) (bool_enc (ever_started s))"
    by (rule reads_nonempty, rule reads_bit) (simp add: bool_enc_def)
  have "reads (load_act E t) (t\<lparr>act_of := (act_restore (act_timeout (act_of s)) (signaled (act_of s)) (act_of t))\<lparr>act_policy := ?p\<rparr>,
      ever_started := ever_started s\<rparr>) (act_enc s)"
    unfolding load_act_def [abs_def] act_enc_def
    by (rule reads_nonempty, rule reads_bind, rule reads_int, rule reads_bind, rule reads_bit, rule reads_bind, rule reads_int,
        rule reads_bind, rule buf.reads_get [OF d], unfold pol res_bind_simps, rule reads_bind_end [OF last], rule reads_return) simp
  then show ?thesis using new by (cases "act_of s") (simp add: act_restore_def act_default_def kept_act_def)
qed

definition startup_enc :: "tpm_state \<Rightarrow> bytes" where
  "startup_enc s = to_be 4 (startup_clear s) @ bool_enc (hcrtm_at_last_startup s) @ [startup_locality s]"

lemma put_startup_emit: "put_startup s w = emit (startup_enc s) w"
  by (simp add: put_startup_def startup_enc_def record_puts)

lemma load_startup_reads:
  "reads (load_startup STATE_VERSION t) (t\<lparr>startup_clear := startup_clear s, hcrtm_at_last_startup := hcrtm_at_last_startup s,
     startup_locality := startup_locality s\<rparr>) (startup_enc s)"
proof -
  have "reads (\<lambda>r. res_bind (r_u32 r) (\<lambda>(c, r). res_bind (r_bool r) (\<lambda>(m, r). res_bind (r_u8 r) (\<lambda>(l, r).
      Inr (t\<lparr>startup_clear := c, hcrtm_at_last_startup := m, startup_locality := l\<rparr>, r)))))
      (t\<lparr>startup_clear := startup_clear s, hcrtm_at_last_startup := hcrtm_at_last_startup s,
         startup_locality := startup_locality s\<rparr>) (startup_enc s)"
    unfolding startup_enc_def by (rule reads_return | (rule reads_bind reads_bind_end, rule reads_int reads_flag))+
  then show ?thesis
    by (simp add: load_startup_def [abs_def] version_defs reads_def startup_enc_def Let_def)
qed

definition saved_ok :: "slots \<Rightarrow> bool" where
  "saved_ok sl \<longleftrightarrow> bt_wf (saved sl) \<and> length (saved sl) \<le> MAX_ACTIVE_SESSIONS"

definition saved_enc :: "slots \<Rightarrow> bytes" where
  "saved_enc sl = (to_be 4 (of_nat (length (saved sl)) :: u32) @ concat (map (\<lambda>(h, i). to_be 4 h @ to_be 8 i) (saved sl)))
     @ to_be 8 (context_counter sl) @ to_be 8 (object_counter sl)"

definition kept_slots :: "slots \<Rightarrow> slots" where
  "kept_slots sl = sl\<lparr>sessions := [], version := []\<rparr>"

lemma put_saved_emit: "put_saved sl w = emit (saved_enc sl) w"
  by (simp add: put_saved_def saved_enc_def saved_contexts_def writes_emit split_def emit_items)

lemma load_sessions_reads:
  assumes ok: "saved_ok (session_slots s)" and new: "session_slots t = slots_new"
  shows "reads (load_sessions STATE_VERSION t) (t\<lparr>session_slots := kept_slots (session_slots s)\<rparr>) (saved_enc (session_slots s))"
proof -
  let ?sl = "session_slots s"
  have items: "reads (bounded_items MAX_ACTIVE_SESSIONS get_saved) (saved ?sl)
      (to_be 4 (of_nat (length (saved ?sl)) :: u32) @ concat (map (\<lambda>(h, i). to_be 4 h @ to_be 8 i) (saved ?sl)))"
  proof (rule reads_bounded_items)
    have "reads get_saved (h, i) (to_be 4 h @ to_be 8 i)" for h i
      unfolding get_saved_def [abs_def] by (rule reads_bind, rule reads_int, rule reads_bind_end, rule reads_int, rule reads_return)
    then show "\<forall>x \<in> set (saved ?sl). reads get_saved x (case x of (h, i) \<Rightarrow> to_be 4 h @ to_be 8 i)" by auto
  qed (use ok in \<open>simp_all add: saved_ok_def MAX_ACTIVE_SESSIONS_def\<close>)
  have tail: "reads (\<lambda>r. res_bind (r_u64 r) (\<lambda>(ob, r). Inr ((saved ?sl, context_counter ?sl, ob), r)))
      (saved ?sl, context_counter ?sl, object_counter ?sl) (to_be 8 (object_counter ?sl))"
    by (rule reads_bind_end, rule reads_int, rule reads_return)
  have kept: "restore_saved_contexts (saved ?sl) (context_counter ?sl) (object_counter ?sl) slots_new = kept_slots ?sl"
    using insert_all [of "[]" "saved ?sl"] ok
    by (cases ?sl) (simp add: restore_saved_contexts_def slots_new_def kept_slots_def saved_ok_def)
  have "reads (\<lambda>r. res_bind (bounded_items MAX_ACTIVE_SESSIONS get_saved r) (\<lambda>(sv, r). res_bind (r_u64 r) (\<lambda>(n, r).
      res_bind (res_bind (r_u64 r) (\<lambda>(ob, r). Inr ((sv, n, ob), r))) (\<lambda>(x, r). case x of (sv, n, ob) \<Rightarrow>
        Inr (t\<lparr>session_slots := restore_saved_contexts sv n ob (session_slots t)\<rparr>, r)))))
      (t\<lparr>session_slots := kept_slots ?sl\<rparr>) (saved_enc ?sl)"
    unfolding saved_enc_def
    by (rule reads_bind [OF items], rule reads_bind, rule reads_int, rule reads_bind_end [OF tail]) (simp add: kept new reads_return)
  then show ?thesis
    by (simp add: load_sessions_def [abs_def] version_defs reads_def saved_enc_def split_def)
qed

section \<open>The whole record\<close>

definition record_ok :: "env \<Rightarrow> key_lib \<Rightarrow> tpm_state \<Rightarrow> bool" where
  "record_ok E K s \<longleftrightarrow> hierarchies_ok E (hierarchies s) \<and> scalars_ok E s \<and> pcrs_ok E s \<and> audit_ok s \<and> nv_ok E (nv s)
     \<and> persistent_ok E K (persistent s) \<and> commits_ok (commits_of s) \<and> tpmt_ha_ok E (act_policy (act_of s))
     \<and> saved_ok (session_slots s)"

text \<open>The state that comes back: the fields the record carries over those of a new TPM \<open>m\<close>.\<close>

definition restored :: "env \<Rightarrow> tpm_state \<Rightarrow> tpm_state \<Rightarrow> tpm_state" where
  "restored E m s = m\<lparr>manufactured := manufactured s, startup_method_unknown := False,
     hierarchies := (hierarchies s)\<lparr>firmware_code := firmware_code (hierarchies m)\<rparr>,
     lockout_state := kept_lockout (lockout_state s), permanent := permanent s, clock_of := kept_clock (clock_of s),
     algorithm_set := algorithm_set s, lockout_auth := lockout_auth s, lockout_policy := lockout_policy s,
     pcr_auth := pcr_auth s, pcr_policy := pcr_policy s, shutdown_type := shutdown_type s,
     pcr_allocation := pcr_allocation s, pcrs := pcrs s, pp_commands := pp_commands s,
     cmd_audit := (cmd_audit s)\<lparr>exclusive_session := exclusive_session (cmd_audit m)\<rparr>,
     nv := kept_nv (nv s), persistent := bt_map (\<lambda>_. kept_object E) (persistent s),
     commits_of := kept_commits (commits_of s), act_of := kept_act (act_of s), ever_started := ever_started s,
     startup_clear := startup_clear s, hcrtm_at_last_startup := hcrtm_at_last_startup s,
     startup_locality := startup_locality s, session_slots := kept_slots (session_slots s)\<rparr>"

definition head_enc :: "env \<Rightarrow> tpm_state \<Rightarrow> bytes" where
  "head_enc E s = to_be 4 STATE_VERSION @ bool_enc (strict E) @ bool_enc (manufactured s)"

definition record_enc :: "env \<Rightarrow> tpm_state \<Rightarrow> bytes" where
  "record_enc E s = head_enc E s @ hierarchies_enc (hierarchies s) @ scalars_enc s @ pcrs_enc s @ audit_enc s @ nv_enc (nv s)
     @ persistent_enc (persistent s) @ commits_enc (commits_of s) @ act_enc s @ startup_enc s @ saved_enc (session_slots s)"

lemma save_enc: "record_ok E K s \<Longrightarrow> save E s = Inr (record_enc E s)"
  by (simp add: save_def record_ok_def put_head_def put_hierarchies_emit [of E] put_scalars_emit [of E] put_pcrs_emit [of E]
      put_audit_emit put_nv_emit [of E] put_persistent_emit [of E K] put_commits_emit put_act_emit [of E] put_startup_emit
      put_saved_emit record_puts record_enc_def head_enc_def w_finish_def writer_new_def)

lemma get_head_reads: "reads (get_head E) (STATE_VERSION, manufactured s) (head_enc E s)"
proof -
  have "reads (\<lambda>r. if strict E \<noteq> strict E then Inl rc_BAD_CONTEXT else res_bind (r_bool r) (\<lambda>(m, r). Inr ((STATE_VERSION, m), r)))
      (STATE_VERSION, manufactured s) (bool_enc (manufactured s))"
    by (rule reads_guard, simp, rule reads_bind_end, rule reads_flag, rule reads_return)
  then have "reads (\<lambda>r. res_bind (r_bit r) (\<lambda>(written_strict, r). if written_strict \<noteq> strict E then Inl rc_BAD_CONTEXT
      else res_bind (r_bool r) (\<lambda>(m, r). Inr ((STATE_VERSION, m), r)))) (STATE_VERSION, manufactured s)
      (bool_enc (strict E) @ bool_enc (manufactured s))"
    by (rule reads_bind [OF reads_bit])
  then show ?thesis
    unfolding get_head_def [abs_def] head_enc_def
    by (intro reads_bind [where x = STATE_VERSION] reads_int) (simp add: version_defs)
qed

lemma manufactured_fields:
  assumes "manufacture E g = Inr m"
  shows "persistent m = []" "commits_of m = commits_new" "act_of m = act_default" "session_slots m = slots_new"
  using assms by (auto simp: manufacture_def res_bind_eq_Inr split: sum.splits prod.splits)

lemma drbg_fill_ok:
  assumes "env_ok E" and "n \<le> MAX_BYTES_PER_REQUEST" and "reseed_counter d < RESEED_INTERVAL"
  shows "\<exists>b d'. drbg_fill E n d = (Inr b, d') \<and> reseed_counter d' = reseed_counter d + 1"
proof -
  have "saturating_add (reseed_counter d) 1 = reseed_counter d + 1"
    using assms(3) by (auto simp: saturating_add_def RESEED_INTERVAL_def word_less_nat_alt unat_word_ariths)
  then show ?thesis
    using assms by (simp add: drbg_fill_def needs_reseed_def drbg_loop_blocks [OF assms(1)] Let_def drbg_update_empty not_le)
qed

lemma load_sections_reads:
  assumes ok: "record_ok E K s" and new: "persistent t = []" "commits_of t = commits_new" "act_of t = act_default"
    "session_slots t = slots_new"
  shows "\<exists>p. set_update_counter (update_counter (pcrs s)) p = pcrs s \<and>
    reads (load_sections E K STATE_VERSION (t\<lparr>manufactured := manufactured s, startup_method_unknown := False\<rparr>))
      ((restored E t s)\<lparr>pcrs := p\<rparr>, update_counter (pcrs s))
      (hierarchies_enc (hierarchies s) @ scalars_enc s @ pcrs_enc s @ audit_enc s @ nv_enc (nv s)
       @ persistent_enc (persistent s) @ commits_enc (commits_of s) @ act_enc s @ startup_enc s @ saved_enc (session_slots s))"
proof -
  have parts: "hierarchies_ok E (hierarchies s)" "scalars_ok E s" "pcrs_ok E s" "audit_ok s" "nv_ok E (nv s)"
    "persistent_ok E K (persistent s)" "commits_ok (commits_of s)" "tpmt_ha_ok E (act_policy (act_of s))" "saved_ok (session_slots s)"
    using ok by (simp_all add: record_ok_def)
  let ?t1 = "t\<lparr>manufactured := manufactured s, startup_method_unknown := False,
     hierarchies := (hierarchies s)\<lparr>firmware_code := firmware_code (hierarchies t)\<rparr>,
     lockout_state := kept_lockout (lockout_state s), permanent := permanent s, clock_of := kept_clock (clock_of s),
     algorithm_set := algorithm_set s, lockout_auth := lockout_auth s, lockout_policy := lockout_policy s,
     pcr_auth := pcr_auth s, pcr_policy := pcr_policy s, shutdown_type := shutdown_type s\<rparr>"
  from load_pcrs_reads [OF parts(3), of ?t1] obtain p where
    p: "set_update_counter (update_counter (pcrs s)) p = pcrs s"
    and pcrs: "reads (load_pcrs E STATE_VERSION ?t1) (?t1\<lparr>pcr_allocation := pcr_allocation s, pcrs := p\<rparr>, update_counter (pcrs s))
      (pcrs_enc s)" by blast
  have "reads (load_sections E K STATE_VERSION (t\<lparr>manufactured := manufactured s, startup_method_unknown := False\<rparr>))
      ((restored E t s)\<lparr>pcrs := p\<rparr>, update_counter (pcrs s))
      (hierarchies_enc (hierarchies s) @ scalars_enc s @ pcrs_enc s @ audit_enc s @ nv_enc (nv s)
       @ persistent_enc (persistent s) @ commits_enc (commits_of s) @ act_enc s @ startup_enc s @ saved_enc (session_slots s))"
    unfolding load_sections_def [abs_def]
    apply (rule reads_bind, rule load_hierarchies_reads [OF parts(1)])
    apply (rule reads_bind, rule load_scalars_reads [OF parts(2)])
    apply (rule reads_bind [where x = "(?t1\<lparr>pcr_allocation := pcr_allocation s, pcrs := p\<rparr>, update_counter (pcrs s))"], simp, rule pcrs)
    apply (unfold prod.case)
    apply (rule reads_bind, rule load_audit_reads [OF parts(4)])
    apply (rule reads_bind, rule load_nv_reads [OF parts(5)])
    apply (rule reads_bind, rule load_persistent_reads [OF parts(6)], simp add: new)
    apply (rule reads_bind, rule load_commits_reads [OF parts(7)], simp add: new)
    apply (rule reads_bind, rule load_act_reads [OF parts(8)], simp add: new)
    apply (rule reads_bind, rule load_startup_reads)
    apply (rule reads_bind_end, rule load_sessions_reads [OF parts(9)], simp add: new)
    apply (cases t, simp add: restored_def reads_return)
    done
  with p show ?thesis by blast
qed

lemma load_record:
  assumes "record_ok E K s" and "manufacture E g = Inr m"
  shows "load_state E K g (record_enc E s @ t) = (if t = [] then Inr (restored E m s) else Inl rc_BAD_CONTEXT)"
proof -
  let ?m = "m\<lparr>manufactured := manufactured s, startup_method_unknown := False\<rparr>"
  let ?body = "hierarchies_enc (hierarchies s) @ scalars_enc s @ pcrs_enc s @ audit_enc s @ nv_enc (nv s)
       @ persistent_enc (persistent s) @ commits_enc (commits_of s) @ act_enc s @ startup_enc s @ saved_enc (session_slots s)"
  obtain p where p: "set_update_counter (update_counter (pcrs s)) p = pcrs s"
    and body: "reads (load_sections E K STATE_VERSION ?m) ((restored E m s)\<lparr>pcrs := p\<rparr>, update_counter (pcrs s)) ?body"
    using load_sections_reads [OF assms(1) manufactured_fields [OF assms(2)]] by blast
  have enc: "record_enc E s = head_enc E s @ ?body" by (simp add: record_enc_def)
  let ?r = "reader_new (record_enc E s @ t)"
  have head: "get_head E ?r = Inr ((STATE_VERSION, manufactured s), advance (length (head_enc E s)) ?r)"
    by (rule readsD [OF get_head_reads, where t = "?body @ t"]) (simp add: enc)
  have "load_sections E K STATE_VERSION ?m (advance (length (head_enc E s)) ?r)
      = Inr (((restored E m s)\<lparr>pcrs := p\<rparr>, update_counter (pcrs s)), advance (length ?body) (advance (length (head_enc E s)) ?r))"
    by (rule readsD [OF body, where t = t]) (simp add: enc)
  moreover have "(restored E m s)\<lparr>pcrs := pcrs s\<rparr> = restored E m s" by (simp add: restored_def)
  moreover have "(STATE_VERSION < FIRST_WITH_HCRTM_METHOD) = False" by (simp add: version_defs)
  ultimately show ?thesis using head p assms(2) by (simp add: load_state_def enc)
qed

lemma load_other_profile:
  assumes "strict E' \<noteq> strict E"
  shows "\<not> is_ok (load_state E' K g (record_enc E s))"
proof -
  let ?r = "reader_new (record_enc E s)"
  have "r_u32 ?r = Inr (STATE_VERSION, advance 4 ?r)"
    using readsD [OF reads_int(3), of ?r STATE_VERSION] by (simp add: record_enc_def head_enc_def)
  moreover have "r_bit (advance 4 ?r) = Inr (strict E, advance 1 (advance 4 ?r))"
    using readsD [OF reads_bit, of "advance 4 ?r" "strict E"] by (simp add: record_enc_def head_enc_def bool_enc_def)
  ultimately have "get_head E' ?r = Inl rc_BAD_CONTEXT"
    using assms by (simp add: get_head_def version_defs)
  then show ?thesis by (cases "manufacture E' g") (simp_all add: load_state_def is_ok_def)
qed

text \<open>
  What a power cycle gives back of a persistent object: all but its names, which are made anew from its
  public area and the handle of its hierarchy. That is the same object where it was a primary one; the
  qualified name of any other has lost its ancestors.
\<close>

definition object_back :: "env \<Rightarrow> object \<Rightarrow> object \<Rightarrow> bool" where
  "object_back E x y \<longleftrightarrow> obj_public y = obj_public x \<and> obj_sensitive y = obj_sensitive x
     \<and> obj_hierarchy y = obj_hierarchy x \<and> tpm_generated y = tpm_generated x
     \<and> object_name E (obj_public x) = Inr (obj_name y)
     \<and> qualified_name E (name_alg (obj_public x)) (handle_name (obj_hierarchy x)) (obj_name y) = Inr (obj_qualified y)
     \<and> (if \<not> state_clear y \<and> obj_name x = obj_name y \<and> obj_qualified x = obj_qualified y \<and> \<not> state_clear x then y = x else True)"

text \<open>What it gives back of the state, field by field.\<close>

definition state_back :: "env \<Rightarrow> tpm_state \<Rightarrow> tpm_state \<Rightarrow> bool" where
  "state_back E s r \<longleftrightarrow>
     hierarchies r = (hierarchies s)\<lparr>firmware_code := firmware_code (hierarchies r)\<rparr>
   \<and> lockout_auth r = lockout_auth s \<and> lockout_policy r = lockout_policy s
   \<and> pcr_auth r = pcr_auth s \<and> pcr_policy r = pcr_policy s \<and> permanent r = permanent s
   \<and> lockout_state r = (lockout_state s)\<lparr>lockout_until := 0\<rparr>
   \<and> clock_of r = (clock_of s)\<lparr>time := 0, rate_adjust := 0, rate_remainder := 0, nv_elapsed := 0\<rparr>
   \<and> indices (nv r) = indices (nv s) \<and> highest_counter (nv s) \<le> highest_counter (nv r)
   \<and> pcr_allocation r = pcr_allocation s \<and> pcrs r = pcrs s
   \<and> cmd_audit r = (cmd_audit s)\<lparr>exclusive_session := exclusive_session (cmd_audit r)\<rparr>
   \<and> pp_commands r = pp_commands s \<and> algorithm_set r = algorithm_set s
   \<and> shutdown_type r = shutdown_type s \<and> startup_clear r = startup_clear s \<and> ever_started r = ever_started s
   \<and> (if is_ready (commits_of s) then commits_of r = commits_of s else \<not> is_ready (commits_of r))
   \<and> act_of r = (act_of s)\<lparr>preserve_signaled := False, fraction := 0, act_written := False\<rparr>
   \<and> saved (session_slots r) = saved (session_slots s)
   \<and> context_counter (session_slots r) = context_counter (session_slots s)
   \<and> object_counter (session_slots r) = object_counter (session_slots s)
   \<and> (\<forall>h. case bt_get (persistent s) h of
          None \<Rightarrow> bt_get (persistent r) h = None
        | Some x \<Rightarrow> (\<exists>y. bt_get (persistent r) h = Some y \<and> object_back E x y))"

lemma kept_object_back: "object_ok E K x \<Longrightarrow> object_back E x (kept_object E x)"
proof -
  assume "object_ok E K x"
  then obtain y where y: "object_new E (obj_public x) (obj_sensitive x) (obj_hierarchy x) (handle_name (obj_hierarchy x))
      (tpm_generated x) = Inr y" by (auto simp: object_ok_def is_ok_def split: sum.splits)
  then have f: "obj_public y = obj_public x" "obj_sensitive y = obj_sensitive x" "obj_hierarchy y = obj_hierarchy x"
    "tpm_generated y = tpm_generated x" "object_name E (obj_public x) = Inr (obj_name y)"
    "qualified_name E (name_alg (obj_public x)) (handle_name (obj_hierarchy x)) (obj_name y) = Inr (obj_qualified y)"
    by (auto simp: object_new_def res_bind_eq_Inr)
  then show ?thesis using y by (auto simp: object_back_def kept_object_def intro: object.equality)
qed

lemma raise_mark_up: "highest_counter n \<le> highest_counter (raise_mark i n)"
  by (simp add: raise_mark_def split: sum.split)

lemma raise_marks_up: "highest_counter n \<le> highest_counter (raise_marks xs n) \<and> indices (raise_marks xs n) = indices n"
  unfolding raise_marks_def
proof (induction xs arbitrary: n)
  case (Cons i xs)
  then show ?case using raise_mark_up [of n i] Cons.IH [of "raise_mark i n"] by (auto intro: order_trans)
qed simp

lemma restored_back:
  assumes "record_ok E K s" shows "state_back E s (restored E m s)"
proof -
  have objects: "object_back E x (kept_object E x)" if "bt_get (persistent s) h = Some x" for h x
    using assms that by (auto simp: record_ok_def persistent_ok_def dest!: bt_get_SomeD intro!: kept_object_back)
  have "\<not> is_ready commits_new" by (simp add: is_ready_def commits_new_def)
  then show ?thesis
    using raise_marks_up [of "nv s" "map snd (indices (nv s))"] objects
    by (auto simp: state_back_def restored_def kept_lockout_def kept_clock_def kept_nv_def kept_commits_def kept_act_def
        kept_slots_def split: option.split)
qed


section \<open>A new TPM can be made\<close>

definition fresh :: "nat \<Rightarrow> drbg \<Rightarrow> bool" where
  "fresh n g \<longleftrightarrow> unat (reseed_counter g) + n \<le> unat RESEED_INTERVAL"

lemma fresh_fill:
  assumes "env_ok E" and "n \<le> MAX_BYTES_PER_REQUEST" and "fresh (Suc k) g"
  shows "\<exists>b g'. drbg_fill E n g = (Inr b, g') \<and> fresh k g'"
proof -
  have less: "reseed_counter g < RESEED_INTERVAL" using assms(3) by (simp add: fresh_def word_less_nat_alt)
  have "unat (reseed_counter g + 1) = Suc (unat (reseed_counter g))"
    using less by (simp add: word_less_nat_alt RESEED_INTERVAL_def unat_word_ariths)
  then show ?thesis using drbg_fill_ok [OF assms(1,2) less] assms(3) by (auto simp: fresh_def)
qed

lemma fresh_hierarchy:
  assumes "env_ok E" and "fresh n g" and "2 \<le> n"
  shows "\<exists>h g'. hierarchy_new (drbg_fill E) g = (Inr h, g') \<and> fresh (n - 2) g'"
proof -
  have size: "PRIMARY_SEED_SIZE \<le> MAX_BYTES_PER_REQUEST" by (simp add: PRIMARY_SEED_SIZE_def MAX_BYTES_PER_REQUEST_def)
  have "Suc (Suc (n - 2)) = n" using assms(3) by simp
  then have "fresh (Suc (Suc (n - 2))) g" using assms(2) by simp
  then show ?thesis using fresh_fill [OF assms(1) size, of _ g] fresh_fill [OF assms(1) size, of "n - 2"]
    by (fastforce simp: hierarchy_new_def st_bind_apply)
qed

lemma manufacture_ok:
  assumes E: "env_ok E" and "fresh 9 g"
  shows "is_ok (manufacture E g)"
proof -
  have size: "PRIMARY_SEED_SIZE \<le> MAX_BYTES_PER_REQUEST" by (simp add: PRIMARY_SEED_SIZE_def MAX_BYTES_PER_REQUEST_def)
  from fresh_hierarchy [OF E assms(2)] obtain h1 g1 where 1: "hierarchy_new (drbg_fill E) g = (Inr h1, g1)" "fresh 7 g1" by auto
  from fresh_hierarchy [OF E 1(2)] obtain h2 g2 where 2: "hierarchy_new (drbg_fill E) g1 = (Inr h2, g2)" "fresh 5 g2" by auto
  from fresh_hierarchy [OF E 2(2)] obtain h3 g3 where 3: "hierarchy_new (drbg_fill E) g2 = (Inr h3, g3)" "fresh 3 g3" by auto
  from fresh_hierarchy [OF E 3(2)] obtain h4 g4 where 4: "hierarchy_new (drbg_fill E) g3 = (Inr h4, g4)" "fresh (Suc 0) g4" by auto
  from fresh_fill [OF E size 4(2)] obtain b g5 where 5: "drbg_fill E PRIMARY_SEED_SIZE g4 = (Inr b, g5)" by blast
  have "is_ok (pcr_new E (whole_banks DEFAULT_PCR_BANKS))"
    by (simp add: pcr_new_def allocate_def whole_banks_def DEFAULT_PCR_BANKS_def digest_size_def IMPLEMENTATION_PCR_def is_ok_def Let_def)
  then show ?thesis
    using 1 2 3 4 5 by (auto simp: manufacture_def hierarchies_new_def st_bind_apply is_ok_def split: sum.splits)
qed

definition demo_saved :: tpm_state where
  "demo_saved = demo_tpm\<lparr>clock_of := clock_default\<lparr>clk_reset_value := [5]\<rparr>, pcr_allocation := allocated demo_banks,
     commits_of := commits_new, shutdown_type := su_STATE,
     nv := \<lparr>indices = [(0x01000001, \<lparr>nv_public = demo_nv, nv_auth = [9], nv_data = [], read_locked = True, write_locked = False\<rparr>)],
            highest_counter = 3\<rparr>\<rparr>"

lemma demo_null_ha: "tpmt_ha_ok E tpmt_ha_null"
  by (simp add: tpmt_ha_ok_def tpmt_ha_null_def)

lemma demo_record_ok: "record_ok (demo_env False) K demo_saved"
proof -
  have "hierarchies_ok E demo_hierarchies" for E
    by (simp add: hierarchies_ok_def hierarchy_ok_def demo_hierarchies_def Let_def demo_null_ha)
  moreover have "pcrs_ok E demo_saved" if "E = demo_env False" for E
    by (simp add: pcrs_ok_def that demo_saved_def demo_tpm_def demo_banks_wf) (simp add: demo_banks_def numeral_eq_Suc)
  moreover have "nv_ok (demo_env False) (nv demo_saved)"
    using demo_nv_ok [of False]
    by (simp add: demo_saved_def nv_ok_def bt_wf_def store_used_def index_ok_def is_nv_handle_def footprint_def)
       (simp add: demo_nv_def nv_public.to_bytes_enc [of "demo_env False"] nv_public_enc_def NV_MEMORY_SIZE_def enc_sized16_def)
  ultimately show ?thesis
    by (simp add: record_ok_def scalars_ok_def audit_ok_def persistent_ok_def commits_ok_def saved_ok_def demo_null_ha)
       (simp add: demo_saved_def demo_tpm_def demo_null_ha clock_default_def command_audit_default_def act_default_def
         slots_new_def commits_new_def is_ready_def bt_wf_def pa_reserved_def flag_def)
qed


end
