(* ===== verification/Device.thy ===== *)
theory Device
  imports Execute StateRoundtrip
begin

text \<open>
  The TPM as a device (\<open>src/tpm/device.rs\<close>): power, NV, physical presence, the H-CRTM indications, the
  execution of one command and the writing of the state file around it. Each operation takes what the
  host decides as an argument: the milliseconds that passed, whether the file can be written and read
  (\<open>src/tpm/persist.rs\<close> replaces the whole file or leaves it). The locks and the log are left out: one
  operation runs at a time.
\<close>

record device =
  dev_state :: tpm_state
  powered :: bool
  cancelled :: bool
  established :: bool
  state_file :: "bytes option"

definition DRTM_PCR :: nat where "DRTM_PCR = 17"

definition success_response :: "u16 \<Rightarrow> bytes \<Rightarrow> bytes" where
  "success_response tag body =
     wbuf (w_bytes body (w_u32 rc_SUCCESS (w_u32 (of_nat (HEADER_SIZE + length body)) (w_u16 tag writer_new))))"

section \<open>Coming up\<close>

text \<open>\<open>Tpm::new\<close>; None is an error of the host program, which then has no TPM. \<open>file\<close> is what the state
  file holds.\<close>

definition device_new :: "env \<Rightarrow> key_lib \<Rightarrow> self_tests \<Rightarrow> drbg \<Rightarrow> bool \<Rightarrow> bytes option \<Rightarrow> device option" where
  "device_new E K T g writable file =
     (case (integrity T, known_answers T) of
        (Inr code, None) \<Rightarrow>
          (let up = (\<lambda>s f. Some \<lparr>dev_state = s\<lparr>hierarchies := (hierarchies s)\<lparr>firmware_code := code\<rparr>, test_digest := code,
                                self_test_done := True, test_failure := None\<rparr>,
                              powered = False, cancelled = False, established = False, state_file = f\<rparr>)
           in case file of
                Some data \<Rightarrow> (case load_state E K g data of Inr s \<Rightarrow> up s file | Inl _ \<Rightarrow> None)
              | None \<Rightarrow> (case manufacture E g of
                    Inl _ \<Rightarrow> None
                  | Inr s \<Rightarrow> (case save E s of Inr b \<Rightarrow> if writable then up s (Some b) else None | Inl _ \<Rightarrow> None)))
      | _ \<Rightarrow> None)"

section \<open>Persistence\<close>

definition persist :: "env \<Rightarrow> bool \<Rightarrow> device \<Rightarrow> bool \<times> device" where
  "persist E writable d =
     (if nv_write_failed (dev_state d) then (False, d)
      else case save E (dev_state d) of
          Inr b \<Rightarrow> if writable then (True, d\<lparr>state_file := Some b\<rparr>) else (False, d)
        | Inl _ \<Rightarrow> (False, d))"

definition writes_nv :: "u32 \<Rightarrow> bool" where
  "writes_nv code = (case lookup_command code of Some i \<Rightarrow> ci_nv i | None \<Rightarrow> False)"

record nv_witness =
  wit_failed_tries :: u32
  wit_in_lockout :: bool
  wit_counter :: u64
  wit_digest :: bytes

definition nv_witness_of :: "tpm_state \<Rightarrow> nv_witness" where
  "nv_witness_of s = \<lparr>wit_failed_tries = failed_tries (lockout_state s), wit_in_lockout = in_lockout (lockout_state s),
     wit_counter = ca_counter (cmd_audit s), wit_digest = ca_digest (cmd_audit s)\<rparr>"

definition elapsed :: "u64 \<Rightarrow> device \<Rightarrow> u64" where
  "elapsed ms d = (if powered d then ms else 0)"

definition disable_nv :: "tpm_state \<Rightarrow> tpm_state" where
  "disable_nv s = s\<lparr>nv_available := False, nv_write_failed := True, failure_mode := True, self_test_done := False,
     test_failure := Some (ascii ''nv write'')\<rparr>"

section \<open>One command\<close>

definition device_execute ::
  "env \<Rightarrow> aes_lib \<Rightarrow> command \<Rightarrow> bool \<Rightarrow> u64 \<Rightarrow> u8 \<Rightarrow> bytes \<Rightarrow> device \<Rightarrow> bytes \<times> device" where
  "device_execute E L run_cmd writable ms loc command d =
     (if \<not> powered d then (error_response rc_INITIALIZE, d)
      else
        let before = nv_witness_of (dev_state d);
            (rolled, s) = advance_time (elapsed ms d) ((dev_state d)\<lparr>hcrtm_sequence := None\<rparr>);
            (response, s) = run E L run_cmd loc command s;
            d = d\<lparr>dev_state := s\<rparr>;
            writes = ((case parse_header command of Inr h \<Rightarrow> writes_nv (hd_code h) | Inl _ \<Rightarrow> False)
                      \<or> nv_witness_of s \<noteq> before)
        in if writes \<or> rolled then
             (case persist E writable d of
                (True, d) \<Rightarrow> (response, d)
              | (False, d) \<Rightarrow>
                  (if writes then error_response rc_NV_UNAVAILABLE else response,
                   d\<lparr>dev_state := disable_nv (dev_state d)\<rparr>))
           else (response, d))"

section \<open>Power\<close>

text \<open>\<open>read\<close> is what the host reads of the state file when it is asked to.\<close>

definition reload_state :: "env \<Rightarrow> key_lib \<Rightarrow> drbg \<Rightarrow> bytes option \<Rightarrow> tpm_state \<Rightarrow> tpm_state" where
  "reload_state E K g read s =
     (if \<not> nv_write_failed s then s
      else let s = (case read of
                 Some data \<Rightarrow> (case load_state E K g data of
                     Inr anew \<Rightarrow> anew\<lparr>hierarchies := (hierarchies anew)\<lparr>firmware_code := firmware_code (hierarchies s)\<rparr>,
                                      test_digest := test_digest s\<rparr>
                   | Inl _ \<Rightarrow> s)
               | None \<Rightarrow> s)
           in if nv_write_failed s then s\<lparr>failure_mode := True, test_failure := Some (ascii ''nv write'')\<rparr> else s)"

definition power_on :: "env \<Rightarrow> key_lib \<Rightarrow> self_tests \<Rightarrow> drbg \<Rightarrow> bytes option \<Rightarrow> device \<Rightarrow> device" where
  "power_on E K T g read d =
     (let s = reload_state E K g read (dev_state d);
          s = s\<lparr>started := False\<rparr>;
          s = snd (on_init E s);
          s = s\<lparr>objects := objects_clear (objects s), session_slots := flush_loaded (session_slots s), physical_presence := False\<rparr>;
          s = (if \<not> nv_write_failed s then s\<lparr>failure_mode := False\<rparr> else s);
          s = s\<lparr>clock_of := (clock_of s)\<lparr>time := 0\<rparr>\<rparr>
      in d\<lparr>powered := True, dev_state := snd (run_self_tests T s)\<rparr>)"

definition power_off :: "env \<Rightarrow> bool \<Rightarrow> device \<Rightarrow> device" where
  "power_off E writable d =
     (let d = snd (persist E writable d); s = dev_state d
      in d\<lparr>powered := False, dev_state := s\<lparr>started := False, objects := objects_clear (objects s),
             session_slots := flush_loaded (session_slots s)\<rparr>\<rparr>)"

definition nv_on :: "device \<Rightarrow> device" where
  "nv_on d = d\<lparr>dev_state := (dev_state d)\<lparr>nv_available := True\<rparr>\<rparr>"

definition nv_off :: "device \<Rightarrow> device" where
  "nv_off d = d\<lparr>dev_state := (dev_state d)\<lparr>nv_available := False\<rparr>\<rparr>"

definition assert_presence :: "bool \<Rightarrow> device \<Rightarrow> device" where
  "assert_presence on d = d\<lparr>dev_state := (dev_state d)\<lparr>physical_presence := on\<rparr>\<rparr>"

definition cancel :: "bool \<Rightarrow> device \<Rightarrow> device" where
  "cancel on d = d\<lparr>cancelled := on\<rparr>"

definition reset_established :: "device \<Rightarrow> device" where
  "reset_established d = d\<lparr>established := False\<rparr>"

definition act_get_signaled :: "env \<Rightarrow> bool \<Rightarrow> u64 \<Rightarrow> u32 \<Rightarrow> device \<Rightarrow> bool \<times> device" where
  "act_get_signaled E writable ms n d =
     (if n \<noteq> 0 then (False, d)
      else let (rolled, s) = advance_time (elapsed ms d) (dev_state d);
               d = d\<lparr>dev_state := s\<rparr>
           in (signaled (act_of s), if rolled then snd (persist E writable d) else d))"

section \<open>The H-CRTM indications\<close>

definition hash_start :: "env \<Rightarrow> device \<Rightarrow> device" where
  "hash_start E d =
     d\<lparr>established := True, dev_state := (dev_state d)\<lparr>hcrtm_sequence :=
         Some (List.map_filter (\<lambda>a. case hasher_new E a of Inr h \<Rightarrow> Some h | Inl _ \<Rightarrow> None) (algorithms (pcrs (dev_state d))))\<rparr>\<rparr>"

definition hash_data :: "bytes \<Rightarrow> device \<Rightarrow> device" where
  "hash_data b d =
     d\<lparr>dev_state := (dev_state d)\<lparr>hcrtm_sequence := map_option (map (hasher_update b)) (hcrtm_sequence (dev_state d))\<rparr>\<rparr>"

text \<open>One bank of a sequence that ended before TPM2_Startup; whether anything was measured comes with it.\<close>

definition hcrtm_bank :: "env \<Rightarrow> u16 \<times> bytes \<Rightarrow> pcr_banks \<times> bool \<Rightarrow> pcr_banks \<times> bool" where
  "hcrtm_bank E ad pm =
     (case (ad, pm) of ((a, dg), (p, m)) \<Rightarrow>
       (case hash_size E a of
          Inl _ \<Rightarrow> (p, m)
        | Inr n \<Rightarrow>
            if n = 0 then (p, m)
            else (case pcr_set E a HCRTM_PCR (replicate (n - 1) 0 @ [4]) p of
                    (Inl _, p) \<Rightarrow> (p, m)
                  | (Inr _, p) \<Rightarrow> (snd (pcr_extend E HCRTM_PCR 4 [(a, dg)] p), True))))"

definition hash_end :: "env \<Rightarrow> device \<Rightarrow> device" where
  "hash_end E d =
     (let s = dev_state d in
      case hcrtm_sequence s of
        None \<Rightarrow> d
      | Some hs \<Rightarrow>
          (let s = s\<lparr>hcrtm_sequence := None\<rparr>;
               digests = map (\<lambda>h. (h_alg h, hasher_finish E h)) hs;
               before = update_counter (pcrs s)
           in if started s then
                (let s = s\<lparr>pcrs := drtm_reset E (pcrs s),
                           clock_of := (clock_of s)\<lparr>restart_count := restart_count (clock_of s) + 1\<rparr>\<rparr>;
                     p = foldl (\<lambda>p ad. snd (pcr_extend E DRTM_PCR 4 [ad] p)) (pcrs s) digests
                 in d\<lparr>dev_state := s\<lparr>pcrs := set_update_counter (before + (if no_increment DRTM_PCR then 0 else 1)) p\<rparr>\<rparr>)
              else
                (let (p, m) = foldl (\<lambda>pm ad. hcrtm_bank E ad pm) (pcrs s, hcrtm_before_startup s) digests
                 in d\<lparr>dev_state := s\<lparr>pcrs := set_update_counter before p, hcrtm_before_startup := m\<rparr>\<rparr>)))"

section \<open>Runs of the device\<close>

datatype device_op =
    Command bool u64 u8 bytes
  | Power_on "bytes option"
  | Power_off bool
  | Nv bool
  | Presence bool
  | Cancel bool
  | Hash_start
  | Hash_data bytes
  | Hash_end
  | Reset_established
  | Read_act bool u64 u32

fun device_step :: "env \<Rightarrow> key_lib \<Rightarrow> aes_lib \<Rightarrow> self_tests \<Rightarrow> drbg \<Rightarrow> command \<Rightarrow> device_op \<Rightarrow> device \<Rightarrow> device" where
  "device_step E K L T g c (Command w ms loc b) d = snd (device_execute E L c w ms loc b d)"
| "device_step E K L T g c (Power_on r) d = power_on E K T g r d"
| "device_step E K L T g c (Power_off w) d = power_off E w d"
| "device_step E K L T g c (Nv on) d = (if on then nv_on d else nv_off d)"
| "device_step E K L T g c (Presence on) d = assert_presence on d"
| "device_step E K L T g c (Cancel on) d = cancel on d"
| "device_step E K L T g c Hash_start d = hash_start E d"
| "device_step E K L T g c (Hash_data b) d = hash_data b d"
| "device_step E K L T g c Hash_end d = hash_end E d"
| "device_step E K L T g c Reset_established d = reset_established d"
| "device_step E K L T g c (Read_act w ms n) d = snd (act_get_signaled E w ms n d)"

text \<open>An observation the pipeline cannot touch changes in a command only where the command's own function
  changes it, or where the pipeline writes it outside of its own steps.\<close>

lemma keeps_run:
  assumes "blind f" and "\<And>q. keeps f (c q)" and "\<And>s. f (note_conditional_failure s) = f s" and "\<And>q s. f (nullify_shutdown q s) = f s"
  shows "f (snd (run E L c loc command s)) = f s"
proof -
  have cmd: "keeps f (\<lambda>s. case c q s of (Inl c, s) \<Rightarrow> (Inl c, if c = rc_FAILURE then note_conditional_failure s else s)
        | (Inr r, s) \<Rightarrow> (Inr r, s))" for q
    unfolding keeps_def
    by (auto split: prod.split sum.split simp: assms(3)) (metis keepsD [OF assms(2)] snd_conv)+
  have "keeps f (run_parsed E L c q)" for q
    unfolding run_parsed_def
    by (intro keeps_bind keeps_authorized keeps_modify)
       (auto split: prod.split intro!: keeps_bind keeps_modify cmd keeps_answer assms(1) simp: blindD [OF assms(1)])
  then have "f (snd (run_parsed E L c q (nullify_shutdown q s))) = f s" for q using assms(4) by (simp add: keeps_def)
  then have "f (snd (execute E L c loc command s)) = f s"
    by (simp add: execute_def split: sum.split)
  then show ?thesis by (auto simp: run_def split: prod.split sum.split)
qed

lemma advance_time_fields [simp]:
  "nv_write_failed (snd (advance_time ms s)) = nv_write_failed s" "hcrtm_sequence (snd (advance_time ms s)) = hcrtm_sequence s"
  "pcrs (snd (advance_time ms s)) = pcrs s" "shutdown_type (snd (advance_time ms s)) = shutdown_type s"
  by (simp_all add: advance_time_def Let_def split: prod.split)

section \<open>A failed write\<close>

lemma persist_frozen: "nv_write_failed (dev_state d) \<Longrightarrow> persist E w d = (False, d)"
  by (simp add: persist_def)

lemma write_failed_stays:
  assumes c: "\<And>q. keeps nv_write_failed (c q)" and failed: "nv_write_failed (dev_state d)" and "\<nexists>r. op = Power_on r"
  shows "nv_write_failed (dev_state (device_step E K L T g c op d)) \<and> state_file (device_step E K L T g c op d) = state_file d"
proof (cases op)
  case (Command w ms loc b)
  have run: "nv_write_failed (snd (run E L c loc b s)) = nv_write_failed s" for s
    by (rule keeps_run) (simp_all add: blind_def c note_conditional_failure_def nullify_shutdown_def)
  show ?thesis
  proof (cases "powered d")
    case True
    obtain rolled s where adv: "advance_time (elapsed ms d) ((dev_state d)\<lparr>hcrtm_sequence := None\<rparr>) = (rolled, s)" by fastforce
    have s: "nv_write_failed s" using advance_time_fields(1) [of "elapsed ms d" "(dev_state d)\<lparr>hcrtm_sequence := None\<rparr>"] adv failed by simp
    obtain out t where t: "run E L c loc b s = (out, t)" by fastforce
    have "nv_write_failed t" using run [of s] s t by simp
    then show ?thesis
      using True adv t Command by (simp add: device_execute_def Let_def persist_frozen disable_nv_def)
  qed (use Command failed in \<open>simp add: device_execute_def\<close>)
next
  case (Read_act w ms n)
  obtain rolled s where adv: "advance_time (elapsed ms d) (dev_state d) = (rolled, s)" by fastforce
  then have "nv_write_failed s" using advance_time_fields(1) [of "elapsed ms d" "dev_state d"] failed by simp
  then show ?thesis using Read_act failed adv by (simp add: act_get_signaled_def persist_frozen Let_def)
next
  case Hash_end
  then show ?thesis using failed by (auto simp: hash_end_def Let_def split: option.split prod.split)
qed (use assms in \<open>auto simp: power_off_def persist_frozen nv_on_def nv_off_def assert_presence_def cancel_def hash_start_def
      hash_data_def reset_established_def Let_def\<close>)

lemma write_failed_run:
  assumes "\<And>q. keeps nv_write_failed (c q)" and "nv_write_failed (dev_state d)" and "\<forall>op \<in> set ops. \<nexists>r. op = Power_on r"
  shows "nv_write_failed (dev_state (run_steps (device_step E K L T g c) ops d))
    \<and> state_file (run_steps (device_step E K L T g c) ops d) = state_file d"
  using assms(2,3)
proof (induction ops arbitrary: d)
  case (Cons op ops)
  have "nv_write_failed (dev_state (device_step E K L T g c op d)) \<and> state_file (device_step E K L T g c op d) = state_file d"
    by (rule write_failed_stays) (use assms(1) Cons.prems in auto)
  then show ?case using Cons.IH [of "device_step E K L T g c op d"] Cons.prems by simp
qed simp

lemma on_init_record:
  assumes "allocation (pcrs s) = pcr_allocation s"
  shows "on_init E s = (Inr (), s\<lparr>hcrtm_before_startup := False, hcrtm_sequence := None, pcr_allocation_pending := False,
    hierarchies := (hierarchies s)\<lparr>platform := platform (hierarchies s)\<lparr>h_enabled := True\<rparr>\<rparr>\<rparr>)"
  using assms by (simp add: on_init_def)

lemma self_tests_fields [simp]:
  "nv_write_failed (snd (run_self_tests T s)) = nv_write_failed s" "nv (snd (run_self_tests T s)) = nv s"
  "persistent (snd (run_self_tests T s)) = persistent s" "lockout_state (snd (run_self_tests T s)) = lockout_state s"
  "commits_of (snd (run_self_tests T s)) = commits_of s" "cmd_audit (snd (run_self_tests T s)) = cmd_audit s"
  "shutdown_type (snd (run_self_tests T s)) = shutdown_type s" "pcrs (snd (run_self_tests T s)) = pcrs s"
  "lockout_auth (snd (run_self_tests T s)) = lockout_auth s" "hierarchies (snd (run_self_tests T s)) = hierarchies s"
  "session_slots (snd (run_self_tests T s)) = session_slots s" "startup_locality (snd (run_self_tests T s)) = startup_locality s"
  "hcrtm_at_last_startup (snd (run_self_tests T s)) = hcrtm_at_last_startup s"
  "hcrtm_before_startup (snd (run_self_tests T s)) = hcrtm_before_startup s"
  "startup_method_unknown (snd (run_self_tests T s)) = startup_method_unknown s" "rng (snd (run_self_tests T s)) = rng s"
  by (simp_all add: run_self_tests_def note_test_failure_def split: option.split sum.split)

text \<open>What the record gives back, seen field by field.\<close>

definition same_record :: "env \<Rightarrow> tpm_state \<Rightarrow> tpm_state \<Rightarrow> bool" where
  "same_record E s t \<longleftrightarrow> nv t = kept_nv (nv s) \<and> persistent t = bt_map (\<lambda>_. kept_object E) (persistent s)
     \<and> lockout_state t = kept_lockout (lockout_state s) \<and> lockout_auth t = lockout_auth s
     \<and> owner (hierarchies t) = owner (hierarchies s) \<and> endorsement (hierarchies t) = endorsement (hierarchies s)
     \<and> commits_of t = kept_commits (commits_of s) \<and> pcrs t = pcrs s \<and> shutdown_type t = shutdown_type s
     \<and> session_slots t = kept_slots (session_slots s)"

lemma restored_record: "same_record E s (restored E m s)"
  by (simp add: same_record_def restored_def)

lemma power_on_record:
  assumes "record_ok E K s" and "nv_write_failed (dev_state d)" and "load_state E K g b = Inr (restored E m s)"
    and m: "\<not> nv_write_failed m"
  shows "\<not> nv_write_failed (dev_state (power_on E K T g (Some b) d)) \<and> same_record E s (dev_state (power_on E K T g (Some b) d))"
proof -
  have al: "allocation (pcrs s) = pcr_allocation s" using assms(1) by (simp add: record_ok_def pcrs_ok_def allocation_def)
  have "reload_state E K g (Some b) (dev_state d) = (restored E m s)\<lparr>hierarchies := (hierarchies (restored E m s))
      \<lparr>firmware_code := firmware_code (hierarchies (dev_state d))\<rparr>, test_digest := test_digest (dev_state d)\<rparr>"
    using assms by (simp add: reload_state_def restored_def Let_def)
  then show ?thesis
    using m by (simp add: power_on_def on_init_record al restored_def same_record_def Let_def kept_slots_def flush_loaded_def)
qed

lemma manufacture_writable: "manufacture E g = Inr m \<Longrightarrow> \<not> nv_write_failed m"
  by (auto simp: manufacture_def res_bind_eq_Inr split: sum.splits prod.splits)

lemma execute_unwritable: "state_file (snd (device_execute E L c False ms loc command d)) = state_file d"
  by (simp add: device_execute_def persist_def Let_def split: prod.split sum.split)

text \<open>C4: a write that failed is as though the command had not been received. From the command whose write
  failed on, whatever commands and indications follow, the state file keeps the record it had (no
  command function touches the flag of the failed write); and the next power-on that can read the file
  has the state of that record, every NV index, persistent object, failure count, authorization,
  commit value and session of it, and NV again.\<close>

theorem failed_write_is_undone:
  assumes "\<forall>q s. nv_write_failed (snd (c q s)) = nv_write_failed s"
    and "record_ok E K s" and "save E s = Inr b" and "state_file d = Some b" and "manufacture E g = Inr m"
    and "nv_write_failed (dev_state (snd (device_execute E L c False ms loc command d)))"
    and "\<forall>op \<in> set ops. \<nexists>r. op = Power_on r"
  shows "let e = run_steps (device_step E K L T g c) ops (snd (device_execute E L c False ms loc command d));
       t = dev_state (power_on E K T g (state_file e) e)
     in state_file e = Some b \<and> \<not> nv_write_failed t \<and> same_record E s t"
proof -
  let ?d = "snd (device_execute E L c False ms loc command d)"
  let ?e = "run_steps (device_step E K L T g c) ops ?d"
  have e: "nv_write_failed (dev_state ?e) \<and> state_file ?e = state_file ?d"
    by (rule write_failed_run) (use assms(1,6,7) in \<open>simp_all add: keeps_def\<close>)
  then have f: "state_file ?e = Some b" using assms(4) by (simp add: execute_unwritable)
  have "load_state E K g b = Inr (restored E m s)"
    using load_record [OF assms(2,5), of "[]"] save_enc [OF assms(2)] assms(3) by simp
  from power_on_record [OF assms(2) conjunct1 [OF e] this manufacture_writable [OF assms(5)], of T] f
  show ?thesis by (simp add: Let_def)
qed

section \<open>A shutdown taken back in memory only\<close>

lemma persist_state: "persist E w d = (ok, e) \<Longrightarrow> dev_state e = dev_state d"
  by (auto simp: persist_def split: if_splits sum.splits)

lemma unmarked_unwritten:
  assumes "parse_header command = Inr h" and "\<not> writes_nv (hd_code h)"
    and "nv_witness_of (dev_state (snd (device_execute E L c w ms loc command d))) = nv_witness_of (dev_state d)"
    and "\<not> fst (advance_time (elapsed ms d) ((dev_state d)\<lparr>hcrtm_sequence := None\<rparr>))"
  shows "state_file (snd (device_execute E L c w ms loc command d)) = state_file d"
  using assms by (auto simp: device_execute_def Let_def disable_nv_def nv_witness_of_def dest!: persist_state
      split: prod.splits bool.splits)

lemma resume_accepted:
  assumes "is_ready (commits_of s)" and "\<not> startup_method_unknown s" and "\<not> hcrtm_before_startup s" "\<not> hcrtm_at_last_startup s"
  shows "\<exists>t. on_startup_state E (startup_locality s) s = (Inr (), t) \<and> commits_of t = commits_of s
    \<and> saved (session_slots t) = saved (session_slots s)"
  using assms by (simp add: on_startup_state_def st_bind_def begin_operation_def flush_loaded_def Let_def)

text \<open>C24: the record of an orderly shutdown outlives the commands that take it back. The state of
  TPM2_Shutdown(STATE) has been written. A command the table does not mark as writing NV, which leaves the
  failed tries, the special lockout, and the audit counter and digest as they were, and at which the copy
  of the clock in NV is not due, is not followed by a write, whatever else its function does. When the process then
  dies, the next one (whose self tests pass) comes up from the record of the shutdown, TPM2_Startup(STATE)
  from the same locality is accepted where there were commit values and no H-CRTM sequence, and the commit
  values and the session tracking are those of before the command: a counter that TPM2_Commit or
  TPM2_EC_Ephemeral used is given out again, a saved session that was loaded loads again.\<close>

theorem resume_rolls_back_unmarked_commands:
  assumes "record_ok E K (dev_state d)" and "save E (dev_state d) = Inr b" and "state_file d = Some b"
    and "manufacture E g = Inr m" and "integrity T = Inr code" and "known_answers T = None"
    and "is_ready (commits_of (dev_state d))" and "\<not> hcrtm_at_last_startup (dev_state d)"
    and "parse_header command = Inr h" and "\<not> writes_nv (hd_code h)"
    and "nv_witness_of (dev_state (snd (device_execute E L c w ms loc command d))) = nv_witness_of (dev_state d)"
    and "\<not> fst (advance_time (elapsed ms d) ((dev_state d)\<lparr>hcrtm_sequence := None\<rparr>))"
  shows "\<exists>e t. device_new E K T g w' (state_file (snd (device_execute E L c w ms loc command d))) = Some e
     \<and> shutdown_type (dev_state (power_on E K T g' r e)) = shutdown_type (dev_state d)
     \<and> on_startup_state E (startup_locality (dev_state d)) (dev_state (power_on E K T g' r e)) = (Inr (), t)
     \<and> commits_of t = commits_of (dev_state d) \<and> saved (session_slots t) = saved (session_slots (dev_state d))"
proof -
  let ?s = "dev_state d" and ?R = "restored E m (dev_state d)"
  have kept: "state_file (snd (device_execute E L c w ms loc command d)) = Some b"
    using unmarked_unwritten [OF assms(9-12)] assms(3) by simp
  have load: "load_state E K g b = Inr ?R"
    using load_record [OF assms(1,4), of "[]"] save_enc [OF assms(1)] assms(2) by simp
  let ?u = "?R\<lparr>hierarchies := (hierarchies ?R)\<lparr>firmware_code := code\<rparr>, test_digest := code, self_test_done := True, test_failure := None\<rparr>"
  let ?e = "\<lparr>dev_state = ?u, powered = False, cancelled = False, established = False, state_file = Some b\<rparr>"
  have e: "device_new E K T g w' (Some b) = Some ?e" using load assms(5,6) by (simp add: device_new_def)
  have al: "allocation (pcrs ?s) = pcr_allocation ?s" using assms(1) by (simp add: record_ok_def pcrs_ok_def allocation_def)
  let ?t = "dev_state (power_on E K T g' r ?e)"
  have t: "shutdown_type ?t = shutdown_type ?s" "commits_of ?t = commits_of ?s" "saved (session_slots ?t) = saved (session_slots ?s)"
    "\<not> startup_method_unknown ?t" "\<not> hcrtm_before_startup ?t" "\<not> hcrtm_at_last_startup ?t" "startup_locality ?t = startup_locality ?s"
    using manufacture_writable [OF assms(4)] assms(7,8)
    by (simp_all add: power_on_def reload_state_def restored_def on_init_record al Let_def flush_loaded_def kept_slots_def kept_commits_def)
  have "is_ready (commits_of ?t)" using t(2) assms(7) by simp
  from resume_accepted [OF this t(4,5,6), of E] t show ?thesis using e kept by auto
qed

section \<open>The H-CRTM sequence\<close>

definition hcrtm_initial :: "env \<Rightarrow> u16 \<Rightarrow> bytes" where
  "hcrtm_initial E a = replicate (output_len E a - 1) 0 @ [4]"

definition hcrtm_value :: "env \<Rightarrow> pcr_banks \<Rightarrow> u16 \<Rightarrow> bytes \<Rightarrow> bytes" where
  "hcrtm_value E p a dg = (if has_pcr a HCRTM_PCR p then raw_digest E a (hcrtm_initial E a @ dg) else hcrtm_initial E a)"

lemma supported_sizes:
  assumes "env_ok E" and "is_supported E a"
  shows "hash_size E a = Inr (output_len E a)" "digest_size E a = Some (output_len E a)" "0 < output_len E a"
  using assms supported_output_len [OF assms]
  by (auto simp: hash_size_def supported_algorithm digest_size_def is_supported_def is_ok_iff hash_algorithm_def env_ok_def
      split: if_splits)

lemma reg_count_change [simp]: "reg (count_change i n p) b j = reg p b j"
  by (simp add: count_change_def reg_def)

lemma hcrtm_bank_effect:
  assumes E: "env_ok E" and wf: "pcr_wf E p" and a: "bt_contains (banks p) a" and dg: "length dg = output_len E a"
  shows "\<exists>q. hcrtm_bank E (a, dg) (p, m) = (q, True) \<and> pcr_wf E q \<and> allocated q = allocated p
    \<and> (\<forall>b j. reg q b j = (if b = a \<and> j = HCRTM_PCR then Some (hcrtm_value E p a dg) else reg p b j))"
proof -
  obtain bank where bank: "bt_get (banks p) a = Some bank" using a by (auto simp: bt_contains_def)
  then have bwf: "bank_wf E a bank" by (rule pcr_wf_bank [OF wf])
  then have sup: "is_supported E a" and len: "length bank = 24" by (simp_all add: bank_wf_def IMPLEMENTATION_PCR_def)
  note sizes = supported_sizes [OF E sup]
  let ?v = "hcrtm_initial E a"
  have v: "length ?v = output_len E a" using sizes(3) by (simp add: hcrtm_initial_def)
  let ?p = "count_change HCRTM_PCR 1 (put_register a HCRTM_PCR ?v p)"
  have set: "pcr_set E a HCRTM_PCR ?v p = (Inr (), ?p)"
    using sizes bank v by (simp add: pcr_set_def is_implemented_def HCRTM_PCR_def IMPLEMENTATION_PCR_def)
  have wf': "pcr_wf E ?p" using pcr_wf_set [OF wf, of a HCRTM_PCR ?v] set by simp
  have alloc: "allocated ?p = allocated p" by (simp add: count_change_def put_register_def split: option.split)
  have "reg p a HCRTM_PCR = Some (bank ! HCRTM_PCR)" using bank len by (simp add: reg_def HCRTM_PCR_def)
  note reg_put = reg_put_register [OF this]
  have "has_bank a ?p"
    using bank by (auto simp: has_bank_def bt_contains_def count_change_def put_register_def)
  then have "check_digests E ?p [(a, dg)] = Inr ()" using sizes dg by simp
  then obtain q c where q: "extend_loop E HCRTM_PCR [(a, dg)] [] ?p = (Inr c, q)" "allocated q = allocated ?p"
    "\<And>b j. reg q b j = (if j = HCRTM_PCR \<and> has_pcr b HCRTM_PCR ?p then map_option (extended E b [(a, dg)]) (reg ?p b j) else reg ?p b j)"
    by (rule extend_loop_effect [OF E wf', of "[(a, dg)]" HCRTM_PCR "[]"]) auto
  have ext: "pcr_extend E HCRTM_PCR 4 [(a, dg)] ?p = (Inr (), count_change HCRTM_PCR (of_nat (length c)) q)"
    using \<open>check_digests E ?p [(a, dg)] = Inr ()\<close> q(1)
    by (simp add: pcr_extend_def is_implemented_def HCRTM_PCR_def IMPLEMENTATION_PCR_def locality_allows_def attributes_def
        ALL_LOCALITIES_def)
  let ?q = "count_change HCRTM_PCR (of_nat (length c)) q"
  have has: "has_pcr b i ?p = has_pcr b i p" for b i using alloc by (simp add: has_pcr_def)
  have "extended E b [(a, dg)] u = (if b = a then raw_digest E a (u @ dg) else u)" for b u by (simp add: extended_def)
  moreover have "hcrtm_bank E (a, dg) (p, m) = (?q, True)"
    using sizes set ext by (simp add: hcrtm_bank_def hcrtm_initial_def)
  moreover have "pcr_wf E ?q" using pcr_wf_extend [OF E wf', of HCRTM_PCR 4 "[(a, dg)]"] ext by simp
  moreover have "allocated ?q = allocated p" using q(2) alloc by (simp add: count_change_def)
  moreover have "b \<noteq> a \<Longrightarrow> map_option (extended E b [(a, dg)]) x = x" for b x by (cases x) (simp_all add: extended_def)
  ultimately show ?thesis
    by (intro exI [of _ ?q]) (auto simp: q(3) has reg_put hcrtm_value_def)
qed

lemma hcrtm_fold_effect:
  assumes E: "env_ok E" and "pcr_wf E p" and "distinct (map fst ads)"
    and "\<forall>(a, dg) \<in> set ads. bt_contains (banks p) a \<and> length dg = output_len E a"
  shows "\<exists>q. foldl (\<lambda>pm ad. hcrtm_bank E ad pm) (p, m) ads = (q, m \<or> ads \<noteq> []) \<and> pcr_wf E q \<and> allocated q = allocated p
    \<and> (\<forall>b j. reg q b j = (case map_of ads b of
         Some dg \<Rightarrow> if j = HCRTM_PCR then Some (hcrtm_value E p b dg) else reg p b j | None \<Rightarrow> reg p b j))"
  using assms(2-)
proof (induction ads arbitrary: p m)
  case (Cons ad ads)
  obtain a dg where ad: "ad = (a, dg)" by (cases ad)
  obtain q where q: "hcrtm_bank E (a, dg) (p, m) = (q, True)" "pcr_wf E q" "allocated q = allocated p"
    "\<And>b j. reg q b j = (if b = a \<and> j = HCRTM_PCR then Some (hcrtm_value E p a dg) else reg p b j)"
    using hcrtm_bank_effect [OF E Cons.prems(1), of a dg m] Cons.prems(3) ad by auto
  have same: "bt_contains (banks q) b = bt_contains (banks p) b" for b
    using q(2,3) Cons.prems(1) by (metis pcr_wf_def)
  obtain q' where q': "foldl (\<lambda>pm ad. hcrtm_bank E ad pm) (q, True) ads = (q', True)" "pcr_wf E q'" "allocated q' = allocated q"
    "\<And>b j. reg q' b j = (case map_of ads b of
         Some dg \<Rightarrow> if j = HCRTM_PCR then Some (hcrtm_value E q b dg) else reg q b j | None \<Rightarrow> reg q b j)"
    using Cons.IH [OF q(2), of True] Cons.prems(2,3) same by auto
  have "map_of ads a = None" using Cons.prems(2) ad by (auto simp: map_of_eq_None_iff)
  moreover have "hcrtm_value E q b d = hcrtm_value E p b d" for b d using q(3) by (simp add: hcrtm_value_def has_pcr_def)
  ultimately show ?case using ad q q' by (intro exI [of _ q']) (auto split: option.splits)
qed (simp split: option.split)

lemma hash_data_all:
  "foldl (\<lambda>d b. hash_data b d) d bs
     = d\<lparr>dev_state := (dev_state d)\<lparr>hcrtm_sequence := map_option (map (hasher_update (concat bs))) (hcrtm_sequence (dev_state d))\<rparr>\<rparr>"
proof (induction bs arbitrary: d)
  case Nil
  have "hasher_update [] = id" by (simp add: fun_eq_iff hasher_update_def)
  then show ?case by (cases d; cases "dev_state d") (simp add: option.map_ident id_def)
next
  case (Cons b bs)
  have "hasher_update (concat bs) \<circ> hasher_update b = hasher_update (b @ concat bs)"
    by (simp add: fun_eq_iff hasher_update_def)
  then show ?case by (simp add: Cons.IH) (simp add: hash_data_def option.map_comp comp_def)
qed

text \<open>The hashers of a sequence: one for each bank, in the order of the banks.\<close>

lemma sequence_hashers:
  assumes "pcr_wf E p"
  shows "List.map_filter (\<lambda>a. case hasher_new E a of Inr h \<Rightarrow> Some h | Inl _ \<Rightarrow> None) (algorithms p)
    = map (\<lambda>a. \<lparr>h_alg = a, h_data = []\<rparr>) (algorithms p)"
proof -
  have "is_supported E a" if "a \<in> set (algorithms p)" for a
  proof -
    have "bt_contains (banks p) a" using that by (simp add: algorithms_def bt_contains_iff)
    then obtain bank where "bt_get (banks p) a = Some bank" by (auto simp: bt_contains_def)
    then show ?thesis using pcr_wf_bank [OF assms] by (auto simp: bank_wf_def)
  qed
  then have "\<forall>a \<in> set (algorithms p). (case hasher_new E a of Inr h \<Rightarrow> Some h | Inl _ \<Rightarrow> None) = Some \<lparr>h_alg = a, h_data = []\<rparr>"
    by (simp add: hasher_new_def supported_algorithm)
  then show ?thesis by (induction "algorithms p") (auto simp: List.map_filter_def)
qed

text \<open>The measurement of the H-CRTM sequence. Before TPM2_Startup, a sequence sets PCR[0] of every
  bank to the digest-size value of 4 and extends it, where it is allocated, with the hash of all
  octets sent, whatever chunks they came in; no other register and not the update counter changes,
  and the startup that follows is told. A command that arrives in between abandons the sequence: what
  follows of it measures nothing.\<close>

theorem hcrtm_sequence_exact:
  assumes "env_ok E" and "pcr_wf E (pcrs (dev_state d))" and "\<not> started (dev_state d)"
    and "\<forall>q s. hcrtm_sequence (snd (c q s)) = hcrtm_sequence s" and "powered d"
  shows "(let e = hash_end E (foldl (\<lambda>d b. hash_data b d) (hash_start E d) bs); p = pcrs (dev_state d); q = pcrs (dev_state e) in
      (\<forall>a j. reg q a j = (if j = HCRTM_PCR \<and> has_bank a p then Some (hcrtm_value E p a (raw_digest E a (concat bs))) else reg p a j))
      \<and> update_counter q = update_counter p
      \<and> hcrtm_before_startup (dev_state e) = (hcrtm_before_startup (dev_state d) \<or> algorithms p \<noteq> []))
    \<and> (let e = snd (device_execute E L c w ms loc command d) in hash_end E (foldl (\<lambda>d b. hash_data b d) e bs) = e)"
proof
  let ?p = "pcrs (dev_state d)" and ?m = "hcrtm_before_startup (dev_state d)"
  let ?ads = "map (\<lambda>a. (a, raw_digest E a (concat bs))) (algorithms ?p)"
  have dist: "distinct (map fst ?ads)"
    using bt_wf_distinct [of "banks ?p"] assms(2) by (simp add: pcr_wf_def algorithms_def bt_keys_def comp_def)
  have len: "\<forall>(a, dg) \<in> set ?ads. bt_contains (banks ?p) a \<and> length dg = output_len E a"
    using assms(1) by (auto simp: algorithms_def bt_contains_iff env_ok_length)
  obtain q where q: "foldl (\<lambda>pm ad. hcrtm_bank E ad pm) (?p, ?m) ?ads = (q, ?m \<or> ?ads \<noteq> [])"
    "\<And>b j. reg q b j = (case map_of ?ads b of Some dg \<Rightarrow> if j = HCRTM_PCR then Some (hcrtm_value E ?p b dg) else reg ?p b j | None \<Rightarrow> reg ?p b j)"
    using hcrtm_fold_effect [OF assms(1,2) dist len, of ?m] by blast
  have of: "map_of ?ads b = (if has_bank b ?p then Some (raw_digest E b (concat bs)) else None)" for b
    by (simp add: map_of_map_keys has_bank_def algorithms_def bt_contains_iff map_of_map_restrict restrict_map_def)
  let ?e = "hash_end E (foldl (\<lambda>d b. hash_data b d) (hash_start E d) bs)"
  have e: "dev_state ?e = (dev_state d)\<lparr>hcrtm_sequence := None, pcrs := set_update_counter (update_counter ?p) q,
      hcrtm_before_startup := (?m \<or> ?ads \<noteq> [])\<rparr>"
    using assms(3) q(1)
    by (simp add: hash_data_all hash_start_def sequence_hashers [OF assms(2)] hash_end_def Let_def comp_def hasher_update_def hasher_finish_def)
  have "reg (set_update_counter n q) a j = reg q a j" for n a j by (simp add: set_update_counter_def reg_def)
  then show "let e = ?e; p = ?p; q = pcrs (dev_state e) in
      (\<forall>a j. reg q a j = (if j = HCRTM_PCR \<and> has_bank a p then Some (hcrtm_value E p a (raw_digest E a (concat bs))) else reg p a j))
      \<and> update_counter q = update_counter p \<and> hcrtm_before_startup (dev_state e) = (?m \<or> algorithms p \<noteq> [])"
    by (auto simp: Let_def e q(2) of set_update_counter_def)
next
  have run: "hcrtm_sequence (snd (run E L c loc command s)) = hcrtm_sequence s" for s
    by (rule keeps_run) (use assms(4) in \<open>simp_all add: blind_def keeps_def note_conditional_failure_def nullify_shutdown_def\<close>)
  let ?e = "snd (device_execute E L c w ms loc command d)"
  obtain rolled s where adv: "advance_time (elapsed ms d) ((dev_state d)\<lparr>hcrtm_sequence := None\<rparr>) = (rolled, s)" by fastforce
  then have s: "hcrtm_sequence s = None"
    using advance_time_fields(2) [of "elapsed ms d" "(dev_state d)\<lparr>hcrtm_sequence := None\<rparr>"] by simp
  obtain out t where t: "run E L c loc command s = (out, t)" by fastforce
  have "hcrtm_sequence t = None" using run [of s] s t by simp
  then have none: "hcrtm_sequence (dev_state ?e) = None"
    using assms(5) adv t by (auto simp: device_execute_def Let_def disable_nv_def dest: persist_state split: prod.split bool.split)
  have "(dev_state ?e)\<lparr>hcrtm_sequence := None\<rparr> = dev_state ?e" using none by (cases "dev_state ?e") simp
  then show "let e = ?e in hash_end E (foldl (\<lambda>d b. hash_data b d) e bs) = e"
    using none by (simp add: Let_def hash_data_all hash_end_def)
qed

section \<open>Witnesses\<close>

text \<open>A suspended TPM with an ephemeral key outstanding, and TPM2_EC_Ephemeral spending its next counter.\<close>

definition demo_suspended :: tpm_state where
  "demo_suspended = demo_saved\<lparr>commits_of := \<lparr>c_random = replicate 64 1, c_count = 5, c_used = replicate 16 0\<rparr>\<rparr>"

definition suspended_device :: "bytes \<Rightarrow> device" where
  "suspended_device b = \<lparr>dev_state = demo_suspended, powered = True, cancelled = False, established = False, state_file = Some b\<rparr>"

definition demo_drbg :: drbg where
  "demo_drbg = \<lparr>d_key = [1], d_value = [2], reseed_counter = 1\<rparr>"

definition demo_tests :: self_tests where
  "demo_tests = \<lparr>known_answers = None, integrity = Inr [1]\<rparr>"

definition ephemeral_buffer :: bytes where
  "ephemeral_buffer = [0x80, 0x01, 0, 0, 0, 12, 0, 0, 0x01, 0x8E, 0, 3]"

definition ephemeral_request :: request where
  "ephemeral_request = \<lparr>rq_info = plain_command cc_EC_Ephemeral 0 0, rq_tag = st_NO_SESSIONS, rq_code = cc_EC_Ephemeral,
     rq_handles = [], rq_sessions = [], rq_parameters = [0, 3], rq_locality = 0\<rparr>"

definition ephemeral_command :: command where
  "ephemeral_command q s = (Inr \<lparr>rs_handle = None, rs_parameters = [0, 0], rs_read = 2\<rparr>,
     s\<lparr>commits_of := \<lparr>c_random = replicate 64 1, c_count = 6, c_used = 32 # replicate 15 0\<rparr>\<rparr>)"

lemma parse_ephemeral: "parse ephemeral_buffer 0 = Inr ephemeral_request"
  by code_simp

lemma demo_suspended_ok: "record_ok (demo_env False) K demo_suspended"
proof -
  have "commits_ok \<lparr>c_random = replicate 64 1, c_count = 5, c_used = replicate 16 0\<rparr>"
    by (simp add: commits_ok_def COMMIT_NONCE_BYTES_def MAX_COMMIT_SEQUENCES_def)
  then show ?thesis using demo_record_ok [of K]
    by (simp add: record_ok_def demo_suspended_def scalars_ok_def pcrs_ok_def audit_ok_def)
qed

lemma demo_manufactured:
  obtains m where "manufacture (demo_env False) demo_drbg = Inr m"
  using manufacture_ok [OF env_ok_demo [of False], of demo_drbg]
  by (auto simp: demo_drbg_def fresh_def RESEED_INTERVAL_def is_ok_def split: sum.splits)

lemma demo_suspended_saved:
  obtains b where "save (demo_env False) demo_suspended = Inr b"
  using save_enc [OF demo_suspended_ok [of demo_lib]] by blast

theorem failed_write_is_undone_witness:
  "\<exists>b. let d = snd (device_execute (demo_env False) demo_aes (\<lambda>q s. (Inl rc_VALUE, s)) False 5 0
         [0x80, 0x01, 0, 0, 0, 10, 0, 0, 0x01, 0x26] (suspended_device b));
       e = run_steps (device_step (demo_env False) demo_lib demo_aes demo_tests demo_drbg (\<lambda>q s. (Inl rc_VALUE, s)))
         [Hash_start, Nv True, Power_off True] d
     in nv_write_failed (dev_state d) \<and> state_file e = Some b
      \<and> same_record (demo_env False) demo_suspended (dev_state (power_on (demo_env False) demo_lib demo_tests demo_drbg (state_file e) e))"
proof -
  let ?E = "demo_env False" and ?c = "\<lambda>q s. (Inl rc_VALUE, s)" and ?clear = "[0x80, 0x01, 0, 0, 0, 10, 0, 0, 0x01, 0x26] :: bytes"
  obtain b where b: "save ?E demo_suspended = Inr b" by (rule demo_suspended_saved)
  obtain m where m: "manufacture ?E demo_drbg = Inr m" by (rule demo_manufactured)
  have h: "parse_header ?clear = Inr \<lparr>hd_tag = st_NO_SESSIONS, hd_size = 10, hd_code = cc_Clear\<rparr>" by code_simp
  have nv: "writes_nv cc_Clear" by code_simp
  have "persist ?E False d = (False, d)" for d by (simp add: persist_def split: sum.split)
  then have failed: "nv_write_failed (dev_state (snd (device_execute ?E demo_aes ?c False 5 0 ?clear (suspended_device b))))"
    using h nv by (simp add: device_execute_def suspended_device_def Let_def disable_nv_def split: prod.split)
  have held: "state_file (suspended_device b) = Some b" by (simp add: suspended_device_def)
  have quiet: "\<forall>q s. nv_write_failed (snd (?c q s)) = nv_write_failed s" by simp
  have ops: "\<forall>op \<in> set [Hash_start, Nv True, Power_off True]. \<nexists>r. op = Power_on r" by simp
  show ?thesis
    using failed_write_is_undone [OF quiet demo_suspended_ok b held m failed ops, of demo_lib demo_tests] failed
    unfolding Let_def by blast
qed

lemma ephemeral_runs:
  "dev_state (snd (device_execute (demo_env False) demo_aes ephemeral_command w 0 0 ephemeral_buffer (suspended_device b)))
     = demo_suspended\<lparr>shutdown_type := su_NONE, startup_clear := attr_without (startup_clear demo_suspended) sc_ORDERLY,
         command_audit_suppressed := False, commits_of := \<lparr>c_random = replicate 64 1, c_count = 6, c_used = 32 # replicate 15 0\<rparr>\<rparr>"
proof -
  let ?t = "demo_suspended\<lparr>shutdown_type := su_NONE, startup_clear := attr_without (startup_clear demo_suspended) sc_ORDERLY\<rparr>"
  let ?u = "?t\<lparr>command_audit_suppressed := False, commits_of := \<lparr>c_random = replicate 64 1, c_count = 6, c_used = 32 # replicate 15 0\<rparr>\<rparr>"
  have takes: "\<not> takes_no_parameters cc_EC_Ephemeral" by code_simp
  have checks: "check_failure_mode demo_suspended ephemeral_buffer = Inr ()" "check_ready demo_suspended ephemeral_request = Inr ()"
    "nullify_shutdown ephemeral_request demo_suspended = ?t" "screen_request E ?t ephemeral_request = Inr []" for E
    by (simp_all add: check_failure_mode_def check_ready_def demo_suspended_def demo_saved_def demo_tpm_def ephemeral_request_def
        nullify_shutdown_def screen_request_def check_presence_def check_read_only_def check_session_handles_def
        check_session_attributes_def takes)
  have auth: "authorized_request E demo_aes ephemeral_request ?t = (Inr ([], [], ephemeral_request), ?t)" for E
    unfolding authorized_request_def checks(4)
    by (simp add: ephemeral_request_def plain_command_def command_info_new_def st_bind_def
        check_audit_session_def audit_session_index_def position_def decrypt_parameters_def session_with_def)
  let ?r = "\<lparr>rs_handle = None, rs_parameters = [0, 0], rs_read = 2\<rparr>"
  have body: "response_body ephemeral_request ?r [0, 0] [] = Inr [0, 0]" by code_simp
  have out: "response_buffer ephemeral_request [0, 0] = Inr [0x80, 0x01, 0, 0, 0, 12, 0, 0, 0, 0, 0, 0]" by code_simp
  have same: "?u\<lparr>cmd_audit := (cmd_audit demo_suspended)\<lparr>exclusive_session := rh_UNASSIGNED\<rparr>\<rparr> = ?u"
    "\<not> command_audit_applies ?u cc_EC_Ephemeral" "\<not> ci_flushed (rq_info ephemeral_request)" "rq_sessions ephemeral_request = []"
    "rq_tag ephemeral_request = st_NO_SESSIONS" "rq_code ephemeral_request = cc_EC_Ephemeral" "rq_parameters ephemeral_request = [0, 3]"
    by (simp_all add: demo_suspended_def demo_saved_def demo_tpm_def command_audit_default_def command_audit_applies_def
        ephemeral_request_def plain_command_def command_info_new_def)
  have moved: "move_exclusive ephemeral_request ?u = ?u"
    using same(1) by (simp add: move_exclusive_def audit_session_index_def position_def same)
  have "answer E demo_aes ephemeral_request [0, 3] [] [] ?r ?u = (Inr [0x80, 0x01, 0, 0, 0, 12, 0, 0, 0, 0, 0, 0], ?u)" for E
    unfolding answer_def update_audit_def audit_command_def
    by (simp add: st_bind_def end_of_parameters_def encrypt_parameters_def session_with_def position_def response_contexts_def
        audit_session_index_def same moved body out close_sessions_def flush_if_needed_def del: st_bind_apply)
  then have run: "run E demo_aes ephemeral_command 0 ephemeral_buffer demo_suspended
      = ([0x80, 0x01, 0, 0, 0, 12, 0, 0, 0, 0, 0, 0], ?u)" for E
    by (simp add: run_def execute_def parse_ephemeral checks run_parsed_def auth st_bind_def same ephemeral_command_def
        del: st_bind_apply)
  have unmarked: "(case parse_header ephemeral_buffer of Inr h \<Rightarrow> writes_nv (hd_code h) | Inl _ \<Rightarrow> False) = False" by code_simp
  have wit: "nv_witness_of ?u = nv_witness_of demo_suspended" by (simp add: nv_witness_of_def)
  have "demo_suspended\<lparr>hcrtm_sequence := None\<rparr> = demo_suspended" by (simp add: demo_suspended_def demo_saved_def demo_tpm_def)
  then have "advance_time 0 (demo_suspended\<lparr>hcrtm_sequence := None\<rparr>) = (False, demo_suspended)" by (simp add: advance_time_def)
  then show ?thesis
    unfolding device_execute_def unmarked by (simp add: suspended_device_def elapsed_def run wit Let_def)
qed

theorem resume_rolls_back_unmarked_commands_witness:
  "\<exists>b e t. let d = snd (device_execute (demo_env False) demo_aes ephemeral_command True 0 0 ephemeral_buffer (suspended_device b))
     in c_count (commits_of (dev_state d)) = 6 \<and> shutdown_type (dev_state d) = su_NONE
      \<and> device_new (demo_env False) demo_lib demo_tests demo_drbg True (state_file d) = Some e
      \<and> shutdown_type (dev_state (power_on (demo_env False) demo_lib demo_tests demo_drbg None e)) = su_STATE
      \<and> on_startup_state (demo_env False) 0 (dev_state (power_on (demo_env False) demo_lib demo_tests demo_drbg None e)) = (Inr (), t)
      \<and> c_count (commits_of t) = 5"
proof -
  let ?E = "demo_env False"
  obtain b where b: "save ?E demo_suspended = Inr b" by (rule demo_suspended_saved)
  obtain m where m: "manufacture ?E demo_drbg = Inr m" by (rule demo_manufactured)
  let ?d = "suspended_device b"
  have d: "dev_state ?d = demo_suspended" "state_file ?d = Some b" by (simp_all add: suspended_device_def)
  have s: "is_ready (commits_of demo_suspended)" "\<not> hcrtm_at_last_startup demo_suspended" "startup_locality demo_suspended = 0"
    "shutdown_type demo_suspended = su_STATE" "c_count (commits_of demo_suspended) = 5"
    by (simp_all add: demo_suspended_def demo_saved_def demo_tpm_def is_ready_def)
  have t: "integrity demo_tests = Inr [1]" "known_answers demo_tests = None" by (simp_all add: demo_tests_def)
  have h: "parse_header ephemeral_buffer = Inr \<lparr>hd_tag = st_NO_SESSIONS, hd_size = 12, hd_code = cc_EC_Ephemeral\<rparr>" by code_simp
  have plain: "\<not> writes_nv (hd_code \<lparr>hd_tag = st_NO_SESSIONS, hd_size = 12, hd_code = cc_EC_Ephemeral\<rparr>)" by code_simp
  note after = ephemeral_runs [of True b]
  have wit: "nv_witness_of (dev_state (snd (device_execute ?E demo_aes ephemeral_command True 0 0 ephemeral_buffer ?d))) = nv_witness_of (dev_state ?d)"
    unfolding after d by (simp add: nv_witness_of_def)
  have tick: "\<not> fst (advance_time (elapsed 0 ?d) ((dev_state ?d)\<lparr>hcrtm_sequence := None\<rparr>))"
    by (simp add: advance_time_def elapsed_def)
  show ?thesis
    using resume_rolls_back_unmarked_commands [of ?E demo_lib ?d b demo_drbg m demo_tests "[1]" ephemeral_buffer _ demo_aes ephemeral_command True 0 0 True demo_drbg None,
        unfolded d, OF demo_suspended_ok b refl m t s(1,2) h plain wit [unfolded d] tick [unfolded d]]
    unfolding Let_def s by (intro exI [of _ b]) (auto simp: after s)
qed

theorem hcrtm_sequence_exact_witness:
  "\<exists>d. \<not> started (dev_state d) \<and> hcrtm_before_startup (dev_state d) = False
     \<and> hcrtm_before_startup (dev_state (hash_end (demo_env False) (foldl (\<lambda>d b. hash_data b d) (hash_start (demo_env False) d) [[1], [2, 3]])))"
proof -
  let ?E = "demo_env False"
  let ?d = "(suspended_device [])\<lparr>dev_state := demo_suspended\<lparr>started := False\<rparr>\<rparr>"
  have p: "pcrs demo_suspended = demo_banks" by (simp add: demo_suspended_def demo_saved_def demo_tpm_def)
  have banks: "algorithms demo_banks \<noteq> []" by code_simp
  have wf: "pcr_wf ?E (pcrs (dev_state ?d))" using demo_banks_wf by (simp add: p)
  have un: "\<not> started (dev_state ?d)" and on: "powered ?d" by (simp_all add: suspended_device_def)
  have quiet: "\<forall>q s. hcrtm_sequence (snd ((\<lambda>q s. (Inl rc_VALUE, s)) q s :: response tpm_result \<times> tpm_state)) = hcrtm_sequence s" by simp
  show ?thesis
    using hcrtm_sequence_exact [OF env_ok_demo wf un quiet on, of "[[1], [2, 3]]"] banks
    by (intro exI [of _ ?d]) (simp add: Let_def p demo_suspended_def demo_saved_def demo_tpm_def)
qed

end
