(* ===== verification/Bn.thy ===== *)
theory Bn
  imports Rand Numbers
begin

text \<open>
  The big numbers of \<open>src/tpm/crypto/bn.rs\<close>. A BigNum is the integer it holds; what the wrapped library
  computes of integers is the parameter \<open>bn_lib\<close>, what the wrappers rely on of it is \<open>bn_ok\<close>. A failed
  allocation, the only other error of the wrapped functions, is left out.
\<close>

type_synonym bignum = int

abbreviation (input) rc_SIGNATURE :: u32 where "rc_SIGNATURE \<equiv> 0x09B"
abbreviation (input) rc_NO_RESULT :: u32 where "rc_NO_RESULT \<equiv> 0x154"

record bn_lib =
  BN_bin2bn :: "bytes \<Rightarrow> int"
  BN_bn2bin_padded :: "nat \<Rightarrow> int \<Rightarrow> bytes"
  BN_num_bits :: "int \<Rightarrow> nat"
  BN_num_bytes :: "int \<Rightarrow> nat"
  BN_add :: "int \<Rightarrow> int \<Rightarrow> int"
  BN_sub :: "int \<Rightarrow> int \<Rightarrow> int"
  BN_mul :: "int \<Rightarrow> int \<Rightarrow> int"
  BN_div :: "int \<Rightarrow> int \<Rightarrow> int \<times> int"
  BN_nnmod :: "int \<Rightarrow> int \<Rightarrow> int"
  BN_mod_exp :: "int \<Rightarrow> int \<Rightarrow> int \<Rightarrow> int"
  BN_mod_inverse :: "int \<Rightarrow> int \<Rightarrow> int option"
  BN_gcd :: "int \<Rightarrow> int \<Rightarrow> int"
  BN_rshift :: "int \<Rightarrow> nat \<Rightarrow> int"
  BN_primality_test :: "int \<Rightarrow> nat \<Rightarrow> bool"

text \<open>What the library documents of its functions, on the arguments the code gives them.\<close>

definition bn_ok :: "bn_lib \<Rightarrow> bool" where
  "bn_ok B \<longleftrightarrow>
     (\<forall>b. BN_bin2bn B b = int (octets_value b))
     \<and> (\<forall>n v. 0 \<le> v \<and> v < 256 ^ n \<longrightarrow> BN_bn2bin_padded B n v = octets_of n (nat v))
     \<and> (\<forall>v n. 0 \<le> v \<longrightarrow> (BN_num_bits B v \<le> n) = (v < 2 ^ n))
     \<and> (\<forall>v. BN_num_bytes B v = (BN_num_bits B v + 7) div 8)
     \<and> (\<forall>a b. BN_add B a b = a + b \<and> BN_sub B a b = a - b \<and> BN_mul B a b = a * b)
     \<and> (\<forall>a d. 0 \<le> a \<and> 0 < d \<longrightarrow> BN_div B a d = (a div d, a mod d))
     \<and> (\<forall>a m. 0 < m \<longrightarrow> BN_nnmod B a m = a mod m)
     \<and> (\<forall>a e m. 0 \<le> a \<and> 0 \<le> e \<and> 0 < m \<longrightarrow> BN_mod_exp B a e m = a ^ nat e mod m)
     \<and> (\<forall>a m. 0 \<le> a \<and> 1 < m \<longrightarrow>
          (case BN_mod_inverse B a m of Some x \<Rightarrow> 0 \<le> x \<and> x < m \<and> x * a mod m = 1 | None \<Rightarrow> \<not> coprime a m))
     \<and> (\<forall>a b. BN_gcd B a b = gcd a b)
     \<and> (\<forall>a n. 0 \<le> a \<longrightarrow> BN_rshift B a n = a div 2 ^ n)"

section \<open>The wrappers\<close>

definition bn_from_bytes :: "bn_lib \<Rightarrow> bytes \<Rightarrow> bignum" where
  "bn_from_bytes B b = BN_bin2bn B b"

definition bn_from_u64 :: "u64 \<Rightarrow> bignum" where
  "bn_from_u64 v = uint v"

definition bn_to_bytes_padded :: "bn_lib \<Rightarrow> nat \<Rightarrow> bignum \<Rightarrow> bytes tpm_result" where
  "bn_to_bytes_padded B len v =
     (if len < BN_num_bytes B v then Inl rc_SIZE
      else if len = 0 then Inr []
      else Inr (BN_bn2bin_padded B len v))"

definition bn_to_bytes :: "bn_lib \<Rightarrow> bignum \<Rightarrow> bytes tpm_result" where
  "bn_to_bytes B v = bn_to_bytes_padded B (BN_num_bytes B v) v"

definition bn_div_rem :: "bn_lib \<Rightarrow> bignum \<Rightarrow> bignum \<Rightarrow> (bignum \<times> bignum) tpm_result" where
  "bn_div_rem B a d = (if d = 0 then Inl rc_VALUE else Inr (BN_div B a d))"

definition bn_mod_inverse :: "bn_lib \<Rightarrow> bignum \<Rightarrow> bignum \<Rightarrow> bignum tpm_result" where
  "bn_mod_inverse B a m = ok_or (BN_mod_inverse B a m) rc_NO_RESULT"

section \<open>What they compute\<close>

lemma bn_arith:
  assumes "bn_ok B"
  shows "BN_add B a b = a + b" "BN_sub B a b = a - b" "BN_mul B a b = a * b" "BN_gcd B a b = gcd a b"
    "bn_from_bytes B bs = int (octets_value bs)"
  using assms by (simp_all add: bn_ok_def bn_from_bytes_def)

lemma bn_nonneg_arith:
  assumes "bn_ok B"
  shows "0 \<le> a \<Longrightarrow> 0 < d \<Longrightarrow> BN_div B a d = (a div d, a mod d)"
    "0 < m \<Longrightarrow> BN_nnmod B a m = a mod m"
    "0 \<le> a \<Longrightarrow> 0 \<le> e \<Longrightarrow> 0 < m \<Longrightarrow> BN_mod_exp B a e m = a ^ nat e mod m"
    "0 \<le> a \<Longrightarrow> BN_rshift B a n = a div 2 ^ n"
  using assms by (simp_all add: bn_ok_def)

lemma bn_inverse:
  assumes "bn_ok B" and "0 \<le> a" and "1 < m" and "bn_mod_inverse B a m = Inr x"
  shows "0 \<le> x \<and> x < m \<and> x * a mod m = 1"
proof -
  have "case BN_mod_inverse B a m of Some x \<Rightarrow> 0 \<le> x \<and> x < m \<and> x * a mod m = 1 | None \<Rightarrow> \<not> coprime a m"
    using assms(1-3) by (simp add: bn_ok_def)
  then show ?thesis using assms(4) by (simp add: bn_mod_inverse_def split: option.splits)
qed

lemma bn_inverse_total:
  assumes "bn_ok B" and "0 \<le> a" and "1 < m" and "coprime a m"
  shows "\<exists>x. bn_mod_inverse B a m = Inr x"
proof -
  have "case BN_mod_inverse B a m of Some x \<Rightarrow> 0 \<le> x \<and> x < m \<and> x * a mod m = 1 | None \<Rightarrow> \<not> coprime a m"
    using assms(1-3) by (simp add: bn_ok_def)
  then show ?thesis using assms(4) by (simp add: bn_mod_inverse_def split: option.splits)
qed

lemma bn_num_bits_le: "bn_ok B \<Longrightarrow> 0 \<le> v \<Longrightarrow> (BN_num_bits B v \<le> n) = (v < 2 ^ n)"
  by (simp add: bn_ok_def)

lemma bn_num_bytes_le:
  assumes "bn_ok B" and "0 \<le> v" shows "(BN_num_bytes B v \<le> n) = (v < 256 ^ n)"
proof -
  have "(BN_num_bytes B v \<le> n) = (BN_num_bits B v \<le> 8 * n)" using assms(1) by (auto simp: bn_ok_def)
  then show ?thesis using bn_num_bits_le [OF assms] by (simp add: power_mult)
qed

text \<open>Writing at a length: the number fits, or it is refused.\<close>

lemma bn_to_bytes_padded_exact:
  assumes "bn_ok B" and "0 \<le> v"
  shows "bn_to_bytes_padded B n v = (if v < 256 ^ n then Inr (octets_of n (nat v)) else Inl rc_SIZE)"
  using assms bn_num_bytes_le [OF assms, of n]
  by (auto simp: bn_to_bytes_padded_def bn_ok_def octets_of_def)

lemma bn_read_written:
  assumes "bn_ok B" and "0 \<le> v" and "bn_to_bytes_padded B n v = Inr b"
  shows "bn_from_bytes B b = v" "length b = n"
proof -
  have b: "v < 256 ^ n" "b = octets_of n (nat v)"
    using assms(3) by (auto simp: bn_to_bytes_padded_exact [OF assms(1,2)] split: if_splits)
  then have "nat v < 256 ^ n" using assms(2) by (simp add: nat_less_iff)
  then show "bn_from_bytes B b = v" "length b = n"
    using assms(2) by (simp_all add: bn_arith [OF assms(1)] b(2) octets_value_octets_of)
qed

lemma bn_write_read: "bn_ok B \<Longrightarrow> bn_to_bytes_padded B (length b) (bn_from_bytes B b) = Inr b"
  using octets_value_bound [of b] by (simp add: bn_to_bytes_padded_exact bn_arith octets_of_octets_value)

section \<open>A library to compute with\<close>

fun bit_count :: "nat \<Rightarrow> nat" where
  "bit_count n = (if n = 0 then 0 else Suc (bit_count (n div 2)))"

declare bit_count.simps [simp del]

lemma bit_count_le: "(bit_count v \<le> n) = (v < 2 ^ n)"
proof (induction v arbitrary: n rule: bit_count.induct)
  case (1 v)
  show ?case
  proof (cases "v = 0 \<or> n = 0")
    case True
    then show ?thesis by (auto simp: bit_count.simps [of v])
  next
    case False
    then obtain m where n: "n = Suc m" by (cases n) auto
    have "(v div 2 < 2 ^ m) = (v < 2 ^ n)" unfolding n by auto
    then show ?thesis using 1 [of m] False by (simp add: bit_count.simps [of v] n)
  qed
qed

definition demo_bn :: bn_lib where
  "demo_bn = \<lparr>BN_bin2bn = \<lambda>b. int (octets_value b), BN_bn2bin_padded = \<lambda>n v. octets_of n (nat v),
     BN_num_bits = \<lambda>v. bit_count (nat v), BN_num_bytes = \<lambda>v. (bit_count (nat v) + 7) div 8,
     BN_add = (+), BN_sub = (-), BN_mul = (*), BN_div = \<lambda>a d. (a div d, a mod d), BN_nnmod = (mod),
     BN_mod_exp = \<lambda>a e m. a ^ nat e mod m,
     BN_mod_inverse = \<lambda>a m. List.find (\<lambda>x. x * a mod m = 1) (map int [0..<nat m]),
     BN_gcd = gcd, BN_rshift = \<lambda>a n. a div 2 ^ n, BN_primality_test = \<lambda>v n. True\<rparr>"

lemma inverse_exists:
  assumes "coprime a (m :: int)" and "1 < m"
  shows "\<exists>x. 0 \<le> x \<and> x < m \<and> x * a mod m = 1"
proof -
  from bezout_int [of a m] assms(1) obtain u v where "u * a + v * m = 1" by auto
  then have "u * a = 1 + (- v) * m" by simp
  then have "u * a mod m = 1" using assms(2) by (simp only: mod_mult_self1) simp
  then have "(u mod m) * a mod m = 1" by (simp add: mod_mult_left_eq)
  then show ?thesis using assms(2) by (intro exI [of _ "u mod m"]) simp
qed

lemma demo_bn_ok: "bn_ok demo_bn"
proof -
  have "case List.find (\<lambda>x. x * a mod m = 1) (map int [0..<nat m]) of
      Some x \<Rightarrow> 0 \<le> x \<and> x < m \<and> x * a mod m = 1 | None \<Rightarrow> \<not> coprime a m"
    if "0 \<le> a" and m: "1 < m" for a m :: int
  proof (cases "List.find (\<lambda>x. x * a mod m = 1) (map int [0..<nat m])")
    case None
    then have no: "x * a mod m \<noteq> 1" if "0 \<le> x" "x < m" for x
      using that m by (auto simp: find_None_iff dest!: bspec [of _ _ "nat x"])
    then show ?thesis using None inverse_exists [of a m] m by auto
  next
    case (Some x)
    then have "0 \<le> x \<and> x < m \<and> x * a mod m = 1" using m by (auto simp: find_Some_iff)
    then show ?thesis using Some by simp
  qed
  then show ?thesis
    by (auto simp: bn_ok_def demo_bn_def bit_count_le nat_less_iff)
qed

end
