(* ===== verification/Rsa.thy ===== *)
theory Rsa
  imports Bn
begin

text \<open>
  RSA (\<open>src/tpm/crypto/rsa.rs\<close>): keys from a modulus and one prime, the raw operations, the OAEP, PKCS#1 v1.5
  and PSS paddings, and key generation. The generator of random octets is an argument, with its state. The
  loops that draw until a value is good may go on for ever and are partial functions.
\<close>

definition RSA_DEFAULT_PUBLIC_EXPONENT :: u32 where "RSA_DEFAULT_PUBLIC_EXPONENT = 0x10001"
definition MAX_RSA_KEY_BITS :: u16 where "MAX_RSA_KEY_BITS = 4096"
definition PRIMALITY_CHECKS :: nat where "PRIMALITY_CHECKS = 64"

section \<open>Keys\<close>

record rsa_public =
  pub_n :: bignum
  pub_e :: bignum

record rsa_private =
  prv_public :: rsa_public
  prv_p :: bignum
  prv_q :: bignum
  prv_d :: bignum

definition effective_exponent :: "u32 \<Rightarrow> u32" where
  "effective_exponent e = (if e = 0 then RSA_DEFAULT_PUBLIC_EXPONENT else e)"

definition rsa_public_new :: "bn_lib \<Rightarrow> bytes \<Rightarrow> u32 \<Rightarrow> rsa_public tpm_result" where
  "rsa_public_new B modulus e =
     (let n = bn_from_bytes B modulus
      in if n = 0 then Inl rc_KEY
         else Inr \<lparr>pub_n = n, pub_e = bn_from_u64 (ucast (effective_exponent e))\<rparr>)"

definition rsa_size :: "bn_lib \<Rightarrow> rsa_public \<Rightarrow> nat" where
  "rsa_size B k = (BN_num_bits B (pub_n k) + 7) div 8"

definition private_exponent :: "bn_lib \<Rightarrow> bignum \<Rightarrow> bignum \<Rightarrow> bignum \<Rightarrow> bignum tpm_result" where
  "private_exponent B e p q =
     (let p1 = BN_sub B p 1; q1 = BN_sub B q 1
      in res_bind (bn_div_rem B (BN_mul B p1 q1) (BN_gcd B p1 q1)) (\<lambda>(lambda, rem).
           if rem \<noteq> 0 then Inl rc_FAILURE else bn_mod_inverse B e lambda))"

definition from_prime :: "bn_lib \<Rightarrow> bytes \<Rightarrow> u32 \<Rightarrow> bytes \<Rightarrow> rsa_private tpm_result" where
  "from_prime B modulus e prime =
     res_bind (rsa_public_new B modulus e) (\<lambda>pub.
       let p = bn_from_bytes B prime
       in if p = 0 \<or> p = 1 then Inl rc_KEY
          else res_bind (bn_div_rem B (pub_n pub) p) (\<lambda>(q, r).
            if r \<noteq> 0 \<or> q = 0 \<or> q = 1 then Inl rc_KEY
            else res_bind (private_exponent B (pub_e pub) p q) (\<lambda>d.
              Inr \<lparr>prv_public = pub, prv_p = p, prv_q = q, prv_d = d\<rparr>)))"

definition from_primes :: "bn_lib \<Rightarrow> bignum \<Rightarrow> bignum \<Rightarrow> u32 \<Rightarrow> rsa_private tpm_result" where
  "from_primes B p q e =
     (let n = BN_mul B p q; e = bn_from_u64 (ucast (effective_exponent e))
      in res_bind (private_exponent B e p q) (\<lambda>d.
           Inr \<lparr>prv_public = \<lparr>pub_n = n, pub_e = e\<rparr>, prv_p = p, prv_q = q, prv_d = d\<rparr>))"

definition prime_bytes :: "bn_lib \<Rightarrow> rsa_private \<Rightarrow> bytes tpm_result" where
  "prime_bytes B k = bn_to_bytes_padded B (rsa_size B (prv_public k) div 2) (prv_p k)"

definition modulus_bytes :: "bn_lib \<Rightarrow> rsa_private \<Rightarrow> bytes tpm_result" where
  "modulus_bytes B k = bn_to_bytes_padded B (rsa_size B (prv_public k)) (pub_n (prv_public k))"

section \<open>The raw operations\<close>

definition public_op :: "bn_lib \<Rightarrow> rsa_public \<Rightarrow> bytes \<Rightarrow> bytes tpm_result" where
  "public_op B k input =
     (if length input \<noteq> rsa_size B k then Inl rc_SIZE
      else let m = bn_from_bytes B input
           in if pub_n k \<le> m then Inl rc_VALUE
              else bn_to_bytes_padded B (rsa_size B k) (BN_mod_exp B m (pub_e k) (pub_n k)))"

definition private_op :: "bn_lib \<Rightarrow> rsa_private \<Rightarrow> bytes \<Rightarrow> bytes tpm_result" where
  "private_op B k input =
     (if length input \<noteq> rsa_size B (prv_public k) then Inl rc_SIZE
      else let c = bn_from_bytes B input
           in if pub_n (prv_public k) \<le> c then Inl rc_VALUE
              else bn_to_bytes_padded B (rsa_size B (prv_public k)) (BN_mod_exp B c (prv_d k) (pub_n (prv_public k))))"

section \<open>OAEP\<close>

text \<open>The loops over zipped octets change the octets both have.\<close>

definition unmask :: "bytes \<Rightarrow> bytes \<Rightarrow> bytes" where
  "unmask ds ms = map2 (XOR) ds ms @ drop (length ms) ds"

definition oaep_encode ::
  "env \<Rightarrow> 'g rng_bytes \<Rightarrow> u16 \<Rightarrow> nat \<Rightarrow> bytes \<Rightarrow> bytes \<Rightarrow> ('g, bytes) st_op" where
  "oaep_encode E rng a key_size msg label =
     st_bind (st_lift (hash_size E a)) (\<lambda>h_len.
       if key_size < 2 * h_len + 2 then st_fail rc_KEY_SIZE
       else if key_size - 2 * h_len - 2 < length msg then st_fail rc_VALUE
       else st_bind (st_lift (digest E a label)) (\<lambda>l_hash.
         let ps_len = key_size - length msg - 2 * h_len - 2;
             db = l_hash @ replicate ps_len 0 @ [1] @ msg
         in st_bind (rng h_len) (\<lambda>seed.
            st_bind (st_lift (mgf1 E a seed (length db))) (\<lambda>db_mask.
              let db = unmask db db_mask
              in st_bind (st_lift (mgf1 E a db h_len)) (\<lambda>seed_mask.
                   st_return ([0] @ unmask seed seed_mask @ db))))))"

text \<open>The scan for the separator: where it is, and whether another octet came first.\<close>

fun oaep_scan :: "nat \<Rightarrow> bytes \<Rightarrow> nat option \<Rightarrow> nat option \<times> bool" where
  "oaep_scan i [] sep = (sep, False)"
| "oaep_scan i (b # bs) sep =
     (if b = 0 then oaep_scan (i + 1) bs sep
      else if b = 1 \<and> sep = None then oaep_scan (i + 1) bs (Some i)
      else if sep = None then (None, True)
      else oaep_scan (i + 1) bs sep)"

definition oaep_decode :: "env \<Rightarrow> u16 \<Rightarrow> bytes \<Rightarrow> bytes \<Rightarrow> bytes tpm_result" where
  "oaep_decode E a encoded label =
     res_bind (hash_size E a) (\<lambda>h_len.
       if length encoded < 2 * h_len + 2 then Inl rc_VALUE
       else res_bind (digest E a label) (\<lambda>l_hash.
         let masked_seed = slice encoded 1 (1 + h_len); masked_db = drop (1 + h_len) encoded
         in res_bind (mgf1 E a masked_db h_len) (\<lambda>seed_mask.
            let seed = unmask masked_seed seed_mask
            in res_bind (mgf1 E a seed (length masked_db)) (\<lambda>db_mask.
               let db = unmask masked_db db_mask;
                   mismatch = foldl (\<lambda>m (x, y). m OR (x XOR y)) 0 (zip (take h_len db) l_hash);
                   (sep, stray) = oaep_scan h_len (drop h_len db) None;
                   bad = (hd encoded \<noteq> 0 \<or> mismatch \<noteq> 0 \<or> stray)
               in case sep of
                    Some i \<Rightarrow> if \<not> bad then Inr (drop (i + 1) db) else Inl rc_VALUE
                  | None \<Rightarrow> Inl rc_VALUE))))"

section \<open>PKCS#1 v1.5\<close>

text \<open>The padding octets: zeros that are drawn are thrown away.\<close>

partial_function (option) nonzero_padding ::
  "'g rng_bytes \<Rightarrow> nat \<Rightarrow> bytes \<Rightarrow> 'g \<Rightarrow> (bytes tpm_result \<times> 'g) option" where
  "nonzero_padding rng n ps g =
     (if n \<le> length ps then Some (Inr ps, g)
      else case rng (n - length ps + 8) g of
          (Inl c, g) \<Rightarrow> Some (Inl c, g)
        | (Inr b, g) \<Rightarrow> nonzero_padding rng n (take n (ps @ filter (\<lambda>x. x \<noteq> 0) b)) g)"

definition pkcs1v15_encrypt_pad ::
  "'g rng_bytes \<Rightarrow> nat \<Rightarrow> bytes \<Rightarrow> 'g \<Rightarrow> (bytes tpm_result \<times> 'g) option" where
  "pkcs1v15_encrypt_pad rng key_size msg g =
     (if key_size < 11 \<or> key_size - 11 < length msg then Some (Inl rc_VALUE, g)
      else map_option (\<lambda>(r, g). (res_bind r (\<lambda>ps. Inr ([0, 2] @ ps @ [0] @ msg)), g))
             (nonzero_padding rng (key_size - length msg - 3) [] g))"

definition pkcs1v15_encrypt_unpad :: "bytes \<Rightarrow> bytes tpm_result" where
  "pkcs1v15_encrypt_unpad encoded =
     (if length encoded < 11 \<or> encoded ! 0 \<noteq> 0 \<or> encoded ! 1 \<noteq> 2 then Inl rc_VALUE
      else let i = length (takeWhile (\<lambda>b. b \<noteq> 0) (drop 2 encoded))
           in if i < length (drop 2 encoded) \<and> 8 \<le> i then Inr (drop (2 + i + 1) encoded) else Inl rc_VALUE)"

definition digest_info_prefix :: "u16 \<Rightarrow> bytes tpm_result" where
  "digest_info_prefix a =
     (if a = alg_SHA1 then Inr [0x30, 0x21, 0x30, 0x09, 0x06, 0x05, 0x2b, 0x0e, 0x03, 0x02, 0x1a, 0x05, 0x00, 0x04, 0x14]
      else if a = alg_SHA256 then Inr [0x30, 0x31, 0x30, 0x0d, 0x06, 0x09, 0x60, 0x86, 0x48, 0x01, 0x65, 0x03, 0x04, 0x02, 0x01, 0x05, 0x00, 0x04, 0x20]
      else if a = alg_SHA384 then Inr [0x30, 0x41, 0x30, 0x0d, 0x06, 0x09, 0x60, 0x86, 0x48, 0x01, 0x65, 0x03, 0x04, 0x02, 0x02, 0x05, 0x00, 0x04, 0x30]
      else if a = alg_SHA512 then Inr [0x30, 0x51, 0x30, 0x0d, 0x06, 0x09, 0x60, 0x86, 0x48, 0x01, 0x65, 0x03, 0x04, 0x02, 0x03, 0x05, 0x00, 0x04, 0x40]
      else if a = alg_SHA3_256 then Inr [0x30, 0x31, 0x30, 0x0d, 0x06, 0x09, 0x60, 0x86, 0x48, 0x01, 0x65, 0x03, 0x04, 0x02, 0x08, 0x05, 0x00, 0x04, 0x20]
      else if a = alg_SHA3_384 then Inr [0x30, 0x41, 0x30, 0x0d, 0x06, 0x09, 0x60, 0x86, 0x48, 0x01, 0x65, 0x03, 0x04, 0x02, 0x09, 0x05, 0x00, 0x04, 0x30]
      else if a = alg_SHA3_512 then Inr [0x30, 0x51, 0x30, 0x0d, 0x06, 0x09, 0x60, 0x86, 0x48, 0x01, 0x65, 0x03, 0x04, 0x02, 0x0a, 0x05, 0x00, 0x04, 0x40]
      else Inl rc_HASH)"

definition pkcs1v15_sign_encode :: "env \<Rightarrow> u16 \<Rightarrow> bytes \<Rightarrow> nat \<Rightarrow> bytes tpm_result" where
  "pkcs1v15_sign_encode E a dg key_size =
     res_bind (hash_size E a) (\<lambda>h_len.
       if length dg \<noteq> h_len then Inl rc_SIZE
       else res_bind (digest_info_prefix a) (\<lambda>prefix.
         let t_len = length prefix + h_len
         in if key_size < t_len + 11 then Inl rc_KEY_SIZE
            else Inr ([0, 1] @ replicate (key_size - t_len - 3) 0xFF @ [0] @ prefix @ dg)))"

section \<open>PSS\<close>

definition mask_top :: "nat \<Rightarrow> bytes \<Rightarrow> bytes" where
  "mask_top clear db = (if 0 < clear then db[0 := db ! 0 AND drop_bit clear 0xFF] else db)"

definition pss_encode :: "env \<Rightarrow> 'g rng_bytes \<Rightarrow> u16 \<Rightarrow> bytes \<Rightarrow> nat \<Rightarrow> ('g, bytes) st_op" where
  "pss_encode E rng a dg key_bits =
     st_bind (st_lift (hash_size E a)) (\<lambda>h_len.
       if length dg \<noteq> h_len then st_fail rc_SIZE
       else let em_bits = key_bits - 1; em_len = (em_bits + 7) div 8
         in if em_len < h_len + 2 then st_fail rc_KEY_SIZE
            else let salt_len = em_len - h_len - 2
              in st_bind (rng salt_len) (\<lambda>salt.
                 st_bind (st_lift (digest E a (replicate 8 0 @ dg @ salt))) (\<lambda>h.
                   let ps_len = em_len - salt_len - h_len - 2;
                       db = replicate ps_len 0 @ [1] @ salt
                   in st_bind (st_lift (mgf1 E a h (length db))) (\<lambda>db_mask.
                        st_return (mask_top (8 * em_len - em_bits) (unmask db db_mask) @ h @ [0xBC])))))"

definition pss_verify :: "env \<Rightarrow> u16 \<Rightarrow> bytes \<Rightarrow> bytes \<Rightarrow> nat \<Rightarrow> unit tpm_result" where
  "pss_verify E a dg encoded key_bits =
     res_bind (hash_size E a) (\<lambda>h_len.
       if length dg \<noteq> h_len then Inl rc_SIZE
       else let em_bits = key_bits - 1; em_len = (em_bits + 7) div 8
         in if length encoded \<noteq> em_len \<or> em_len < h_len + 2 then Inl rc_SIGNATURE
            else if last encoded \<noteq> 0xBC then Inl rc_SIGNATURE
            else let db_len = em_len - h_len - 1;
                     masked_db = take db_len encoded; h = slice encoded db_len (db_len + h_len);
                     clear = 8 * em_len - em_bits
              in if 0 < clear \<and> masked_db ! 0 AND NOT (drop_bit clear 0xFF) \<noteq> 0 then Inl rc_SIGNATURE
                 else res_bind (mgf1 E a h db_len) (\<lambda>db_mask.
                   let db = mask_top clear (unmask masked_db db_mask);
                       sep = length (takeWhile (\<lambda>b. b = 0) db)
                   in if \<not> (sep < length db \<and> db ! sep = 1) then Inl rc_SIGNATURE
                      else res_bind (digest E a (replicate 8 0 @ dg @ drop (sep + 1) db)) (\<lambda>d.
                        if d \<noteq> h then Inl rc_SIGNATURE else Inr ())))"

section \<open>Key generation\<close>

text \<open>The two top bits and the low bit of a candidate.\<close>

definition set_edges :: "bytes \<Rightarrow> bytes" where
  "set_edges c = (let c = c[0 := c ! 0 OR 0xC0]; i = length c - 1 in c[i := c ! i OR 1])"

partial_function (option) generate_prime ::
  "bn_lib \<Rightarrow> 'g rng_bytes \<Rightarrow> nat \<Rightarrow> bignum \<Rightarrow> 'g \<Rightarrow> (bignum tpm_result \<times> 'g) option" where
  "generate_prime B rng bits e g =
     (case rng (bits div 8) g of
        (Inl c, g) \<Rightarrow> Some (Inl c, g)
      | (Inr c, g) \<Rightarrow>
          (let n = bn_from_bytes B (set_edges c)
           in if BN_num_bits B n = bits \<and> BN_gcd B (BN_sub B n 1) e = 1 \<and> BN_primality_test B n PRIMALITY_CHECKS
              then Some (Inr n, g) else generate_prime B rng bits e g))"

partial_function (option) second_prime ::
  "bn_lib \<Rightarrow> 'g rng_bytes \<Rightarrow> nat \<Rightarrow> bignum \<Rightarrow> bignum \<Rightarrow> 'g \<Rightarrow> (rsa_private tpm_result \<times> 'g) option" where
  "second_prime B rng key_bits e p g =
     (case generate_prime B rng (key_bits div 2) e g of
        None \<Rightarrow> None
      | Some (Inl c, g) \<Rightarrow> Some (Inl c, g)
      | Some (Inr q, g) \<Rightarrow>
          if q = p \<or> BN_num_bits B (BN_mul B p q) \<noteq> key_bits then second_prime B rng key_bits e p g
          else (case private_exponent B e p q of
                  Inl c \<Rightarrow> Some (Inl c, g)
                | Inr d \<Rightarrow>
                    if BN_num_bits B d * 4 < key_bits then second_prime B rng key_bits e p g
                    else Some (Inr \<lparr>prv_public = \<lparr>pub_n = BN_mul B p q, pub_e = e\<rparr>, prv_p = p, prv_q = q, prv_d = d\<rparr>, g)))"

definition rsa_generate ::
  "bn_lib \<Rightarrow> 'g rng_bytes \<Rightarrow> u16 \<Rightarrow> u32 \<Rightarrow> 'g \<Rightarrow> (rsa_private tpm_result \<times> 'g) option" where
  "rsa_generate B rng key_bits e g =
     (if key_bits < 2048 \<or> MAX_RSA_KEY_BITS < key_bits \<or> key_bits mod 8 \<noteq> 0 then Some (Inl rc_KEY_SIZE, g)
      else let v = effective_exponent e
        in if v < 3 \<or> v mod 2 = 0 then Some (Inl rc_VALUE, g)
           else (case generate_prime B rng (unat key_bits div 2) (bn_from_u64 (ucast v)) g of
                   None \<Rightarrow> None
                 | Some (Inl c, g) \<Rightarrow> Some (Inl c, g)
                 | Some (Inr p, g) \<Rightarrow> second_prime B rng (unat key_bits) (bn_from_u64 (ucast v)) p g))"

section \<open>The private operation undoes the public one\<close>

lemma lcm_by_gcd:
  "int m * int n div gcd (int m) (int n) = int (lcm m n)" "int m * int n mod gcd (int m) (int n) = 0"
proof -
  show "int m * int n div gcd (int m) (int n) = int (lcm m n)"
    by (simp only: gcd_int_int_eq lcm_nat_def zdiv_int of_nat_mult)
  have "gcd (int m) (int n) dvd int m * int n" by simp
  then show "int m * int n mod gcd (int m) (int n) = 0" by (rule dvd_imp_mod_0)
qed

lemma private_exponent_inverse:
  assumes B: "bn_ok B" and "2 \<le> p" "2 \<le> q" "p \<noteq> q" and e: "0 \<le> e" and "private_exponent B e (int p) (int q) = Inr d"
  shows "0 \<le> d \<and> (\<exists>k. d * e = 1 + int k * int (lcm (p - 1) (q - 1)))"
proof -
  obtain m n where m: "m = p - 1" and n: "n = q - 1" by blast
  have pq: "int p - 1 = int m" "int q - 1 = int n" "0 < m" "0 < n" "m \<noteq> n" using assms(2-4) m n by auto
  have "0 < gcd (int m) (int n)" using pq(3) by simp
  then have inv: "bn_mod_inverse B e (int (lcm m n)) = Inr d"
    using assms(6) lcm_by_gcd [of m n] bn_nonneg_arith(1) [OF B, of "int m * int n" "gcd (int m) (int n)"]
    by (simp add: private_exponent_def bn_arith [OF B] pq(1,2) bn_div_rem_def Let_def split: if_splits)
  have big: "1 < int (lcm m n)"
  proof -
    have "m dvd lcm m n" "n dvd lcm m n" by simp_all
    then have "lcm m n \<noteq> 1" using pq(5) by auto
    moreover have "0 < lcm m n" using pq(3,4) by (simp add: lcm_pos_nat)
    ultimately show ?thesis by linarith
  qed
  from big have d: "0 \<le> d" "d * e mod int (lcm m n) = 1" using bn_inverse [OF B e _ inv] by auto
  have "d * e = 1 + (d * e div int (lcm m n)) * int (lcm m n)" using d(2) by (metis add.commute div_mult_mod_eq)
  moreover have "0 \<le> d * e div int (lcm m n)" using d(1) e big by (intro pos_imp_zdiv_nonneg_iff [THEN iffD2]) auto
  ultimately show ?thesis using d(1) m n by (metis nonneg_int_cases)
qed

lemma from_prime_key:
  assumes B: "bn_ok B" and "from_prime B modulus e prime = Inr k" and "octets_value modulus = octets_value prime * q"
  shows "pub_n (prv_public k) = int (octets_value prime * q) \<and> 2 \<le> octets_value prime \<and> 2 \<le> q
    \<and> pub_e (prv_public k) = uint (effective_exponent e)
    \<and> private_exponent B (uint (effective_exponent e)) (int (octets_value prime)) (int q) = Inr (prv_d k)"
proof -
  let ?p = "octets_value prime"
  have p: "2 \<le> ?p" using assms(2) by (auto simp: from_prime_def res_bind_eq_Inr bn_arith [OF B] Let_def split: if_splits)
  then have div: "bn_div_rem B (int (?p * q)) (int ?p) = Inr (int q, 0)"
    using bn_nonneg_arith(1) [OF B, of "int (?p * q)" "int ?p"] by (simp add: bn_div_rem_def)
  have "unat (effective_exponent e) < 2 ^ 32" using unsigned_less [of "effective_exponent e"] by simp
  then have "uint (ucast (effective_exponent e) :: u64) = uint (effective_exponent e)"
    by (simp add: uint_up_ucast is_up)
  then show ?thesis
    using assms(2,3) p div
    by (auto simp: from_prime_def rsa_public_new_def res_bind_eq_Inr bn_arith [OF B] Let_def bn_from_u64_def split: if_splits)
qed

lemma rsa_inverts:
  assumes "bn_ok B" and "from_prime B modulus e prime = Inr k"
    and "octets_value modulus = octets_value prime * q" and "is_prime (octets_value prime)" "is_prime q" "octets_value prime \<noteq> q"
    and "public_op B (prv_public k) m = Inr c"
  shows "private_op B k c = Inr m"
proof -
  let ?p = "octets_value prime" and ?e = "uint (effective_exponent e)" and ?n = "octets_value prime * q" and ?m = "octets_value m"
  let ?size = "rsa_size B (prv_public k)"
  note B = assms(1)
  note key = from_prime_key [OF assms(1-3)]
  have n: "pub_n (prv_public k) = int ?n" and e: "pub_e (prv_public k) = ?e" using key by auto
  obtain j where d: "0 \<le> prv_d k" "prv_d k * ?e = 1 + int j * int (lcm (?p - 1) (q - 1))"
    using private_exponent_inverse [OF B _ _ assms(6), of ?e "prv_d k"] key by auto
  have "0 < ?n" using key by simp
  have len: "length m = ?size" and "\<not> int ?n \<le> int ?m" and c: "bn_to_bytes_padded B ?size (int ?m ^ nat ?e mod int ?n) = Inr c"
    using assms(7) bn_nonneg_arith(3) [OF B, of "int ?m" ?e "int ?n"] \<open>0 < ?n\<close>
    by (auto simp: public_op_def n e bn_arith [OF B] Let_def split: if_splits)
  then have less: "?m < ?n" by linarith
  have "0 \<le> int ?m ^ nat ?e mod int ?n" using \<open>0 < ?n\<close> by simp
  from bn_read_written [OF B this c] have c': "bn_from_bytes B c = int ?m ^ nat ?e mod int ?n" "length c = ?size" .
  have suc: "nat (1 + int x) = Suc x" for x by simp
  have "nat ?e * nat (prv_d k) = nat (prv_d k * ?e)" using d(1) by (simp add: nat_mult_distrib mult.commute)
  also have "\<dots> = nat (1 + int (j * lcm (?p - 1) (q - 1)))" by (simp only: d(2) of_nat_mult)
  finally have exponents: "nat ?e * nat (prv_d k) = Suc (j * lcm (?p - 1) (q - 1))" by (simp only: suc)
  have "(int ?m ^ nat ?e mod int ?n) ^ nat (prv_d k) mod int ?n = int ?m ^ (nat ?e * nat (prv_d k)) mod int ?n"
    by (simp only: power_mod power_mult)
  also have "nat ?e * nat (prv_d k) = Suc (j * lcm (?p - 1) (q - 1))"
    by (rule exponents)
  also have "int ?m ^ Suc (j * lcm (?p - 1) (q - 1)) mod int ?n = int (?m ^ Suc (j * lcm (?p - 1) (q - 1)) mod ?n)"
    by (simp only: zmod_int of_nat_power)
  also have "?m ^ Suc (j * lcm (?p - 1) (q - 1)) mod ?n = ?m"
    by (rule rsa_identity [OF assms(4,5,6)]) (use less in simp_all)
  finally have "BN_mod_exp B (bn_from_bytes B c) (prv_d k) (int ?n) = int ?m"
    using bn_nonneg_arith(3) [OF B, of "bn_from_bytes B c" "prv_d k" "int ?n"] d(1) \<open>0 < ?n\<close> by (simp add: c')
  moreover have "bn_from_bytes B c < int ?n" using \<open>0 < ?n\<close> by (simp add: c')
  ultimately show ?thesis
    using bn_write_read [OF B, of m] by (simp add: private_op_def n c'(2) len bn_arith(5) [OF B] Let_def not_le)
qed

text \<open>C28: decryption undoes encryption. For a key made of a modulus that is the product of two distinct
  primes and of one of them, whatever the public exponent, the private operation gives back every
  octet string the public operation took, at its length with its leading zeros.\<close>

theorem rsa_private_inverts_public:
  assumes "bn_ok B" and "from_prime B modulus e prime = Inr k"
    and "octets_value modulus = octets_value prime * q" and "is_prime (octets_value prime)" "is_prime q" "octets_value prime \<noteq> q"
    and "public_op B (prv_public k) m = Inr c"
  shows "private_op B k c = Inr m"
  using assms by (rule rsa_inverts)

section \<open>The paddings\<close>

lemma length_unmask [simp]: "length ms \<le> length ds \<Longrightarrow> length (unmask ds ms) = length ds"
  by (simp add: unmask_def)

lemma unmask_twice: "length ms = length ds \<Longrightarrow> unmask (unmask ds ms) ms = ds"
proof (induction ds ms rule: list_induct2')
  case (4 x xs y ys)
  have "(x XOR y) XOR y = x" by (simp add: xor.assoc)
  then show ?case using 4 by (simp add: unmask_def)
qed (simp_all add: unmask_def)

lemma unmask_append:
  "length ms = length ds \<Longrightarrow> unmask (ds @ es) (ms @ ns) = unmask ds ms @ unmask es ns"
  by (simp add: unmask_def)

lemma nth_unmask: "length ms = length ds \<Longrightarrow> i < length ds \<Longrightarrow> unmask ds ms ! i = ds ! i XOR ms ! i"
  by (simp add: unmask_def)

lemma mgf1_total:
  assumes "env_ok E" and "is_supported E a" and "n \<le> MAX_KDF_BYTES"
  shows "\<exists>x. mgf1 E a seed n = Inr x \<and> length x = n"
proof -
  let ?d = "output_len E a"
  have d: "0 < ?d" using supported_output_len [OF assms(1,2)] by auto
  then show ?thesis
    using assms ceil_mult_ge [OF d, of n]
    by (simp add: mgf1_closed_form length_concat_blocks [where d = ?d] env_ok_length)
qed

lemma oaep_scan_found: "oaep_scan i bs (Some j) = (Some j, False)"
  by (induction bs arbitrary: i) simp_all

lemma oaep_scan_padding: "oaep_scan i (replicate n 0 @ 1 # bs) None = (Some (i + n), False)"
  by (induction n arbitrary: i) (simp_all add: oaep_scan_found)

lemma no_mismatch: "foldl (\<lambda>m (x, y). m OR (x XOR y)) (0 :: u8) (zip bs bs) = 0"
  by (induction bs) simp_all

lemma oaep_inverts:
  assumes "env_ok E" and "is_supported E a" and "key_size \<le> MAX_KDF_BYTES"
    and "rng (output_len E a) g = (Inr seed, g')" and "length seed = output_len E a"
  shows "if length msg + 2 * output_len E a + 2 \<le> key_size then
      \<exists>out. oaep_encode E rng a key_size msg label g = (Inr out, g') \<and> length out = key_size \<and> hd out = 0
        \<and> oaep_decode E a out label = Inr msg
    else oaep_encode E rng a key_size msg label g \<in> {(Inl rc_KEY_SIZE, g), (Inl rc_VALUE, g)}"
proof (cases "length msg + 2 * output_len E a + 2 \<le> key_size")
  case True
  let ?h = "output_len E a" and ?l = "raw_digest E a label"
  have sup: "hash_size E a = Inr ?h" "digest E a b = Inr (raw_digest E a b)" for b
    using assms(2) by (simp_all add: hash_size_def digest_def supported_algorithm)
  have l: "length ?l = ?h" using assms(1) by (rule env_ok_length)
  define db where "db = ?l @ replicate (key_size - length msg - 2 * ?h - 2) 0 @ [1] @ msg"
  have db_len: "length db = key_size - ?h - 1" using True l by (simp add: db_def)
  have "length db \<le> MAX_KDF_BYTES" "?h \<le> MAX_KDF_BYTES" using assms(3) True by (simp_all add: db_len)
  note total = mgf1_total [OF assms(1,2) this(1)] mgf1_total [OF assms(1,2) this(2)]
  obtain m where m: "mgf1 E a seed (length db) = Inr m" "length m = length db" using total(1) by blast
  obtain k where k: "mgf1 E a (unmask db m) ?h = Inr k" "length k = ?h" using total(2) by blast
  let ?out = "[0] @ unmask seed k @ unmask db m"
  have enc: "oaep_encode E rng a key_size msg label g = (Inr ?out, g')"
    using True assms(4) m k by (simp add: oaep_encode_def sup st_bind_def Let_def db_def)
  have masked: "slice ?out 1 (1 + ?h) = unmask seed k" "drop (1 + ?h) ?out = unmask db m"
    using assms(5) k(2) by (simp_all add: slice_def)
  have undone: "unmask (unmask seed k) k = seed" "unmask (unmask db m) m = db"
    using assms(5) k(2) m(2) by (simp_all add: unmask_twice)
  have len: "length ?out = key_size" using assms(5) k(2) m(2) True by (simp add: db_len)
  have parts: "take ?h db = ?l" "drop ?h db = replicate (key_size - length msg - 2 * ?h - 2) 0 @ 1 # msg"
    using l by (simp_all add: db_def)
  have "drop (?h + (key_size - length msg - 2 * ?h - 2) + 1) db = msg" using l by (simp add: db_def)
  then have "oaep_decode E a ?out label = Inr msg"
    unfolding oaep_decode_def sup res_bind_simps masked len
    using True m k by (simp add: sup undone parts no_mismatch oaep_scan_padding Let_def)
  then show ?thesis using enc len True by simp
next
  case False
  then have "key_size < 2 * output_len E a + 2 \<or> key_size - 2 * output_len E a - 2 < length msg" by linarith
  then show ?thesis
    using assms(2) False by (auto simp: oaep_encode_def hash_size_def supported_algorithm st_bind_def)
qed

text \<open>OAEP decoding undoes encoding. With a generator that gives the seed, every message up to the size the
  key leaves room for is encoded into a block of exactly the size of the key, whose first octet is zero,
  and decoding it with the same label gives the message back; a longer message is refused before
  anything is drawn.\<close>

theorem oaep_roundtrip:
  assumes "env_ok E" and "is_supported E a" and "key_size \<le> MAX_KDF_BYTES"
    and "rng (output_len E a) g = (Inr seed, g')" and "length seed = output_len E a"
  shows "if length msg + 2 * output_len E a + 2 \<le> key_size then
      \<exists>out. oaep_encode E rng a key_size msg label g = (Inr out, g') \<and> length out = key_size \<and> hd out = 0
        \<and> oaep_decode E a out label = Inr msg
    else oaep_encode E rng a key_size msg label g \<in> {(Inl rc_KEY_SIZE, g), (Inl rc_VALUE, g)}"
  using assms by (rule oaep_inverts)

lemma mask_undone:
  fixes x y d :: u8
  assumes "x AND d = x"
  shows "(((x XOR y) AND d) XOR y) AND d = x"
proof (rule bit_word_eqI)
  fix n
  have "bit (x AND d) n = bit x n" using assms by simp
  then show "bit ((((x XOR y) AND d) XOR y) AND d) n = bit x n" by (auto simp: bit_and_iff bit_xor_iff)
qed

lemma top_mask:
  assumes "c < 8"
  shows "(1 :: u8) AND drop_bit c 0xFF = 1 \<and> unat (drop_bit c 0xFF :: u8) + 1 = 2 ^ (8 - c)"
proof -
  from assms consider "c = 0" | "c = 1" | "c = 2" | "c = 3" | "c = 4" | "c = 5" | "c = 6" | "c = 7" by linarith
  then show ?thesis by cases simp_all
qed

lemma mask_top_undone:
  assumes "c < 8" and "length m = Suc (length salt)"
  shows "mask_top c (unmask (mask_top c (unmask (1 # salt) m)) m) = 1 # salt"
proof -
  obtain y ys where m: "m = y # ys" "length ys = length salt" using assms(2) by (cases m) auto
  have rest: "unmask (x # xs) (y # ys) = (x XOR y) # unmask xs ys" for x xs by (simp add: unmask_def)
  note one = conjunct1 [OF top_mask [OF assms(1)]]
  have "unmask (unmask salt ys) ys = salt" using m(2) by (simp add: unmask_twice)
  moreover have "((1 XOR y) XOR y) = 1" by (simp add: xor.assoc)
  ultimately show ?thesis
    using mask_undone [OF one, of y] by (simp add: mask_top_def m(1) rest)
qed

lemma mask_top_value:
  assumes "c < 8" and "db \<noteq> []"
  shows "octets_value (mask_top c db @ bs) < 2 ^ (8 * length (db @ bs) - c)" "mask_top c db ! 0 AND NOT (drop_bit c 0xFF) = 0 \<or> c = 0"
proof -
  obtain x xs where db: "db = x # xs" using assms(2) by (cases db) auto
  define z where "z = (if 0 < c then x AND drop_bit c 0xFF else x)"
  have mask: "mask_top c db = z # xs" by (simp add: mask_top_def db z_def)
  have "x AND drop_bit c 0xFF \<le> drop_bit c 0xFF" by (rule word_and_le1)
  then have "unat (x AND drop_bit c 0xFF) < 2 ^ (8 - c)" using top_mask [OF assms(1)] by (simp add: word_le_nat_alt)
  moreover have "unat x < 256" using unsigned_less [of x, where ?'a = nat] by simp
  ultimately have z: "unat z < 2 ^ (8 - c)" by (simp add: z_def)
  let ?k = "length (xs @ bs)"
  have "octets_value (mask_top c db @ bs) = unat z * 256 ^ ?k + octets_value (xs @ bs)"
    using octets_value_append [of "[z]" "xs @ bs"] by (simp add: mask octets_value_def)
  also have "\<dots> < (unat z + 1) * 256 ^ ?k" using octets_value_bound [of "xs @ bs"] by simp
  also have "\<dots> \<le> 2 ^ (8 - c) * 256 ^ ?k" using z by (intro mult_le_mono1) simp
  also have "\<dots> = 2 ^ (8 - c + 8 * ?k)" by (simp add: power_add power_mult)
  also have "8 - c + 8 * ?k = 8 * length (db @ bs) - c" using assms(1) by (simp add: db)
  finally show "octets_value (mask_top c db @ bs) < 2 ^ (8 * length (db @ bs) - c)" .
  have "(x AND d) AND NOT d = 0" for d by (simp add: and.assoc)
  then show "mask_top c db ! 0 AND NOT (drop_bit c 0xFF) = 0 \<or> c = 0" by (simp add: mask z_def)
qed

text \<open>C30: PSS. An encoded digest has the length and the bits a key of \<open>key_bits\<close> can sign, and it verifies for
  a digest exactly when the hashes of the two padded digests with the salt agree: always for the digest
  that was signed, never for another one unless the hash collides.\<close>

theorem pss_verifies_encoded:
  assumes "env_ok E" and "is_supported E a" and "key_bits \<le> 4096" and "output_len E a + 2 \<le> (key_bits + 6) div 8"
    and "rng ((key_bits + 6) div 8 - output_len E a - 2) g = (Inr salt, g')"
    and "length salt = (key_bits + 6) div 8 - output_len E a - 2"
    and "length dg = output_len E a" and "length dg' = output_len E a"
  shows "\<exists>em. pss_encode E rng a dg key_bits g = (Inr em, g') \<and> length em = (key_bits + 6) div 8
    \<and> octets_value em < 2 ^ (key_bits - 1)
    \<and> pss_verify E a dg' em key_bits
        = (if raw_digest E a (replicate 8 0 @ dg' @ salt) = raw_digest E a (replicate 8 0 @ dg @ salt)
           then Inr () else Inl rc_SIGNATURE)"
proof -
  define N where "N = (key_bits + 6) div 8"
  define c where "c = 8 * N - (key_bits - 1)"
  let ?d = "output_len E a" and ?h = "raw_digest E a (replicate 8 0 @ dg @ salt)"
  note A = assms(4-6) [folded N_def]
  have sup: "hash_size E a = Inr ?d" "digest E a b = Inr (raw_digest E a b)" for b
    using assms(2) by (simp_all add: hash_size_def digest_def supported_algorithm)
  have n: "N = (key_bits - 1 + 7) div 8" "0 < key_bits" using A(1) by (auto intro: Nat.gr0I simp: N_def)
  have h: "length ?h = ?d" using assms(1) by (rule env_ok_length)
  have c: "c < 8" using n unfolding c_def by linarith
  have len: "length (1 # salt) = N - ?d - 1" using A by simp
  have "length (1 # salt) \<le> MAX_KDF_BYTES" using assms(3) A(3) by (simp add: MAX_KDF_BYTES_def N_def)
  from mgf1_total [OF assms(1,2) this, of ?h] obtain m where m: "mgf1 E a ?h (N - ?d - 1) = Inr m" "length m = Suc (length salt)"
    unfolding len by (metis len length_Cons)
  let ?db = "mask_top c (unmask (1 # salt) m)"
  let ?em = "?db @ ?h @ [0xBC]"
  have enc: "pss_encode E rng a dg key_bits g = (Inr ?em, g')"
    using A assms(7) m len unfolding pss_encode_def sup Let_def n(1) [symmetric] c_def [symmetric] by (simp add: st_bind_def sup)
  have dbl: "length ?db = N - ?d - 1" using m(2) len by (simp add: mask_top_def)
  have ne: "unmask (1 # salt) m \<noteq> []" using m(2) by (metis length_unmask length_Cons le_refl list.size(3) nat.distinct(1))
  have eml: "length ?em = N" using dbl h A(1) by simp
  have bits: "8 * length (unmask (1 # salt) m @ ?h @ [0xBC]) - c = key_bits - 1" using m(2) len h A(1) n unfolding c_def by simp
  have small: "octets_value ?em < 2 ^ (key_bits - 1)" using mask_top_value(1) [OF c ne, of "?h @ [0xBC]"] unfolding bits .
  have parts: "take (N - ?d - 1) ?em = ?db" "slice ?em (N - ?d - 1) (N - ?d - 1 + ?d) = ?h" "last ?em = 0xBC"
    using dbl h by (simp_all add: slice_def)
  have undone: "mask_top c (unmask ?db m) = 1 # salt" by (rule mask_top_undone [OF c m(2)])
  have top: "\<not> (0 < c \<and> ?db ! 0 AND NOT (drop_bit c 0xFF) \<noteq> 0)" using mask_top_value(2) [OF c ne] by blast
  have "pss_verify E a dg' ?em key_bits = (if raw_digest E a (replicate 8 0 @ dg' @ salt) = ?h then Inr () else Inl rc_SIGNATURE)"
    unfolding pss_verify_def sup res_bind_simps n(1) [symmetric] Let_def eml parts c_def [symmetric] if_not_P [OF top]
    using A assms(8) m by (simp add: undone sup)
  then show ?thesis using enc eml small unfolding N_def by blast
qed

lemma padding_returns:
  assumes "\<And>n g. 0 < n \<Longrightarrow> \<exists>b g'. rng n g = (Inr b, g') \<and> (\<exists>x \<in> set b. x \<noteq> 0)"
    and "length ps \<le> n" and "0 \<notin> set ps"
  shows "\<exists>out g'. nonzero_padding rng n ps g = Some (Inr out, g') \<and> length out = n \<and> 0 \<notin> set out"
  using assms(2,3)
proof (induction "n - length ps" arbitrary: ps g rule: less_induct)
  case less
  show ?case
  proof (cases "length ps = n")
    case True
    then show ?thesis using less.prems by (simp add: nonzero_padding.simps)
  next
    case False
    obtain b g' x where b: "rng (n - length ps + 8) g = (Inr b, g')" "x \<in> set b" "x \<noteq> 0" using assms(1) [of "n - length ps + 8" g] by auto
    let ?ps = "take n (ps @ filter (\<lambda>x. x \<noteq> 0) b)"
    have "filter (\<lambda>x. x \<noteq> 0) b \<noteq> []" using b(2,3) by (auto simp: filter_empty_conv)
    then have "n - length ?ps < n - length ps" using False less.prems(1) by (cases "filter (\<lambda>x. x \<noteq> 0) b") auto
    moreover have "0 \<notin> set ?ps" using less.prems(2) by (auto dest: in_set_takeD)
    ultimately have "\<exists>out g''. nonzero_padding rng n ?ps g' = Some (Inr out, g'') \<and> length out = n \<and> 0 \<notin> set out"
      by (intro less.hyps) auto
    then show ?thesis using False less.prems(1) b(1) by (subst nonzero_padding.simps) simp
  qed
qed

text \<open>C31: PKCS#1 v1.5 encryption padding returns for a generator that keeps giving some octet that is not zero, in a
  block of exactly the size of the key that unpads to the message; a message too long for the key is refused.\<close>

theorem pkcs1v15_pad_returns:
  assumes "\<forall>n g. 0 < n \<longrightarrow> (\<exists>b g'. rng n g = (Inr b, g') \<and> (\<exists>x \<in> set b. x \<noteq> 0))"
  shows "if length msg + 11 \<le> key_size then
      \<exists>out g'. pkcs1v15_encrypt_pad rng key_size msg g = Some (Inr out, g') \<and> length out = key_size
        \<and> pkcs1v15_encrypt_unpad out = Inr msg
    else pkcs1v15_encrypt_pad rng key_size msg g = Some (Inl rc_VALUE, g)"
proof (cases "length msg + 11 \<le> key_size")
  case True
  let ?n = "key_size - length msg - 3"
  obtain ps g' where ps: "nonzero_padding rng ?n [] g = Some (Inr ps, g')" "length ps = ?n" "0 \<notin> set ps"
    using padding_returns [of rng "[]" ?n g] assms by auto
  have "takeWhile (\<lambda>b. b \<noteq> 0) (ps @ 0 # msg) = ps" using ps(3) by (simp add: takeWhile_append)
  then have "pkcs1v15_encrypt_unpad ([0, 2] @ ps @ [0] @ msg) = Inr msg"
    using ps(2) True by (simp add: pkcs1v15_encrypt_unpad_def Let_def) arith
  moreover have "\<not> key_size < 11 \<and> \<not> key_size - 11 < length msg" "length ([0, 2 :: u8] @ ps @ [0] @ msg) = key_size"
    using True ps(2) by auto
  ultimately show ?thesis using True ps(1) by (simp add: pkcs1v15_encrypt_pad_def)
qed (auto simp: pkcs1v15_encrypt_pad_def)

section \<open>Witnesses\<close>

definition demo_rng :: "nat rng_bytes" where
  "demo_rng n g = (Inr (replicate n 7), g + n)"

theorem pkcs1v15_pad_returns_witness:
  "\<exists>out g'. pkcs1v15_encrypt_pad demo_rng 16 [1, 2] 0 = Some (Inr out, g') \<and> pkcs1v15_encrypt_unpad out = Inr [1, 2]"
  using pkcs1v15_pad_returns [of demo_rng "[1, 2]" 16 0] by (simp add: demo_rng_def) blast

theorem oaep_roundtrip_witness:
  "\<exists>out. oaep_encode (demo_env False) demo_rng alg_SHA256 128 [5, 6] [0] 0 = (Inr out, 32)
     \<and> oaep_decode (demo_env False) alg_SHA256 out [0] = Inr [5, 6]"
proof -
  have "is_supported (demo_env False) alg_SHA256" by (simp add: is_supported_def hash_algorithm_def)
  moreover have len: "output_len (demo_env False) alg_SHA256 = 32" using env_ok_demo [of False] by (simp add: env_ok_def)
  moreover have "demo_rng 32 0 = (Inr (replicate 32 7), 32)" by (simp add: demo_rng_def)
  ultimately show ?thesis
    using oaep_roundtrip [OF env_ok_demo [of False], of alg_SHA256 128 demo_rng 0 "replicate 32 7" 32 "[5, 6]" "[0]"]
    by (auto simp: MAX_KDF_BYTES_def)
qed

theorem pss_verifies_encoded_witness:
  "\<exists>em. pss_encode (demo_env False) demo_rng alg_SHA256 (replicate 32 1) 1024 0 = (Inr em, 94)
     \<and> pss_verify (demo_env False) alg_SHA256 (replicate 32 1) em 1024 = Inr ()"
proof -
  have "is_supported (demo_env False) alg_SHA256" by (simp add: is_supported_def hash_algorithm_def)
  moreover have len: "output_len (demo_env False) alg_SHA256 = 32" using env_ok_demo [of False] by (simp add: env_ok_def)
  moreover have "demo_rng 94 0 = (Inr (replicate 94 7), 94)" by (simp add: demo_rng_def)
  ultimately show ?thesis
    using pss_verifies_encoded [OF env_ok_demo [of False], of alg_SHA256 1024 demo_rng 0 "replicate 94 7" 94 "replicate 32 1" "replicate 32 1"]
    by auto
qed

theorem rsa_private_inverts_public_witness:
  "\<exists>k c. from_prime demo_bn [33] 3 [11] = Inr k \<and> public_op demo_bn (prv_public k) [2] = Inr c \<and> private_op demo_bn k c = Inr [2]"
proof -
  let ?k = "\<lparr>prv_public = \<lparr>pub_n = 33, pub_e = 3\<rparr>, prv_p = 11, prv_q = 3, prv_d = 7\<rparr>"
  have k: "from_prime demo_bn [33] 3 [11] = Inr ?k" by code_simp
  have c: "public_op demo_bn (prv_public ?k) [2] = Inr [8]" by code_simp
  have "is_prime 11" "is_prime 3" unfolding is_prime_bounded by code_simp+
  then show ?thesis
    using rsa_private_inverts_public [OF demo_bn_ok k, of 3 "[2]" "[8]"] c by (intro exI [of _ ?k] exI [of _ "[8]"]) (simp add: k octets_value_def)
qed

end
