(* ===== verification/Ecc.thy ===== *)
theory Ecc
  imports Bn Keys
begin

text \<open>
  Elliptic curves (\<open>src/tpm/crypto/ecc.rs\<close>): curves and points over the library's groups, key selection, ECDH,
  ECDSA, EC Schnorr and the signing half of ECDAA; and the test of a generated pair (\<open>src/tpm/fips.rs\<close>). A
  point is its affine coordinates, or None at infinity. The group operations are the parameter \<open>ec_lib\<close>; \<open>ec_ok\<close>
  says that the multiples of the generator are a cyclic group of prime order.
\<close>

abbreviation (input) rc_ECC_POINT :: u32 where "rc_ECC_POINT \<equiv> 0x0A7"

datatype nid = Secp224r1 | Prime256v1 | Secp384r1 | Secp521r1

type_synonym ec_point = "(int \<times> int) option"

record ec_lib =
  EC_degree :: "nid \<Rightarrow> nat"
  EC_order :: "nid \<Rightarrow> int"
  EC_curve_GFp :: "nid \<Rightarrow> int \<times> int \<times> int"
  EC_generator :: "nid \<Rightarrow> ec_point"
  EC_on_curve :: "nid \<Rightarrow> int \<Rightarrow> int \<Rightarrow> bool"
  EC_mul :: "nid \<Rightarrow> int \<Rightarrow> ec_point \<Rightarrow> ec_point"
  EC_add :: "nid \<Rightarrow> ec_point \<Rightarrow> ec_point \<Rightarrow> ec_point"

definition ec_ok :: "ec_lib \<Rightarrow> bool" where
  "ec_ok L \<longleftrightarrow> (\<forall>c.
     (let n = EC_order L c; G = EC_generator L c; len = (EC_degree L c + 7) div 8 in
       1 < n \<and> n < 256 ^ len \<and> (\<forall>k. 0 < k \<and> k < n \<longrightarrow> coprime k n)
       \<and> (\<forall>a b. 0 \<le> a \<and> 0 \<le> b \<longrightarrow> EC_mul L c a (EC_mul L c b G) = EC_mul L c (a * b) G
            \<and> EC_add L c (EC_mul L c a G) (EC_mul L c b G) = EC_mul L c (a + b) G)
       \<and> (\<forall>a. 0 \<le> a \<longrightarrow> EC_mul L c (a mod n) G = EC_mul L c a G \<and> (EC_mul L c a G = None) = (n dvd a))
       \<and> (\<forall>a x y. EC_mul L c a G = Some (x, y) \<longrightarrow>
            EC_on_curve L c x y \<and> 0 \<le> x \<and> x < 256 ^ len \<and> 0 \<le> y \<and> y < 256 ^ len)))"

section \<open>Curves and points\<close>

definition curve_nid :: "u16 \<Rightarrow> nid tpm_result" where
  "curve_nid c =
     (if c = curve_NIST_P224 then Inr Secp224r1
      else if c = curve_NIST_P256 then Inr Prime256v1
      else if c = curve_NIST_P384 then Inr Secp384r1
      else if c = curve_NIST_P521 then Inr Secp521r1
      else Inl rc_CURVE)"

definition curve_supported :: "u16 \<Rightarrow> bool" where
  "curve_supported c = is_ok (curve_nid c)"

record curve =
  cv_group :: nid
  cv_id :: u16

definition curve_new :: "u16 \<Rightarrow> curve tpm_result" where
  "curve_new c = res_bind (curve_nid c) (\<lambda>g. Inr \<lparr>cv_group = g, cv_id = c\<rparr>)"

definition curve_bits :: "ec_lib \<Rightarrow> curve \<Rightarrow> nat" where
  "curve_bits L c = EC_degree L (cv_group c)"

definition coordinate_size :: "ec_lib \<Rightarrow> curve \<Rightarrow> nat" where
  "coordinate_size L c = (curve_bits L c + 7) div 8"

definition curve_order :: "ec_lib \<Rightarrow> curve \<Rightarrow> bignum" where
  "curve_order L c = EC_order L (cv_group c)"

definition curve_parameters :: "ec_lib \<Rightarrow> curve \<Rightarrow> bignum \<times> bignum \<times> bignum" where
  "curve_parameters L c = EC_curve_GFp L (cv_group c)"

definition curve_generator :: "ec_lib \<Rightarrow> curve \<Rightarrow> ec_point" where
  "curve_generator L c = EC_generator L (cv_group c)"

definition point_from_coordinates :: "bn_lib \<Rightarrow> ec_lib \<Rightarrow> curve \<Rightarrow> bytes \<Rightarrow> bytes \<Rightarrow> ec_point tpm_result" where
  "point_from_coordinates B L c x y =
     (let bx = bn_from_bytes B x; by' = bn_from_bytes B y
      in if EC_on_curve L (cv_group c) bx by' then Inr (Some (bx, by')) else Inl rc_ECC_POINT)"

definition point_coordinates :: "bn_lib \<Rightarrow> ec_lib \<Rightarrow> curve \<Rightarrow> ec_point \<Rightarrow> (bytes \<times> bytes) tpm_result" where
  "point_coordinates B L c p =
     (case p of
        None \<Rightarrow> Inl rc_NO_RESULT
      | Some (x, y) \<Rightarrow>
          res_bind (bn_to_bytes_padded B (coordinate_size L c) x) (\<lambda>bx.
          res_bind (bn_to_bytes_padded B (coordinate_size L c) y) (\<lambda>by'. Inr (bx, by'))))"

definition generator_coordinates :: "bn_lib \<Rightarrow> ec_lib \<Rightarrow> curve \<Rightarrow> (bytes \<times> bytes) tpm_result" where
  "generator_coordinates B L c = point_coordinates B L c (curve_generator L c)"

definition point_multiply :: "ec_lib \<Rightarrow> curve \<Rightarrow> ec_point \<Rightarrow> bignum \<Rightarrow> ec_point" where
  "point_multiply L c p k = EC_mul L (cv_group c) k p"

definition point_add :: "ec_lib \<Rightarrow> curve \<Rightarrow> ec_point \<Rightarrow> ec_point \<Rightarrow> ec_point" where
  "point_add L c p q = EC_add L (cv_group c) p q"

definition multiply_generator :: "ec_lib \<Rightarrow> curve \<Rightarrow> bignum \<Rightarrow> ec_point" where
  "multiply_generator L c k = EC_mul L (cv_group c) k (EC_generator L (cv_group c))"

section \<open>Keys\<close>

record ecc_key =
  ek_curve :: curve
  ek_private :: bignum
  ek_x :: bytes
  ek_y :: bytes

definition clear_top :: "nat \<Rightarrow> bytes \<Rightarrow> bytes" where
  "clear_top spare b = (if 0 < spare then b[0 := b ! 0 AND drop_bit spare 0xFF] else b)"

text \<open>Candidates are drawn until one is a private key; the tries left are the first argument.\<close>

fun draw_private :: "bn_lib \<Rightarrow> ec_lib \<Rightarrow> curve \<Rightarrow> 'g rng_bytes \<Rightarrow> nat \<Rightarrow> ('g, bignum) st_op" where
  "draw_private B L c rng 0 g = (Inl rc_NO_RESULT, g)"
| "draw_private B L c rng (Suc tries) g =
     (case rng (coordinate_size L c) g of
        (Inl e, g) \<Rightarrow> (Inl e, g)
      | (Inr b, g) \<Rightarrow>
          (let k = bn_from_bytes B (clear_top (coordinate_size L c * 8 - BN_num_bits B (curve_order L c)) b)
           in if k = 0 \<or> curve_order L c \<le> k then draw_private B L c rng tries g else (Inr k, g)))"

definition private_key_from_rng :: "bn_lib \<Rightarrow> ec_lib \<Rightarrow> curve \<Rightarrow> 'g rng_bytes \<Rightarrow> ('g, bignum) st_op" where
  "private_key_from_rng B L c rng = draw_private B L c rng 1000"

definition private_key_extra_bits :: "bn_lib \<Rightarrow> ec_lib \<Rightarrow> curve \<Rightarrow> 'g rng_bytes \<Rightarrow> ('g, bignum) st_op" where
  "private_key_extra_bits B L c rng =
     (let wanted = BN_num_bits B (curve_order L c) + 64
      in st_bind (rng ((wanted + 7) div 8)) (\<lambda>b.
           let candidate = bn_from_bytes B (clear_top (length b * 8 - wanted) b)
           in st_return (BN_add B (BN_nnmod B candidate (BN_sub B (curve_order L c) 1)) 1)))"

definition key_from_private :: "bn_lib \<Rightarrow> ec_lib \<Rightarrow> curve \<Rightarrow> bignum \<Rightarrow> ecc_key tpm_result" where
  "key_from_private B L c d =
     res_bind (point_coordinates B L c (multiply_generator L c d)) (\<lambda>(x, y).
       Inr \<lparr>ek_curve = c, ek_private = d, ek_x = x, ek_y = y\<rparr>)"

definition pairwise_generated_ecc :: "bn_lib \<Rightarrow> ec_lib \<Rightarrow> ecc_key \<Rightarrow> unit tpm_result" where
  "pairwise_generated_ecc B L k =
     (let p = multiply_generator L (ek_curve k) (ek_private k)
      in if p = None then Inl rc_FAILURE
         else res_bind (point_coordinates B L (ek_curve k) p) (\<lambda>(x, y).
           if x \<noteq> ek_x k \<or> y \<noteq> ek_y k then Inl rc_FAILURE else Inr ()))"

definition ecc_generate :: "bn_lib \<Rightarrow> ec_lib \<Rightarrow> u16 \<Rightarrow> 'g rng_bytes \<Rightarrow> ('g, ecc_key) st_op" where
  "ecc_generate B L curve_id rng =
     st_bind (st_lift (curve_new curve_id)) (\<lambda>c.
     st_bind (private_key_from_rng B L c rng) (\<lambda>d.
     st_bind (st_lift (point_coordinates B L c (multiply_generator L c d))) (\<lambda>(x, y).
       let k = \<lparr>ek_curve = c, ek_private = d, ek_x = x, ek_y = y\<rparr>
       in st_bind (st_lift (pairwise_generated_ecc B L k)) (\<lambda>_. st_return k))))"

definition ecdh :: "bn_lib \<Rightarrow> ec_lib \<Rightarrow> curve \<Rightarrow> bignum \<Rightarrow> bytes \<Rightarrow> bytes \<Rightarrow> (bytes \<times> bytes) tpm_result" where
  "ecdh B L c d x y =
     res_bind (point_from_coordinates B L c x y) (\<lambda>peer.
       let shared = point_multiply L c peer d
       in if shared = None then Inl rc_NO_RESULT else point_coordinates B L c shared)"

section \<open>Signatures\<close>

record ecc_signature =
  sig_r :: bytes
  sig_s :: bytes

definition digest_to_scalar :: "bn_lib \<Rightarrow> ec_lib \<Rightarrow> curve \<Rightarrow> bytes \<Rightarrow> bignum" where
  "digest_to_scalar B L c dg =
     (let keep = min (BN_num_bits B (curve_order L c)) (length dg * 8);
          n = (keep + 7) div 8;
          v = bn_from_bytes B (take n dg);
          extra = n * 8 - keep
      in if 0 < extra then BN_rshift B v extra else v)"

definition signature_of :: "bn_lib \<Rightarrow> nat \<Rightarrow> bignum \<Rightarrow> bignum \<Rightarrow> ecc_signature tpm_result" where
  "signature_of B len r s =
     res_bind (bn_to_bytes_padded B len r) (\<lambda>br.
     res_bind (bn_to_bytes_padded B len s) (\<lambda>bs. Inr \<lparr>sig_r = br, sig_s = bs\<rparr>))"

fun ecdsa_try :: "bn_lib \<Rightarrow> ec_lib \<Rightarrow> curve \<Rightarrow> bignum \<Rightarrow> bytes \<Rightarrow> 'g rng_bytes \<Rightarrow> nat \<Rightarrow> ('g, ecc_signature) st_op" where
  "ecdsa_try B L c d dg rng 0 g = (Inl rc_NO_RESULT, g)"
| "ecdsa_try B L c d dg rng (Suc tries) g =
     (case private_key_from_rng B L c rng g of
        (Inl e, g) \<Rightarrow> (Inl e, g)
      | (Inr k, g) \<Rightarrow>
          (let point = multiply_generator L c k; n = curve_order L c
           in if point = None then ecdsa_try B L c d dg rng tries g
              else case point_coordinates B L c point of
                Inl e \<Rightarrow> (Inl e, g)
              | Inr (x, _) \<Rightarrow>
                  (let r = BN_nnmod B (bn_from_bytes B x) n
                   in if r = 0 then ecdsa_try B L c d dg rng tries g
                      else case bn_mod_inverse B k n of
                        Inl e \<Rightarrow> (Inl e, g)
                      | Inr k_inv \<Rightarrow>
                          (let rd = BN_nnmod B (BN_mul B r d) n;
                               sum = BN_nnmod B (BN_add B (digest_to_scalar B L c dg) rd) n;
                               s = BN_nnmod B (BN_mul B k_inv sum) n
                           in if s = 0 then ecdsa_try B L c d dg rng tries g
                              else (signature_of B (coordinate_size L c) r s, g)))))"

definition ecdsa_sign :: "bn_lib \<Rightarrow> ec_lib \<Rightarrow> curve \<Rightarrow> bignum \<Rightarrow> bytes \<Rightarrow> 'g rng_bytes \<Rightarrow> ('g, ecc_signature) st_op" where
  "ecdsa_sign B L c d dg rng = ecdsa_try B L c d dg rng 1000"

definition ecdsa_verify :: "bn_lib \<Rightarrow> ec_lib \<Rightarrow> curve \<Rightarrow> bytes \<Rightarrow> bytes \<Rightarrow> bytes \<Rightarrow> ecc_signature \<Rightarrow> unit tpm_result" where
  "ecdsa_verify B L c qx qy dg sig =
     (let n = curve_order L c; r = bn_from_bytes B (sig_r sig); s = bn_from_bytes B (sig_s sig)
      in if r = 0 \<or> s = 0 \<or> n \<le> r \<or> n \<le> s then Inl rc_SIGNATURE
         else let e = digest_to_scalar B L c dg
           in res_bind (bn_mod_inverse B s n) (\<lambda>s_inv.
              let u1 = BN_nnmod B (BN_mul B e s_inv) n; u2 = BN_nnmod B (BN_mul B r s_inv) n
              in res_bind (point_from_coordinates B L c qx qy) (\<lambda>public.
                 let sum = point_add L c (multiply_generator L c u1) (point_multiply L c public u2)
                 in if sum = None then Inl rc_SIGNATURE
                    else res_bind (point_coordinates B L c sum) (\<lambda>(x, _).
                      if BN_nnmod B (bn_from_bytes B x) n \<noteq> r then Inl rc_SIGNATURE else Inr ()))))"

fun ecschnorr_try ::
  "env \<Rightarrow> bn_lib \<Rightarrow> ec_lib \<Rightarrow> curve \<Rightarrow> bignum \<Rightarrow> u16 \<Rightarrow> bytes \<Rightarrow> 'g rng_bytes \<Rightarrow> nat \<Rightarrow> ('g, ecc_signature) st_op" where
  "ecschnorr_try E B L c d a dg rng 0 g = (Inl rc_NO_RESULT, g)"
| "ecschnorr_try E B L c d a dg rng (Suc tries) g =
     (case private_key_from_rng B L c rng g of
        (Inl e, g) \<Rightarrow> (Inl e, g)
      | (Inr k, g) \<Rightarrow>
          (let point = multiply_generator L c k; n = curve_order L c
           in if point = None then ecschnorr_try E B L c d a dg rng tries g
              else case res_bind (point_coordinates B L c point) (\<lambda>(x, _). digest_parts E a [x, dg]) of
                Inl e \<Rightarrow> (Inl e, g)
              | Inr e \<Rightarrow>
                  (let r = BN_nnmod B (bn_from_bytes B e) n
                   in if r = 0 then ecschnorr_try E B L c d a dg rng tries g
                      else let rd = BN_nnmod B (BN_mul B r d) n; s = BN_nnmod B (BN_add B k rd) n
                        in if s = 0 then ecschnorr_try E B L c d a dg rng tries g
                           else (signature_of B (coordinate_size L c) r s, g))))"

definition ecschnorr_sign ::
  "env \<Rightarrow> bn_lib \<Rightarrow> ec_lib \<Rightarrow> curve \<Rightarrow> bignum \<Rightarrow> u16 \<Rightarrow> bytes \<Rightarrow> 'g rng_bytes \<Rightarrow> ('g, ecc_signature) st_op" where
  "ecschnorr_sign E B L c d a dg rng =
     st_bind (st_lift (hash_size E a)) (\<lambda>_. ecschnorr_try E B L c d a dg rng 1000)"

definition ecschnorr_verify ::
  "env \<Rightarrow> bn_lib \<Rightarrow> ec_lib \<Rightarrow> curve \<Rightarrow> bytes \<Rightarrow> bytes \<Rightarrow> u16 \<Rightarrow> bytes \<Rightarrow> ecc_signature \<Rightarrow> unit tpm_result" where
  "ecschnorr_verify E B L c qx qy a dg sig =
     (let n = curve_order L c; r = bn_from_bytes B (sig_r sig); s = bn_from_bytes B (sig_s sig)
      in if r = 0 \<or> s = 0 \<or> n \<le> r \<or> n \<le> s then Inl rc_SIGNATURE
         else res_bind (point_from_coordinates B L c qx qy) (\<lambda>public.
           let sum = point_add L c (multiply_generator L c s) (point_multiply L c public (BN_sub B n r))
           in if sum = None then Inl rc_SIGNATURE
              else res_bind (point_coordinates B L c sum) (\<lambda>(x, _).
                   res_bind (digest_parts E a [x, dg]) (\<lambda>e.
                     if BN_nnmod B (bn_from_bytes B e) n \<noteq> r then Inl rc_SIGNATURE else Inr ()))))"

fun ecdaa_try ::
  "env \<Rightarrow> bn_lib \<Rightarrow> ec_lib \<Rightarrow> curve \<Rightarrow> bignum \<Rightarrow> bignum \<Rightarrow> u16 \<Rightarrow> bytes \<Rightarrow> 'g rng_bytes \<Rightarrow> nat \<Rightarrow> ('g, ecc_signature) st_op" where
  "ecdaa_try E B L c d r a dg rng 0 g = (Inl rc_NO_RESULT, g)"
| "ecdaa_try E B L c d r a dg rng (Suc tries) g =
     (case private_key_from_rng B L c rng g of
        (Inl e, g) \<Rightarrow> (Inl e, g)
      | (Inr k, g) \<Rightarrow>
          (let n = curve_order L c
           in case res_bind (bn_to_bytes_padded B (coordinate_size L c) k) (\<lambda>kb.
                   res_bind (digest_parts E a [kb, dg]) (\<lambda>h. Inr (kb, BN_nnmod B (bn_from_bytes B h) n))) of
                Inl e \<Rightarrow> (Inl e, g)
              | Inr (kb, t) \<Rightarrow>
                  (let td = BN_nnmod B (BN_mul B t d) n; s = BN_nnmod B (BN_add B r td) n
                   in if s = 0 then ecdaa_try E B L c d r a dg rng tries g
                      else (res_bind (bn_to_bytes_padded B (coordinate_size L c) s) (\<lambda>bs.
                              Inr \<lparr>sig_r = kb, sig_s = bs\<rparr>), g))))"

definition ecdaa_sign ::
  "env \<Rightarrow> bn_lib \<Rightarrow> ec_lib \<Rightarrow> curve \<Rightarrow> bignum \<Rightarrow> bytes \<Rightarrow> u16 \<Rightarrow> bytes \<Rightarrow> 'g rng_bytes \<Rightarrow> ('g, ecc_signature) st_op" where
  "ecdaa_sign E B L c d commit_r a dg rng =
     (let r = BN_nnmod B (bn_from_bytes B commit_r) (curve_order L c)
      in if r = 0 then st_fail rc_VALUE else ecdaa_try E B L c d r a dg rng 1000)"

section \<open>What is signed verifies\<close>

lemma ec_group:
  fixes L :: ec_lib and c :: curve
  assumes "ec_ok L"
  defines "n \<equiv> curve_order L c" and "len \<equiv> coordinate_size L c"
  shows "1 < n" "n < 256 ^ len" "0 < k \<Longrightarrow> k < n \<Longrightarrow> coprime k n"
    "0 \<le> a \<Longrightarrow> 0 \<le> b \<Longrightarrow> point_multiply L c (multiply_generator L c b) a = multiply_generator L c (a * b)"
    "0 \<le> a \<Longrightarrow> 0 \<le> b \<Longrightarrow> point_add L c (multiply_generator L c a) (multiply_generator L c b) = multiply_generator L c (a + b)"
    "0 \<le> a \<Longrightarrow> multiply_generator L c (a mod n) = multiply_generator L c a"
    "0 \<le> a \<Longrightarrow> (multiply_generator L c a = None) = (n dvd a)"
    "multiply_generator L c a = Some (x, y) \<Longrightarrow>
       EC_on_curve L (cv_group c) x y \<and> 0 \<le> x \<and> x < 256 ^ len \<and> 0 \<le> y \<and> y < 256 ^ len"
  using assms(1)
  by (simp_all add: ec_ok_def Let_def n_def len_def curve_order_def coordinate_size_def curve_bits_def
      point_multiply_def point_add_def multiply_generator_def)

lemma draw_private_range:
  assumes "bn_ok B" and "draw_private B L c rng tries g = (Inr k, g')"
  shows "0 < k \<and> k < curve_order L c"
  using assms(2)
proof (induction tries arbitrary: g)
  case (Suc tries)
  obtain x h where "rng (coordinate_size L c) g = (x, h)" by fastforce
  then show ?case
    using Suc by (cases x) (auto simp: Let_def bn_arith(5) [OF assms(1)] octets_value_def split: if_splits)
qed simp

lemma point_coordinates_exact:
  assumes "bn_ok B" and "ec_ok L" and "multiply_generator L c k = Some (x, y)"
  shows "\<exists>bx by'. point_coordinates B L c (Some (x, y)) = Inr (bx, by') \<and> bn_from_bytes B bx = x \<and> bn_from_bytes B by' = y
    \<and> point_from_coordinates B L c bx by' = Inr (Some (x, y))"
proof -
  note xy = ec_group(8) [OF assms(2,3)]
  then obtain bx by' where b: "bn_to_bytes_padded B (coordinate_size L c) x = Inr bx" "bn_to_bytes_padded B (coordinate_size L c) y = Inr by'"
    using bn_to_bytes_padded_exact [OF assms(1)] by simp
  have "bn_from_bytes B bx = x" "bn_from_bytes B by' = y"
    using bn_read_written(1) [OF assms(1) _ b(1)] bn_read_written(1) [OF assms(1) _ b(2)] xy by simp_all
  then show ?thesis using b xy by (simp add: point_coordinates_def point_from_coordinates_def Let_def)
qed

lemma signature_of_exact:
  assumes "bn_ok B" and "ec_ok L" and "0 \<le> r" "r < curve_order L c" "0 \<le> s" "s < curve_order L c"
    and "signature_of B (coordinate_size L c) r s = Inr sig"
  shows "bn_from_bytes B (sig_r sig) = r" "bn_from_bytes B (sig_s sig) = s"
  using assms(7) bn_read_written [OF assms(1)] assms(3,5) by (auto simp: signature_of_def res_bind_eq_Inr)

lemma digest_to_scalar_nonneg: "bn_ok B \<Longrightarrow> 0 \<le> digest_to_scalar B L c dg"
  by (simp add: digest_to_scalar_def Let_def bn_arith bn_nonneg_arith pos_imp_zdiv_nonneg_iff)

text \<open>The arithmetic of ECDSA: with the inverse of \<open>s\<close> the nonce comes back.\<close>

lemma ecdsa_arithmetic:
  fixes n k kinv s sinv e r d :: int
  assumes "kinv * k mod n = 1" and "s = kinv * ((e + r * d mod n) mod n) mod n" and "sinv * s mod n = 1"
  shows "((e * sinv mod n) + (r * sinv mod n) * d) mod n = k mod n"
proof -
  let ?m = "e + r * d"
  have "((e * sinv mod n) + (r * sinv mod n) * d) mod n = (e * sinv + r * sinv * d) mod n"
    by (rule mod_add_cong) (simp_all only: mod_simps mod_mod_trivial)
  also have "\<dots> = (sinv * ?m) mod n" by (simp add: algebra_simps)
  also have "\<dots> = (sinv * ?m * (kinv * k mod n)) mod n" by (simp add: assms(1))
  also have "\<dots> = (sinv * ?m * (kinv * k)) mod n" by (simp only: mod_simps)
  also have "sinv * ?m * (kinv * k) = sinv * (kinv * ?m) * k" by (simp add: algebra_simps)
  also have "sinv * (kinv * ?m) * k mod n = (sinv * (kinv * ?m mod n) * k) mod n"
    by (rule mod_mult_cong) (simp_all only: mod_mult_right_eq)
  also have "kinv * ?m mod n = s" unfolding assms(2) by (simp only: mod_simps)
  also have "sinv * s * k mod n = ((sinv * s mod n) * k) mod n" by (simp only: mod_simps)
  finally show ?thesis by (simp add: assms(3))
qed

text \<open>A key pair: a private key in range and the octets of its point.\<close>

definition key_pair :: "bn_lib \<Rightarrow> ec_lib \<Rightarrow> curve \<Rightarrow> bignum \<Rightarrow> bytes \<Rightarrow> bytes \<Rightarrow> bool" where
  "key_pair B L c d qx qy \<longleftrightarrow> 0 < d \<and> d < curve_order L c \<and> point_coordinates B L c (multiply_generator L c d) = Inr (qx, qy)"

lemma coordinates_finite: "point_coordinates B L c p = Inr xy \<Longrightarrow> p \<noteq> None"
  by (cases p) (simp_all add: point_coordinates_def)

lemma key_pair_point:
  assumes "bn_ok B" and "ec_ok L" and "key_pair B L c d qx qy"
  shows "point_from_coordinates B L c qx qy = Inr (multiply_generator L c d)"
proof -
  have "multiply_generator L c d \<noteq> None"
    using coordinates_finite [of B L c "multiply_generator L c d" "(qx, qy)"] assms(3) by (simp add: key_pair_def)
  then obtain x y where p: "multiply_generator L c d = Some (x, y)" by auto
  from point_coordinates_exact [OF assms(1,2) p] assms(3) show ?thesis by (auto simp: key_pair_def p)
qed

lemma ecdsa_once:
  assumes B: "bn_ok B" and L: "ec_ok L" and q: "key_pair B L c d qx qy" and k: "0 < k" "k < curve_order L c"
    and x: "point_coordinates B L c (multiply_generator L c k) = Inr (x, y)"
    and r: "r = bn_from_bytes B x mod curve_order L c" "r \<noteq> 0"
    and inv: "bn_mod_inverse B k (curve_order L c) = Inr k_inv"
    and s: "s = k_inv * ((digest_to_scalar B L c dg + r * d mod curve_order L c) mod curve_order L c) mod curve_order L c" "s \<noteq> 0"
    and sig: "signature_of B (coordinate_size L c) r s = Inr sig"
  shows "ecdsa_verify B L c qx qy dg sig = Inr ()"
proof -
  let ?n = "curve_order L c" and ?e = "digest_to_scalar B L c dg"
  note n = ec_group(1) [OF L, of c]
  have d: "0 \<le> d" using q by (simp add: key_pair_def)
  have range: "0 \<le> r" "r < ?n" "0 \<le> s" "s < ?n" using n r(1) s(1) by simp_all
  have parts: "bn_from_bytes B (sig_r sig) = r" "bn_from_bytes B (sig_s sig) = s"
    by (rule signature_of_exact [OF B L range sig])+
  have "coprime s ?n" using ec_group(3) [OF L, of s c] range s(2) by simp
  then obtain s_inv where si: "bn_mod_inverse B s ?n = Inr s_inv" using bn_inverse_total [OF B range(3) n] by auto
  then have sinv: "0 \<le> s_inv" "s_inv * s mod ?n = 1" using bn_inverse [OF B range(3) n] by auto
  have kinv: "k_inv * k mod ?n = 1" using bn_inverse [OF B _ n inv] k by simp
  let ?u = "?e * s_inv mod ?n" and ?v = "r * s_inv mod ?n"
  have u: "0 \<le> ?u" "0 \<le> ?v" "0 \<le> ?v * d" using n d by simp_all
  have "point_add L c (multiply_generator L c ?u) (point_multiply L c (multiply_generator L c d) ?v)
      = multiply_generator L c (?u + ?v * d)"
    using ec_group(4) [OF L u(2) d] ec_group(5) [OF L u(1,3)] by simp
  also have "\<dots> = multiply_generator L c ((?u + ?v * d) mod ?n)" using ec_group(6) [OF L, of "?u + ?v * d" c] u by simp
  also have "(?u + ?v * d) mod ?n = k mod ?n" by (rule ecdsa_arithmetic [OF kinv s(1) sinv(2)])
  also have "k mod ?n = k" using k by simp
  finally have sum: "point_add L c (multiply_generator L c ?u) (point_multiply L c (multiply_generator L c d) ?v) = multiply_generator L c k" .
  have "multiply_generator L c k \<noteq> None" by (rule coordinates_finite [OF x])
  then show ?thesis
    using range s(2) r n pos_mod_bound [of ?n "bn_from_bytes B x"] si sum x key_pair_point [OF B L q]
    by (simp add: ecdsa_verify_def Let_def parts not_le bn_arith(1-4) [OF B] bn_nonneg_arith [OF B])
qed

lemma ecdsa_verifies:
  assumes "bn_ok B" and "ec_ok L" and "key_pair B L c d qx qy" and "ecdsa_sign B L c d dg rng g = (Inr sig, g')"
  shows "ecdsa_verify B L c qx qy dg sig = Inr ()"
proof -
  note n = ec_group(1) [OF assms(2), of c]
  have "ecdsa_try B L c d dg rng tries g = (Inr sig, g') \<Longrightarrow> ?thesis" for tries g
  proof (induction tries arbitrary: g)
    case (Suc tries)
    obtain x h where draw: "private_key_from_rng B L c rng g = (x, h)" by fastforce
    show ?case
    proof (cases x)
      case (Inr k)
      have k: "0 < k" "k < curve_order L c"
        using draw_private_range [OF assms(1) draw [unfolded private_key_from_rng_def Inr]] by simp_all
      let ?n = "curve_order L c" and ?p = "multiply_generator L c k"
      let ?r = "\<lambda>x. bn_from_bytes B x mod ?n"
      let ?s = "\<lambda>x k_inv. k_inv * ((digest_to_scalar B L c dg + ?r x * d mod ?n) mod ?n) mod ?n"
      have n0: "0 < ?n" using n by simp
      note once = Suc.prems [unfolded ecdsa_try.simps draw Inr Let_def prod.case sum.case bn_arith(1-4) [OF assms(1)]
          bn_nonneg_arith(2) [OF assms(1) n0]]
      show ?thesis
      proof (cases "?p = None")
        case True
        then show ?thesis using once Suc.IH by simp
      next
        case False
        then obtain xy where xy: "point_coordinates B L c ?p = Inr xy" using once by (cases "point_coordinates B L c ?p") auto
        obtain x y where xy': "xy = (x, y)" by (cases xy)
        note once = once [unfolded xy xy' prod.case sum.case if_not_P [OF False]]
        show ?thesis
        proof (cases "?r x = 0")
          case True
          then show ?thesis using once Suc.IH by simp
        next
          case r: False
          then obtain k_inv where inv: "bn_mod_inverse B k ?n = Inr k_inv" using once by (cases "bn_mod_inverse B k ?n") auto
          note once = once [unfolded inv sum.case if_not_P [OF r]]
          show ?thesis
          proof (cases "?s x k_inv = 0")
            case True
            then show ?thesis using once Suc.IH by simp
          next
            case s: False
            then have "signature_of B (coordinate_size L c) (?r x) (?s x k_inv) = Inr sig" using once by simp
            from ecdsa_once [OF assms(1-3) k xy [unfolded xy'] refl r inv refl s this] show ?thesis .
          qed
        qed
      qed
    qed (use Suc.prems draw in simp)
  qed simp
  then show ?thesis using assms(4) by (simp add: ecdsa_sign_def)
qed

lemma ecschnorr_once:
  assumes B: "bn_ok B" and L: "ec_ok L" and q: "key_pair B L c d qx qy" and k: "0 < k" "k < curve_order L c"
    and x: "point_coordinates B L c (multiply_generator L c k) = Inr (x, y)" and e: "digest_parts E a [x, dg] = Inr e"
    and r: "r = bn_from_bytes B e mod curve_order L c" "r \<noteq> 0"
    and s: "s = (k + r * d mod curve_order L c) mod curve_order L c" "s \<noteq> 0"
    and sig: "signature_of B (coordinate_size L c) r s = Inr sig"
  shows "ecschnorr_verify E B L c qx qy a dg sig = Inr ()"
proof -
  let ?n = "curve_order L c"
  note n = ec_group(1) [OF L, of c]
  have d: "0 \<le> d" using q by (simp add: key_pair_def)
  have range: "0 \<le> r" "r < ?n" "0 \<le> s" "s < ?n" using n r(1) s(1) by simp_all
  have parts: "bn_from_bytes B (sig_r sig) = r" "bn_from_bytes B (sig_s sig) = s"
    by (rule signature_of_exact [OF B L range sig])+
  have u: "0 \<le> ?n - r" "0 \<le> (?n - r) * d" using range d by simp_all
  have "point_add L c (multiply_generator L c s) (point_multiply L c (multiply_generator L c d) (?n - r))
      = multiply_generator L c (s + (?n - r) * d)"
    using ec_group(4) [OF L u(1) d] ec_group(5) [OF L range(3) u(2)] by simp
  also have "\<dots> = multiply_generator L c ((s + (?n - r) * d) mod ?n)" using ec_group(6) [OF L, of "s + (?n - r) * d" c] u range by simp
  also have "(s + (?n - r) * d) mod ?n = (k + r * d + (?n - r) * d) mod ?n"
    by (rule mod_add_cong) (simp_all only: s(1) mod_simps mod_mod_trivial)
  also have "k + r * d + (?n - r) * d = k + d * ?n" by (simp add: algebra_simps)
  also have "(k + d * ?n) mod ?n = k" using k by simp
  finally have sum: "point_add L c (multiply_generator L c s) (point_multiply L c (multiply_generator L c d) (?n - r)) = multiply_generator L c k" .
  have "multiply_generator L c k \<noteq> None" by (rule coordinates_finite [OF x])
  then show ?thesis
    using range s(2) r n e pos_mod_bound [of ?n "bn_from_bytes B e"] sum x key_pair_point [OF B L q]
    by (simp add: ecschnorr_verify_def Let_def parts not_le bn_arith(1-4) [OF B] bn_nonneg_arith [OF B])
qed

lemma ecschnorr_verifies:
  assumes "bn_ok B" and "ec_ok L" and "key_pair B L c d qx qy" and "ecschnorr_sign E B L c d a dg rng g = (Inr sig, g')"
  shows "ecschnorr_verify E B L c qx qy a dg sig = Inr ()"
proof -
  have "ecschnorr_try E B L c d a dg rng tries g = (Inr sig, g') \<Longrightarrow> ?thesis" for tries g
  proof (induction tries arbitrary: g)
    case (Suc tries)
    obtain z h where draw: "private_key_from_rng B L c rng g = (z, h)" by fastforce
    show ?case
    proof (cases z)
      case (Inr k)
      have k: "0 < k" "k < curve_order L c"
        using draw_private_range [OF assms(1) draw [unfolded private_key_from_rng_def Inr]] by simp_all
      let ?n = "curve_order L c" and ?p = "multiply_generator L c k"
      let ?r = "\<lambda>e. bn_from_bytes B e mod ?n"
      let ?s = "\<lambda>e. (k + ?r e * d mod ?n) mod ?n"
      have n0: "0 < ?n" using ec_group(1) [OF assms(2), of c] by simp
      note once = Suc.prems [unfolded ecschnorr_try.simps draw Inr Let_def prod.case sum.case bn_arith(1-4) [OF assms(1)]
          bn_nonneg_arith(2) [OF assms(1) n0]]
      show ?thesis
      proof (cases "?p = None")
        case True
        then show ?thesis using once Suc.IH by simp
      next
        case False
        then obtain x y where xy: "point_coordinates B L c ?p = Inr (x, y)" using once by (cases "point_coordinates B L c ?p") auto
        obtain e where e: "digest_parts E a [x, dg] = Inr e" using once False xy by (cases "digest_parts E a [x, dg]") auto
        note once = once [unfolded xy e res_bind_simps prod.case sum.case if_not_P [OF False]]
        show ?thesis
        proof (cases "?r e = 0 \<or> ?s e = 0")
          case True
          then show ?thesis using once Suc.IH e by (auto split: if_splits)
        next
          case False
          then have rs: "?r e \<noteq> 0" "?s e \<noteq> 0" by simp_all
          then have "signature_of B (coordinate_size L c) (?r e) (?s e) = Inr sig" using once e by simp
          from ecschnorr_once [OF assms(1-3) k xy e refl rs(1) refl rs(2) this] show ?thesis .
        qed
      qed
    qed (use Suc.prems draw in simp)
  qed simp
  then show ?thesis using assms(4) by (auto simp: ecschnorr_sign_def st_bind_def split: sum.splits)
qed

text \<open>C29: what is signed verifies. Over a group of prime order, whatever the generator of nonces, what \<open>ecdsa_sign\<close>
  and \<open>ecschnorr_sign\<close> answer for a private key and a digest is accepted by their verifications under
  the key's public point.\<close>

theorem ecc_signature_verifies:
  assumes "bn_ok B" and "ec_ok L" and "key_pair B L c d qx qy"
  shows "(case fst (ecdsa_sign B L c d dg rng g) of Inr sig \<Rightarrow> ecdsa_verify B L c qx qy dg sig = Inr () | Inl _ \<Rightarrow> True)
    \<and> (case fst (ecschnorr_sign E B L c d a dg rng g) of
         Inr sig \<Rightarrow> ecschnorr_verify E B L c qx qy a dg sig = Inr () | Inl _ \<Rightarrow> True)"
proof
  show "case fst (ecdsa_sign B L c d dg rng g) of Inr sig \<Rightarrow> ecdsa_verify B L c qx qy dg sig = Inr () | Inl _ \<Rightarrow> True"
    using ecdsa_verifies [OF assms, of dg rng g] by (cases "ecdsa_sign B L c d dg rng g") (auto split: sum.split)
  show "case fst (ecschnorr_sign E B L c d a dg rng g) of
      Inr sig \<Rightarrow> ecschnorr_verify E B L c qx qy a dg sig = Inr () | Inl _ \<Rightarrow> True"
    using ecschnorr_verifies [OF assms, of E a dg rng g] by (cases "ecschnorr_sign E B L c d a dg rng g") (auto split: sum.split)
qed

section \<open>A group to compute with\<close>

text \<open>The integers modulo 13, with the element \<open>k\<close> at the coordinates \<open>(k, 0)\<close>.\<close>

definition demo_element :: "int \<Rightarrow> ec_point" where
  "demo_element k = (if k mod 13 = 0 then None else Some (k mod 13, 0))"

definition demo_log :: "ec_point \<Rightarrow> int" where
  "demo_log p = (case p of None \<Rightarrow> 0 | Some (k, _) \<Rightarrow> k)"

definition demo_ec :: ec_lib where
  "demo_ec = \<lparr>EC_degree = \<lambda>_. 8, EC_order = \<lambda>_. 13, EC_curve_GFp = \<lambda>_. (13, 0, 0), EC_generator = \<lambda>_. Some (1, 0),
     EC_on_curve = \<lambda>_ x y. 0 < x \<and> x < 13 \<and> y = 0, EC_mul = \<lambda>_ k p. demo_element (k * demo_log p),
     EC_add = \<lambda>_ p q. demo_element (demo_log p + demo_log q)\<rparr>"

lemma demo_log_element [simp]: "demo_log (demo_element k) = k mod 13"
  by (simp add: demo_log_def demo_element_def)

lemma demo_element_mod [simp]: "demo_element (k mod 13) = demo_element k"
  by (simp add: demo_element_def)

lemma demo_ec_ok: "ec_ok demo_ec"
proof -
  have "coprime k 13" if "0 < k" "k < 13" for k :: int
  proof -
    have "is_prime 13" unfolding is_prime_bounded by code_simp
    moreover have "\<not> 13 dvd nat k" using that by (auto dest: dvd_imp_le)
    ultimately have "coprime 13 (nat k)" using prime_coprime [of 13 "nat k"] by simp
    then have "coprime (int 13) (int (nat k))" by (simp only: coprime_int_iff)
    moreover have "int (nat k) = k" using that by simp
    ultimately have "coprime 13 k" by (metis of_nat_numeral)
    then show ?thesis by (simp add: coprime_commute)
  qed
  moreover have "demo_element (a * (b mod 13)) = demo_element (a * b)" "demo_element (a mod 13 + b mod 13) = demo_element (a + b)" for a b
    by (simp_all add: demo_element_def mod_simps)
  moreover have "(demo_element a = None) = (13 dvd a)" for a by (simp add: demo_element_def dvd_eq_mod_eq_0)
  moreover have "demo_element a = Some (x, y) \<Longrightarrow> 0 < x \<and> x < 13 \<and> y = 0 \<and> 0 \<le> x \<and> x < 256 \<and> 0 \<le> y \<and> y < 256" for a x y
    using pos_mod_sign [of 13 a] by (auto simp: demo_element_def simp del: pos_mod_sign split: if_splits)
  ultimately show ?thesis
    by (auto simp: ec_ok_def demo_ec_def Let_def) (simp_all add: demo_log_def)
qed

theorem ecc_signature_verifies_witness:
  "let c = \<lparr>cv_group = Prime256v1, cv_id = 3\<rparr>; s = fst (ecdsa_sign demo_bn demo_ec c 5 [7] (\<lambda>n g. (Inr (replicate n 3), g)) (0 :: nat))
   in is_ok s \<and> (case s of Inr sig \<Rightarrow> ecdsa_verify demo_bn demo_ec c [5] [0] [7] sig = Inr () | Inl _ \<Rightarrow> True)"
proof -
  have "key_pair demo_bn demo_ec \<lparr>cv_group = Prime256v1, cv_id = 3\<rparr> 5 [5] [0]" by code_simp
  note verifies = ecc_signature_verifies [OF demo_bn_ok demo_ec_ok this, THEN conjunct1]
  have "is_ok (fst (ecdsa_sign demo_bn demo_ec \<lparr>cv_group = Prime256v1, cv_id = 3\<rparr> 5 [7]
      (\<lambda>n g. (Inr (replicate n 3), g)) (0 :: nat)))" by code_simp
  then show ?thesis unfolding Let_def by (rule conjI) (rule verifies)
qed

end
