(* ===== verification/Signature.thy ===== *)
theory Signature
  imports Keys Hierarchy
begin

text \<open>
  Signatures and tickets (\<open>src/tpm/structures/signature.rs\<close>): TPMT_SIGNATURE, the tickets of creation,
  authorization and hash checks, and TPMT_TK_VERIFIED, each with its reader, its writer and the octets between them.
\<close>

abbreviation (input) st_CREATION :: u16 where "st_CREATION \<equiv> 0x8021"
abbreviation (input) st_VERIFIED :: u16 where "st_VERIFIED \<equiv> 0x8022"
abbreviation (input) st_AUTH_SECRET :: u16 where "st_AUTH_SECRET \<equiv> 0x8023"
abbreviation (input) st_HASHCHECK :: u16 where "st_HASHCHECK \<equiv> 0x8024"
abbreviation (input) st_AUTH_SIGNED :: u16 where "st_AUTH_SIGNED \<equiv> 0x8025"
abbreviation (input) st_MESSAGE_VERIFIED :: u16 where "st_MESSAGE_VERIFIED \<equiv> 0x8026"
abbreviation (input) st_DIGEST_VERIFIED :: u16 where "st_DIGEST_VERIFIED \<equiv> 0x8027"

section \<open>Signatures\<close>

record signature_rsa =
  sr_hash :: u16
  sr_sig :: bytes

definition signature_rsa_put :: "signature_rsa \<Rightarrow> writer \<Rightarrow> writer" where
  "signature_rsa_put s w = tpm2b_put (sr_sig s) (w_u16 (sr_hash s) w)"

definition signature_rsa_get :: "env \<Rightarrow> reader \<Rightarrow> (signature_rsa \<times> reader) tpm_result" where
  "signature_rsa_get E r =
     res_bind (r_u16 r) (\<lambda>(a, r).
       if digest_size E a = None then Inl rc_HASH
       else res_bind (tpm2b_get MAX_RSA_KEY_BYTES r) (\<lambda>(v, r). Inr (\<lparr>sr_hash = a, sr_sig = v\<rparr>, r)))"

record signature_ecc =
  se_hash :: u16
  signature_r :: bytes
  signature_s :: bytes

definition signature_ecc_put :: "signature_ecc \<Rightarrow> writer \<Rightarrow> writer" where
  "signature_ecc_put s w = tpm2b_put (signature_s s) (tpm2b_put (signature_r s) (w_u16 (se_hash s) w))"

definition signature_ecc_get :: "env \<Rightarrow> reader \<Rightarrow> (signature_ecc \<times> reader) tpm_result" where
  "signature_ecc_get E r =
     res_bind (r_u16 r) (\<lambda>(a, r).
       if digest_size E a = None then Inl rc_HASH
       else res_bind (tpm2b_get MAX_ECC_KEY_BYTES r) (\<lambda>(x, r).
            res_bind (tpm2b_get MAX_ECC_KEY_BYTES r) (\<lambda>(y, r).
              Inr (\<lparr>se_hash = a, signature_r = x, signature_s = y\<rparr>, r))))"

datatype signature_value = Rsa_signature signature_rsa | Ecc_signature signature_ecc | Hmac_signature tpmt_ha | Null_signature

record tpmt_signature =
  sig_alg :: u16
  sig_value :: signature_value

definition signature_null :: tpmt_signature where
  "signature_null = \<lparr>sig_alg = alg_NULL, sig_value = Null_signature\<rparr>"

definition signature_is_null :: "tpmt_signature \<Rightarrow> bool" where
  "signature_is_null s = (sig_alg s = alg_NULL)"

definition signature_hash_alg :: "tpmt_signature \<Rightarrow> u16 option" where
  "signature_hash_alg s =
     (case sig_value s of
        Rsa_signature v \<Rightarrow> Some (sr_hash v)
      | Ecc_signature v \<Rightarrow> Some (se_hash v)
      | Hmac_signature h \<Rightarrow> Some (ha_alg h)
      | Null_signature \<Rightarrow> None)"

fun signature_value_put :: "signature_value \<Rightarrow> writer \<Rightarrow> writer" where
  "signature_value_put (Rsa_signature v) w = signature_rsa_put v w"
| "signature_value_put (Ecc_signature v) w = signature_ecc_put v w"
| "signature_value_put (Hmac_signature h) w = tpmt_ha_put h w"
| "signature_value_put Null_signature w = w"

definition signature_put :: "tpmt_signature \<Rightarrow> writer \<Rightarrow> writer" where
  "signature_put s w = signature_value_put (sig_value s) (w_u16 (sig_alg s) w)"

definition signature_value_get :: "env \<Rightarrow> u16 \<Rightarrow> reader \<Rightarrow> (signature_value \<times> reader) tpm_result" where
  "signature_value_get E a r =
     (if a = alg_RSASSA \<or> a = alg_RSAPSS then
        res_bind (signature_rsa_get E r) (\<lambda>(v, r). Inr (Rsa_signature v, r))
      else if a = alg_ECDSA \<or> a = alg_ECDAA \<or> a = alg_SM2 \<or> a = alg_ECSCHNORR then
        res_bind (signature_ecc_get E r) (\<lambda>(v, r). Inr (Ecc_signature v, r))
      else if a = alg_HMAC then res_bind (tpmt_ha_get E r) (\<lambda>(h, r). Inr (Hmac_signature h, r))
      else if a = alg_NULL then Inr (Null_signature, r)
      else Inl rc_SCHEME)"

definition signature_get :: "env \<Rightarrow> reader \<Rightarrow> (tpmt_signature \<times> reader) tpm_result" where
  "signature_get E r =
     res_bind (r_u16 r) (\<lambda>(a, r).
     res_bind (signature_value_get E a r) (\<lambda>(v, r). Inr (\<lparr>sig_alg = a, sig_value = v\<rparr>, r)))"

section \<open>Tickets\<close>

record ticket =
  tk_tag :: u16
  tk_hierarchy :: u32
  tk_digest :: bytes

definition ticket_null :: "u16 \<Rightarrow> ticket" where
  "ticket_null tag = \<lparr>tk_tag = tag, tk_hierarchy = rh_NULL, tk_digest = []\<rparr>"

definition ticket_get :: "u16 list \<Rightarrow> reader \<Rightarrow> (ticket \<times> reader) tpm_result" where
  "ticket_get allowed r =
     res_bind (r_u16 r) (\<lambda>(tag, r).
       if tag \<notin> set allowed then Inl rc_TAG
       else res_bind (r_u32 r) (\<lambda>(h, r).
         if \<not> is_hierarchy_selector h then Inl rc_VALUE
         else res_bind (tpm2b_get MAX_DIGEST_SIZE r) (\<lambda>(d, r).
           Inr (\<lparr>tk_tag = tag, tk_hierarchy = h, tk_digest = d\<rparr>, r))))"

definition ticket_put :: "ticket \<Rightarrow> writer \<Rightarrow> writer" where
  "ticket_put t w = tpm2b_put (tk_digest t) (w_u32 (tk_hierarchy t) (w_u16 (tk_tag t) w))"

record verified_ticket =
  vt_tag :: u16
  vt_hierarchy :: u32
  vt_digest_alg :: "u16 option"
  vt_hmac :: bytes

definition verified_ticket_null :: verified_ticket where
  "verified_ticket_null = \<lparr>vt_tag = st_VERIFIED, vt_hierarchy = rh_NULL, vt_digest_alg = None, vt_hmac = []\<rparr>"

definition verified_ticket_put :: "verified_ticket \<Rightarrow> writer \<Rightarrow> writer" where
  "verified_ticket_put t w =
     (let w = w_u32 (vt_hierarchy t) (w_u16 (vt_tag t) w);
          w = (case vt_digest_alg t of Some a \<Rightarrow> w_u16 a w | None \<Rightarrow> w)
      in tpm2b_put (vt_hmac t) w)"

definition verified_metadata_get :: "env \<Rightarrow> u16 \<Rightarrow> reader \<Rightarrow> (u16 option \<times> reader) tpm_result" where
  "verified_metadata_get E tag r =
     (if tag = st_VERIFIED \<or> tag = st_MESSAGE_VERIFIED then Inr (None, r)
      else if tag = st_DIGEST_VERIFIED then
        res_bind (r_u16 r) (\<lambda>(a, r). if digest_size E a = None then Inl rc_HASH else Inr (Some a, r))
      else Inl rc_TAG)"

definition verified_ticket_get :: "env \<Rightarrow> reader \<Rightarrow> (verified_ticket \<times> reader) tpm_result" where
  "verified_ticket_get E r =
     res_bind (r_u16 r) (\<lambda>(tag, r).
     res_bind (r_u32 r) (\<lambda>(h, r).
       if \<not> is_hierarchy_selector h then Inl rc_VALUE
       else res_bind (verified_metadata_get E tag r) (\<lambda>(a, r).
            res_bind (tpm2b_get MAX_DIGEST_SIZE r) (\<lambda>(d, r).
              Inr (\<lparr>vt_tag = tag, vt_hierarchy = h, vt_digest_alg = a, vt_hmac = d\<rparr>, r)))))"

section \<open>The contracts\<close>

fun signature_value_ok :: "env \<Rightarrow> u16 \<Rightarrow> signature_value \<Rightarrow> bool" where
  "signature_value_ok E a (Rsa_signature v) =
     (a \<in> {alg_RSASSA, alg_RSAPSS} \<and> digest_size E (sr_hash v) \<noteq> None \<and> length (sr_sig v) \<le> MAX_RSA_KEY_BYTES)"
| "signature_value_ok E a (Ecc_signature v) =
     (a \<in> {alg_ECDSA, alg_ECDAA, alg_SM2, alg_ECSCHNORR} \<and> digest_size E (se_hash v) \<noteq> None
      \<and> length (signature_r v) \<le> MAX_ECC_KEY_BYTES \<and> length (signature_s v) \<le> MAX_ECC_KEY_BYTES)"
| "signature_value_ok E a (Hmac_signature h) = (a = alg_HMAC \<and> tpmt_ha_ok E h)"
| "signature_value_ok E a Null_signature = (a = alg_NULL)"

fun signature_value_enc :: "signature_value \<Rightarrow> bytes" where
  "signature_value_enc (Rsa_signature v) = to_be 2 (sr_hash v) @ enc_sized16 (sr_sig v) @ []"
| "signature_value_enc (Ecc_signature v) =
     to_be 2 (se_hash v) @ enc_sized16 (signature_r v) @ enc_sized16 (signature_s v) @ []"
| "signature_value_enc (Hmac_signature h) = tpmt_ha_enc h"
| "signature_value_enc Null_signature = []"

definition signature_enc :: "tpmt_signature \<Rightarrow> bytes" where
  "signature_enc s = to_be 2 (sig_alg s) @ signature_value_enc (sig_value s) @ []"

definition ticket_enc :: "ticket \<Rightarrow> bytes" where
  "ticket_enc t = to_be 2 (tk_tag t) @ to_be 4 (tk_hierarchy t) @ enc_sized16 (tk_digest t) @ []"

definition verified_ticket_ok :: "env \<Rightarrow> verified_ticket \<Rightarrow> bool" where
  "verified_ticket_ok E t \<longleftrightarrow> is_hierarchy_selector (vt_hierarchy t) \<and> length (vt_hmac t) \<le> MAX_DIGEST_SIZE
     \<and> (case vt_digest_alg t of
          None \<Rightarrow> vt_tag t \<in> {st_VERIFIED, st_MESSAGE_VERIFIED}
        | Some a \<Rightarrow> vt_tag t = st_DIGEST_VERIFIED \<and> digest_size E a \<noteq> None)"

definition verified_ticket_enc :: "verified_ticket \<Rightarrow> bytes" where
  "verified_ticket_enc t = to_be 2 (vt_tag t) @ to_be 4 (vt_hierarchy t)
     @ (case vt_digest_alg t of None \<Rightarrow> [] | Some a \<Rightarrow> to_be 2 a) @ enc_sized16 (vt_hmac t) @ []"

lemma rsa_signature_reads:
  assumes "digest_size E (sr_hash v) \<noteq> None" and "length (sr_sig v) \<le> MAX_RSA_KEY_BYTES"
  shows "reads (signature_rsa_get E) v (to_be 2 (sr_hash v) @ enc_sized16 (sr_sig v) @ [])"
proof -
  have "reads (signature_rsa_get E) \<lparr>sr_hash = sr_hash v, sr_sig = sr_sig v\<rparr> (to_be 2 (sr_hash v) @ enc_sized16 (sr_sig v) @ [])"
    unfolding signature_rsa_get_def
    by (rule reads_return | (rule reads_bind, rule reads_int tpm2b_reads) | rule reads_guard
        | (use assms in \<open>simp add: key_limits; fail\<close>))+
  then show ?thesis by (cases v) simp
qed

lemma ecc_signature_reads:
  assumes "digest_size E (se_hash v) \<noteq> None" and "length (signature_r v) \<le> MAX_ECC_KEY_BYTES"
    and "length (signature_s v) \<le> MAX_ECC_KEY_BYTES"
  shows "reads (signature_ecc_get E) v (to_be 2 (se_hash v) @ enc_sized16 (signature_r v) @ enc_sized16 (signature_s v) @ [])"
proof -
  have "reads (signature_ecc_get E) \<lparr>se_hash = se_hash v, signature_r = signature_r v, signature_s = signature_s v\<rparr>
      (to_be 2 (se_hash v) @ enc_sized16 (signature_r v) @ enc_sized16 (signature_s v) @ [])"
    unfolding signature_ecc_get_def
    by (rule reads_return | (rule reads_bind, rule reads_int tpm2b_reads) | rule reads_guard
        | (use assms in \<open>simp add: MAX_ECC_KEY_BYTES_def; fail\<close>))+
  then show ?thesis by (cases v) simp
qed

lemma signature_value_reads: "signature_value_ok E a v \<Longrightarrow> reads (signature_value_get E a) v (signature_value_enc v)"
proof (cases v)
  case (Rsa_signature s)
  assume "signature_value_ok E a v"
  then show ?thesis using readsD [OF rsa_signature_reads [of E s]]
    by (auto intro!: readsI simp: signature_value_get_def Rsa_signature)
next
  case (Ecc_signature s)
  assume "signature_value_ok E a v"
  then show ?thesis using readsD [OF ecc_signature_reads [of E s]]
    by (auto intro!: readsI simp: signature_value_get_def Ecc_signature)
next
  case (Hmac_signature h)
  assume "signature_value_ok E a v"
  then show ?thesis using tpmt_ha.get_enc [of E h]
    by (auto intro!: readsI simp: signature_value_get_def Hmac_signature)
next
  case Null_signature
  assume "signature_value_ok E a v"
  then show ?thesis by (auto intro!: readsI simp: signature_value_get_def Null_signature)
qed

lemma tpmt_ha_canonical: "tpmt_ha_get E r = Inr (h, r') \<Longrightarrow> tpmt_ha_ok E h \<and> rest r = tpmt_ha_enc h @ rest r'"
  by (auto simp: tpmt_ha_get_def res_bind_eq_Inr ok_or_eq_Inr tpmt_ha_ok_def tpmt_ha_enc_def split: if_splits
      dest!: r_int_canonical r_take_canonical)

lemma signature_value_canonical:
  "signature_value_get E a r = Inr (v, r') \<Longrightarrow> signature_value_ok E a v \<and> rest r = signature_value_enc v @ rest r'"
  by (auto simp: signature_value_get_def signature_rsa_get_def signature_ecc_get_def res_bind_eq_Inr split: if_splits
      dest!: tpm2b_canonical r_int_canonical tpmt_ha_canonical)

lemma signature_decoder: "decoder (signature_get E)"
  unfolding signature_get_def signature_value_get_def signature_rsa_get_def signature_ecc_get_def
  by (intro decoder_bind decoder_if decoder_return decoder_fail decoder_int tpm2b_decoder tpmt_ha.decoder_axioms)
     (simp_all add: key_limits MAX_ECC_KEY_BYTES_def)

interpretation signature: codec "signature_get E" signature_put signature_enc
    "\<lambda>s. signature_value_ok E (sig_alg s) (sig_value s)"
proof (rule codecI)
  show "decoder (signature_get E)" by (rule signature_decoder)
  show "signature_put s w = emit (signature_enc s) w" if "signature_value_ok E (sig_alg s) (sig_value s)" for s w
    using that by (cases "sig_value s")
      (auto simp: signature_put_def signature_enc_def signature_rsa_put_def signature_ecc_put_def tpm2b_put_enc
        writes_emit key_limits MAX_ECC_KEY_BYTES_def tpmt_ha.put_enc)
  show "reads (signature_get E) s (signature_enc s)" if ok: "signature_value_ok E (sig_alg s) (sig_value s)" for s
  proof -
    have "reads (signature_get E) \<lparr>sig_alg = sig_alg s, sig_value = sig_value s\<rparr> (signature_enc s)"
      unfolding signature_get_def signature_enc_def
      by (rule reads_return | (rule reads_bind, rule reads_int signature_value_reads) | rule ok)+
    then show ?thesis by (cases s) simp
  qed
qed

interpretation signature: canonical_codec "signature_get E" signature_put signature_enc
    "\<lambda>s. signature_value_ok E (sig_alg s) (sig_value s)"
  by unfold_locales
     (auto simp: signature_get_def res_bind_eq_Inr signature_enc_def dest!: r_int_canonical signature_value_canonical)

interpretation ticket: codec "ticket_get allowed" ticket_put ticket_enc
    "\<lambda>t. tk_tag t \<in> set allowed \<and> is_hierarchy_selector (tk_hierarchy t) \<and> length (tk_digest t) \<le> MAX_DIGEST_SIZE"
proof (rule codecI)
  show "decoder (ticket_get allowed)"
    unfolding ticket_get_def
    by (intro decoder_bind decoder_if decoder_return decoder_fail decoder_int tpm2b_decoder) (simp add: key_limits)
  show "ticket_put t w = emit (ticket_enc t) w"
    if "tk_tag t \<in> set allowed \<and> is_hierarchy_selector (tk_hierarchy t) \<and> length (tk_digest t) \<le> MAX_DIGEST_SIZE" for t w
    using that by (simp add: ticket_put_def ticket_enc_def tpm2b_put_enc writes_emit key_limits)
  show "reads (ticket_get allowed) t (ticket_enc t)"
    if ok: "tk_tag t \<in> set allowed \<and> is_hierarchy_selector (tk_hierarchy t) \<and> length (tk_digest t) \<le> MAX_DIGEST_SIZE" for t
  proof -
    have "reads (ticket_get allowed) \<lparr>tk_tag = tk_tag t, tk_hierarchy = tk_hierarchy t, tk_digest = tk_digest t\<rparr> (ticket_enc t)"
      unfolding ticket_get_def ticket_enc_def
      by (rule reads_return | (rule reads_bind, rule reads_int tpm2b_reads) | rule reads_guard
          | (use ok in \<open>simp add: key_limits; fail\<close>))+
    then show ?thesis by (cases t) simp
  qed
qed

interpretation ticket: canonical_codec "ticket_get allowed" ticket_put ticket_enc
    "\<lambda>t. tk_tag t \<in> set allowed \<and> is_hierarchy_selector (tk_hierarchy t) \<and> length (tk_digest t) \<le> MAX_DIGEST_SIZE"
  by unfold_locales
     (auto simp: ticket_get_def res_bind_eq_Inr ticket_enc_def split: if_splits dest!: r_int_canonical tpm2b_canonical)

interpretation verified_ticket: codec "verified_ticket_get E" verified_ticket_put verified_ticket_enc "verified_ticket_ok E"
proof (rule codecI)
  show "decoder (verified_ticket_get E)"
    unfolding verified_ticket_get_def verified_metadata_get_def
    by (intro decoder_bind decoder_if decoder_return decoder_fail decoder_int tpm2b_decoder) (simp add: key_limits)
  show "verified_ticket_put t w = emit (verified_ticket_enc t) w" if "verified_ticket_ok E t" for t w
    using that by (auto simp: verified_ticket_put_def verified_ticket_enc_def verified_ticket_ok_def tpm2b_put_enc
        writes_emit key_limits split: option.splits)
  show "reads (verified_ticket_get E) t (verified_ticket_enc t)" if ok: "verified_ticket_ok E t" for t
  proof -
    have meta: "reads (verified_metadata_get E (vt_tag t)) (vt_digest_alg t)
        (case vt_digest_alg t of None \<Rightarrow> [] | Some a \<Rightarrow> to_be 2 a)"
      using ok by (cases "vt_digest_alg t")
        (auto intro!: readsI simp: verified_metadata_get_def verified_ticket_ok_def r_u16_append)
    have "reads (verified_ticket_get E) \<lparr>vt_tag = vt_tag t, vt_hierarchy = vt_hierarchy t,
        vt_digest_alg = vt_digest_alg t, vt_hmac = vt_hmac t\<rparr> (verified_ticket_enc t)"
      unfolding verified_ticket_get_def verified_ticket_enc_def
      by (rule reads_return | (rule reads_bind, rule reads_int tpm2b_reads meta) | rule reads_guard
          | (use ok in \<open>simp add: verified_ticket_ok_def key_limits; fail\<close>))+
    then show ?thesis by (cases t) simp
  qed
qed

interpretation verified_ticket: canonical_codec "verified_ticket_get E" verified_ticket_put verified_ticket_enc
    "verified_ticket_ok E"
  by unfold_locales
     (auto simp: verified_ticket_get_def verified_metadata_get_def res_bind_eq_Inr verified_ticket_enc_def
       verified_ticket_ok_def split: if_splits dest!: r_int_canonical tpm2b_canonical)

end
