(* ===== verification/Frame.thy ===== *)
theory Frame
  imports Reply
begin

text \<open>
  What the command theories share on top of \<open>Reply\<close>: reading the handle area, looking at the state, answers with a
  field of bounded size, and a small logic of pre- and postconditions for operations that may fail. An error has a
  postcondition of its own, since the code's question mark operator keeps what was changed before it.
\<close>

definition put_new :: "nat \<Rightarrow> bytes \<Rightarrow> writer \<Rightarrow> writer tpm_result" where
  "put_new limit b w = res_bind (tpm2b_new limit b) (\<lambda>v. Inr (tpm2b_put v w))"

definition st_view :: "('s \<Rightarrow> 'a tpm_result) \<Rightarrow> ('s, 'a) st_op" where
  "st_view f = (\<lambda>s. (f s, s))"

text \<open>A command that starts by taking a handle of its handle area.\<close>

definition with_handle_area :: "nat \<Rightarrow> (u32 \<Rightarrow> command) \<Rightarrow> command" where
  "with_handle_area i k q = st_bind (st_lift (rq_handle q i)) (\<lambda>h. k h q)"

lemma st_view_apply [simp]: "st_view f s = (f s, s)"
  by (simp add: st_view_def)

lemma with_handle_area_apply:
  "with_handle_area i k q s = (case rq_handle q i of Inl e \<Rightarrow> (Inl e, s) | Inr h \<Rightarrow> k h q s)"
  by (simp add: with_handle_area_def st_bind_def split: sum.split)

section \<open>Triples\<close>

definition triple :: "('s \<Rightarrow> bool) \<Rightarrow> ('s, 'a) st_op \<Rightarrow> ('a \<Rightarrow> 's \<Rightarrow> bool) \<Rightarrow> ('s \<Rightarrow> bool) \<Rightarrow> bool" where
  "triple P m Q X \<longleftrightarrow> (\<forall>s. P s \<longrightarrow> (case m s of (Inl e, s') \<Rightarrow> X s' | (Inr x, s') \<Rightarrow> Q x s'))"

named_theorems triple_rules

lemma tripleD: "triple P m Q X \<Longrightarrow> P s \<Longrightarrow> m s = (Inr x, s') \<Longrightarrow> Q x s'"
  "triple P m Q X \<Longrightarrow> P s \<Longrightarrow> m s = (Inl e, s') \<Longrightarrow> X s'"
  by (force simp: triple_def)+

lemma tripleI: "(\<And>s. P s \<Longrightarrow> case m s of (Inl e, s') \<Rightarrow> X s' | (Inr x, s') \<Rightarrow> Q x s') \<Longrightarrow> triple P m Q X"
  by (simp add: triple_def)

lemma triple_bind [triple_rules]:
  "triple P m R X \<Longrightarrow> (\<And>x. triple (R x) (k x) Q X) \<Longrightarrow> triple P (st_bind m k) Q X"
  by (fastforce simp: triple_def st_bind_def split: prod.splits sum.splits)

lemma triple_weaken: "triple P m Q X \<Longrightarrow> (\<And>s. P' s \<Longrightarrow> P s) \<Longrightarrow> (\<And>x s. Q x s \<Longrightarrow> Q' x s) \<Longrightarrow> (\<And>s. X s \<Longrightarrow> X' s) \<Longrightarrow> triple P' m Q' X'"
  by (fastforce simp: triple_def split: prod.splits sum.splits)

section \<open>What an operation upholds\<close>

definition upholds :: "('s \<Rightarrow> bool) \<Rightarrow> ('s, 'a) st_op \<Rightarrow> bool" where
  "upholds P m \<longleftrightarrow> triple P m (\<lambda>_. P) P"

named_theorems upholds_intros

lemma upholds_iff: "upholds P m \<longleftrightarrow> (\<forall>s. P s \<longrightarrow> P (snd (m s)))"
proof -
  have "(case m s of (Inl e, s') \<Rightarrow> P s' | (Inr x, s') \<Rightarrow> P s') = P (snd (m s))" for s
    by (simp split: prod.split sum.split)
  then show ?thesis by (simp add: upholds_def triple_def)
qed

lemma upholdsD: "upholds P m \<Longrightarrow> P s \<Longrightarrow> P (snd (m s))"
  by (simp add: upholds_iff)

lemma upholds_bind [upholds_intros]: "upholds P m \<Longrightarrow> (\<And>x. upholds P (k x)) \<Longrightarrow> upholds P (st_bind m k)"
  unfolding upholds_def by (rule triple_bind)

lemma upholds_simple [upholds_intros]:
  "upholds P (st_return x)" "upholds P (st_fail e)" "upholds P (st_lift r)" "upholds P (st_view f)" "upholds P (st_check b e)"
  "upholds P (\<lambda>s. (g s, s))"
  by (simp_all add: upholds_iff st_check_def)

lemma upholds_modify [upholds_intros]: "(\<And>s. P s \<Longrightarrow> P (g s)) \<Longrightarrow> upholds P (st_modify g)"
  by (simp add: upholds_iff)

lemma upholds_if [upholds_intros]: "upholds P m \<Longrightarrow> upholds P n \<Longrightarrow> upholds P (if b then m else n)"
  by simp

lemma upholds_prod [upholds_intros]: "(\<And>a b. upholds P (k a b)) \<Longrightarrow> upholds P (case x of (a, b) \<Rightarrow> k a b)"
  by (cases x) simp

lemma upholds_area [upholds_intros]: "(\<And>h. upholds P (k h q)) \<Longrightarrow> upholds P (with_handle_area i k q)"
  unfolding with_handle_area_def by (intro upholds_intros)

lemma upholds_reading [upholds_intros]: "(\<And>v. upholds P (k v q)) \<Longrightarrow> upholds P (reading get k q)"
  by (simp add: upholds_iff reading_def split: sum.split)

end
