(* ===== verification/Crypto.thy ===== *)
theory Crypto
  imports Frame Signature Rsa Ecc
begin

text \<open>
  Hashing, HMAC and hash sequences, signing and verifying, RSA and ECC operations as commands
  (\<open>src/tpm/commands/crypto.rs\<close>). The generator that signatures and paddings draw from is the state's. What
  signs and verifies is the schemes of \<open>Rsa\<close> and \<open>Ecc\<close> over the parameters \<open>bn_lib\<close> and \<open>ec_lib\<close>.
\<close>

abbreviation (input) rc_SEQUENCE :: u32 where "rc_SEQUENCE \<equiv> 0x103"

definition MAX_DIGEST_BUFFER :: nat where "MAX_DIGEST_BUFFER = 1024"
definition TPM_GENERATED_VALUE :: u32 where "TPM_GENERATED_VALUE = 0xFF544347"

section \<open>The object a command names\<close>

definition object_of :: "tpm_state \<Rightarrow> u32 \<Rightarrow> object tpm_result" where
  "object_of s h =
     (if is_transient h then objects_object h (objects s)
      else if hc_PERSISTENT_FIRST \<le> h \<and> h \<le> hc_PERSISTENT_LAST then ok_or (bt_get (persistent s) h) rc_HANDLE
      else Inl rc_HANDLE)"

definition has_attr :: "object \<Rightarrow> u32 \<Rightarrow> bool" where
  "has_attr x a = attr_has (object_attributes (obj_public x)) a"

definition object_scheme :: "object \<Rightarrow> scheme" where
  "object_scheme x = (case public_scheme (obj_public x) of Some s \<Rightarrow> s | None \<Rightarrow> scheme_null)"

definition secret_of :: "tpmt_sensitive \<Rightarrow> bytes" where
  "secret_of s = composite_bytes (sens_value s)"

section \<open>Digests and their tickets\<close>

definition hash_ticket_hmac :: "env \<Rightarrow> bytes \<Rightarrow> u16 \<Rightarrow> bytes \<Rightarrow> bytes tpm_result" where
  "hash_ticket_hmac E proof_value a dg =
     hmac_parts E CONTEXT_INTEGRITY_HASH_ALG proof_value [to_be 2 st_HASHCHECK, to_be 2 a, dg]"

definition hash_ticket :: "env \<Rightarrow> tpm_state \<Rightarrow> u32 \<Rightarrow> u16 \<Rightarrow> bytes \<Rightarrow> bytes \<Rightarrow> ticket tpm_result" where
  "hash_ticket E s h a data dg =
     (if h = rh_NULL \<or> \<not> (length data < 4 \<or> from_be (take 4 data) \<noteq> TPM_GENERATED_VALUE) then Inr (ticket_null st_HASHCHECK)
      else res_bind (hierarchy_proof E h s) (\<lambda>p.
           res_bind (hash_ticket_hmac E p a dg) (\<lambda>m.
           res_bind (tpm2b_new MAX_DIGEST_SIZE m) (\<lambda>m.
             Inr \<lparr>tk_tag = st_HASHCHECK, tk_hierarchy = h, tk_digest = m\<rparr>))))"

definition verify_hash_ticket :: "env \<Rightarrow> tpm_state \<Rightarrow> ticket \<Rightarrow> u16 \<Rightarrow> bytes \<Rightarrow> nat \<Rightarrow> unit tpm_result" where
  "verify_hash_ticket E s t a dg n =
     (if tk_digest t = [] then Inl (with_parameter n rc_TICKET)
      else res_bind (map_err (\<lambda>_. with_parameter n rc_TICKET) (hierarchy_proof E (tk_hierarchy t) s)) (\<lambda>p.
           res_bind (hash_ticket_hmac E p a dg) (\<lambda>expected.
             if \<not> constant_time_eq expected (tk_digest t) then Inl (with_parameter n rc_TICKET) else Inr ())))"

definition hash_command :: "env \<Rightarrow> command" where
  "hash_command E = reading (both (param 1 (tpm2b_get MAX_DIGEST_BUFFER)) (both (param 2 r_u16) (param 3 r_u32)))
     (\<lambda>(data, a, h) q.
       st_bind (st_lift (map_err (\<lambda>_. with_parameter 2 rc_HASH) (digest E a data))) (\<lambda>dg.
       st_bind (st_view (\<lambda>s. hash_ticket E s h a data dg)) (\<lambda>t.
         st_lift (respond_try q (\<lambda>w. res_bind (put_new MAX_DIGEST_SIZE dg w) (\<lambda>w. Inr (ticket_put t w)))))))"

section \<open>Which keys sign, and how\<close>

definition signs_a_message :: "object \<Rightarrow> bool" where
  "signs_a_message x =
     (if object_type (obj_public x) \<noteq> alg_KEYEDHASH then False
      else case parameters (obj_public x) of Keyed_hash_parms s \<Rightarrow> scheme_alg s = alg_HMAC | _ \<Rightarrow> False)"

definition check_signing_key :: "object \<Rightarrow> unit tpm_result" where
  "check_signing_key x =
     (if \<not> has_attr x oa_SIGN_ENCRYPT then Inl rc_KEY
      else if has_attr x oa_X509_SIGN then Inl rc_ATTRIBUTES
      else if object_type (obj_public x) = alg_KEYEDHASH \<and> \<not> signs_a_message x then Inl rc_KEY
      else if obj_sensitive x = None then Inl rc_KEY
      else Inr ())"

record sign_parameters =
  at_digest :: nat
  at_scheme :: nat

definition uses_counter :: "object \<Rightarrow> bool" where
  "uses_counter x = (case public_scheme (obj_public x) of Some s \<Rightarrow> scheme_alg s = alg_ECDAA | None \<Rightarrow> False)"

definition with_counter_parameter :: "object \<Rightarrow> nat \<Rightarrow> tpm_rc \<Rightarrow> tpm_rc" where
  "with_counter_parameter x n e = (if uses_counter x \<and> (e = rc_RANGE \<or> e = rc_VALUE) then with_parameter n e else e)"

definition signing_scheme_at :: "object \<Rightarrow> scheme \<Rightarrow> nat \<Rightarrow> scheme tpm_result" where
  "signing_scheme_at x supplied n =
     (let own = object_scheme x
      in if scheme_is_null own then
           (if scheme_is_null supplied then Inl (with_parameter n rc_SCHEME) else Inr supplied)
         else if \<not> scheme_is_null supplied \<and> scheme_alg supplied \<noteq> scheme_alg own then Inl (with_parameter n rc_SCHEME)
         else case scheme_detail supplied of
             Ecdaa_detail d \<Rightarrow>
               if scheme_alg own = alg_ECDAA then
                 res_bind (ok_or (scheme_hash_alg own) rc_SCHEME) (\<lambda>a. Inr (scheme_of_ecdaa a (ecdaa_count d)))
               else Inr own
           | _ \<Rightarrow> Inr own)"

definition signing_scheme :: "object \<Rightarrow> scheme \<Rightarrow> scheme tpm_result" where
  "signing_scheme x supplied = signing_scheme_at x supplied 2"

section \<open>Signing\<close>

definition rsa_block :: "env \<Rightarrow> bn_lib \<Rightarrow> rsa_private \<Rightarrow> scheme \<Rightarrow> u16 \<Rightarrow> bytes \<Rightarrow> sign_parameters \<Rightarrow> (tpm_state, bytes) st_op" where
  "rsa_block E B key sch a dg w =
     (let size = rsa_size B (prv_public key)
      in if scheme_alg sch = alg_RSASSA then st_lift (pkcs1v15_sign_encode E a dg size)
         else if scheme_alg sch = alg_RSAPSS then
           st_bind (pss_encode E (draw E) a dg (BN_num_bits B (pub_n (prv_public key)))) (\<lambda>em.
             st_return (replicate (size - length em) 0 @ em))
         else st_fail (with_parameter (at_scheme w) rc_SCHEME))"

definition sign_rsa ::
  "env \<Rightarrow> bn_lib \<Rightarrow> object \<Rightarrow> tpmt_sensitive \<Rightarrow> scheme \<Rightarrow> u16 \<Rightarrow> bytes \<Rightarrow> sign_parameters \<Rightarrow> (tpm_state, tpmt_signature) st_op" where
  "sign_rsa E B x secret sch a dg w =
     (case (parameters (obj_public x), unique (obj_public x)) of
        (Rsa_parms p, Rsa_id modulus) \<Rightarrow>
          st_bind (st_lift (from_prime B modulus (rsa_exponent p) (secret_of secret))) (\<lambda>key.
          st_bind (rsa_block E B key sch a dg w) (\<lambda>block.
          st_bind (st_lift (private_op B key block)) (\<lambda>v.
          st_bind (st_lift (tpm2b_new MAX_RSA_KEY_BYTES v)) (\<lambda>v.
            st_return \<lparr>sig_alg = scheme_alg sch, sig_value = Rsa_signature \<lparr>sr_hash = a, sr_sig = v\<rparr>\<rparr>))))
      | _ \<Rightarrow> st_fail rc_TYPE)"

definition spend_commit :: "env \<Rightarrow> bn_lib \<Rightarrow> ec_lib \<Rightarrow> object \<Rightarrow> curve \<Rightarrow> u16 \<Rightarrow> (tpm_state, bytes) st_op" where
  "spend_commit E B L x c count s =
     (let bits = of_nat ((BN_num_bits B (curve_order L c) + 7) div 8 * 8)
      in case use_counter E (name_alg (obj_public x)) (obj_name x) count bits (commits_of s) of
           (r, k) \<Rightarrow> (r, s\<lparr>commits_of := k\<rparr>))"

definition sign_ecc_value ::
  "env \<Rightarrow> bn_lib \<Rightarrow> ec_lib \<Rightarrow> object \<Rightarrow> curve \<Rightarrow> bignum \<Rightarrow> scheme \<Rightarrow> u16 \<Rightarrow> bytes \<Rightarrow> sign_parameters
     \<Rightarrow> (tpm_state, ecc_signature) st_op" where
  "sign_ecc_value E B L x c d sch a dg w =
     (if scheme_alg sch = alg_ECDSA then ecdsa_sign B L c d dg (draw E)
      else if scheme_alg sch = alg_ECSCHNORR then ecschnorr_sign E B L c d a dg (draw E)
      else if scheme_alg sch = alg_ECDAA then
        (case scheme_detail sch of
           Ecdaa_detail detail \<Rightarrow>
             st_bind (spend_commit E B L x c (ecdaa_count detail)) (\<lambda>r. ecdaa_sign E B L c d r a dg (draw E))
         | _ \<Rightarrow> st_fail rc_SCHEME)
      else st_fail (with_parameter (at_scheme w) rc_SCHEME))"

definition sign_ecc ::
  "env \<Rightarrow> bn_lib \<Rightarrow> ec_lib \<Rightarrow> object \<Rightarrow> tpmt_sensitive \<Rightarrow> scheme \<Rightarrow> u16 \<Rightarrow> bytes \<Rightarrow> sign_parameters
     \<Rightarrow> (tpm_state, tpmt_signature) st_op" where
  "sign_ecc E B L x secret sch a dg w =
     (case parameters (obj_public x) of
        Ecc_parms p \<Rightarrow>
          st_bind (st_lift (curve_new (ecc_curve p))) (\<lambda>c.
          st_bind (sign_ecc_value E B L x c (bn_from_bytes B (secret_of secret)) sch a dg w) (\<lambda>v.
          st_bind (st_lift (tpm2b_new MAX_ECC_KEY_BYTES (sig_r v))) (\<lambda>r.
          st_bind (st_lift (tpm2b_new MAX_ECC_KEY_BYTES (sig_s v))) (\<lambda>z.
            st_return \<lparr>sig_alg = scheme_alg sch, sig_value = Ecc_signature \<lparr>se_hash = a, signature_r = r, signature_s = z\<rparr>\<rparr>))))
      | _ \<Rightarrow> st_fail rc_TYPE)"

definition hmac_signature :: "env \<Rightarrow> tpmt_sensitive \<Rightarrow> u16 \<Rightarrow> bytes \<Rightarrow> tpmt_signature tpm_result" where
  "hmac_signature E secret a data =
     res_bind (hmac_parts E a (secret_of secret) [data]) (\<lambda>m.
     res_bind (tpmt_ha_new E a m) (\<lambda>h. Inr \<lparr>sig_alg = alg_HMAC, sig_value = Hmac_signature h\<rparr>))"

definition sign_digest ::
  "env \<Rightarrow> bn_lib \<Rightarrow> ec_lib \<Rightarrow> object \<Rightarrow> scheme \<Rightarrow> bytes \<Rightarrow> sign_parameters \<Rightarrow> (tpm_state, tpmt_signature) st_op" where
  "sign_digest E B L x sch dg w =
     (case obj_sensitive x of
        None \<Rightarrow> st_fail (with_handle 1 rc_HANDLE)
      | Some secret \<Rightarrow>
          st_bind (st_lift (ok_or (scheme_hash_alg sch) rc_SCHEME)) (\<lambda>a.
          st_bind (st_lift (hash_size E a)) (\<lambda>n.
            if length dg \<noteq> n then st_fail (with_parameter (at_digest w) rc_SIZE)
            else if object_type (obj_public x) = alg_RSA then sign_rsa E B x secret sch a dg w
            else if object_type (obj_public x) = alg_ECC then sign_ecc E B L x secret sch a dg w
            else if object_type (obj_public x) = alg_KEYEDHASH then st_lift (hmac_signature E secret a dg)
            else st_fail (with_handle 1 rc_TYPE))))"

definition sign_message ::
  "env \<Rightarrow> bn_lib \<Rightarrow> ec_lib \<Rightarrow> object \<Rightarrow> scheme \<Rightarrow> bytes \<Rightarrow> sign_parameters \<Rightarrow> (tpm_state, tpmt_signature) st_op" where
  "sign_message E B L x sch message w =
     (if \<not> signs_a_message x then
        st_bind (st_lift (ok_or (scheme_hash_alg sch) rc_SCHEME)) (\<lambda>a.
        st_bind (st_lift (digest E a message)) (\<lambda>dg. sign_digest E B L x sch dg w))
      else case obj_sensitive x of
          None \<Rightarrow> st_fail (with_handle 1 rc_HANDLE)
        | Some secret \<Rightarrow>
            st_bind (st_lift (ok_or (scheme_hash_alg sch) rc_SCHEME)) (\<lambda>a. st_lift (hmac_signature E secret a message)))"

section \<open>Verifying\<close>

definition check_signature_scheme :: "object \<Rightarrow> tpmt_signature \<Rightarrow> unit tpm_result" where
  "check_signature_scheme x sig =
     (let sch = object_scheme x
      in if scheme_is_null sch then Inr ()
         else if scheme_alg sch \<noteq> sig_alg sig then Inl rc_SCHEME
         else case (scheme_hash_alg sch, signature_hash_alg sig) of
             (Some expected, Some used) \<Rightarrow> if expected \<noteq> used then Inl rc_SCHEME else Inr ()
           | _ \<Rightarrow> Inr ())"

definition check_signed_size :: "env \<Rightarrow> bytes \<Rightarrow> tpmt_signature \<Rightarrow> unit tpm_result" where
  "check_signed_size E dg sig =
     (case signature_hash_alg sig of
        None \<Rightarrow> Inr ()
      | Some a \<Rightarrow> res_bind (hash_size E a) (\<lambda>n. if length dg \<noteq> n then Inl rc_SIZE else Inr ()))"

definition verify_rsa :: "env \<Rightarrow> bn_lib \<Rightarrow> object \<Rightarrow> bytes \<Rightarrow> bytes \<Rightarrow> u16 \<Rightarrow> signature_rsa \<Rightarrow> unit tpm_result" where
  "verify_rsa E B x modulus dg a sig =
     (case parameters (obj_public x) of
        Rsa_parms p \<Rightarrow>
          res_bind (rsa_public_new B modulus (rsa_exponent p)) (\<lambda>public.
          res_bind (map_err (\<lambda>_. rc_SIGNATURE) (public_op B public (sr_sig sig))) (\<lambda>recovered.
            if a = alg_RSASSA then
              res_bind (pkcs1v15_sign_encode E (sr_hash sig) dg (rsa_size B public)) (\<lambda>expected.
                if recovered \<noteq> expected then Inl rc_SIGNATURE else Inr ())
            else if a = alg_RSAPSS then
              (let bits = BN_num_bits B (pub_n public); em_len = (bits - 1 + 7) div 8
               in map_err (\<lambda>_. rc_SIGNATURE)
                    (pss_verify E (sr_hash sig) dg (drop (length recovered - em_len) recovered) bits))
            else Inl (with_parameter 2 rc_SCHEME)))
      | _ \<Rightarrow> Inl rc_TYPE)"

definition verify_ecc ::
  "env \<Rightarrow> bn_lib \<Rightarrow> ec_lib \<Rightarrow> object \<Rightarrow> ecc_point \<Rightarrow> bytes \<Rightarrow> u16 \<Rightarrow> signature_ecc \<Rightarrow> unit tpm_result" where
  "verify_ecc E B L x pt dg a sig =
     (case parameters (obj_public x) of
        Ecc_parms p \<Rightarrow>
          res_bind (curve_new (ecc_curve p)) (\<lambda>c.
            let value = \<lparr>sig_r = signature_r sig, sig_s = signature_s sig\<rparr>
            in map_err (\<lambda>_. rc_SIGNATURE)
                 (if a = alg_ECDSA then ecdsa_verify B L c (pt_x pt) (pt_y pt) dg value
                  else if a = alg_ECSCHNORR then ecschnorr_verify E B L c (pt_x pt) (pt_y pt) (se_hash sig) dg value
                  else Inl (with_parameter 2 rc_SCHEME)))
      | _ \<Rightarrow> Inl rc_TYPE)"

definition verify_hmac :: "env \<Rightarrow> tpmt_sensitive \<Rightarrow> tpmt_ha \<Rightarrow> bytes \<Rightarrow> unit tpm_result" where
  "verify_hmac E secret ha data =
     res_bind (hmac_parts E (ha_alg ha) (secret_of secret) [data]) (\<lambda>expected.
       if \<not> constant_time_eq expected (ha_digest ha) then Inl rc_SIGNATURE else Inr ())"

definition verify_digest :: "env \<Rightarrow> bn_lib \<Rightarrow> ec_lib \<Rightarrow> object \<Rightarrow> bytes \<Rightarrow> tpmt_signature \<Rightarrow> unit tpm_result" where
  "verify_digest E B L x dg sig =
     res_bind (map_err (with_parameter 2) (check_signature_scheme x sig)) (\<lambda>_.
       case (unique (obj_public x), sig_value sig) of
         (Rsa_id modulus, Rsa_signature v) \<Rightarrow> verify_rsa E B x modulus dg (sig_alg sig) v
       | (Ecc_id pt, Ecc_signature v) \<Rightarrow> verify_ecc E B L x pt dg (sig_alg sig) v
       | (Keyed_hash_id _, Hmac_signature ha) \<Rightarrow>
           (case obj_sensitive x of
              None \<Rightarrow> Inl (with_handle 1 rc_HANDLE)
            | Some secret \<Rightarrow> verify_hmac E secret ha dg)
       | _ \<Rightarrow> Inl rc_SIGNATURE)"

definition verify_message :: "env \<Rightarrow> bn_lib \<Rightarrow> ec_lib \<Rightarrow> object \<Rightarrow> bytes \<Rightarrow> tpmt_signature \<Rightarrow> unit tpm_result" where
  "verify_message E B L x message sig =
     (if \<not> signs_a_message x then
        res_bind (ok_or (signature_hash_alg sig) (with_parameter 1 rc_SCHEME)) (\<lambda>a.
        res_bind (digest E a message) (\<lambda>dg. verify_digest E B L x dg sig))
      else case obj_sensitive x of
          None \<Rightarrow> Inl (with_handle 1 rc_HANDLE)
        | Some secret \<Rightarrow> (case sig_value sig of
            Hmac_signature ha \<Rightarrow> verify_hmac E secret ha message
          | _ \<Rightarrow> Inl rc_SIGNATURE))"

definition verified_ticket_hmac :: "env \<Rightarrow> bytes \<Rightarrow> u16 \<Rightarrow> bytes \<Rightarrow> bytes \<Rightarrow> u16 option \<Rightarrow> bytes tpm_result" where
  "verified_ticket_hmac E proof_value tag content name a =
     hmac_parts E CONTEXT_INTEGRITY_HASH_ALG proof_value
       ([to_be 2 tag, content, name] @ (case a of Some x \<Rightarrow> [to_be 2 x] | None \<Rightarrow> []))"

text \<open>What the three verifying commands answer: a null ticket for the null hierarchy, else one under its proof.\<close>

definition verified_ticket_for ::
  "env \<Rightarrow> tpm_state \<Rightarrow> object \<Rightarrow> u16 \<Rightarrow> bytes \<Rightarrow> u16 option \<Rightarrow> verified_ticket tpm_result" where
  "verified_ticket_for E s x tag content a =
     (if obj_hierarchy x = rh_NULL then Inr \<lparr>vt_tag = tag, vt_hierarchy = rh_NULL, vt_digest_alg = a, vt_hmac = []\<rparr>
      else res_bind (hierarchy_proof E (obj_hierarchy x) s) (\<lambda>p.
           res_bind (verified_ticket_hmac E p tag content (obj_name x) a) (\<lambda>m.
           res_bind (tpm2b_new MAX_DIGEST_SIZE m) (\<lambda>m.
             Inr \<lparr>vt_tag = tag, vt_hierarchy = obj_hierarchy x, vt_digest_alg = a, vt_hmac = m\<rparr>))))"

section \<open>TPM2_Sign and TPM2_VerifySignature\<close>

text \<open>A restricted key signs only what the TPM hashed; a ticket that is given is checked for every key.\<close>

definition check_validation :: "env \<Rightarrow> tpm_state \<Rightarrow> object \<Rightarrow> scheme \<Rightarrow> bytes \<Rightarrow> ticket \<Rightarrow> unit tpm_result" where
  "check_validation E s x sch dg t =
     (if has_attr x oa_RESTRICTED \<or> tk_digest t \<noteq> [] then
        (let a = (case scheme_hash_alg sch of Some a \<Rightarrow> a | None \<Rightarrow> name_alg (obj_public x))
         in res_bind (hash_size E a) (\<lambda>n.
              if n \<noteq> length dg then Inl (with_parameter 3 rc_TICKET) else verify_hash_ticket E s t a dg 3))
      else Inr ())"

definition sign_command :: "env \<Rightarrow> bn_lib \<Rightarrow> ec_lib \<Rightarrow> command" where
  "sign_command E B L = with_handle_area 0 (\<lambda>key.
     reading (both (param 1 (tpm2b_get MAX_DIGEST_SIZE)) (both (param 2 (unmarshal_sig_scheme E)) (param 3 (ticket_get [st_HASHCHECK]))))
     (\<lambda>(dg, in_scheme, validation) q.
       st_bind (st_view (\<lambda>s. map_err (with_handle 1) (object_of s key))) (\<lambda>x.
       st_bind (st_lift (map_err (with_handle 1) (check_signing_key x))) (\<lambda>_.
       st_bind (st_lift (signing_scheme x in_scheme)) (\<lambda>sch.
       st_bind (st_view (\<lambda>s. check_validation E s x sch dg validation)) (\<lambda>_.
       st_bind (\<lambda>s. case sign_digest E B L x sch dg \<lparr>at_digest = 1, at_scheme = 2\<rparr> s of
                  (v, s) \<Rightarrow> (map_err (with_counter_parameter x 2) v, s)) (\<lambda>sig.
         st_lift (respond q (signature_put sig)))))))))"

definition verify_signature :: "env \<Rightarrow> bn_lib \<Rightarrow> ec_lib \<Rightarrow> command" where
  "verify_signature E B L = with_handle_area 0 (\<lambda>key.
     reading (both (param 1 (tpm2b_get MAX_DIGEST_SIZE)) (param 2 (signature_get E))) (\<lambda>(dg, sig) q.
       st_bind (st_view (\<lambda>s. map_err (with_handle 1) (object_of s key))) (\<lambda>x.
       st_bind (st_lift (verify_digest E B L x dg sig)) (\<lambda>_.
       st_bind (st_view (\<lambda>s. verified_ticket_for E s x st_VERIFIED dg None)) (\<lambda>t.
         st_lift (respond q (verified_ticket_put t)))))))"

end
