(* ===== verification/Sequences.thy ===== *)
theory Sequences
  imports Crypto Management
begin

text \<open>
  HMAC and the hash, HMAC and event sequences (\<open>src/tpm/commands/crypto.rs\<close>), and the signing and verifying of
  digests and of messages sent in pieces (\<open>src/tpm/commands/signing.rs\<close>). A signing sequence keeps the handle
  of its key, the hash and the commit counter in front of the octets of the message, in the one buffer of the sequence.
\<close>

abbreviation (input) rc_SIGN_CONTEXT_KEY :: u32 where "rc_SIGN_CONTEXT_KEY \<equiv> 0x0AD"

section \<open>HMAC\<close>

definition keyed_hash_alg :: "object \<Rightarrow> u16 option tpm_result" where
  "keyed_hash_alg x =
     (case parameters (obj_public x) of
        Keyed_hash_parms s \<Rightarrow>
          if \<not> scheme_is_null s then
            (if scheme_alg s \<noteq> alg_HMAC then Inl (with_handle 1 rc_SCHEME) else Inr (scheme_hash_alg s))
          else Inr None
      | _ \<Rightarrow> Inr None)"

definition hmac_alg :: "u16 option \<Rightarrow> u16 \<Rightarrow> u16 tpm_result" where
  "hmac_alg own requested =
     (case own of
        Some a \<Rightarrow> if requested = alg_NULL \<or> requested = a then Inr a else Inl (with_parameter 2 rc_VALUE)
      | None \<Rightarrow> if requested \<noteq> alg_NULL then Inr requested else Inl (with_parameter 2 rc_VALUE))"

definition hmac_key_of :: "env \<Rightarrow> tpm_state \<Rightarrow> u32 \<Rightarrow> u16 \<Rightarrow> (bytes \<times> u16) tpm_result" where
  "hmac_key_of E s h requested =
     res_bind (map_err (with_handle 1) (object_of s h)) (\<lambda>x.
       if object_type (obj_public x) \<noteq> alg_KEYEDHASH then Inl (with_handle 1 rc_TYPE)
       else if \<not> has_attr x oa_SIGN_ENCRYPT then Inl (with_handle 1 rc_KEY)
       else if has_attr x oa_RESTRICTED then Inl (with_handle 1 rc_ATTRIBUTES)
       else case obj_sensitive x of
           None \<Rightarrow> Inl (with_handle 1 rc_HANDLE)
         | Some secret \<Rightarrow>
             res_bind (keyed_hash_alg x) (\<lambda>own.
             res_bind (hmac_alg own requested) (\<lambda>a.
               if \<not> is_supported E a then Inl (with_parameter 2 rc_HASH) else Inr (secret_of secret, a))))"

definition hmac_command :: "env \<Rightarrow> command" where
  "hmac_command E = with_handle_area 0 (\<lambda>h.
     reading (both (param 1 (tpm2b_get MAX_DIGEST_BUFFER)) (param 2 r_u16)) (\<lambda>(buffer, requested) q.
       st_bind (st_view (\<lambda>s. hmac_key_of E s h requested)) (\<lambda>(key, a).
       st_bind (st_lift (hmac_parts E a key [buffer])) (\<lambda>m.
         st_lift (respond_try q (put_new MAX_DIGEST_SIZE m))))))"

section \<open>Hash, HMAC and event sequences\<close>

definition insert_slot :: "slot \<Rightarrow> (tpm_state, u32) st_op" where
  "insert_slot x s = (case objects_insert x (objects s) of (r, t) \<Rightarrow> (r, s\<lparr>objects := t\<rparr>))"

text \<open>Starting a sequence, and answering with its handle alone.\<close>

definition start_sequence :: "sequence_kind \<Rightarrow> bytes \<Rightarrow> bytes \<Rightarrow> command" where
  "start_sequence kind auth buffer q =
     st_bind (insert_slot (Sequence_slot \<lparr>seq_kind = kind, seq_auth = auth, seq_buffer = buffer, short_first_buffer = False\<rparr>)) (\<lambda>h.
       st_lift (respond_with_handle h q (\<lambda>w. w)))"

definition hash_sequence_start :: "env \<Rightarrow> command" where
  "hash_sequence_start E = reading (both (param 1 (tpm2b_get MAX_DIGEST_SIZE)) (param 2 r_u16)) (\<lambda>(auth, a) q.
     if a = alg_NULL then start_sequence Event_sequence auth [] q
     else if \<not> is_supported E a then st_fail (with_parameter 2 rc_HASH)
     else start_sequence (Hash_sequence a) auth [] q)"

definition hmac_start :: "env \<Rightarrow> command" where
  "hmac_start E = with_handle_area 0 (\<lambda>h.
     reading (both (param 1 (tpm2b_get MAX_DIGEST_SIZE)) (param 2 r_u16)) (\<lambda>(auth, requested) q.
       st_bind (st_view (\<lambda>s. hmac_key_of E s h requested)) (\<lambda>(key, a).
         start_sequence (Hmac_sequence a key) auth [] q)))"

definition update_sequence :: "u32 \<Rightarrow> bytes \<Rightarrow> (tpm_state, unit) st_op" where
  "update_sequence h data s =
     (case res_bind (map_err (with_handle 1) (objects_get h (objects s))) as_sequence of
        Inl e \<Rightarrow> (Inl e, s)
      | Inr x \<Rightarrow> (case sequence_update data x of
          (r, x) \<Rightarrow> (r, s\<lparr>objects := bt_update h (Sequence_slot x) (objects s)\<rparr>)))"

definition sequence_update_command :: command where
  "sequence_update_command = with_handle_area 0 (\<lambda>h.
     reading (param 1 (tpm2b_get MAX_DIGEST_BUFFER)) (\<lambda>buffer q.
       st_bind (update_sequence h buffer) (\<lambda>_. st_lift (respond_empty q))))"

definition sequence_at :: "nat \<Rightarrow> u32 \<Rightarrow> tpm_state \<Rightarrow> sequence tpm_result" where
  "sequence_at n h s = res_bind (map_err (with_handle n) (objects_get h (objects s))) as_sequence"

definition sequence_result :: "env \<Rightarrow> tpm_state \<Rightarrow> sequence \<Rightarrow> bytes \<Rightarrow> u32 \<Rightarrow> (bytes \<times> ticket) tpm_result" where
  "sequence_result E s x buffer h =
     (let data = seq_buffer x @ buffer;
          short = short_first_buffer x \<or> (seq_buffer x = [] \<and> length buffer < 4)
      in case seq_kind x of
           Hash_sequence a \<Rightarrow>
             res_bind (digest E a data) (\<lambda>d.
             res_bind (if \<not> short then hash_ticket E s h a data d else Inr (ticket_null st_HASHCHECK)) (\<lambda>t. Inr (d, t)))
         | Hmac_sequence a key \<Rightarrow> res_bind (hmac_parts E a key [data]) (\<lambda>d. Inr (d, ticket_null st_HASHCHECK))
         | Event_sequence \<Rightarrow> Inl (with_handle 1 rc_MODE))"

definition sequence_complete :: "env \<Rightarrow> command" where
  "sequence_complete E = with_handle_area 0 (\<lambda>h.
     reading (both (param 1 (tpm2b_get MAX_DIGEST_BUFFER)) (param 2 r_u32)) (\<lambda>(buffer, hierarchy) q.
       st_bind (st_view (sequence_at 1 h)) (\<lambda>x.
       if is_event x then st_fail (with_handle 1 rc_MODE)
       else st_bind (st_view (\<lambda>s. sequence_result E s x buffer hierarchy)) (\<lambda>(d, t).
         st_lift (respond_try q (\<lambda>w. res_bind (put_new MAX_DIGEST_SIZE d w) (\<lambda>w. Inr (ticket_put t w))))))))"

definition HASHES_LEGACY :: "u16 list" where
  "HASHES_LEGACY = [alg_SHA1, alg_SHA256, alg_SHA384, alg_SHA512, alg_SHA3_256, alg_SHA3_384, alg_SHA3_512]"

definition HASHES_STRICT :: "u16 list" where
  "HASHES_STRICT = [alg_SHA256, alg_SHA384, alg_SHA512, alg_SHA3_256, alg_SHA3_384, alg_SHA3_512]"

definition implemented_hashes :: "env \<Rightarrow> u16 list" where
  "implemented_hashes E = (if strict E then HASHES_STRICT else HASHES_LEGACY)"

fun tpmt_has :: "env \<Rightarrow> (u16 \<times> bytes) list \<Rightarrow> tpmt_ha list tpm_result" where
  "tpmt_has E [] = Inr []"
| "tpmt_has E ((a, d) # ds) = res_bind (tpmt_ha_new E a d) (\<lambda>h. res_bind (tpmt_has E ds) (\<lambda>hs. Inr (h # hs)))"

definition extend_event :: "env \<Rightarrow> u32 \<Rightarrow> u8 \<Rightarrow> bytes \<Rightarrow> (tpm_state, unit) st_op" where
  "extend_event E pcr_handle l data s =
     (if pcr_handle = rh_NULL then (Inr (), s)
      else case pcr_event E (unat (ucast (pcr_handle - hc_PCR_FIRST) :: u16)) l data (pcrs s) of
          (r, p) \<Rightarrow> (map_sum id (\<lambda>_. ()) r, s\<lparr>pcrs := p\<rparr>))"

definition event_sequence_complete :: "env \<Rightarrow> command" where
  "event_sequence_complete E = with_handle_area 0 (\<lambda>pcr_handle. with_handle_area 1 (\<lambda>h.
     reading (param 1 (tpm2b_get MAX_DIGEST_BUFFER)) (\<lambda>buffer q.
       st_bind (st_view (sequence_at 2 h)) (\<lambda>x.
       if \<not> is_event x then st_fail (with_handle 2 rc_MODE)
       else st_bind (extend_event E pcr_handle (rq_locality q) (seq_buffer x @ buffer)) (\<lambda>_.
            st_bind (st_lift (event_digests E (seq_buffer x @ buffer) (implemented_hashes E))) (\<lambda>ds.
              st_lift (respond_try q (\<lambda>w.
                res_bind (tpmt_has E ds) (\<lambda>hs. res_bind (tpml_new HASH_COUNT hs) (\<lambda>hs. Inr (digest_values_put hs w)))))))))))"

section \<open>Digests signed and verified with a context\<close>

definition signing_object_of :: "tpm_state \<Rightarrow> u32 \<Rightarrow> object tpm_result" where
  "signing_object_of s h =
     (if is_transient h then objects_object h (objects s) else ok_or (bt_get (persistent s) h) rc_HANDLE)"

definition MAX_SIGNATURE_CTX :: nat where "MAX_SIGNATURE_CTX = 255"

definition check_no_context :: "bytes \<Rightarrow> nat \<Rightarrow> unit tpm_result" where
  "check_no_context c n = (if c = [] then Inr () else Inl (with_parameter n rc_VALUE))"

definition context_counter :: "object \<Rightarrow> bytes \<Rightarrow> nat \<Rightarrow> u16 option tpm_result" where
  "context_counter x c n =
     (if \<not> uses_counter x then res_bind (check_no_context c n) (\<lambda>_. Inr None)
      else if length c \<noteq> 2 then Inl (with_parameter n rc_SIZE)
      else Inr (Some (from_be c)))"

definition scheme_with_counter :: "object \<Rightarrow> u16 option \<Rightarrow> scheme tpm_result" where
  "scheme_with_counter x counter =
     res_bind (signing_scheme x scheme_null) (\<lambda>sch.
       case counter of
         None \<Rightarrow> Inr sch
       | Some n \<Rightarrow> res_bind (ok_or (scheme_hash_alg sch) rc_SCHEME) (\<lambda>a. Inr (scheme_of_ecdaa a n)))"

definition sign_digest_command :: "env \<Rightarrow> bn_lib \<Rightarrow> ec_lib \<Rightarrow> command" where
  "sign_digest_command E B L = with_handle_area 0 (\<lambda>key.
     reading (both (param 1 (tpm2b_get MAX_SIGNATURE_CTX)) (both (param 2 (tpm2b_get MAX_DIGEST_SIZE)) (param 3 (ticket_get [st_HASHCHECK]))))
     (\<lambda>(ctx, dg, validation) q.
       st_bind (st_view (\<lambda>s. map_err (with_handle 1) (signing_object_of s key))) (\<lambda>x.
       st_bind (st_lift (map_err (with_handle 1) (check_signing_key x))) (\<lambda>_.
       if object_type (obj_public x) = alg_KEYEDHASH then st_fail (with_handle 1 rc_SCHEME)
       else
       st_bind (st_lift (context_counter x ctx 1)) (\<lambda>counter.
       st_bind (st_lift (scheme_with_counter x counter)) (\<lambda>sch.
       st_bind (st_view (\<lambda>s. check_validation E s x sch dg validation)) (\<lambda>_.
       st_bind (\<lambda>s. case sign_digest E B L x sch dg \<lparr>at_digest = 2, at_scheme = 1\<rparr> s of
                  (v, s) \<Rightarrow> (map_err (with_counter_parameter x 1) v, s)) (\<lambda>sig.
         st_lift (respond q (signature_put sig))))))))))"

definition verify_digest_signature :: "env \<Rightarrow> bn_lib \<Rightarrow> ec_lib \<Rightarrow> command" where
  "verify_digest_signature E B L = with_handle_area 0 (\<lambda>key.
     reading (both (param 1 (tpm2b_get MAX_SIGNATURE_CTX)) (both (param 2 (tpm2b_get MAX_DIGEST_SIZE)) (param 3 (signature_get E))))
     (\<lambda>(ctx, dg, sig) q.
       st_bind (st_lift (check_no_context ctx 1)) (\<lambda>_.
       st_bind (st_view (\<lambda>s. map_err (with_handle 1) (signing_object_of s key))) (\<lambda>x.
       if object_type (obj_public x) = alg_KEYEDHASH then st_fail (with_handle 1 rc_SCHEME)
       else
       st_bind (st_lift (map_err (with_parameter 3) (check_signature_scheme x sig))) (\<lambda>_.
       st_bind (st_lift (map_err (with_parameter 2) (check_signed_size E dg sig))) (\<lambda>_.
       st_bind (st_lift (verify_digest E B L x dg sig)) (\<lambda>_.
       st_bind (st_view (\<lambda>s. verified_ticket_for E s x st_DIGEST_VERIFIED dg
           (Some (case signature_hash_alg sig of Some a \<Rightarrow> a | None \<Rightarrow> name_alg (obj_public x))))) (\<lambda>t.
         st_lift (respond q (verified_ticket_put t))))))))))"

section \<open>Messages signed and verified in pieces\<close>

definition counter_bytes :: "u16 option \<Rightarrow> bytes" where
  "counter_bytes c = (case c of Some n \<Rightarrow> 1 # to_be 2 n | None \<Rightarrow> [0, 0, 0])"

definition sequence_binding :: "sequence \<Rightarrow> (u32 \<times> u16 \<times> u16 option \<times> bytes) tpm_result" where
  "sequence_binding x =
     (let b = seq_buffer x
      in if length b < 9 then Inl rc_SEQUENCE
         else Inr (from_be (slice b 0 4), from_be (slice b 4 6), (if b ! 6 \<noteq> 0 then Some (from_be (slice b 7 9)) else None), drop 9 b))"

definition starts_with_generated_value :: "bytes \<Rightarrow> bool" where
  "starts_with_generated_value m \<longleftrightarrow> 4 \<le> length m \<and> from_be (take 4 m) = TPM_GENERATED_VALUE"

definition sign_sequence_start :: "env \<Rightarrow> command" where
  "sign_sequence_start E = with_handle_area 0 (\<lambda>key.
     reading (both (param 1 (tpm2b_get MAX_DIGEST_SIZE)) (param 2 (tpm2b_get MAX_SIGNATURE_CTX))) (\<lambda>(auth, ctx) q.
       st_bind (st_view (\<lambda>s. map_err (with_handle 1) (signing_object_of s key))) (\<lambda>x.
       st_bind (st_lift (map_err (with_handle 1) (check_signing_key x))) (\<lambda>_.
       st_bind (st_lift (context_counter x ctx 2)) (\<lambda>counter.
       st_bind (st_lift (signing_scheme x scheme_null)) (\<lambda>sch.
       st_bind (st_lift (ok_or (scheme_hash_alg sch) (with_handle 1 rc_SCHEME))) (\<lambda>a.
         if \<not> is_supported E a then st_fail (with_handle 1 rc_HASH)
         else start_sequence (Hash_sequence a) auth (to_be 4 key @ to_be 2 a @ counter_bytes counter) q)))))))"

definition sign_sequence_complete :: "env \<Rightarrow> bn_lib \<Rightarrow> ec_lib \<Rightarrow> command" where
  "sign_sequence_complete E B L = with_handle_area 0 (\<lambda>h. with_handle_area 1 (\<lambda>key.
     reading (param 1 (tpm2b_get MAX_DIGEST_BUFFER)) (\<lambda>buffer q.
       st_bind (st_view (sequence_at 1 h)) (\<lambda>x.
       st_bind (st_lift (sequence_binding x)) (\<lambda>(bound, a, counter, message).
       if bound \<noteq> key then st_fail (with_handle 2 rc_SIGN_CONTEXT_KEY)
       else
       st_bind (st_view (\<lambda>s. map_err (with_handle 2) (signing_object_of s key))) (\<lambda>y.
       st_bind (st_lift (map_err (with_handle 2) (check_signing_key y))) (\<lambda>_.
       st_bind (st_check (signs_a_message y \<and> has_attr y oa_RESTRICTED) (with_handle 2 rc_ATTRIBUTES)) (\<lambda>_.
       st_bind (st_check (has_attr y oa_RESTRICTED \<and> starts_with_generated_value (message @ buffer)) (with_parameter 1 rc_VALUE)) (\<lambda>_.
       st_bind (st_lift (scheme_with_counter y counter)) (\<lambda>sch.
       st_bind (sign_message E B L y sch (message @ buffer) \<lparr>at_digest = 0, at_scheme = 0\<rparr>) (\<lambda>sig.
         st_lift (respond q (signature_put sig)))))))))))))"

definition verify_sequence_start :: "env \<Rightarrow> command" where
  "verify_sequence_start E = with_handle_area 0 (\<lambda>key.
     reading (both (param 1 (tpm2b_get MAX_DIGEST_SIZE)) (both (param 2 (tpm2b_get MAX_ECC_KEY_BYTES)) (param 3 (tpm2b_get MAX_SIGNATURE_CTX))))
     (\<lambda>(auth, hint, ctx) q.
       st_bind (st_check (hint \<noteq> []) (with_parameter 2 rc_VALUE)) (\<lambda>_.
       st_bind (st_lift (check_no_context ctx 3)) (\<lambda>_.
       st_bind (st_view (\<lambda>s. map_err (with_handle 1) (signing_object_of s key))) (\<lambda>x.
       st_bind (st_lift (ok_or (scheme_hash_alg (object_scheme x)) (with_handle 1 rc_SCHEME))) (\<lambda>a.
         if \<not> is_supported E a then st_fail (with_handle 1 rc_HASH)
         else start_sequence (Hash_sequence a) auth (to_be 4 key @ to_be 2 a @ counter_bytes None) q))))))"

definition verify_sequence_complete :: "env \<Rightarrow> bn_lib \<Rightarrow> ec_lib \<Rightarrow> command" where
  "verify_sequence_complete E B L = with_handle_area 0 (\<lambda>h. with_handle_area 1 (\<lambda>key.
     reading (param 1 (signature_get E)) (\<lambda>sig q.
       st_bind (st_view (sequence_at 1 h)) (\<lambda>x.
       st_bind (st_lift (sequence_binding x)) (\<lambda>(bound, a, counter, message).
       if bound \<noteq> key then st_fail (with_handle 2 rc_SIGN_CONTEXT_KEY)
       else
       st_bind (st_view (\<lambda>s. map_err (with_handle 2) (signing_object_of s key))) (\<lambda>y.
       st_bind (st_lift (map_err (with_parameter 1) (check_signature_scheme y sig))) (\<lambda>_.
       st_bind (st_lift (verify_message E B L y message sig)) (\<lambda>_.
       st_bind (st_view (\<lambda>s. verified_ticket_for E s y st_MESSAGE_VERIFIED message None)) (\<lambda>t.
         st_lift (respond q (verified_ticket_put t))))))))))) "

end
