(* ===== verification/NvCommands.thy ===== *)
theory NvCommands
  imports Frame
begin

text \<open>
  The NV commands (\<open>src/tpm/commands/nv.rs\<close>): who may read and write an index, what a new index must satisfy,
  and each command over the store of \<open>NvCore\<close>.
\<close>

definition MAX_NV_BUFFER_SIZE :: nat where "MAX_NV_BUFFER_SIZE = 1024"
definition MIN_COUNTER_INDICES :: nat where "MIN_COUNTER_INDICES = 8"

abbreviation (input) index_has :: "nv_index \<Rightarrow> u32 \<Rightarrow> bool" where
  "index_has i a \<equiv> attr_has (np_attributes (nv_public i)) a"

definition on_nv :: "(nv_store, 'a) st_op \<Rightarrow> (tpm_state, 'a) st_op" where
  "on_nv f s = (case f (nv s) of (r, n) \<Rightarrow> (r, s\<lparr>nv := n\<rparr>))"

section \<open>Who may use an index\<close>

definition check_write_authority :: "nv_index \<Rightarrow> u32 \<Rightarrow> bool \<Rightarrow> unit tpm_result" where
  "check_write_authority i h by_policy =
     (let allowed =
        (if h = rh_PLATFORM then index_has i nv_PPWRITE
         else if h = rh_OWNER then index_has i nv_OWNERWRITE
         else if h = np_index (nv_public i) then (if by_policy then index_has i nv_POLICYWRITE else index_has i nv_AUTHWRITE)
         else False)
      in if allowed then Inr () else Inl rc_NV_AUTHORIZATION)"

definition check_read_authority :: "nv_index \<Rightarrow> u32 \<Rightarrow> bool \<Rightarrow> unit tpm_result" where
  "check_read_authority i h by_policy =
     (let allowed =
        (if h = rh_PLATFORM then index_has i nv_PPREAD
         else if h = rh_OWNER then index_has i nv_OWNERREAD
         else if h = np_index (nv_public i) then (if by_policy then index_has i nv_POLICYREAD else index_has i nv_AUTHREAD)
         else False)
      in if allowed then Inr () else Inl rc_NV_AUTHORIZATION)"

definition first_auth_is_policy :: "tpm_state \<Rightarrow> request \<Rightarrow> bool" where
  "first_auth_is_policy s q = auth_is_policy s q 0"

definition index_at :: "nat \<Rightarrow> u32 \<Rightarrow> tpm_state \<Rightarrow> nv_index tpm_result" where
  "index_at n h s = map_err (with_handle n) (store_get h (nv s))"

definition writable :: "tpm_state \<Rightarrow> request \<Rightarrow> u32 \<Rightarrow> u32 \<Rightarrow> unit tpm_result" where
  "writable s q h auth =
     res_bind (index_at 2 h s) (\<lambda>i.
     res_bind (check_write_authority i auth (first_auth_is_policy s q)) (\<lambda>_.
       if write_locked i then Inl rc_NV_LOCKED else Inr ()))"

section \<open>Defining an index\<close>

definition required_size :: "env \<Rightarrow> nv_public \<Rightarrow> nat option tpm_result" where
  "required_size E p =
     (let t = index_type (np_attributes p)
      in if t = nt_COUNTER \<or> t = nt_BITS then Inr (Some 8)
         else if t = nt_PIN_FAIL \<or> t = nt_PIN_PASS then Inr (Some 8)
         else if t = nt_EXTEND then Inr (digest_size E (np_name_alg p))
         else if t = nt_ORDINARY then Inr None
         else Inl (with_parameter 2 rc_ATTRIBUTES))"

definition check_index_size :: "env \<Rightarrow> nv_public \<Rightarrow> unit tpm_result" where
  "check_index_size E p =
     res_bind (required_size E p) (\<lambda>required.
       if (case required of Some n \<Rightarrow> unat (np_size p) \<noteq> n | None \<Rightarrow> False) then Inl (with_parameter 2 rc_SIZE)
       else if MAX_NV_INDEX_SIZE < unat (np_size p) then Inl (with_parameter 2 rc_SIZE)
       else Inr ())"

definition check_index_policy :: "env \<Rightarrow> nv_public \<Rightarrow> unit tpm_result" where
  "check_index_policy E p =
     (if np_policy p \<noteq> [] then
        res_bind (ok_or (digest_size E (np_name_alg p)) (with_parameter 2 rc_HASH)) (\<lambda>want.
          if length (np_policy p) \<noteq> want then Inl (with_parameter 2 rc_SIZE) else Inr ())
      else Inr ())"

definition validate_new_public :: "env \<Rightarrow> tpm_state \<Rightarrow> nv_public \<Rightarrow> u32 \<Rightarrow> unit tpm_result" where
  "validate_new_public E s p auth =
     (let a = np_attributes p
      in if \<not> is_nv_handle (np_index p) then Inl (with_parameter 2 rc_HANDLE)
         else if store_contains (np_index p) (nv s) then Inl rc_NV_DEFINED
         else if attr_has a nv_WRITEALL \<and> MAX_NV_BUFFER_SIZE < unat (np_size p) then Inl (with_parameter 2 rc_SIZE)
         else if index_type a = nt_COUNTER \<and> attr_has a nv_CLEAR_STCLEAR then Inl (with_parameter 2 rc_ATTRIBUTES)
         else if length (filter (attr_has a) [nv_PPWRITE, nv_OWNERWRITE, nv_AUTHWRITE, nv_POLICYWRITE]) = 0
              \<or> length (filter (attr_has a) [nv_PPREAD, nv_OWNERREAD, nv_AUTHREAD, nv_POLICYREAD]) = 0
           then Inl (with_parameter 2 rc_ATTRIBUTES)
         else if attr_has a nv_POLICY_DELETE \<and> auth \<noteq> rh_PLATFORM then Inl (with_parameter 2 rc_ATTRIBUTES)
         else if (attr_has a nv_POLICYWRITE \<or> attr_has a nv_POLICYREAD) \<and> np_policy p = [] then Inl (with_parameter 2 rc_ATTRIBUTES)
         else res_bind (check_index_policy E p) (\<lambda>_.
           if attr_has a nv_WRITTEN then Inl (with_parameter 2 rc_ATTRIBUTES) else check_index_size E p))"

definition check_pin_index :: "u32 \<Rightarrow> unit tpm_result" where
  "check_pin_index a =
     (let t = index_type a
      in if t = nt_PIN_FAIL \<and> \<not> attr_has a nv_NO_DA then Inl (with_parameter 2 rc_ATTRIBUTES)
         else if (t = nt_PIN_FAIL \<or> t = nt_PIN_PASS)
              \<and> (\<not> (attr_has a nv_PPWRITE \<or> attr_has a nv_OWNERWRITE \<or> attr_has a nv_POLICYWRITE) \<or> attr_has a nv_AUTHWRITE)
           then Inl (with_parameter 2 rc_ATTRIBUTES)
         else Inr ())"

definition check_definition :: "env \<Rightarrow> tpm_state \<Rightarrow> nv_public \<Rightarrow> u32 \<Rightarrow> bytes \<Rightarrow> unit tpm_result" where
  "check_definition E s p auth value =
     (let a = np_attributes p
      in res_bind (validate_new_public E s p auth) (\<lambda>_.
         res_bind (map_err (with_parameter 2) (hash_size E (np_name_alg p))) (\<lambda>n.
           if n < length value then Inl (with_parameter 1 rc_SIZE)
           else if attr_has a nv_PLATFORMCREATE \<noteq> (auth = rh_PLATFORM) then Inl (with_parameter 2 rc_ATTRIBUTES)
           else if auth = rh_PLATFORM \<and> \<not> platform_nv_enabled (hierarchies s) then Inl (with_handle 1 rc_HIERARCHY)
           else if attr_has a nv_POLICY_DELETE \<and> auth \<noteq> rh_PLATFORM then Inl (with_parameter 2 rc_ATTRIBUTES)
           else if attr_has a nv_READLOCKED \<or> attr_has a nv_WRITELOCKED then Inl (with_parameter 2 rc_ATTRIBUTES)
           else res_bind (check_pin_index a) (\<lambda>_.
             if index_type a = nt_COUNTER \<and> MIN_COUNTER_INDICES \<le> counter_count (nv s) then Inl rc_NV_SPACE else Inr ()))))"

definition nv_define :: "env \<Rightarrow> u32 \<Rightarrow> bytes \<Rightarrow> nv_public \<Rightarrow> command" where
  "nv_define E auth value p q =
     st_bind (st_view (\<lambda>s. check_definition E s p auth value)) (\<lambda>_.
     st_bind (on_nv (store_define \<lparr>nv_public = p, nv_auth = value, nv_data = [], read_locked = False, write_locked = False\<rparr>)) (\<lambda>_.
       st_lift (respond_empty q)))"

definition nv_define_space :: "env \<Rightarrow> command" where
  "nv_define_space E = with_handle_area 0 (\<lambda>auth.
     reading (both (param 1 (tpm2b_get MAX_DIGEST_SIZE)) (param 2 (tpm2b_nv_public_get E))) (\<lambda>(value, p). nv_define E auth value p))"

definition nv_define_space2 :: "env \<Rightarrow> command" where
  "nv_define_space2 E = with_handle_area 0 (\<lambda>auth.
     reading (both (param 1 (tpm2b_get MAX_DIGEST_SIZE)) (param 2 (unmarshal_sized (nv_public2_get E)))) (\<lambda>(value, p2).
       case p2 of
         NV_Index p \<Rightarrow> nv_define E auth value p
       | NV_Permanent p \<Rightarrow> nv_define E auth value p
       | NV_External _ \<Rightarrow> \<lambda>q. st_fail (with_parameter 2 rc_ATTRIBUTES)))"

section \<open>Removing an index\<close>

definition check_undefine :: "tpm_state \<Rightarrow> nv_index \<Rightarrow> u32 \<Rightarrow> unit tpm_result" where
  "check_undefine s i auth =
     (let by_platform_maker = index_has i nv_PLATFORMCREATE
      in if index_has i nv_POLICY_DELETE then Inl (with_handle 2 rc_ATTRIBUTES)
         else if by_platform_maker \<and> auth \<noteq> rh_PLATFORM then Inl (with_handle 1 rc_NV_AUTHORIZATION)
         else if \<not> by_platform_maker \<and> auth \<noteq> rh_OWNER \<and> \<not> (auth = rh_PLATFORM \<and> h_enabled (owner (hierarchies s)))
           then Inl (with_handle 1 rc_NV_AUTHORIZATION)
         else Inr ())"

definition nv_undefine_space :: command where
  "nv_undefine_space = with_handle_area 0 (\<lambda>auth. with_handle_area 1 (\<lambda>h q.
     st_bind (st_view (index_at 2 h)) (\<lambda>i.
     st_bind (st_view (\<lambda>s. check_undefine s i auth)) (\<lambda>_.
     st_bind (on_nv (store_undefine h)) (\<lambda>_.
       st_lift (unread (respond_empty q)))))))"

definition nv_undefine_space_special :: command where
  "nv_undefine_space_special = with_handle_area 0 (\<lambda>h. with_handle_area 1 (\<lambda>auth q.
     st_bind (st_check (auth \<noteq> rh_PLATFORM) (with_handle 2 rc_AUTH_TYPE)) (\<lambda>_.
     st_bind (st_view (index_at 1 h)) (\<lambda>i.
     st_bind (st_check (\<not> index_has i nv_POLICY_DELETE) (with_handle 1 rc_ATTRIBUTES)) (\<lambda>_.
     st_bind (on_nv (store_undefine h)) (\<lambda>_.
       st_lift (unread (respond_empty q))))))))"

section \<open>Reading and writing\<close>

definition nv_read_public :: "env \<Rightarrow> command" where
  "nv_read_public E = with_handle_area 0 (\<lambda>h q.
     st_bind (st_view (index_at 1 h)) (\<lambda>i.
     st_bind (st_lift (index_name E i)) (\<lambda>name.
       st_lift (unread (respond_try q (\<lambda>w. put_new SIZEOF_TPMT_HA name (tpm2b_nv_public_put (nv_public i) w)))))))"

definition nv_read_public2 :: "env \<Rightarrow> command" where
  "nv_read_public2 E = with_handle_area 0 (\<lambda>h q.
     st_bind (st_view (index_at 1 h)) (\<lambda>i.
     st_bind (st_lift (index_name E i)) (\<lambda>name.
       st_lift (unread (respond_try q (\<lambda>w. put_new SIZEOF_TPMT_HA name (sized16_with (nv_public2_put (NV_Index (nv_public i))) w)))))))"

definition note_orderly_write :: "u32 \<Rightarrow> tpm_state \<Rightarrow> tpm_state" where
  "note_orderly_write h s =
     (let orderly = (case store_get h (nv s) of Inr i \<Rightarrow> index_has i nv_ORDERLY | Inl _ \<Rightarrow> False)
      in if orderly then nv_is_no_longer_orderly s else s)"

text \<open>The frame of the four commands that change the data of an index: the checks, the change, the note of it.\<close>

definition changing :: "u32 \<Rightarrow> u32 \<Rightarrow> (nv_store, 'a) st_op \<Rightarrow> request \<Rightarrow> response tpm_result \<Rightarrow> (tpm_state, response) st_op" where
  "changing auth h f q answer =
     st_bind (st_view (\<lambda>s. writable s q h auth)) (\<lambda>_.
     st_bind (on_nv f) (\<lambda>_.
     st_bind (st_modify (note_orderly_write h)) (\<lambda>_.
       st_lift answer)))"

definition write_index :: "u16 \<Rightarrow> bytes \<Rightarrow> (nv_index, unit) st_op" where
  "write_index offset value i =
     (if nt_of i = nt_COUNTER \<or> nt_of i = nt_BITS \<or> nt_of i = nt_EXTEND then (Inl (with_handle 2 rc_ATTRIBUTES), i)
      else case nv_write offset value i of
          (r, i) \<Rightarrow> (map_err (\<lambda>e. if e = rc_NV_RANGE then e else with_parameter 1 e) r, i))"

definition nv_write_command :: command where
  "nv_write_command = with_handle_area 0 (\<lambda>auth. with_handle_area 1 (\<lambda>h.
     reading (both (param 1 (tpm2b_get MAX_NV_BUFFER_SIZE)) (param 2 r_u16)) (\<lambda>(value, offset) q.
       changing auth h (store_at h (write_index offset value)) q (respond_empty q))))"

definition nv_increment_command :: command where
  "nv_increment_command = with_handle_area 0 (\<lambda>auth. with_handle_area 1 (\<lambda>h q.
     changing auth h (store_increment h) q (unread (respond_empty q))))"

definition nv_extend_command :: "env \<Rightarrow> command" where
  "nv_extend_command E = with_handle_area 0 (\<lambda>auth. with_handle_area 1 (\<lambda>h.
     reading (param 1 (tpm2b_get MAX_NV_BUFFER_SIZE)) (\<lambda>value q.
       changing auth h (store_at h (nv_extend E value)) q (respond_empty q))))"

definition nv_set_bits_command :: command where
  "nv_set_bits_command = with_handle_area 0 (\<lambda>auth. with_handle_area 1 (\<lambda>h.
     reading (param 1 r_u64) (\<lambda>bits q.
       changing auth h (store_at h (nv_set_bits bits)) q (respond_empty q))))"

definition nv_write_lock :: command where
  "nv_write_lock = with_handle_area 0 (\<lambda>auth. with_handle_area 1 (\<lambda>h q.
     st_bind (st_view (index_at 2 h)) (\<lambda>i.
     st_bind (st_view (\<lambda>s. check_write_authority i auth (first_auth_is_policy s q))) (\<lambda>_.
     st_bind (st_check (\<not> index_has i nv_WRITEDEFINE \<and> \<not> index_has i nv_WRITE_STCLEAR) (with_handle 2 rc_ATTRIBUTES)) (\<lambda>_.
     st_bind (on_nv (store_at h (st_modify (set_write_lock True)))) (\<lambda>_.
       st_lift (unread (respond_empty q))))))))"

definition nv_global_write_lock :: command where
  "nv_global_write_lock q =
     st_bind (st_modify (\<lambda>s. s\<lparr>nv := global_write_lock (nv s)\<rparr>)) (\<lambda>_. st_lift (unread (respond_empty q)))"

definition read_index :: "tpm_state \<Rightarrow> request \<Rightarrow> u32 \<Rightarrow> u32 \<Rightarrow> u16 \<Rightarrow> u16 \<Rightarrow> bytes tpm_result" where
  "read_index s q auth h n offset =
     res_bind (index_at 2 h s) (\<lambda>i.
     res_bind (check_read_authority i auth (first_auth_is_policy s q)) (\<lambda>_.
       if read_locked i then Inl rc_NV_LOCKED
       else if MAX_NV_BUFFER_SIZE < unat n then Inl (with_parameter 1 rc_VALUE)
       else nv_read offset n i))"

definition nv_read_command :: command where
  "nv_read_command = with_handle_area 0 (\<lambda>auth. with_handle_area 1 (\<lambda>h.
     reading (both (param 1 r_u16) (param 2 r_u16)) (\<lambda>(n, offset) q.
       st_bind (st_view (\<lambda>s. read_index s q auth h n offset)) (\<lambda>value.
         st_lift (respond_try q (put_new MAX_NV_BUFFER_SIZE value))))))"

definition nv_read_lock :: command where
  "nv_read_lock = with_handle_area 0 (\<lambda>auth. with_handle_area 1 (\<lambda>h q.
     st_bind (st_view (index_at 2 h)) (\<lambda>i.
     st_bind (st_view (\<lambda>s. check_read_authority i auth (first_auth_is_policy s q))) (\<lambda>_.
     st_bind (st_check (\<not> index_has i nv_READ_STCLEAR) (with_handle 2 rc_ATTRIBUTES)) (\<lambda>_.
     st_bind (on_nv (store_at h (st_modify (set_read_lock True)))) (\<lambda>_.
       st_lift (unread (respond_empty q))))))))"

definition change_index_auth :: "env \<Rightarrow> bytes \<Rightarrow> (nv_index, unit) st_op" where
  "change_index_auth E value i =
     (case hash_size E (np_name_alg (nv_public i)) of
        Inl e \<Rightarrow> (Inl e, i)
      | Inr limit \<Rightarrow> if limit < length value then (Inl (with_parameter 1 rc_SIZE), i) else (Inr (), i\<lparr>nv_auth := value\<rparr>))"

definition nv_change_auth :: "env \<Rightarrow> command" where
  "nv_change_auth E = with_handle_area 0 (\<lambda>h.
     reading (param 1 (tpm2b_get MAX_DIGEST_SIZE)) (\<lambda>value q.
       st_bind (st_view (index_at 1 h)) (\<lambda>_.
       st_bind (on_nv (store_at h (change_index_auth E value))) (\<lambda>_.
         st_lift (respond_empty q)))))"

section \<open>Locks and authority\<close>

lemma set_written_fields [simp]:
  "write_locked (set_written i) = write_locked i" "read_locked (set_written i) = read_locked i" "nv_data (set_written i) = nv_data i"
  "nv_auth (set_written i) = nv_auth i" "np_index (nv_public (set_written i)) = np_index (nv_public i)"
  by (simp_all add: set_written_def set_attributes_def)

text \<open>What the commands that change data keep of an index: the locks, the authorization value, the handle.\<close>

definition index_kept :: "nv_index \<Rightarrow> nv_index \<Rightarrow> bool" where
  "index_kept i i' \<longleftrightarrow> write_locked i' = write_locked i \<and> read_locked i' = read_locked i \<and> nv_auth i' = nv_auth i
     \<and> np_index (nv_public i') = np_index (nv_public i)"

definition changes_index :: "(nv_index, 'a) st_op \<Rightarrow> bool" where
  "changes_index f \<longleftrightarrow> (\<forall>i. case f i of (Inl e, i') \<Rightarrow> i' = i | (Inr x, i') \<Rightarrow> index_kept i i' \<and> written i')"

definition changes_at :: "u32 \<Rightarrow> (nv_store, 'a) st_op \<Rightarrow> bool" where
  "changes_at h f \<longleftrightarrow> (\<forall>n. bt_wf (indices n) \<longrightarrow> (case f n of
     (Inl e, n') \<Rightarrow> n' = n
   | (Inr x, n') \<Rightarrow> (bt_wf (indices n') \<and> (\<exists>i i'. store_get h n = Inr i \<and> index_kept i i' \<and> written i'
        \<and> (\<forall>h'. store_get h' n' = (if h' = h then Inr i' else store_get h' n))))))"

lemma written_set_written [simp]: "written (set_written i)"
  by (simp add: set_written_def set_attributes_def written_def attr_has_def attr_with_def bit_simps)

lemma changes_index_data:
  "changes_index (nv_write offset value)" "changes_index (nv_increment floor)" "changes_index (nv_set_bits bits)"
  "changes_index (nv_extend E value)" "changes_index (write_index offset value)"
  by (auto simp: changes_index_def index_kept_def nv_write_def nv_increment_def nv_set_bits_def nv_extend_def write_index_def
      Let_def split: sum.splits option.splits prod.splits)

lemma changes_at_store:
  assumes "changes_index f" shows "changes_at h (store_at h f)"
  unfolding changes_at_def
proof (intro allI impI)
  fix n :: nv_store assume wf: "bt_wf (indices n)"
  show "case store_at h f n of (Inl e, n') \<Rightarrow> n' = n
      | (Inr x, n') \<Rightarrow> bt_wf (indices n') \<and> (\<exists>i i'. store_get h n = Inr i \<and> index_kept i i' \<and> written i'
          \<and> (\<forall>h'. store_get h' n' = (if h' = h then Inr i' else store_get h' n)))"
  proof (cases "bt_get (indices n) h")
    case (Some i)
    obtain r i' where r: "f i = (r, i')" by (cases "f i")
    then have "case r of Inl e \<Rightarrow> i' = i | Inr x \<Rightarrow> index_kept i i' \<and> written i'"
      using assms by (auto simp: changes_index_def dest: spec [of _ i] split: sum.split)
    then show ?thesis
      using Some wf by (cases r) (auto simp: store_at_def store_get_def r bt_update_same)
  qed (simp add: store_at_def)
qed

lemma changes_at_increment: "changes_at h (store_increment h)"
  unfolding changes_at_def
proof (intro allI impI)
  fix n :: nv_store assume wf: "bt_wf (indices n)"
  obtain r n' where r: "store_at h (nv_increment (highest_counter n)) n = (r, n')"
    by (cases "store_at h (nv_increment (highest_counter n)) n")
  note at = changes_at_store [OF changes_index_data(2), unfolded changes_at_def, rule_format, OF wf,
      of h "highest_counter n", unfolded r]
  show "case store_increment h n of (Inl e, n') \<Rightarrow> n' = n
      | (Inr x, n') \<Rightarrow> bt_wf (indices n') \<and> (\<exists>i i'. store_get h n = Inr i \<and> index_kept i i' \<and> written i'
          \<and> (\<forall>h'. store_get h' n' = (if h' = h then Inr i' else store_get h' n)))"
    using at by (cases r) (simp_all add: store_increment_def r store_get_def)
qed

lemma changing_guarded:
  assumes f: "changes_at h f" and wf: "bt_wf (indices (nv s))"
  shows "case changing auth h f q (Inr r) s of
      (Inl e, s') \<Rightarrow> s' = s
    | (Inr x, s') \<Rightarrow> bt_wf (indices (nv s')) \<and> (\<exists>i i'. store_get h (nv s) = Inr i \<and> check_write_authority i auth (first_auth_is_policy s q) = Inr ()
        \<and> \<not> write_locked i \<and> index_kept i i' \<and> written i'
        \<and> (\<forall>h'. store_get h' (nv s') = (if h' = h then Inr i' else store_get h' (nv s))))"
proof (cases "writable s q h auth")
  case (Inl e)
  then show ?thesis by (simp add: changing_def st_bind_def)
next
  case (Inr u)
  then obtain i where i: "store_get h (nv s) = Inr i" "check_write_authority i auth (first_auth_is_policy s q) = Inr ()"
      "\<not> write_locked i"
    by (auto simp: writable_def index_at_def res_bind_eq_Inr split: if_splits)
  obtain x n' where x: "f (nv s) = (x, n')" by (cases "f (nv s)")
  note at = f [unfolded changes_at_def, rule_format, OF wf, unfolded x]
  have nv: "nv (note_orderly_write h s) = nv s" for s
    by (simp add: note_orderly_write_def nv_is_no_longer_orderly_def Let_def)
  show ?thesis
    using at i by (cases x) (auto simp: changing_def st_bind_def Inr on_nv_def x nv)
qed

lemma area_guarded:
  assumes wf: "bt_wf (indices (nv s))" and f: "\<And>v h. changes_at h (f v h)" and ans: "\<And>q. \<exists>r. ans q = Inr r"
    and c: "c = with_handle_area 0 (\<lambda>auth. with_handle_area 1 (\<lambda>h q s.
      case get q of Inl e \<Rightarrow> (Inl e, s) | Inr v \<Rightarrow> changing auth h (f v h) q (ans q) s))"
  shows "case c q s of
      (Inl e, s') \<Rightarrow> s' = s
    | (Inr r, s') \<Rightarrow> \<exists>auth h i i'. rq_handle q 0 = Inr auth \<and> rq_handle q 1 = Inr h \<and> store_get h (nv s) = Inr i
        \<and> check_write_authority i auth (first_auth_is_policy s q) = Inr () \<and> \<not> write_locked i
        \<and> written i' \<and> write_locked i' = write_locked i \<and> read_locked i' = read_locked i \<and> nv_auth i' = nv_auth i
        \<and> (\<forall>h'. store_get h' (nv s') = (if h' = h then Inr i' else store_get h' (nv s)))"
proof (cases "rq_handle q 0"; cases "rq_handle q 1"; cases "get q")
  fix auth h v assume h: "rq_handle q 0 = Inr auth" "rq_handle q 1 = Inr h" "get q = Inr v"
  obtain r where r: "ans q = Inr r" using ans by blast
  obtain x s' where x: "changing auth h (f v h) q (Inr r) s = (x, s')" by (cases "changing auth h (f v h) q (Inr r) s")
  show ?thesis
    using changing_guarded [OF f [where v = v and h = h] wf, of auth q r] h r
    by (cases x) (auto simp: c with_handle_area_apply index_kept_def x)
qed (simp_all add: c with_handle_area_apply)

text \<open>C12: the commands that change the data of an index need its write authority and an open lock. Whatever the state
  and the request, a write, an increment, an extension or a setting of bits that fails changes nothing; one that
  succeeds had an index that is not write-locked and whose attributes let the authorizing handle, with the kind of session
  it used, write it; and it changed that index alone, which is written after it, with its locks and authorization
  value as they were.\<close>

theorem nv_writes_guarded:
  assumes "bt_wf (indices (nv s))"
    and "c \<in> {nv_write_command, nv_increment_command, nv_extend_command E, nv_set_bits_command}"
  shows "case c q s of
      (Inl e, s') \<Rightarrow> s' = s
    | (Inr r, s') \<Rightarrow> \<exists>auth h i i'. rq_handle q 0 = Inr auth \<and> rq_handle q 1 = Inr h \<and> store_get h (nv s) = Inr i
        \<and> check_write_authority i auth (first_auth_is_policy s q) = Inr () \<and> \<not> write_locked i
        \<and> written i' \<and> write_locked i' = write_locked i \<and> read_locked i' = read_locked i \<and> nv_auth i' = nv_auth i
        \<and> (\<forall>h'. store_get h' (nv s') = (if h' = h then Inr i' else store_get h' (nv s)))"
proof -
  note area = area_guarded [OF assms(1)]
  have unreads: "\<exists>r. unread (respond_empty q) = Inr r" "\<exists>r. respond_empty q = Inr r" for q by (simp_all add: unread_def)
  show ?thesis
    using assms(2)
  proof (elim insertE emptyE)
    assume "c = nv_write_command"
    then show ?thesis
      by (intro area [where get = "all_parameters (both (param 1 (tpm2b_get MAX_NV_BUFFER_SIZE)) (param 2 r_u16))"
            and f = "\<lambda>v h. store_at h (write_index (snd v) (fst v))" and ans = respond_empty])
         (simp_all add: nv_write_command_def reading_def [abs_def] changes_at_store changes_index_data case_prod_unfold unreads(2) del: respond_empty_Inr)
  next
    assume "c = nv_increment_command"
    then show ?thesis
      by (intro area [where get = "\<lambda>_. Inr ()" and f = "\<lambda>_ h. store_increment h" and ans = "\<lambda>q. unread (respond_empty q)"])
         (simp_all add: nv_increment_command_def changes_at_increment unreads(1) del: respond_empty_Inr)
  next
    assume "c = nv_extend_command E"
    then show ?thesis
      by (intro area [where get = "all_parameters (param 1 (tpm2b_get MAX_NV_BUFFER_SIZE))"
            and f = "\<lambda>v h. store_at h (nv_extend E v)" and ans = respond_empty])
         (simp_all add: nv_extend_command_def reading_def [abs_def] changes_at_store changes_index_data unreads(2) del: respond_empty_Inr)
  next
    assume "c = nv_set_bits_command"
    then show ?thesis
      by (intro area [where get = "all_parameters (param 1 r_u64)" and f = "\<lambda>v h. store_at h (nv_set_bits v)" and ans = respond_empty])
         (simp_all add: nv_set_bits_command_def reading_def [abs_def] changes_at_store changes_index_data unreads(2) del: respond_empty_Inr)
  qed
qed

text \<open>A TPM with one counter, and a request by the owner on it.\<close>

definition nv_demo :: "bool \<Rightarrow> tpm_state" where
  "nv_demo locked = demo_tpm\<lparr>nv := store_new\<lparr>indices := [(0x01000001, demo_counter\<lparr>write_locked := locked\<rparr>)]\<rparr>\<rparr>"

definition nv_demo_request :: request where
  "nv_demo_request = (demo_request cc_NV_Increment rh_OWNER [])\<lparr>rq_handles := [rh_OWNER, 0x01000001]\<rparr>"

lemma nv_demo_facts [simp]:
  "bt_wf (indices (nv (nv_demo l)))" "bt_get (indices (nv (nv_demo l))) 0x01000001 = Some (demo_counter\<lparr>write_locked := l\<rparr>)"
  "store_get 0x01000001 (nv (nv_demo l)) = Inr (demo_counter\<lparr>write_locked := l\<rparr>)"
  "rq_handle nv_demo_request 0 = Inr rh_OWNER" "rq_handle nv_demo_request (Suc 0) = Inr 0x01000001"
  by (simp_all add: nv_demo_def store_get_def nv_demo_request_def demo_request_def rq_handle_def get_at_def bt_wf_def)

theorem nv_writes_guarded_witness:
  "\<exists>i. store_get 0x01000001 (nv (snd (nv_increment_command nv_demo_request (nv_demo False)))) = Inr i \<and> written i"
proof -
  obtain r t where r: "nv_increment_command nv_demo_request (nv_demo False) = (r, t)"
    by (cases "nv_increment_command nv_demo_request (nv_demo False)")
  have "r \<noteq> Inl e" for e
    using r
    by (auto simp: nv_increment_command_def with_handle_area_apply changing_def st_bind_def writable_def index_at_def
        check_write_authority_def demo_counter_def on_nv_def store_increment_def store_at_def nv_increment_def
        unread_def nt_of_def index_type_def NV_TYPE_MASK_def bit_numeral_rec written_def split: if_splits prod.splits sum.splits option.splits)
  then show ?thesis
    using nv_writes_guarded [of "nv_demo False" nv_increment_command "demo_env True" nv_demo_request] r
    by (cases r) auto
qed

section \<open>A locked index is frozen\<close>

datatype nv_cmd = Define_space | Define_space2 | Write | Increment | Extend | Set_bits | Write_lock | Global_write_lock
  | Read | Read_lock | Change_auth | Read_public | Read_public2

fun nv_command :: "env \<Rightarrow> nv_cmd \<Rightarrow> command" where
  "nv_command E Define_space = nv_define_space E"
| "nv_command E Define_space2 = nv_define_space2 E"
| "nv_command E Write = nv_write_command"
| "nv_command E Increment = nv_increment_command"
| "nv_command E Extend = nv_extend_command E"
| "nv_command E Set_bits = nv_set_bits_command"
| "nv_command E Write_lock = nv_write_lock"
| "nv_command E Global_write_lock = nv_global_write_lock"
| "nv_command E Read = nv_read_command"
| "nv_command E Read_lock = nv_read_lock"
| "nv_command E Change_auth = nv_change_auth E"
| "nv_command E Read_public = nv_read_public E"
| "nv_command E Read_public2 = nv_read_public2 E"

definition nv_command_step :: "env \<Rightarrow> nv_cmd \<times> request \<Rightarrow> tpm_state \<Rightarrow> tpm_state" where
  "nv_command_step E = (\<lambda>(c, q) s. snd (nv_command E c q s))"

definition frozen :: "u32 \<Rightarrow> bytes \<Rightarrow> nv_store \<Rightarrow> bool" where
  "frozen h d n \<longleftrightarrow> bt_wf (indices n) \<and> (\<exists>i. store_get h n = Inr i \<and> write_locked i \<and> nv_data i = d)"

lemma upholds_on_nv: "upholds P m \<Longrightarrow> upholds (\<lambda>s. P (nv s)) (on_nv m)"
  by (simp add: upholds_iff on_nv_def split: prod.split) (metis snd_conv)

lemma frozen_changing:
  assumes "changes_at h' f" shows "upholds (\<lambda>s. frozen h d (nv s)) (changing auth h' f q (Inr r))"
  unfolding upholds_iff
proof (intro allI impI)
  fix s :: tpm_state assume fr: "frozen h d (nv s)"
  then have wf: "bt_wf (indices (nv s))" by (simp add: frozen_def)
  show "frozen h d (nv (snd (changing auth h' f q (Inr r) s)))"
  proof (cases "changing auth h' f q (Inr r) s")
    case (Pair x s')
    show ?thesis
      using changing_guarded [OF assms wf, of auth q r] fr by (cases x) (auto simp: Pair frozen_def)
  qed
qed

lemma frozen_store_at:
  assumes "\<And>i. nv_data (snd (f i)) = nv_data i" and "\<And>i. write_locked i \<Longrightarrow> write_locked (snd (f i))"
  shows "upholds (frozen h d) (store_at h' f)"
  using assms by (auto simp: upholds_iff frozen_def store_at_def store_get_def split: option.split prod.split) (metis snd_conv)+

lemma frozen_global: "frozen h d n \<Longrightarrow> frozen h d (global_write_lock n)"
  by (cases "bt_get (indices n) h") (auto simp: frozen_def global_write_lock_def store_get_def set_write_lock_def set_attributes_def)

lemma frozen_define: "upholds (frozen h d) (store_define i)"
proof -
  have "bt_get (indices (raise_mark i n)) h' = bt_get (indices n) h'" "indices (raise_mark i n) = indices n" for n h'
    by (simp_all add: raise_mark_def split: sum.split)
  then show ?thesis
    by (auto simp: upholds_iff frozen_def store_define_def store_get_def Let_def bt_contains_def)
qed

lemma frozen_commands: "upholds (\<lambda>s. frozen h d (nv s)) (nv_command E c q)"
proof -
  have unread: "unread (Inr r) = Inr (r\<lparr>rs_read := 0\<rparr>)" for r :: response by (simp add: unread_def)
  have orderly: "upholds (\<lambda>s. frozen h d (nv s)) (on_nv (store_at h' (st_modify (set_write_lock True))))"
    "upholds (\<lambda>s. frozen h d (nv s)) (on_nv (store_at h' (st_modify (set_read_lock True))))"
    "upholds (\<lambda>s. frozen h d (nv s)) (on_nv (store_at h' (change_index_auth E v)))"
    "upholds (\<lambda>s. frozen h d (nv s)) (on_nv (store_define i))" for h' v i
    by (intro upholds_on_nv frozen_store_at frozen_define;
        simp add: set_write_lock_def set_read_lock_def set_attributes_def change_index_auth_def split: sum.split)+
  have defining: "upholds (\<lambda>s. frozen h d (nv s)) (nv_define E auth v p q)" for auth v p q
    unfolding nv_define_def by (intro upholds_intros orderly)
  have choice: "upholds (\<lambda>s. frozen h d (nv s)) ((case p2 of NV_Index p \<Rightarrow> f p | NV_External p \<Rightarrow> g p | NV_Permanent p \<Rightarrow> f p) q)"
    if "\<And>p. upholds (\<lambda>s. frozen h d (nv s)) (f p q)" "\<And>p. upholds (\<lambda>s. frozen h d (nv s)) (g p q)" for p2 f g and q :: request
    using that by (cases p2) auto
  note steps = upholds_intros orderly defining choice frozen_changing changes_at_store changes_index_data changes_at_increment
  show ?thesis
  proof (cases c)
    case Define_space2
    then show ?thesis
      by (auto simp: nv_define_space2_def case_prod_unfold intro!: steps)
  next
    case Global_write_lock
    then show ?thesis by (auto simp: nv_global_write_lock_def intro!: upholds_intros frozen_global)
  qed (auto simp: nv_define_space_def nv_write_command_def nv_increment_command_def nv_extend_command_def
      nv_set_bits_command_def nv_write_lock_def nv_read_command_def nv_read_lock_def nv_change_auth_def nv_read_public_def
      nv_read_public2_def case_prod_unfold unread intro!: steps)
qed

interpretation frozen_run: invariant_steps "nv_command_step E" "\<lambda>s. frozen h d (nv s)"
  by unfold_locales (auto simp: nv_command_step_def intro: upholdsD [OF frozen_commands])

text \<open>C13: a write-locked index is frozen. Whatever NV commands follow, except those that remove an index, from
  whomever and in whatever order, the index is still there, still locked, with the data it had.\<close>

theorem locked_index_frozen:
  assumes "bt_wf (indices (nv s))" and "store_get h (nv s) = Inr i" and "write_locked i"
  shows "\<exists>i'. store_get h (nv (run_steps (nv_command_step E) run s)) = Inr i' \<and> write_locked i' \<and> nv_data i' = nv_data i"
  using frozen_run.run_inv [of h "nv_data i" s E run] assms by (auto simp: frozen_def)

theorem locked_index_frozen_witness:
  "\<exists>i. store_get 0x01000001 (nv (run_steps (nv_command_step (demo_env True))
       [(Increment, nv_demo_request), (Global_write_lock, nv_demo_request)] (nv_demo True))) = Inr i
     \<and> write_locked i \<and> nv_data i = []"
  using locked_index_frozen [of "nv_demo True" "0x01000001" "demo_counter\<lparr>write_locked := True\<rparr>" "demo_env True"
      "[(Increment, nv_demo_request), (Global_write_lock, nv_demo_request)]"]
  by (simp add: demo_counter_def)

end
