(* ===== verification/Policy.thy ===== *)
theory Policy
  imports Sequences NvCommands
begin

text \<open>
  Sessions and policies (\<open>src/tpm/commands/policy.rs\<close>): the start of a session, the policy update shared by the
  commands that stand on an authorization, the tickets of such authorizations and the three commands that use them,
  and the assertions that only touch the session. A command that changes a session through the code's mutable
  reference is an operation on the session here, lifted by \<open>on_policy\<close>; what it changed before a failure stays.
\<close>

section \<open>Starting a session\<close>

definition object_named :: "nat \<Rightarrow> u32 \<Rightarrow> tpm_state \<Rightarrow> object tpm_result" where
  "object_named n h s =
     (if is_transient h then map_err (with_handle n) (objects_object h (objects s))
      else ok_or (bt_get (persistent s) h) (with_handle n rc_HANDLE))"

definition decrypt_salt :: "env \<Rightarrow> bn_lib \<Rightarrow> ec_lib \<Rightarrow> tpm_state \<Rightarrow> u32 \<Rightarrow> bytes \<Rightarrow> bytes tpm_result" where
  "decrypt_salt E B L s key encrypted =
     res_bind (object_named 1 key s) (\<lambda>x.
       let p = obj_public x; a = name_alg p; bad = (\<lambda>_. with_parameter 2 rc_VALUE) in
       if \<not> has_attr x oa_DECRYPT then Inl (with_handle 1 rc_ATTRIBUTES)
       else case obj_sensitive x of
         None \<Rightarrow> Inl (with_handle 1 rc_HANDLE)
       | Some secret \<Rightarrow>
          (case unique p of
             Rsa_id modulus \<Rightarrow>
               if object_type p \<noteq> alg_RSA then Inl (with_handle 1 rc_TYPE)
               else (case parameters p of
                  Rsa_parms r \<Rightarrow>
                    res_bind (from_prime B modulus (rsa_exponent r) (secret_of secret)) (\<lambda>k.
                    res_bind (map_err bad (private_op B k encrypted)) (\<lambda>plain.
                      map_err bad (oaep_decode E a plain (ascii ''SECRET'' @ [0]))))
                | _ \<Rightarrow> Inl (with_handle 1 rc_TYPE))
           | Ecc_id pt \<Rightarrow>
               if object_type p \<noteq> alg_ECC then Inl (with_handle 1 rc_TYPE)
               else (case parameters p of
                  Ecc_parms e \<Rightarrow>
                    res_bind (map_err bad (from_bytes tpm2b_ecc_point_get encrypted)) (\<lambda>peer.
                    res_bind (curve_new (ecc_curve e)) (\<lambda>c.
                    res_bind (map_err bad (ecdh B L c (bn_from_bytes B (secret_of secret)) (pt_x peer) (pt_y peer))) (\<lambda>(zx, _).
                    res_bind (hash_size E a) (\<lambda>n.
                      kdfe E a zx (ascii ''SECRET'') (pt_x peer) (pt_x pt) (of_nat (n * 8))))))
                | _ \<Rightarrow> Inl (with_handle 1 rc_TYPE))
           | _ \<Rightarrow> Inl (with_handle 1 rc_TYPE)))"

text \<open>What a session is bound to: the value, whether it counts for lockout, and the name with the value.\<close>

definition bind_entity :: "env \<Rightarrow> u32 \<Rightarrow> tpm_state \<Rightarrow> (bytes \<times> bool \<times> bytes) tpm_result" where
  "bind_entity E h s =
     (if h = rh_NULL then Inr ([], False, [])
      else res_bind (map_err (with_handle 2) (entity_of E s h)) (\<lambda>e.
           if en_pin e \<noteq> None then Inl (with_handle 2 rc_HANDLE)
           else res_bind (name_of E s h) (\<lambda>n. Inr (en_auth e, uses_lockout e, bind_id n (en_auth e)))))"

definition check_session_parameters :: "env \<Rightarrow> u32 \<Rightarrow> bytes \<Rightarrow> bytes \<Rightarrow> u8 \<Rightarrow> sym_def \<Rightarrow> u16 \<Rightarrow> nat tpm_result" where
  "check_session_parameters E key n_caller salt ty sd a =
     (if sym_alg sd \<noteq> alg_NULL \<and> sym_alg sd \<noteq> alg_XOR \<and> sym_mode sd \<noteq> alg_CFB then Inl (with_parameter 4 rc_MODE)
      else if \<not> is_session_type ty then Inl (with_parameter 3 rc_VALUE)
      else if \<not> is_valid_auth_hash E a then Inl (with_parameter 5 rc_HASH)
      else res_bind (hash_size E a) (\<lambda>n.
           if length n_caller < 16 \<or> n < length n_caller then Inl (with_parameter 1 rc_SIZE)
           else if key = rh_NULL \<and> salt \<noteq> [] then Inl (with_parameter 2 rc_VALUE)
           else Inr n))"

definition open_session ::
  "env \<Rightarrow> u8 \<Rightarrow> u16 \<Rightarrow> bytes \<Rightarrow> bytes \<Rightarrow> bytes \<Rightarrow> u32 \<Rightarrow> bytes \<Rightarrow> bool \<Rightarrow> sym_def \<Rightarrow> (tpm_state, u32) st_op" where
  "open_session E ty a n_tpm n_caller key b name counts sd s =
     (case res_bind (allocate_handle ty (session_slots s)) (\<lambda>h. session_new E h ty a n_tpm n_caller key b name sd) of
        Inl e \<Rightarrow> (Inl e, s)
      | Inr x \<Rightarrow>
          (case slots_insert (x\<lparr>bind_uses_lockout := counts, start_time := time (clock_of s), time_epoch := clk_epoch (clock_of s)\<rparr>)
                  (session_slots s) of
             (r, z) \<Rightarrow> (r, s\<lparr>session_slots := z\<rparr>)))"

definition start_auth_session :: "env \<Rightarrow> bn_lib \<Rightarrow> ec_lib \<Rightarrow> command" where
  "start_auth_session E B L = with_handle_area 0 (\<lambda>key. with_handle_area 1 (\<lambda>b.
     reading (both (param 1 (tpm2b_get MAX_DIGEST_SIZE)) (both (param 2 (tpm2b_get MAX_RSA_KEY_BYTES))
         (both (param 3 r_u8) (both (param 4 (sym_def_get E)) (param 5 r_u16)))))
     (\<lambda>(n_caller, encrypted, ty, sd, a) q.
       st_bind (st_lift (check_session_parameters E key n_caller encrypted ty sd a)) (\<lambda>n.
       st_bind (st_view (\<lambda>s. if key = rh_NULL then Inr [] else decrypt_salt E B L s key encrypted)) (\<lambda>salt.
       st_bind (st_view (bind_entity E b)) (\<lambda>(value, counts, name).
       st_bind (draw E n) (\<lambda>n_tpm.
       st_bind (st_lift (derive_session_key E a (key = rh_NULL \<and> b = rh_NULL) value salt n_tpm n_caller)) (\<lambda>k.
       st_bind (open_session E ty a n_tpm n_caller k b name counts sd) (\<lambda>h.
         st_lift (map_sum id (\<lambda>r. r\<lparr>rs_handle := Some h\<rparr>) (respond_try q (put_new MAX_DIGEST_SIZE n_tpm))))))))))))"

section \<open>The session a policy command names\<close>

definition on_session :: "u32 \<Rightarrow> (session, 'a) st_op \<Rightarrow> (tpm_state, 'a) st_op" where
  "on_session h f s =
     (case map_err (with_handle 1) (slots_get h (session_slots s)) of
        Inl e \<Rightarrow> (Inl e, s)
      | Inr x \<Rightarrow>
          (case f x of (r, x) \<Rightarrow>
             (r, s\<lparr>session_slots := (session_slots s)\<lparr>sessions := bt_update h x (sessions (session_slots s))\<rparr>\<rparr>)))"

definition policy_session :: "u32 \<Rightarrow> tpm_state \<Rightarrow> session tpm_result" where
  "policy_session h s =
     res_bind (map_err (with_handle 1) (slots_get h (session_slots s))) (\<lambda>x.
       if \<not> is_policy x then Inl (with_handle 1 rc_MODE) else Inr x)"

definition on_policy :: "u32 \<Rightarrow> (session, 'a) st_op \<Rightarrow> (tpm_state, 'a) st_op" where
  "on_policy h f = on_session h (\<lambda>x. if \<not> is_policy x then (Inl (with_handle 1 rc_MODE), x) else f x)"

definition policy_restart :: "env \<Rightarrow> command" where
  "policy_restart E = with_handle_area 0 (\<lambda>h q.
     st_bind (on_session h (restart_policy E)) (\<lambda>_. st_lift (unread (respond_empty q))))"

text \<open>What a command notes on the policy of its session.\<close>

definition note_policy :: "(policy_state \<Rightarrow> policy_state) \<Rightarrow> (session, unit) st_op" where
  "note_policy f = st_modify (\<lambda>x. x\<lparr>policy := f (policy x)\<rparr>)"

definition policy_authorization_update :: "env \<Rightarrow> u32 \<Rightarrow> bytes \<Rightarrow> bytes \<Rightarrow> (session, unit) st_op" where
  "policy_authorization_update E cc name ref =
     st_bind (extend_policy E cc name) (\<lambda>_ x.
       case digest_parts E (auth_hash x) [pol_digest (policy x), ref] of
         Inl e \<Rightarrow> (Inl e, x)
       | Inr d \<Rightarrow> (Inr (), set_policy_digest d x))"

section \<open>Authorization tickets\<close>

definition authorization_ticket_hmac ::
  "env \<Rightarrow> tpm_state \<Rightarrow> u32 \<Rightarrow> u16 \<Rightarrow> bytes \<Rightarrow> bytes \<Rightarrow> bytes \<Rightarrow> bytes \<Rightarrow> bool \<Rightarrow> bytes tpm_result" where
  "authorization_ticket_hmac E s h tag cp ref name timeout with_nonce =
     res_bind (hierarchy_proof E h s) (\<lambda>p.
       let expires = list_ex (\<lambda>b. b \<noteq> 0) timeout;
           parts = [to_be 2 tag, cp, ref, name, timeout]
             @ (if expires then [to_be 8 (clk_epoch (clock_of s))] @ (if with_nonce then [] else [to_be 4 (total_reset_count (clock_of s))])
                else [])
       in hmac_parts E CONTEXT_INTEGRITY_HASH_ALG p parts)"

definition ticket_hierarchy :: "tpm_state \<Rightarrow> u32 \<Rightarrow> u32" where
  "ticket_hierarchy s h =
     (let at_rest = (if h = rh_LOCKOUT \<or> h = rh_PLATFORM_NV then rh_PLATFORM else rh_OWNER);
          by_index = (if is_nv_handle h then
             (case store_get h (nv s) of
                Inr i \<Rightarrow> if index_has i nv_PLATFORMCREATE then rh_PLATFORM else rh_OWNER
              | Inl _ \<Rightarrow> at_rest) else at_rest);
          by_persistent = (case bt_get (persistent s) h of Some x \<Rightarrow> obj_hierarchy x | None \<Rightarrow> by_index)
      in if is_hierarchy h then h
         else if is_transient h then (case objects_object h (objects s) of Inr x \<Rightarrow> obj_hierarchy x | Inl _ \<Rightarrow> by_persistent)
         else by_persistent)"

definition EXPIRES_ON_RESET :: u64 where "EXPIRES_ON_RESET = push_bit 63 1"

text \<open>The expiration is the code's \<open>i32\<close>, kept in a word and read with its sign.\<close>

definition authorization_timeout :: "u64 \<Rightarrow> u32 \<Rightarrow> bool \<Rightarrow> bytes" where
  "authorization_timeout start_at e without_nonce =
     (if 0 \<le> sint e then []
      else let limit = of_int (- sint e) * 1000;
               expires = (if without_nonce then limit else saturating_add start_at limit);
               expires = (if without_nonce then expires OR EXPIRES_ON_RESET else expires)
           in to_be 8 (expires :: u64))"

definition check_cp_hash :: "env \<Rightarrow> bytes \<Rightarrow> session \<Rightarrow> unit tpm_result" where
  "check_cp_hash E cp x =
     (if cp = [] then Inr ()
      else if is_trial x then Inr ()
      else case pol_cp_hash (policy x) of
          Some current \<Rightarrow> if current \<noteq> cp then Inl rc_CPHASH else Inr ()
        | None \<Rightarrow> res_bind (hash_size E (auth_hash x)) (\<lambda>n. if length cp \<noteq> n then Inl (with_parameter 2 rc_SIZE) else Inr ()))"

definition set_cp_hash :: "bytes \<Rightarrow> policy_state \<Rightarrow> policy_state" where
  "set_cp_hash cp p = (if cp \<noteq> [] then p\<lparr>pol_cp_hash := Some cp\<rparr> else p)"

definition timeout_value :: "bytes \<Rightarrow> u64 option" where
  "timeout_value t = (if length t \<noteq> 8 then None else Some (from_be t AND NOT EXPIRES_ON_RESET))"

definition record_expiration :: "bytes \<Rightarrow> policy_state \<Rightarrow> policy_state" where
  "record_expiration t p =
     (case timeout_value t of
        None \<Rightarrow> p
      | Some expires \<Rightarrow> p\<lparr>expiration := Some (case expiration p of Some current \<Rightarrow> min current expires | None \<Rightarrow> expires)\<rparr>)"

definition build_authorization_ticket ::
  "env \<Rightarrow> tpm_state \<Rightarrow> u16 \<Rightarrow> u32 \<Rightarrow> u32 \<Rightarrow> bytes \<Rightarrow> bytes \<Rightarrow> bytes \<Rightarrow> bytes \<Rightarrow> bool \<Rightarrow> bool \<Rightarrow> ticket tpm_result" where
  "build_authorization_ticket E s tag h e timeout cp ref name trial with_nonce =
     (if 0 \<le> sint e \<or> trial then Inr (ticket_null tag)
      else res_bind (authorization_ticket_hmac E s h tag cp ref name timeout with_nonce) (\<lambda>m.
           res_bind (tpm2b_new MAX_DIGEST_SIZE m) (\<lambda>m.
             Inr \<lparr>tk_tag = tag, tk_hierarchy = h, tk_digest = m\<rparr>)))"


section \<open>Authorizations that satisfy a policy\<close>

text \<open>A limit that has gone by, or that was measured in an earlier run of Time.\<close>

definition check_limit :: "tpm_state \<Rightarrow> session \<Rightarrow> bytes \<Rightarrow> unit tpm_result" where
  "check_limit s x timeout =
     (case timeout_value timeout of
        None \<Rightarrow> Inr ()
      | Some expires \<Rightarrow>
          if \<not> is_trial x \<and> (time_epoch x \<noteq> clk_epoch (clock_of s) \<or> expires < time (clock_of s))
          then Inl (with_parameter 4 rc_EXPIRED) else Inr ())"

definition check_session_nonce :: "session \<Rightarrow> bytes \<Rightarrow> unit tpm_result" where
  "check_session_nonce x n =
     (if \<not> is_trial x \<and> n \<noteq> [] \<and> n \<noteq> nonce_tpm x then Inl (with_parameter 1 rc_VALUE) else Inr ())"

text \<open>The end that the two commands share: the restriction is checked before the digest moves.\<close>

definition record_authorization :: "env \<Rightarrow> u32 \<Rightarrow> bytes \<Rightarrow> bytes \<Rightarrow> bytes \<Rightarrow> (policy_state \<Rightarrow> policy_state) \<Rightarrow> (session, unit) st_op" where
  "record_authorization E cc cp name ref f =
     st_bind (st_view (check_cp_hash E cp)) (\<lambda>_.
     st_bind (policy_authorization_update E cc name ref) (\<lambda>_.
     st_bind (note_policy (set_cp_hash cp)) (\<lambda>_. note_policy f)))"

definition respond_ticket :: "request \<Rightarrow> bytes \<Rightarrow> ticket \<Rightarrow> response tpm_result" where
  "respond_ticket q timeout t = respond_try q (\<lambda>w. res_bind (put_new 8 timeout w) (\<lambda>w. Inr (ticket_put t w)))"

definition check_signed_authorization ::
  "env \<Rightarrow> bn_lib \<Rightarrow> ec_lib \<Rightarrow> tpm_state \<Rightarrow> u32 \<Rightarrow> session \<Rightarrow> bytes \<Rightarrow> bytes \<Rightarrow> bytes \<Rightarrow> u32 \<Rightarrow> tpmt_signature \<Rightarrow> unit tpm_result" where
  "check_signed_authorization E B L s key x n cp ref e sig =
     (if is_trial x then Inr ()
      else res_bind (check_session_nonce x n) (\<lambda>_.
           res_bind (digest_parts E (case signature_hash_alg sig of Some a \<Rightarrow> a | None \<Rightarrow> auth_hash x) [n, to_be 4 e, cp, ref]) (\<lambda>a_hash.
           res_bind (object_named 1 key s) (\<lambda>y.
             map_err (\<lambda>_. rc_POLICY_FAIL) (verify_digest E B L y a_hash sig)))))"

definition policy_signed :: "env \<Rightarrow> bn_lib \<Rightarrow> ec_lib \<Rightarrow> command" where
  "policy_signed E B L = with_handle_area 0 (\<lambda>key. with_handle_area 1 (\<lambda>h.
     reading (both (param 1 (tpm2b_get MAX_DIGEST_SIZE)) (both (param 2 (tpm2b_get MAX_DIGEST_SIZE))
         (both (param 3 (tpm2b_get MAX_DIGEST_SIZE)) (both (param 4 r_u32) (param 5 (signature_get E))))))
     (\<lambda>(n, cp, ref, e, sig) q.
       st_bind (st_view (\<lambda>s. map_err (with_handle 1) (name_of E s key))) (\<lambda>name.
       st_bind (st_view (policy_session h)) (\<lambda>x.
       st_bind (st_view (\<lambda>s. check_signed_authorization E B L s key x n cp ref e sig)) (\<lambda>_.
       let timeout = authorization_timeout (start_time x) e (n = []) in
       st_bind (st_view (\<lambda>s. check_limit s x timeout)) (\<lambda>_.
       st_bind (st_view (\<lambda>s. build_authorization_ticket E s st_AUTH_SIGNED (ticket_hierarchy s key) e timeout cp ref name (is_trial x) (n \<noteq> []))) (\<lambda>t.
       st_bind (on_policy h (record_authorization E cc_PolicySigned cp name ref (if sint e < 0 then record_expiration timeout else id))) (\<lambda>_.
         st_lift (respond_ticket q timeout t))))))))))"

text \<open>What the authorizing handle of \<open>TPM2_PolicySecret\<close> must be, and the session that authorizes it.\<close>

definition check_secret_entity :: "tpm_state \<Rightarrow> u32 \<Rightarrow> unit tpm_result" where
  "check_secret_entity s h =
     (if \<not> is_nv_handle h then Inr ()
      else res_bind (map_err (with_handle 1) (store_get h (nv s))) (\<lambda>i.
           if nt_of i \<noteq> nt_PIN_FAIL \<and> nt_of i \<noteq> nt_PIN_PASS \<and> \<not> index_has i nv_AUTHREAD
           then Inl (with_handle 1 rc_NV_AUTHORIZATION) else Inr ()))"

definition check_secret_session :: "tpm_state \<Rightarrow> request \<Rightarrow> unit tpm_result" where
  "check_secret_session s q =
     (case rq_sessions q of
        [] \<Rightarrow> Inr ()
      | a # _ \<Rightarrow>
          if in_handle a = rh_RS_PW then Inr ()
          else case slots_get (in_handle a) (session_slots s) of
              Inl _ \<Rightarrow> Inr ()
            | Inr x \<Rightarrow> if is_policy x \<and> \<not> auth_value_needed (policy x) \<and> \<not> password_needed (policy x)
                       then Inl (with_session 1 rc_MODE) else Inr ())"

definition is_pin_pass :: "tpm_state \<Rightarrow> u32 \<Rightarrow> bool" where
  "is_pin_pass s h = (is_nv_handle h \<and> (case store_get h (nv s) of Inr i \<Rightarrow> nt_of i = nt_PIN_PASS | Inl _ \<Rightarrow> False))"

definition policy_secret :: "env \<Rightarrow> command" where
  "policy_secret E = with_handle_area 0 (\<lambda>auth. with_handle_area 1 (\<lambda>h.
     reading (both (param 1 (tpm2b_get MAX_DIGEST_SIZE)) (both (param 2 (tpm2b_get MAX_DIGEST_SIZE))
         (both (param 3 (tpm2b_get MAX_DIGEST_SIZE)) (param 4 r_u32))))
     (\<lambda>(n, cp, ref, e) q.
       st_bind (st_view (\<lambda>s. map_err (with_handle 1) (name_of E s auth))) (\<lambda>name.
       st_bind (st_view (\<lambda>s. check_secret_entity s auth)) (\<lambda>_.
       st_bind (st_view (\<lambda>s. check_secret_session s q)) (\<lambda>_.
       st_bind (st_view (policy_session h)) (\<lambda>x.
       st_bind (st_lift (check_session_nonce x n)) (\<lambda>_.
       let timeout = authorization_timeout (start_time x) e (n = []) in
       st_bind (st_view (\<lambda>s. check_limit s x timeout)) (\<lambda>_.
       st_bind (st_view (\<lambda>s. if is_pin_pass s auth then Inr ([], ticket_null st_AUTH_SECRET)
           else res_bind (build_authorization_ticket E s st_AUTH_SECRET (ticket_hierarchy s auth) e timeout cp ref name (is_trial x) (n \<noteq> []))
                  (\<lambda>t. Inr (timeout, t)))) (\<lambda>(timeout, t).
       st_bind (on_policy h (record_authorization E cc_PolicySecret cp name ref (if sint e < 0 then record_expiration timeout else id))) (\<lambda>_.
         st_lift (respond_ticket q timeout t))))))))))))"

section \<open>Names that arrive as parameters\<close>

definition check_key_name :: "env \<Rightarrow> bytes \<Rightarrow> unit tpm_result" where
  "check_key_name E n =
     (if n = [] then Inr ()
      else if length n < 2 then Inl rc_SIZE
      else res_bind (ok_or (digest_size E (from_be (take 2 n))) rc_HASH) (\<lambda>k.
           if length n \<noteq> 2 + k then Inl rc_SIZE else Inr ()))"

definition check_entity_name :: "env \<Rightarrow> bytes \<Rightarrow> unit tpm_result" where
  "check_entity_name E n = (if n = [] \<or> length n = 4 then Inr () else check_key_name E n)"

definition check_entity_name_at :: "env \<Rightarrow> bytes \<Rightarrow> nat \<Rightarrow> unit tpm_result" where
  "check_entity_name_at E n k = map_err (with_parameter k) (check_entity_name E n)"

text \<open>A reader followed by a check of what it read.\<close>

definition checked :: "(reader \<Rightarrow> ('a \<times> reader) tpm_result) \<Rightarrow> ('a \<Rightarrow> unit tpm_result) \<Rightarrow> reader \<Rightarrow> ('a \<times> reader) tpm_result" where
  "checked get check r = res_bind (get r) (\<lambda>(v, r). res_bind (check v) (\<lambda>_. Inr (v, r)))"

section \<open>Presenting a ticket\<close>

definition validate_ticket :: "env \<Rightarrow> tpm_state \<Rightarrow> ticket \<Rightarrow> bytes \<Rightarrow> bytes \<Rightarrow> bytes \<Rightarrow> bytes \<Rightarrow> unit tpm_result" where
  "validate_ticket E s t cp ref name timeout =
     (if tk_digest t = [] then Inl (with_parameter 5 rc_TICKET)
      else let on_reset = (case timeout of b # _ \<Rightarrow> b AND 0x80 \<noteq> 0 | [] \<Rightarrow> False) in
        res_bind (map_err (\<lambda>_. with_parameter 5 rc_TICKET)
            (authorization_ticket_hmac E s (tk_hierarchy t) (tk_tag t) cp ref name timeout (\<not> on_reset))) (\<lambda>expected.
          if \<not> constant_time_eq expected (tk_digest t) then Inl (with_parameter 5 rc_TICKET)
          else case timeout_value timeout of
              Some expires \<Rightarrow> if expires < time (clock_of s) then Inl (with_parameter 1 rc_EXPIRED) else Inr ()
            | None \<Rightarrow> Inr ()))"

definition policy_ticket :: "env \<Rightarrow> command" where
  "policy_ticket E = with_handle_area 0 (\<lambda>h.
     reading (both (param 1 (tpm2b_get 8)) (both (param 2 (tpm2b_get MAX_DIGEST_SIZE)) (both (param 3 (tpm2b_get MAX_DIGEST_SIZE))
         (both (param 4 (checked (tpm2b_get SIZEOF_TPMT_HA) (check_entity_name E))) (param 5 (ticket_get [st_AUTH_SIGNED, st_AUTH_SECRET]))))))
     (\<lambda>(timeout, cp, ref, name, t) q.
       st_bind (st_view (policy_session h)) (\<lambda>x.
       st_bind (st_view (\<lambda>s. if is_trial x then Inr () else validate_ticket E s t cp ref name timeout)) (\<lambda>_.
       st_bind (on_policy h (record_authorization E (if tk_tag t = st_AUTH_SIGNED then cc_PolicySigned else cc_PolicySecret)
                  cp name ref (record_expiration timeout))) (\<lambda>_.
         st_lift (respond_empty q))))))"

end
