(* ===== verification/Assertions.thy ===== *)
theory Assertions
  imports Policy
begin

text \<open>
  The policy assertions (\<open>src/tpm/commands/policy.rs\<close>): each checks what it asserts, unless the session is a trial,
  extends the policy digest and records what must still hold when the session authorizes. \<open>TPM2_PolicyAuthorize\<close> and
  \<open>TPM2_PolicyAuthorizeNV\<close> start the digest again; \<open>TPM2_FlushContext\<close> ends sessions and objects.
\<close>

section \<open>Assertions on the session alone\<close>

text \<open>An operation on the session of handle 0, and an empty answer.\<close>

definition assertion :: "(session, unit) st_op \<Rightarrow> u32 \<Rightarrow> command" where
  "assertion f h q = st_bind (on_policy h f) (\<lambda>_. st_lift (respond_empty q))"

definition policy_or :: "env \<Rightarrow> command" where
  "policy_or E = with_handle_area 0 (\<lambda>h. reading (param 1 tpml_digest_get) (\<lambda>ds.
     assertion (st_bind (st_view (\<lambda>x.
           if \<not> is_trial x \<and> pol_digest (policy x) \<notin> set ds then Inl (with_parameter 1 rc_VALUE)
           else w_finish (foldl (\<lambda>w d. w_bytes d w) writer_new ds))) (\<lambda>data.
       st_bind (\<lambda>x. case hash_size E (auth_hash x) of Inl e \<Rightarrow> (Inl e, x) | Inr n \<Rightarrow> (Inr (), set_policy_digest (replicate n 0) x)) (\<lambda>_.
         extend_policy E cc_PolicyOR data))) h))"

definition note_pcr_counter :: "u32 \<Rightarrow> (session, unit) st_op" where
  "note_pcr_counter n x =
     (if is_trial x then (Inr (), x)
      else case pol_pcr_counter (policy x) of
          Some recorded \<Rightarrow> if recorded \<noteq> n then (Inl rc_PCR_CHANGED, x) else (Inr (), x)
        | None \<Rightarrow> (Inr (), x\<lparr>policy := (policy x)\<lparr>pol_pcr_counter := Some n\<rparr>\<rparr>))"

definition policy_pcr :: "env \<Rightarrow> command" where
  "policy_pcr E = with_handle_area 0 (\<lambda>h.
     reading (both (param 1 (tpm2b_get MAX_DIGEST_SIZE)) (param 2 (pcr_selections_get E))) (\<lambda>(expected, sel) q.
       st_bind (st_view (policy_session h)) (\<lambda>y.
       st_bind (st_view (\<lambda>s. Inr (pcrs s))) (\<lambda>p.
       let filtered = filter_selection sel p in
       st_bind (st_lift (selection_digest E (auth_hash y) filtered p)) (\<lambda>dg.
         assertion (st_bind (st_view (\<lambda>x. if \<not> is_trial x \<and> expected \<noteq> [] \<and> expected \<noteq> dg then Inl (with_parameter 1 rc_VALUE)
               else Inr (to_bytes pcr_selections_put (if is_trial x then sel else filtered)
                         @ (if is_trial x \<and> expected \<noteq> [] then expected else dg)))) (\<lambda>data.
           st_bind (note_pcr_counter (update_counter p)) (\<lambda>_. extend_policy E cc_PolicyPCR data))) h q)))))"

text \<open>The localities that are left; the code narrows the octets bit by bit.\<close>

definition narrowed :: "u8 \<Rightarrow> session \<Rightarrow> u8 tpm_result" where
  "narrowed m x =
     (if m = 0 \<and> \<not> is_trial x then Inl (with_parameter 1 rc_RANGE)
      else case pol_locality (policy x) of
          None \<Rightarrow> Inr m
        | Some existing \<Rightarrow>
            if existing AND m = 0 \<and> \<not> is_trial x then Inl (with_parameter 1 rc_RANGE) else Inr (existing AND m))"

definition policy_locality :: "env \<Rightarrow> command" where
  "policy_locality E = with_handle_area 0 (\<lambda>h. reading (param 1 (unmarshal_attr loc_reserved r_u8)) (\<lambda>m.
     assertion (st_bind (st_view (narrowed m)) (\<lambda>combined.
       st_bind (extend_policy E cc_PolicyLocality [m]) (\<lambda>_. note_policy (\<lambda>p. p\<lparr>pol_locality := Some combined\<rparr>)))) h))"

definition policy_command_code :: "env \<Rightarrow> command" where
  "policy_command_code E = with_handle_area 0 (\<lambda>h. reading (param 1 r_u32) (\<lambda>code.
     assertion (st_bind (st_view (\<lambda>x.
           if is_trial x then Inr ()
           else if lookup_command code = None then Inl (with_parameter 1 rc_VALUE)
           else case pol_command_code (policy x) of
               Some existing \<Rightarrow> if existing \<noteq> code then Inl (with_parameter 1 rc_VALUE) else Inr ()
             | None \<Rightarrow> Inr ())) (\<lambda>_.
       st_bind (extend_policy E cc_PolicyCommandCode (to_be 4 code)) (\<lambda>_.
         note_policy (\<lambda>p. p\<lparr>pol_command_code := Some code\<rparr>)))) h))"

text \<open>The assertions without parameters never make a reader.\<close>

definition plain_assertion :: "env \<Rightarrow> u32 \<Rightarrow> (policy_state \<Rightarrow> policy_state) \<Rightarrow> command" where
  "plain_assertion E cc f = with_handle_area 0 (\<lambda>h q.
     st_bind (on_policy h (st_bind (extend_policy E cc []) (\<lambda>_. note_policy f))) (\<lambda>_. st_lift (unread (respond_empty q))))"

definition policy_physical_presence :: "env \<Rightarrow> command" where
  "policy_physical_presence E = plain_assertion E cc_PolicyPhysicalPresence (\<lambda>p. p\<lparr>pp_required := True\<rparr>)"

definition policy_auth_value :: "env \<Rightarrow> command" where
  "policy_auth_value E = plain_assertion E cc_PolicyAuthValue (\<lambda>p. p\<lparr>auth_value_needed := True, password_needed := False\<rparr>)"

definition policy_password :: "env \<Rightarrow> command" where
  "policy_password E = plain_assertion E cc_PolicyAuthValue (\<lambda>p. p\<lparr>password_needed := True, auth_value_needed := False\<rparr>)"

definition policy_get_digest :: command where
  "policy_get_digest = with_handle_area 0 (\<lambda>h q.
     st_bind (st_view (policy_session h)) (\<lambda>x. st_lift (unread (respond_try q (put_new MAX_DIGEST_SIZE (pol_digest (policy x)))))))"

text \<open>The octet of a yes or no.\<close>

definition r_flag :: "reader \<Rightarrow> (bool \<times> reader) tpm_result" where
  "r_flag r = res_bind (r_u8 r) (\<lambda>(b, r). if b = 0 then Inr (False, r) else if b = 1 then Inr (True, r) else Inl rc_VALUE)"

definition policy_nv_written :: "env \<Rightarrow> command" where
  "policy_nv_written E = with_handle_area 0 (\<lambda>h. reading (param 1 r_flag) (\<lambda>w.
     assertion (st_bind (st_view (\<lambda>x. case pol_nv_written (policy x) of
             Some existing \<Rightarrow> if existing \<noteq> w \<and> \<not> is_trial x then Inl (with_parameter 1 rc_VALUE) else Inr ()
           | None \<Rightarrow> Inr ())) (\<lambda>_.
       st_bind (extend_policy E cc_PolicyNvWritten [if w then 1 else 0]) (\<lambda>_.
         note_policy (\<lambda>p. p\<lparr>pol_nv_written := Some w\<rparr>)))) h))"

section \<open>The assertions that exclude each other\<close>

definition check_digest_size :: "env \<Rightarrow> bytes \<Rightarrow> nat \<Rightarrow> session \<Rightarrow> unit tpm_result" where
  "check_digest_size E d n x =
     (if is_trial x then Inr ()
      else res_bind (hash_size E (auth_hash x)) (\<lambda>k. if length d \<noteq> k then Inl (with_parameter n rc_SIZE) else Inr ()))"

definition shared_cp_hash_taken :: "session \<Rightarrow> bool" where
  "shared_cp_hash_taken x =
     (if is_trial x then False
      else ses_bind x \<noteq> rh_NULL \<or> pol_cp_hash (policy x) \<noteq> None \<or> pol_name_hash (policy x) \<noteq> None
        \<or> parameters_hash (policy x) \<noteq> None \<or> template_hash (policy x) \<noteq> None)"

text \<open>An assertion of a digest: its size, the slot the exclusive assertions share, the update and the note of it.\<close>

definition exclusive_assertion ::
  "env \<Rightarrow> u32 \<Rightarrow> (session \<Rightarrow> unit tpm_result) \<Rightarrow> (bytes \<Rightarrow> policy_state \<Rightarrow> policy_state) \<Rightarrow> bytes \<Rightarrow> u32 \<Rightarrow> command" where
  "exclusive_assertion E cc check f d =
     assertion (st_bind (st_view (check_digest_size E d 1)) (\<lambda>_.
       st_bind (st_view check) (\<lambda>_.
       st_bind (extend_policy E cc d) (\<lambda>_. note_policy (f d)))))"

definition check_shared_slot :: "session \<Rightarrow> unit tpm_result" where
  "check_shared_slot x = (if shared_cp_hash_taken x then Inl rc_CPHASH else Inr ())"

definition policy_cp_hash :: "env \<Rightarrow> command" where
  "policy_cp_hash E = with_handle_area 0 (\<lambda>h. reading (param 1 (tpm2b_get MAX_DIGEST_SIZE)) (\<lambda>d.
     exclusive_assertion E cc_PolicyCpHash
       (\<lambda>x. if shared_cp_hash_taken x \<and> pol_cp_hash (policy x) \<noteq> Some d then Inl rc_CPHASH else Inr ())
       (\<lambda>d p. p\<lparr>pol_cp_hash := Some d\<rparr>) d h))"

definition policy_name_hash :: "env \<Rightarrow> command" where
  "policy_name_hash E = with_handle_area 0 (\<lambda>h. reading (param 1 (tpm2b_get MAX_DIGEST_SIZE)) (\<lambda>d.
     exclusive_assertion E cc_PolicyNameHash check_shared_slot (\<lambda>d p. p\<lparr>pol_name_hash := Some d\<rparr>) d h))"

definition policy_parameters :: "env \<Rightarrow> command" where
  "policy_parameters E = with_handle_area 0 (\<lambda>h. reading (param 1 (tpm2b_get MAX_DIGEST_SIZE)) (\<lambda>d.
     exclusive_assertion E cc_PolicyParameters check_shared_slot (\<lambda>d p. p\<lparr>parameters_hash := Some d\<rparr>) d h))"

definition policy_template :: "env \<Rightarrow> command" where
  "policy_template E = with_handle_area 0 (\<lambda>h. reading (param 1 (tpm2b_get MAX_DIGEST_SIZE)) (\<lambda>d.
     exclusive_assertion E cc_PolicyTemplate
       (\<lambda>x. case template_hash (policy x) of
           Some existing \<Rightarrow> if existing \<noteq> d \<and> \<not> is_trial x then Inl (with_parameter 1 rc_VALUE) else Inr ()
         | None \<Rightarrow> check_shared_slot x)
       (\<lambda>d p. p\<lparr>template_hash := Some d\<rparr>) d h))"

text \<open>The two that name objects: the digest covers the names they include, the name hash covers all.\<close>

definition note_names :: "u32 \<Rightarrow> bytes \<Rightarrow> (session, unit) st_op" where
  "note_names code d = note_policy (\<lambda>p. p\<lparr>pol_name_hash := Some d, pol_command_code := Some code\<rparr>)"

definition policy_duplication_select :: "env \<Rightarrow> command" where
  "policy_duplication_select E = with_handle_area 0 (\<lambda>h.
     reading (both (checked (both (param 1 (tpm2b_get SIZEOF_TPMT_HA)) (param 2 (tpm2b_get SIZEOF_TPMT_HA)))
           (\<lambda>(x, y). res_bind (check_entity_name_at E x 1) (\<lambda>_. check_entity_name_at E y 2))) (param 3 r_flag))
     (\<lambda>((x, parent), inc).
       assertion (st_bind (st_view (\<lambda>z. digest_parts E (auth_hash z) [x, parent])) (\<lambda>d.
         st_bind (st_view check_shared_slot) (\<lambda>_.
         st_bind (extend_policy E cc_PolicyDuplicationSelect ((if inc then x else []) @ parent @ [if inc then 1 else 0])) (\<lambda>_.
           note_names cc_Duplicate d)))) h))"

definition policy_ac_send_select :: "env \<Rightarrow> command" where
  "policy_ac_send_select E = with_handle_area 0 (\<lambda>h.
     reading (both (checked (both (param 1 (tpm2b_get SIZEOF_TPMT_HA)) (both (param 2 (tpm2b_get SIZEOF_TPMT_HA)) (param 3 (tpm2b_get SIZEOF_TPMT_HA))))
           (\<lambda>(x, y, z). res_bind (check_entity_name_at E x 1) (\<lambda>_. res_bind (check_entity_name_at E y 2) (\<lambda>_. check_entity_name_at E z 3))))
         (param 4 r_flag))
     (\<lambda>((x, auth, ac), inc).
       assertion (st_bind (st_view check_shared_slot) (\<lambda>_.
         st_bind (extend_policy E cc_Policy_AC_SendSelect ((if inc then x else []) @ auth @ ac @ [if inc then 1 else 0])) (\<lambda>_.
         st_bind (st_view (\<lambda>z. digest E (auth_hash z) (x @ auth @ ac))) (\<lambda>d.
           note_names cc_AC_Send d)))) h))"

section \<open>Comparisons\<close>

abbreviation (input) eo_EQ :: u16 where "eo_EQ \<equiv> 0x0000"
abbreviation (input) eo_NEQ :: u16 where "eo_NEQ \<equiv> 0x0001"
abbreviation (input) eo_SIGNED_GT :: u16 where "eo_SIGNED_GT \<equiv> 0x0002"
abbreviation (input) eo_UNSIGNED_GT :: u16 where "eo_UNSIGNED_GT \<equiv> 0x0003"
abbreviation (input) eo_SIGNED_LT :: u16 where "eo_SIGNED_LT \<equiv> 0x0004"
abbreviation (input) eo_UNSIGNED_LT :: u16 where "eo_UNSIGNED_LT \<equiv> 0x0005"
abbreviation (input) eo_SIGNED_GE :: u16 where "eo_SIGNED_GE \<equiv> 0x0006"
abbreviation (input) eo_UNSIGNED_GE :: u16 where "eo_UNSIGNED_GE \<equiv> 0x0007"
abbreviation (input) eo_SIGNED_LE :: u16 where "eo_SIGNED_LE \<equiv> 0x0008"
abbreviation (input) eo_UNSIGNED_LE :: u16 where "eo_UNSIGNED_LE \<equiv> 0x0009"
abbreviation (input) eo_BITSET :: u16 where "eo_BITSET \<equiv> 0x000A"
abbreviation (input) eo_BITCLEAR :: u16 where "eo_BITCLEAR \<equiv> 0x000B"

text \<open>The ordering of slices: octet by octet.\<close>

datatype ordering = Less | Equal | Greater

fun bytes_cmp :: "bytes \<Rightarrow> bytes \<Rightarrow> ordering" where
  "bytes_cmp (x # xs) (y # ys) = (if x < y then Less else if y < x then Greater else bytes_cmp xs ys)"
| "bytes_cmp [] [] = Equal"
| "bytes_cmp [] _ = Less"
| "bytes_cmp _ [] = Greater"

definition signed_cmp :: "bytes \<Rightarrow> bytes \<Rightarrow> ordering" where
  "signed_cmp a b =
     (case a of
        [] \<Rightarrow> Equal
      | _ \<Rightarrow> (case (a ! 0 AND 0x80 \<noteq> 0, b ! 0 AND 0x80 \<noteq> 0) of
            (True, False) \<Rightarrow> Less
          | (False, True) \<Rightarrow> Greater
          | _ \<Rightarrow> bytes_cmp a b))"

definition compare :: "bytes \<Rightarrow> bytes \<Rightarrow> u16 \<Rightarrow> bool option" where
  "compare a b operation =
     (if length a \<noteq> length b then None
      else let u = bytes_cmp a b; s = signed_cmp a b in
        if operation = eo_EQ then Some (u = Equal)
        else if operation = eo_NEQ then Some (u \<noteq> Equal)
        else if operation = eo_SIGNED_GT then Some (s = Greater)
        else if operation = eo_UNSIGNED_GT then Some (u = Greater)
        else if operation = eo_SIGNED_LT then Some (s = Less)
        else if operation = eo_UNSIGNED_LT then Some (u = Less)
        else if operation = eo_SIGNED_GE then Some (s \<noteq> Less)
        else if operation = eo_UNSIGNED_GE then Some (u \<noteq> Less)
        else if operation = eo_SIGNED_LE then Some (s \<noteq> Greater)
        else if operation = eo_UNSIGNED_LE then Some (u \<noteq> Greater)
        else if operation = eo_BITSET then Some (list_all (\<lambda>(x, y). x AND y = y) (zip a b))
        else if operation = eo_BITCLEAR then Some (list_all (\<lambda>(x, y). x AND y = 0) (zip a b))
        else None)"

definition is_operation :: "u16 \<Rightarrow> bool" where
  "is_operation operation = (compare [] [] operation \<noteq> None)"

definition time_info_put :: "u64 \<times> clock_info \<Rightarrow> writer \<Rightarrow> writer" where
  "time_info_put = (\<lambda>(t, c) w. clock_info_put c (w_u64 t w))"

definition check_satisfied :: "bytes \<Rightarrow> bytes \<Rightarrow> u16 \<Rightarrow> unit tpm_result" where
  "check_satisfied a b operation =
     (case compare a b operation of
        None \<Rightarrow> Inl (with_parameter 3 rc_VALUE)
      | Some ok \<Rightarrow> if ok then Inr () else Inl rc_POLICY)"

definition check_time_info :: "tpm_state \<Rightarrow> bytes \<Rightarrow> u16 \<Rightarrow> u16 \<Rightarrow> unit tpm_result" where
  "check_time_info s operand offset operation =
     (let b = to_bytes time_info_put (time (clock_of s), clock_info s);
          from = unat offset; upto = from + length operand
      in if length b < from then Inl (with_parameter 2 rc_VALUE)
         else if length b < upto then Inl (with_parameter 2 rc_RANGE)
         else check_satisfied (take (length operand) (drop from b)) operand operation)"

definition operands_get :: "reader \<Rightarrow> ((bytes \<times> u16 \<times> u16) \<times> reader) tpm_result" where
  "operands_get = both (param 1 (tpm2b_get MAX_DIGEST_SIZE)) (both (param 2 r_u16) (param 3 r_u16))"

definition extend_with_operands :: "env \<Rightarrow> u32 \<Rightarrow> bytes list \<Rightarrow> bytes \<Rightarrow> (session, unit) st_op" where
  "extend_with_operands E cc operands name =
     st_bind (st_view (\<lambda>x. digest_parts E (auth_hash x) operands)) (\<lambda>args. extend_policy E cc (args @ name))"

definition policy_counter_timer :: "env \<Rightarrow> command" where
  "policy_counter_timer E = with_handle_area 0 (\<lambda>h. reading operands_get (\<lambda>(operand, offset, operation) q.
     st_bind (st_check (\<not> is_operation operation) (with_parameter 3 rc_VALUE)) (\<lambda>_.
     st_bind (st_view (policy_session h)) (\<lambda>x.
     st_bind (st_view (\<lambda>s. if is_trial x then Inr () else check_time_info s operand offset operation)) (\<lambda>_.
       assertion (extend_with_operands E cc_PolicyCounterTimer [operand, to_be 2 offset, to_be 2 operation] []) h q)))))"

section \<open>Assertions on an index\<close>

text \<open>The index, its name, and the authority to read it, which a trial session needs too.\<close>

definition index_for_policy :: "env \<Rightarrow> tpm_state \<Rightarrow> request \<Rightarrow> u32 \<Rightarrow> u32 \<Rightarrow> (nv_index \<times> bytes) tpm_result" where
  "index_for_policy E s q auth index =
     res_bind (index_at 2 index s) (\<lambda>i.
     res_bind (check_read_authority i auth (auth_is_policy s q 0)) (\<lambda>_.
     res_bind (index_name E i) (\<lambda>n. Inr (i, n))))"

definition policy_nv :: "env \<Rightarrow> command" where
  "policy_nv E = with_handle_area 1 (\<lambda>index. with_handle_area 2 (\<lambda>h. reading operands_get (\<lambda>(operand, offset, operation) q.
     st_bind (st_check (\<not> is_operation operation) (with_parameter 3 rc_VALUE)) (\<lambda>_.
     st_bind (st_lift (rq_handle q 0)) (\<lambda>auth.
     st_bind (st_view (\<lambda>s. index_for_policy E s q auth index)) (\<lambda>(i, name).
     st_bind (st_view (policy_session h)) (\<lambda>x.
     st_bind (st_lift (if is_trial x then Inr ()
         else if read_locked i then Inl rc_NV_LOCKED
         else res_bind (nv_read offset (of_nat (length operand)) i) (\<lambda>data. check_satisfied data operand operation))) (\<lambda>_.
       assertion (extend_with_operands E cc_PolicyNV [operand, to_be 2 offset, to_be 2 operation] name) h q))))))))"

text \<open>The policy an index holds must be the one the session has reached.\<close>

definition check_stored_policy :: "env \<Rightarrow> nv_index \<Rightarrow> session \<Rightarrow> unit tpm_result" where
  "check_stored_policy E i x =
     (if read_locked i then Inl rc_NV_LOCKED
      else res_bind (nv_read 0 (np_size (nv_public i)) i) (\<lambda>stored.
           res_bind (tpmt_ha_get E (reader_new stored)) (\<lambda>(ha, _).
             if ha_alg ha \<noteq> auth_hash x \<or> ha_digest ha \<noteq> pol_digest (policy x) then Inl (with_handle 2 rc_VALUE) else Inr ())))"

definition restart_digest :: "env \<Rightarrow> (session, unit) st_op" where
  "restart_digest E x =
     (case hash_size E (auth_hash x) of Inl e \<Rightarrow> (Inl e, x) | Inr n \<Rightarrow> (Inr (), set_policy_digest (replicate n 0) x))"

definition policy_authorize_nv :: "env \<Rightarrow> command" where
  "policy_authorize_nv E = with_handle_area 1 (\<lambda>index. with_handle_area 2 (\<lambda>h. with_handle_area 0 (\<lambda>auth q.
     st_bind (st_view (\<lambda>s. index_for_policy E s q auth index)) (\<lambda>(i, name).
     st_bind (st_view (policy_session h)) (\<lambda>x.
     st_bind (st_lift (if is_trial x then Inr () else check_stored_policy E i x)) (\<lambda>_.
     st_bind (on_policy h (st_bind (restart_digest E) (\<lambda>_. extend_policy E cc_PolicyAuthorizeNV name))) (\<lambda>_.
       st_lift (unread (respond_empty q)))))))))"

section \<open>Approved policies\<close>

definition check_key_sign :: "env \<Rightarrow> bytes \<Rightarrow> u16 tpm_result" where
  "check_key_sign E name =
     (if length name < 2 then Inl (with_parameter 3 rc_SIZE)
      else let a = from_be (take 2 name) in
        res_bind (map_err (\<lambda>_. with_parameter 3 rc_HASH) (hash_size E a)) (\<lambda>n.
          if length name \<noteq> 2 + n then Inl (with_parameter 3 rc_SIZE) else Inr a))"

definition approved_content :: "env \<Rightarrow> verified_ticket \<Rightarrow> u16 \<Rightarrow> bytes \<Rightarrow> bytes tpm_result" where
  "approved_content E t name_hash_alg to_be_signed =
     (if vt_tag t = st_MESSAGE_VERIFIED then Inr to_be_signed
      else if vt_tag t = st_DIGEST_VERIFIED then res_bind (ok_or (vt_digest_alg t) rc_POLICY) (\<lambda>a. digest E a to_be_signed)
      else digest E name_hash_alg to_be_signed)"

definition check_approval :: "env \<Rightarrow> tpm_state \<Rightarrow> session \<Rightarrow> bytes \<Rightarrow> bytes \<Rightarrow> bytes \<Rightarrow> u16 \<Rightarrow> verified_ticket \<Rightarrow> unit tpm_result" where
  "check_approval E s x approved ref key_sign a t =
     (if pol_digest (policy x) \<noteq> approved then Inl (with_parameter 1 rc_VALUE)
      else if vt_hmac t = [] then Inl rc_POLICY
      else res_bind (approved_content E t a (approved @ ref)) (\<lambda>content.
           res_bind (map_err (\<lambda>_. rc_POLICY) (hierarchy_proof E (vt_hierarchy t) s)) (\<lambda>p.
           res_bind (verified_ticket_hmac E p (vt_tag t) content key_sign (vt_digest_alg t)) (\<lambda>expected.
             if \<not> constant_time_eq expected (vt_hmac t) then Inl rc_POLICY else Inr ()))))"

definition policy_authorize :: "env \<Rightarrow> command" where
  "policy_authorize E = with_handle_area 0 (\<lambda>h.
     reading (both (param 1 (tpm2b_get MAX_DIGEST_SIZE)) (both (param 2 (tpm2b_get MAX_DIGEST_SIZE))
         (both (param 3 (tpm2b_get SIZEOF_TPMT_HA)) (param 4 (verified_ticket_get E)))))
     (\<lambda>(approved, ref, key_sign, t) q.
       st_bind (st_lift (check_key_sign E key_sign)) (\<lambda>a.
       st_bind (st_view (policy_session h)) (\<lambda>x.
       st_bind (st_view (\<lambda>s. if is_trial x then Inr () else check_approval E s x approved ref key_sign a t)) (\<lambda>_.
         assertion (st_bind (restart_digest E) (\<lambda>_. policy_authorization_update E cc_PolicyAuthorize key_sign ref)) h q)))))"

section \<open>The secure channel\<close>

definition channel_hash :: "env \<Rightarrow> bytes \<Rightarrow> bytes \<Rightarrow> session \<Rightarrow> bytes option tpm_result" where
  "channel_hash E req_key tpm_key x =
     (if req_key = [] \<and> tpm_key = [] then Inr None
      else res_bind (w_finish (tpm2b_put tpm_key (tpm2b_put req_key writer_new))) (\<lambda>b.
           res_bind (digest E (auth_hash x) b) (\<lambda>d. Inr (Some d))))"

definition policy_transport_spdm :: "env \<Rightarrow> command" where
  "policy_transport_spdm E = with_handle_area 0 (\<lambda>h.
     reading (both (param 1 (tpm2b_get SIZEOF_TPMT_HA)) (param 2 (tpm2b_get SIZEOF_TPMT_HA))) (\<lambda>(req_key, tpm_key) q.
       st_bind (st_lift (map_err (with_parameter 1) (check_key_name E req_key))) (\<lambda>_.
       st_bind (st_lift (map_err (with_parameter 2) (check_key_name E tpm_key))) (\<lambda>_.
         assertion (st_bind (st_view (\<lambda>x. if channel_required (policy x) \<and> \<not> is_trial x then Inl rc_VALUE else Inr ())) (\<lambda>_.
           st_bind (st_view (channel_hash E req_key tpm_key)) (\<lambda>kh.
           st_bind (extend_policy E cc_PolicyTransportSPDM (case kh of Some d \<Rightarrow> d | None \<Rightarrow> [])) (\<lambda>_.
             note_policy (\<lambda>p. p\<lparr>channel_required := True, channel_key_hash := kh\<rparr>))))) h q))))"

section \<open>TPM2_FlushContext\<close>

definition flush_session :: "u32 \<Rightarrow> (tpm_state, unit) st_op" where
  "flush_session h s =
     (case slots_flush h (session_slots s) of
        (Inl e, z) \<Rightarrow> (Inl (with_parameter 1 e), s\<lparr>session_slots := z\<rparr>)
      | (Inr flushed, z) \<Rightarrow>
          (Inr (), s\<lparr>session_slots := z, cmd_audit :=
             (if exclusive_session (cmd_audit s) = flushed then (cmd_audit s)\<lparr>exclusive_session := rh_UNASSIGNED\<rparr> else cmd_audit s)\<rparr>))"

definition flush_context :: command where
  "flush_context = reading (param 1 r_u32) (\<lambda>h q.
     st_bind (if is_flushable_session h then flush_session h
       else if is_transient h then
         (\<lambda>s. case objects_remove h (objects s) of (r, z) \<Rightarrow> (map_sum (with_parameter 1) (\<lambda>_. ()) r, s\<lparr>objects := z\<rparr>))
       else st_fail (with_parameter 1 rc_VALUE)) (\<lambda>_.
       st_lift (respond_empty q)))"

definition is_session_hash :: "env \<Rightarrow> u16 \<Rightarrow> bool" where
  "is_session_hash E a = (a \<noteq> alg_NULL \<and> is_supported E a)"

end
