(* ===== verification/PolicyLaws.thy ===== *)
theory PolicyLaws
  imports Assertions Sequences
begin

text \<open>
  What the policy commands promise: the comparisons are those of numbers, a ticket is accepted for just as long as it
  says; and a way the code lets an approval through that it means to refuse.
\<close>

section \<open>Tickets\<close>

lemma context_hash [simp]: "is_supported E CONTEXT_INTEGRITY_HASH_ALG"
  by (simp add: CONTEXT_INTEGRITY_HASH_ALG_def is_supported_def hash_algorithm_def)

lemma ticket_hmac: "env_ok E \<Longrightarrow> \<exists>m. hmac_parts E CONTEXT_INTEGRITY_HASH_ALG k parts = Inr m \<and> length m = 64"
  and ticket_hmac_concat: "concat parts = concat parts' \<Longrightarrow>
    hmac_parts E CONTEXT_INTEGRITY_HASH_ALG k parts = hmac_parts E CONTEXT_INTEGRITY_HASH_ALG k parts'"
proof -
  obtain block where b: "hash_block_size E CONTEXT_INTEGRITY_HASH_ALG = Inr block"
    using supported_block_size [OF context_hash] by blast
  show "env_ok E \<Longrightarrow> \<exists>m. hmac_parts E CONTEXT_INTEGRITY_HASH_ALG k parts = Inr m \<and> length m = 64"
    by (simp add: hmac_parts_spec [OF context_hash b] hmac_spec_def Let_def env_ok_length)
       (simp add: CONTEXT_INTEGRITY_HASH_ALG_def env_ok_def)
  show "concat parts = concat parts' \<Longrightarrow>
      hmac_parts E CONTEXT_INTEGRITY_HASH_ALG k parts = hmac_parts E CONTEXT_INTEGRITY_HASH_ALG k parts'"
    by (simp add: hmac_parts_spec [OF context_hash b])
qed

text \<open>What a key without a name commits to is whatever follows the content of the approval.\<close>

lemma nameless_ticket_approves:
  assumes b: "env_ok E" and "obj_name y = []" and "obj_hierarchy y \<noteq> rh_NULL"
    and p: "verified_ticket_for E s y tag (content @ key_sign) None = Inr t" and "pol_digest (policy x) = approved"
    and "\<And>m. approved_content E \<lparr>vt_tag = tag, vt_hierarchy = obj_hierarchy y, vt_digest_alg = None, vt_hmac = m\<rparr> a (approved @ ref) = Inr content"
  shows "check_approval E s x approved ref key_sign a t = Inr ()"
proof -
  obtain p m where p: "hierarchy_proof E (obj_hierarchy y) s = Inr p"
      and m: "hmac_parts E CONTEXT_INTEGRITY_HASH_ALG p [to_be 2 tag, content @ key_sign, []] = Inr m"
      and t: "t = \<lparr>vt_tag = tag, vt_hierarchy = obj_hierarchy y, vt_digest_alg = None, vt_hmac = m\<rparr>"
    using p assms(2,3) by (auto simp: verified_ticket_for_def verified_ticket_hmac_def res_bind_eq_Inr tpm2b_new_def split: if_splits)
  have "hmac_parts E CONTEXT_INTEGRITY_HASH_ALG p [to_be 2 tag, content, key_sign] = Inr m"
    using m by (subst ticket_hmac_concat [where parts' = "[to_be 2 tag, content @ key_sign, []]"]) simp_all
  moreover have "m \<noteq> []" using m ticket_hmac [OF b, of p "[to_be 2 tag, content @ key_sign, []]"] by auto
  ultimately show ?thesis
    using assms(5,6) p unfolding t by (simp add: check_approval_def verified_ticket_hmac_def constant_time_eq_iff)
qed

text \<open>C5: a key without a name approves every policy. A key whose name algorithm is TPM_ALG_NULL has the empty name, and the
  ticket for what a key verified is an HMAC over the content and then the name. So whenever TPM2_VerifySequenceComplete
  succeeds with such a key of the caller's over approvedPolicy, policyRef and the name of any other key, the ticket it
  answers is one TPM2_PolicyAuthorize accepts as the approval of that other key, whose signature is not needed.
  So is the ticket of TPM2_VerifySignature over the digest of approvedPolicy and policyRef followed by that name,
  where the two fit in the digest it takes.\<close>

theorem nameless_key_approves_policies:
  assumes "env_ok E" and "name_alg (obj_public y) = alg_NULL" and "object_name E (obj_public y) = Inr (obj_name y)"
    and "obj_hierarchy y \<noteq> rh_NULL" and "is_transient k" and "objects_object k (objects s) = Inr y"
    and "check_key_sign E key_sign = Inr a" and "pol_digest (policy x) = approved"
  shows "(\<forall>q h sq b n r s'. rq_handle q 0 = Inr h \<and> rq_handle q 1 = Inr k \<and> sequence_at 1 h s = Inr sq
        \<and> sequence_binding sq = Inr (k, b, n, approved @ ref @ key_sign) \<and> verify_sequence_complete E B L q s = (Inr r, s') \<longrightarrow>
          (\<exists>t. respond q (verified_ticket_put t) = Inr r \<and> check_approval E s x approved ref key_sign a t = Inr ()))
    \<and> (\<forall>q d sig r s'. rq_handle q 0 = Inr k \<and> digest E a (approved @ ref) = Inr d
        \<and> all_parameters (both (param 1 (tpm2b_get MAX_DIGEST_SIZE)) (param 2 (signature_get E))) q = Inr (d @ key_sign, sig)
        \<and> verify_signature E B L q s = (Inr r, s') \<longrightarrow>
          (\<exists>t. respond q (verified_ticket_put t) = Inr r \<and> check_approval E s x approved ref key_sign a t = Inr ()))"
proof (intro conjI allI impI; elim conjE)
  have name: "obj_name y = []" using assms(2,3) by (simp add: object_name_def)
  have key: "object_of s k = Inr y" "signing_object_of s k = Inr y" using assms(5,6) by (simp_all add: object_of_def signing_object_of_def)
  note approves = nameless_ticket_approves [OF assms(1) name assms(4) _ assms(8), where key_sign = key_sign and ref = ref and a = a]
  show "\<exists>t. respond q (verified_ticket_put t) = Inr r \<and> check_approval E s x approved ref key_sign a t = Inr ()"
    if "rq_handle q 0 = Inr h" "rq_handle q 1 = Inr k" "sequence_at 1 h s = Inr sq"
      "sequence_binding sq = Inr (k, b, n, approved @ ref @ key_sign)" "verify_sequence_complete E B L q s = (Inr r, s')"
    for q h sq b n r s'
    using that approves [where content = "approved @ ref" and tag = st_MESSAGE_VERIFIED] key
    by (auto simp: verify_sequence_complete_def with_handle_area_apply reading_def st_view_def st_lift_def approved_content_def st_bind_def
        split: sum.splits if_splits)
  show "\<exists>t. respond q (verified_ticket_put t) = Inr r \<and> check_approval E s x approved ref key_sign a t = Inr ()"
    if "rq_handle q 0 = Inr k" "digest E a (approved @ ref) = Inr d"
      "all_parameters (both (param 1 (tpm2b_get MAX_DIGEST_SIZE)) (param 2 (signature_get E))) q = Inr (d @ key_sign, sig)"
      "verify_signature E B L q s = (Inr r, s')"
    for q d sig r s'
    using that approves [where content = d and tag = st_VERIFIED] key
    by (auto simp: verify_signature_def with_handle_area_apply reading_def st_view_def st_lift_def approved_content_def st_bind_def
        split: sum.splits if_splits)
qed

lemma ticket_answered:
  assumes "env_ok E" and "obj_hierarchy y \<noteq> rh_NULL" and "hierarchy_proof E (obj_hierarchy y) s = Inr p" and "tag \<noteq> st_DIGEST_VERIFIED"
  shows "\<exists>t r. verified_ticket_for E s y tag content None = Inr t \<and> respond q (verified_ticket_put t) = Inr r"
proof -
  obtain m where "hmac_parts E CONTEXT_INTEGRITY_HASH_ALG p [to_be 2 tag, content, obj_name y] = Inr m" and "length m = 64"
    using ticket_hmac [OF assms(1)] by blast
  with assms(2,3) show ?thesis
    by (simp add: verified_ticket_for_def verified_ticket_hmac_def tpm2b_new_def MAX_DIGEST_SIZE_def respond_def respond_try_def
        verified_ticket_put_def Let_def tpm2b_put_enc writes_emit emit_def w_finish_def writer_new_def)
qed

text \<open>An elliptic curve key without a name, loaded under the owner, and a sequence that verifies with it. The key it approves
  for has a SHA-1 name, so that the forged content fits in a digest too.\<close>

definition nameless_key :: object where
  "nameless_key = \<lparr>obj_public = demo_rsa\<lparr>object_type := alg_ECC, name_alg := alg_NULL,
     parameters := Ecc_parms \<lparr>ecc_symmetric = sym_null, ecc_scheme = scheme_of_hash alg_ECDSA alg_SHA256, ecc_curve = 3,
       ecc_kdf = scheme_null\<rparr>,
     unique := Ecc_id \<lparr>pt_x = [5], pt_y = [0]\<rparr>\<rparr>, obj_sensitive = None, obj_name = [], obj_qualified = [],
     obj_hierarchy = rh_OWNER, tpm_generated = False, state_clear = False\<rparr>"

definition legacy_key :: bytes where "legacy_key = to_be 2 alg_SHA1 @ replicate 20 9"

definition forged_sequence :: sequence where
  "forged_sequence = \<lparr>seq_kind = Hash_sequence alg_SHA256, seq_auth = [],
     seq_buffer = to_be 4 (0x80000000 :: u32) @ to_be 2 alg_SHA256 @ counter_bytes None @ replicate 32 5 @ [1] @ legacy_key,
     short_first_buffer = False\<rparr>"

definition approval_tpm :: tpm_state where
  "approval_tpm = demo_tpm\<lparr>objects := [(0x80000000, Object_slot nameless_key), (0x80000001, Sequence_slot forged_sequence)]\<rparr>"

text \<open>The signature by the private key 5 has the scalars 3 and n.\<close>

definition approval_signature :: "u8 \<Rightarrow> tpmt_signature" where
  "approval_signature n = \<lparr>sig_alg = alg_ECDSA, sig_value = Ecc_signature \<lparr>se_hash = alg_SHA256, signature_r = [3], signature_s = [n]\<rparr>\<rparr>"

definition signature_octets :: "u8 \<Rightarrow> bytes" where
  "signature_octets n = to_be 2 alg_ECDSA @ to_be 2 alg_SHA256 @ [0, 1, 3, 0, 1, n]"

definition approval_request :: "u32 list \<Rightarrow> bytes \<Rightarrow> request" where
  "approval_request hs ps = (session_request 0x03000000 0)\<lparr>rq_handles := hs, rq_parameters := ps\<rparr>"

definition legacy_digest :: bytes where "legacy_digest = raw_digest (demo_env False) alg_SHA1 (replicate 32 5 @ [1])"

definition message_request :: request where "message_request = approval_request [0x80000001, 0x80000000] (signature_octets 8)"
definition digest_request :: request where
  "digest_request = approval_request [0x80000000] ([0, 42] @ legacy_digest @ legacy_key @ signature_octets 5)"

lemma nameless_key_loads:
  "validate_public (demo_env False) (obj_public nameless_key) = Inr ()"
  "object_new (demo_env False) (obj_public nameless_key) None rh_OWNER [] False = Inr nameless_key"
  by (simp_all add: nameless_key_def validate_public_iff public_rules_def demo_rsa_def attr_def needs_scheme_def check_kdf_def
      object_new_def object_name_def qualified_name_def bit_numeral_rec scheme_of_hash_def scheme_is_null_def scheme_null_def)

lemma requests_read:
  "all_parameters (param 1 (signature_get (demo_env False))) message_request = Inr (approval_signature 8)"
  "all_parameters (both (param 1 (tpm2b_get MAX_DIGEST_SIZE)) (param 2 (signature_get (demo_env False)))) digest_request
     = Inr (legacy_digest @ legacy_key, approval_signature 5)"
  by code_simp+

lemma signatures_verify:
  "verify_message (demo_env False) demo_bn demo_ec nameless_key (replicate 32 5 @ [1] @ legacy_key) (approval_signature 8) = Inr ()"
  "verify_digest (demo_env False) demo_bn demo_ec nameless_key (legacy_digest @ legacy_key) (approval_signature 5) = Inr ()"
  by code_simp+

lemma forged_binding: "sequence_binding forged_sequence = Inr (0x80000000, alg_SHA256, None, replicate 32 5 @ [1] @ legacy_key)"
  by code_simp

lemma legacy_key_facts: "check_key_sign (demo_env False) legacy_key = Inr alg_SHA1"
  by code_simp

lemma demo_owner_proof: "hierarchy_proof (demo_env b) rh_OWNER demo_tpm = Inr (replicate 32 2)"
  by (simp add: hierarchy_proof_def demo_tpm_def proof_of_def derive_def demo_hierarchies_def hierarchy_get_def
      Let_def is_limited_def base_of_def svn_of_def is_hierarchy_selector_def)

abbreviation (input) approved_session :: session where
  "approved_session \<equiv> demo_session\<lparr>policy := policy_default\<lparr>pol_digest := replicate 32 5\<rparr>\<rparr>"

abbreviation (input) approves :: "request \<Rightarrow> response \<Rightarrow> bool" where
  "approves q r \<equiv> \<exists>t. respond q (verified_ticket_put t) = Inr r
     \<and> check_approval (demo_env False) approval_tpm approved_session (replicate 32 5) [1] legacy_key alg_SHA1 t = Inr ()"

theorem nameless_key_approves_policies_witness:
  "(\<exists>r. verify_sequence_complete (demo_env False) demo_bn demo_ec message_request approval_tpm = (Inr r, approval_tpm) \<and> approves message_request r)
   \<and> (\<exists>r. verify_signature (demo_env False) demo_bn demo_ec digest_request approval_tpm = (Inr r, approval_tpm) \<and> approves digest_request r)"
proof -
  let ?E = "demo_env False" and ?m = "replicate 32 5 @ [1] @ legacy_key"
  have key: "objects_object 0x80000000 (objects approval_tpm) = Inr nameless_key" "is_transient 0x80000000"
    by (simp_all add: approval_tpm_def objects_object_def objects_get_def is_transient_def)
  then have at: "object_of approval_tpm 0x80000000 = Inr nameless_key" "signing_object_of approval_tpm 0x80000000 = Inr nameless_key"
    by (simp_all add: object_of_def signing_object_of_def)
  have h: "rq_handle message_request 0 = Inr 0x80000001" "rq_handle message_request 1 = Inr 0x80000000"
    "rq_handle digest_request 0 = Inr 0x80000000"
    by (simp_all add: message_request_def digest_request_def approval_request_def session_request_def rq_handle_def get_at_def)
  have proof_at: "hierarchy_proof ?E (obj_hierarchy nameless_key) approval_tpm = Inr (replicate 32 2)"
    using demo_owner_proof [of False] by (simp add: hierarchy_proof_def approval_tpm_def nameless_key_def)
  have y: "name_alg (obj_public nameless_key) = alg_NULL" "obj_name nameless_key = []" "obj_hierarchy nameless_key \<noteq> rh_NULL"
    by (simp_all add: nameless_key_def)
  have sq: "sequence_at 1 0x80000001 approval_tpm = Inr forged_sequence"
    by (simp add: sequence_at_def approval_tpm_def objects_get_def)
  note answered = ticket_answered [OF env_ok_demo y(3) proof_at]
  have "check_signature_scheme nameless_key (approval_signature 8) = Inr ()" by code_simp
  then obtain r where r: "verify_sequence_complete ?E demo_bn demo_ec message_request approval_tpm = (Inr r, approval_tpm)"
    using answered [of st_MESSAGE_VERIFIED ?m message_request] at h sq forged_binding requests_read(1) signatures_verify(1)
    by (auto simp: verify_sequence_complete_def with_handle_area_apply reading_def st_view_def st_lift_def st_bind_def simp del: One_nat_def)
  obtain r' where r': "verify_signature ?E demo_bn demo_ec digest_request approval_tpm = (Inr r', approval_tpm)"
    using answered [of st_VERIFIED "legacy_digest @ legacy_key" digest_request] at h requests_read(2) signatures_verify(2)
    by (auto simp: verify_signature_def with_handle_area_apply reading_def st_view_def st_lift_def st_bind_def simp del: One_nat_def)
  have dg: "digest ?E alg_SHA1 (replicate 32 5 @ [1]) = Inr legacy_digest"
    by (simp add: digest_supported legacy_digest_def is_supported_def hash_algorithm_def demo_env_def)
  have n: "object_name ?E (obj_public nameless_key) = Inr (obj_name nameless_key)" using y by (simp add: object_name_def)
  note both_ways = nameless_key_approves_policies [OF env_ok_demo y(1) n y(3) key(2,1) legacy_key_facts,
      where x = approved_session and approved = "replicate 32 5" and ref = "[1]" and B = demo_bn and L = demo_ec]
  show ?thesis
    using both_ways h sq forged_binding r r' dg requests_read(2) by fastforce
qed

section \<open>Comparisons\<close>

text \<open>The number a big endian two's complement operand stands for.\<close>

definition signed_value :: "bytes \<Rightarrow> int" where
  "signed_value b = (if 2 * octets_value b < 256 ^ length b then int (octets_value b) else int (octets_value b) - 256 ^ length b)"

definition order_of :: "'a::linorder \<Rightarrow> 'a \<Rightarrow> ordering" where
  "order_of x y = (if x < y then Less else if x = y then Equal else Greater)"

lemma order_of_simps [simp]:
  "order_of x y = Less \<longleftrightarrow> x < y" "order_of x y = Equal \<longleftrightarrow> x = y" "order_of x y = Greater \<longleftrightarrow> y < x"
  by (auto simp: order_of_def)

lemma octets_value_Cons: "octets_value (x # xs) = unat x * 256 ^ length xs + octets_value xs"
  using octets_value_append [of "[x]" xs] by (simp add: octets_value_def)

lemma octets_value_less_first:
  assumes "length xs = length ys" and "x < y" shows "octets_value (x # xs) < octets_value (y # ys)"
proof -
  have "octets_value (x # xs) < (unat x + 1) * 256 ^ length xs"
    using octets_value_bound [of xs] by (simp add: octets_value_Cons)
  also have "\<dots> \<le> unat y * 256 ^ length ys"
    using assms by (intro mult_mono) (simp_all add: word_less_nat_alt Suc_le_eq)
  finally show ?thesis by (simp add: octets_value_Cons)
qed

lemma bytes_cmp_value: "length a = length b \<Longrightarrow> bytes_cmp a b = order_of (octets_value a) (octets_value b)"
proof (induction a b rule: list_induct2)
  case (Cons x xs y ys)
  consider "x < y" | "y < x" | "x = y" by fastforce
  then show ?case
  proof cases
    case 1
    then show ?thesis using octets_value_less_first [OF Cons.hyps 1] by (simp add: order_of_def)
  next
    case 2
    then show ?thesis using octets_value_less_first [OF Cons.hyps [symmetric] 2] by (simp add: order_of_def)
  next
    case 3
    then show ?thesis using Cons by (simp add: octets_value_Cons order_of_def)
  qed
qed (simp add: order_of_def)

lemma sign_bit: "(x :: u8) AND 0x80 \<noteq> 0 \<longleftrightarrow> 128 \<le> unat x"
proof -
  have "unat x < 256" using unsigned_less [of x] by simp
  then have "odd (unat x div 128) \<longleftrightarrow> 128 \<le> unat x" by (auto simp: odd_iff_mod_2_eq_one)
  moreover have "bit (unat x) 7 \<longleftrightarrow> bit x 7" by (simp add: bit_unsigned_iff)
  ultimately show ?thesis
    using bit_iff_and_push_bit_not_eq_0 [of x 7] by (simp add: bit_iff_odd)
qed

lemma twice_top: "v < N \<Longrightarrow> 256 * N \<le> 2 * (u * N + v) \<longleftrightarrow> 128 \<le> (u :: nat)"
proof
  assume v: "v < N" and "256 * N \<le> 2 * (u * N + v)"
  show "128 \<le> u"
  proof (rule ccontr)
    assume "\<not> 128 \<le> u"
    then have "u * N \<le> 127 * N" by (intro mult_right_mono) simp_all
    then have "2 * M < 256 * N - 2 * v" if "M = u * N" for M using v that [symmetric] by linarith
    then have "2 * (u * N + v) < 256 * N" by fastforce
    then show False using \<open>256 * N \<le> 2 * (u * N + v)\<close> by simp
  qed
next
  assume "128 \<le> u"
  then have "128 * N \<le> u * N" by (rule mult_right_mono) simp
  then show "256 * N \<le> 2 * (u * N + v)" by (simp add: add_increasing2)
qed

lemma sign_value: "a \<noteq> [] \<Longrightarrow> a ! 0 AND 0x80 \<noteq> 0 \<longleftrightarrow> 256 ^ length a \<le> 2 * octets_value a"
proof (cases a)
  case (Cons x xs)
  show ?thesis
    using twice_top [OF octets_value_bound [of xs], of "unat x"] by (simp add: Cons octets_value_Cons sign_bit)
qed simp

lemma signed_cmp_value: "length a = length b \<Longrightarrow> signed_cmp a b = order_of (signed_value a) (signed_value b)"
proof (cases a)
  case (Cons x xs)
  assume len: "length a = length b"
  define N where "N = (256 :: nat) ^ length b"
  have b: "b \<noteq> []" and a: "a \<noteq> []" using Cons len by auto
  have bound: "octets_value a < N" "octets_value b < N"
    using octets_value_bound [of a] octets_value_bound [of b] by (simp_all add: N_def len)
  have signs: "a ! 0 AND 0x80 \<noteq> 0 \<longleftrightarrow> N \<le> 2 * octets_value a" "b ! 0 AND 0x80 \<noteq> 0 \<longleftrightarrow> N \<le> 2 * octets_value b"
    using sign_value [OF a] sign_value [OF b] by (simp_all add: N_def len)
  have sv: "signed_value a = (if 2 * octets_value a < N then int (octets_value a) else int (octets_value a) - int N)"
    "signed_value b = (if 2 * octets_value b < N then int (octets_value b) else int (octets_value b) - int N)"
    by (simp_all add: signed_value_def N_def len)
  have "signed_cmp a b = (case (a ! 0 AND 0x80 \<noteq> 0, b ! 0 AND 0x80 \<noteq> 0) of
      (True, False) \<Rightarrow> Less | (False, True) \<Rightarrow> Greater | _ \<Rightarrow> bytes_cmp a b)"
    unfolding signed_cmp_def by (simp add: Cons)
  then show ?thesis
    unfolding signs bytes_cmp_value [OF len] sv
    using bound by (auto simp: order_of_def split: bool.splits)
qed (simp add: signed_cmp_def signed_value_def order_of_def octets_value_def)

text \<open>C40: the comparisons of \<open>TPM2_PolicyNV\<close>, \<open>TPM2_PolicyCounterTimer\<close> and \<open>TPM2_PolicyCapability\<close> are those of
  numbers. On operands of one length the octet-wise ordering of the code is the ordering of the big endian numbers, and
  its rule for the sign octet is the ordering of the two's complement numbers; operands of different lengths and codes
  that are no operation have no answer.\<close>

theorem comparisons_are_numeric:
  "compare a b operation =
     (if length a \<noteq> length b then None
      else let u = octets_value a; v = octets_value b; s = signed_value a; t = signed_value b in
        map_option snd (find (\<lambda>(c, _). c = operation)
          [(eo_EQ, a = b), (eo_NEQ, a \<noteq> b), (eo_SIGNED_GT, t < s), (eo_UNSIGNED_GT, v < u), (eo_SIGNED_LT, s < t),
           (eo_UNSIGNED_LT, u < v), (eo_SIGNED_GE, t \<le> s), (eo_UNSIGNED_GE, v \<le> u), (eo_SIGNED_LE, s \<le> t),
           (eo_UNSIGNED_LE, u \<le> v), (eo_BITSET, list_all2 (\<lambda>x y. x AND y = y) a b),
           (eo_BITCLEAR, list_all2 (\<lambda>x y. x AND y = 0) a b)]))"
proof (cases "length a = length b")
  case True
  have eq: "octets_value a = octets_value b \<longleftrightarrow> a = b"
    using True by (metis octets_of_octets_value)
  have zip: "list_all (\<lambda>(x, y). R x y) (zip a b) \<longleftrightarrow> list_all2 R a b" for R
    using True by (simp add: list_all2_iff list_all_iff)
  have cmp: "bytes_cmp a b = order_of (octets_value a) (octets_value b)" "signed_cmp a b = order_of (signed_value a) (signed_value b)"
    using True by (simp_all add: bytes_cmp_value signed_cmp_value)
  have le: "(order_of x y \<noteq> Less) = (y \<le> x)" "(order_of x y \<noteq> Greater) = (x \<le> y)" for x y :: "'c::linorder"
    by auto
  show ?thesis
    unfolding compare_def cmp le order_of_simps zip eq
    using True by (simp add: Let_def not_less eq)
qed (simp add: compare_def)


section \<open>A ticket stands for the authorization it was issued for\<close>

definition reset_mark :: "bytes \<Rightarrow> bool" where
  "reset_mark t = (case t of b # _ \<Rightarrow> b AND 0x80 \<noteq> 0 | [] \<Rightarrow> False)"

lemma reset_mark_to_be: "reset_mark (to_be 8 (v :: u64)) \<longleftrightarrow> bit v 63"
proof -
  have "(ucast (drop_bit 56 v) :: u8) AND 0x80 \<noteq> 0 \<longleftrightarrow> bit (ucast (drop_bit 56 v) :: u8) 7"
    using bit_iff_and_push_bit_not_eq_0 [of "ucast (drop_bit 56 v) :: u8" 7] by simp
  then show ?thesis by (simp add: reset_mark_def numeral_eq_Suc bit_simps)
qed

lemma timeout_marks_reset:
  assumes "sint (e :: u32) < 0" and "unat start_at < 2 ^ 62"
  shows "reset_mark (authorization_timeout start_at e w) = w" "length (authorization_timeout start_at e w) = 8"
proof -
  show "length (authorization_timeout start_at e w) = 8"
    using assms(1) by (simp add: authorization_timeout_def Let_def)
  have neg: "\<not> 0 \<le> sint e" using assms(1) by simp
  show "reset_mark (authorization_timeout start_at e w) = w"
  proof (cases w)
    case True
    then show ?thesis
      using neg by (simp add: authorization_timeout_def Let_def reset_mark_to_be EXPIRES_ON_RESET_def bit_simps)
  next
    case False
    define limit :: u64 where "limit = of_int (- sint e) * 1000"
    have range: "- sint e \<le> 2 ^ 31" using sint_ge [of e] by simp
    have "unat limit = nat (- sint e * 1000)"
    proof -
      have "uint (of_int (- sint e * 1000) :: u64) = - sint e * 1000"
        using range assms(1) by (subst uint_word_of_int) (simp add: take_bit_int_eq_self)
      then show ?thesis by (simp add: limit_def unat_eq_nat_uint)
    qed
    then have "unat limit < 2 ^ 62" using range by simp
    then have "unat (saturating_add start_at limit) < 2 ^ 63"
      using assms(2) by (simp add: unat_saturating_add)
    then have "\<not> bit (unat (saturating_add start_at limit)) 63"
      by (simp add: bit_iff_odd)
    then have "\<not> bit (saturating_add start_at limit) 63"
      by (simp add: bit_unsigned_iff)
    then show ?thesis using False neg by (simp add: authorization_timeout_def Let_def reset_mark_to_be limit_def)
  qed
qed

text \<open>C39: a ticket carries an authorization over to another session. What \<open>TPM2_PolicySigned\<close> and \<open>TPM2_PolicySecret\<close>
  issue for a limited authorization, \<open>TPM2_PolicyTicket\<close> accepts with the same restriction, reference, name and timeout,
  in any state of the TPM with the same proof of the hierarchy, the same run of Time and the same count of resets, until
  Time has passed the limit the timeout holds; from then on it is refused as expired.\<close>

theorem issued_ticket_is_accepted:
  assumes "env_ok E" and "sint e < 0" and "unat start_at < 2 ^ 62"
    and t: "build_authorization_ticket E s tag h e (authorization_timeout start_at e without_nonce) cp ref name False (\<not> without_nonce) = Inr t"
    and "hierarchy_proof E h s' = hierarchy_proof E h s" and "clk_epoch (clock_of s') = clk_epoch (clock_of s)"
    and "total_reset_count (clock_of s') = total_reset_count (clock_of s)"
  shows "\<exists>limit. timeout_value (authorization_timeout start_at e without_nonce) = Some limit
    \<and> validate_ticket E s' t cp ref name (authorization_timeout start_at e without_nonce)
        = (if limit < time (clock_of s') then Inl (with_parameter 1 rc_EXPIRED) else Inr ())"
proof -
  define timeout where "timeout = authorization_timeout start_at e without_nonce"
  have mark: "reset_mark timeout = without_nonce" "length timeout = 8"
    using timeout_marks_reset [OF assms(2,3)] by (simp_all add: timeout_def)
  obtain m where m: "authorization_ticket_hmac E s h tag cp ref name timeout (\<not> without_nonce) = Inr m"
      and t': "t = \<lparr>tk_tag = tag, tk_hierarchy = h, tk_digest = m\<rparr>"
    using t assms(2) by (auto simp: build_authorization_ticket_def res_bind_eq_Inr tpm2b_new_def timeout_def split: if_splits)
  have same: "authorization_ticket_hmac E s' h tag cp ref name timeout (\<not> without_nonce) = Inr m"
    unfolding m [symmetric] using assms(5-7) by (simp add: authorization_ticket_hmac_def)
  obtain k parts where "hmac_parts E CONTEXT_INTEGRITY_HASH_ALG k parts = Inr m"
    using m unfolding authorization_ticket_hmac_def Let_def res_bind_eq_Inr by blast
  then have "m \<noteq> []" using ticket_hmac [OF assms(1), of k parts] by auto
  then have "validate_ticket E s' t cp ref name timeout = (case timeout_value timeout of
      Some expires \<Rightarrow> if expires < time (clock_of s') then Inl (with_parameter 1 rc_EXPIRED) else Inr () | None \<Rightarrow> Inr ())"
    using same mark(1) by (simp add: validate_ticket_def t' reset_mark_def constant_time_eq_iff Let_def)
  then show ?thesis
    using mark(2) by (simp add: timeout_value_def flip: timeout_def)
qed

theorem issued_ticket_is_accepted_witness:
  "\<exists>t limit. build_authorization_ticket (demo_env True) demo_tpm st_AUTH_SECRET rh_OWNER (- 10) (authorization_timeout 500 (- 10) False)
       [] [1] (handle_name rh_OWNER) False True = Inr t
     \<and> validate_ticket (demo_env True) demo_tpm t [] [1] (handle_name rh_OWNER) (authorization_timeout 500 (- 10) False)
         = (if limit < time (clock_of demo_tpm) then Inl (with_parameter 1 rc_EXPIRED) else Inr ())"
proof -
  have neg: "sint (- 10 :: u32) < 0" by simp
  obtain m where "authorization_ticket_hmac (demo_env True) demo_tpm rh_OWNER st_AUTH_SECRET [] [1] (handle_name rh_OWNER)
      (authorization_timeout 500 (- 10) False) True = Inr m" "length m = 64"
    using ticket_hmac [of "demo_env True" "replicate 32 2"]
    by (fastforce simp: authorization_ticket_hmac_def demo_owner_proof Let_def)
  then obtain t where t: "build_authorization_ticket (demo_env True) demo_tpm st_AUTH_SECRET rh_OWNER (- 10)
      (authorization_timeout 500 (- 10) False) [] [1] (handle_name rh_OWNER) False True = Inr t"
    by (simp add: build_authorization_ticket_def tpm2b_new_def MAX_DIGEST_SIZE_def)
  show ?thesis
    using issued_ticket_is_accepted [of "demo_env True" "- 10" 500 demo_tpm st_AUTH_SECRET rh_OWNER False "[]" "[1]" "handle_name rh_OWNER" t demo_tpm]
      neg t by auto
qed

end
