(* ===== verification/Trial.thy ===== *)
theory Trial
  imports Assertions
begin

text \<open>
  Trial sessions foretell policies: the same policy commands, given to a session that authorizes and to a trial session
  that only computes, leave the two with the same policy digest, whenever the first of them succeeds. The trial
  session skips every check of what is asserted.
\<close>

section \<open>A session and its trial\<close>

text \<open>The parts of a policy that steer the commands; a trial session records the others or not, as the code likes.\<close>

definition same_course :: "policy_state \<Rightarrow> policy_state \<Rightarrow> bool" where
  "same_course p p' \<longleftrightarrow> pol_digest p' = pol_digest p \<and> auth_value_needed p' = auth_value_needed p
     \<and> password_needed p' = password_needed p \<and> pol_locality p' = pol_locality p"

definition twin :: "session \<Rightarrow> session \<Rightarrow> bool" where
  "twin x y \<longleftrightarrow> session_type x = se_POLICY \<and> session_type y = se_TRIAL \<and> auth_hash y = auth_hash x
     \<and> start_time y = start_time x \<and> same_course (policy x) (policy y)"

definition with_session_at :: "u32 \<Rightarrow> session \<Rightarrow> tpm_state \<Rightarrow> tpm_state" where
  "with_session_at h y s = s\<lparr>session_slots := (session_slots s)\<lparr>sessions := bt_update h y (sessions (session_slots s))\<rparr>\<rparr>"

definition twins :: "u32 \<Rightarrow> tpm_state \<Rightarrow> tpm_state \<Rightarrow> bool" where
  "twins h s t \<longleftrightarrow> (\<exists>x y. bt_get (sessions (session_slots s)) h = Some x \<and> twin x y \<and> t = with_session_at h y s)"

lemma twin_facts:
  assumes "twin x y"
  shows "\<not> is_trial x" "is_trial y" "is_policy x" "is_policy y" "auth_hash y = auth_hash x" "start_time y = start_time x"
    "pol_digest (policy y) = pol_digest (policy x)" "auth_value_needed (policy y) = auth_value_needed (policy x)"
    "password_needed (policy y) = password_needed (policy x)" "pol_locality (policy y) = pol_locality (policy x)"
  using assms by (auto simp: twin_def same_course_def is_trial_def is_policy_def)

lemma twinsD:
  assumes "twins h s t"
  obtains x y where "bt_get (sessions (session_slots s)) h = Some x" "bt_get (sessions (session_slots t)) h = Some y" "twin x y"
    "t = with_session_at h y s"
  using assms that by (auto simp: twins_def with_session_at_def)

section \<open>Operations on a session\<close>

definition mirrors :: "('a \<Rightarrow> 'b \<Rightarrow> bool) \<Rightarrow> (session, 'a) st_op \<Rightarrow> (session, 'b) st_op \<Rightarrow> bool" where
  "mirrors R f g \<longleftrightarrow> (\<forall>x y v x'. twin x y \<longrightarrow> f x = (Inr v, x') \<longrightarrow> (\<exists>w y'. g y = (Inr w, y') \<and> R v w \<and> twin x' y'))"

named_theorems mirror_intros

lemma mirrorsI:
  "(\<And>x y v x'. twin x y \<Longrightarrow> f x = (Inr v, x') \<Longrightarrow> \<exists>w y'. g y = (Inr w, y') \<and> R v w \<and> twin x' y') \<Longrightarrow> mirrors R f g"
  by (simp add: mirrors_def)

lemma mirrorsD:
  "mirrors R f g \<Longrightarrow> twin x y \<Longrightarrow> f x = (Inr v, x') \<Longrightarrow> \<exists>w y'. g y = (Inr w, y') \<and> R v w \<and> twin x' y'"
  by (simp add: mirrors_def)

lemma mirrors_bind:
  assumes "mirrors R f g" and "\<And>v w. R v w \<Longrightarrow> mirrors Q (k v) (l w)"
  shows "mirrors Q (st_bind f k) (st_bind g l)"
proof (rule mirrorsI)
  fix x y v x' assume xy: "twin x y" and run: "st_bind f k x = (Inr v, x')"
  obtain u z where f: "f x = (Inr u, z)" and k: "k u z = (Inr v, x')"
    using run by (auto simp: st_bind_def split: prod.splits sum.splits)
  obtain w z' where "g y = (Inr w, z')" "R u w" "twin z z'"
    using mirrorsD [OF assms(1) xy f] by blast
  moreover obtain w' y' where "l w z' = (Inr w', y')" "Q v w'" "twin x' y'"
    using mirrorsD [OF assms(2) [OF \<open>R u w\<close>] \<open>twin z z'\<close> k] by blast
  ultimately show "\<exists>w y'. st_bind g l y = (Inr w, y') \<and> Q v w \<and> twin x' y'"
    by (auto simp: st_bind_def)
qed

lemma mirrors_seq [mirror_intros]:
  "mirrors (=) f f \<Longrightarrow> (\<And>v. mirrors Q (k v) (k v)) \<Longrightarrow> mirrors Q (st_bind f k) (st_bind f k)"
  by (rule mirrors_bind [where R = "(=)"]) auto

lemma mirrors_view:
  "(\<And>x y v. twin x y \<Longrightarrow> a x = Inr v \<Longrightarrow> \<exists>w. b y = Inr w \<and> R v w) \<Longrightarrow> mirrors R (st_view a) (st_view b)"
  by (auto simp: mirrors_def)

lemma mirrors_check: "(\<And>x y. twin x y \<Longrightarrow> b y = Inr ()) \<Longrightarrow> mirrors (=) (st_view a) (st_view b)"
  by (auto intro: mirrors_view)

lemma mirrors_same_view: "(\<And>x y. twin x y \<Longrightarrow> a y = a x) \<Longrightarrow> mirrors (=) (st_view a) (st_view a)"
  by (auto intro: mirrors_view)

lemma mirrors_extend [mirror_intros]: "mirrors (=) (extend_policy E cc data) (extend_policy E cc data)"
  by (rule mirrorsI) (auto simp: extend_policy_def twin_def same_course_def split: sum.splits)

lemma mirrors_note: "(\<And>p p'. same_course p p' \<Longrightarrow> same_course (f p) (f p')) \<Longrightarrow> mirrors (=) (note_policy f) (note_policy f)"
  by (rule mirrorsI) (auto simp: note_policy_def twin_def)

lemma mirrors_digest [mirror_intros]: "mirrors (=) (restart_digest E) (restart_digest E)"
  by (rule mirrorsI) (auto simp: restart_digest_def twin_def same_course_def set_policy_digest_def split: sum.splits)

lemma mirrors_restart [mirror_intros]: "mirrors (=) (restart_policy E) (restart_policy E)"
  by (rule mirrorsI) (auto simp: restart_policy_def twin_def same_course_def split: sum.splits)

lemma mirrors_update [mirror_intros]: "mirrors (=) (policy_authorization_update E cc name ref) (policy_authorization_update E cc name ref)"
proof -
  have "mirrors (=) (\<lambda>x. case digest_parts E (auth_hash x) [pol_digest (policy x), ref] of
      Inl e \<Rightarrow> (Inl e, x) | Inr d \<Rightarrow> (Inr (), set_policy_digest d x))
    (\<lambda>x. case digest_parts E (auth_hash x) [pol_digest (policy x), ref] of
      Inl e \<Rightarrow> (Inl e, x) | Inr d \<Rightarrow> (Inr (), set_policy_digest d x))"
    by (rule mirrorsI) (auto simp: twin_def same_course_def set_policy_digest_def split: sum.splits)
  then show ?thesis unfolding policy_authorization_update_def by (intro mirror_intros)
qed

lemma mirrors_record [mirror_intros]:
  assumes "\<And>p p'. same_course p p' \<Longrightarrow> same_course (f p) (f p')"
  shows "mirrors (=) (record_authorization E cc cp name ref f) (record_authorization E cc cp name ref f)"
  unfolding record_authorization_def
  by (intro mirror_intros mirrors_check mirrors_note assms) (simp_all add: check_cp_hash_def twin_facts set_cp_hash_def same_course_def)

section \<open>Operations on the TPM\<close>

definition foretells :: "u32 \<Rightarrow> ('a \<Rightarrow> 'b \<Rightarrow> bool) \<Rightarrow> (tpm_state, 'a) st_op \<Rightarrow> (tpm_state, 'b) st_op \<Rightarrow> bool" where
  "foretells h R f g \<longleftrightarrow> (\<forall>s t v s'. twins h s t \<longrightarrow> f s = (Inr v, s') \<longrightarrow> (\<exists>w t'. g t = (Inr w, t') \<and> R v w \<and> twins h s' t'))"

named_theorems foretell_intros

lemma foretellsI:
  "(\<And>s t v s'. twins h s t \<Longrightarrow> f s = (Inr v, s') \<Longrightarrow> \<exists>w t'. g t = (Inr w, t') \<and> R v w \<and> twins h s' t') \<Longrightarrow> foretells h R f g"
  by (simp add: foretells_def)

lemma foretellsD:
  "foretells h R f g \<Longrightarrow> twins h s t \<Longrightarrow> f s = (Inr v, s') \<Longrightarrow> \<exists>w t'. g t = (Inr w, t') \<and> R v w \<and> twins h s' t'"
  by (simp add: foretells_def)

lemma foretells_bind:
  assumes "foretells h R f g" and "\<And>v w. R v w \<Longrightarrow> foretells h Q (k v) (l w)"
  shows "foretells h Q (st_bind f k) (st_bind g l)"
proof (rule foretellsI)
  fix s t v s' assume st: "twins h s t" and run: "st_bind f k s = (Inr v, s')"
  obtain u z where f: "f s = (Inr u, z)" and k: "k u z = (Inr v, s')"
    using run by (auto simp: st_bind_def split: prod.splits sum.splits)
  obtain w z' where "g t = (Inr w, z')" "R u w" "twins h z z'"
    using foretellsD [OF assms(1) st f] by blast
  moreover obtain w' t' where "l w z' = (Inr w', t')" "Q v w'" "twins h s' t'"
    using foretellsD [OF assms(2) [OF \<open>R u w\<close>] \<open>twins h z z'\<close> k] by blast
  ultimately show "\<exists>w t'. st_bind g l t = (Inr w, t') \<and> Q v w \<and> twins h s' t'"
    by (auto simp: st_bind_def)
qed

lemma foretells_seq [foretell_intros]:
  "foretells h (=) f f \<Longrightarrow> (\<And>v. foretells h Q (k v) (l v)) \<Longrightarrow> foretells h Q (st_bind f k) (st_bind f l)"
  by (rule foretells_bind [where R = "(=)"]) auto

lemma foretells_lift: "(\<And>v. a = Inr v \<Longrightarrow> \<exists>w. b = Inr w \<and> R v w) \<Longrightarrow> foretells h R (st_lift a) (st_lift b)"
  by (auto simp: foretells_def)

lemma foretells_check [foretell_intros]: "foretells h (=) (st_check b e) (st_check b e)"
  by (auto simp: foretells_def st_check_def)

lemma foretells_view:
  "(\<And>s t v. twins h s t \<Longrightarrow> a s = Inr v \<Longrightarrow> \<exists>w. b t = Inr w \<and> R v w) \<Longrightarrow> foretells h R (st_view a) (st_view b)"
  by (auto simp: foretells_def)

lemma foretells_session [foretell_intros]:
  assumes "\<And>x y. twin x y \<Longrightarrow> foretells h Q (k x) (l y)"
  shows "foretells h Q (st_bind (st_view (policy_session h)) k) (st_bind (st_view (policy_session h)) l)"
  by (rule foretells_bind [where R = twin], rule foretells_view)
     (auto elim!: twinsD simp: policy_session_def slots_get_def twin_facts intro: assms)

lemma foretells_on_session: "mirrors (=) f f \<Longrightarrow> foretells h (=) (on_session h f) (on_session h f)"
proof (rule foretellsI)
  fix s t v s' assume f: "mirrors (=) f f" and st: "twins h s t" and run: "on_session h f s = (Inr v, s')"
  obtain x y where x: "bt_get (sessions (session_slots s)) h = Some x" "bt_get (sessions (session_slots t)) h = Some y"
      "twin x y" "t = with_session_at h y s"
    using st by (elim twinsD)
  obtain r x' where r: "f x = (r, x')" by (cases "f x")
  then have fx: "f x = (Inr v, x')" and s': "s' = with_session_at h x' s"
    using run x(1) by (simp_all add: on_session_def slots_get_def with_session_at_def)
  obtain y' where fy: "f y = (Inr v, y')" "twin x' y'" using mirrorsD [OF f x(3) fx] by blast
  have run': "on_session h f t = (Inr v, with_session_at h y' t)"
    using x(2) fy(1) by (simp add: on_session_def slots_get_def with_session_at_def)
  have "bt_get (sessions (session_slots s')) h = Some x'"
    using x(1) by (simp add: s' with_session_at_def)
  moreover have "with_session_at h y' t = with_session_at h y' s'"
    by (simp add: x(4) s' with_session_at_def bt_update_twice)
  ultimately have "twins h s' (with_session_at h y' t)" using fy(2) by (auto simp: twins_def)
  then show "\<exists>w t'. on_session h f t = (Inr w, t') \<and> v = w \<and> twins h s' t'" using run' by blast
qed

lemma foretells_on_policy [foretell_intros]: "mirrors (=) f f \<Longrightarrow> foretells h (=) (on_policy h f) (on_policy h f)"
  unfolding on_policy_def by (rule foretells_on_session) (simp add: mirrors_def twin_facts)

lemma foretells_assertion [foretell_intros]:
  "mirrors (=) f f \<Longrightarrow> foretells h (\<lambda>_ _. True) (assertion f h q) (assertion f h q)"
  unfolding assertion_def by (intro foretell_intros foretells_lift) auto

lemma foretells_area [foretell_intros]:
  "(\<And>h'. rq_handle q i = Inr h' \<Longrightarrow> foretells h R (k h' q) (l h' q)) \<Longrightarrow> foretells h R (with_handle_area i k q) (with_handle_area i l q)"
  by (cases "rq_handle q i") (auto simp: with_handle_area_apply foretells_def)

lemma foretells_reading [foretell_intros]:
  "(\<And>v. foretells h R (k v q) (l v q)) \<Longrightarrow> foretells h R (reading get k q) (reading get l q)"
  by (cases "all_parameters get q") (auto simp: reading_def foretells_def)


section \<open>What a session does not change of the TPM\<close>

lemma with_session_at_other [simp]:
  "name_of E (with_session_at h y s) k = name_of E s k" "nv (with_session_at h y s) = nv s"
  "clock_of (with_session_at h y s) = clock_of s" "index_at n k (with_session_at h y s) = index_at n k s"
  "is_pin_pass (with_session_at h y s) k = is_pin_pass s k" "check_secret_entity (with_session_at h y s) k = check_secret_entity s k"
  by (simp_all add: with_session_at_def name_of_def index_at_def is_pin_pass_def check_secret_entity_def)

lemma twins_slot:
  assumes "twins h s t"
  shows "slots_get k (session_slots t) = slots_get k (session_slots s)
    \<or> (\<exists>x y. slots_get k (session_slots s) = Inr x \<and> slots_get k (session_slots t) = Inr y \<and> twin x y)"
  using assms by (elim twinsD) (auto simp: slots_get_def with_session_at_def)

lemma twins_auth_is_policy: "twins h s t \<Longrightarrow> auth_is_policy t q i = auth_is_policy s q i"
proof (cases "get_at (rq_sessions q) i")
  case (Some a)
  assume "twins h s t"
  from twins_slot [OF this, of "in_handle a"] show ?thesis
    by (auto simp: auth_is_policy_def Some twin_facts)
qed (simp add: auth_is_policy_def)

lemma twins_secret_session: "twins h s t \<Longrightarrow> check_secret_session t q = check_secret_session s q"
proof (cases "rq_sessions q")
  case (Cons a as)
  assume "twins h s t"
  from twins_slot [OF this, of "in_handle a"] show ?thesis
    by (auto simp: check_secret_session_def Cons twin_facts)
qed (simp add: check_secret_session_def)

lemma twins_views:
  assumes "twins h s t"
  shows "name_of E t k = name_of E s k" "check_secret_entity t k = check_secret_entity s k"
    "index_for_policy E t q a i = index_for_policy E s q a i"
  using assms by (auto elim!: twinsD simp: index_for_policy_def twins_auth_is_policy [OF assms])

lemma foretells_same_view [foretell_intros]:
  "(\<And>s t. twins h s t \<Longrightarrow> a t = a s) \<Longrightarrow> foretells h (=) (st_view a) (st_view a)"
  by (rule foretells_view) auto

text \<open>A check that the trial session skips.\<close>

lemma foretells_skip:
  "(\<And>t. b t = Inr ()) \<Longrightarrow> foretells h (=) (st_view a) (st_view b)"
  "c = Inr () \<Longrightarrow> foretells h (=) (st_lift d) (st_lift c)"
  by (rule foretells_view, simp) (rule foretells_lift, simp)

lemma foretells_answer: "foretells h (\<lambda>_ _. True) (st_lift r) (st_lift r)"
  "foretells h (\<lambda>_ _. True) (st_lift (unread r)) (st_lift (unread r))"
  by (rule foretells_lift, simp)+

section \<open>Each command\<close>

lemma foretells_at:
  "rq_handle q i = Inr h \<Longrightarrow> foretells h R (k h q) (l h q) \<Longrightarrow> foretells h R (with_handle_area i k q) (with_handle_area i l q)"
  by (rule foretells_area) simp

lemma foretells_plain:
  assumes "rq_handle q 0 = Inr h" and "\<And>p p'. same_course p p' \<Longrightarrow> same_course (f p) (f p')"
  shows "foretells h (\<lambda>_ _. True) (plain_assertion E cc f q) (plain_assertion E cc f q)"
  unfolding plain_assertion_def
  by (intro foretells_at [OF assms(1)] foretell_intros foretells_answer mirror_intros mirrors_note assms(2))

lemma foretells_or:
  assumes "rq_handle q 0 = Inr h" shows "foretells h (\<lambda>_ _. True) (policy_or E q) (policy_or E q)"
proof -
  have digest: "mirrors (=) (\<lambda>x. case hash_size E (auth_hash x) of Inl e \<Rightarrow> (Inl e, x) | Inr n \<Rightarrow> (Inr (), set_policy_digest (replicate n 0) x))
      (\<lambda>x. case hash_size E (auth_hash x) of Inl e \<Rightarrow> (Inl e, x) | Inr n \<Rightarrow> (Inr (), set_policy_digest (replicate n 0) x))"
    using mirrors_digest [of E] by (simp add: restart_digest_def [abs_def])
  show ?thesis
    unfolding policy_or_def
    by (intro foretells_at [OF assms] foretell_intros mirror_intros digest mirrors_view)
       (auto simp: twin_facts split: if_splits)
qed

lemma foretells_locality:
  assumes "rq_handle q 0 = Inr h" shows "foretells h (\<lambda>_ _. True) (policy_locality E q) (policy_locality E q)"
  unfolding policy_locality_def
  by (intro foretells_at [OF assms] foretell_intros mirror_intros mirrors_view mirrors_note)
     (auto simp: narrowed_def twin_facts same_course_def split: option.splits if_splits)

lemma foretells_command_code:
  assumes "rq_handle q 0 = Inr h" shows "foretells h (\<lambda>_ _. True) (policy_command_code E q) (policy_command_code E q)"
  unfolding policy_command_code_def
  by (intro foretells_at [OF assms] foretell_intros mirror_intros mirrors_check mirrors_note)
     (simp_all add: twin_facts same_course_def)

lemma foretells_nv_written:
  assumes "rq_handle q 0 = Inr h" shows "foretells h (\<lambda>_ _. True) (policy_nv_written E q) (policy_nv_written E q)"
  unfolding policy_nv_written_def
  by (intro foretells_at [OF assms] foretell_intros mirror_intros mirrors_check mirrors_note)
     (simp_all add: twin_facts same_course_def split: option.split)

lemma foretells_restart:
  assumes "rq_handle q 0 = Inr h" shows "foretells h (\<lambda>_ _. True) (policy_restart E q) (policy_restart E q)"
  unfolding policy_restart_def
  by (intro foretells_at [OF assms] foretell_intros foretells_answer foretells_on_session mirror_intros)

lemma foretells_exclusive:
  assumes "\<And>x y. twin x y \<Longrightarrow> check y = Inr ()" and "\<And>p p'. same_course p p' \<Longrightarrow> same_course (f d p) (f d p')"
  shows "foretells h (\<lambda>_ _. True) (exclusive_assertion E cc check f d h q) (exclusive_assertion E cc check f d h q)"
  unfolding exclusive_assertion_def
  by (intro foretell_intros mirror_intros mirrors_check mirrors_note assms) (simp_all add: check_digest_size_def twin_facts)

lemma trial_slot: "twin x y \<Longrightarrow> check_shared_slot y = Inr ()" "twin x y \<Longrightarrow> \<not> shared_cp_hash_taken y"
  by (simp_all add: check_shared_slot_def shared_cp_hash_taken_def twin_facts)

lemma foretells_exclusives:
  assumes "rq_handle q 0 = Inr h"
  shows "foretells h (\<lambda>_ _. True) (policy_cp_hash E q) (policy_cp_hash E q)"
    "foretells h (\<lambda>_ _. True) (policy_name_hash E q) (policy_name_hash E q)"
    "foretells h (\<lambda>_ _. True) (policy_parameters E q) (policy_parameters E q)"
    "foretells h (\<lambda>_ _. True) (policy_template E q) (policy_template E q)"
  unfolding policy_cp_hash_def policy_name_hash_def policy_parameters_def policy_template_def
  by (intro foretells_at [OF assms] foretell_intros foretells_exclusive,
      simp_all add: trial_slot twin_facts same_course_def split: option.split)+

lemma mirrors_names: "mirrors (=) (note_names c d) (note_names c d)"
  unfolding note_names_def by (rule mirrors_note) (simp add: same_course_def)

lemma mirrors_slot: "mirrors (=) (st_view check_shared_slot) (st_view check_shared_slot)"
  by (rule mirrors_check) (rule trial_slot)

lemma mirrors_hash: "mirrors (=) (st_view (\<lambda>x. digest_parts E (auth_hash x) ps)) (st_view (\<lambda>x. digest_parts E (auth_hash x) ps))"
  "mirrors (=) (st_view (\<lambda>x. digest E (auth_hash x) b)) (st_view (\<lambda>x. digest E (auth_hash x) b))"
  by (rule mirrors_same_view, simp add: twin_facts)+

lemma foretells_names:
  assumes "rq_handle q 0 = Inr h"
  shows "foretells h (\<lambda>_ _. True) (policy_duplication_select E q) (policy_duplication_select E q)"
    "foretells h (\<lambda>_ _. True) (policy_ac_send_select E q) (policy_ac_send_select E q)"
  unfolding policy_duplication_select_def policy_ac_send_select_def case_prod_unfold
  by (intro foretells_at [OF assms] foretell_intros mirror_intros mirrors_slot mirrors_hash mirrors_names)+

lemma mirrors_operands: "mirrors (=) (extend_with_operands E cc ops n) (extend_with_operands E cc ops n)"
  unfolding extend_with_operands_def by (intro mirror_intros mirrors_hash)

lemma foretells_counter_timer:
  assumes "rq_handle q 0 = Inr h"
  shows "foretells h (\<lambda>_ _. True) (policy_counter_timer E q) (policy_counter_timer E q)"
  unfolding policy_counter_timer_def case_prod_unfold
  by (intro foretells_at [OF assms] foretell_intros foretells_session mirrors_operands foretells_bind [OF foretells_skip(1)])
     (simp add: twin_facts)

lemma foretells_index: "foretells h (=) (st_view (\<lambda>s. index_for_policy E s q a i)) (st_view (\<lambda>s. index_for_policy E s q a i))"
  by (rule foretells_same_view) (simp add: twins_views)

lemma foretells_nv:
  assumes "rq_handle q 2 = Inr h"
  shows "foretells h (\<lambda>_ _. True) (policy_nv E q) (policy_nv E q)"
    "foretells h (\<lambda>_ _. True) (policy_authorize_nv E q) (policy_authorize_nv E q)"
  unfolding policy_nv_def policy_authorize_nv_def case_prod_unfold
  by (rule foretells_at [OF assms] foretells_session foretells_index foretells_seq foretells_answer mirrors_operands mirror_intros
      foretells_bind [OF foretells_skip(2)] foretell_intros foretells_lift | simp add: twin_facts; fail)+

lemma foretells_authorize:
  assumes "rq_handle q 0 = Inr h"
  shows "foretells h (\<lambda>_ _. True) (policy_authorize E q) (policy_authorize E q)"
  unfolding policy_authorize_def case_prod_unfold
  by (rule foretells_at [OF assms] foretells_session foretells_bind [OF foretells_skip(1)] foretell_intros mirror_intros foretells_lift
      | simp add: twin_facts; fail)+

lemma foretells_channel:
  assumes "rq_handle q 0 = Inr h"
  shows "foretells h (\<lambda>_ _. True) (policy_transport_spdm E q) (policy_transport_spdm E q)"
proof -
  have hash: "mirrors (=) (st_view (channel_hash E a b)) (st_view (channel_hash E a b))" for a b
    by (rule mirrors_same_view) (simp add: channel_hash_def twin_facts)
  show ?thesis
    unfolding policy_transport_spdm_def case_prod_unfold
    by (rule foretells_at [OF assms] foretell_intros mirror_intros hash mirrors_check mirrors_note foretells_lift
        | simp add: twin_facts same_course_def; fail)+
qed

lemma foretells_get_digest:
  assumes "rq_handle q 0 = Inr h"
  shows "foretells h (=) (policy_get_digest q) (policy_get_digest q)"
  unfolding policy_get_digest_def
  by (intro foretells_at [OF assms] foretells_session foretells_lift) (simp add: twin_facts)

text \<open>The null ticket of a trial session goes into the same answer.\<close>

lemma respond_null_ticket: "respond_ticket q timeout t = Inr v \<Longrightarrow> \<exists>w. respond_ticket q timeout (ticket_null tag) = Inr w"
  by (auto simp: respond_ticket_def respond_try_def put_new_def tpm2b_new_def ticket_put_def ticket_null_def res_bind_eq_Inr
      w_finish_def writer_new_def tpm2b_put_enc writes_emit emit_def split: if_splits)

lemma foretells_record:
  assumes "\<And>p p'. same_course p p' \<Longrightarrow> same_course (f p) (f p')"
  shows "foretells h (=) (on_policy h (record_authorization E cc cp name ref f)) (on_policy h (record_authorization E cc cp name ref f))"
  by (intro foretells_on_policy mirrors_record assms)

lemma course_expiration: "same_course p p' \<Longrightarrow> same_course (record_expiration t p) (record_expiration t p')"
  "same_course p p' \<Longrightarrow> same_course ((if b then record_expiration t else id) p) ((if b then record_expiration t else id) p')"
  by (simp_all add: same_course_def record_expiration_def split: option.split)

lemma foretells_ticket:
  assumes "rq_handle q 0 = Inr h"
  shows "foretells h (\<lambda>_ _. True) (policy_ticket E q) (policy_ticket E q)"
  unfolding policy_ticket_def case_prod_unfold
  by (rule foretells_at [OF assms] foretells_session foretells_bind [OF foretells_skip(1)] foretells_record course_expiration
      foretell_intros foretells_lift | simp add: twin_facts; fail)+

lemma foretells_name:
  "foretells h (=) (st_view (\<lambda>s. map_err g (name_of E s k))) (st_view (\<lambda>s. map_err g (name_of E s k)))"
  by (rule foretells_same_view) (simp add: twins_views)

text \<open>The checks a trial session skips, and the null ticket it gets.\<close>

lemma foretells_checks:
  assumes "twin x y"
  shows "foretells h (=) (st_view (\<lambda>s. check_signed_authorization E B L s key x n cp ref e sig))
      (st_view (\<lambda>s. check_signed_authorization E B L s key y n cp ref e sig))"
    "foretells h (=) (st_view (\<lambda>s. check_limit s x t)) (st_view (\<lambda>s. check_limit s y t))"
    "foretells h (=) (st_lift (check_session_nonce x n)) (st_lift (check_session_nonce y n))"
  by (intro foretells_skip; simp add: check_signed_authorization_def check_limit_def check_session_nonce_def twin_facts [OF assms]
      split: option.split)+

lemma foretells_build:
  assumes "twin x y"
  shows "foretells h (\<lambda>_ w. w = ticket_null tag)
      (st_view (\<lambda>s. build_authorization_ticket E s tag (c s) e t cp ref name (is_trial x) b))
      (st_view (\<lambda>s. build_authorization_ticket E s tag (c s) e t cp ref name (is_trial y) b))"
  by (rule foretells_view) (simp add: build_authorization_ticket_def twin_facts [OF assms])

lemma foretells_respond: "w = ticket_null tag \<Longrightarrow>
    foretells h (\<lambda>_ _. True) (st_lift (respond_ticket q timeout t)) (st_lift (respond_ticket q timeout w))"
  by (rule foretells_lift) (simp add: respond_null_ticket)

lemma foretells_signed:
  assumes "rq_handle q 1 = Inr h"
  shows "foretells h (\<lambda>_ _. True) (policy_signed E B L q) (policy_signed E B L q)"
  unfolding policy_signed_def case_prod_unfold Let_def
  apply (intro foretells_area [of q 0] foretells_at [OF assms] foretells_reading foretells_seq [OF foretells_name] foretells_session)
  subgoal premises p for key v name x y
    unfolding twin_facts(6) [OF p(2)]
    by (intro foretells_seq foretells_bind [OF foretells_checks(1) [OF p(2)]] foretells_bind [OF foretells_checks(2) [OF p(2)]]
        foretells_bind [OF foretells_build [OF p(2)]] foretells_record course_expiration foretells_respond)
  done

lemma foretells_secret:
  assumes "rq_handle q 1 = Inr h"
  shows "foretells h (\<lambda>_ _. True) (policy_secret E q) (policy_secret E q)"
proof -
  have entity: "foretells h (=) (st_view (\<lambda>s. check_secret_entity s a)) (st_view (\<lambda>s. check_secret_entity s a))"
    "foretells h (=) (st_view (\<lambda>s. check_secret_session s q)) (st_view (\<lambda>s. check_secret_session s q))" for a
    by (intro foretells_same_view; simp add: twins_views twins_secret_session)+
  have build: "foretells h (\<lambda>v w. fst w = fst v \<and> snd w = ticket_null st_AUTH_SECRET)
      (st_view (\<lambda>s. if is_pin_pass s a then Inr ([], ticket_null st_AUTH_SECRET)
         else res_bind (build_authorization_ticket E s st_AUTH_SECRET (ticket_hierarchy s a) e t cp ref name (is_trial x) b) (\<lambda>k. Inr (t, k))))
      (st_view (\<lambda>s. if is_pin_pass s a then Inr ([], ticket_null st_AUTH_SECRET)
         else res_bind (build_authorization_ticket E s st_AUTH_SECRET (ticket_hierarchy s a) e t cp ref name (is_trial y) b) (\<lambda>k. Inr (t, k))))"
    if "twin x y" for a e t cp ref name b x y
    by (rule foretells_view)
       (auto elim!: twinsD simp: build_authorization_ticket_def twin_facts [OF that] res_bind_eq_Inr split: if_splits)
  show ?thesis
    unfolding policy_secret_def case_prod_unfold Let_def
    apply (intro foretells_area [of q 0] foretells_at [OF assms] foretells_reading foretells_seq [OF foretells_name]
        foretells_seq [OF entity(1)] foretells_seq [OF entity(2)] foretells_session)
    subgoal premises p for key v name u w x y
      unfolding twin_facts(6) [OF p(2)]
      apply (intro foretells_bind [OF foretells_checks(3) [OF p(2)]] foretells_bind [OF foretells_checks(2) [OF p(2)]]
          foretells_bind [OF build [OF p(2)]])
      subgoal premises b for _ _ _ _ c d
        using b(3) by (simp only:) (intro foretells_seq foretells_record course_expiration
            foretells_respond [where tag = st_AUTH_SECRET] refl)
      done
    done
qed

section \<open>TPM2_PolicyPCR\<close>

text \<open>
  A policy session records the selection without the registers that do not exist, a trial session the one it is
  given. The two agree where the request names only registers that exist.
\<close>

definition names_existing :: "env \<Rightarrow> request \<Rightarrow> pcr_banks \<Rightarrow> bool" where
  "names_existing E q p =
     (case all_parameters (both (param 1 (tpm2b_get MAX_DIGEST_SIZE)) (param 2 (pcr_selections_get E))) q of
        Inl _ \<Rightarrow> True | Inr (expected, sel) \<Rightarrow> filter_selection sel p = sel)"

definition pcr_assertion :: "env \<Rightarrow> pcr_banks \<Rightarrow> command" where
  "pcr_assertion E p = with_handle_area 0 (\<lambda>h.
     reading (both (param 1 (tpm2b_get MAX_DIGEST_SIZE)) (param 2 (pcr_selections_get E))) (\<lambda>(expected, sel) q.
       st_bind (st_view (policy_session h)) (\<lambda>y.
       st_bind (st_lift (selection_digest E (auth_hash y) (filter_selection sel p) p)) (\<lambda>dg.
         assertion (st_bind (st_view (\<lambda>x. if \<not> is_trial x \<and> expected \<noteq> [] \<and> expected \<noteq> dg then Inl (with_parameter 1 rc_VALUE)
               else Inr (to_bytes pcr_selections_put (if is_trial x then sel else filter_selection sel p)
                         @ (if is_trial x \<and> expected \<noteq> [] then expected else dg)))) (\<lambda>data.
           st_bind (note_pcr_counter (update_counter p)) (\<lambda>_. extend_policy E cc_PolicyPCR data))) h q))))"

lemma policy_pcr_at: "policy_pcr E q s = pcr_assertion E (pcrs s) q s"
  by (cases "rq_handle q 0"; cases "all_parameters (both (param 1 (tpm2b_get MAX_DIGEST_SIZE)) (param 2 (pcr_selections_get E))) q")
     (auto simp: policy_pcr_def pcr_assertion_def with_handle_area_apply reading_def st_bind_def Let_def split: prod.split sum.split)

lemma mirrors_counter: "mirrors (=) (note_pcr_counter n) (note_pcr_counter n)"
  by (rule mirrorsI) (auto simp: note_pcr_counter_def twin_def same_course_def is_trial_def split: option.splits if_splits)

lemma foretells_lift_same: "foretells h (=) (st_lift a) (st_lift a)"
  by (rule foretells_lift) simp

lemma foretells_reading_at:
  "all_parameters get q = Inr v \<Longrightarrow> foretells h R (k v q) (l v q) \<Longrightarrow> foretells h R (reading get k q) (reading get l q)"
  by (auto simp: reading_def foretells_def)

lemma foretells_pcr:
  assumes "rq_handle q 0 = Inr h" and "names_existing E q p"
  shows "foretells h (\<lambda>_ _. True) (pcr_assertion E p q) (pcr_assertion E p q)"
proof (cases "all_parameters (both (param 1 (tpm2b_get MAX_DIGEST_SIZE)) (param 2 (pcr_selections_get E))) q")
  case (Inl e)
  then show ?thesis unfolding pcr_assertion_def
    by (intro foretells_at [OF assms(1)]) (auto simp: reading_def foretells_def)
next
  case (Inr v)
  obtain expected sel where v: "v = (expected, sel)" by (cases v)
  have sel: "filter_selection sel p = sel" using assms(2) Inr v by (simp add: names_existing_def)
  show ?thesis
    unfolding pcr_assertion_def
    apply (rule foretells_at [OF assms(1)])
    apply (rule foretells_reading_at [OF Inr])
    unfolding v prod.case sel
    apply (rule foretells_session)
    apply (simp only: twin_facts(5))
    apply (intro foretell_intros mirror_intros mirrors_view mirrors_counter foretells_lift_same)
     apply (auto simp: twin_facts split: if_splits)
    done
qed

section \<open>Runs\<close>

text \<open>The policy commands, each with the place of the session in its handle area.\<close>

definition policy_commands :: "env \<Rightarrow> bn_lib \<Rightarrow> ec_lib \<Rightarrow> (command \<times> nat) list" where
  "policy_commands E B L =
     [(policy_pcr E, 0), (policy_signed E B L, 1), (policy_secret E, 1), (policy_ticket E, 0), (policy_or E, 0), (policy_locality E, 0),
      (policy_command_code E, 0),
      (policy_physical_presence E, 0), (policy_auth_value E, 0), (policy_password E, 0), (policy_nv_written E, 0), (policy_cp_hash E, 0),
      (policy_name_hash E, 0), (policy_parameters E, 0), (policy_template E, 0), (policy_duplication_select E, 0),
      (policy_ac_send_select E, 0), (policy_counter_timer E, 0), (policy_nv E, 2), (policy_authorize_nv E, 2), (policy_authorize E, 0),
      (policy_transport_spdm E, 0), (policy_restart E, 0)]"

lemma foretells_other:
  assumes "(c, i) \<in> set (tl (policy_commands E B L))" and "rq_handle q i = Inr h"
  shows "foretells h (\<lambda>_ _. True) (c q) (c q)"
proof -
  note plain = policy_physical_presence_def policy_auth_value_def policy_password_def
  show ?thesis
    using assms
    by (auto simp: policy_commands_def intro: foretells_signed foretells_secret foretells_ticket foretells_or foretells_locality
        foretells_command_code foretells_nv_written foretells_exclusives foretells_names foretells_counter_timer foretells_nv
        foretells_authorize foretells_channel foretells_restart)
       (auto simp: plain same_course_def intro!: foretells_plain)
qed

lemma command_foretold:
  assumes "c \<in> set (policy_commands E B L)" and "rq_handle q (snd c) = Inr h" and "twins h s t" and "fst c q s = (Inr v, s')"
    and "fst c \<noteq> policy_pcr E \<or> names_existing E q (pcrs s)"
  shows "\<exists>w t'. fst c q t = (Inr w, t') \<and> twins h s' t'"
proof (cases "c = (policy_pcr E, 0)")
  case True
  have "pcrs t = pcrs s" using assms(3) by (auto elim!: twinsD simp: with_session_at_def)
  moreover have "names_existing E q (pcrs s)" using assms(5) True by auto
  ultimately show ?thesis
    using foretellsD [OF foretells_pcr assms(3), of q E "pcrs s" v s'] assms(2,4) True by (auto simp: policy_pcr_at)
next
  case False
  then have "(fst c, snd c) \<in> set (tl (policy_commands E B L))" using assms(1) by (auto simp: policy_commands_def)
  from foretellsD [OF foretells_other [OF this assms(2)] assms(3,4)] show ?thesis by blast
qed

text \<open>A run of commands that all succeed, and the state it ends in.\<close>

fun all_succeed :: "(command \<times> nat) list \<Rightarrow> request list \<Rightarrow> tpm_state \<Rightarrow> tpm_state option" where
  "all_succeed (c # cs) (q # qs) s = (case fst c q s of (Inr r, s') \<Rightarrow> all_succeed cs qs s' | (Inl e, s') \<Rightarrow> None)"
| "all_succeed _ _ s = Some s"

text \<open>Each TPM2_PolicyPCR of the run names only registers that exist when it runs.\<close>

fun pcrs_exist :: "env \<Rightarrow> (command \<times> nat) list \<Rightarrow> request list \<Rightarrow> tpm_state \<Rightarrow> bool" where
  "pcrs_exist E (c # cs) (q # qs) s \<longleftrightarrow>
     (fst c \<noteq> policy_pcr E \<or> names_existing E q (pcrs s)) \<and> pcrs_exist E cs qs (snd (fst c q s))"
| "pcrs_exist E _ _ s \<longleftrightarrow> True"

definition digest_at :: "u32 \<Rightarrow> tpm_state \<Rightarrow> bytes option" where
  "digest_at h s = map_option (\<lambda>x. pol_digest (policy x)) (bt_get (sessions (session_slots s)) h)"

lemma twins_digest: "twins h s t \<Longrightarrow> digest_at h t = digest_at h s"
  by (elim twinsD) (simp add: digest_at_def twin_facts)

lemma run_foretold:
  assumes "twins h s t" and "set cs \<subseteq> set (policy_commands E B L)" and "list_all2 (\<lambda>c q. rq_handle q (snd c) = Inr h) cs qs"
    and "all_succeed cs qs s = Some s'" and "pcrs_exist E cs qs s"
  shows "\<exists>t'. all_succeed cs qs t = Some t' \<and> twins h s' t'"
  using assms(3,1,2,4,5)
proof (induction arbitrary: s t rule: list_all2_induct)
  case (Cons c cs q qs)
  obtain r u where r: "fst c q s = (Inr r, u)" and rest: "all_succeed cs qs u = Some s'"
    using Cons.prems(3) by (auto split: prod.splits sum.splits)
  have c: "c \<in> set (policy_commands E B L)" "fst c \<noteq> policy_pcr E \<or> names_existing E q (pcrs s)" "pcrs_exist E cs qs u"
    using Cons.prems(2,4) r by auto
  obtain w t' where "fst c q t = (Inr w, t')" "twins h u t'"
    using command_foretold [OF c(1) Cons.hyps(1) Cons.prems(1) r c(2)] by blast
  with Cons.IH [OF this(2) _ rest c(3)] Cons.prems(2) show ?case by simp
qed simp

text \<open>C10: a trial session foretells the policy. Take a policy session and a trial session with the same handle, hash, start
  and digest in otherwise equal TPMs. Whatever policy commands, with whatever parameters, the policy session goes
  through with success, the trial session goes through them with success too, proving nothing, and ends with the
  same policy digest; provided that each TPM2_PolicyPCR names only registers that exist, since a trial records
  the selection as given and a policy session without the registers there are not.\<close>

theorem trial_foretells_digest:
  assumes "bt_get (sessions (session_slots s)) h = Some x" and "session_type x = se_POLICY"
    and "set cs \<subseteq> set (policy_commands E B L)" and "list_all2 (\<lambda>c q. rq_handle q (snd c) = Inr h) cs qs"
    and "all_succeed cs qs s = Some s'" and "pcrs_exist E cs qs s"
  shows "\<exists>t'. all_succeed cs qs (with_session_at h (x\<lparr>session_type := se_TRIAL\<rparr>) s) = Some t' \<and> digest_at h t' = digest_at h s'"
proof -
  have "twins h s (with_session_at h (x\<lparr>session_type := se_TRIAL\<rparr>) s)"
    using assms(1,2) by (auto simp: twins_def twin_def same_course_def intro!: exI [of _ "x\<lparr>session_type := se_TRIAL\<rparr>"])
  from run_foretold [OF this assms(3-6)] show ?thesis using twins_digest by blast
qed

definition demo_policy :: session where
  "demo_policy = demo_session\<lparr>ses_handle := 0x03000000, session_type := se_POLICY, policy := policy_default\<rparr>"

definition trial_request :: request where
  "trial_request = (session_request 0x03000000 0)\<lparr>rq_handles := [0x03000000]\<rparr>"

text \<open>PolicyPCR of PCR 0 and 1 of the SHA-256 bank, without a digest to expect.\<close>

definition pcr_request :: request where
  "pcr_request = trial_request\<lparr>rq_parameters := [0, 0, 0, 0, 0, 1, 0, 0x0B, 3, 3, 0, 0]\<rparr>"

abbreviation (input) two_pcrs :: "pcr_selection list" where
  "two_pcrs \<equiv> [\<lparr>sel_alg = alg_SHA256, sel_bits = [3, 0, 0]\<rparr>]"

lemma pcr_request_read:
  "all_parameters (both (param 1 (tpm2b_get MAX_DIGEST_SIZE)) (param 2 (pcr_selections_get (demo_env True)))) pcr_request = Inr ([], two_pcrs)"
  "filter_selection two_pcrs demo_banks = two_pcrs"
  by code_simp+

lemma pcrs_of_demo: "pcrs (with_demo_session h x) = demo_banks"
  by (simp add: with_demo_session_def demo_tpm_def)

lemma demo_extends:
  "auth_hash x = alg_SHA256 \<Longrightarrow> \<exists>d. extend_policy (demo_env True) cc data x = (Inr (), x\<lparr>policy := (policy x)\<lparr>pol_digest := d\<rparr>\<rparr>)"
proof -
  assume x: "auth_hash x = alg_SHA256"
  have "is_supported (demo_env True) alg_SHA256" by (simp add: is_supported_def hash_algorithm_def)
  from digest_supported [OF this] x
  have "extend_policy (demo_env True) cc data x = (Inr (), x\<lparr>policy := (policy x)\<lparr>pol_digest :=
      raw_digest (demo_env True) alg_SHA256 (concat [pol_digest (policy x), to_be 4 cc, data])\<rparr>\<rparr>)" for cc data
    by (simp add: extend_policy_def digest_parts_concat del: concat.simps)
  then show ?thesis by blast
qed

lemma demo_slot:
  "bt_get (sessions (session_slots (with_demo_session k x))) k = Some x"
  "with_session_at k y (with_demo_session k x) = with_demo_session k y"
  "Policy.on_session k f (with_demo_session k x) = (case f x of (r, y) \<Rightarrow> (r, with_demo_session k y))"
  by (simp_all add: with_demo_session_def with_session_at_def Policy.on_session_def slots_get_def bt_update_def split: prod.split)

lemma demo_password:
  assumes "auth_hash x = alg_SHA256" and "is_policy x"
  shows "\<exists>r s'. policy_password (demo_env True) trial_request (with_demo_session 0x03000000 x) = (Inr r, s')"
proof -
  obtain d where d: "extend_policy (demo_env True) cc_PolicyAuthValue [] x = (Inr (), x\<lparr>policy := (policy x)\<lparr>pol_digest := d\<rparr>\<rparr>)"
    using demo_extends [OF assms(1)] by blast
  have "rq_handle trial_request 0 = Inr 0x03000000" "rq_parameters trial_request = []"
    by (simp_all add: trial_request_def session_request_def rq_handle_def get_at_def)
  with assms d show ?thesis
    by (simp add: policy_password_def plain_assertion_def with_handle_area_apply st_bind_def on_policy_def demo_slot note_policy_def
        unread_def)
qed

lemma demo_pcr:
  "\<exists>r y. policy_pcr (demo_env True) pcr_request (with_demo_session 0x03000000 demo_policy) = (Inr r, with_demo_session 0x03000000 y)
     \<and> auth_hash y = alg_SHA256 \<and> is_policy y"
proof -
  let ?E = "demo_env True" and ?n = "Some (update_counter demo_banks)"
  obtain dg where dg: "selection_digest ?E alg_SHA256 two_pcrs demo_banks = Inr dg"
    by (simp add: selection_digest_def hasher_new_def hash_algorithm_def)
  have p: "\<not> is_trial demo_policy" "is_policy demo_policy" "auth_hash demo_policy = alg_SHA256" "pol_pcr_counter (policy demo_policy) = None"
    by (simp_all add: is_trial_def is_policy_def demo_policy_def demo_session_def policy_default_def)
  let ?x = "demo_policy\<lparr>policy := (policy demo_policy)\<lparr>pol_pcr_counter := ?n\<rparr>\<rparr>"
  obtain d where d: "extend_policy ?E cc_PolicyPCR (to_bytes pcr_selections_put two_pcrs @ dg) ?x
      = (Inr (), ?x\<lparr>policy := (policy ?x)\<lparr>pol_digest := d\<rparr>\<rparr>)"
    using demo_extends [of ?x] p by auto
  have h: "rq_handle pcr_request 0 = Inr 0x03000000"
    by (simp add: pcr_request_def trial_request_def session_request_def rq_handle_def get_at_def)
  show ?thesis
    using dg d p
    by (simp add: policy_pcr_at pcr_assertion_def pcrs_of_demo with_handle_area_apply h reading_def pcr_request_read st_bind_def
        assertion_def on_policy_def demo_slot policy_session_def slots_get_def note_pcr_counter_def respond_empty_def del: One_nat_def)
      (intro exI [of _ "?x\<lparr>policy := (policy ?x)\<lparr>pol_digest := d\<rparr>\<rparr>"], simp add: is_policy_def)
qed

theorem trial_foretells_digest_witness:
  "\<exists>s' t'. all_succeed [(policy_pcr (demo_env True), 0), (policy_password (demo_env True), 0)] [pcr_request, trial_request]
         (with_demo_session 0x03000000 demo_policy) = Some s'
     \<and> all_succeed [(policy_pcr (demo_env True), 0), (policy_password (demo_env True), 0)] [pcr_request, trial_request]
         (with_session_at 0x03000000 (demo_policy\<lparr>session_type := se_TRIAL\<rparr>) (with_demo_session 0x03000000 demo_policy)) = Some t'
     \<and> digest_at 0x03000000 t' = digest_at 0x03000000 s'"
proof -
  let ?E = "demo_env True" and ?s = "with_demo_session 0x03000000 demo_policy"
  let ?cs = "[(policy_pcr ?E, 0), (policy_password ?E, 0)]" and ?qs = "[pcr_request, trial_request]"
  have h: "rq_handle pcr_request 0 = Inr 0x03000000" "rq_handle trial_request 0 = Inr 0x03000000"
    by (simp_all add: pcr_request_def trial_request_def session_request_def rq_handle_def get_at_def)
  obtain s' where run: "all_succeed ?cs ?qs ?s = Some s'"
    using demo_pcr demo_password by fastforce
  have "\<exists>e. all_parameters (both (param 1 (tpm2b_get MAX_DIGEST_SIZE)) (param 2 (pcr_selections_get ?E))) trial_request = Inl e"
    by (rule exI [of _ 474]) code_simp
  then have named: "names_existing ?E pcr_request (pcrs ?s)" "names_existing ?E trial_request p" for p
    by (auto simp: names_existing_def pcr_request_read pcrs_of_demo simp del: One_nat_def)
  then have exist: "pcrs_exist ?E ?cs ?qs ?s" by simp
  have "\<exists>t'. all_succeed ?cs ?qs (with_session_at 0x03000000 (demo_policy\<lparr>session_type := se_TRIAL\<rparr>) ?s) = Some t'
      \<and> digest_at 0x03000000 t' = digest_at 0x03000000 s'"
    using run exist
    by (intro trial_foretells_digest [where E = ?E and B = demo_bn and L = demo_ec and x = demo_policy])
       (simp_all add: policy_commands_def h, simp_all add: with_demo_session_def demo_policy_def)
  with run show ?thesis by blast
qed

end
