(* ===== verification/Restrictions.thy ===== *)
theory Restrictions
  imports Trial
begin

text \<open>
  What a policy session has recorded that must still hold when it authorizes is not given up by any later policy
  command, failed or not, until the policy is restarted. Three records may change, each in the one way stated here: the
  command code, which two assertions overwrite, the localities, which are narrowed as bit masks, and the need for the
  authorization value, of which the last assertion says how it is shown.
\<close>

section \<open>Keeping what was recorded\<close>

definition keeps_record :: "'v option \<Rightarrow> 'v option \<Rightarrow> bool" where
  "keeps_record a b \<longleftrightarrow> a = None \<or> b = a"

definition keeps_limit :: "u64 option \<Rightarrow> u64 option \<Rightarrow> bool" where
  "keeps_limit a b \<longleftrightarrow> (case a of None \<Rightarrow> True | Some t \<Rightarrow> (case b of None \<Rightarrow> False | Some t' \<Rightarrow> t' \<le> t))"

text \<open>The localities that are left are some of those that were, and never become none.\<close>

definition keeps_mask :: "u8 option \<Rightarrow> u8 option \<Rightarrow> bool" where
  "keeps_mask a b \<longleftrightarrow> (case a of None \<Rightarrow> True | Some m \<Rightarrow> (case b of None \<Rightarrow> False | Some m' \<Rightarrow> m' AND m = m' \<and> (m \<noteq> 0 \<longrightarrow> m' \<noteq> 0)))"

text \<open>The command stays, but for the first assertion that names objects: that one replaces it by its own.\<close>

definition keeps_command :: "policy_state \<Rightarrow> policy_state \<Rightarrow> bool" where
  "keeps_command p p' \<longleftrightarrow> keeps_record (pol_command_code p) (pol_command_code p')
     \<or> pol_name_hash p = None \<and> pol_name_hash p' \<noteq> None \<and> pol_command_code p' \<in> {Some cc_Duplicate, Some cc_AC_Send}"

definition no_looser :: "policy_state \<Rightarrow> policy_state \<Rightarrow> bool" where
  "no_looser p p' \<longleftrightarrow> keeps_record (pol_cp_hash p) (pol_cp_hash p') \<and> keeps_record (pol_name_hash p) (pol_name_hash p')
     \<and> keeps_record (template_hash p) (template_hash p') \<and> keeps_record (parameters_hash p) (parameters_hash p')
     \<and> keeps_record (pol_nv_written p) (pol_nv_written p') \<and> keeps_record (pol_pcr_counter p) (pol_pcr_counter p')
     \<and> keeps_command p p' \<and> keeps_mask (pol_locality p) (pol_locality p')
     \<and> (auth_value_needed p \<or> password_needed p \<longrightarrow> auth_value_needed p' \<or> password_needed p')
     \<and> (pp_required p \<longrightarrow> pp_required p')
     \<and> (channel_required p \<longrightarrow> channel_required p' \<and> channel_key_hash p' = channel_key_hash p)
     \<and> keeps_limit (expiration p) (expiration p')"

definition tightened :: "session \<Rightarrow> session \<Rightarrow> bool" where
  "tightened x x' \<longleftrightarrow> session_type x' = session_type x \<and> no_looser (policy x) (policy x')"

lemma keeps_refl [simp]: "keeps_record a a" "keeps_limit t t" "keeps_record None b" "keeps_limit None u"
    "keeps_mask m m" "keeps_mask None n" "keeps_command p p"
  by (simp_all add: keeps_record_def keeps_limit_def keeps_mask_def keeps_command_def split: option.split)

lemma keeps_trans: "keeps_record a b \<Longrightarrow> keeps_record b c \<Longrightarrow> keeps_record a c" "keeps_limit t u \<Longrightarrow> keeps_limit u v \<Longrightarrow> keeps_limit t v"
  by (auto simp: keeps_record_def keeps_limit_def split: option.splits)

lemma keeps_mask_Some: "keeps_mask (Some m) n \<longleftrightarrow> (\<exists>m'. n = Some m' \<and> m' AND m = m' \<and> (m \<noteq> 0 \<longrightarrow> m' \<noteq> 0))"
  by (cases n) (simp_all add: keeps_mask_def)

lemma keeps_mask_trans: "keeps_mask k m \<Longrightarrow> keeps_mask m n \<Longrightarrow> keeps_mask k n"
proof (cases k)
  case (Some a)
  assume k: "keeps_mask k m" and m: "keeps_mask m n"
  obtain b where b: "m = Some b" "b AND a = b" "a \<noteq> 0 \<longrightarrow> b \<noteq> 0" using k unfolding Some keeps_mask_Some by blast
  obtain c where c: "n = Some c" "c AND b = c" "b \<noteq> 0 \<longrightarrow> c \<noteq> 0" using m unfolding b(1) keeps_mask_Some by blast
  have "c AND a = c AND (b AND a)" using c(2) and.assoc [of c b a] by metis
  then have "c AND a = c" by (simp only: b(2) c(2))
  with b(3) c(1,3) show ?thesis unfolding Some keeps_mask_Some by blast
qed simp

lemma keeps_command_trans:
  assumes "keeps_command p q" and "keeps_command q r"
    and names: "keeps_record (pol_name_hash p) (pol_name_hash q)" "keeps_record (pol_name_hash q) (pol_name_hash r)"
  shows "keeps_command p r"
proof -
  consider "keeps_record (pol_command_code p) (pol_command_code q)" "keeps_record (pol_command_code q) (pol_command_code r)"
    | "pol_name_hash q = None" "pol_name_hash r \<noteq> None" "pol_command_code r \<in> {Some cc_Duplicate, Some cc_AC_Send}"
    | "pol_name_hash p = None" "pol_name_hash q \<noteq> None" "pol_command_code q \<in> {Some cc_Duplicate, Some cc_AC_Send}"
        "keeps_record (pol_command_code q) (pol_command_code r)"
    using assms(1,2) unfolding keeps_command_def by fast
  then show ?thesis
  proof cases
    case 1
    then show ?thesis using keeps_trans(1) [OF 1] by (simp add: keeps_command_def)
  next
    case 2
    have "pol_name_hash p = None" using names(1) 2(1) by (auto simp: keeps_record_def)
    with 2 show ?thesis by (simp add: keeps_command_def)
  next
    case 3
    have "pol_name_hash r = pol_name_hash q" "pol_command_code r = pol_command_code q" using names(2) 3 by (auto simp: keeps_record_def)
    with 3 show ?thesis by (simp add: keeps_command_def)
  qed
qed

lemma keeps_command_digest [simp]: "keeps_command p (p\<lparr>pol_digest := d\<rparr>)"
  by (simp add: keeps_command_def)

lemma no_looser_refl [simp]: "no_looser p p" "tightened x x"
  by (simp_all add: no_looser_def tightened_def)

lemma no_looser_trans:
  assumes "no_looser p q" and "no_looser q r" shows "no_looser p r"
proof -
  note pq = assms(1) [unfolded no_looser_def] and qr = assms(2) [unfolded no_looser_def]
  have "keeps_command p r" using keeps_command_trans pq qr by blast
  moreover have "channel_required p \<longrightarrow> channel_required r \<and> channel_key_hash r = channel_key_hash p" using pq qr by metis
  moreover have "auth_value_needed p \<or> password_needed p \<longrightarrow> auth_value_needed r \<or> password_needed r" using pq qr by blast
  moreover have "pp_required p \<longrightarrow> pp_required r" using pq qr by blast
  moreover have "keeps_record (pol_cp_hash p) (pol_cp_hash r)"
    using pq qr keeps_trans(1) [of "pol_cp_hash p" "pol_cp_hash q" "pol_cp_hash r"] by (elim conjE) (simp only:)
  moreover have "keeps_record (pol_name_hash p) (pol_name_hash r)"
    using pq qr keeps_trans(1) [of "pol_name_hash p" "pol_name_hash q" "pol_name_hash r"] by (elim conjE) (simp only:)
  moreover have "keeps_record (template_hash p) (template_hash r)"
    using pq qr keeps_trans(1) [of "template_hash p" "template_hash q" "template_hash r"] by (elim conjE) (simp only:)
  moreover have "keeps_record (parameters_hash p) (parameters_hash r)"
    using pq qr keeps_trans(1) [of "parameters_hash p" "parameters_hash q" "parameters_hash r"] by (elim conjE) (simp only:)
  moreover have "keeps_record (pol_nv_written p) (pol_nv_written r)"
    using pq qr keeps_trans(1) [of "pol_nv_written p" "pol_nv_written q" "pol_nv_written r"] by (elim conjE) (simp only:)
  moreover have "keeps_record (pol_pcr_counter p) (pol_pcr_counter r)"
    using pq qr keeps_trans(1) [of "pol_pcr_counter p" "pol_pcr_counter q" "pol_pcr_counter r"] by (elim conjE) (simp only:)
  moreover have "keeps_mask (pol_locality p) (pol_locality r)"
    using pq qr keeps_mask_trans [of "pol_locality p" "pol_locality q" "pol_locality r"] by (elim conjE) (simp only:)
  moreover have "keeps_limit (expiration p) (expiration r)"
    using pq qr keeps_trans(2) [of "expiration p" "expiration q" "expiration r"] by (elim conjE) (simp only:)
  ultimately show ?thesis unfolding no_looser_def by (intro conjI) assumption+
qed

lemma tightened_trans: "tightened x y \<Longrightarrow> tightened y z \<Longrightarrow> tightened x z"
  unfolding tightened_def using no_looser_trans by metis

text \<open>An operation on a session that may authorize only tightens it, also when it fails.\<close>

definition tightens :: "(session, 'a) st_op \<Rightarrow> bool" where
  "tightens f \<longleftrightarrow> (\<forall>x :: session. session_type x = se_POLICY \<longrightarrow> tightened x (snd (f x)))"

named_theorems tighten_intros

lemma tightens_bind [tighten_intros]:
  assumes "tightens f" and "\<And>v. tightens (k v)" shows "tightens (st_bind f k)"
  unfolding tightens_def
proof (intro allI impI)
  fix x :: session assume x: "session_type x = se_POLICY"
  obtain r y where f: "f x = (r, y)" by (cases "f x")
  have xy: "tightened x y" using assms(1) x f by (metis tightens_def snd_conv)
  then have "session_type y = se_POLICY" using x by (simp add: tightened_def)
  then have "tightened y (snd (k v y))" for v using assms(2) by (simp add: tightens_def)
  with xy show "tightened x (snd (st_bind f k x))"
    by (cases r) (auto simp: st_bind_def f intro: tightened_trans)
qed

lemma tightens_simple [tighten_intros]: "tightens (st_view g)" "tightens (st_lift m)" "tightens (st_return v)"
  "tightens (extend_policy E cc data)" "tightens (restart_digest E)"
  by (auto simp: tightens_def restart_digest_def extend_policy_def set_policy_digest_def tightened_def no_looser_def split: sum.split)

lemma tightens_update [tighten_intros]: "tightens (policy_authorization_update E cc name ref)"
  unfolding policy_authorization_update_def
  by (intro tighten_intros) (auto simp: tightens_def set_policy_digest_def tightened_def no_looser_def split: sum.split)

text \<open>A check on the session, the move of the digest, and a note that the check allows.\<close>

lemma tightens_checked:
  assumes "\<And>x v d. session_type x = se_POLICY \<Longrightarrow> check x = Inr v \<Longrightarrow> no_looser (policy x) (f v ((policy x)\<lparr>pol_digest := d\<rparr>))"
  shows "tightens (st_bind (st_view check) (\<lambda>v. st_bind (extend_policy E cc (data v)) (\<lambda>_. note_policy (f v))))"
  unfolding tightens_def
proof (intro allI impI)
  fix x :: session assume x: "session_type x = se_POLICY"
  have "tightened x (snd (extend_policy E cc d x))" for d
    using tightens_simple(4) x by (simp add: tightens_def)
  then show "tightened x (snd (st_bind (st_view check) (\<lambda>v. st_bind (extend_policy E cc (data v)) (\<lambda>_. note_policy (f v))) x))"
    using assms [OF x] by (cases "check x") (auto simp: st_bind_def extend_policy_def note_policy_def tightened_def split: sum.split)
qed

lemma tightens_note: "(\<And>p. no_looser p (f p)) \<Longrightarrow> tightens (note_policy f)"
  by (simp add: tightens_def note_policy_def tightened_def)


section \<open>The operations of the commands\<close>

lemmas looser_defs = no_looser_def keeps_record_def keeps_command_def

lemma tightens_record:
  assumes "\<And>p. no_looser p (f p)" shows "tightens (record_authorization E cc cp name ref f)"
proof -
  have cp: "tightens (st_bind (st_view (check_cp_hash E cp)) (\<lambda>_.
      st_bind (policy_authorization_update E cc name ref) (\<lambda>_. st_bind (note_policy (set_cp_hash cp)) (\<lambda>_. note_policy f))))"
    unfolding tightens_def
  proof (intro allI impI)
    fix x :: session assume x: "session_type x = se_POLICY"
    obtain r y where y: "policy_authorization_update E cc name ref x = (r, y)"
      by (cases "policy_authorization_update E cc name ref x")
    have xy: "tightened x y" using tightens_update x y by (metis tightens_def snd_conv)
    have same: "pol_cp_hash (policy y) = pol_cp_hash (policy x)"
      using y by (auto simp: policy_authorization_update_def st_bind_def extend_policy_def set_policy_digest_def split: sum.splits)
    have "no_looser (policy y) (set_cp_hash cp (policy y))" if "check_cp_hash E cp x = Inr ()"
      using that same x by (auto simp: check_cp_hash_def set_cp_hash_def looser_defs is_trial_def split: option.splits if_splits)
    then have z: "tightened x (y\<lparr>policy := set_cp_hash cp (policy y)\<rparr>)" if "check_cp_hash E cp x = Inr ()"
      using that xy by (intro tightened_trans [OF xy]) (simp add: tightened_def)
    then have "tightened x (y\<lparr>policy := f (set_cp_hash cp (policy y))\<rparr>)" if "check_cp_hash E cp x = Inr ()"
      using assms [of "set_cp_hash cp (policy y)"] that by (intro tightened_trans [OF z [OF that]]) (simp add: tightened_def)
    then show "tightened x (snd (st_bind (st_view (check_cp_hash E cp)) (\<lambda>_.
        st_bind (policy_authorization_update E cc name ref) (\<lambda>_. st_bind (note_policy (set_cp_hash cp)) (\<lambda>_. note_policy f))) x))"
      using xy by (cases "check_cp_hash E cp x"; cases r) (simp_all add: st_bind_def y note_policy_def)
  qed
  then show ?thesis by (simp add: record_authorization_def)
qed

lemma tightens_expiration: "no_looser p (record_expiration t p)" "no_looser p ((if b then record_expiration t else id) p)"
  by (simp_all add: record_expiration_def looser_defs keeps_limit_def split: option.split)

lemma tightens_pcr: "tightens (note_pcr_counter n)"
  by (auto simp: tightens_def note_pcr_counter_def tightened_def looser_defs is_trial_def split: option.splits)

lemma tightens_exclusive:
  assumes "\<And>x d. session_type x = se_POLICY \<Longrightarrow> check x = Inr () \<Longrightarrow> no_looser (policy x) (f dg ((policy x)\<lparr>pol_digest := d\<rparr>))"
  shows "tightens (st_bind (st_view (check_digest_size E dg 1)) (\<lambda>_. st_bind (st_view check) (\<lambda>_.
      st_bind (extend_policy E cc dg) (\<lambda>_. note_policy (f dg)))))"
proof (rule tightens_bind [OF tightens_simple(1)])
  show "tightens (st_bind (st_view check) (\<lambda>_. st_bind (extend_policy E cc dg) (\<lambda>_. note_policy (f dg))))"
    using assms by (intro tightens_checked) simp
qed

section \<open>The commands\<close>

definition never_loosens :: "u32 \<Rightarrow> (tpm_state, 'a) st_op \<Rightarrow> bool" where
  "never_loosens h f \<longleftrightarrow> (\<forall>s x. bt_get (sessions (session_slots s)) h = Some x \<longrightarrow> session_type x = se_POLICY \<longrightarrow>
     (\<exists>x'. bt_get (sessions (session_slots (snd (f s)))) h = Some x' \<and> tightened x x'))"

named_theorems loosen_intros

lemma loosens_bind [loosen_intros]:
  assumes "never_loosens h f" and "\<And>v. never_loosens h (k v)" shows "never_loosens h (st_bind f k)"
  unfolding never_loosens_def
proof (intro allI impI)
  fix s :: tpm_state and x assume x: "bt_get (sessions (session_slots s)) h = Some x" "session_type x = se_POLICY"
  obtain r t where f: "f s = (r, t)" by (cases "f s")
  obtain y where y: "bt_get (sessions (session_slots t)) h = Some y" "tightened x y"
    using assms(1) x f unfolding never_loosens_def by (metis snd_conv)
  then have "session_type y = se_POLICY" using x by (simp add: tightened_def)
  then have step: "\<exists>z. bt_get (sessions (session_slots (snd (k v t)))) h = Some z \<and> tightened y z" for v
    using assms(2) [of v] y(1) by (simp add: never_loosens_def)
  show "\<exists>x'. bt_get (sessions (session_slots (snd (st_bind f k s)))) h = Some x' \<and> tightened x x'"
  proof (cases r)
    case (Inr v)
    then show ?thesis using step [of v] y(2) by (auto simp: st_bind_def f intro: tightened_trans)
  qed (use y in \<open>simp add: st_bind_def f\<close>)
qed

lemma loosens_simple [loosen_intros]: "never_loosens h (st_view g)" "never_loosens h (st_lift m)" "never_loosens h (st_check b e)"
  by (simp_all add: never_loosens_def st_check_def)

lemma loosens_policy [loosen_intros]: "tightens f \<Longrightarrow> never_loosens h (on_policy h' f)"
  by (auto simp: never_loosens_def on_policy_def on_session_def tightens_def slots_get_def split: sum.split prod.split option.split)

lemma loosens_assertion [loosen_intros]: "tightens f \<Longrightarrow> never_loosens h (assertion f h' q)"
  unfolding assertion_def by (intro loosen_intros)

lemma loosens_area [loosen_intros]: "(\<And>h'. never_loosens h (k h' q)) \<Longrightarrow> never_loosens h (with_handle_area i k q)"
  unfolding with_handle_area_def by (intro loosen_intros)

lemma loosens_reading [loosen_intros]: "(\<And>v. never_loosens h (k v q)) \<Longrightarrow> never_loosens h (reading get k q)"
  by (auto simp: never_loosens_def reading_def split: sum.split)


lemmas check_defs = looser_defs is_trial_def shared_cp_hash_taken_def check_shared_slot_def

text \<open>The commands that may follow: all but \<open>TPM2_PolicyRestart\<close>, with \<open>TPM2_PolicyPCR\<close>.\<close>

definition asserting_commands :: "env \<Rightarrow> bn_lib \<Rightarrow> ec_lib \<Rightarrow> command list" where
  "asserting_commands E B L =
     [policy_signed E B L, policy_secret E, policy_ticket E, policy_or E, policy_pcr E, policy_locality E, policy_command_code E,
      policy_physical_presence E, policy_auth_value E, policy_password E, policy_nv_written E, policy_cp_hash E, policy_name_hash E,
      policy_parameters E, policy_template E, policy_duplication_select E, policy_ac_send_select E, policy_counter_timer E,
      policy_nv E, policy_authorize_nv E, policy_authorize E, policy_transport_spdm E, policy_get_digest]"

lemma loosens_authorizations: "never_loosens h (policy_signed E B L q)" "never_loosens h (policy_secret E q)" "never_loosens h (policy_ticket E q)"
  unfolding policy_signed_def policy_secret_def policy_ticket_def case_prod_unfold Let_def
  by (intro loosen_intros tightens_record tightens_expiration)+

lemma loosens_plain:
  "never_loosens h (policy_physical_presence E q)" "never_loosens h (policy_auth_value E q)" "never_loosens h (policy_password E q)"
  unfolding policy_physical_presence_def policy_auth_value_def policy_password_def plain_assertion_def
  by (intro loosen_intros tighten_intros tightens_note; simp add: looser_defs)+

lemma tightens_zero: "tightens (\<lambda>x. case hash_size E (auth_hash x) of Inl e \<Rightarrow> (Inl e, x) | Inr n \<Rightarrow> (Inr (), set_policy_digest (replicate n 0) x))"
  using tightens_simple(5) [of E] by (simp add: restart_digest_def [abs_def])

lemma loosens_digests: "never_loosens h (policy_or E q)" "never_loosens h (policy_pcr E q)" "never_loosens h (policy_counter_timer E q)"
  "never_loosens h (policy_nv E q)" "never_loosens h (policy_authorize_nv E q)" "never_loosens h (policy_authorize E q)" "never_loosens h (policy_get_digest q)"
  unfolding policy_or_def policy_pcr_def policy_counter_timer_def policy_nv_def policy_authorize_nv_def policy_authorize_def
    policy_get_digest_def extend_with_operands_def case_prod_unfold Let_def
  by (intro loosen_intros tighten_intros tightens_zero tightens_pcr)+

lemma keeps_narrowed: "session_type x = se_POLICY \<Longrightarrow> narrowed m x = Inr n \<Longrightarrow> keeps_mask (pol_locality (policy x)) (Some n)"
  by (auto simp: narrowed_def keeps_mask_def is_trial_def and.commute and.left_commute split: option.splits if_splits)

lemma loosens_notes: "never_loosens h (policy_locality E q)" "never_loosens h (policy_command_code E q)" "never_loosens h (policy_nv_written E q)"
  unfolding policy_locality_def policy_command_code_def policy_nv_written_def
  by (intro loosen_intros tightens_checked; auto simp: looser_defs is_trial_def keeps_narrowed split: option.splits if_splits)+

lemma loosens_exclusives: "never_loosens h (policy_cp_hash E q)" "never_loosens h (policy_name_hash E q)" "never_loosens h (policy_parameters E q)"
  "never_loosens h (policy_template E q)"
  unfolding policy_cp_hash_def policy_name_hash_def policy_parameters_def policy_template_def exclusive_assertion_def
  by (intro loosen_intros tightens_exclusive; auto simp: check_defs split: option.splits if_splits)+

lemma tightens_names:
  assumes "c \<in> {cc_Duplicate, cc_AC_Send}"
  shows "tightens (st_bind (st_view (\<lambda>z. digest_parts E (auth_hash z) ps)) (\<lambda>d. st_bind (st_view check_shared_slot) (\<lambda>_.
      st_bind (extend_policy E cc data) (\<lambda>_. note_names c d))))"
  "tightens (st_bind (st_view check_shared_slot) (\<lambda>_. st_bind (extend_policy E cc data) (\<lambda>_.
      st_bind (st_view (\<lambda>z. digest E (auth_hash z) b)) (\<lambda>d. note_names c d))))"
proof -
  show "tightens (st_bind (st_view (\<lambda>z. digest_parts E (auth_hash z) ps)) (\<lambda>d. st_bind (st_view check_shared_slot) (\<lambda>_.
      st_bind (extend_policy E cc data) (\<lambda>_. note_names c d))))"
    unfolding note_names_def
    using assms by (intro tightens_bind [OF tightens_simple(1)] tightens_checked) (auto simp: check_defs split: if_splits)
  show "tightens (st_bind (st_view check_shared_slot) (\<lambda>_. st_bind (extend_policy E cc data) (\<lambda>_.
      st_bind (st_view (\<lambda>z. digest E (auth_hash z) b)) (\<lambda>d. note_names c d))))"
    using assms by (auto simp: tightens_def st_bind_def extend_policy_def note_names_def note_policy_def tightened_def check_defs keeps_limit_def
        split: sum.split prod.split if_splits option.split)
qed

lemma loosens_names: "never_loosens h (policy_duplication_select E q)" "never_loosens h (policy_ac_send_select E q)"
  unfolding policy_duplication_select_def policy_ac_send_select_def case_prod_unfold
  by (intro loosen_intros tightens_names; simp)+

lemma loosens_channel: "never_loosens h (policy_transport_spdm E q)"
proof -
  have "tightens (st_bind (st_view (\<lambda>x. if channel_required (policy x) \<and> \<not> is_trial x then Inl rc_VALUE else Inr ())) (\<lambda>_.
      st_bind (st_view (channel_hash E a b)) (\<lambda>kh. st_bind (extend_policy E cc (case kh of Some d \<Rightarrow> d | None \<Rightarrow> [])) (\<lambda>_.
        note_policy (\<lambda>p. p\<lparr>channel_required := True, channel_key_hash := kh\<rparr>)))))" for a b cc
    by (auto simp: tightens_def st_bind_def extend_policy_def note_policy_def tightened_def looser_defs is_trial_def split: sum.split prod.split)
  then show ?thesis
    unfolding policy_transport_spdm_def case_prod_unfold by (intro loosen_intros)
qed

lemma asserting_never_loosens: "c \<in> set (asserting_commands E B L) \<Longrightarrow> never_loosens h (c q)"
  by (auto simp: asserting_commands_def loosens_authorizations loosens_plain loosens_digests loosens_notes loosens_exclusives
      loosens_names loosens_channel)

definition policy_step :: "command \<times> request \<Rightarrow> tpm_state \<Rightarrow> tpm_state" where
  "policy_step = (\<lambda>(c, q) s. snd (c q s))"

text \<open>C11: what a policy session records is not given up. Whatever policy commands follow, on this session or others, with
  success or not, short of a restart: the command, name, template and parameter hashes, the written state and the PCR
  counter it recorded stay as they are; the required presence stays required, and the required channel with its key;
  the localities are narrowed to some of those left, never to none; where the authorization value had to be shown, by
  HMAC or as a password, it still has, as the last assertion of the two says; the expiry only comes nearer; and the
  command code stays, with the one exception that the first assertion to record a name hash may put its own in its
  place (\<open>TPM2_PolicyDuplicationSelect\<close> and \<open>TPM2_Policy_AC_SendSelect\<close>).\<close>

theorem policy_records_are_kept:
  assumes "bt_get (sessions (session_slots s)) h = Some x" and "session_type x = se_POLICY"
    and "fst ` set run \<subseteq> set (asserting_commands E B L)"
  shows "\<exists>x'. bt_get (sessions (session_slots (run_steps policy_step run s))) h = Some x' \<and> session_type x' = se_POLICY
    \<and> no_looser (policy x) (policy x')"
  using assms
proof (induction run arbitrary: s x)
  case (Cons a run)
  obtain c q where a: "a = (c, q)" by (cases a)
  then have "never_loosens h (c q)" using Cons.prems(3) by (auto intro: asserting_never_loosens)
  then obtain y where y: "bt_get (sessions (session_slots (policy_step a s))) h = Some y" "tightened x y"
    using Cons.prems(1,2) by (auto simp: never_loosens_def policy_step_def a)
  have "session_type y = se_POLICY" using y(2) Cons.prems(2) by (simp add: tightened_def)
  moreover have "fst ` set run \<subseteq> set (asserting_commands E B L)" using Cons.prems(3) by auto
  ultimately obtain z where z: "bt_get (sessions (session_slots (run_steps policy_step run (policy_step a s)))) h = Some z"
      "session_type z = se_POLICY" "no_looser (policy y) (policy z)"
    using Cons.IH [OF y(1)] by blast
  have "tightened x z"
    by (rule tightened_trans [OF y(2)]) (simp add: tightened_def z \<open>session_type y = se_POLICY\<close>)
  then show ?case using z(1,2) by (auto simp: tightened_def)
qed simp

abbreviation (input) recorded :: policy_state where
  "recorded \<equiv> policy_default\<lparr>pp_required := True, auth_value_needed := True, pol_locality := Some 3, pol_command_code := Some cc_Clear\<rparr>"

theorem policy_records_are_kept_witness:
  "\<exists>x'. bt_get (sessions (session_slots (run_steps policy_step [(policy_password (demo_env True), trial_request), (policy_get_digest, trial_request)]
       (with_demo_session 0x03000000 (demo_policy\<lparr>policy := recorded\<rparr>))))) 0x03000000 = Some x'
     \<and> pp_required (policy x') \<and> (auth_value_needed (policy x') \<or> password_needed (policy x')) \<and> keeps_mask (Some 3) (pol_locality (policy x'))
     \<and> (pol_name_hash (policy x') = None \<longrightarrow> pol_command_code (policy x') = Some cc_Clear)"
proof -
  let ?run = "[(policy_password (demo_env True), trial_request), (policy_get_digest, trial_request)]"
  let ?x = "demo_policy\<lparr>policy := recorded\<rparr>"
  have "bt_get (sessions (session_slots (with_demo_session 0x03000000 ?x))) 0x03000000 = Some ?x" "session_type ?x = se_POLICY"
    by (simp_all add: with_demo_session_def demo_policy_def)
  then obtain x' where x': "bt_get (sessions (session_slots (run_steps policy_step ?run (with_demo_session 0x03000000 ?x)))) 0x03000000 = Some x'"
      and "no_looser (policy ?x) (policy x')"
    using policy_records_are_kept [of "with_demo_session 0x03000000 ?x" "0x03000000" ?x ?run "demo_env True" demo_bn demo_ec]
    by (auto simp: asserting_commands_def)
  then have kept: "no_looser recorded (policy x')" by simp
  have stays: "pp_required (policy x')" "auth_value_needed (policy x') \<or> password_needed (policy x')" "keeps_mask (Some 3) (pol_locality (policy x'))"
    using kept unfolding no_looser_def by simp_all
  have "keeps_command recorded (policy x')" using kept unfolding no_looser_def by blast
  then have "pol_name_hash (policy x') = None \<longrightarrow> pol_command_code (policy x') = Some cc_Clear"
    by (auto simp: keeps_command_def keeps_record_def)
  with x' stays show ?thesis by (intro exI conjI) assumption+
qed

section \<open>What is given up\<close>

text \<open>A policy that asks for an extended locality, of which there are those with a bit of the low five set, is let through
  at the locality of that bit.\<close>

lemma extended_locality_is_a_mask:
  assumes "(m :: u8) AND 0xE0 \<noteq> 0" and "l < 5" and "bit m (unat (l :: u8))"
    and "policy x = policy_default\<lparr>pol_digest := d, pol_locality := Some m\<rparr>" and "rq_locality q = l"
  shows "narrowed m (x\<lparr>policy := policy_default\<rparr>) = Inr m \<and> policy_assertions E s q i cp x = Inr ()"
proof -
  have "m \<noteq> 0" using assms(1) by auto
  moreover have "m AND locality_bit l \<noteq> 0"
    using assms(2,3) bit_iff_and_push_bit_not_eq_0 [of m "unat l"] by (simp add: locality_bit_def)
  ultimately show ?thesis
    using assms(4,5) by (simp add: narrowed_def policy_assertions_def policy_default_def deny_def Let_def)
qed

text \<open>The command an earlier assertion asked for is replaced.\<close>

lemma duplication_select_replaces_command:
  assumes "\<not> shared_cp_hash_taken x" and "is_supported E (auth_hash x)"
  shows "\<exists>x'. st_bind (st_view (\<lambda>z. digest_parts E (auth_hash z) ps)) (\<lambda>d. st_bind (st_view check_shared_slot) (\<lambda>_.
        st_bind (extend_policy E cc_PolicyDuplicationSelect data) (\<lambda>_. note_names cc_Duplicate d))) (x :: session) = (Inr (), x')
    \<and> pol_command_code (policy x') = Some cc_Duplicate"
  using assms
  by (simp add: st_bind_def digest_parts_concat digest_supported check_shared_slot_def extend_policy_def note_names_def note_policy_def)

end
