(* ===== verification/PcrCommands.thy ===== *)
theory PcrCommands
  imports Frame
begin

text \<open>
  The PCR commands (\<open>src/tpm/commands/pcr.rs\<close>) over the banks of \<open>Pcr\<close>: measuring, reading, resetting, and the
  allocation of banks, which takes effect at the next \<open>_TPM_Init\<close>.
\<close>

abbreviation (input) rc_PCR :: u32 where "rc_PCR \<equiv> 0x127"

definition DRTM_PCR :: nat where "DRTM_PCR = 17"

definition BANKS_LEGACY :: "u16 list" where
  "BANKS_LEGACY = [alg_SHA1, alg_SHA256, alg_SHA384, alg_SHA512, alg_SHA3_256, alg_SHA3_384, alg_SHA3_512]"

definition BANKS_STRICT :: "u16 list" where
  "BANKS_STRICT = [alg_SHA256, alg_SHA384, alg_SHA512, alg_SHA3_256, alg_SHA3_384, alg_SHA3_512]"

definition implemented_pcr_banks :: "env \<Rightarrow> u16 list" where
  "implemented_pcr_banks E = (if strict E then BANKS_STRICT else BANKS_LEGACY)"

definition pcr_index :: "u32 \<Rightarrow> nat tpm_result" where
  "pcr_index h = (if \<not> (hc_PCR_FIRST \<le> h \<and> h \<le> hc_PCR_LAST) then Inl rc_VALUE else Inr (unat (h - hc_PCR_FIRST)))"

definition on_pcrs :: "(pcr_banks, 'a) st_op \<Rightarrow> (tpm_state, 'a) st_op" where
  "on_pcrs f s = (case f (pcrs s) of (r, p) \<Rightarrow> (r, s\<lparr>pcrs := p\<rparr>))"

section \<open>Measuring\<close>

fun digest_pairs :: "tpmt_ha list \<Rightarrow> (u16 \<times> bytes) list tpm_result" where
  "digest_pairs [] = Inr []"
| "digest_pairs (d # ds) =
     (if ha_alg d = alg_NULL then Inl (with_parameter 1 rc_HASH)
      else res_bind (digest_pairs ds) (\<lambda>ps. Inr ((ha_alg d, ha_digest d) # ps)))"

definition pcr_extend_command :: "env \<Rightarrow> command" where
  "pcr_extend_command E = with_handle_area 0 (\<lambda>h q.
     st_bind (st_lift (map_err (with_handle 1) (pcr_index h))) (\<lambda>index.
       reading (param 1 (digest_values_get E)) (\<lambda>digests q.
         st_bind (st_lift (digest_pairs digests)) (\<lambda>pairs.
         st_bind (on_pcrs (\<lambda>p. case pcr_extend E index (rq_locality q) pairs p of
             (r, p) \<Rightarrow> (map_err (\<lambda>e. if e = rc_LOCALITY then e else with_parameter 1 e) r, p))) (\<lambda>_.
           st_lift (respond_empty q)))) q))"

fun new_digests :: "env \<Rightarrow> (u16 \<times> bytes) list \<Rightarrow> tpmt_ha list tpm_result" where
  "new_digests E [] = Inr []"
| "new_digests E ((a, d) # ds) =
     res_bind (tpmt_ha_new E a d) (\<lambda>x. res_bind (new_digests E ds) (\<lambda>xs. Inr (x # xs)))"

definition MAX_EVENT_SIZE :: nat where "MAX_EVENT_SIZE = 1024"

definition pcr_event_command :: "env \<Rightarrow> command" where
  "pcr_event_command E = with_handle_area 0 (\<lambda>h. reading (param 1 (tpm2b_get MAX_EVENT_SIZE)) (\<lambda>event q.
     st_bind (if h = rh_NULL then st_view (\<lambda>s. event_digests E event (algorithms (pcrs s)))
              else st_bind (st_lift (map_err (with_handle 1) (pcr_index h))) (\<lambda>index.
                     on_pcrs (pcr_event E index (rq_locality q) event))) (\<lambda>digests.
       st_lift (respond_try q (\<lambda>w.
         res_bind (new_digests E digests) (\<lambda>items.
         res_bind (tpml_new HASH_COUNT items) (\<lambda>items. Inr (digest_values_put items w))))))))"

definition pcr_reset_command :: "env \<Rightarrow> command" where
  "pcr_reset_command E = with_handle_area 0 (\<lambda>h q.
     st_bind (st_lift (map_err (with_handle 1) (pcr_index h))) (\<lambda>index.
     st_bind (on_pcrs (pcr_reset E index (rq_locality q))) (\<lambda>_.
       st_lift (unread (respond_empty q)))))"

section \<open>Reading\<close>

text \<open>What does not fit the answer is deselected from the end; the first component is how many may stay.\<close>

fun trim_bits :: "nat list \<Rightarrow> nat \<times> pcr_select \<Rightarrow> nat \<times> pcr_select" where
  "trim_bits [] z = z"
| "trim_bits (index # is) (room, bits) =
     trim_bits is (if room = 0 then (0, deselect index bits) else (room - 1, bits))"

fun trim_selection :: "nat \<Rightarrow> pcr_selection list \<Rightarrow> pcr_selection list" where
  "trim_selection room [] = []"
| "trim_selection room (sel # sels) =
     (case trim_bits (selected (sel_bits sel)) (room, sel_bits sel) of
        (room, bits) \<Rightarrow> sel\<lparr>sel_bits := bits\<rparr> # trim_selection room sels)"

definition MAX_DIGEST_LIST :: nat where "MAX_DIGEST_LIST = 8"

fun new_buffers :: "nat \<Rightarrow> bytes list \<Rightarrow> bytes list tpm_result" where
  "new_buffers limit [] = Inr []"
| "new_buffers limit (b # bs) = res_bind (tpm2b_new limit b) (\<lambda>b. res_bind (new_buffers limit bs) (\<lambda>bs. Inr (b # bs)))"

definition read_selected :: "pcr_selection list \<Rightarrow> pcr_banks \<Rightarrow> pcr_selection list \<times> bytes list" where
  "read_selected requested p =
     (let filtered = filter_selection requested p;
          chosen = (if MAX_DIGEST_LIST < length (read_selection filtered p) then trim_selection MAX_DIGEST_LIST filtered
                    else filtered)
      in (chosen, read_selection chosen p))"

definition pcr_read_command :: "env \<Rightarrow> command" where
  "pcr_read_command E = reading (param 1 (pcr_selections_get E)) (\<lambda>requested q s.
     (case read_selected requested (pcrs s) of
        (chosen, values) \<Rightarrow> (respond_try q (\<lambda>w.
          res_bind (new_buffers MAX_DIGEST_SIZE values) (\<lambda>digests.
            Inr (marshal_list tpm2b_put digests (pcr_selections_put chosen (w_u32 (update_counter (pcrs s)) w))))), s)))"

section \<open>Allocating\<close>

definition allocation_bits :: "pcr_select \<Rightarrow> bool list tpm_result" where
  "allocation_bits bits =
     (if list_ex (\<lambda>i. IMPLEMENTATION_PCR \<le> i) (selected bits) then Inl (with_parameter 1 rc_VALUE)
      else Inr (map (\<lambda>i. i \<in> set (selected bits)) [0..<IMPLEMENTATION_PCR]))"

fun apply_selections :: "env \<Rightarrow> pcr_selection list \<Rightarrow> (u16 \<times> bool list) list \<Rightarrow> (u16 \<times> bool list) list tpm_result" where
  "apply_selections E [] al = Inr al"
| "apply_selections E (sel # sels) al =
     (if sel_alg sel \<notin> set (implemented_pcr_banks E) then Inl (with_parameter 1 rc_HASH)
      else res_bind (allocation_bits (sel_bits sel)) (\<lambda>bits.
        apply_selections E sels (filter (\<lambda>(a, _). a \<noteq> sel_alg sel) al
          @ (if list_ex (\<lambda>b. b) bits then [(sel_alg sel, bits)] else []))))"

definition allocated_anywhere :: "(u16 \<times> bool list) list \<Rightarrow> nat \<Rightarrow> bool" where
  "allocated_anywhere al n = list_ex (\<lambda>(_, bits). n < length bits \<and> bits ! n) al"

definition check_allocation :: "(u16 \<times> bool list) list \<Rightarrow> unit tpm_result" where
  "check_allocation al =
     (if al = [] then Inl (with_parameter 1 rc_VALUE)
      else if \<not> allocated_anywhere al DRTM_PCR \<or> \<not> allocated_anywhere al HCRTM_PCR then Inl (with_parameter 1 rc_PCR)
      else if HASH_COUNT < length al then Inl (with_parameter 1 rc_SIZE) else Inr ())"

text \<open>The sizes answered are 32 bits wide; the octets left in NV wrap around when the indices need more than there are.\<close>

definition pcr_allocate :: "env \<Rightarrow> command" where
  "pcr_allocate E = reading (param 1 (pcr_selections_get E)) (\<lambda>requested q.
     st_bind (st_view (\<lambda>s. apply_selections E requested (pcr_allocation s))) (\<lambda>al.
     st_bind (st_lift (check_allocation al)) (\<lambda>_.
     st_bind (st_modify (\<lambda>s. s\<lparr>pcr_allocation := al, pcr_allocation_pending := True\<rparr>)) (\<lambda>_ s.
       (respond q (\<lambda>w. w_u32 (of_nat NV_MEMORY_SIZE - of_nat (store_used (nv s)))
          (w_u32 (of_nat (length al) * of_nat IMPLEMENTATION_PCR) (w_u32 (of_nat IMPLEMENTATION_PCR) (w_u8 1 w)))), s)))))"

text \<open>No PCR belongs to a set with an authorization or a policy of its own.\<close>

definition pcr_set_auth_policy :: command where
  "pcr_set_auth_policy = reading (both (param 1 (tpm2b_get MAX_DIGEST_SIZE)) (both (param 2 r_u16) (param 3 r_u32)))
     (\<lambda>_ q. st_fail (with_parameter 3 rc_VALUE))"

definition pcr_set_auth_value :: command where
  "pcr_set_auth_value = reading (param 1 (tpm2b_get MAX_DIGEST_SIZE)) (\<lambda>_ q. st_fail (with_handle 1 rc_VALUE))"

section \<open>What is read\<close>

definition registers :: "pcr_selection list \<Rightarrow> (u16 \<times> nat) list" where
  "registers sels = concat (map (\<lambda>sel. map (Pair (sel_alg sel)) (selected (sel_bits sel))) sels)"

lemma registers_simps [simp]:
  "registers [] = []" "registers (sel # sels) = map (Pair (sel_alg sel)) (selected (sel_bits sel)) @ registers sels"
  by (simp_all add: registers_def)

lemma trim_bits_effect:
  "fst (trim_bits is (n, bits)) = n - length is
   \<and> (\<forall>j. is_selected j (snd (trim_bits is (n, bits))) \<longleftrightarrow> is_selected j bits \<and> j \<notin> set (drop n is))"
proof (induction "is" arbitrary: n bits)
  case (Cons i "is")
  then show ?case by (cases n) auto
qed simp

lemma selected_eqI:
  assumes "sorted_wrt (<) xs" and "\<And>j. is_selected j bits \<longleftrightarrow> j \<in> set xs"
  shows "selected bits = xs"
  by (rule strict_sorted_equal [OF assms(1) sorted_selected]) (simp add: set_eq_iff assms(2))

lemma selected_trimmed: "selected (snd (trim_bits (selected bits) (n, bits))) = take n (selected bits)"
proof (rule selected_eqI)
  have sorted: "sorted_wrt (<) (take n (selected bits) @ drop n (selected bits))" by (simp add: sorted_selected)
  then show "sorted_wrt (<) (take n (selected bits))" unfolding sorted_wrt_append by simp
  fix j
  have "j \<in> set (selected bits) \<longleftrightarrow> j \<in> set (take n (selected bits)) \<or> j \<in> set (drop n (selected bits))"
    by (metis Un_iff append_take_drop_id set_append)
  moreover have "\<not> (j \<in> set (take n (selected bits)) \<and> j \<in> set (drop n (selected bits)))"
    using sorted unfolding sorted_wrt_append by fastforce
  ultimately show "is_selected j (snd (trim_bits (selected bits) (n, bits))) \<longleftrightarrow> j \<in> set (take n (selected bits))"
    by (auto simp: trim_bits_effect)
qed

lemma registers_trimmed: "registers (trim_selection n sels) = take n (registers sels)"
proof (induction sels arbitrary: n)
  case (Cons sel sels)
  obtain m bits where z: "trim_bits (selected (sel_bits sel)) (n, sel_bits sel) = (m, bits)" by fastforce
  have "m = n - length (selected (sel_bits sel))" "selected bits = take n (selected (sel_bits sel))"
    using trim_bits_effect [of "selected (sel_bits sel)" n "sel_bits sel"] selected_trimmed [of "sel_bits sel" n] by (simp_all add: z)
  then show ?case by (simp add: z Cons.IH take_map)
qed simp

definition present :: "pcr_banks \<Rightarrow> u16 \<times> nat \<Rightarrow> bool" where
  "present p = (\<lambda>(a, i). has_pcr a i p)"

lemma registers_filtered:
  assumes "pcr_wf E p"
  shows "registers (filter_selection sels p) = filter (present p) (registers sels)"
proof (induction sels)
  case (Cons sel sels)
  have "sorted_wrt (<) (filter (\<lambda>i. has_pcr (sel_alg sel) i p) (selected (sel_bits sel)))"
    by (intro sorted_wrt_filter sorted_selected)
  moreover have "has_bank (sel_alg sel) p \<and> i < IMPLEMENTATION_PCR" if "has_pcr (sel_alg sel) i p" for i
    by (rule has_pcr_bank [OF assms that]) (simp add: has_bank_def bt_contains_def)
  ultimately have "selected (sel_bits (filter_item p sel)) = filter (\<lambda>i. has_pcr (sel_alg sel) i p) (selected (sel_bits sel))"
    using filter_item_exact [of p sel] by (intro selected_eqI) (auto simp: filtered_item_def)
  then show ?case
    using Cons.IH filter_item_exact [of p sel]
    by (simp add: filter_selection_def filtered_item_def present_def filter_map comp_def)
qed (simp add: filter_selection_def)

lemma read_selection_registers:
  assumes "pcr_wf E p" and "list_all (present p) (registers sels)"
  shows "map Some (read_selection sels p) = map (\<lambda>(a, i). reg p a i) (registers sels)"
  using assms(2)
proof (induction sels)
  case (Cons sel sels)
  have here: "has_pcr (sel_alg sel) i p" if "i \<in> set (selected (sel_bits sel))" for i
    using Cons.prems that by (auto simp: list_all_iff present_def)
  show ?case
  proof (cases "selected (sel_bits sel) = []")
    case True
    with Cons show ?thesis by (simp add: read_selection_def split: option.split)
  next
    case False
    then obtain i where i: "i \<in> set (selected (sel_bits sel))" by (meson last_in_set)
    obtain bank where bank: "bt_get (banks p) (sel_alg sel) = Some bank" "length bank = IMPLEMENTATION_PCR"
      by (rule has_pcr_bank [OF assms(1) here [OF i]]) (auto simp: bank_wf_def)
    have "i < IMPLEMENTATION_PCR" if "i \<in> set (selected (sel_bits sel))" for i
      by (rule has_pcr_bank [OF assms(1) here [OF that]])
    then have "filter (\<lambda>i. i < IMPLEMENTATION_PCR) (selected (sel_bits sel)) = selected (sel_bits sel)"
      and "map (\<lambda>i. reg p (sel_alg sel) i) (selected (sel_bits sel)) = map (\<lambda>i. Some (bank ! i)) (selected (sel_bits sel))"
      by (auto simp: bank reg_def)
    with Cons bank show ?thesis by (simp add: read_selection_def comp_def)
  qed
qed (simp add: read_selection_def)

text \<open>C23: TPM2_PCR_Read answers the first eight of the requested registers that are allocated, in the order of the
  request, each with its value; the selection it answers names just these.\<close>

theorem pcr_read_exact:
  assumes "pcr_wf E p" and "read_selected requested p = (chosen, values)"
  shows "registers chosen = take MAX_DIGEST_LIST (filter (\<lambda>(a, i). has_pcr a i p) (registers requested))
    \<and> map Some values = map (\<lambda>(a, i). reg p a i) (registers chosen)"
proof -
  let ?all = "filter_selection requested p"
  have whole: "registers ?all = filter (present p) (registers requested)" by (rule registers_filtered [OF assms(1)])
  then have "list_all (present p) (registers ?all)" by (simp add: list_all_iff)
  from arg_cong [OF read_selection_registers [OF assms(1) this], of length]
  have count: "length (read_selection ?all p) = length (registers ?all)" by simp
  then have chosen: "registers chosen = take MAX_DIGEST_LIST (registers ?all)"
    using assms(2) by (auto simp: read_selected_def Let_def registers_trimmed split: if_splits)
  moreover have "list_all (present p) (registers chosen)"
    unfolding chosen whole by (auto simp: list_all_iff dest: in_set_takeD)
  ultimately show ?thesis
    using assms whole read_selection_registers [OF assms(1)] by (auto simp: read_selected_def Let_def present_def)
qed

theorem pcr_read_exact_witness:
  "\<exists>chosen values. read_selected [\<lparr>sel_alg = alg_SHA256, sel_bits = [3, 0, 0]\<rparr>] demo_banks = (chosen, values)
     \<and> registers chosen = take MAX_DIGEST_LIST (filter (\<lambda>(a, i). has_pcr a i demo_banks)
         (registers [\<lparr>sel_alg = alg_SHA256, sel_bits = [3, 0, 0]\<rparr>]))
     \<and> map Some values = map (\<lambda>(a, i). reg demo_banks a i) (registers chosen)"
  using pcr_read_exact [OF demo_banks_wf [of True], of "[\<lparr>sel_alg = alg_SHA256, sel_bits = [3, 0, 0]\<rparr>]"]
  by (metis surj_pair)

section \<open>What an allocation leads to\<close>

definition allocation_ok :: "env \<Rightarrow> (u16 \<times> bool list) list \<Rightarrow> bool" where
  "allocation_ok E al \<longleftrightarrow> distinct (map fst al)
     \<and> list_all (\<lambda>(a, bits). is_supported E a \<and> length bits = IMPLEMENTATION_PCR \<and> list_ex (\<lambda>b. b) bits) al"

lemma implemented_banks_supported: "a \<in> set (implemented_pcr_banks E) \<Longrightarrow> is_supported E a"
  by (auto simp: implemented_pcr_banks_def BANKS_LEGACY_def BANKS_STRICT_def is_supported_def is_ok_iff hash_algorithm_def split: if_splits)

lemma apply_selections_ok:
  "allocation_ok E al \<Longrightarrow> apply_selections E sels al = Inr al' \<Longrightarrow> allocation_ok E al'"
proof (induction sels arbitrary: al)
  case (Cons sel sels)
  obtain bits where bits: "allocation_bits (sel_bits sel) = Inr bits" and sup: "is_supported E (sel_alg sel)"
    and rest: "apply_selections E sels (filter (\<lambda>(a, _). a \<noteq> sel_alg sel) al
          @ (if list_ex (\<lambda>b. b) bits then [(sel_alg sel, bits)] else [])) = Inr al'"
    using Cons.prems(2) implemented_banks_supported by (auto simp: res_bind_eq_Inr split: if_splits)
  have "length bits = IMPLEMENTATION_PCR" using bits by (auto simp: allocation_bits_def split: if_splits)
  moreover have "map fst (filter (\<lambda>(a, _). a \<noteq> sel_alg sel) al) = filter (\<lambda>a. a \<noteq> sel_alg sel) (map fst al)"
    by (simp add: filter_map case_prod_unfold comp_def)
  ultimately have "allocation_ok E (filter (\<lambda>(a, _). a \<noteq> sel_alg sel) al
      @ (if list_ex (\<lambda>b. b) bits then [(sel_alg sel, bits)] else []))"
    using Cons.prems(1) sup by (auto simp: allocation_ok_def list_all_iff)
  from Cons.IH [OF this rest] show ?case .
qed simp

lemma allocate_loop_allocated:
  "allocation_ok E al \<Longrightarrow> \<exists>bs' fs'. allocate_loop E al bs fs = Inr (bs', fs')
     \<and> (\<forall>a. bt_get fs' a = (case bt_get al a of Some bits \<Rightarrow> Some bits | None \<Rightarrow> bt_get fs a))"
proof (induction al arbitrary: bs fs)
  case (Cons ab al)
  obtain a bits where ab: "ab = (a, bits)" by (cases ab)
  have here: "is_supported E a" "length bits = IMPLEMENTATION_PCR" "list_ex (\<lambda>b. b) bits" "a \<notin> fst ` set al"
    and "allocation_ok E al"
    using Cons.prems by (auto simp: ab allocation_ok_def)
  moreover from here obtain n where "digest_size E a = Some n" using supported_digest_size by blast
  moreover have "bt_get al a = None" using here(4) by (simp add: bt_get_None_iff)
  ultimately show ?case
    using Cons.IH [of "bt_insert a (replicate IMPLEMENTATION_PCR (replicate n 0)) bs" "bt_insert a bits fs"]
    by (fastforce simp: ab Let_def split: option.splits)
qed simp

lemma pcr_allocate_accepts:
  assumes "all_parameters (param 1 (pcr_selections_get E)) q = Inr sels"
    and "apply_selections E sels (pcr_allocation s) = Inr al" and "check_allocation al = Inr ()"
  shows "\<exists>r. pcr_allocate E q s = (Inr r, s\<lparr>pcr_allocation := al, pcr_allocation_pending := True\<rparr>)"
  using assms
  by (simp add: pcr_allocate_def reading_def st_bind_def respond_def respond_try_def w_finish_def w_u32_def w_u8_def writer_new_def)

text \<open>C22: an accepted TPM2_PCR_Allocate can be carried out. Whatever selection it accepts, the next \<open>_TPM_Init\<close>
  succeeds, and after it exactly the registers the allocation names exist, in well-formed banks, PCR 0 and PCR 17
  among them; and the allocation stays fit for the next request.\<close>

theorem allocation_takes_effect:
  assumes "allocation_ok E (pcr_allocation s)" and "pcr_wf E (pcrs s)"
    and "pcr_allocate E q s = (Inr r, s')"
  shows "allocation_ok E (pcr_allocation s') \<and> (\<exists>s''. on_init E s' = (Inr (), s'') \<and> pcr_wf E (pcrs s'')
    \<and> (\<forall>a i. has_pcr a i (pcrs s'') \<longleftrightarrow> (\<exists>bits. (a, bits) \<in> set (pcr_allocation s') \<and> i < IMPLEMENTATION_PCR \<and> bits ! i))
    \<and> (\<forall>i \<in> {HCRTM_PCR, DRTM_PCR}. \<exists>a. has_pcr a i (pcrs s'')))"
proof -
  obtain requested al where al: "apply_selections E requested (pcr_allocation s) = Inr al" "check_allocation al = Inr ()"
    and s': "pcr_allocation s' = al" "pcrs s' = pcrs s"
    using assms(3) by (auto simp: pcr_allocate_def reading_def st_bind_def split: sum.splits prod.splits)
  have ok: "allocation_ok E al" by (rule apply_selections_ok [OF assms(1) al(1)])
  then have lens: "length bits = IMPLEMENTATION_PCR" if "(a, bits) \<in> set al" for a bits
    using that by (auto simp: allocation_ok_def list_all_iff)
  have get: "bt_get al a = Some bits \<longleftrightarrow> (a, bits) \<in> set al" for a bits
    using ok bt_get_SomeD by (fastforce simp: allocation_ok_def bt_get_def)
  obtain bs fs where loop: "allocate_loop E al [] [] = Inr (bs, fs)" "\<forall>a. bt_get fs a = bt_get al a"
  proof -
    obtain bs fs where "allocate_loop E al [] [] = Inr (bs, fs)"
      and "\<forall>a. bt_get fs a = (case bt_get al a of Some bits \<Rightarrow> Some bits | None \<Rightarrow> bt_get [] a)"
      using allocate_loop_allocated [OF ok, of "[]" "[]"] by blast
    moreover have "(case bt_get al a of Some bits \<Rightarrow> Some bits | None \<Rightarrow> bt_get [] a) = bt_get al a" for a
      by (simp split: option.split)
    ultimately show thesis by (intro that) simp_all
  qed
  have sup: "list_all (\<lambda>(a, _). is_supported E a) al" using ok by (auto simp: allocation_ok_def list_all_iff)
  define s'' where "s'' = snd (on_init E s')"
  define p where "p = pcrs s''"
  have p: "on_init E s' = (Inr (), s'')" "pcr_wf E p" "\<forall>a. bt_get (allocated p) a = bt_get al a"
  proof (atomize (full), cases "allocation (pcrs s) = al")
    case True
    then show "on_init E s' = (Inr (), s'') \<and> pcr_wf E p \<and> (\<forall>a. bt_get (allocated p) a = bt_get al a)"
      by (auto simp: p_def s''_def on_init_def s' assms(2) allocation_def)
  next
    case False
    then show "on_init E s' = (Inr (), s'') \<and> pcr_wf E p \<and> (\<forall>a. bt_get (allocated p) a = bt_get al a)"
      using pcr_wf_allocate [OF assms(2) sup] loop
      by (simp add: p_def s''_def on_init_def s' allocate_def reset_all_def reset_all_but_def)
  qed
  have has: "has_pcr a i p \<longleftrightarrow> (\<exists>bits. (a, bits) \<in> set al \<and> i < IMPLEMENTATION_PCR \<and> bits ! i)" for a i
    using p(3) lens by (auto simp: has_pcr_def get [symmetric] split: option.split)
  have "\<exists>a. has_pcr a i p" if "i \<in> {HCRTM_PCR, DRTM_PCR}" for i
    using al(2) that lens unfolding has
    by (fastforce simp: check_allocation_def allocated_anywhere_def list_ex_iff split: if_splits)
  with p has ok show ?thesis unfolding s'(1) p_def by blast
qed

theorem allocation_takes_effect_witness:
  "\<exists>r s' s''. pcr_allocate (demo_env True) ((session_request 0 0)\<lparr>rq_parameters := [0, 0, 0, 0]\<rparr>) demo_tpm = (Inr r, s')
     \<and> on_init (demo_env True) s' = (Inr (), s'') \<and> has_pcr alg_SHA384 DRTM_PCR (pcrs s'')"
proof -
  let ?E = "demo_env True" and ?q = "(session_request 0 0)\<lparr>rq_parameters := [0, 0, 0, 0]\<rparr>"
  have sup: "is_supported ?E alg_SHA256" "is_supported ?E alg_SHA384" by (simp_all add: is_supported_def hash_algorithm_def)
  have "allocation_ok ?E (pcr_allocation demo_tpm)"
    by (simp add: demo_tpm_def whole_banks_def DEFAULT_PCR_BANKS_def allocation_ok_def sup IMPLEMENTATION_PCR_def list_ex_iff)
  moreover have "pcr_wf ?E (pcrs demo_tpm)" by (simp add: demo_tpm_def demo_banks_wf)
  moreover obtain r s' where "pcr_allocate ?E ?q demo_tpm = (Inr r, s')" "(alg_SHA384, replicate IMPLEMENTATION_PCR True) \<in> set (pcr_allocation s')"
  proof -
    have "all_parameters (param 1 (pcr_selections_get ?E)) ?q = Inr []"
      by code_simp
    moreover have "check_allocation (whole_banks DEFAULT_PCR_BANKS) = Inr ()"
      by (simp add: check_allocation_def allocated_anywhere_def whole_banks_def DEFAULT_PCR_BANKS_def IMPLEMENTATION_PCR_def
          DRTM_PCR_def HCRTM_PCR_def HASH_COUNT_def)
    ultimately obtain r where "pcr_allocate ?E ?q demo_tpm = (Inr r, demo_tpm\<lparr>pcr_allocation := whole_banks DEFAULT_PCR_BANKS, pcr_allocation_pending := True\<rparr>)"
      using pcr_allocate_accepts [of ?E ?q "[]" demo_tpm] by (auto simp: demo_tpm_def)
    moreover have "pcr_allocation (demo_tpm\<lparr>pcr_allocation := al, pcr_allocation_pending := True\<rparr>) = al" for al
      by (cases demo_tpm) simp
    ultimately show thesis by (intro that) (assumption, simp only:, simp add: whole_banks_def DEFAULT_PCR_BANKS_def)
  qed
  ultimately show ?thesis
    using allocation_takes_effect [of ?E demo_tpm ?q r s']
    by (force simp: DRTM_PCR_def IMPLEMENTATION_PCR_def)
qed

end
