(* ===== verification/HierarchyCommands.thy ===== *)
theory HierarchyCommands
  imports Frame StateRoundtrip
begin

text \<open>
  The commands on hierarchies, dictionary attack protection and physical presence (\<open>src/tpm/commands/hierarchy.rs\<close>).
  What a command draws from the generator before it fails stays drawn, as in the code.
\<close>

definition yes_no :: "u8 \<Rightarrow> bool tpm_result" where
  "yes_no v = (if v = 0 then Inr False else if v = 1 then Inr True else Inl rc_VALUE)"

definition r_yes_no :: "reader \<Rightarrow> (bool \<times> reader) tpm_result" where
  "r_yes_no r = res_bind (r_u8 r) (\<lambda>(v, r). res_bind (yes_no v) (\<lambda>b. Inr (b, r)))"

definition set_enabled :: "u32 \<Rightarrow> bool \<Rightarrow> tpm_state \<Rightarrow> tpm_state" where
  "set_enabled h on s =
     s\<lparr>hierarchies := snd (hierarchy_modify h (\<lambda>x. x\<lparr>h_enabled := on\<rparr>) (hierarchies s)),
       objects := (if on then objects s else flush_hierarchy h (objects s))\<rparr>"

definition hierarchy_control :: command where
  "hierarchy_control = with_handle_area 0 (\<lambda>auth. reading (both (param 1 r_u32) (param 2 r_yes_no)) (\<lambda>(enable, on) q.
     st_bind (st_check ((enable = rh_PLATFORM \<or> enable = rh_PLATFORM_NV \<or> on) \<and> auth \<noteq> rh_PLATFORM) (with_handle 1 rc_AUTH_TYPE)) (\<lambda>_.
     st_bind (if enable = rh_PLATFORM then st_modify (set_enabled rh_PLATFORM on)
              else if enable = rh_OWNER \<or> enable = rh_ENDORSEMENT then
                st_bind (st_check (auth \<noteq> rh_PLATFORM \<and> auth \<noteq> enable) (with_handle 1 rc_AUTH_TYPE)) (\<lambda>_.
                  st_modify (set_enabled enable on))
              else if enable = rh_PLATFORM_NV then
                st_modify (\<lambda>s. s\<lparr>hierarchies := (hierarchies s)\<lparr>platform_nv_enabled := on\<rparr>\<rparr>)
              else st_fail (with_parameter 1 rc_VALUE)) (\<lambda>_.
       st_lift (respond_empty q)))))"

definition primary_policy_size :: "env \<Rightarrow> bytes \<Rightarrow> u16 \<Rightarrow> unit tpm_result" where
  "primary_policy_size E p a =
     (if a = alg_NULL then (if p \<noteq> [] then Inl (with_parameter 1 rc_SIZE) else Inr ())
      else res_bind (map_err (\<lambda>_. with_parameter 2 rc_HASH) (hash_size E a)) (\<lambda>n.
        if length p \<noteq> n then Inl (with_parameter 1 rc_SIZE) else Inr ()))"

definition set_policy :: "u32 \<Rightarrow> tpmt_ha \<Rightarrow> (tpm_state, unit) st_op" where
  "set_policy h v s =
     (if h = rh_LOCKOUT then (Inr (), s\<lparr>lockout_policy := v\<rparr>)
      else if h = rh_PLATFORM \<or> h = rh_OWNER \<or> h = rh_ENDORSEMENT then
        (case hierarchy_modify h (\<lambda>x. x\<lparr>h_policy := v\<rparr>) (hierarchies s) of (r, hs) \<Rightarrow> (r, s\<lparr>hierarchies := hs\<rparr>))
      else if h = rh_ACT_0 then (Inr (), s\<lparr>act_of := (act_of s)\<lparr>act_policy := v\<rparr>\<rparr>)
      else (Inl (with_handle 1 rc_VALUE), s))"

definition set_primary_policy :: "env \<Rightarrow> command" where
  "set_primary_policy E = with_handle_area 0 (\<lambda>auth.
     reading (both (param 1 (tpm2b_get MAX_DIGEST_SIZE)) (param 2 r_u16)) (\<lambda>(p, a) q.
       st_bind (st_lift (primary_policy_size E p a)) (\<lambda>_.
       st_bind (st_lift (tpmt_ha_new E a p)) (\<lambda>v.
       st_bind (set_policy auth v) (\<lambda>_.
         st_lift (respond_empty q))))))"

section \<open>New seeds, and TPM2_Clear\<close>

definition on_platform :: "(hierarchy \<times> 'g, unit) st_op \<Rightarrow> (hierarchies \<times> 'g, unit) st_op" where
  "on_platform m = (\<lambda>(hs, g). case m (platform hs, g) of (x, (h, g)) \<Rightarrow> (x, (hs\<lparr>platform := h\<rparr>, g)))"

definition change_pps :: "env \<Rightarrow> command" where
  "change_pps E q =
     st_bind (on_hierarchies (on_platform (regenerate (drbg_fill E)))) (\<lambda>_.
     st_bind (st_modify (\<lambda>s. s\<lparr>
       hierarchies := (hierarchies s)\<lparr>platform := platform (hierarchies s)\<lparr>h_policy := tpmt_ha_null\<rparr>\<rparr>,
       objects := flush_hierarchy rh_PLATFORM (objects s),
       persistent := bt_retain (\<lambda>h _. h < hc_PLATFORM_PERSISTENT) (persistent s),
       pcr_policy := tpmt_ha_null\<rparr>)) (\<lambda>_.
       st_lift (unread (respond_empty q))))"

definition change_eps :: "env \<Rightarrow> command" where
  "change_eps E q =
     st_bind (on_hierarchies (on_endorsement (regenerate (drbg_fill E)))) (\<lambda>_.
     st_bind (st_modify (\<lambda>s. s\<lparr>
       hierarchies := (hierarchies s)\<lparr>endorsement := clear_authorization (endorsement (hierarchies s))\<lparr>h_enabled := True\<rparr>\<rparr>,
       objects := flush_hierarchy rh_ENDORSEMENT (objects s),
       persistent := bt_retain (\<lambda>_ x. obj_hierarchy x \<noteq> rh_ENDORSEMENT) (persistent s),
       permanent := attr_with (permanent s) pa_TPM_GENERATED_EPS\<rparr>)) (\<lambda>_.
       st_lift (unread (respond_empty q))))"

definition clear_command :: "env \<Rightarrow> command" where
  "clear_command E q =
     st_bind (st_view (\<lambda>s. if attr_has (permanent s) pa_DISABLE_CLEAR then Inl rc_DISABLED else Inr ())) (\<lambda>_.
     st_bind (on_clear E) (\<lambda>_.
     st_bind (st_modify (\<lambda>s. s\<lparr>lockout_auth := [], lockout_policy := tpmt_ha_null\<rparr>)) (\<lambda>_.
       st_lift (unread (respond_empty q)))))"

definition clear_control :: command where
  "clear_control = with_handle_area 0 (\<lambda>auth. reading (param 1 r_yes_no) (\<lambda>disable q.
     st_bind (st_check (\<not> disable \<and> auth \<noteq> rh_PLATFORM) (with_handle 1 rc_AUTH_TYPE)) (\<lambda>_.
     st_bind (st_modify (\<lambda>s. s\<lparr>permanent := attr_set pa_DISABLE_CLEAR disable (permanent s)\<rparr>)) (\<lambda>_.
       st_lift (respond_empty q)))))"

section \<open>Authorization values\<close>

definition set_auth :: "u32 \<Rightarrow> bytes \<Rightarrow> (tpm_state, unit) st_op" where
  "set_auth h v s =
     (if h = rh_LOCKOUT then (Inr (), s\<lparr>lockout_auth := v\<rparr>)
      else if h = rh_PLATFORM \<or> h = rh_OWNER \<or> h = rh_ENDORSEMENT then
        (case hierarchy_modify h (\<lambda>x. x\<lparr>h_auth := v\<rparr>) (hierarchies s) of (r, hs) \<Rightarrow> (r, s\<lparr>hierarchies := hs\<rparr>))
      else (Inl (with_handle 1 rc_VALUE), s))"

definition auth_set_bit :: "u32 \<Rightarrow> u32 option" where
  "auth_set_bit h =
     (if h = rh_OWNER then Some pa_OWNER_AUTH_SET
      else if h = rh_ENDORSEMENT then Some pa_ENDORSEMENT_AUTH_SET
      else if h = rh_LOCKOUT then Some pa_LOCKOUT_AUTH_SET else None)"

definition hierarchy_change_auth :: command where
  "hierarchy_change_auth = with_handle_area 0 (\<lambda>auth. reading (param 1 (tpm2b_get MAX_DIGEST_SIZE)) (\<lambda>v q.
     st_bind (st_check (MAX_DIGEST_SIZE < length v) (with_parameter 1 rc_SIZE)) (\<lambda>_.
     st_bind (set_auth auth v) (\<lambda>_.
     st_bind (st_modify (\<lambda>s. case auth_set_bit auth of
         Some b \<Rightarrow> s\<lparr>permanent := attr_with (permanent s) b\<rparr> | None \<Rightarrow> s)) (\<lambda>_.
       st_lift (respond_empty q))))))"

section \<open>Dictionary attack protection\<close>

definition on_lockout :: "(lockout \<Rightarrow> lockout) \<Rightarrow> (tpm_state, unit) st_op" where
  "on_lockout f = st_modify (\<lambda>s. s\<lparr>lockout_state := f (lockout_state s)\<rparr>)"

definition dictionary_attack_lock_reset :: command where
  "dictionary_attack_lock_reset q =
     st_bind (on_lockout (\<lambda>l. l\<lparr>failed_tries := 0, next_recovery := 0, in_lockout := False, lockout_until := 0\<rparr>)) (\<lambda>_.
       st_lift (unread (respond_empty q)))"

definition dictionary_attack_parameters_command :: command where
  "dictionary_attack_parameters_command = reading (both (param 1 r_u32) (both (param 2 r_u32) (param 3 r_u32))) (\<lambda>(tries, recovery, lock) q.
     st_bind (on_lockout (dictionary_attack_parameters tries recovery lock)) (\<lambda>_.
       st_lift (respond_empty q)))"

section \<open>Physical presence, algorithms, Read-Only mode\<close>

definition is_pp_eligible :: "u32 \<Rightarrow> bool" where
  "is_pp_eligible c = (lookup_command c \<noteq> None \<and> c \<in> set [cc_CreateLoaded, cc_SetCommandCodeAuditStatus, cc_PCR_Allocate,
     cc_PCR_SetAuthPolicy, cc_CreatePrimary, cc_HierarchyControl, cc_SetPrimaryPolicy, cc_ChangePPS, cc_ChangeEPS, cc_Clear,
     cc_ClearControl, cc_HierarchyChangeAuth, cc_ReadOnlyControl, cc_FieldUpgradeStart, cc_EvictControl, cc_ClockSet,
     cc_ClockRateAdjust, cc_SetCapability, cc_NV_DefineSpace, cc_NV_DefineSpace2, cc_NV_UndefineSpace,
     cc_NV_UndefineSpaceSpecial, cc_NV_GlobalWriteLock])"

definition update_pp_commands :: "u32 list \<Rightarrow> u32 list \<Rightarrow> u32 list \<Rightarrow> u32 list" where
  "update_pp_commands to_set to_clear cs =
     sort (filter (\<lambda>c. c \<notin> set to_clear)
       (foldl (\<lambda>cs c. if \<not> is_pp_eligible c then cs else if c \<notin> set cs then cs @ [c] else cs) cs to_set))"

definition pp_commands_command :: command where
  "pp_commands_command = reading (both (param 1 (unmarshal_list r_u32 (cap_list_max 4))) (param 2 (unmarshal_list r_u32 (cap_list_max 4))))
     (\<lambda>(to_set, to_clear) q.
       st_bind (st_modify (\<lambda>s. s\<lparr>pp_commands := update_pp_commands to_set to_clear (pp_commands s)\<rparr>)) (\<lambda>_.
         st_lift (respond_empty q)))"

definition ALGORITHM_SET :: u32 where "ALGORITHM_SET = 0"

definition set_algorithm_set :: command where
  "set_algorithm_set = reading (param 1 r_u32) (\<lambda>a q.
     st_bind (st_check (a \<noteq> ALGORITHM_SET) (with_parameter 1 rc_VALUE)) (\<lambda>_.
     st_bind (st_modify (\<lambda>s. s\<lparr>algorithm_set := a\<rparr>)) (\<lambda>_.
       st_lift (respond_empty q))))"

definition read_only_control :: command where
  "read_only_control = reading (param 1 r_yes_no) (\<lambda>on q.
     st_bind (st_modify (\<lambda>s. s\<lparr>startup_clear := attr_set sc_READ_ONLY on (startup_clear s)\<rparr>)) (\<lambda>_.
       st_lift (respond_empty q)))"

section \<open>What TPM2_Clear leaves\<close>

definition owned :: "slot \<Rightarrow> bool" where
  "owned x = (case x of
     Object_slot y \<Rightarrow> obj_hierarchy y \<in> {rh_OWNER, rh_ENDORSEMENT} \<or> base_of (obj_hierarchy y) \<in> {Some rh_OWNER, Some rh_ENDORSEMENT}
   | Sequence_slot _ \<Rightarrow> False)"

lemma flushed_owned:
  assumes "bt_wf m"
  shows "bt_get (flush_hierarchy rh_ENDORSEMENT (flush_hierarchy rh_OWNER m)) h = Some x \<longleftrightarrow> bt_get m h = Some x \<and> \<not> owned x"
proof -
  have "bt_wf (flush_hierarchy rh_OWNER m)" using assms by (simp add: flush_hierarchy_def bt_wf_retain)
  with assms show ?thesis
    by (auto simp: flush_hierarchy_def bt_get_retain owned_def split: option.splits slot.splits if_splits)
qed

lemma hierarchies_on_clear_effect:
  assumes "hierarchies_on_clear rb (hs, g) = (Inr (), (hs', g'))"
  shows "platform hs' = platform hs \<and> null hs' = null hs \<and> h_seed (endorsement hs') = h_seed (endorsement hs)
    \<and> (\<forall>h \<in> {owner hs', endorsement hs'}. h_auth h = [] \<and> h_policy h = tpmt_ha_null \<and> h_enabled h)
    \<and> (\<exists>g1 g2. rb PRIMARY_SEED_SIZE g = (Inr (h_seed (owner hs')), g1) \<and> rb PRIMARY_SEED_SIZE g1 = (Inr (h_proof (owner hs')), g2)
         \<and> rb PRIMARY_SEED_SIZE g2 = (Inr (h_proof (endorsement hs')), g'))"
  using assms
  by (auto simp: hierarchies_on_clear_def on_part_def st_bind_def st_modify_def regenerate_def regenerate_proof_def
      clear_authorization_def split: prod.splits sum.splits)

lemma clear_command_cases:
  "clear_command E q s =
     (if attr_has (permanent s) pa_DISABLE_CLEAR then (Inl rc_DISABLED, s)
      else case hierarchies_on_clear (drbg_fill E) (hierarchies s, rng s) of
          (Inl e, (hs, g)) \<Rightarrow> (Inl e, s\<lparr>hierarchies := hs, rng := g\<rparr>)
        | (Inr _, (hs, g)) \<Rightarrow>
            (unread (respond_empty q), s\<lparr>hierarchies := hs, rng := g, lockout_state := lockout_default,
               permanent := permanent s AND pa_TPM_GENERATED_EPS, nv := clear_owner_indices (nv s),
               persistent := bt_retain (\<lambda>h _. hc_PLATFORM_PERSISTENT \<le> h) (persistent s),
               objects := flush_hierarchy rh_ENDORSEMENT (flush_hierarchy rh_OWNER (objects s)),
               clock_of := (clock_of s)\<lparr>clock := 0, nv_elapsed := 0, reset_count := 0, restart_count := 0, safe := True\<rparr>,
               pcrs := bump_update_counter (pcrs s), cmd_audit := (cmd_audit s)\<lparr>ca_counter := 0\<rparr>,
               lockout_auth := [], lockout_policy := tpmt_ha_null\<rparr>))"
  by (simp add: clear_command_def on_clear_def on_hierarchies_def st_bind_def st_view_def st_modify_def st_lift_def
      split: prod.split sum.split)

text \<open>C21: a TPM2_Clear that is not disabled and succeeds leaves nothing of the owner: no object of the Storage or
  Endorsement hierarchy (or one derived from them) in a slot, no persistent object outside the platform's range, no NV
  index the platform did not define; owner, endorsement and lockout authorizations and policies are empty, and the owner
  seed and both proofs are the next outputs of the generator, so that no older wrapped object or context opens. The
  platform's and the NULL hierarchy, the platform's indices and persistent objects, the endorsement seed and the
  highest NV counter stay.\<close>

theorem clear_leaves_nothing_owned:
  assumes "clear_command E q s = (Inr r, s')"
    and "bt_wf (objects s)" and "bt_wf (persistent s)" and "bt_wf (indices (nv s))"
  shows "\<not> attr_has (permanent s) pa_DISABLE_CLEAR
    \<and> (\<forall>h x. bt_get (objects s') h = Some x \<longleftrightarrow> bt_get (objects s) h = Some x \<and> \<not> owned x)
    \<and> (\<forall>h x. bt_get (persistent s') h = Some x \<longleftrightarrow> bt_get (persistent s) h = Some x \<and> hc_PLATFORM_PERSISTENT \<le> h)
    \<and> (\<forall>h i. bt_get (indices (nv s')) h = Some i
         \<longleftrightarrow> bt_get (indices (nv s)) h = Some i \<and> attr_has (np_attributes (nv_public i)) nv_PLATFORMCREATE)
    \<and> lockout_auth s' = [] \<and> lockout_policy s' = tpmt_ha_null \<and> lockout_state s' = lockout_default
    \<and> (\<forall>h \<in> {owner (hierarchies s'), endorsement (hierarchies s')}. h_auth h = [] \<and> h_policy h = tpmt_ha_null \<and> h_enabled h)
    \<and> (\<exists>g1 g2. drbg_fill E PRIMARY_SEED_SIZE (rng s) = (Inr (h_seed (owner (hierarchies s'))), g1)
         \<and> drbg_fill E PRIMARY_SEED_SIZE g1 = (Inr (h_proof (owner (hierarchies s'))), g2)
         \<and> drbg_fill E PRIMARY_SEED_SIZE g2 = (Inr (h_proof (endorsement (hierarchies s'))), rng s'))
    \<and> platform (hierarchies s') = platform (hierarchies s) \<and> null (hierarchies s') = null (hierarchies s)
    \<and> h_seed (endorsement (hierarchies s')) = h_seed (endorsement (hierarchies s))
    \<and> highest_counter (nv s') = highest_counter (nv s)"
proof -
  obtain hs g where draws: "hierarchies_on_clear (drbg_fill E) (hierarchies s, rng s) = (Inr (), (hs, g))"
    and allowed: "\<not> attr_has (permanent s) pa_DISABLE_CLEAR"
    and s': "s' = s\<lparr>hierarchies := hs, rng := g, lockout_state := lockout_default,
               permanent := permanent s AND pa_TPM_GENERATED_EPS, nv := clear_owner_indices (nv s),
               persistent := bt_retain (\<lambda>h _. hc_PLATFORM_PERSISTENT \<le> h) (persistent s),
               objects := flush_hierarchy rh_ENDORSEMENT (flush_hierarchy rh_OWNER (objects s)),
               clock_of := (clock_of s)\<lparr>clock := 0, nv_elapsed := 0, reset_count := 0, restart_count := 0, safe := True\<rparr>,
               pcrs := bump_update_counter (pcrs s), cmd_audit := (cmd_audit s)\<lparr>ca_counter := 0\<rparr>,
               lockout_auth := [], lockout_policy := tpmt_ha_null\<rparr>"
    using assms(1) by (auto simp: clear_command_cases split: if_splits prod.splits sum.splits)
  then have parts: "hierarchies s' = hs" "rng s' = g" "lockout_state s' = lockout_default" "nv s' = clear_owner_indices (nv s)"
      "persistent s' = bt_retain (\<lambda>h _. hc_PLATFORM_PERSISTENT \<le> h) (persistent s)"
      "objects s' = flush_hierarchy rh_ENDORSEMENT (flush_hierarchy rh_OWNER (objects s))"
      "lockout_auth s' = []" "lockout_policy s' = tpmt_ha_null"
    by simp_all
  show ?thesis
    using allowed hierarchies_on_clear_effect [OF draws] assms(2-4)
    by (simp add: parts flushed_owned bt_get_retain clear_owner_indices_def split: option.splits) metis
qed

theorem clear_leaves_nothing_owned_witness:
  "\<exists>r s'. clear_command (demo_env True) (session_request 0 0) (demo_tpm\<lparr>objects := []\<rparr>) = (Inr r, s')
     \<and> h_auth (owner (hierarchies s')) = [] \<and> lockout_auth s' = []"
proof -
  let ?E = "demo_env True" and ?s = "demo_tpm\<lparr>objects := []\<rparr>" and ?q = "session_request 0 0"
  have fill: "\<exists>b d'. drbg_fill ?E PRIMARY_SEED_SIZE d = (Inr b, d') \<and> reseed_counter d' = reseed_counter d + 1"
    if "reseed_counter d < RESEED_INTERVAL" for d
    by (rule drbg_fill_ok [OF env_ok_demo _ that]) (simp add: PRIMARY_SEED_SIZE_def MAX_BYTES_PER_REQUEST_def)
  obtain a g1 where 1: "drbg_fill ?E PRIMARY_SEED_SIZE (rng ?s) = (Inr a, g1)" "reseed_counter g1 = 2"
    using fill [of "rng ?s"] by (auto simp: demo_tpm_def RESEED_INTERVAL_def)
  obtain b g2 where 2: "drbg_fill ?E PRIMARY_SEED_SIZE g1 = (Inr b, g2)" "reseed_counter g2 = 3"
    using fill [of g1] 1 by (auto simp: RESEED_INTERVAL_def)
  obtain c g3 where 3: "drbg_fill ?E PRIMARY_SEED_SIZE g2 = (Inr c, g3)"
    using fill [of g2] 2 by (auto simp: RESEED_INTERVAL_def)
  have "\<exists>hs g. hierarchies_on_clear (drbg_fill ?E) (hierarchies ?s, rng ?s) = (Inr (), (hs, g))"
    using 1 2 3 by (simp add: hierarchies_on_clear_def on_part_def st_bind_def st_modify_def regenerate_def regenerate_proof_def)
  moreover have "\<not> attr_has (permanent ?s) pa_DISABLE_CLEAR" by (simp add: demo_tpm_def attr_has_def flag_def)
  moreover have "\<exists>r. unread (respond_empty ?q) = Inr r"
    by (simp add: unread_def respond_empty_def respond_def respond_try_def w_finish_def writer_new_def)
  ultimately obtain r s' where "clear_command ?E ?q ?s = (Inr r, s')" unfolding clear_command_cases by force
  moreover from clear_leaves_nothing_owned [OF this]
  have "h_auth (owner (hierarchies s')) = [] \<and> lockout_auth s' = []"
    by (simp add: demo_tpm_def store_new_def bt_wf_def bt_keys_def)
  ultimately show ?thesis by blast
qed

end
