(* ===== verification/Attest.thy ===== *)
theory Attest
  imports Assertions
begin

text \<open>
  Attestation structures (\<open>src/tpm/structures/attest.rs\<close>): what an attestation says and who says it, and the creation
  data of an object, each with its reader, its writer and the octets between them. An attestation starts with
  \<open>TPM_GENERATED_VALUE\<close>, which no data the TPM hashes with a ticket may start with.
\<close>

abbreviation (input) st_ATTEST_NV :: u16 where "st_ATTEST_NV \<equiv> 0x8014"
abbreviation (input) st_ATTEST_COMMAND_AUDIT :: u16 where "st_ATTEST_COMMAND_AUDIT \<equiv> 0x8015"
abbreviation (input) st_ATTEST_SESSION_AUDIT :: u16 where "st_ATTEST_SESSION_AUDIT \<equiv> 0x8016"
abbreviation (input) st_ATTEST_CERTIFY :: u16 where "st_ATTEST_CERTIFY \<equiv> 0x8017"
abbreviation (input) st_ATTEST_QUOTE :: u16 where "st_ATTEST_QUOTE \<equiv> 0x8018"
abbreviation (input) st_ATTEST_TIME :: u16 where "st_ATTEST_TIME \<equiv> 0x8019"
abbreviation (input) st_ATTEST_CREATION :: u16 where "st_ATTEST_CREATION \<equiv> 0x801A"
abbreviation (input) st_ATTEST_NV_DIGEST :: u16 where "st_ATTEST_NV_DIGEST \<equiv> 0x801C"

section \<open>Clock and time\<close>

definition clock_info_get :: "reader \<Rightarrow> (clock_info \<times> reader) tpm_result" where
  "clock_info_get r =
     res_bind (r_u64 r) (\<lambda>(c, r). res_bind (r_u32 r) (\<lambda>(a, r). res_bind (r_u32 r) (\<lambda>(b, r). res_bind (r_flag r) (\<lambda>(sf, r).
       Inr (\<lparr>cli_clock = c, cli_reset_count = a, cli_restart_count = b, cli_safe = sf\<rparr>, r)))))"

definition time_info_get :: "reader \<Rightarrow> ((u64 \<times> clock_info) \<times> reader) tpm_result" where
  "time_info_get r = res_bind (r_u64 r) (\<lambda>(t, r). res_bind (clock_info_get r) (\<lambda>(c, r). Inr ((t, c), r)))"

section \<open>What is attested\<close>

datatype attested =
    Certify bytes bytes
  | Creation bytes bytes
  | Quote "pcr_selection list" bytes
  | Command_audit u64 u16 bytes bytes
  | Session_audit bool bytes
  | Time_attest "u64 \<times> clock_info" u64
  | Nv_certify bytes u16 bytes
  | Nv_digest bytes bytes

fun attested_selector :: "attested \<Rightarrow> u16" where
  "attested_selector (Certify _ _) = st_ATTEST_CERTIFY"
| "attested_selector (Creation _ _) = st_ATTEST_CREATION"
| "attested_selector (Quote _ _) = st_ATTEST_QUOTE"
| "attested_selector (Command_audit _ _ _ _) = st_ATTEST_COMMAND_AUDIT"
| "attested_selector (Session_audit _ _) = st_ATTEST_SESSION_AUDIT"
| "attested_selector (Time_attest _ _) = st_ATTEST_TIME"
| "attested_selector (Nv_certify _ _ _) = st_ATTEST_NV"
| "attested_selector (Nv_digest _ _) = st_ATTEST_NV_DIGEST"

abbreviation (input) name_get :: "reader \<Rightarrow> (bytes \<times> reader) tpm_result" where
  "name_get \<equiv> tpm2b_get SIZEOF_TPMT_HA"

abbreviation (input) digest_get :: "reader \<Rightarrow> (bytes \<times> reader) tpm_result" where
  "digest_get \<equiv> tpm2b_get MAX_DIGEST_SIZE"

definition attested_get :: "env \<Rightarrow> u16 \<Rightarrow> reader \<Rightarrow> (attested \<times> reader) tpm_result" where
  "attested_get E selector r =
     (if selector = st_ATTEST_CERTIFY then res_bind (name_get r) (\<lambda>(a, r). res_bind (name_get r) (\<lambda>(b, r). Inr (Certify a b, r)))
      else if selector = st_ATTEST_CREATION then res_bind (name_get r) (\<lambda>(a, r). res_bind (digest_get r) (\<lambda>(b, r). Inr (Creation a b, r)))
      else if selector = st_ATTEST_QUOTE then
        res_bind (pcr_selections_get E r) (\<lambda>(a, r). res_bind (digest_get r) (\<lambda>(b, r). Inr (Quote a b, r)))
      else if selector = st_ATTEST_COMMAND_AUDIT then
        res_bind (r_u64 r) (\<lambda>(c, r). res_bind (r_u16 r) (\<lambda>(a, r). res_bind (digest_get r) (\<lambda>(x, r). res_bind (digest_get r) (\<lambda>(y, r).
          Inr (Command_audit c a x y, r)))))
      else if selector = st_ATTEST_SESSION_AUDIT then
        res_bind (r_flag r) (\<lambda>(x, r). res_bind (digest_get r) (\<lambda>(d, r). Inr (Session_audit x d, r)))
      else if selector = st_ATTEST_TIME then
        res_bind (time_info_get r) (\<lambda>(t, r). res_bind (r_u64 r) (\<lambda>(v, r). Inr (Time_attest t v, r)))
      else if selector = st_ATTEST_NV then
        res_bind (name_get r) (\<lambda>(n, r). res_bind (r_u16 r) (\<lambda>(k, r). res_bind (tpm2b_get MAX_NV_BUFFER_SIZE r) (\<lambda>(b, r).
          Inr (Nv_certify n k b, r))))
      else if selector = st_ATTEST_NV_DIGEST then
        res_bind (name_get r) (\<lambda>(n, r). res_bind (digest_get r) (\<lambda>(d, r). Inr (Nv_digest n d, r)))
      else Inl rc_SELECTOR)"

fun attested_put :: "attested \<Rightarrow> writer \<Rightarrow> writer" where
  "attested_put (Certify a b) w = tpm2b_put b (tpm2b_put a w)"
| "attested_put (Creation a b) w = tpm2b_put b (tpm2b_put a w)"
| "attested_put (Quote a b) w = tpm2b_put b (pcr_selections_put a w)"
| "attested_put (Command_audit c a x y) w = tpm2b_put y (tpm2b_put x (w_u16 a (w_u64 c w)))"
| "attested_put (Session_audit x d) w = tpm2b_put d (w_u8 (if x then 1 else 0) w)"
| "attested_put (Time_attest t v) w = w_u64 v (time_info_put t w)"
| "attested_put (Nv_certify n k b) w = tpm2b_put b (w_u16 k (tpm2b_put n w))"
| "attested_put (Nv_digest n d) w = tpm2b_put d (tpm2b_put n w)"

section \<open>The attestation\<close>

record attest =
  at_magic :: u32
  at_signer :: bytes
  at_extra :: bytes
  at_clock :: clock_info
  at_firmware :: u64
  at_attested :: attested

definition attest_new :: "bytes \<Rightarrow> bytes \<Rightarrow> clock_info \<Rightarrow> u64 \<Rightarrow> attested \<Rightarrow> attest" where
  "attest_new signer extra c v a =
     \<lparr>at_magic = TPM_GENERATED_VALUE, at_signer = signer, at_extra = extra, at_clock = c, at_firmware = v, at_attested = a\<rparr>"

definition attest_put :: "attest \<Rightarrow> writer \<Rightarrow> writer" where
  "attest_put x w =
     attested_put (at_attested x) (w_u64 (at_firmware x) (clock_info_put (at_clock x) (tpm2b_put (at_extra x)
       (tpm2b_put (at_signer x) (w_u16 (attested_selector (at_attested x)) (w_u32 (at_magic x) w))))))"

definition attest_get :: "env \<Rightarrow> reader \<Rightarrow> (attest \<times> reader) tpm_result" where
  "attest_get E r =
     res_bind (r_u32 r) (\<lambda>(m, r).
     if m \<noteq> TPM_GENERATED_VALUE then Inl rc_VALUE
     else res_bind (r_u16 r) (\<lambda>(k, r). res_bind (name_get r) (\<lambda>(n, r). res_bind (tpm2b_get SIZEOF_TPMT_HA r) (\<lambda>(x, r).
       res_bind (clock_info_get r) (\<lambda>(c, r). res_bind (r_u64 r) (\<lambda>(v, r). res_bind (attested_get E k r) (\<lambda>(a, r).
         Inr (\<lparr>at_magic = m, at_signer = n, at_extra = x, at_clock = c, at_firmware = v, at_attested = a\<rparr>, r))))))))"

section \<open>Creation data\<close>

record creation_data =
  cd_select :: "pcr_selection list"
  cd_pcr_digest :: bytes
  cd_locality :: u8
  cd_parent_alg :: u16
  cd_parent_name :: bytes
  cd_parent_qualified :: bytes
  cd_outside :: bytes

definition creation_put :: "creation_data \<Rightarrow> writer \<Rightarrow> writer" where
  "creation_put c w =
     tpm2b_put (cd_outside c) (tpm2b_put (cd_parent_qualified c) (tpm2b_put (cd_parent_name c) (w_u16 (cd_parent_alg c)
       (w_u8 (cd_locality c) (tpm2b_put (cd_pcr_digest c) (pcr_selections_put (cd_select c) w))))))"

definition creation_get :: "env \<Rightarrow> reader \<Rightarrow> (creation_data \<times> reader) tpm_result" where
  "creation_get E r =
     res_bind (pcr_selections_get E r) (\<lambda>(s, r). res_bind (digest_get r) (\<lambda>(d, r). res_bind (unmarshal_attr loc_reserved r_u8 r) (\<lambda>(l, r).
     res_bind (r_u16 r) (\<lambda>(a, r). res_bind (name_get r) (\<lambda>(n, r). res_bind (name_get r) (\<lambda>(q, r). res_bind (tpm2b_get SIZEOF_TPMT_HA r) (\<lambda>(x, r).
       Inr (\<lparr>cd_select = s, cd_pcr_digest = d, cd_locality = l, cd_parent_alg = a, cd_parent_name = n,
             cd_parent_qualified = q, cd_outside = x\<rparr>, r))))))))"

definition tpm2b_creation_put :: "creation_data \<Rightarrow> writer \<Rightarrow> writer" where
  "tpm2b_creation_put c = sized16_with (creation_put c)"

definition tpm2b_creation_get :: "env \<Rightarrow> reader \<Rightarrow> (creation_data \<times> reader) tpm_result" where
  "tpm2b_creation_get E = unmarshal_sized (creation_get E)"

section \<open>The contracts\<close>

definition flag_enc :: "bool \<Rightarrow> bytes" where "flag_enc b = [if b then 1 else 0]"

lemma flag_reads: "reads r_flag b (flag_enc b)"
  by (rule readsI) (simp add: r_flag_def flag_enc_def r_u8_append)

definition clock_info_enc :: "clock_info \<Rightarrow> bytes" where
  "clock_info_enc c = to_be 8 (cli_clock c) @ to_be 4 (cli_reset_count c) @ to_be 4 (cli_restart_count c) @ flag_enc (cli_safe c)"

lemma clock_info_reads: "reads clock_info_get c (clock_info_enc c @ [])"
proof -
  have "reads clock_info_get \<lparr>cli_clock = cli_clock c, cli_reset_count = cli_reset_count c, cli_restart_count = cli_restart_count c,
      cli_safe = cli_safe c\<rparr> (to_be 8 (cli_clock c) @ to_be 4 (cli_reset_count c) @ to_be 4 (cli_restart_count c) @ flag_enc (cli_safe c) @ [])"
    unfolding clock_info_get_def by (rule reads_return | (rule reads_bind, rule reads_int flag_reads))+
  then show ?thesis by (cases c) (simp add: clock_info_enc_def)
qed

lemma clock_info_put_enc: "clock_info_put c w = emit (clock_info_enc c) w"
  by (simp add: clock_info_put_def clock_info_enc_def flag_enc_def writes_emit)

fun attested_enc :: "attested \<Rightarrow> bytes" where
  "attested_enc (Certify a b) = enc_sized16 a @ enc_sized16 b"
| "attested_enc (Creation a b) = enc_sized16 a @ enc_sized16 b"
| "attested_enc (Quote a b) = list_enc pcr_selection_enc a @ enc_sized16 b"
| "attested_enc (Command_audit c a x y) = to_be 8 c @ to_be 2 a @ enc_sized16 x @ enc_sized16 y"
| "attested_enc (Session_audit x d) = flag_enc x @ enc_sized16 d"
| "attested_enc (Time_attest t v) = to_be 8 (fst t) @ clock_info_enc (snd t) @ to_be 8 v"
| "attested_enc (Nv_certify n k b) = enc_sized16 n @ to_be 2 k @ enc_sized16 b"
| "attested_enc (Nv_digest n d) = enc_sized16 n @ enc_sized16 d"

fun attested_ok :: "env \<Rightarrow> attested \<Rightarrow> bool" where
  "attested_ok E (Certify a b) \<longleftrightarrow> length a \<le> SIZEOF_TPMT_HA \<and> length b \<le> SIZEOF_TPMT_HA"
| "attested_ok E (Creation a b) \<longleftrightarrow> length a \<le> SIZEOF_TPMT_HA \<and> length b \<le> MAX_DIGEST_SIZE"
| "attested_ok E (Quote a b) \<longleftrightarrow> length a \<le> HASH_COUNT \<and> list_all (pcr_selection_ok E) a \<and> length b \<le> MAX_DIGEST_SIZE"
| "attested_ok E (Command_audit c a x y) \<longleftrightarrow> length x \<le> MAX_DIGEST_SIZE \<and> length y \<le> MAX_DIGEST_SIZE"
| "attested_ok E (Session_audit x d) \<longleftrightarrow> length d \<le> MAX_DIGEST_SIZE"
| "attested_ok E (Time_attest t v) \<longleftrightarrow> True"
| "attested_ok E (Nv_certify n k b) \<longleftrightarrow> length n \<le> SIZEOF_TPMT_HA \<and> length b \<le> MAX_NV_BUFFER_SIZE"
| "attested_ok E (Nv_digest n d) \<longleftrightarrow> length n \<le> SIZEOF_TPMT_HA \<and> length d \<le> MAX_DIGEST_SIZE"

lemmas attest_limits = MAX_DIGEST_SIZE_def SIZEOF_TPMT_HA_def MAX_NV_BUFFER_SIZE_def HASH_COUNT_def

lemma time_info_reads: "reads time_info_get t (to_be 8 (fst t) @ clock_info_enc (snd t) @ [])"
proof -
  have "reads time_info_get (fst t, snd t) (to_be 8 (fst t) @ (clock_info_enc (snd t) @ []) @ [])"
    unfolding time_info_get_def by (rule reads_return | (rule reads_bind, rule reads_int clock_info_reads))+
  then show ?thesis by simp
qed

lemma attested_reads: "attested_ok E a \<Longrightarrow> reads (attested_get E (attested_selector a)) a (attested_enc a @ [])"
proof (cases a)
  case (Quote s d)
  assume ok: "attested_ok E a"
  have "reads (\<lambda>r. res_bind (pcr_selections_get E r) (\<lambda>(a, r). res_bind (digest_get r) (\<lambda>(b, r). Inr (attested.Quote a b, r))))
      (attested.Quote s d) (list_enc pcr_selection_enc s @ enc_sized16 d @ [])"
    by (rule reads_return | (rule reads_bind, rule pcr_selections.reads_get tpm2b_reads) | (use ok in \<open>simp add: Quote attest_limits; fail\<close>))+
  then show ?thesis by (simp add: Quote attested_get_def [abs_def])
next
  case (Time_attest t v)
  have "reads (\<lambda>r. res_bind (time_info_get r) (\<lambda>(t, r). res_bind (r_u64 r) (\<lambda>(v, r). Inr (attested.Time_attest t v, r))))
      (attested.Time_attest t v) ((to_be 8 (fst t) @ clock_info_enc (snd t) @ []) @ to_be 8 v @ [])"
    by (rule reads_return | (rule reads_bind, rule time_info_reads reads_int))+
  then show ?thesis by (simp add: Time_attest attested_get_def [abs_def])
qed (simp_all add: attested_get_def [abs_def] attest_limits del: to_be.simps append_Nil2,
    (rule reads_return | (rule reads_bind, rule reads_int flag_reads tpm2b_reads) | (simp; fail))+)

lemma attested_put_enc: "attested_ok E a \<Longrightarrow> attested_put a w = emit (attested_enc a) w"
  by (cases a)
     (auto simp: tpm2b_put_enc writes_emit attest_limits pcr_selections.put_enc [where E = E] clock_info_put_enc time_info_put_def flag_enc_def)

definition attest_enc :: "attest \<Rightarrow> bytes" where
  "attest_enc x = to_be 4 (at_magic x) @ to_be 2 (attested_selector (at_attested x)) @ enc_sized16 (at_signer x)
     @ enc_sized16 (at_extra x) @ clock_info_enc (at_clock x) @ to_be 8 (at_firmware x) @ attested_enc (at_attested x)"

definition attest_ok :: "env \<Rightarrow> attest \<Rightarrow> bool" where
  "attest_ok E x \<longleftrightarrow> at_magic x = TPM_GENERATED_VALUE \<and> length (at_signer x) \<le> SIZEOF_TPMT_HA
     \<and> length (at_extra x) \<le> SIZEOF_TPMT_HA \<and> attested_ok E (at_attested x)"

lemma r_flag_decoder: "decoder r_flag"
  unfolding r_flag_def by (intro decoder_bind decoder_if decoder_return decoder_fail decoder_int)

lemma clock_info_decoder: "decoder clock_info_get"
  unfolding clock_info_get_def by (intro decoder_bind decoder_return decoder_int r_flag_decoder)

lemma attested_decoder: "decoder (attested_get E k)"
  unfolding attested_get_def time_info_get_def
  by (intro decoder_bind decoder_if decoder_return decoder_fail decoder_int r_flag_decoder clock_info_decoder tpm2b_decoder
      pcr_selections.decoder_axioms) (simp_all add: attest_limits)

interpretation attest: codec "attest_get E" attest_put attest_enc "attest_ok E"
proof (rule codecI)
  show "decoder (attest_get E)"
    unfolding attest_get_def
    by (intro decoder_bind decoder_if decoder_return decoder_fail decoder_int tpm2b_decoder clock_info_decoder attested_decoder)
       (simp_all add: attest_limits)
  show "attest_put x w = emit (attest_enc x) w" if "attest_ok E x" for x w
    using that by (simp add: attest_put_def attest_enc_def attest_ok_def tpm2b_put_enc writes_emit attest_limits clock_info_put_enc
        attested_put_enc [of E])
  show "reads (attest_get E) x (attest_enc x)" if ok: "attest_ok E x" for x
  proof -
    have "reads (attest_get E) \<lparr>at_magic = at_magic x, at_signer = at_signer x, at_extra = at_extra x, at_clock = at_clock x,
        at_firmware = at_firmware x, at_attested = at_attested x\<rparr>
        (to_be 4 (at_magic x) @ to_be 2 (attested_selector (at_attested x)) @ enc_sized16 (at_signer x)
         @ enc_sized16 (at_extra x) @ (clock_info_enc (at_clock x) @ []) @ to_be 8 (at_firmware x) @ (attested_enc (at_attested x) @ []) @ [])"
      unfolding attest_get_def
      by (rule reads_return | (rule reads_bind, rule reads_int tpm2b_reads clock_info_reads attested_reads) | rule reads_guard
          | (use ok in \<open>simp add: attest_ok_def attest_limits; fail\<close>))+
    then show ?thesis by (cases x) (simp add: attest_enc_def)
  qed
qed

definition creation_enc :: "creation_data \<Rightarrow> bytes" where
  "creation_enc c = list_enc pcr_selection_enc (cd_select c) @ enc_sized16 (cd_pcr_digest c) @ [cd_locality c] @ to_be 2 (cd_parent_alg c)
     @ enc_sized16 (cd_parent_name c) @ enc_sized16 (cd_parent_qualified c) @ enc_sized16 (cd_outside c)"

definition creation_ok :: "env \<Rightarrow> creation_data \<Rightarrow> bool" where
  "creation_ok E c \<longleftrightarrow> length (cd_select c) \<le> HASH_COUNT \<and> list_all (pcr_selection_ok E) (cd_select c)
     \<and> length (cd_pcr_digest c) \<le> MAX_DIGEST_SIZE \<and> length (cd_parent_name c) \<le> SIZEOF_TPMT_HA
     \<and> length (cd_parent_qualified c) \<le> SIZEOF_TPMT_HA \<and> length (cd_outside c) \<le> SIZEOF_TPMT_HA"

interpretation creation: codec "creation_get E" creation_put creation_enc "creation_ok E"
proof (rule codecI)
  have locality: "decoder (unmarshal_attr loc_reserved r_u8)"
    using unmarshal_attr_codec [OF u8.codec_axioms] codec.axioms(1) by blast
  show "decoder (creation_get E)"
    unfolding creation_get_def
    by (intro decoder_bind decoder_return decoder_int tpm2b_decoder locality pcr_selections.decoder_axioms) (simp_all add: attest_limits)
  show "creation_put c w = emit (creation_enc c) w" if "creation_ok E c" for c w
    using that by (simp add: creation_put_def creation_enc_def creation_ok_def tpm2b_put_enc writes_emit attest_limits pcr_selections.put_enc [where E = E])
  show "reads (creation_get E) c (creation_enc c)" if ok: "creation_ok E c" for c
  proof -
    have "reads (unmarshal_attr loc_reserved r_u8) l [l]" for l
      using codec.reads_get [OF unmarshal_attr_codec [OF u8.codec_axioms], of l loc_reserved] by (simp add: loc_reserved_def)
    then have "reads (creation_get E) \<lparr>cd_select = cd_select c, cd_pcr_digest = cd_pcr_digest c, cd_locality = cd_locality c,
        cd_parent_alg = cd_parent_alg c, cd_parent_name = cd_parent_name c, cd_parent_qualified = cd_parent_qualified c,
        cd_outside = cd_outside c\<rparr>
        (list_enc pcr_selection_enc (cd_select c) @ enc_sized16 (cd_pcr_digest c) @ [cd_locality c] @ to_be 2 (cd_parent_alg c)
          @ enc_sized16 (cd_parent_name c) @ enc_sized16 (cd_parent_qualified c) @ enc_sized16 (cd_outside c) @ [])"
      unfolding creation_get_def
      by - (rule reads_return | (rule reads_bind, (assumption | rule pcr_selections.reads_get tpm2b_reads reads_int))
          | (use ok in \<open>simp add: creation_ok_def attest_limits; fail\<close>))+
    then show ?thesis by (cases c) (simp add: creation_enc_def)
  qed
qed

interpretation tpm2b_creation: codec "tpm2b_creation_get E" tpm2b_creation_put "\<lambda>c. enc_sized16 (creation_enc c)"
    "\<lambda>c. creation_ok E c \<and> length (creation_enc c) < 2 ^ 16"
  unfolding tpm2b_creation_get_def [abs_def] tpm2b_creation_put_def [abs_def]
  by (rule creation.sized_codec)

end
