(* ===== verification/Protect.thy ===== *)
theory Protect
  imports Crypto
begin

text \<open>
  Protected storage (\<open>src/tpm/core/protect.rs\<close>): the encryption and the HMAC around a private area or a credential,
  keyed from the seed of the key that protects it and bound to a Name, and the transport of a seed to the holder of
  a public key.
\<close>

abbreviation (input) rc_SENSITIVE :: u32 where "rc_SENSITIVE \<equiv> 0x155"

definition LABEL_STORAGE :: bytes where "LABEL_STORAGE = ascii ''STORAGE''"
definition LABEL_INTEGRITY :: bytes where "LABEL_INTEGRITY = ascii ''INTEGRITY''"
definition LABEL_IDENTITY :: bytes where "LABEL_IDENTITY = ascii ''IDENTITY''"
definition LABEL_DUPLICATE :: bytes where "LABEL_DUPLICATE = ascii ''DUPLICATE''"

section \<open>Wrapping\<close>

definition storage_key :: "env \<Rightarrow> u16 \<Rightarrow> bytes \<Rightarrow> bytes \<Rightarrow> u16 \<Rightarrow> bytes tpm_result" where
  "storage_key E a seed name key_bits = kdfa_bytes E a seed LABEL_STORAGE name [] (ucast key_bits)"

definition integrity_key :: "env \<Rightarrow> u16 \<Rightarrow> bytes \<Rightarrow> bytes tpm_result" where
  "integrity_key E a seed =
     res_bind (hash_size E a) (\<lambda>n. kdfa_bytes E a seed LABEL_INTEGRITY [] [] (of_nat (n * 8)))"

definition outer_integrity :: "env \<Rightarrow> u16 \<Rightarrow> bytes \<Rightarrow> bytes \<Rightarrow> bytes \<Rightarrow> bytes tpm_result" where
  "outer_integrity E a seed encrypted name =
     res_bind (integrity_key E a seed) (\<lambda>k. hmac_parts E a k [encrypted, name])"

definition symmetric_with ::
  "(bytes \<Rightarrow> bytes \<Rightarrow> bytes \<Rightarrow> bytes tpm_result) \<Rightarrow> env \<Rightarrow> u16 \<Rightarrow> bytes \<Rightarrow> sym_def \<Rightarrow> bytes \<Rightarrow> bytes \<Rightarrow> bytes tpm_result" where
  "symmetric_with cipher E a seed sd name input =
     (if sym_is_null sd then Inl rc_SYMMETRIC
      else res_bind (storage_key E a seed name (sym_key_bits sd)) (\<lambda>k.
        res_bind (block_size (sym_alg sd)) (\<lambda>n. cipher k (replicate n 0) input)))"

definition symmetric_wrap :: "env \<Rightarrow> aes_lib \<Rightarrow> u16 \<Rightarrow> bytes \<Rightarrow> sym_def \<Rightarrow> bytes \<Rightarrow> bytes \<Rightarrow> bytes tpm_result" where
  "symmetric_wrap E A = symmetric_with (cfb_encrypt A) E"

definition symmetric_unwrap :: "env \<Rightarrow> aes_lib \<Rightarrow> u16 \<Rightarrow> bytes \<Rightarrow> sym_def \<Rightarrow> bytes \<Rightarrow> bytes \<Rightarrow> bytes tpm_result" where
  "symmetric_unwrap E A = symmetric_with (cfb_decrypt A) E"

definition wrap_private_body :: "env \<Rightarrow> aes_lib \<Rightarrow> u16 \<Rightarrow> bytes \<Rightarrow> sym_def \<Rightarrow> bytes \<Rightarrow> bytes \<Rightarrow> bytes tpm_result" where
  "wrap_private_body E A a seed sd name plaintext =
     res_bind (symmetric_wrap E A a seed sd name plaintext) (\<lambda>encrypted.
     res_bind (outer_integrity E a seed encrypted name) (\<lambda>m.
     res_bind (tpm2b_new MAX_DIGEST_SIZE m) (\<lambda>m.
       w_finish (w_bytes encrypted (tpm2b_put m writer_new)))))"

definition wrap_private :: "env \<Rightarrow> aes_lib \<Rightarrow> u16 \<Rightarrow> bytes \<Rightarrow> sym_def \<Rightarrow> bytes \<Rightarrow> bytes \<Rightarrow> bytes tpm_result" where
  "wrap_private E A a seed sd name secret =
     res_bind (w_finish (sized16 secret writer_new)) (wrap_private_body E A a seed sd name)"

definition unwrap_private_body :: "env \<Rightarrow> aes_lib \<Rightarrow> u16 \<Rightarrow> bytes \<Rightarrow> sym_def \<Rightarrow> bytes \<Rightarrow> bytes \<Rightarrow> bytes tpm_result" where
  "unwrap_private_body E A a seed sd name private =
     res_bind (map_err (\<lambda>_. rc_INTEGRITY) (tpm2b_get MAX_DIGEST_SIZE (reader_new private))) (\<lambda>(m, r).
       let encrypted = fst (take_rest r)
       in if encrypted = [] then Inl rc_INTEGRITY
          else res_bind (outer_integrity E a seed encrypted name) (\<lambda>expected.
            if \<not> constant_time_eq m expected then Inl rc_INTEGRITY
            else symmetric_unwrap E A a seed sd name encrypted))"

definition unwrap_private :: "env \<Rightarrow> aes_lib \<Rightarrow> u16 \<Rightarrow> bytes \<Rightarrow> sym_def \<Rightarrow> bytes \<Rightarrow> bytes \<Rightarrow> bytes tpm_result" where
  "unwrap_private E A a seed sd name private =
     res_bind (unwrap_private_body E A a seed sd name private) (\<lambda>plaintext.
     res_bind (map_err (\<lambda>_. rc_SENSITIVE) (r_u16 (reader_new plaintext))) (\<lambda>(n, r).
     res_bind (map_err (\<lambda>_. rc_SENSITIVE) (r_take (unat n) r)) (\<lambda>(body, _). Inr body)))"

definition wrap_credential :: "env \<Rightarrow> aes_lib \<Rightarrow> u16 \<Rightarrow> bytes \<Rightarrow> sym_def \<Rightarrow> bytes \<Rightarrow> bytes \<Rightarrow> bytes tpm_result" where
  "wrap_credential E A a seed sd name credential =
     res_bind (w_finish (sized16 credential writer_new)) (\<lambda>plaintext.
     res_bind (symmetric_wrap E A a seed sd name plaintext) (\<lambda>encrypted.
     res_bind (outer_integrity E a seed encrypted name) (\<lambda>m.
     res_bind (tpm2b_new MAX_DIGEST_SIZE m) (\<lambda>m.
       w_finish (w_bytes encrypted (tpm2b_put m writer_new))))))"

definition unwrap_credential :: "env \<Rightarrow> aes_lib \<Rightarrow> u16 \<Rightarrow> bytes \<Rightarrow> sym_def \<Rightarrow> bytes \<Rightarrow> bytes \<Rightarrow> bytes tpm_result" where
  "unwrap_credential E A a seed sd name id_object = unwrap_private E A a seed sd name id_object"

section \<open>The transport of a seed\<close>

text \<open>Labels are ASCII; what the code makes of octets that are not is not used.\<close>

definition label_text :: "bytes \<Rightarrow> bytes" where
  "label_text label = takeWhile (\<lambda>b. b \<noteq> 0) label"

definition exchanged_seed ::
  "env \<Rightarrow> u16 \<Rightarrow> bytes \<Rightarrow> bytes \<Rightarrow> bytes \<Rightarrow> bytes \<Rightarrow> bytes tpm_result" where
  "exchanged_seed E a z label sender receiver =
     res_bind (hash_size E a) (\<lambda>n. kdfe E a z (label_text label) sender receiver (of_nat (n * 8)))"

definition ecc_secret :: "bytes \<Rightarrow> bytes \<Rightarrow> bytes tpm_result" where
  "ecc_secret x y =
     res_bind (tpm2b_new MAX_ECC_KEY_BYTES x) (\<lambda>x. res_bind (tpm2b_new MAX_ECC_KEY_BYTES y) (\<lambda>y.
       Inr (to_bytes tpm2b_ecc_point_put \<lparr>pt_x = x, pt_y = y\<rparr>)))"

definition seed_to_public ::
  "env \<Rightarrow> bn_lib \<Rightarrow> ec_lib \<Rightarrow> tpmt_public \<Rightarrow> bytes \<Rightarrow> 'g rng_bytes \<Rightarrow> ('g, bytes \<times> bytes) st_op" where
  "seed_to_public E B L p label rb =
     st_bind (st_lift (hash_size E (name_alg p))) (\<lambda>n.
       case unique p of
         Rsa_id modulus \<Rightarrow>
           if object_type p \<noteq> alg_RSA then st_fail rc_TYPE
           else (case parameters p of
              Rsa_parms r \<Rightarrow>
                st_bind (rb n) (\<lambda>seed.
                st_bind (st_lift (rsa_public_new B modulus (rsa_exponent r))) (\<lambda>k.
                st_bind (oaep_encode E rb (name_alg p) (rsa_size B k) seed label) (\<lambda>block.
                st_bind (st_lift (public_op B k block)) (\<lambda>c.
                  st_return (seed, c)))))
            | _ \<Rightarrow> st_fail rc_TYPE)
       | Ecc_id pt \<Rightarrow>
           if object_type p \<noteq> alg_ECC then st_fail rc_TYPE
           else (case parameters p of
              Ecc_parms e \<Rightarrow>
                st_bind (ecc_generate B L (ecc_curve e) rb) (\<lambda>k.
                st_bind (st_lift (ecdh B L (ek_curve k) (ek_private k) (pt_x pt) (pt_y pt))) (\<lambda>(z, _).
                st_bind (st_lift (exchanged_seed E (name_alg p) z label (ek_x k) (pt_x pt))) (\<lambda>seed.
                st_bind (st_lift (ecc_secret (ek_x k) (ek_y k))) (\<lambda>secret.
                  st_return (seed, secret)))))
            | _ \<Rightarrow> st_fail rc_TYPE)
       | _ \<Rightarrow> st_fail rc_TYPE)"

definition seed_from_private ::
  "env \<Rightarrow> bn_lib \<Rightarrow> ec_lib \<Rightarrow> tpmt_public \<Rightarrow> tpmt_sensitive \<Rightarrow> bytes \<Rightarrow> bytes \<Rightarrow> bytes tpm_result" where
  "seed_from_private E B L p sens secret label =
     (case unique p of
        Rsa_id modulus \<Rightarrow>
          if object_type p \<noteq> alg_RSA then Inl rc_TYPE
          else (case parameters p of
             Rsa_parms r \<Rightarrow>
               res_bind (from_prime B modulus (rsa_exponent r) (secret_of sens)) (\<lambda>k.
               res_bind (private_op B k secret) (\<lambda>plain. oaep_decode E (name_alg p) plain label))
           | _ \<Rightarrow> Inl rc_TYPE)
      | Ecc_id pt \<Rightarrow>
          if object_type p \<noteq> alg_ECC then Inl rc_TYPE
          else (case parameters p of
             Ecc_parms e \<Rightarrow>
               res_bind (curve_new (ecc_curve e)) (\<lambda>c.
               res_bind (map_err (\<lambda>_. rc_VALUE) (from_bytes tpm2b_ecc_point_get secret)) (\<lambda>peer.
               res_bind (ecdh B L c (bn_from_bytes B (secret_of sens)) (pt_x peer) (pt_y peer)) (\<lambda>(z, _).
                 exchanged_seed E (name_alg p) z label (pt_x peer) (pt_x pt))))
           | _ \<Rightarrow> Inl rc_TYPE)
      | _ \<Rightarrow> Inl rc_TYPE)"

section \<open>What is wrapped comes back, and nothing else\<close>

lemma symmetric_roundtrip:
  "aes_ok A \<Longrightarrow> symmetric_wrap E A a seed sd name x = Inr c \<Longrightarrow> length c = length x \<and> symmetric_unwrap E A a seed sd name c = Inr x"
  by (auto simp: symmetric_wrap_def symmetric_unwrap_def symmetric_with_def res_bind_eq_Inr dest: cfb_roundtrip split: if_splits)

text \<open>What makes a private area acceptable: the HMAC over the encryption and the Name, and what the encryption hides.\<close>

definition seals :: "env \<Rightarrow> aes_lib \<Rightarrow> u16 \<Rightarrow> bytes \<Rightarrow> sym_def \<Rightarrow> bytes \<Rightarrow> bytes \<Rightarrow> bytes \<Rightarrow> bool" where
  "seals E A a seed sd name private plaintext \<longleftrightarrow> (\<exists>m c. private = enc_sized16 m @ c \<and> length m \<le> MAX_DIGEST_SIZE \<and> c \<noteq> []
     \<and> outer_integrity E a seed c name = Inr m \<and> symmetric_unwrap E A a seed sd name c = Inr plaintext)"

lemma rest_of_reader: "fst (take_rest r) = rest r"
  by (simp add: take_rest_def rest_def)

lemma tpm2b_get_inverse:
  assumes "tpm2b_get limit (reader_new b) = Inr (m, r)"
  shows "length m \<le> limit \<and> b = enc_sized16 m @ rest r"
proof -
  obtain v r' where v: "r_u16 (reader_new b) = Inr (v, r')" "unat v \<le> limit" "r_take (unat v) r' = Inr (m, r)"
    using assms by (auto simp: tpm2b_get_def res_bind_eq_Inr split: if_splits)
  have "b = to_be 2 v @ rest r'"
    using u16.get_canonical [OF v(1)] by simp
  moreover have "length m = unat v \<and> rest r' = m @ rest r" using r_take_canonical [OF v(3)] .
  ultimately show ?thesis using v(2) by (simp add: enc_sized16_def)
qed

lemma unwrap_body_exact: "unwrap_private_body E A a seed sd name p = Inr x \<longleftrightarrow> seals E A a seed sd name p x"
proof
  assume "unwrap_private_body E A a seed sd name p = Inr x"
  then obtain m r where "tpm2b_get MAX_DIGEST_SIZE (reader_new p) = Inr (m, r)" "rest r \<noteq> []"
      "outer_integrity E a seed (rest r) name = Inr m" "symmetric_unwrap E A a seed sd name (rest r) = Inr x"
    by (auto simp: unwrap_private_body_def res_bind_eq_Inr rest_of_reader constant_time_eq_iff Let_def split: if_splits)
  then show "seals E A a seed sd name p x" using tpm2b_get_inverse unfolding seals_def by blast
next
  assume "seals E A a seed sd name p x"
  then obtain m c where p: "p = enc_sized16 m @ c" "length m \<le> MAX_DIGEST_SIZE" "c \<noteq> []"
    and ok: "outer_integrity E a seed c name = Inr m" "symmetric_unwrap E A a seed sd name c = Inr x"
    unfolding seals_def by blast
  have "tpm2b_get MAX_DIGEST_SIZE (reader_new p) = Inr (m, advance (length (enc_sized16 m)) (reader_new p))"
    by (rule codec.get_enc [OF tpm2b_codec, where t = c]) (use p in \<open>simp_all add: MAX_DIGEST_SIZE_def\<close>)
  then show "unwrap_private_body E A a seed sd name p = Inr x"
    using ok p(3) by (simp add: unwrap_private_body_def rest_of_reader constant_time_eq_iff p(1))
qed

lemma seals_wrapped:
  assumes "aes_ok A" and "wrap_private_body E A a seed sd name x = Inr p" and "x \<noteq> []"
  shows "seals E A a seed sd name p x"
proof -
  obtain c m where c: "symmetric_wrap E A a seed sd name x = Inr c" "outer_integrity E a seed c name = Inr m" "length m \<le> MAX_DIGEST_SIZE"
    and p: "p = wbuf (w_bytes c (tpm2b_put m writer_new))"
    using assms(2) by (auto simp: wrap_private_body_def res_bind_eq_Inr tpm2b_new_def w_finish_def split: if_splits)
  have "p = enc_sized16 m @ c"
    using c(3) p by (simp add: codec.put_enc [OF tpm2b_codec [of MAX_DIGEST_SIZE]] MAX_DIGEST_SIZE_def writes_emit writer_new_def)
  then show ?thesis
    using c symmetric_roundtrip [OF assms(1) c(1)] assms(3) unfolding seals_def by fastforce
qed

lemma sized_written: "w_finish (sized16 b writer_new) = Inr p \<longleftrightarrow> length b < 2 ^ 16 \<and> p = enc_sized16 b"
  by (auto simp: w_finish_def sized16_def writer_new_def w_bytes_def w_u16_def enc_sized16_def)

lemma unwrap_exact:
  "unwrap_private E A a seed sd name p = Inr x \<longleftrightarrow>
     length x < 2 ^ 16 \<and> (\<exists>t. seals E A a seed sd name p (enc_sized16 x @ t))"
proof
  assume "unwrap_private E A a seed sd name p = Inr x"
  then obtain y v r r' where y: "seals E A a seed sd name p y" "r_u16 (reader_new y) = Inr (v, r)" "r_take (unat v) r = Inr (x, r')"
    by (auto simp: unwrap_private_def res_bind_eq_Inr unwrap_body_exact)
  have "y = to_be 2 v @ rest r" "length x = unat v" "rest r = x @ rest r'"
    using u16.get_canonical [OF y(2)] r_take_canonical [OF y(3)] by simp_all
  moreover from this have "length x < 2 ^ 16" using unsigned_less [of v] by simp
  ultimately show "length x < 2 ^ 16 \<and> (\<exists>t. seals E A a seed sd name p (enc_sized16 x @ t))"
    using y(1) by (auto simp: enc_sized16_def)
next
  assume "length x < 2 ^ 16 \<and> (\<exists>t. seals E A a seed sd name p (enc_sized16 x @ t))"
  then obtain t where "length x < 2 ^ 16" "seals E A a seed sd name p (enc_sized16 x @ t)" by blast
  then show "unwrap_private E A a seed sd name p = Inr x"
    by (simp add: unwrap_private_def flip: unwrap_body_exact)
       (simp add: enc_sized16_def r_u16_append [where t = "x @ t"] unat_of_nat_u16 r_take_append [where bs = x and t = t])
qed

lemma wrapped_unwraps:
  assumes "aes_ok A" and "wrap_private E A a seed sd name x = Inr p"
  shows "unwrap_private E A a seed sd name p = Inr x"
proof -
  have "length x < 2 ^ 16" "wrap_private_body E A a seed sd name (enc_sized16 x) = Inr p"
    using assms(2) by (auto simp: wrap_private_def res_bind_eq_Inr sized_written)
  moreover have "0 < length (enc_sized16 x)" by (simp add: enc_sized16_def)
  then have "enc_sized16 x \<noteq> []" by auto
  ultimately have "length x < 2 ^ 16" "seals E A a seed sd name p (enc_sized16 x)" using seals_wrapped [OF assms(1)] by blast+
  then show ?thesis unfolding unwrap_exact by (metis append_Nil2)
qed

text \<open>C15: protected storage. What TPM2_Create or TPM2_MakeCredential wraps is unwrapped with the same seed, cipher and
  Name to the octets that went in. And whatever is unwrapped at all, for whatever private area, has before its encrypted
  part exactly the HMAC, keyed from that seed, of that part and of the Name it is unwrapped under: the check covers
  every octet of the area and of the Name.\<close>

theorem protected_storage:
  assumes "aes_ok A"
  shows "(\<forall>p. wrap_private E A a seed sd name x = Inr p \<longrightarrow> unwrap_private E A a seed sd name p = Inr x)
    \<and> (\<forall>p. wrap_credential E A a seed sd name x = Inr p \<longrightarrow> unwrap_credential E A a seed sd name p = Inr x)
    \<and> (\<forall>p y. unwrap_private E A a seed sd name p = Inr y \<longrightarrow>
         (\<exists>key m c t. integrity_key E a seed = Inr key \<and> hmac_parts E a key [c, name] = Inr m \<and> p = enc_sized16 m @ c
            \<and> symmetric_unwrap E A a seed sd name c = Inr (enc_sized16 y @ t)))"
proof -
  have undone: "unwrap_private E A a seed sd name p = Inr x" if "wrap_private E A a seed sd name x = Inr p" for p
    using wrapped_unwraps [OF assms that] .
  moreover have "wrap_credential E A a seed sd name x = wrap_private E A a seed sd name x"
    by (simp add: wrap_credential_def wrap_private_def wrap_private_body_def [abs_def])
  moreover have "\<exists>key m c t. integrity_key E a seed = Inr key \<and> hmac_parts E a key [c, name] = Inr m \<and> p = enc_sized16 m @ c
        \<and> symmetric_unwrap E A a seed sd name c = Inr (enc_sized16 y @ t)"
    if "unwrap_private E A a seed sd name p = Inr y" for p y
  proof -
    from that obtain m c t where "p = enc_sized16 m @ c" "outer_integrity E a seed c name = Inr m"
        "symmetric_unwrap E A a seed sd name c = Inr (enc_sized16 y @ t)"
      unfolding unwrap_exact seals_def by blast
    then show ?thesis by (auto simp: outer_integrity_def res_bind_eq_Inr)
  qed
  ultimately show ?thesis by (simp add: unwrap_credential_def)
qed

lemma wrap_succeeds:
  assumes "length x < 2 ^ 16" and "symmetric_wrap E A a seed sd name (enc_sized16 x) = Inr c"
    and "outer_integrity E a seed c name = Inr m" and "length m \<le> MAX_DIGEST_SIZE"
  shows "wrap_private E A a seed sd name x = Inr (enc_sized16 m @ c)"
  using assms
  by (simp add: wrap_private_def sized_written [THEN iffD2] wrap_private_body_def tpm2b_new_def codec.put_enc [OF tpm2b_codec [of MAX_DIGEST_SIZE]]
      writes_emit) (simp add: w_finish_def writer_new_def MAX_DIGEST_SIZE_def codec.put_enc [OF tpm2b_codec [of 64]])

theorem protected_storage_witness:
  "\<exists>p. wrap_private (demo_env True) demo_aes alg_SHA256 [1] (sym_new alg_AES 128 alg_CFB) [2] [3, 4] = Inr p
     \<and> unwrap_private (demo_env True) demo_aes alg_SHA256 [1] (sym_new alg_AES 128 alg_CFB) [2] p = Inr [3, 4]"
proof -
  let ?E = "demo_env True" and ?sd = "sym_new alg_AES 128 alg_CFB"
  have sup: "is_supported ?E alg_SHA256" by (simp add: is_supported_def hash_algorithm_def)
  have kdf: "\<exists>k. kdfa_bytes ?E alg_SHA256 [1] l n [] b = Inr k \<and> length k = (unat b + 7) div 8" if "unat b \<le> 8192" for l n and b :: u32
    using kdfa_cases [OF env_ok_demo [of True], where a = alg_SHA256 and key = "[1]" and label = l and u = n and v = "[]" and bits = b] that sup by (auto split: sum.splits)
  obtain k where k: "storage_key ?E alg_SHA256 [1] [2] 128 = Inr k" "length k = 16"
    using kdf [of 128] by (auto simp: storage_key_def)
  obtain c where "cfb_encrypt demo_aes k (replicate 16 0) (enc_sized16 [3, 4]) = Inr c"
    by (simp add: cfb_encrypt_def encrypt_def crypt_def is_supported_mode_def expanded_key_def k(2) AES_BLOCK_SIZE_def enc_sized16_def demo_aes_def)
  then have c: "symmetric_wrap ?E demo_aes alg_SHA256 [1] ?sd [2] (enc_sized16 [3, 4]) = Inr c"
    by (simp add: symmetric_wrap_def symmetric_with_def sym_is_null_def sym_new_def k block_size_def AES_BLOCK_SIZE_def)
  obtain i where i: "integrity_key ?E alg_SHA256 [1] = Inr i"
    using kdf [where l = LABEL_INTEGRITY and n = "[]" and b = 256] sup env_ok_demo [of True]
    by (auto simp: integrity_key_def hash_size_def supported_algorithm env_ok_def)
  have "\<exists>m. outer_integrity ?E alg_SHA256 [1] c [2] = Inr m \<and> length m \<le> MAX_DIGEST_SIZE"
    using hmac_parts_spec [OF sup, of 64 i "[c, [2]]"] i env_ok_demo [of True]
    by (simp add: outer_integrity_def hash_block_size_def hash_algorithm_def hmac_spec_def Let_def env_ok_length env_ok_def MAX_DIGEST_SIZE_def)
  with c obtain p where "wrap_private ?E demo_aes alg_SHA256 [1] ?sd [2] [3, 4] = Inr p"
    using wrap_succeeds [of "[3, 4]" ?E demo_aes alg_SHA256 "[1]" ?sd "[2]" c] by auto
  with protected_storage [OF aes_ok_demo] show ?thesis by blast
qed

section \<open>A seed reaches the holder of the private key\<close>

text \<open>A key pair: for RSA the modulus is the product of the kept prime and another, for elliptic curves the point is
  that of the scalar.\<close>

definition key_matches :: "bn_lib \<Rightarrow> ec_lib \<Rightarrow> tpmt_public \<Rightarrow> tpmt_sensitive \<Rightarrow> bool" where
  "key_matches B L p s \<longleftrightarrow> (case (unique p, parameters p) of
     (Rsa_id m, Rsa_parms r) \<Rightarrow> object_type p = alg_RSA \<and> length m \<le> MAX_KDF_BYTES
       \<and> is_ok (from_prime B m (rsa_exponent r) (secret_of s))
       \<and> (\<exists>q. octets_value m = octets_value (secret_of s) * q \<and> is_prime (octets_value (secret_of s)) \<and> is_prime q
            \<and> octets_value (secret_of s) \<noteq> q)
   | (Ecc_id pt, Ecc_parms e) \<Rightarrow> object_type p = alg_ECC
       \<and> (\<exists>c. curve_new (ecc_curve e) = Inr c \<and> key_pair B L c (bn_from_bytes B (secret_of s)) (pt_x pt) (pt_y pt))
   | _ \<Rightarrow> False)"

lemma rsa_seed_arrives:
  assumes E: "env_ok E" and B: "bn_ok B" and rb: "\<And>n g b g'. rb n g = (Inr b, g') \<Longrightarrow> length b = n"
    and p: "unique p = Rsa_id m" "parameters p = Rsa_parms r" and key: "key_matches B L p s"
    and sent: "seed_to_public E B L p label rb g = (Inr (seed, secret), g')"
  shows "seed_from_private E B L p s secret label = Inr seed"
proof -
  let ?a = "name_alg p"
  obtain k q where k: "from_prime B m (rsa_exponent r) (secret_of s) = Inr k" and ty: "object_type p = alg_RSA" "length m \<le> MAX_KDF_BYTES"
    and q: "octets_value m = octets_value (secret_of s) * q" "is_prime (octets_value (secret_of s))" "is_prime q"
      "octets_value (secret_of s) \<noteq> q"
    using key by (auto simp: key_matches_def p is_ok_iff)
  have pub: "rsa_public_new B m (rsa_exponent r) = Inr (prv_public k)"
    using k by (auto simp: from_prime_def res_bind_eq_Inr Let_def split: if_splits)
  then obtain n g1 block g2 where n: "hash_size E ?a = Inr n" and seed: "rb n g = (Inr seed, g1)"
    and block: "oaep_encode E rb ?a (rsa_size B (prv_public k)) seed label g1 = (Inr block, g2)"
    and c: "public_op B (prv_public k) block = Inr secret"
    using sent ty by (auto simp: seed_to_public_def p st_bind_def st_lift_def split: sum.splits prod.splits)
  have inverted: "private_op B k secret = Inr block" by (rule rsa_inverts [OF B k q c])
  have sup: "is_supported E ?a" and len: "output_len E ?a = n"
    using n supported_algorithm [of E ?a] by (auto simp: hash_size_def is_supported_def is_ok_iff res_bind_eq_Inr)
  have "pub_n (prv_public k) = int (octets_value m)"
    using pub bn_arith(1-5) [OF B] by (auto simp: rsa_public_new_def Let_def dest!: sym [of _ "prv_public k"] split: if_splits)
  moreover have "octets_value m < 2 ^ (8 * length m)" using octets_value_bound [of m] by (simp add: power_mult)
  ultimately have "BN_num_bits B (pub_n (prv_public k)) \<le> 8 * length m"
    using bn_num_bits_le [OF B, of "pub_n (prv_public k)" "8 * length m"] by simp
  then have "rsa_size B (prv_public k) \<le> MAX_KDF_BYTES" using ty(2) by (simp add: rsa_size_def)
  moreover obtain s2 g3 where "rb (output_len E ?a) g1 = (Inr s2, g3)" "length s2 = output_len E ?a"
    using block rb n len by (auto simp: oaep_encode_def st_bind_def st_lift_def Let_def split: sum.splits prod.splits if_splits)
  ultimately have "oaep_decode E ?a block label = Inr seed"
    using oaep_inverts [OF E sup, of "rsa_size B (prv_public k)" rb g1 s2 g3 seed label] block by (auto split: if_splits)
  then show ?thesis using ty k inverted by (simp add: seed_from_private_def p)
qed

lemma ecdh_agrees:
  assumes "bn_ok B" "ec_ok L" and "key_pair B L c d x y" and "key_pair B L c e u v"
  shows "ecdh B L c d u v = ecdh B L c e x y"
  using key_pair_point [OF assms(1,2,3)] key_pair_point [OF assms(1,2,4)] assms(3,4)
  by (simp add: ecdh_def ec_group(4) [OF assms(2)] key_pair_def mult.commute)

lemma ecc_seed_arrives:
  assumes B: "bn_ok B" and L: "ec_ok L"
    and p: "unique p = Ecc_id pt" "parameters p = Ecc_parms e" and key: "key_matches B L p s"
    and sent: "seed_to_public E B L p label rb g = (Inr (seed, secret), g')"
  shows "seed_from_private E B L p s secret label = Inr seed"
proof -
  obtain c where c: "curve_new (ecc_curve e) = Inr c" and ty: "object_type p = alg_ECC"
    and own: "key_pair B L c (bn_from_bytes B (secret_of s)) (pt_x pt) (pt_y pt)"
    using key by (auto simp: key_matches_def p)
  obtain k g1 z zy where k: "ecc_generate B L (ecc_curve e) rb g = (Inr k, g1)"
    and z: "ecdh B L (ek_curve k) (ek_private k) (pt_x pt) (pt_y pt) = Inr (z, zy)"
    and seed: "exchanged_seed E (name_alg p) z label (ek_x k) (pt_x pt) = Inr seed"
    and secret: "ecc_secret (ek_x k) (ek_y k) = Inr secret"
    using sent ty by (auto simp: seed_to_public_def p st_bind_def st_lift_def split: sum.splits prod.splits)
  obtain h where kc: "ek_curve k = c" and d: "private_key_from_rng B L c rb g = (Inr (ek_private k), h)"
    and xy: "point_coordinates B L c (multiply_generator L c (ek_private k)) = Inr (ek_x k, ek_y k)"
    using k c by (auto simp: ecc_generate_def st_bind_def st_lift_def Let_def split: sum.splits prod.splits)
  have "key_pair B L c (ek_private k) (ek_x k) (ek_y k)"
    using draw_private_range [OF B d [unfolded private_key_from_rng_def]] xy by (simp add: key_pair_def)
  from ecdh_agrees [OF B L own this] z have shared: "ecdh B L c (bn_from_bytes B (secret_of s)) (ek_x k) (ek_y k) = Inr (z, zy)"
    by (simp add: kc)
  have "from_bytes tpm2b_ecc_point_get secret = Inr \<lparr>pt_x = ek_x k, pt_y = ek_y k\<rparr>"
    using secret tpm2b_ecc_point.from_to_bytes [of "\<lparr>pt_x = ek_x k, pt_y = ek_y k\<rparr>"]
    by (auto simp: ecc_secret_def res_bind_eq_Inr tpm2b_new_def ecc_point_ok_def ecc_point_enc_def MAX_ECC_KEY_BYTES_def enc_sized16_def
        split: if_splits)
  then show ?thesis using ty c shared seed by (simp add: seed_from_private_def p)
qed

text \<open>C17: a seed reaches the holder of the private key. The secret that TPM2_MakeCredential, TPM2_Duplicate and the
  other senders make for a public key, whatever the random octets, gives the holder of the matching private area the same
  seed back: through OAEP for RSA, through an ephemeral Diffie-Hellman exchange for elliptic curves.\<close>

theorem seed_reaches_holder:
  assumes "env_ok E" and "bn_ok B" and "ec_ok L" and "\<And>n g b g'. rb n g = (Inr b, g') \<Longrightarrow> length b = n"
    and "key_matches B L p s" and "seed_to_public E B L p label rb g = (Inr (seed, secret), g')"
  shows "seed_from_private E B L p s secret label = Inr seed"
proof (cases "unique p")
  case (Rsa_id m)
  with assms(5) obtain r where "parameters p = Rsa_parms r" by (auto simp: key_matches_def split: public_parms.splits)
  from rsa_seed_arrives [OF assms(1,2,4) Rsa_id this assms(5,6)] show ?thesis .
next
  case (Ecc_id pt)
  with assms(5) obtain e where "parameters p = Ecc_parms e" by (auto simp: key_matches_def split: public_parms.splits)
  from ecc_seed_arrives [OF assms(2,3) Ecc_id this assms(5,6)] show ?thesis .
qed (use assms(5) in \<open>simp_all add: key_matches_def\<close>)

definition demo_ecc_public :: tpmt_public where
  "demo_ecc_public = demo_rsa\<lparr>object_type := alg_ECC,
     parameters := Ecc_parms \<lparr>ecc_symmetric = sym_null, ecc_scheme = scheme_null, ecc_curve = 3, ecc_kdf = scheme_null\<rparr>,
     unique := Ecc_id \<lparr>pt_x = [5], pt_y = [0]\<rparr>\<rparr>"

definition demo_ecc_sensitive :: tpmt_sensitive where
  "demo_ecc_sensitive = \<lparr>sensitive_type = alg_ECC, sens_auth = [], sens_seed = [], sens_value = Ecc_private [5]\<rparr>"

lemma kdfe_total:
  assumes "env_ok E" and "is_supported E a" and "unat bits \<le> 8192"
  shows "\<exists>out. kdfe E a z label u v bits = Inr out"
proof -
  have "0 < output_len E a" using supported_output_len [OF assms(1,2)] by auto
  then show ?thesis
    using assms kdf_loop_blocks [where d = "output_len E a" and f = "\<lambda>c. raw_digest E a (to_be 4 c @ z @ label @ [0] @ u @ v)"]
    by (simp add: kdfe_def kdf_output_len_Inr [THEN iffD2] hash_size_def supported_algorithm hasher_new_def hasher_finish_def
        hasher_update_def Let_def env_ok_length)
qed

theorem seed_reaches_holder_witness:
  "\<exists>seed secret g. seed_to_public (demo_env True) demo_bn demo_ec demo_ecc_public [73, 0] (\<lambda>n g. (Inr (replicate n 3), g)) (0 :: nat)
        = (Inr (seed, secret), g)
     \<and> seed_from_private (demo_env True) demo_bn demo_ec demo_ecc_public demo_ecc_sensitive secret [73, 0] = Inr seed"
proof -
  let ?E = "demo_env True" and ?rb = "\<lambda>n g. (Inr (replicate n (3 :: u8)), g :: nat)" and ?c = "\<lparr>cv_group = Prime256v1, cv_id = 3\<rparr>"
  let ?k = "\<lparr>ek_curve = ?c, ek_private = 3, ek_x = [3], ek_y = [0]\<rparr>"
  have sup: "is_supported ?E alg_SHA256" by (simp add: is_supported_def hash_algorithm_def)
  have pub: "name_alg demo_ecc_public = alg_SHA256" "unique demo_ecc_public = Ecc_id \<lparr>pt_x = [5], pt_y = [0]\<rparr>"
      "object_type demo_ecc_public = alg_ECC" "parameters demo_ecc_public
        = Ecc_parms \<lparr>ecc_symmetric = sym_null, ecc_scheme = scheme_null, ecc_curve = 3, ecc_kdf = scheme_null\<rparr>"
    by (simp_all add: demo_ecc_public_def demo_rsa_def)
  have n: "hash_size ?E alg_SHA256 = Inr 32" using sup env_ok_demo [of True] by (simp add: hash_size_def supported_algorithm env_ok_def)
  obtain seed where seed: "exchanged_seed ?E alg_SHA256 [2] [73, 0] [3] [5] = Inr seed"
    using kdfe_total [OF env_ok_demo sup, of 256 "[2]" "label_text [73, 0]" "[3]" "[5]"] by (auto simp: exchanged_seed_def n)
  have "ecc_generate demo_bn demo_ec 3 ?rb 0 = (Inr ?k, 0)" by code_simp
  moreover have "ecdh demo_bn demo_ec ?c 3 [5] [0] = Inr ([2], [0])" by code_simp
  moreover have "\<exists>secret. ecc_secret [3] [0] = Inr secret" by (simp add: ecc_secret_def tpm2b_new_def MAX_ECC_KEY_BYTES_def)
  ultimately obtain secret where sent: "seed_to_public ?E demo_bn demo_ec demo_ecc_public [73, 0] ?rb 0 = (Inr (seed, secret), 0)"
    using seed by (auto simp: seed_to_public_def pub n st_bind_def st_lift_def st_return_def)
  have "curve_new 3 = Inr ?c" "key_pair demo_bn demo_ec ?c (bn_from_bytes demo_bn [5]) [5] [0]" by code_simp+
  then have "key_matches demo_bn demo_ec demo_ecc_public demo_ecc_sensitive"
    by (simp add: key_matches_def pub demo_ecc_sensitive_def secret_of_def)
  from seed_reaches_holder [OF env_ok_demo demo_bn_ok demo_ec_ok _ this sent] sent show ?thesis by fastforce
qed

end
