(* ===== verification/Contexts.thy ===== *)
theory Contexts
  imports Protect HierarchyCommands
begin

text \<open>
  Saved contexts (\<open>src/tpm/commands/context.rs\<close>, \<open>src/tpm/structures/context.rs\<close>): how an object, a sequence or a
  session is put into octets, encrypted and authenticated under the proof of its hierarchy, and comes back; and the
  making and removing of persistent objects.
\<close>

section \<open>Structures\<close>

record context_data =
  cdt_integrity :: bytes
  cdt_encrypted :: bytes

definition MAX_CONTEXT_SIZE :: nat where "MAX_CONTEXT_SIZE = 2048"
definition MAX_CONTEXT_BLOB :: nat where "MAX_CONTEXT_BLOB = (2 + SIZEOF_TPMT_HA) + 2 + MAX_CONTEXT_SIZE"

definition context_data_put :: "context_data \<Rightarrow> writer \<Rightarrow> writer" where
  "context_data_put d w = tpm2b_put (cdt_encrypted d) (tpm2b_put (cdt_integrity d) w)"

definition context_data_get :: "reader \<Rightarrow> (context_data \<times> reader) tpm_result" where
  "context_data_get r =
     res_bind (tpm2b_get MAX_DIGEST_SIZE r) (\<lambda>(i, r). res_bind (tpm2b_get MAX_CONTEXT_SIZE r) (\<lambda>(e, r).
       Inr (\<lparr>cdt_integrity = i, cdt_encrypted = e\<rparr>, r)))"

record saved_context =
  cx_sequence :: u64
  cx_handle :: u32
  cx_hierarchy :: u32
  cx_blob :: bytes

definition saved_TRANSIENT_OBJECT :: u32 where "saved_TRANSIENT_OBJECT = 0x80000000"
definition saved_SEQUENCE_OBJECT :: u32 where "saved_SEQUENCE_OBJECT = 0x80000001"
definition saved_TRANSIENT_STCLEAR :: u32 where "saved_TRANSIENT_STCLEAR = 0x80000002"

definition context_put :: "saved_context \<Rightarrow> writer \<Rightarrow> writer" where
  "context_put c w = tpm2b_put (cx_blob c) (w_u32 (cx_hierarchy c) (w_u32 (cx_handle c) (w_u64 (cx_sequence c) w)))"

definition context_get :: "reader \<Rightarrow> (saved_context \<times> reader) tpm_result" where
  "context_get r =
     res_bind (r_u64 r) (\<lambda>(n, r). res_bind (r_u32 r) (\<lambda>(h, r). res_bind (r_u32 r) (\<lambda>(k, r).
     res_bind (tpm2b_get MAX_CONTEXT_BLOB r) (\<lambda>(b, r).
       Inr (\<lparr>cx_sequence = n, cx_handle = h, cx_hierarchy = k, cx_blob = b\<rparr>, r)))))"

section \<open>Encryption and integrity\<close>

definition LABEL_CONTEXT :: bytes where "LABEL_CONTEXT = ascii ''CONTEXT''"
definition CONTEXT_ENCRYPT_ALG :: u16 where "CONTEXT_ENCRYPT_ALG = alg_AES"
definition CONTEXT_ENCRYPT_KEY_BITS :: nat where "CONTEXT_ENCRYPT_KEY_BITS = 256"

definition context_encryption :: "env \<Rightarrow> tpm_state \<Rightarrow> u32 \<Rightarrow> u64 \<Rightarrow> u32 \<Rightarrow> (bytes \<times> bytes) tpm_result" where
  "context_encryption E s h n saved_handle =
     res_bind (hierarchy_proof E h s) (\<lambda>proof_value.
     res_bind (block_size CONTEXT_ENCRYPT_ALG) (\<lambda>iv_octets.
       let key_octets = CONTEXT_ENCRYPT_KEY_BITS div 8 in
       res_bind (kdfa_bytes E CONTEXT_INTEGRITY_HASH_ALG proof_value LABEL_CONTEXT (to_be 8 n) (to_be 4 saved_handle)
           (of_nat ((key_octets + iv_octets) * 8))) (\<lambda>material.
         Inr (take key_octets material, drop key_octets material))))"

definition context_counters :: "tpm_state \<Rightarrow> u32 \<Rightarrow> bytes" where
  "context_counters s saved_handle =
     clk_reset_value (clock_of s) @ (if saved_handle = saved_TRANSIENT_STCLEAR then to_be 4 (clear_count (clock_of s)) else [])"

definition context_integrity :: "env \<Rightarrow> tpm_state \<Rightarrow> u32 \<Rightarrow> u64 \<Rightarrow> u32 \<Rightarrow> bytes \<Rightarrow> bytes tpm_result" where
  "context_integrity E s h n saved_handle encrypted =
     res_bind (hierarchy_proof E h s) (\<lambda>proof_value.
       hmac_parts E CONTEXT_INTEGRITY_HASH_ALG proof_value [context_counters s saved_handle, to_be 8 n, to_be 4 saved_handle, encrypted])"

definition seal_context :: "env \<Rightarrow> aes_lib \<Rightarrow> tpm_state \<Rightarrow> u32 \<Rightarrow> u64 \<Rightarrow> u32 \<Rightarrow> bytes \<Rightarrow> bytes tpm_result" where
  "seal_context E A s h n saved_handle body =
     res_bind (context_encryption E s h n saved_handle) (\<lambda>(key, iv).
       let plain = to_be 8 n @ body; sized = to_be 2 (of_nat (length plain) :: u16) @ plain in
       res_bind (cfb_encrypt A key iv sized) (\<lambda>encrypted.
       res_bind (context_integrity E s h n saved_handle encrypted) (\<lambda>m.
       res_bind (tpm2b_new MAX_DIGEST_SIZE m) (\<lambda>m.
       res_bind (tpm2b_new MAX_CONTEXT_SIZE encrypted) (\<lambda>encrypted.
         tpm2b_new MAX_CONTEXT_BLOB (to_bytes context_data_put \<lparr>cdt_integrity = m, cdt_encrypted = encrypted\<rparr>))))))"

text \<open>A sequence number that differs after decryption puts the TPM into failure mode.\<close>

definition open_context :: "env \<Rightarrow> aes_lib \<Rightarrow> saved_context \<Rightarrow> (tpm_state, bytes) st_op" where
  "open_context E A c s =
     (let bad = with_parameter 1 rc_BAD_CONTEXT in
      case res_bind (map_err (\<lambda>_. bad) (from_bytes context_data_get (cx_blob c))) (\<lambda>d.
           res_bind (context_integrity E s (cx_hierarchy c) (cx_sequence c) (cx_handle c) (cdt_encrypted d)) (\<lambda>expected.
           if \<not> constant_time_eq expected (cdt_integrity d) then Inl (with_parameter 1 rc_INTEGRITY)
           else res_bind (context_encryption E s (cx_hierarchy c) (cx_sequence c) (cx_handle c)) (\<lambda>(key, iv).
                res_bind (cfb_decrypt A key iv (cdt_encrypted d)) (\<lambda>sized.
                  if length sized < 2 then Inl bad
                  else let inner = unat (from_be (take 2 sized) :: u16) in
                    if inner + 2 \<noteq> length sized \<or> inner < 8 then Inl bad else Inr (drop 2 sized))))) of
        Inl e \<Rightarrow> (Inl e, s)
      | Inr plain \<Rightarrow>
          if from_be (take 8 plain) \<noteq> cx_sequence c then (Inl rc_FAILURE, s\<lparr>failure_mode := True\<rparr>)
          else (Inr (drop 8 plain), s))"

section \<open>Bodies\<close>

definition object_body :: "object \<Rightarrow> bytes tpm_result" where
  "object_body x =
     w_finish (sized16 (obj_qualified x) (w_option sensitive_put (obj_sensitive x) (public_put (obj_public x)
       (w_bool (tpm_generated x) (w_u32 (obj_hierarchy x) writer_new)))))"

text \<open>What follows a body is not looked at.\<close>

definition read_body :: "(reader \<Rightarrow> ('a \<times> reader) tpm_result) \<Rightarrow> bytes \<Rightarrow> 'a tpm_result" where
  "read_body get body = res_bind (get (reader_new body)) (\<lambda>(x, _). Inr x)"

definition object_get :: "env \<Rightarrow> key_lib \<Rightarrow> bool \<Rightarrow> reader \<Rightarrow> (object \<times> reader) tpm_result" where
  "object_get E K clears r =
     res_bind (r_u32 r) (\<lambda>(h, r).
     res_bind (r_bool r) (\<lambda>(generated, r).
     res_bind (public_get E r) (\<lambda>(p, r).
     res_bind (r_option sensitive_get r) (\<lambda>(sens, r).
     res_bind (r_sized r) (\<lambda>(q, r).
     res_bind (validate_restored E K p sens) (\<lambda>_.
     res_bind (object_name E p) (\<lambda>n.
       Inr (\<lparr>obj_public = p, obj_sensitive = sens, obj_name = n, obj_qualified = q, obj_hierarchy = h,
             tpm_generated = generated, state_clear = clears\<rparr>, r))))))))"

definition object_unbody :: "env \<Rightarrow> key_lib \<Rightarrow> bytes \<Rightarrow> bool \<Rightarrow> object tpm_result" where
  "object_unbody E K body clears = read_body (object_get E K clears) body"

fun kind_put :: "sequence_kind \<Rightarrow> writer \<Rightarrow> writer" where
  "kind_put (Hash_sequence a) w = w_u16 a (w_u8 0 w)"
| "kind_put (Hmac_sequence a k) w = sized16 k (w_u16 a (w_u8 1 w))"
| "kind_put Event_sequence w = w_u8 2 w"

definition kind_get :: "reader \<Rightarrow> (sequence_kind \<times> reader) tpm_result" where
  "kind_get r =
     res_bind (r_u8 r) (\<lambda>(t, r).
       if t = 0 then res_bind (r_u16 r) (\<lambda>(a, r). Inr (Hash_sequence a, r))
       else if t = 1 then res_bind (r_u16 r) (\<lambda>(a, r). res_bind (r_sized r) (\<lambda>(k, r). Inr (Hmac_sequence a k, r)))
       else if t = 2 then Inr (Event_sequence, r)
       else Inl rc_BAD_CONTEXT)"

definition sequence_body :: "sequence \<Rightarrow> bytes tpm_result" where
  "sequence_body x =
     w_finish (w_bool (short_first_buffer x) (w_bytes (seq_buffer x) (w_u32 (of_nat (length (seq_buffer x)))
       (sized16 (seq_auth x) (kind_put (seq_kind x) writer_new)))))"

definition sequence_get :: "reader \<Rightarrow> (sequence \<times> reader) tpm_result" where
  "sequence_get r =
     res_bind (kind_get r) (\<lambda>(k, r).
     res_bind (r_sized r) (\<lambda>(a, r).
     res_bind (r_u32 r) (\<lambda>(n, r).
       if MAX_SEQUENCE_BYTES < unat n then Inl rc_BAD_CONTEXT
       else res_bind (r_take (unat n) r) (\<lambda>(b, r).
            res_bind (r_bool r) (\<lambda>(short, r).
              Inr (\<lparr>seq_kind = k, seq_auth = a, seq_buffer = b, short_first_buffer = short\<rparr>, r))))))"

definition sequence_unbody :: "bytes \<Rightarrow> sequence tpm_result" where
  "sequence_unbody = read_body sequence_get"

definition session_body :: "session \<Rightarrow> bytes tpm_result" where
  "session_body x =
     w_finish (sized16 (audit_digest (audit x)) (w_bool (is_audit (audit x)) (policy_put (policy x)
       (sym_def_put (symmetric x) (w_u64 (time_epoch x) (w_u64 (start_time x) (w_bool (bind_uses_lockout x)
         (sized16 (bind_name x) (w_u32 (ses_bind x) (sized16 (session_key x) (sized16 (nonce_caller x)
           (sized16 (nonce_tpm x) (w_u16 (auth_hash x) (w_u8 (session_type x) (w_u32 (ses_handle x) writer_new)))))))))))))))"

definition session_get :: "env \<Rightarrow> reader \<Rightarrow> (session \<times> reader) tpm_result" where
  "session_get E r =
     res_bind (r_u32 r) (\<lambda>(h, r).
     res_bind (r_u8 r) (\<lambda>(t, r).
     res_bind (r_u16 r) (\<lambda>(a, r).
     res_bind (r_sized r) (\<lambda>(n_tpm, r).
     res_bind (r_sized r) (\<lambda>(n_caller, r).
     res_bind (r_sized r) (\<lambda>(k, r).
     res_bind (r_u32 r) (\<lambda>(b, r).
     res_bind (r_sized r) (\<lambda>(name, r).
     res_bind (r_bool r) (\<lambda>(counts, r).
     res_bind (r_u64 r) (\<lambda>(start, r).
     res_bind (r_u64 r) (\<lambda>(ep, r).
     res_bind (sym_def_get E r) (\<lambda>(sd, r).
     res_bind (policy_get r) (\<lambda>(pol, r).
     res_bind (r_bool r) (\<lambda>(audits, r).
     res_bind (r_sized r) (\<lambda>(d, r).
     res_bind (session_new E h t a n_tpm n_caller k b name sd) (\<lambda>x.
       Inr (x\<lparr>bind_uses_lockout := counts, start_time := start, time_epoch := ep, policy := pol,
              audit := \<lparr>is_audit = audits, audit_digest = d\<rparr>\<rparr>, r)))))))))))))))))"

definition session_unbody :: "env \<Rightarrow> bytes \<Rightarrow> session tpm_result" where
  "session_unbody E = read_body (session_get E)"

section \<open>TPM2_ContextSave and TPM2_ContextLoad\<close>

definition on_slots :: "(slots, 'a) st_op \<Rightarrow> (tpm_state, 'a) st_op" where
  "on_slots m s = (case m (session_slots s) of (r, x) \<Rightarrow> (r, s\<lparr>session_slots := x\<rparr>))"

definition on_objects :: "(object_slots, 'a) st_op \<Rightarrow> (tpm_state, 'a) st_op" where
  "on_objects m s = (case m (objects s) of (r, x) \<Rightarrow> (r, s\<lparr>objects := x\<rparr>))"

text \<open>What is saved: the hierarchy whose proof protects it, the handle it is saved under, its body and its number.\<close>

definition session_context :: "u32 \<Rightarrow> (tpm_state, u32 \<times> u32 \<times> bytes \<times> u64) st_op" where
  "session_context h =
     st_bind (on_slots (\<lambda>s. apfst (map_err (with_handle 1)) (slots_save h s))) (\<lambda>(x, n).
     st_bind (st_lift (session_body x)) (\<lambda>b.
       st_return (rh_NULL, h, b, n)))"

definition slot_context :: "u32 \<Rightarrow> tpm_state \<Rightarrow> (u32 \<times> u32 \<times> bytes \<times> u64) tpm_result" where
  "slot_context h s =
     res_bind (map_err (with_handle 1) (objects_get h (objects s))) (\<lambda>x.
     res_bind (case x of
         Object_slot y \<Rightarrow> res_bind (object_body y) (\<lambda>b.
           Inr (obj_hierarchy y, if state_clear y then saved_TRANSIENT_STCLEAR else saved_TRANSIENT_OBJECT, b))
       | Sequence_slot y \<Rightarrow> res_bind (sequence_body y) (\<lambda>b. Inr (rh_NULL, saved_SEQUENCE_OBJECT, b))) (\<lambda>(k, sh, b).
       Inr (k, sh, b, object_counter (session_slots s))))"

definition context_save :: "env \<Rightarrow> aes_lib \<Rightarrow> command" where
  "context_save E A = with_handle_area 0 (\<lambda>h q.
     st_bind (st_view (\<lambda>s. if counters_exhausted (session_slots s) then Inl rc_TOO_MANY_CONTEXTS else Inr ())) (\<lambda>_.
     st_bind (if is_session_handle h then session_context h else st_view (slot_context h)) (\<lambda>(k, sh, b, n).
     st_bind (st_view (\<lambda>s. seal_context E A s k n sh b)) (\<lambda>blob.
     st_bind (if is_session_handle h then st_return ()
              else on_slots (\<lambda>x. (Inr (), snd (next_object_id x)))) (\<lambda>_.
       st_lift (unread (respond q (context_put \<lparr>cx_sequence = n, cx_handle = sh, cx_hierarchy = k, cx_blob = blob\<rparr>))))))))"

definition viable :: "saved_context \<Rightarrow> slots \<Rightarrow> bool" where
  "viable c x =
     (if is_session_handle (cx_handle c) then
        (let current = saturating_sub (context_counter x) 1
         in cx_sequence c \<le> current \<and> current \<le> saturating_add (cx_sequence c) (of_nat CONTEXT_GAP_MAX))
      else cx_sequence c < object_counter x)"

definition check_context :: "saved_context \<Rightarrow> tpm_state \<Rightarrow> unit tpm_result" where
  "check_context c s =
     (let x = session_slots s in
      if \<not> viable c x then Inl (with_parameter 1 rc_VALUE)
      else if is_session_handle (cx_handle c) \<and> at_context_gap x \<and> Some (cx_sequence c) \<noteq> oldest_active x then Inl rc_CONTEXT_GAP
      else if \<not> is_enabled (hierarchies s) (cx_hierarchy c) then Inl (with_parameter 1 rc_HIERARCHY)
      else Inr ())"

definition load_body :: "env \<Rightarrow> key_lib \<Rightarrow> saved_context \<Rightarrow> bytes \<Rightarrow> (tpm_state, u32) st_op" where
  "load_body E K c body =
     (let bad = (\<lambda>_. rc_BAD_CONTEXT); h = cx_handle c in
      if is_session_handle h then
        st_bind (st_lift (map_err bad (session_unbody E body))) (\<lambda>x.
        st_bind (st_check (ses_handle x \<noteq> h) (with_parameter 1 rc_BAD_CONTEXT)) (\<lambda>_.
        st_bind (on_slots (\<lambda>s. apfst (map_err (with_parameter 1)) (slots_restore x (cx_sequence c) s))) (\<lambda>_.
          st_return h)))
      else if h = saved_SEQUENCE_OBJECT then
        st_bind (st_lift (map_err bad (sequence_unbody body))) (\<lambda>x. on_objects (objects_insert (Sequence_slot x)))
      else if h = saved_TRANSIENT_OBJECT \<or> h = saved_TRANSIENT_STCLEAR then
        st_bind (st_lift (map_err bad (object_unbody E K body (h = saved_TRANSIENT_STCLEAR)))) (\<lambda>x.
          on_objects (objects_insert (Object_slot x)))
      else st_fail (with_parameter 1 rc_VALUE))"

definition context_load :: "env \<Rightarrow> aes_lib \<Rightarrow> key_lib \<Rightarrow> command" where
  "context_load E A K = reading (param 1 context_get) (\<lambda>c q.
     st_bind (st_view (check_context c)) (\<lambda>_.
     st_bind (open_context E A c) (\<lambda>body.
     st_bind (load_body E K c body) (\<lambda>h.
       st_lift (respond_with_handle h q (\<lambda>w. w))))))"

definition is_saved_object_handle :: "u32 \<Rightarrow> bool" where
  "is_saved_object_handle h = (h = saved_TRANSIENT_OBJECT \<or> h = saved_SEQUENCE_OBJECT \<or> h = saved_TRANSIENT_STCLEAR)"

section \<open>TPM2_EvictControl\<close>

definition MIN_EVICT_OBJECTS :: nat where "MIN_EVICT_OBJECTS = 32"

definition evict_range :: "u32 \<Rightarrow> u32 \<Rightarrow> unit tpm_result" where
  "evict_range auth h =
     (if \<not> is_persistent h then Inl (with_parameter 1 rc_VALUE)
      else if \<not> (auth = rh_PLATFORM \<or> auth = rh_OWNER) then Inl (with_handle 1 rc_AUTH_TYPE)
      else Inr ())"

definition remove_persistent :: "u32 \<Rightarrow> u32 \<Rightarrow> u32 \<Rightarrow> (tpm_state, unit) st_op" where
  "remove_persistent auth x h =
     st_bind (st_check (auth = rh_OWNER \<and> hc_PLATFORM_PERSISTENT \<le> x) (with_handle 2 rc_RANGE)) (\<lambda>_.
     st_bind (st_check (x \<noteq> h) (with_handle 2 rc_HANDLE)) (\<lambda>_.
     st_bind (st_view (\<lambda>s. if bt_contains (persistent s) h then Inr () else Inl (with_handle 2 rc_HANDLE))) (\<lambda>_.
       st_modify (\<lambda>s. s\<lparr>persistent := bt_remove h (persistent s)\<rparr>))))"

definition may_persist :: "u32 \<Rightarrow> object \<Rightarrow> unit tpm_result" where
  "may_persist auth x =
     (if obj_hierarchy x = rh_NULL \<or> is_limited (obj_hierarchy x) then Inl (with_handle 2 rc_ATTRIBUTES)
      else if \<not> (if auth = rh_PLATFORM then obj_hierarchy x = rh_PLATFORM
                else obj_hierarchy x = rh_OWNER \<or> obj_hierarchy x = rh_ENDORSEMENT) then Inl (with_handle 2 rc_HIERARCHY)
      else if state_clear x then Inl (with_handle 2 rc_ATTRIBUTES)
      else Inr ())"

definition make_persistent :: "u32 \<Rightarrow> u32 \<Rightarrow> u32 \<Rightarrow> (tpm_state, unit) st_op" where
  "make_persistent auth x h =
     st_bind (st_check ((auth = rh_PLATFORM) \<noteq> (hc_PLATFORM_PERSISTENT \<le> h)) (with_parameter 1 rc_RANGE)) (\<lambda>_.
     st_bind (st_view (\<lambda>s. map_err (with_handle 2) (objects_object x (objects s)))) (\<lambda>y.
     st_bind (st_lift (may_persist auth y)) (\<lambda>_.
     st_bind (st_view (\<lambda>s. if bt_contains (persistent s) h then Inl (with_parameter 1 rc_NV_DEFINED)
                           else if MIN_EVICT_OBJECTS \<le> length (persistent s) then Inl rc_NV_SPACE else Inr ())) (\<lambda>_.
       st_modify (\<lambda>s. s\<lparr>persistent := bt_insert h y (persistent s)\<rparr>)))))"

definition evict_control :: command where
  "evict_control = with_handle_area 0 (\<lambda>auth. with_handle_area 1 (\<lambda>x. reading (param 1 r_u32) (\<lambda>h q.
     st_bind (st_lift (evict_range auth h)) (\<lambda>_.
     st_bind (if is_persistent x then remove_persistent auth x h else make_persistent auth x h) (\<lambda>_.
       st_lift (respond_empty q))))))"

section \<open>A body is read back\<close>

lemma reads_value: "m = Inr v \<Longrightarrow> reads (g v) x e \<Longrightarrow> reads (\<lambda>r. res_bind m (\<lambda>v. g v r)) x e"
  by simp

lemma read_body_reads: "reads get x e \<Longrightarrow> read_body get e = Inr x"
  by (simp add: read_body_def reads_def)

interpretation opt_sensitive: codec "r_option sensitive_get" "w_option sensitive_put" "opt_enc sensitive_enc"
    "\<lambda>v. \<forall>x. v = Some x \<longrightarrow> sensitive_ok x"
  by (rule opt_codec [OF sensitive.codec_axioms])

definition object_ok :: "env \<Rightarrow> key_lib \<Rightarrow> object \<Rightarrow> bool" where
  "object_ok E K x \<longleftrightarrow> public_ok E (obj_public x) \<and> (\<forall>s. obj_sensitive x = Some s \<longrightarrow> sensitive_ok s) \<and> length (obj_qualified x) < 2 ^ 16
     \<and> validate_restored E K (obj_public x) (obj_sensitive x) = Inr () \<and> object_name E (obj_public x) = Inr (obj_name x)"

lemma object_body_back:
  assumes ok: "object_ok E K x"
  shows "\<exists>b. object_body x = Inr b \<and> object_unbody E K b (state_clear x) = Inr x"
proof -
  let ?e = "to_be 4 (obj_hierarchy x) @ bool_enc (tpm_generated x) @ public_enc (obj_public x)
      @ opt_enc sensitive_enc (obj_sensitive x) @ enc_sized16 (obj_qualified x) @ []"
  have "reads (object_get E K (state_clear x)) \<lparr>obj_public = obj_public x, obj_sensitive = obj_sensitive x, obj_name = obj_name x,
      obj_qualified = obj_qualified x, obj_hierarchy = obj_hierarchy x, tpm_generated = tpm_generated x, state_clear = state_clear x\<rparr> ?e"
    unfolding object_get_def
    by (rule reads_return | (rule reads_value, (use ok in \<open>simp add: object_ok_def; fail\<close>))
        | (rule reads_bind, rule reads_int flag.reads_get public.reads_get opt_sensitive.reads_get buf.reads_get)
        | (use ok in \<open>simp add: object_ok_def; fail\<close>))+
  then have "reads (object_get E K (state_clear x)) x ?e" by (cases x) simp
  moreover have "object_body x = Inr ?e"
    using ok by (simp add: object_body_def object_ok_def writes_emit flag.put_enc public.put_enc [where E = E] opt_sensitive.put_enc
        buf.put_enc) (simp add: w_finish_def writer_new_def)
  ultimately show ?thesis by (auto simp: object_unbody_def read_body_reads)
qed

fun kind_enc :: "sequence_kind \<Rightarrow> bytes" where
  "kind_enc (Hash_sequence a) = [0] @ to_be 2 a @ []"
| "kind_enc (Hmac_sequence a k) = [1] @ to_be 2 a @ enc_sized16 k @ []"
| "kind_enc Event_sequence = [2] @ []"

fun kind_ok :: "sequence_kind \<Rightarrow> bool" where
  "kind_ok (Hmac_sequence a k) \<longleftrightarrow> length k < 2 ^ 16"
| "kind_ok _ \<longleftrightarrow> True"

lemma kind_reads: "kind_ok k \<Longrightarrow> reads kind_get k (kind_enc k)"
  by (cases k; simp only: kind_enc.simps kind_get_def [abs_def];
      (rule reads_bind, rule reads_int, simp del: to_be.simps append_Nil2)?;
      ((rule reads_return | (rule reads_bind, rule reads_int buf.reads_get) | (simp; fail))+)?)

lemma kind_put_enc: "kind_ok k \<Longrightarrow> kind_put k w = emit (kind_enc k) w"
  by (cases k) (simp_all add: writes_emit buf.put_enc)

definition sequence_ok :: "sequence \<Rightarrow> bool" where
  "sequence_ok x \<longleftrightarrow> kind_ok (seq_kind x) \<and> length (seq_auth x) < 2 ^ 16 \<and> length (seq_buffer x) \<le> MAX_SEQUENCE_BYTES"

lemma sequence_body_back:
  assumes ok: "sequence_ok x"
  shows "\<exists>b. sequence_body x = Inr b \<and> sequence_unbody b = Inr x"
proof -
  let ?n = "of_nat (length (seq_buffer x)) :: u32"
  let ?e = "kind_enc (seq_kind x) @ enc_sized16 (seq_auth x) @ to_be 4 ?n @ seq_buffer x @ bool_enc (short_first_buffer x) @ []"
  have n: "unat ?n = length (seq_buffer x)"
    using ok by (simp add: sequence_ok_def MAX_SEQUENCE_BYTES_def unat_of_nat take_bit_nat_eq_self)
  have "reads sequence_get \<lparr>seq_kind = seq_kind x, seq_auth = seq_auth x, seq_buffer = seq_buffer x,
      short_first_buffer = short_first_buffer x\<rparr> ?e"
    unfolding sequence_get_def
    by (rule reads_return | (rule reads_guard) | (rule reads_bind, rule reads_int flag.reads_get buf.reads_get kind_reads reads_take)
        | (use ok n in \<open>simp add: sequence_ok_def; fail\<close>))+
  then have "reads sequence_get x ?e" by (cases x) simp
  moreover have "sequence_body x = Inr ?e"
    using ok by (simp add: sequence_body_def sequence_ok_def writes_emit flag.put_enc buf.put_enc kind_put_enc)
      (simp add: w_finish_def writer_new_def)
  ultimately show ?thesis by (auto simp: sequence_unbody_def read_body_reads)
qed

definition session_ok :: "env \<Rightarrow> session \<Rightarrow> bool" where
  "session_ok E x \<longleftrightarrow> is_supported E (auth_hash x) \<and> sym_def_ok E (symmetric x) \<and> policy_ok (policy x)
     \<and> list_all (\<lambda>b. length b < 2 ^ 16) [nonce_tpm x, nonce_caller x, session_key x, bind_name x, audit_digest (audit x)]"

text \<open>The attributes are those of the command a session is used in, and do not travel.\<close>

lemma session_body_back:
  assumes ok: "session_ok E x"
  shows "\<exists>b. session_body x = Inr b \<and> session_unbody E b = Inr (x\<lparr>ses_attributes := 0\<rparr>)"
proof -
  let ?e = "to_be 4 (ses_handle x) @ [session_type x] @ to_be 2 (auth_hash x) @ enc_sized16 (nonce_tpm x) @ enc_sized16 (nonce_caller x)
      @ enc_sized16 (session_key x) @ to_be 4 (ses_bind x) @ enc_sized16 (bind_name x) @ bool_enc (bind_uses_lockout x)
      @ to_be 8 (start_time x) @ to_be 8 (time_epoch x) @ sym_def_enc (symmetric x) @ policy_enc (policy x)
      @ bool_enc (is_audit (audit x)) @ enc_sized16 (audit_digest (audit x)) @ []"
  obtain len where len: "hash_size E (auth_hash x) = Inr len"
    using ok by (auto simp: session_ok_def hash_size_def supported_algorithm)
  let ?y = "\<lparr>ses_handle = ses_handle x, session_type = session_type x, auth_hash = auth_hash x, nonce_tpm = nonce_tpm x,
      nonce_caller = nonce_caller x, session_key = session_key x, ses_bind = ses_bind x, bind_name = bind_name x,
      bind_uses_lockout = False, start_time = 0, time_epoch = 0, symmetric = symmetric x,
      policy = policy_default\<lparr>pol_digest := replicate len 0\<rparr>, audit = audit_default, ses_attributes = 0\<rparr>"
  have new: "session_new E (ses_handle x) (session_type x) (auth_hash x) (nonce_tpm x) (nonce_caller x) (session_key x) (ses_bind x)
      (bind_name x) (symmetric x) = Inr ?y" by (simp add: session_new_def len)
  have "reads (session_get E) (?y\<lparr>bind_uses_lockout := bind_uses_lockout x, start_time := start_time x, time_epoch := time_epoch x,
      policy := policy x, audit := \<lparr>is_audit = is_audit (audit x), audit_digest = audit_digest (audit x)\<rparr>\<rparr>) ?e"
    unfolding session_get_def
    by (rule reads_return | (rule reads_value, rule new)
        | (rule reads_bind, rule reads_int flag.reads_get buf.reads_get sym_def.reads_get policy.reads_get)
        | (use ok in \<open>simp add: session_ok_def; fail\<close>))+
  moreover have "\<lparr>is_audit = is_audit a, audit_digest = audit_digest a\<rparr> = a" for a by simp
  ultimately have "reads (session_get E) (x\<lparr>ses_attributes := 0\<rparr>) ?e" by (cases x) simp
  moreover have "session_body x = Inr ?e"
    using ok by (simp add: session_body_def session_ok_def writes_emit flag.put_enc buf.put_enc sym_def.put_enc [where E = E] policy.put_enc)
      (simp add: w_finish_def writer_new_def)
  ultimately show ?thesis by (auto simp: session_unbody_def read_body_reads)
qed

section \<open>A sealed context opens\<close>

definition context_data_enc :: "context_data \<Rightarrow> bytes" where
  "context_data_enc d = enc_sized16 (cdt_integrity d) @ enc_sized16 (cdt_encrypted d)"

interpretation context_data: codec context_data_get context_data_put context_data_enc
    "\<lambda>d. length (cdt_integrity d) \<le> MAX_DIGEST_SIZE \<and> length (cdt_encrypted d) \<le> MAX_CONTEXT_SIZE"
  unfolding context_data_get_def [abs_def] context_data_put_def [abs_def] context_data_enc_def [abs_def]
  by (rule codec_pair [OF tpm2b_codec tpm2b_codec]) (simp_all add: MAX_DIGEST_SIZE_def MAX_CONTEXT_SIZE_def)

text \<open>The state a context was saved in and the one it is loaded in agree on what protects it.\<close>

definition protects_alike :: "env \<Rightarrow> u32 \<Rightarrow> tpm_state \<Rightarrow> tpm_state \<Rightarrow> bool" where
  "protects_alike E k s t \<longleftrightarrow> hierarchy_proof E k t = hierarchy_proof E k s \<and> clk_reset_value (clock_of t) = clk_reset_value (clock_of s)
     \<and> clear_count (clock_of t) = clear_count (clock_of s)"

lemma protects_alike_same:
  assumes "protects_alike E k s t"
  shows "context_encryption E t k = context_encryption E s k" "context_integrity E t k = context_integrity E s k"
  using assms by (simp_all add: fun_eq_iff protects_alike_def context_encryption_def context_integrity_def context_counters_def)

lemma sealed_opens:
  assumes "aes_ok A" and "seal_context E A s k n sh body = Inr blob" and alike: "protects_alike E k s t"
  shows "open_context E A \<lparr>cx_sequence = n, cx_handle = sh, cx_hierarchy = k, cx_blob = blob\<rparr> t = (Inr body, t)"
proof -
  let ?plain = "to_be 8 n @ body"
  let ?sized = "to_be 2 (of_nat (length ?plain) :: u16) @ ?plain"
  obtain key iv c m where key: "context_encryption E s k n sh = Inr (key, iv)" and c: "cfb_encrypt A key iv ?sized = Inr c"
    and m: "context_integrity E s k n sh c = Inr m" and small: "length m \<le> MAX_DIGEST_SIZE" "length c \<le> MAX_CONTEXT_SIZE"
    and blob: "blob = to_bytes context_data_put \<lparr>cdt_integrity = m, cdt_encrypted = c\<rparr>"
    using assms(2) by (auto simp: seal_context_def res_bind_eq_Inr tpm2b_new_def Let_def split: if_splits)
  have plain: "length c = length ?sized" "cfb_decrypt A key iv c = Inr ?sized" using cfb_roundtrip [OF assms(1) c] by simp_all
  with small(2) have "length ?plain < 2 ^ 16" by (simp add: MAX_CONTEXT_SIZE_def)
  then have inner: "unat (of_nat (length ?plain) :: u16) = length ?plain" by (rule unat_of_nat_u16)
  have "from_bytes context_data_get blob = Inr \<lparr>cdt_integrity = m, cdt_encrypted = c\<rparr>"
    unfolding blob by (rule context_data.from_to_bytes) (simp add: small)
  then show ?thesis
    using key m plain inner
    by (simp add: open_context_def protects_alike_same [OF alike] constant_time_eq_iff Let_def)
qed

section \<open>What is saved can be loaded\<close>

definition context_enc :: "saved_context \<Rightarrow> bytes" where
  "context_enc c = to_be 8 (cx_sequence c) @ to_be 4 (cx_handle c) @ to_be 4 (cx_hierarchy c) @ enc_sized16 (cx_blob c)"

interpretation context_codec: codec context_get context_put context_enc "\<lambda>c. length (cx_blob c) \<le> MAX_CONTEXT_BLOB"
proof (rule codecI)
  have small: "MAX_CONTEXT_BLOB < 2 ^ 16"
    by (simp add: MAX_CONTEXT_BLOB_def SIZEOF_TPMT_HA_def MAX_DIGEST_SIZE_def MAX_CONTEXT_SIZE_def)
  show "decoder context_get"
    unfolding context_get_def by (intro decoder_bind decoder_return decoder_int tpm2b_decoder small)
  show "context_put c w = emit (context_enc c) w" if "length (cx_blob c) \<le> MAX_CONTEXT_BLOB" for c w
    using that by (simp add: context_put_def context_enc_def writes_emit codec.put_enc [OF tpm2b_codec [OF small]])
  show "reads context_get c (context_enc c)" if ok: "length (cx_blob c) \<le> MAX_CONTEXT_BLOB" for c
  proof -
    have "reads context_get \<lparr>cx_sequence = cx_sequence c, cx_handle = cx_handle c, cx_hierarchy = cx_hierarchy c, cx_blob = cx_blob c\<rparr>
        (to_be 8 (cx_sequence c) @ to_be 4 (cx_handle c) @ to_be 4 (cx_hierarchy c) @ enc_sized16 (cx_blob c) @ [])"
      unfolding context_get_def
      by (rule reads_return | (rule reads_bind, rule reads_int tpm2b_reads) | (use ok small in \<open>simp; fail\<close>))+
    then show ?thesis by (cases c) (simp add: context_enc_def)
  qed
qed

lemma context_parameters:
  assumes "length (cx_blob c) \<le> MAX_CONTEXT_BLOB" and "rq_parameters q = context_enc c"
  shows "all_parameters (param 1 context_get) q = Inr c"
  using context_codec.get_enc [OF assms(1), of "reader_new (rq_parameters q)" "[]"] assms(2)
  by (simp add: all_parameters_def param_def expect_end_def flip: length_rest)

lemma seal_small: "seal_context E A s k n sh b = Inr blob \<Longrightarrow> length blob \<le> MAX_CONTEXT_BLOB"
  by (auto simp: seal_context_def res_bind_eq_Inr tpm2b_new_def Let_def split: if_splits)

fun slot_ok :: "env \<Rightarrow> key_lib \<Rightarrow> slot \<Rightarrow> bool" where
  "slot_ok E K (Object_slot x) \<longleftrightarrow> object_ok E K x"
| "slot_ok E K (Sequence_slot x) \<longleftrightarrow> sequence_ok x"

fun slot_hierarchy :: "slot \<Rightarrow> u32" where
  "slot_hierarchy (Object_slot x) = obj_hierarchy x"
| "slot_hierarchy (Sequence_slot x) = rh_NULL"

fun slot_saved_as :: "slot \<Rightarrow> u32" where
  "slot_saved_as (Object_slot x) = (if state_clear x then saved_TRANSIENT_STCLEAR else saved_TRANSIENT_OBJECT)"
| "slot_saved_as (Sequence_slot x) = saved_SEQUENCE_OBJECT"

lemmas saved_handles_defs = saved_TRANSIENT_STCLEAR_def saved_TRANSIENT_OBJECT_def saved_SEQUENCE_OBJECT_def

lemma not_session_saved [simp]: "\<not> is_session_handle (slot_saved_as x)"
  by (cases x) (simp_all add: saved_handles_defs is_session_handle_def)

lemma slot_context_back:
  assumes "slot_ok E K x" and "bt_get (objects s) h = Some x"
  shows "\<exists>b. slot_context h s = Inr (slot_hierarchy x, slot_saved_as x, b, object_counter (session_slots s))
    \<and> (\<forall>c t. cx_handle c = slot_saved_as x \<longrightarrow> load_body E K c b t = on_objects (objects_insert x) t)"
proof (cases x)
  case (Object_slot y)
  then obtain b where "object_body y = Inr b" "object_unbody E K b (state_clear y) = Inr y"
    using object_body_back assms(1) by fastforce
  then show ?thesis
    using assms(2) Object_slot
    by (auto simp: slot_context_def objects_get_def load_body_def saved_handles_defs is_session_handle_def Let_def st_bind_def st_lift_def)
next
  case (Sequence_slot y)
  then obtain b where "sequence_body y = Inr b" "sequence_unbody b = Inr y"
    using sequence_body_back assms(1) by fastforce
  then show ?thesis
    using assms(2) Sequence_slot
    by (auto simp: slot_context_def objects_get_def load_body_def saved_handles_defs is_session_handle_def Let_def st_bind_def st_lift_def)
qed

lemma saved_effect:
  assumes "rq_handle q 0 = Inr h" and "\<not> is_session_handle h" and b: "slot_context h s = Inr (hier, sh, b, object_counter (session_slots s))"
    and save: "context_save E A q s = (Inr r, s1)"
  shows "\<exists>blob. seal_context E A s hier (object_counter (session_slots s)) sh b = Inr blob
    \<and> rs_parameters r = context_enc \<lparr>cx_sequence = object_counter (session_slots s), cx_handle = sh, cx_hierarchy = hier, cx_blob = blob\<rparr>
    \<and> s1 = s\<lparr>session_slots := (session_slots s)\<lparr>object_counter := object_counter (session_slots s) + 1\<rparr>\<rparr>
    \<and> object_counter (session_slots s) < object_counter (session_slots s1)"
proof -
  let ?n = "object_counter (session_slots s)"
  obtain blob where free: "\<not> counters_exhausted (session_slots s)" and blob: "seal_context E A s hier ?n sh b = Inr blob"
    using save assms(1,2) b by (auto simp: context_save_def with_handle_area_apply st_bind_def split: if_splits sum.splits prod.splits)
  let ?c = "\<lparr>cx_sequence = ?n, cx_handle = sh, cx_hierarchy = hier, cx_blob = blob\<rparr>"
  have n: "?n \<noteq> - 1" using free by (simp add: counters_exhausted_def)
  then have "unat ?n \<noteq> unat (- 1 :: u64)" by (simp add: word_unat_eq_iff)
  then have "unat ?n + 1 < 2 ^ 64" using unsigned_less [of ?n, where 'a = nat] by (simp add: unat_max_word)
  then have spent: "saturating_add ?n 1 = ?n + 1" "?n < ?n + 1" by (simp_all add: saturating_add_def word_less_nat_alt unat_word_ariths)
  have "length (cx_blob ?c) \<le> MAX_CONTEXT_BLOB" using seal_small [OF blob] by simp
  from context_codec.put_enc [OF this, of writer_new] save assms(1,2) b free blob spent
  show ?thesis
    by (auto simp: context_save_def with_handle_area_apply st_bind_def on_slots_def next_object_id_def unread_def respond_def respond_try_def
        w_finish_def writer_new_def emit_def)
qed

text \<open>C16: a saved context gives back what was saved. The context that TPM2_ContextSave answers for an object or a sequence
  in a slot is accepted by TPM2_ContextLoad in every later state in which the proof of its hierarchy, the reset value and
  the clear count are still those of the save, the hierarchy is enabled and a slot is free; the slot it gets holds
  the object or the sequence exactly as it was, and nothing else changes. Saving changes only the counter of the contexts.\<close>

theorem context_gives_back:
  assumes "aes_ok A" and "slot_ok E K x" and "rq_handle q 0 = Inr h" and "\<not> is_session_handle h"
    and "bt_get (objects s) h = Some x" and "context_save E A q s = (Inr r, s1)"
    and alike: "protects_alike E (slot_hierarchy x) s t" and "object_counter (session_slots s1) \<le> object_counter (session_slots t)"
    and "is_enabled (hierarchies t) (slot_hierarchy x)" and "rq_parameters q' = rs_parameters r"
    and "objects_insert x (objects t) = (Inr k, os)"
  shows "s1 = s\<lparr>session_slots := (session_slots s)\<lparr>object_counter := object_counter (session_slots s) + 1\<rparr>\<rparr>
    \<and> (\<exists>r'. context_load E A K q' t = (Inr r', t\<lparr>objects := os\<rparr>) \<and> rs_handle r' = Some k)"
proof -
  let ?n = "object_counter (session_slots s)"
  obtain b where b: "slot_context h s = Inr (slot_hierarchy x, slot_saved_as x, b, ?n)"
    and restored: "\<forall>c t. cx_handle c = slot_saved_as x \<longrightarrow> load_body E K c b t = on_objects (objects_insert x) t"
    using slot_context_back [OF assms(2,5)] by blast
  obtain blob where blob: "seal_context E A s (slot_hierarchy x) ?n (slot_saved_as x) b = Inr blob"
    and r: "rs_parameters r = context_enc \<lparr>cx_sequence = ?n, cx_handle = slot_saved_as x, cx_hierarchy = slot_hierarchy x, cx_blob = blob\<rparr>"
    and s1: "s1 = s\<lparr>session_slots := (session_slots s)\<lparr>object_counter := ?n + 1\<rparr>\<rparr>" "?n < object_counter (session_slots s1)"
    using saved_effect [OF assms(3,4) b assms(6)] by blast
  let ?c = "\<lparr>cx_sequence = ?n, cx_handle = slot_saved_as x, cx_hierarchy = slot_hierarchy x, cx_blob = blob\<rparr>"
  have "all_parameters (param 1 context_get) q' = Inr ?c"
    by (rule context_parameters) (use seal_small [OF blob] r assms(10) in simp_all)
  moreover have "viable ?c (session_slots t)" using assms(8) s1(2) by (simp add: viable_def)
  then have "check_context ?c t = Inr ()" using assms(9) by (simp add: check_context_def Let_def)
  moreover have "open_context E A ?c t = (Inr b, t)" by (rule sealed_opens [OF assms(1) blob alike])
  ultimately have "\<exists>r'. context_load E A K q' t = (Inr r', t\<lparr>objects := os\<rparr>) \<and> rs_handle r' = Some k"
    using restored assms(11)
    by (simp add: context_load_def reading_def st_bind_def on_objects_def respond_with_handle_def respond_def respond_try_def w_finish_def writer_new_def)
  with s1 show ?thesis by simp
qed

section \<open>What fits a context\<close>

lemma context_key:
  assumes "env_ok E" and "hierarchy_proof E k s = Inr proof_value"
  shows "\<exists>key iv. context_encryption E s k n sh = Inr (key, iv) \<and> length key = 32 \<and> length iv = 16"
proof -
  obtain m where "kdfa_bytes E CONTEXT_INTEGRITY_HASH_ALG proof_value LABEL_CONTEXT (to_be 8 n) (to_be 4 sh) 384 = Inr m" "length m = 48"
    using kdfa_cases [OF assms(1), where a = CONTEXT_INTEGRITY_HASH_ALG and key = proof_value and label = LABEL_CONTEXT
        and u = "to_be 8 n" and v = "to_be 4 sh" and bits = 384] protected_hash [of E] by (auto split: sum.splits)
  then show ?thesis
    using assms(2) by (simp add: context_encryption_def block_size_def CONTEXT_ENCRYPT_ALG_def CONTEXT_ENCRYPT_KEY_BITS_def AES_BLOCK_SIZE_def)
qed

lemma context_integrity_total:
  assumes "env_ok E" and "hierarchy_proof E k s = Inr proof_value"
  shows "\<exists>m. context_integrity E s k n sh c = Inr m \<and> length m \<le> MAX_DIGEST_SIZE"
proof -
  obtain b where "hash_block_size E CONTEXT_INTEGRITY_HASH_ALG = Inr b" using supported_block_size [OF protected_hash [of E]] by blast
  from hmac_parts_spec [OF protected_hash [of E] this, of proof_value] show ?thesis
    using assms by (simp add: context_integrity_def hmac_spec_def Let_def env_ok_length CONTEXT_INTEGRITY_HASH_ALG_def)
      (simp add: env_ok_def MAX_DIGEST_SIZE_def)
qed

lemma cfb_total:
  assumes "aes_ok A" and "length key = 32" and "length iv = 16"
  shows "\<exists>c. cfb_encrypt A key iv data = Inr c \<and> length c = length data"
  using crypt_inverts [OF assms(1), of alg_AES alg_CFB key data iv] assms(2,3)
  by (auto simp: cfb_encrypt_def encrypt_def is_ok_iff is_supported_mode_def AES_BLOCK_SIZE_def split: prod.splits sum.splits)

lemma seal_fits:
  assumes "env_ok E" and "aes_ok A" and "hierarchy_proof E k s = Inr proof_value"
  shows "is_ok (seal_context E A s k n sh body) \<longleftrightarrow> length body + 10 \<le> MAX_CONTEXT_SIZE"
proof -
  let ?sized = "to_be 2 (of_nat (length (to_be 8 n @ body)) :: u16) @ to_be 8 n @ body"
  obtain key iv where key: "context_encryption E s k n sh = Inr (key, iv)" "length key = 32" "length iv = 16"
    using context_key [OF assms(1,3)] by blast
  obtain c where c: "cfb_encrypt A key iv ?sized = Inr c" "length c = length ?sized" using cfb_total [OF assms(2) key(2,3)] by blast
  obtain m where m: "context_integrity E s k n sh c = Inr m" "length m \<le> MAX_DIGEST_SIZE"
    using context_integrity_total [OF assms(1,3)] by blast
  have blob: "length (to_bytes context_data_put \<lparr>cdt_integrity = m, cdt_encrypted = c\<rparr>) \<le> MAX_CONTEXT_BLOB" if "length c \<le> MAX_CONTEXT_SIZE"
    using context_data.to_bytes_enc [of "\<lparr>cdt_integrity = m, cdt_encrypted = c\<rparr>"] that m(2)
    by (simp add: context_data_enc_def enc_sized16_def MAX_CONTEXT_BLOB_def SIZEOF_TPMT_HA_def)
  have n: "length c = length body + 10" by (simp add: c(2))
  show ?thesis
  proof (cases "length body + 10 \<le> MAX_CONTEXT_SIZE")
    case True
    then show ?thesis using key(1) c(1) m blob n by (simp add: seal_context_def tpm2b_new_def Let_def is_ok_iff)
  next
    case False
    then show ?thesis using key(1) c(1) m n by (simp add: seal_context_def tpm2b_new_def Let_def is_ok_iff)
  qed
qed

lemma save_succeeds:
  assumes "rq_handle q 0 = Inr h" and "\<not> is_session_handle h \<and> \<not> counters_exhausted (session_slots s)"
    and "slot_context h s = Inr (k, sh, b, n)" and "seal_context E A s k n sh b = Inr blob"
  shows "\<exists>r s1. context_save E A q s = (Inr r, s1)"
proof -
  have "length (cx_blob \<lparr>cx_sequence = n, cx_handle = sh, cx_hierarchy = k, cx_blob = blob\<rparr>) \<le> MAX_CONTEXT_BLOB"
    using seal_small [OF assms(4)] by simp
  from context_codec.put_enc [OF this, of writer_new] assms show ?thesis
    by (simp add: context_save_def with_handle_area_apply st_bind_def on_slots_def next_object_id_def unread_def respond_def
        respond_try_def w_finish_def writer_new_def emit_def)
qed

definition demo_sequence :: sequence where
  "demo_sequence = \<lparr>seq_kind = Hash_sequence alg_SHA256, seq_auth = [9], seq_buffer = [1, 2, 3, 4], short_first_buffer = False\<rparr>"

theorem context_gives_back_witness:
  "let s = demo_tpm\<lparr>objects := [(0x80000000, Sequence_slot demo_sequence)]\<rparr>;
       q = (session_request 0 0)\<lparr>rq_handles := [0x80000000]\<rparr>
   in \<exists>r s1 r' t. context_save (demo_env True) demo_aes q s = (Inr r, s1)
     \<and> context_load (demo_env True) demo_aes demo_lib (q\<lparr>rq_parameters := rs_parameters r\<rparr>) (s1\<lparr>objects := []\<rparr>) = (Inr r', t)
     \<and> bt_get (objects t) 0x80000000 = Some (Sequence_slot demo_sequence)"
proof -
  let ?E = "demo_env True" and ?x = "Sequence_slot demo_sequence"
  let ?s = "demo_tpm\<lparr>objects := [(0x80000000, ?x)]\<rparr>" and ?q = "(session_request 0 0)\<lparr>rq_handles := [0x80000000]\<rparr>"
  have ok: "slot_ok ?E demo_lib ?x" by (simp add: sequence_ok_def demo_sequence_def MAX_SEQUENCE_BYTES_def)
  have h: "rq_handle ?q 0 = Inr 0x80000000" by (simp add: rq_handle_def get_at_def)
  have slot: "bt_get (objects ?s) 0x80000000 = Some ?x" by (simp add: bt_get_def)
  have proof_value: "hierarchy_proof ?E rh_NULL ?s = Inr (h_proof (null demo_hierarchies))"
    by (simp add: hierarchy_proof_def proof_of_def derive_def hierarchy_get_def demo_tpm_def)
  obtain b where b: "slot_context 0x80000000 ?s = Inr (rh_NULL, saved_SEQUENCE_OBJECT, b, object_counter (session_slots ?s))"
      "sequence_body demo_sequence = Inr b"
    using slot_context_back [OF ok slot] sequence_body_back [of demo_sequence] ok slot
    by (auto simp: slot_context_def objects_get_def)
  have "length b \<le> 100"
    using b(2) by (auto simp: sequence_body_def demo_sequence_def w_finish_def writer_new_def w_bool_def sized16_def w_bytes_def
        w_u32_def w_u16_def w_u8_def split: if_splits)
  then have "is_ok (seal_context ?E demo_aes ?s rh_NULL (object_counter (session_slots ?s)) saved_SEQUENCE_OBJECT b)"
    using seal_fits [OF env_ok_demo aes_ok_demo proof_value] by (simp add: MAX_CONTEXT_SIZE_def)
  then obtain blob where "seal_context ?E demo_aes ?s rh_NULL (object_counter (session_slots ?s)) saved_SEQUENCE_OBJECT b = Inr blob"
    by (auto simp: is_ok_iff)
  then obtain r s1 where save: "context_save ?E demo_aes ?q ?s = (Inr r, s1)"
    using save_succeeds [OF h _ b(1), of ?E demo_aes blob] by (auto simp: demo_tpm_def slots_new_def counters_exhausted_def is_session_handle_def)
  obtain os where os: "objects_insert ?x [] = (Inr 0x80000000, os)" "bt_get os 0x80000000 = Some ?x"
    by (simp add: objects_insert_def MAX_LOADED_OBJECTS_def upt_conv_Cons bt_contains_def bt_get_def bt_insert.simps)
  have alike: "protects_alike ?E (slot_hierarchy ?x) ?s (s1\<lparr>objects := []\<rparr>)"
    using saved_effect [OF h _ b(1) save] by (auto simp: protects_alike_def hierarchy_proof_def is_session_handle_def)
  note loads = context_gives_back [OF aes_ok_demo ok h _ slot save alike, of "?q\<lparr>rq_parameters := rs_parameters r\<rparr>" "0x80000000" os]
  have "is_enabled (hierarchies (s1\<lparr>objects := []\<rparr>)) rh_NULL" by (simp add: is_enabled.simps)
  then obtain r' where "context_load ?E demo_aes demo_lib (?q\<lparr>rq_parameters := rs_parameters r\<rparr>) (s1\<lparr>objects := []\<rparr>)
      = (Inr r', s1\<lparr>objects := os\<rparr>)"
    using loads os(1) by (auto simp: is_session_handle_def)
  moreover have "bt_get (objects (s1\<lparr>objects := os\<rparr>)) 0x80000000 = Some ?x" by (simp add: os(2))
  ultimately show ?thesis unfolding Let_def using save by blast
qed

section \<open>Persistent objects belong where they are\<close>

definition persistent_ok :: "(u32, object) btree \<Rightarrow> bool" where
  "persistent_ok m \<longleftrightarrow> bt_wf m \<and> length m \<le> MIN_EVICT_OBJECTS
     \<and> (\<forall>h x. bt_get m h = Some x \<longrightarrow> is_persistent h \<and> \<not> state_clear x
          \<and> obj_hierarchy x \<in> (if hc_PLATFORM_PERSISTENT \<le> h then {rh_PLATFORM} else {rh_OWNER, rh_ENDORSEMENT}))"

lemma persistent_remove:
  assumes "persistent_ok m"
  shows "persistent_ok (bt_remove h m)"
proof -
  have "length (bt_remove h m) \<le> length m" by (simp add: bt_remove_def)
  then show ?thesis using assms by (simp add: persistent_ok_def)
qed

lemma persistent_insert:
  assumes "persistent_ok m" and "is_persistent h" and "\<not> bt_contains m h" and "length m < MIN_EVICT_OBJECTS" and "\<not> state_clear x"
    and "obj_hierarchy x \<in> (if hc_PLATFORM_PERSISTENT \<le> h then {rh_PLATFORM} else {rh_OWNER, rh_ENDORSEMENT})"
  shows "persistent_ok (bt_insert h x m)"
proof -
  have "length (bt_insert h x m) \<le> Suc (length m)" by (induction m rule: bt_insert.induct) auto
  then show ?thesis using assms by (auto simp: persistent_ok_def)
qed

lemma evict_keeps:
  assumes "persistent_ok (persistent s)" and "evict_control q s = (r, s')"
  shows "persistent_ok (persistent s')"
  using assms
  by (auto simp: evict_control_def with_handle_area_apply reading_def st_bind_def evict_range_def remove_persistent_def make_persistent_def
      may_persist_def st_check_def persistent_remove intro!: persistent_insert split: if_splits sum.splits prod.splits)

end
