(* ===== verification/ObjectCommands.thy ===== *)
theory ObjectCommands
  imports Contexts Attest
begin

text \<open>
  Objects (\<open>src/tpm/commands/object.rs\<close>): creating, deriving, loading, reading and unsealing them. RSA keys are
  searched for until two primes are found, so what creates a key is partial: \<open>None\<close> is a search that does not end. The
  pair-wise tests of a new key are those of \<open>src/tpm/fips.rs\<close>.
\<close>

section \<open>Operations that may not end\<close>

type_synonym ('s, 'a) may_op = "'s \<Rightarrow> ('a tpm_result \<times> 's) option"

definition may_bind :: "('s, 'a) may_op \<Rightarrow> ('a \<Rightarrow> ('s, 'b) may_op) \<Rightarrow> ('s, 'b) may_op" where
  "may_bind m k s = (case m s of None \<Rightarrow> None | Some (Inl e, s) \<Rightarrow> Some (Inl e, s) | Some (Inr x, s) \<Rightarrow> k x s)"

definition ends :: "('s, 'a) st_op \<Rightarrow> ('s, 'a) may_op" where
  "ends m s = Some (m s)"

text \<open>An operation after one that ends.\<close>

definition first :: "('s, 'a) st_op \<Rightarrow> ('a \<Rightarrow> ('s, 'b) may_op) \<Rightarrow> ('s, 'b) may_op" where
  "first m k = may_bind (ends m) k"

section \<open>The pair-wise tests of new keys\<close>

definition pairwise_text :: bytes where "pairwise_text = ascii ''pair-wise consistency test''"

definition fixed_rng :: "bytes \<Rightarrow> unit rng_bytes" where
  "fixed_rng d n g = (if d = [] then Inl rc_FAILURE else Inr (map (\<lambda>i. d ! (i mod length d)) [0..<n]), g)"

definition pairwise_sign :: "env \<Rightarrow> bn_lib \<Rightarrow> rsa_private \<Rightarrow> bytes \<Rightarrow> unit tpm_result" where
  "pairwise_sign E B k d =
     res_bind (pkcs1v15_sign_encode E alg_SHA256 d (rsa_size B (prv_public k))) (\<lambda>encoded.
     res_bind (private_op B k encoded) (\<lambda>signature.
     res_bind (public_op B (prv_public k) signature) (\<lambda>recovered.
       if recovered \<noteq> encoded then Inl rc_FAILURE else Inr ())))"

definition pairwise_decrypt :: "env \<Rightarrow> bn_lib \<Rightarrow> rsa_private \<Rightarrow> bytes \<Rightarrow> unit tpm_result" where
  "pairwise_decrypt E B k d =
     res_bind (fst (oaep_encode E (fixed_rng d) alg_SHA256 (rsa_size B (prv_public k)) d [0] ())) (\<lambda>message.
     res_bind (public_op B (prv_public k) message) (\<lambda>cipher.
       if cipher = message then Inl rc_FAILURE
       else res_bind (private_op B k cipher) (\<lambda>found. if found \<noteq> message then Inl rc_FAILURE else Inr ())))"

definition pairwise_rsa :: "env \<Rightarrow> bn_lib \<Rightarrow> rsa_private \<Rightarrow> bool \<Rightarrow> bool \<Rightarrow> unit tpm_result" where
  "pairwise_rsa E B k signing deciphers =
     res_bind (digest E alg_SHA256 pairwise_text) (\<lambda>d.
     res_bind (if signing then pairwise_sign E B k d else Inr ()) (\<lambda>_.
       if deciphers \<or> \<not> signing then pairwise_decrypt E B k d else Inr ()))"

definition pairwise_ecc_sign :: "env \<Rightarrow> bn_lib \<Rightarrow> ec_lib \<Rightarrow> curve \<Rightarrow> bytes \<Rightarrow> bytes \<Rightarrow> bytes \<Rightarrow> unit tpm_result" where
  "pairwise_ecc_sign E B L c private x y =
     res_bind (digest E alg_SHA256 pairwise_text) (\<lambda>d.
     res_bind (hmac_parts E alg_SHA256 private [pairwise_text]) (\<lambda>seed.
     res_bind (drbg_new E (seed @ seed) (ascii ''pct'')) (\<lambda>own.
     res_bind (fst (ecdsa_sign B L c (bn_from_bytes B private) d (drbg_fill E) own)) (\<lambda>signature.
       map_err (\<lambda>_. rc_FAILURE) (ecdsa_verify B L c x y d signature)))))"

definition pairwise_ecc ::
  "env \<Rightarrow> bn_lib \<Rightarrow> ec_lib \<Rightarrow> u16 \<Rightarrow> bytes \<Rightarrow> bytes \<Rightarrow> bytes \<Rightarrow> bool \<Rightarrow> unit tpm_result" where
  "pairwise_ecc E B L curve_id private x y sign =
     res_bind (curve_new curve_id) (\<lambda>c.
     res_bind (point_coordinates B L c (multiply_generator L c (bn_from_bytes B private))) (\<lambda>(x', y').
       if x' \<noteq> x \<or> y' \<noteq> y then Inl rc_FAILURE
       else if sign then pairwise_ecc_sign E B L c private x y else Inr ()))"

section \<open>The sensitive area of a new object\<close>

definition or_sha256 :: "u16 \<Rightarrow> u16" where
  "or_sha256 a = (if a = alg_NULL then alg_SHA256 else a)"

definition LABEL_PRIMARY :: bytes where "LABEL_PRIMARY = ascii ''PRIMARY''"

definition primary_context :: "env \<Rightarrow> tpmt_public \<Rightarrow> sensitive_create \<Rightarrow> bytes tpm_result" where
  "primary_context E p sc =
     res_bind (w_finish (tpm2b_put (sc_data sc) (public_put p writer_new))) (digest E (or_sha256 (name_alg p)))"

definition needs_seed :: "tpmt_public \<Rightarrow> bool" where
  "needs_seed p = (is_parent p \<or> object_type p = alg_KEYEDHASH \<or> object_type p = alg_SYMCIPHER)"

definition signs :: "tpmt_public \<Rightarrow> bool" where
  "signs p = attr_has (object_attributes p) oa_SIGN_ENCRYPT"

text \<open>The private and the public half of each type of key.\<close>

definition rsa_halves :: "env \<Rightarrow> bn_lib \<Rightarrow> tpmt_public \<Rightarrow> rsa_private \<Rightarrow> (sensitive_composite \<times> public_id) tpm_result" where
  "rsa_halves E B p k =
     res_bind (pairwise_rsa E B k (signs p) (attr_has (object_attributes p) oa_DECRYPT)) (\<lambda>_.
     res_bind (prime_bytes B k) (\<lambda>prime.
     res_bind (tpm2b_new MAX_RSA_PRIVATE_BYTES prime) (\<lambda>prime.
     res_bind (modulus_bytes B k) (\<lambda>modulus.
     res_bind (tpm2b_new MAX_RSA_KEY_BYTES modulus) (\<lambda>modulus.
       Inr (Rsa_private prime, Rsa_id modulus))))))"

definition new_rsa ::
  "env \<Rightarrow> bn_lib \<Rightarrow> 'g rng_bytes \<Rightarrow> tpmt_public \<Rightarrow> bytes \<Rightarrow> ('g, sensitive_composite \<times> public_id) may_op" where
  "new_rsa E B rb p data =
     first (st_check (data \<noteq> []) (with_parameter 1 rc_VALUE)) (\<lambda>_.
       case parameters p of
         Rsa_parms r \<Rightarrow> may_bind (rsa_generate B rb (rsa_key_bits r) (rsa_exponent r)) (\<lambda>k. ends (st_lift (rsa_halves E B p k)))
       | _ \<Rightarrow> ends (st_fail rc_TYPE))"

definition ecc_halves :: "env \<Rightarrow> bn_lib \<Rightarrow> ec_lib \<Rightarrow> tpmt_public \<Rightarrow> u16 \<Rightarrow> ecc_key \<Rightarrow> (sensitive_composite \<times> public_id) tpm_result" where
  "ecc_halves E B L p curve_id k =
     res_bind (bn_to_bytes_padded B (coordinate_size L (ek_curve k)) (ek_private k)) (\<lambda>d.
     res_bind (pairwise_ecc E B L curve_id d (ek_x k) (ek_y k) (signs p)) (\<lambda>_.
     res_bind (tpm2b_new MAX_ECC_KEY_BYTES d) (\<lambda>d.
     res_bind (tpm2b_new MAX_ECC_KEY_BYTES (ek_x k)) (\<lambda>x.
     res_bind (tpm2b_new MAX_ECC_KEY_BYTES (ek_y k)) (\<lambda>y.
       Inr (Ecc_private d, Ecc_id \<lparr>pt_x = x, pt_y = y\<rparr>))))))"

definition new_ecc ::
  "env \<Rightarrow> bn_lib \<Rightarrow> ec_lib \<Rightarrow> 'g rng_bytes \<Rightarrow> tpmt_public \<Rightarrow> bytes \<Rightarrow> ('g, sensitive_composite \<times> public_id) st_op" where
  "new_ecc E B L rb p data =
     st_bind (st_check (data \<noteq> []) (with_parameter 1 rc_VALUE)) (\<lambda>_.
       case parameters p of
         Ecc_parms e \<Rightarrow> st_bind (ecc_generate B L (ecc_curve e) rb) (\<lambda>k. st_lift (ecc_halves E B L p (ecc_curve e) k))
       | _ \<Rightarrow> st_fail rc_TYPE)"

definition from_outside :: "tpmt_public \<Rightarrow> bool" where
  "from_outside p = (\<not> attr_has (object_attributes p) oa_SENSITIVE_DATA_ORIGIN)"

definition new_keyed_hash ::
  "env \<Rightarrow> 'g rng_bytes \<Rightarrow> tpmt_public \<Rightarrow> nat \<Rightarrow> bytes \<Rightarrow> bytes \<Rightarrow> ('g, sensitive_composite \<times> public_id) st_op" where
  "new_keyed_hash E rb p n seed data =
     st_bind (st_check (from_outside p = (data = [])) (with_parameter 1 rc_ATTRIBUTES)) (\<lambda>_.
     st_bind (if from_outside p then st_return data else rb n) (\<lambda>data.
     st_bind (st_lift (digest_parts E (or_sha256 (name_alg p)) [seed, data])) (\<lambda>u.
     st_bind (st_lift (tpm2b_new MAX_SYM_DATA data)) (\<lambda>data.
     st_bind (st_lift (tpm2b_new MAX_DIGEST_SIZE u)) (\<lambda>u.
       st_return (Bits_private data, Keyed_hash_id u))))))"

definition new_cipher ::
  "env \<Rightarrow> 'g rng_bytes \<Rightarrow> tpmt_public \<Rightarrow> bytes \<Rightarrow> bytes \<Rightarrow> ('g, sensitive_composite \<times> public_id) st_op" where
  "new_cipher E rb p seed data =
     (case parameters p of
        Sym_cipher_parms sd \<Rightarrow>
          (let n = unat (sym_key_bits sd) div 8 in
           st_bind (st_check (\<not> from_outside p \<and> data \<noteq> []) (with_parameter 1 rc_ATTRIBUTES)) (\<lambda>_.
           st_bind (if from_outside p then st_return data else rb n) (\<lambda>k.
           st_bind (st_check (length k \<noteq> n) (with_parameter 1 rc_KEY_SIZE)) (\<lambda>_.
           st_bind (st_lift (digest_parts E (or_sha256 (name_alg p)) [seed, k])) (\<lambda>u.
           st_bind (st_lift (tpm2b_new MAX_SYM_KEY_BYTES k)) (\<lambda>k.
           st_bind (st_lift (tpm2b_new MAX_DIGEST_SIZE u)) (\<lambda>u.
             st_return (Sym_private k, Sym_id u))))))))
      | _ \<Rightarrow> st_fail rc_TYPE)"

definition new_secret ::
  "env \<Rightarrow> bn_lib \<Rightarrow> ec_lib \<Rightarrow> 'g rng_bytes \<Rightarrow> tpmt_public \<Rightarrow> nat \<Rightarrow> bytes \<Rightarrow> bytes \<Rightarrow> ('g, sensitive_composite \<times> public_id) may_op" where
  "new_secret E B L rb p n seed data =
     (if object_type p = alg_RSA then new_rsa E B rb p data
      else ends (if object_type p = alg_ECC then new_ecc E B L rb p data
        else if object_type p = alg_KEYEDHASH then new_keyed_hash E rb p n seed data
        else if object_type p = alg_SYMCIPHER then new_cipher E rb p seed data
        else st_fail rc_TYPE))"

definition sensitive_area :: "tpmt_public \<Rightarrow> bytes \<Rightarrow> bytes \<Rightarrow> sensitive_composite \<Rightarrow> tpmt_sensitive tpm_result" where
  "sensitive_area p auth seed c =
     res_bind (tpm2b_new MAX_DIGEST_SIZE auth) (\<lambda>auth.
     res_bind (tpm2b_new MAX_DIGEST_SIZE seed) (\<lambda>seed.
       Inr \<lparr>sensitive_type = object_type p, sens_auth = auth, sens_seed = seed, sens_value = c\<rparr>))"

definition create_sensitive ::
  "env \<Rightarrow> bn_lib \<Rightarrow> ec_lib \<Rightarrow> 'g rng_bytes \<Rightarrow> tpmt_public \<Rightarrow> sensitive_create \<Rightarrow> ('g, tpmt_sensitive \<times> public_id) may_op" where
  "create_sensitive E B L rb p sc =
     first (st_lift (hash_size E (or_sha256 (name_alg p)))) (\<lambda>n.
     first (if needs_seed p then rb n else st_return []) (\<lambda>seed.
     first (st_check (n < length (sc_auth sc)) (with_parameter 1 rc_SIZE)) (\<lambda>_.
     may_bind (new_secret E B L rb p n seed (sc_data sc)) (\<lambda>(c, u).
       ends (st_lift (res_bind (sensitive_area p (sc_auth sc) seed c) (\<lambda>x. Inr (x, u))))))))"


section \<open>Creation data and tickets\<close>

definition creation_locality :: "u8 \<Rightarrow> u8" where
  "creation_locality l = (if l < 5 then push_bit (unat l) 1 else l)"

definition MAX_DATA :: nat where "MAX_DATA = SIZEOF_TPMT_HA"

definition creation_data_for ::
  "env \<Rightarrow> tpm_state \<Rightarrow> bytes \<Rightarrow> bytes \<Rightarrow> u16 \<Rightarrow> u16 \<Rightarrow> bytes \<Rightarrow> pcr_selection list \<Rightarrow> u8 \<Rightarrow> (creation_data \<times> bytes) tpm_result" where
  "creation_data_for E s parent_name parent_qualified parent_alg a outside sels loc =
     (let filtered = filter_selection sels (pcrs s) in
      res_bind (if list_all (\<lambda>x. is_empty_selection (sel_bits x)) filtered then Inr []
                else selection_digest E a filtered (pcrs s)) (\<lambda>d.
      res_bind (tpm2b_new MAX_DIGEST_SIZE d) (\<lambda>d.
      res_bind (tpm2b_new SIZEOF_TPMT_HA parent_name) (\<lambda>n.
      res_bind (tpm2b_new SIZEOF_TPMT_HA parent_qualified) (\<lambda>q.
        let c = \<lparr>cd_select = filtered, cd_pcr_digest = d, cd_locality = creation_locality loc, cd_parent_alg = parent_alg,
                 cd_parent_name = n, cd_parent_qualified = q, cd_outside = outside\<rparr>
        in res_bind (digest E a (to_bytes creation_put c)) (\<lambda>dg. Inr (c, dg)))))))"

definition creation_ticket_hmac :: "env \<Rightarrow> bytes \<Rightarrow> bytes \<Rightarrow> bytes \<Rightarrow> bytes tpm_result" where
  "creation_ticket_hmac E proof_value name dg =
     hmac_parts E CONTEXT_INTEGRITY_HASH_ALG proof_value [to_be 2 st_CREATION, name, dg]"

definition creation_ticket :: "env \<Rightarrow> tpm_state \<Rightarrow> u32 \<Rightarrow> bytes \<Rightarrow> bytes \<Rightarrow> ticket tpm_result" where
  "creation_ticket E s h name dg =
     (if h = rh_NULL then Inr (ticket_null st_CREATION)
      else res_bind (hierarchy_proof E h s) (\<lambda>p.
           res_bind (creation_ticket_hmac E p name dg) (\<lambda>m.
           res_bind (tpm2b_new MAX_DIGEST_SIZE m) (\<lambda>m.
             Inr \<lparr>tk_tag = st_CREATION, tk_hierarchy = h, tk_digest = m\<rparr>))))"

section \<open>Parents\<close>

record storage_parent =
  sp_state_clear :: bool
  sp_alg :: u16
  sp_seed :: bytes
  sp_symmetric :: sym_def
  sp_hierarchy :: u32
  sp_qualified :: bytes
  sp_firmware :: bool
  sp_svn :: bool

definition parent_of :: "tpm_state \<Rightarrow> u32 \<Rightarrow> storage_parent tpm_result" where
  "parent_of s h =
     res_bind (object_of s h) (\<lambda>x.
       if \<not> is_storage_key x then Inl rc_TYPE
       else res_bind (ok_or (parms_symmetric (parameters (obj_public x))) rc_TYPE) (\<lambda>sd.
         if sym_is_null sd then Inl rc_SYMMETRIC
         else Inr \<lparr>sp_state_clear = state_clear x, sp_alg = name_alg (obj_public x), sp_seed = obj_seed x, sp_symmetric = sd,
                   sp_hierarchy = obj_hierarchy x, sp_qualified = obj_qualified x,
                   sp_firmware = has_attr x oa_FIRMWARE_LIMITED, sp_svn = has_attr x oa_SVN_LIMITED\<rparr>))"

definition is_firmware_limited :: "u32 \<Rightarrow> bool" where
  "is_firmware_limited h = (is_limited h \<and> svn_of h = None)"

definition is_svn_limited :: "u32 \<Rightarrow> bool" where
  "is_svn_limited h = (is_limited h \<and> svn_of h \<noteq> None)"

section \<open>TPM2_CreatePrimary and TPM2_Create\<close>

type_synonym may_command = "request \<Rightarrow> (tpm_state, response) may_op"

definition MAX_SENSITIVE_SIZE :: nat where
  "MAX_SENSITIVE_SIZE = 2 + (2 + MAX_DIGEST_SIZE) + (2 + MAX_DIGEST_SIZE) + (2 + (MAX_RSA_KEY_BYTES div 2) * 5)"

definition MAX_PRIVATE_SIZE :: nat where
  "MAX_PRIVATE_SIZE = (2 + MAX_DIGEST_SIZE) + 2 + MAX_SENSITIVE_SIZE"

definition answer_handle :: "u32 \<Rightarrow> request \<Rightarrow> (writer \<Rightarrow> writer tpm_result) \<Rightarrow> response tpm_result" where
  "answer_handle h q f = map_sum id (\<lambda>r. r\<lparr>rs_handle := Some h\<rparr>) (respond_try q f)"

definition with_limits :: "env \<Rightarrow> tpmt_public \<Rightarrow> bool \<Rightarrow> bool \<Rightarrow> unit tpm_result" where
  "with_limits E p firmware svn =
     map_err (with_parameter 2) (res_bind (validate_creation_template E p) (\<lambda>_. validate_limited_attributes p firmware svn))"

definition check_primary :: "env \<Rightarrow> u32 \<Rightarrow> tpm_state \<Rightarrow> unit tpm_result" where
  "check_primary E h s =
     (if \<not> is_hierarchy h \<and> \<not> is_limited h then Inl (with_handle 1 rc_VALUE)
      else if \<not> is_enabled (hierarchies s) h then Inl (with_handle 1 rc_HIERARCHY)
      else Inr ())"

text \<open>The key of a primary object comes from a generator that starts from the primary seed and the whole template.\<close>

definition primary_sensitive ::
  "env \<Rightarrow> bn_lib \<Rightarrow> ec_lib \<Rightarrow> u32 \<Rightarrow> tpmt_public \<Rightarrow> sensitive_create \<Rightarrow> (tpm_state, tpmt_sensitive \<times> public_id) may_op" where
  "primary_sensitive E B L h p sc s =
     (case res_bind (seed_of E h (hierarchies s)) (\<lambda>seed. res_bind (primary_context E p sc) (\<lambda>ctx.
            Inr (seeded_new (or_sha256 (name_alg p)) seed LABEL_PRIMARY ctx))) of
        Inl e \<Rightarrow> Some (Inl e, s)
      | Inr g \<Rightarrow> (case create_sensitive E B L (seeded_fill E) p sc g of None \<Rightarrow> None | Some (r, _) \<Rightarrow> Some (r, s)))"

definition primary_object ::
  "env \<Rightarrow> bn_lib \<Rightarrow> ec_lib \<Rightarrow> u32 \<Rightarrow> tpmt_public \<Rightarrow> sensitive_create \<Rightarrow> (tpm_state, object) may_op" where
  "primary_object E B L h p sc =
     may_bind (primary_sensitive E B L h p sc) (\<lambda>(x, u).
       ends (st_lift (object_new E (p\<lparr>unique := u\<rparr>) (Some x) h (handle_name h) True)))"

definition creation_parameters :: "env \<Rightarrow> request \<Rightarrow> (sensitive_create \<times> tpmt_public \<times> bytes \<times> pcr_selection list) tpm_result" where
  "creation_parameters E = all_parameters (both (param 1 tpm2b_sensitive_create_get) (both (param 2 (tpm2b_public_get E))
     (both (param 3 (tpm2b_get MAX_DATA)) (param 4 (pcr_selections_get E)))))"

definition creation_answer :: "creation_data \<Rightarrow> bytes \<Rightarrow> ticket \<Rightarrow> writer \<Rightarrow> writer tpm_result" where
  "creation_answer c dg t w =
     res_bind (put_new MAX_DIGEST_SIZE dg (tpm2b_creation_put c w)) (\<lambda>w. Inr (ticket_put t w))"

definition create_primary :: "env \<Rightarrow> bn_lib \<Rightarrow> ec_lib \<Rightarrow> may_command" where
  "create_primary E B L q =
     first (st_lift (rq_handle q 0)) (\<lambda>h.
     first (st_lift (creation_parameters E q)) (\<lambda>(sc, p, outside, sels).
     first (st_view (check_primary E h)) (\<lambda>_.
     first (st_lift (with_limits E p (is_firmware_limited h) (is_svn_limited h))) (\<lambda>_.
     may_bind (primary_object E B L h p sc) (\<lambda>x.
     first (st_view (\<lambda>s. creation_data_for E s (handle_name h) (handle_name h) alg_NULL (or_sha256 (name_alg p)) outside sels
         (rq_locality q))) (\<lambda>(c, dg).
     first (st_view (\<lambda>s. creation_ticket E s h (obj_name x) dg)) (\<lambda>t.
     first (insert_slot (Object_slot x)) (\<lambda>k.
       ends (st_lift (answer_handle k q (\<lambda>w.
         res_bind (creation_answer c dg t (tpm2b_public_put (obj_public x) w)) (put_new SIZEOF_TPMT_HA (obj_name x)))))))))))))"

definition wrap_child :: "env \<Rightarrow> aes_lib \<Rightarrow> storage_parent \<Rightarrow> bytes \<Rightarrow> tpmt_sensitive \<Rightarrow> bytes tpm_result" where
  "wrap_child E A sp name x = wrap_private E A (sp_alg sp) (sp_seed sp) (sp_symmetric sp) name (to_bytes sensitive_put x)"

definition create_command :: "env \<Rightarrow> bn_lib \<Rightarrow> ec_lib \<Rightarrow> aes_lib \<Rightarrow> may_command" where
  "create_command E B L A q =
     first (st_lift (rq_handle q 0)) (\<lambda>h.
     first (st_lift (creation_parameters E q)) (\<lambda>(sc, p, outside, sels).
     first (st_view (\<lambda>s. map_err (with_handle 1) (parent_of s h))) (\<lambda>sp.
     first (st_lift (with_limits E p (sp_firmware sp) (sp_svn sp))) (\<lambda>_.
     first (st_check (attr_has (object_attributes p) oa_FIXED_TPM \<and> \<not> attr_has (object_attributes p) oa_FIXED_PARENT)
       (with_parameter 2 rc_ATTRIBUTES)) (\<lambda>_.
     may_bind (create_sensitive E B L (draw E) p sc) (\<lambda>(x, u).
     let p = p\<lparr>unique := u\<rparr> in
     first (st_lift (object_name E p)) (\<lambda>name.
     first (st_lift (wrap_child E A sp name x)) (\<lambda>private.
     first (st_view (\<lambda>s. name_of E s h)) (\<lambda>parent_name.
     first (st_view (\<lambda>s. creation_data_for E s parent_name (sp_qualified sp) (sp_alg sp) (or_sha256 (name_alg p)) outside sels
         (rq_locality q))) (\<lambda>(c, dg).
     first (st_view (\<lambda>s. creation_ticket E s (sp_hierarchy sp) name dg)) (\<lambda>t.
       ends (st_lift (respond_try q (\<lambda>w.
         res_bind (put_new MAX_PRIVATE_SIZE private w) (\<lambda>w. creation_answer c dg t (tpm2b_public_put p w))))))))))))))))"


section \<open>Derived objects\<close>

record derivation_source =
  dp_state_clear :: bool
  dp_alg :: u16
  dp_sensitive :: bytes
  dp_hierarchy :: u32
  dp_qualified :: bytes
  dp_firmware :: bool
  dp_svn :: bool

definition derivation_parent_of :: "object \<Rightarrow> derivation_source tpm_result" where
  "derivation_parent_of x =
     (if name_alg (obj_public x) = alg_NULL then Inl (with_handle 1 rc_TYPE)
      else case map_option sens_value (obj_sensitive x) of
          Some (Bits_private b) \<Rightarrow>
            Inr \<lparr>dp_state_clear = state_clear x, dp_alg = name_alg (obj_public x), dp_sensitive = b, dp_hierarchy = obj_hierarchy x,
                 dp_qualified = obj_qualified x, dp_firmware = has_attr x oa_FIRMWARE_LIMITED, dp_svn = has_attr x oa_SVN_LIMITED\<rparr>
        | _ \<Rightarrow> Inl (with_handle 1 rc_TYPE))"

definition derivation_parent :: "tpm_state \<Rightarrow> u32 \<Rightarrow> derivation_source option tpm_result" where
  "derivation_parent s h =
     (case object_of s h of
        Inl _ \<Rightarrow> Inr None
      | Inr x \<Rightarrow> if \<not> is_derivation_parent x then Inr None else res_bind (derivation_parent_of x) (\<lambda>d. Inr (Some d)))"

record derived_octets =
  do_buffer :: bytes
  do_offset :: nat

definition derived_new :: "env \<Rightarrow> u16 \<Rightarrow> bytes \<Rightarrow> bytes \<Rightarrow> bytes \<Rightarrow> derived_octets tpm_result" where
  "derived_new E a secret label ctx =
     res_bind (kdfa_bytes E a secret label ctx [] 8192) (\<lambda>b. Inr \<lparr>do_buffer = b, do_offset = 0\<rparr>)"

definition derived_fill :: "derived_octets rng_bytes" where
  "derived_fill n g =
     (let stop = do_offset g + n
      in if length (do_buffer g) < stop then (Inl rc_NO_RESULT, g)
         else (Inr (slice (do_buffer g) (do_offset g) stop), g\<lparr>do_offset := stop\<rparr>))"

text \<open>The key first, then the seed; the unique value of a symmetric object comes from both.\<close>

definition derived_ecc :: "env \<Rightarrow> bn_lib \<Rightarrow> ec_lib \<Rightarrow> tpmt_public \<Rightarrow> (derived_octets, sensitive_composite \<times> public_id) st_op" where
  "derived_ecc E B L p =
     (case parameters p of
        Ecc_parms e \<Rightarrow>
          st_bind (st_lift (curve_new (ecc_curve e))) (\<lambda>c.
          st_bind (private_key_extra_bits B L c derived_fill) (\<lambda>d.
          st_bind (st_lift (key_from_private B L c d)) (\<lambda>k.
            st_lift (ecc_halves E B L p (ecc_curve e) k))))
      | _ \<Rightarrow> st_fail rc_TYPE)"

definition derived_secret ::
  "env \<Rightarrow> bn_lib \<Rightarrow> ec_lib \<Rightarrow> tpmt_public \<Rightarrow> nat \<Rightarrow> (derived_octets, sensitive_composite \<times> public_id) st_op" where
  "derived_secret E B L p n =
     (if object_type p = alg_ECC then derived_ecc E B L p
      else if object_type p = alg_SYMCIPHER then
        (case parameters p of
           Sym_cipher_parms sd \<Rightarrow>
             st_bind (derived_fill (unat (sym_key_bits sd) div 8)) (\<lambda>k.
             st_bind (st_lift (tpm2b_new MAX_SYM_KEY_BYTES k)) (\<lambda>k. st_return (Sym_private k, Sym_id [])))
         | _ \<Rightarrow> st_fail rc_TYPE)
      else if object_type p = alg_KEYEDHASH then
        st_bind (derived_fill n) (\<lambda>b.
        st_bind (st_lift (tpm2b_new MAX_SYM_DATA b)) (\<lambda>b. st_return (Bits_private b, Keyed_hash_id [])))
      else st_fail (with_parameter 2 rc_TYPE))"

definition derived_unique :: "env \<Rightarrow> tpmt_public \<Rightarrow> bytes \<Rightarrow> sensitive_composite \<Rightarrow> public_id \<Rightarrow> public_id tpm_result" where
  "derived_unique E p seed c u =
     (if (case u of Sym_id _ \<Rightarrow> True | Keyed_hash_id _ \<Rightarrow> True | _ \<Rightarrow> False) then
        res_bind (digest_parts E (or_sha256 (name_alg p)) [seed, composite_bytes c]) (\<lambda>d.
        res_bind (tpm2b_new MAX_DIGEST_SIZE d) (\<lambda>d.
          Inr (if object_type p = alg_SYMCIPHER then Sym_id d else Keyed_hash_id d)))
      else Inr u)"

definition derived_sensitive ::
  "env \<Rightarrow> bn_lib \<Rightarrow> ec_lib \<Rightarrow> tpmt_public \<Rightarrow> sensitive_create \<Rightarrow> (derived_octets, tpmt_sensitive \<times> public_id) st_op" where
  "derived_sensitive E B L p sc =
     st_bind (st_lift (hash_size E (or_sha256 (name_alg p)))) (\<lambda>n.
     st_bind (st_check (n < length (sc_auth sc)) (with_parameter 1 rc_SIZE)) (\<lambda>_.
     st_bind (derived_secret E B L p n) (\<lambda>(c, u).
     st_bind (if needs_seed p then derived_fill n else st_return []) (\<lambda>seed.
     st_bind (st_lift (derived_unique E p seed c u)) (\<lambda>u.
       st_lift (res_bind (sensitive_area p (sc_auth sc) seed c) (\<lambda>x. Inr (x, u))))))))"

text \<open>The template's label and context go before those of the sensitive area, each on its own.\<close>

definition label_and_context :: "tpmt_public \<Rightarrow> sensitive_create \<Rightarrow> (bytes \<times> bytes) tpm_result" where
  "label_and_context p sc =
     (let d = (case unique p of Derive_id d \<Rightarrow> d | _ \<Rightarrow> \<lparr>dv_label = [], dv_context = []\<rparr>)
      in if sc_data sc \<noteq> [] \<and> (dv_label d = [] \<or> dv_context d = []) then
           res_bind (derive_get (reader_new (sc_data sc))) (\<lambda>(v, r).
           res_bind (expect_end r) (\<lambda>_.
             Inr (if dv_label d = [] then dv_label v else dv_label d, if dv_context d = [] then dv_context v else dv_context d)))
         else Inr (dv_label d, dv_context d))"

definition derive_template :: "env \<Rightarrow> derivation_source \<Rightarrow> bytes \<Rightarrow> tpmt_public tpm_result" where
  "derive_template E d template =
     res_bind (map_err (with_parameter 2) (public_get_with E True (reader_new template))) (\<lambda>(p, r).
     res_bind (expect_end r) (\<lambda>_.
     res_bind (with_limits E p (dp_firmware d) (dp_svn d)) (\<lambda>_.
       if attr_has (object_attributes p) oa_SENSITIVE_DATA_ORIGIN then Inl (with_parameter 2 rc_ATTRIBUTES)
       else if object_type p = alg_RSA then Inl (with_parameter 2 rc_TYPE)
       else Inr p)))"

definition derived_object ::
  "env \<Rightarrow> bn_lib \<Rightarrow> ec_lib \<Rightarrow> derivation_source \<Rightarrow> sensitive_create \<Rightarrow> tpmt_public \<Rightarrow> object tpm_result" where
  "derived_object E B L d sc p =
     res_bind (map_err (with_parameter 1) (label_and_context p sc)) (\<lambda>(label, ctx).
     res_bind (derived_new E (dp_alg d) (dp_sensitive d) label ctx) (\<lambda>octets.
     res_bind (fst (derived_sensitive E B L p sc octets)) (\<lambda>(x, u).
     res_bind (object_new E (p\<lparr>unique := u\<rparr>) (Some x) (dp_hierarchy d) (dp_qualified d) True) (\<lambda>y.
       Inr (y\<lparr>state_clear := state_clear y \<or> dp_state_clear d\<rparr>)))))"

text \<open>What a command answers that leaves a new object in a slot: its private area, its public area, its Name.\<close>

definition answer_created :: "bytes \<Rightarrow> object \<Rightarrow> request \<Rightarrow> (tpm_state, response) st_op" where
  "answer_created private x q =
     st_bind (insert_slot (Object_slot x)) (\<lambda>k.
       st_lift (answer_handle k q (\<lambda>w. res_bind (put_new MAX_PRIVATE_SIZE private w) (\<lambda>w.
         put_new SIZEOF_TPMT_HA (obj_name x) (tpm2b_public_put (obj_public x) w)))))"

definition derive_object ::
  "env \<Rightarrow> bn_lib \<Rightarrow> ec_lib \<Rightarrow> derivation_source \<Rightarrow> sensitive_create \<Rightarrow> bytes \<Rightarrow> request \<Rightarrow> (tpm_state, response) st_op" where
  "derive_object E B L d sc template q =
     st_bind (st_lift (res_bind (derive_template E d template) (derived_object E B L d sc))) (\<lambda>x. answer_created [] x q)"

section \<open>TPM2_CreateLoaded\<close>

definition MAX_TEMPLATE_SIZE :: nat where
  "MAX_TEMPLATE_SIZE = 2 + 2 + 4 + (2 + MAX_DIGEST_SIZE) + (2 + 2 + 2) + (2 + 2) + 2 + 4 + (2 + MAX_RSA_KEY_BYTES)"

definition loaded_primary :: "env \<Rightarrow> bn_lib \<Rightarrow> ec_lib \<Rightarrow> u32 \<Rightarrow> tpmt_public \<Rightarrow> sensitive_create \<Rightarrow> may_command" where
  "loaded_primary E B L h p sc q =
     first (st_view (\<lambda>s. if \<not> is_enabled (hierarchies s) h then Inl (with_handle 1 rc_HIERARCHY) else Inr ())) (\<lambda>_.
     first (st_lift (map_err (with_parameter 2) (validate_limited_attributes p (is_firmware_limited h) (is_svn_limited h)))) (\<lambda>_.
     may_bind (primary_object E B L h p sc) (\<lambda>x. ends (answer_created [] x q))))"

definition child_object :: "env \<Rightarrow> storage_parent \<Rightarrow> tpmt_public \<Rightarrow> tpmt_sensitive \<Rightarrow> bool \<Rightarrow> object tpm_result" where
  "child_object E sp p x generated =
     res_bind (object_new E p (Some x) (sp_hierarchy sp) (sp_qualified sp) generated) (\<lambda>y.
       Inr (y\<lparr>state_clear := state_clear y \<or> sp_state_clear sp\<rparr>))"

definition loaded_child :: "env \<Rightarrow> bn_lib \<Rightarrow> ec_lib \<Rightarrow> aes_lib \<Rightarrow> u32 \<Rightarrow> tpmt_public \<Rightarrow> sensitive_create \<Rightarrow> may_command" where
  "loaded_child E B L A h p sc q =
     first (st_view (\<lambda>s. map_err (with_handle 1) (parent_of s h))) (\<lambda>sp.
     first (st_lift (map_err (with_parameter 2) (validate_limited_attributes p (sp_firmware sp) (sp_svn sp)))) (\<lambda>_.
     may_bind (create_sensitive E B L (draw E) p sc) (\<lambda>(x, u).
     let p = p\<lparr>unique := u\<rparr> in
     first (st_lift (object_name E p)) (\<lambda>name.
     first (st_lift (wrap_child E A sp name x)) (\<lambda>private.
     first (st_lift (child_object E sp p x True)) (\<lambda>y. ends (answer_created private y q)))))))"

definition create_loaded :: "env \<Rightarrow> bn_lib \<Rightarrow> ec_lib \<Rightarrow> aes_lib \<Rightarrow> may_command" where
  "create_loaded E B L A q =
     first (st_lift (rq_handle q 0)) (\<lambda>h.
     first (st_lift (all_parameters (both (param 1 tpm2b_sensitive_create_get) (param 2 (tpm2b_get MAX_TEMPLATE_SIZE))) q))
       (\<lambda>(sc, template).
     first (st_view (\<lambda>s. derivation_parent s h)) (\<lambda>dp.
       case dp of
         Some d \<Rightarrow> ends (derive_object E B L d sc template q)
       | None \<Rightarrow>
           first (st_lift (map_err (with_parameter 2) (from_bytes (public_get E) template))) (\<lambda>p.
           first (st_lift (map_err (with_parameter 2) (validate_creation_template E p))) (\<lambda>_.
             if is_hierarchy h \<or> is_limited h then loaded_primary E B L h p sc q
             else loaded_child E B L A h p sc q)))))"


section \<open>Loading\<close>

text \<open>The check of a public area against a private one, over the library's arithmetic.\<close>

definition model_lib :: "bn_lib \<Rightarrow> ec_lib \<Rightarrow> key_lib" where
  "model_lib B L =
     \<lparr>rsa_prime_divides = \<lambda>m e prime. is_ok (from_prime B m e prime),
      point_on_curve = \<lambda>i x y. res_bind (curve_new i) (\<lambda>c. res_bind (point_from_coordinates B L c x y) (\<lambda>_. Inr ())),
      scalar_point = \<lambda>i d. (case res_bind (curve_new i) (\<lambda>c. point_coordinates B L c (multiply_generator L c (bn_from_bytes B d))) of
         Inl _ \<Rightarrow> None | Inr v \<Rightarrow> Some v)\<rparr>"

definition load_command :: "env \<Rightarrow> aes_lib \<Rightarrow> key_lib \<Rightarrow> command" where
  "load_command E A K = with_handle_area 0 (\<lambda>h.
     reading (both (param 1 (tpm2b_get MAX_PRIVATE_SIZE)) (param 2 (tpm2b_public_get E))) (\<lambda>(private, p) q.
     st_bind (st_check (private = []) (with_parameter 1 rc_SIZE)) (\<lambda>_.
     st_bind (st_view (\<lambda>s. map_err (with_handle 1) (parent_of s h))) (\<lambda>sp.
     st_bind (st_lift (map_err (with_parameter 2) (validate_loaded_public E K p))) (\<lambda>_.
     st_bind (st_lift (map_err (with_parameter 2) (validate_action_attributes p))) (\<lambda>_.
     st_bind (st_lift (object_name E p)) (\<lambda>name.
     st_bind (st_lift (unwrap_private E A (sp_alg sp) (sp_seed sp) (sp_symmetric sp) name private)) (\<lambda>plain.
     st_bind (st_lift (map_err (\<lambda>_. rc_SENSITIVE) (from_bytes sensitive_get plain))) (\<lambda>x.
     st_bind (st_lift (map_err (with_parameter 1) (check_binding E K p x))) (\<lambda>_.
     st_bind (st_lift (child_object E sp p x False)) (\<lambda>y.
     st_bind (insert_slot (Object_slot y)) (\<lambda>k.
       st_lift (answer_handle k q (put_new SIZEOF_TPMT_HA (obj_name y)))))))))))))))"

definition external_private_get :: "reader \<Rightarrow> (tpmt_sensitive option \<times> reader) tpm_result" where
  "external_private_get r =
     res_bind (r_u16 r) (\<lambda>(n, r).
       if n = 0 then Inr (None, r)
       else res_bind (r_sub (unat n) r) (\<lambda>(body, r).
            res_bind (sensitive_get body) (\<lambda>(x, body).
              if \<not> r_is_empty body then Inl rc_SIZE else Inr (Some x, r))))"

definition check_external_public :: "tpmt_public \<Rightarrow> bool \<Rightarrow> unit tpm_result" where
  "check_external_public p with_private =
     (if (case unique p of Rsa_id m \<Rightarrow> m = [] | Ecc_id pt \<Rightarrow> pt_x pt = [] \<or> pt_y pt = [] | _ \<Rightarrow> False)
        then Inl (with_parameter 2 rc_KEY)
      else let attrs = object_attributes p in
        if with_private \<and> (attr_has attrs oa_FIXED_TPM \<or> attr_has attrs oa_FIXED_PARENT \<or> attr_has attrs oa_RESTRICTED
             \<or> attr_has attrs oa_FIRMWARE_LIMITED \<or> attr_has attrs oa_SVN_LIMITED)
        then Inl (with_parameter 2 rc_ATTRIBUTES)
        else Inr ())"

definition check_external_private :: "env \<Rightarrow> key_lib \<Rightarrow> tpmt_public \<Rightarrow> tpmt_sensitive option \<Rightarrow> u32 \<Rightarrow> unit tpm_result" where
  "check_external_private E K p private h =
     (case private of
        None \<Rightarrow> Inr ()
      | Some x \<Rightarrow>
          if h \<noteq> rh_NULL then Inl (with_parameter 3 rc_HIERARCHY)
          else if sensitive_type x \<noteq> object_type p then Inl (with_parameter 1 rc_TYPE)
          else map_err (with_parameter 1) (check_binding E K p x))"

definition check_external_hierarchy :: "u32 \<Rightarrow> tpm_state \<Rightarrow> unit tpm_result" where
  "check_external_hierarchy h s =
     (if h \<noteq> rh_NULL \<and> \<not> is_hierarchy h \<and> \<not> is_limited h then Inl (with_parameter 3 rc_HIERARCHY)
      else if \<not> limited_secret_available h then Inl (with_parameter 3 rc_SVN_LIMITED)
      else if \<not> is_enabled (hierarchies s) h then Inl (with_parameter 3 rc_HIERARCHY)
      else Inr ())"

definition load_external :: "env \<Rightarrow> key_lib \<Rightarrow> command" where
  "load_external E K =
     reading (both (param 1 external_private_get) (both (param 2 (tpm2b_public_get E)) (param 3 r_u32))) (\<lambda>(private, p, h) q.
     st_bind (st_lift (map_err (with_parameter 2) (validate_loaded_public E K p))) (\<lambda>_.
     st_bind (st_lift (check_external_public p (private \<noteq> None))) (\<lambda>_.
     st_bind (st_lift (check_external_private E K p private h)) (\<lambda>_.
     st_bind (st_view (check_external_hierarchy h)) (\<lambda>_.
     st_bind (st_lift (object_new E p private h (handle_name h) False)) (\<lambda>y.
     st_bind (insert_slot (Object_slot y)) (\<lambda>k.
       st_lift (answer_handle k q (put_new SIZEOF_TPMT_HA (obj_name y))))))))))"

section \<open>TPM2_ReadPublic, TPM2_Unseal, TPM2_ObjectChangeAuth\<close>

definition readable_object :: "tpm_state \<Rightarrow> u32 \<Rightarrow> object tpm_result" where
  "readable_object s h =
     (if is_transient h then
        (case objects_get h (objects s) of
           Inr (Sequence_slot _) \<Rightarrow> Inl (with_handle 1 rc_SEQUENCE)
         | _ \<Rightarrow> map_err (with_handle 1) (objects_object h (objects s)))
      else ok_or (bt_get (persistent s) h) (with_handle 1 rc_HANDLE))"

definition read_public :: command where
  "read_public = with_handle_area 0 (\<lambda>h q.
     st_bind (st_view (\<lambda>s. readable_object s h)) (\<lambda>x.
       st_lift (unread (respond_try q (\<lambda>w.
         res_bind (put_new SIZEOF_TPMT_HA (obj_name x) (tpm2b_public_put (obj_public x) w)) (put_new SIZEOF_TPMT_HA (obj_qualified x)))))))"

definition sealed_data :: "object \<Rightarrow> bytes tpm_result" where
  "sealed_data x =
     (if object_type (obj_public x) \<noteq> alg_KEYEDHASH then Inl (with_handle 1 rc_TYPE)
      else if attr_any (object_attributes (obj_public x)) (oa_SIGN_ENCRYPT OR oa_DECRYPT) then Inl (with_handle 1 rc_ATTRIBUTES)
      else ok_or (map_option secret_of (obj_sensitive x)) (with_handle 1 rc_HANDLE))"

definition unseal :: command where
  "unseal = with_handle_area 0 (\<lambda>h q.
     st_bind (st_view (\<lambda>s. res_bind (map_err (with_handle 1) (object_of s h)) sealed_data)) (\<lambda>data.
       st_lift (unread (respond_try q (put_new MAX_SYM_DATA data)))))"

definition changed_private :: "env \<Rightarrow> aes_lib \<Rightarrow> storage_parent \<Rightarrow> object \<Rightarrow> bytes \<Rightarrow> bytes tpm_result" where
  "changed_private E A sp x auth =
     res_bind (qualified_name E (name_alg (obj_public x)) (sp_qualified sp) (obj_name x)) (\<lambda>qn.
       if obj_qualified x \<noteq> qn then Inl (with_handle 1 rc_TYPE)
       else res_bind (ok_or (obj_sensitive x) (with_handle 1 rc_HANDLE)) (\<lambda>secret.
            res_bind (hash_size E (name_alg (obj_public x))) (\<lambda>n.
            if n < length auth then Inl (with_parameter 1 rc_SIZE)
            else res_bind (tpm2b_new MAX_DIGEST_SIZE auth) (\<lambda>auth.
                 wrap_child E A sp (obj_name x) (secret\<lparr>sens_auth := auth\<rparr>)))))"

definition object_change_auth :: "env \<Rightarrow> aes_lib \<Rightarrow> command" where
  "object_change_auth E A = with_handle_area 0 (\<lambda>h. with_handle_area 1 (\<lambda>ph.
     reading (param 1 (tpm2b_get MAX_DIGEST_SIZE)) (\<lambda>auth q.
     st_bind (st_view (\<lambda>s. map_err (with_handle 2) (parent_of s ph))) (\<lambda>sp.
     st_bind (st_view (\<lambda>s. map_err (with_handle 1) (object_of s h))) (\<lambda>x.
     st_bind (st_lift (changed_private E A sp x auth)) (\<lambda>private.
       st_lift (respond_try q (put_new MAX_PRIVATE_SIZE private))))))))"

end
