(* ===== verification/ObjectLaws.thy ===== *)
theory ObjectLaws
  imports ObjectCommands
begin

text \<open>
  What \<open>TPM2_Create\<close> makes can be loaded (\<open>src/tpm/commands/object.rs\<close>): the two halves of every new key belong
  together as \<open>check_binding\<close> demands, the private area it answers unwraps, and \<open>TPM2_Load\<close> takes the two areas.
\<close>

section \<open>New keys have matching halves\<close>

lemma prime_search:
  assumes "generate_prime B rb bits e g = Some r"
  shows "bn_ok B \<longrightarrow> (\<forall>n. fst r = Inr n \<longrightarrow> 0 \<le> n \<and> BN_num_bits B n = bits)"
proof (induct B rb bits e g r rule: generate_prime.raw_induct)
  case (1 search B rb bits e g r)
  then show ?case by (auto simp: Let_def bn_arith(5) split: prod.splits sum.splits if_splits)
qed (rule assms)

lemma generated_prime:
  "bn_ok B \<Longrightarrow> generate_prime B rb bits e g = Some (Inr n, g') \<Longrightarrow> 0 \<le> n \<and> BN_num_bits B n = bits"
  using prime_search by fastforce

definition rsa_pair :: "bn_lib \<Rightarrow> nat \<Rightarrow> bignum \<Rightarrow> rsa_private \<Rightarrow> bool" where
  "rsa_pair B bits e k \<longleftrightarrow> 0 \<le> prv_p k \<and> 0 \<le> prv_q k
     \<and> prv_public k = \<lparr>pub_n = prv_p k * prv_q k, pub_e = e\<rparr> \<and> private_exponent B e (prv_p k) (prv_q k) = Inr (prv_d k)
     \<and> BN_num_bits B (prv_p k * prv_q k) = bits \<and> BN_num_bits B (prv_q k) = bits div 2"

lemma second_search:
  assumes "second_prime B rb bits e p g = Some r"
  shows "bn_ok B \<and> 0 \<le> p \<longrightarrow> (\<forall>k. fst r = Inr k \<longrightarrow> prv_p k = p \<and> rsa_pair B bits e k)"
proof (induct B rb bits e p g r rule: second_prime.raw_induct)
  case (1 search B rb bits e p g r)
  show ?case
  proof (intro impI allI)
    fix k assume ok: "bn_ok B \<and> 0 \<le> p" and k: "fst r = Inr k"
    obtain q h where q: "generate_prime B rb (bits div 2) e g = Some (Inr q, h)"
      using 1(2) k by (auto split: option.splits sum.splits prod.splits)
    then have "0 \<le> q \<and> BN_num_bits B q = bits div 2" using generated_prime [OF conjunct1 [OF ok] q] by simp
    show "prv_p k = p \<and> rsa_pair B bits e k"
    proof (cases "search B rb bits e p h = Some r")
      case True
      from 1(1) [OF this] ok k show ?thesis by simp
    next
      case False
      then show ?thesis using 1(2) ok k \<open>0 \<le> q \<and> BN_num_bits B q = bits div 2\<close>
        by (auto simp: q rsa_pair_def bn_arith(3) split: if_splits sum.splits)
    qed
  qed
qed (rule assms)

lemma generated_second:
  "bn_ok B \<Longrightarrow> 0 \<le> p \<Longrightarrow> second_prime B rb bits e p g = Some (Inr k, g') \<Longrightarrow> prv_p k = p \<and> rsa_pair B bits e k"
  using second_search by fastforce

lemma rsa_generated:
  assumes "bn_ok B" and "rsa_generate B rb bits e g = Some (Inr k, g')"
  shows "2048 \<le> unat bits \<and> rsa_pair B (unat bits) (uint (effective_exponent e)) k \<and> BN_num_bits B (prv_p k) = unat bits div 2"
proof -
  obtain p h where p: "generate_prime B rb (unat bits div 2) (bn_from_u64 (ucast (effective_exponent e))) g = Some (Inr p, h)"
    and k: "second_prime B rb (unat bits) (bn_from_u64 (ucast (effective_exponent e))) p h = Some (Inr k, g')"
      "\<not> bits < 2048"
    using assms(2) by (auto simp: rsa_generate_def Let_def split: if_splits option.splits sum.splits)
  have "0 \<le> p" "BN_num_bits B p = unat bits div 2" using generated_prime [OF assms(1) p] by simp_all
  moreover have "bn_from_u64 (ucast (effective_exponent e)) = uint (effective_exponent e)"
    by (simp add: bn_from_u64_def uint_up_ucast is_up)
  moreover have "2048 \<le> unat bits" using k(2) by (simp add: word_less_nat_alt)
  ultimately show ?thesis using generated_second [OF assms(1) _ k(1)] by simp
qed

lemma significant_bits_num:
  assumes "bn_ok B"
  shows "significant_bits m = BN_num_bits B (int (octets_value m))"
proof -
  have le: "(BN_num_bits B (int (octets_value m)) \<le> n) = (octets_value m < 2 ^ n)" for n
    using bn_num_bits_le [OF assms, of "int (octets_value m)" n] by (metis of_nat_0_le_iff of_nat_less_iff of_nat_numeral of_nat_power)
  have "BN_num_bits B (int (octets_value m)) \<le> significant_bits m" using significant_bits_spec [of m] le by blast
  moreover have "\<not> BN_num_bits B (int (octets_value m)) \<le> significant_bits m - 1" if "significant_bits m \<noteq> 0"
    using significant_bits_spec [of m] le that by (meson not_less)
  ultimately show ?thesis by fastforce
qed

lemma rsa_halves_match:
  assumes B: "bn_ok B" and pair: "rsa_pair B bits (uint (effective_exponent e)) k" and "BN_num_bits B (prv_p k) = bits div 2" and "2048 \<le> bits"
    and "rsa_halves E B p k = Inr (c, u)"
  obtains prime m where "c = Rsa_private prime" and "u = Rsa_id m" and "is_ok (from_prime B m e prime)"
    and "length prime \<le> MAX_RSA_PRIVATE_BYTES" and "length m \<le> MAX_RSA_KEY_BYTES" and "significant_bits m = bits"
proof -
  let ?p = "prv_p k" and ?q = "prv_q k"
  have nonneg: "0 \<le> ?p" "0 \<le> ?q" and n: "pub_n (prv_public k) = ?p * ?q" "BN_num_bits B (?p * ?q) = bits"
    using pair by (simp_all add: rsa_pair_def)
  have large: "\<not> x < 2 ^ 1" if "0 \<le> x" "BN_num_bits B x = bits div 2" for x
  proof -
    have "\<not> bits div 2 \<le> 1" using assms(4) by linarith
    then show ?thesis using bn_num_bits_le [OF B that(1), of 1] that(2) by simp
  qed
  then have two: "2 \<le> ?p" "2 \<le> ?q" using nonneg assms(3) pair by (fastforce simp: rsa_pair_def)+
  obtain prime m where c: "prime_bytes B k = Inr prime" "modulus_bytes B k = Inr m" "c = Rsa_private prime" "u = Rsa_id m"
      "length prime \<le> MAX_RSA_PRIVATE_BYTES" "length m \<le> MAX_RSA_KEY_BYTES"
    using assms(5) by (auto simp: rsa_halves_def res_bind_eq_Inr tpm2b_new_def split: if_splits)
  have read: "bn_from_bytes B prime = ?p" "bn_from_bytes B m = ?p * ?q"
    using c(1,2) bn_read_written(1) [OF B] nonneg n(1)
    by (auto simp: prime_bytes_def modulus_bytes_def bn_to_bytes_def)
  have "rsa_public_new B m e = Inr (prv_public k)"
    using pair read two by (simp add: rsa_public_new_def rsa_pair_def Let_def bn_from_u64_def uint_up_ucast is_up)
  moreover have "bn_div_rem B (?p * ?q) ?p = Inr (?q, 0)"
    using two bn_nonneg_arith(1) [OF B, of "?p * ?q" ?p] by (simp add: bn_div_rem_def)
  ultimately have "is_ok (from_prime B m e prime)"
    using pair two by (simp add: from_prime_def read rsa_pair_def is_ok_iff Let_def)
  moreover have "significant_bits m = bits" using n(2) read(2) by (simp add: significant_bits_num [OF B] bn_arith [OF B])
  ultimately show ?thesis using that c by blast
qed

lemma ecc_halves_match:
  assumes B: "bn_ok B" and L: "ec_ok L" and "ecc_generate B L i rb g = (Inr k, g')" and "ecc_halves E B L p i k = Inr (c, u)"
  obtains d pt where "c = Ecc_private d" and "u = Ecc_id pt" and "scalar_point (model_lib B L) i d = Some (pt_x pt, pt_y pt)"
    and "point_on_curve (model_lib B L) i (pt_x pt) (pt_y pt) = Inr ()" and "length d \<le> MAX_ECC_KEY_BYTES" and "ecc_point_ok pt"
proof -
  obtain cv h where cv: "curve_new i = Inr cv" "ek_curve k = cv" and d: "private_key_from_rng B L cv rb g = (Inr (ek_private k), h)"
    and xy: "point_coordinates B L cv (multiply_generator L cv (ek_private k)) = Inr (ek_x k, ek_y k)"
    using assms(3) by (auto simp: ecc_generate_def st_bind_def st_lift_def Let_def st_return_def split: sum.splits prod.splits)
  have pair: "key_pair B L cv (ek_private k) (ek_x k) (ek_y k)"
    using draw_private_range [OF B d [unfolded private_key_from_rng_def]] xy by (simp add: key_pair_def)
  obtain b where b: "bn_to_bytes_padded B (coordinate_size L cv) (ek_private k) = Inr b" "c = Ecc_private b"
      "u = Ecc_id \<lparr>pt_x = ek_x k, pt_y = ek_y k\<rparr>" "length b \<le> MAX_ECC_KEY_BYTES" "length (ek_x k) \<le> MAX_ECC_KEY_BYTES"
      "length (ek_y k) \<le> MAX_ECC_KEY_BYTES"
    using assms(4) cv(2) by (auto simp: ecc_halves_def res_bind_eq_Inr tpm2b_new_def split: if_splits)
  have "bn_from_bytes B b = ek_private k" using bn_read_written(1) [OF B _ b(1)] pair by (simp add: key_pair_def)
  then have "scalar_point (model_lib B L) i b = Some (ek_x k, ek_y k)" by (simp add: model_lib_def cv(1) xy)
  moreover have "point_on_curve (model_lib B L) i (ek_x k) (ek_y k) = Inr ()"
    using key_pair_point [OF B L pair] by (simp add: model_lib_def cv(1))
  ultimately show ?thesis using that [of b "\<lparr>pt_x = ek_x k, pt_y = ek_y k\<rparr>"] b by (simp add: ecc_point_ok_def)
qed

text \<open>A new sensitive area is fit to be written, and the new public area passes what TPM2_Load asks of it.\<close>

definition matching :: "env \<Rightarrow> bn_lib \<Rightarrow> ec_lib \<Rightarrow> tpmt_public \<Rightarrow> tpmt_sensitive \<Rightarrow> public_id \<Rightarrow> bool" where
  "matching E B L p x u \<longleftrightarrow> sensitive_ok x \<and> id_ok (object_type p) u
     \<and> check_binding E (model_lib B L) (p\<lparr>unique := u\<rparr>) x = Inr ()
     \<and> (validate_public E p = Inr () \<longrightarrow> validate_loaded_public E (model_lib B L) (p\<lparr>unique := u\<rparr>) = Inr ())"

lemma validate_public_unique: "validate_public E (p\<lparr>unique := u\<rparr>) = validate_public E p"
  by (simp add: validate_public_def check_kdf_def check_policy_size_def public_scheme_def Let_def cong: sum.case_cong)

lemma validate_action_unique: "validate_action_attributes (p\<lparr>unique := u\<rparr>) = validate_action_attributes p"
  by (simp add: validate_action_attributes_def validate_restricted_has_an_action_def cong: if_cong)

lemma new_secret_matches:
  assumes B: "bn_ok B" and L: "ec_ok L" and "public_ok E p" and named: "name_alg p = alg_NULL \<longrightarrow> is_asymmetric p"
    and new: "new_secret E B L rb p n seed data g = Some (Inr (c, u), g')" and "sensitive_area p auth seed c = Inr x"
  shows "matching E B L p x u"
proof -
  have x: "x = \<lparr>sensitive_type = object_type p, sens_auth = auth, sens_seed = seed, sens_value = c\<rparr>" "length auth \<le> MAX_DIGEST_SIZE"
      "length seed \<le> MAX_DIGEST_SIZE"
    using assms(6) by (auto simp: sensitive_area_def res_bind_eq_Inr tpm2b_new_def split: if_splits)
  have pub: "is_public_type (object_type p)" "parms_selector (parameters p) = object_type p"
    using assms(3) by (simp_all add: public_ok_def)
  then consider "object_type p = alg_RSA" | "object_type p = alg_ECC" | "object_type p = alg_KEYEDHASH" | "object_type p = alg_SYMCIPHER"
    by (auto simp: is_public_type_def)
  then show ?thesis
  proof cases
    case 1
    then obtain r where r: "parameters p = Rsa_parms r" using pub(2) by (cases "parameters p") auto
    obtain k h where k: "rsa_generate B rb (rsa_key_bits r) (rsa_exponent r) h = Some (Inr k, g')" "rsa_halves E B p k = Inr (c, u)"
      using new 1 r by (auto simp: new_secret_def new_rsa_def first_def may_bind_def ends_def st_check_def st_lift_def
          split: option.splits sum.splits prod.splits if_splits)
    from rsa_halves_match [OF B _ _ _ k(2)] rsa_generated [OF B k(1)]
    obtain prime m where "c = Rsa_private prime" "u = Rsa_id m" "is_ok (from_prime B m (rsa_exponent r) prime)"
      "length prime \<le> MAX_RSA_PRIVATE_BYTES" "length m \<le> MAX_RSA_KEY_BYTES" "significant_bits m = unat (rsa_key_bits r)" by metis
    then show ?thesis
      using 1 x r by (simp add: matching_def sensitive_ok_def is_public_type_def check_binding_def guard_def model_lib_def
          validate_loaded_public_def validate_public_unique)
  next
    case 2
    then obtain e where e: "parameters p = Ecc_parms e" using pub(2) by (cases "parameters p") auto
    obtain k h g2 where k: "ecc_generate B L (ecc_curve e) rb h = (Inr k, g2)" "ecc_halves E B L p (ecc_curve e) k = Inr (c, u)"
      using new 2 e by (auto simp: new_secret_def new_ecc_def ends_def st_bind_def st_check_def st_lift_def
          split: sum.splits prod.splits if_splits)
    from ecc_halves_match [OF B L k]
    obtain d pt where "c = Ecc_private d" "u = Ecc_id pt" "scalar_point (model_lib B L) (ecc_curve e) d = Some (pt_x pt, pt_y pt)"
      "point_on_curve (model_lib B L) (ecc_curve e) (pt_x pt) (pt_y pt) = Inr ()" "length d \<le> MAX_ECC_KEY_BYTES" "ecc_point_ok pt" .
    then show ?thesis
      using 2 x e by (simp add: matching_def sensitive_ok_def is_public_type_def check_binding_def guard_def
          validate_loaded_public_def validate_public_unique)
  next
    case 3
    then have a: "name_alg p \<noteq> alg_NULL" using named by (auto simp: is_asymmetric_def)
    obtain b d where "c = Bits_private b" "u = Keyed_hash_id d" "digest_parts E (name_alg p) [seed, b] = Inr d"
        "length b \<le> MAX_SYM_DATA" "length d \<le> MAX_DIGEST_SIZE"
      using new 3 a by (auto simp: new_secret_def new_keyed_hash_def ends_def st_bind_def st_check_def st_lift_def st_return_def or_sha256_def
          tpm2b_new_def split: sum.splits prod.splits if_splits)
    then show ?thesis
      using 3 x by (simp add: matching_def sensitive_ok_def is_public_type_def check_binding_def check_obfuscated_def guard_def
          validate_loaded_public_def validate_public_unique)
  next
    case 4
    then have a: "name_alg p \<noteq> alg_NULL" using named by (auto simp: is_asymmetric_def)
    obtain sd where sd: "parameters p = Sym_cipher_parms sd" using 4 pub(2) by (cases "parameters p") auto
    obtain b d where "c = Sym_private b" "u = Sym_id d" "digest_parts E (name_alg p) [seed, b] = Inr d"
        "length b \<le> MAX_SYM_KEY_BYTES" "length d \<le> MAX_DIGEST_SIZE"
      using new 4 a sd by (auto simp: new_secret_def new_cipher_def ends_def st_bind_def st_check_def st_lift_def st_return_def or_sha256_def
          tpm2b_new_def Let_def split: sum.splits prod.splits if_splits)
    then show ?thesis
      using 4 x by (simp add: matching_def sensitive_ok_def is_public_type_def check_binding_def check_obfuscated_def guard_def
          validate_loaded_public_def validate_public_unique)
  qed
qed

lemma created_matches:
  assumes "bn_ok B" and "ec_ok L" and "public_ok E p" and "name_alg p = alg_NULL \<longrightarrow> is_asymmetric p"
    and "create_sensitive E B L rb p sc g = Some (Inr (x, u), g')"
  shows "matching E B L p x u \<and> sens_auth x = sc_auth sc"
proof -
  obtain n seed c h where new: "new_secret E B L rb p n seed (sc_data sc) h = Some (Inr (c, u), g')"
    and x: "sensitive_area p (sc_auth sc) seed c = Inr x"
    using assms(5) by (auto simp: create_sensitive_def first_def may_bind_def ends_def st_lift_def st_check_def res_bind_eq_Inr
        split: option.splits sum.splits prod.splits if_splits)
  from x have "sens_auth x = sc_auth sc" by (auto simp: sensitive_area_def res_bind_eq_Inr tpm2b_new_def split: if_splits)
  with new_secret_matches [OF assms(1-4) new x] show ?thesis by simp
qed

section \<open>Writing what was created\<close>

definition appends :: "(writer \<Rightarrow> writer) \<Rightarrow> bool" where
  "appends f \<longleftrightarrow> (\<forall>w. \<exists>b. wbuf (f w) = wbuf w @ b)"

lemma wbuf_tpm2b: "wbuf (tpm2b_put b w) = wbuf w @ (if length b < 2 ^ 16 then to_be 2 (of_nat (length b) :: u16) else to_be 2 (0 :: u16)) @ b"
  by (simp add: tpm2b_put_def sized16_def)

lemma appends_sized: "appends f \<Longrightarrow> appends (sized16_with f)"
proof -
  assume f: "appends f"
  have "\<exists>b. wbuf (sized16_with f w) = wbuf w @ b" for w
  proof -
    obtain b where "wbuf (f (w_u16 0 w)) = wbuf w @ to_be 2 (0 :: u16) @ b" using f unfolding appends_def by (metis append_assoc wbuf_writes(3))
    then show ?thesis by (simp add: sized16_with_def Let_def upd_slice_def)
  qed
  then show ?thesis by (simp add: appends_def)
qed

lemma appends_selections: "appends (pcr_selections_put xs)"
proof -
  have "appends (pcr_selection_put x)" for x
    by (auto simp: appends_def pcr_selection_put_def pcr_select_put_def)
  then have "\<exists>b. wbuf (foldl (\<lambda>w x. pcr_selection_put x w) w xs) = wbuf w @ b" for w
    by (induction xs arbitrary: w) (auto simp: appends_def, metis append_assoc)
  from this [of "w_u32 (of_nat (length xs)) _"] show ?thesis
    by (fastforce simp: appends_def pcr_selections_put_def marshal_list_def)
qed

lemma appends_creation: "appends (tpm2b_creation_put c)"
proof -
  have "\<exists>b. wbuf (creation_put c w) = wbuf w @ b" for w
    using appends_selections [of "cd_select c"] unfolding appends_def creation_put_def wbuf_tpm2b wbuf_writes by (metis append_assoc)
  then show ?thesis unfolding tpm2b_creation_put_def by (intro appends_sized) (simp add: appends_def)
qed

lemma public_small:
  assumes "public_ok E p"
  shows "length (public_enc p) < 2 ^ 16"
proof -
  have detail: "length (detail_enc d) \<le> 4" for d by (cases d) simp_all
  have scheme: "length (scheme_enc x) \<le> 6" for x using detail [of "scheme_detail x"] by (simp add: scheme_enc_def)
  have sd: "length (sym_def_enc x) \<le> 6" for x by (simp add: sym_def_enc_def)
  have "length (parms_enc (parameters p)) \<le> 30"
  proof (cases "parameters p")
    case (Keyed_hash_parms x)
    then show ?thesis using scheme [of x] by simp
  next
    case (Sym_cipher_parms x)
    then show ?thesis using sd [of x] by simp
  next
    case (Rsa_parms x)
    then show ?thesis using sd [of "rsa_symmetric x"] scheme [of "rsa_scheme x"] by simp
  next
    case (Ecc_parms x)
    then show ?thesis using sd [of "ecc_symmetric x"] scheme [of "ecc_scheme x"] scheme [of "ecc_kdf x"] by simp
  qed
  moreover have "length (id_enc (unique p)) \<le> 2000"
    using assms by (cases "unique p") (auto simp: public_ok_def key_limits enc_sized16_def ecc_point_enc_def ecc_point_ok_def)
  ultimately show ?thesis
    using assms by (simp add: public_ok_def public_enc_def enc_sized16_def MAX_DIGEST_SIZE_def)
qed

lemma answer_prefix:
  assumes "respond_try q (\<lambda>w. res_bind (put_new MAX_PRIVATE_SIZE private w) (\<lambda>w. creation_answer c dg t (tpm2b_public_put p w))) = Inr r"
    and "public_ok E p"
  shows "length private \<le> MAX_PRIVATE_SIZE \<and> (\<exists>more. rs_parameters r = enc_sized16 private @ enc_sized16 (public_enc p) @ more)"
proof -
  have fits: "length private \<le> MAX_PRIVATE_SIZE"
    and r: "rs_parameters r = wbuf (ticket_put t (tpm2b_put dg (tpm2b_creation_put c (tpm2b_public_put p (tpm2b_put private writer_new)))))"
    using assms(1) by (auto simp: respond_try_def res_bind_eq_Inr put_new_def tpm2b_new_def creation_answer_def w_finish_def split: if_splits)
  have "length private < 2 ^ 16"
    using fits by (simp add: MAX_PRIVATE_SIZE_def MAX_SENSITIVE_SIZE_def MAX_DIGEST_SIZE_def MAX_RSA_KEY_BYTES_def)
  then have "tpm2b_public_put p (tpm2b_put private writer_new) = emit (enc_sized16 private @ enc_sized16 (public_enc p)) writer_new"
    using tpm2b_public.put_enc [of E p] public_small [OF assms(2)] assms(2) by (simp add: tpm2b_put_enc)
  moreover obtain b where "wbuf (tpm2b_creation_put c (emit (enc_sized16 private @ enc_sized16 (public_enc p)) writer_new))
      = (enc_sized16 private @ enc_sized16 (public_enc p)) @ b"
    using appends_creation [of c] unfolding appends_def by (metis emit_simps(3) writer_new_def append_Nil writer.select_convs(1))
  ultimately have "\<exists>more. rs_parameters r = enc_sized16 private @ enc_sized16 (public_enc p) @ more"
    unfolding r by (simp add: ticket_put_def wbuf_tpm2b)
  then show ?thesis using fits by simp
qed

section \<open>Loading what was created\<close>

lemma reads_param: "reads f x e \<Longrightarrow> reads (param n f) x e"
  by (simp add: reads_def param_def)

lemma reads_both:
  assumes "reads f x e" and "reads g y e'"
  shows "reads (both f g) (x, y) (e @ e')"
proof -
  have "both f g = (\<lambda>r. res_bind (f r) (\<lambda>(a, r). (\<lambda>a r. res_bind (g r) (\<lambda>(b, r). Inr ((a, b), r))) a r))"
    by (simp add: both_def fun_eq_iff)
  moreover have "reads (\<lambda>r. res_bind (g r) (\<lambda>(b, r). Inr ((x, b), r))) (x, y) (e' @ [])"
    by (rule reads_bind [OF assms(2) reads_return])
  ultimately show ?thesis using reads_bind [OF assms(1)] by simp
qed

lemma reads_all: "reads f x e \<Longrightarrow> rq_parameters q = e \<Longrightarrow> all_parameters f q = Inr x"
  using readsD [of f x e "reader_new e" "[]"] by (simp add: all_parameters_def expect_end_def flip: length_rest)

lemma load_parameters:
  assumes "rq_parameters q = enc_sized16 private @ enc_sized16 (public_enc p)" and "length private \<le> MAX_PRIVATE_SIZE" and "public_ok E p"
  shows "all_parameters (both (param 1 (tpm2b_get MAX_PRIVATE_SIZE)) (param 2 (tpm2b_public_get E))) q = Inr (private, p)"
proof (rule reads_all [OF reads_both [OF reads_param reads_param] assms(1)])
  show "reads (tpm2b_get MAX_PRIVATE_SIZE) private (enc_sized16 private)"
    by (rule tpm2b_reads) (use assms(2) in \<open>simp_all add: MAX_PRIVATE_SIZE_def MAX_SENSITIVE_SIZE_def MAX_DIGEST_SIZE_def MAX_RSA_KEY_BYTES_def\<close>)
  show "reads (tpm2b_public_get E) p (enc_sized16 (public_enc p))"
    using tpm2b_public.reads_get [of E p] public_small [OF assms(3)] assms(3) by simp
qed

lemma named_object:
  assumes "env_ok E" and "object_name E p = Inr n"
  shows "length n \<le> SIZEOF_TPMT_HA \<and> (\<exists>y. child_object E sp p x g = Inr y \<and> obj_name y = n)"
proof (cases "name_alg p = alg_NULL")
  case True
  then show ?thesis using assms(2) by (auto simp: object_name_def child_object_def object_new_def qualified_name_def)
next
  case False
  then obtain d where d: "digest E (name_alg p) (to_bytes public_put p) = Inr d" "n = to_be 2 (name_alg p) @ d"
    using assms(2) by (auto simp: object_name_def res_bind_eq_Inr)
  then have sup: "is_supported E (name_alg p)" by (cases "is_supported E (name_alg p)") (simp_all add: digest_def unsupported_algorithm)
  have "length d \<le> 64"
    using digest_length [OF assms(1) d(1)] supported_output_len [OF assms(1) sup] by auto
  then show ?thesis using assms(2) d(2) False
    by (auto simp: child_object_def object_new_def qualified_name_def digest_two [OF sup] SIZEOF_TPMT_HA_def MAX_DIGEST_SIZE_def)
qed

lemma requested_public: "creation_parameters E q = Inr (sc, p, outside, sels) \<Longrightarrow> public_ok E p"
  by (auto simp: creation_parameters_def all_parameters_def both_def param_def res_bind_eq_Inr map_err_eq_Inr tpm2b_public_get_def
      unmarshal_sized_def split: if_splits dest!: public.get_canonical)

lemma create_parts:
  assumes "create_command E B L A q s = Some (Inr r, s1)"
  obtains h sc p outside sels sp x u name blob c dg t
  where "rq_handle q 0 = Inr h" and "creation_parameters E q = Inr (sc, p, outside, sels)" and "parent_of s h = Inr sp"
    and "with_limits E p (sp_firmware sp) (sp_svn sp) = Inr ()" and "create_sensitive E B L (draw E) p sc s = Some (Inr (x, u), s1)"
    and "object_name E (p\<lparr>unique := u\<rparr>) = Inr name" and "wrap_child E A sp name x = Inr blob"
    and "respond_try q (\<lambda>w. res_bind (put_new MAX_PRIVATE_SIZE blob w) (\<lambda>w.
      creation_answer c dg t (tpm2b_public_put (p\<lparr>unique := u\<rparr>) w))) = Inr r"
proof -
  obtain h sc p outside sels sp where 1: "rq_handle q 0 = Inr h" "creation_parameters E q = Inr (sc, p, outside, sels)" "parent_of s h = Inr sp"
      "with_limits E p (sp_firmware sp) (sp_svn sp) = Inr ()"
    using assms by (simp add: create_command_def first_def may_bind_def ends_def st_lift_def map_err_eq_Inr split: sum.splits prod.splits)
  note step = assms [unfolded create_command_def first_def may_bind_def ends_def st_lift_def st_check_def]
  obtain x u where 2: "create_sensitive E B L (draw E) p sc s = Some (Inr (x, u), s1)"
    using step by (auto simp: 1 Let_def split: option.splits sum.splits prod.splits if_splits)
  show ?thesis
    using step that [OF 1 2] by (auto simp: 1 2 Let_def split: sum.splits prod.splits if_splits)
qed

lemma load_parts:
  assumes "rq_handle q 0 = Inr h" and "all_parameters (both (param 1 (tpm2b_get MAX_PRIVATE_SIZE)) (param 2 (tpm2b_public_get E))) q = Inr (private, p)"
    and "private \<noteq> []" and "parent_of s h = Inr sp" and "validate_loaded_public E K p = Inr ()" and "validate_action_attributes p = Inr ()"
    and "object_name E p = Inr name" and "unwrap_private E A (sp_alg sp) (sp_seed sp) (sp_symmetric sp) name private = Inr plain"
    and "from_bytes sensitive_get plain = Inr x" and "check_binding E K p x = Inr ()" and "child_object E sp p x False = Inr y"
    and "obj_name y = name" and "length name \<le> SIZEOF_TPMT_HA" and "objects_insert (Object_slot y) (objects s) = (Inr k, os)"
  shows "\<exists>r. load_command E A K q s = (Inr r, s\<lparr>objects := os\<rparr>) \<and> rs_handle r = Some k"
proof -
  have "tpm2b_put name writer_new = emit (enc_sized16 name) writer_new"
    by (rule tpm2b_put_enc) (use assms(13) in \<open>simp add: SIZEOF_TPMT_HA_def MAX_DIGEST_SIZE_def\<close>)
  then have "\<exists>r. answer_handle k q (put_new SIZEOF_TPMT_HA name) = Inr r \<and> rs_handle r = Some k"
    using assms(13) by (simp add: answer_handle_def respond_try_def put_new_def tpm2b_new_def w_finish_def writer_new_def emit_def)
  then show ?thesis
    using assms by (auto simp: load_command_def with_handle_area_apply reading_def st_bind_def st_check_def st_lift_def insert_slot_def)
qed

section \<open>Creation goes through\<close>

lemma drawn_short:
  assumes "env_ok E" and "drbg_fill E n d = (Inr b, d')"
  shows "length b \<le> n"
  using assms(2) by (auto simp: drbg_fill_def drbg_loop_blocks [OF assms(1)] Let_def split: if_splits prod.splits sum.splits)

lemma kdfa_total:
  assumes "env_ok E" and "is_supported E a" and "unat bits \<le> 8192"
  shows "\<exists>k. kdfa_bytes E a key label u v bits = Inr k \<and> length k = (unat bits + 7) div 8"
  using kdfa_cases [OF assms(1), where a = a and key = key and label = label and u = u and v = v and bits = bits] assms(2,3) by (auto split: sum.splits)

lemma wrap_total:
  assumes E: "env_ok E" and "aes_ok A" and sup: "is_supported E a" and sd: "sym_alg sd = alg_AES" "sym_key_bits sd \<in> {128, 192, 256}"
    and "length x < 2 ^ 16"
  shows "\<exists>b. wrap_private E A a seed sd name x = Inr b \<and> length b \<le> length x + 68"
proof -
  have "unat (ucast (sym_key_bits sd) :: u32) \<in> {128, 192, 256}" using sd(2) by auto
  then obtain k where k: "storage_key E a seed name (sym_key_bits sd) = Inr k" "length k \<in> {16, 24, 32}"
    using kdfa_total [OF E sup, where bits = "ucast (sym_key_bits sd)" and key = seed and label = LABEL_STORAGE and u = name and v = "[]"] by (auto simp: storage_key_def)
  have "is_ok (fst (crypt A alg_AES alg_CFB k (enc_sized16 x) Encrypt (replicate 16 0)))"
    using crypt_inverts [OF assms(2), of alg_AES alg_CFB k "enc_sized16 x" "replicate 16 0"] k(2)
    by (auto simp: is_supported_mode_def AES_BLOCK_SIZE_def split: prod.splits)
  then obtain c where c: "cfb_encrypt A k (replicate 16 0) (enc_sized16 x) = Inr c"
    by (auto simp: cfb_encrypt_def encrypt_def is_ok_iff split: prod.splits)
  have wrapped: "symmetric_wrap E A a seed sd name (enc_sized16 x) = Inr c"
    using c sd(1) by (simp add: symmetric_wrap_def symmetric_with_def sym_is_null_def k(1) block_size_def AES_BLOCK_SIZE_def)
  have len: "output_len E a \<in> {20, 32, 48, 64}" by (rule supported_output_len [OF E sup])
  then obtain i where "integrity_key E a seed = Inr i"
    using kdfa_total [OF E sup, where bits = "of_nat (output_len E a * 8)" and key = seed and label = LABEL_INTEGRITY and u = "[]" and v = "[]"] sup
    by (auto simp: integrity_key_def hash_size_def supported_algorithm)
  moreover obtain b where "hash_block_size E a = Inr b" using supported_block_size [OF sup] by blast
  ultimately obtain m where "outer_integrity E a seed c name = Inr m" "length m \<le> 64"
    using hmac_parts_spec [OF sup, of b i "[c, name]"] len by (auto simp: outer_integrity_def hmac_spec_def Let_def env_ok_length [OF E])
  then show ?thesis
    using wrap_succeeds [OF assms(6) wrapped] symmetric_roundtrip [OF assms(2) wrapped] by (auto simp: MAX_DIGEST_SIZE_def enc_sized16_def)
qed

lemma creation_data_total:
  assumes "env_ok E" and "is_supported E a" and "length n \<le> SIZEOF_TPMT_HA" and "length qn \<le> SIZEOF_TPMT_HA" and "length out \<le> SIZEOF_TPMT_HA"
  shows "\<exists>c dg. creation_data_for E s n qn pa a out [] l = Inr (c, dg) \<and> creation_ok E c \<and> length (creation_enc c) < 2 ^ 16 \<and> length dg \<le> 64"
proof -
  have "output_len E a \<le> 64" using supported_output_len [OF assms(1,2)] by auto
  then show ?thesis
    using assms(3-5) by (simp add: creation_data_for_def Let_def filter_selection_def tpm2b_new_def digest_supported [OF assms(2)]
        env_ok_length [OF assms(1)] creation_ok_def creation_enc_def list_enc_def enc_sized16_def SIZEOF_TPMT_HA_def MAX_DIGEST_SIZE_def)
qed

lemma creation_answered:
  assumes "length blob \<le> MAX_PRIVATE_SIZE" and "public_ok E p" and "creation_ok E c \<and> length (creation_enc c) < 2 ^ 16" and "length dg \<le> 64"
    and "length (tk_digest t) \<le> 64"
  shows "\<exists>r. respond_try q (\<lambda>w. res_bind (put_new MAX_PRIVATE_SIZE blob w) (\<lambda>w. creation_answer c dg t (tpm2b_public_put p w))) = Inr r"
proof -
  have "length blob < 2 ^ 16"
    using assms(1) by (simp add: MAX_PRIVATE_SIZE_def MAX_SENSITIVE_SIZE_def MAX_DIGEST_SIZE_def MAX_RSA_KEY_BYTES_def)
  then show ?thesis
    using assms(1,4,5) tpm2b_public.put_enc [of E p] tpm2b_creation.put_enc [of E c] public_small [OF assms(2)] assms(2,3)
    by (simp add: respond_try_def put_new_def tpm2b_new_def creation_answer_def tpm2b_put_enc ticket_put_def writes_emit w_finish_def
        MAX_DIGEST_SIZE_def writer_new_def)
qed

section \<open>What is created can be loaded\<close>

text \<open>What TPM2_Create makes, TPM2_Load takes. The private and the public area that TPM2_Create answers for any type of
  object, with any random octets, are accepted by TPM2_Load in every later state that has the same parent and a free slot.
  The object in the slot has that public area, the sensitive area with the authorization the caller chose, bound to the
  public area, and the parent's hierarchy and qualified name; nothing else changes.\<close>

theorem created_object_loads:
  assumes "env_ok E" and "aes_ok A" and "bn_ok B" and "ec_ok L" and "create_command E B L A q s = Some (Inr r, s1)"
    and "rq_handle q 0 = Inr h" and "parent_of s h = Inr sp" and "creation_parameters E q = Inr (sc, p, outside, sels)"
    and "name_alg p = alg_NULL \<longrightarrow> is_asymmetric p"
  shows "\<exists>blob u x y more. rs_parameters r = enc_sized16 blob @ enc_sized16 (public_enc (p\<lparr>unique := u\<rparr>)) @ more
    \<and> sens_auth x = sc_auth sc \<and> check_binding E (model_lib B L) (p\<lparr>unique := u\<rparr>) x = Inr ()
    \<and> child_object E sp (p\<lparr>unique := u\<rparr>) x False = Inr y
    \<and> (\<forall>q' t h' k os. rq_handle q' 0 = Inr h' \<and> parent_of t h' = Inr sp
         \<and> rq_parameters q' = enc_sized16 blob @ enc_sized16 (public_enc (p\<lparr>unique := u\<rparr>))
         \<and> objects_insert (Object_slot y) (objects t) = (Inr k, os)
         \<longrightarrow> (\<exists>r'. load_command E A (model_lib B L) q' t = (Inr r', t\<lparr>objects := os\<rparr>) \<and> rs_handle r' = Some k))"
proof -
  have pub: "public_ok E p" using requested_public [OF assms(8)] .
  obtain h' sc' p' outside' sels' sp' x u name blob c dg tk where parts: "rq_handle q 0 = Inr h'"
      "creation_parameters E q = Inr (sc', p', outside', sels')" "parent_of s h' = Inr sp'"
    and limits: "with_limits E p' (sp_firmware sp') (sp_svn sp') = Inr ()"
    and new: "create_sensitive E B L (draw E) p' sc' s = Some (Inr (x, u), s1)" and name: "object_name E (p'\<lparr>unique := u\<rparr>) = Inr name"
    and blob: "wrap_child E A sp' name x = Inr blob"
    and r: "respond_try q (\<lambda>w. res_bind (put_new MAX_PRIVATE_SIZE blob w) (\<lambda>w.
      creation_answer c dg tk (tpm2b_public_put (p'\<lparr>unique := u\<rparr>) w))) = Inr r"
    by (rule create_parts [OF assms(5)])
  have same: "sc' = sc" "p' = p" "sp' = sp" using parts assms(6-8) by simp_all
  note limits = limits [unfolded same] and new = new [unfolded same] and name = name [unfolded same]
    and blob = blob [unfolded same] and r = r [unfolded same]
  let ?p = "p\<lparr>unique := u\<rparr>"
  have m: "matching E B L p x u" "sens_auth x = sc_auth sc" using created_matches [OF assms(3,4) pub assms(9) new] by simp_all
  then have ok: "public_ok E ?p" using pub by (simp add: public_ok_def matching_def)
  from answer_prefix [OF r ok] obtain more where fits: "length blob \<le> MAX_PRIVATE_SIZE"
    and more: "rs_parameters r = enc_sized16 blob @ enc_sized16 (public_enc ?p) @ more" by blast
  from named_object [OF assms(1) name] obtain y where y: "child_object E sp ?p x False = Inr y" "obj_name y = name"
    and short: "length name \<le> SIZEOF_TPMT_HA" by blast
  have plain: "unwrap_private E A (sp_alg sp) (sp_seed sp) (sp_symmetric sp) name blob = Inr (to_bytes sensitive_put x)"
    using wrapped_unwraps [OF assms(2)] blob by (simp add: wrap_child_def)
  then have "blob \<noteq> []" by (auto simp: unwrap_exact seals_def enc_sized16_def)
  moreover have "from_bytes sensitive_get (to_bytes sensitive_put x) = Inr x"
    using m(1) by (intro sensitive.from_to_bytes) (simp add: matching_def)
  moreover have "validate_loaded_public E (model_lib B L) ?p = Inr ()" "validate_action_attributes ?p = Inr ()"
    using limits m(1) by (auto simp: with_limits_def validate_creation_template_def matching_def map_err_eq_Inr res_bind_eq_Inr
        validate_action_unique)
  moreover have bound: "check_binding E (model_lib B L) ?p x = Inr ()" using m(1) by (simp add: matching_def)
  ultimately have "\<exists>r'. load_command E A (model_lib B L) q' t = (Inr r', t\<lparr>objects := os\<rparr>) \<and> rs_handle r' = Some k"
    if "rq_handle q' 0 = Inr h'" "parent_of t h' = Inr sp" "rq_parameters q' = enc_sized16 blob @ enc_sized16 (public_enc ?p)"
      "objects_insert (Object_slot y) (objects t) = (Inr k, os)" for q' t h' k os
    using load_parts [OF that(1) load_parameters [OF that(3) fits ok] _ that(2) _ _ name plain _ _ y short that(4)] by blast
  with more m(2) bound y(1) show ?thesis by blast
qed

text \<open>A storage key and the sealing of one octet under it.\<close>

definition demo_storage :: object where
  "demo_storage = \<lparr>obj_public = \<lparr>object_type = alg_ECC, name_alg = alg_SHA256, object_attributes = 0x00030072, auth_policy = [],
       parameters = Ecc_parms \<lparr>ecc_symmetric = sym_new alg_AES 128 alg_CFB, ecc_scheme = scheme_null, ecc_curve = 3, ecc_kdf = scheme_null\<rparr>,
       unique = Ecc_id \<lparr>pt_x = [5], pt_y = [0]\<rparr>\<rparr>,
     obj_sensitive = Some \<lparr>sensitive_type = alg_ECC, sens_auth = [], sens_seed = [1, 2], sens_value = Ecc_private [5]\<rparr>,
     obj_name = [0, 11], obj_qualified = [1], obj_hierarchy = rh_NULL, tpm_generated = True, state_clear = False\<rparr>"

definition demo_parent :: storage_parent where
  "demo_parent = \<lparr>sp_state_clear = False, sp_alg = alg_SHA256, sp_seed = [1, 2], sp_symmetric = sym_new alg_AES 128 alg_CFB,
     sp_hierarchy = rh_NULL, sp_qualified = [1], sp_firmware = False, sp_svn = False\<rparr>"

definition demo_sealed :: tpmt_public where
  "demo_sealed = \<lparr>object_type = alg_KEYEDHASH, name_alg = alg_SHA256, object_attributes = 0x52, auth_policy = [],
     parameters = Keyed_hash_parms scheme_null, unique = Keyed_hash_id []\<rparr>"

definition demo_create :: request where
  "demo_create = (session_request 0 0)\<lparr>rq_handles := [0x80000000],
     rq_parameters := [0, 6, 0, 1, 9, 0, 1, 5] @ [0, 14, 0, 8, 0, 11, 0, 0, 0, 0x52, 0, 0, 0, 0x10, 0, 0] @ [0, 0] @ [0, 0, 0, 0]\<rparr>"

abbreviation (input) demo_state :: tpm_state where
  "demo_state \<equiv> demo_tpm\<lparr>objects := [(0x80000000, Object_slot demo_storage)]\<rparr>"

lemma demo_parent_of: "objects s = [(0x80000000, Object_slot demo_storage)] \<Longrightarrow> parent_of s 0x80000000 = Inr demo_parent"
  by (simp add: parent_of_def object_of_def is_transient_def objects_object_def objects_get_def bt_get_def demo_storage_def demo_parent_def
      is_storage_key_def is_storage_public_def is_public_only_def attr_has_def flag_def obj_seed_def has_attr_def sym_is_null_def sym_new_def)

lemma demo_parameters: "creation_parameters (demo_env True) demo_create = Inr (\<lparr>sc_auth = [9], sc_data = [5]\<rparr>, demo_sealed, [], [])"
  by code_simp

lemma demo_limits: "with_limits (demo_env True) demo_sealed False False = Inr ()"
  by code_simp

lemma demo_secret:
  obtains seed dg g where "length seed \<le> 32" and "length dg = 32"
    and "create_sensitive (demo_env True) demo_bn demo_ec (draw (demo_env True)) demo_sealed \<lparr>sc_auth = [9], sc_data = [5]\<rparr> demo_state
      = Some (Inr (\<lparr>sensitive_type = alg_KEYEDHASH, sens_auth = [9], sens_seed = seed, sens_value = Bits_private [5]\<rparr>, Keyed_hash_id dg),
          demo_state\<lparr>rng := g\<rparr>)"
proof -
  let ?E = "demo_env True"
  have sup: "is_supported ?E alg_SHA256" by (simp add: is_supported_def hash_algorithm_def)
  have n: "hash_size ?E alg_SHA256 = Inr 32" using sup env_ok_demo [of True] by (simp add: hash_size_def supported_algorithm env_ok_def)
  obtain seed g where seed: "drbg_fill ?E 32 (rng demo_state) = (Inr seed, g)"
    using drbg_fill_ok [OF env_ok_demo, of 32 "rng demo_state" True] by (auto simp: MAX_BYTES_PER_REQUEST_def demo_tpm_def RESEED_INTERVAL_def)
  have short: "length seed \<le> 32" by (rule drawn_short [OF env_ok_demo seed])
  let ?dg = "raw_digest ?E alg_SHA256 (seed @ [5])"
  have dg: "length ?dg = 32" using env_ok_demo [of True] by (simp add: env_ok_def)
  have "create_sensitive ?E demo_bn demo_ec (draw ?E) demo_sealed \<lparr>sc_auth = [9], sc_data = [5]\<rparr> demo_state
      = Some (Inr (\<lparr>sensitive_type = alg_KEYEDHASH, sens_auth = [9], sens_seed = seed, sens_value = Bits_private [5]\<rparr>, Keyed_hash_id ?dg),
          demo_state\<lparr>rng := g\<rparr>)"
    using seed short dg n
    by (simp add: create_sensitive_def first_def may_bind_def ends_def st_lift_def st_check_def needs_seed_def demo_sealed_def or_sha256_def
        draw_def new_secret_def new_keyed_hash_def from_outside_def attr_has_def flag_def st_bind_def st_return_def digest_two [OF sup]
        tpm2b_new_def MAX_SYM_DATA_def MAX_DIGEST_SIZE_def sensitive_area_def)
  then show ?thesis using that short dg by blast
qed

lemma demo_create_succeeds:
  obtains r g where "create_command (demo_env True) demo_bn demo_ec demo_aes demo_create demo_state = Some (Inr r, demo_state\<lparr>rng := g\<rparr>)"
proof -
  let ?E = "demo_env True" and ?sc = "\<lparr>sc_auth = [9], sc_data = [5]\<rparr>"
  obtain seed dg g where seed: "length seed \<le> 32" "length dg = 32"
    and new: "create_sensitive ?E demo_bn demo_ec (draw ?E) demo_sealed ?sc demo_state
      = Some (Inr (\<lparr>sensitive_type = alg_KEYEDHASH, sens_auth = [9], sens_seed = seed, sens_value = Bits_private [5]\<rparr>, Keyed_hash_id dg),
          demo_state\<lparr>rng := g\<rparr>)" by (rule demo_secret)
  let ?x = "\<lparr>sensitive_type = alg_KEYEDHASH, sens_auth = [9], sens_seed = seed, sens_value = Bits_private [5]\<rparr>"
    and ?p = "demo_sealed\<lparr>unique := Keyed_hash_id dg\<rparr>" and ?s = "demo_state\<lparr>rng := g\<rparr>"
  have sup: "is_supported ?E alg_SHA256" by (simp add: is_supported_def hash_algorithm_def)
  have pub: "public_ok ?E ?p"
    using requested_public [OF demo_parameters] seed(2) by (simp add: public_ok_def demo_sealed_def MAX_DIGEST_SIZE_def)
  obtain name where name: "object_name ?E ?p = Inr name" by (simp add: object_name_def demo_sealed_def digest_supported [OF sup])
  have "sensitive_ok ?x" using seed(1) by (simp add: sensitive_ok_def is_public_type_def MAX_DIGEST_SIZE_def MAX_SYM_DATA_def)
  then have "length (to_bytes sensitive_put ?x) \<le> 50" using seed(1) by (simp add: sensitive.to_bytes_enc sensitive_enc_def enc_sized16_def)
  then obtain blob where blob: "wrap_child ?E demo_aes demo_parent name ?x = Inr blob" "length blob \<le> 118"
    using wrap_total [OF env_ok_demo aes_ok_demo sup, of "sym_new alg_AES 128 alg_CFB" "to_bytes sensitive_put ?x" "[1, 2]" name]
    by (fastforce simp: wrap_child_def demo_parent_def sym_new_def)
  have parent_name: "name_of ?E ?s 0x80000000 = Inr [0, 11]"
    by (simp add: name_of_def name_is_handle_def is_transient_def objects_get_def bt_get_def demo_storage_def)
  obtain c dg' where c: "creation_data_for ?E ?s [0, 11] [1] alg_SHA256 alg_SHA256 [] [] 0 = Inr (c, dg')"
      "creation_ok ?E c \<and> length (creation_enc c) < 2 ^ 16" "length dg' \<le> 64"
    using creation_data_total [OF env_ok_demo sup, of "[0, 11]" "[1]" "[]" ?s alg_SHA256 0] by (auto simp: SIZEOF_TPMT_HA_def)
  have t: "creation_ticket ?E ?s rh_NULL name dg' = Inr (ticket_null st_CREATION)" by (simp add: creation_ticket_def)
  obtain r where r: "respond_try demo_create (\<lambda>w. res_bind (put_new MAX_PRIVATE_SIZE blob w) (\<lambda>w.
      creation_answer c dg' (ticket_null st_CREATION) (tpm2b_public_put ?p w))) = Inr r"
    using creation_answered [OF _ pub c(2,3), of blob "ticket_null st_CREATION" demo_create] blob(2)
    by (auto simp: MAX_PRIVATE_SIZE_def MAX_SENSITIVE_SIZE_def MAX_DIGEST_SIZE_def ticket_null_def)
  have h: "rq_handle demo_create 0 = Inr 0x80000000" and loc: "rq_locality demo_create = 0"
    by (simp_all add: demo_create_def rq_handle_def get_at_def session_request_def)
  have "create_command ?E demo_bn demo_ec demo_aes demo_create demo_state = Some (Inr r, ?s)"
    using h loc demo_parameters demo_parent_of [of demo_state] demo_limits new name blob(1) parent_name c(1) t r
    by (simp add: create_command_def first_def may_bind_def ends_def st_lift_def st_check_def demo_parent_def or_sha256_def
        attr_has_def flag_def demo_sealed_def)
  then show ?thesis by (rule that)
qed

theorem created_object_loads_witness:
  "\<exists>r s1 q r' t. create_command (demo_env True) demo_bn demo_ec demo_aes demo_create demo_state = Some (Inr r, s1)
     \<and> load_command (demo_env True) demo_aes (model_lib demo_bn demo_ec) q s1 = (Inr r', t) \<and> rs_handle r' = Some 0x80000001"
proof -
  obtain r g where r: "create_command (demo_env True) demo_bn demo_ec demo_aes demo_create demo_state = Some (Inr r, demo_state\<lparr>rng := g\<rparr>)"
    by (rule demo_create_succeeds)
  have h: "rq_handle demo_create 0 = Inr 0x80000000"
    by (simp add: demo_create_def rq_handle_def get_at_def session_request_def)
  let ?s = "demo_state\<lparr>rng := g\<rparr>"
  have slot: "\<exists>os. objects_insert (Object_slot y) (objects ?s) = (Inr 0x80000001, os)" for y
    by (simp add: objects_insert_def MAX_LOADED_OBJECTS_def upt_conv_Cons bt_contains_def bt_get_def bt_insert.simps)
  have at: "parent_of demo_state 0x80000000 = Inr demo_parent" "parent_of ?s 0x80000000 = Inr demo_parent" by (simp_all add: demo_parent_of)
  have "name_alg demo_sealed = alg_NULL \<longrightarrow> is_asymmetric demo_sealed" by (simp add: demo_sealed_def)
  from created_object_loads [OF env_ok_demo aes_ok_demo demo_bn_ok demo_ec_ok r h at(1) demo_parameters this]
  obtain blob u y where loads: "\<And>q' t h' k os. rq_handle q' 0 = Inr h' \<and> parent_of t h' = Inr demo_parent
      \<and> rq_parameters q' = enc_sized16 blob @ enc_sized16 (public_enc (demo_sealed\<lparr>unique := u\<rparr>))
      \<and> objects_insert (Object_slot y) (objects t) = (Inr k, os)
      \<Longrightarrow> \<exists>r'. load_command (demo_env True) demo_aes (model_lib demo_bn demo_ec) q' t = (Inr r', t\<lparr>objects := os\<rparr>) \<and> rs_handle r' = Some k"
    by blast
  obtain os where os: "objects_insert (Object_slot y) (objects ?s) = (Inr 0x80000001, os)" using slot by blast
  define q where "q = demo_create\<lparr>rq_parameters := enc_sized16 blob @ enc_sized16 (public_enc (demo_sealed\<lparr>unique := u\<rparr>))\<rparr>"
  have "rq_handle q 0 = Inr 0x80000000" using h by (simp add: q_def rq_handle_def)
  moreover have "rq_parameters q = enc_sized16 blob @ enc_sized16 (public_enc (demo_sealed\<lparr>unique := u\<rparr>))" by (simp add: q_def)
  ultimately obtain r' where "load_command (demo_env True) demo_aes (model_lib demo_bn demo_ec) q ?s = (Inr r', ?s\<lparr>objects := os\<rparr>)"
      "rs_handle r' = Some 0x80000001"
    using loads [of q "0x80000000" ?s "0x80000001" os] at(2) os by blast
  with r show ?thesis by blast
qed

end
