(* ===== verification/Guesses.thy ===== *)
theory Guesses
  imports Device
begin

text \<open>
  What dictionary attack protection is worth against an attacker who may send commands, wait and pull the
  power. The attempts go through \<open>check_authorization\<close> with its own checks of the lockout
  (\<open>src/tpm/commands/dispatch.rs\<close>), time through \<open>advance_time\<close>, startups through \<open>on_startup_clear\<close>
  and \<open>on_startup_state\<close> (\<open>src/tpm/core/state.rs\<close>), and a power cycle comes up with what the state file
  gives back of the state it was last written from (\<open>src/tpm/device.rs\<close> writes it when \<open>NvWitness\<close> changes).
\<close>

section \<open>Wrong guesses\<close>

text \<open>
  A wrong guess at a protected value: an attempt that was refused and would have been granted had the value
  been another. Attempts with TPM2_DictionaryAttackLockReset are not counted: nothing bars them.
\<close>

definition wrong_guess :: "env \<Rightarrow> request \<Rightarrow> nat \<Rightarrow> entity \<Rightarrow> bytes \<Rightarrow> tpm_state \<Rightarrow> bool" where
  "wrong_guess E q i e cp s \<longleftrightarrow> rq_code q \<noteq> cc_DictionaryAttackLockReset \<and> da_protected s q i e
     \<and> fst (check_authorization E q i e cp s) \<noteq> Inr ()
     \<and> (\<exists>v. fst (check_authorization E q i (e\<lparr>en_auth := v\<rparr>) cp s) = Inr ())"

lemma proof_needs_value:
  assumes "\<not> session_uses_auth_value s (rq_sessions q ! i)"
  shows "shows_proof E s q i (e\<lparr>en_auth := v\<rparr>) cp = shows_proof E s q i e cp"
  using assms by (auto simp: session_uses_auth_value_def shows_proof_def shows_hmac_def hmac_key_def Let_def
      split: if_splits sum.splits)

lemma wrong_guess_counted:
  assumes "wrong_guess E q i e cp s"
  shows "\<not> locked_out (lockout_state s) \<and> da_protected s q i e
    \<and> snd (check_authorization E q i e cp s) = guess_counted q i e s"
proof -
  from assms obtain v where bad: "fst (check_authorization E q i e cp s) \<noteq> Inr ()"
    and good: "fst (check_authorization E q i (e\<lparr>en_auth := v\<rparr>) cp s) = Inr ()"
    and p: "da_protected s q i e" and code: "rq_code q \<noteq> cc_DictionaryAttackLockReset"
    by (auto simp: wrong_guess_def)
  from good have ok: "screened E s q i e cp = Inr ()" "pin_allows s q i e = Inr ()"
    "shows_proof E s q i (e\<lparr>en_auth := v\<rparr>) cp"
    by (auto simp: authorization_outcome screened_ignores_value guards_ignore_value split: sum.splits if_splits)
  with bad have no: "\<not> shows_proof E s q i e cp" by (auto simp: authorization_outcome)
  with ok(3) have "session_uses_auth_value s (rq_sessions q ! i)" using proof_needs_value by blast
  moreover have "check_lockout s q i (da_protected s q i e) = Inr ()"
    using ok(1) by (auto simp: screened_def res_bind_eq_Inr)
  ultimately have "\<not> locked_out (lockout_state s)" using p code by (auto simp: check_lockout_def Let_def split: if_splits)
  then show ?thesis using ok no p by (simp add: authorization_outcome)
qed

text \<open>What an attempt makes of the lockout state: nothing, or one more failure and a new deadline.\<close>

definition same_limits :: "lockout \<Rightarrow> lockout \<Rightarrow> bool" where
  "same_limits l k \<longleftrightarrow> max_tries k = max_tries l \<and> recovery_time k = recovery_time l"

definition one_more :: "u64 \<Rightarrow> lockout \<Rightarrow> lockout \<Rightarrow> bool" where
  "one_more now l k \<longleftrightarrow> failed_tries k = saturating_add (failed_tries l) 1
     \<and> next_recovery k = saturating_add now (millis (recovery_time l))"

lemma counted_lockout:
  "lockout_state (guess_counted q i e s) = record_failure (da_protected s q i e) (time (clock_of s))
     (if special_guess s q i then record_lockout_failure (time (clock_of s)) (lockout_state s) else lockout_state s)"
  "clock_of (guess_counted q i e s) = clock_of s"
proof -
  obtain n where "pin_counted q i e False s = s\<lparr>nv := n\<rparr>" by (rule pin_counted_nv)
  then show "lockout_state (guess_counted q i e s) = record_failure (da_protected s q i e) (time (clock_of s))
     (if special_guess s q i then record_lockout_failure (time (clock_of s)) (lockout_state s) else lockout_state s)"
    "clock_of (guess_counted q i e s) = clock_of s"
    by (simp_all add: guess_counted_def note_failure_def note_lockout_failure_def)
qed

lemma failure_recorded:
  "0 < recovery_time l \<Longrightarrow> same_limits l (record_failure True now l) \<and> one_more now l (record_failure True now l)"
  "same_limits l (record_lockout_failure now l) \<and> failed_tries (record_lockout_failure now l) = failed_tries l
     \<and> next_recovery (record_lockout_failure now l) = next_recovery l"
  "record_failure False now l = l"
  by (auto simp: same_limits_def one_more_def record_failure_def record_lockout_failure_def protection_off_def)

lemma attempt_lockout:
  assumes "check_authorization E q i e cp s = (r, t)" and "0 < recovery_time (lockout_state s)"
  shows "clock_of t = clock_of s \<and> same_limits (lockout_state s) (lockout_state t)
    \<and> (one_more (time (clock_of s)) (lockout_state s) (lockout_state t)
       \<or> \<not> wrong_guess E q i e cp s \<and> failed_tries (lockout_state t) = failed_tries (lockout_state s)
         \<and> next_recovery (lockout_state t) = next_recovery (lockout_state s))"
proof -
  let ?l = "lockout_state s" and ?now = "time (clock_of s)"
  obtain n where pin: "pin_counted q i e True s = s\<lparr>nv := n\<rparr>" by (rule pin_counted_nv)
  have t: "t = s \<or> t = s\<lparr>nv := n\<rparr> \<or> t = guess_counted q i e s"
    using assms(1) unfolding authorization_outcome pin by (auto split: sum.splits if_splits)
  have guess: "t = guess_counted q i e s \<and> da_protected s q i e" if "wrong_guess E q i e cp s"
    using wrong_guess_counted [OF that] assms(1) by simp
  consider "t = s" "\<not> wrong_guess E q i e cp s" | "t = s\<lparr>nv := n\<rparr>" "\<not> wrong_guess E q i e cp s"
    | "t = guess_counted q i e s" "wrong_guess E q i e cp s \<longrightarrow> da_protected s q i e"
    using t guess by blast
  then show ?thesis
  proof cases
    case 3
    define k where "k = (if special_guess s q i then record_lockout_failure ?now ?l else ?l)"
    have k: "same_limits ?l k" "failed_tries k = failed_tries ?l" "next_recovery k = next_recovery ?l"
      using failure_recorded(2) [of ?l ?now] by (simp_all add: k_def same_limits_def)
    have "lockout_state t = record_failure (da_protected s q i e) ?now k" "clock_of t = clock_of s"
      using 3 by (simp_all add: counted_lockout k_def)
    then show ?thesis
      using k 3(2) failure_recorded(1) [of k ?now] assms(2)
      by (cases "da_protected s q i e") (simp_all add: failure_recorded(3) same_limits_def one_more_def)
  qed (simp_all add: same_limits_def)
qed

section \<open>Startups\<close>

text \<open>What a startup makes of the lockout state: perhaps the failure a disorderly shutdown may have lost, and
  a new deadline, with Time at zero again.\<close>

definition restarted_lockout :: "lockout \<Rightarrow> lockout \<Rightarrow> bool" where
  "restarted_lockout l k \<longleftrightarrow> k = lockout_on_startup l \<or> k = lockout_on_startup (count_pending_failure l)"

named_theorems lockout_kept

lemma lockout_of_steps [lockout_kept]:
  "lockout_state (snd (on_hierarchies m s)) = lockout_state s" "lockout_state (snd (reset_commits E s)) = lockout_state s"
  "lockout_state (snd (draw E n s)) = lockout_state s" "lockout_state (startup_volatile E b d loc s) = lockout_state s"
  "lockout_state (begin_operation o' k s) = lockout_state s"
  by (simp_all add: on_hierarchies_def reset_commits_def draw_def startup_volatile_def begin_operation_def Let_def split: prod.split)

lemma draw_reset_value_lockout [lockout_kept]: "lockout_state (snd (draw_reset_value E s)) = lockout_state s"
  by (auto simp: draw_reset_value_def st_bind_def draw_def split: prod.split sum.split)

lemma reset_commits_clock: "clock_of (snd (reset_commits E s)) = clock_of s"
  by (simp add: reset_commits_def split: prod.split)

lemma startup_counters_lockout:
  "lockout_state (startup_counters r d w s) = (if d \<and> w then count_pending_failure (lockout_state s) else lockout_state s)"
  "time (clock_of (startup_counters r d w s)) = 0"
  by (simp_all add: startup_counters_def Let_def)

lemma begin_operation_clock: "time (clock_of (begin_operation o' k s)) = time (clock_of s)"
  by (simp add: begin_operation_def Let_def)

lemma startup_clear_lockout:
  assumes "on_startup_clear E loc s = (Inr (), t)"
  shows "restarted_lockout (lockout_state s) (lockout_state t) \<and> time (clock_of t) = 0"
proof -
  let ?restart = "shutdown_type s = su_STATE" and ?dis = "shutdown_type s = su_NONE"
  let ?was = "ever_started s \<or> 0 < reset_count (clock_of s) \<or> 0 < restart_count (clock_of s)"
  from assms obtain x a b y c z d where
    1: "on_hierarchies (hierarchies_on_reset (drbg_fill E) (\<not> ?restart)) s = (Inr x, a)" and
    2: "(if \<not> ?restart then draw_reset_value E else st_return ()) (startup_volatile E ?restart ?dis loc a) = (Inr y, b)" and
    3: "(if \<not> ?restart then reset_commits E else st_return ()) (startup_counters ?restart ?dis ?was b) = (Inr z, c)" and
    4: "t = begin_operation (\<not> ?dis) False (c\<lparr>act_of := act_on_reset (act_of c), lockout_state := lockout_on_startup (lockout_state c)\<rparr>)"
    unfolding on_startup_clear_def Let_def by (auto elim!: st_bind_InrE)
  have a: "lockout_state a = lockout_state s" using lockout_of_steps(1) [of _ s] 1 by (metis snd_conv)
  have b: "lockout_state b = lockout_state s"
    using 2 a lockout_of_steps(4) draw_reset_value_lockout by (auto split: if_splits) (metis snd_conv)+
  have "lockout_state c = lockout_state (startup_counters ?restart ?dis ?was b)
      \<and> clock_of c = clock_of (startup_counters ?restart ?dis ?was b)"
    using 3 lockout_of_steps(2) reset_commits_clock by (auto split: if_splits) (metis snd_conv)+
  then have c: "lockout_state c = (if ?dis \<and> ?was then count_pending_failure (lockout_state s) else lockout_state s)"
    "time (clock_of c) = 0"
    using b by (simp_all only: startup_counters_lockout)
  have t: "lockout_state t = lockout_on_startup (lockout_state c)" "time (clock_of t) = time (clock_of c)"
    by (simp_all add: 4 lockout_of_steps begin_operation_clock)
  show ?thesis unfolding restarted_lockout_def t c by simp
qed

lemma startup_state_lockout:
  assumes "on_startup_state E loc s = (Inr (), t)"
  shows "restarted_lockout (lockout_state s) (lockout_state t) \<and> time (clock_of t) = 0"
proof -
  define u where "u = s\<lparr>hcrtm_before_startup := False, objects := objects_clear (objects s),
      session_slots := flush_loaded (session_slots s), pcrs := on_resume E (pcrs s),
      clock_of := (clock_of s)\<lparr>restart_count := restart_count (clock_of s) + 1, time := 0\<rparr>\<rparr>"
  have u: "lockout_state u = lockout_state s" "time (clock_of u) = 0" by (simp_all add: u_def)
  have "st_bind (if \<not> is_ready (commits_of u) then reset_commits E else st_return ()) (\<lambda>_.
               st_modify (\<lambda>s. begin_operation True True
                 (s\<lparr>act_of := act_on_resume (act_of s), lockout_state := lockout_on_startup (lockout_state s)\<rparr>))) u = (Inr (), t)"
    using assms unfolding on_startup_state_def Let_def u_def [symmetric] by (simp only: prod.inject sum.distinct simp_thms split: if_splits)
  then obtain z c where 3: "(if \<not> is_ready (commits_of u) then reset_commits E else st_return ()) u = (Inr z, c)" and
    4: "t = begin_operation True True (c\<lparr>act_of := act_on_resume (act_of c), lockout_state := lockout_on_startup (lockout_state c)\<rparr>)"
    by (auto elim!: st_bind_InrE)
  have "lockout_state c = lockout_state u \<and> clock_of c = clock_of u"
    using 3 lockout_of_steps(2) reset_commits_clock by (auto split: if_splits) (metis snd_conv)+
  then show ?thesis using u by (simp add: 4 restarted_lockout_def lockout_of_steps begin_operation_clock)
qed

section \<open>The attacker\<close>

text \<open>
  A state of the attack: the TPM, the state the file was last written from, the wrong guesses the TPM has
  judged and the milliseconds its Time has advanced. A command lets time pass and tries an authorization;
  the file is written at least when the watched fields have changed. The power may fail at any moment, and
  the TPM comes up with what the record of the file restores over a new TPM.
\<close>

type_synonym attack = "tpm_state \<times> tpm_state \<times> nat \<times> nat"

definition passed :: "tpm_state \<Rightarrow> tpm_state \<Rightarrow> nat" where
  "passed s t = unat (time (clock_of t)) - unat (time (clock_of s))"

definition written_file :: "tpm_state \<Rightarrow> tpm_state \<Rightarrow> tpm_state \<Rightarrow> tpm_state" where
  "written_file s t f = (if nv_witness_of t \<noteq> nv_witness_of s then t else f)"

inductive attacks :: "env \<Rightarrow> attack \<Rightarrow> attack \<Rightarrow> bool" for E where
  Attempt: "attacks E (s, f, g, el)
     (let s1 = snd (advance_time ms s); t = snd (check_authorization E q i e cp s1)
      in (t, written_file s t f, if wrong_guess E q i e cp s1 then Suc g else g, el + passed s s1))"
| Wait: "attacks E (s, f, g, el) (let t = snd (advance_time ms s) in (t, f, g, el + passed s t))"
| Write: "attacks E (s, f, g, el) (s, s, g, el)"
| Startup_clear: "on_startup_clear E loc s = (Inr (), t) \<Longrightarrow> attacks E (s, f, g, el) (t, f, g, el)"
| Startup_state: "on_startup_state E loc s = (Inr (), t) \<Longrightarrow> attacks E (s, f, g, el) (t, f, g, el)"
| Power_loss: "attacks E (s, f, g, el) (restored E m f, f, g, el)"

inductive_cases attacksE: "attacks E a b"

section \<open>The account\<close>

text \<open>
  Of the \<open>g\<close> guesses each is paid for by a try in use, up to \<open>maxTries\<close>, or by one of the \<open>n\<close> tries
  recovered; a deadline is at least one interval from the start of Time, and with a try in use the next
  recovery completes another interval.
\<close>

definition account :: "u32 \<Rightarrow> u32 \<Rightarrow> nat \<Rightarrow> nat \<Rightarrow> lockout \<Rightarrow> bool" where
  "account m r n g l \<longleftrightarrow> max_tries l = m \<and> recovery_time l = r \<and> g \<le> min (unat (failed_tries l)) (unat m) + n
     \<and> (0 < failed_tries l \<longrightarrow> 1000 * unat r \<le> unat (next_recovery l))"

definition due :: "u32 \<Rightarrow> nat \<Rightarrow> nat \<Rightarrow> u64 \<Rightarrow> lockout \<Rightarrow> bool" where
  "due r n el t l \<longleftrightarrow> (0 < failed_tries l \<longrightarrow>
     1000 * unat r * n + 1000 * unat r + unat t \<le> el + unat (next_recovery l))"

lemma account_more: "account m r n g l \<Longrightarrow> n \<le> n' \<Longrightarrow> account m r n' g l"
  by (auto simp: account_def)

text \<open>The interval that time passing adds, from one deadline to the next.\<close>

lemma recovery_account:
  assumes "account m r n g l" and "due r n el now l" and "1000 * unat r * n \<le> el" and "0 < r"
    and "unat now \<le> unat t" and "unat t + 1000 * unat r < 2 ^ 64 - 1" and "el + (unat t - unat now) + 1000 * unat r < 2 ^ 64 - 1"
    and "el' = el + (unat t - unat now)"
  obtains k where "account m r (n + k) g (on_time t l)" and "due r (n + k) el' t (on_time t l)"
    and "1000 * unat r * (n + k) \<le> el'" and "unat (failed_tries (on_time t l)) + k = unat (failed_tries l)"
proof -
  let ?i = "1000 * unat r"
  have l: "max_tries l = m" "recovery_time l = r" "g \<le> min (unat (failed_tries l)) (unat m) + n"
    "0 < failed_tries l \<longrightarrow> ?i \<le> unat (next_recovery l)"
    using assms(1) by (simp_all add: account_def)
  have i: "0 < ?i" using assms(4) by (simp add: word_less_nat_alt)
  define k where "k = recovered ?i (unat t) l"
  note b = recovered_bounds [OF i, of "unat t" l, folded k_def]
  have t: "unat t < 2 ^ 64 - 1" using assms(6) by simp
  have rt: "0 < recovery_time l" using l(2) assms(4) by simp
  note ot = on_time_fields [OF rt t, unfolded l(1,2), folded k_def]
  have paid: "?i * (n + k) \<le> el'"
  proof (cases "k = 0")
    case False
    then have "?i * n + ?i + unat now \<le> el + unat (next_recovery l)"
      using assms(2) b(1) by (simp add: due_def word_less_nat_alt)
    moreover have "?i * (n + k) = ?i * n + ?i + (k - 1) * ?i"
      using False by (cases k) (simp_all add: algebra_simps)
    ultimately show ?thesis using b(2) False assms(5,8) by linarith
  qed (use assms(3,8) in simp)
  have pos: "0 < failed_tries l \<and> k < unat (failed_tries l)" if "0 < failed_tries (on_time t l)"
    using that ot(1) by (simp add: word_less_nat_alt)
  show thesis
  proof (rule that)
    show "account m r (n + k) g (on_time t l)"
    proof -
      have "?i \<le> unat (next_recovery (on_time t l))" if "0 < failed_tries (on_time t l)"
      proof -
        have "?i \<le> unat (next_recovery l)" using l(4) pos [OF that] by blast
        moreover have "?i \<le> 2 ^ 64 - 1" using assms(6) by simp
        ultimately show ?thesis using ot(2) [OF that] by simp
      qed
      moreover have "g \<le> min (unat (failed_tries (on_time t l))) (unat m) + (n + k)"
        using l(3) ot(1) b(1) by (simp add: min_def split: if_splits)
      ultimately show ?thesis using ot(3,4) by (simp add: account_def)
    qed
    show "due r (n + k) el' t (on_time t l)"
      unfolding due_def
    proof
      assume f: "0 < failed_tries (on_time t l)"
      then have nxt: "unat (next_recovery (on_time t l)) = min (unat (next_recovery l) + k * ?i) (2 ^ 64 - 1)" by (rule ot(2))
      have "?i * n + ?i + unat now \<le> el + unat (next_recovery l)" using assms(2) pos [OF f] by (simp add: due_def)
      then have "?i * (n + k) + ?i + unat t \<le> el' + (unat (next_recovery l) + k * ?i)"
        using assms(5,8) by (simp add: algebra_simps)
      moreover have "?i * (n + k) + ?i + unat t \<le> el' + (2 ^ 64 - 1)" using paid assms(6) by linarith
      ultimately show "?i * (n + k) + ?i + unat t \<le> el' + unat (next_recovery (on_time t l))" using nxt by simp
    qed
    show "1000 * unat r * (n + k) \<le> el'" by (rule paid)
    show "unat (failed_tries (on_time t l)) + k = unat (failed_tries l)" using ot(1) b(1) by simp
  qed
qed

lemma advance_cases:
  obtains (still) "lockout_state (snd (advance_time ms s)) = lockout_state s"
      and "time (clock_of (snd (advance_time ms s))) = time (clock_of s)"
    | (moved) c where "time (clock_of (snd (advance_time ms s))) = saturating_add (time (clock_of s)) c"
      and "lockout_state (snd (advance_time ms s)) = on_time (saturating_add (time (clock_of s)) c) (lockout_state s)"
proof -
  obtain c k where sc: "scaled_millis ms (clock_of s) = (c, k)" by (cases "scaled_millis ms (clock_of s)")
  have k: "time k = time (clock_of s)" using sc by (auto simp: scaled_millis_def Let_def)
  have nd: "time (snd (nv_due a b)) = time b" for a b by (simp add: nv_due_def Let_def)
  show thesis
  proof (cases "ms = 0 \<or> c = 0")
    case True
    then show thesis using still sc k by (auto simp: advance_time_def Let_def)
  next
    case False
    obtain due d where due: "nv_due c (credit c k) = (due, d)" by (cases "nv_due c (credit c k)")
    have "time d = saturating_add (time (clock_of s)) c" using nd [of c "credit c k"] k unfolding due by (simp add: credit_def)
    then show thesis using moved [of c] False sc due k by (simp add: advance_time_def Let_def credit_def)
  qed
qed

definition attack_inv :: "u32 \<Rightarrow> u32 \<Rightarrow> nat \<Rightarrow> attack \<Rightarrow> bool" where
  "attack_inv m r t0 = (\<lambda>(s, f, g, el). \<exists>n. 1000 * unat r * n \<le> el \<and> unat (time (clock_of s)) \<le> t0 + el
     \<and> account m r n g (lockout_state s) \<and> due r n el (time (clock_of s)) (lockout_state s)
     \<and> account m r n g (lockout_state f))"

text \<open>Time passing, from the account before it to the one after it.\<close>

lemma advance_account:
  assumes "1000 * unat r * n \<le> el" and "unat (time (clock_of s)) \<le> t0 + el" and "account m r n g (lockout_state s)"
    and "due r n el (time (clock_of s)) (lockout_state s)" and "0 < r"
    and "t0 + el + passed s (snd (advance_time ms s)) + 1000 * unat r < 2 ^ 64 - 1"
  defines "t \<equiv> snd (advance_time ms s)"
  shows "\<exists>k. 1000 * unat r * (n + k) \<le> el + passed s t \<and> unat (time (clock_of t)) \<le> t0 + el + passed s t
    \<and> account m r (n + k) g (lockout_state t) \<and> due r (n + k) (el + passed s t) (time (clock_of t)) (lockout_state t)
    \<and> unat (failed_tries (lockout_state t)) + k = unat (failed_tries (lockout_state s))"
proof -
  consider (still) "lockout_state t = lockout_state s" "time (clock_of t) = time (clock_of s)"
    | (moved) c where "time (clock_of t) = saturating_add (time (clock_of s)) c"
      "lockout_state t = on_time (saturating_add (time (clock_of s)) c) (lockout_state s)"
    using advance_cases [of ms s] unfolding t_def by blast
  then show ?thesis
  proof cases
  case still
  then show ?thesis using assms(1-4) by (intro exI [of _ 0]) (simp add: passed_def)
next
  case (moved c)
  let ?now = "time (clock_of s)" and ?t = "saturating_add (time (clock_of s)) c"
  have le: "unat ?now \<le> unat ?t" using saturating_add_ge [of ?now c] by (simp add: word_le_nat_alt)
  have p: "passed s t = unat ?t - unat ?now" by (simp add: passed_def moved)
  have bound: "unat ?t + 1000 * unat r < 2 ^ 64 - 1" "el + (unat ?t - unat ?now) + 1000 * unat r < 2 ^ 64 - 1"
    using assms(2,6) le unfolding t_def [symmetric] p by linarith+
  have el': "el + passed s t = el + (unat ?t - unat ?now)" by (simp add: p)
  obtain k where "account m r (n + k) g (on_time ?t (lockout_state s))"
    "due r (n + k) (el + passed s t) ?t (on_time ?t (lockout_state s))" "1000 * unat r * (n + k) \<le> el + passed s t"
    "unat (failed_tries (on_time ?t (lockout_state s))) + k = unat (failed_tries (lockout_state s))"
    by (rule recovery_account [OF assms(3,4,1,5) le bound el'])
  moreover have "unat ?t \<le> t0 + el + passed s t" using assms(2) le unfolding p by linarith
  ultimately show ?thesis using moved by (intro exI [of _ k]) simp
  qed
qed

text \<open>One more failure pays for one more guess.\<close>

lemma failure_account:
  assumes "one_more now l k" and "same_limits l k" and "account m r n g l" and "1000 * unat r * n \<le> el"
    and "unat now + 1000 * unat r < 2 ^ 64 - 1" and "guessed \<Longrightarrow> \<not> locked_out l"
  shows "account m r n (if guessed then Suc g else g) k \<and> due r n el now k"
proof -
  have l: "max_tries l = m" "recovery_time l = r" "g \<le> min (unat (failed_tries l)) (unat m) + n"
    using assms(3) by (simp_all add: account_def)
  have nxt: "unat (next_recovery k) = unat now + 1000 * unat r"
    using assms(1,5) l(2) by (simp add: one_more_def unat_saturating_add unat_millis)
  have f: "unat (failed_tries k) = min (unat (failed_tries l) + 1) (2 ^ 32 - 1)"
    using assms(1) by (simp add: one_more_def unat_saturating_add)
  have "unat m < 2 ^ 32" "unat (failed_tries l) < 2 ^ 32" using unsigned_less [of m] unsigned_less [of "failed_tries l"] by simp_all
  then have up: "min (unat (failed_tries l)) (unat m) \<le> min (unat (failed_tries k)) (unat m)" unfolding f by simp
  have "Suc g \<le> min (unat (failed_tries k)) (unat m) + n" if guessed
  proof -
    have "unat (failed_tries l) < unat m" using assms(6) [OF that] l(1) by (auto simp: locked_out_def word_le_nat_alt not_le)
    then show ?thesis using l(3) \<open>unat m < 2 ^ 32\<close> unfolding f by simp
  qed
  moreover have "g \<le> min (unat (failed_tries k)) (unat m) + n" using l(3) up by linarith
  ultimately have "(if guessed then Suc g else g) \<le> min (unat (failed_tries k)) (unat m) + n" by (cases guessed) simp_all
  then show ?thesis using assms(2,4) l nxt by (simp add: account_def due_def same_limits_def)
qed

lemma startup_account:
  assumes "restarted_lockout l k" and "account m r n g l" and "1000 * unat r * n \<le> el"
  shows "account m r n g k \<and> due r n el 0 k"
proof -
  have l: "max_tries l = m" "recovery_time l = r" "g \<le> min (unat (failed_tries l)) (unat m) + n"
    using assms(2) by (simp_all add: account_def)
  obtain j where j: "k = lockout_on_startup j" "j = l \<or> j = count_pending_failure l"
    using assms(1) by (auto simp: restarted_lockout_def)
  have "unat (failed_tries l) \<le> unat (failed_tries j) \<and> max_tries j = m \<and> recovery_time j = r"
  proof (cases "j = l \<or> protection_off l \<or> \<not> failed_tries l < max_tries l")
    case False
    moreover have "unat (max_tries l) < 2 ^ 32" using unsigned_less [of "max_tries l"] by simp
    ultimately have "unat (failed_tries l + 1) = Suc (unat (failed_tries l))"
      by (simp add: unat_word_ariths word_less_nat_alt)
    with False j l show ?thesis by (simp add: count_pending_failure_def)
  qed (use j l in \<open>auto simp: count_pending_failure_def\<close>)
  moreover have "failed_tries k = failed_tries j" "max_tries k = max_tries j" "recovery_time k = recovery_time j"
    "next_recovery k = (if 0 < failed_tries j then millis (recovery_time j) else 0)"
    by (simp_all add: j(1) lockout_on_startup_def Let_def)
  ultimately show ?thesis using l(3) assms(3) by (simp add: account_def due_def unat_millis min_def split: if_splits)
qed

lemma attacks_later: "attacks E (s, f, g, el) (s', f', g', el') \<Longrightarrow> el \<le> el'"
  by (erule attacksE) (auto simp: Let_def)

lemma attack_step_inv:
  assumes "attacks E a b" and "attack_inv m r t0 a" and "0 < r" and "t0 + snd (snd (snd b)) + 1000 * unat r < 2 ^ 64 - 1"
  shows "attack_inv m r t0 b"
  using assms(1)
proof (cases rule: attacks.cases)
  case (Attempt s f g el ms q i e cp)
  define s1 where "s1 = snd (advance_time ms s)"
  obtain r' t where c: "check_authorization E q i e cp s1 = (r', t)" by (cases "check_authorization E q i e cp s1")
  have b: "b = (t, written_file s t f, if wrong_guess E q i e cp s1 then Suc g else g, el + passed s s1)"
    using Attempt(2) c by (simp add: s1_def [symmetric] Let_def)
  obtain n where n: "1000 * unat r * n \<le> el" "unat (time (clock_of s)) \<le> t0 + el" "account m r n g (lockout_state s)"
    "due r n el (time (clock_of s)) (lockout_state s)" "account m r n g (lockout_state f)"
    using assms(2) Attempt(1) by (auto simp: attack_inv_def)
  obtain k where k: "1000 * unat r * (n + k) \<le> el + passed s s1" "unat (time (clock_of s1)) \<le> t0 + el + passed s s1"
    "account m r (n + k) g (lockout_state s1)" "due r (n + k) (el + passed s s1) (time (clock_of s1)) (lockout_state s1)"
    "unat (failed_tries (lockout_state s1)) + k = unat (failed_tries (lockout_state s))"
    using advance_account [OF n(1-4) assms(3), where ms = ms] assms(4) by (auto simp: b s1_def add.assoc)
  have rt: "0 < recovery_time (lockout_state s1)" using k(3) assms(3) by (simp add: account_def)
  note at = attempt_lockout [OF c rt]
  have clk: "clock_of t = clock_of s1" using at by blast
  have guess: "wrong_guess E q i e cp s1 \<Longrightarrow> \<not> locked_out (lockout_state s1)" using wrong_guess_counted by blast
  have f: "account m r (n + k) g (lockout_state f)" by (rule account_more [OF n(5)]) simp
  let ?g = "if wrong_guess E q i e cp s1 then Suc g else g"
  have new: "account m r (n + k) ?g (lockout_state t) \<and> due r (n + k) (el + passed s s1) (time (clock_of s1)) (lockout_state t)"
    using at
  proof (elim conjE disjE)
    assume "one_more (time (clock_of s1)) (lockout_state s1) (lockout_state t)" "same_limits (lockout_state s1) (lockout_state t)"
    then show ?thesis
      using k(1,2) assms(4) guess by (intro failure_account [OF _ _ k(3)]) (simp_all add: b)
  next
    assume "same_limits (lockout_state s1) (lockout_state t)" "\<not> wrong_guess E q i e cp s1"
      "failed_tries (lockout_state t) = failed_tries (lockout_state s1)"
      "next_recovery (lockout_state t) = next_recovery (lockout_state s1)"
    then show ?thesis using k(3,4) by (simp add: account_def due_def same_limits_def)
  qed
  have "account m r (n + k) ?g (lockout_state (written_file s t f))"
  proof (cases "nv_witness_of t = nv_witness_of s \<and> wrong_guess E q i e cp s1")
    case True
    then have same: "failed_tries (lockout_state t) = failed_tries (lockout_state s)" by (simp add: nv_witness_of_def)
    have "failed_tries (lockout_state s1) < max_tries (lockout_state s1)"
      using guess True by (auto simp: locked_out_def not_le)
    then have "unat (failed_tries (lockout_state s1)) + 1 < 2 ^ 32"
      using unsigned_less [of "max_tries (lockout_state s1)", where 'a = nat] by (simp add: word_less_nat_alt)
    then have "unat (failed_tries (lockout_state t)) = Suc (unat (failed_tries (lockout_state s1)))"
      using at True by (auto simp: one_more_def unat_saturating_add)
    then have "k = 1" using same k(5) by simp
    then show ?thesis using True n(5) by (simp add: written_file_def account_def)
  next
    case False
    then show ?thesis using new f by (auto simp: written_file_def)
  qed
  then show ?thesis using new k(1,2) clk by (auto simp: b attack_inv_def intro!: exI [of _ "n + k"])
next
  case (Wait s f g el ms)
  obtain n where n: "1000 * unat r * n \<le> el" "unat (time (clock_of s)) \<le> t0 + el" "account m r n g (lockout_state s)"
    "due r n el (time (clock_of s)) (lockout_state s)" "account m r n g (lockout_state f)"
    using assms(2) Wait(1) by (auto simp: attack_inv_def)
  obtain k where k: "1000 * unat r * (n + k) \<le> el + passed s (snd (advance_time ms s))"
    "unat (time (clock_of (snd (advance_time ms s)))) \<le> t0 + el + passed s (snd (advance_time ms s))"
    "account m r (n + k) g (lockout_state (snd (advance_time ms s)))"
    "due r (n + k) (el + passed s (snd (advance_time ms s))) (time (clock_of (snd (advance_time ms s)))) (lockout_state (snd (advance_time ms s)))"
    using advance_account [OF n(1-4) assms(3), where ms = ms] assms(4) Wait(2) by (auto simp: Let_def add.assoc)
  moreover have "account m r (n + k) g (lockout_state f)" by (rule account_more [OF n(5)]) simp
  ultimately show ?thesis using Wait(2) by (auto simp: attack_inv_def Let_def add.assoc)
next
  case (Startup_clear loc s t f g el)
  then show ?thesis using assms(2) startup_clear_lockout [OF Startup_clear(3)] startup_account
    by (fastforce simp: attack_inv_def)
next
  case (Startup_state loc s t f g el)
  then show ?thesis using assms(2) startup_state_lockout [OF Startup_state(3)] startup_account
    by (fastforce simp: attack_inv_def)
next
  case (Power_loss s f g el m')
  have l: "lockout_state (restored E m' f) = kept_lockout (lockout_state f)" "time (clock_of (restored E m' f)) = 0"
    by (simp_all add: restored_def kept_clock_def)
  then show ?thesis using assms(2) Power_loss
    by (auto simp: attack_inv_def account_def due_def kept_lockout_def)
qed (use assms(2) in \<open>auto simp: attack_inv_def\<close>)


abbreviation (input) guarded :: entity where
  "guarded \<equiv> permanent_entity [] [7] None True True"

abbreviation (input) wrong_password :: request where
  "wrong_password \<equiv> demo_request cc_Clear rh_OWNER [8]"

lemma clear_needs_user: "nv_access_of cc_Clear = None" "role_of cc_Clear 0 = R_User"
  by (simp_all add: nv_access_of_def role_of_def row_of_def ROWS_def get_at_def)

lemma wrong_password_judged:
  assumes "\<not> locked_out (lockout_state s)"
  shows "wrong_guess E wrong_password 0 guarded cp s"
    and "snd (check_authorization E wrong_password 0 guarded cp s)
      = s\<lparr>lockout_state := record_failure True (time (clock_of s)) (lockout_state s)\<rparr>"
proof -
  let ?q = wrong_password
  have p: "da_protected s ?q 0 (guarded\<lparr>en_auth := v\<rparr>)" for v by (simp add: da_protected_def permanent_entity_def)
  have n: "\<not> names_lockout ?q 0" by (simp add: names_lockout_def demo_request_def get_at_def)
  have ok: "screened E s ?q 0 (guarded\<lparr>en_auth := v\<rparr>) cp = Inr ()" "pin_allows s ?q 0 (guarded\<lparr>en_auth := v\<rparr>) = Inr ()" for v
    using assms p [of v] n
    by (simp_all add: screened_def check_lockout_def check_nv_authorization_available_def clear_needs_user value_allowed_def
        check_role_allows_auth_value_def demo_request_def permanent_entity_def Let_def pin_allows_def check_pin_available_def)
  have shown: "shows_proof E s ?q 0 (guarded\<lparr>en_auth := v\<rparr>) cp \<longleftrightarrow> trim_auth v = [8]" for v
    by (auto simp: shows_proof_def shows_value_def demo_request_def permanent_entity_def trim_auth_def)
  have self: "guarded = guarded\<lparr>en_auth := [7]\<rparr>" by (simp add: permanent_entity_def)
  have t: "check_authorization E ?q 0 (guarded\<lparr>en_auth := v\<rparr>) cp s =
      (if trim_auth v = [8] then (Inr (), pin_counted ?q 0 (guarded\<lparr>en_auth := v\<rparr>) True s)
       else (Inl (with_session 1 (failure_code True)), guess_counted ?q 0 (guarded\<lparr>en_auth := v\<rparr>) s))" for v
    using ok [of v] shown [of v] p [of v] by (simp add: authorization_outcome)
  have no: "trim_auth [7 :: u8] \<noteq> [8]" "trim_auth [8 :: u8] = [8]" by (simp_all add: trim_auth_def)
  show "wrong_guess E ?q 0 guarded cp s"
    unfolding wrong_guess_def using p [of "[7]"] t [of "[7]"] t [of "[8]"] no
    by (auto simp: self [symmetric] demo_request_def intro!: exI [of _ "[8]"])
  have "guess_counted ?q 0 guarded s = s\<lparr>lockout_state := record_failure True (time (clock_of s)) (lockout_state s)\<rparr>"
    using p [of "[7]"] n by (simp add: self [symmetric] guess_counted_def special_guess_def pin_counted_def
        record_pin_attempt_def note_failure_def permanent_entity_def)
  then show "snd (check_authorization E ?q 0 guarded cp s)
      = s\<lparr>lockout_state := record_failure True (time (clock_of s)) (lockout_state s)\<rparr>"
    using t [of "[7]"] no by (simp add: self [symmetric])
qed


end
