(* ===== verification/Spec2Isabelle.thy ===== *)
theory Spec2Isabelle
  imports Prelude BTreeMap ResponseCode Marshal Attributes Hash Rand Commit Base Lists Pcr NvStruct NvCore Schemes Session SessionSlots Lockout Act Hierarchy Keys Objects Clock Commands TpmState Dispatch Authz
    Sym Response Reply Management Execute StateRecord StateRoundtrip Device Bn Rsa Ecc Signature Frame Crypto Sequences NvCommands
    Policy Assertions PolicyLaws Trial Restrictions PcrCommands HierarchyCommands Attest Protect Contexts ObjectCommands ObjectLaws Guesses
begin

text \<open>
  A verification development of a software TPM 2.0 written in Rust (\<open>src/tpm\<close> and its device around it).

  The program. A host sends command buffers to a device (\<open>device.rs\<close>) over one of several servers. The device parses
  and runs one command at a time (\<open>commands/execute.rs\<close>): it parses the header, handles and session area
  (\<open>commands/dispatch.rs\<close>) by the tables of \<open>commands/table.rs\<close> and \<open>commands/handles.rs\<close>, checks handles and
  sessions, checks each authorization, decrypts the first parameter, runs the command function, encrypts and
  authorizes the response, rolls the nonces and closes the sessions. Command functions (\<open>commands/*.rs\<close>) act on one
  \<open>TpmState\<close> (\<open>core/state.rs\<close>), which owns the hierarchies, NV indices, PCR banks, objects, sessions, lockout,
  clock, audit digests, commit values and the countdown timer (\<open>core/*.rs\<close>). After a command that writes NV the
  device writes the whole state as one record to a file. All structures cross the wire by the marshalling layer
  (\<open>marshal.rs\<close>, \<open>structures/*.rs\<close>); the cryptography (\<open>crypto/*.rs\<close>) is built on aws-lc.

  How it is modelled. Machine integers are words of their width, buffers are lists of 8-bit words, structs are records,
  enums are datatypes, ordered maps are the lists of \<open>BTreeMap\<close>. A response code is a 32-bit word and a fallible
  function returns \<open>tpm_rc + 'a\<close>. A method on a mutable reference returns its result together with the state it
  leaves, also on an error, because the question mark operator keeps what was changed before it (\<open>st_op\<close> of
  \<open>Prelude\<close>). A command is a function from the request to such an operation on \<open>tpm_state\<close> (\<open>command\<close> of \<open>Reply\<close>).
  What is not in the repository is an argument: the hash functions and the profile (record \<open>env\<close>), AES
  (\<open>aes_lib\<close>), big numbers (\<open>bn_lib\<close>), elliptic curve groups (\<open>ec_lib\<close>), key generation in object templates
  (\<open>key_lib\<close>), the known answer tests (\<open>self_tests\<close>), and the octets of the random generator, whose state is
  threaded through. What the code relies on of each is a predicate (\<open>env_ok\<close>, \<open>aes_ok\<close>, \<open>bn_ok\<close>, \<open>ec_ok\<close>) that
  the witnesses discharge at concrete instances.

  The theories, from the bottom.

  Foundations. \<open>Prelude\<close>: types, errors, state passing, big-endian octets, saturation, and the locale of an
  invariant kept by runs. \<open>BTreeMap\<close>: the ordered maps and their interface. \<open>ResponseCode\<close>: \<open>constants.rs\<close>,
  \<open>error.rs\<close>. \<open>Marshal\<close>: \<open>marshal.rs\<close> with the locales \<open>decoder\<close> and \<open>codec\<close>, the contract of every structure.
  \<open>Attributes\<close>, \<open>Base\<close>, \<open>Lists\<close>, \<open>NvStruct\<close>, \<open>Schemes\<close>, \<open>Keys\<close>, \<open>Signature\<close>, \<open>Attest\<close>: the structures of the wire
  (\<open>structures/*.rs\<close>), each with its codec interpretation: what is written is read back, what is read is in the
  range of the type.

  Cryptography. \<open>Hash\<close>: hashing, HMAC, KDFa, KDFe, MGF1; HMAC equals its FIPS 198 definition, derivations have the
  asked length. \<open>Rand\<close>: the HMAC_DRBG and the seeded generator, equal to SP 800-90A. \<open>Sym\<close>: block cipher modes and
  obfuscation, decryption inverts encryption. \<open>Numbers\<close>, \<open>Bn\<close>, \<open>Rsa\<close>: RSA keys, operations, paddings, key
  generation. \<open>Ecc\<close>: curves, key agreement, ECDSA, Schnorr, ECDAA, the pairwise test.

  State. \<open>Commit\<close>, \<open>Pcr\<close>, \<open>NvCore\<close>, \<open>Session\<close>, \<open>SessionSlots\<close>, \<open>Lockout\<close>, \<open>Act\<close>, \<open>Hierarchy\<close>, \<open>Objects\<close>,
  \<open>Clock\<close>: one component of \<open>core/*.rs\<close> each, with its well-formedness invariant over runs of its operations and
  the contract it keeps: commit counters are spent once, NV counters fall only where an owner clear or a disorderly
  startup makes them, a saved session loads once unless an older state is loaded, the clock only goes forward. \<open>TpmState\<close>: the whole state, manufacture,
  startups, clear. \<open>StateRecord\<close>, \<open>StateRoundtrip\<close>: the record in the state file and that it gives the state back.

  Commands. \<open>Commands\<close>: the tables. \<open>Dispatch\<close>: parsing and the checks of handles and sessions. \<open>Authz\<close>: one
  authorization, exactly; no guess is free. \<open>Response\<close>: parameter encryption, nonces, audit, response
  authorizations, closing. \<open>Execute\<close>: the pipeline; no command function runs without its authorizations.
  \<open>Reply\<close>, \<open>Frame\<close>: what command functions share, with a small logic of pre- and postconditions. \<open>Management\<close>:
  startup, shutdown, tests, randomness, clock. \<open>NvCommands\<close>: \<open>nv.rs\<close>. \<open>PcrCommands\<close>: \<open>pcr.rs\<close>; what is
  read, and that an accepted allocation takes effect. \<open>HierarchyCommands\<close>: \<open>hierarchy.rs\<close>; what TPM2_Clear leaves. \<open>Crypto\<close>, \<open>Sequences\<close>: signing,
  verifying, hashing, HMAC and the sequences of \<open>crypto.rs\<close> and \<open>signing.rs\<close>. \<open>Protect\<close>: \<open>core/protect.rs\<close>; what is
  wrapped comes back, and a seed reaches the holder of the key. \<open>Contexts\<close>: \<open>context.rs\<close> and saved contexts; a
  context gives back what was saved. \<open>Policy\<close>, \<open>Assertions\<close>:
  \<open>policy.rs\<close>; \<open>PolicyLaws\<close>, \<open>Trial\<close>, \<open>Restrictions\<close>: what policies promise: comparisons of numbers, tickets, what a
  trial session foretells, what a session records and keeps, and how a key without a name gets round an approval.
  \<open>ObjectCommands\<close>: \<open>object.rs\<close>; creation, derivation, loading and reading of objects; \<open>ObjectLaws\<close>: what
  is created can be loaded. \<open>Device\<close>: power,
  indications, the writing of the file around a command. \<open>Guesses\<close>: dictionary attack protection over runs of
  authorizations, time, startups and power losses; the wrong guesses are bounded by the recovery time.

  Bounds and fuel. Loops over lists and byte counts are structural or have a measure. The elliptic curve loops that
  draw a nonce again are bounded by the code itself (1000 tries, \<open>Ecc\<close>). The loops of RSA key generation and of the
  PKCS#1 v1.5 padding may go on for ever and are partial functions into \<open>option\<close>; that the padding ends is proved
  for every generator that keeps giving a non-zero octet. Counters that saturate or wrap do so in the model.

  Not modelled. The servers, the console, logging, the command line, the hexadecimal text of the state file and the
  locks of the device are input and output. TPM2_PolicyCapability and TPM2_GetCapability read tables of every
  component. The commands that import, duplicate, certify or encrypt with keys, and the DER structures they use are left out:
  they compose the modelled paddings, derivations and object rules. The known answer tests only compare recorded values.
\<close>

end
